(* ===== verification/JsPrelude.thy ===== *)
theory JsPrelude
  imports Main "HOL-Library.AList" "HOL-Library.Multiset" "HOL-Library.List_Lexorder" "HOL-Library.Char_ord"
    "HOL-Library.Product_Lexorder"
begin

text \<open>
  What every component of the facilitator shares: the JavaScript values and containers the
  source uses, as HOL types, and the generic lemmas about them.

  \<^item> \<open>json\<close>: a parsed JSON value; \<open>js_truthy\<close> is JavaScript's truth test.
  \<^item> \<open>jsnum\<close>: a JavaScript number that is an integer or NaN; every comparison with NaN is
    false, as in the language.
  \<^item> \<open>jsmap\<close>: a JavaScript \<open>Map\<close>. Its entries keep their insertion order (the order
    \<open>entries()\<close>, \<open>values()\<close> and \<open>for ... of\<close> visit), so it is an association list;
    \<open>set\<close> is \<open>AList.update\<close> (in place for a known key, appended for a new one) and
    \<open>delete\<close> is \<open>AList.delete\<close>.
  \<^item> \<open>nullish\<close>: the operator \<open>??\<close>, with null and undefined both \<open>None\<close>.
  \<^item> \<open>js_sort_by\<close>: \<open>Array.prototype.sort\<close> with a numeric key; both are stable.
  \<^item> \<open>int_str\<close>: an integer in a template literal.
\<close>

section \<open>Values\<close>

datatype json =
    JNull
  | JBool bool
  | JNum int
  | JStr string
  | JArr "json list"
  | JObj "(string \<times> json) list"

fun js_truthy :: "json \<Rightarrow> bool" where
  "js_truthy JNull = False"
| "js_truthy (JBool b) = b"
| "js_truthy (JNum n) = (n \<noteq> 0)"
| "js_truthy (JStr s) = (s \<noteq> [])"
| "js_truthy (JArr xs) = True"
| "js_truthy (JObj fs) = True"

datatype jsnum = Fin int | NaN

fun js_add :: "jsnum \<Rightarrow> jsnum \<Rightarrow> jsnum" where
  "js_add (Fin a) (Fin b) = Fin (a + b)"
| "js_add _ _ = NaN"

fun js_lt :: "jsnum \<Rightarrow> jsnum \<Rightarrow> bool" where
  "js_lt (Fin a) (Fin b) = (a < b)"
| "js_lt _ _ = False"

fun is_finite_num :: "jsnum \<Rightarrow> bool" where
  "is_finite_num (Fin _) = True"
| "is_finite_num NaN = False"

lemma js_lt_Fin_iff: "js_lt (Fin a) n \<longleftrightarrow> (\<exists>b. n = Fin b \<and> a < b)"
  by (cases n) auto

section \<open>The nullish operator\<close>

definition nullish :: "'a option \<Rightarrow> 'a option \<Rightarrow> 'a option" where
  "nullish a b = (case a of None \<Rightarrow> b | Some _ \<Rightarrow> a)"

definition nullish_or :: "'a option \<Rightarrow> 'a \<Rightarrow> 'a" where
  "nullish_or a d = (case a of None \<Rightarrow> d | Some x \<Rightarrow> x)"

lemma nullish_simps [simp]:
  "nullish None b = b" "nullish (Some x) b = Some x"
  "nullish_or None d = d" "nullish_or (Some x) d = x"
  by (simp_all add: nullish_def nullish_or_def)

lemma nullish_None_right [simp]: "nullish a None = a"
  by (cases a) simp_all

lemma nullish_assoc: "nullish (nullish a b) c = nullish a (nullish b c)"
  by (cases a) simp_all

lemma nullish_eq_None_iff [simp]: "nullish a b = None \<longleftrightarrow> a = None \<and> b = None"
  by (cases a) simp_all

section \<open>Maps\<close>

type_synonym ('k, 'v) jsmap = "('k \<times> 'v) list"

abbreviation jm_get :: "('k, 'v) jsmap \<Rightarrow> 'k \<Rightarrow> 'v option" where
  "jm_get m k \<equiv> map_of m k"

abbreviation jm_set :: "'k \<Rightarrow> 'v \<Rightarrow> ('k, 'v) jsmap \<Rightarrow> ('k, 'v) jsmap" where
  "jm_set k v m \<equiv> AList.update k v m"

abbreviation jm_delete :: "'k \<Rightarrow> ('k, 'v) jsmap \<Rightarrow> ('k, 'v) jsmap" where
  "jm_delete k m \<equiv> AList.delete k m"

abbreviation jm_wf :: "('k, 'v) jsmap \<Rightarrow> bool" where
  "jm_wf m \<equiv> distinct (map fst m)"

definition jm_keys :: "('k, 'v) jsmap \<Rightarrow> 'k list" where
  "jm_keys m = map fst m"

definition jm_values :: "('k, 'v) jsmap \<Rightarrow> 'v list" where
  "jm_values m = map snd m"

lemma jm_get_set: "jm_get (jm_set k v m) j = (if j = k then Some v else jm_get m j)"
  by (simp add: update_conv')

lemma jm_get_delete: "jm_get (jm_delete k m) j = (if j = k then None else jm_get m j)"
  by (simp add: delete_conv')

lemma jm_wf_set [simp]: "jm_wf m \<Longrightarrow> jm_wf (jm_set k v m)"
  by (rule distinct_update)

lemma jm_wf_delete [simp]: "jm_wf m \<Longrightarrow> jm_wf (jm_delete k m)"
  by (rule distinct_delete)

lemma jm_wf_filter [simp]: "jm_wf m \<Longrightarrow> jm_wf (filter P m)"
  by (rule distinct_map_filter)

lemma length_jm_set:
  "length (jm_set k v m) = (if jm_get m k = None then Suc (length m) else length m)"
  by (induction m) auto

lemma jm_set_new: "jm_get m k = None \<Longrightarrow> jm_set k v m = m @ [(k, v)]"
  by (induction m) (auto split: if_splits)

lemma jm_set_last: "jm_get m k = None \<Longrightarrow> jm_set k v (m @ [(k, w)]) = m @ [(k, v)]"
  by (induction m) (auto split: if_splits)

lemma map_of_filter_wf:
  assumes "jm_wf m"
  shows "map_of (filter P m) k = (case map_of m k of None \<Rightarrow> None | Some v \<Rightarrow> if P (k, v) then Some v else None)"
  using assms
proof (induction m)
  case Nil
  then show ?case by simp
next
  case (Cons p m)
  have "k = fst p \<Longrightarrow> map_of m k = None"
    using Cons.prems by (simp add: map_of_eq_None_iff)
  with Cons show ?case
    by (cases p) (auto split: option.splits)
qed

lemma fst_set_jm_delete [simp]: "fst ` set (jm_delete k m) = fst ` set m - {k}"
  by (induction m) auto

text \<open>A loop that pushes the keys passing a test is \<open>filter\<close>.\<close>

lemma concat_if_singleton: "concat (map (\<lambda>k. if P k then [k] else []) xs) = filter P xs"
  by (induction xs) simp_all

section \<open>Sorting\<close>

definition js_sort_by :: "('a \<Rightarrow> 'b::linorder) \<Rightarrow> 'a list \<Rightarrow> 'a list" where
  "js_sort_by f xs = sort_key f xs"

lemma set_js_sort_by [simp]: "set (js_sort_by f xs) = set xs"
  by (simp add: js_sort_by_def)

lemma length_js_sort_by [simp]: "length (js_sort_by f xs) = length xs"
  by (simp add: js_sort_by_def)

lemma sorted_js_sort_by: "sorted (map f (js_sort_by f xs))"
  by (simp add: js_sort_by_def)

lemma distinct_js_sort_by [simp]: "distinct (map g (js_sort_by f xs)) = distinct (map g xs)"
proof -
  have "mset (map g (js_sort_by f xs)) = mset (map g xs)"
    unfolding js_sort_by_def mset_map by simp
  then show ?thesis by (rule mset_eq_imp_distinct_iff)
qed

text \<open>A sorted list split at a point: everything before is at most everything after.\<close>

lemma sorted_take_drop_le:
  assumes "x \<in> set (take n (js_sort_by f xs))" "y \<in> set (drop n (js_sort_by f xs))"
  shows "f x \<le> f y"
proof -
  have "sorted (map f (take n (js_sort_by f xs)) @ map f (drop n (js_sort_by f xs)))"
    by (metis append_take_drop_id map_append sorted_js_sort_by)
  with assms show ?thesis by (auto simp: sorted_append)
qed

section \<open>Numbers in template literals\<close>

fun nat_str :: "nat \<Rightarrow> string" where
  "nat_str n = (if n < 10 then [char_of (48 + n)] else nat_str (n div 10) @ [char_of (48 + n mod 10)])"

declare nat_str.simps [simp del]

definition int_str :: "int \<Rightarrow> string" where
  "int_str i = (if i < 0 then CHR ''-'' # nat_str (nat (- i)) else nat_str (nat i))"

lemma char_of_digit_inj:
  assumes "m < 10" "n < 10" "char_of (48 + m :: nat) = (char_of (48 + n) :: char)"
  shows "m = n"
proof -
  have "of_char (char_of (48 + m :: nat)) = (of_char (char_of (48 + n :: nat)) :: nat)"
    using assms(3) by simp
  with assms(1,2) show ?thesis by (simp add: of_char_of)
qed

lemma nat_str_ne [simp]: "nat_str n \<noteq> []" "[] \<noteq> nat_str n"
  by (subst nat_str.simps, simp)+

lemma nat_str_inj: "nat_str m = nat_str n \<Longrightarrow> m = n"
proof (induction m arbitrary: n rule: nat_str.induct)
  case (1 m)
  consider "m < 10" "n < 10" | "m < 10" "\<not> n < 10" | "\<not> m < 10" "n < 10" | "\<not> m < 10" "\<not> n < 10"
    by blast
  then show ?case
  proof cases
    case 1
    with "1.prems" have "char_of (48 + m) = (char_of (48 + n) :: char)"
      by (simp add: nat_str.simps [of m] nat_str.simps [of n])
    with 1 show ?thesis by (blast intro: char_of_digit_inj)
  next
    case 2
    with "1.prems" show ?thesis
      by (auto simp: nat_str.simps [of m] nat_str.simps [of n] dest: sym)
  next
    case 3
    with "1.prems" show ?thesis
      by (auto simp: nat_str.simps [of m] nat_str.simps [of n])
  next
    case 4
    with "1.prems" have eq: "nat_str (m div 10) = nat_str (n div 10)"
      and ch: "char_of (48 + m mod 10) = (char_of (48 + n mod 10) :: char)"
      by (simp_all add: nat_str.simps [of m] nat_str.simps [of n])
    from 4 eq have "m div 10 = n div 10" by (intro "1.IH") auto
    moreover from ch have "m mod 10 = n mod 10" by (intro char_of_digit_inj) auto
    ultimately show ?thesis by (metis div_mult_mod_eq)
  qed
qed

lemma char_of_digit_neq:
  fixes m :: nat
  assumes "m < 10" "of_char c < (48 :: nat) \<or> 58 \<le> (of_char c :: nat)"
  shows "c \<noteq> char_of (48 + m)"
proof
  assume "c = char_of (48 + m)"
  then have "(of_char c :: nat) = 48 + m"
    using assms(1) by (simp add: of_char_of)
  with assms show False by auto
qed

lemma nat_str_chars:
  fixes c :: char
  assumes "of_char c < (48 :: nat) \<or> 58 \<le> (of_char c :: nat)"
  shows "c \<notin> set (nat_str n)"
proof (induction n rule: nat_str.induct)
  case (1 n)
  have small: "c \<noteq> char_of (48 + m)" if "m < 10" for m :: nat
    using that assms by (rule char_of_digit_neq)
  show ?case
  proof (cases "n < 10")
    case True
    with small [of n] show ?thesis by (subst nat_str.simps) auto
  next
    case False
    have "c \<noteq> char_of (48 + n mod 10)" by (rule small) simp
    with False "1.IH" show ?thesis by (subst nat_str.simps) auto
  qed
qed

lemma nat_str_no_colon: "CHR '':'' \<notin> set (nat_str n)"
  by (rule nat_str_chars) simp

lemma nat_str_no_minus: "CHR ''-'' \<notin> set (nat_str n)"
  by (rule nat_str_chars) simp

lemma int_str_no_colon: "CHR '':'' \<notin> set (int_str i)"
  by (simp add: int_str_def nat_str_no_colon)

lemma nat_str_neq_minus: "nat_str m \<noteq> CHR ''-'' # xs" "CHR ''-'' # xs \<noteq> nat_str m"
  using nat_str_no_minus [of m] by (metis list.set_intros(1))+

lemma int_str_inj:
  assumes "int_str i = int_str j"
  shows "i = j"
proof -
  consider "i < 0" "j < 0" | "0 \<le> i" "0 \<le> j" | "i < 0" "0 \<le> j" | "0 \<le> i" "j < 0"
    by linarith
  then show ?thesis
  proof cases
    case 1
    with assms have "nat (- i) = nat (- j)" by (auto simp: int_str_def dest: nat_str_inj)
    with 1 show ?thesis by simp
  next
    case 2
    with assms have "nat i = nat j" by (auto simp: int_str_def dest: nat_str_inj)
    with 2 show ?thesis by simp
  qed (use assms in \<open>simp_all add: int_str_def nat_str_neq_minus\<close>)
qed

text \<open>Splitting a colon-separated key at its last colon is unambiguous.\<close>

lemma append_sep_inj:
  "xs @ c # s = ys @ c # t \<Longrightarrow> c \<notin> set s \<Longrightarrow> c \<notin> set t \<Longrightarrow> xs = ys \<and> s = t"
proof (induction xs arbitrary: ys)
  case Nil
  then show ?case by (cases ys) auto
next
  case (Cons x xs)
  then show ?case by (cases ys) auto
qed

section \<open>Strings\<close>

text \<open>
  \<open>String.prototype.trim\<close> on the characters a byte can hold: tab, line feed, vertical tab,
  form feed, carriage return, space and no-break space.
\<close>

definition js_space :: "char \<Rightarrow> bool" where
  "js_space c \<longleftrightarrow> (let n = (of_char c :: nat) in (9 \<le> n \<and> n \<le> 13) \<or> n = 32 \<or> n = 160)"

definition js_trim :: "string \<Rightarrow> string" where
  "js_trim s = rev (dropWhile js_space (rev (dropWhile js_space s)))"

text \<open>\<open>toUpperCase\<close> on ASCII text.\<close>

definition js_upper_char :: "char \<Rightarrow> char" where
  "js_upper_char c = (let n = (of_char c :: nat) in if 97 \<le> n \<and> n \<le> 122 then char_of (n - 32) else c)"

definition js_upper :: "string \<Rightarrow> string" where
  "js_upper s = map js_upper_char s"

text \<open>\<open>s.split(c)\<close> for a one-character separator.\<close>

fun js_split :: "char \<Rightarrow> string \<Rightarrow> string list" where
  "js_split c [] = [[]]"
| "js_split c (x # xs) = (if x = c then [] # js_split c xs
     else (case js_split c xs of [] \<Rightarrow> [[x]] | w # ws \<Rightarrow> (x # w) # ws))"

text \<open>
  \<open>s.slice(0, s.lastIndexOf(c))\<close> and what follows the separator, when there is one.
\<close>

definition split_last :: "char \<Rightarrow> string \<Rightarrow> (string \<times> string) option" where
  "split_last c s =
     (if c \<in> set s
      then Some (rev (tl (dropWhile (\<lambda>x. x \<noteq> c) (rev s))), rev (takeWhile (\<lambda>x. x \<noteq> c) (rev s)))
      else None)"

definition is_digit :: "char \<Rightarrow> bool" where
  "is_digit c \<longleftrightarrow> (let n = (of_char c :: nat) in 48 \<le> n \<and> n \<le> 57)"

text \<open>The value of a string of decimal digits.\<close>

definition digits_value :: "string \<Rightarrow> int" where
  "digits_value s = foldl (\<lambda>acc c. 10 * acc + (int (of_char c) - 48)) 0 s"

text \<open>
  \<open>Number(s)\<close> when it is an integer: the empty string is 0 and digits are their value; the
  literals with a sign, point, exponent or base prefix are \<open>other\<close>'s business.
\<close>

definition js_integer :: "(string \<Rightarrow> int option) \<Rightarrow> string \<Rightarrow> int option" where
  "js_integer other s =
     (let t = js_trim s in
      if t = [] then Some 0 else if list_all is_digit t then Some (digits_value t) else other t)"

text \<open>\<open>parseInt(s, 10)\<close>: leading white space, a sign, and the digits that follow; no digit is NaN.\<close>

definition js_parseInt :: "string \<Rightarrow> jsnum" where
  "js_parseInt s =
     (let t = dropWhile js_space s;
          neg = (case t of c # _ \<Rightarrow> c = CHR ''-'' | [] \<Rightarrow> False);
          u = (case t of c # cs \<Rightarrow> if c = CHR ''-'' \<or> c = CHR ''+'' then cs else t | [] \<Rightarrow> []);
          ds = takeWhile is_digit u
      in if ds = [] then NaN else Fin (if neg then - digits_value ds else digits_value ds))"

lemma digit_char:
  assumes "n < 10"
  shows "is_digit (char_of (48 + n :: nat))" "of_char (char_of (48 + n :: nat) :: char) = 48 + n"
  using assms by (simp_all add: is_digit_def of_char_of)

lemma nat_str_digits: "list_all is_digit (nat_str n)"
proof (induction n rule: nat_str.induct)
  case (1 n)
  then show ?case by (subst nat_str.simps) (simp add: digit_char)
qed

lemma digits_value_snoc: "digits_value (s @ [c]) = 10 * digits_value s + (int (of_char c) - 48)"
  by (simp add: digits_value_def)

lemma digits_value_nat_str: "digits_value (nat_str n) = int n"
proof (induction n rule: nat_str.induct)
  case (1 n)
  show ?case
  proof (cases "n < 10")
    case True
    then show ?thesis
      by (subst nat_str.simps) (simp add: digits_value_def digit_char)
  next
    case False
    with 1 have "digits_value (nat_str (n div 10)) = int (n div 10)" by blast
    moreover have "10 * int (n div 10) + int (n mod 10) = int n"
      by (metis mult_div_mod_eq of_nat_add of_nat_mult of_nat_numeral)
    ultimately show ?thesis
      using False by (subst nat_str.simps) (simp add: digits_value_snoc digit_char)
  qed
qed

lemma digit_not_space: "is_digit c \<Longrightarrow> \<not> js_space c \<and> c \<noteq> CHR ''-'' \<and> c \<noteq> CHR ''+''"
  by (auto simp: is_digit_def js_space_def Let_def)

lemma js_parseInt_nat_str [simp]: "js_parseInt (nat_str n) = Fin (int n)"
proof -
  obtain c cs where s: "nat_str n = c # cs" by (cases "nat_str n") auto
  have all: "list_all is_digit (c # cs)" using nat_str_digits [of n] s by simp
  then have c: "is_digit c" and cs: "list_all is_digit cs" by simp_all
  have "takeWhile is_digit cs = cs"
    using cs unfolding list_all_iff by (simp only: takeWhile_eq_all_conv)
  with c digit_not_space [OF c] digits_value_nat_str [of n] show ?thesis
    by (simp add: js_parseInt_def s Let_def del: takeWhile_eq_all_conv)
qed

lemma js_split_ne [simp]: "js_split c s \<noteq> []"
  by (cases s) (simp_all split: list.splits)

section \<open>Wall clock\<close>

text \<open>\<open>Math.floor(Date.now() / 1000)\<close>: the clock is read in milliseconds.\<close>

definition now_sec :: "int \<Rightarrow> int" where
  "now_sec ms = ms div 1000"

end
