(* ===== verification/Catalog.thy ===== *)
theory Catalog
  imports JsPrelude Complex_Main
begin

text \<open>
  The catalog of paid resources, in memory (\<open>src/catalog/memory.js\<close>): the listings, the count
  per payee that the flooding guard reads, and the write version that discovery responses are
  validated with.

  A listing is a JavaScript object; \<open>entry\<close> extends \<open>resource\<close> as the code spreads one into the
  other. A field that may be \<open>undefined\<close> is an option. \<open>rs_pactwright\<close> is the one key that
  \<open>validatePolicy\<close> leaves out of a resource altogether, so that spreading keeps what was there.
  The clock is an argument, in milliseconds. \<open>en_id\<close> is the identity of the entry object: an
  upsert makes a new object, and a background embedding holds the one it was started for.
\<close>

section \<open>Listings\<close>

record resource =
  rs_type :: string
  rs_url :: string
  rs_toolName :: "string option"
  rs_serviceName :: "string option"
  rs_description :: "string option"
  rs_tags :: "string list option"
  rs_iconUrl :: "string option"
  rs_scheme :: "string option"
  rs_network :: "string option"
  rs_extensions :: "(string \<times> json) list option"
  rs_payTo :: string
  rs_pactwright :: "json option"

record entry = resource +
  en_id :: nat
  en_source :: string
  en_provisional :: bool
  en_expires_at :: "int option"
  en_last_seen :: int
  en_first_seen :: int
  en_embedding :: "real list option"
  en_embedding_source :: "string option"

record catalog_config =
  maxResourcesPerPayTo :: int
  maxCatalogSize :: int
  verifyTtlMs :: int

record catalog =
  ct_resources :: "(string, entry) jsmap"
  ct_counts :: "(string, int) jsmap"
  ct_version :: nat
  ct_modified :: int
  ct_next_id :: nat

datatype catalog_error = Max_per_payTo | Max_size | Delete_failed

definition empty_catalog :: catalog where
  "empty_catalog = \<lparr>ct_resources = [], ct_counts = [], ct_version = 0, ct_modified = 0, ct_next_id = 0\<rparr>"

definition listing_key :: "string \<Rightarrow> string option \<Rightarrow> string" where
  "listing_key url tool =
     (case tool of Some t \<Rightarrow> if t \<noteq> [] then url @ ''::'' @ t else url @ ''::'' | None \<Rightarrow> url @ ''::'')"

definition cat_key :: "('a) resource_scheme \<Rightarrow> string" where
  "cat_key r = (if rs_type r = ''mcp'' then rs_url r @ ''::'' @ nullish_or (rs_toolName r) ''undefined''
                else rs_url r @ ''::'')"

definition isExpired :: "int \<Rightarrow> entry \<Rightarrow> bool" where
  "isExpired now e \<longleftrightarrow> en_provisional e \<and> (case en_expires_at e of None \<Rightarrow> True | Some t \<Rightarrow> t \<le> now)"

definition isPublic :: "int \<Rightarrow> entry \<Rightarrow> bool" where
  "isPublic now e \<longleftrightarrow> \<not> isExpired now e"

section \<open>The count per payee\<close>

definition incrementPayToCount :: "string \<Rightarrow> (string, int) jsmap \<Rightarrow> (string, int) jsmap" where
  "incrementPayToCount p m = jm_set p (nullish_or (jm_get m p) 0 + 1) m"

definition decrementPayToCount :: "string \<Rightarrow> (string, int) jsmap \<Rightarrow> (string, int) jsmap" where
  "decrementPayToCount p m =
     (let next = nullish_or (jm_get m p) 1 - 1 in if next \<le> 0 then jm_delete p m else jm_set p next m)"

section \<open>Writes\<close>

text \<open>
  The entry an upsert stores: the new resource over the existing entry, its provenance, whether it
  is provisional, and its times. The vector is inherited; the embedding pass drops a stale one.
\<close>

definition was_settled :: "entry option \<Rightarrow> bool" where
  "was_settled existing = (case existing of None \<Rightarrow> False | Some e \<Rightarrow> en_source e \<noteq> ''verify'')"

definition upsert_entry :: "catalog_config \<Rightarrow> nat \<Rightarrow> resource \<Rightarrow> string \<Rightarrow> int \<Rightarrow> entry option \<Rightarrow> entry" where
  "upsert_entry cfg i r source now existing =
     (let settled = was_settled existing;
          provisional = (source = ''verify'' \<and> \<not> settled)
      in \<lparr>rs_type = rs_type r, rs_url = rs_url r, rs_toolName = rs_toolName r,
          rs_serviceName = rs_serviceName r, rs_description = rs_description r, rs_tags = rs_tags r,
          rs_iconUrl = rs_iconUrl r, rs_scheme = rs_scheme r, rs_network = rs_network r,
          rs_extensions = rs_extensions r, rs_payTo = rs_payTo r,
          rs_pactwright = nullish (rs_pactwright r) (Option.bind existing rs_pactwright),
          en_id = i,
          en_source = (case existing of Some e \<Rightarrow> if settled then en_source e else source | None \<Rightarrow> source),
          en_provisional = provisional,
          en_expires_at = (if provisional then Some (now + verifyTtlMs cfg) else None),
          en_last_seen = now,
          en_first_seen = (case existing of Some e \<Rightarrow> en_first_seen e | None \<Rightarrow> now),
          en_embedding = Option.bind existing en_embedding,
          en_embedding_source = Option.bind existing en_embedding_source\<rparr>)"

text \<open>
  \<open>upsertResource\<close>, with the synchronous half of \<open>_scheduleEmbed\<close>: \<open>emb\<close> is what that does to the
  entry before it is persisted (the identity without an embedding provider).
\<close>

definition upsertResource ::
  "catalog_config \<Rightarrow> (entry \<Rightarrow> entry) \<Rightarrow> resource \<Rightarrow> string \<Rightarrow> int \<Rightarrow> catalog \<Rightarrow> (catalog_error + entry) \<times> catalog" where
  "upsertResource cfg emb r source now c =
     (let k = cat_key r; existing = jm_get (ct_resources c) k in
      if existing = None \<and> nullish_or (jm_get (ct_counts c) (rs_payTo r)) 0 \<ge> maxResourcesPerPayTo cfg
      then (Inl Max_per_payTo, c)
      else if existing = None \<and> int (length (ct_resources c)) \<ge> maxCatalogSize cfg
      then (Inl Max_size, c)
      else
        (let e = emb (upsert_entry cfg (ct_next_id c) r source now existing)
         in (Inr e, \<lparr>ct_resources = jm_set k e (ct_resources c),
                     ct_counts = (if existing = None then incrementPayToCount (rs_payTo r) (ct_counts c) else ct_counts c),
                     ct_version = ct_version c + 1, ct_modified = now, ct_next_id = ct_next_id c + 1\<rparr>)))"

definition deleteResource :: "string \<Rightarrow> string option \<Rightarrow> int \<Rightarrow> catalog \<Rightarrow> entry option \<times> catalog" where
  "deleteResource url tool now c =
     (case jm_get (ct_resources c) (listing_key url tool) of
        None \<Rightarrow> (None, c)
      | Some e \<Rightarrow> (Some e, c\<lparr>ct_resources := jm_delete (listing_key url tool) (ct_resources c),
                            ct_counts := decrementPayToCount (rs_payTo e) (ct_counts c),
                            ct_version := ct_version c + 1, ct_modified := now\<rparr>))"

text \<open>The sweep's loop visits the entries in order and deletes each expired one as it goes.\<close>

fun prune_loop :: "int \<Rightarrow> (string \<times> entry) list \<Rightarrow> (string, int) jsmap \<Rightarrow> (string \<times> entry) list \<times> (string, int) jsmap \<times> nat" where
  "prune_loop now [] counts = ([], counts, 0)"
| "prune_loop now ((k, e) # es) counts =
     (if isExpired now e
      then (case prune_loop now es (decrementPayToCount (rs_payTo e) counts) of (kept, m, n) \<Rightarrow> (kept, m, Suc n))
      else (case prune_loop now es counts of (kept, m, n) \<Rightarrow> ((k, e) # kept, m, n)))"

definition pruneExpired :: "int \<Rightarrow> catalog \<Rightarrow> nat \<times> catalog" where
  "pruneExpired now c =
     (case prune_loop now (ct_resources c) (ct_counts c) of
        (kept, counts, n) \<Rightarrow>
          (n, if n > 0 then c\<lparr>ct_resources := kept, ct_counts := counts, ct_version := ct_version c + 1, ct_modified := now\<rparr>
              else c\<lparr>ct_resources := kept, ct_counts := counts\<rparr>))"

section \<open>Reads\<close>

definition getResource :: "int \<Rightarrow> string \<Rightarrow> string option \<Rightarrow> catalog \<Rightarrow> entry option" where
  "getResource now url tool c =
     (case jm_get (ct_resources c) (listing_key url tool) of
        None \<Rightarrow> None
      | Some e \<Rightarrow> if isPublic now e then Some e else None)"

record filters =
  fl_type :: "string option"
  fl_payTo :: "string option"
  fl_scheme :: "string option"
  fl_network :: "string option"
  fl_extensions :: "string list option"

text \<open>A filter that is absent or empty narrows nothing.\<close>

definition narrows :: "string option \<Rightarrow> string option \<Rightarrow> bool" where
  "narrows f v = (case f of None \<Rightarrow> True | Some s \<Rightarrow> s = [] \<or> v = Some s)"

definition passes_filters :: "filters \<Rightarrow> ('a) resource_scheme \<Rightarrow> bool" where
  "passes_filters f r \<longleftrightarrow>
     narrows (fl_type f) (Some (rs_type r)) \<and> narrows (fl_payTo f) (Some (rs_payTo r))
     \<and> narrows (fl_scheme f) (rs_scheme r) \<and> narrows (fl_network f) (rs_network r)
     \<and> (case fl_extensions f of None \<Rightarrow> True
        | Some xs \<Rightarrow> list_all (\<lambda>x. x \<in> set (map fst (nullish_or (rs_extensions r) []))) xs)"

definition applyCommonFilters :: "filters \<Rightarrow> entry list \<Rightarrow> entry list" where
  "applyCommonFilters f items = filter (passes_filters f) items"

definition public_items :: "int \<Rightarrow> catalog \<Rightarrow> entry list" where
  "public_items now c = filter (isPublic now) (jm_values (ct_resources c))"

text \<open>
  \<open>listResources\<close>: newest first, then by key. \<open>coll\<close> gives the collation key \<open>localeCompare\<close>
  compares.
\<close>

definition listing_order :: "(string \<Rightarrow> string) \<Rightarrow> entry list \<Rightarrow> entry list" where
  "listing_order coll = js_sort_by (\<lambda>e. (- en_first_seen e, coll (cat_key e)))"

definition js_slice :: "int \<Rightarrow> int \<Rightarrow> 'a list \<Rightarrow> 'a list" where
  "js_slice a b xs =
     (let n = int (length xs);
          norm = (\<lambda>i. if i < 0 then max 0 (n + i) else min i n)
      in take (nat (norm b - norm a)) (drop (nat (norm a)) xs))"

definition listResources ::
  "(string \<Rightarrow> string) \<Rightarrow> int \<Rightarrow> filters \<Rightarrow> int option \<Rightarrow> int option \<Rightarrow> catalog \<Rightarrow> entry list \<times> nat" where
  "listResources coll now f lm off c =
     (let items = listing_order coll (applyCommonFilters f (public_items now c));
          limit = nullish_or lm 20; offset = nullish_or off 0
      in (js_slice offset (offset + limit) items, length items))"

section \<open>What the operations keep\<close>

subsection \<open>Keys and sizes\<close>

definition entry_ok :: "nat \<Rightarrow> string \<times> entry \<Rightarrow> bool" where
  "entry_ok n p \<longleftrightarrow> cat_key (snd p) = fst p \<and> en_id (snd p) < n
     \<and> (en_provisional (snd p) \<longleftrightarrow> en_source (snd p) = ''verify'')
     \<and> (en_expires_at (snd p) = None \<longleftrightarrow> \<not> en_provisional (snd p))"

definition catalog_ok :: "catalog \<Rightarrow> bool" where
  "catalog_ok c \<longleftrightarrow> jm_wf (ct_resources c) \<and> jm_wf (ct_counts c)
     \<and> (\<forall>p \<in> set (ct_resources c). entry_ok (ct_next_id c) p)"

definition keeps_listing :: "(entry \<Rightarrow> entry) \<Rightarrow> bool" where
  "keeps_listing emb \<longleftrightarrow> (\<forall>e. \<exists>v s. emb e = e\<lparr>en_embedding := v, en_embedding_source := s\<rparr>)"

lemma keeps_listing_simps:
  assumes "keeps_listing emb"
  shows "cat_key (emb e) = cat_key e" "en_id (emb e) = en_id e" "en_source (emb e) = en_source e"
    "en_provisional (emb e) = en_provisional e" "en_expires_at (emb e) = en_expires_at e"
    "rs_payTo (emb e) = rs_payTo e" "en_first_seen (emb e) = en_first_seen e"
    "isExpired now (emb e) = isExpired now e"
proof -
  obtain v s where "emb e = e\<lparr>en_embedding := v, en_embedding_source := s\<rparr>"
    using assms unfolding keeps_listing_def by blast
  then show "cat_key (emb e) = cat_key e" "en_id (emb e) = en_id e" "en_source (emb e) = en_source e"
    "en_provisional (emb e) = en_provisional e" "en_expires_at (emb e) = en_expires_at e"
    "rs_payTo (emb e) = rs_payTo e" "en_first_seen (emb e) = en_first_seen e"
    "isExpired now (emb e) = isExpired now e"
    by (simp_all add: cat_key_def isExpired_def)
qed

lemma upsert_entry_simps [simp]:
  "cat_key (upsert_entry cfg i r source now ex) = cat_key r"
  "rs_payTo (upsert_entry cfg i r source now ex) = rs_payTo r"
  "en_id (upsert_entry cfg i r source now ex) = i"
  by (simp_all add: upsert_entry_def cat_key_def Let_def)

lemma upsert_entry_source:
  "en_source (upsert_entry cfg i r source now ex) =
     (case ex of Some e \<Rightarrow> if en_source e \<noteq> ''verify'' then en_source e else source | None \<Rightarrow> source)"
  by (simp add: upsert_entry_def was_settled_def Let_def split: option.splits)

lemma upsert_entry_provisional:
  "en_provisional (upsert_entry cfg i r source now ex) \<longleftrightarrow>
     source = ''verify'' \<and> (case ex of Some e \<Rightarrow> en_source e = ''verify'' | None \<Rightarrow> True)"
  by (auto simp: upsert_entry_def was_settled_def Let_def split: option.splits)

lemma upsert_entry_expires:
  "en_expires_at (upsert_entry cfg i r source now ex) =
     (if en_provisional (upsert_entry cfg i r source now ex) then Some (now + verifyTtlMs cfg) else None)"
  by (simp add: upsert_entry_def Let_def)

text \<open>An upsert that is accepted, with the room it found.\<close>

lemma upsert_accepted:
  assumes "upsertResource cfg emb r source now c = (Inr e, c')"
  shows "e = emb (upsert_entry cfg (ct_next_id c) r source now (jm_get (ct_resources c) (cat_key r)))"
    "ct_resources c' = jm_set (cat_key r) e (ct_resources c)"
    "ct_counts c' = (if jm_get (ct_resources c) (cat_key r) = None then incrementPayToCount (rs_payTo r) (ct_counts c) else ct_counts c)"
    "ct_version c' = ct_version c + 1" "ct_next_id c' = ct_next_id c + 1"
    "jm_get (ct_resources c) (cat_key r) = None \<Longrightarrow> nullish_or (jm_get (ct_counts c) (rs_payTo r)) 0 < maxResourcesPerPayTo cfg"
    "jm_get (ct_resources c) (cat_key r) = None \<Longrightarrow> int (length (ct_resources c)) < maxCatalogSize cfg"
  using assms by (auto simp: upsertResource_def Let_def split: if_splits)

lemma upsert_refused:
  assumes "upsertResource cfg emb r source now c = (Inl x, c')"
  shows "c' = c"
  using assms by (auto simp: upsertResource_def Let_def split: if_splits)

lemma jm_wf_counts [simp]:
  "jm_wf m \<Longrightarrow> jm_wf (incrementPayToCount p m)" "jm_wf m \<Longrightarrow> jm_wf (decrementPayToCount p m)"
  by (simp_all add: incrementPayToCount_def decrementPayToCount_def Let_def)

lemma in_set_jm_set:
  assumes "jm_wf m"
  shows "(j, x) \<in> set (jm_set k v m) \<longleftrightarrow> (if j = k then x = v else (j, x) \<in> set m)"
proof -
  have "(j, x) \<in> set (jm_set k v m) \<longleftrightarrow> jm_get (jm_set k v m) j = Some x"
    using assms by (simp add: distinct_update)
  also have "\<dots> \<longleftrightarrow> (if j = k then x = v else jm_get m j = Some x)"
    by (auto simp: jm_get_set)
  finally show ?thesis using assms by simp
qed

lemma in_set_jm_delete:
  assumes "jm_wf m"
  shows "(j, x) \<in> set (jm_delete k m) \<longleftrightarrow> j \<noteq> k \<and> (j, x) \<in> set m"
proof -
  have "(j, x) \<in> set (jm_delete k m) \<longleftrightarrow> jm_get (jm_delete k m) j = Some x"
    using assms by (simp add: distinct_delete)
  also have "\<dots> \<longleftrightarrow> j \<noteq> k \<and> jm_get m j = Some x"
    by (auto simp: jm_get_delete)
  finally show ?thesis using assms by simp
qed

lemma entry_ok_mono: "entry_ok n p \<Longrightarrow> n \<le> m \<Longrightarrow> entry_ok m p"
  by (auto simp: entry_ok_def)

lemma set_jm_set_subset: "set (jm_set k v m) \<subseteq> insert (k, v) (set m)"
  by (induction m) auto

lemma set_jm_delete_subset: "set (jm_delete k m) \<subseteq> set m"
  by (induction m) auto

lemma catalog_ok_get:
  "catalog_ok c \<Longrightarrow> jm_get (ct_resources c) k = Some e \<Longrightarrow> entry_ok (ct_next_id c) (k, e)"
  unfolding catalog_ok_def by (blast dest: map_of_SomeD)

lemma catalog_ok_empty [simp]: "catalog_ok empty_catalog"
  by (simp add: catalog_ok_def empty_catalog_def)

lemma entry_ok_upsert:
  assumes "catalog_ok c" "keeps_listing emb"
  shows "entry_ok (Suc (ct_next_id c))
    (cat_key r, emb (upsert_entry cfg (ct_next_id c) r source now (jm_get (ct_resources c) (cat_key r))))"
  by (cases "jm_get (ct_resources c) (cat_key r)")
    (simp_all add: entry_ok_def keeps_listing_simps [OF assms(2)] upsert_entry_source upsert_entry_provisional
      upsert_entry_expires)

lemma catalog_ok_upsert:
  assumes ok: "catalog_ok c" and emb: "keeps_listing emb"
  shows "catalog_ok (snd (upsertResource cfg emb r source now c))"
proof (cases "upsertResource cfg emb r source now c")
  case (Pair res c')
  show ?thesis
  proof (cases res)
    case (Inl x)
    with Pair ok upsert_refused [of cfg emb r source now c x c'] show ?thesis by simp
  next
    case (Inr e)
    note up = upsert_accepted [OF Pair [unfolded Inr]]
    have "entry_ok (ct_next_id c') p" if "p \<in> set (ct_resources c')" for p
    proof -
      have "p \<in> insert (cat_key r, e) (set (ct_resources c))"
        using that set_jm_set_subset unfolding up(2) by fastforce
      then show ?thesis
        using entry_ok_upsert [OF ok emb, of r cfg source now] ok entry_ok_mono [of "ct_next_id c" p "Suc (ct_next_id c)"]
        by (auto simp: up(1,5) catalog_ok_def)
    qed
    with ok show ?thesis by (simp add: Pair catalog_ok_def up(2,3))
  qed
qed

lemma catalog_ok_delete:
  assumes "catalog_ok c"
  shows "catalog_ok (snd (deleteResource url tool now c))"
  using assms set_jm_delete_subset [of "listing_key url tool" "ct_resources c"]
  by (auto simp: deleteResource_def catalog_ok_def split: option.splits)

lemma prune_loop_eq:
  "prune_loop now es m = (filter (\<lambda>p. \<not> isExpired now (snd p)) es,
      foldl (\<lambda>m e. decrementPayToCount (rs_payTo e) m) m (filter (isExpired now) (map snd es)),
      length (filter (isExpired now) (map snd es)))"
  by (induction now es m rule: prune_loop.induct) auto

lemma pruneExpired_fields:
  "ct_resources (snd (pruneExpired now c)) = filter (\<lambda>p. \<not> isExpired now (snd p)) (ct_resources c)"
  "ct_counts (snd (pruneExpired now c)) =
     foldl (\<lambda>m e. decrementPayToCount (rs_payTo e) m) (ct_counts c) (filter (isExpired now) (map snd (ct_resources c)))"
  "ct_next_id (snd (pruneExpired now c)) = ct_next_id c"
  by (simp_all add: pruneExpired_def prune_loop_eq)

lemma jm_wf_foldl_decrement:
  "jm_wf m \<Longrightarrow> jm_wf (foldl (\<lambda>m e. decrementPayToCount (rs_payTo e) m) m es)"
  by (induction es arbitrary: m) simp_all

lemma catalog_ok_prune:
  assumes "catalog_ok c"
  shows "catalog_ok (snd (pruneExpired now c))"
  using assms unfolding catalog_ok_def
  by (auto simp: pruneExpired_fields jm_wf_foldl_decrement)

end
