(* ===== verification/CatalogFacts.thy ===== *)
theory CatalogFacts
  imports Catalog
begin

text \<open>
  What the in-memory catalog promises: bounds on its size and on what one payee holds, the life of
  a listing over any run of writes, and what the reads see of them.
\<close>

section \<open>Runs\<close>

datatype cat_op =
    Up resource string int
  | Del string "string option" int
  | Prune int

fun cat_apply :: "catalog_config \<Rightarrow> (entry \<Rightarrow> entry) \<Rightarrow> cat_op \<Rightarrow> catalog \<Rightarrow> catalog" where
  "cat_apply cfg emb (Up r source now) c = snd (upsertResource cfg emb r source now c)"
| "cat_apply cfg emb (Del url tool now) c = snd (deleteResource url tool now c)"
| "cat_apply cfg emb (Prune now) c = snd (pruneExpired now c)"

definition cat_run :: "catalog_config \<Rightarrow> (entry \<Rightarrow> entry) \<Rightarrow> cat_op list \<Rightarrow> catalog \<Rightarrow> catalog" where
  "cat_run cfg emb xs c = fold (cat_apply cfg emb) xs c"

lemma cat_run_simps [simp]:
  "cat_run cfg emb [] c = c"
  "cat_run cfg emb (x # xs) c = cat_run cfg emb xs (cat_apply cfg emb x c)"
  "cat_run cfg emb (xs @ ys) c = cat_run cfg emb ys (cat_run cfg emb xs c)"
  by (simp_all add: cat_run_def)

lemma catalog_ok_apply: "catalog_ok c \<Longrightarrow> keeps_listing emb \<Longrightarrow> catalog_ok (cat_apply cfg emb x c)"
  by (cases x) (simp_all add: catalog_ok_upsert catalog_ok_delete catalog_ok_prune)

lemma catalog_ok_run: "catalog_ok c \<Longrightarrow> keeps_listing emb \<Longrightarrow> catalog_ok (cat_run cfg emb xs c)"
  by (induction xs arbitrary: c) (simp_all add: catalog_ok_apply)

section \<open>Bounds\<close>

lemma length_jm_delete_le: "length (jm_delete k m) \<le> length m"
  by (induction m) auto

lemma apply_size:
  assumes "int (length (ct_resources c)) \<le> maxCatalogSize cfg"
  shows "int (length (ct_resources (cat_apply cfg emb x c))) \<le> maxCatalogSize cfg"
proof (cases x)
  case (Up r source now)
  show ?thesis
  proof (cases "upsertResource cfg emb r source now c")
    case (Pair res c')
    then show ?thesis
      using assms upsert_refused [of cfg emb r source now c _ c'] upsert_accepted(2,7) [of cfg emb r source now c _ c']
      by (cases res) (auto simp: Up length_jm_set)
  qed
next
  case (Del url tool now)
  then show ?thesis
    using assms length_jm_delete_le [of "listing_key url tool" "ct_resources c"]
    by (auto simp: deleteResource_def split: option.splits)
next
  case (Prune now)
  have "length (filter (\<lambda>p. \<not> isExpired now (snd p)) (ct_resources c)) \<le> length (ct_resources c)" by simp
  with assms show ?thesis unfolding Prune cat_apply.simps pruneExpired_fields by linarith
qed

lemma run_size:
  "int (length (ct_resources c)) \<le> maxCatalogSize cfg \<Longrightarrow>
    int (length (ct_resources (cat_run cfg emb xs c))) \<le> maxCatalogSize cfg"
  by (induction xs arbitrary: c) (simp_all add: apply_size)

text \<open>How many listings a payee has, and the count kept beside them.\<close>

definition held :: "string \<Rightarrow> (string \<times> entry) list \<Rightarrow> int" where
  "held p m = int (length (filter (\<lambda>q. rs_payTo (snd q) = p) m))"

definition counted :: "string \<Rightarrow> catalog \<Rightarrow> int" where
  "counted p c = nullish_or (jm_get (ct_counts c) p) 0"

definition counts_exact :: "catalog \<Rightarrow> bool" where
  "counts_exact c \<longleftrightarrow> (\<forall>p. counted p c = held p (ct_resources c))"

text \<open>An upsert that hands an existing listing to another payee.\<close>

fun moves :: "catalog \<Rightarrow> cat_op \<Rightarrow> bool" where
  "moves c (Up r source now) =
     (case jm_get (ct_resources c) (cat_key r) of None \<Rightarrow> False | Some e \<Rightarrow> rs_payTo e \<noteq> rs_payTo r)"
| "moves c _ = False"

fun moves_none :: "catalog_config \<Rightarrow> (entry \<Rightarrow> entry) \<Rightarrow> cat_op list \<Rightarrow> catalog \<Rightarrow> bool" where
  "moves_none cfg emb [] c = True"
| "moves_none cfg emb (x # xs) c = (\<not> moves c x \<and> moves_none cfg emb xs (cat_apply cfg emb x c))"

lemma held_Nil [simp]: "held p [] = 0"
  by (simp add: held_def)

lemma held_Cons [simp]: "held p (q # m) = (if rs_payTo (snd q) = p then 1 else 0) + held p m"
  by (simp add: held_def)

lemma held_nonneg: "0 \<le> held p m"
  by (simp add: held_def)

lemma held_jm_set:
  "held p (jm_set k e m) = held p m + (if rs_payTo e = p then 1 else 0)
     - (case jm_get m k of Some e0 \<Rightarrow> if rs_payTo e0 = p then 1 else 0 | None \<Rightarrow> 0)"
  by (induction m) auto

lemma held_jm_delete:
  assumes "jm_wf m"
  shows "held p (jm_delete k m) = held p m - (case jm_get m k of Some e0 \<Rightarrow> if rs_payTo e0 = p then 1 else 0 | None \<Rightarrow> 0)"
  using assms
proof (induction m)
  case Nil
  then show ?case by simp
next
  case (Cons q m)
  have "jm_get m (fst q) = None" "jm_delete (fst q) m = m"
    using Cons.prems by (auto simp: map_of_eq_None_iff delete_idem)
  with Cons show ?case by (cases q) auto
qed

lemma held_pos: "jm_get m k = Some e \<Longrightarrow> 0 < held (rs_payTo e) m"
proof (induction m)
  case (Cons q m)
  then show ?case using held_nonneg [of "rs_payTo e" m] by (cases q) (auto split: if_splits)
qed simp

lemma counted_increment: "nullish_or (jm_get (incrementPayToCount q m) p) 0 = nullish_or (jm_get m p) 0 + (if p = q then 1 else 0)"
  by (auto simp: incrementPayToCount_def jm_get_set)

lemma counted_decrement:
  assumes "0 < nullish_or (jm_get m q) 0"
  shows "nullish_or (jm_get (decrementPayToCount q m) p) 0 = nullish_or (jm_get m p) (0 :: int) - (if p = q then 1 else 0)"
  using assms by (cases "jm_get m q") (auto simp: decrementPayToCount_def Let_def jm_get_set jm_get_delete)

lemma counted_foldl_decrement:
  assumes "\<forall>p. int (length (filter (\<lambda>e. rs_payTo e = p) es)) \<le> nullish_or (jm_get m p) 0"
  shows "nullish_or (jm_get (foldl (\<lambda>m e. decrementPayToCount (rs_payTo e) m) m es) p) 0
    = nullish_or (jm_get m p) (0 :: int) - int (length (filter (\<lambda>e. rs_payTo e = p) es))"
  using assms
proof (induction es arbitrary: m)
  case (Cons e es)
  have pos: "0 < nullish_or (jm_get m (rs_payTo e)) (0 :: int)"
    using Cons.prems [THEN spec, of "rs_payTo e"] by simp
  have "int (length (filter (\<lambda>x. rs_payTo x = q) es)) \<le> nullish_or (jm_get (decrementPayToCount (rs_payTo e) m) q) 0" for q
    using Cons.prems [THEN spec, of q] counted_decrement [OF pos, of q] by (simp split: if_splits)
  then show ?case
    using Cons.IH [of "decrementPayToCount (rs_payTo e) m"] counted_decrement [OF pos, of p] by simp
qed simp

lemma held_filter_split:
  "held p m = held p (filter (\<lambda>q. \<not> P (snd q)) m) + int (length (filter (\<lambda>e. rs_payTo e = p) (filter P (map snd m))))"
  by (induction m) auto

lemma exact_apply:
  assumes ok: "catalog_ok c" and emb: "keeps_listing emb" and exact: "counts_exact c" and still: "\<not> moves c x"
  shows "counts_exact (cat_apply cfg emb x c)"
proof (cases x)
  case (Up r source now)
  show ?thesis
  proof (cases "upsertResource cfg emb r source now c")
    case (Pair res c')
    show ?thesis
    proof (cases res)
      case (Inl y)
      with Pair exact upsert_refused [of cfg emb r source now c y c'] show ?thesis by (simp add: Up)
    next
      case (Inr e)
      note up = upsert_accepted [OF Pair [unfolded Inr]]
      have "rs_payTo e = rs_payTo r" by (simp add: up(1) keeps_listing_simps [OF emb])
      with exact still show ?thesis
        by (auto simp: Up Pair counts_exact_def counted_def up(2,3) held_jm_set counted_increment split: option.splits)
    qed
  qed
next
  case (Del url tool now)
  have wf: "jm_wf (ct_resources c)" using ok by (simp add: catalog_ok_def)
  show ?thesis
  proof (cases "jm_get (ct_resources c) (listing_key url tool)")
    case None
    with exact show ?thesis by (simp add: Del deleteResource_def)
  next
    case (Some e)
    have "0 < nullish_or (jm_get (ct_counts c) (rs_payTo e)) 0"
      using exact held_pos [OF Some] by (simp add: counts_exact_def counted_def)
    note dec = counted_decrement [OF this]
    show ?thesis
      using exact by (auto simp: Del deleteResource_def Some counts_exact_def counted_def dec held_jm_delete [OF wf])
  qed
next
  case (Prune now)
  have "counted p c = held p (filter (\<lambda>q. \<not> isExpired now (snd q)) (ct_resources c))
      + int (length (filter (\<lambda>e. rs_payTo e = p) (filter (isExpired now) (map snd (ct_resources c)))))" for p
    using exact held_filter_split [of p "ct_resources c" "isExpired now"] by (simp add: counts_exact_def)
  moreover from this have "\<forall>p. int (length (filter (\<lambda>e. rs_payTo e = p) (filter (isExpired now) (map snd (ct_resources c)))))
      \<le> nullish_or (jm_get (ct_counts c) p) 0"
    using held_nonneg by (metis counted_def le_add_same_cancel2)
  note counted_foldl_decrement [OF this]
  ultimately show ?thesis
    by (simp add: Prune counts_exact_def counted_def pruneExpired_fields)
qed

lemma cap_apply:
  assumes emb: "keeps_listing emb" and exact: "counts_exact c"
    and cap: "\<forall>p. held p (ct_resources c) \<le> maxResourcesPerPayTo cfg" and still: "\<not> moves c x"
    and ok: "catalog_ok c"
  shows "held p (ct_resources (cat_apply cfg emb x c)) \<le> maxResourcesPerPayTo cfg"
proof (cases x)
  case (Up r source now)
  show ?thesis
  proof (cases "upsertResource cfg emb r source now c")
    case (Pair res c')
    show ?thesis
    proof (cases res)
      case (Inl y)
      with Pair cap upsert_refused [of cfg emb r source now c y c'] show ?thesis by (simp add: Up)
    next
      case (Inr e)
      note up = upsert_accepted [OF Pair [unfolded Inr]]
      have e: "rs_payTo e = rs_payTo r" by (simp add: up(1) keeps_listing_simps [OF emb])
      show ?thesis
      proof (cases "jm_get (ct_resources c) (cat_key r)")
        case None
        with up(6) exact have "held (rs_payTo r) (ct_resources c) < maxResourcesPerPayTo cfg"
          by (simp add: counts_exact_def counted_def)
        with cap None e show ?thesis by (auto simp: Up Pair up(2) held_jm_set)
      next
        case (Some e0)
        with cap still e show ?thesis by (simp add: Up Pair up(2) held_jm_set)
      qed
    qed
  qed
next
  case (Del url tool now)
  have wf: "jm_wf (ct_resources c)" using ok by (simp add: catalog_ok_def)
  show ?thesis
    using cap [THEN spec, of p]
    by (auto simp: Del deleteResource_def held_jm_delete [OF wf] split: option.splits)
next
  case (Prune now)
  show ?thesis
    using cap [THEN spec, of p] held_filter_split [of p "ct_resources c" "isExpired now"]
    by (simp add: Prune pruneExpired_fields)
qed

lemma run_cap:
  assumes "keeps_listing emb" "catalog_ok c" "counts_exact c"
    "\<forall>p. held p (ct_resources c) \<le> maxResourcesPerPayTo cfg" "moves_none cfg emb xs c"
  shows "counts_exact (cat_run cfg emb xs c) \<and> held p (ct_resources (cat_run cfg emb xs c)) \<le> maxResourcesPerPayTo cfg"
  using assms
proof (induction xs arbitrary: c)
  case (Cons x xs)
  have still: "\<not> moves c x" and rest: "moves_none cfg emb xs (cat_apply cfg emb x c)"
    using Cons.prems(5) by simp_all
  have "\<forall>p. held p (ct_resources (cat_apply cfg emb x c)) \<le> maxResourcesPerPayTo cfg"
    using cap_apply [OF Cons.prems(1,3,4) still Cons.prems(2)] by blast
  then show ?case
    using Cons.IH [OF Cons.prems(1) catalog_ok_apply [OF Cons.prems(2,1)]
        exact_apply [OF Cons.prems(2,1,3) still] _ rest] by simp
qed simp

section \<open>The guard against flooding, evaded\<close>

text \<open>
  Each listing is first registered under a payee of its own and then handed to \<open>B\<close> by a second
  write: an upsert of an existing key looks at no count and changes none.
\<close>

fun evade :: "resource \<Rightarrow> string \<Rightarrow> int \<Rightarrow> (string \<times> string) list \<Rightarrow> cat_op list" where
  "evade r0 B now [] = []"
| "evade r0 B now ((u, p) # ps) =
     Up (r0\<lparr>rs_url := u, rs_payTo := p\<rparr>) ''verify'' now # Up (r0\<lparr>rs_url := u, rs_payTo := B\<rparr>) ''verify'' now
       # evade r0 B now ps"

lemma evade_append: "evade r0 B now (ps @ qs) = evade r0 B now ps @ evade r0 B now qs"
  by (induction r0 B now ps rule: evade.induct) simp_all

lemma upsert_new:
  assumes "jm_get (ct_resources c) (cat_key r) = None"
    "nullish_or (jm_get (ct_counts c) (rs_payTo r)) 0 < maxResourcesPerPayTo cfg"
    "int (length (ct_resources c)) < maxCatalogSize cfg"
  shows "\<exists>e. upsertResource cfg emb r source now c = (Inr e, snd (upsertResource cfg emb r source now c))"
  using assms by (simp add: upsertResource_def Let_def)

lemma upsert_old:
  assumes "jm_get (ct_resources c) (cat_key r) = Some e0"
  shows "\<exists>e. upsertResource cfg emb r source now c = (Inr e, snd (upsertResource cfg emb r source now c))"
  using assms by (simp add: upsertResource_def Let_def)

definition evaded :: "string \<Rightarrow> (string \<times> string) list \<Rightarrow> catalog \<Rightarrow> bool" where
  "evaded B ps c \<longleftrightarrow> map fst (ct_resources c) = map (\<lambda>(u, p). u @ ''::'') ps
     \<and> (\<forall>q \<in> set (ct_resources c). rs_payTo (snd q) = B)
     \<and> (\<forall>q. counted q c = (if q \<in> snd ` set ps then 1 else 0))"

lemma evade_step:
  assumes emb: "keeps_listing emb" and ps: "distinct (map fst (ps @ [(u, p)]))" "distinct (map snd (ps @ [(u, p)]))"
    and room: "int (length ps) < maxCatalogSize cfg" "1 \<le> maxResourcesPerPayTo cfg"
    and http: "rs_type r0 \<noteq> ''mcp''" and c: "evaded B ps c"
  shows "evaded B (ps @ [(u, p)]) (cat_run cfg emb (evade r0 B now [(u, p)]) c)"
proof -
  let ?r1 = "r0\<lparr>rs_url := u, rs_payTo := p\<rparr>" and ?r2 = "r0\<lparr>rs_url := u, rs_payTo := B\<rparr>"
  have k: "cat_key ?r1 = u @ ''::''" "cat_key ?r2 = u @ ''::''" using http by (simp_all add: cat_key_def)
  have len: "length (ct_resources c) = length ps" using c unfolding evaded_def by (metis length_map)
  have "u @ ''::'' \<notin> fst ` set (ct_resources c)"
  proof
    assume "u @ ''::'' \<in> fst ` set (ct_resources c)"
    then have "u @ ''::'' \<in> set (map (\<lambda>(u, p). u @ ''::'') ps)"
      using c unfolding evaded_def by (metis list.set_map)
    then have "u \<in> fst ` set ps" by force
    with ps(1) show False by simp
  qed
  then have new: "jm_get (ct_resources c) (u @ ''::'') = None" by (simp add: map_of_eq_None_iff)
  have cnt: "nullish_or (jm_get (ct_counts c) p) 0 = 0"
    using c ps(2) by (simp add: evaded_def counted_def)
  obtain e1 c1 where 1: "upsertResource cfg emb ?r1 ''verify'' now c = (Inr e1, c1)"
    using upsert_new [of c ?r1 cfg emb "''verify''" now] new cnt room len by (auto simp: k)
  note up1 = upsert_accepted [OF 1, unfolded k]
  have res1: "ct_resources c1 = ct_resources c @ [(u @ ''::'', e1)]" using new by (simp add: up1(2) jm_set_new)
  have get1: "jm_get (ct_resources c1) (u @ ''::'') = Some e1" by (simp add: up1(2) jm_get_set)
  obtain e2 c2 where 2: "upsertResource cfg emb ?r2 ''verify'' now c1 = (Inr e2, c2)"
    using upsert_old [of c1 ?r2 e1 cfg emb "''verify''" now] get1 by (auto simp: k)
  note up2 = upsert_accepted [OF 2, unfolded k]
  have pay: "rs_payTo e2 = B" by (simp add: up2(1) keeps_listing_simps [OF emb])
  have res2: "ct_resources c2 = ct_resources c @ [(u @ ''::'', e2)]"
    using new by (simp add: up2(2) res1 jm_set_last)
  have "counted q c2 = counted q c + (if q = p then 1 else 0)" for q
    using get1 new by (simp add: counted_def up2(3) up1(3) counted_increment)
  with c ps(2) have "\<forall>q. counted q c2 = (if q \<in> snd ` set (ps @ [(u, p)]) then 1 else 0)"
    by (auto simp: evaded_def)
  then show ?thesis
    using c pay by (auto simp: evaded_def 1 2 res2)
qed

lemma evade_run:
  assumes "keeps_listing emb" "distinct (map fst ps)" "distinct (map snd ps)"
    "int (length ps) \<le> maxCatalogSize cfg" "1 \<le> maxResourcesPerPayTo cfg" "rs_type r0 \<noteq> ''mcp''"
  shows "evaded B ps (cat_run cfg emb (evade r0 B now ps) empty_catalog)"
  using assms(2-4)
proof (induction ps rule: rev_induct)
  case Nil
  then show ?case by (simp add: evaded_def empty_catalog_def counted_def)
next
  case (snoc q ps)
  obtain u p where q: "q = (u, p)" by (cases q)
  have "evaded B ps (cat_run cfg emb (evade r0 B now ps) empty_catalog)"
    using snoc by simp
  with snoc.prems show ?case
    unfolding evade_append cat_run_simps q
    by (intro evade_step [OF assms(1)]) (use assms(5,6) in \<open>simp_all\<close>)
qed

lemma evaded_held:
  assumes "evaded B ps c"
  shows "held B (ct_resources c) = int (length ps)"
proof -
  have "filter (\<lambda>q. rs_payTo (snd q) = B) (ct_resources c) = ct_resources c"
    using assms by (simp add: evaded_def)
  moreover have "length (ct_resources c) = length ps"
    using assms unfolding evaded_def by (metis length_map)
  ultimately show ?thesis by (simp add: held_def)
qed

section \<open>The life of a listing\<close>

fun removes :: "string \<Rightarrow> cat_op \<Rightarrow> bool" where
  "removes k (Del url tool now) = (listing_key url tool = k)"
| "removes k _ = False"

text \<open>A listing that a payment or a person put there.\<close>

definition settled_listing :: "string \<Rightarrow> string \<Rightarrow> int \<Rightarrow> catalog \<Rightarrow> bool" where
  "settled_listing k src first c \<longleftrightarrow> (\<exists>e. jm_get (ct_resources c) k = Some e \<and> en_source e = src
     \<and> en_first_seen e = first \<and> \<not> en_provisional e)"

lemma settled_apply:
  assumes emb: "keeps_listing emb" and src: "src \<noteq> ''verify''" and c: "settled_listing k src first c"
    and "\<not> removes k x" and ok: "catalog_ok c"
  shows "settled_listing k src first (cat_apply cfg emb x c)"
proof -
  obtain e where e: "jm_get (ct_resources c) k = Some e" "en_source e = src" "en_first_seen e = first" "\<not> en_provisional e"
    using c by (auto simp: settled_listing_def)
  show ?thesis
  proof (cases x)
    case (Up r source now)
    show ?thesis
    proof (cases "cat_key r = k")
      case True
      obtain e' c' where 1: "upsertResource cfg emb r source now c = (Inr e', c')"
        using upsert_old [of c r e cfg emb source now] e(1) True by auto
      note up = upsert_accepted [OF 1]
      have "en_source e' = src" "en_first_seen e' = first" "\<not> en_provisional e'"
        using e src True
        by (simp_all add: up(1) keeps_listing_simps [OF emb] upsert_entry_source upsert_entry_provisional)
          (simp add: upsert_entry_def Let_def)
      then show ?thesis using True by (simp add: settled_listing_def Up 1 up(2) jm_get_set)
    next
      case False
      then show ?thesis
        using e by (auto simp: settled_listing_def Up upsertResource_def Let_def jm_get_set)
    qed
  next
    case (Del url tool now)
    with assms(4) e show ?thesis
      by (auto simp: settled_listing_def deleteResource_def jm_get_delete split: option.splits)
  next
    case (Prune now)
    have "jm_wf (ct_resources c)" using ok by (simp add: catalog_ok_def)
    with e show ?thesis
      by (simp add: settled_listing_def Prune pruneExpired_fields map_of_filter_wf isExpired_def)
  qed
qed

lemma settled_run:
  assumes "keeps_listing emb" "src \<noteq> ''verify''" "settled_listing k src first c" "\<forall>x \<in> set xs. \<not> removes k x" "catalog_ok c"
  shows "settled_listing k src first (cat_run cfg emb xs c)"
  using assms(3-5)
  by (induction xs arbitrary: c) (simp_all add: settled_apply [OF assms(1,2)] catalog_ok_apply [OF _ assms(1)])

text \<open>A listing only ever verified, the last time not after \<open>t\<close>.\<close>

fun verifies_by :: "string \<Rightarrow> int \<Rightarrow> cat_op \<Rightarrow> bool" where
  "verifies_by k t (Up r source now) = (cat_key r = k \<longrightarrow> source = ''verify'' \<and> now \<le> t)"
| "verifies_by k t _ = True"

definition provisional_by :: "catalog_config \<Rightarrow> string \<Rightarrow> int \<Rightarrow> catalog \<Rightarrow> bool" where
  "provisional_by cfg k t c \<longleftrightarrow> (\<forall>e. jm_get (ct_resources c) k = Some e \<longrightarrow>
     en_source e = ''verify'' \<and> isExpired (t + verifyTtlMs cfg) e)"

lemma isExpired_mono: "isExpired t e \<Longrightarrow> t \<le> t' \<Longrightarrow> isExpired t' e"
  by (auto simp: isExpired_def split: option.splits)

lemma provisional_apply:
  assumes emb: "keeps_listing emb" and c: "provisional_by cfg k t c" and x: "verifies_by k t x" and ok: "catalog_ok c"
  shows "provisional_by cfg k t (cat_apply cfg emb x c)"
proof (cases x)
  case (Up r source now)
  show ?thesis
  proof (cases "upsertResource cfg emb r source now c")
    case (Pair res c')
    show ?thesis
    proof (cases res)
      case (Inl y)
      with Pair c upsert_refused [of cfg emb r source now c y c'] show ?thesis by (simp add: Up)
    next
      case (Inr e)
      note up = upsert_accepted [OF Pair [unfolded Inr]]
      show ?thesis
      proof (cases "cat_key r = k")
        case True
        then have v: "source = ''verify''" "now \<le> t" using x Up by simp_all
        have "en_source e = ''verify''"
          using c v True by (auto simp: up(1) keeps_listing_simps [OF emb] upsert_entry_source provisional_by_def split: option.splits)
        moreover have "isExpired (t + verifyTtlMs cfg) e"
          using c v True unfolding up(1) keeps_listing_simps [OF emb] isExpired_def upsert_entry_expires
          by (auto simp: upsert_entry_provisional provisional_by_def split: option.splits)
        ultimately show ?thesis using True by (simp add: provisional_by_def Up Pair up(2) jm_get_set)
      next
        case False
        with c show ?thesis by (simp add: provisional_by_def Up Pair up(2) jm_get_set)
      qed
    qed
  qed
next
  case (Del url tool now)
  with c show ?thesis by (auto simp: provisional_by_def deleteResource_def jm_get_delete split: option.splits)
next
  case (Prune now)
  have "jm_wf (ct_resources c)" using ok by (simp add: catalog_ok_def)
  with c show ?thesis
    by (simp add: provisional_by_def Prune pruneExpired_fields map_of_filter_wf split: option.splits)
qed

lemma provisional_run:
  assumes "keeps_listing emb" "provisional_by cfg k t c" "list_all (verifies_by k t) xs" "catalog_ok c"
  shows "provisional_by cfg k t (cat_run cfg emb xs c)"
  using assms(2-4)
  by (induction xs arbitrary: c) (simp_all add: provisional_apply [OF assms(1)] catalog_ok_apply [OF _ assms(1)])

section \<open>Pruning is invisible to the reads\<close>

lemma prune_public:
  assumes "now \<le> t"
  shows "public_items t (snd (pruneExpired now c)) = public_items t c"
proof -
  have "filter (isPublic t) (map snd (filter (\<lambda>p. \<not> isExpired now (snd p)) m)) = filter (isPublic t) (map snd m)" for m
    using isExpired_mono [OF _ assms] by (induction m) (auto simp: isPublic_def)
  then show ?thesis by (simp add: public_items_def pruneExpired_fields jm_values_def)
qed

lemma prune_get:
  assumes "now \<le> t" "jm_wf (ct_resources c)"
  shows "getResource t url tool (snd (pruneExpired now c)) = getResource t url tool c"
  using isExpired_mono [OF _ assms(1)]
  by (auto simp: getResource_def pruneExpired_fields map_of_filter_wf [OF assms(2)] isPublic_def split: option.splits)

lemma prune_list:
  "now \<le> t \<Longrightarrow> listResources coll t f l n (snd (pruneExpired now c)) = listResources coll t f l n c"
  by (simp add: listResources_def prune_public)

end
