(* ===== verification/JsText.thy ===== *)
theory JsText
  imports JsPrelude
begin

text \<open>
  The text operations of the language that the catalog and the caches use: lower case, substring
  tests, words, \<open>join\<close>, \<open>JSON.stringify\<close>, \<open>Object.entries\<close> and the text of a value in a template
  literal. Characters are bytes; lower case is that of ASCII.
\<close>

definition js_lower_char :: "char \<Rightarrow> char" where
  "js_lower_char c = (let n = (of_char c :: nat) in if 65 \<le> n \<and> n \<le> 90 then char_of (n + 32) else c)"

definition js_lower :: "string \<Rightarrow> string" where
  "js_lower s = map js_lower_char s"

text \<open>\<open>hay.includes(needle)\<close>\<close>

fun js_includes :: "'a list \<Rightarrow> 'a list \<Rightarrow> bool" where
  "js_includes t [] = (t = [])"
| "js_includes t (c # cs) = (take (length t) (c # cs) = t \<or> js_includes t cs)"

definition js_starts_with :: "string \<Rightarrow> string \<Rightarrow> bool" where
  "js_starts_with p s = (take (length p) s = p)"

text \<open>\<open>s.split(/\s+/).filter(Boolean)\<close>: \<open>w\<close> is the word being read.\<close>

fun words_from :: "string \<Rightarrow> string \<Rightarrow> string list" where
  "words_from w [] = (if w = [] then [] else [w])"
| "words_from w (c # cs) =
     (if js_space c then (if w = [] then words_from [] cs else w # words_from [] cs) else words_from (w @ [c]) cs)"

definition js_words :: "string \<Rightarrow> string list" where
  "js_words s = words_from [] s"

fun js_join :: "string \<Rightarrow> string list \<Rightarrow> string" where
  "js_join sep [] = []"
| "js_join sep [x] = x"
| "js_join sep (x # y # xs) = x @ sep @ js_join sep (y # xs)"

section \<open>Hexadecimal\<close>

definition hex_char :: "nat \<Rightarrow> char" where
  "hex_char n = (if n < 10 then char_of (48 + n) else char_of (87 + n))"

fun hex_str :: "nat \<Rightarrow> string" where
  "hex_str n = (if n < 16 then [hex_char n] else hex_str (n div 16) @ [hex_char (n mod 16)])"

declare hex_str.simps [simp del]

section \<open>JSON.stringify\<close>

definition json_escape :: "char \<Rightarrow> string" where
  "json_escape c =
     (let n = (of_char c :: nat) in
      if n = 34 then [CHR 0x5C, CHR 0x22]
      else if n = 92 then [CHR 0x5C, CHR 0x5C]
      else if n = 8 then [CHR 0x5C, CHR ''b'']
      else if n = 9 then [CHR 0x5C, CHR ''t'']
      else if n = 10 then [CHR 0x5C, CHR ''n'']
      else if n = 12 then [CHR 0x5C, CHR ''f'']
      else if n = 13 then [CHR 0x5C, CHR ''r'']
      else if n < 32 then [CHR 0x5C, CHR ''u'', CHR ''0'', CHR ''0'', hex_char (n div 16), hex_char (n mod 16)]
      else [c])"

definition json_quote :: "string \<Rightarrow> string" where
  "json_quote s = CHR 0x22 # concat (map json_escape s) @ [CHR 0x22]"

fun json_stringify :: "json \<Rightarrow> string" where
  "json_stringify JNull = ''null''"
| "json_stringify (JBool b) = (if b then ''true'' else ''false'')"
| "json_stringify (JNum n) = int_str n"
| "json_stringify (JStr s) = json_quote s"
| "json_stringify (JArr xs) = ''['' @ js_join '','' (map json_stringify xs) @ '']''"
| "json_stringify (JObj fs) = ''{'' @ js_join '','' (map (\<lambda>p. json_quote (fst p) @ '':'' @ json_stringify (snd p)) fs) @ ''}''"

subsection \<open>Reading back what was quoted\<close>

definition json_unescape :: "string \<Rightarrow> (char \<times> string) option" where
  "json_unescape s =
     (case s of
        [] \<Rightarrow> None
      | c # cs \<Rightarrow>
          if c \<noteq> CHR 0x5C then Some (c, cs)
          else (case cs of
                  [] \<Rightarrow> None
                | d # ds \<Rightarrow>
                    if d = CHR 0x22 \<or> d = CHR 0x5C then Some (d, ds)
                    else if d = CHR ''b'' then Some (char_of (8 :: nat), ds)
                    else if d = CHR ''t'' then Some (char_of (9 :: nat), ds)
                    else if d = CHR ''n'' then Some (char_of (10 :: nat), ds)
                    else if d = CHR ''f'' then Some (char_of (12 :: nat), ds)
                    else if d = CHR ''r'' then Some (char_of (13 :: nat), ds)
                    else Some (char_of (16 * (if ds ! 2 = CHR ''1'' then 1 else 0)
                             + (let m = (of_char (ds ! 3) :: nat) in if m < 58 then m - 48 else m - 87)), drop 4 ds)))"

lemma hex_char_value:
  assumes "n < 16"
  shows "(let m = (of_char (hex_char n) :: nat) in if m < 58 then m - 48 else m - 87) = n"
  using assms by (auto simp: hex_char_def of_char_of Let_def)

lemma backslash_code: "char_of (34 :: nat) = CHR 0x22" "char_of (92 :: nat) = CHR 0x5C"
  by (simp_all add: char_of_def bit_Suc_0_iff)

lemma json_unescape_escape: "json_unescape (json_escape c @ x) = Some (c, x)"
proof -
  define n where "n = (of_char c :: nat)"
  have c: "c = char_of n" by (simp add: n_def)
  consider "n = 34" | "n = 92" | "n = 8" | "n = 9" | "n = 10" | "n = 12" | "n = 13"
    | "n < 32" "n \<notin> {8, 9, 10, 12, 13}" | "32 \<le> n" "n \<noteq> 34" "n \<noteq> 92" by fastforce
  then show ?thesis
  proof cases
    case 8
    then have "n div 16 = 0 \<or> n div 16 = 1" by auto
    moreover have "hex_char 0 = CHR ''0''" "hex_char 1 = CHR ''1''"
      by (simp_all add: hex_char_def char_of_def bit_Suc_0_iff)
    ultimately have hi: "16 * (if hex_char (n div 16) = CHR ''1'' then 1 else 0) = 16 * (n div 16)"
      by auto
    have lo: "(let m = (of_char (hex_char (n mod 16)) :: nat) in if m < 58 then m - 48 else m - 87) = n mod 16"
      by (rule hex_char_value) simp
    have "json_escape c = [CHR 0x5C, CHR ''u'', CHR ''0'', CHR ''0'', hex_char (n div 16), hex_char (n mod 16)]"
      using 8 by (simp add: json_escape_def n_def Let_def)
    moreover have "char_of (16 * (n div 16) + n mod 16) = c" using c by simp
    ultimately show ?thesis
      using hi lo by (simp add: json_unescape_def)
  next
    case 9
    then have "json_escape c = [c]" by (simp add: json_escape_def n_def Let_def)
    moreover have "c \<noteq> CHR 0x5C" using 9 by (auto simp: n_def)
    ultimately show ?thesis by (simp add: json_unescape_def)
  qed (simp_all add: c json_escape_def json_unescape_def of_char_of backslash_code)
qed

lemma json_escape_no_quote: "json_escape c @ x \<noteq> CHR 0x22 # y"
  by (auto simp: json_escape_def Let_def)

lemma escaped_inj:
  "concat (map json_escape s) @ CHR 0x22 # u = concat (map json_escape t) @ CHR 0x22 # v \<Longrightarrow> s = t \<and> u = v"
proof (induction s arbitrary: t)
  case Nil
  then show ?case using json_escape_no_quote by (cases t) (auto dest: sym)
next
  case (Cons c s)
  show ?case
  proof (cases t)
    case Nil
    with Cons.prems json_escape_no_quote show ?thesis by simp
  next
    case (Cons d t')
    have "json_unescape (json_escape c @ concat (map json_escape s) @ CHR 0x22 # u)
        = json_unescape (json_escape d @ concat (map json_escape t') @ CHR 0x22 # v)"
      using Cons.prems Cons by simp
    with Cons.IH [of t'] Cons show ?thesis by (simp add: json_unescape_escape)
  qed
qed

lemma json_quote_inj: "json_quote s @ u = json_quote t @ v \<Longrightarrow> s = t \<and> u = v"
  using escaped_inj [of s u t v] by (simp add: json_quote_def)

text \<open>Numbers end where no digit follows.\<close>

lemma nat_str_app_inj:
  assumes "nat_str m @ u = nat_str n @ v" "u = [] \<or> \<not> is_digit (hd u)" "v = [] \<or> \<not> is_digit (hd v)"
  shows "m = n \<and> u = v"
proof -
  have tw: "takeWhile is_digit (nat_str k @ w) = nat_str k" if "w = [] \<or> \<not> is_digit (hd w)" for k w
    using that nat_str_digits [of k] by (cases w) (auto simp: list_all_iff takeWhile_append2)
  from assms have "nat_str m = nat_str n" by (metis tw)
  with assms(1) show ?thesis by (auto dest: nat_str_inj)
qed

lemma int_str_app_inj:
  assumes "int_str i @ u = int_str j @ v" "u = [] \<or> \<not> is_digit (hd u)" "v = [] \<or> \<not> is_digit (hd v)"
  shows "i = j \<and> u = v"
proof -
  have hd: "hd (nat_str n @ w) \<noteq> CHR ''-''" for n w
    using nat_str_digits [of n] by (cases "nat_str n") (auto dest: digit_not_space)
  consider "i < 0" "j < 0" | "0 \<le> i" "0 \<le> j" | "i < 0" "0 \<le> j" | "0 \<le> i" "j < 0" by linarith
  then show ?thesis
  proof cases
    case 1
    with assms have "nat (- i) = nat (- j) \<and> u = v"
      by (intro nat_str_app_inj) (simp_all add: int_str_def)
    with 1 show ?thesis by auto
  next
    case 2
    with assms have "nat i = nat j \<and> u = v"
      by (intro nat_str_app_inj) (simp_all add: int_str_def)
    with 2 show ?thesis by auto
  next
    case 3
    with assms(1) have "CHR ''-'' # nat_str (nat (- i)) @ u = nat_str (nat j) @ v" by (simp add: int_str_def)
    with hd [of "nat j" v] show ?thesis by (metis list.sel(1))
  next
    case 4
    with assms(1) have "nat_str (nat i) @ u = CHR ''-'' # nat_str (nat (- j)) @ v" by (simp add: int_str_def)
    with hd [of "nat i" u] show ?thesis by (metis list.sel(1))
  qed
qed

text \<open>Arrays of strings and numbers are read back from their text.\<close>

fun flat :: "json \<Rightarrow> bool" where
  "flat (JStr s) = True"
| "flat (JNum n) = True"
| "flat _ = False"

lemma int_str_no_quote: "int_str i @ u \<noteq> json_quote s @ v"
proof
  assume eq: "int_str i @ u = json_quote s @ v"
  have "hd (int_str i @ u) \<noteq> CHR 0x22"
    using nat_str_digits [of "nat i"] by (cases "nat_str (nat i)") (auto simp: int_str_def is_digit_def)
  moreover have "hd (json_quote s @ v) = CHR 0x22" by (simp add: json_quote_def)
  ultimately show False using eq by metis
qed

lemma flat_app_inj:
  assumes "flat x" "flat y" "json_stringify x @ u = json_stringify y @ v"
    "u = [] \<or> \<not> is_digit (hd u)" "v = [] \<or> \<not> is_digit (hd v)"
  shows "x = y \<and> u = v"
proof (cases x)
  case (JStr s)
  note x = this
  show ?thesis
  proof (cases y)
    case (JStr t)
    with x assms json_quote_inj [of s u t v] show ?thesis by simp
  next
    case (JNum n)
    with x assms(3) show ?thesis using int_str_no_quote [of n v s u] by simp
  qed (use assms in simp_all)
next
  case (JNum m)
  note x = this
  show ?thesis
  proof (cases y)
    case (JStr t)
    with x assms(3) show ?thesis using int_str_no_quote [of m u t v] by simp
  next
    case (JNum n)
    with x assms int_str_app_inj [of m u n v] show ?thesis by simp
  qed (use assms in simp_all)
qed (use assms in simp_all)

lemma join_inj:
  assumes "list_all flat xs" "list_all flat ys" "length xs = length ys" "xs \<noteq> []"
    "js_join '','' (map json_stringify xs) @ '']'' = js_join '','' (map json_stringify ys) @ '']''"
  shows "xs = ys"
  using assms
proof (induction xs arbitrary: ys)
  case (Cons x xs)
  then obtain y ys' where ys: "ys = y # ys'" by (cases ys) auto
  show ?case
  proof (cases xs)
    case Nil
    with Cons.prems ys have "json_stringify x @ '']'' = json_stringify y @ '']''" by simp
    with flat_app_inj [of x y "'']''" "'']''"] Cons.prems ys Nil show ?thesis by (simp add: is_digit_def)
  next
    case (Cons x2 xs2)
    then obtain y2 ys2 where ys': "ys' = y2 # ys2" using Cons.prems(3) ys by (cases ys') auto
    have "json_stringify x @ '','' @ js_join '','' (map json_stringify xs) @ '']''
        = json_stringify y @ '','' @ js_join '','' (map json_stringify ys') @ '']''"
      using Cons.prems(5) by (simp add: ys ys' Cons)
    then have "x = y \<and> '','' @ js_join '','' (map json_stringify xs) @ '']'' = '','' @ js_join '','' (map json_stringify ys') @ '']''"
      using Cons.prems(1,2) ys by (intro flat_app_inj) (simp_all add: is_digit_def)
    with Cons.IH [of ys'] Cons.prems ys Cons show ?thesis by simp
  qed
qed simp

lemma stringify_array_inj:
  assumes "list_all flat xs" "list_all flat ys" "length xs = length ys" "xs \<noteq> []"
    "json_stringify (JArr xs) = json_stringify (JArr ys)"
  shows "xs = ys"
  using assms by (intro join_inj) simp_all

section \<open>Values as text and as entries\<close>

fun js_text :: "json \<Rightarrow> string" where
  "js_text JNull = ''null''"
| "js_text (JBool b) = (if b then ''true'' else ''false'')"
| "js_text (JNum n) = int_str n"
| "js_text (JStr s) = s"
| "js_text (JArr xs) = js_join '','' (map (\<lambda>x. if x = JNull then [] else js_text x) xs)"
| "js_text (JObj fs) = ''[object Object]''"

text \<open>\<open>Object.entries\<close>: own keys of an object, indices of an array or a string.\<close>

fun js_entries :: "json \<Rightarrow> (string \<times> json) list" where
  "js_entries (JObj fs) = fs"
| "js_entries (JArr xs) = zip (map (\<lambda>i. nat_str i) [0..<length xs]) xs"
| "js_entries (JStr s) = zip (map (\<lambda>i. nat_str i) [0..<length s]) (map (\<lambda>c. JStr [c]) s)"
| "js_entries _ = []"

end
