(* ===== verification/CatalogSearch.thy ===== *)
theory CatalogSearch
  imports CatalogFacts JsText
begin

text \<open>
  Searching the catalog: the lexical score (\<open>src/catalog/search.js\<close>), the fusion of the lexical
  and the dense ranking, pagination by cursor (\<open>MemoryCatalogStore.search\<close>), and the key the search
  cache files an answer under (\<open>searchCacheKey\<close>).

  Scores are real numbers; rounding of floating point is left out. A cursor is the text under its
  base64 form, which is a bijection on the texts the code writes; \<open>qv\<close> is what the embedding
  provider answered for the query, \<open>rr\<close> what reranking does to a page.
\<close>

section \<open>Scores\<close>

record search_params = filters +
  sp_query :: string
  sp_limit :: "int option"
  sp_cursor :: "string option"

definition tag_points :: "string list option \<Rightarrow> string \<Rightarrow> nat" where
  "tag_points tags t =
     (case tags of None \<Rightarrow> 0
      | Some ts \<Rightarrow> if list_ex (\<lambda>x. js_lower x = t) ts then 8
                  else if list_ex (\<lambda>x. js_includes t (js_lower x)) ts then 4 else 0)"

definition token_points :: "('a) resource_scheme \<Rightarrow> string \<Rightarrow> nat" where
  "token_points r t =
     (if js_includes t (js_lower (nullish_or (rs_serviceName r) [])) then 10 else 0)
     + tag_points (rs_tags r) t
     + (if js_includes t (js_lower (nullish_or (rs_description r) [])) then 3 else 0)
     + (case rs_extensions r of None \<Rightarrow> 0
        | Some x \<Rightarrow> if js_includes t (js_lower (json_stringify (JObj x))) then 1 else 0)"

definition scoreResource :: "int \<Rightarrow> entry \<Rightarrow> string \<Rightarrow> real" where
  "scoreResource now e query =
     (if js_trim query = [] then 0
      else
        (let tokens = js_words (js_lower query);
             base = sum_list (map (token_points e) tokens)
         in if tokens = [] \<or> base = 0 then 0
            else
              (let boosted = real base + (if en_source e = ''payment'' then 5 else 0);
                   daysOld = real_of_int (now - en_last_seen e) / (1000 * 60 * 60 * 24)
               in if daysOld > 0 then boosted * exp (- daysOld / 43) else boosted)))"

definition dot :: "real list \<Rightarrow> real list \<Rightarrow> real" where
  "dot xs ys = sum_list (map2 (*) xs ys)"

definition cosineSimilarity :: "real list option \<Rightarrow> real list option \<Rightarrow> real" where
  "cosineSimilarity a b =
     (case (a, b) of
        (Some xs, Some ys) \<Rightarrow>
          if length xs \<noteq> length ys then 0
          else if dot xs xs = 0 \<or> dot ys ys = 0 then 0
          else dot xs ys / (sqrt (dot xs xs) * sqrt (dot ys ys))
      | _ \<Rightarrow> 0)"

section \<open>Fusion and pages\<close>

text \<open>The rank of an item in one list is worth \<open>1 / (60 + rank + 1)\<close>.\<close>

fun add_ranks :: "nat \<Rightarrow> (entry \<times> real) list \<Rightarrow> (string, real) jsmap \<Rightarrow> (string, real) jsmap" where
  "add_ranks rank [] m = m"
| "add_ranks rank (x # xs) m =
     add_ranks (rank + 1) xs
       (jm_set (cat_key (fst x)) (nullish_or (jm_get m (cat_key (fst x))) 0 + 1 / (60 + real rank + 1)) m)"

definition by_score :: "(entry \<times> real) list \<Rightarrow> (entry \<times> real) list" where
  "by_score = js_sort_by (\<lambda>x. - snd x)"

definition lexical_scores :: "int \<Rightarrow> string \<Rightarrow> entry list \<Rightarrow> (entry \<times> real) list" where
  "lexical_scores now query items =
     filter (\<lambda>x. snd x > 0) (map (\<lambda>e. (e, scoreResource now e query)) items)"

definition dense_scores :: "real list option \<Rightarrow> entry list \<Rightarrow> (entry \<times> real) list" where
  "dense_scores qv items =
     (case qv of None \<Rightarrow> []
      | Some v \<Rightarrow> filter (\<lambda>x. snd x > 1 / 10)
          (map (\<lambda>e. (e, cosineSimilarity qv (en_embedding e))) (filter (\<lambda>e. en_embedding e \<noteq> None) items)))"

definition rrf_scores :: "int \<Rightarrow> string \<Rightarrow> real list option \<Rightarrow> entry list \<Rightarrow> (string, real) jsmap" where
  "rrf_scores now query qv items =
     add_ranks 0 (by_score (dense_scores qv items)) (add_ranks 0 (by_score (lexical_scores now query items)) [])"

definition search_items :: "int \<Rightarrow> ('a) filters_scheme \<Rightarrow> catalog \<Rightarrow> entry list" where
  "search_items now f c = applyCommonFilters (filters.truncate f) (public_items now c)"

definition ranking ::
  "(string \<Rightarrow> string) \<Rightarrow> int \<Rightarrow> real list option \<Rightarrow> search_params \<Rightarrow> catalog \<Rightarrow> entry list" where
  "ranking coll now qv p c =
     (let items = search_items now p c;
          scores = rrf_scores now (sp_query p) qv items;
          combined = filter (\<lambda>e. jm_get scores (cat_key e) \<noteq> None) items
      in js_sort_by (\<lambda>e. (- nullish_or (jm_get scores (cat_key e)) 0, coll (cat_key e))) combined)"

definition partial_results :: "bool \<Rightarrow> real list option \<Rightarrow> entry list \<Rightarrow> bool" where
  "partial_results provider qv items =
     (if \<not> provider then True
      else (case qv of None \<Rightarrow> True | Some _ \<Rightarrow> list_ex (\<lambda>e. en_embedding e = None) items))"

definition start_index :: "string option \<Rightarrow> nat \<Rightarrow> jsnum" where
  "start_index cursor n =
     (case (case cursor of
              Some s \<Rightarrow> if js_starts_with ''offset:'' s then js_parseInt (drop 7 s) else Fin 0
            | None \<Rightarrow> Fin 0) of
        NaN \<Rightarrow> NaN
      | Fin i \<Rightarrow> Fin (max 0 (min i (int n))))"

definition next_cursor :: "int \<Rightarrow> string" where
  "next_cursor i = ''offset:'' @ int_str i"

record search_page =
  pg_resources :: "entry list"
  pg_partial :: bool
  pg_limit :: int
  pg_cursor :: "string option"

definition search ::
  "(string \<Rightarrow> string) \<Rightarrow> bool \<Rightarrow> real list option \<Rightarrow> (entry list \<Rightarrow> entry list) option \<Rightarrow> int \<Rightarrow> search_params
     \<Rightarrow> catalog \<Rightarrow> search_page" where
  "search coll provider qv rr now p c =
     (let combined = ranking coll now (if provider then qv else None) p c;
          limit = nullish_or (sp_limit p) 20;
          (page, nxt) =
            (case start_index (sp_cursor p) (length combined) of
               NaN \<Rightarrow> ([], None)
             | Fin i \<Rightarrow> (js_slice i (i + limit) combined,
                         if i + limit < int (length combined) then Some (next_cursor (i + limit)) else None))
      in \<lparr>pg_resources = (case rr of Some f \<Rightarrow> if page \<noteq> [] then f page else page | None \<Rightarrow> page),
          pg_partial = partial_results provider (if provider then qv else None) (search_items now p c),
          pg_limit = limit, pg_cursor = nxt\<rparr>)"

section \<open>The key of a search\<close>

definition scoped :: "string option \<Rightarrow> json" where
  "scoped v = JStr (case v of Some s \<Rightarrow> js_trim s | None \<Rightarrow> [])"

definition search_key_parts :: "search_params \<Rightarrow> int \<Rightarrow> json list" where
  "search_key_parts p offset =
     [JStr (js_lower (js_trim (sp_query p))), JNum (nullish_or (sp_limit p) 20), JNum offset,
      JStr (nullish_or (sp_cursor p) []),
      JStr (js_join '','' (js_sort_by (\<lambda>x. x) (nullish_or (fl_extensions p) []))),
      scoped (fl_type p), scoped (fl_payTo p), scoped (fl_scheme p), scoped (fl_network p)]"

definition searchCacheKey :: "search_params \<Rightarrow> string" where
  "searchCacheKey p = json_stringify (JArr (search_key_parts p 0))"

end
