(* ===== verification/SearchFacts.thy ===== *)
theory SearchFacts
  imports CatalogSearch
begin

text \<open>
  What a search promises: every answer is public and passes the filters, the pages a client walks
  with the cursors are the whole ranking, and which searches share a key of the cache.
\<close>

section \<open>What is found\<close>

lemma set_search_items:
  "e \<in> set (search_items now f c) \<longleftrightarrow> e \<in> snd ` set (ct_resources c) \<and> isPublic now e \<and> passes_filters (filters.truncate f) e"
  by (auto simp: search_items_def applyCommonFilters_def public_items_def jm_values_def)

lemma set_ranking_subset: "set (ranking coll now qv p c) \<subseteq> set (search_items now p c)"
  by (auto simp: ranking_def Let_def)

lemma distinct_map_filter': "distinct (map f xs) \<Longrightarrow> distinct (map f (filter P xs))"
  by (rule distinct_map_filter)

lemma distinct_search_items:
  assumes "catalog_ok c"
  shows "distinct (map cat_key (search_items now f c))"
proof -
  have "map cat_key (map snd (ct_resources c)) = map fst (ct_resources c)"
    using assms by (auto simp: catalog_ok_def entry_ok_def)
  then have "distinct (map cat_key (map snd (ct_resources c)))"
    using assms unfolding catalog_ok_def by metis
  then show ?thesis
    unfolding search_items_def applyCommonFilters_def public_items_def jm_values_def
    by (intro distinct_map_filter')
qed

lemma distinct_ranking: "catalog_ok c \<Longrightarrow> distinct (map cat_key (ranking coll now qv p c))"
  unfolding ranking_def Let_def distinct_js_sort_by
  by (intro distinct_map_filter' distinct_search_items)

section \<open>Walking the pages\<close>

fun walk ::
  "nat \<Rightarrow> (string \<Rightarrow> string) \<Rightarrow> bool \<Rightarrow> real list option \<Rightarrow> (entry list \<Rightarrow> entry list) option \<Rightarrow> int \<Rightarrow> search_params
     \<Rightarrow> catalog \<Rightarrow> entry list list" where
  "walk 0 coll provider qv rr now p c = []"
| "walk (Suc n) coll provider qv rr now p c =
     (let pg = search coll provider qv rr now p c in
      pg_resources pg # (case pg_cursor pg of None \<Rightarrow> []
                         | Some s \<Rightarrow> walk n coll provider qv rr now (p\<lparr>sp_cursor := Some s\<rparr>) c))"

lemma start_index_next:
  assumes "0 \<le> i"
  shows "start_index (Some (next_cursor i)) n = Fin (min i (int n))"
  using assms by (simp add: start_index_def next_cursor_def js_starts_with_def int_str_def)

lemma ranking_cursor [simp]: "ranking coll now qv (p\<lparr>sp_cursor := s\<rparr>) c = ranking coll now qv p c"
  by (simp add: ranking_def search_items_def filters.defs)

lemma js_slice_drop:
  assumes "0 \<le> i" "0 \<le> l"
  shows "js_slice i (i + l) xs = take (nat l) (drop (nat i) xs)"
proof -
  have 1: "nat (min (i + l) (int (length xs)) - min i (int (length xs))) = min (nat l) (length xs - nat i)"
    using assms by (auto simp: min_def nat_diff_distrib)
  have 2: "drop (nat (min i (int (length xs)))) xs = drop (nat i) xs"
    using assms by (auto simp: min_def)
  have "take (min (nat l) (length xs - nat i)) (drop (nat i) xs) = take (nat l) (drop (nat i) xs)"
    by (metis length_drop min.commute take_all_iff take_take order_refl)
  with 1 2 assms show ?thesis by (simp add: js_slice_def)
qed

definition reorders :: "(entry list \<Rightarrow> entry list) option \<Rightarrow> bool" where
  "reorders rr \<longleftrightarrow> (\<forall>f xs. rr = Some f \<longrightarrow> mset (f xs) = mset xs)"

lemma search_from:
  assumes "1 \<le> nullish_or (sp_limit p) 20" "0 \<le> i" "start_index (sp_cursor p) (length r) = Fin i"
    "r = ranking coll now (if provider then qv else None) p c" "reorders rr"
    "lm = nullish_or (sp_limit p) 20"
  shows "mset (pg_resources (search coll provider qv rr now p c)) = mset (take (nat lm) (drop (nat i) r))"
    "pg_cursor (search coll provider qv rr now p c) =
       (if i + lm < int (length r) then Some (next_cursor (i + lm)) else None)"
proof -
  have "js_slice i (i + lm) r = take (nat lm) (drop (nat i) r)"
    using assms(1,2,6) by (intro js_slice_drop) simp_all
  with assms(3-6) show "mset (pg_resources (search coll provider qv rr now p c)) = mset (take (nat lm) (drop (nat i) r))"
    by (auto simp: search_def reorders_def Let_def split: option.splits)
  show "pg_cursor (search coll provider qv rr now p c) =
       (if i + lm < int (length r) then Some (next_cursor (i + lm)) else None)"
    using assms(3,4,6) by (simp add: search_def Let_def)
qed

lemma walk_from:
  assumes lm: "1 \<le> nullish_or (sp_limit p) 20" and rr: "reorders rr"
    and r: "r = ranking coll now (if provider then qv else None) p c"
    and i: "start_index (sp_cursor p) (length r) = Fin (int i)" "i \<le> length r" and n: "length r - i < n"
  shows "mset (concat (walk n coll provider qv rr now p c)) = mset (drop i r)
    \<and> (\<forall>pg \<in> set (walk n coll provider qv rr now p c). int (length pg) \<le> nullish_or (sp_limit p) 20)"
  using assms
proof (induction n arbitrary: p i)
  case 0
  then show ?case by simp
next
  case (Suc n)
  define l where "l = nullish_or (sp_limit p) 20"
  let ?pg = "search coll provider qv rr now p c"
  note at = search_from [OF Suc.prems(1) _ Suc.prems(4,3,2) l_def]
  have page: "mset (pg_resources ?pg) = mset (take (nat l) (drop i r))" using at(1) by simp
  have len: "int (length (pg_resources ?pg)) \<le> l"
  proof -
    have "length (pg_resources ?pg) = length (take (nat l) (drop i r))"
      using page by (metis size_mset)
    then have "length (pg_resources ?pg) \<le> nat l" by simp
    with Suc.prems(1) show ?thesis unfolding l_def by linarith
  qed
  show ?case
  proof (cases "int i + l < int (length r)")
    case False
    with at(2) have "pg_cursor ?pg = None" by simp
    moreover have "take (nat l) (drop i r) = drop i r"
      using False Suc.prems(1) by (intro take_all) (auto simp: l_def)
    ultimately show ?thesis using page len by (simp add: l_def Let_def)
  next
    case True
    with at(2) have cur: "pg_cursor ?pg = Some (next_cursor (int i + l))" by simp
    let ?p' = "p\<lparr>sp_cursor := Some (next_cursor (int i + l))\<rparr>"
    have l: "1 \<le> l" using Suc.prems(1) by (simp add: l_def)
    have lim: "nullish_or (sp_limit ?p') 20 = l" by (simp add: l_def)
    have start: "start_index (sp_cursor ?p') (length r) = Fin (int (i + nat l))"
      using True l by (simp add: start_index_next)
    have IH: "mset (concat (walk n coll provider qv rr now ?p' c)) = mset (drop (i + nat l) r)
        \<and> (\<forall>pg \<in> set (walk n coll provider qv rr now ?p' c). int (length pg) \<le> nullish_or (sp_limit ?p') 20)"
    proof (rule Suc.IH)
      show "1 \<le> nullish_or (sp_limit ?p') 20" using lim l by simp
      show "r = ranking coll now (if provider then qv else None) ?p' c" using Suc.prems(3) by simp
      show "start_index (sp_cursor ?p') (length r) = Fin (int (i + nat l))" by (rule start)
      show "i + nat l \<le> length r" "length r - (i + nat l) < n" using True l Suc.prems(6) by linarith+
    qed (rule Suc.prems(2))
    have "mset (take (nat l) (drop i r)) + mset (drop (i + nat l) r) = mset (drop i r)"
      by (metis add.commute append_take_drop_id drop_drop mset_append)
    with IH page len cur lim show ?thesis by (simp add: l_def Let_def)
  qed
qed

lemma walk_complete:
  assumes "1 \<le> nullish_or (sp_limit p) 20" "reorders rr" "sp_cursor p = None"
    "r = ranking coll now (if provider then qv else None) p c" "length r < n"
  shows "mset (concat (walk n coll provider qv rr now p c)) = mset r
    \<and> (\<forall>pg \<in> set (walk n coll provider qv rr now p c). int (length pg) \<le> nullish_or (sp_limit p) 20)"
proof -
  have "start_index (sp_cursor p) (length r) = Fin (int 0)" using assms(3) by (simp add: start_index_def)
  from walk_from [OF assms(1,2,4) this] assms(5) show ?thesis by simp
qed

section \<open>Pruning and searching\<close>

lemma prune_search:
  assumes "now \<le> t"
  shows "search coll provider qv rr t p (snd (pruneExpired now c)) = search coll provider qv rr t p c"
  by (simp add: search_def ranking_def search_items_def prune_public [OF assms])

text \<open>A filter nothing passes finds nothing.\<close>

lemma search_none:
  assumes "\<forall>e \<in> snd ` set (ct_resources c). \<not> passes_filters (filters.truncate p) e" "rr = None \<or> rr = Some f"
  shows "pg_resources (search coll provider qv rr now p c) = []"
proof -
  have "ranking coll now q p c = []" for q
  proof -
    have "e \<notin> set (search_items now p c)" for e using assms(1) unfolding set_search_items by blast
    then show ?thesis using set_ranking_subset [of coll now q p c] by (cases "ranking coll now q p c") auto
  qed
  then show ?thesis
    by (auto simp: search_def js_slice_def Let_def split: jsnum.splits option.splits)
qed

end
