(* ===== verification/CatalogCache.thy ===== *)
theory CatalogCache
  imports SearchFacts
begin

text \<open>
  The two-tier cache in front of the catalog's search (\<open>src/catalog/cache.js\<close>): an in-process LRU
  with expiry, a shared Redis tier, one store call at a time per key, and the version that every
  key carries.

  The code is asynchronous, so a search is cut where it awaits: \<open>search_begin\<close> runs up to the first
  await, \<open>load_shared\<close> is the Redis read's reply, \<open>load_store\<close> the store's answer and \<open>load_finish\<close>
  what happens with it. Between any two of them other requests, writes and messages may run. The
  store is whatever \<open>ver\<close> and \<open>ans\<close> read of a state \<open>'s\<close>: its write version and its answer to a
  search. What Redis holds is part of the state and may lose entries at any time.
\<close>

section \<open>LruTtlCache\<close>

record 'v lru =
  lr_entries :: "(string, 'v \<times> int) jsmap"
  lr_max :: int
  lr_ttl :: int

definition lru_get :: "string \<Rightarrow> int \<Rightarrow> 'v lru \<Rightarrow> 'v option \<times> 'v lru" where
  "lru_get key now m =
     (case jm_get (lr_entries m) key of
        None \<Rightarrow> (None, m)
      | Some (v, expiresAt) \<Rightarrow>
          if expiresAt \<le> now then (None, m\<lparr>lr_entries := jm_delete key (lr_entries m)\<rparr>)
          else (Some v, m\<lparr>lr_entries := jm_delete key (lr_entries m) @ [(key, (v, expiresAt))]\<rparr>))"

text \<open>The loop drops the first entry while there are too many.\<close>

fun shed_coldest :: "int \<Rightarrow> ('k \<times> 'v) list \<Rightarrow> ('k \<times> 'v) list" where
  "shed_coldest cap [] = []"
| "shed_coldest cap (x # xs) = (if int (length (x # xs)) > cap then shed_coldest cap xs else x # xs)"

definition lru_set :: "string \<Rightarrow> 'v \<Rightarrow> int \<Rightarrow> 'v lru \<Rightarrow> 'v lru" where
  "lru_set key v now m =
     m\<lparr>lr_entries := shed_coldest (lr_max m) (jm_delete key (lr_entries m) @ [(key, (v, now + lr_ttl m))])\<rparr>"

definition lru_clear :: "'v lru \<Rightarrow> 'v lru" where
  "lru_clear m = m\<lparr>lr_entries := []\<rparr>"

section \<open>CatalogSearchCache\<close>

record 'v call =
  cl_params :: search_params
  cl_version :: nat
  cl_live :: bool
  cl_result :: "'v option"

record ('s, 'v) scache =
  sc_store :: 's
  sc_l1 :: "'v lru"
  sc_l2 :: "(string, 'v) jsmap"
  sc_usable :: bool
  sc_inflight :: "(string, 'v call) jsmap"
  sc_minValid :: nat
  sc_lastSeen :: nat

definition cache_key :: "nat \<Rightarrow> search_params \<Rightarrow> string" where
  "cache_key version p = ''x402:catalog:search:v'' @ nat_str version @ '':'' @ searchCacheKey p"

text \<open>
  A search up to its first await: answered from L1, joined to the call in flight for its key, or a
  call of its own.
\<close>

datatype 'v begun = Hit 'v | Waits string

definition retire_old :: "nat \<Rightarrow> ('s, 'v) scache \<Rightarrow> ('s, 'v) scache" where
  "retire_old version st =
     (if version \<noteq> sc_lastSeen st
      then st\<lparr>sc_lastSeen := version, sc_minValid := max (sc_minValid st) version, sc_l1 := lru_clear (sc_l1 st)\<rparr>
      else st)"

definition search_begin ::
  "('s \<Rightarrow> nat) \<Rightarrow> search_params \<Rightarrow> int \<Rightarrow> ('s, 'v) scache \<Rightarrow> 'v begun \<times> ('s, 'v) scache" where
  "search_begin ver p now st =
     (let version = ver (sc_store st);
          st1 = retire_old version st;
          key = cache_key version p
      in case lru_get key now (sc_l1 st1) of
           (Some v, l1) \<Rightarrow> (Hit v, st1\<lparr>sc_l1 := l1\<rparr>)
         | (None, l1) \<Rightarrow>
             (let st2 = st1\<lparr>sc_l1 := l1\<rparr> in
              if jm_get (sc_inflight st2) key \<noteq> None then (Waits key, st2)
              else (Waits key, st2\<lparr>sc_inflight := jm_set key
                       \<lparr>cl_params = p, cl_version = version, cl_live = (sc_minValid st2 \<le> version), cl_result = None\<rparr>
                       (sc_inflight st2)\<rparr>)))"

text \<open>
  The Redis read's reply for a call: \<open>answered\<close> is false when Redis fails or is not usable. A hit is
  stored in L1 and answers everyone waiting on the call, which leaves the table.
\<close>

definition load_shared :: "bool \<Rightarrow> string \<Rightarrow> int \<Rightarrow> ('s, 'v) scache \<Rightarrow> 'v option \<times> ('s, 'v) scache" where
  "load_shared answered key now st =
     (case jm_get (sc_inflight st) key of
        None \<Rightarrow> (None, st)
      | Some c \<Rightarrow>
          if \<not> cl_live c \<or> \<not> sc_usable st then (None, st)
          else if \<not> answered then (None, st\<lparr>sc_usable := False\<rparr>)
          else (case jm_get (sc_l2 st) key of
                  None \<Rightarrow> (None, st)
                | Some v \<Rightarrow> (Some v, st\<lparr>sc_l1 := lru_set key v now (sc_l1 st),
                                      sc_inflight := jm_delete key (sc_inflight st)\<rparr>)))"

definition load_store :: "('s \<Rightarrow> search_params \<Rightarrow> 'v) \<Rightarrow> string \<Rightarrow> ('s, 'v) scache \<Rightarrow> ('s, 'v) scache" where
  "load_store ans key st =
     (case jm_get (sc_inflight st) key of
        None \<Rightarrow> st
      | Some c \<Rightarrow> st\<lparr>sc_inflight := jm_set key (c\<lparr>cl_result := Some (ans (sc_store st) (cl_params c))\<rparr>) (sc_inflight st)\<rparr>)"

definition load_finish :: "bool \<Rightarrow> string \<Rightarrow> int \<Rightarrow> ('s, 'v) scache \<Rightarrow> 'v option \<times> ('s, 'v) scache" where
  "load_finish written key now st =
     (case jm_get (sc_inflight st) key of
        None \<Rightarrow> (None, st)
      | Some c \<Rightarrow>
          (case cl_result c of
             None \<Rightarrow> (None, st)
           | Some v \<Rightarrow>
               (let st1 = st\<lparr>sc_inflight := jm_delete key (sc_inflight st)\<rparr> in
                if \<not> cl_live c then (Some v, st1)
                else
                  (let st2 = st1\<lparr>sc_l1 := lru_set key v now (sc_l1 st1)\<rparr> in
                   (Some v, if \<not> sc_usable st2 then st2
                            else if written then st2\<lparr>sc_l2 := jm_set key v (sc_l2 st2)\<rparr>
                            else st2\<lparr>sc_usable := False\<rparr>)))))"

definition invalidate :: "nat \<Rightarrow> ('s, 'v) scache \<Rightarrow> ('s, 'v) scache" where
  "invalidate version st =
     st\<lparr>sc_minValid := max (sc_minValid st) version, sc_lastSeen := version, sc_l1 := lru_clear (sc_l1 st)\<rparr>"

text \<open>A peer's announcement; \<open>None\<close> when the message is not one.\<close>

definition onMessage :: "nat option \<Rightarrow> ('s, 'v) scache \<Rightarrow> ('s, 'v) scache" where
  "onMessage version st =
     (case version of
        None \<Rightarrow> st
      | Some v \<Rightarrow> if v \<le> sc_minValid st then st
                 else st\<lparr>sc_minValid := v, sc_l1 := lru_clear (sc_l1 st)\<rparr>)"

section \<open>The LRU\<close>

lemma shed_coldest_length: "0 \<le> cap \<Longrightarrow> int (length (shed_coldest cap xs)) \<le> cap"
  by (induction cap xs rule: shed_coldest.induct) auto

lemma shed_coldest_suffix: "\<exists>ys. xs = ys @ shed_coldest cap xs"
proof (induction cap xs rule: shed_coldest.induct)
  case (2 cap x xs)
  then show ?case by (metis Cons_eq_appendI append_Nil shed_coldest.simps(2))
qed simp

text \<open>The cache never holds more than its capacity, and holds what was just put in.\<close>

lemma lru_set_bound: "0 \<le> lr_max m \<Longrightarrow> int (length (lr_entries (lru_set k v now m))) \<le> lr_max m"
  by (simp add: lru_set_def shed_coldest_length)

lemma set_lru_set:
  assumes "x \<in> set (lr_entries (lru_set k v now m))"
  shows "x \<in> set (lr_entries m) \<or> x = (k, (v, now + lr_ttl m))"
proof -
  let ?xs = "jm_delete k (lr_entries m) @ [(k, (v, now + lr_ttl m))]"
  obtain ys where "?xs = ys @ shed_coldest (lr_max m) ?xs"
    using shed_coldest_suffix [of ?xs "lr_max m"] by blast
  moreover have "x \<in> set (shed_coldest (lr_max m) ?xs)" using assms by (simp add: lru_set_def)
  ultimately have "x \<in> set ?xs" by (metis UnI2 set_append)
  then show ?thesis using set_jm_delete_subset [of k "lr_entries m"] by auto
qed

lemma lru_get_cases:
  assumes "lru_get k now m = (r, m')"
  obtains "r = None" "set (lr_entries m') \<subseteq> set (lr_entries m)"
  | v t where "r = Some v" "(k, (v, t)) \<in> set (lr_entries m)" "set (lr_entries m') \<subseteq> set (lr_entries m)"
proof (cases "jm_get (lr_entries m) k")
  case None
  with assms that(1) show ?thesis by (simp add: lru_get_def)
next
  case (Some p)
  obtain v t where p: "p = (v, t)" by (cases p)
  have mem: "(k, (v, t)) \<in> set (lr_entries m)" using map_of_SomeD [OF Some] by (simp add: p)
  show ?thesis
  proof (cases "t \<le> now")
    case True
    with assms Some p set_jm_delete_subset [of k "lr_entries m"] that(1) show ?thesis by (auto simp: lru_get_def)
  next
    case False
    with assms Some p mem set_jm_delete_subset [of k "lr_entries m"] that(2) show ?thesis by (auto simp: lru_get_def)
  qed
qed

lemma lru_clear_entries [simp]: "lr_entries (lru_clear m) = []"
  by (simp add: lru_clear_def)

end
