(* ===== verification/CacheFacts.thy ===== *)
theory CacheFacts
  imports CatalogCache
begin

text \<open>
  Freshness of the search cache over any interleaving of searches, writes and messages, and the
  requests whose keys stand for the same answer.
\<close>

section \<open>Keys\<close>

lemma cache_key_inj:
  assumes "cache_key m p = cache_key n q"
  shows "m = n \<and> searchCacheKey p = searchCacheKey q"
proof -
  have "nat_str m @ CHR '':'' # searchCacheKey p = nat_str n @ CHR '':'' # searchCacheKey q"
    using assms by (simp add: cache_key_def)
  then have "m = n \<and> CHR '':'' # searchCacheKey p = CHR '':'' # searchCacheKey q"
    by (rule nat_str_app_inj) (simp_all add: is_digit_def)
  then show ?thesis by simp
qed

lemma searchCacheKey_inj:
  assumes "searchCacheKey p = searchCacheKey q"
  shows "search_key_parts p 0 = search_key_parts q 0"
  using assms unfolding searchCacheKey_def
  by (intro stringify_array_inj) (simp_all add: search_key_parts_def scoped_def)

subsection \<open>Requests that mean what their key says\<close>

definition plain :: "string option \<Rightarrow> bool" where
  "plain v \<longleftrightarrow> (case v of None \<Rightarrow> True | Some s \<Rightarrow> js_trim s = s)"

definition tidy :: "search_params \<Rightarrow> bool" where
  "tidy p \<longleftrightarrow> plain (fl_type p) \<and> plain (fl_payTo p) \<and> plain (fl_scheme p) \<and> plain (fl_network p)
     \<and> (case fl_extensions p of None \<Rightarrow> True
        | Some xs \<Rightarrow> list_all (\<lambda>x. x \<noteq> [] \<and> CHR '','' \<notin> set x) xs) \<and> sp_cursor p \<noteq> Some []"

lemma narrows_scoped:
  assumes "plain f" "plain g" "scoped f = scoped g"
  shows "narrows f v = narrows g v"
  using assms by (auto simp: plain_def scoped_def narrows_def split: option.splits)

lemma js_join_Cons: "js_join '','' (z # zs) = z @ (if zs = [] then [] else CHR '','' # js_join '','' zs)"
  by (cases zs) simp_all

lemma join_comma_inj:
  "\<lbrakk>list_all (\<lambda>x. x \<noteq> [] \<and> CHR '','' \<notin> set x) xs; list_all (\<lambda>x. x \<noteq> [] \<and> CHR '','' \<notin> set x) ys;
    js_join '','' xs = js_join '','' ys\<rbrakk> \<Longrightarrow> xs = ys"
proof (induction xs arbitrary: ys)
  case Nil
  then show ?case by (cases ys) (auto simp: js_join_Cons split: if_splits)
next
  case (Cons x xs)
  obtain y ys' where ys: "ys = y # ys'"
    using Cons.prems(1,3) by (cases ys) (auto simp: js_join_Cons)
  have eq: "x @ (if xs = [] then [] else CHR '','' # js_join '','' xs) = y @ (if ys' = [] then [] else CHR '','' # js_join '','' ys')"
    using Cons.prems(3) by (simp add: ys js_join_Cons)
  have tw: "takeWhile (\<lambda>c. c \<noteq> CHR '','') (z @ w) = z" if "CHR '','' \<notin> set z" "w = [] \<or> hd w = CHR '',''" for z w :: string
    using that by (cases w) (auto simp: takeWhile_append)
  have "takeWhile (\<lambda>c. c \<noteq> CHR '','') (x @ (if xs = [] then [] else CHR '','' # js_join '','' xs)) = x"
    by (rule tw) (use Cons.prems in simp_all)
  moreover have "takeWhile (\<lambda>c. c \<noteq> CHR '','') (y @ (if ys' = [] then [] else CHR '','' # js_join '','' ys')) = y"
    by (rule tw) (use Cons.prems ys in simp_all)
  ultimately have "x = y" using eq by metis
  with eq have "(xs = [] \<longleftrightarrow> ys' = []) \<and> js_join '','' xs = js_join '','' ys'"
    by (auto split: if_splits)
  with Cons.IH [of ys'] Cons.prems ys \<open>x = y\<close> show ?case by simp
qed

lemma words_from_space: "words_from w (s @ [c]) = words_from w s" if "js_space c"
  using that by (induction w s rule: words_from.induct) auto

lemma words_from_drop: "words_from [] (dropWhile js_space s) = words_from [] s"
  by (induction s) auto

lemma words_from_trailing: "words_from w (rev (dropWhile js_space (rev s))) = words_from w s"
proof (induction s rule: rev_induct)
  case (snoc c s)
  then show ?case by (cases "js_space c") (auto simp: words_from_space)
qed simp

lemma js_words_trim: "js_words (js_trim s) = js_words s"
  by (simp add: js_words_def js_trim_def words_from_drop words_from_trailing)

lemma js_space_lower: "js_space (js_lower_char c) = js_space c"
proof -
  have "of_char (char_of n :: char) = n mod 256" for n :: nat by simp
  then show ?thesis by (auto simp: js_space_def js_lower_char_def Let_def)
qed

lemma js_lower_trim: "js_trim (js_lower s) = js_lower (js_trim s)"
  by (simp add: js_trim_def js_lower_def dropWhile_map rev_map o_def js_space_lower)

lemma score_key:
  assumes "js_lower (js_trim q1) = js_lower (js_trim q2)"
  shows "scoreResource now e q1 = scoreResource now e q2"
proof -
  have "js_trim q1 = [] \<longleftrightarrow> js_trim q2 = []"
    using assms by (metis js_lower_def map_is_Nil_conv)
  moreover have "js_words (js_lower q1) = js_words (js_lower q2)"
    using assms by (metis js_lower_trim js_words_trim)
  ultimately show ?thesis by (simp add: scoreResource_def)
qed

text \<open>Two tidy requests with one key get one answer from the catalog, without an embedding provider.\<close>

lemma ext_filter_key:
  assumes "tidy p" "tidy q"
    "js_join '','' (js_sort_by (\<lambda>x. x) (nullish_or (fl_extensions p) [])) = js_join '','' (js_sort_by (\<lambda>x. x) (nullish_or (fl_extensions q) []))"
  shows "(case fl_extensions p of None \<Rightarrow> True | Some xs \<Rightarrow> list_all P xs) = (case fl_extensions q of None \<Rightarrow> True | Some xs \<Rightarrow> list_all P xs)"
proof -
  have ok: "list_all (\<lambda>x. x \<noteq> [] \<and> CHR '','' \<notin> set x) (js_sort_by (\<lambda>x. x) (nullish_or (fl_extensions r) []))" if "tidy r" for r
    using that by (auto simp: tidy_def list_all_iff split: option.splits)
  have "js_sort_by (\<lambda>x. x) (nullish_or (fl_extensions p) []) = js_sort_by (\<lambda>x. x) (nullish_or (fl_extensions q) [])"
    by (rule join_comma_inj [OF ok [OF assms(1)] ok [OF assms(2)] assms(3)])
  then have "set (nullish_or (fl_extensions p) []) = set (nullish_or (fl_extensions q) [])"
    by (metis set_js_sort_by)
  then show ?thesis by (auto simp: list_all_iff split: option.splits)
qed

lemma tidy_same_answer:
  assumes "tidy p" "tidy q" "searchCacheKey p = searchCacheKey q"
  shows "search coll False qv rr now p c = search coll False qv rr now q c"
proof -
  have parts: "js_lower (js_trim (sp_query p)) = js_lower (js_trim (sp_query q))"
    "nullish_or (sp_limit p) 20 = nullish_or (sp_limit q) 20"
    "nullish_or (sp_cursor p) [] = nullish_or (sp_cursor q) []"
    "js_join '','' (js_sort_by (\<lambda>x. x) (nullish_or (fl_extensions p) [])) = js_join '','' (js_sort_by (\<lambda>x. x) (nullish_or (fl_extensions q) []))"
    "scoped (fl_type p) = scoped (fl_type q)" "scoped (fl_payTo p) = scoped (fl_payTo q)"
    "scoped (fl_scheme p) = scoped (fl_scheme q)" "scoped (fl_network p) = scoped (fl_network q)"
    using searchCacheKey_inj [OF assms(3)] by (simp_all add: search_key_parts_def)
  have pl: "plain (fl_type p)" "plain (fl_payTo p)" "plain (fl_scheme p)" "plain (fl_network p)"
    "plain (fl_type q)" "plain (fl_payTo q)" "plain (fl_scheme q)" "plain (fl_network q)"
    using assms(1,2) by (simp_all add: tidy_def)
  have "passes_filters (filters.truncate p) e = passes_filters (filters.truncate q) e" for e :: entry
    unfolding passes_filters_def filters.truncate_def filters.select_convs
      narrows_scoped [OF pl(1,5) parts(5)] narrows_scoped [OF pl(2,6) parts(6)]
      narrows_scoped [OF pl(3,7) parts(7)] narrows_scoped [OF pl(4,8) parts(8)]
      ext_filter_key [OF assms(1,2) parts(4)] by (rule refl)
  then have items: "search_items now p c = search_items now q c"
    unfolding search_items_def applyCommonFilters_def by (intro filter_cong refl)
  have "rrf_scores now (sp_query p) v xs = rrf_scores now (sp_query q) v xs" for v xs
    by (simp add: rrf_scores_def lexical_scores_def score_key [OF parts(1)])
  then have rank: "ranking coll now None p c = ranking coll now None q c"
    by (simp add: ranking_def items)
  have "sp_cursor p \<noteq> Some []" "sp_cursor q \<noteq> Some []" using assms(1,2) by (simp_all add: tidy_def)
  with parts(3) have "sp_cursor p = sp_cursor q"
    by (cases "sp_cursor p"; cases "sp_cursor q") auto
  with rank items parts(2) show ?thesis by (simp add: search_def)
qed

section \<open>Freshness\<close>

datatype 's cache_event =
    E_store 's
  | E_search search_params int
  | E_shared bool string int
  | E_load string
  | E_finish bool string int
  | E_invalidate
  | E_message "nat option"
  | E_redis bool
  | E_lost string

text \<open>One event, and the answer it gives under a key, if any.\<close>

fun cache_step ::
  "('s \<Rightarrow> nat) \<Rightarrow> ('s \<Rightarrow> search_params \<Rightarrow> 'v) \<Rightarrow> 's cache_event \<Rightarrow> ('s, 'v) scache \<Rightarrow> (string \<times> 'v) option \<times> ('s, 'v) scache" where
  "cache_step ver ans (E_store s) st = (None, st\<lparr>sc_store := s\<rparr>)"
| "cache_step ver ans (E_search p now) st =
     (case search_begin ver p now st of
        (Hit v, st') \<Rightarrow> (Some (cache_key (ver (sc_store st)) p, v), st')
      | (Waits _, st') \<Rightarrow> (None, st'))"
| "cache_step ver ans (E_shared answered k now) st =
     (case load_shared answered k now st of (r, st') \<Rightarrow> (map_option (Pair k) r, st'))"
| "cache_step ver ans (E_load k) st = (None, load_store ans k st)"
| "cache_step ver ans (E_finish written k now) st =
     (case load_finish written k now st of (r, st') \<Rightarrow> (map_option (Pair k) r, st'))"
| "cache_step ver ans E_invalidate st = (None, invalidate (ver (sc_store st)) st)"
| "cache_step ver ans (E_message v) st = (None, onMessage v st)"
| "cache_step ver ans (E_redis u) st = (None, st\<lparr>sc_usable := u\<rparr>)"
| "cache_step ver ans (E_lost k) st = (None, st\<lparr>sc_l2 := jm_delete k (sc_l2 st)\<rparr>)"

fun cache_run ::
  "('s \<Rightarrow> nat) \<Rightarrow> ('s \<Rightarrow> search_params \<Rightarrow> 'v) \<Rightarrow> 's cache_event list \<Rightarrow> ('s, 'v) scache \<Rightarrow> (string \<times> 'v) list" where
  "cache_run ver ans [] st = []"
| "cache_run ver ans (x # xs) st =
     (case cache_step ver ans x st of
        (Some a, st') \<Rightarrow> a # cache_run ver ans xs st'
      | (None, st') \<Rightarrow> cache_run ver ans xs st')"

fun store_states :: "'s cache_event list \<Rightarrow> 's list" where
  "store_states [] = []"
| "store_states (E_store s # xs) = s # store_states xs"
| "store_states (_ # xs) = store_states xs"

text \<open>The store's version never goes back, and the searches satisfy \<open>Q\<close>.\<close>

fun run_ok :: "('s \<Rightarrow> nat) \<Rightarrow> (search_params \<Rightarrow> bool) \<Rightarrow> 's \<Rightarrow> 's cache_event list \<Rightarrow> bool" where
  "run_ok ver Q s [] = True"
| "run_ok ver Q s (E_store s' # xs) = (ver s \<le> ver s' \<and> run_ok ver Q s' xs)"
| "run_ok ver Q s (E_search p now # xs) = (Q p \<and> run_ok ver Q s xs)"
| "run_ok ver Q s (_ # xs) = run_ok ver Q s xs"

text \<open>A value filed under a key is an answer of a store state at least as new as the key's version.\<close>

definition fresh :: "('s \<Rightarrow> nat) \<Rightarrow> ('s \<Rightarrow> search_params \<Rightarrow> 'v) \<Rightarrow> (search_params \<Rightarrow> bool) \<Rightarrow> 's set \<Rightarrow> string \<Rightarrow> 'v \<Rightarrow> bool" where
  "fresh ver ans Q H k v \<longleftrightarrow> (\<exists>n p s. k = cache_key n p \<and> Q p \<and> s \<in> H \<and> n \<le> ver s \<and> v = ans s p)"

definition call_ok :: "('s \<Rightarrow> nat) \<Rightarrow> ('s \<Rightarrow> search_params \<Rightarrow> 'v) \<Rightarrow> (search_params \<Rightarrow> bool) \<Rightarrow> 's set \<Rightarrow> 's \<Rightarrow> string \<Rightarrow> 'v call \<Rightarrow> bool" where
  "call_ok ver ans Q H s k c \<longleftrightarrow> k = cache_key (cl_version c) (cl_params c) \<and> Q (cl_params c) \<and> cl_version c \<le> ver s
     \<and> (case cl_result c of None \<Rightarrow> True | Some v \<Rightarrow> fresh ver ans Q H k v)"

definition cache_ok :: "('s \<Rightarrow> nat) \<Rightarrow> ('s \<Rightarrow> search_params \<Rightarrow> 'v) \<Rightarrow> (search_params \<Rightarrow> bool) \<Rightarrow> 's set \<Rightarrow> ('s, 'v) scache \<Rightarrow> bool" where
  "cache_ok ver ans Q H st \<longleftrightarrow> sc_store st \<in> H
     \<and> (\<forall>(k, (v, t)) \<in> set (lr_entries (sc_l1 st)). fresh ver ans Q H k v)
     \<and> (\<forall>(k, v) \<in> set (sc_l2 st). fresh ver ans Q H k v)
     \<and> (\<forall>(k, c) \<in> set (sc_inflight st). call_ok ver ans Q H (sc_store st) k c)"

lemma fresh_mono: "fresh ver ans Q H k v \<Longrightarrow> H \<subseteq> H' \<Longrightarrow> fresh ver ans Q H' k v"
  unfolding fresh_def by blast

lemma call_ok_mono: "call_ok ver ans Q H s k c \<Longrightarrow> H \<subseteq> H' \<Longrightarrow> ver s \<le> ver s' \<Longrightarrow> call_ok ver ans Q H' s' k c"
  using fresh_mono by (fastforce simp: call_ok_def split: option.splits)

lemma cache_okI:
  assumes "sc_store st \<in> H"
    "\<And>k v t. (k, (v, t)) \<in> set (lr_entries (sc_l1 st)) \<Longrightarrow> fresh ver ans Q H k v"
    "\<And>k v. (k, v) \<in> set (sc_l2 st) \<Longrightarrow> fresh ver ans Q H k v"
    "\<And>k c. (k, c) \<in> set (sc_inflight st) \<Longrightarrow> call_ok ver ans Q H (sc_store st) k c"
  shows "cache_ok ver ans Q H st"
  using assms unfolding cache_ok_def by fast

lemma cache_okD:
  assumes "cache_ok ver ans Q H st"
  shows "sc_store st \<in> H"
    "(k, (v, t)) \<in> set (lr_entries (sc_l1 st)) \<Longrightarrow> fresh ver ans Q H k v"
    "(k, w) \<in> set (sc_l2 st) \<Longrightarrow> fresh ver ans Q H k w"
    "(k, c) \<in> set (sc_inflight st) \<Longrightarrow> call_ok ver ans Q H (sc_store st) k c"
  using assms unfolding cache_ok_def by fast+

lemma cache_ok_store:
  assumes "cache_ok ver ans Q H st" "ver (sc_store st) \<le> ver s"
  shows "cache_ok ver ans Q (insert s H) (st\<lparr>sc_store := s\<rparr>)"
proof (rule cache_okI)
  show "fresh ver ans Q (insert s H) k v" if "(k, (v, t)) \<in> set (lr_entries (sc_l1 (st\<lparr>sc_store := s\<rparr>)))" for k v t
    using that cache_okD(2) [OF assms(1)] fresh_mono [of ver ans Q H k v "insert s H"] by auto
  show "fresh ver ans Q (insert s H) k v" if "(k, v) \<in> set (sc_l2 (st\<lparr>sc_store := s\<rparr>))" for k v
    using that cache_okD(3) [OF assms(1)] fresh_mono [of ver ans Q H k v "insert s H"] by auto
  show "call_ok ver ans Q (insert s H) (sc_store (st\<lparr>sc_store := s\<rparr>)) k c" if "(k, c) \<in> set (sc_inflight (st\<lparr>sc_store := s\<rparr>))" for k c
    using that cache_okD(4) [OF assms(1), of k c] call_ok_mono [of ver ans Q H "sc_store st" k c "insert s H" s] assms(2) by auto
qed simp

text \<open>Dropping L1, or changing what no stored value depends on.\<close>

lemma cache_ok_subset:
  assumes "cache_ok ver ans Q H st" "sc_store st' = sc_store st"
    "set (lr_entries (sc_l1 st')) \<subseteq> set (lr_entries (sc_l1 st))" "set (sc_l2 st') \<subseteq> set (sc_l2 st)"
    "set (sc_inflight st') \<subseteq> set (sc_inflight st)"
  shows "cache_ok ver ans Q H st'"
  using assms cache_okD [OF assms(1)] by (intro cache_okI) (simp | blast)+

lemma retire_old_fields [simp]:
  "sc_store (retire_old n st) = sc_store st" "sc_l2 (retire_old n st) = sc_l2 st"
  "sc_inflight (retire_old n st) = sc_inflight st"
  "set (lr_entries (sc_l1 (retire_old n st))) \<subseteq> set (lr_entries (sc_l1 st))"
  by (simp_all add: retire_old_def)

lemma cache_ok_search:
  assumes ok: "cache_ok ver ans Q H st" and Q: "Q p" and s: "search_begin ver p now st = (b, st')"
  shows "cache_ok ver ans Q H st' \<and> sc_store st' = sc_store st
    \<and> (\<forall>v. b = Hit v \<longrightarrow> fresh ver ans Q H (cache_key (ver (sc_store st)) p) v)"
proof -
  let ?n = "ver (sc_store st)"
  let ?st1 = "retire_old ?n st" and ?k = "cache_key ?n p"
  obtain r l1 where g: "lru_get ?k now (sc_l1 ?st1) = (r, l1)" by (metis surj_pair)
  let ?st2 = "?st1\<lparr>sc_l1 := l1\<rparr>"
  have sub: "set (lr_entries l1) \<subseteq> set (lr_entries (sc_l1 st))"
    using g retire_old_fields(4) by (cases rule: lru_get_cases) blast+
  have ok2: "cache_ok ver ans Q H ?st2"
    by (rule cache_ok_subset [OF ok]) (use sub in simp_all)
  show ?thesis
  proof (cases r)
    case (Some v)
    obtain t where "(?k, (v, t)) \<in> set (lr_entries (sc_l1 ?st1))"
      using g Some by (cases rule: lru_get_cases) auto
    then have "fresh ver ans Q H ?k v" using cache_okD(2) [OF ok] retire_old_fields(4) by blast
    moreover have "b = Hit v" "st' = ?st2" using s g Some by (simp_all add: search_begin_def Let_def)
    ultimately show ?thesis using ok2 by simp
  next
    case None
    let ?c = "\<lparr>cl_params = p, cl_version = ?n, cl_live = (sc_minValid ?st2 \<le> ?n), cl_result = None\<rparr>"
    have st': "b = Waits ?k" "st' = (if jm_get (sc_inflight st) ?k \<noteq> None then ?st2
        else ?st2\<lparr>sc_inflight := jm_set ?k ?c (sc_inflight st)\<rparr>)"
      using s g None by (simp_all add: search_begin_def Let_def split: if_splits)
    have "cache_ok ver ans Q H (?st2\<lparr>sc_inflight := jm_set ?k ?c (sc_inflight st)\<rparr>)"
    proof (rule cache_okI)
      show "call_ok ver ans Q H (sc_store (?st2\<lparr>sc_inflight := jm_set ?k ?c (sc_inflight st)\<rparr>)) k c"
        if "(k, c) \<in> set (sc_inflight (?st2\<lparr>sc_inflight := jm_set ?k ?c (sc_inflight st)\<rparr>))" for k c
      proof -
        have "(k, c) \<in> insert (?k, ?c) (set (sc_inflight st))"
          using that set_jm_set_subset [of ?k ?c "sc_inflight st"] by auto
        then show ?thesis using Q cache_okD(4) [OF ok, of k c] by (auto simp: call_ok_def)
      qed
    qed (use cache_okD [OF ok2] in simp_all)
    with st' ok2 show ?thesis by simp
  qed
qed

lemma cache_ok_shared:
  assumes ok: "cache_ok ver ans Q H st" and s: "load_shared answered k now st = (r, st')"
  shows "cache_ok ver ans Q H st' \<and> sc_store st' = sc_store st \<and> (\<forall>v. r = Some v \<longrightarrow> fresh ver ans Q H k v)"
proof (cases "r = None")
  case True
  have "cache_ok ver ans Q H (st\<lparr>sc_usable := False\<rparr>)" by (rule cache_ok_subset [OF ok]) simp_all
  with True s ok show ?thesis by (auto simp: load_shared_def split: option.splits if_splits)
next
  case False
  then obtain v where r: "r = Some v" and v: "jm_get (sc_l2 st) k = Some v"
    and st': "st' = st\<lparr>sc_l1 := lru_set k v now (sc_l1 st), sc_inflight := jm_delete k (sc_inflight st)\<rparr>"
    using s by (auto simp: load_shared_def split: option.splits if_splits)
  have f: "fresh ver ans Q H k v" using cache_okD(3) [OF ok map_of_SomeD [OF v]] .
  have "cache_ok ver ans Q H st'"
  proof (rule cache_okI)
    show "fresh ver ans Q H j w" if "(j, (w, t)) \<in> set (lr_entries (sc_l1 st'))" for j w t
      using that st' f cache_okD(2) [OF ok] set_lru_set [of "(j, (w, t))" k v now "sc_l1 st"] by auto
    show "call_ok ver ans Q H (sc_store st') j c" if "(j, c) \<in> set (sc_inflight st')" for j c
      using that st' cache_okD(4) [OF ok, of j c] set_jm_delete_subset [of k "sc_inflight st"] by auto
  qed (use cache_okD [OF ok] st' in simp_all)
  with r f st' show ?thesis by simp
qed

lemma cache_ok_load:
  assumes ok: "cache_ok ver ans Q H st"
  shows "cache_ok ver ans Q H (load_store ans k st)"
proof (cases "jm_get (sc_inflight st) k")
  case None
  with ok show ?thesis by (simp add: load_store_def)
next
  case (Some c)
  let ?c = "c\<lparr>cl_result := Some (ans (sc_store st) (cl_params c))\<rparr>"
  have c: "call_ok ver ans Q H (sc_store st) k c" using cache_okD(4) [OF ok map_of_SomeD [OF Some]] .
  then have new: "call_ok ver ans Q H (sc_store st) k ?c"
    using cache_okD(1) [OF ok] by (auto simp: call_ok_def fresh_def)
  show ?thesis
  proof (rule cache_okI)
    show "call_ok ver ans Q H (sc_store (load_store ans k st)) j d" if "(j, d) \<in> set (sc_inflight (load_store ans k st))" for j d
    proof -
      have "(j, d) \<in> insert (k, ?c) (set (sc_inflight st))"
        using that set_jm_set_subset [of k ?c "sc_inflight st"] by (auto simp: load_store_def Some)
      then show ?thesis using new cache_okD(4) [OF ok, of j d] by (auto simp: load_store_def Some)
    qed
  qed (use cache_okD [OF ok] in \<open>simp_all add: load_store_def Some\<close>)
qed

lemma cache_ok_finish:
  assumes ok: "cache_ok ver ans Q H st" and s: "load_finish written k now st = (r, st')"
  shows "cache_ok ver ans Q H st' \<and> sc_store st' = sc_store st \<and> (\<forall>v. r = Some v \<longrightarrow> fresh ver ans Q H k v)"
proof (cases "\<exists>c v. jm_get (sc_inflight st) k = Some c \<and> cl_result c = Some v")
  case False
  with s ok show ?thesis by (auto simp: load_finish_def split: option.splits)
next
  case True
  then obtain c v where c: "jm_get (sc_inflight st) k = Some c" and v: "cl_result c = Some v" by blast
  have f: "fresh ver ans Q H k v"
    using cache_okD(4) [OF ok map_of_SomeD [OF c]] v unfolding call_ok_def by (metis option.simps(5))
  have st': "r = Some v" "sc_store st' = sc_store st" "sc_inflight st' = jm_delete k (sc_inflight st)"
    "sc_l1 st' = sc_l1 st \<or> sc_l1 st' = lru_set k v now (sc_l1 st)"
    "sc_l2 st' = sc_l2 st \<or> sc_l2 st' = jm_set k v (sc_l2 st)"
    using s c v by (auto simp: load_finish_def Let_def split: if_splits)
  have "cache_ok ver ans Q H st'"
  proof (rule cache_okI)
    show "sc_store st' \<in> H" using cache_okD(1) [OF ok] st'(2) by simp
    show "fresh ver ans Q H j w" if "(j, (w, t)) \<in> set (lr_entries (sc_l1 st'))" for j w t
      using that st'(4) f cache_okD(2) [OF ok] set_lru_set [of "(j, (w, t))" k v now "sc_l1 st"] by auto
    show "fresh ver ans Q H j w" if "(j, w) \<in> set (sc_l2 st')" for j w
      using that st'(5) f cache_okD(3) [OF ok] set_jm_set_subset [of k v "sc_l2 st"] by auto
    show "call_ok ver ans Q H (sc_store st') j d" if "(j, d) \<in> set (sc_inflight st')" for j d
      using that st'(2,3) cache_okD(4) [OF ok, of j d] set_jm_delete_subset [of k "sc_inflight st"] by auto
  qed
  with st' f show ?thesis by simp
qed

lemma cache_step_ok:
  assumes ok: "cache_ok ver ans Q H st" and x: "run_ok ver Q (sc_store st) (x # xs)" and s: "cache_step ver ans x st = (r, st')"
  shows "cache_ok ver ans Q (set (store_states [x]) \<union> H) st' \<and> run_ok ver Q (sc_store st') xs
    \<and> (\<forall>k v. r = Some (k, v) \<longrightarrow> fresh ver ans Q H k v)"
proof (cases x)
  case (E_store s')
  with assms cache_ok_store [OF ok, of s'] show ?thesis by auto
next
  case (E_search p now)
  obtain b st1 where b: "search_begin ver p now st = (b, st1)" by (metis surj_pair)
  have "Q p" using x E_search by simp
  from cache_ok_search [OF ok this b] x s E_search b show ?thesis by (cases b) auto
next
  case (E_shared answered k now)
  obtain b st1 where b: "load_shared answered k now st = (b, st1)" by (metis surj_pair)
  from cache_ok_shared [OF ok b] x s E_shared b show ?thesis by auto
next
  case (E_load k)
  have "sc_store (load_store ans k st) = sc_store st" by (simp add: load_store_def split: option.splits)
  with cache_ok_load [OF ok, of k] x s E_load show ?thesis by auto
next
  case (E_finish written k now)
  obtain b st1 where b: "load_finish written k now st = (b, st1)" by (metis surj_pair)
  from cache_ok_finish [OF ok b] x s E_finish b show ?thesis by auto
next
  case E_invalidate
  have "cache_ok ver ans Q H (invalidate (ver (sc_store st)) st)"
    by (rule cache_ok_subset [OF ok]) (simp_all add: invalidate_def)
  with x s E_invalidate show ?thesis by (auto simp: invalidate_def)
next
  case (E_message m)
  have "cache_ok ver ans Q H (onMessage m st) \<and> sc_store (onMessage m st) = sc_store st"
    using ok cache_ok_subset [OF ok, of "onMessage m st"] by (auto simp: onMessage_def split: option.splits)
  with x s E_message show ?thesis by auto
next
  case (E_redis u)
  have "cache_ok ver ans Q H (st\<lparr>sc_usable := u\<rparr>)" by (rule cache_ok_subset [OF ok]) simp_all
  with x s E_redis show ?thesis by auto
next
  case (E_lost k)
  have "cache_ok ver ans Q H (st\<lparr>sc_l2 := jm_delete k (sc_l2 st)\<rparr>)"
    by (rule cache_ok_subset [OF ok]) (simp_all add: set_jm_delete_subset)
  with x s E_lost show ?thesis by auto
qed

lemma store_states_Cons: "set (store_states (x # xs)) = set (store_states [x]) \<union> set (store_states xs)"
  by (cases x) auto

lemma cache_run_fresh:
  assumes "cache_ok ver ans Q H st" "run_ok ver Q (sc_store st) xs" "(k, v) \<in> set (cache_run ver ans xs st)"
  shows "fresh ver ans Q (H \<union> set (store_states xs)) k v"
  using assms
proof (induction xs arbitrary: st H)
  case (Cons x xs)
  obtain r st' where s: "cache_step ver ans x st = (r, st')" by (metis surj_pair)
  note step = cache_step_ok [OF Cons.prems(1,2) s]
  have H: "set (store_states [x]) \<union> H \<union> set (store_states xs) = H \<union> set (store_states (x # xs))"
    using store_states_Cons [of x xs] by blast
  show ?case
  proof (cases "r = Some (k, v)")
    case True
    with step have "fresh ver ans Q H k v" by blast
    then show ?thesis by (rule fresh_mono) blast
  next
    case False
    with Cons.prems(3) s have "(k, v) \<in> set (cache_run ver ans xs st')" by (auto split: option.splits)
    with Cons.IH step H show ?thesis by metis
  qed
qed simp

definition new_cache :: "int \<Rightarrow> int \<Rightarrow> bool \<Rightarrow> 's \<Rightarrow> ('s, 'v) scache" where
  "new_cache cap ttl usable s =
     \<lparr>sc_store = s, sc_l1 = \<lparr>lr_entries = [], lr_max = cap, lr_ttl = ttl\<rparr>, sc_l2 = [], sc_usable = usable,
      sc_inflight = [], sc_minValid = 0, sc_lastSeen = 0\<rparr>"

lemma cache_ok_new: "cache_ok ver ans Q {s} (new_cache cap ttl usable s)"
  by (simp add: cache_ok_def new_cache_def)

lemma fresh_at:
  assumes "fresh ver ans Q H (cache_key n p) v"
  shows "\<exists>q s. Q q \<and> searchCacheKey q = searchCacheKey p \<and> s \<in> H \<and> n \<le> ver s \<and> v = ans s q"
  using assms cache_key_inj unfolding fresh_def by metis

section \<open>The catalog as the cached store\<close>

text \<open>
  A state of the store is the catalog and the time; its answers are those of a catalog without an
  embedding provider.
\<close>

definition store_version :: "catalog \<times> int \<Rightarrow> nat" where
  "store_version s = ct_version (fst s)"

definition store_answer :: "(string \<Rightarrow> string) \<Rightarrow> catalog \<times> int \<Rightarrow> search_params \<Rightarrow> search_page" where
  "store_answer coll s p = search coll False None None (snd s) p (fst s)"

lemma tidy_store_answer:
  "tidy p \<Longrightarrow> tidy q \<Longrightarrow> searchCacheKey p = searchCacheKey q \<Longrightarrow> store_answer coll s p = store_answer coll s q"
  unfolding store_answer_def by (rule tidy_same_answer)

section \<open>A key that stands for two questions\<close>

lemma key_padded:
  "searchCacheKey (p\<lparr>fl_payTo := Some (a @ '' '')\<rparr>) = searchCacheKey (p\<lparr>fl_payTo := Some a\<rparr>)"
proof -
  have sp: "js_space (CHR '' '')" by (simp add: js_space_def)
  have "js_trim (a @ '' '') = js_trim a"
  proof (cases "\<forall>c \<in> set a. js_space c")
    case True
    then have "dropWhile js_space a = []" "dropWhile js_space (a @ '' '') = []" using sp by auto
    then show ?thesis unfolding js_trim_def by (simp only: rev.simps dropWhile.simps)
  next
    case False
    then have "dropWhile js_space (a @ '' '') = dropWhile js_space a @ '' ''"
      by (auto intro: dropWhile_append1)
    then show ?thesis using sp by (simp add: js_trim_def)
  qed
  then show ?thesis by (simp add: searchCacheKey_def search_key_parts_def scoped_def)
qed

text \<open>A second question under the key of one just answered gets its answer.\<close>

lemma second_served:
  assumes "searchCacheKey p = searchCacheKey q" "1 \<le> cap" "t2 < t1 + ttl" "k = cache_key (ver s) q"
  shows "cache_run ver ans [E_search q t0, E_load k, E_finish w k t1, E_search p t2] (new_cache cap ttl usable s)
    = [(k, ans s q), (k, ans s q)]"
proof -
  have k: "cache_key n p = cache_key n q" for n by (simp add: assms(1) cache_key_def)
  show ?thesis
    using assms(2,3) by (cases "ver s = 0"; cases usable; cases w)
      (simp_all add: new_cache_def search_begin_def retire_old_def lru_get_def lru_set_def lru_clear_def
        load_store_def load_finish_def Let_def k assms(4))
qed

end
