(* ===== verification/Embeddings.thy ===== *)
theory Embeddings
  imports CatalogFacts JsText "HOL-Library.Word"
begin

unbundle bit_operations_syntax

text \<open>
  Embedding vectors and reranking (\<open>src/catalog/embeddings.js\<close>), and how the store keeps a vector
  only with the text it was computed from (\<open>_scheduleEmbed\<close> and \<open>_documentFingerprint\<close> of
  \<open>src/catalog/memory.js\<close>).

  What a provider replies is an argument: \<open>embed_reply\<close> and \<open>rerank_reply\<close> list the cases the code
  tells apart. \<open>now\<close> is read when a call starts, \<open>later\<close> when it fails.
\<close>

section \<open>Provider health\<close>

record provider_health =
  ph_consecutive :: int
  ph_cooldownUntil :: int
  ph_timeouts :: int
  ph_failures :: int
  ph_successes :: int

record embed_client =
  ec_url :: bool
  ec_rerankUrl :: bool
  ec_threshold :: int
  ec_cooldownMs :: int
  ec_health :: provider_health
  ec_rerankHealth :: provider_health
  ec_expectedDimension :: "nat option"

definition new_health :: provider_health where
  "new_health = \<lparr>ph_consecutive = 0, ph_cooldownUntil = 0, ph_timeouts = 0, ph_failures = 0, ph_successes = 0\<rparr>"

definition inCooldown :: "int \<Rightarrow> provider_health \<Rightarrow> bool" where
  "inCooldown now h \<longleftrightarrow> now < ph_cooldownUntil h"

definition embed_failure :: "bool \<Rightarrow> embed_client \<Rightarrow> int \<Rightarrow> provider_health \<Rightarrow> provider_health" where
  "embed_failure timeout cl later h =
     (let h1 = h\<lparr>ph_consecutive := ph_consecutive h + 1,
                 ph_timeouts := (if timeout then ph_timeouts h + 1 else ph_timeouts h),
                 ph_failures := (if timeout then ph_failures h else ph_failures h + 1)\<rparr>
      in if ph_consecutive h1 \<ge> ec_threshold cl then h1\<lparr>ph_cooldownUntil := later + ec_cooldownMs cl\<rparr> else h1)"

definition embed_success :: "provider_health \<Rightarrow> provider_health" where
  "embed_success h = h\<lparr>ph_consecutive := 0, ph_successes := ph_successes h + 1\<rparr>"

section \<open>Embedding\<close>

text \<open>An element of a vector is \<open>None\<close> when it is not a finite number.\<close>

datatype embed_reply = Threw bool | Not_ok | Vector "real option list" | No_vector

definition validateVector :: "embed_reply \<Rightarrow> real list option" where
  "validateVector r =
     (case r of Vector xs \<Rightarrow> if xs \<noteq> [] \<and> list_all (\<lambda>x. x \<noteq> None) xs then Some (map the xs) else None
      | _ \<Rightarrow> None)"

definition embed_text :: "int \<Rightarrow> int \<Rightarrow> embed_reply \<Rightarrow> embed_client \<Rightarrow> real list option \<times> embed_client" where
  "embed_text now later reply cl =
     (let fail = (\<lambda>timeout. cl\<lparr>ec_health := embed_failure timeout cl later (ec_health cl)\<rparr>) in
      if \<not> ec_url cl then (None, cl)
      else if inCooldown now (ec_health cl)
      then (None, cl\<lparr>ec_health := (ec_health cl)\<lparr>ph_failures := ph_failures (ec_health cl) + 1\<rparr>\<rparr>)
      else
        (case reply of
           Threw timeout \<Rightarrow> (None, fail timeout)
         | Not_ok \<Rightarrow> (None, fail False)
         | _ \<Rightarrow>
             (case validateVector reply of
                None \<Rightarrow> (None, fail False)
              | Some v \<Rightarrow>
                  (case ec_expectedDimension cl of
                     None \<Rightarrow> (Some v, cl\<lparr>ec_expectedDimension := Some (length v), ec_health := embed_success (ec_health cl)\<rparr>)
                   | Some n \<Rightarrow> if length v \<noteq> n then (None, fail False)
                               else (Some v, cl\<lparr>ec_health := embed_success (ec_health cl)\<rparr>)))))"

section \<open>Reranking\<close>

text \<open>One result: its index when that is an integer, its score when that is a finite number.\<close>

datatype rerank_payload =
    Results "(int option \<times> real option) list"
  | Scores "real option list"
  | Unrecognised

datatype rerank_reply = R_threw bool | R_not_ok | R_bad_json | R_data rerank_payload

fun fill_scores :: "(int option \<times> real option) list \<Rightarrow> real option list \<Rightarrow> real option list option" where
  "fill_scores [] scores = Some scores"
| "fill_scores ((index, score) # rs) scores =
     (case (index, score) of
        (Some i, Some s) \<Rightarrow>
          if i < 0 \<or> i \<ge> int (length scores) then None
          else if scores ! nat i \<noteq> None then None
          else fill_scores rs (scores[nat i := Some s])
      | _ \<Rightarrow> None)"

definition parseRerankScores :: "rerank_payload \<Rightarrow> nat \<Rightarrow> real list option" where
  "parseRerankScores d n =
     (case d of
        Results rs \<Rightarrow>
          (case fill_scores rs (replicate n None) of
             None \<Rightarrow> None
           | Some scores \<Rightarrow> if list_all (\<lambda>x. x \<noteq> None) scores then Some (map the scores) else None)
      | Scores xs \<Rightarrow> if length xs = n \<and> list_all (\<lambda>x. x \<noteq> None) xs then Some (map the xs) else None
      | Unrecognised \<Rightarrow> None)"

definition rerank :: "int \<Rightarrow> int \<Rightarrow> rerank_reply \<Rightarrow> 'a list \<Rightarrow> embed_client \<Rightarrow> 'a list \<times> embed_client" where
  "rerank now later reply xs cl =
     (let h = ec_rerankHealth cl;
          fail = (\<lambda>timeout. cl\<lparr>ec_rerankHealth := embed_failure timeout cl later h\<rparr>) in
      if \<not> ec_rerankUrl cl \<or> xs = [] then (xs, cl)
      else if inCooldown now h then (xs, cl\<lparr>ec_rerankHealth := h\<lparr>ph_failures := ph_failures h + 1\<rparr>\<rparr>)
      else
        (case reply of
           R_threw timeout \<Rightarrow> (xs, fail timeout)
         | R_not_ok \<Rightarrow> (xs, fail False)
         | R_bad_json \<Rightarrow> (xs, fail False)
         | R_data d \<Rightarrow>
             (case parseRerankScores d (length xs) of
                None \<Rightarrow> (xs, fail False)
              | Some scores \<Rightarrow> (map fst (js_sort_by (\<lambda>p. - snd p) (zip xs scores)),
                               cl\<lparr>ec_rerankHealth := embed_success h\<rparr>))))"

lemma length_fill_scores: "fill_scores rs s = Some t \<Longrightarrow> length t = length s"
  by (induction rs s rule: fill_scores.induct) (auto split: option.splits if_splits)

lemma length_parseRerankScores: "parseRerankScores d n = Some s \<Longrightarrow> length s = n"
  by (auto simp: parseRerankScores_def dest!: length_fill_scores split: rerank_payload.splits option.splits if_splits)

text \<open>A reranked page is the page, in some order: reranking never adds or drops a resource.\<close>

lemma rerank_permutes: "mset (fst (rerank now later reply xs cl)) = mset xs"
proof -
  have "mset (map fst (js_sort_by (\<lambda>p. - snd p) (zip xs scores))) = mset xs" if "length scores = length xs" for scores :: "real list"
  proof -
    have "mset (map fst (js_sort_by (\<lambda>p. - snd p) (zip xs scores))) = image_mset fst (mset (zip xs scores))"
      by (simp add: js_sort_by_def)
    also have "\<dots> = mset xs" using that by (simp flip: mset_map)
    finally show ?thesis .
  qed
  then show ?thesis
    by (auto simp: rerank_def Let_def dest: length_parseRerankScores split: rerank_reply.splits option.splits)
qed

text \<open>A vector that is accepted is finite, not empty, and as long as every one before it.\<close>

lemma embed_text_dimension:
  assumes "embed_text now later reply cl = (Some v, cl')"
  shows "v \<noteq> [] \<and> ec_expectedDimension cl' = Some (length v)
    \<and> (ec_expectedDimension cl = None \<or> ec_expectedDimension cl = Some (length v)) \<and> ec_url cl"
  using assms by (auto simp: embed_text_def validateVector_def Let_def split: if_splits embed_reply.splits option.splits)

text \<open>In its cooldown a provider is not called, whatever it would have replied.\<close>

lemma embed_text_cooldown:
  assumes "inCooldown now (ec_health cl)"
  shows "embed_text now later reply cl = embed_text now later reply' cl" "fst (embed_text now later reply cl) = None"
  using assms by (simp_all add: embed_text_def Let_def)

section \<open>The document of a resource and its fingerprint\<close>

definition js_or_empty :: "string option \<Rightarrow> string" where
  "js_or_empty v = nullish_or v []"

definition extension_parts :: "string \<times> json \<Rightarrow> string list" where
  "extension_parts x =
     (case snd x of
        JObj fs \<Rightarrow>
          (case map_of fs ''parameters'' of
             None \<Rightarrow> []
           | Some ps \<Rightarrow> if js_truthy ps
               then (''Extension '' @ fst x @ '' parameters:'') # map (\<lambda>p. fst p @ '': '' @ js_text (snd p)) (js_entries ps)
               else [])
      | _ \<Rightarrow> [])"

definition composeDocument :: "('a) resource_scheme \<Rightarrow> string" where
  "composeDocument r =
     js_join ''. '' (filter (\<lambda>s. s \<noteq> [])
       ([js_or_empty (rs_serviceName r), js_or_empty (rs_description r),
         js_join '' '' (nullish_or (rs_tags r) []), rs_type r]
        @ (case rs_extensions r of None \<Rightarrow> [] | Some xs \<Rightarrow> concat (map extension_parts xs))))"

fun fnv_lanes :: "string \<Rightarrow> 32 word \<times> 32 word \<Rightarrow> 32 word \<times> 32 word" where
  "fnv_lanes [] h = h"
| "fnv_lanes (c # cs) (h1, h2) =
     fnv_lanes cs ((h1 XOR of_nat (of_char c)) * 0x01000193, (h2 + of_nat (of_char c)) * 0x85ebca6b)"

definition fingerprint_text :: "string \<Rightarrow> string" where
  "fingerprint_text s =
     (case fnv_lanes s (0x811c9dc5, 0x01000193) of
        (h1, h2) \<Rightarrow> nat_str (length s) @ '':'' @ hex_str (unat h1) @ '':'' @ hex_str (unat h2))"

definition documentFingerprint :: "('a) resource_scheme \<Rightarrow> string" where
  "documentFingerprint r = fingerprint_text (composeDocument r)"

section \<open>Scheduling an embedding\<close>

text \<open>
  The synchronous half: whether a job is started, and the entry, whose stale vector is dropped
  at once.
\<close>

definition wants_embedding :: "bool \<Rightarrow> entry \<Rightarrow> bool" where
  "wants_embedding provider e \<longleftrightarrow>
     provider \<and> \<not> (en_embedding e \<noteq> None \<and> en_embedding_source e = Some (documentFingerprint e))"

definition scheduleEmbed :: "bool \<Rightarrow> entry \<Rightarrow> entry" where
  "scheduleEmbed provider e =
     (if wants_embedding provider e then e\<lparr>en_embedding := None, en_embedding_source := None\<rparr> else e)"

text \<open>
  The job holds the entry object. When its vector lands, that object changes, and with it the
  catalog if the object is still the one listed.
\<close>

definition with_vector :: "real list \<Rightarrow> entry \<Rightarrow> entry" where
  "with_vector v e = e\<lparr>en_embedding := Some v, en_embedding_source := Some (documentFingerprint e)\<rparr>"

definition embed_landed :: "entry \<Rightarrow> real list \<Rightarrow> catalog \<Rightarrow> catalog" where
  "embed_landed e v c =
     (case jm_get (ct_resources c) (cat_key e) of
        None \<Rightarrow> c
      | Some e0 \<Rightarrow> if en_id e0 = en_id e then c\<lparr>ct_resources := jm_set (cat_key e) (with_vector v e) (ct_resources c)\<rparr> else c)"

lemma keeps_listing_schedule: "keeps_listing (scheduleEmbed provider)"
  unfolding keeps_listing_def
proof
  fix e :: entry
  have "e = e\<lparr>en_embedding := en_embedding e, en_embedding_source := en_embedding_source e\<rparr>" by simp
  then show "\<exists>v s. scheduleEmbed provider e = e\<lparr>en_embedding := v, en_embedding_source := s\<rparr>"
    unfolding scheduleEmbed_def by metis
qed

lemma fingerprint_vector_fields [simp]:
  "documentFingerprint (e\<lparr>en_embedding := v, en_embedding_source := s\<rparr>) = documentFingerprint e"
  by (simp add: documentFingerprint_def composeDocument_def)

subsection \<open>A vector describes its text\<close>

definition vector_ok :: "entry \<Rightarrow> bool" where
  "vector_ok e \<longleftrightarrow> (en_embedding e \<noteq> None \<longrightarrow> en_embedding_source e = Some (documentFingerprint e))"

definition vectors_ok :: "catalog \<Rightarrow> bool" where
  "vectors_ok c \<longleftrightarrow> (\<forall>e \<in> snd ` set (ct_resources c). vector_ok e)"

lemma vector_ok_schedule: "vector_ok (scheduleEmbed True e)"
  by (auto simp: scheduleEmbed_def wants_embedding_def vector_ok_def documentFingerprint_def composeDocument_def)

lemma vector_ok_with: "vector_ok (with_vector v e)"
  by (simp add: vector_ok_def with_vector_def)

datatype emb_op = Write cat_op | Landed entry "real list"

fun emb_apply :: "catalog_config \<Rightarrow> emb_op \<Rightarrow> catalog \<Rightarrow> catalog" where
  "emb_apply cfg (Write x) c = cat_apply cfg (scheduleEmbed True) x c"
| "emb_apply cfg (Landed e v) c = embed_landed e v c"

lemma vectors_ok_set:
  assumes "vectors_ok c" "vector_ok e"
  shows "\<forall>e' \<in> snd ` set (jm_set k e (ct_resources c)). vector_ok e'"
  using assms set_jm_set_subset [of k e "ct_resources c"] unfolding vectors_ok_def by fastforce

lemma vectors_ok_apply:
  assumes "vectors_ok c"
  shows "vectors_ok (emb_apply cfg x c)"
proof (cases x)
  case (Write y)
  show ?thesis
  proof (cases y)
    case (Up r source now)
    show ?thesis
    proof (cases "upsertResource cfg (scheduleEmbed True) r source now c")
      case (Pair res c')
      show ?thesis
      proof (cases res)
        case (Inl y)
        with Pair assms upsert_refused [OF Pair [unfolded Inl]] show ?thesis by (simp add: Write Up)
      next
        case (Inr e)
        note up = upsert_accepted(1,2) [OF Pair [unfolded Inr]]
        have "vector_ok e" unfolding up(1) by (rule vector_ok_schedule)
        from vectors_ok_set [OF assms this] up(2) show ?thesis
          by (simp add: Write Up Pair vectors_ok_def)
      qed
    qed
  next
    case (Del url tool now)
    have "set (ct_resources (snd (deleteResource url tool now c))) \<subseteq> set (ct_resources c)"
      using set_jm_delete_subset [of "listing_key url tool" "ct_resources c"]
      by (auto simp: deleteResource_def split: option.splits)
    with assms show ?thesis by (auto simp: Write Del vectors_ok_def)
  next
    case (Prune now)
    with assms show ?thesis by (auto simp: Write vectors_ok_def pruneExpired_fields)
  qed
next
  case (Landed e v)
  with assms vectors_ok_set [OF assms vector_ok_with, of "cat_key e" v e] show ?thesis
    by (auto simp: embed_landed_def vectors_ok_def split: option.splits)
qed

lemma vectors_ok_run: "vectors_ok c \<Longrightarrow> vectors_ok (fold (emb_apply cfg) xs c)"
  by (induction xs arbitrary: c) (simp_all add: vectors_ok_apply)

end
