(* ===== verification/PgCatalog.thy ===== *)
theory PgCatalog
  imports Embeddings
begin

text \<open>
  The durable catalog (\<open>src/catalog/postgres.js\<close>): the in-memory store with a row per listing, rows
  written after the memory copy, vectors written when they land, and memory rebuilt from the rows at
  boot.

  The queries are asynchronous, so what is still to be written is state: \<open>pc_jobs\<close> holds the entries
  whose row is on its way, \<open>pc_embeds\<close> those whose vector is. \<open>ok\<close> is whether a query succeeds. The
  schema version column is always 1.
\<close>

record row =
  rw_resource :: resource
  rw_embedding_source :: "string option"
  rw_source :: string
  rw_provisional :: bool
  rw_expires_at :: "int option"
  rw_first_seen :: int
  rw_last_seen :: int
  rw_embedding :: "real list option"

record pg_catalog =
  pc_mem :: catalog
  pc_table :: "(string, row) jsmap"
  pc_pool :: bool
  pc_degraded :: bool
  pc_jobs :: "entry list"
  pc_embeds :: "entry list"

text \<open>\<open>resourceLink\<close>: the entry without its columns; the vector's fingerprint stays in the document.\<close>

definition row_of :: "entry \<Rightarrow> row" where
  "row_of e = \<lparr>rw_resource = resource.truncate e, rw_embedding_source = en_embedding_source e,
     rw_source = en_source e, rw_provisional = en_provisional e, rw_expires_at = en_expires_at e,
     rw_first_seen = en_first_seen e, rw_last_seen = en_last_seen e, rw_embedding = en_embedding e\<rparr>"

definition hydrateRow :: "nat \<Rightarrow> row \<Rightarrow> entry" where
  "hydrateRow i r = resource.extend (rw_resource r)
     (entry.fields i (rw_source r) (rw_provisional r) (rw_expires_at r) (rw_last_seen r) (rw_first_seen r)
        (rw_embedding r) (rw_embedding_source r))"

definition persistResource :: "entry \<Rightarrow> (string, row) jsmap \<Rightarrow> (string, row) jsmap" where
  "persistResource e tbl =
     jm_set (cat_key e)
       (case jm_get tbl (cat_key e) of
          None \<Rightarrow> row_of e
        | Some old \<Rightarrow> (row_of e)\<lparr>rw_first_seen := rw_first_seen old\<rparr>) tbl"

definition pc_degrade :: "pg_catalog \<Rightarrow> pg_catalog" where
  "pc_degrade st = st\<lparr>pc_degraded := True\<rparr>"

definition durable :: "pg_catalog \<Rightarrow> bool" where
  "durable st \<longleftrightarrow> pc_pool st \<and> \<not> pc_degraded st"

text \<open>Writing the row of an entry, once its query is answered.\<close>

definition pc_persist :: "bool \<Rightarrow> entry \<Rightarrow> pg_catalog \<Rightarrow> pg_catalog" where
  "pc_persist ok e st =
     (let st1 = st\<lparr>pc_jobs := remove1 e (pc_jobs st)\<rparr> in
      if ok then st1\<lparr>pc_table := persistResource e (pc_table st1)\<rparr> else pc_degrade st1)"

definition pc_upsert ::
  "catalog_config \<Rightarrow> bool \<Rightarrow> resource \<Rightarrow> string \<Rightarrow> int \<Rightarrow> pg_catalog \<Rightarrow> (catalog_error + entry) \<times> pg_catalog" where
  "pc_upsert cfg provider r source now st =
     (case upsertResource cfg (scheduleEmbed provider) r source now (pc_mem st) of
        (Inl err, c) \<Rightarrow> (Inl err, st\<lparr>pc_mem := c\<rparr>)
      | (Inr e, c) \<Rightarrow>
          (Inr e, st\<lparr>pc_mem := c,
                    pc_jobs := (if durable st then pc_jobs st @ [e] else pc_jobs st),
                    pc_embeds := (if wants_embedding provider e then pc_embeds st @ [e] else pc_embeds st)\<rparr>))"

text \<open>A vector lands: the entry object changes, and the entry is written again.\<close>

definition pc_landed :: "entry \<Rightarrow> real list \<Rightarrow> pg_catalog \<Rightarrow> pg_catalog" where
  "pc_landed e v st =
     (let e' = with_vector v e;
          jobs = map (\<lambda>j. if en_id j = en_id e then e' else j) (pc_jobs st)
      in st\<lparr>pc_mem := embed_landed e v (pc_mem st), pc_embeds := remove1 e (pc_embeds st),
            pc_jobs := (if durable st then jobs @ [e'] else jobs)\<rparr>)"

definition pc_delete ::
  "bool \<Rightarrow> string \<Rightarrow> string option \<Rightarrow> int \<Rightarrow> pg_catalog \<Rightarrow> (catalog_error + entry option) \<times> pg_catalog" where
  "pc_delete ok url tool now st =
     (if durable st \<and> \<not> ok then (Inl Delete_failed, pc_degrade st)
      else
        (let st1 = (if durable st then st\<lparr>pc_table := jm_delete (listing_key url tool) (pc_table st)\<rparr> else st) in
         case deleteResource url tool now (pc_mem st1) of (r, c) \<Rightarrow> (Inr r, st1\<lparr>pc_mem := c\<rparr>)))"

definition pc_prune :: "bool \<Rightarrow> int \<Rightarrow> pg_catalog \<Rightarrow> nat \<times> pg_catalog" where
  "pc_prune ok now st =
     (let expired = map fst (filter (\<lambda>p. isExpired now (snd p)) (ct_resources (pc_mem st)));
          (n, c) = pruneExpired now (pc_mem st);
          st1 = st\<lparr>pc_mem := c\<rparr>
      in (n, if n > 0 \<and> durable st
             then (if ok then st1\<lparr>pc_table := filter (\<lambda>p. fst p \<notin> set expired) (pc_table st1)\<rparr> else pc_degrade st1)
             else st1))"

text \<open>Boot: the rows into memory, one by one; an entry without a vector is embedded anew.\<close>

definition hydrate_one :: "bool \<Rightarrow> string \<times> row \<Rightarrow> catalog \<Rightarrow> catalog" where
  "hydrate_one provider x c =
     (let e0 = hydrateRow (ct_next_id c) (snd x);
          e = (if en_embedding e0 = None then scheduleEmbed provider e0 else e0)
      in c\<lparr>ct_resources := jm_set (fst x) e (ct_resources c),
           ct_counts := incrementPayToCount (rs_payTo e) (ct_counts c),
           ct_next_id := ct_next_id c + 1\<rparr>)"

definition hydrate :: "bool \<Rightarrow> (string \<times> row) list \<Rightarrow> catalog \<Rightarrow> catalog" where
  "hydrate provider rows c = fold (hydrate_one provider) rows c"

definition pc_boot :: "bool \<Rightarrow> (string, row) jsmap \<Rightarrow> pg_catalog" where
  "pc_boot provider tbl =
     \<lparr>pc_mem = hydrate provider tbl empty_catalog, pc_table = tbl, pc_pool = True, pc_degraded = False,
      pc_jobs = [],
      pc_embeds = filter (wants_embedding provider) (map snd (ct_resources (hydrate provider tbl empty_catalog)))\<rparr>"

definition pc_health :: "pg_catalog \<Rightarrow> bool" where
  "pc_health st \<longleftrightarrow> \<not> pc_degraded st"

section \<open>The rows are the listings\<close>

definition mirror :: "pg_catalog \<Rightarrow> bool" where
  "mirror st \<longleftrightarrow> durable st \<and> jm_wf (pc_table st) \<and> catalog_ok (pc_mem st)
     \<and> (\<forall>k. jm_get (pc_table st) k = map_option row_of (jm_get (ct_resources (pc_mem st)) k))"

text \<open>A write whose row is written before anything else happens.\<close>

datatype pc_op = P_up resource string int | P_del string "string option" int | P_prune int

fun pc_apply :: "catalog_config \<Rightarrow> bool \<Rightarrow> pc_op \<Rightarrow> pg_catalog \<Rightarrow> pg_catalog" where
  "pc_apply cfg provider (P_up r source now) st =
     (case pc_upsert cfg provider r source now st of
        (Inl _, st') \<Rightarrow> st'
      | (Inr e, st') \<Rightarrow> pc_persist True e st')"
| "pc_apply cfg provider (P_del url tool now) st = snd (pc_delete True url tool now st)"
| "pc_apply cfg provider (P_prune now) st = snd (pc_prune True now st)"

lemma row_of_schedule_first: "rw_first_seen (row_of e) = en_first_seen e"
  by (simp add: row_of_def)

lemma mirror_upsert:
  assumes "mirror st"
  shows "mirror (pc_apply cfg provider (P_up r source now) st)"
proof (cases "upsertResource cfg (scheduleEmbed provider) r source now (pc_mem st)")
  case (Pair res c')
  show ?thesis
  proof (cases res)
    case (Inl x)
    with Pair assms upsert_refused [OF Pair [unfolded Inl]] show ?thesis
      by (simp add: pc_upsert_def)
  next
    case (Inr e)
    note up = upsert_accepted [OF Pair [unfolded Inr]]
    have ok: "catalog_ok c'"
      using catalog_ok_upsert [OF _ keeps_listing_schedule, of "pc_mem st" cfg provider r source now] assms Pair
      by (simp add: mirror_def)
    have key: "cat_key e = cat_key r" by (simp add: up(1) keeps_listing_simps [OF keeps_listing_schedule])
    have first: "en_first_seen e = en_first_seen e0" if "jm_get (ct_resources (pc_mem st)) (cat_key r) = Some e0" for e0
      using that by (simp add: up(1) keeps_listing_simps [OF keeps_listing_schedule] upsert_entry_def Let_def)
    have row: "(case jm_get (pc_table st) (cat_key r) of None \<Rightarrow> row_of e
        | Some old \<Rightarrow> (row_of e)\<lparr>rw_first_seen := rw_first_seen old\<rparr>) = row_of e"
      using assms first unfolding mirror_def by (auto simp: row_of_def split: option.splits)
    show ?thesis
      using assms ok row key by (auto simp: mirror_def pc_upsert_def Pair Inr pc_persist_def Let_def durable_def
          persistResource_def up(2) jm_get_set)
  qed
qed

lemma mirror_delete:
  assumes "mirror st"
  shows "mirror (pc_apply cfg provider (P_del url tool now) st)"
proof -
  have "catalog_ok (snd (deleteResource url tool now (pc_mem st)))"
    using assms by (simp add: mirror_def catalog_ok_delete)
  then show ?thesis
    using assms by (auto simp: mirror_def pc_delete_def durable_def deleteResource_def jm_get_delete
        catalog_ok_def split: option.splits)
qed

lemma mirror_prune:
  assumes "mirror st"
  shows "mirror (pc_apply cfg provider (P_prune now) st)"
proof -
  let ?m = "ct_resources (pc_mem st)" and ?t = "pc_table st"
  have wf: "jm_wf ?m" "jm_wf ?t" using assms by (simp_all add: mirror_def catalog_ok_def)
  obtain n c where p: "pruneExpired now (pc_mem st) = (n, c)" by (metis surj_pair)
  have c: "ct_resources c = filter (\<lambda>p. \<not> isExpired now (snd p)) ?m" "catalog_ok c"
    using pruneExpired_fields(1) [of now "pc_mem st"] catalog_ok_prune [of "pc_mem st" now] p assms
    by (simp_all add: mirror_def)
  have n: "n = length (filter (isExpired now) (map snd ?m))"
    using p by (simp add: pruneExpired_def prune_loop_eq)
  have get: "jm_get (ct_resources c) k = (case jm_get ?m k of None \<Rightarrow> None | Some e \<Rightarrow> if isExpired now e then None else Some e)" for k
    by (simp add: c(1) map_of_filter_wf [OF wf(1)] split: option.splits)
  have mem: "k \<in> fst ` set (filter (\<lambda>p. isExpired now (snd p)) ?m) \<longleftrightarrow> (\<exists>e. jm_get ?m k = Some e \<and> isExpired now e)" for k
    using wf(1) by (force simp: image_iff)
  show ?thesis
  proof (cases "n > 0")
    case True
    have "jm_get (filter (\<lambda>p. fst p \<notin> fst ` set (filter (\<lambda>p. isExpired now (snd p)) ?m)) ?t) k
        = map_option row_of (jm_get (ct_resources c) k)" for k
      unfolding map_of_filter_wf [OF wf(2)] get fst_conv mem
      using assms by (auto simp: mirror_def split: option.splits)
    with True assms c(2) show ?thesis
      by (simp add: mirror_def pc_prune_def p Let_def durable_def del: set_filter)
  next
    case False
    then have "\<forall>e \<in> snd ` set ?m. \<not> isExpired now e" using n by (auto simp: filter_empty_conv)
    then have "ct_resources c = ?m" unfolding c(1) by (auto intro!: filter_True)
    with False assms c(2) show ?thesis by (simp add: mirror_def pc_prune_def p Let_def durable_def)
  qed
qed

lemma mirror_run: "mirror st \<Longrightarrow> mirror (fold (pc_apply cfg provider) xs st)"
proof (induction xs arbitrary: st)
  case (Cons x xs)
  have "mirror (pc_apply cfg provider x st)"
    using Cons.prems by (cases x) (simp_all only: mirror_upsert mirror_delete mirror_prune)
  with Cons.IH show ?case by simp
qed simp

section \<open>Boot\<close>

definition listing :: "entry \<Rightarrow> entry" where
  "listing e = e\<lparr>en_id := 0, en_embedding := None, en_embedding_source := None\<rparr>"

lemma hydrateRow_row_of: "hydrateRow i (row_of e) = e\<lparr>en_id := i\<rparr>"
  by (simp add: hydrateRow_def row_of_def resource.defs entry.defs)

lemma payTo_hydrateRow: "rs_payTo (hydrateRow i r) = rs_payTo (rw_resource r)"
  by (simp add: hydrateRow_def resource.defs)

lemma listing_schedule: "listing (scheduleEmbed p e) = listing e"
  by (simp add: listing_def scheduleEmbed_def)

lemma hydrate_one_fields:
  "\<exists>e. ct_resources (hydrate_one provider x c) = jm_set (fst x) e (ct_resources c)
    \<and> ct_counts (hydrate_one provider x c) = incrementPayToCount (rs_payTo e) (ct_counts c)
    \<and> listing e = listing (hydrateRow 0 (snd x))"
proof -
  define e0 where "e0 = hydrateRow (ct_next_id c) (snd x)"
  define e where "e = (if en_embedding e0 = None then scheduleEmbed provider e0 else e0)"
  have "listing e = listing e0" by (simp add: e_def listing_schedule)
  also have "\<dots> = listing (hydrateRow 0 (snd x))"
    by (simp add: e0_def listing_def hydrateRow_def resource.defs entry.defs)
  finally show ?thesis by (auto simp: hydrate_one_def Let_def e_def e0_def)
qed

lemma hydrate_exact:
  assumes "counts_exact c" "jm_wf rows" "\<And>k. k \<in> fst ` set rows \<Longrightarrow> jm_get (ct_resources c) k = None"
  shows "counts_exact (hydrate provider rows c)"
  using assms unfolding hydrate_def
proof (induction rows arbitrary: c)
  case (Cons x rows)
  obtain e where e: "ct_resources (hydrate_one provider x c) = jm_set (fst x) e (ct_resources c)"
    "ct_counts (hydrate_one provider x c) = incrementPayToCount (rs_payTo e) (ct_counts c)"
    using hydrate_one_fields by blast
  have "jm_get (ct_resources c) (fst x) = None" by (rule Cons.prems(3)) simp
  with Cons.prems(1) have exact: "counts_exact (hydrate_one provider x c)"
    by (simp add: counts_exact_def counted_def e counted_increment held_jm_set)
  have wf: "jm_wf rows" "fst x \<notin> fst ` set rows" using Cons.prems(2) by simp_all
  have "jm_get (ct_resources (hydrate_one provider x c)) k = None" if "k \<in> fst ` set rows" for k
  proof -
    have "k \<noteq> fst x" using that wf(2) by metis
    moreover have "jm_get (ct_resources c) k = None" by (rule Cons.prems(3)) (use that in simp)
    ultimately show ?thesis by (simp add: e(1) jm_get_set)
  qed
  with Cons.IH [OF exact wf(1)] show ?case by simp
qed simp

lemma hydrate_get:
  assumes "jm_wf rows"
  shows "map_option listing (jm_get (ct_resources (hydrate provider rows c)) k) =
    (case jm_get rows k of None \<Rightarrow> map_option listing (jm_get (ct_resources c) k)
     | Some r \<Rightarrow> Some (listing (hydrateRow 0 r)))"
  using assms unfolding hydrate_def
proof (induction rows arbitrary: c)
  case (Cons x rows)
  obtain e where e: "ct_resources (hydrate_one provider x c) = jm_set (fst x) e (ct_resources c)"
    "listing e = listing (hydrateRow 0 (snd x))"
    using hydrate_one_fields by blast
  have "jm_get rows (fst x) = None" using Cons.prems by (simp add: map_of_eq_None_iff)
  moreover have "map_option listing (jm_get (ct_resources (fold (hydrate_one provider) rows (hydrate_one provider x c))) k) =
      (case jm_get rows k of None \<Rightarrow> map_option listing (jm_get (ct_resources (hydrate_one provider x c)) k)
       | Some r \<Rightarrow> Some (listing (hydrateRow 0 r)))"
    by (rule Cons.IH) (use Cons.prems in simp)
  ultimately show ?case
    using e by (cases x; cases "k = fst x"; cases "jm_get rows k") (simp_all add: jm_get_set)
qed simp

lemma boot_listing:
  assumes "mirror st"
  shows "map_option listing (jm_get (ct_resources (pc_mem (pc_boot provider (pc_table st)))) k)
    = map_option listing (jm_get (ct_resources (pc_mem st)) k)"
    "counts_exact (pc_mem (pc_boot provider (pc_table st)))"
proof -
  have wf: "jm_wf (pc_table st)" using assms by (simp add: mirror_def)
  have inv: "listing (hydrateRow 0 (row_of e)) = listing e" for e
    by (simp add: hydrateRow_row_of) (simp add: listing_def)
  have tbl: "jm_get (pc_table st) k = map_option row_of (jm_get (ct_resources (pc_mem st)) k)"
    using assms by (simp add: mirror_def)
  show "map_option listing (jm_get (ct_resources (pc_mem (pc_boot provider (pc_table st)))) k)
    = map_option listing (jm_get (ct_resources (pc_mem st)) k)"
    using inv by (cases "jm_get (ct_resources (pc_mem st)) k")
      (simp_all add: pc_boot_def hydrate_get [OF wf] tbl empty_catalog_def)
  have "counts_exact empty_catalog" by (simp add: counts_exact_def counted_def empty_catalog_def)
  then show "counts_exact (pc_mem (pc_boot provider (pc_table st)))"
    using hydrate_exact [of empty_catalog "pc_table st" provider] wf by (simp add: pc_boot_def empty_catalog_def)
qed

text \<open>What is late comes back: a row still on its way when its listing is deleted is written after.\<close>

lemma pc_delete_durable:
  assumes "durable st" "pc_delete True url tool now st = (r, st1)"
  shows "pc_table st1 = jm_delete (listing_key url tool) (pc_table st)"
    "pc_mem st1 = snd (deleteResource url tool now (pc_mem st))"
    "r = Inr (fst (deleteResource url tool now (pc_mem st)))"
  using assms by (auto simp: pc_delete_def Let_def split: prod.splits)

lemma late_row_returns:
  assumes "durable st" "cat_key e = listing_key url tool" "pc_delete True url tool now st = (r, st1)"
  shows "jm_get (pc_table (pc_persist True e st1)) (cat_key e) = Some (row_of e)"
    "jm_get (ct_resources (pc_mem st1)) (cat_key e) = None"
proof -
  note del = pc_delete_durable [OF assms(1,3)]
  have "jm_get (pc_table st1) (cat_key e) = None" by (simp add: del(1) assms(2) jm_get_delete)
  then show "jm_get (pc_table (pc_persist True e st1)) (cat_key e) = Some (row_of e)"
    by (simp add: pc_persist_def persistResource_def jm_get_set)
  show "jm_get (ct_resources (pc_mem st1)) (cat_key e) = None"
    by (auto simp: del(2) deleteResource_def assms(2) jm_get_delete split: option.splits)
qed

lemma late_row_boots:
  assumes "durable st" "jm_wf (pc_table st)" "cat_key r = listing_key url tool"
    "pc_upsert cfg provider r source now st = (Inr e, st0)" "pc_delete True url tool now' st0 = (res, st1)"
  shows "e \<in> set (pc_jobs st1) \<and> (\<exists>d. res = Inr (Some d)) \<and> jm_get (ct_resources (pc_mem st1)) (cat_key r) = None
    \<and> (\<exists>e'. jm_get (ct_resources (pc_mem (pc_boot provider (pc_table (pc_persist True e st1))))) (cat_key r) = Some e'
         \<and> listing e' = listing e)"
proof -
  obtain c where up: "upsertResource cfg (scheduleEmbed provider) r source now (pc_mem st) = (Inr e, c)"
    using assms(4) by (auto simp: pc_upsert_def split: prod.splits sum.splits)
  have st0: "pc_mem st0 = c" "pc_table st0 = pc_table st" "durable st0" "e \<in> set (pc_jobs st0)"
    using assms(1,4) up by (auto simp: pc_upsert_def durable_def)
  note acc = upsert_accepted [OF up]
  have key: "cat_key e = cat_key r" by (simp add: acc(1) keeps_listing_simps [OF keeps_listing_schedule])
  have here: "jm_get (ct_resources c) (listing_key url tool) = Some e" by (simp add: acc(2) assms(3) jm_get_set)
  note del = pc_delete_durable [OF st0(3) assms(5)]
  have "cat_key e = listing_key url tool" using key assms(3) by simp
  note late = late_row_returns [OF st0(3) this assms(5), unfolded key]
  have jobs: "pc_jobs st1 = pc_jobs st0" using assms(5) by (auto simp: pc_delete_def Let_def split: prod.splits if_splits)
  have wf: "jm_wf (pc_table (pc_persist True e st1))"
    using assms(2) by (simp add: pc_persist_def persistResource_def del(1) st0(2))
  have "map_option listing (jm_get (ct_resources (pc_mem (pc_boot provider (pc_table (pc_persist True e st1))))) (cat_key r))
      = Some (listing (hydrateRow 0 (row_of e)))"
    by (simp add: pc_boot_def hydrate_get [OF wf] late(1))
  moreover have "listing (hydrateRow 0 (row_of e)) = listing e"
    by (simp add: hydrateRow_row_of) (simp add: listing_def)
  moreover have "\<exists>d. res = Inr (Some d)" by (simp add: del(3) deleteResource_def st0(1) here)
  ultimately show ?thesis using late(2) jobs st0(4) by auto
qed

end
