(* ===== verification/SettlementEvents.thy ===== *)
theory SettlementEvents
  imports JsPrelude
begin

text \<open>
  The settlement event stream: \<open>src/eventstore/events.js\<close> (event schema) and
  \<open>src/eventstore/projection.js\<close> (the fold every read path uses).

  A settlement is a list of events, oldest first; \<open>projectSettlement\<close> folds it into the
  current projection. Event types and states are the source's strings; \<open>OtherType\<close> and
  \<open>OtherState\<close> stand for every string that is none of the named ones. A timestamp
  (\<open>toISOString\<close>) is its instant in milliseconds: ISO strings of equal width order as the
  instants do.
\<close>

section \<open>Event schema (events.js)\<close>

datatype event_type = Initiated | Settled | Failed | OutcomeUnknown | OtherType string

datatype sstate = St_submitted | St_settled | St_failed | St_unknown | OtherState string

text \<open>\<open>CURRENT_VERSION[type]\<close>: undefined for an unknown type.\<close>

fun current_version :: "event_type \<Rightarrow> int option" where
  "current_version Initiated = Some 1"
| "current_version Settled = Some 1"
| "current_version Failed = Some 1"
| "current_version OutcomeUnknown = Some 1"
| "current_version (OtherType _) = None"

fun state_by_event_type :: "event_type \<Rightarrow> sstate option" where
  "state_by_event_type Initiated = Some St_submitted"
| "state_by_event_type Settled = Some St_settled"
| "state_by_event_type Failed = Some St_failed"
| "state_by_event_type OutcomeUnknown = Some St_unknown"
| "state_by_event_type (OtherType _) = None"

fun state_to_event_type :: "sstate \<Rightarrow> event_type option" where
  "state_to_event_type St_settled = Some Settled"
| "state_to_event_type St_failed = Some Failed"
| "state_to_event_type St_unknown = Some OutcomeUnknown"
| "state_to_event_type St_submitted = None"
| "state_to_event_type (OtherState _) = None"

record payload =
  p_idempotency_key :: "string option"
  p_network :: "string option"
  p_scheme :: "string option"
  p_payer :: "string option"
  p_pay_to :: "string option"
  p_asset :: "string option"
  p_amount :: "string option"
  p_tx_hash :: "string option"
  p_key_id :: "string option"
  p_error_reason :: "string option"
  p_error_message :: "string option"
  p_response :: "json option"

definition empty_payload :: payload where
  "empty_payload = \<lparr>p_idempotency_key = None, p_network = None, p_scheme = None, p_payer = None,
     p_pay_to = None, p_asset = None, p_amount = None, p_tx_hash = None, p_key_id = None,
     p_error_reason = None, p_error_message = None, p_response = None\<rparr>"

text \<open>\<open>REQUIRED_FIELDS_V1[type]\<close>, as the accessors of the fields it names.\<close>

fun required_fields_v1 :: "event_type \<Rightarrow> (payload \<Rightarrow> string option) list" where
  "required_fields_v1 Initiated = [p_idempotency_key, p_network, p_scheme]"
| "required_fields_v1 Settled = [p_idempotency_key]"
| "required_fields_v1 Failed = [p_idempotency_key]"
| "required_fields_v1 OutcomeUnknown = [p_idempotency_key]"
| "required_fields_v1 (OtherType _) = []"

datatype store_error = UnknownEventType | MissingField | NoEventTypeForState

record settlement_event =
  event_type :: event_type
  event_version :: int
  payload :: payload
  seq :: nat
  recorded_at :: int

text \<open>\<open>createSettlementEvent\<close>: the schema-checked envelope, or the error it throws.\<close>

definition createSettlementEvent :: "event_type \<Rightarrow> payload \<Rightarrow> store_error + (event_type \<times> int \<times> payload)" where
  "createSettlementEvent type p =
     (case current_version type of
        None \<Rightarrow> Inl UnknownEventType
      | Some version \<Rightarrow>
          if list_ex (\<lambda>field. field p = None) (required_fields_v1 type) then Inl MissingField
          else Inr (type, version, p))"

definition eventTypeForState :: "sstate \<Rightarrow> store_error + event_type" where
  "eventTypeForState state =
     (case state_to_event_type state of None \<Rightarrow> Inl NoEventTypeForState | Some type \<Rightarrow> Inr type)"

section \<open>The projection fold (projection.js)\<close>

record projection =
  idempotency_key :: "string option"
  network :: string
  scheme :: string
  payer :: "string option"
  pay_to :: "string option"
  asset :: "string option"
  amount :: "string option"
  state :: sstate
  tx_hash :: "string option"
  error_reason :: "string option"
  error_message :: "string option"
  response :: "json option"
  key_id :: "string option"
  created_at :: int
  updated_at :: int

text \<open>The minimal aggregate a terminal event with no history is folded onto.\<close>

definition seed_projection :: "payload \<Rightarrow> int \<Rightarrow> projection" where
  "seed_projection p recordedAt = \<lparr>idempotency_key = p_idempotency_key p, network = [], scheme = [],
     payer = None, pay_to = None, asset = None, amount = None, state = St_submitted, tx_hash = None,
     error_reason = None, error_message = None, response = None, key_id = None,
     created_at = recordedAt, updated_at = recordedAt\<rparr>"

definition applyEvent :: "projection option \<Rightarrow> settlement_event \<Rightarrow> projection option" where
  "applyEvent pr ev =
     (let p = payload ev; recordedAt = recorded_at ev in
      case state_by_event_type (event_type ev) of
        None \<Rightarrow> pr
      | Some st \<Rightarrow>
          if event_type ev = Initiated then
            Some \<lparr>idempotency_key = p_idempotency_key p,
              network = nullish_or (p_network p) [], scheme = nullish_or (p_scheme p) [],
              payer = p_payer p, pay_to = p_pay_to p, asset = p_asset p, amount = p_amount p,
              state = st, tx_hash = p_tx_hash p, error_reason = None, error_message = None,
              response = None, key_id = p_key_id p,
              created_at = nullish_or (map_option created_at pr) recordedAt,
              updated_at = recordedAt\<rparr>
          else
            (let base = nullish_or pr (seed_projection p recordedAt) in
             Some (base\<lparr>state := st,
               tx_hash := nullish (p_tx_hash p) (tx_hash base),
               error_reason := nullish (p_error_reason p) (error_reason base),
               error_message := nullish (p_error_message p) (error_message base),
               response := nullish (p_response p) (response base),
               updated_at := recordedAt\<rparr>)))"

definition projectSettlement :: "settlement_event list \<Rightarrow> projection option" where
  "projectSettlement events = foldl applyEvent None events"

section \<open>Facts about the fold\<close>

definition recognised :: "settlement_event \<Rightarrow> bool" where
  "recognised ev \<longleftrightarrow> state_by_event_type (event_type ev) \<noteq> None"

lemma projectSettlement_Nil [simp]: "projectSettlement [] = None"
  by (simp add: projectSettlement_def)

lemma projectSettlement_snoc [simp]:
  "projectSettlement (es @ [e]) = applyEvent (projectSettlement es) e"
  by (simp add: projectSettlement_def)

lemma applyEvent_unrecognised: "\<not> recognised ev \<Longrightarrow> applyEvent pr ev = pr"
  by (simp add: applyEvent_def recognised_def Let_def)

lemma recognised_cases:
  assumes "recognised ev"
  obtains "event_type ev = Initiated" | "event_type ev = Settled" | "event_type ev = Failed"
    | "event_type ev = OutcomeUnknown"
  using assms by (cases "event_type ev") (auto simp: recognised_def)

lemma applyEvent_recognised_Some: "recognised ev \<Longrightarrow> \<exists>q. applyEvent pr ev = Some q"
  by (erule recognised_cases) (simp_all add: applyEvent_def Let_def)

lemma applyEvent_state:
  "recognised ev \<Longrightarrow> map_option state (applyEvent pr ev) = state_by_event_type (event_type ev)"
  by (erule recognised_cases) (simp_all add: applyEvent_def Let_def)

lemma applyEvent_updated_at:
  "recognised ev \<Longrightarrow> map_option updated_at (applyEvent pr ev) = Some (recorded_at ev)"
  by (erule recognised_cases) (simp_all add: applyEvent_def Let_def)

lemma applyEvent_created_at:
  "recognised ev \<Longrightarrow> map_option created_at (applyEvent pr ev)
     = Some (nullish_or (map_option created_at pr) (recorded_at ev))"
  by (erule recognised_cases; cases pr) (simp_all add: applyEvent_def seed_projection_def Let_def)

lemma projectSettlement_filter: "projectSettlement (filter recognised es) = projectSettlement es"
  by (induction es rule: rev_induct) (simp_all add: applyEvent_unrecognised)

lemma projectSettlement_None_iff: "projectSettlement es = None \<longleftrightarrow> filter recognised es = []"
proof (induction es rule: rev_induct)
  case Nil
  show ?case by simp
next
  case (snoc e es)
  show ?case
  proof (cases "recognised e")
    case True
    then obtain q where "applyEvent (projectSettlement es) e = Some q"
      using applyEvent_recognised_Some by blast
    with True show ?thesis by simp
  next
    case False
    with snoc show ?thesis by (simp add: applyEvent_unrecognised)
  qed
qed

lemma projectSettlement_created_at:
  "map_option created_at (projectSettlement es)
     = (case filter recognised es of [] \<Rightarrow> None | e # _ \<Rightarrow> Some (recorded_at e))"
proof (induction es rule: rev_induct)
  case Nil
  show ?case by simp
next
  case (snoc e es)
  show ?case
  proof (cases "recognised e")
    case True
    with snoc show ?thesis by (simp add: applyEvent_created_at split: list.splits)
  next
    case False
    with snoc show ?thesis by (simp add: applyEvent_unrecognised)
  qed
qed

lemma projectSettlement_state_last:
  assumes "filter recognised es = fs @ [e]"
  shows "map_option state (projectSettlement es) = state_by_event_type (event_type e)"
    and "map_option updated_at (projectSettlement es) = Some (recorded_at e)"
proof -
  have "e \<in> set (filter recognised es)" using assms by simp
  then have rec: "recognised e" by simp
  have "projectSettlement es = applyEvent (projectSettlement fs) e"
    using projectSettlement_filter [of es] assms by simp
  with rec show "map_option state (projectSettlement es) = state_by_event_type (event_type e)"
    and "map_option updated_at (projectSettlement es) = Some (recorded_at e)"
    by (simp_all add: applyEvent_state applyEvent_updated_at)
qed

text \<open>
  \<open>eventTypeForState\<close> and \<open>STATE_BY_EVENT_TYPE\<close> are inverse to one another on the states
  \<open>updateState\<close> accepts.
\<close>

lemma eventTypeForState_sound:
  "eventTypeForState st = Inr ty \<Longrightarrow> state_by_event_type ty = Some st \<and> ty \<noteq> Initiated \<and> current_version ty = Some 1"
  by (cases st) (auto simp: eventTypeForState_def)

lemma eventTypeForState_complete:
  "state_by_event_type ty = Some st \<Longrightarrow> ty \<noteq> Initiated \<Longrightarrow> eventTypeForState st = Inr ty"
  by (cases ty) (auto simp: eventTypeForState_def)

lemma createSettlementEvent_Inr:
  "createSettlementEvent ty p = Inr r \<Longrightarrow>
     r = (ty, 1, p) \<and> state_by_event_type ty \<noteq> None \<and> p_idempotency_key p \<noteq> None"
  by (cases ty) (auto simp: createSettlementEvent_def split: if_splits)

lemma createSettlementEvent_total:
  assumes "current_version ty \<noteq> None" "p_idempotency_key p \<noteq> None"
    "ty = Initiated \<Longrightarrow> p_network p \<noteq> None \<and> p_scheme p \<noteq> None"
  shows "createSettlementEvent ty p = Inr (ty, 1, p)"
  using assms by (cases ty) (auto simp: createSettlementEvent_def)

text \<open>A stream whose events all carry one key projects onto that key.\<close>

lemma projectSettlement_key:
  assumes "\<forall>e \<in> set es. p_idempotency_key (payload e) = k" "projectSettlement es = Some p"
  shows "idempotency_key p = k"
  using assms
proof (induction es arbitrary: p rule: rev_induct)
  case (snoc e es)
  show ?case
  proof (cases "recognised e")
    case False
    with snoc show ?thesis by (simp add: applyEvent_unrecognised)
  next
    case True
    with snoc show ?thesis
      by (cases "projectSettlement es") (auto simp: applyEvent_def seed_projection_def Let_def elim!: recognised_cases split: if_splits)
  qed
qed simp

end
