(* ===== verification/SettlementStore.thy ===== *)
theory SettlementStore
  imports SettlementEvents "HOL-Library.Product_Lexorder"
begin

text \<open>
  The settlement store: the contract its callers rely on (locale \<open>settlement_store\<close>) and
  \<open>src/store/memory.js\<close>, the in-memory event-sourced store that also backs the Postgres
  store when that degrades. The state is the \<open>events\<close> map of the class, idempotency key to
  append-only event log; the clock reading an operation makes is an argument.
\<close>

section \<open>Arguments and results\<close>

record settle_record =
  r_idempotency_key :: string
  r_network :: "string option"
  r_scheme :: "string option"
  r_payer :: "string option"
  r_pay_to :: "string option"
  r_asset :: "string option"
  r_amount :: "string option"
  r_tx_hash :: "string option"
  r_key_id :: "string option"

record settle_details =
  d_tx_hash :: "string option"
  d_error_reason :: "string option"
  d_error_message :: "string option"
  d_response :: "json option"

type_synonym mem_store = "(string, settlement_event list) jsmap"

text \<open>The payloads \<open>save\<close> and \<open>updateState\<close> build (\<open>x ?? ''\<close> and \<open>x ?? null\<close>).\<close>

definition save_payload :: "settle_record \<Rightarrow> payload" where
  "save_payload r = empty_payload\<lparr>p_idempotency_key := Some (r_idempotency_key r),
     p_network := Some (nullish_or (r_network r) []), p_scheme := Some (nullish_or (r_scheme r) []),
     p_payer := r_payer r, p_pay_to := r_pay_to r, p_asset := r_asset r, p_amount := r_amount r,
     p_tx_hash := r_tx_hash r, p_key_id := r_key_id r\<rparr>"

definition update_payload :: "string \<Rightarrow> settle_details \<Rightarrow> payload" where
  "update_payload key d = empty_payload\<lparr>p_idempotency_key := Some key,
     p_tx_hash := d_tx_hash d, p_error_reason := d_error_reason d,
     p_error_message := d_error_message d, p_response := d_response d\<rparr>"

text \<open>\<open>details.response ? JSON.stringify(details.response) : null\<close>.\<close>

definition truthy_response :: "json option \<Rightarrow> json option" where
  "truthy_response r = (case r of None \<Rightarrow> None | Some j \<Rightarrow> if js_truthy j then Some j else None)"

text \<open>
  A response that is falsy (\<open>false\<close>, \<open>0\<close>, the empty string) is kept by the fold but not by the
  statement; every response the service stores is an object.
\<close>

definition response_truthy :: "settle_details \<Rightarrow> bool" where
  "response_truthy d \<longleftrightarrow> truthy_response (d_response d) = d_response d"

section \<open>Request key derivation\<close>

text \<open>
  The parts of a request the derivation reads: the header when it is a string, the transaction
  XDR when it is a string, and \<open>JSON.stringify(req.body?.paymentPayload ?? null)\<close>. SHA-256
  (Node's crypto, hex digest) is the parameter \<open>sha256\<close>.
\<close>

record key_request =
  idempotency_header :: "string option"
  transaction_xdr :: "string option"
  payload_json :: string

definition deriveIdempotencyKey :: "(string \<Rightarrow> string) \<Rightarrow> key_request \<Rightarrow> string" where
  "deriveIdempotencyKey sha256 req =
     (case idempotency_header req of
        Some h \<Rightarrow> if js_trim h \<noteq> [] then js_trim h
                  else (case transaction_xdr req of
                     Some x \<Rightarrow> if js_trim x \<noteq> [] then ''derived:'' @ sha256 (js_trim x)
                               else ''derived:'' @ sha256 (payload_json req)
                   | None \<Rightarrow> ''derived:'' @ sha256 (payload_json req))
      | None \<Rightarrow>
          (case transaction_xdr req of
             Some x \<Rightarrow> if js_trim x \<noteq> [] then ''derived:'' @ sha256 (js_trim x)
                       else ''derived:'' @ sha256 (payload_json req)
           | None \<Rightarrow> ''derived:'' @ sha256 (payload_json req)))"

section \<open>MemorySettlementStore\<close>

definition mem_stream :: "mem_store \<Rightarrow> string \<Rightarrow> settlement_event list" where
  "mem_stream st k = nullish_or (jm_get st k) []"

text \<open>\<open>_append\<close>: the only way state changes; a refused event leaves the map untouched.\<close>

definition mem_append ::
  "string \<Rightarrow> event_type \<Rightarrow> payload \<Rightarrow> int \<Rightarrow> mem_store \<Rightarrow> store_error + (settlement_event \<times> mem_store)" where
  "mem_append key type p now st =
     (let stream = mem_stream st key in
      case createSettlementEvent type p of
        Inl e \<Rightarrow> Inl e
      | Inr (ty, ver, p') \<Rightarrow>
          (let ev = \<lparr>event_type = ty, event_version = ver, payload = p',
                     seq = length stream + 1, recorded_at = now\<rparr> in
           Inr (ev, jm_set key (stream @ [ev]) st)))"

definition mem_projection :: "mem_store \<Rightarrow> string \<Rightarrow> projection option" where
  "mem_projection st k =
     (case jm_get st k of
        None \<Rightarrow> None
      | Some stream \<Rightarrow> if stream = [] then None else projectSettlement stream)"

definition mem_get :: "mem_store \<Rightarrow> string \<Rightarrow> projection option" where
  "mem_get st k = mem_projection st k"

definition mem_save ::
  "settle_record \<Rightarrow> int \<Rightarrow> mem_store \<Rightarrow> store_error + (projection option \<times> mem_store)" where
  "mem_save r now st =
     (case mem_append (r_idempotency_key r) Initiated (save_payload r) now st of
        Inl e \<Rightarrow> Inl e
      | Inr (_, st') \<Rightarrow> Inr (mem_get st' (r_idempotency_key r), st'))"

definition mem_updateState ::
  "string \<Rightarrow> sstate \<Rightarrow> settle_details \<Rightarrow> int \<Rightarrow> mem_store \<Rightarrow> store_error + (projection option \<times> mem_store)" where
  "mem_updateState key st' d now st =
     (if jm_get st key = None then Inr (None, st)
      else case eventTypeForState st' of
          Inl e \<Rightarrow> Inl e
        | Inr ty \<Rightarrow>
            (case mem_append key ty (update_payload key d) now st of
               Inl e \<Rightarrow> Inl e
             | Inr (_, s2) \<Rightarrow> Inr (mem_get s2 key, s2)))"

definition mem_listUnknown :: "mem_store \<Rightarrow> projection list" where
  "mem_listUnknown st =
     concat (map (\<lambda>key. case mem_projection st key of
                          None \<Rightarrow> []
                        | Some p \<Rightarrow> if state p = St_unknown then [p] else []) (jm_keys st))"

text \<open>
  \<open>settleAndEnqueue\<close>: no transaction to share, so the state changes and the event comes back
  for the caller to publish (\<open>atomicallyEnqueued\<close> false).
\<close>

definition mem_settleAndEnqueue ::
  "string \<Rightarrow> settle_details \<Rightarrow> 'e option \<Rightarrow> int \<Rightarrow> mem_store
     \<Rightarrow> store_error + ((bool \<times> projection option \<times> 'e option) \<times> mem_store)" where
  "mem_settleAndEnqueue key d ev now st =
     (case mem_updateState key St_settled d now st of
        Inl e \<Rightarrow> Inl e
      | Inr (record, st') \<Rightarrow> Inr ((False, record, ev), st'))"

definition mem_getEventLog :: "mem_store \<Rightarrow> string \<Rightarrow> settlement_event list" where
  "mem_getEventLog st k = mem_stream st k"

text \<open>\<open>exportAuditLog\<close>: a limit of 0 is falsy, so it does not limit.\<close>

definition mem_exportAuditLog ::
  "int option \<Rightarrow> int option \<Rightarrow> nat option \<Rightarrow> mem_store \<Rightarrow> settlement_event list" where
  "mem_exportAuditLog since until limit st =
     (let all = js_sort_by (\<lambda>e. (recorded_at e, seq e)) (concat (jm_values st));
          f1 = (case since of None \<Rightarrow> all | Some s \<Rightarrow> filter (\<lambda>e. s \<le> recorded_at e) all);
          f2 = (case until of None \<Rightarrow> f1 | Some u \<Rightarrow> filter (\<lambda>e. recorded_at e \<le> u) f1)
      in case limit of None \<Rightarrow> f2 | Some n \<Rightarrow> if n = 0 then f2 else take n f2)"

definition mem_rebuildProjection :: "mem_store \<Rightarrow> string \<Rightarrow> projection option" where
  "mem_rebuildProjection st k = mem_get st k"

section \<open>What a caller may rely on\<close>

text \<open>
  The contract of a settlement store over its read \<open>get\<close> and its writes: a save starts a
  settlement as submitted, an update of a known settlement moves it to the given state, keeps its
  identity and merges the details, an update of an unknown one changes nothing, and no write
  touches another key. \<open>ok\<close> is the store's invariant.
\<close>

locale settlement_store =
  fixes get :: "'s \<Rightarrow> string \<Rightarrow> projection option"
    and save :: "settle_record \<Rightarrow> int \<Rightarrow> 's \<Rightarrow> store_error + (projection option \<times> 's)"
    and updateState :: "string \<Rightarrow> sstate \<Rightarrow> settle_details \<Rightarrow> int \<Rightarrow> 's \<Rightarrow> store_error + (projection option \<times> 's)"
    and ok :: "'s \<Rightarrow> bool"
  assumes save_succeeds: "ok s \<Longrightarrow> \<exists>p s'. save r t s = Inr (Some p, s')"
    and save_get: "ok s \<Longrightarrow> save r t s = Inr (res, s') \<Longrightarrow> get s' (r_idempotency_key r) = res"
    and save_submitted: "ok s \<Longrightarrow> save r t s = Inr (Some p, s') \<Longrightarrow>
      state p = St_submitted \<and> key_id p = r_key_id r \<and> response p = None"
    and save_frame: "ok s \<Longrightarrow> save r t s = Inr (res, s') \<Longrightarrow> k \<noteq> r_idempotency_key r \<Longrightarrow> get s' k = get s k"
    and save_ok: "ok s \<Longrightarrow> save r t s = Inr (res, s') \<Longrightarrow> ok s'"
    and update_succeeds: "ok s \<Longrightarrow> eventTypeForState st = Inr ty \<Longrightarrow> \<exists>res s'. updateState k st d t s = Inr (res, s')"
    and update_unknown_key: "ok s \<Longrightarrow> eventTypeForState st = Inr ty \<Longrightarrow> get s k = None \<Longrightarrow>
      updateState k st d t s = Inr (res, s') \<Longrightarrow> res = None \<and> s' = s"
    and update_get: "ok s \<Longrightarrow> eventTypeForState st = Inr ty \<Longrightarrow> get s k = Some p \<Longrightarrow> updateState k st d t s = Inr (res, s') \<Longrightarrow>
      get s' k = res \<and> (\<exists>q. res = Some q \<and> state q = st \<and> key_id q = key_id p \<and> created_at q = created_at p
        \<and> idempotency_key q = idempotency_key p \<and> network q = network p
        \<and> tx_hash q = nullish (d_tx_hash d) (tx_hash p)
        \<and> error_reason q = nullish (d_error_reason d) (error_reason p)
        \<and> (response_truthy d \<longrightarrow> response q = nullish (d_response d) (response p)))"
    and update_frame: "ok s \<Longrightarrow> eventTypeForState st = Inr ty \<Longrightarrow> updateState k st d t s = Inr (res, s') \<Longrightarrow> j \<noteq> k \<Longrightarrow> get s' j = get s j"
    and update_ok: "ok s \<Longrightarrow> response_truthy d \<Longrightarrow> eventTypeForState st = Inr ty \<Longrightarrow> updateState k st d t s = Inr (res, s') \<Longrightarrow> ok s'"
begin

text \<open>A saved settlement is on record, and stays on record through every later update.\<close>

lemma save_known: "ok s \<Longrightarrow> save r t s = Inr (res, s') \<Longrightarrow> get s' (r_idempotency_key r) \<noteq> None"
  using save_succeeds [of s r t] save_get by force

lemma update_known_iff:
  assumes "ok s" "eventTypeForState st = Inr ty" "updateState k st d t s = Inr (res, s')"
  shows "(get s' j = None) = (get s j = None)"
proof (cases "j = k")
  case True
  show ?thesis
  proof (cases "get s k")
    case None
    with update_unknown_key assms True show ?thesis by metis
  next
    case (Some p)
    with update_get [OF assms(1,2) Some assms(3)] True show ?thesis by auto
  qed
next
  case False
  with update_frame assms show ?thesis by metis
qed

text \<open>The two writes of one settlement: after save then update, the record is in that state.\<close>

lemma save_then_update:
  assumes "ok s" "save r t s = Inr (res, s1)" "eventTypeForState st = Inr ty" "response_truthy d"
    "updateState (r_idempotency_key r) st d t' s1 = Inr (res', s2)"
  shows "\<exists>q. get s2 (r_idempotency_key r) = Some q \<and> state q = st \<and> key_id q = r_key_id r
    \<and> response q = d_response d \<and> ok s2"
proof -
  obtain p where p: "save r t s = Inr (Some p, s1)"
    using save_succeeds [OF assms(1), of r t] assms(2) by auto
  have g: "get s1 (r_idempotency_key r) = Some p" and ok1: "ok s1"
    using save_get [OF assms(1) p] save_ok [OF assms(1) p] by simp_all
  with update_get [OF ok1 assms(3) g assms(5)] update_ok [OF ok1 assms(4,3,5)] save_submitted [OF assms(1) p] assms(4)
  show ?thesis by auto
qed

end

section \<open>The memory store keeps the contract\<close>

text \<open>Streams are never empty, are numbered 1, 2, ... and hold only current-version events.\<close>

definition stream_ok :: "string \<Rightarrow> settlement_event list \<Rightarrow> bool" where
  "stream_ok k es \<longleftrightarrow> es \<noteq> [] \<and> event_type (hd es) = Initiated
     \<and> map seq es = [1..<Suc (length es)]
     \<and> (\<forall>e \<in> set es. recognised e \<and> event_version e = 1 \<and> p_idempotency_key (payload e) = Some k)"

definition mem_ok :: "mem_store \<Rightarrow> bool" where
  "mem_ok st \<longleftrightarrow> jm_wf st \<and> (\<forall>(k, es) \<in> set st. stream_ok k es)"

lemma mem_ok_empty [simp]: "mem_ok []"
  by (simp add: mem_ok_def)

lemma mem_ok_get: "mem_ok st \<Longrightarrow> jm_get st k = Some es \<Longrightarrow> stream_ok k es"
  by (auto simp: mem_ok_def dest: map_of_SomeD)

lemma stream_ok_project: "stream_ok k es \<Longrightarrow> projectSettlement es \<noteq> None"
  by (auto simp: stream_ok_def projectSettlement_None_iff filter_empty_conv neq_Nil_conv)

lemma mem_get_Some_iff:
  assumes "mem_ok st"
  shows "(mem_get st k = None) = (jm_get st k = None)"
proof (cases "jm_get st k")
  case None
  then show ?thesis by (simp add: mem_get_def mem_projection_def)
next
  case (Some es)
  then have "stream_ok k es" using assms by (rule mem_ok_get [rotated])
  with Some stream_ok_project [of k es] show ?thesis
    by (simp add: mem_get_def mem_projection_def stream_ok_def)
qed

lemma mem_get_stream: "mem_get st k = projectSettlement (mem_stream st k)"
  by (auto simp: mem_get_def mem_projection_def mem_stream_def split: option.splits)

lemma stream_ok_append:
  assumes "es = [] \<or> stream_ok k es" "es = [] \<Longrightarrow> ty = Initiated"
    "createSettlementEvent ty p = Inr (ty, ver, p)" "p_idempotency_key p = Some k"
  shows "stream_ok k (es @ [\<lparr>event_type = ty, event_version = ver, payload = p, seq = length es + 1, recorded_at = t\<rparr>])"
  using assms createSettlementEvent_Inr [OF assms(3)]
  by (auto simp: stream_ok_def recognised_def)

lemma mem_append_Inr:
  assumes "createSettlementEvent ty p = Inr (ty, ver, p)"
  shows "mem_append key ty p now st =
     (let ev = \<lparr>event_type = ty, event_version = ver, payload = p, seq = length (mem_stream st key) + 1, recorded_at = now\<rparr>
      in Inr (ev, jm_set key (mem_stream st key @ [ev]) st))"
  using assms by (simp add: mem_append_def Let_def)

lemma mem_ok_set:
  assumes "mem_ok st" "stream_ok k es"
  shows "mem_ok (jm_set k es st)"
  unfolding mem_ok_def
proof (intro conjI ballI, goal_cases)
  case 1
  with assms show ?case by (simp add: mem_ok_def)
next
  case (2 x)
  obtain j fs where x: "x = (j, fs)" by force
  have "jm_get (jm_set k es st) j = Some fs"
    using 2 x assms(1) by (auto simp: mem_ok_def intro: map_of_is_SomeI)
  with assms x show ?case
    by (auto simp: jm_get_set split: if_splits dest: mem_ok_get)
qed

lemma mem_stream_set: "mem_stream (jm_set k es st) j = (if j = k then es else mem_stream st j)"
  by (simp add: mem_stream_def jm_get_set)

lemma save_event: "createSettlementEvent Initiated (save_payload r) = Inr (Initiated, 1, save_payload r)"
  by (rule createSettlementEvent_total) (simp_all add: save_payload_def)

lemma update_event:
  "eventTypeForState st = Inr ty \<Longrightarrow>
     createSettlementEvent ty (update_payload k d) = Inr (ty, 1, update_payload k d)"
  by (rule createSettlementEvent_total) (auto simp: update_payload_def dest: eventTypeForState_sound)

text \<open>The event each write appends.\<close>

definition save_ev :: "settle_record \<Rightarrow> nat \<Rightarrow> int \<Rightarrow> settlement_event" where
  "save_ev r n t = \<lparr>event_type = Initiated, event_version = 1, payload = save_payload r, seq = n, recorded_at = t\<rparr>"

definition update_ev :: "event_type \<Rightarrow> string \<Rightarrow> settle_details \<Rightarrow> nat \<Rightarrow> int \<Rightarrow> settlement_event" where
  "update_ev ty k d n t = \<lparr>event_type = ty, event_version = 1, payload = update_payload k d, seq = n, recorded_at = t\<rparr>"

lemma mem_save_eq:
  "mem_save r t st =
     (let k = r_idempotency_key r; es = mem_stream st k; ev = save_ev r (length es + 1) t
      in Inr (projectSettlement (es @ [ev]), jm_set k (es @ [ev]) st))"
  by (simp add: mem_save_def mem_append_Inr [OF save_event] save_ev_def mem_get_stream mem_stream_set Let_def)

lemma mem_updateState_eq:
  assumes "eventTypeForState s = Inr ty" "jm_get st k \<noteq> None"
  shows "mem_updateState k s d t st =
     (let es = mem_stream st k; ev = update_ev ty k d (length es + 1) t
      in Inr (projectSettlement (es @ [ev]), jm_set k (es @ [ev]) st))"
  using assms
  by (auto simp: mem_updateState_def mem_append_Inr [OF update_event] update_ev_def mem_get_stream mem_stream_set Let_def)

lemma mem_updateState_error: "mem_updateState k s d t st = Inr (res, st') \<Longrightarrow>
    jm_get st k = None \<or> (\<exists>ty. eventTypeForState s = Inr ty)"
  by (auto simp: mem_updateState_def split: if_splits sum.splits)

lemma mem_stream_ok_or_empty: "mem_ok st \<Longrightarrow> mem_stream st k = [] \<or> stream_ok k (mem_stream st k)"
  by (cases "jm_get st k") (auto simp: mem_stream_def dest: mem_ok_get)

lemma mem_ok_save:
  assumes "mem_ok st" "mem_save r t st = Inr (res, st')"
  shows "mem_ok st'"
proof -
  let ?k = "r_idempotency_key r"
  let ?es = "mem_stream st ?k"
  have "stream_ok ?k (?es @ [save_ev r (length ?es + 1) t])"
    using stream_ok_append [OF mem_stream_ok_or_empty [OF assms(1)] _ save_event]
    by (simp add: save_ev_def save_payload_def)
  with assms show ?thesis by (auto simp: mem_save_eq Let_def intro: mem_ok_set)
qed

lemma applyEvent_save:
  "applyEvent pr (save_ev r n t) = Some q \<Longrightarrow>
     state q = St_submitted \<and> key_id q = r_key_id r \<and> response q = None \<and> idempotency_key q = Some (r_idempotency_key r)"
  by (auto simp: applyEvent_def save_ev_def save_payload_def empty_payload_def Let_def)

lemma applyEvent_update:
  assumes "eventTypeForState s = Inr ty"
  shows "applyEvent (Some p) (update_ev ty k d n t) =
     Some (p\<lparr>state := s, tx_hash := nullish (d_tx_hash d) (tx_hash p),
        error_reason := nullish (d_error_reason d) (error_reason p),
        error_message := nullish (d_error_message d) (error_message p),
        response := nullish (d_response d) (response p), updated_at := t\<rparr>)"
  using eventTypeForState_sound [OF assms]
  by (simp add: applyEvent_def update_ev_def update_payload_def empty_payload_def Let_def)

lemma mem_ok_update:
  assumes "mem_ok st" "mem_updateState k s d t st = Inr (res, st')"
  shows "mem_ok st'"
proof (cases "jm_get st k")
  case None
  with assms show ?thesis by (simp add: mem_updateState_def)
next
  case (Some es)
  then obtain ty where ty: "eventTypeForState s = Inr ty"
    using mem_updateState_error [OF assms(2)] by auto
  have "stream_ok k es" "mem_stream st k = es"
    using assms(1) Some by (auto simp: mem_stream_def dest: mem_ok_get)
  moreover from this have "stream_ok k (es @ [update_ev ty k d (length es + 1) t])"
    using stream_ok_append [OF _ _ update_event [OF ty], of es k k d t]
    by (auto simp: update_ev_def update_payload_def stream_ok_def)
  ultimately show ?thesis
    using assms Some by (auto simp: mem_updateState_eq [OF ty] Let_def intro: mem_ok_set)
qed

interpretation mem: settlement_store mem_get mem_save mem_updateState mem_ok
proof (unfold_locales, goal_cases)
  case (1 s r t)
  then show ?case
    using applyEvent_recognised_Some [of "save_ev r n t" for n] by (simp add: mem_save_eq Let_def recognised_def save_ev_def)
next
  case (2 s r t res s')
  then show ?case by (auto simp: mem_save_eq Let_def mem_get_stream mem_stream_set)
next
  case (3 s r t p s')
  then show ?case by (auto simp: mem_save_eq Let_def dest: applyEvent_save)
next
  case (4 s r t res s' k)
  then show ?case by (auto simp: mem_save_eq Let_def mem_get_stream mem_stream_set)
next
  case (5 s r t res s')
  then show ?case by (rule mem_ok_save)
next
  case (6 s st ty k d t)
  then show ?case
    by (cases "jm_get s k") (simp_all add: mem_updateState_def mem_append_Inr [OF update_event] Let_def)
next
  case (7 s st ty k d t res s')
  then show ?case by (simp add: mem_get_Some_iff mem_updateState_def)
next
  case (8 s st ty k p d t res s')
  then have known: "jm_get s k \<noteq> None" using mem_get_Some_iff [of s k] by simp
  from 8 known show ?case
    by (auto simp: mem_updateState_eq [OF 8(2)] Let_def mem_get_stream mem_stream_set applyEvent_update [OF 8(2)])
next
  case (9 s st ty k d t res s' j)
  show ?case
  proof (cases "jm_get s k")
    case None
    with 9 show ?thesis by (simp add: mem_updateState_def)
  next
    case (Some es)
    with 9 show ?thesis by (auto simp: mem_updateState_eq [OF 9(2)] Let_def mem_get_stream mem_stream_set)
  qed
next
  case (10 s d st ty k t res s')
  then show ?case by (metis mem_ok_update)
qed

end
