(* ===== verification/LeaseQueue.thy ===== *)
theory LeaseQueue
  imports JsPrelude
begin

text \<open>
  The contract the two delivery queues of the service share (\<open>src/outbox/store.js\<close> and
  \<open>src/dlq/store.js\<close>): a claim takes due rows under a lease, and a row whose delivery is
  recorded is out of the queue. \<open>due s lease t\<close> are the row ids a claim at time \<open>t\<close> may
  take. What follows from the contract alone is proved here once; both stores interpret it.
\<close>

locale lease_queue =
  fixes due :: "'s \<Rightarrow> int \<Rightarrow> int \<Rightarrow> nat set"
    and claim :: "nat set \<Rightarrow> nat \<Rightarrow> int \<Rightarrow> int \<Rightarrow> 's \<Rightarrow> 'row list \<times> 's"
    and row_id :: "'row \<Rightarrow> nat"
    and complete :: "nat \<Rightarrow> int \<Rightarrow> 's \<Rightarrow> 's"
  assumes claim_due: "claim locked n lease t s = (rs, s') \<Longrightarrow> row_id ` set rs \<subseteq> due s lease t"
    and claim_unlocked: "claim locked n lease t s = (rs, s') \<Longrightarrow> row_id ` set rs \<inter> locked = {}"
    and claim_leased: "claim locked n lease t s = (rs, s') \<Longrightarrow> t' \<le> t + lease \<Longrightarrow>
      due s' lease t' \<subseteq> due s lease t' - row_id ` set rs"
    and complete_due: "due (complete i t s) lease t' \<subseteq> due s lease t' - {i}"
begin

text \<open>Two workers whose claims fall into one lease never hold the same row.\<close>

lemma claims_disjoint:
  assumes "claim l1 n1 lease t1 s = (rs1, s1)" "claim l2 n2 lease t2 s1 = (rs2, s2)" "t2 \<le> t1 + lease"
  shows "row_id ` set rs1 \<inter> row_id ` set rs2 = {}"
  using claim_leased [OF assms(1,3)] claim_due [OF assms(2)] by blast

text \<open>The same when deliveries are recorded in between.\<close>

lemma claims_disjoint_complete:
  assumes "claim l1 n1 lease t1 s = (rs1, s1)" "claim l2 n2 lease t2 (complete i tc s1) = (rs2, s2)" "t2 \<le> t1 + lease"
  shows "row_id ` set rs1 \<inter> row_id ` set rs2 = {}"
  using claim_leased [OF assms(1,3)] claim_due [OF assms(2)] complete_due [of i tc s1 lease t2] by blast

text \<open>A delivered row is not claimed again, whatever the lease.\<close>

lemma completed_not_claimed:
  assumes "claim locked n lease t (complete i tc s) = (rs, s')"
  shows "i \<notin> row_id ` set rs"
  using claim_due [OF assms] complete_due [of i tc s lease t] by blast

end

section \<open>Row selection\<close>

text \<open>
  \<open>ORDER BY key LIMIT n FOR UPDATE SKIP LOCKED\<close> over the rows that match; the ids it picks.
\<close>

definition pick_ids :: "('r \<Rightarrow> bool) \<Rightarrow> ('r \<Rightarrow> int) \<Rightarrow> ('r \<Rightarrow> nat) \<Rightarrow> nat set \<Rightarrow> nat \<Rightarrow> 'r list \<Rightarrow> nat list" where
  "pick_ids match key rid locked n rows =
     map rid (take n (filter (\<lambda>r. rid r \<notin> locked) (js_sort_by key (filter match rows))))"

lemma pick_ids_subset: "set (pick_ids match key rid locked n rows) \<subseteq> rid ` {r \<in> set rows. match r} - locked"
  by (auto simp: pick_ids_def dest!: in_set_takeD)

lemma length_pick_ids: "length (pick_ids match key rid locked n rows) \<le> n"
  by (simp add: pick_ids_def)

lemma distinct_pick_ids:
  assumes "distinct (map rid rows)"
  shows "distinct (pick_ids match key rid locked n rows)"
proof -
  have "distinct (map rid (js_sort_by key (filter match rows)))"
    by (simp add: assms distinct_map_filter)
  then show ?thesis
    unfolding pick_ids_def by (metis distinct_map_filter distinct_take take_map)
qed

text \<open>The rows an \<open>UPDATE ... WHERE id IN ids RETURNING\<close> changes and gives back.\<close>

definition touch_rows :: "('r \<Rightarrow> nat) \<Rightarrow> nat set \<Rightarrow> ('r \<Rightarrow> 'r) \<Rightarrow> 'r list \<Rightarrow> 'r list" where
  "touch_rows rid ids f rows = map (\<lambda>r. if rid r \<in> ids then f r else r) rows"

definition returned_rows :: "('r \<Rightarrow> nat) \<Rightarrow> nat set \<Rightarrow> 'r list \<Rightarrow> 'r list" where
  "returned_rows rid ids rows = filter (\<lambda>r. rid r \<in> ids) rows"

lemma returned_touch:
  assumes "\<And>r. rid (f r) = rid r"
  shows "returned_rows rid ids (touch_rows rid ids f rows) = map f (returned_rows rid ids rows)"
  using assms by (induction rows) (simp_all add: returned_rows_def touch_rows_def)

lemma touch_rows_rid [simp]:
  assumes "\<And>r. g (f r) = g r"
  shows "map g (touch_rows rid ids f rows) = map g rows"
  using assms by (simp add: touch_rows_def comp_def)

lemma returned_ids:
  assumes "ids \<subseteq> rid ` set rows" "\<And>r. rid (f r) = rid r"
  shows "rid ` set (returned_rows rid ids (touch_rows rid ids f rows)) = ids"
proof -
  have "rid ` set (map f (returned_rows rid ids rows)) = rid ` set (returned_rows rid ids rows)"
    using assms(2) by (auto simp: image_iff)
  also have "\<dots> = ids"
    using assms(1) by (auto simp: returned_rows_def)
  finally show ?thesis using returned_touch [of rid f, OF assms(2)] by simp
qed

lemma touch_rows_untouched:
  assumes "r' \<in> set (touch_rows rid ids f rows)" "\<And>r. rid (f r) = rid r" "\<And>r. \<not> P (f r)" "P r'"
  shows "r' \<in> set rows \<and> rid r' \<notin> ids"
  using assms by (auto simp: touch_rows_def split: if_splits)

lemma pick_ids_in_rows: "set (pick_ids match key rid locked n rows) \<subseteq> rid ` set rows"
  using pick_ids_subset [of match key rid locked n rows] by auto

text \<open>A picked id belongs to a row that matches, when ids are distinct.\<close>

lemma pick_ids_match:
  assumes "distinct (map rid rows)" "r \<in> set rows" "rid r \<in> set (pick_ids match key rid locked n rows)"
  shows "match r"
proof -
  obtain r' where "r' \<in> set rows" "match r'" "rid r' = rid r"
    using subsetD [OF pick_ids_subset assms(3)] by auto
  with assms(1,2) show ?thesis by (metis distinct_map inj_onD)
qed

text \<open>Oldest first: a matching unlocked row left out is no older than any row picked.\<close>

lemma pick_ids_oldest:
  assumes "r \<in> set rows" "match r" "rid r \<notin> locked" "rid r \<notin> set (pick_ids match key rid locked n rows)"
    "x \<in> set (pick_ids match key rid locked n rows)"
  shows "\<exists>r' \<in> set rows. rid r' = x \<and> match r' \<and> key r' \<le> key r"
proof -
  let ?s = "filter (\<lambda>r. rid r \<notin> locked) (js_sort_by key (filter match rows))"
  have sorted: "sorted (map key ?s)"
    by (simp add: js_sort_by_def sorted_filter)
  have r: "r \<in> set (drop n ?s)"
  proof -
    have "r \<in> set ?s" using assms(1-3) by simp
    moreover have "r \<notin> set (take n ?s)" using assms(4) by (auto simp: pick_ids_def)
    ultimately show ?thesis by (metis append_take_drop_id Un_iff set_append)
  qed
  from assms(5) obtain r' where r': "r' \<in> set (take n ?s)" "rid r' = x"
    by (auto simp: pick_ids_def)
  have "sorted (map key (take n ?s) @ map key (drop n ?s))"
    using sorted by (metis append_take_drop_id map_append)
  then have "key r' \<le> key r" using r r'(1) by (auto simp: sorted_append)
  moreover have "r' \<in> set rows \<and> match r'" using in_set_takeD [OF r'(1)] by simp
  ultimately show ?thesis using r'(2) by blast
qed

end
