(* ===== verification/Outbox.thy ===== *)
theory Outbox
  imports LeaseQueue
begin

text \<open>
  The transactional outbox: \<open>src/outbox/store.js\<close>, the \<open>outbox_events\<close> table and its
  claim/publish/mark cycle. The table is a list of rows in id order; \<open>NOW()\<close> is an argument in
  milliseconds; \<open>locked\<close> are the rows other open transactions hold, which
  \<open>FOR UPDATE SKIP LOCKED\<close> passes over. \<open>RETURNING\<close> gives rows in no particular order; the
  model returns them in table order.
\<close>

section \<open>The table\<close>

datatype ob_status = Ob_pending | Ob_claimed | Ob_published | Ob_failed

type_synonym json_obj = "(string, json) jsmap"

record outbox_row =
  ob_id :: nat
  ob_event_id :: string
  ob_type :: string
  ob_payload :: json_obj
  ob_status :: ob_status
  ob_attempts :: nat
  ob_last_error :: "string option"
  ob_claimed_at :: "int option"
  ob_published_at :: "int option"
  ob_created_at :: int

record outbox =
  ob_rows :: "outbox_row list"
  ob_next_id :: nat

definition empty_outbox :: outbox where
  "empty_outbox = \<lparr>ob_rows = [], ob_next_id = 1\<rparr>"

section \<open>OutboxStore\<close>

text \<open>\<open>insertEvent\<close>: idempotent on the event id; the sequence advances either way.\<close>

definition insertEvent :: "string \<Rightarrow> string \<Rightarrow> json_obj \<Rightarrow> int \<Rightarrow> outbox \<Rightarrow> outbox" where
  "insertEvent eventId type p now ob =
     (if eventId \<in> ob_event_id ` set (ob_rows ob) then ob\<lparr>ob_next_id := ob_next_id ob + 1\<rparr>
      else \<lparr>ob_rows = ob_rows ob @ [\<lparr>ob_id = ob_next_id ob, ob_event_id = eventId, ob_type = type,
              ob_payload = p, ob_status = Ob_pending, ob_attempts = 0, ob_last_error = None,
              ob_claimed_at = None, ob_published_at = None, ob_created_at = now\<rparr>],
            ob_next_id = ob_next_id ob + 1\<rparr>)"

definition ob_claimable :: "int \<Rightarrow> int \<Rightarrow> outbox_row \<Rightarrow> bool" where
  "ob_claimable leaseMs now r \<longleftrightarrow>
     ob_status r = Ob_pending
     \<or> (ob_status r = Ob_claimed \<and> (case ob_claimed_at r of None \<Rightarrow> False | Some c \<Rightarrow> c < now - leaseMs))"

definition ob_claim_row :: "int \<Rightarrow> outbox_row \<Rightarrow> outbox_row" where
  "ob_claim_row now r = r\<lparr>ob_status := Ob_claimed, ob_claimed_at := Some now\<rparr>"

definition claimBatch :: "nat set \<Rightarrow> nat \<Rightarrow> int \<Rightarrow> int \<Rightarrow> outbox \<Rightarrow> outbox_row list \<times> outbox" where
  "claimBatch locked limit leaseMs now ob =
     (let ids = set (pick_ids (ob_claimable leaseMs now) ob_created_at ob_id locked limit (ob_rows ob));
          rows' = touch_rows ob_id ids (ob_claim_row now) (ob_rows ob)
      in (returned_rows ob_id ids rows', ob\<lparr>ob_rows := rows'\<rparr>))"

lemma ob_claim_row_simps [simp]:
  "ob_id (ob_claim_row t r) = ob_id r" "ob_event_id (ob_claim_row t r) = ob_event_id r"
  "ob_payload (ob_claim_row t r) = ob_payload r" "ob_attempts (ob_claim_row t r) = ob_attempts r"
  "ob_type (ob_claim_row t r) = ob_type r"
  by (simp_all add: ob_claim_row_def)

definition ob_update :: "nat \<Rightarrow> (outbox_row \<Rightarrow> outbox_row) \<Rightarrow> outbox \<Rightarrow> outbox" where
  "ob_update i f ob = ob\<lparr>ob_rows := touch_rows ob_id {i} f (ob_rows ob)\<rparr>"

definition ob_publish_row :: "int \<Rightarrow> outbox_row \<Rightarrow> outbox_row" where
  "ob_publish_row now r = r\<lparr>ob_status := Ob_published, ob_published_at := Some now,
     ob_claimed_at := None, ob_last_error := None\<rparr>"

definition markPublished :: "nat \<Rightarrow> int \<Rightarrow> outbox \<Rightarrow> outbox" where
  "markPublished i now ob = ob_update i (ob_publish_row now) ob"

text \<open>\<open>String(error ?? '').slice(0, 2000)\<close>.\<close>

definition clip_error :: "string option \<Rightarrow> string" where
  "clip_error e = take 2000 (nullish_or e [])"

definition ob_fail_row :: "string option \<Rightarrow> nat \<Rightarrow> outbox_row \<Rightarrow> outbox_row" where
  "ob_fail_row err maxAttempts r = r\<lparr>ob_attempts := ob_attempts r + 1,
     ob_last_error := Some (clip_error err),
     ob_status := (if ob_attempts r + 1 \<ge> maxAttempts then Ob_failed else Ob_pending),
     ob_claimed_at := None\<rparr>"

definition markFailed :: "nat \<Rightarrow> string option \<Rightarrow> nat \<Rightarrow> outbox \<Rightarrow> outbox" where
  "markFailed i err maxAttempts ob = ob_update i (ob_fail_row err maxAttempts) ob"

definition countPending :: "outbox \<Rightarrow> nat" where
  "countPending ob = length (filter (\<lambda>r. ob_status r \<in> {Ob_pending, Ob_claimed}) (ob_rows ob))"

section \<open>Table invariant\<close>

text \<open>
  Row ids are distinct and below the sequence, event ids are unique, a claimed row carries its
  claim time, and a row still in the queue has attempts left.
\<close>

definition ob_row_ok :: "nat \<Rightarrow> outbox_row \<Rightarrow> bool" where
  "ob_row_ok maxAttempts r \<longleftrightarrow>
     (ob_status r = Ob_claimed \<longleftrightarrow> ob_claimed_at r \<noteq> None)
     \<and> (ob_status r \<in> {Ob_pending, Ob_claimed} \<longrightarrow> ob_attempts r < maxAttempts)
     \<and> (ob_status r = Ob_failed \<longrightarrow> maxAttempts \<le> ob_attempts r)"

definition ob_ok :: "nat \<Rightarrow> outbox \<Rightarrow> bool" where
  "ob_ok maxAttempts ob \<longleftrightarrow> distinct (map ob_id (ob_rows ob)) \<and> distinct (map ob_event_id (ob_rows ob))
     \<and> (\<forall>r \<in> set (ob_rows ob). ob_id r < ob_next_id ob \<and> ob_row_ok maxAttempts r)"

lemma ob_ok_empty: "ob_ok m empty_outbox"
  by (simp add: ob_ok_def empty_outbox_def)

lemma ob_update_ids [simp]:
  assumes "\<And>r. ob_id (f r) = ob_id r" "\<And>r. ob_event_id (f r) = ob_event_id r"
  shows "map ob_id (ob_rows (ob_update i f ob)) = map ob_id (ob_rows ob)"
    and "map ob_event_id (ob_rows (ob_update i f ob)) = map ob_event_id (ob_rows ob)"
  using assms by (simp_all add: ob_update_def)

lemma ob_ok_map:
  assumes "ob_ok m ob" "\<And>r. ob_id (f r) = ob_id r" "\<And>r. ob_event_id (f r) = ob_event_id r"
    "\<And>r. r \<in> set (ob_rows ob) \<Longrightarrow> ob_row_ok m (f r)"
  shows "ob_ok m (ob\<lparr>ob_rows := map f (ob_rows ob)\<rparr>)"
  using assms by (simp add: ob_ok_def comp_def)

lemma insertEvent_ok: "0 < m \<Longrightarrow> ob_ok m ob \<Longrightarrow> ob_ok m (insertEvent eid ty p now ob)"
  by (auto simp: ob_ok_def insertEvent_def ob_row_ok_def less_Suc_eq)

lemma claimBatch_ok:
  assumes "ob_ok m ob"
  shows "ob_ok m (snd (claimBatch locked n lease now ob))"
  unfolding claimBatch_def Let_def snd_conv touch_rows_def
proof (rule ob_ok_map [OF assms], goal_cases)
  case (3 r)
  have "ob_claimable lease now r"
    if "ob_id r \<in> set (pick_ids (ob_claimable lease now) ob_created_at ob_id locked n (ob_rows ob))"
    by (rule pick_ids_match [OF _ 3 that]) (use assms in \<open>simp add: ob_ok_def\<close>)
  with 3 assms show ?case
    by (auto simp: ob_ok_def ob_row_ok_def ob_claim_row_def ob_claimable_def)
qed simp_all

lemma markPublished_ok: "ob_ok m ob \<Longrightarrow> ob_ok m (markPublished i now ob)"
  unfolding markPublished_def ob_update_def touch_rows_def
  by (rule ob_ok_map) (auto simp: ob_ok_def ob_row_ok_def ob_publish_row_def)

lemma markFailed_ok: "ob_ok m ob \<Longrightarrow> ob_ok m (markFailed i err m ob)"
  unfolding markFailed_def ob_update_def touch_rows_def
  by (rule ob_ok_map) (auto simp: ob_ok_def ob_row_ok_def ob_fail_row_def)

lemmas outbox_ok_intros = insertEvent_ok claimBatch_ok markPublished_ok markFailed_ok

section \<open>The outbox is a lease queue\<close>

definition ob_due :: "outbox \<Rightarrow> int \<Rightarrow> int \<Rightarrow> nat set" where
  "ob_due ob lease t = ob_id ` {r \<in> set (ob_rows ob). ob_claimable lease t r}"

lemma ob_claim_row_not_claimable: "t' \<le> t + lease \<Longrightarrow> \<not> ob_claimable lease t' (ob_claim_row t r)"
  by (simp add: ob_claimable_def ob_claim_row_def)

lemma claimBatch_ids:
  assumes "claimBatch locked n lease t s = (rs, s')"
  shows "ob_id ` set rs = set (pick_ids (ob_claimable lease t) ob_created_at ob_id locked n (ob_rows s))"
proof -
  let ?ids = "set (pick_ids (ob_claimable lease t) ob_created_at ob_id locked n (ob_rows s))"
  have "rs = returned_rows ob_id ?ids (touch_rows ob_id ?ids (ob_claim_row t) (ob_rows s))"
    using assms by (simp add: claimBatch_def Let_def)
  then show ?thesis by (simp add: returned_ids [OF pick_ids_in_rows])
qed

lemma claimBatch_leased:
  assumes "claimBatch locked n lease t s = (rs, s')" "t' \<le> t + lease"
  shows "ob_due s' lease t' \<subseteq> ob_due s lease t' - ob_id ` set rs"
proof
  let ?ids = "set (pick_ids (ob_claimable lease t) ob_created_at ob_id locked n (ob_rows s))"
  fix i assume "i \<in> ob_due s' lease t'"
  then obtain r' where r': "r' \<in> set (touch_rows ob_id ?ids (ob_claim_row t) (ob_rows s))"
    "ob_claimable lease t' r'" "ob_id r' = i"
    using assms(1) by (auto simp: ob_due_def claimBatch_def Let_def)
  then have "r' \<in> set (ob_rows s) \<and> ob_id r' \<notin> ?ids"
    using touch_rows_untouched [of r' ob_id ?ids "ob_claim_row t" "ob_rows s" "ob_claimable lease t'"]
      ob_claim_row_not_claimable [OF assms(2)] by simp
  with r'(2,3) claimBatch_ids [OF assms(1)] show "i \<in> ob_due s lease t' - ob_id ` set rs"
    by (auto simp: ob_due_def)
qed

interpretation outbox_q: lease_queue ob_due claimBatch ob_id markPublished
proof (unfold_locales, goal_cases)
  case (1 locked n lease t s rs s')
  have "set (pick_ids (ob_claimable lease t) ob_created_at ob_id locked n (ob_rows s)) \<subseteq> ob_due s lease t"
    using pick_ids_subset [of "ob_claimable lease t" ob_created_at ob_id locked n "ob_rows s"]
    unfolding ob_due_def by blast
  with claimBatch_ids [OF 1] show ?case by simp
next
  case (2 locked n lease t s rs s')
  with claimBatch_ids [OF 2] pick_ids_subset [of "ob_claimable lease t" ob_created_at ob_id locked n "ob_rows s"]
  show ?case by auto
next
  case (3 locked n lease t s rs s' t')
  then show ?case by (rule claimBatch_leased)
next
  case (4 i t s lease t')
  show ?case
  proof
    fix j assume "j \<in> ob_due (markPublished i t s) lease t'"
    then obtain r' where r': "r' \<in> set (touch_rows ob_id {i} (ob_publish_row t) (ob_rows s))"
      "ob_claimable lease t' r'" "ob_id r' = j"
      by (auto simp: ob_due_def markPublished_def ob_update_def)
    then have "r' \<in> set (ob_rows s) \<and> ob_id r' \<notin> {i}"
      using touch_rows_untouched [of r' ob_id "{i}" "ob_publish_row t" "ob_rows s" "ob_claimable lease t'"]
      by (simp add: ob_publish_row_def ob_claimable_def)
    with r'(2,3) show "j \<in> ob_due s lease t' - {i}" by (auto simp: ob_due_def)
  qed
qed

end
