(* ===== verification/PgSettlementStore.thy ===== *)
theory PgSettlementStore
  imports SettlementStore Outbox
begin

text \<open>
  The durable settlement store: \<open>src/store/postgres.js\<close>. The state is the database (event
  log, projection table, outbox) and the process-local part of the class: its in-memory copy
  (the parent class's state) and the \<open>degraded\<close> latch. Each statement is a function on the
  database; whether it runs, fails, or runs while its reply is lost, is an argument, and so are
  \<open>NOW()\<close>, the process clock, and the snapshot a read replica shows.
\<close>

section \<open>The database\<close>

text \<open>
  \<open>settlement_events\<close> in id order, each row with its key; \<open>settlement_projections\<close> by
  primary key, each row with its \<open>version\<close> column.
\<close>

record sdb =
  ev_table :: "(string \<times> settlement_event) list"
  proj_table :: "(string, projection \<times> nat) jsmap"
  outbox_table :: outbox

record pg_store =
  pg_db :: sdb
  pg_mem :: mem_store
  pg_degraded :: bool
  pg_has_pool :: bool

definition key_events :: "sdb \<Rightarrow> string \<Rightarrow> settlement_event list" where
  "key_events db k = map snd (filter (\<lambda>(j, _). j = k) (ev_table db))"

text \<open>\<open>COALESCE(MAX(seq), 0) + 1\<close>.\<close>

definition next_seq :: "sdb \<Rightarrow> string \<Rightarrow> nat" where
  "next_seq db k = foldr max (map seq (key_events db k)) 0 + 1"

datatype db_outcome = Db_ok | Db_error | Db_reply_lost

text \<open>A statement that fails changes nothing; one whose reply is lost has run.\<close>

fun run_query :: "db_outcome \<Rightarrow> (sdb \<Rightarrow> 'a \<times> sdb) \<Rightarrow> sdb \<Rightarrow> 'a option \<times> sdb" where
  "run_query Db_ok q db = (let (a, db') = q db in (Some a, db'))"
| "run_query Db_error q db = (None, db)"
| "run_query Db_reply_lost q db = (None, snd (q db))"

section \<open>Statements\<close>

text \<open>The event insert and projection upsert of \<open>save\<close>.\<close>

definition sql_save :: "settle_record \<Rightarrow> int \<Rightarrow> sdb \<Rightarrow> (projection \<times> nat) \<times> sdb" where
  "sql_save r now db =
     (let k = r_idempotency_key r;
          s = next_seq db k;
          fresh = \<lparr>idempotency_key = Some k, network = nullish_or (r_network r) [],
                   scheme = nullish_or (r_scheme r) [], payer = r_payer r, pay_to = r_pay_to r,
                   asset = r_asset r, amount = r_amount r, state = St_submitted, tx_hash = r_tx_hash r,
                   error_reason = None, error_message = None, response = None, key_id = r_key_id r,
                   created_at = now, updated_at = now\<rparr>;
          row = (case jm_get (proj_table db) k of
                   None \<Rightarrow> (fresh, s)
                 | Some (old, _) \<Rightarrow> (fresh\<lparr>created_at := created_at old\<rparr>, s))
      in (row, db\<lparr>ev_table := ev_table db @ [(k, save_ev r s now)], proj_table := jm_set k row (proj_table db)\<rparr>))"

text \<open>
  The event insert and projection update of \<open>updateState\<close> and \<open>settleAndEnqueue\<close>: guarded by the
  projection row's existence, \<open>None\<close> when no row comes back.
\<close>

definition sql_update ::
  "string \<Rightarrow> event_type \<Rightarrow> sstate \<Rightarrow> settle_details \<Rightarrow> int \<Rightarrow> sdb \<Rightarrow> (projection \<times> nat) option \<times> sdb" where
  "sql_update k ty st d now db =
     (case jm_get (proj_table db) k of
        None \<Rightarrow> (None, db)
      | Some (old, _) \<Rightarrow>
          (let s = next_seq db k;
               row = (old\<lparr>state := st, tx_hash := nullish (d_tx_hash d) (tx_hash old),
                          error_reason := nullish (d_error_reason d) (error_reason old),
                          error_message := nullish (d_error_message d) (error_message old),
                          response := nullish (truthy_response (d_response d)) (response old),
                          updated_at := now\<rparr>, s)
           in (Some row, db\<lparr>ev_table := ev_table db @ [(k, update_ev ty k d s now)],
                            proj_table := jm_set k row (proj_table db)\<rparr>)))"

section \<open>PostgresSettlementStore\<close>

definition uses_db :: "pg_store \<Rightarrow> bool" where
  "uses_db st \<longleftrightarrow> \<not> pg_degraded st \<and> pg_has_pool st"

definition degrade :: "pg_store \<Rightarrow> pg_store" where
  "degrade st = st\<lparr>pg_degraded := True\<rparr>"

text \<open>A call of the parent class on the in-memory copy.\<close>

definition on_mem :: "(mem_store \<Rightarrow> store_error + ('a \<times> mem_store)) \<Rightarrow> pg_store \<Rightarrow> (store_error + 'a) \<times> pg_store" where
  "on_mem f st = (case f (pg_mem st) of Inl e \<Rightarrow> (Inl e, st) | Inr (a, m) \<Rightarrow> (Inr a, st\<lparr>pg_mem := m\<rparr>))"

text \<open>The record \<open>super.save(entry)\<close> gets: the row just written.\<close>

definition record_of_row :: "string \<Rightarrow> projection \<Rightarrow> settle_record" where
  "record_of_row k p = \<lparr>r_idempotency_key = k, r_network = Some (network p), r_scheme = Some (scheme p),
     r_payer = payer p, r_pay_to = pay_to p, r_asset = asset p, r_amount = amount p,
     r_tx_hash = tx_hash p, r_key_id = key_id p\<rparr>"

definition pg_save ::
  "db_outcome \<Rightarrow> int \<Rightarrow> settle_record \<Rightarrow> int \<Rightarrow> pg_store \<Rightarrow> (store_error + projection option) \<times> pg_store" where
  "pg_save out dbnow r now st =
     (if \<not> uses_db st then on_mem (mem_save r now) st
      else case run_query out (sql_save r dbnow) (pg_db st) of
          (Some (entry, _), db') \<Rightarrow>
            (let st' = st\<lparr>pg_db := db'\<rparr> in
             case on_mem (mem_save (record_of_row (r_idempotency_key r) entry) now) st' of
               (Inl _, _) \<Rightarrow> on_mem (mem_save r now) (degrade st')
             | (Inr _, st'') \<Rightarrow> (Inr (Some entry), st''))
        | (None, db') \<Rightarrow> on_mem (mem_save r now) (degrade (st\<lparr>pg_db := db'\<rparr>)))"

definition pg_updateState ::
  "db_outcome \<Rightarrow> int \<Rightarrow> string \<Rightarrow> sstate \<Rightarrow> settle_details \<Rightarrow> int \<Rightarrow> pg_store
     \<Rightarrow> (store_error + projection option) \<times> pg_store" where
  "pg_updateState out dbnow k stt d now st =
     (let fallback = (\<lambda>s. on_mem (mem_updateState k stt d now) s) in
      if \<not> uses_db st then fallback st
      else case eventTypeForState stt of
          Inl _ \<Rightarrow> fallback (degrade st)
        | Inr ty \<Rightarrow>
            (case run_query out (sql_update k ty stt d dbnow) (pg_db st) of
               (None, db') \<Rightarrow> fallback (degrade (st\<lparr>pg_db := db'\<rparr>))
             | (Some None, db') \<Rightarrow> (Inr None, st\<lparr>pg_db := db'\<rparr>)
             | (Some (Some (entry, _)), db') \<Rightarrow>
                 (let st' = st\<lparr>pg_db := db'\<rparr> in
                  case fallback st' of
                    (Inl _, _) \<Rightarrow> fallback (degrade st')
                  | (Inr _, st'') \<Rightarrow> (Inr (Some entry), st''))))"

section \<open>The settle-and-enqueue transaction\<close>

record notification =
  nt_type :: string
  nt_id :: "string option"
  nt_fields :: json_obj

text \<open>\<open>{ ...event, id }\<close> as the outbox row stores it.\<close>

definition notification_json :: "notification \<Rightarrow> string \<Rightarrow> json_obj" where
  "notification_json ev eid = jm_set ''id'' (JStr eid) (jm_set ''type'' (JStr (nt_type ev)) (nt_fields ev))"

text \<open>
  How the transaction goes: all of it, a failure to connect or of one of its statements (rolled
  back), a refused \<open>COMMIT\<close>, or a \<open>COMMIT\<close> that took effect while its reply was lost.
\<close>

datatype tx_outcome = Tx_ok | Tx_no_connection | Tx_update_fails | Tx_insert_fails | Tx_commit_fails | Tx_commit_reply_lost

definition sql_settle_tx ::
  "string \<Rightarrow> settle_details \<Rightarrow> notification option \<Rightarrow> string option \<Rightarrow> string \<Rightarrow> int \<Rightarrow> sdb
     \<Rightarrow> ((projection \<times> nat) option \<times> notification option) \<times> sdb" where
  "sql_settle_tx k d ev eventId uuid now db =
     (let (row, db1) = sql_update k Settled St_settled d now db;
          resolved = (case ev of None \<Rightarrow> None
                      | Some e \<Rightarrow> Some (e\<lparr>nt_id := Some (nullish_or (nullish eventId (nt_id e)) uuid)\<rparr>));
          db2 = (case (row, resolved) of
                   (Some _, Some e) \<Rightarrow>
                      (let eid = nullish_or (nt_id e) uuid in
                       db1\<lparr>outbox_table := insertEvent eid (nt_type e) (notification_json e eid) now (outbox_table db1)\<rparr>)
                 | _ \<Rightarrow> db1)
      in ((row, resolved), db2))"

text \<open>What comes back: (atomicallyEnqueued, record, event).\<close>

definition pg_settleAndEnqueue ::
  "tx_outcome \<Rightarrow> int \<Rightarrow> string \<Rightarrow> settle_details \<Rightarrow> notification option \<Rightarrow> string option \<Rightarrow> string \<Rightarrow> int \<Rightarrow> pg_store
     \<Rightarrow> (store_error + bool \<times> projection option \<times> notification option) \<times> pg_store" where
  "pg_settleAndEnqueue out dbnow k d ev eventId uuid now st =
     (let local = (\<lambda>s. case on_mem (mem_updateState k St_settled d now) s of
                        (Inl e, s') \<Rightarrow> (Inl e, s') | (Inr record, s') \<Rightarrow> (Inr (False, record, ev), s'));
          committed = sql_settle_tx k d ev eventId uuid dbnow (pg_db st)
      in if \<not> uses_db st then local st
         else case out of
           Tx_ok \<Rightarrow>
             (case committed of
                ((row, resolved), db') \<Rightarrow>
                  (let st' = st\<lparr>pg_db := db'\<rparr> in
                   case row of
                     None \<Rightarrow> (Inr (True, None, resolved), st')
                   | Some (entry, _) \<Rightarrow>
                       (case on_mem (mem_updateState k St_settled d now) st' of
                          (Inl _, _) \<Rightarrow> local (degrade st')
                        | (Inr _, st'') \<Rightarrow> (Inr (True, Some entry, resolved), st''))))
         | Tx_commit_reply_lost \<Rightarrow> local (degrade (st\<lparr>pg_db := snd committed\<rparr>))
         | _ \<Rightarrow> local (degrade st))"

section \<open>Reads\<close>

definition proj_get :: "sdb \<Rightarrow> string \<Rightarrow> projection option" where
  "proj_get db k = map_option fst (jm_get (proj_table db) k)"

text \<open>
  \<open>get\<close>: the read pool is the replica when one is wired up. \<open>read_ok\<close> is whether the query
  answers; a failure degrades the store.
\<close>

definition pg_get :: "bool \<Rightarrow> sdb option \<Rightarrow> string \<Rightarrow> pg_store \<Rightarrow> projection option \<times> pg_store" where
  "pg_get read_ok replica k st =
     (if \<not> uses_db st then (mem_get (pg_mem st) k, st)
      else if read_ok then (proj_get (nullish_or replica (pg_db st)) k, st)
      else (mem_get (pg_mem st) k, degrade st))"

text \<open>
  \<open>_queryGetWithLag\<close>: the reads of the replica the loop makes, in order, each \<open>None\<close> when the
  query fails and otherwise the row it sees, with the milliseconds elapsed after it. The primary
  is asked once the replica fails or the lag budget is used up. \<open>None\<close> means that the loop has
  not come to an end within the given reads.
\<close>

fun lag_loop :: "int \<Rightarrow> (projection option option \<times> int) list \<Rightarrow> projection option \<Rightarrow> projection option option" where
  "lag_loop lagMs [] primary = None"
| "lag_loop lagMs ((None, _) # _) primary = Some primary"
| "lag_loop lagMs ((Some (Some row), _) # _) primary = Some (Some row)"
| "lag_loop lagMs ((Some None, elapsed) # rs) primary =
     (if elapsed \<ge> lagMs then Some primary else lag_loop lagMs rs primary)"

definition pg_queryGetWithLag ::
  "int \<Rightarrow> (projection option option \<times> int) list option \<Rightarrow> string \<Rightarrow> sdb \<Rightarrow> projection option option" where
  "pg_queryGetWithLag lagMs replica_reads k primary =
     (case replica_reads of
        None \<Rightarrow> Some (proj_get primary k)
      | Some rs \<Rightarrow> lag_loop lagMs rs (proj_get primary k))"

text \<open>\<open>getConsistent\<close>: this process's own copy first, then the replica, then the primary.\<close>

definition pg_getConsistent ::
  "bool \<Rightarrow> int \<Rightarrow> (projection option option \<times> int) list option \<Rightarrow> string \<Rightarrow> pg_store \<Rightarrow> projection option option \<times> pg_store" where
  "pg_getConsistent primary_ok lagMs replica_reads k st =
     (case mem_get (pg_mem st) k of
        Some p \<Rightarrow> (Some (Some p), st)
      | None \<Rightarrow>
          if \<not> uses_db st then (Some (mem_get (pg_mem st) k), st)
          else if primary_ok then (pg_queryGetWithLag lagMs replica_reads k (pg_db st), st)
          else (Some (mem_get (pg_mem st) k), degrade st))"

definition pg_listUnknown :: "bool \<Rightarrow> sdb option \<Rightarrow> pg_store \<Rightarrow> projection list \<times> pg_store" where
  "pg_listUnknown read_ok replica st =
     (if \<not> uses_db st then (mem_listUnknown (pg_mem st), st)
      else if read_ok then
        (filter (\<lambda>p. state p = St_unknown) (map fst (jm_values (proj_table (nullish_or replica (pg_db st))))), st)
      else (mem_listUnknown (pg_mem st), degrade st))"

definition pg_getEventLog :: "bool \<Rightarrow> string \<Rightarrow> pg_store \<Rightarrow> settlement_event list \<times> pg_store" where
  "pg_getEventLog read_ok k st =
     (if \<not> uses_db st then (mem_getEventLog (pg_mem st) k, st)
      else if read_ok then (js_sort_by seq (key_events (pg_db st) k), st)
      else (mem_getEventLog (pg_mem st) k, degrade st))"

definition pg_exportAuditLog ::
  "bool \<Rightarrow> int option \<Rightarrow> int option \<Rightarrow> nat option \<Rightarrow> pg_store \<Rightarrow> settlement_event list \<times> pg_store" where
  "pg_exportAuditLog read_ok since until limit st =
     (if \<not> uses_db st then (mem_exportAuditLog since until limit (pg_mem st), st)
      else if read_ok then
        (take (nullish_or limit 10000)
           (js_sort_by recorded_at
              (filter (\<lambda>e. (case since of None \<Rightarrow> True | Some s \<Rightarrow> s \<le> recorded_at e)
                         \<and> (case until of None \<Rightarrow> True | Some u \<Rightarrow> recorded_at e \<le> u))
                 (map snd (ev_table (pg_db st))))), st)
      else (mem_exportAuditLog since until limit (pg_mem st), degrade st))"

text \<open>
  \<open>rebuildProjection\<close>: replays one log through the fold and overwrites the row. The inner
  \<open>getEventLog\<close> handles its own failure; \<open>out\<close> is the outcome of the upsert.
\<close>

definition sql_rebuild :: "string \<Rightarrow> projection \<Rightarrow> nat \<Rightarrow> sdb \<Rightarrow> projection \<times> sdb" where
  "sql_rebuild k p n db =
     (let row = (p\<lparr>response := truthy_response (response p)\<rparr>, n)
      in (fst row, db\<lparr>proj_table := jm_set k row (proj_table db)\<rparr>))"

definition pg_rebuildProjection ::
  "bool \<Rightarrow> db_outcome \<Rightarrow> string \<Rightarrow> pg_store \<Rightarrow> projection option \<times> pg_store" where
  "pg_rebuildProjection log_ok out k st =
     (if \<not> uses_db st then (mem_rebuildProjection (pg_mem st) k, st)
      else
        (let (events, st1) = pg_getEventLog log_ok k st in
         case projectSettlement events of
           None \<Rightarrow> (None, st1)
         | Some p \<Rightarrow>
             (case run_query out (sql_rebuild k p (length events)) (pg_db st1) of
                (Some row, db') \<Rightarrow> (Some row, st1\<lparr>pg_db := db'\<rparr>)
              | (None, db') \<Rightarrow> (mem_rebuildProjection (pg_mem st1) k, degrade (st1\<lparr>pg_db := db'\<rparr>)))))"

section \<open>The read model agrees with the log\<close>

text \<open>
  The database invariant: the projection row of a key is the fold of its log, with the log's
  length as version; a key has a row exactly when it has events; sequence numbers are 1, 2, ...
\<close>

fun numbered :: "nat \<Rightarrow> settlement_event list \<Rightarrow> bool" where
  "numbered n [] = True"
| "numbered n (e # es) = (seq e = n \<and> numbered (Suc n) es)"

lemma numbered_append [simp]: "numbered n (es @ fs) = (numbered n es \<and> numbered (n + length es) fs)"
  by (induction es arbitrary: n) auto

lemma numbered_seqs: "numbered n es \<Longrightarrow> map seq es = [n..<n + length es]"
  by (induction es arbitrary: n) (simp_all add: upt_conv_Cons del: upt_Suc)

lemma foldr_max_start: "foldr max xs (m :: nat) = max (foldr max xs 0) m"
  by (induction xs) auto

lemma numbered_max: "numbered 1 es \<Longrightarrow> foldr max (map seq es) 0 = length es"
proof (induction es rule: rev_induct)
  case Nil
  show ?case by simp
next
  case (snoc e es)
  then have "seq e = Suc (length es)" "foldr max (map seq es) 0 = length es" by simp_all
  then show ?case
    using foldr_max_start [of "map seq es" "seq e"] by simp
qed

definition db_key_ok :: "sdb \<Rightarrow> string \<Rightarrow> bool" where
  "db_key_ok db k \<longleftrightarrow> numbered 1 (key_events db k)
     \<and> (\<forall>e \<in> set (key_events db k). p_idempotency_key (payload e) = Some k
          \<and> truthy_response (p_response (payload e)) = p_response (payload e))
     \<and> (key_events db k = [] \<or> projectSettlement (key_events db k) \<noteq> None)
     \<and> jm_get (proj_table db) k
         = map_option (\<lambda>p. (p, length (key_events db k))) (projectSettlement (key_events db k))"

definition db_ok :: "sdb \<Rightarrow> bool" where
  "db_ok db \<longleftrightarrow> jm_wf (proj_table db) \<and> (\<forall>k. db_key_ok db k)"

definition empty_db :: sdb where
  "empty_db = \<lparr>ev_table = [], proj_table = [], outbox_table = empty_outbox\<rparr>"

lemma db_ok_empty: "db_ok empty_db"
  by (simp add: db_ok_def db_key_ok_def empty_db_def key_events_def)

lemma next_seq_ok: "db_key_ok db k \<Longrightarrow> next_seq db k = Suc (length (key_events db k))"
  by (simp add: next_seq_def db_key_ok_def numbered_max)

lemma key_events_append [simp]:
  "key_events (db\<lparr>ev_table := ev_table db @ [(k, e)], proj_table := pt\<rparr>) j
     = key_events db j @ (if j = k then [e] else [])"
  by (simp add: key_events_def)

lemma db_ok_append:
  assumes "db_ok db" "seq e = next_seq db k" "p_idempotency_key (payload e) = Some k \<and> truthy_response (p_response (payload e)) = p_response (payload e)"
    "projectSettlement (key_events db k @ [e]) = Some p" "v = next_seq db k"
  shows "db_ok (db\<lparr>ev_table := ev_table db @ [(k, e)], proj_table := jm_set k (p, v) (proj_table db)\<rparr>)"
proof -
  have key: "db_key_ok db j" for j using assms(1) by (simp add: db_ok_def)
  have "v = Suc (length (key_events db k))" "seq e = Suc (length (key_events db k))"
    using assms(2,5) next_seq_ok [OF key] by simp_all
  then have "db_key_ok (db\<lparr>ev_table := ev_table db @ [(k, e)], proj_table := jm_set k (p, v) (proj_table db)\<rparr>) j" for j
    using key [of j] assms(3,4) by (cases "j = k") (simp_all add: db_key_ok_def jm_get_set)
  with assms(1) show ?thesis by (simp add: db_ok_def)
qed

lemma db_ok_row: "db_ok db \<Longrightarrow> jm_get (proj_table db) k = Some (p, v) \<Longrightarrow>
    projectSettlement (key_events db k) = Some p \<and> v = length (key_events db k)"
  by (auto simp: db_ok_def db_key_ok_def dest!: spec [of _ k])

lemma db_ok_no_row: "db_ok db \<Longrightarrow> jm_get (proj_table db) k = None \<Longrightarrow> key_events db k = []"
  by (auto simp: db_ok_def db_key_ok_def dest!: spec [of _ k])

text \<open>The read model is the fold of the log.\<close>

lemma proj_get_fold: "db_ok db \<Longrightarrow> proj_get db k = projectSettlement (key_events db k)"
  by (cases "jm_get (proj_table db) k") (auto simp: proj_get_def dest: db_ok_row db_ok_no_row)

lemma proj_get_key: "db_ok db \<Longrightarrow> proj_get db k = Some p \<Longrightarrow> idempotency_key p = Some k"
  using projectSettlement_key [of "key_events db k" "Some k" p] by (simp add: proj_get_fold db_ok_def db_key_ok_def)

text \<open>The row \<open>save\<close> writes is the fold step of the event it appends.\<close>

lemma sql_save_row:
  assumes "db_ok db" "sql_save r now db = ((p, v), db')"
  shows "applyEvent (projectSettlement (key_events db (r_idempotency_key r))) (save_ev r n now) = Some p"
proof (cases "jm_get (proj_table db) (r_idempotency_key r)")
  case None
  with assms db_ok_no_row [OF assms(1) None] show ?thesis
    by (auto simp: sql_save_def Let_def applyEvent_def save_ev_def save_payload_def empty_payload_def)
next
  case (Some row)
  obtain q w where row: "row = (q, w)" by force
  with db_ok_row [OF assms(1)] Some have "projectSettlement (key_events db (r_idempotency_key r)) = Some q"
    by blast
  with assms(2) Some row show ?thesis
    by (auto simp: sql_save_def Let_def applyEvent_def save_ev_def save_payload_def empty_payload_def)
qed

lemma sql_save_ok:
  assumes "db_ok db"
  shows "db_ok (snd (sql_save r now db))"
proof -
  obtain p v db' where s: "sql_save r now db = ((p, v), db')" by (metis surj_pair)
  let ?k = "r_idempotency_key r"
  have "db' = db\<lparr>ev_table := ev_table db @ [(?k, save_ev r (next_seq db ?k) now)], proj_table := jm_set ?k (p, v) (proj_table db)\<rparr>"
    and "v = next_seq db ?k"
    using s by (auto simp: sql_save_def Let_def split: option.splits prod.splits)
  moreover have "projectSettlement (key_events db ?k @ [save_ev r (next_seq db ?k) now]) = Some p"
    using sql_save_row [OF assms s] by simp
  ultimately have "db_ok db'"
    using db_ok_append [OF assms] by (simp add: save_ev_def save_payload_def empty_payload_def truthy_response_def)
  with s show ?thesis by simp
qed

lemma sql_update_row:
  assumes "db_ok db" "eventTypeForState st = Inr ty" "response_truthy d"
    "sql_update k ty st d now db = (Some (p, v), db')"
  shows "applyEvent (projectSettlement (key_events db k)) (update_ev ty k d n now) = Some p"
proof -
  obtain q w where q: "jm_get (proj_table db) k = Some (q, w)"
    using assms(4) by (auto simp: sql_update_def split: option.splits)
  with db_ok_row [OF assms(1)] have "projectSettlement (key_events db k) = Some q" by blast
  with assms q show ?thesis
    by (auto simp: sql_update_def Let_def applyEvent_update [OF assms(2)] response_truthy_def)
qed

lemma sql_update_ok:
  assumes "db_ok db" "eventTypeForState st = Inr ty" "response_truthy d"
  shows "db_ok (snd (sql_update k ty st d now db))"
proof (cases "jm_get (proj_table db) k")
  case None
  with assms show ?thesis by (simp add: sql_update_def)
next
  case (Some row)
  then obtain p v db' where s: "sql_update k ty st d now db = (Some (p, v), db')"
    by (cases row) (auto simp: sql_update_def Let_def)
  then have "db' = db\<lparr>ev_table := ev_table db @ [(k, update_ev ty k d (next_seq db k) now)], proj_table := jm_set k (p, v) (proj_table db)\<rparr>"
    and "v = next_seq db k"
    using Some by (auto simp: sql_update_def Let_def split: prod.splits)
  moreover have "projectSettlement (key_events db k @ [update_ev ty k d (next_seq db k) now]) = Some p"
    using sql_update_row [OF assms s] by simp
  ultimately have "db_ok db'"
    using db_ok_append [OF assms(1)] assms(3) by (simp add: update_ev_def update_payload_def response_truthy_def)
  with s show ?thesis by simp
qed

lemma key_events_outbox [simp]: "key_events (db\<lparr>outbox_table := ob\<rparr>) k = key_events db k"
  by (simp add: key_events_def)

lemma db_ok_outbox [simp]: "db_ok (db\<lparr>outbox_table := ob\<rparr>) = db_ok db"
  by (simp add: db_ok_def db_key_ok_def)

lemma sql_settle_tx_ok:
  assumes "db_ok db" "response_truthy d"
  shows "db_ok (snd (sql_settle_tx k d ev eid uuid now db))"
proof -
  obtain row db1 where u: "sql_update k Settled St_settled d now db = (row, db1)" by force
  have "db_ok db1"
    using sql_update_ok [OF assms(1) _ assms(2), of St_settled Settled k now] u
    by (simp add: eventTypeForState_def)
  with u show ?thesis by (simp add: sql_settle_tx_def Let_def split: option.splits prod.splits)
qed

lemma run_query_ok: "db_ok db \<Longrightarrow> db_ok (snd (q db)) \<Longrightarrow> db_ok (snd (run_query out q db))"
  by (cases out) (auto split: prod.splits)

lemma on_mem_db [simp]: "pg_db (snd (on_mem f st)) = pg_db st"
  by (auto simp: on_mem_def split: sum.splits)

lemma degrade_simps [simp]: "pg_db (degrade st) = pg_db st" "pg_mem (degrade st) = pg_mem st"
  by (simp_all add: degrade_def)

lemma on_mem_cases:
  obtains e where "f (pg_mem st) = Inl e" "on_mem f st = (Inl e, st)"
  | a m where "f (pg_mem st) = Inr (a, m)" "on_mem f st = (Inr a, st\<lparr>pg_mem := m\<rparr>)"
  by (cases "f (pg_mem st)") (auto simp: on_mem_def)

lemma pg_save_db:
  "pg_db (snd (pg_save out dbnow r now st))
     = (if uses_db st then snd (run_query out (sql_save r dbnow) (pg_db st)) else pg_db st)"
  by (auto simp: pg_save_def Let_def on_mem_def split: option.splits prod.splits sum.splits)

lemma pg_updateState_db:
  "pg_db (snd (pg_updateState out dbnow k stt d now st))
     = (if uses_db st then
          (case eventTypeForState stt of
             Inl _ \<Rightarrow> pg_db st
           | Inr ty \<Rightarrow> snd (run_query out (sql_update k ty stt d dbnow) (pg_db st)))
        else pg_db st)"
  by (auto simp: pg_updateState_def Let_def on_mem_def split: option.splits prod.splits sum.splits)

text \<open>Whether the transaction of \<open>settleAndEnqueue\<close> took effect.\<close>

definition tx_applied :: "tx_outcome \<Rightarrow> bool" where
  "tx_applied out \<longleftrightarrow> out = Tx_ok \<or> out = Tx_commit_reply_lost"

lemma pg_settleAndEnqueue_db:
  "pg_db (snd (pg_settleAndEnqueue out dbnow k d ev eid uuid now st))
     = (if uses_db st \<and> tx_applied out then snd (sql_settle_tx k d ev eid uuid dbnow (pg_db st)) else pg_db st)"
  by (cases out) (auto simp: pg_settleAndEnqueue_def tx_applied_def Let_def on_mem_def split: option.splits prod.splits sum.splits)

lemma pg_save_db_ok:
  assumes "db_ok (pg_db st)"
  shows "db_ok (pg_db (snd (pg_save out dbnow r now st)))"
  using assms run_query_ok [of "pg_db st" "sql_save r dbnow" out] sql_save_ok [OF assms]
  by (simp add: pg_save_db)

lemma pg_updateState_db_ok:
  assumes "db_ok (pg_db st)" "response_truthy d"
  shows "db_ok (pg_db (snd (pg_updateState out dbnow k stt d now st)))"
proof (cases "eventTypeForState stt")
  case (Inl e)
  with assms show ?thesis by (simp add: pg_updateState_db)
next
  case (Inr ty)
  with assms sql_update_ok [OF assms(1) Inr assms(2)] show ?thesis
    by (simp add: pg_updateState_db run_query_ok)
qed

lemma pg_settleAndEnqueue_db_ok:
  assumes "db_ok (pg_db st)" "response_truthy d"
  shows "db_ok (pg_db (snd (pg_settleAndEnqueue out dbnow k d ev eid uuid now st)))"
  using assms by (simp add: pg_settleAndEnqueue_db sql_settle_tx_ok)

text \<open>The responses a consistent log holds are the ones the fold keeps.\<close>

lemma fold_response_truthy:
  assumes "\<forall>e \<in> set es. truthy_response (p_response (payload e)) = p_response (payload e)" "projectSettlement es = Some p"
  shows "truthy_response (response p) = response p"
  using assms
proof (induction es arbitrary: p rule: rev_induct)
  case (snoc e es)
  show ?case
  proof (cases "recognised e")
    case False
    with snoc show ?thesis by (simp add: applyEvent_unrecognised)
  next
    case True
    have none: "truthy_response None = None" by (simp add: truthy_response_def)
    have base: "truthy_response (response q) = response q" if "projectSettlement es = Some q" for q
      using snoc that by simp
    have e: "truthy_response (p_response (payload e)) = p_response (payload e)" using snoc.prems by simp
    from True show ?thesis
    proof (cases rule: recognised_cases)
      case 1
      with snoc.prems none show ?thesis by (auto simp: applyEvent_def Let_def)
    qed (use snoc.prems none base e in \<open>cases "projectSettlement es"; cases "p_response (payload e)";
        auto simp: applyEvent_def seed_projection_def Let_def\<close>)+
  qed
qed simp

text \<open>Rebuilding a row of a consistent database writes what is already there.\<close>

lemma sorted_numbered: "numbered n es \<Longrightarrow> js_sort_by seq es = es"
proof -
  assume n: "numbered n es"
  have "sorted (map seq es) \<and> (\<forall>x \<in> set es. n \<le> seq x)"
    using n by (induction es arbitrary: n) (fastforce simp: le_Suc_eq)+
  then show ?thesis by (simp add: js_sort_by_def sorted_sort_id sort_key_id_if_sorted)
qed

lemma log_sorted: "db_ok db \<Longrightarrow> js_sort_by seq (key_events db k) = key_events db k"
  by (rule sorted_numbered [of 1]) (simp add: db_ok_def db_key_ok_def)

lemma log_projection:
  assumes "db_ok db" "projectSettlement (key_events db k) = Some p"
  shows "js_sort_by seq (key_events db k) = key_events db k" "truthy_response (response p) = response p"
    "jm_get (proj_table db) k = Some (p, length (key_events db k))"
proof -
  have k: "db_key_ok db k" using assms(1) by (simp add: db_ok_def)
  show "js_sort_by seq (key_events db k) = key_events db k" by (rule log_sorted [OF assms(1)])
  show "truthy_response (response p) = response p"
    using k assms(2) by (intro fold_response_truthy [of "key_events db k"]) (simp_all add: db_key_ok_def)
  show "jm_get (proj_table db) k = Some (p, length (key_events db k))"
    using k assms(2) by (simp add: db_key_ok_def)
qed

lemma jm_set_same: "jm_get m k = Some v \<Longrightarrow> jm_set k v m = m"
  by (induction m) (auto split: if_splits)

lemma rebuild_noop:
  assumes "db_ok (pg_db st)" "uses_db st"
  shows "pg_rebuildProjection True Db_ok k st = (proj_get (pg_db st) k, st)"
proof (cases "projectSettlement (key_events (pg_db st) k)")
  case None
  with assms log_sorted [OF assms(1), of k] show ?thesis
    by (simp add: pg_rebuildProjection_def pg_getEventLog_def proj_get_fold)
next
  case (Some p)
  note l = log_projection [OF assms(1) Some]
  from l assms Some show ?thesis
    by (simp add: pg_rebuildProjection_def pg_getEventLog_def sql_rebuild_def Let_def jm_set_same proj_get_fold)
qed

lemma pg_rebuild_db:
  assumes "db_ok (pg_db st)"
  shows "db_ok (pg_db (snd (pg_rebuildProjection True out k st)))"
proof (cases "uses_db st \<and> projectSettlement (key_events (pg_db st) k) \<noteq> None")
  case True
  then obtain p where p: "projectSettlement (key_events (pg_db st) k) = Some p" "uses_db st" by blast
  note l = log_projection [OF assms p(1)]
  from l assms p show ?thesis
    by (cases out) (simp_all add: pg_rebuildProjection_def pg_getEventLog_def sql_rebuild_def Let_def jm_set_same)
next
  case False
  with assms log_sorted [OF assms, of k] show ?thesis by (auto simp: pg_rebuildProjection_def pg_getEventLog_def)
qed

text \<open>
  When the log cannot be read, the replay is of this process's own copy of it, and that is what
  the row is overwritten with.
\<close>

lemma pg_rebuild_from_copy:
  assumes "uses_db st" "projectSettlement (mem_stream (pg_mem st) k) = Some p"
  shows "proj_get (pg_db (snd (pg_rebuildProjection False Db_ok k st))) k = Some (p\<lparr>response := truthy_response (response p)\<rparr>)"
  using assms
  by (simp add: pg_rebuildProjection_def pg_getEventLog_def sql_rebuild_def proj_get_def mem_getEventLog_def degrade_def Let_def jm_get_set)

section \<open>Any run of the store keeps the read model true to the log\<close>

datatype pg_op =
    Pg_save db_outcome int settle_record int
  | Pg_update db_outcome int string sstate settle_details int
  | Pg_settle tx_outcome int string settle_details "notification option" "string option" string int
  | Pg_rebuild bool db_outcome string

fun pg_apply :: "pg_op \<Rightarrow> pg_store \<Rightarrow> pg_store" where
  "pg_apply (Pg_save out dbnow r now) st = snd (pg_save out dbnow r now st)"
| "pg_apply (Pg_update out dbnow k s d now) st = snd (pg_updateState out dbnow k s d now st)"
| "pg_apply (Pg_settle out dbnow k d ev eid uuid now) st = snd (pg_settleAndEnqueue out dbnow k d ev eid uuid now st)"
| "pg_apply (Pg_rebuild log_ok out k) st = snd (pg_rebuildProjection log_ok out k st)"

text \<open>The responses stored are objects, and a rebuild reads the log it replays.\<close>

fun op_sound :: "pg_op \<Rightarrow> bool" where
  "op_sound (Pg_save _ _ _ _) = True"
| "op_sound (Pg_update _ _ _ _ d _) = response_truthy d"
| "op_sound (Pg_settle _ _ _ d _ _ _ _) = response_truthy d"
| "op_sound (Pg_rebuild log_ok _ _) = log_ok"

lemma pg_apply_db_ok: "db_ok (pg_db st) \<Longrightarrow> op_sound x \<Longrightarrow> db_ok (pg_db (pg_apply x st))"
  by (cases x) (simp_all add: pg_save_db_ok pg_updateState_db_ok pg_settleAndEnqueue_db_ok pg_rebuild_db)

lemma pg_run_db_ok: "db_ok (pg_db st) \<Longrightarrow> \<forall>x \<in> set xs. op_sound x \<Longrightarrow> db_ok (pg_db (fold pg_apply xs st))"
  by (induction xs arbitrary: st) (simp_all add: pg_apply_db_ok)

section \<open>The replica read ends\<close>

text \<open>
  Every pause is at least 25 ms, so the n-th read happens no earlier than 25 * n ms after the
  start: the loop is over after lagMs / 25 + 1 reads.
\<close>

definition paced :: "(projection option option \<times> int) list \<Rightarrow> bool" where
  "paced rs \<longleftrightarrow> (\<forall>i < length rs. 25 * int i \<le> snd (rs ! i))"

lemma lag_loop_ends:
  assumes "\<exists>i < length rs. lagMs \<le> snd (rs ! i)"
  shows "\<exists>r. lag_loop lagMs rs primary = Some r"
  using assms
proof (induction lagMs rs primary rule: lag_loop.induct)
  case (4 lagMs elapsed rs primary)
  show ?case
  proof (cases "elapsed \<ge> lagMs")
    case True
    then show ?thesis by simp
  next
    case False
    from "4.prems" obtain i where i: "i < length ((Some None, elapsed) # rs)" "lagMs \<le> snd (((Some None, elapsed) # rs) ! i)"
      by auto
    with False obtain j where "i = Suc j" by (cases i) auto
    with i have "\<exists>i < length rs. lagMs \<le> snd (rs ! i)" by auto
    with 4 False show ?thesis by simp
  qed
qed auto

lemma lag_loop_paced_ends:
  assumes "paced rs" "nat (lagMs div 25 + 1) < length rs"
  shows "\<exists>r. lag_loop lagMs rs primary = Some r"
proof (rule lag_loop_ends, intro exI conjI)
  show "nat (lagMs div 25 + 1) < length rs" by (rule assms(2))
  have "25 * int (nat (lagMs div 25 + 1)) \<le> snd (rs ! nat (lagMs div 25 + 1))"
    using assms unfolding paced_def by blast
  moreover have "lagMs \<le> 25 * (lagMs div 25 + 1)" by presburger
  moreover have "lagMs div 25 + 1 \<le> int (nat (lagMs div 25 + 1))" by simp
  ultimately show "lagMs \<le> snd (rs ! nat (lagMs div 25 + 1))" by linarith
qed

lemma lag_loop_result:
  "lag_loop lagMs rs primary = Some r \<Longrightarrow> r = primary \<or> (\<exists>row t. (Some (Some row), t) \<in> set rs \<and> r = Some row)"
  by (induction lagMs rs primary rule: lag_loop.induct) (auto split: if_splits)

section \<open>The healthy store keeps the contract\<close>

definition pgh_get :: "pg_store \<Rightarrow> string \<Rightarrow> projection option" where
  "pgh_get st k = fst (pg_get True None k st)"

definition pgh_save :: "settle_record \<Rightarrow> int \<Rightarrow> pg_store \<Rightarrow> store_error + (projection option \<times> pg_store)" where
  "pgh_save r t st = (case pg_save Db_ok t r t st of (Inl e, _) \<Rightarrow> Inl e | (Inr p, st') \<Rightarrow> Inr (p, st'))"

definition pgh_updateState ::
  "string \<Rightarrow> sstate \<Rightarrow> settle_details \<Rightarrow> int \<Rightarrow> pg_store \<Rightarrow> store_error + (projection option \<times> pg_store)" where
  "pgh_updateState k stt d t st =
     (case pg_updateState Db_ok t k stt d t st of (Inl e, _) \<Rightarrow> Inl e | (Inr p, st') \<Rightarrow> Inr (p, st'))"

definition pgh_ok :: "pg_store \<Rightarrow> bool" where
  "pgh_ok st \<longleftrightarrow> uses_db st \<and> db_ok (pg_db st)"

lemma mem_save_Inr: "\<exists>res m'. mem_save r t m = Inr (res, m')"
  by (simp add: mem_save_eq Let_def)

lemma mem_update_Inr: "eventTypeForState stt = Inr ty \<Longrightarrow> \<exists>res m'. mem_updateState k stt d t m = Inr (res, m')"
  by (cases "jm_get m k") (simp_all add: mem_updateState_def mem_append_Inr [OF update_event] Let_def)

lemma pgh_save_eq:
  assumes "uses_db st"
  shows "\<exists>m. pgh_save r t st =
     Inr (Some (fst (fst (sql_save r t (pg_db st)))), st\<lparr>pg_db := snd (sql_save r t (pg_db st)), pg_mem := m\<rparr>)"
proof -
  obtain p v db' where s: "sql_save r t (pg_db st) = ((p, v), db')" by (metis surj_pair)
  obtain res m where "mem_save (record_of_row (r_idempotency_key r) p) t (pg_mem st) = Inr (res, m)"
    using mem_save_Inr by blast
  with assms s show ?thesis by (auto simp: pgh_save_def pg_save_def on_mem_def)
qed

lemma pgh_update_eq:
  assumes "uses_db st" "eventTypeForState stt = Inr ty"
  shows "\<exists>m. pgh_updateState k stt d t st =
     Inr (map_option fst (fst (sql_update k ty stt d t (pg_db st))), st\<lparr>pg_db := snd (sql_update k ty stt d t (pg_db st)), pg_mem := m\<rparr>)"
proof -
  obtain row db' where s: "sql_update k ty stt d t (pg_db st) = (row, db')" by force
  obtain res m where "mem_updateState k stt d t (pg_mem st) = Inr (res, m)"
    using mem_update_Inr [OF assms(2)] by blast
  with assms s show ?thesis
    by (cases row) (auto simp: pgh_updateState_def pg_updateState_def on_mem_def Let_def intro: exI [of _ "pg_mem st"])
qed

text \<open>How the two writes move the database's rows.\<close>

lemma sql_save_get:
  "proj_get (snd (sql_save r t db)) j
     = (if j = r_idempotency_key r then Some (fst (fst (sql_save r t db))) else proj_get db j)"
  by (simp add: sql_save_def proj_get_def Let_def jm_get_set)

lemma sql_update_get:
  "proj_get (snd (sql_update k ty st d t db)) j
     = (if j = k then map_option fst (fst (sql_update k ty st d t db)) else proj_get db j)"
  by (auto simp: sql_update_def proj_get_def Let_def jm_get_set split: option.splits)

lemma sql_update_none: "proj_get db k = None \<Longrightarrow> sql_update k ty st d t db = (None, db)"
  by (simp add: sql_update_def proj_get_def)

lemma sql_update_some:
  assumes "proj_get db k = Some p"
  shows "\<exists>q v. fst (sql_update k ty st d t db) = Some (q, v) \<and> state q = st \<and> key_id q = key_id p
    \<and> idempotency_key q = idempotency_key p \<and> network q = network p
    \<and> created_at q = created_at p \<and> tx_hash q = nullish (d_tx_hash d) (tx_hash p)
    \<and> error_reason q = nullish (d_error_reason d) (error_reason p)
    \<and> response q = nullish (truthy_response (d_response d)) (response p)"
  using assms by (auto simp: sql_update_def proj_get_def Let_def)

lemma pgh_get_eq: "uses_db st \<Longrightarrow> pgh_get st k = proj_get (pg_db st) k"
  by (simp add: pgh_get_def pg_get_def)

lemma uses_db_upd [simp]: "uses_db (st\<lparr>pg_db := d, pg_mem := m\<rparr>) = uses_db st"
  by (simp add: uses_db_def)

interpretation pg: settlement_store pgh_get pgh_save pgh_updateState pgh_ok
proof (unfold_locales, goal_cases)
  case (1 s r t)
  then show ?case using pgh_save_eq [of s r t] by (auto simp: pgh_ok_def)
next
  case (2 s r t res s')
  then show ?case using pgh_save_eq [of s r t] by (auto simp: pgh_ok_def pgh_get_eq sql_save_get)
next
  case (3 s r t p s')
  then show ?case
    using pgh_save_eq [of s r t] by (auto simp: pgh_ok_def sql_save_def Let_def split: option.splits)
next
  case (4 s r t res s' k)
  then show ?case using pgh_save_eq [of s r t] by (auto simp: pgh_ok_def pgh_get_eq sql_save_get)
next
  case (5 s r t res s')
  then show ?case using pgh_save_eq [of s r t] sql_save_ok [of "pg_db s" r t] by (auto simp: pgh_ok_def)
next
  case (6 s st ty k d t)
  then show ?case using pgh_update_eq [OF _ 6(2), of s k d t] by (auto simp: pgh_ok_def)
next
  case (7 s st ty k d t res s')
  then show ?case
    by (auto simp: pgh_ok_def pgh_get_eq pgh_updateState_def pg_updateState_def Let_def sql_update_none
        split: sum.splits prod.splits)
next
  case (8 s st ty k p d t res s')
  then have "uses_db s" "proj_get (pg_db s) k = Some p" by (simp_all add: pgh_ok_def pgh_get_eq)
  with 8 pgh_update_eq [OF _ 8(2), of s k d t] sql_update_some [of "pg_db s" k p ty st d t] show ?case
    by (auto simp: pgh_get_eq sql_update_get response_truthy_def)
next
  case (9 s st ty k d t res s' j)
  then show ?case
    using pgh_update_eq [OF _ 9(2), of s k d t] by (auto simp: pgh_ok_def pgh_get_eq sql_update_get)
next
  case (10 s d st ty k t res s')
  then show ?case
    using pgh_update_eq [OF _ 10(3), of s k d t] sql_update_ok [of "pg_db s" st ty d k t] by (auto simp: pgh_ok_def)
qed

section \<open>The settle-and-enqueue transaction is atomic\<close>

text \<open>
  Whatever happens to the transaction, the database either is as it was or holds both the settled
  row and the notification's outbox row.
\<close>

lemma insertEvent_present: "oid \<in> ob_event_id ` set (ob_rows (insertEvent oid ty pl now ob))"
  by (auto simp: insertEvent_def)

lemma insertEvent_keeps: "set (ob_rows ob) \<subseteq> set (ob_rows (insertEvent oid ty pl now ob))"
  by (auto simp: insertEvent_def)

lemma sql_update_outbox [simp]: "outbox_table (snd (sql_update k ty st d now db)) = outbox_table db"
  by (simp add: sql_update_def Let_def split: option.splits)

lemma sql_settle_tx_unknown:
  "proj_get db k = None \<Longrightarrow> snd (sql_settle_tx k d ev eid uuid now db) = db"
  by (simp add: sql_settle_tx_def sql_update_none Let_def split: option.splits)

lemma sql_settle_tx_known:
  assumes "proj_get db k = Some p"
  shows "map_option state (proj_get (snd (sql_settle_tx k d (Some ev) eid uuid now db)) k) = Some St_settled"
    and "nullish_or (nullish eid (nt_id ev)) uuid
      \<in> ob_event_id ` set (ob_rows (outbox_table (snd (sql_settle_tx k d (Some ev) eid uuid now db))))"
proof -
  obtain q v where q: "fst (sql_update k Settled St_settled d now db) = Some (q, v)" "state q = St_settled"
    using sql_update_some [OF assms, of Settled St_settled d now] by blast
  then obtain db1 where u: "sql_update k Settled St_settled d now db = (Some (q, v), db1)"
    by (metis prod.collapse)
  then have "proj_get db1 k = Some q"
    using sql_update_get [of k Settled St_settled d now db k] by simp
  then have "proj_get (db1\<lparr>outbox_table := ob\<rparr>) k = Some q" for ob
    by (simp add: proj_get_def)
  with u q(2) show "map_option state (proj_get (snd (sql_settle_tx k d (Some ev) eid uuid now db)) k) = Some St_settled"
    and "nullish_or (nullish eid (nt_id ev)) uuid
      \<in> ob_event_id ` set (ob_rows (outbox_table (snd (sql_settle_tx k d (Some ev) eid uuid now db))))"
    by (simp_all add: sql_settle_tx_def Let_def insertEvent_present)
qed

text \<open>The two sides of the transaction: the settlement and its notification.\<close>

definition settled_and_queued :: "string \<Rightarrow> string \<Rightarrow> sdb \<Rightarrow> bool" where
  "settled_and_queued k eid db \<longleftrightarrow> map_option state (proj_get db k) = Some St_settled
     \<and> eid \<in> ob_event_id ` set (ob_rows (outbox_table db))"

lemma settle_all_or_nothing:
  "pg_db (snd (pg_settleAndEnqueue out dbnow k d (Some ev) eid uuid now st)) = pg_db st
   \<or> settled_and_queued k (nullish_or (nullish eid (nt_id ev)) uuid)
       (pg_db (snd (pg_settleAndEnqueue out dbnow k d (Some ev) eid uuid now st)))"
proof (cases "uses_db st \<and> tx_applied out")
  case False
  then show ?thesis by (simp add: pg_settleAndEnqueue_db del: de_Morgan_conj)
next
  case True
  then show ?thesis
    using sql_settle_tx_unknown [of "pg_db st" k d "Some ev" eid uuid dbnow]
      sql_settle_tx_known [where db = "pg_db st" and k = k and d = d and ev = ev and eid = eid and uuid = uuid and now = dbnow]
    by (cases "proj_get (pg_db st) k") (simp_all add: pg_settleAndEnqueue_db settled_and_queued_def)
qed

text \<open>An answer \<open>atomicallyEnqueued\<close> with a record is backed by a committed transaction.\<close>

lemma settle_answer_backed:
  assumes "pg_settleAndEnqueue out dbnow k d (Some ev) eid uuid now st = (Inr (True, Some p, ev'), st')"
  shows "settled_and_queued k (nullish_or (nullish eid (nt_id ev)) uuid) (pg_db st')"
proof -
  have db: "uses_db st \<and> out = Tx_ok"
    using assms by (cases out) (auto simp: pg_settleAndEnqueue_def Let_def split: if_splits prod.splits sum.splits)
  then have st': "pg_db st' = snd (sql_settle_tx k d (Some ev) eid uuid dbnow (pg_db st))"
    using pg_settleAndEnqueue_db [of out dbnow k d "Some ev" eid uuid now st] assms by (simp add: tx_applied_def)
  have "proj_get (pg_db st) k \<noteq> None"
  proof
    assume "proj_get (pg_db st) k = None"
    with assms db show False
      by (auto simp: pg_settleAndEnqueue_def sql_settle_tx_def sql_update_none Let_def)
  qed
  then obtain q where "proj_get (pg_db st) k = Some q" by blast
  with st' sql_settle_tx_known [OF this, where d = d and ev = ev and eid = eid and uuid = uuid and now = dbnow] show ?thesis
    by (simp add: settled_and_queued_def)
qed

end
