(* ===== verification/Cqrs.thy ===== *)
theory Cqrs
  imports PgSettlementStore
begin

text \<open>
  The settlement read model (\<open>src/settlement-cqrs.js\<close>, \<open>src/eventstore/projection-worker.js\<close>): a
  worker reads the event table from its checkpoint on, folds the settlements it meets and writes
  them to a table of their own.

  The event table is that of \<open>PgSettlementStore\<close>. \<open>cq_saved\<close> is the checkpoint row, \<open>cq_offset\<close> the
  worker's copy. Failures of the queries are arguments.
\<close>

section \<open>State\<close>

type_synonym read_row = "projection \<times> nat"

record cqrs =
  cq_rm :: "(string, read_row) jsmap"
  cq_saved :: nat
  cq_offset :: nat

record cq_env =
  ce_read_fails :: bool
  ce_fetch_fails :: "string \<Rightarrow> bool"
  ce_write_fails :: "string \<Rightarrow> bool"
  ce_checkpoint_fails :: bool

section \<open>CheckpointManager and EventStreamReader\<close>

definition cq_initialize :: "cqrs \<Rightarrow> cqrs" where
  "cq_initialize st = st\<lparr>cq_offset := cq_saved st\<rparr>"

definition updateCheckpoint :: "bool \<Rightarrow> nat \<Rightarrow> cqrs \<Rightarrow> bool \<times> cqrs" where
  "updateCheckpoint fails offset st =
     (if fails then (False, st) else (True, st\<lparr>cq_saved := offset, cq_offset := offset\<rparr>))"

definition readBatch :: "nat \<Rightarrow> nat \<Rightarrow> sdb \<Rightarrow> (string \<times> settlement_event) list" where
  "readBatch fromOffset limit db =
     take limit (js_sort_by (\<lambda>x. seq (snd x)) (filter (\<lambda>x. seq (snd x) > fromOffset) (ev_table db)))"

definition getMaxSequence :: "sdb \<Rightarrow> nat" where
  "getMaxSequence db = foldr max (map (\<lambda>x. seq (snd x)) (ev_table db)) 0"

definition fetchAllEventsForKey :: "sdb \<Rightarrow> string \<Rightarrow> settlement_event list" where
  "fetchAllEventsForKey db k = js_sort_by seq (key_events db k)"

section \<open>ProjectionWriter\<close>

text \<open>
  The upsert of one row. The columns \<open>key_id\<close> and \<open>idempotency_key\<close> are NOT NULL, so a settlement
  without an owner is refused by the table; a conflict updates the state, the transaction, the
  error and the times, and leaves the other columns as first written.
\<close>

definition merge_row :: "projection \<Rightarrow> projection \<Rightarrow> projection" where
  "merge_row old p = old\<lparr>state := state p, tx_hash := tx_hash p, error_reason := error_reason p,
     error_message := error_message p, updated_at := updated_at p\<rparr>"

definition writeProjection :: "bool \<Rightarrow> projection option \<Rightarrow> nat \<Rightarrow> (string, read_row) jsmap \<Rightarrow> (string, read_row) jsmap option" where
  "writeProjection fails pr lastSeq rm =
     (case pr of
        None \<Rightarrow> Some rm
      | Some p \<Rightarrow>
          if fails \<or> key_id p = None then None
          else (case idempotency_key p of
                  None \<Rightarrow> None
                | Some k \<Rightarrow>
                    Some (jm_set k (case jm_get rm k of None \<Rightarrow> (p, lastSeq) | Some (old, _) \<Rightarrow> (merge_row old p, lastSeq)) rm)))"

definition queryMerchantHistory :: "string \<Rightarrow> nat \<Rightarrow> nat \<Rightarrow> sstate option \<Rightarrow> cqrs \<Rightarrow> projection list" where
  "queryMerchantHistory keyId limit offset st cq =
     take limit (drop offset (js_sort_by (\<lambda>p. - created_at p)
       (filter (\<lambda>p. key_id p = Some keyId \<and> (case st of None \<Rightarrow> True | Some s \<Rightarrow> state p = s))
          (map fst (jm_values (cq_rm cq))))))"

definition getStateCounts :: "string option \<Rightarrow> cqrs \<Rightarrow> sstate \<Rightarrow> nat" where
  "getStateCounts keyId cq s =
     length (filter (\<lambda>p. state p = s \<and> (case keyId of None \<Rightarrow> True | Some k \<Rightarrow> key_id p = Some k))
       (map fst (jm_values (cq_rm cq))))"

section \<open>ProjectionWorker\<close>

text \<open>\<open>eventGroups\<close>: the settlements of a batch in the order they are first met, with their events.\<close>

fun group_events :: "(string \<times> settlement_event) list \<Rightarrow> (string, settlement_event list) jsmap \<Rightarrow> (string, settlement_event list) jsmap" where
  "group_events [] m = m"
| "group_events ((k, e) # xs) m = group_events xs (jm_set k (nullish_or (jm_get m k) [] @ [e]) m)"

text \<open>The loop over the groups: the read model, how many were projected, the highest sequence reached.\<close>

fun project_groups ::
  "cq_env \<Rightarrow> sdb \<Rightarrow> (string \<times> settlement_event list) list \<Rightarrow> (string, read_row) jsmap \<times> nat \<times> nat
     \<Rightarrow> (string, read_row) jsmap \<times> nat \<times> nat" where
  "project_groups env db [] acc = acc"
| "project_groups env db ((k, es) # gs) (rm, processed, lastSeq) =
     project_groups env db gs
       (if ce_fetch_fails env k then (rm, processed, lastSeq)
        else
          (let maxSeq = foldr max (map seq es) 0 in
           case writeProjection (ce_write_fails env k) (projectSettlement (fetchAllEventsForKey db k)) maxSeq rm of
             None \<Rightarrow> (rm, processed, lastSeq)
           | Some rm' \<Rightarrow> (rm', processed + 1, max lastSeq maxSeq)))"

text \<open>\<open>None\<close> when the batch throws.\<close>

definition processBatch :: "cq_env \<Rightarrow> nat \<Rightarrow> sdb \<Rightarrow> cqrs \<Rightarrow> nat option \<times> cqrs" where
  "processBatch env batchSize db st =
     (if ce_read_fails env then (None, st)
      else
        (let events = readBatch (cq_offset st) batchSize db in
         if events = [] then (Some 0, st)
         else
           (case project_groups env db (group_events events []) (cq_rm st, 0, cq_offset st) of
              (rm, processed, lastSeq) \<Rightarrow>
                (let st1 = st\<lparr>cq_rm := rm\<rparr> in
                 if lastSeq > cq_offset st
                 then (case updateCheckpoint (ce_checkpoint_fails env) lastSeq st1 of
                         (ok, st2) \<Rightarrow> (if ok then Some processed else None, st2))
                 else (Some processed, st1)))))"

text \<open>The gauge \<open>updateMetrics\<close> sets.\<close>

definition projection_lag :: "sdb \<Rightarrow> cqrs \<Rightarrow> int" where
  "projection_lag db st = int (getMaxSequence db) - int (cq_offset st)"

text \<open>Start, stop, and one turn of the worker's loop, whose errors are caught.\<close>

record cq_worker = cqrs +
  cw_running :: bool
  cw_stopping :: bool

definition cq_start :: "cq_worker \<Rightarrow> cq_worker" where
  "cq_start w = (if cw_running w then w else w\<lparr>cw_running := True, cw_stopping := False\<rparr>)"

definition cq_stop :: "cq_worker \<Rightarrow> cq_worker" where
  "cq_stop w = w\<lparr>cw_running := False, cw_stopping := True\<rparr>"

definition cq_turn :: "cq_env \<Rightarrow> nat \<Rightarrow> sdb \<Rightarrow> cq_worker \<Rightarrow> cq_worker" where
  "cq_turn env batchSize db w =
     (if cw_running w \<and> \<not> cw_stopping w
      then cqrs.extend (snd (processBatch env batchSize db (cqrs.truncate w))) (cq_worker.fields (cw_running w) (cw_stopping w))
      else w)"

section \<open>projection-worker.js\<close>

text \<open>A restart: a new worker, initialised from the checkpoint row.\<close>

definition simulateRecoveryTest :: "cqrs \<Rightarrow> (nat \<times> nat) \<times> cqrs" where
  "simulateRecoveryTest st = (let st' = cq_initialize st in ((cq_offset st, cq_offset st'), st'))"

definition verifyCheckpointPersistence :: "nat \<Rightarrow> cqrs \<Rightarrow> bool" where
  "verifyCheckpointPersistence testOffset st = (cq_saved st = testOffset)"

text \<open>
  \<open>processToCaughtUp\<close>: the loop's own bound is \<open>fuel\<close>, \<open>lastLag\<close> is \<open>None\<close> for Infinity. \<open>env\<close> gives
  the failures of each turn; a batch that throws ends the call (\<open>None\<close>).
\<close>

fun caught_up_loop ::
  "(nat \<Rightarrow> cq_env) \<Rightarrow> nat \<Rightarrow> sdb \<Rightarrow> nat \<Rightarrow> nat \<Rightarrow> int option \<Rightarrow> cqrs \<Rightarrow> (bool \<times> nat) option \<times> cqrs" where
  "caught_up_loop env batchSize db 0 iterations lastLag st = (Some (False, iterations), st)"
| "caught_up_loop env batchSize db (Suc fuel) iterations lastLag st =
     (case processBatch (env iterations) batchSize db st of
        (None, st') \<Rightarrow> (None, st')
      | (Some _, st') \<Rightarrow>
          (let lag = projection_lag db st' in
           if lag = 0 then (Some (True, iterations), st')
           else if lastLag = Some lag then (Some (False, iterations), st')
           else caught_up_loop env batchSize db fuel (iterations + 1) (Some lag) st'))"

definition processToCaughtUp :: "(nat \<Rightarrow> cq_env) \<Rightarrow> nat \<Rightarrow> sdb \<Rightarrow> nat \<Rightarrow> cqrs \<Rightarrow> (bool \<times> nat) option \<times> cqrs" where
  "processToCaughtUp env batchSize db maxIterations st = caught_up_loop env batchSize db maxIterations 0 None st"

definition validateEventOrdering :: "(string \<times> settlement_event) list \<Rightarrow> (string, settlement_event list) jsmap" where
  "validateEventOrdering events = map (\<lambda>(k, es). (k, js_sort_by seq es)) (group_events events [])"

section \<open>What a batch does\<close>

definition calm :: cq_env where
  "calm = \<lparr>ce_read_fails = False, ce_fetch_fails = (\<lambda>_. False), ce_write_fails = (\<lambda>_. False), ce_checkpoint_fails = False\<rparr>"

lemma group_events_get:
  "jm_get (group_events xs m) k =
     (let es = map snd (filter (\<lambda>x. fst x = k) xs) in
      if es = [] then jm_get m k else Some (nullish_or (jm_get m k) [] @ es))"
proof (induction xs m rule: group_events.induct)
  case (2 j e xs m)
  then show ?case by (simp add: jm_get_set Let_def)
qed simp

lemma group_events_wf: "jm_wf m \<Longrightarrow> jm_wf (group_events xs m)"
  by (induction xs m rule: group_events.induct) simp_all

lemma group_events_key: "k \<in> fst ` set (group_events xs []) \<longleftrightarrow> k \<in> fst ` set xs"
proof -
  have "k \<in> fst ` set (group_events xs []) \<longleftrightarrow> jm_get (group_events xs []) k \<noteq> None"
    by (simp add: map_of_eq_None_iff)
  also have "\<dots> \<longleftrightarrow> k \<in> fst ` set xs"
    by (force simp: group_events_get Let_def filter_empty_conv)
  finally show ?thesis .
qed

lemma set_readBatch: "x \<in> set (readBatch off n db) \<Longrightarrow> x \<in> set (ev_table db) \<and> off < seq (snd x)"
  unfolding readBatch_def by (drule in_set_takeD) auto

text \<open>A settlement's projection carries its own key.\<close>

lemma project_key: "db_ok db \<Longrightarrow> projectSettlement (key_events db k) = Some p \<Longrightarrow> idempotency_key p = Some k"
  using proj_get_key proj_get_fold by metis

lemma fetch_fold: "db_ok db \<Longrightarrow> projectSettlement (fetchAllEventsForKey db k) = projectSettlement (key_events db k)"
  by (simp add: fetchAllEventsForKey_def log_sorted)

text \<open>Writing one settlement touches its own row.\<close>

lemma writeProjection_get:
  assumes "writeProjection fails pr n rm = Some rm'" "\<And>p. pr = Some p \<Longrightarrow> idempotency_key p = Some k"
  shows "jm_get rm' j = (if j = k \<and> pr \<noteq> None
    then Some (case jm_get rm k of None \<Rightarrow> (the pr, n) | Some (old, _) \<Rightarrow> (merge_row old (the pr), n)) else jm_get rm j)"
  using assms by (cases pr) (auto simp: writeProjection_def jm_get_set split: if_splits option.splits)

lemma project_groups_other:
  assumes "db_ok db" "k \<notin> fst ` set gs"
  shows "jm_get (fst (project_groups env db gs (rm, n, l))) k = jm_get rm k"
  using assms(2)
proof (induction gs arbitrary: rm n l)
  case (Cons g gs)
  obtain j es where g: "g = (j, es)" by (cases g)
  have jk: "j \<noteq> k" using Cons.prems g by auto
  let ?pr = "projectSettlement (fetchAllEventsForKey db j)" and ?m = "foldr max (map seq es) 0"
  have "jm_get rm' k = jm_get rm k" if w: "writeProjection (ce_write_fails env j) ?pr ?m rm = Some rm'" for rm'
  proof -
    have "idempotency_key p = Some j" if "?pr = Some p" for p
      using that project_key [OF assms(1)] fetch_fold [OF assms(1)] by simp
    from writeProjection_get [OF w this] jk show ?thesis by simp
  qed
  then show ?case
    using Cons.IH Cons.prems g by (auto simp: Let_def split: option.splits)
qed simp

text \<open>Only settlements with an event above the checkpoint are touched.\<close>

lemma processBatch_other:
  assumes "db_ok db" "\<forall>e \<in> set (key_events db k). seq e \<le> cq_offset st"
  shows "jm_get (cq_rm (snd (processBatch env n db st))) k = jm_get (cq_rm st) k"
proof -
  let ?ev = "readBatch (cq_offset st) n db"
  have "k \<notin> fst ` set ?ev"
  proof
    assume "k \<in> fst ` set ?ev"
    then obtain e where e: "(k, e) \<in> set ?ev" by force
    then have "e \<in> set (key_events db k)" "cq_offset st < seq e"
      using set_readBatch [OF e] by (force simp: key_events_def)+
    with assms(2) show False by force
  qed
  then have "k \<notin> fst ` set (group_events ?ev [])" by (simp add: group_events_key)
  note other = project_groups_other [OF assms(1) this, of env "cq_rm st" 0 "cq_offset st"]
  obtain rm p l where g: "project_groups env db (group_events ?ev []) (cq_rm st, 0, cq_offset st) = (rm, p, l)"
    by (metis prod_cases3)
  with other show ?thesis
    by (simp add: processBatch_def Let_def updateCheckpoint_def split: prod.splits)
qed

lemma project_groups_offset: "l \<le> snd (snd (project_groups env db gs (rm, n, l)))"
proof (induction gs arbitrary: rm n l)
  case (Cons g gs)
  obtain j es where g: "g = (j, es)" by (cases g)
  show ?case
  proof (cases "ce_fetch_fails env j")
    case True
    with Cons show ?thesis by (simp add: g)
  next
    case False
    show ?thesis
    proof (cases "writeProjection (ce_write_fails env j) (projectSettlement (fetchAllEventsForKey db j)) (foldr max (map seq es) 0) rm")
      case None
      with False Cons show ?thesis by (simp add: g Let_def)
    next
      case (Some rm')
      have "l \<le> max l (foldr max (map seq es) 0)" by simp
      also have "\<dots> \<le> snd (snd (project_groups env db gs (rm', n + 1, max l (foldr max (map seq es) 0))))" by (rule Cons.IH)
      finally show ?thesis using False Some by (simp add: g Let_def)
    qed
  qed
qed simp

text \<open>Sequence numbers count within a settlement.\<close>

lemma seq_le_length:
  assumes "db_ok db" "e \<in> set (key_events db k)"
  shows "seq e \<le> length (key_events db k)"
proof -
  have "map seq (key_events db k) = [1..<1 + length (key_events db k)]"
    by (rule numbered_seqs) (use assms(1) in \<open>simp add: db_ok_def db_key_ok_def\<close>)
  moreover have "seq e \<in> set (map seq (key_events db k))" using assms(2) by simp
  ultimately have "seq e \<in> set [1..<1 + length (key_events db k)]" by metis
  then show ?thesis by auto
qed

text \<open>The checkpoint never goes back.\<close>

lemma processBatch_offset: "cq_offset st \<le> cq_offset (snd (processBatch env n db st))"
  by (auto simp: processBatch_def Let_def updateCheckpoint_def split: prod.splits)

fun cq_run :: "nat \<Rightarrow> (cq_env \<times> sdb) list \<Rightarrow> cqrs \<Rightarrow> cqrs" where
  "cq_run n [] st = st"
| "cq_run n ((env, db) # xs) st = cq_run n xs (snd (processBatch env n db st))"

lemma cq_run_other:
  assumes "\<forall>(env, db) \<in> set xs. db_ok db \<and> (\<forall>e \<in> set (key_events db k). seq e \<le> cq_offset st)"
  shows "jm_get (cq_rm (cq_run n xs st)) k = jm_get (cq_rm st) k"
  using assms
proof (induction xs arbitrary: st)
  case (Cons x xs)
  obtain env db where x: "x = (env, db)" by (cases x)
  have "jm_get (cq_rm (snd (processBatch env n db st))) k = jm_get (cq_rm st) k"
    using Cons.prems x by (intro processBatch_other) auto
  moreover have "\<forall>(env, db') \<in> set xs. db_ok db' \<and> (\<forall>e \<in> set (key_events db' k). seq e \<le> cq_offset (snd (processBatch env' n db st)))" for env'
    using Cons.prems processBatch_offset [of st env' n db] by (fastforce intro: le_trans)
  ultimately show ?case using Cons.IH x by simp
qed simp

section \<open>Rows are folds\<close>

text \<open>What one group leaves in its settlement's row.\<close>

definition row_after :: "cq_env \<Rightarrow> sdb \<Rightarrow> string \<Rightarrow> settlement_event list \<Rightarrow> read_row option \<Rightarrow> read_row option" where
  "row_after env db k es old =
     (case projectSettlement (key_events db k) of
        None \<Rightarrow> old
      | Some p \<Rightarrow>
          if ce_fetch_fails env k \<or> ce_write_fails env k \<or> key_id p = None then old
          else Some (case old of None \<Rightarrow> p | Some (o', _) \<Rightarrow> merge_row o' p, foldr max (map seq es) 0))"

lemma project_group_one:
  assumes "db_ok db"
  shows "jm_get (fst (project_groups env db [(k, es)] (rm, n, l))) k = row_after env db k es (jm_get rm k)"
proof (cases "projectSettlement (key_events db k)")
  case None
  then show ?thesis
    by (simp add: row_after_def fetch_fold [OF assms] writeProjection_def Let_def)
next
  case (Some p)
  with project_key [OF assms Some] show ?thesis
    by (auto simp: row_after_def fetch_fold [OF assms] writeProjection_def Let_def jm_get_set split: option.splits)
qed

lemma project_groups_Cons:
  "project_groups env db (g # gs) acc = project_groups env db gs (project_groups env db [g] acc)"
  by (cases g; cases acc) simp

lemma project_groups_get:
  assumes "db_ok db" "jm_wf gs"
  shows "jm_get (fst (project_groups env db gs acc)) k =
    (case jm_get gs k of None \<Rightarrow> jm_get (fst acc) k | Some es \<Rightarrow> row_after env db k es (jm_get (fst acc) k))"
  using assms(2)
proof (induction gs arbitrary: acc)
  case (Cons g gs)
  obtain j es where g: "g = (j, es)" by (cases g)
  obtain rm n l where acc: "acc = (rm, n, l)" by (cases acc)
  have IH: "jm_get (fst (project_groups env db (g # gs) acc)) k =
    (case jm_get gs k of None \<Rightarrow> jm_get (fst (project_groups env db [g] acc)) k
     | Some es \<Rightarrow> row_after env db k es (jm_get (fst (project_groups env db [g] acc)) k))"
    unfolding project_groups_Cons [of env db g gs] by (rule Cons.IH) (use Cons.prems in simp)
  show ?case
  proof (cases "k = j")
    case True
    then have "jm_get gs k = None" using Cons.prems g by (simp add: map_of_eq_None_iff)
    with IH True g acc project_group_one [OF assms(1)] show ?thesis by (simp del: project_groups.simps)
  next
    case False
    then have "jm_get (fst (project_groups env db [g] acc)) k = jm_get rm k"
      unfolding g acc by (intro project_groups_other [OF assms(1)]) simp
    with IH False g acc show ?thesis by (simp del: project_groups.simps split: option.splits)
  qed
qed simp

lemma processBatch_rows:
  assumes "db_ok db" "\<not> ce_read_fails env"
  shows "jm_get (cq_rm (snd (processBatch env n db st))) k =
    (case jm_get (group_events (readBatch (cq_offset st) n db) []) k of
       None \<Rightarrow> jm_get (cq_rm st) k | Some es \<Rightarrow> row_after env db k es (jm_get (cq_rm st) k))"
proof -
  let ?gs = "group_events (readBatch (cq_offset st) n db) []"
  have "jm_wf ?gs" by (rule group_events_wf) simp
  note rows = project_groups_get [OF assms(1) this, of env "(cq_rm st, 0, cq_offset st)" k]
  obtain rm p l where g: "project_groups env db ?gs (cq_rm st, 0, cq_offset st) = (rm, p, l)"
    by (metis prod_cases3)
  show ?thesis
  proof (cases "readBatch (cq_offset st) n db = []")
    case True
    with assms(2) show ?thesis by (simp add: processBatch_def Let_def)
  next
    case False
    have "jm_get rm k = (case jm_get ?gs k of None \<Rightarrow> jm_get (cq_rm st) k | Some es \<Rightarrow> row_after env db k es (jm_get (cq_rm st) k))"
      using rows g by (simp split: option.splits)
    with False g assms(2) show ?thesis
      by (simp add: processBatch_def Let_def updateCheckpoint_def split: prod.splits)
  qed
qed

text \<open>A row agrees with a fold in the columns the writer keeps up to date.\<close>

definition live_columns :: "projection \<Rightarrow> sstate \<times> string option \<times> string option \<times> string option \<times> int" where
  "live_columns p = (state p, tx_hash p, error_reason p, error_message p, updated_at p)"

lemma row_after_live:
  assumes "projectSettlement (key_events db k) = Some p" "key_id p \<noteq> None" "\<not> ce_fetch_fails env k" "\<not> ce_write_fails env k"
  shows "\<exists>r m. row_after env db k es old = Some (r, m) \<and> live_columns r = live_columns p \<and> (old = None \<longrightarrow> r = p)"
  using assms by (cases old) (auto simp: row_after_def live_columns_def merge_row_def)

text \<open>Writing the same batch twice is writing it once.\<close>

lemma row_after_idem: "row_after env db k es (row_after env db k es old) = row_after env db k es old"
proof -
  have "merge_row p p = p" "merge_row (merge_row q p) p = merge_row q p" for p q :: projection
    by (simp_all add: merge_row_def)
  then show ?thesis by (cases old) (auto simp: row_after_def split: option.splits prod.splits)
qed

lemma row_after_env: "row_after (env\<lparr>ce_checkpoint_fails := b\<rparr>) db k es old = row_after env db k es old"
  by (simp add: row_after_def split: option.splits)

lemma project_groups_env:
  "project_groups (env\<lparr>ce_checkpoint_fails := b\<rparr>) db gs acc = project_groups env db gs acc"
proof (induction gs arbitrary: acc)
  case (Cons g gs)
  then show ?case by (cases g; cases acc) simp
qed simp

lemma project_groups_counts:
  "snd (project_groups env db gs (rm, n, l)) = snd (project_groups env db gs (rm', n, l))"
proof (induction gs arbitrary: rm rm' n l)
  case (Cons g gs)
  obtain j es where g: "g = (j, es)" by (cases g)
  let ?w = "writeProjection (ce_write_fails env j) (projectSettlement (fetchAllEventsForKey db j)) (foldr max (map seq es) 0)"
  have "?w rm = None \<longleftrightarrow> ?w rm' = None"
    by (auto simp: writeProjection_def split: option.splits)
  with Cons.IH [of rm n l rm'] Cons.IH show ?case
    by (cases "?w rm"; cases "?w rm'") (auto simp: g Let_def)
qed simp

text \<open>A batch whose rows are written but whose checkpoint is not is replayed without a trace.\<close>

lemma replayed_batch:
  assumes "db_ok db" "\<not> ce_read_fails env" "\<not> ce_checkpoint_fails env"
    "processBatch (env\<lparr>ce_checkpoint_fails := True\<rparr>) n db st = (r1, st1)"
    "processBatch env n db st1 = (r2, st2)" "processBatch env n db st = (r3, st3)"
  shows "jm_get (cq_rm st2) k = jm_get (cq_rm st3) k" "cq_offset st2 = cq_offset st3" "r2 = r3"
proof -
  let ?env = "env\<lparr>ce_checkpoint_fails := True\<rparr>" and ?ev = "readBatch (cq_offset st) n db"
  let ?gs = "group_events ?ev []"
  have off: "cq_offset st1 = cq_offset st"
    using assms(2,4) by (auto simp: processBatch_def Let_def updateCheckpoint_def split: prod.splits if_splits)
  have rm1: "cq_rm st1 = (if ?ev = [] then cq_rm st else fst (project_groups env db ?gs (cq_rm st, 0, cq_offset st)))"
    using assms(2,4) by (auto simp: processBatch_def Let_def updateCheckpoint_def project_groups_env split: prod.splits if_splits)
  have rows1: "jm_get (cq_rm st1) j = (case jm_get ?gs j of None \<Rightarrow> jm_get (cq_rm st) j
      | Some es \<Rightarrow> row_after env db j es (jm_get (cq_rm st) j))" for j
    using processBatch_rows [OF assms(1), of ?env n st j] assms(2,4)
    by (simp add: row_after_env split: option.splits)
  show "jm_get (cq_rm st2) k = jm_get (cq_rm st3) k"
    using processBatch_rows [OF assms(1,2), of n st1 k] processBatch_rows [OF assms(1,2), of n st k] assms(5,6) rows1 [of k]
    by (simp add: off row_after_idem split: option.splits)
  have same: "snd (project_groups env db ?gs (cq_rm st1, 0, cq_offset st)) = snd (project_groups env db ?gs (cq_rm st, 0, cq_offset st))"
    by (rule project_groups_counts)
  show "cq_offset st2 = cq_offset st3" "r2 = r3"
    using assms(2,3,5,6) same off
    by (auto simp: processBatch_def Let_def updateCheckpoint_def split: prod.splits if_splits)
qed

end
