(* ===== verification/DistributedLock.thy ===== *)
theory DistributedLock
  imports JsPrelude
begin

text \<open>
  The lock around a settlement (\<open>src/distributed-lock.js\<close>): the in-process mutex, a chain of
  promises per key, and the distributed lock over Redlock that falls back to it.

  A promise of the chain is its number: \<open>lk_prev\<close> says which one a holder waits for, \<open>lk_released\<close>
  which have resolved. Redlock itself is not part of the source: the answers of its \<open>acquire\<close> calls
  are arguments, each with the time at which it came.
\<close>

section \<open>createMemoryLockManager\<close>

record ticket =
  tk_key :: string
  tk_prev :: "nat option"

record mem_locks =
  lk_tails :: "(string, nat) jsmap"
  lk_tickets :: "ticket list"
  lk_released :: "nat set"

definition no_locks :: mem_locks where
  "no_locks = \<lparr>lk_tails = [], lk_tickets = [], lk_released = {}\<rparr>"

text \<open>\<open>acquire\<close>, up to its return: the caller holds promise number \<open>length lk_tickets\<close>.\<close>

definition lock_acquire :: "string \<Rightarrow> mem_locks \<Rightarrow> nat \<times> mem_locks" where
  "lock_acquire key st =
     (let i = length (lk_tickets st) in
      (i, st\<lparr>lk_tails := jm_set key i (lk_tails st),
             lk_tickets := lk_tickets st @ [\<lparr>tk_key = key, tk_prev = jm_get (lk_tails st) key\<rparr>]\<rparr>))"

text \<open>The promise \<open>acquire\<close> returned has resolved: what it waits for is released.\<close>

definition lock_granted :: "nat \<Rightarrow> mem_locks \<Rightarrow> bool" where
  "lock_granted i st \<longleftrightarrow> i < length (lk_tickets st)
     \<and> (case tk_prev (lk_tickets st ! i) of None \<Rightarrow> True | Some j \<Rightarrow> j \<in> lk_released st)"

definition lock_release :: "nat \<Rightarrow> mem_locks \<Rightarrow> mem_locks" where
  "lock_release i st = st\<lparr>lk_released := insert i (lk_released st)\<rparr>"

text \<open>Inside \<open>withLock\<close>'s function: granted and not yet released.\<close>

definition lock_held :: "nat \<Rightarrow> mem_locks \<Rightarrow> bool" where
  "lock_held i st \<longleftrightarrow> lock_granted i st \<and> i \<notin> lk_released st"

text \<open>
  Any number of \<open>withLock\<close> calls: one may begin at any time, and one that runs its function may end,
  with a value or an exception.
\<close>

inductive lock_step :: "mem_locks \<Rightarrow> mem_locks \<Rightarrow> bool" where
  begins: "lock_step st (snd (lock_acquire key st))"
| ends: "lock_held i st \<Longrightarrow> lock_step st (lock_release i st)"

inductive lock_reachable :: "mem_locks \<Rightarrow> bool" where
  start: "lock_reachable no_locks"
| step: "lock_reachable st \<Longrightarrow> lock_step st st' \<Longrightarrow> lock_reachable st'"

section \<open>createDistributedLock\<close>

text \<open>
  The acquire loop of \<open>withRedlock\<close>: each attempt succeeds or fails at a time; after a failure at or
  past the deadline it gives up. \<open>None\<close> while attempts are still to come.
\<close>

datatype acquired = Lock_acquired | Lock_timeout

fun redlock_loop :: "int \<Rightarrow> (bool \<times> int) list \<Rightarrow> acquired option" where
  "redlock_loop deadline [] = None"
| "redlock_loop deadline ((ok, t) # xs) =
     (if ok then Some Lock_acquired else if t \<ge> deadline then Some Lock_timeout else redlock_loop deadline xs)"

text \<open>
  How a call is run: under the distributed lock, under the in-process mutex, or refused. The second
  component is the manager's \<open>degraded\<close> flag.
\<close>

datatype lock_mode = Under_redlock | Under_mutex | Refused

definition withLock_mode :: "bool \<Rightarrow> int \<Rightarrow> int \<Rightarrow> (bool \<times> int) list \<Rightarrow> bool list \<Rightarrow> (lock_mode \<times> bool) option" where
  "withLock_mode degraded start acquireTimeoutMs attempts ready =
     (if degraded then Some (Under_mutex, True)
      else (case redlock_loop (start + acquireTimeoutMs) attempts of
              None \<Rightarrow> None
            | Some Lock_acquired \<Rightarrow> Some (Under_redlock, False)
            | Some Lock_timeout \<Rightarrow> if list_ex (\<lambda>r. r) ready then Some (Refused, False) else Some (Under_mutex, True)))"

text \<open>The manager that is built: without a node, the in-process mutex.\<close>

definition usable_nodes :: "string list \<Rightarrow> string list" where
  "usable_nodes nodes = filter (\<lambda>s. s \<noteq> []) nodes"

definition lockKeyFor :: "(string \<Rightarrow> string) \<Rightarrow> (json \<Rightarrow> string) \<Rightarrow> json option \<Rightarrow> string \<Rightarrow> string" where
  "lockKeyFor sha256 stringify v prefix = prefix @ '':'' @ sha256 (stringify (nullish_or v JNull))"

section \<open>Mutual exclusion\<close>

text \<open>A promise waits for the one before it in its key's chain, and is released after it.\<close>

definition chain_ok :: "mem_locks \<Rightarrow> bool" where
  "chain_ok st \<longleftrightarrow>
     (\<forall>k. jm_get (lk_tails st) k = (let is = filter (\<lambda>i. tk_key (lk_tickets st ! i) = k) [0..<length (lk_tickets st)]
                                  in if is = [] then None else Some (last is)))
   \<and> (\<forall>i < length (lk_tickets st). tk_prev (lk_tickets st ! i) =
        (let is = filter (\<lambda>j. tk_key (lk_tickets st ! j) = tk_key (lk_tickets st ! i)) [0..<i]
         in if is = [] then None else Some (last is)))
   \<and> (\<forall>i \<in> lk_released st. i < length (lk_tickets st) \<and> lock_granted i st)"

text \<open>The promises of one key below a bound.\<close>

definition chain :: "mem_locks \<Rightarrow> string \<Rightarrow> nat \<Rightarrow> nat list" where
  "chain st k n = filter (\<lambda>j. tk_key (lk_tickets st ! j) = k) [0..<n]"

lemma chain_ok_alt:
  "chain_ok st \<longleftrightarrow>
     (\<forall>k. jm_get (lk_tails st) k = (if chain st k (length (lk_tickets st)) = [] then None else Some (last (chain st k (length (lk_tickets st))))))
   \<and> (\<forall>i < length (lk_tickets st). tk_prev (lk_tickets st ! i) =
        (if chain st (tk_key (lk_tickets st ! i)) i = [] then None else Some (last (chain st (tk_key (lk_tickets st ! i)) i))))
   \<and> (\<forall>i \<in> lk_released st. i < length (lk_tickets st) \<and> lock_granted i st)"
  by (simp add: chain_ok_def chain_def Let_def)

lemma chain_append:
  "n \<le> length (lk_tickets st) \<Longrightarrow> lk_tickets st' = lk_tickets st @ ts \<Longrightarrow> chain st' k n = chain st k n"
  by (auto simp: chain_def nth_append intro!: filter_cong)

lemma chain_ok_start: "chain_ok no_locks"
  by (simp add: chain_ok_alt no_locks_def chain_def)

lemma chain_ok_acquire:
  assumes ok: "chain_ok st"
  shows "chain_ok (snd (lock_acquire key st))"
proof -
  let ?n = "length (lk_tickets st)"
  define st' where "st' = snd (lock_acquire key st)"
  have tickets: "lk_tickets st' = lk_tickets st @ [\<lparr>tk_key = key, tk_prev = jm_get (lk_tails st) key\<rparr>]"
    and tails: "lk_tails st' = jm_set key ?n (lk_tails st)" and rel: "lk_released st' = lk_released st"
    by (simp_all add: st'_def lock_acquire_def Let_def)
  have old: "chain st' k i = chain st k i" if "i \<le> ?n" for k i
    by (rule chain_append [OF that tickets])
  have new: "chain st' k (Suc ?n) = chain st k ?n @ (if k = key then [?n] else [])" for k
    using old [of ?n k] by (simp add: chain_def tickets)
  have "jm_get (lk_tails st') k = (if chain st' k (Suc ?n) = [] then None else Some (last (chain st' k (Suc ?n))))" for k
    using ok by (auto simp: new tails jm_get_set chain_ok_alt)
  moreover have "tk_prev (lk_tickets st' ! i) = (if chain st' (tk_key (lk_tickets st' ! i)) i = [] then None
      else Some (last (chain st' (tk_key (lk_tickets st' ! i)) i)))" if "i < Suc ?n" for i
    using ok that old [of i] by (cases "i = ?n") (auto simp: tickets nth_append chain_ok_alt)
  moreover have "i < Suc ?n \<and> lock_granted i st'" if "i \<in> lk_released st'" for i
  proof -
    have "i < ?n" "lock_granted i st" using ok that by (auto simp: rel chain_ok_alt)
    then show ?thesis by (auto simp: lock_granted_def tickets nth_append rel split: option.splits)
  qed
  ultimately show ?thesis
    unfolding st'_def [symmetric] chain_ok_alt by (simp add: tickets)
qed

lemma chain_ok_release:
  assumes ok: "chain_ok st" and held: "lock_held i st"
  shows "chain_ok (lock_release i st)"
proof -
  have g: "lock_granted j (lock_release i st)" if "lock_granted j st" for j
    using that by (auto simp: lock_granted_def lock_release_def split: option.splits)
  have "chain (lock_release i st) k n = chain st k n" for k n
    by (simp add: chain_def lock_release_def)
  with ok held g show ?thesis
    by (auto simp: chain_ok_alt lock_release_def lock_held_def) (auto simp: lock_granted_def)
qed

lemma reachable_chain: "lock_reachable st \<Longrightarrow> chain_ok st"
proof (induction rule: lock_reachable.induct)
  case (step st st')
  from step(2,3) show ?case
    by (cases rule: lock_step.cases) (simp_all add: chain_ok_acquire chain_ok_release)
qed (rule chain_ok_start)

lemma sorted_le_last:
  fixes xs :: "nat list"
  shows "sorted xs \<Longrightarrow> x \<in> set xs \<Longrightarrow> x \<le> last xs"
  by (induction xs) auto

text \<open>Whoever is granted the lock comes after everyone who asked before, all of them done.\<close>

lemma granted_after:
  assumes ok: "chain_ok st" and i: "lock_granted i st" and j: "j < i" "tk_key (lk_tickets st ! j) = tk_key (lk_tickets st ! i)"
  shows "j \<in> lk_released st"
  using i j
proof (induction i arbitrary: j rule: less_induct)
  case (less i)
  let ?c = "chain st (tk_key (lk_tickets st ! i)) i"
  have jc: "j \<in> set ?c" using less.prems by (simp add: chain_def)
  then have ne: "?c \<noteq> []" by auto
  have i: "i < length (lk_tickets st)" using less.prems(1) by (simp add: lock_granted_def)
  then have prev: "tk_prev (lk_tickets st ! i) = Some (last ?c)" using ok ne by (simp add: chain_ok_alt)
  with less.prems(1) have l: "last ?c \<in> lk_released st" by (simp add: lock_granted_def)
  have lc: "last ?c < i" "tk_key (lk_tickets st ! last ?c) = tk_key (lk_tickets st ! i)"
    using last_in_set [OF ne] by (auto simp: chain_def)
  have "sorted ?c" by (simp add: chain_def sorted_wrt_filter)
  then have "j \<le> last ?c" using jc by (rule sorted_le_last)
  show ?case
  proof (cases "j = last ?c")
    case True
    with l show ?thesis by simp
  next
    case False
    with \<open>j \<le> last ?c\<close> have "j < last ?c" by simp
    moreover have "lock_granted (last ?c) st" using ok l by (simp add: chain_ok_alt)
    ultimately show ?thesis using less.IH [OF lc(1), of j] less.prems(3) lc(2) by simp
  qed
qed

end
