(* ===== verification/KeyManager.thy ===== *)
theory KeyManager
  imports JsPrelude
begin

text \<open>
  The signing keys of a network and their rotation (\<open>src/key-manager.js\<close>): a generation of keys is
  installed when the source's key ids change, older generations retire, and a retired one is dropped
  after a grace period unless someone still signs with it.

  Hashing and the check of a secret are parameters; a signer is a function of its secret and left
  out. \<open>now\<close> is the clock in milliseconds.
\<close>

section \<open>Keys of a source\<close>

datatype raw_key = Plain string | Object "string option" "string option" | Neither

definition keyId :: "(string \<Rightarrow> string) \<Rightarrow> string \<Rightarrow> string" where
  "keyId sha256 secret = take 16 (sha256 secret)"

datatype key_error = No_keys | Invalid_secret | Duplicate_kid string

definition raw_secret :: "raw_key \<Rightarrow> string option" where
  "raw_secret r = (case r of Plain s \<Rightarrow> Some s | Object secret _ \<Rightarrow> secret | Neither \<Rightarrow> None)"

definition raw_kid :: "(string \<Rightarrow> string) \<Rightarrow> raw_key \<Rightarrow> string \<Rightarrow> string" where
  "raw_kid sha256 r secret =
     (case r of Object _ (Some kid) \<Rightarrow> if kid \<noteq> [] then kid else keyId sha256 secret | _ \<Rightarrow> keyId sha256 secret)"

fun normalise_loop ::
  "(string \<Rightarrow> string) \<Rightarrow> (string \<Rightarrow> bool) \<Rightarrow> raw_key list \<Rightarrow> string list \<Rightarrow> key_error + (string \<times> string) list" where
  "normalise_loop sha256 valid [] seen = Inr []"
| "normalise_loop sha256 valid (r # rs) seen =
     (case raw_secret r of
        None \<Rightarrow> Inl Invalid_secret
      | Some s \<Rightarrow>
          if s = [] \<or> \<not> valid s then Inl Invalid_secret
          else
            (let kid = raw_kid sha256 r s in
             if kid \<in> set seen then Inl (Duplicate_kid kid)
             else (case normalise_loop sha256 valid rs (kid # seen) of
                     Inl e \<Rightarrow> Inl e
                   | Inr ks \<Rightarrow> Inr ((kid, s) # ks))))"

definition normaliseKeys :: "(string \<Rightarrow> string) \<Rightarrow> (string \<Rightarrow> bool) \<Rightarrow> raw_key list \<Rightarrow> key_error + (string \<times> string) list" where
  "normaliseKeys sha256 valid keys = (if keys = [] then Inl No_keys else normalise_loop sha256 valid keys [])"

section \<open>Generations\<close>

record signing_key =
  ke_kid :: string
  ke_secret :: string
  ke_leases :: nat

record generation =
  gn_entries :: "signing_key list"
  gn_retiredAt :: "int option"

record key_manager =
  km_gens :: "(nat, generation) jsmap"
  km_current :: nat
  km_grace :: int

definition idle :: "generation \<Rightarrow> bool" where
  "idle g \<longleftrightarrow> list_all (\<lambda>e. ke_leases e = 0) (gn_entries g)"

definition purgeable :: "key_manager \<Rightarrow> int \<Rightarrow> nat \<times> generation \<Rightarrow> bool" where
  "purgeable km now p \<longleftrightarrow> fst p \<noteq> km_current km
     \<and> (case gn_retiredAt (snd p) of None \<Rightarrow> km_grace km \<le> now | Some t \<Rightarrow> t + km_grace km \<le> now) \<and> idle (snd p)"

definition purgeRetired :: "int \<Rightarrow> key_manager \<Rightarrow> key_manager" where
  "purgeRetired now km = km\<lparr>km_gens := filter (\<lambda>p. \<not> purgeable km now p) (km_gens km)\<rparr>"

definition retire :: "nat \<Rightarrow> int \<Rightarrow> nat \<times> generation \<Rightarrow> nat \<times> generation" where
  "retire current now p =
     (if fst p \<noteq> current \<and> gn_retiredAt (snd p) = None then (fst p, (snd p)\<lparr>gn_retiredAt := Some now\<rparr>) else p)"

definition km_install :: "(string \<times> string) list \<Rightarrow> int \<Rightarrow> key_manager \<Rightarrow> key_manager" where
  "km_install keys now km =
     (let g = km_current km + 1;
          entries = map (\<lambda>(kid, s). \<lparr>ke_kid = kid, ke_secret = s, ke_leases = 0\<rparr>) keys;
          gens = jm_set g \<lparr>gn_entries = entries, gn_retiredAt = None\<rparr> (km_gens km)
      in purgeRetired now (km\<lparr>km_gens := map (retire g now) gens, km_current := g\<rparr>))"

definition getCurrent :: "key_manager \<Rightarrow> generation option" where
  "getCurrent km = jm_get (km_gens km) (km_current km)"

definition getActiveKeyIds :: "key_manager \<Rightarrow> string list" where
  "getActiveKeyIds km = (case getCurrent km of None \<Rightarrow> [] | Some g \<Rightarrow> map ke_kid (gn_entries g))"

definition take_lease :: "generation \<Rightarrow> generation" where
  "take_lease g = g\<lparr>gn_entries := map (\<lambda>e. e\<lparr>ke_leases := ke_leases e + 1\<rparr>) (gn_entries g)\<rparr>"

definition drop_lease :: "generation \<Rightarrow> generation" where
  "drop_lease g = g\<lparr>gn_entries := map (\<lambda>e. e\<lparr>ke_leases := ke_leases e - 1\<rparr>) (gn_entries g)\<rparr>"

text \<open>\<open>snapshot\<close> leases the current generation; what it returns is released by number.\<close>

definition km_snapshot :: "key_manager \<Rightarrow> nat \<times> key_manager" where
  "km_snapshot km =
     (km_current km,
      case getCurrent km of None \<Rightarrow> km
      | Some g \<Rightarrow> km\<lparr>km_gens := jm_set (km_current km) (take_lease g) (km_gens km)\<rparr>)"

definition km_release :: "nat \<Rightarrow> int \<Rightarrow> key_manager \<Rightarrow> key_manager" where
  "km_release g now km =
     purgeRetired now
       (case jm_get (km_gens km) g of None \<Rightarrow> km | Some s \<Rightarrow> km\<lparr>km_gens := jm_set g (drop_lease s) (km_gens km)\<rparr>)"

text \<open>\<open>refresh\<close>, when its load has answered: keys with the ids already active install nothing.\<close>

definition km_refresh ::
  "(string \<Rightarrow> string) \<Rightarrow> (string \<Rightarrow> bool) \<Rightarrow> raw_key list option \<Rightarrow> int \<Rightarrow> key_manager \<Rightarrow> (key_error option + bool) \<times> key_manager" where
  "km_refresh sha256 valid loaded now km =
     (case loaded of
        None \<Rightarrow> (Inl None, km)
      | Some keys \<Rightarrow>
          (case normaliseKeys sha256 valid keys of
             Inl e \<Rightarrow> (Inl (Some e), km)
           | Inr ks \<Rightarrow>
               if length ks = length (getActiveKeyIds km) \<and> list_all (\<lambda>k. fst k \<in> set (getActiveKeyIds km)) ks
               then (Inr False, km)
               else (Inr True, km_install ks now km)))"

definition new_key_manager ::
  "(string \<Rightarrow> string) \<Rightarrow> (string \<Rightarrow> bool) \<Rightarrow> raw_key list \<Rightarrow> int \<Rightarrow> key_error + key_manager" where
  "new_key_manager sha256 valid secrets now =
     (case normaliseKeys sha256 valid secrets of
        Inl e \<Rightarrow> Inl e
      | Inr ks \<Rightarrow> Inr (km_install ks now \<lparr>km_gens = [], km_current = 0, km_grace = 60000\<rparr>))"

section \<open>What normalising gives\<close>

lemma normalise_loop_kids:
  "normalise_loop sha256 valid rs seen = Inr ks \<Longrightarrow>
    distinct (map fst ks) \<and> set (map fst ks) \<inter> set seen = {} \<and> (\<forall>k \<in> set ks. valid (snd k) \<and> snd k \<noteq> []) \<and> length ks = length rs"
proof (induction sha256 valid rs seen arbitrary: ks rule: normalise_loop.induct)
  case (2 sha256 valid r rs seen)
  obtain s where s: "raw_secret r = Some s" "s \<noteq> []" "valid s"
    using 2(2) by (auto split: option.splits if_splits)
  let ?kid = "raw_kid sha256 r s"
  obtain ks' where ks': "?kid \<notin> set seen" "normalise_loop sha256 valid rs (?kid # seen) = Inr ks'" "ks = (?kid, s) # ks'"
    using 2(2) s by (auto simp: Let_def split: if_splits sum.splits)
  have "distinct (map fst ks') \<and> set (map fst ks') \<inter> set (?kid # seen) = {} \<and> (\<forall>k \<in> set ks'. valid (snd k) \<and> snd k \<noteq> []) \<and> length ks' = length rs"
    using 2(1) [OF s(1) _ refl, of ks'] ks' s by simp
  with ks' s show ?case by auto
qed simp

lemma normaliseKeys_ok:
  "normaliseKeys sha256 valid rs = Inr ks \<Longrightarrow> ks \<noteq> [] \<and> distinct (map fst ks) \<and> (\<forall>k \<in> set ks. valid (snd k))"
  using normalise_loop_kids [of sha256 valid rs "[]" ks]
  by (auto simp: normaliseKeys_def split: if_splits)

section \<open>Leases\<close>

text \<open>The holders of snapshots, by the generation each was given.\<close>

datatype km_op = K_install "(string \<times> string) list" int | K_snapshot | K_release nat int | K_purge int

text \<open>A release is made once per snapshot: it takes one holder off the list.\<close>

fun km_apply :: "km_op \<Rightarrow> key_manager \<times> nat list \<Rightarrow> key_manager \<times> nat list" where
  "km_apply (K_install keys now) (km, hs) = (if keys = [] then (km, hs) else (km_install keys now km, hs))"
| "km_apply K_snapshot (km, hs) = (snd (km_snapshot km), fst (km_snapshot km) # hs)"
| "km_apply (K_release g now) (km, hs) = (if g \<in> set hs then (km_release g now km, remove1 g hs) else (km, hs))"
| "km_apply (K_purge now) (km, hs) = (purgeRetired now km, hs)"

definition leases_ok :: "key_manager \<Rightarrow> nat list \<Rightarrow> bool" where
  "leases_ok km hs \<longleftrightarrow> jm_wf (km_gens km)
     \<and> (\<forall>p \<in> set (km_gens km). fst p \<le> km_current km \<and> gn_entries (snd p) \<noteq> []
          \<and> (\<forall>e \<in> set (gn_entries (snd p)). ke_leases e = count_list hs (fst p)))
     \<and> (\<forall>g \<in> insert (km_current km) (set hs). jm_get (km_gens km) g \<noteq> None)"

lemma count_list_remove1: "count_list (remove1 x xs) y = count_list xs y - (if x = y then 1 else 0)"
  by (induction xs) auto

lemma count_list_zero: "x \<notin> set xs \<Longrightarrow> count_list xs x = 0"
  by (induction xs) auto

lemma leases_ok_purge:
  assumes "leases_ok km hs"
  shows "leases_ok (purgeRetired now km) hs"
proof -
  have wf: "jm_wf (km_gens km)" using assms by (simp add: leases_ok_def)
  have keep: "jm_get (km_gens (purgeRetired now km)) g \<noteq> None" if g: "g \<in> insert (km_current km) (set hs)" for g
  proof -
    obtain s where s: "jm_get (km_gens km) g = Some s" using assms g by (auto simp: leases_ok_def)
    have mem: "(g, s) \<in> set (km_gens km)" by (rule map_of_SomeD [OF s])
    have "\<not> purgeable km now (g, s)"
    proof (cases "g = km_current km")
      case False
      then have "count_list hs g \<noteq> 0" using g by (simp add: count_list_0_iff)
      moreover have "gn_entries s \<noteq> [] \<and> (\<forall>e \<in> set (gn_entries s). ke_leases e = count_list hs g)"
        using assms mem by (fastforce simp: leases_ok_def)
      ultimately have "\<not> idle s" by (cases "gn_entries s") (auto simp: idle_def)
      then show ?thesis by (simp add: purgeable_def)
    qed (simp add: purgeable_def)
    with s show ?thesis by (simp add: purgeRetired_def map_of_filter_wf [OF wf])
  qed
  with assms show ?thesis by (auto simp: leases_ok_def purgeRetired_def)
qed

lemma leases_ok_set:
  assumes ok: "leases_ok km hs" and g: "jm_get (km_gens km) g \<noteq> None" and s: "gn_entries s \<noteq> []"
    and e: "\<And>x. x \<in> set (gn_entries s) \<Longrightarrow> ke_leases x = count_list hs' g"
    and same: "\<And>j. j \<noteq> g \<Longrightarrow> count_list hs' j = count_list hs j" and sub: "set hs' \<subseteq> insert g (set hs)"
  shows "leases_ok (km\<lparr>km_gens := jm_set g s (km_gens km)\<rparr>) hs'"
proof -
  have wf: "jm_wf (km_gens km)" using ok by (simp add: leases_ok_def)
  have "fst p \<le> km_current km \<and> gn_entries (snd p) \<noteq> [] \<and> (\<forall>x \<in> set (gn_entries (snd p)). ke_leases x = count_list hs' (fst p))"
    if p: "p \<in> set (jm_set g s (km_gens km))" for p
  proof -
    obtain j t where pj: "p = (j, t)" by (cases p)
    have get: "jm_get (jm_set g s (km_gens km)) j = Some t" using p pj wf by simp
    obtain t0 where t0: "(g, t0) \<in> set (km_gens km)" using g by (auto dest: map_of_SomeD)
    show ?thesis
    proof (cases "j = g")
      case True
      with get have "t = s" by (simp add: jm_get_set)
      with True ok t0 s e pj show ?thesis by (fastforce simp: leases_ok_def)
    next
      case False
      with get have "(j, t) \<in> set (km_gens km)" by (auto simp: jm_get_set dest: map_of_SomeD)
      with ok False same pj show ?thesis by (fastforce simp: leases_ok_def)
    qed
  qed
  moreover have "jm_get (jm_set g s (km_gens km)) j \<noteq> None" if "j \<in> insert (km_current km) (set hs')" for j
    using that ok g sub by (auto simp: jm_get_set leases_ok_def)
  ultimately show ?thesis using wf by (simp add: leases_ok_def)
qed

lemma leases_ok_install:
  assumes ok: "leases_ok km hs" and keys: "keys \<noteq> []"
  shows "leases_ok (km_install keys now km) hs"
proof -
  let ?g = "Suc (km_current km)"
  let ?s = "\<lparr>gn_entries = map (\<lambda>(kid, s). \<lparr>ke_kid = kid, ke_secret = s, ke_leases = 0\<rparr>) keys, gn_retiredAt = None\<rparr>"
  let ?gens = "map (retire ?g now) (jm_set ?g ?s (km_gens km))"
  have wf: "jm_wf (km_gens km)" using ok by (simp add: leases_ok_def)
  have none: "jm_get (km_gens km) ?g = None"
    using ok by (force simp: map_of_eq_None_iff leases_ok_def)
  then have gh: "?g \<notin> set hs" using ok by (auto simp: leases_ok_def)
  have set: "jm_set ?g ?s (km_gens km) = km_gens km @ [(?g, ?s)]" by (rule jm_set_new [OF none])
  have fst: "fst (retire ?g now p) = fst p" and entries: "gn_entries (snd (retire ?g now p)) = gn_entries (snd p)" for p
    by (simp_all add: retire_def)
  have keys': "map fst ?gens = map fst (km_gens km) @ [?g]" unfolding set by (simp add: fst o_def)
  have gens: "km_gens (km\<lparr>km_gens := ?gens, km_current := ?g\<rparr>) = ?gens" by simp
  have "leases_ok (km\<lparr>km_gens := ?gens, km_current := ?g\<rparr>) hs"
    unfolding leases_ok_def
  proof (intro conjI ballI)
    show "jm_wf (km_gens (km\<lparr>km_gens := ?gens, km_current := ?g\<rparr>))"
    proof -
      have "distinct (map fst (km_gens km) @ [?g])"
        using wf none by (simp add: map_of_eq_None_iff)
      then show ?thesis unfolding gens keys' .
    qed
  next
    fix p assume "p \<in> set (km_gens (km\<lparr>km_gens := ?gens, km_current := ?g\<rparr>))"
    then obtain q where q: "p = retire ?g now q" "q \<in> set (km_gens km) \<or> q = (?g, ?s)" by (auto simp: set)
    have "fst q \<le> ?g \<and> gn_entries (snd q) \<noteq> [] \<and> (\<forall>e \<in> set (gn_entries (snd q)). ke_leases e = count_list hs (fst q))"
      using q(2)
    proof
      assume "q \<in> set (km_gens km)"
      with ok show ?thesis by (fastforce simp: leases_ok_def)
    next
      assume "q = (?g, ?s)"
      with keys count_list_zero [OF gh] show ?thesis by auto
    qed
    then show "fst p \<le> km_current (km\<lparr>km_gens := ?gens, km_current := ?g\<rparr>)" "gn_entries (snd p) \<noteq> []"
      "\<And>e. e \<in> set (gn_entries (snd p)) \<Longrightarrow> ke_leases e = count_list hs (fst p)"
      by (simp_all add: q(1) fst entries)
  next
    fix j assume "j \<in> insert (km_current (km\<lparr>km_gens := ?gens, km_current := ?g\<rparr>)) (set hs)"
    then have "j \<in> set (map fst (km_gens km) @ [?g])"
      using ok by (auto simp: leases_ok_def map_of_eq_None_iff)
    then have "j \<in> set (map fst ?gens)" by (simp only: keys')
    then show "jm_get (km_gens (km\<lparr>km_gens := ?gens, km_current := ?g\<rparr>)) j \<noteq> None"
      unfolding gens by (simp only: map_of_eq_None_iff set_map not_not)
  qed
  then show ?thesis
    unfolding km_install_def Let_def Suc_eq_plus1 by (rule leases_ok_purge)
qed

lemma leases_ok_apply:
  assumes "leases_ok km hs" "km_apply x (km, hs) = (km', hs')"
  shows "leases_ok km' hs'"
proof (cases x)
  case (K_install keys now)
  with assms show ?thesis by (auto simp: leases_ok_install split: if_splits)
next
  case K_snapshot
  obtain g where g: "getCurrent km = Some g" using assms(1) by (auto simp: leases_ok_def getCurrent_def)
  have mem: "(km_current km, g) \<in> set (km_gens km)" using g by (auto simp: getCurrent_def dest: map_of_SomeD)
  have ent: "gn_entries g \<noteq> []" "\<forall>e \<in> set (gn_entries g). ke_leases e = count_list hs (km_current km)"
    using assms(1) mem by (fastforce simp: leases_ok_def)+
  have "leases_ok (km\<lparr>km_gens := jm_set (km_current km) (take_lease g) (km_gens km)\<rparr>) (km_current km # hs)"
    by (rule leases_ok_set [OF assms(1)]) (use g ent in \<open>auto simp: getCurrent_def take_lease_def\<close>)
  with assms(2) g K_snapshot show ?thesis by (auto simp: km_snapshot_def)
next
  case (K_release g now)
  show ?thesis
  proof (cases "g \<in> set hs")
    case True
    then obtain s where s: "jm_get (km_gens km) g = Some s" using assms(1) by (auto simp: leases_ok_def)
    have mem: "(g, s) \<in> set (km_gens km)" by (rule map_of_SomeD [OF s])
    have ent: "gn_entries s \<noteq> []" "\<forall>e \<in> set (gn_entries s). ke_leases e = count_list hs g"
      using assms(1) mem by (fastforce simp: leases_ok_def)+
    have "leases_ok (km\<lparr>km_gens := jm_set g (drop_lease s) (km_gens km)\<rparr>) (remove1 g hs)"
      by (rule leases_ok_set [OF assms(1)])
        (use s ent set_remove1_subset [of g hs] in \<open>auto simp: drop_lease_def count_list_remove1\<close>)
    with leases_ok_purge assms(2) K_release True s show ?thesis by (auto simp: km_release_def)
  next
    case False
    with assms K_release show ?thesis by simp
  qed
next
  case (K_purge now)
  with assms leases_ok_purge show ?thesis by auto
qed

lemma leases_ok_run:
  "leases_ok km hs \<Longrightarrow> fold km_apply xs (km, hs) = (km', hs') \<Longrightarrow> leases_ok km' hs'"
proof (induction xs arbitrary: km hs)
  case (Cons x xs)
  obtain km1 hs1 where x: "km_apply x (km, hs) = (km1, hs1)" by (metis surj_pair)
  with Cons leases_ok_apply [OF Cons.prems(1) x] show ?case by simp
qed simp

lemma leases_ok_new:
  assumes "new_key_manager sha256 valid secrets now = Inr km"
  shows "leases_ok km []"
proof -
  obtain ks where ks: "normaliseKeys sha256 valid secrets = Inr ks" and km: "km = km_install ks now \<lparr>km_gens = [], km_current = 0, km_grace = 60000\<rparr>"
    using assms by (auto simp: new_key_manager_def split: sum.splits)
  have ne: "ks \<noteq> []" using normaliseKeys_ok [OF ks] by simp
  have "leases_ok (\<lparr>km_gens = [(1, \<lparr>gn_entries = map (\<lambda>(kid, s). \<lparr>ke_kid = kid, ke_secret = s, ke_leases = 0\<rparr>) ks, gn_retiredAt = None\<rparr>)],
      km_current = 1, km_grace = 60000\<rparr>) []"
    using ne by (auto simp: leases_ok_def)
  from leases_ok_purge [OF this, of now] show ?thesis
    by (simp add: km km_install_def retire_def)
qed

end
