(* ===== verification/RateLimitStores.thy ===== *)
theory RateLimitStores
  imports JsPrelude
begin

text \<open>
  The stores behind the rate limiter: \<open>src/rate-limit-store.js\<close> (memory and Postgres) and
  \<open>src/crdt-rate-limit-store.js\<close> (multi-region). A bucket is a count and the second it resets
  at. Locale \<open>bucket_store\<close> is the contract the limiter relies on, over the abstract view
  \<open>stored\<close> of a store's buckets.
\<close>

record bucket =
  bk_count :: int
  bk_reset :: int

type_synonym bucket_map = "(string, bucket) jsmap"

text \<open>What a store answers: a count and a reset time, \<open>undefined\<close> as \<open>None\<close>.\<close>

type_synonym usage = "int \<times> jsnum"

section \<open>MemoryStore\<close>

record mem_rl =
  rl_map :: bucket_map
  rl_max :: nat

definition live_bucket :: "int \<Rightarrow> bucket option \<Rightarrow> bucket option" where
  "live_bucket nowSec b = (case b of None \<Rightarrow> None | Some x \<Rightarrow> if bk_reset x \<le> nowSec then None else Some x)"

definition rlm_get :: "mem_rl \<Rightarrow> string \<Rightarrow> int \<Rightarrow> usage option" where
  "rlm_get st bucketId nowSec =
     map_option (\<lambda>b. (bk_count b, Fin (bk_reset b))) (live_bucket nowSec (jm_get (rl_map st) bucketId))"

text \<open>Sheds the buckets that reset soonest until the map fits.\<close>

definition shed_oldest :: "nat \<Rightarrow> bucket_map \<Rightarrow> bucket_map" where
  "shed_oldest maxSize m =
     (if length m > maxSize
      then foldl (\<lambda>m' e. jm_delete (fst e) m') m
             (take (length m - maxSize) (js_sort_by (\<lambda>e. bk_reset (snd e)) m))
      else m)"

definition rlm_increment :: "string \<Rightarrow> int \<Rightarrow> int \<Rightarrow> int \<Rightarrow> mem_rl \<Rightarrow> usage \<times> mem_rl" where
  "rlm_increment bucketId amount resetAtSec nowSec st =
     (let b0 = nullish_or (live_bucket nowSec (jm_get (rl_map st) bucketId)) \<lparr>bk_count = 0, bk_reset = resetAtSec\<rparr>;
          b = b0\<lparr>bk_count := bk_count b0 + amount\<rparr>
      in ((bk_count b, Fin (bk_reset b)), st\<lparr>rl_map := shed_oldest (rl_max st) (jm_set bucketId b (rl_map st))\<rparr>))"

definition rlm_sweep :: "int \<Rightarrow> mem_rl \<Rightarrow> mem_rl" where
  "rlm_sweep nowSec st = st\<lparr>rl_map := filter (\<lambda>e. \<not> bk_reset (snd e) \<le> nowSec) (rl_map st)\<rparr>"

section \<open>PostgresStore\<close>

text \<open>
  The table by primary key. The statements select \<open>reset_at\<close>, and the rows are read as
  \<open>rows[0].resetAt\<close>: a column the result does not have, so \<open>Number(undefined)\<close>.
\<close>

definition rlp_get :: "bucket_map \<Rightarrow> string \<Rightarrow> int \<Rightarrow> usage option" where
  "rlp_get tbl bucketId nowSec =
     (case jm_get tbl bucketId of
        None \<Rightarrow> None
      | Some row \<Rightarrow> if bk_reset row > nowSec then Some (bk_count row, NaN) else None)"

definition rlp_increment :: "string \<Rightarrow> int \<Rightarrow> int \<Rightarrow> int \<Rightarrow> bucket_map \<Rightarrow> usage \<times> bucket_map" where
  "rlp_increment bucketId amount resetAtSec nowSec tbl =
     (let row = (case jm_get tbl bucketId of
                   None \<Rightarrow> \<lparr>bk_count = amount, bk_reset = resetAtSec\<rparr>
                 | Some old \<Rightarrow> \<lparr>bk_count = (if bk_reset old > nowSec then bk_count old + amount else amount),
                                bk_reset = resetAtSec\<rparr>)
      in ((bk_count row, NaN), jm_set bucketId row tbl))"

definition rlp_sweep :: "int \<Rightarrow> bucket_map \<Rightarrow> bucket_map" where
  "rlp_sweep nowSec tbl = filter (\<lambda>e. \<not> bk_reset (snd e) \<le> nowSec) tbl"

section \<open>CrdtRateLimitStore\<close>

record remote_row =
  rr_count :: int
  rr_reset :: int
  rr_region :: string

type_synonym remote_table = "(string, remote_row) jsmap"

record crdt =
  cr_region :: string
  cr_local :: bucket_map
  cr_max :: nat
  cr_degraded :: bool
  cr_has_pool :: bool

text \<open>
  A \<open>BIGINT\<close> column as the driver hands it over: a number, or its decimal string (node-postgres'
  default). \<open>int8\<close> says which; the store converts \<open>count\<close> with \<open>Number\<close> but not \<open>reset_at\<close>.
\<close>

datatype col = ColNum int | ColStr int

fun col_ge :: "col \<Rightarrow> int \<Rightarrow> bool" where
  "col_ge (ColNum n) k = (n \<ge> k)"
| "col_ge (ColStr n) k = (n \<ge> k)"

fun col_identical :: "col \<Rightarrow> int \<Rightarrow> bool" where
  "col_identical (ColNum n) k = (n = k)"
| "col_identical (ColStr n) k = False"

definition crdt_degrade :: "crdt \<Rightarrow> crdt" where
  "crdt_degrade st = st\<lparr>cr_degraded := True\<rparr>"

definition crdt_recover :: "crdt \<Rightarrow> crdt" where
  "crdt_recover st = st\<lparr>cr_degraded := False\<rparr>"

text \<open>The upsert of \<open>_sync\<close>: the row's merged count, \<open>None\<close> when the guard refuses the update.\<close>

definition crdt_upsert :: "string \<Rightarrow> bucket \<Rightarrow> string \<Rightarrow> remote_table \<Rightarrow> int option \<times> remote_table" where
  "crdt_upsert bucketId b region tbl =
     (case jm_get tbl bucketId of
        None \<Rightarrow> (Some (bk_count b),
                 jm_set bucketId \<lparr>rr_count = bk_count b, rr_reset = bk_reset b, rr_region = region\<rparr> tbl)
      | Some old \<Rightarrow>
          if rr_reset old \<le> bk_reset b then
            (let c = (if rr_reset old < bk_reset b then bk_count b else max (rr_count old) (bk_count b))
             in (Some c, jm_set bucketId (old\<lparr>rr_count := c, rr_reset := bk_reset b\<rparr>) tbl))
          else (None, tbl))"

text \<open>The loop of \<open>_sync\<close> over the entries of the local map; a query that throws ends it.\<close>

fun crdt_sync_loop ::
  "(string \<Rightarrow> bool) \<Rightarrow> int \<Rightarrow> (string \<times> bucket) list \<Rightarrow> crdt \<Rightarrow> remote_table \<Rightarrow> crdt \<times> remote_table" where
  "crdt_sync_loop q_ok nowSec [] st tbl = (crdt_recover st, tbl)"
| "crdt_sync_loop q_ok nowSec ((bucketId, b) # es) st tbl =
     (if bk_reset b \<le> nowSec then crdt_sync_loop q_ok nowSec es st tbl
      else if \<not> q_ok bucketId then (crdt_degrade st, tbl)
      else (case crdt_upsert bucketId b (cr_region st) tbl of
              (None, tbl') \<Rightarrow> crdt_sync_loop q_ok nowSec es st tbl'
            | (Some merged, tbl') \<Rightarrow>
                crdt_sync_loop q_ok nowSec es
                  (st\<lparr>cr_local := jm_set bucketId \<lparr>bk_count = merged, bk_reset = bk_reset b\<rparr> (cr_local st)\<rparr>) tbl'))"

definition crdt_sync :: "(string \<Rightarrow> bool) \<Rightarrow> int \<Rightarrow> crdt \<Rightarrow> remote_table \<Rightarrow> crdt \<times> remote_table" where
  "crdt_sync q_ok nowSec st tbl =
     (if cr_degraded st \<or> \<not> cr_has_pool st then (st, tbl)
      else crdt_sync_loop q_ok nowSec (cr_local st) st tbl)"

definition local_usage :: "bucket option \<Rightarrow> (int \<times> col) option" where
  "local_usage b = map_option (\<lambda>x. (bk_count x, ColNum (bk_reset x))) b"

definition crdt_get ::
  "(int \<Rightarrow> col) \<Rightarrow> bool \<Rightarrow> string \<Rightarrow> int \<Rightarrow> crdt \<Rightarrow> remote_table \<Rightarrow> (int \<times> col) option \<times> crdt" where
  "crdt_get int8 q_ok bucketId now st tbl =
     (let lcl = jm_get (cr_local st) bucketId in
      case live_bucket now lcl of
        None \<Rightarrow>
          if cr_degraded st \<or> \<not> cr_has_pool st then (local_usage lcl, st)
          else if \<not> q_ok then (local_usage lcl, crdt_degrade st)
          else (case jm_get tbl bucketId of
                  None \<Rightarrow> (local_usage lcl, st)
                | Some row \<Rightarrow>
                    if col_ge (int8 (rr_reset row)) now
                    then (Some (rr_count row, int8 (rr_reset row)), st)
                    else (local_usage lcl, st))
      | Some b \<Rightarrow>
          if cr_degraded st \<or> \<not> cr_has_pool st then (local_usage lcl, st)
          else if \<not> q_ok then (local_usage lcl, crdt_degrade st)
          else (case jm_get tbl bucketId of
                  None \<Rightarrow> (local_usage lcl, st)
                | Some row \<Rightarrow>
                    if col_identical (int8 (rr_reset row)) (bk_reset b)
                    then (Some (max (bk_count b) (rr_count row), ColNum (bk_reset b)), st)
                    else (local_usage lcl, st)))"

definition crdt_increment :: "string \<Rightarrow> int \<Rightarrow> int \<Rightarrow> int \<Rightarrow> crdt \<Rightarrow> usage \<times> crdt" where
  "crdt_increment bucketId amount resetAt now st =
     (let localCount = (case live_bucket now (jm_get (cr_local st) bucketId) of
                          None \<Rightarrow> amount | Some b \<Rightarrow> bk_count b + amount)
      in ((localCount, Fin resetAt),
          st\<lparr>cr_local := shed_oldest (cr_max st)
               (jm_set bucketId \<lparr>bk_count = localCount, bk_reset = resetAt\<rparr> (cr_local st))\<rparr>))"

definition crdt_sweep :: "bool \<Rightarrow> int \<Rightarrow> crdt \<Rightarrow> remote_table \<Rightarrow> crdt \<times> remote_table" where
  "crdt_sweep q_ok now st tbl =
     (let st' = st\<lparr>cr_local := filter (\<lambda>e. \<not> bk_reset (snd e) \<le> now) (cr_local st)\<rparr> in
      if cr_degraded st' \<or> \<not> cr_has_pool st' then (st', tbl)
      else if \<not> q_ok then (crdt_degrade st', tbl)
      else (st', filter (\<lambda>e. \<not> rr_reset (snd e) \<le> now) tbl))"

section \<open>Shedding\<close>

lemma delete_all: "foldl (\<lambda>m' e. jm_delete (fst e) m') m es = filter (\<lambda>e. fst e \<notin> fst ` set es) m"
proof (induction es arbitrary: m)
  case (Cons e es)
  then show ?case by (auto simp: AList.delete_eq intro!: filter_cong)
qed simp

lemma shed_oldest_wf: "jm_wf m \<Longrightarrow> jm_wf (shed_oldest n m)"
  by (simp add: shed_oldest_def delete_all)

lemma shed_oldest_fits: "length m \<le> n \<Longrightarrow> shed_oldest n m = m"
  by (simp add: shed_oldest_def)

lemma length_shed_oldest:
  assumes "jm_wf m"
  shows "length (shed_oldest n m) \<le> n"
proof (cases "length m > n")
  case True
  let ?s = "js_sort_by (\<lambda>e. bk_reset (snd e)) m"
  let ?t = "take (length m - n) ?s"
  have ks: "distinct (map fst ?s)" using assms by simp
  have "fst ` set (filter (\<lambda>e. fst e \<notin> fst ` set ?t) m) = fst ` set m - fst ` set ?t"
    by auto
  moreover have "distinct (map fst (filter (\<lambda>e. fst e \<notin> fst ` set ?t) m))" using assms by simp
  ultimately have "length (filter (\<lambda>e. fst e \<notin> fst ` set ?t) m) = card (fst ` set m - fst ` set ?t)"
    using distinct_card [of "map fst (filter (\<lambda>e. fst e \<notin> fst ` set ?t) m)"] by (simp only: length_map list.set_map)
  also have "\<dots> = card (fst ` set m) - card (fst ` set ?t)"
  proof (rule card_Diff_subset)
    have "set ?t \<subseteq> set ?s" by (rule set_take_subset)
    then show "fst ` set ?t \<subseteq> fst ` set m" by (metis image_mono set_js_sort_by)
  qed simp
  also have "card (fst ` set m) = length m"
    using distinct_card [OF assms] by (simp only: length_map list.set_map)
  also have "card (fst ` set ?t) = length m - n"
  proof -
    have "distinct (map fst ?t)" using ks by (metis distinct_take take_map)
    from distinct_card [OF this] show ?thesis by simp
  qed
  finally show ?thesis using True by (simp add: shed_oldest_def delete_all)
qed (simp add: shed_oldest_def)

text \<open>Nothing that stays resets before anything that was shed.\<close>

lemma shed_oldest_order:
  assumes "jm_wf m" "x \<in> set m" "x \<notin> set (shed_oldest n m)" "y \<in> set (shed_oldest n m)"
  shows "bk_reset (snd x) \<le> bk_reset (snd y)"
proof -
  let ?s = "js_sort_by (\<lambda>e. bk_reset (snd e)) m"
  let ?t = "take (length m - n) ?s"
  have big: "length m > n" using assms by (auto simp: shed_oldest_def split: if_splits)
  with assms(2,3) have "fst x \<in> fst ` set ?t" by (simp add: shed_oldest_def delete_all)
  then obtain e where e: "e \<in> set ?t" "fst e = fst x" by auto
  then have "e \<in> set m" using in_set_takeD by fastforce
  with e(2) assms(1,2) have "e = x" by (metis distinct_map inj_onD)
  have y: "y \<in> set m" "fst y \<notin> fst ` set ?t" using assms(4) big by (auto simp: shed_oldest_def delete_all)
  then have "y \<notin> set ?t" by auto
  moreover have "y \<in> set ?s" using y(1) by simp
  ultimately have "y \<in> set (drop (length m - n) ?s)"
    by (metis Un_iff append_take_drop_id set_append)
  with e(1) \<open>e = x\<close> sorted_take_drop_le [of x "length m - n" "\<lambda>e. bk_reset (snd e)" m y] show ?thesis by simp
qed

section \<open>The contract of a bucket store\<close>

text \<open>
  The count a stored bucket stands for at a time, and the steps a limiter drives a store with.
\<close>

definition count_at :: "int \<Rightarrow> (int \<times> int) option \<Rightarrow> int" where
  "count_at t b = (case b of None \<Rightarrow> 0 | Some (c, r) \<Rightarrow> if t < r then c else 0)"

datatype bucket_step = Inc string int int | Sweep int

text \<open>
  A run of increments and sweeps; \<open>resets\<close> gives each bucket's reset time, as the limiter derives
  it from the bucket's window.
\<close>

fun bucket_run ::
  "(string \<Rightarrow> int \<Rightarrow> int \<Rightarrow> int \<Rightarrow> 's \<Rightarrow> usage \<times> 's) \<Rightarrow> (int \<Rightarrow> 's \<Rightarrow> 's) \<Rightarrow> (string \<Rightarrow> int) \<Rightarrow> bucket_step list \<Rightarrow> 's \<Rightarrow> 's" where
  "bucket_run increment sweep resets [] s = s"
| "bucket_run increment sweep resets (Inc i a t # xs) s =
     bucket_run increment sweep resets xs (snd (increment i a (resets i) t s))"
| "bucket_run increment sweep resets (Sweep t # xs) s = bucket_run increment sweep resets xs (sweep t s)"

definition total :: "string \<Rightarrow> bucket_step list \<Rightarrow> int" where
  "total i xs = sum_list (map (\<lambda>x. case x of Inc j a _ \<Rightarrow> if j = i then a else 0 | Sweep _ \<Rightarrow> 0) xs)"

text \<open>Every step of the run falls before the end of the windows it touches.\<close>

definition in_window :: "(string \<Rightarrow> int) \<Rightarrow> string \<Rightarrow> bucket_step list \<Rightarrow> bool" where
  "in_window resets i xs \<longleftrightarrow> (\<forall>x \<in> set xs. case x of Inc j _ t \<Rightarrow> t < resets j \<and> t < resets i | Sweep t \<Rightarrow> t < resets i)"

definition bucket_coherent :: "('s \<Rightarrow> string \<Rightarrow> (int \<times> int) option) \<Rightarrow> (string \<Rightarrow> int) \<Rightarrow> 's \<Rightarrow> bool" where
  "bucket_coherent stored resets s \<longleftrightarrow> (\<forall>i c e. stored s i = Some (c, e) \<longrightarrow> e = resets i)"

locale bucket_store =
  fixes stored :: "'s \<Rightarrow> string \<Rightarrow> (int \<times> int) option"
    and get :: "'s \<Rightarrow> string \<Rightarrow> int \<Rightarrow> usage option"
    and increment :: "string \<Rightarrow> int \<Rightarrow> int \<Rightarrow> int \<Rightarrow> 's \<Rightarrow> usage \<times> 's"
    and sweep :: "int \<Rightarrow> 's \<Rightarrow> 's"
    and ok :: "'s \<Rightarrow> bool"
    and room :: "'s \<Rightarrow> nat \<Rightarrow> bool"
  assumes get_count: "ok s \<Longrightarrow> (case get s i t of None \<Rightarrow> 0 | Some u \<Rightarrow> fst u) = count_at t (stored s i)"
    and inc_count: "ok s \<Longrightarrow> fst (fst (increment i a r t s)) = count_at t (stored s i) + a"
    and inc_stored: "ok s \<Longrightarrow> room s (Suc n) \<Longrightarrow> (\<And>c e. stored s i = Some (c, e) \<Longrightarrow> e = r) \<Longrightarrow> t < r \<Longrightarrow>
      stored (snd (increment i a r t s)) = (stored s)(i := Some (count_at t (stored s i) + a, r))"
    and inc_ok: "ok s \<Longrightarrow> ok (snd (increment i a r t s))"
    and inc_room: "ok s \<Longrightarrow> room s (Suc n) \<Longrightarrow> room (snd (increment i a r t s)) n"
    and sweep_stored: "ok s \<Longrightarrow> stored (sweep t s) i
      = (case stored s i of None \<Rightarrow> None | Some (c, e) \<Rightarrow> if t < e then Some (c, e) else None)"
    and sweep_ok: "ok s \<Longrightarrow> ok (sweep t s)"
    and room_Suc: "ok s \<Longrightarrow> room s (Suc n) \<Longrightarrow> room s n"
    and sweep_room: "ok s \<Longrightarrow> room s n \<Longrightarrow> room (sweep t s) n"
begin

abbreviation run :: "(string \<Rightarrow> int) \<Rightarrow> bucket_step list \<Rightarrow> 's \<Rightarrow> 's" where
  "run \<equiv> bucket_run increment sweep"

abbreviation coherent :: "(string \<Rightarrow> int) \<Rightarrow> 's \<Rightarrow> bool" where
  "coherent \<equiv> bucket_coherent stored"

lemma coherent_inc:
  assumes "ok s" "room s (Suc n)" "coherent resets s" "t < resets i"
  shows "coherent resets (snd (increment i a (resets i) t s))"
  using inc_stored [OF assms(1,2) _ assms(4)] assms(3) by (auto simp: bucket_coherent_def)

lemma coherent_sweep: "ok s \<Longrightarrow> coherent resets s \<Longrightarrow> coherent resets (sweep t s)"
  by (auto simp: bucket_coherent_def sweep_stored split: option.splits if_splits)

text \<open>No increment is lost: a bucket's count is what it was plus all that was added to it.\<close>

lemma run_total:
  assumes "ok s" "room s (length xs)" "coherent resets s" "in_window resets i xs" "now < resets i"
  shows "count_at now (stored (run resets xs s) i) = count_at now (stored s i) + total i xs"
  using assms
proof (induction xs arbitrary: s)
  case Nil
  show ?case by (simp add: total_def)
next
  case (Cons x xs)
  from Cons.prems(4) have tail: "in_window resets i xs" by (simp add: in_window_def)
  show ?case
  proof (cases x)
    case (Inc j a t)
    let ?s = "snd (increment j a (resets j) t s)"
    have t: "t < resets j" "t < resets i" using Cons.prems(4) Inc by (simp_all add: in_window_def)
    have room: "room s (Suc (length xs))" using Cons.prems(2) by simp
    have upd: "stored ?s = (stored s)(j := Some (count_at t (stored s j) + a, resets j))"
      using inc_stored [OF Cons.prems(1) room _ t(1)] Cons.prems(3) by (simp add: bucket_coherent_def)
    have step: "count_at now (stored ?s i) = count_at now (stored s i) + (if j = i then a else 0)"
    proof (cases "j = i")
      case True
      have "count_at t (stored s i) = count_at now (stored s i)"
        using Cons.prems(3,5) t(2) by (auto simp: count_at_def bucket_coherent_def split: option.splits)
      with True upd Cons.prems(5) show ?thesis by (simp add: count_at_def [of now "Some _"])
    next
      case False
      with upd show ?thesis by simp
    qed
    have "count_at now (stored (run resets xs ?s) i) = count_at now (stored ?s i) + total i xs"
      using Cons.IH [OF inc_ok [OF Cons.prems(1)] inc_room [OF Cons.prems(1) room]
          coherent_inc [where i = j, OF Cons.prems(1) room Cons.prems(3) t(1)] tail Cons.prems(5)] .
    with step Inc show ?thesis by (simp add: total_def)
  next
    case (Sweep t)
    have t: "t < resets i" using Cons.prems(4) Sweep by (simp add: in_window_def)
    have room: "room (sweep t s) (length xs)"
      using Cons.prems(1,2) by (simp add: sweep_room room_Suc)
    have "stored (sweep t s) i = stored s i"
      using t Cons.prems(3) by (auto simp: sweep_stored [OF Cons.prems(1)] bucket_coherent_def split: option.splits)
    then show ?thesis
      using Cons.IH [OF sweep_ok [OF Cons.prems(1)] room coherent_sweep [OF Cons.prems(1,3)] tail Cons.prems(5)] Sweep
      by (simp add: total_def)
  qed
qed

end

section \<open>The three stores keep it\<close>

definition bucket_view :: "bucket_map \<Rightarrow> string \<Rightarrow> (int \<times> int) option" where
  "bucket_view m i = map_option (\<lambda>b. (bk_count b, bk_reset b)) (jm_get m i)"

lemma bucket_view_set: "bucket_view (jm_set i b m) = (bucket_view m)(i := Some (bk_count b, bk_reset b))"
  by (rule ext) (simp add: bucket_view_def jm_get_set)

lemma bucket_view_sweep:
  assumes "jm_wf m"
  shows "bucket_view (filter (\<lambda>e. \<not> bk_reset (snd e) \<le> t) m) i
    = (case bucket_view m i of None \<Rightarrow> None | Some (c, e) \<Rightarrow> if t < e then Some (c, e) else None)"
  using assms by (auto simp: bucket_view_def map_of_filter_wf split: option.splits)

lemma live_count:
  "count_at t (bucket_view m i) = (case live_bucket t (jm_get m i) of None \<Rightarrow> 0 | Some b \<Rightarrow> bk_count b)"
  by (auto simp: count_at_def bucket_view_def live_bucket_def split: option.splits)

definition fits :: "bucket_map \<Rightarrow> nat \<Rightarrow> nat \<Rightarrow> bool" where
  "fits m cap n \<longleftrightarrow> length m + n \<le> cap"

lemma fits_set: "fits m cap (Suc n) \<Longrightarrow> fits (jm_set i b m) cap n"
  by (simp add: fits_def length_jm_set)

lemma fits_shed: "fits m cap n \<Longrightarrow> shed_oldest cap m = m"
  by (simp add: fits_def shed_oldest_fits)

lemma fits_filter: "fits m cap n \<Longrightarrow> fits (filter P m) cap n"
  unfolding fits_def using length_filter_le [of P m] by linarith

interpretation rlm: bucket_store "\<lambda>st. bucket_view (rl_map st)" rlm_get rlm_increment rlm_sweep
  "\<lambda>st. jm_wf (rl_map st)" "\<lambda>st n. fits (rl_map st) (rl_max st) n"
proof (unfold_locales, goal_cases)
  case (1 s i t)
  show ?case by (simp add: live_count rlm_get_def split: option.splits)
next
  case (2 s i a r t)
  show ?case by (simp add: live_count rlm_increment_def Let_def split: option.splits)
next
  case (3 s n i r t a)
  have "shed_oldest (rl_max s) (jm_set i b (rl_map s)) = jm_set i b (rl_map s)" for b
    using fits_shed [OF fits_set [OF 3(2)]] .
  moreover have "bk_reset b = r" if "live_bucket t (jm_get (rl_map s) i) = Some b" for b
    using that 3(3) by (auto simp: bucket_view_def live_bucket_def split: option.splits if_splits)
  ultimately show ?case
    by (auto simp: rlm_increment_def Let_def bucket_view_set live_count split: option.splits)
next
  case (4 s i a r t)
  then show ?case by (simp add: rlm_increment_def Let_def shed_oldest_wf)
next
  case (5 s n i a r t)
  then show ?case by (simp add: rlm_increment_def Let_def fits_shed [OF fits_set] fits_set)
next
  case (6 s t i)
  then show ?case by (simp add: rlm_sweep_def bucket_view_sweep)
next
  case (7 s t)
  then show ?case by (simp add: rlm_sweep_def)
next
  case (8 s n)
  then show ?case by (simp add: fits_def)
next
  case (9 s n t)
  then show ?case by (simp add: rlm_sweep_def fits_filter)
qed

interpretation rlp: bucket_store bucket_view rlp_get rlp_increment rlp_sweep jm_wf "\<lambda>_ _. True"
proof (unfold_locales, goal_cases)
  case (1 s i t)
  show ?case by (auto simp: live_count rlp_get_def live_bucket_def split: option.splits)
next
  case (2 s i a r t)
  show ?case by (auto simp: live_count rlp_increment_def live_bucket_def Let_def split: option.splits)
next
  case (3 s n i r t a)
  then show ?case
    by (auto simp: rlp_increment_def Let_def bucket_view_set live_count live_bucket_def split: option.splits)
next
  case (6 s t i)
  then show ?case by (simp add: rlp_sweep_def bucket_view_sweep)
qed (auto simp: rlp_increment_def rlp_sweep_def Let_def)

text \<open>The multi-region store as one region alone sees it: its local counters.\<close>

definition crdt_local_get :: "crdt \<Rightarrow> string \<Rightarrow> int \<Rightarrow> usage option" where
  "crdt_local_get st i t =
     map_option (\<lambda>b. (bk_count b, Fin (bk_reset b))) (live_bucket t (jm_get (cr_local st) i))"

definition crdt_local_sweep :: "int \<Rightarrow> crdt \<Rightarrow> crdt" where
  "crdt_local_sweep t st = fst (crdt_sweep True t st [])"

interpretation crdtl: bucket_store "\<lambda>st. bucket_view (cr_local st)" crdt_local_get crdt_increment crdt_local_sweep
  "\<lambda>st. jm_wf (cr_local st)" "\<lambda>st n. fits (cr_local st) (cr_max st) n"
proof (unfold_locales, goal_cases)
  case (1 s i t)
  show ?case by (simp add: live_count crdt_local_get_def split: option.splits)
next
  case (2 s i a r t)
  show ?case by (simp add: live_count crdt_increment_def Let_def split: option.splits)
next
  case (3 s n i r t a)
  have "shed_oldest (cr_max s) (jm_set i b (cr_local s)) = jm_set i b (cr_local s)" for b
    using fits_shed [OF fits_set [OF 3(2)]] .
  then show ?case
    by (auto simp: crdt_increment_def Let_def bucket_view_set live_count split: option.splits)
next
  case (4 s i a r t)
  then show ?case by (simp add: crdt_increment_def Let_def shed_oldest_wf)
next
  case (5 s n i a r t)
  then show ?case by (simp add: crdt_increment_def Let_def fits_shed [OF fits_set] fits_set)
next
  case (6 s t i)
  then show ?case by (simp add: crdt_local_sweep_def crdt_sweep_def bucket_view_sweep Let_def)
next
  case (7 s t)
  then show ?case by (simp add: crdt_local_sweep_def crdt_sweep_def Let_def)
next
  case (8 s n)
  then show ?case by (simp add: fits_def)
next
  case (9 s n t)
  then show ?case by (simp add: crdt_local_sweep_def crdt_sweep_def fits_filter Let_def)
qed

section \<open>What the multi-region merge does\<close>

text \<open>No operation leaves the local-only mode: the sync loop, where \<open>_recover\<close> is, does not run in it.\<close>

datatype crdt_op =
    Op_sync "string \<Rightarrow> bool" int
  | Op_get "int \<Rightarrow> col" bool string int
  | Op_increment string int int int
  | Op_sweep bool int

fun crdt_run :: "crdt_op \<Rightarrow> crdt \<times> remote_table \<Rightarrow> crdt \<times> remote_table" where
  "crdt_run (Op_sync q t) (st, tbl) = crdt_sync q t st tbl"
| "crdt_run (Op_get int8 q i t) (st, tbl) = (snd (crdt_get int8 q i t st tbl), tbl)"
| "crdt_run (Op_increment i a r t) (st, tbl) = (snd (crdt_increment i a r t st), tbl)"
| "crdt_run (Op_sweep q t) (st, tbl) = crdt_sweep q t st tbl"

lemma crdt_run_degraded:
  assumes "cr_degraded st"
  shows "cr_degraded (fst (crdt_run opn (st, tbl))) \<and> snd (crdt_run opn (st, tbl)) = tbl"
  using assms
  by (cases opn) (auto simp: crdt_sync_def crdt_get_def crdt_increment_def crdt_sweep_def Let_def split: option.splits)

lemma crdt_runs_degraded:
  "cr_degraded st \<Longrightarrow> cr_degraded (fst (fold crdt_run ops (st, tbl))) \<and> snd (fold crdt_run ops (st, tbl)) = tbl"
proof (induction ops arbitrary: st)
  case (Cons opn ops)
  obtain st' tbl' where "crdt_run opn (st, tbl) = (st', tbl')" by (metis surj_pair)
  with crdt_run_degraded [OF Cons.prems, of opn tbl] Cons.IH show ?case by simp
qed simp

text \<open>A live bucket is answered from local memory when the driver hands \<open>BIGINT\<close> over as text.\<close>

lemma crdt_get_text_column:
  assumes "live_bucket t (jm_get (cr_local st) i) = Some b" "q_ok"
  shows "fst (crdt_get ColStr q_ok i t st tbl) = Some (bk_count b, ColNum (bk_reset b))"
proof -
  have "jm_get (cr_local st) i = Some b"
    using assms(1) by (auto simp: live_bucket_def split: option.splits if_splits)
  with assms show ?thesis by (auto simp: crdt_get_def local_usage_def Let_def split: option.splits)
qed

lemma crdt_get_number_column:
  assumes "live_bucket t (jm_get (cr_local st) i) = Some b" "q_ok" "\<not> cr_degraded st" "cr_has_pool st"
    "jm_get tbl i = Some row" "rr_reset row = bk_reset b"
  shows "fst (crdt_get ColNum q_ok i t st tbl) = Some (max (bk_count b) (rr_count row), ColNum (bk_reset b))"
  using assms by (simp add: crdt_get_def Let_def)

text \<open>The row of a bucket never goes back: neither its window nor, within one, its count.\<close>

definition row_le :: "remote_row option \<Rightarrow> remote_row option \<Rightarrow> bool" where
  "row_le a b = (case a of None \<Rightarrow> True | Some x \<Rightarrow> (case b of None \<Rightarrow> False | Some y \<Rightarrow>
     rr_reset x < rr_reset y \<or> (rr_reset x = rr_reset y \<and> rr_count x \<le> rr_count y)))"

lemma row_le_refl [simp]: "row_le a a"
  by (simp add: row_le_def split: option.splits)

lemma row_le_trans: "row_le a b \<Longrightarrow> row_le b c \<Longrightarrow> row_le a c"
  by (auto simp: row_le_def split: option.splits)

lemma crdt_upsert_le:
  assumes "crdt_upsert i b rg tbl = (m, tbl')"
  shows "row_le (jm_get tbl j) (jm_get tbl' j)"
  using assms
  by (auto simp: crdt_upsert_def row_le_def jm_get_set Let_def split: option.splits if_splits)

lemma crdt_sync_loop_le:
  "row_le (jm_get tbl j) (jm_get (snd (crdt_sync_loop q t es st tbl)) j)"
proof (induction q t es st tbl rule: crdt_sync_loop.induct)
  case (2 q t i b es st tbl)
  obtain m tbl' where u: "crdt_upsert i b (cr_region st) tbl = (m, tbl')" by (metis surj_pair)
  have le: "row_le (jm_get tbl j) (jm_get tbl' j)" by (rule crdt_upsert_le [OF u])
  show ?case
  proof (cases "bk_reset b \<le> t \<or> \<not> q i")
    case True
    with 2 show ?thesis by auto
  next
    case False
    with 2 u show ?thesis by (cases m) (auto intro: row_le_trans [OF le])
  qed
qed simp

lemma crdt_sync_le: "row_le (jm_get tbl j) (jm_get (snd (crdt_sync q t st tbl)) j)"
  by (simp add: crdt_sync_def crdt_sync_loop_le)

text \<open>
  After a sync of a region's one bucket the region and the table agree on the larger of the two
  counts, whatever part of them the other region had not seen.
\<close>

lemma crdt_sync_max:
  assumes "cr_local st = [(i, b)]" "\<not> cr_degraded st" "cr_has_pool st" "q i" "t < bk_reset b"
    "jm_get tbl i = Some row" "rr_reset row = bk_reset b"
  shows "map_option rr_count (jm_get (snd (crdt_sync q t st tbl)) i) = Some (max (rr_count row) (bk_count b))"
    and "map_option bk_count (jm_get (cr_local (fst (crdt_sync q t st tbl))) i) = Some (max (rr_count row) (bk_count b))"
  using assms by (simp_all add: crdt_sync_def crdt_upsert_def Let_def jm_get_set crdt_recover_def)

section \<open>Shedding a bucket in use\<close>

text \<open>
  At the cap, a bucket whose window ends before those of all the others is shed by the very
  increment that counts into it.
\<close>

lemma rlm_increment_forgotten:
  assumes "jm_wf (rl_map st)" "length (rl_map st) = rl_max st" "jm_get (rl_map st) i = None"
    "\<forall>e \<in> set (rl_map st). r < bk_reset (snd e)"
  shows "rlm_get (snd (rlm_increment i a r t st)) i t' = None"
proof -
  let ?e = "(i, \<lparr>bk_count = a, bk_reset = r\<rparr>)"
  let ?m = "jm_set i \<lparr>bk_count = a, bk_reset = r\<rparr> (rl_map st)"
  have wf: "jm_wf ?m" using assms(1) by simp
  have mem: "?e \<in> set ?m" by (metis jm_get_set map_of_SomeD)
  have "?e \<notin> set (shed_oldest (rl_max st) ?m)"
  proof
    assume in_s: "?e \<in> set (shed_oldest (rl_max st) ?m)"
    have len: "length ?m = Suc (rl_max st)" using assms(2,3) by (simp add: length_jm_set)
    have short: "length (shed_oldest (rl_max st) ?m) \<le> rl_max st" by (rule length_shed_oldest [OF wf])
    have "\<exists>x \<in> set ?m. x \<notin> set (shed_oldest (rl_max st) ?m)"
    proof (rule ccontr)
      assume "\<not> ?thesis"
      then have "set ?m \<subseteq> set (shed_oldest (rl_max st) ?m)" by blast
      then have "card (set ?m) \<le> length (shed_oldest (rl_max st) ?m)"
        by (meson List.finite_set card_length card_mono le_trans)
      moreover have "card (set ?m) = length ?m"
        using wf by (intro distinct_card) (simp add: distinct_map)
      ultimately show False using len short by simp
    qed
    then obtain x where x: "x \<in> set ?m" "x \<notin> set (shed_oldest (rl_max st) ?m)" by blast
    have "bk_reset (snd x) \<le> r" using shed_oldest_order [OF wf x in_s] by simp
    moreover have "x = ?e \<or> x \<in> set (rl_map st)"
      using x(1) by (auto simp: jm_set_new [OF assms(3)])
    ultimately show False using x in_s assms(4) by auto
  qed
  moreover have "jm_wf (shed_oldest (rl_max st) ?m)" by (rule shed_oldest_wf [OF wf])
  moreover have "set (shed_oldest (rl_max st) ?m) \<subseteq> set ?m"
    by (simp add: shed_oldest_def delete_all)
  ultimately have "jm_get (shed_oldest (rl_max st) ?m) i = None"
  proof -
    assume a: "?e \<notin> set (shed_oldest (rl_max st) ?m)" "set (shed_oldest (rl_max st) ?m) \<subseteq> set ?m"
    show ?thesis
    proof (cases "jm_get (shed_oldest (rl_max st) ?m) i")
      case (Some v)
      then have "(i, v) \<in> set (shed_oldest (rl_max st) ?m)" by (rule map_of_SomeD)
      with a(2) have "(i, v) \<in> set ?m" by blast
      then have "jm_get ?m i = Some v" using wf by (metis map_of_is_SomeI)
      with a(1) \<open>(i, v) \<in> set (shed_oldest (rl_max st) ?m)\<close> show ?thesis by (simp add: jm_get_set)
    qed simp
  qed
  with assms(3) show ?thesis
    by (simp add: rlm_get_def rlm_increment_def live_bucket_def Let_def)
qed

end
