(* ===== verification/TrustProxy.thy ===== *)
theory TrustProxy
  imports JsPrelude
begin

unbundle bit_operations_syntax

text \<open>
  Client-address resolution behind proxies: \<open>src/trust-proxy.js\<close>. Addresses are integers in
  their 32- or 128-bit space. Node's \<open>net.isIP\<close> is the parameter \<open>isIP\<close> (4, 6, or 0 for what
  is not an address), and \<open>num\<close> is the part of \<open>Number(...)\<close> the prelude leaves open.
\<close>

section \<open>Addresses\<close>

datatype ip_addr = Ip (ip_kind: nat) (ip_value: int)

definition ipv4ToBigInt :: "string \<Rightarrow> int" where
  "ipv4ToBigInt ip = foldl (\<lambda>acc octet. push_bit 8 acc OR digits_value octet) 0 (js_split (CHR ''.'') ip)"

text \<open>\<open>parseInt(group, 16)\<close> on a group of hex digits.\<close>

definition hex_digit :: "char \<Rightarrow> int" where
  "hex_digit c = (let n = int (of_char c) in
     if 48 \<le> n \<and> n \<le> 57 then n - 48 else if 97 \<le> n \<and> n \<le> 102 then n - 87 else n - 55)"

definition hex_value :: "string \<Rightarrow> int" where
  "hex_value s = foldl (\<lambda>acc c. 16 * acc + hex_digit c) 0 s"

text \<open>\<open>head.split('::')\<close>.\<close>

fun split_double_colon :: "string \<Rightarrow> string list" where
  "split_double_colon (a # b # s) =
     (if a = CHR '':'' \<and> b = CHR '':'' then [] # split_double_colon s
      else (case split_double_colon (b # s) of [] \<Rightarrow> [[a]] | w # ws \<Rightarrow> (a # w) # ws))"
| "split_double_colon s = [s]"

definition groups_of :: "string \<Rightarrow> string list" where
  "groups_of side = (if side = [] then [] else js_split (CHR '':'') side)"

definition ipv6ToBigInt :: "string \<Rightarrow> int option" where
  "ipv6ToBigInt ip =
     (let (before, tail) = (case split_last (CHR '':'') ip of None \<Rightarrow> ([], ip) | Some (b, t) \<Rightarrow> (b @ '':'', t));
          mixed = CHR ''.'' \<in> set tail;
          tailValue = (if mixed then ipv4ToBigInt tail else 0);
          head = (if mixed then before @ ''0:0'' else ip);
          sides = split_double_colon head
      in if length sides > 2 then None
         else (let left = groups_of (hd sides);
                   right = (if length sides = 2 then Some (groups_of (sides ! 1)) else None)
               in case right of
                    None \<Rightarrow> if length left \<noteq> 8 then None
                            else Some (foldl (\<lambda>acc g. push_bit 16 acc OR hex_value g) 0 left OR tailValue)
                  | Some r \<Rightarrow>
                      if 8 < length left + length r then None
                      else Some (foldl (\<lambda>acc g. push_bit 16 acc OR hex_value g) 0
                             (left @ replicate (8 - length left - length r) ''0'' @ r) OR tailValue)))"

definition parseIp :: "(string \<Rightarrow> nat) \<Rightarrow> string \<Rightarrow> ip_addr option" where
  "parseIp isIP ip =
     (let trimmed = js_trim ip in
      if isIP trimmed = 4 then Some (Ip 4 (ipv4ToBigInt trimmed))
      else if isIP trimmed = 6 then map_option (Ip 6) (ipv6ToBigInt trimmed)
      else None)"

definition isIpv4Mapped :: "int \<Rightarrow> bool" where
  "isIpv4Mapped v \<longleftrightarrow> drop_bit 32 v = 65535"

section \<open>CIDR membership\<close>

definition cidr_mask :: "nat \<Rightarrow> nat \<Rightarrow> int" where
  "cidr_mask bits prefix = (if prefix = 0 then 0 else push_bit (bits - prefix) (push_bit prefix 1 - 1))"

text \<open>The two addresses brought into one space, when they can be.\<close>

definition unify_kinds :: "ip_addr \<Rightarrow> ip_addr \<Rightarrow> (nat \<times> int \<times> int) option" where
  "unify_kinds net addr =
     (if ip_kind net = ip_kind addr then Some (ip_kind net, ip_value net, ip_value addr)
      else if ip_kind addr = 6 \<and> isIpv4Mapped (ip_value addr)
        then Some (ip_kind net, ip_value net, ip_value addr AND 4294967295)
      else if ip_kind net = 6 \<and> isIpv4Mapped (ip_value net)
        then Some (4, ip_value net AND 4294967295, ip_value addr)
      else None)"

definition cidr_match :: "nat \<Rightarrow> int option option \<Rightarrow> int \<Rightarrow> int \<Rightarrow> bool" where
  "cidr_match kind prefix net addr =
     (let bits = (if kind = 6 then 128 else 32) in
      case prefix of
        None \<Rightarrow> addr = net
      | Some None \<Rightarrow> False
      | Some (Some p) \<Rightarrow>
          if p < 0 \<or> p > int bits then False
          else (addr AND cidr_mask bits (nat p)) = (net AND cidr_mask bits (nat p)))"

definition ipMatchesCidr :: "(string \<Rightarrow> nat) \<Rightarrow> (string \<Rightarrow> int option) \<Rightarrow> string \<Rightarrow> string \<Rightarrow> bool" where
  "ipMatchesCidr isIP num ip cidr =
     (let (network, prefix) = (case split_last (CHR ''/'') cidr of
                                 None \<Rightarrow> (cidr, None) | Some (n, p) \<Rightarrow> (n, Some (js_integer num p)))
      in case (parseIp isIP network, parseIp isIP ip) of
           (Some net, Some addr) \<Rightarrow>
             (case unify_kinds net addr of
                None \<Rightarrow> False
              | Some (kind, n, a) \<Rightarrow> cidr_match kind prefix n a)
         | _ \<Rightarrow> False)"

section \<open>Trust lists\<close>

definition net_preset :: "string \<Rightarrow> string list option" where
  "net_preset e =
     (if e = ''loopback'' then Some [''127.0.0.1/8'', ''::1/128'']
      else if e = ''linklocal'' then Some [''169.254.0.0/16'', ''fe80::/10'']
      else if e = ''uniquelocal'' then Some [''10.0.0.0/8'', ''172.16.0.0/12'', ''192.168.0.0/16'', ''fc00::/7'']
      else None)"

text \<open>One entry: its CIDRs, or the error a boot fails with.\<close>

definition compile_entry :: "(string \<Rightarrow> nat) \<Rightarrow> string \<Rightarrow> string + string list" where
  "compile_entry isIP entry =
     (case net_preset entry of
        Some cs \<Rightarrow> Inr cs
      | None \<Rightarrow>
          if js_trim entry = [] then Inl entry
          else (let cidr = js_trim entry in
            case split_last (CHR ''/'') cidr of
              None \<Rightarrow> if isIP cidr = 0 then Inl entry else Inr [cidr]
            | Some (network, prefixText) \<Rightarrow>
                if isIP network = 0 then Inl entry
                else if prefixText = [] \<or> \<not> list_all is_digit prefixText
                   \<or> digits_value prefixText > (if isIP network = 6 then 128 else 32) then Inl entry
                else Inr [cidr]))"

fun compileTrustList :: "(string \<Rightarrow> nat) \<Rightarrow> string list \<Rightarrow> string + string list" where
  "compileTrustList isIP [] = Inr []"
| "compileTrustList isIP (e # es) =
     (case compile_entry isIP e of
        Inl err \<Rightarrow> Inl err
      | Inr cs \<Rightarrow> (case compileTrustList isIP es of Inl err \<Rightarrow> Inl err | Inr ds \<Rightarrow> Inr (cs @ ds)))"

text \<open>The compiled matcher.\<close>

definition list_trusts :: "(string \<Rightarrow> nat) \<Rightarrow> (string \<Rightarrow> int option) \<Rightarrow> string list \<Rightarrow> string option \<Rightarrow> bool" where
  "list_trusts isIP num cidrs ip =
     (case ip of None \<Rightarrow> False | Some a \<Rightarrow> list_ex (\<lambda>c. ipMatchesCidr isIP num a c) cidrs)"

section \<open>Resolution\<close>

definition parseForwardedFor :: "string option \<Rightarrow> string list" where
  "parseForwardedFor raw =
     (case raw of
        None \<Rightarrow> []
      | Some h \<Rightarrow> filter (\<lambda>e. e \<noteq> []) (map js_trim (js_split (CHR '','') h)))"

definition CLOUDFLARE_IPV4_RANGES :: "string list" where
  "CLOUDFLARE_IPV4_RANGES = [''173.245.48.0/20'', ''103.21.244.0/22'', ''103.22.200.0/22'',
     ''103.31.4.0/22'', ''141.101.64.0/18'', ''108.162.192.0/18'', ''190.93.240.0/20'',
     ''188.114.96.0/20'', ''197.234.240.0/22'', ''198.41.128.0/17'', ''162.158.0.0/15'',
     ''104.16.0.0/13'', ''104.24.0.0/14'', ''172.64.0.0/13'', ''131.0.72.0/22'']"

definition CLOUDFLARE_IPV6_RANGES :: "string list" where
  "CLOUDFLARE_IPV6_RANGES = [''2400:cb00::/32'', ''2606:4700::/32'', ''2803:f800::/32'',
     ''2405:b500::/32'', ''2405:8100::/32'', ''2a06:98c0::/29'', ''2c0f:f248::/32'']"

definition isCloudflareIp :: "(string \<Rightarrow> nat) \<Rightarrow> (string \<Rightarrow> int option) \<Rightarrow> string \<Rightarrow> bool" where
  "isCloudflareIp isIP num ip =
     (let trimmed = js_trim ip; kind = isIP trimmed in
      if kind = 0 then False
      else (let mapped = (case parseIp isIP trimmed of None \<Rightarrow> False | Some a \<Rightarrow> isIpv4Mapped (ip_value a));
                ranges = (if kind = 4 \<or> (kind = 6 \<and> mapped) then CLOUDFLARE_IPV4_RANGES else CLOUDFLARE_IPV6_RANGES)
            in list_ex (\<lambda>c. ipMatchesCidr isIP num trimmed c) ranges))"

record proxied_request =
  rq_peer :: "string option"
  rq_cf_connecting_ip :: "string option"
  rq_forwarded_for :: "string option"

datatype trust_setting = Trust_none | Trust_hops int | Trust_list "string list"

text \<open>The walk over a proxy list: the first entry it does not trust, else the last.\<close>

fun walk_chain :: "(string option \<Rightarrow> bool) \<Rightarrow> string option \<Rightarrow> string option list \<Rightarrow> string option" where
  "walk_chain trusts peer [] = peer"
| "walk_chain trusts peer [e] = nullish e peer"
| "walk_chain trusts peer (e # f # es) =
     (if trusts e then walk_chain trusts peer (f # es) else nullish e peer)"

definition hop_client :: "int \<Rightarrow> string list \<Rightarrow> string option \<Rightarrow> string option" where
  "hop_client trust forwarded peer =
     (let hops = max 0 trust;
          chain = map Some forwarded @ [peer];
          boundary = int (length chain) - 1 - hops
      in if boundary < 0 then peer else nullish (chain ! nat boundary) peer)"

definition forwarded_client ::
  "(string \<Rightarrow> nat) \<Rightarrow> (string \<Rightarrow> int option) \<Rightarrow> trust_setting \<Rightarrow> string list \<Rightarrow> string option \<Rightarrow> string option" where
  "forwarded_client isIP num trust forwarded peer =
     (case trust of
        Trust_none \<Rightarrow> peer
      | Trust_hops n \<Rightarrow> hop_client n forwarded peer
      | Trust_list cidrs \<Rightarrow> walk_chain (list_trusts isIP num cidrs) peer (peer # map Some (rev forwarded)))"

definition resolveClientIp ::
  "(string \<Rightarrow> nat) \<Rightarrow> (string \<Rightarrow> int option) \<Rightarrow> proxied_request \<Rightarrow> trust_setting \<Rightarrow> string option" where
  "resolveClientIp isIP num req trust =
     (let peer = rq_peer req;
          edge = (case peer of None \<Rightarrow> False | Some p \<Rightarrow> isCloudflareIp isIP num p);
          candidate = map_option js_trim (rq_cf_connecting_ip req)
      in if edge \<and> (case candidate of None \<Rightarrow> False | Some c \<Rightarrow> isIP c \<noteq> 0) then candidate
         else forwarded_client isIP num trust (parseForwardedFor (rq_forwarded_for req)) peer)"

text \<open>The hook: \<open>req.ip\<close> once resolved.\<close>

definition trust_proxy_hook ::
  "(string \<Rightarrow> nat) \<Rightarrow> (string \<Rightarrow> int option) \<Rightarrow> trust_setting \<Rightarrow> proxied_request \<Rightarrow> string option \<Rightarrow> string option" where
  "trust_proxy_hook isIP num trust req ip = nullish (resolveClientIp isIP num req trust) ip"

section \<open>Membership is agreement on the leading bits\<close>

lemma cidr_mask_bit:
  assumes "p \<le> bits"
  shows "bit (cidr_mask bits p) i \<longleftrightarrow> bits - p \<le> i \<and> i < bits"
proof -
  have "push_bit p 1 - 1 = (mask p :: int)" by (simp add: mask_eq_exp_minus_1 push_bit_of_1)
  with assms show ?thesis
    by (auto simp: cidr_mask_def bit_push_bit_iff bit_mask_iff possible_bit_def)
qed

lemma bit_bound: "0 \<le> v \<Longrightarrow> v < 2 ^ n \<Longrightarrow> bit v i \<Longrightarrow> i < n" for v :: int
  by (metis bit_take_bit_iff take_bit_int_eq_self)

lemma mask_agree:
  fixes a n :: int
  assumes "p \<le> bits" "0 \<le> a" "a < 2 ^ bits" "0 \<le> n" "n < 2 ^ bits"
  shows "(a AND cidr_mask bits p) = (n AND cidr_mask bits p) \<longleftrightarrow> drop_bit (bits - p) a = drop_bit (bits - p) n"
proof
  assume l: "(a AND cidr_mask bits p) = (n AND cidr_mask bits p)"
  show "drop_bit (bits - p) a = drop_bit (bits - p) n"
  proof (rule bit_eqI)
    fix i
    have "bit (a AND cidr_mask bits p) (bits - p + i) = bit (n AND cidr_mask bits p) (bits - p + i)"
      using l by simp
    then show "bit (drop_bit (bits - p) a) i = bit (drop_bit (bits - p) n) i"
      using bit_bound [OF assms(2,3)] bit_bound [OF assms(4,5)]
      by (auto simp: bit_and_iff cidr_mask_bit [OF assms(1)] bit_drop_bit_eq)
  qed
next
  assume r: "drop_bit (bits - p) a = drop_bit (bits - p) n"
  show "(a AND cidr_mask bits p) = (n AND cidr_mask bits p)"
  proof (rule bit_eqI)
    fix i
    have "bits - p \<le> i \<Longrightarrow> bit a i = bit n i"
      using r by (metis bit_drop_bit_eq comp_apply le_add_diff_inverse)
    then show "bit (a AND cidr_mask bits p) i = bit (n AND cidr_mask bits p) i"
      by (auto simp: bit_and_iff cidr_mask_bit [OF assms(1)])
  qed
qed

text \<open>A /p block: the addresses that differ from the network only in the last bits - p places.\<close>

lemma cidr_match_block:
  fixes a n :: int
  assumes "0 \<le> a" "a < 2 ^ bits" "0 \<le> n" "n < 2 ^ bits" "0 \<le> p" "p \<le> int bits"
    "bits = (if kind = 6 then 128 else 32)"
  shows "cidr_match kind (Some (Some p)) n a \<longleftrightarrow> a div 2 ^ (bits - nat p) = n div 2 ^ (bits - nat p)"
  using mask_agree [of "nat p" bits a n] assms
  by (simp add: cidr_match_def Let_def drop_bit_eq_div)

section \<open>What a client can and cannot claim\<close>

text \<open>Entries left of the hop boundary have no say.\<close>

lemma hop_client_prefix:
  assumes "max 0 n \<le> int (length forwarded)"
  shows "hop_client n (claimed @ forwarded) peer = hop_client n forwarded peer"
proof -
  let ?h = "nat (max 0 n)"
  have h: "?h \<le> length forwarded" using assms by linarith
  have i1: "nat (int (length (map Some (claimed @ forwarded) @ [peer])) - 1 - max 0 n) = length claimed + (length forwarded - ?h)"
    and i2: "nat (int (length (map Some forwarded @ [peer])) - 1 - max 0 n) = length forwarded - ?h"
    using h by (simp_all add: nat_diff_distrib')
  have "(map Some (claimed @ forwarded) @ [peer]) ! (length claimed + (length forwarded - ?h))
      = (map Some forwarded @ [peer]) ! (length forwarded - ?h)"
    by (simp add: nth_append)
  moreover have "\<not> int (length (map Some (claimed @ forwarded) @ [peer])) - 1 - max 0 n < 0"
    "\<not> int (length (map Some forwarded @ [peer])) - 1 - max 0 n < 0"
    using assms by (simp_all add: not_less)
  ultimately show ?thesis
    unfolding hop_client_def Let_def i1 i2 by simp
qed

lemma hop_client_short:
  "int (length forwarded) < n \<Longrightarrow> hop_client n forwarded peer = peer"
  by (simp add: hop_client_def)

text \<open>The walk stops at the first entry it does not trust.\<close>

lemma walk_chain_stops:
  assumes "\<forall>e \<in> set xs. trusts e" "\<not> trusts e"
  shows "walk_chain trusts peer (xs @ e # ys) = nullish e peer"
  using assms
proof (induction xs)
  case Nil
  then show ?case by (cases ys) simp_all
next
  case (Cons x xs)
  then show ?case by (cases xs) simp_all
qed

lemma walk_chain_all_trusted:
  "\<forall>e \<in> set xs. trusts e \<Longrightarrow> xs \<noteq> [] \<Longrightarrow> walk_chain trusts peer xs = nullish (last xs) peer"
  by (induction trusts peer xs rule: walk_chain.induct) auto

lemma forwarded_list_boundary:
  assumes "list_trusts isIP num cidrs peer" "\<forall>e \<in> set proxies. list_trusts isIP num cidrs (Some e)"
    "\<not> list_trusts isIP num cidrs (Some client)"
  shows "forwarded_client isIP num (Trust_list cidrs) (claimed @ client # proxies) peer = Some client"
proof -
  have "walk_chain (list_trusts isIP num cidrs) peer ((peer # map Some (rev proxies)) @ Some client # map Some (rev claimed))
      = nullish (Some client) peer"
    using assms by (intro walk_chain_stops) auto
  then show ?thesis by (simp add: forwarded_client_def)
qed

lemma forwarded_list_untrusted_peer:
  assumes "\<not> list_trusts isIP num cidrs peer"
  shows "forwarded_client isIP num (Trust_list cidrs) forwarded peer = peer"
  using walk_chain_stops [of "[]" "list_trusts isIP num cidrs" peer peer "map Some (rev forwarded)"] assms
  by (cases peer) (simp_all add: forwarded_client_def)

text \<open>\<open>parseForwardedFor\<close> of what a proxy appended to a header is the list with the entry appended.\<close>

lemma js_split_append: "js_split c (s @ c # t) = js_split c s @ js_split c t"
  by (induction s) (auto split: list.splits)

lemma parseForwardedFor_append:
  "parseForwardedFor (Some (h @ CHR '','' # t)) = parseForwardedFor (Some h) @ parseForwardedFor (Some t)"
  by (simp add: parseForwardedFor_def js_split_append)

end
