(* ===== verification/RateLimiter.thy ===== *)
theory RateLimiter
  imports RateLimitStores TrustProxy
begin

text \<open>
  The rate limiter and its HTTP side: \<open>src/rate-limit.js\<close> and \<open>src/rate-limit-http.js\<close>. The
  limiter reaches its buckets only through the store it is given, so the store's operations are
  a record of functions over its state; a call that throws answers \<open>None\<close>. One operation reads
  the clock once (\<open>now\<close>, in seconds); the operations that make several checks take the readings
  as a sequence. Key ids are ASCII, so \<open>toUpperCase\<close> is letter by letter.
\<close>

section \<open>The store interface\<close>

record 's rl_ops =
  s_get :: "string \<Rightarrow> int \<Rightarrow> 's \<Rightarrow> usage option option \<times> 's"
  s_increment :: "string \<Rightarrow> int \<Rightarrow> int \<Rightarrow> int \<Rightarrow> 's \<Rightarrow> usage option \<times> 's"
  s_sweep :: "int \<Rightarrow> 's \<Rightarrow> 's"

text \<open>A store whose calls always answer.\<close>

definition plain_ops ::
  "('s \<Rightarrow> string \<Rightarrow> int \<Rightarrow> usage option) \<Rightarrow> (string \<Rightarrow> int \<Rightarrow> int \<Rightarrow> int \<Rightarrow> 's \<Rightarrow> usage \<times> 's)
     \<Rightarrow> (int \<Rightarrow> 's \<Rightarrow> 's) \<Rightarrow> 's rl_ops" where
  "plain_ops get increment sweep = \<lparr>s_get = (\<lambda>i t s. (Some (get s i t), s)),
     s_increment = (\<lambda>i a r t s. case increment i a r t s of (u, s') \<Rightarrow> (Some u, s')),
     s_sweep = sweep\<rparr>"

section \<open>Configuration\<close>

record key_limits =
  verifyRpm :: int
  settleRpm :: int
  settleRph :: int
  settleRpd :: int
  feeSpd :: int
  catalogRpm :: int
  catalogReadRpm :: "int option"

record rl_config =
  cf_keys :: "string \<Rightarrow> key_limits option"
  cf_global :: key_limits
  cf_maxFee :: "string \<Rightarrow> int option"
  cf_allowlist :: "string list"

record rl_request =
  rl_keyId :: "string option"
  rl_ip :: string

text \<open>\<open>isValidCidr\<close> and the constructor's refusal of an entry it does not accept.\<close>

definition isValidCidr :: "(string \<Rightarrow> nat) \<Rightarrow> (string \<Rightarrow> int option) \<Rightarrow> string \<Rightarrow> bool" where
  "isValidCidr isIP num entry =
     (case split_last (CHR ''/'') entry of
        None \<Rightarrow> isIP entry \<noteq> 0
      | Some (address, p) \<Rightarrow>
          isIP address \<noteq> 0 \<and>
          (case js_integer num p of
             None \<Rightarrow> False
           | Some prefix \<Rightarrow> 0 \<le> prefix \<and> prefix \<le> (if isIP address = 6 then 128 else 32)))"

definition new_rate_limiter :: "(string \<Rightarrow> nat) \<Rightarrow> (string \<Rightarrow> int option) \<Rightarrow> rl_config \<Rightarrow> string + rl_config" where
  "new_rate_limiter isIP num cfg =
     (case List.find (\<lambda>e. \<not> isValidCidr isIP num e) (cf_allowlist cfg) of
        Some e \<Rightarrow> Inl e
      | None \<Rightarrow> Inr cfg)"

definition getKeyConfig :: "rl_config \<Rightarrow> string option \<Rightarrow> key_limits" where
  "getKeyConfig cfg keyId =
     (case keyId of
        None \<Rightarrow> cf_global cfg
      | Some k \<Rightarrow> nullish_or (cf_keys cfg (js_upper k)) (cf_global cfg))"

text \<open>\<open>req.keyId || req.ip\<close>.\<close>

definition ownerId :: "rl_request \<Rightarrow> string" where
  "ownerId req = (case rl_keyId req of None \<Rightarrow> rl_ip req | Some k \<Rightarrow> if k = [] then rl_ip req else k)"

section \<open>Checks\<close>

record check =
  ck_allowed :: bool
  ck_bypassed :: bool
  ck_limit :: int
  ck_remaining :: jsnum
  ck_reset :: jsnum
  ck_reason :: "string option"

record bypass_audit =
  au_actor :: string
  au_route :: string
  au_cidr :: string

definition allowlistMatch :: "(string \<Rightarrow> string \<Rightarrow> bool) \<Rightarrow> rl_config \<Rightarrow> rl_request \<Rightarrow> string option" where
  "allowlistMatch matches cfg req = List.find (\<lambda>cidr. matches (rl_ip req) cidr) (cf_allowlist cfg)"

definition bypass ::
  "(string \<Rightarrow> string \<Rightarrow> bool) \<Rightarrow> rl_config \<Rightarrow> rl_request \<Rightarrow> string \<Rightarrow> int \<Rightarrow> int \<Rightarrow> (check \<times> bypass_audit) option" where
  "bypass matches cfg req route limit now =
     (case allowlistMatch matches cfg req of
        None \<Rightarrow> None
      | Some cidr \<Rightarrow>
          Some (\<lparr>ck_allowed = True, ck_bypassed = True, ck_limit = limit, ck_remaining = Fin limit,
                 ck_reset = Fin (now + 60), ck_reason = None\<rparr>,
                \<lparr>au_actor = (case rl_keyId req of
                              None \<Rightarrow> ''ip:'' @ rl_ip req
                            | Some k \<Rightarrow> if k = [] then ''ip:'' @ rl_ip req else ''key:'' @ k),
                 au_route = route, au_cidr = cidr\<rparr>))"

definition window_start :: "int \<Rightarrow> int \<Rightarrow> int" where
  "window_start now windowSec = now - now mod windowSec"

definition getBucketId :: "string \<Rightarrow> string \<Rightarrow> int \<Rightarrow> int \<Rightarrow> string" where
  "getBucketId owner type windowSec now =
     owner @ '':'' @ type @ '':'' @ int_str (window_start now windowSec) @ '':'' @ int_str windowSec"

definition computeResetAt :: "int \<Rightarrow> int \<Rightarrow> int" where
  "computeResetAt now windowSec = window_start now windowSec + windowSec"

definition limiter_check ::
  "'s rl_ops \<Rightarrow> string \<Rightarrow> string \<Rightarrow> int \<Rightarrow> int \<Rightarrow> int \<Rightarrow> int \<Rightarrow> 's \<Rightarrow> check \<times> 's" where
  "limiter_check ops owner type windowSec limit amount now st =
     (case s_get ops (getBucketId owner type windowSec now) now st of
        (None, st1) \<Rightarrow>
          (\<lparr>ck_allowed = False, ck_bypassed = False, ck_limit = limit, ck_remaining = Fin 0,
            ck_reset = Fin (computeResetAt now windowSec), ck_reason = Some ''rate_limit_store_unavailable''\<rparr>, st1)
      | (Some b, st1) \<Rightarrow>
          (let st2 = s_sweep ops now st1;
               resetAt = (case b of None \<Rightarrow> Fin (computeResetAt now windowSec) | Some u \<Rightarrow> snd u);
               used = (case b of None \<Rightarrow> 0 | Some u \<Rightarrow> fst u)
           in if used + amount > limit
              then (\<lparr>ck_allowed = False, ck_bypassed = False, ck_limit = limit, ck_remaining = Fin 0,
                     ck_reset = resetAt, ck_reason = None\<rparr>, st2)
              else (\<lparr>ck_allowed = True, ck_bypassed = False, ck_limit = limit,
                     ck_remaining = Fin (limit - used - amount), ck_reset = resetAt, ck_reason = None\<rparr>, st2)))"

text \<open>\<open>if (!res.allowed && !res.reason) res.reason = ...\<close>.\<close>

definition with_reason :: "string \<Rightarrow> check \<Rightarrow> check" where
  "with_reason r c = (if \<not> ck_allowed c \<and> ck_reason c = None then c\<lparr>ck_reason := Some r\<rparr> else c)"

definition single_check ::
  "(string \<Rightarrow> string \<Rightarrow> bool) \<Rightarrow> rl_config \<Rightarrow> 's rl_ops \<Rightarrow> string \<Rightarrow> int \<Rightarrow> string \<Rightarrow> rl_request \<Rightarrow> int \<Rightarrow> 's
     \<Rightarrow> (check \<times> bypass_audit option) \<times> 's" where
  "single_check matches cfg ops type limit reason req now st =
     (case bypass matches cfg req type limit now of
        Some (c, a) \<Rightarrow> ((c, Some a), st)
      | None \<Rightarrow>
          (case limiter_check ops (ownerId req) type 60 limit 1 now st of
             (c, st') \<Rightarrow> ((with_reason reason c, None), st')))"

definition checkVerify where
  "checkVerify matches cfg ops req now st =
     single_check matches cfg ops ''verify'' (verifyRpm (getKeyConfig cfg (rl_keyId req))) ''rate_limit_exceeded'' req now st"

definition checkCatalog where
  "checkCatalog matches cfg ops req now st =
     single_check matches cfg ops ''catalog'' (catalogRpm (getKeyConfig cfg (rl_keyId req))) ''catalog_rate_limited'' req now st"

definition catalog_read_limit :: "rl_config \<Rightarrow> rl_request \<Rightarrow> int" where
  "catalog_read_limit cfg req = nullish_or (catalogReadRpm (getKeyConfig cfg (rl_keyId req))) 60"

definition checkCatalogRead where
  "checkCatalogRead matches cfg ops req now st =
     single_check matches cfg ops ''catalog_read'' (catalog_read_limit cfg req) ''catalog_read_rate_limited'' req now st"

text \<open>\<open>checks.reduce(...)\<close>: the first check with the least remaining.\<close>

definition tighter :: "check \<Rightarrow> check \<Rightarrow> check" where
  "tighter tightest current = (if js_lt (ck_remaining current) (ck_remaining tightest) then current else tightest)"

definition max_fee_for :: "rl_config \<Rightarrow> string option \<Rightarrow> int" where
  "max_fee_for cfg network =
     (case network of
        None \<Rightarrow> 50000
      | Some n \<Rightarrow> if n = [] then 50000 else nullish_or (cf_maxFee cfg n) 50000)"

definition checkSettle ::
  "(string \<Rightarrow> string \<Rightarrow> bool) \<Rightarrow> rl_config \<Rightarrow> 's rl_ops \<Rightarrow> rl_request \<Rightarrow> string option \<Rightarrow> (nat \<Rightarrow> int) \<Rightarrow> 's
     \<Rightarrow> (check \<times> bypass_audit option) \<times> 's" where
  "checkSettle matches cfg ops req network clk st =
     (let owner = ownerId req; limits = getKeyConfig cfg (rl_keyId req) in
      case bypass matches cfg req ''settle'' (settleRpm limits) (clk 0) of
        Some (c, a) \<Rightarrow> ((c, Some a), st)
      | None \<Rightarrow>
          (let (c1, st1) = limiter_check ops owner ''settle'' 60 (settleRpm limits) 1 (clk 1) st;
               (c2, st2) = limiter_check ops owner ''settle'' 3600 (settleRph limits) 1 (clk 2) st1;
               (c3, st3) = limiter_check ops owner ''settle'' 86400 (settleRpd limits) 1 (clk 3) st2
           in case List.find (\<lambda>c. \<not> ck_allowed c) [c1, c2, c3] of
                Some c \<Rightarrow> ((with_reason ''rate_limit_exceeded'' c, None), st3)
              | None \<Rightarrow>
                  (let (fc, st4) = limiter_check ops owner ''fee'' 86400 (feeSpd limits) (max_fee_for cfg network) (clk 4) st3
                   in if \<not> ck_allowed fc then ((with_reason ''fee_ceiling_exceeded'' fc, None), st4)
                      else ((tighter (tighter c1 c2) c3, None), st4))))"

section \<open>Records\<close>

text \<open>\<open>_increment\<close>: a store that throws yields a count of NaN.\<close>

definition limiter_increment ::
  "'s rl_ops \<Rightarrow> string \<Rightarrow> string \<Rightarrow> int \<Rightarrow> int \<Rightarrow> int \<Rightarrow> 's \<Rightarrow> (jsnum \<times> jsnum) \<times> 's" where
  "limiter_increment ops owner type windowSec amount now st =
     (case s_increment ops (getBucketId owner type windowSec now) amount (computeResetAt now windowSec) now st of
        (Some (c, r), st') \<Rightarrow> ((Fin c, r), st')
      | (None, st') \<Rightarrow> ((NaN, Fin (computeResetAt now windowSec)), st'))"

definition postRecordRemaining :: "int \<Rightarrow> jsnum \<Rightarrow> int" where
  "postRecordRemaining limit cnt = max 0 (limit - (case cnt of Fin c \<Rightarrow> c | NaN \<Rightarrow> 1))"

definition recorded :: "int \<Rightarrow> int \<Rightarrow> jsnum \<Rightarrow> check" where
  "recorded limit remaining resetAt = \<lparr>ck_allowed = True, ck_bypassed = False, ck_limit = limit,
     ck_remaining = Fin remaining, ck_reset = resetAt, ck_reason = None\<rparr>"

definition single_record :: "'s rl_ops \<Rightarrow> string \<Rightarrow> int \<Rightarrow> rl_request \<Rightarrow> int \<Rightarrow> 's \<Rightarrow> check \<times> 's" where
  "single_record ops type limit req now st =
     (case limiter_increment ops (ownerId req) type 60 1 now st of
        ((c, r), st') \<Rightarrow> (recorded limit (postRecordRemaining limit c) r, st'))"

definition recordVerify where
  "recordVerify cfg ops req now st = single_record ops ''verify'' (verifyRpm (getKeyConfig cfg (rl_keyId req))) req now st"

definition recordCatalog where
  "recordCatalog cfg ops req now st = single_record ops ''catalog'' (catalogRpm (getKeyConfig cfg (rl_keyId req))) req now st"

definition recordCatalogRead where
  "recordCatalogRead cfg ops req now st = single_record ops ''catalog_read'' (catalog_read_limit cfg req) req now st"

definition recordSettle :: "rl_config \<Rightarrow> 's rl_ops \<Rightarrow> rl_request \<Rightarrow> jsnum \<Rightarrow> (nat \<Rightarrow> int) \<Rightarrow> 's \<Rightarrow> check \<times> 's" where
  "recordSettle cfg ops req feeCharged clk st =
     (let owner = ownerId req; limits = getKeyConfig cfg (rl_keyId req);
          ((n60, r60), st1) = limiter_increment ops owner ''settle'' 60 1 (clk 0) st;
          ((n3600, _), st2) = limiter_increment ops owner ''settle'' 3600 1 (clk 1) st1;
          ((n86400, _), st3) = limiter_increment ops owner ''settle'' 86400 1 (clk 2) st2;
          st4 = (case feeCharged of
                   Fin f \<Rightarrow> if f > 0 then snd (limiter_increment ops owner ''fee'' 86400 f (clk 3) st3) else st3
                 | NaN \<Rightarrow> st3);
          tightest = hd (js_sort_by snd
             [(settleRpm limits, postRecordRemaining (settleRpm limits) n60),
              (settleRph limits, postRecordRemaining (settleRph limits) n3600),
              (settleRpd limits, postRecordRemaining (settleRpd limits) n86400)])
      in (recorded (fst tightest) (snd tightest) r60, st4))"

text \<open>\<open>getUsage\<close>: each count is \<open>undefined\<close> when its read throws.\<close>

definition usage_count :: "'s rl_ops \<Rightarrow> string \<Rightarrow> string \<Rightarrow> int \<Rightarrow> int \<Rightarrow> 's \<Rightarrow> int option \<times> 's" where
  "usage_count ops owner type windowSec now st =
     (case s_get ops (getBucketId owner type windowSec now) now st of
        (None, st') \<Rightarrow> (None, st')
      | (Some b, st') \<Rightarrow> (Some (case b of None \<Rightarrow> 0 | Some u \<Rightarrow> fst u), st'))"

fun usage_counts :: "'s rl_ops \<Rightarrow> string \<Rightarrow> (string \<times> int) list \<Rightarrow> int \<Rightarrow> 's \<Rightarrow> int option list \<times> 's" where
  "usage_counts ops owner [] now st = ([], st)"
| "usage_counts ops owner ((type, w) # ws) now st =
     (let (c, st1) = usage_count ops owner type w now st;
          (cs, st2) = usage_counts ops owner ws now st1
      in (c # cs, st2))"

definition getUsage :: "rl_config \<Rightarrow> 's rl_ops \<Rightarrow> string \<Rightarrow> int \<Rightarrow> 's \<Rightarrow> (int option list \<times> key_limits) \<times> 's" where
  "getUsage cfg ops keyId now st =
     (case usage_counts ops keyId
             [(''verify'', 60), (''settle'', 60), (''settle'', 3600), (''settle'', 86400), (''fee'', 86400), (''catalog'', 60)]
             now st of
        (cs, st') \<Rightarrow> ((cs, getKeyConfig cfg (Some keyId)), st'))"

section \<open>rate-limit-http.js\<close>

record rl_headers =
  h_limit :: int
  h_remaining :: jsnum
  h_reset :: jsnum

record rl_rejection =
  rj_status :: int
  rj_retry_after :: jsnum
  rj_reason :: "string option"

fun js_max :: "int \<Rightarrow> jsnum \<Rightarrow> jsnum" where
  "js_max a (Fin b) = Fin (max a b)"
| "js_max a NaN = NaN"

definition handleRateLimit :: "int \<Rightarrow> check option list \<Rightarrow> (rl_headers \<times> rl_rejection option) option" where
  "handleRateLimit now states =
     (case (case List.find (\<lambda>c. case c of None \<Rightarrow> False | Some x \<Rightarrow> is_finite_num (ck_remaining x)) states of
              Some c \<Rightarrow> c
            | None \<Rightarrow> (case List.find (\<lambda>c. c \<noteq> None) states of Some c \<Rightarrow> c | None \<Rightarrow> None)) of
        None \<Rightarrow> None
      | Some s \<Rightarrow>
          Some (\<lparr>h_limit = ck_limit s, h_remaining = ck_remaining s, h_reset = ck_reset s\<rparr>,
                if ck_allowed s then None
                else Some \<lparr>rj_status = 429, rj_retry_after = js_max 1 (js_add (ck_reset s) (Fin (- now))),
                           rj_reason = ck_reason s\<rparr>))"

text \<open>\<open>rejectRateLimited\<close>: the audit record and the answer.\<close>

definition rejectRateLimited ::
  "rl_request \<Rightarrow> string \<Rightarrow> check \<Rightarrow> int \<Rightarrow> (string \<times> string \<times> string option) \<times> (rl_headers \<times> rl_rejection option) option" where
  "rejectRateLimited req route c now =
     ((nullish_or (rl_keyId req) (''ip:'' @ rl_ip req), route, ck_reason c), handleRateLimit now [Some c])"

section \<open>Buckets are told apart\<close>

text \<open>
  The id of a bucket determines its owner, type and window, even where the owner contains colons
  (an IPv6 address).
\<close>

lemma bucket_id_inj:
  assumes "getBucketId o1 t1 w1 n1 = getBucketId o2 t2 w2 n2" "CHR '':'' \<notin> set t1" "CHR '':'' \<notin> set t2"
  shows "o1 = o2 \<and> t1 = t2 \<and> w1 = w2 \<and> window_start n1 w1 = window_start n2 w2"
proof -
  define p1 p2 q1 q2 where "p1 = o1 @ CHR '':'' # t1 @ CHR '':'' # int_str (window_start n1 w1)"
    and "p2 = o2 @ CHR '':'' # t2 @ CHR '':'' # int_str (window_start n2 w2)"
    and "q1 = o1 @ CHR '':'' # t1" and "q2 = o2 @ CHR '':'' # t2"
  have e: "p1 @ CHR '':'' # int_str w1 = p2 @ CHR '':'' # int_str w2"
    using assms(1) by (simp add: getBucketId_def p1_def p2_def)
  have 1: "p1 = p2 \<and> int_str w1 = int_str w2"
    by (rule append_sep_inj [OF e int_str_no_colon int_str_no_colon])
  then have e2: "q1 @ CHR '':'' # int_str (window_start n1 w1) = q2 @ CHR '':'' # int_str (window_start n2 w2)"
    by (simp add: p1_def p2_def q1_def q2_def)
  have 2: "q1 = q2 \<and> int_str (window_start n1 w1) = int_str (window_start n2 w2)"
    by (rule append_sep_inj [OF e2 int_str_no_colon int_str_no_colon])
  then have "o1 @ CHR '':'' # t1 = o2 @ CHR '':'' # t2" by (simp add: q1_def q2_def)
  then have "o1 = o2 \<and> t1 = t2" by (rule append_sep_inj [OF _ assms(2,3)])
  moreover have "w1 = w2" "window_start n1 w1 = window_start n2 w2"
    using 1 2 by (simp_all add: int_str_inj)
  ultimately show ?thesis by simp
qed

lemma window_start_bounds: "0 < w \<Longrightarrow> window_start n w \<le> n \<and> n < window_start n w + w"
  using pos_mod_bound [of w n] pos_mod_sign [of w n] by (simp add: window_start_def)

section \<open>A store that cannot be read refuses\<close>

lemma limiter_check_unavailable:
  "s_get ops (getBucketId owner type w now) now st = (None, st') \<Longrightarrow>
     \<not> ck_allowed (fst (limiter_check ops owner type w limit amount now st))
     \<and> ck_reason (fst (limiter_check ops owner type w limit amount now st)) = Some ''rate_limit_store_unavailable''"
  by (simp add: limiter_check_def)

definition unreadable :: "'s rl_ops \<Rightarrow> bool" where
  "unreadable ops \<longleftrightarrow> (\<forall>i t s. fst (s_get ops i t s) = None)"

definition refused_unavailable :: "check \<Rightarrow> bool" where
  "refused_unavailable c \<longleftrightarrow> \<not> ck_allowed c \<and> ck_reason c = Some ''rate_limit_store_unavailable''"

lemma unreadable_check: "unreadable ops \<Longrightarrow> refused_unavailable (fst (limiter_check ops ow ty w l a t st))"
  by (auto simp: unreadable_def limiter_check_def refused_unavailable_def split: prod.splits option.splits)
    (metis fst_conv option.distinct(1))+

lemma unreadable_single:
  assumes "unreadable ops" "allowlistMatch m cfg req = None"
  shows "refused_unavailable (fst (fst (single_check m cfg ops ty l r req t st)))"
proof -
  obtain c st' where c: "limiter_check ops (ownerId req) ty 60 l 1 t st = (c, st')" by (metis surj_pair)
  with unreadable_check [OF assms(1), of "ownerId req" ty 60 l 1 t st] have "refused_unavailable c" by simp
  with c assms(2) show ?thesis by (simp add: single_check_def bypass_def with_reason_def refused_unavailable_def)
qed

lemma unreadable_settle:
  assumes "unreadable ops" "allowlistMatch m cfg req = None"
  shows "refused_unavailable (fst (fst (checkSettle m cfg ops req net clk st)))"
proof -
  obtain c1 st1 where c1: "limiter_check ops (ownerId req) ''settle'' 60 (settleRpm (getKeyConfig cfg (rl_keyId req))) 1 (clk 1) st = (c1, st1)"
    by (metis surj_pair)
  have "refused_unavailable c1"
    using unreadable_check [OF assms(1)] c1 by (metis fst_conv)
  with c1 assms(2) show ?thesis
    by (simp add: checkSettle_def bypass_def with_reason_def refused_unavailable_def Let_def split: prod.splits)
qed

section \<open>What an allowed settlement has passed\<close>

text \<open>The count a check reads.\<close>

definition read_count :: "'s rl_ops \<Rightarrow> string \<Rightarrow> string \<Rightarrow> int \<Rightarrow> int \<Rightarrow> 's \<Rightarrow> int option" where
  "read_count ops owner type w now st =
     map_option (\<lambda>b. case b of None \<Rightarrow> 0 | Some u \<Rightarrow> fst u) (fst (s_get ops (getBucketId owner type w now) now st))"

lemma limiter_check_allowed:
  "ck_allowed (fst (limiter_check ops ow ty w limit amount now st)) \<longleftrightarrow>
     (\<exists>n. read_count ops ow ty w now st = Some n \<and> n + amount \<le> limit)"
  by (auto simp: limiter_check_def read_count_def Let_def split: prod.splits option.splits)

lemma limiter_check_remaining:
  assumes "ck_allowed (fst (limiter_check ops ow ty w limit amount now st))"
    "read_count ops ow ty w now st = Some n"
  shows "ck_remaining (fst (limiter_check ops ow ty w limit amount now st)) = Fin (limit - n - amount)"
  using assms by (auto simp: limiter_check_def read_count_def Let_def split: prod.splits option.splits)

section \<open>The limits hold on any bucket store\<close>

definition no_bypass :: "(string \<Rightarrow> string \<Rightarrow> bool) \<Rightarrow> rl_config \<Rightarrow> rl_request \<Rightarrow> bool" where
  "no_bypass m cfg req \<longleftrightarrow> allowlistMatch m cfg req = None"

text \<open>A request is served: checked, and counted if it is let through.\<close>

definition serve_verify ::
  "(string \<Rightarrow> string \<Rightarrow> bool) \<Rightarrow> rl_config \<Rightarrow> 's rl_ops \<Rightarrow> rl_request \<Rightarrow> int \<Rightarrow> 's \<Rightarrow> bool \<times> 's" where
  "serve_verify m cfg ops req now st =
     (case checkVerify m cfg ops req now st of
        ((c, _), st1) \<Rightarrow>
          if ck_allowed c then (True, snd (recordVerify cfg ops req now st1)) else (False, st1))"

fun serve_all ::
  "(string \<Rightarrow> string \<Rightarrow> bool) \<Rightarrow> rl_config \<Rightarrow> 's rl_ops \<Rightarrow> (rl_request \<times> int) list \<Rightarrow> 's \<Rightarrow> bool list \<times> 's" where
  "serve_all m cfg ops [] st = ([], st)"
| "serve_all m cfg ops ((req, now) # rs) st =
     (let (b, st1) = serve_verify m cfg ops req now st; (bs, st2) = serve_all m cfg ops rs st1 in (b # bs, st2))"

definition verify_id :: "string \<Rightarrow> int \<Rightarrow> string" where
  "verify_id ow t = getBucketId ow ''verify'' 60 t"

text \<open>The requests of an owner that were let through.\<close>

definition let_through :: "string \<Rightarrow> (rl_request \<times> int) list \<Rightarrow> bool list \<Rightarrow> nat" where
  "let_through ow rs bs = length (filter (\<lambda>(r, b). b \<and> ownerId (fst r) = ow) (zip rs bs))"

text \<open>The count a store holds for an owner's bucket at a time.\<close>

definition stored_usage :: "('s \<Rightarrow> string \<Rightarrow> (int \<times> int) option) \<Rightarrow> 's \<Rightarrow> string \<Rightarrow> string \<Rightarrow> int \<Rightarrow> int \<Rightarrow> int" where
  "stored_usage stored s ow ty w t = count_at t (stored s (getBucketId ow ty w t))"

text \<open>The per-minute buckets of the window starting at \<open>W\<close> all reset at its end.\<close>

definition verify_windowed :: "('s \<Rightarrow> string \<Rightarrow> (int \<times> int) option) \<Rightarrow> int \<Rightarrow> 's \<Rightarrow> bool" where
  "verify_windowed stored W s \<longleftrightarrow> (\<forall>ow c e. stored s (verify_id ow W) = Some (c, e) \<longrightarrow> e = W + 60)"

context bucket_store
begin

abbreviation usage :: "'s \<Rightarrow> string \<Rightarrow> string \<Rightarrow> int \<Rightarrow> int \<Rightarrow> int" where
  "usage \<equiv> stored_usage stored"

lemma sweep_count: "ok s \<Longrightarrow> t \<le> t' \<Longrightarrow> count_at t' (stored (sweep t s) i) = count_at t' (stored s i)"
  by (auto simp: sweep_stored count_at_def split: option.splits)

lemma usage_sweep: "ok s \<Longrightarrow> t \<le> t' \<Longrightarrow> usage (sweep t s) ow ty w t' = usage s ow ty w t'"
  by (simp add: stored_usage_def sweep_count)

lemma check_plain:
  assumes "ok s" "limiter_check (plain_ops get increment sweep) ow ty w l a t s = (c, s')"
  shows "s' = sweep t s" "ck_allowed c \<longleftrightarrow> usage s ow ty w t + a \<le> l"
    "ck_allowed c \<Longrightarrow> ck_remaining c = Fin (l - usage s ow ty w t - a)"
proof -
  have u: "usage s ow ty w t = (case get s (getBucketId ow ty w t) t of None \<Rightarrow> 0 | Some u \<Rightarrow> fst u)"
    using get_count [OF assms(1)] by (simp add: stored_usage_def)
  show "s' = sweep t s" "ck_allowed c \<longleftrightarrow> usage s ow ty w t + a \<le> l"
    "ck_allowed c \<Longrightarrow> ck_remaining c = Fin (l - usage s ow ty w t - a)"
    using assms(2) by (auto simp: limiter_check_def plain_ops_def Let_def u split: if_splits)
qed

text \<open>A settlement is let through exactly when every one of the four ceilings has room for it.\<close>

lemma checkSettle_iff:
  assumes "ok s" "no_bypass m cfg req" "clk 1 \<le> clk 2" "clk 2 \<le> clk 3" "clk 3 \<le> clk (4 :: nat)"
    "lim = getKeyConfig cfg (rl_keyId req)" "ow = ownerId req"
    "checkSettle m cfg (plain_ops get increment sweep) req net clk s = ((c, au), s')"
  shows "ck_allowed c \<longleftrightarrow> usage s ow ''settle'' 60 (clk 1) + 1 \<le> settleRpm lim
    \<and> usage s ow ''settle'' 3600 (clk 2) + 1 \<le> settleRph lim
    \<and> usage s ow ''settle'' 86400 (clk 3) + 1 \<le> settleRpd lim
    \<and> usage s ow ''fee'' 86400 (clk 4) + max_fee_for cfg net \<le> feeSpd lim"
proof -
  let ?ops = "plain_ops get increment sweep"
  obtain c1 s1 where c1: "limiter_check ?ops ow ''settle'' 60 (settleRpm lim) 1 (clk 1) s = (c1, s1)" by (metis surj_pair)
  obtain c2 s2 where c2: "limiter_check ?ops ow ''settle'' 3600 (settleRph lim) 1 (clk 2) s1 = (c2, s2)" by (metis surj_pair)
  obtain c3 s3 where c3: "limiter_check ?ops ow ''settle'' 86400 (settleRpd lim) 1 (clk 3) s2 = (c3, s3)" by (metis surj_pair)
  obtain fc s4 where fc: "limiter_check ?ops ow ''fee'' 86400 (feeSpd lim) (max_fee_for cfg net) (clk 4) s3 = (fc, s4)" by (metis surj_pair)
  note s1 = check_plain(1) [OF assms(1) c1] note ok1 = sweep_ok [OF assms(1), of "clk 1", folded s1]
  note s2 = check_plain(1) [OF ok1 c2] note ok2 = sweep_ok [OF ok1, of "clk 2", folded s2]
  note s3 = check_plain(1) [OF ok2 c3] note ok3 = sweep_ok [OF ok2, of "clk 3", folded s3]
  have u2: "usage s1 ow ty w (clk 2) = usage s ow ty w (clk 2)" for ty w
    using usage_sweep [OF assms(1,3)] s1 by simp
  have u3: "usage s2 ow ty w (clk 3) = usage s ow ty w (clk 3)" for ty w
    using usage_sweep [OF ok1 assms(4)] usage_sweep [OF assms(1), of "clk 1" "clk 3"] assms(3,4) s1 s2 by simp
  have u4: "usage s3 ow ty w (clk 4) = usage s ow ty w (clk 4)" for ty w
    using usage_sweep [OF ok2 assms(5)] usage_sweep [OF ok1, of "clk 2" "clk 4"] usage_sweep [OF assms(1), of "clk 1" "clk 4"]
      assms(3-5) s1 s2 s3 by simp
  have allowed: "ck_allowed c1 \<longleftrightarrow> usage s ow ''settle'' 60 (clk 1) + 1 \<le> settleRpm lim"
    "ck_allowed c2 \<longleftrightarrow> usage s ow ''settle'' 3600 (clk 2) + 1 \<le> settleRph lim"
    "ck_allowed c3 \<longleftrightarrow> usage s ow ''settle'' 86400 (clk 3) + 1 \<le> settleRpd lim"
    "ck_allowed fc \<longleftrightarrow> usage s ow ''fee'' 86400 (clk 4) + max_fee_for cfg net \<le> feeSpd lim"
    using check_plain(2) [OF assms(1) c1] check_plain(2) [OF ok1 c2] check_plain(2) [OF ok2 c3] check_plain(2) [OF ok3 fc] u2 u3 u4
    by simp_all
  have "c = (if ck_allowed c1 \<and> ck_allowed c2 \<and> ck_allowed c3
             then if ck_allowed fc then tighter (tighter c1 c2) c3 else with_reason ''fee_ceiling_exceeded'' fc
             else with_reason ''rate_limit_exceeded'' (the (List.find (\<lambda>c. \<not> ck_allowed c) [c1, c2, c3])))"
    using assms(2,8) c1 c2 c3 fc
    by (auto simp: checkSettle_def no_bypass_def bypass_def Let_def assms(6,7) [symmetric] split: if_splits)
  moreover have "\<not> ck_allowed (the (List.find (\<lambda>c. \<not> ck_allowed c) [c1, c2, c3]))"
    if "\<not> (ck_allowed c1 \<and> ck_allowed c2 \<and> ck_allowed c3)"
    using that by auto
  moreover have "ck_allowed (with_reason r d) = ck_allowed d" for r d by (simp add: with_reason_def)
  moreover have "ck_allowed (tighter d e)" if "ck_allowed d" "ck_allowed e" for d e using that by (simp add: tighter_def)
  ultimately have "ck_allowed c \<longleftrightarrow> ck_allowed c1 \<and> ck_allowed c2 \<and> ck_allowed c3 \<and> ck_allowed fc" by auto
  with allowed show ?thesis by simp
qed

text \<open>
  Requests served one after another within one window: what is let through never exceeds the
  caller's limit, whatever the other callers do.
\<close>

abbreviation windowed :: "int \<Rightarrow> 's \<Rightarrow> bool" where
  "windowed \<equiv> verify_windowed stored"

lemma serve_verify_step:
  assumes "ok s" "room s (Suc n)" "no_bypass m cfg req" "window_start t 60 = W" "windowed W s" "W mod 60 = 0"
    "serve_verify m cfg (plain_ops get increment sweep) req t s = (b, s')"
  shows "ok s'" "room s' n" "windowed W s'"
    "count_at W (stored s' (verify_id ow W)) = count_at W (stored s (verify_id ow W)) + (if b \<and> ow = ownerId req then 1 else 0)"
    "b \<longleftrightarrow> count_at W (stored s (verify_id (ownerId req) W)) + 1 \<le> verifyRpm (getKeyConfig cfg (rl_keyId req))"
proof -
  let ?ops = "plain_ops get increment sweep"
  let ?l = "verifyRpm (getKeyConfig cfg (rl_keyId req))"
  let ?ow = "ownerId req"
  have t: "W \<le> t" "t < W + 60" using window_start_bounds [of 60 t] assms(4) by auto
  have Wid: "window_start W 60 = W" using assms(6) by (simp add: window_start_def)
  have ids: "getBucketId x ''verify'' 60 t = verify_id x W" for x
    by (simp add: verify_id_def getBucketId_def assms(4) Wid)
  have frozen: "count_at t (stored r (verify_id x W)) = count_at W (stored r (verify_id x W))" if "windowed W r" for r x
    using that t by (auto simp: verify_windowed_def count_at_def split: option.splits)
  obtain c s1 where chk: "limiter_check ?ops ?ow ''verify'' 60 ?l 1 t s = (c, s1)" by (metis surj_pair)
  note c = check_plain [OF assms(1) chk]
  have s1: "ok s1" "room s1 (Suc n)" "windowed W s1" using assms(1,2,5) c(1)
    by (auto simp: sweep_ok sweep_room verify_windowed_def sweep_stored split: option.splits if_splits)
  have same: "count_at W (stored s1 (verify_id x W)) = count_at W (stored s (verify_id x W))" for x
    using frozen [OF s1(3)] frozen [OF assms(5)] sweep_count [OF assms(1), of t t] c(1) by simp
  have allowed: "ck_allowed c \<longleftrightarrow> count_at W (stored s (verify_id ?ow W)) + 1 \<le> ?l"
    using c(2) frozen [OF assms(5)] by (simp add: stored_usage_def ids)
  have res: "(b, s') = (if ck_allowed c then (True, snd (recordVerify cfg ?ops req t s1)) else (False, s1))"
    using assms(3,7) chk
    by (simp add: serve_verify_def checkVerify_def single_check_def no_bypass_def bypass_def with_reason_def split: if_splits)
  then show "b \<longleftrightarrow> count_at W (stored s (verify_id ?ow W)) + 1 \<le> ?l" using allowed by (simp split: if_splits)
  have reset: "computeResetAt t 60 = W + 60" by (simp add: computeResetAt_def assms(4))
  have rec: "snd (recordVerify cfg ?ops req t s1) = snd (increment (verify_id ?ow W) 1 (W + 60) t s1)"
    by (simp add: recordVerify_def single_record_def limiter_increment_def plain_ops_def reset ids split: prod.splits)
  have upd: "stored (snd (increment (verify_id ?ow W) 1 (W + 60) t s1))
      = (stored s1)(verify_id ?ow W := Some (count_at t (stored s1 (verify_id ?ow W)) + 1, W + 60))"
    using s1 t by (intro inc_stored [where n = n]) (auto simp: verify_windowed_def)
  have inj: "verify_id x W = verify_id y W \<longleftrightarrow> x = y" for x y
    using bucket_id_inj [of x "''verify''" 60 W y "''verify''" 60 W] by (auto simp: verify_id_def)
  have "ok s' \<and> room s' n \<and> windowed W s' \<and>
    count_at W (stored s' (verify_id ow W)) = count_at W (stored s (verify_id ow W)) + (if b \<and> ow = ?ow then 1 else 0)"
  proof (cases "ck_allowed c")
    case True
    with res rec have s': "b" "s' = snd (increment (verify_id ?ow W) 1 (W + 60) t s1)" by simp_all
    have "windowed W s'" using s1(3) upd s'(2) by (auto simp: verify_windowed_def)
    moreover have "count_at W (stored s' (verify_id ow W))
        = count_at W (stored s (verify_id ow W)) + (if ow = ?ow then 1 else 0)"
      using upd s'(2) same [of ow] same [of ?ow] frozen [OF s1(3)] inj [of ow ?ow] by (simp add: count_at_def [of W "Some _"])
    ultimately show ?thesis using s' inc_ok [OF s1(1)] inc_room [OF s1(1,2)] by simp
  next
    case False
    with res have "\<not> b" "s' = s1" by simp_all
    with s1 same room_Suc show ?thesis by simp
  qed
  then show "ok s'" "room s' n" "windowed W s'"
    "count_at W (stored s' (verify_id ow W)) = count_at W (stored s (verify_id ow W)) + (if b \<and> ow = ?ow then 1 else 0)"
    by blast+
qed

lemma serve_all_count:
  assumes "ok s" "room s (length rs)" "windowed W s" "W mod 60 = 0"
    "\<forall>(q, t) \<in> set rs. no_bypass m cfg q \<and> window_start t 60 = W
       \<and> (ownerId q = ow \<longrightarrow> verifyRpm (getKeyConfig cfg (rl_keyId q)) = l)"
    "serve_all m cfg (plain_ops get increment sweep) rs s = (bs, s')"
  shows "count_at W (stored s' (verify_id ow W)) = count_at W (stored s (verify_id ow W)) + int (let_through ow rs bs)
    \<and> (let_through ow rs bs > 0 \<longrightarrow> count_at W (stored s' (verify_id ow W)) \<le> l)"
  using assms
proof (induction rs arbitrary: s bs s')
  case Nil
  then show ?case by (simp add: let_through_def)
next
  case (Cons r rs)
  obtain q t where r: "r = (q, t)" by (metis surj_pair)
  obtain b s1 where b: "serve_verify m cfg (plain_ops get increment sweep) q t s = (b, s1)" by (metis surj_pair)
  obtain bs2 s2 where rest: "serve_all m cfg (plain_ops get increment sweep) rs s1 = (bs2, s2)" by (metis surj_pair)
  have out: "bs = b # bs2" "s' = s2" using Cons.prems(6) r b rest by simp_all
  have q: "no_bypass m cfg q" "window_start t 60 = W" "ownerId q = ow \<longrightarrow> verifyRpm (getKeyConfig cfg (rl_keyId q)) = l"
    using Cons.prems(5) r by auto
  have room: "room s (Suc (length rs))" using Cons.prems(2) by simp
  note step = serve_verify_step [OF Cons.prems(1) room q(1,2) Cons.prems(3,4) b]
  have IH: "count_at W (stored s2 (verify_id ow W)) = count_at W (stored s1 (verify_id ow W)) + int (let_through ow rs bs2)
      \<and> (let_through ow rs bs2 > 0 \<longrightarrow> count_at W (stored s2 (verify_id ow W)) \<le> l)"
    using Cons.IH [OF step(1,2,3) Cons.prems(4) _ rest] Cons.prems(5) by auto
  have lt: "let_through ow (r # rs) bs = (if b \<and> ow = ownerId q then 1 else 0) + let_through ow rs bs2"
    using r out by (auto simp: let_through_def)
  from step(4) [of ow] step(5) q(3) IH lt out(2) show ?case by (auto split: if_splits)
qed

end

section \<open>What a caller is told\<close>

text \<open>
  After a request is counted, the advertised remaining allowance is what the counter leaves,
  never negative; a lost record counts as one.
\<close>

lemma single_record_remaining:
  assumes "single_record ops ty l req t st = (c, st')"
  shows "ck_allowed c \<and> (\<exists>n. ck_remaining c = Fin n \<and> 0 \<le> n \<and>
    n = max 0 (l - (case fst (s_increment ops (getBucketId (ownerId req) ty 60 t) 1 (computeResetAt t 60) t st) of
                      None \<Rightarrow> 1 | Some u \<Rightarrow> fst u)))"
  using assms
  by (auto simp: single_record_def limiter_increment_def recorded_def postRecordRemaining_def split: prod.splits option.splits)

text \<open>Headers are written from the first state with a finite remaining; a refusal is a 429.\<close>

lemma handleRateLimit_refuses:
  "\<not> ck_allowed c \<Longrightarrow> ck_remaining c = Fin n \<Longrightarrow> ck_reset c = Fin r \<Longrightarrow>
     handleRateLimit now (Some c # rest) =
       Some (\<lparr>h_limit = ck_limit c, h_remaining = Fin n, h_reset = Fin r\<rparr>,
             Some \<lparr>rj_status = 429, rj_retry_after = Fin (max 1 (r - now)), rj_reason = ck_reason c\<rparr>)"
  by (simp add: handleRateLimit_def)

lemma handleRateLimit_continues:
  "(case handleRateLimit now (map Some cs) of Some (_, Some _) \<Rightarrow> True | _ \<Rightarrow> False)
     \<Longrightarrow> \<exists>c \<in> set cs. \<not> ck_allowed c"
proof -
  assume a: "case handleRateLimit now (map Some cs) of Some (_, Some _) \<Rightarrow> True | _ \<Rightarrow> False"
  have found: "c \<in> set cs" if "List.find P (map Some cs) = Some (Some c)" for P and c :: check
    using that by (auto simp: find_Some_iff)
  from a show ?thesis
    by (auto simp: handleRateLimit_def split: option.splits if_splits dest: found)
qed

section \<open>The shared Postgres store and the reset time\<close>

text \<open>
  A bucket read back from the Postgres store has no usable reset time, so a refused caller is
  told to retry after NaN seconds.
\<close>

definition rlp_ops :: "bucket_map rl_ops" where
  "rlp_ops = plain_ops rlp_get rlp_increment rlp_sweep"

definition rlm_ops :: "mem_rl rl_ops" where
  "rlm_ops = plain_ops rlm_get rlm_increment rlm_sweep"

lemma rlp_refusal_nan:
  assumes "jm_get tbl (getBucketId ow ty w now) = Some row" "now < bk_reset row"
    "fst (limiter_check rlp_ops ow ty w l a now tbl) = c" "\<not> ck_allowed c"
  shows "\<exists>h rj. handleRateLimit now [Some c] = Some (h, Some rj) \<and> h_reset h = NaN \<and> rj_retry_after rj = NaN"
  using assms
  by (auto simp: limiter_check_def rlp_ops_def plain_ops_def rlp_get_def handleRateLimit_def Let_def split: if_splits)

text \<open>
  An allowlist entry with a slash and nothing after it passes validation, and matches every
  address of its kind: \<open>Number('')\<close> is 0.
\<close>

lemma split_last_trailing: "c \<notin> set a \<Longrightarrow> split_last c (a @ [c]) = Some (a, [])"
  by (simp add: split_last_def)

lemma js_integer_empty: "js_integer num [] = Some 0"
  by (simp add: js_integer_def js_trim_def)

lemma trailing_slash_allows_all:
  assumes "CHR ''/'' \<notin> set a" "isIP a = 4" "js_trim a = a" "isIP ip = 4" "js_trim ip = ip"
  shows "isValidCidr isIP num (a @ ''/'')" "ipMatchesCidr isIP num ip (a @ ''/'')"
proof -
  have s: "split_last (CHR ''/'') (a @ ''/'') = Some (a, [])" using split_last_trailing [OF assms(1)] by simp
  with assms show "isValidCidr isIP num (a @ ''/'')" by (simp add: isValidCidr_def js_integer_empty)
  from s assms show "ipMatchesCidr isIP num ip (a @ ''/'')"
    by (simp add: ipMatchesCidr_def js_integer_empty parseIp_def unify_kinds_def cidr_match_def cidr_mask_def Let_def)
qed

end
