(* ===== verification/RedisLimiter.thy ===== *)
theory RedisLimiter
  imports RateLimiter
begin

text \<open>
  The rate limiter over Redis (\<open>src/redis-rate-limit.js\<close>): the buckets of \<open>RateLimiter\<close> as shared
  counters, with the in-memory limiter as its fallback.

  \<open>rd_counts\<close> is what Redis holds; its keys may expire at any time. \<open>ok\<close> is whether a Redis operation
  answers, one answer per operation in the order they are made; a failure degrades the limiter and
  runs the parent's operation on its own store \<open>'m\<close>.
\<close>

record 'm redis_rl =
  rd_counts :: "(string, int) jsmap"
  rd_connected :: bool
  rd_degraded :: bool
  rd_mem :: 'm

definition redis_usable :: "'m redis_rl \<Rightarrow> bool" where
  "redis_usable st \<longleftrightarrow> rd_connected st \<and> \<not> rd_degraded st"

definition withRedis ::
  "bool \<Rightarrow> ((string, int) jsmap \<Rightarrow> 'a \<times> (string, int) jsmap) \<Rightarrow> ('m \<Rightarrow> 'a \<times> 'm) \<Rightarrow> 'm redis_rl \<Rightarrow> 'a \<times> 'm redis_rl" where
  "withRedis ok f fallback st =
     (if redis_usable st \<and> ok
      then (case f (rd_counts st) of (a, m) \<Rightarrow> (a, st\<lparr>rd_counts := m\<rparr>))
      else (case fallback (rd_mem st) of (a, m) \<Rightarrow> (a, st\<lparr>rd_mem := m, rd_degraded := rd_degraded st \<or> redis_usable st\<rparr>)))"

definition redis_bucket :: "string \<Rightarrow> string \<Rightarrow> int \<Rightarrow> int \<Rightarrow> string" where
  "redis_bucket owner type windowSec now = ''ratelimit:'' @ getBucketId owner type windowSec now"

text \<open>\<open>_incrementAsync\<close>: INCR, whatever the amount.\<close>

definition incrementAsync ::
  "'m rl_ops \<Rightarrow> bool \<Rightarrow> string \<Rightarrow> string \<Rightarrow> int \<Rightarrow> int \<Rightarrow> int \<Rightarrow> 'm redis_rl \<Rightarrow> (jsnum \<times> jsnum) \<times> 'm redis_rl" where
  "incrementAsync ops ok owner type windowSec amount now st =
     (let k = redis_bucket owner type windowSec now; resetAt = Fin (computeResetAt now windowSec) in
      withRedis ok
        (\<lambda>m. let c = nullish_or (jm_get m k) 0 + 1 in ((Fin c, resetAt), jm_set k c m))
        (\<lambda>s. case limiter_increment ops owner type windowSec amount now s of ((c, _), s') \<Rightarrow> ((c, resetAt), s')) st)"

definition checkAsync ::
  "'m rl_ops \<Rightarrow> bool \<Rightarrow> string \<Rightarrow> string \<Rightarrow> int \<Rightarrow> int \<Rightarrow> int \<Rightarrow> int \<Rightarrow> 'm redis_rl \<Rightarrow> check \<times> 'm redis_rl" where
  "checkAsync ops ok owner type windowSec limit amount now st =
     (let k = redis_bucket owner type windowSec now; resetAt = Fin (computeResetAt now windowSec) in
      withRedis ok
        (\<lambda>m. let c = nullish_or (jm_get m k) 0 in
             (if c + amount > limit
              then \<lparr>ck_allowed = False, ck_bypassed = False, ck_limit = limit, ck_remaining = Fin 0,
                    ck_reset = resetAt, ck_reason = None\<rparr>
              else \<lparr>ck_allowed = True, ck_bypassed = False, ck_limit = limit,
                    ck_remaining = Fin (limit - c - amount), ck_reset = resetAt, ck_reason = None\<rparr>, m))
        (limiter_check ops owner type windowSec limit amount now) st)"

text \<open>Here the reason of a refusal is set over one the parent gave.\<close>

definition set_reason :: "string \<Rightarrow> check \<Rightarrow> check" where
  "set_reason r c = (if ck_allowed c then c else c\<lparr>ck_reason := Some r\<rparr>)"

definition redis_single ::
  "(string \<Rightarrow> string \<Rightarrow> bool) \<Rightarrow> rl_config \<Rightarrow> 'm rl_ops \<Rightarrow> bool \<Rightarrow> string \<Rightarrow> int \<Rightarrow> string \<Rightarrow> rl_request \<Rightarrow> int
     \<Rightarrow> 'm redis_rl \<Rightarrow> (check \<times> bypass_audit option) \<times> 'm redis_rl" where
  "redis_single matches cfg ops ok type limit reason req now st =
     (case bypass matches cfg req type limit now of
        Some (c, a) \<Rightarrow> ((c, Some a), st)
      | None \<Rightarrow>
          (case checkAsync ops ok (ownerId req) type 60 limit 1 now st of
             (c, st') \<Rightarrow> ((set_reason reason c, None), st')))"

definition redis_checkVerify where
  "redis_checkVerify matches cfg ops ok req now st =
     redis_single matches cfg ops ok ''verify'' (verifyRpm (getKeyConfig cfg (rl_keyId req))) ''rate_limit_exceeded'' req now st"

definition redis_checkCatalog where
  "redis_checkCatalog matches cfg ops ok req now st =
     redis_single matches cfg ops ok ''catalog'' (catalogRpm (getKeyConfig cfg (rl_keyId req))) ''catalog_rate_limited'' req now st"

definition redis_checkCatalogRead where
  "redis_checkCatalogRead matches cfg ops ok req now st =
     redis_single matches cfg ops ok ''catalog_read'' (catalog_read_limit cfg req) ''catalog_read_rate_limited'' req now st"

definition redis_checkSettle ::
  "(string \<Rightarrow> string \<Rightarrow> bool) \<Rightarrow> rl_config \<Rightarrow> 'm rl_ops \<Rightarrow> (nat \<Rightarrow> bool) \<Rightarrow> rl_request \<Rightarrow> (nat \<Rightarrow> int)
     \<Rightarrow> 'm redis_rl \<Rightarrow> (check \<times> bypass_audit option) \<times> 'm redis_rl" where
  "redis_checkSettle matches cfg ops ok req clk st =
     (let owner = ownerId req; limits = getKeyConfig cfg (rl_keyId req) in
      case bypass matches cfg req ''settle'' (settleRpm limits) (clk 0) of
        Some (c, a) \<Rightarrow> ((c, Some a), st)
      | None \<Rightarrow>
          (let (c1, st1) = checkAsync ops (ok 1) owner ''settle'' 60 (settleRpm limits) 1 (clk 1) st;
               (c2, st2) = checkAsync ops (ok 2) owner ''settle'' 3600 (settleRph limits) 1 (clk 2) st1;
               (c3, st3) = checkAsync ops (ok 3) owner ''settle'' 86400 (settleRpd limits) 1 (clk 3) st2
           in case List.find (\<lambda>c. \<not> ck_allowed c) [c1, c2, c3] of
                Some c \<Rightarrow> ((c\<lparr>ck_reason := Some ''rate_limit_exceeded''\<rparr>, None), st3)
              | None \<Rightarrow>
                  (let (fc, st4) = checkAsync ops (ok 4) owner ''fee'' 86400 (feeSpd limits) 50000 (clk 4) st3
                   in if \<not> ck_allowed fc then ((fc\<lparr>ck_reason := Some ''fee_ceiling_exceeded''\<rparr>, None), st4)
                      else ((tighter (tighter c1 c2) c3, None), st4))))"

definition redis_recordVerify where
  "redis_recordVerify cfg ops ok req now st =
     (let limit = verifyRpm (getKeyConfig cfg (rl_keyId req)) in
      case incrementAsync ops ok (ownerId req) ''verify'' 60 1 now st of
        ((c, r), st') \<Rightarrow> (recorded limit (postRecordRemaining limit c) r, st'))"

definition redis_recordCatalog :: "'m rl_ops \<Rightarrow> bool \<Rightarrow> rl_request \<Rightarrow> int \<Rightarrow> 'm redis_rl \<Rightarrow> 'm redis_rl" where
  "redis_recordCatalog ops ok req now st = snd (incrementAsync ops ok (ownerId req) ''catalog'' 60 1 now st)"

definition redis_recordCatalogRead :: "'m rl_ops \<Rightarrow> bool \<Rightarrow> rl_request \<Rightarrow> int \<Rightarrow> 'm redis_rl \<Rightarrow> 'm redis_rl" where
  "redis_recordCatalogRead ops ok req now st = snd (incrementAsync ops ok (ownerId req) ''catalog_read'' 60 1 now st)"

definition redis_recordSettle ::
  "rl_config \<Rightarrow> 'm rl_ops \<Rightarrow> (nat \<Rightarrow> bool) \<Rightarrow> rl_request \<Rightarrow> int \<Rightarrow> (nat \<Rightarrow> int) \<Rightarrow> 'm redis_rl \<Rightarrow> check \<times> 'm redis_rl" where
  "redis_recordSettle cfg ops ok req feeCharged clk st =
     (let owner = ownerId req; limits = getKeyConfig cfg (rl_keyId req);
          ((n60, r60), st1) = incrementAsync ops (ok 0) owner ''settle'' 60 1 (clk 0) st;
          ((n3600, _), st2) = incrementAsync ops (ok 1) owner ''settle'' 3600 1 (clk 1) st1;
          ((n86400, _), st3) = incrementAsync ops (ok 2) owner ''settle'' 86400 1 (clk 2) st2;
          st4 = (if feeCharged \<noteq> 0 then snd (incrementAsync ops (ok 3) owner ''fee'' 86400 feeCharged (clk 3) st3) else st3);
          tightest = hd (js_sort_by snd
             [(settleRpm limits, postRecordRemaining (settleRpm limits) n60),
              (settleRph limits, postRecordRemaining (settleRph limits) n3600),
              (settleRpd limits, postRecordRemaining (settleRpd limits) n86400)])
      in (recorded (fst tightest) (snd tightest) r60, st4))"

text \<open>\<open>getUsage\<close>: one read that fails sends all of it to the parent.\<close>

definition usage_types :: "(string \<times> int) list" where
  "usage_types = [(''verify'', 60), (''settle'', 60), (''settle'', 3600), (''settle'', 86400), (''fee'', 86400), (''catalog'', 60)]"

definition redis_getUsage ::
  "rl_config \<Rightarrow> 'm rl_ops \<Rightarrow> bool \<Rightarrow> string \<Rightarrow> int \<Rightarrow> 'm redis_rl \<Rightarrow> (int option list \<times> key_limits) \<times> 'm redis_rl" where
  "redis_getUsage cfg ops ok keyId now st =
     withRedis ok
       (\<lambda>m. ((map (\<lambda>(type, w). Some (nullish_or (jm_get m (redis_bucket keyId type w now)) 0)) usage_types,
             getKeyConfig cfg (Some keyId)), m))
       (getUsage cfg ops keyId now) st"

section \<open>Buckets in Redis\<close>

lemma redis_bucket_inj:
  assumes "redis_bucket o1 t1 w1 n1 = redis_bucket o2 t2 w2 n2" "CHR '':'' \<notin> set t1" "CHR '':'' \<notin> set t2"
  shows "o1 = o2 \<and> t1 = t2 \<and> w1 = w2 \<and> window_start n1 w1 = window_start n2 w2"
  by (rule bucket_id_inj) (use assms in \<open>simp_all add: redis_bucket_def\<close>)

definition redis_count :: "'m redis_rl \<Rightarrow> string \<Rightarrow> string \<Rightarrow> int \<Rightarrow> int \<Rightarrow> int" where
  "redis_count st owner type w now = nullish_or (jm_get (rd_counts st) (redis_bucket owner type w now)) 0"

lemma incrementAsync_counts:
  assumes "redis_usable st"
  shows "snd (incrementAsync ops True owner type w amount now st) =
    st\<lparr>rd_counts := jm_set (redis_bucket owner type w now) (redis_count st owner type w now + 1) (rd_counts st)\<rparr>"
  using assms by (simp add: incrementAsync_def withRedis_def Let_def redis_count_def)

lemma incrementAsync_redis:
  assumes "redis_usable st"
  shows "redis_usable (snd (incrementAsync ops True owner type w amount now st))"
    "redis_count (snd (incrementAsync ops True owner type w amount now st)) own ty wid at =
       redis_count st own ty wid at + (if redis_bucket own ty wid at = redis_bucket owner type w now then 1 else 0)"
  subgoal using assms by (simp add: incrementAsync_counts redis_usable_def)
  subgoal unfolding incrementAsync_counts [OF assms] by (simp add: redis_count_def jm_get_set nullish_or_def)
  done

lemma checkAsync_redis:
  assumes "redis_usable st" "ok"
  shows "snd (checkAsync ops ok owner type w limit amount now st) = st"
    "ck_allowed (fst (checkAsync ops ok owner type w limit amount now st)) \<longleftrightarrow> redis_count st owner type w now + amount \<le> limit"
  using assms by (auto simp: checkAsync_def withRedis_def Let_def redis_count_def)

text \<open>A settlement that charged a fee adds one to the fee bucket, whatever the fee.\<close>

lemma recordSettle_fee:
  assumes "redis_usable st" "\<forall>i. ok i" "fee \<noteq> 0" "window_start (clk 3) 86400 = window_start now 86400"
  shows "redis_usable (snd (redis_recordSettle cfg ops ok req fee clk st))"
    "redis_count (snd (redis_recordSettle cfg ops ok req fee clk st)) (ownerId req) ''fee'' 86400 now
      = redis_count st (ownerId req) ''fee'' 86400 now + 1"
proof -
  let ?ow = "ownerId req"
  obtain p1 st1 where 1: "incrementAsync ops (ok 0) ?ow ''settle'' 60 1 (clk 0) st = (p1, st1)" by (metis surj_pair)
  obtain p2 st2 where 2: "incrementAsync ops (ok 1) ?ow ''settle'' 3600 1 (clk 1) st1 = (p2, st2)" by (metis surj_pair)
  obtain p3 st3 where 3: "incrementAsync ops (ok 2) ?ow ''settle'' 86400 1 (clk 2) st2 = (p3, st3)" by (metis surj_pair)
  obtain p4 st4 where 4: "incrementAsync ops (ok 3) ?ow ''fee'' 86400 fee (clk 3) st3 = (p4, st4)" by (metis surj_pair)
  have no: "redis_bucket ?ow ''fee'' 86400 now \<noteq> redis_bucket ?ow ''settle'' w t" for w t
    using redis_bucket_inj [of ?ow "''fee''" 86400 now ?ow "''settle''" w t] by (intro notI) simp
  have yes: "redis_bucket ?ow ''fee'' 86400 now = redis_bucket ?ow ''fee'' 86400 (clk 3)"
    by (simp add: redis_bucket_def getBucketId_def assms(4))
  note inc = incrementAsync_redis [where ops = ops]
  have ok: "ok 0 = True" "ok 1 = True" "ok 2 = True" "ok 3 = True" using assms(2) by simp_all
  have u1: "redis_usable st1" "redis_count st1 ?ow ''fee'' 86400 now = redis_count st ?ow ''fee'' 86400 now"
    using inc [OF assms(1), of ?ow "''settle''" 60 1 "clk 0"] 1 no unfolding ok by simp_all
  have u2: "redis_usable st2" "redis_count st2 ?ow ''fee'' 86400 now = redis_count st1 ?ow ''fee'' 86400 now"
    using inc [OF u1(1), of ?ow "''settle''" 3600 1 "clk 1"] 2 no unfolding ok by simp_all
  have u3: "redis_usable st3" "redis_count st3 ?ow ''fee'' 86400 now = redis_count st2 ?ow ''fee'' 86400 now"
    using inc [OF u2(1), of ?ow "''settle''" 86400 1 "clk 2"] 3 no unfolding ok by simp_all
  have u4: "redis_usable st4" "redis_count st4 ?ow ''fee'' 86400 now = redis_count st3 ?ow ''fee'' 86400 now + 1"
    using inc [OF u3(1), of ?ow "''fee''" 86400 fee "clk 3"] 4 yes unfolding ok by simp_all
  have "snd (redis_recordSettle cfg ops ok req fee clk st) = st4"
    using 1 2 3 4 assms(3) by (simp add: redis_recordSettle_def Let_def split: prod.splits)
  with u1 u2 u3 u4 show "redis_usable (snd (redis_recordSettle cfg ops ok req fee clk st))"
    "redis_count (snd (redis_recordSettle cfg ops ok req fee clk st)) ?ow ''fee'' 86400 now = redis_count st ?ow ''fee'' 86400 now + 1"
    by simp_all
qed

text \<open>A day's settlements of one caller, each recorded with its fee.\<close>

fun record_all :: "rl_config \<Rightarrow> 'm rl_ops \<Rightarrow> rl_request \<Rightarrow> (int \<times> (nat \<Rightarrow> int)) list \<Rightarrow> 'm redis_rl \<Rightarrow> 'm redis_rl" where
  "record_all cfg ops req [] st = st"
| "record_all cfg ops req ((fee, clk) # xs) st = record_all cfg ops req xs (snd (redis_recordSettle cfg ops (\<lambda>_. True) req fee clk st))"

lemma record_all_fee:
  assumes "redis_usable st" "\<forall>(fee, clk) \<in> set xs. fee \<noteq> 0 \<and> window_start (clk 3) 86400 = window_start now 86400"
  shows "redis_usable (record_all cfg ops req xs st)
    \<and> redis_count (record_all cfg ops req xs st) (ownerId req) ''fee'' 86400 now
      = redis_count st (ownerId req) ''fee'' 86400 now + int (length xs)"
  using assms
proof (induction xs arbitrary: st)
  case (Cons x xs)
  obtain fee clk where x: "x = (fee, clk)" by (cases x)
  with Cons.prems(2) have p: "fee \<noteq> 0" "window_start (clk 3) 86400 = window_start now 86400" by auto
  have rest: "\<forall>(fee, clk) \<in> set xs. fee \<noteq> 0 \<and> window_start (clk 3) 86400 = window_start now 86400"
    using Cons.prems(2) by simp
  note one = recordSettle_fee [where ok = "\<lambda>_. True" and cfg = cfg and ops = ops and req = req, of st fee clk now]
  have one: "redis_usable (snd (redis_recordSettle cfg ops (\<lambda>_. True) req fee clk st))"
    "redis_count (snd (redis_recordSettle cfg ops (\<lambda>_. True) req fee clk st)) (ownerId req) ''fee'' 86400 now
      = redis_count st (ownerId req) ''fee'' 86400 now + 1"
    using one Cons.prems(1) p by simp_all
  from Cons.IH [OF one(1) rest] one(2) show ?case by (simp add: x)
qed simp

end
