(* ===== verification/Reconciliation.thy ===== *)
theory Reconciliation
  imports PgSettlementStore
begin

text \<open>
  Resolution of settlements whose outcome was left unknown: \<open>src/store/reconciliation.js\<close>. The
  store is injected, so its operations are arguments; the RPC endpoint (\<open>getTransaction\<close>) is the
  parameter \<open>call\<close>, \<open>None\<close> when the call throws and otherwise the reply's status field.
\<close>

section \<open>reconcileUnknownSettlements\<close>

text \<open>A store write as the sweep sees it: did it return, or throw, and the state it left.\<close>

type_synonym 's store_write = "'s \<Rightarrow> bool \<times> 's"

record 's reconcile_ops =
  op_listUnknown :: "'s \<Rightarrow> projection list"
  op_settleAndEnqueue :: "string \<Rightarrow> settle_details \<Rightarrow> notification \<Rightarrow> 's store_write"
  op_updateState :: "string \<Rightarrow> sstate \<Rightarrow> settle_details \<Rightarrow> 's store_write"

definition TESTNET :: string where
  "TESTNET = ''stellar:testnet''"

definition DEFAULT_TESTNET_RPC :: string where
  "DEFAULT_TESTNET_RPC = ''https://soroban-testnet.stellar.org''"

text \<open>
  \<open>config.perNetwork[network].rpcUrl\<close> with the testnet default; a missing or empty URL skips the
  record.
\<close>

definition rpc_url_for :: "(string \<Rightarrow> string option) \<Rightarrow> string \<Rightarrow> string option" where
  "rpc_url_for perNetwork net =
     (case nullish (perNetwork net) (if net = TESTNET then Some DEFAULT_TESTNET_RPC else None) of
        None \<Rightarrow> None
      | Some url \<Rightarrow> if url = [] then None else Some url)"

definition opt_json :: "string option \<Rightarrow> json" where
  "opt_json x = (case x of None \<Rightarrow> JNull | Some s \<Rightarrow> JStr s)"

definition reconciled_notification :: "projection \<Rightarrow> notification" where
  "reconciled_notification p = \<lparr>nt_type = ''settlement.completed'', nt_id = None,
     nt_fields = [(''transaction'', opt_json (tx_hash p)), (''network'', JStr (network p)),
                  (''payer'', opt_json (payer p)), (''payTo'', opt_json (pay_to p)),
                  (''amount'', opt_json (amount p)), (''asset'', opt_json (asset p))]\<rparr>"

definition success_details :: "projection \<Rightarrow> settle_details" where
  "success_details p = \<lparr>d_tx_hash = tx_hash p, d_error_reason = None, d_error_message = None, d_response = None\<rparr>"

definition failed_details :: "projection \<Rightarrow> settle_details" where
  "failed_details p = \<lparr>d_tx_hash = tx_hash p, d_error_reason = Some ''transaction_failed'',
     d_error_message = Some ''Transaction failed on chain'', d_response = None\<rparr>"

text \<open>The record's key; every projection of a store carries one.\<close>

definition rec_key :: "projection \<Rightarrow> string" where
  "rec_key p = nullish_or (idempotency_key p) []"

definition reconcile_record ::
  "'s reconcile_ops \<Rightarrow> (string \<Rightarrow> string option) \<Rightarrow> (string \<Rightarrow> string \<Rightarrow> string option option)
     \<Rightarrow> projection \<Rightarrow> 's \<Rightarrow> bool \<times> 's" where
  "reconcile_record ops perNetwork call p st =
     (case tx_hash p of
        None \<Rightarrow> (False, st)
      | Some h \<Rightarrow>
          if h = [] then (False, st)
          else (case rpc_url_for perNetwork (network p) of
             None \<Rightarrow> (False, st)
           | Some url \<Rightarrow>
               (case call url h of
                  None \<Rightarrow> (False, st)
                | Some status \<Rightarrow>
                    if status = Some ''SUCCESS''
                    then op_settleAndEnqueue ops (rec_key p) (success_details p) (reconciled_notification p) st
                    else if status = Some ''FAILED''
                    then op_updateState ops (rec_key p) St_failed (failed_details p) st
                    else (False, st))))"

fun reconcile_loop ::
  "'s reconcile_ops \<Rightarrow> (string \<Rightarrow> string option) \<Rightarrow> (string \<Rightarrow> string \<Rightarrow> string option option)
     \<Rightarrow> projection list \<Rightarrow> nat \<Rightarrow> 's \<Rightarrow> nat \<times> 's" where
  "reconcile_loop ops perNetwork call [] n st = (n, st)"
| "reconcile_loop ops perNetwork call (p # ps) n st =
     (case reconcile_record ops perNetwork call p st of
        (done, st') \<Rightarrow> reconcile_loop ops perNetwork call ps (if done then n + 1 else n) st')"

definition reconcileUnknownSettlements ::
  "'s reconcile_ops \<Rightarrow> (string \<Rightarrow> string option) \<Rightarrow> (string \<Rightarrow> string \<Rightarrow> string option option) \<Rightarrow> 's \<Rightarrow> nat \<times> 's" where
  "reconcileUnknownSettlements ops perNetwork call st =
     reconcile_loop ops perNetwork call (op_listUnknown ops st) 0 st"

section \<open>The operations of the two stores\<close>

definition as_write :: "'s \<Rightarrow> store_error + ('a \<times> 's) \<Rightarrow> bool \<times> 's" where
  "as_write st r = (case r of Inl _ \<Rightarrow> (False, st) | Inr (_, st') \<Rightarrow> (True, st'))"

definition mem_ops :: "int \<Rightarrow> mem_store reconcile_ops" where
  "mem_ops now = \<lparr>op_listUnknown = mem_listUnknown,
     op_settleAndEnqueue = (\<lambda>k d ev st. as_write st (mem_settleAndEnqueue k d (Some ev) now st)),
     op_updateState = (\<lambda>k s d st. as_write st (mem_updateState k s d now st))\<rparr>"

text \<open>
  The Postgres store, with the outcome of each transaction and statement and the id drawn for
  each notification, by key.
\<close>

definition pg_write :: "(store_error + 'a) \<times> pg_store \<Rightarrow> bool \<times> pg_store" where
  "pg_write r = (\<not> isl (fst r), snd r)"

definition pg_ops ::
  "bool \<Rightarrow> sdb option \<Rightarrow> (string \<Rightarrow> tx_outcome) \<Rightarrow> (string \<Rightarrow> db_outcome) \<Rightarrow> (string \<Rightarrow> string) \<Rightarrow> int \<Rightarrow> int
     \<Rightarrow> pg_store reconcile_ops" where
  "pg_ops read_ok replica txo dbo uuid dbnow now = \<lparr>
     op_listUnknown = (\<lambda>st. fst (pg_listUnknown read_ok replica st)),
     op_settleAndEnqueue = (\<lambda>k d ev st.
        pg_write (pg_settleAndEnqueue (txo k) dbnow k d (Some ev) None (uuid k) now st)),
     op_updateState = (\<lambda>k s d st. pg_write (pg_updateState (dbo k) dbnow k s d now st))\<rparr>"

section \<open>Whatever every write keeps, the sweep keeps\<close>

lemma reconcile_record_inv:
  assumes "I st" "\<And>k d ev s. I s \<Longrightarrow> d_response d = None \<Longrightarrow> I (snd (op_settleAndEnqueue ops k d ev s))"
    "\<And>k s' d s. I s \<Longrightarrow> d_response d = None \<Longrightarrow> I (snd (op_updateState ops k s' d s))"
  shows "I (snd (reconcile_record ops pn call p st))"
proof -
  have "d_response (success_details p) = None" "d_response (failed_details p) = None"
    by (simp_all add: success_details_def failed_details_def)
  with assms show ?thesis by (simp add: reconcile_record_def split: option.splits)
qed

lemma reconcile_loop_inv:
  assumes "I st" "\<And>k d ev s. I s \<Longrightarrow> d_response d = None \<Longrightarrow> I (snd (op_settleAndEnqueue ops k d ev s))"
    "\<And>k s' d s. I s \<Longrightarrow> d_response d = None \<Longrightarrow> I (snd (op_updateState ops k s' d s))"
  shows "I (snd (reconcile_loop ops pn call ps n st))"
  using assms(1)
proof (induction ps arbitrary: n st)
  case (Cons p ps)
  obtain b st' where r: "reconcile_record ops pn call p st = (b, st')" by (metis surj_pair)
  then have "I st'" using reconcile_record_inv [OF Cons.prems assms(2,3), of pn call p] by simp
  with r Cons.IH show ?case by simp
qed simp

lemma reconcile_loop_count:
  "fst (reconcile_loop ops pn call ps n st) \<le> n + length ps"
proof (induction ps arbitrary: n st)
  case (Cons p ps)
  obtain b st' where r: "reconcile_record ops pn call p st = (b, st')" by (metis surj_pair)
  with Cons [of "if b then n + 1 else n" st'] show ?case by (auto split: if_splits)
qed simp

lemma pg_ops_db_ok:
  assumes "db_ok (pg_db st)"
  shows "db_ok (pg_db (snd (reconcileUnknownSettlements (pg_ops read_ok replica txo dbo uuid dbnow now) pn call st)))"
proof -
  have "response_truthy d" if "d_response d = None" for d
    using that by (simp add: response_truthy_def truthy_response_def)
  then show ?thesis
    unfolding reconcileUnknownSettlements_def
    by (intro reconcile_loop_inv [where I = "\<lambda>s. db_ok (pg_db s)"] assms)
      (simp_all add: pg_ops_def pg_write_def pg_settleAndEnqueue_db_ok pg_updateState_db_ok)
qed

section \<open>What a sweep does to each settlement\<close>

text \<open>The state the network's answer calls for, when it calls for one.\<close>

definition verdict :: "(string \<Rightarrow> string option) \<Rightarrow> (string \<Rightarrow> string \<Rightarrow> string option option) \<Rightarrow> projection \<Rightarrow> sstate option" where
  "verdict perNetwork call p =
     (case tx_hash p of
        None \<Rightarrow> None
      | Some h \<Rightarrow>
          if h = [] then None
          else (case rpc_url_for perNetwork (network p) of
             None \<Rightarrow> None
           | Some url \<Rightarrow>
               (if call url h = Some (Some ''SUCCESS'') then Some St_settled
                else if call url h = Some (Some ''FAILED'') then Some St_failed else None)))"

lemma reconcile_record_verdict:
  "reconcile_record ops pn call p st =
     (case verdict pn call p of
        None \<Rightarrow> (False, st)
      | Some s \<Rightarrow> if s = St_settled
                then op_settleAndEnqueue ops (rec_key p) (success_details p) (reconciled_notification p) st
                else op_updateState ops (rec_key p) St_failed (failed_details p) st)"
  by (auto simp: reconcile_record_def verdict_def split: option.splits)

lemma verdict_states: "verdict pn call p = Some s \<Longrightarrow> s = St_settled \<or> s = St_failed"
  by (auto simp: verdict_def split: option.splits if_splits)

text \<open>Where a settlement stands after the sweep has handled it.\<close>

definition resolved_as :: "(string \<Rightarrow> string option) \<Rightarrow> (string \<Rightarrow> string \<Rightarrow> string option option) \<Rightarrow> projection \<Rightarrow> projection option \<Rightarrow> bool" where
  "resolved_as pn call p q \<longleftrightarrow>
     (case verdict pn call p of
        None \<Rightarrow> q = Some p
      | Some s \<Rightarrow> (\<exists>r. q = Some r \<and> state r = s
          \<and> error_reason r = (if s = St_failed then Some ''transaction_failed'' else error_reason p)))"

text \<open>
  The contract of a store the sweep runs on: the unknown settlements it lists are those on
  record, once each, and each of the two writes moves its settlement and no other.
\<close>

locale reconcilable_store =
  fixes get :: "'s \<Rightarrow> string \<Rightarrow> projection option"
    and ok :: "'s \<Rightarrow> bool"
    and ops :: "'s reconcile_ops"
  assumes key_of: "ok s \<Longrightarrow> get s k = Some p \<Longrightarrow> rec_key p = k"
    and list_unknown: "ok s \<Longrightarrow> p \<in> set (op_listUnknown ops s) \<longleftrightarrow> get s (rec_key p) = Some p \<and> state p = St_unknown"
    and list_distinct: "ok s \<Longrightarrow> distinct (map rec_key (op_listUnknown ops s))"
    and settle_moves: "ok s \<Longrightarrow> get s k = Some p \<Longrightarrow> d_response d = None \<Longrightarrow> op_settleAndEnqueue ops k d ev s = (b, s') \<Longrightarrow>
      b \<and> ok s' \<and> (\<exists>q. get s' k = Some q \<and> state q = St_settled \<and> error_reason q = nullish (d_error_reason d) (error_reason p))
      \<and> (\<forall>j. j \<noteq> k \<longrightarrow> get s' j = get s j)"
    and update_moves: "ok s \<Longrightarrow> get s k = Some p \<Longrightarrow> d_response d = None \<Longrightarrow> op_updateState ops k St_failed d s = (b, s') \<Longrightarrow>
      b \<and> ok s' \<and> (\<exists>q. get s' k = Some q \<and> state q = St_failed \<and> error_reason q = nullish (d_error_reason d) (error_reason p))
      \<and> (\<forall>j. j \<noteq> k \<longrightarrow> get s' j = get s j)"
begin

lemma record_step:
  assumes "ok s" "get s (rec_key p) = Some p" "reconcile_record ops pn call p s = (b, s')"
  shows "ok s' \<and> resolved_as pn call p (get s' (rec_key p)) \<and> b = (verdict pn call p \<noteq> None)
    \<and> (\<forall>j. j \<noteq> rec_key p \<longrightarrow> get s' j = get s j)"
proof (cases "verdict pn call p")
  case None
  with assms show ?thesis by (simp add: reconcile_record_verdict resolved_as_def)
next
  case (Some v)
  show ?thesis
  proof (cases "v = St_settled")
    case True
    with Some assms have "op_settleAndEnqueue ops (rec_key p) (success_details p) (reconciled_notification p) s = (b, s')"
      by (simp add: reconcile_record_verdict)
    from settle_moves [OF assms(1,2) _ this] Some True show ?thesis
      by (simp add: resolved_as_def success_details_def)
  next
    case False
    with Some verdict_states have v: "v = St_failed" by blast
    with Some assms have "op_updateState ops (rec_key p) St_failed (failed_details p) s = (b, s')"
      by (simp add: reconcile_record_verdict)
    from update_moves [OF assms(1,2) _ this] Some v show ?thesis
      by (simp add: resolved_as_def failed_details_def)
  qed
qed

lemma loop_steps:
  assumes "ok s" "distinct (map rec_key ps)" "\<forall>p \<in> set ps. get s (rec_key p) = Some p"
    "reconcile_loop ops pn call ps n s = (m, s')"
  shows "ok s' \<and> (\<forall>p \<in> set ps. resolved_as pn call p (get s' (rec_key p)))
    \<and> (\<forall>j. j \<notin> rec_key ` set ps \<longrightarrow> get s' j = get s j)
    \<and> m = n + length (filter (\<lambda>p. verdict pn call p \<noteq> None) ps)"
  using assms
proof (induction ps arbitrary: n s)
  case (Cons p ps)
  obtain b s1 where r: "reconcile_record ops pn call p s = (b, s1)" by (metis surj_pair)
  have step: "ok s1" "resolved_as pn call p (get s1 (rec_key p))" "b = (verdict pn call p \<noteq> None)"
    "\<And>j. j \<noteq> rec_key p \<Longrightarrow> get s1 j = get s j"
    using record_step [OF Cons.prems(1) _ r] Cons.prems(3) by auto
  have other: "rec_key q \<noteq> rec_key p" if "q \<in> set ps" for q
  proof
    assume "rec_key q = rec_key p"
    with that have "rec_key p \<in> rec_key ` set ps" by (metis imageI)
    with Cons.prems(2) show False by simp
  qed
  with Cons.prems(3) step(4) have known: "\<forall>q \<in> set ps. get s1 (rec_key q) = Some q" by auto
  have loop: "reconcile_loop ops pn call ps (if b then n + 1 else n) s1 = (m, s')"
    using Cons.prems(4) r by simp
  have IH: "ok s'" "\<forall>q \<in> set ps. resolved_as pn call q (get s' (rec_key q))"
    "\<forall>j. j \<notin> rec_key ` set ps \<longrightarrow> get s' j = get s1 j"
    "m = (if b then n + 1 else n) + length (filter (\<lambda>p. verdict pn call p \<noteq> None) ps)"
    using Cons.IH [OF step(1) _ known loop] Cons.prems(2) by auto
  have "rec_key p \<notin> rec_key ` set ps" using Cons.prems(2) by simp
  with IH(3) step(2) have "resolved_as pn call p (get s' (rec_key p))" by auto
  with IH step(3,4) show ?case by auto
qed simp

theorem sweep_resolves:
  assumes "ok s" "get s k = Some p" "reconcileUnknownSettlements ops pn call s = (n, s')"
  shows "if state p = St_unknown then resolved_as pn call p (get s' k) else get s' k = Some p"
    and "n = length (filter (\<lambda>p. verdict pn call p \<noteq> None) (op_listUnknown ops s))"
    and "ok s'"
proof -
  have known: "\<forall>p \<in> set (op_listUnknown ops s). get s (rec_key p) = Some p"
    using list_unknown [OF assms(1)] by blast
  have k: "rec_key p = k" using key_of [OF assms(1,2)] .
  have steps: "ok s'" "\<forall>p \<in> set (op_listUnknown ops s). resolved_as pn call p (get s' (rec_key p))"
    "\<forall>j. j \<notin> rec_key ` set (op_listUnknown ops s) \<longrightarrow> get s' j = get s j"
    "n = length (filter (\<lambda>p. verdict pn call p \<noteq> None) (op_listUnknown ops s))"
    using loop_steps [OF assms(1) list_distinct [OF assms(1)] known assms(3) [unfolded reconcileUnknownSettlements_def]]
    by auto
  show "ok s'" "n = length (filter (\<lambda>p. verdict pn call p \<noteq> None) (op_listUnknown ops s))"
    by (fact steps)+
  show "if state p = St_unknown then resolved_as pn call p (get s' k) else get s' k = Some p"
  proof (cases "state p = St_unknown")
    case True
    then have "p \<in> set (op_listUnknown ops s)" using list_unknown [OF assms(1)] k assms(2) by simp
    with steps(2) k True show ?thesis by auto
  next
    case False
    have "k \<notin> rec_key ` set (op_listUnknown ops s)"
    proof
      assume "k \<in> rec_key ` set (op_listUnknown ops s)"
      then obtain q where "q \<in> set (op_listUnknown ops s)" "rec_key q = k" by auto
      with list_unknown [OF assms(1), of q] assms(2) False show False by auto
    qed
    with steps(3) False assms(2) show ?thesis by simp
  qed
qed

end

section \<open>Both stores are reconcilable\<close>

lemma mem_get_key: "mem_ok st \<Longrightarrow> mem_get st k = Some p \<Longrightarrow> idempotency_key p = Some k"
proof -
  assume a: "mem_ok st" "mem_get st k = Some p"
  then obtain es where es: "jm_get st k = Some es" by (cases "jm_get st k") (auto simp: mem_get_def mem_projection_def)
  with a have "stream_ok k es" "projectSettlement es = Some p"
    by (auto simp: mem_get_stream mem_stream_def dest: mem_ok_get)
  then show ?thesis using projectSettlement_key [of es "Some k" p] by (simp add: stream_ok_def)
qed

lemma mem_listUnknown_iff:
  assumes "mem_ok st"
  shows "p \<in> set (mem_listUnknown st) \<longleftrightarrow> mem_get st (rec_key p) = Some p \<and> state p = St_unknown"
proof
  assume "p \<in> set (mem_listUnknown st)"
  then obtain k where "mem_get st k = Some p" "state p = St_unknown"
    by (auto simp: mem_listUnknown_def mem_get_def split: option.splits if_splits)
  with mem_get_key [OF assms this(1)] show "mem_get st (rec_key p) = Some p \<and> state p = St_unknown"
    by (simp add: rec_key_def)
next
  assume g: "mem_get st (rec_key p) = Some p \<and> state p = St_unknown"
  then have "jm_get st (rec_key p) \<noteq> None" using mem_get_Some_iff [OF assms] by (metis option.distinct(1))
  then have "rec_key p \<in> set (jm_keys st)" by (auto simp: jm_keys_def map_of_eq_None_iff)
  with g show "p \<in> set (mem_listUnknown st)"
    by (force simp: mem_listUnknown_def mem_get_def)
qed

lemma mem_listUnknown_keys:
  assumes "mem_ok st"
  shows "distinct (map rec_key (mem_listUnknown st))"
proof -
  have step: "map rec_key (case mem_projection st k of None \<Rightarrow> [] | Some p \<Rightarrow> if state p = St_unknown then [p] else [])
      = (if map_option state (mem_get st k) = Some St_unknown then [k] else [])" for k
    using mem_get_key [OF assms, of k] by (auto simp: mem_get_def rec_key_def split: option.splits)
  have "map rec_key (mem_listUnknown st)
      = concat (map (\<lambda>k. if map_option state (mem_get st k) = Some St_unknown then [k] else []) (jm_keys st))"
    by (simp add: mem_listUnknown_def map_concat comp_def step)
  then have "map rec_key (mem_listUnknown st) = filter (\<lambda>k. map_option state (mem_get st k) = Some St_unknown) (jm_keys st)"
    by (simp only: concat_if_singleton)
  then show ?thesis using assms by (simp add: mem_ok_def jm_keys_def)
qed

text \<open>One update of a known settlement, on either store.\<close>

lemma mem_update_moves:
  assumes "mem_ok s" "mem_get s k = Some p" "eventTypeForState st = Inr ty"
    "as_write s (mem_updateState k st d t s) = (b, s')"
  shows "b \<and> mem_ok s' \<and> (\<exists>q. mem_get s' k = Some q \<and> state q = st \<and> error_reason q = nullish (d_error_reason d) (error_reason p))
      \<and> (\<forall>j. j \<noteq> k \<longrightarrow> mem_get s' j = mem_get s j)"
proof -
  obtain res s2 where u: "mem_updateState k st d t s = Inr (res, s2)"
    using mem.update_succeeds [OF assms(1,3)] by blast
  with assms(4) have "b" "s' = s2" by (simp_all add: as_write_def)
  with mem.update_get [OF assms(1,3,2) u] mem.update_frame [OF assms(1,3) u] mem_ok_update [OF assms(1) u]
  show ?thesis by auto
qed

lemma eventTypeForState_simps [simp]:
  "eventTypeForState St_settled = Inr Settled" "eventTypeForState St_failed = Inr Failed"
  "eventTypeForState St_unknown = Inr OutcomeUnknown"
  by (simp_all add: eventTypeForState_def)

lemma mem_settle_as_update:
  "as_write st (mem_settleAndEnqueue k d ev t st) = as_write st (mem_updateState k St_settled d t st)"
  by (auto simp: as_write_def mem_settleAndEnqueue_def split: sum.splits)

interpretation mem_sweep: reconcilable_store mem_get mem_ok "mem_ops now" for now
proof (unfold_locales, goal_cases)
  case (1 s k p)
  then show ?case using mem_get_key [of s k p] by (simp add: rec_key_def)
next
  case (2 s p)
  then show ?case by (simp add: mem_ops_def mem_listUnknown_iff)
next
  case (3 s)
  then show ?case by (simp add: mem_ops_def mem_listUnknown_keys)
next
  case (4 s k p d ev b s')
  then show ?case
    by (intro mem_update_moves [where ty = Settled and t = now]) (simp_all add: mem_ops_def mem_settle_as_update)
next
  case (5 s k p d b s')
  then show ?case by (intro mem_update_moves [where ty = Failed and t = now]) (simp_all add: mem_ops_def)
qed

text \<open>The Postgres store while its database answers.\<close>

definition pgh_ops :: "(string \<Rightarrow> string) \<Rightarrow> int \<Rightarrow> pg_store reconcile_ops" where
  "pgh_ops uuid now = pg_ops True None (\<lambda>_. Tx_ok) (\<lambda>_. Db_ok) uuid now now"

lemma pg_settle_moves:
  assumes "pgh_ok s" "pgh_get s k = Some p" "d_response d = None"
    "pg_write (pg_settleAndEnqueue Tx_ok t k d (Some ev) None u t s) = (b, s')"
  shows "b \<and> pgh_ok s' \<and> (\<exists>q. pgh_get s' k = Some q \<and> state q = St_settled \<and> error_reason q = nullish (d_error_reason d) (error_reason p))
      \<and> (\<forall>j. j \<noteq> k \<longrightarrow> pgh_get s' j = pgh_get s j)"
proof -
  let ?tx = "sql_settle_tx k d (Some ev) None u t (pg_db s)"
  have up: "uses_db s" "db_ok (pg_db s)" "proj_get (pg_db s) k = Some p"
    using assms(1,2) by (simp_all add: pgh_ok_def pgh_get_eq)
  obtain q v where q: "fst (sql_update k Settled St_settled d t (pg_db s)) = Some (q, v)" "state q = St_settled"
    "error_reason q = nullish (d_error_reason d) (error_reason p)"
    using sql_update_some [OF up(3), of Settled St_settled d t] by blast
  then obtain db1 where u: "sql_update k Settled St_settled d t (pg_db s) = (Some (q, v), db1)"
    by (metis prod.collapse)
  obtain res m where m: "mem_updateState k St_settled d t (pg_mem s) = Inr (res, m)"
    using mem_update_Inr [of St_settled Settled k d t "pg_mem s"] by auto
  have s': "b" "s' = s\<lparr>pg_db := snd ?tx, pg_mem := m\<rparr>"
    using assms(4) up(1) u m by (auto simp: pg_settleAndEnqueue_def sql_settle_tx_def pg_write_def on_mem_def Let_def)
  have get: "proj_get (snd ?tx) j = (if j = k then Some q else proj_get (pg_db s) j)" for j
    using u sql_update_get [of k Settled St_settled d t "pg_db s" j]
    by (auto simp: sql_settle_tx_def Let_def proj_get_def)
  have "db_ok (snd ?tx)"
    using sql_settle_tx_ok [OF up(2)] assms(3) by (simp add: response_truthy_def truthy_response_def)
  with s' up(1) get q show ?thesis by (simp add: pgh_ok_def pgh_get_eq)
qed

lemma pg_update_moves:
  assumes "pgh_ok s" "pgh_get s k = Some p" "d_response d = None" "eventTypeForState st = Inr ty"
    "pg_write (pg_updateState Db_ok t k st d t s) = (b, s')"
  shows "b \<and> pgh_ok s' \<and> (\<exists>q. pgh_get s' k = Some q \<and> state q = st \<and> error_reason q = nullish (d_error_reason d) (error_reason p))
      \<and> (\<forall>j. j \<noteq> k \<longrightarrow> pgh_get s' j = pgh_get s j)"
proof -
  have truthy: "response_truthy d" using assms(3) by (simp add: response_truthy_def truthy_response_def)
  obtain res s2 where u: "pgh_updateState k st d t s = Inr (res, s2)"
    using pg.update_succeeds [OF assms(1,4)] by blast
  with assms(5) have "b" "s' = s2"
    by (auto simp: pgh_updateState_def pg_write_def split: prod.splits sum.splits)
  with pg.update_get [OF assms(1,4,2) u] pg.update_frame [OF assms(1,4) u] pg.update_ok [OF assms(1) truthy assms(4) u]
  show ?thesis by auto
qed

lemma proj_row_key:
  assumes "db_ok db" "(k, p, v) \<in> set (proj_table db)"
  shows "rec_key p = k" "proj_get db k = Some p"
proof -
  have "jm_get (proj_table db) k = Some (p, v)"
    using assms by (intro map_of_is_SomeI) (simp_all add: db_ok_def)
  then show "proj_get db k = Some p" by (simp add: proj_get_def)
  then show "rec_key p = k" using proj_get_key [OF assms(1)] by (simp add: rec_key_def)
qed

lemma unknown_rows_iff:
  assumes "db_ok db"
  shows "p \<in> set (filter (\<lambda>p. state p = St_unknown) (map fst (jm_values (proj_table db))))
     \<longleftrightarrow> proj_get db (rec_key p) = Some p \<and> state p = St_unknown"
proof
  assume "p \<in> set (filter (\<lambda>p. state p = St_unknown) (map fst (jm_values (proj_table db))))"
  then obtain k v where row: "(k, p, v) \<in> set (proj_table db)" and "state p = St_unknown"
    by (auto simp: jm_values_def)
  with proj_row_key [OF assms row] show "proj_get db (rec_key p) = Some p \<and> state p = St_unknown" by simp
next
  assume a: "proj_get db (rec_key p) = Some p \<and> state p = St_unknown"
  then obtain v where "jm_get (proj_table db) (rec_key p) = Some (p, v)" by (auto simp: proj_get_def)
  then have "(rec_key p, p, v) \<in> set (proj_table db)" by (rule map_of_SomeD)
  then have "p \<in> fst ` snd ` set (proj_table db)" by force
  with a show "p \<in> set (filter (\<lambda>p. state p = St_unknown) (map fst (jm_values (proj_table db))))"
    by (simp add: jm_values_def image_image)
qed

lemma unknown_rows_distinct:
  assumes "db_ok db"
  shows "distinct (map rec_key (filter (\<lambda>p. state p = St_unknown) (map fst (jm_values (proj_table db)))))"
proof (rule distinct_map_filter)
  have "map rec_key (map fst (jm_values (proj_table db))) = map fst (proj_table db)"
    using proj_row_key(1) [OF assms] by (auto simp: jm_values_def)
  with assms show "distinct (map rec_key (map fst (jm_values (proj_table db))))" by (simp add: db_ok_def)
qed

interpretation pg_sweep: reconcilable_store pgh_get pgh_ok "pgh_ops uuid now" for uuid now
proof (unfold_locales, goal_cases)
  case (1 s k p)
  then show ?case using proj_get_key [of "pg_db s" k p] by (simp add: rec_key_def pgh_ok_def pgh_get_eq)
next
  case (2 s p)
  then show ?case
    using unknown_rows_iff [of "pg_db s" p] by (simp add: pgh_ops_def pg_ops_def pg_listUnknown_def pgh_ok_def pgh_get_eq)
next
  case (3 s)
  then show ?case
    using unknown_rows_distinct [of "pg_db s"] by (simp add: pgh_ops_def pg_ops_def pg_listUnknown_def pgh_ok_def)
next
  case (4 s k p d ev b s')
  then show ?case
    by (intro pg_settle_moves [where t = now and u = "uuid k"]) (simp_all add: pgh_ops_def pg_ops_def)
next
  case (5 s k p d b s')
  then show ?case
    by (intro pg_update_moves [where t = now and ty = Failed]) (simp_all add: pgh_ops_def pg_ops_def)
qed

end
