(* ===== verification/Idempotency.thy ===== *)
theory Idempotency
  imports JsPrelude
begin

text \<open>
  Idempotency keys for /settle: \<open>src/idempotency.js\<close>, the in-process store and the Postgres store
  that degrades into it. Locale \<open>idempotency_store\<close> is what the handler relies on: a key is
  claimed by one request until the claim is released, and a completed key replays its answer.
\<close>

datatype claim =
    Owned
  | Replayed int "json option"
  | Conflict

section \<open>MemoryIdempotencyStore\<close>

datatype idem_record = Pending | Recorded int json

type_synonym idem_map = "(string, idem_record) jsmap"

record idem_request =
  ir_header :: "string option"
  ir_body :: string

text \<open>
  \<open>keyFor\<close>: the client's header, else a hash of the body (\<open>JSON.stringify(req.body ?? null)\<close>).
\<close>

definition keyFor :: "(string \<Rightarrow> string) \<Rightarrow> idem_request \<Rightarrow> string" where
  "keyFor sha256 req =
     (case ir_header req of
        Some h \<Rightarrow> if h \<noteq> [] then js_trim h else ''body:'' @ sha256 (ir_body req)
      | None \<Rightarrow> ''body:'' @ sha256 (ir_body req))"

definition idm_begin :: "string \<Rightarrow> idem_map \<Rightarrow> claim \<times> idem_map" where
  "idm_begin key m =
     (case jm_get m key of
        Some (Recorded c r) \<Rightarrow>
          if js_truthy r then (Replayed c (Some r), m) else (Owned, jm_set key Pending m)
      | Some Pending \<Rightarrow> (Conflict, m)
      | None \<Rightarrow> (Owned, jm_set key Pending m))"

definition idm_complete :: "string \<Rightarrow> int \<Rightarrow> json \<Rightarrow> idem_map \<Rightarrow> idem_map" where
  "idm_complete key statusCode response m = jm_set key (Recorded statusCode response) m"

definition idm_fail :: "string \<Rightarrow> idem_map \<Rightarrow> idem_map" where
  "idm_fail key m = (if jm_get m key = Some Pending then jm_delete key m else m)"

section \<open>PostgresIdempotencyStore\<close>

text \<open>A row of \<open>idempotency_keys\<close>: \<open>status_code\<close> (200 by default) and \<open>response\<close> (NULL in flight).\<close>

type_synonym idem_row = "int \<times> json option"

record idem_pg =
  ip_table :: "(string, idem_row) jsmap"
  ip_mem :: idem_map
  ip_degraded :: bool
  ip_has_pool :: bool

definition ip_uses_db :: "idem_pg \<Rightarrow> bool" where
  "ip_uses_db st \<longleftrightarrow> \<not> ip_degraded st \<and> ip_has_pool st"

definition idp_mem_begin :: "string \<Rightarrow> idem_pg \<Rightarrow> claim \<times> idem_pg" where
  "idp_mem_begin key st = (case idm_begin key (ip_mem st) of (c, m) \<Rightarrow> (c, st\<lparr>ip_mem := m\<rparr>))"

definition idp_degrade :: "idem_pg \<Rightarrow> idem_pg" where
  "idp_degrade st = st\<lparr>ip_degraded := True\<rparr>"

text \<open>
  How the transaction of \<open>begin\<close> goes. \<open>Idb_raced polls\<close>: another instance inserted the key
  between the SELECT and the INSERT, and \<open>polls\<close> is what the reads until the lock deadline see;
  \<open>Idb_lost\<close>: it committed and its reply was lost.
\<close>

datatype idem_outcome = Idb_ok | Idb_fails | Idb_lost | Idb_raced "idem_row list"

definition poll_answer :: "idem_row list \<Rightarrow> claim" where
  "poll_answer polls =
     (case List.find (\<lambda>r. snd r \<noteq> None) polls of Some (c, r) \<Rightarrow> Replayed c r | None \<Rightarrow> Conflict)"

definition idp_begin :: "idem_outcome \<Rightarrow> string \<Rightarrow> idem_pg \<Rightarrow> claim \<times> idem_pg" where
  "idp_begin out key st =
     (if \<not> ip_uses_db st then idp_mem_begin key st
      else case out of
        Idb_fails \<Rightarrow> idp_mem_begin key (idp_degrade st)
      | Idb_lost \<Rightarrow>
          (let tbl = (if jm_get (ip_table st) key = None then jm_set key (200, None) (ip_table st) else ip_table st)
           in idp_mem_begin key (idp_degrade (st\<lparr>ip_table := tbl\<rparr>)))
      | Idb_raced polls \<Rightarrow>
          (case jm_get (ip_table st) key of
             Some (c, r) \<Rightarrow> (Replayed c r, st)
           | None \<Rightarrow>
               (poll_answer polls,
                st\<lparr>ip_table := jm_set key (nullish_or (List.find (\<lambda>r. snd r \<noteq> None) polls) (200, None)) (ip_table st)\<rparr>))
      | Idb_ok \<Rightarrow>
          (case jm_get (ip_table st) key of
             Some (c, r) \<Rightarrow> (Replayed c r, st)
           | None \<Rightarrow> (Owned, st\<lparr>ip_table := jm_set key (200, None) (ip_table st)\<rparr>)))"

definition idp_complete :: "bool \<Rightarrow> string \<Rightarrow> int \<Rightarrow> json \<Rightarrow> idem_pg \<Rightarrow> idem_pg" where
  "idp_complete ok key statusCode response st =
     (if \<not> ip_uses_db st then st\<lparr>ip_mem := idm_complete key statusCode response (ip_mem st)\<rparr>
      else if ok then
        (if jm_get (ip_table st) key = None then st
         else st\<lparr>ip_table := jm_set key (statusCode, Some response) (ip_table st)\<rparr>)
      else (idp_degrade st)\<lparr>ip_mem := idm_complete key statusCode response (ip_mem st)\<rparr>)"

definition idp_fail :: "bool \<Rightarrow> string \<Rightarrow> idem_pg \<Rightarrow> idem_pg" where
  "idp_fail ok key st =
     (if \<not> ip_uses_db st then st\<lparr>ip_mem := idm_fail key (ip_mem st)\<rparr>
      else if ok then
        (case jm_get (ip_table st) key of
           Some (_, None) \<Rightarrow> st\<lparr>ip_table := jm_delete key (ip_table st)\<rparr>
         | _ \<Rightarrow> st)
      else (idp_degrade st)\<lparr>ip_mem := idm_fail key (ip_mem st)\<rparr>)"

section \<open>What the handler relies on\<close>

datatype idem_step = Begin string | Complete string int json | Fail string

text \<open>
  One step of a run, and whether it hands out a key. A request completes only a key it holds.
\<close>

fun idem_step_of ::
  "(string \<Rightarrow> 's \<Rightarrow> claim \<times> 's) \<Rightarrow> (string \<Rightarrow> int \<Rightarrow> json \<Rightarrow> 's \<Rightarrow> 's) \<Rightarrow> (string \<Rightarrow> 's \<Rightarrow> 's) \<Rightarrow> ('s \<Rightarrow> string \<Rightarrow> bool)
     \<Rightarrow> idem_step \<Rightarrow> 's \<Rightarrow> bool \<times> 's" where
  "idem_step_of bg cp fl held (Begin k) s = (fst (bg k s) = Owned, snd (bg k s))"
| "idem_step_of bg cp fl held (Complete k c r) s = (False, if held s k then cp k c r s else s)"
| "idem_step_of bg cp fl held (Fail k) s = (False, fl k s)"

text \<open>How often a run of steps hands the key to a request, and the state it ends in.\<close>

fun idem_grants ::
  "(string \<Rightarrow> 's \<Rightarrow> claim \<times> 's) \<Rightarrow> (string \<Rightarrow> int \<Rightarrow> json \<Rightarrow> 's \<Rightarrow> 's) \<Rightarrow> (string \<Rightarrow> 's \<Rightarrow> 's) \<Rightarrow> ('s \<Rightarrow> string \<Rightarrow> bool)
     \<Rightarrow> string \<Rightarrow> idem_step list \<Rightarrow> 's \<Rightarrow> nat" where
  "idem_grants bg cp fl held k [] s = 0"
| "idem_grants bg cp fl held k (x # xs) s =
     (if x = Begin k \<and> fst (idem_step_of bg cp fl held x s) then 1 else 0)
     + idem_grants bg cp fl held k xs (snd (idem_step_of bg cp fl held x s))"

fun idem_after ::
  "(string \<Rightarrow> 's \<Rightarrow> claim \<times> 's) \<Rightarrow> (string \<Rightarrow> int \<Rightarrow> json \<Rightarrow> 's \<Rightarrow> 's) \<Rightarrow> (string \<Rightarrow> 's \<Rightarrow> 's) \<Rightarrow> ('s \<Rightarrow> string \<Rightarrow> bool)
     \<Rightarrow> idem_step list \<Rightarrow> 's \<Rightarrow> 's" where
  "idem_after bg cp fl held [] s = s"
| "idem_after bg cp fl held (x # xs) s = idem_after bg cp fl held xs (snd (idem_step_of bg cp fl held x s))"

definition truthy_steps :: "idem_step list \<Rightarrow> bool" where
  "truthy_steps xs \<longleftrightarrow> (\<forall>k c r. Complete k c r \<in> set xs \<longrightarrow> js_truthy r)"

locale idempotency_store =
  fixes begin_key :: "string \<Rightarrow> 's \<Rightarrow> claim \<times> 's"
    and complete_key :: "string \<Rightarrow> int \<Rightarrow> json \<Rightarrow> 's \<Rightarrow> 's"
    and fail_key :: "string \<Rightarrow> 's \<Rightarrow> 's"
    and held :: "'s \<Rightarrow> string \<Rightarrow> bool"
    and answer :: "'s \<Rightarrow> string \<Rightarrow> (int \<times> json) option"
    and ok :: "'s \<Rightarrow> bool"
  assumes begin_owned: "ok s \<Longrightarrow> fst (begin_key k s) = Owned \<longleftrightarrow> \<not> held s k"
    and begin_holds: "ok s \<Longrightarrow> held (snd (begin_key k s)) j \<longleftrightarrow> held s j \<or> j = k"
    and begin_answer: "ok s \<Longrightarrow> answer (snd (begin_key k s)) j = answer s j"
    and begin_replays: "ok s \<Longrightarrow> answer s k = Some (c, r) \<Longrightarrow> fst (begin_key k s) = Replayed c (Some r)"
    and begin_ok: "ok s \<Longrightarrow> ok (snd (begin_key k s))"
    and answer_held: "ok s \<Longrightarrow> answer s k \<noteq> None \<Longrightarrow> held s k"
    and complete_answer: "ok s \<Longrightarrow> js_truthy r \<Longrightarrow> held s k \<Longrightarrow>
      answer (complete_key k c r s) j = (if j = k then Some (c, r) else answer s j)"
    and complete_holds: "ok s \<Longrightarrow> js_truthy r \<Longrightarrow> held s k \<Longrightarrow> held (complete_key k c r s) j = held s j"
    and complete_ok: "ok s \<Longrightarrow> js_truthy r \<Longrightarrow> ok (complete_key k c r s)"
    and fail_holds: "ok s \<Longrightarrow> held (fail_key k s) j \<longleftrightarrow> held s j \<and> (j = k \<longrightarrow> answer s j \<noteq> None)"
    and fail_answer: "ok s \<Longrightarrow> answer (fail_key k s) j = answer s j"
    and fail_ok: "ok s \<Longrightarrow> ok (fail_key k s)"
begin

abbreviation step_of :: "idem_step \<Rightarrow> 's \<Rightarrow> bool \<times> 's" where
  "step_of \<equiv> idem_step_of begin_key complete_key fail_key held"

abbreviation grants :: "string \<Rightarrow> idem_step list \<Rightarrow> 's \<Rightarrow> nat" where
  "grants \<equiv> idem_grants begin_key complete_key fail_key held"

abbreviation after_steps :: "idem_step list \<Rightarrow> 's \<Rightarrow> 's" where
  "after_steps \<equiv> idem_after begin_key complete_key fail_key held"

lemma step_ok: "ok s \<Longrightarrow> truthy_steps (x # xs) \<Longrightarrow> ok (snd (step_of x s))"
  by (cases x) (auto simp: truthy_steps_def begin_ok complete_ok fail_ok)

lemma truthy_tail: "truthy_steps (x # xs) \<Longrightarrow> truthy_steps xs"
  by (simp add: truthy_steps_def)

lemma step_keeps_held:
  assumes "ok s" "truthy_steps (x # xs)" "held s k" "x \<noteq> Fail k"
  shows "held (snd (step_of x s)) k"
  using assms by (cases x) (auto simp: truthy_steps_def begin_holds complete_holds fail_holds)

text \<open>Without a release, a held key is handed out no more; so it is handed out at most once.\<close>

lemma held_no_grant:
  "ok s \<Longrightarrow> truthy_steps xs \<Longrightarrow> held s k \<Longrightarrow> Fail k \<notin> set xs \<Longrightarrow> grants k xs s = 0"
proof (induction xs arbitrary: s)
  case (Cons x xs)
  have "grants k xs (snd (step_of x s)) = 0"
    using Cons.prems by (intro Cons.IH step_ok [OF Cons.prems(1,2)] truthy_tail [OF Cons.prems(2)]
        step_keeps_held [OF Cons.prems(1,2)]) auto
  moreover have "\<not> (x = Begin k \<and> fst (step_of x s))" using Cons.prems by (auto simp: begin_owned)
  ultimately show ?case by simp
qed simp

lemma grants_once:
  "ok s \<Longrightarrow> truthy_steps xs \<Longrightarrow> Fail k \<notin> set xs \<Longrightarrow> grants k xs s \<le> 1"
proof (induction xs arbitrary: s)
  case (Cons x xs)
  show ?case
  proof (cases "x = Begin k")
    case True
    then have "held (snd (step_of x s)) k" using Cons.prems(1) by (simp add: begin_holds)
    then have "grants k xs (snd (step_of x s)) = 0"
      using Cons.prems by (intro held_no_grant step_ok [OF Cons.prems(1,2)] truthy_tail [OF Cons.prems(2)]) auto
    then show ?thesis by simp
  next
    case False
    have "grants k xs (snd (step_of x s)) \<le> 1"
      using Cons.prems by (intro Cons.IH step_ok [OF Cons.prems(1,2)] truthy_tail [OF Cons.prems(2)]) auto
    with False show ?thesis by simp
  qed
qed simp

text \<open>A recorded answer is what every later request of the key gets.\<close>

lemma answer_stays:
  assumes "ok s" "truthy_steps xs" "answer s k = Some (c, r)" "\<forall>c' r'. Complete k c' r' \<notin> set xs"
  shows "fst (begin_key k (after_steps xs s)) = Replayed c (Some r)"
  using assms
proof (induction xs arbitrary: s)
  case Nil
  then show ?case by (simp add: begin_replays)
next
  case (Cons x xs)
  have "answer (snd (step_of x s)) k = Some (c, r)"
  proof (cases x)
    case (Complete j c' r')
    with Cons.prems have "j \<noteq> k" "js_truthy r'" by (auto simp: truthy_steps_def)
    with Complete Cons.prems show ?thesis by (simp add: complete_answer)
  qed (use Cons.prems in \<open>simp_all add: begin_answer fail_answer\<close>)
  moreover have "ok (snd (step_of x s))" by (rule step_ok [OF Cons.prems(1,2)])
  ultimately show ?case
    using Cons.IH truthy_tail [OF Cons.prems(2)] Cons.prems(4) by simp
qed

end

section \<open>Both stores keep it\<close>

definition idm_held :: "idem_map \<Rightarrow> string \<Rightarrow> bool" where
  "idm_held m k \<longleftrightarrow> jm_get m k \<noteq> None"

definition idm_answer :: "idem_map \<Rightarrow> string \<Rightarrow> (int \<times> json) option" where
  "idm_answer m k = (case jm_get m k of Some (Recorded c r) \<Rightarrow> Some (c, r) | _ \<Rightarrow> None)"

definition idm_ok :: "idem_map \<Rightarrow> bool" where
  "idm_ok m \<longleftrightarrow> (\<forall>k c r. jm_get m k = Some (Recorded c r) \<longrightarrow> js_truthy r)"

interpretation idm: idempotency_store idm_begin idm_complete idm_fail idm_held idm_answer idm_ok
proof (unfold_locales, goal_cases)
  case (1 s k)
  then show ?case by (auto simp: idm_begin_def idm_held_def idm_ok_def split: option.splits idem_record.splits)
next
  case (2 s k j)
  then show ?case by (auto simp: idm_begin_def idm_held_def idm_ok_def jm_get_set split: option.splits idem_record.splits)
next
  case (3 s k j)
  then show ?case by (auto simp: idm_begin_def idm_answer_def idm_ok_def jm_get_set split: option.splits idem_record.splits)
next
  case (4 s k c r)
  then show ?case by (auto simp: idm_begin_def idm_answer_def idm_ok_def split: option.splits idem_record.splits)
next
  case (5 s k)
  then show ?case by (auto simp: idm_begin_def idm_ok_def jm_get_set split: option.splits idem_record.splits)
next
  case (6 s k)
  then show ?case by (auto simp: idm_answer_def idm_held_def split: option.splits)
next
  case (7 s r k c j)
  then show ?case by (simp add: idm_complete_def idm_answer_def jm_get_set)
next
  case (8 s r k c j)
  then show ?case by (simp add: idm_complete_def idm_held_def jm_get_set)
next
  case (9 s r k c)
  then show ?case by (auto simp: idm_complete_def idm_ok_def jm_get_set)
next
  case (10 s k j)
  then show ?case
    by (auto simp: idm_fail_def idm_held_def idm_answer_def jm_get_delete split: option.splits idem_record.splits)
next
  case (11 s k j)
  then show ?case by (auto simp: idm_fail_def idm_answer_def jm_get_delete split: option.splits)
next
  case (12 s k)
  then show ?case by (auto simp: idm_fail_def idm_ok_def jm_get_delete)
qed

text \<open>The Postgres store while its database answers.\<close>

definition idp_held :: "idem_pg \<Rightarrow> string \<Rightarrow> bool" where
  "idp_held st k \<longleftrightarrow> jm_get (ip_table st) k \<noteq> None"

definition idp_answer :: "idem_pg \<Rightarrow> string \<Rightarrow> (int \<times> json) option" where
  "idp_answer st k = (case jm_get (ip_table st) k of Some (c, Some r) \<Rightarrow> Some (c, r) | _ \<Rightarrow> None)"

interpretation idp: idempotency_store "idp_begin Idb_ok" "idp_complete True" "idp_fail True" idp_held idp_answer ip_uses_db
proof (unfold_locales, goal_cases)
  case (1 s k)
  then show ?case by (auto simp: idp_begin_def idp_held_def split: option.splits)
next
  case (2 s k j)
  then show ?case by (auto simp: idp_begin_def idp_held_def jm_get_set split: option.splits)
next
  case (3 s k j)
  then show ?case by (auto simp: idp_begin_def idp_answer_def jm_get_set split: option.splits)
next
  case (4 s k c r)
  then show ?case by (auto simp: idp_begin_def idp_answer_def split: option.splits)
next
  case (5 s k)
  then show ?case by (auto simp: idp_begin_def ip_uses_db_def split: option.splits)
next
  case (6 s k)
  then show ?case by (auto simp: idp_answer_def idp_held_def split: option.splits)
next
  case (7 s r k c j)
  then show ?case by (auto simp: idp_complete_def idp_answer_def idp_held_def jm_get_set)
next
  case (8 s r k c j)
  then show ?case by (auto simp: idp_complete_def idp_held_def jm_get_set)
next
  case (9 s r k c)
  then show ?case by (auto simp: idp_complete_def ip_uses_db_def)
next
  case (10 s k j)
  then show ?case
    by (auto simp: idp_fail_def idp_held_def idp_answer_def jm_get_delete split: option.splits)
next
  case (11 s k j)
  then show ?case by (auto simp: idp_fail_def idp_answer_def jm_get_delete split: option.splits)
next
  case (12 s k)
  then show ?case by (auto simp: idp_fail_def ip_uses_db_def split: option.splits)
qed

section \<open>A duplicate while the first request is in flight\<close>

lemma idm_in_flight: "fst (idm_begin k (snd (idm_begin k []))) = Conflict"
  by (simp add: idm_begin_def)

text \<open>The Postgres store replays the row it finds, answered or not.\<close>

lemma idp_in_flight:
  assumes "ip_uses_db st" "jm_get (ip_table st) k = None"
  shows "fst (idp_begin Idb_ok k (snd (idp_begin Idb_ok k st))) = Replayed 200 None"
  using assms by (simp add: idp_begin_def ip_uses_db_def jm_get_set)

end
