(* ===== verification/RequestGate.thy ===== *)
theory RequestGate
  imports JsPrelude
begin

text \<open>
  What a request passes before a handler sees it: the body checks of
  \<open>src/request-validation.js\<close> and \<open>src/payment-body.js\<close>, and the API-key check of \<open>src/auth.js\<close>.
  A body is a parsed JSON value; the schema check of the framework is an argument (its message,
  when it refused). SHA-256 digests are the parameter \<open>sha256\<close>.
\<close>

section \<open>JSON objects\<close>

text \<open>Reading a property: \<open>undefined\<close> for what is not an object with that property.\<close>

definition jprop :: "string \<Rightarrow> json \<Rightarrow> json option" where
  "jprop k j = (case j of JObj fs \<Rightarrow> map_of fs k | _ \<Rightarrow> None)"

definition isPlainObject :: "json option \<Rightarrow> bool" where
  "isPlainObject v = (case v of Some (JObj _) \<Rightarrow> True | _ \<Rightarrow> False)"

definition non_empty_string :: "json option \<Rightarrow> bool" where
  "non_empty_string v = (case v of Some (JStr s) \<Rightarrow> s \<noteq> [] | _ \<Rightarrow> False)"

definition str_of :: "json option \<Rightarrow> string option" where
  "str_of v = (case v of Some (JStr s) \<Rightarrow> Some s | _ \<Rightarrow> None)"

section \<open>request-validation.js\<close>

record refusal =
  rf_field :: string
  rf_reason :: string

definition validatePaymentFields :: "json \<Rightarrow> refusal + (json \<times> json)" where
  "validatePaymentFields body =
     (let payload = jprop ''paymentPayload'' body; reqs = jprop ''paymentRequirements'' body in
      if \<not> isPlainObject payload then Inl \<lparr>rf_field = ''paymentPayload'', rf_reason = ''invalid_request''\<rparr>
      else if \<not> isPlainObject reqs then Inl \<lparr>rf_field = ''paymentRequirements'', rf_reason = ''invalid_request''\<rparr>
      else if \<not> non_empty_string (jprop ''scheme'' (the reqs))
        then Inl \<lparr>rf_field = ''paymentRequirements.scheme'', rf_reason = ''invalid_request''\<rparr>
      else if \<not> non_empty_string (jprop ''network'' (the reqs))
        then Inl \<lparr>rf_field = ''paymentRequirements.network'', rf_reason = ''invalid_request''\<rparr>
      else Inr (the payload, the reqs))"

definition validatePaymentBody :: "string list \<Rightarrow> json \<Rightarrow> refusal + (json \<times> json)" where
  "validatePaymentBody networks body =
     (case validatePaymentFields body of
        Inl e \<Rightarrow> Inl e
      | Inr (payload, reqs) \<Rightarrow>
          if the (str_of (jprop ''network'' reqs)) \<notin> set networks
          then Inl \<lparr>rf_field = ''paymentRequirements.network'', rf_reason = ''unsupported_network''\<rparr>
          else Inr (payload, reqs))"

section \<open>payment-body.js\<close>

text \<open>The 400 answer in the shape of the route, or the body.\<close>

datatype route = Route_verify | Route_settle

datatype bad_body =
    Bad_settle string "json option"
  | Bad_verify string
  | Bad_discovery string

definition readPaymentBody :: "bool \<Rightarrow> string list \<Rightarrow> route \<Rightarrow> json \<Rightarrow> bad_body + (json \<times> json)" where
  "readPaymentBody schema_refused networks route body =
     (let result = (if schema_refused then Inl \<lparr>rf_field = [], rf_reason = ''invalid_request''\<rparr>
                    else validatePaymentBody networks body)
      in case result of
           Inr r \<Rightarrow> Inr r
         | Inl e \<Rightarrow>
             (case route of
                Route_settle \<Rightarrow>
                  Inl (Bad_settle (rf_reason e)
                    (case jprop ''paymentRequirements'' body of None \<Rightarrow> None | Some r \<Rightarrow> jprop ''network'' r))
              | Route_verify \<Rightarrow> Inl (Bad_verify (rf_reason e))))"

definition readDiscoveryBody :: "bool \<Rightarrow> json \<Rightarrow> bad_body + (json \<times> json)" where
  "readDiscoveryBody schema_refused body =
     (if schema_refused then Inl (Bad_discovery ''invalid_request'')
      else case validatePaymentFields body of
          Inr r \<Rightarrow> Inr r
        | Inl e \<Rightarrow> Inl (Bad_discovery (rf_reason e)))"

section \<open>auth.js\<close>

record api_key =
  ak_id :: string
  ak_hash :: string
  ak_expires_at :: "int option"
  ak_revoked :: bool

text \<open>The secret an Authorization header presents: \<open>Bearer <secret>\<close> or the bare secret.\<close>

definition presented_key :: "string option \<Rightarrow> string + string" where
  "presented_key authHeader =
     (case authHeader of
        None \<Rightarrow> Inl ''missing_auth_header''
      | Some h \<Rightarrow>
          if h = [] then Inl ''missing_auth_header''
          else if h = ''Bearer'' \<or> h = ''Bearer '' then Inl ''malformed_auth_header''
          else if take 7 h = ''Bearer '' then
            (let k = drop 7 h in if k = [] \<or> CHR '' '' \<in> set k then Inl ''malformed_auth_header'' else Inr k)
          else if CHR '' '' \<notin> set h then Inr h
          else Inl ''malformed_auth_header'')"

definition usable_key :: "int \<Rightarrow> api_key \<Rightarrow> string option" where
  "usable_key now k =
     (if ak_revoked k then Some ''revoked_api_key''
      else case ak_expires_at k of
          None \<Rightarrow> None
        | Some e \<Rightarrow> if now \<ge> e then Some ''expired_api_key'' else None)"

definition verifyApiKey :: "(string \<Rightarrow> string) \<Rightarrow> string option \<Rightarrow> api_key list \<Rightarrow> int \<Rightarrow> string + string" where
  "verifyApiKey sha256 authHeader apiKeys now =
     (case presented_key authHeader of
        Inl e \<Rightarrow> Inl e
      | Inr secret \<Rightarrow>
          (case List.find (\<lambda>k. ak_hash k = sha256 secret) apiKeys of
             None \<Rightarrow> Inl ''invalid_api_key''
           | Some k \<Rightarrow> (case usable_key now k of Some e \<Rightarrow> Inl e | None \<Rightarrow> Inr (ak_id k))))"

text \<open>\<open>requireApiKey\<close>: the key id attached to the request (\<open>None\<close> in open mode), or a 401.\<close>

definition requireApiKey :: "(string \<Rightarrow> string) \<Rightarrow> api_key list \<Rightarrow> string option \<Rightarrow> int \<Rightarrow> string + string option" where
  "requireApiKey sha256 apiKeys authHeader now =
     (if apiKeys = [] then Inr None
      else case verifyApiKey sha256 authHeader apiKeys now of
          Inl e \<Rightarrow> Inl e
        | Inr i \<Rightarrow> Inr (Some (js_upper i)))"

definition requireApiKeyStrict :: "(string \<Rightarrow> string) \<Rightarrow> api_key list \<Rightarrow> string option \<Rightarrow> int \<Rightarrow> string + string option" where
  "requireApiKeyStrict sha256 apiKeys authHeader now =
     (if apiKeys = [] then Inl ''open_mode_usage_forbidden'' else requireApiKey sha256 apiKeys authHeader now)"

section \<open>What an accepted request has\<close>

lemma validatePaymentFields_Inr:
  "validatePaymentFields body = Inr (payload, reqs) \<longleftrightarrow>
     jprop ''paymentPayload'' body = Some payload \<and> jprop ''paymentRequirements'' body = Some reqs
     \<and> isPlainObject (Some payload) \<and> isPlainObject (Some reqs)
     \<and> non_empty_string (jprop ''scheme'' reqs) \<and> non_empty_string (jprop ''network'' reqs)"
  by (auto simp: validatePaymentFields_def Let_def isPlainObject_def split: option.splits json.splits)

lemma readPaymentBody_Inr:
  assumes "readPaymentBody refused networks route body = Inr (payload, reqs)"
  shows "\<exists>net. str_of (jprop ''network'' reqs) = Some net \<and> net \<in> set networks \<and> net \<noteq> []
    \<and> (\<exists>s. str_of (jprop ''scheme'' reqs) = Some s \<and> s \<noteq> [])"
proof -
  have v: "validatePaymentBody networks body = Inr (payload, reqs)"
    using assms by (auto simp: readPaymentBody_def Let_def split: if_splits sum.splits route.splits)
  then have f: "validatePaymentFields body = Inr (payload, reqs)"
    and n: "the (str_of (jprop ''network'' reqs)) \<in> set networks"
    by (auto simp: validatePaymentBody_def split: sum.splits if_splits)
  from f have "non_empty_string (jprop ''scheme'' reqs)" "non_empty_string (jprop ''network'' reqs)"
    by (auto simp: validatePaymentFields_Inr)
  with n show ?thesis
    by (auto simp: non_empty_string_def str_of_def split: option.splits json.splits)
qed

lemma verifyApiKey_Inr:
  assumes "verifyApiKey sha256 h keys now = Inr i"
  shows "\<exists>secret k. presented_key h = Inr secret \<and> k \<in> set keys \<and> ak_id k = i \<and> ak_hash k = sha256 secret
    \<and> \<not> ak_revoked k \<and> (\<forall>e. ak_expires_at k = Some e \<longrightarrow> now < e)"
proof -
  obtain secret where s: "presented_key h = Inr secret"
    using assms by (auto simp: verifyApiKey_def split: sum.splits)
  obtain k where k: "List.find (\<lambda>k. ak_hash k = sha256 secret) keys = Some k" "usable_key now k = None" "ak_id k = i"
    using assms s by (auto simp: verifyApiKey_def split: option.splits)
  from k(1) have "k \<in> set keys" "ak_hash k = sha256 secret" by (auto simp: find_Some_iff)
  with s k(2,3) show ?thesis by (auto simp: usable_key_def split: if_splits option.splits)
qed

text \<open>A secret that only revoked or expired keys carry is refused, whichever of them comes first.\<close>

lemma verifyApiKey_unusable:
  assumes "\<forall>k \<in> set keys. ak_hash k = sha256 secret \<longrightarrow> ak_revoked k \<or> (\<exists>e. ak_expires_at k = Some e \<and> e \<le> now)"
    "presented_key h = Inr secret"
  shows "\<exists>e. verifyApiKey sha256 h keys now = Inl e"
proof (cases "verifyApiKey sha256 h keys now")
  case (Inr i)
  from verifyApiKey_Inr [OF this] assms show ?thesis by fastforce
qed simp

end
