(* ===== verification/SettleRoute.thy ===== *)
theory SettleRoute
  imports Reconciliation RateLimiter Idempotency RequestGate
begin

text \<open>
  The payment routes: the handlers of \<open>POST /settle\<close>, \<open>POST /verify\<close> and the settlement status
  reads in \<open>src/app.js\<close>. The services a handler is built with (settlement store, idempotency
  store, limiter) are records of operations over their states; the facilitator's answer, the
  clock and the hashes are an environment. Spans, metrics, audit and log lines are left out, and
  so is the cataloguing that runs beside a payment.
\<close>

section \<open>Requests and answers\<close>

record settle_req =
  sr_keyId :: "string option"
  sr_ip :: string
  sr_idem_header :: "string option"
  sr_body :: json
  sr_schema_refused :: bool

definition limiter_request :: "settle_req \<Rightarrow> rl_request" where
  "limiter_request req = \<lparr>rl_keyId = sr_keyId req, rl_ip = sr_ip req\<rparr>"

text \<open>What \<open>facilitator.settle\<close> returns; \<open>st_json\<close> is the result as it is stored and sent.\<close>

record settle_result =
  st_success :: bool
  st_transaction :: "string option"
  st_network :: "string option"
  st_payer :: "string option"
  st_errorReason :: "string option"
  st_errorMessage :: "string option"
  st_json :: json

text \<open>A thrown value: its code, its name when it is an Error, its message, and how it is described.\<close>

record thrown =
  er_code :: "string option"
  er_name :: "string option"
  er_message :: "string option"
  er_text :: string

text \<open>
  How the attempt to settle ends for the handler: the facilitator answered, something threw, or
  the request's time ran out first.
\<close>

datatype attempt = Finished settle_result | Threw thrown | Timed_out

datatype body_out =
    B_bad bad_body
  | B_limited
  | B_stored json
  | B_settled "string option" string "string option"
  | B_outcome_unknown string string string
  | B_failed "string option" "string option" string string
  | B_replay "json option"
  | B_conflict
  | B_result settle_result
  | B_error string string string "json option"
  | B_internal
  | B_not_found
  | B_record projection
  | B_events "settlement_event list"

text \<open>What the \<open>EXTENSION-RESPONSES\<close> header says of the cataloguing beside a payment.\<close>

record catalog_outcome =
  co_status :: string
  co_code :: "string option"
  co_reason :: "string option"
  co_truncated :: "string list option"

record answer =
  an_status :: int
  an_limits :: "rl_headers option"
  an_replay :: "bool option"
  an_extension :: "catalog_outcome option"
  an_body :: body_out

definition plain_answer :: "int \<Rightarrow> body_out \<Rightarrow> answer" where
  "plain_answer code b = \<lparr>an_status = code, an_limits = None, an_replay = None, an_extension = None, an_body = b\<rparr>"

section \<open>The services\<close>

record ('s, 'i, 'l) services =
  sv_get :: "string \<Rightarrow> 's \<Rightarrow> projection option \<times> 's"
  sv_save :: "settle_record \<Rightarrow> 's \<Rightarrow> bool \<times> 's"
  sv_settleAndEnqueue :: "string \<Rightarrow> settle_details \<Rightarrow> notification option \<Rightarrow> 's \<Rightarrow> (bool \<times> notification option) option \<times> 's"
  sv_updateState :: "string \<Rightarrow> sstate \<Rightarrow> settle_details \<Rightarrow> 's \<Rightarrow> bool \<times> 's"
  sv_idempotency :: bool
  sv_begin :: "string \<Rightarrow> 'i \<Rightarrow> claim \<times> 'i"
  sv_complete :: "string \<Rightarrow> int \<Rightarrow> json \<Rightarrow> 'i \<Rightarrow> 'i"
  sv_fail :: "string \<Rightarrow> 'i \<Rightarrow> 'i"
  sv_checkSettle :: "rl_request \<Rightarrow> string \<Rightarrow> 'l \<Rightarrow> check \<times> 'l"
  sv_recordSettle :: "rl_request \<Rightarrow> int \<Rightarrow> 'l \<Rightarrow> check \<times> 'l"
  sv_checkVerify :: "rl_request \<Rightarrow> 'l \<Rightarrow> check \<times> 'l"
  sv_recordVerify :: "rl_request \<Rightarrow> 'l \<Rightarrow> check \<times> 'l"
  sv_checkCatalog :: "rl_request \<Rightarrow> 'l \<Rightarrow> check \<times> 'l"
  sv_recordCatalog :: "rl_request \<Rightarrow> 'l \<Rightarrow> check \<times> 'l"

record ('s, 'i, 'l) world =
  w_store :: 's
  w_idem :: 'i
  w_limiter :: 'l
  w_webhooks :: "notification list"
  w_upserts :: "(json \<times> string) list"   \<comment> \<open>catalog writes scheduled, with their source\<close>

text \<open>What \<open>validateForCatalog\<close> makes of the declared resource.\<close>

datatype catalog_verdict =
    Hard_drop string
  | Accepted json "string list" "string list"   \<comment> \<open>resource, fields dropped, fields shortened\<close>

record settle_env =
  ev_sha256 :: "string \<Rightarrow> string"
  ev_stringify :: "json \<Rightarrow> string"
  ev_parse :: "string \<Rightarrow> json"
  ev_networks :: "string list"
  ev_maxFee :: "string \<Rightarrow> int option"
  ev_webhooks :: bool
  ev_validate :: "json \<Rightarrow> json \<Rightarrow> catalog_verdict"
  ev_now :: int

section \<open>Keys\<close>

definition body_payload :: "json \<Rightarrow> json option" where
  "body_payload body = jprop ''paymentPayload'' body"

definition payload_transaction :: "json \<Rightarrow> string option" where
  "payload_transaction body = (case body_payload body of None \<Rightarrow> None | Some p \<Rightarrow> str_of (jprop ''transaction'' p))"

definition settle_key :: "settle_env \<Rightarrow> settle_req \<Rightarrow> string" where
  "settle_key env req = deriveIdempotencyKey (ev_sha256 env)
     \<lparr>idempotency_header = sr_idem_header req, transaction_xdr = payload_transaction (sr_body req),
      payload_json = ev_stringify env (nullish_or (body_payload (sr_body req)) JNull)\<rparr>"

definition scoped_key :: "string option \<Rightarrow> string \<Rightarrow> string" where
  "scoped_key keyId k =
     (case keyId of None \<Rightarrow> k | Some i \<Rightarrow> if i = [] then k else i @ '':'' @ k)"

definition store_key :: "settle_env \<Rightarrow> settle_req \<Rightarrow> string" where
  "store_key env req = scoped_key (sr_keyId req) (settle_key env req)"

definition replay_key :: "settle_env \<Rightarrow> settle_req \<Rightarrow> string" where
  "replay_key env req = keyFor (ev_sha256 env)
     \<lparr>ir_header = sr_idem_header req, ir_body = ev_stringify env (sr_body req)\<rparr>"

section \<open>Answering from the record on file\<close>

definition owned_by :: "settle_req \<Rightarrow> projection \<Rightarrow> bool" where
  "owned_by req r \<longleftrightarrow>
     (case (key_id r, sr_keyId req) of
        (Some k, Some c) \<Rightarrow> k = [] \<or> c = [] \<or> js_upper k = js_upper c
      | _ \<Rightarrow> True)"

definition RETRYABLE_REASONS :: "string list" where
  "RETRYABLE_REASONS = [''rate_limited'', ''catalog_rate_limited'', ''soroban_rpc_unreachable'',
     ''lock_timeout'', ''request_timeout'']"

definition stored_body :: "settle_env \<Rightarrow> json \<Rightarrow> json" where
  "stored_body env r = (case r of JStr s \<Rightarrow> ev_parse env s | _ \<Rightarrow> r)"

definition or_text :: "string option \<Rightarrow> string \<Rightarrow> string" where
  "or_text x d = (case x of None \<Rightarrow> d | Some s \<Rightarrow> if s = [] then d else s)"

definition truthy_json :: "json option \<Rightarrow> bool" where
  "truthy_json r = (case r of None \<Rightarrow> False | Some j \<Rightarrow> js_truthy j)"

text \<open>The answer an existing record gives, when it gives one.\<close>

definition answer_on_file :: "settle_env \<Rightarrow> settle_req \<Rightarrow> projection \<Rightarrow> body_out option" where
  "answer_on_file env req r =
     (if \<not> owned_by req r then None
      else if state r = St_settled then
        Some (if truthy_json (response r) then B_stored (stored_body env (the (response r)))
              else B_settled (tx_hash r) (network r) (payer r))
      else if state r = St_submitted \<or> state r = St_unknown then
        Some (B_outcome_unknown (or_text (error_message r) ''settlement in progress or outcome unknown'')
                (or_text (tx_hash r) []) (network r))
      else if state r = St_failed \<and> error_reason r \<notin> Some ` set RETRYABLE_REASONS then
        Some (if truthy_json (response r) then B_stored (stored_body env (the (response r)))
              else B_failed (error_reason r) (error_message r) (or_text (tx_hash r) []) (network r))
      else None)"

text \<open>\<open>handleRateLimit(reply, ...)\<close> and then the given answer, unless it answered itself.\<close>

definition limited_answer :: "int \<Rightarrow> check option list \<Rightarrow> answer \<Rightarrow> answer" where
  "limited_answer now states a =
     (case handleRateLimit now states of
        None \<Rightarrow> a
      | Some (h, None) \<Rightarrow> a\<lparr>an_limits := Some h\<rparr>
      | Some (h, Some rj) \<Rightarrow> \<lparr>an_status = rj_status rj, an_limits = Some h, an_replay = None, an_extension = None, an_body = B_limited\<rparr>)"

section \<open>Cataloguing beside a payment\<close>

definition joined :: "string list \<Rightarrow> string" where
  "joined xs = concat (case xs of [] \<Rightarrow> [] | y # ys \<Rightarrow> y # map (\<lambda>z. '', '' @ z) ys)"

definition landed_outcome :: "string list \<Rightarrow> string list \<Rightarrow> catalog_outcome" where
  "landed_outcome softDrops truncations =
     (let base = (if softDrops \<noteq> []
                  then \<lparr>co_status = ''partially landed'', co_code = Some ''catalog_partial'',
                        co_reason = Some (''Dropped fields: '' @ joined softDrops), co_truncated = None\<rparr>
                  else \<lparr>co_status = ''landed'', co_code = Some ''catalog_success'', co_reason = None, co_truncated = None\<rparr>)
      in if truncations = [] then base
         else (if co_status base = ''landed''
               then base\<lparr>co_status := ''partially landed'', co_code := Some ''catalog_partial'',
                         co_reason := Some (''Truncated fields: '' @ joined truncations)\<rparr>
               else base)\<lparr>co_truncated := Some truncations\<rparr>)"

text \<open>
  \<open>processCataloging\<close>: nothing in it reaches the payment; the catalog write itself is scheduled and
  runs after the handler.
\<close>

definition processCataloging ::
  "('s, 'i, 'l) services \<Rightarrow> settle_env \<Rightarrow> settle_req \<Rightarrow> json \<times> json \<Rightarrow> string \<Rightarrow> ('s, 'i, 'l) world
     \<Rightarrow> catalog_outcome \<times> ('s, 'i, 'l) world" where
  "processCataloging sv env req body source w =
     (case ev_validate env (fst body) (snd body) of
        Hard_drop reason \<Rightarrow>
          ((if reason = ''missing_or_invalid_discovery_extension''
            then \<lparr>co_status = ''not attempted'', co_code = None, co_reason = None, co_truncated = None\<rparr>
            else \<lparr>co_status = ''rejected'', co_code = Some reason, co_reason = None, co_truncated = None\<rparr>), w)
      | Accepted resource softDrops truncations \<Rightarrow>
          (case sv_checkCatalog sv (limiter_request req) (w_limiter w) of
             (check, l) \<Rightarrow>
               if \<not> ck_allowed check
               then (\<lparr>co_status = ''rejected'', co_code = Some ''catalog_rate_limited'', co_reason = ck_reason check,
                      co_truncated = None\<rparr>, w\<lparr>w_limiter := l\<rparr>)
               else (landed_outcome softDrops truncations,
                     w\<lparr>w_limiter := snd (sv_recordCatalog sv (limiter_request req) l),
                       w_upserts := w_upserts w @ [(resource, source)]\<rparr>)))"

lemma processCataloging_stores [simp]:
  "w_store (snd (processCataloging sv env req body source w)) = w_store w"
  "w_idem (snd (processCataloging sv env req body source w)) = w_idem w"
  "w_webhooks (snd (processCataloging sv env req body source w)) = w_webhooks w"
  by (auto simp: processCataloging_def Let_def split: catalog_verdict.splits prod.splits)

section \<open>Settling once\<close>

definition requirement :: "json \<Rightarrow> string \<Rightarrow> string option" where
  "requirement reqs k = str_of (jprop k reqs)"

definition submitted_record :: "settle_env \<Rightarrow> settle_req \<Rightarrow> json \<Rightarrow> json \<Rightarrow> settle_record" where
  "submitted_record env req pl reqs = \<lparr>r_idempotency_key = store_key env req,
     r_network = requirement reqs ''network'', r_scheme = requirement reqs ''scheme'',
     r_payer = str_of (jprop ''payer'' pl), r_pay_to = requirement reqs ''payTo'',
     r_asset = requirement reqs ''asset'', r_amount = requirement reqs ''maxAmountRequired'',
     r_tx_hash = None, r_key_id = sr_keyId req\<rparr>"

definition completed_notification :: "json \<Rightarrow> settle_result \<Rightarrow> notification" where
  "completed_notification reqs res = \<lparr>nt_type = ''settlement.completed'', nt_id = None,
     nt_fields = [(''transaction'', opt_json (st_transaction res)), (''network'', opt_json (st_network res)),
                  (''payer'', opt_json (st_payer res)), (''payTo'', opt_json (requirement reqs ''payTo'')),
                  (''amount'', opt_json (requirement reqs ''maxAmountRequired'')),
                  (''asset'', opt_json (requirement reqs ''asset''))]\<rparr>"

definition non_empty :: "string option \<Rightarrow> string option" where
  "non_empty x = (case x of None \<Rightarrow> None | Some s \<Rightarrow> if s = [] then None else Some s)"

text \<open>The details of the two outcomes.\<close>

definition settled_details :: "settle_result \<Rightarrow> settle_details" where
  "settled_details res = \<lparr>d_tx_hash = st_transaction res, d_error_reason = None, d_error_message = None,
     d_response = Some (st_json res)\<rparr>"

definition refused_details :: "settle_result \<Rightarrow> settle_details" where
  "refused_details res = \<lparr>d_tx_hash = non_empty (st_transaction res),
     d_error_reason = Some (or_text (st_errorReason res) ''facilitator_error''),
     d_error_message = non_empty (st_errorMessage res), d_response = Some (st_json res)\<rparr>"

text \<open>
  \<open>settleOnce\<close> from the facilitator's answer on: \<open>None\<close> when a store write threw, and otherwise
  the answer. \<open>claimed\<close> is whether the handler holds an idempotency claim to complete.
\<close>

definition settle_once ::
  "('s, 'i, 'l) services \<Rightarrow> settle_env \<Rightarrow> settle_req \<Rightarrow> json \<times> json \<Rightarrow> bool \<Rightarrow> check \<Rightarrow> settle_result
     \<Rightarrow> ('s, 'i, 'l) world \<Rightarrow> answer option \<times> ('s, 'i, 'l) world" where
  "settle_once sv env req body claimed check res w =
     (let reqs = snd body;
          net = nullish_or (requirement reqs ''network'') [];
          fee = (if st_success res then nullish_or (ev_maxFee env net) 50000 else 0);
          (recorded, l) = sv_recordSettle sv (limiter_request req) fee (w_limiter w);
          w1 = w\<lparr>w_limiter := l\<rparr>;
          complete = (\<lambda>v. if claimed then v\<lparr>w_idem := sv_complete sv (replay_key env req) 200 (st_json res) (w_idem v)\<rparr> else v);
          send = (\<lambda>b. limited_answer (ev_now env) [Some recorded, Some check] (plain_answer 200 b))
      in if \<not> ck_allowed recorded then (Some (send B_limited), w1)
         else if st_success res then
           (let ev = (if ev_webhooks env then Some (completed_notification reqs res) else None) in
            case sv_settleAndEnqueue sv (store_key env req) (settled_details res) ev (w_store w1) of
              (None, s) \<Rightarrow> (None, w1\<lparr>w_store := s\<rparr>)
            | (Some (atomically, ev'), s) \<Rightarrow>
                (let (ext, w2) = processCataloging sv env req body ''settle'' (w1\<lparr>w_store := s\<rparr>);
                     w3 = (case ev' of
                             Some e \<Rightarrow> if \<not> atomically \<and> ev_webhooks env then w2\<lparr>w_webhooks := w_webhooks w2 @ [e]\<rparr> else w2
                           | None \<Rightarrow> w2)
                 in (Some ((send (B_result res))\<lparr>an_extension := Some ext\<rparr>), complete w3)))
         else
           (case sv_updateState sv (store_key env req) St_failed (refused_details res) (w_store w1) of
              (False, s) \<Rightarrow> (None, w1\<lparr>w_store := s\<rparr>)
            | (True, s) \<Rightarrow> (Some (send (B_result res)), complete (w1\<lparr>w_store := s\<rparr>))))"

text \<open>
  The time limit of a request only ends its answer (\<open>Promise.race\<close>): \<open>settleOnce\<close> itself runs on, and
  when the facilitator answers it later it makes the same writes, with nobody to answer.
\<close>

definition settle_late ::
  "('s, 'i, 'l) services \<Rightarrow> settle_env \<Rightarrow> settle_req \<Rightarrow> json \<times> json \<Rightarrow> check \<Rightarrow> settle_result
     \<Rightarrow> ('s, 'i, 'l) world \<Rightarrow> ('s, 'i, 'l) world" where
  "settle_late sv env req body check res w = snd (settle_once sv env req body (sv_idempotency sv) check res w)"

section \<open>When the attempt throws\<close>

definition timeout_error :: "bool \<Rightarrow> thrown" where
  "timeout_error submitted =
     (if submitted
      then \<lparr>er_code = Some ''SUBMITTED_OUTCOME_UNKNOWN'', er_name = Some ''Error'',
            er_message = Some ''settlement submitted to network but timed out waiting for confirmation'',
            er_text = ''settlement submitted to network but timed out waiting for confirmation''\<rparr>
      else \<lparr>er_code = Some ''REQUEST_TIMEOUT'', er_name = Some ''Error'',
            er_message = Some ''request timeout'', er_text = ''request timeout''\<rparr>)"

definition contains :: "string \<Rightarrow> string \<Rightarrow> bool" where
  "contains needle s \<longleftrightarrow> list_ex (\<lambda>i. take (length needle) (drop i s) = needle) [0..<Suc (length s)]"

definition error_reason_of :: "thrown \<Rightarrow> bool \<Rightarrow> string" where
  "error_reason_of err submitted =
     (if er_code err = Some ''SUBMITTED_OUTCOME_UNKNOWN'' then ''submitted_outcome_unknown''
      else if er_code err = Some ''REQUEST_TIMEOUT''
        then (if submitted then ''submitted_outcome_unknown'' else ''request_timeout'')
      else if er_name err = Some ''LockAcquireTimeoutError'' then ''lock_timeout''
      else if er_code err = Some ''RPC_BREAKER_OPEN'' then ''soroban_rpc_unreachable''
      else if (case er_message err of None \<Rightarrow> False | Some m \<Rightarrow> contains ''unregistered'' m)
        then ''unsupported_scheme_network''
      else ''facilitator_error'')"

definition settle_failed ::
  "('s, 'i, 'l) services \<Rightarrow> settle_env \<Rightarrow> settle_req \<Rightarrow> bool \<Rightarrow> thrown \<Rightarrow> bool
     \<Rightarrow> ('s, 'i, 'l) world \<Rightarrow> answer \<times> ('s, 'i, 'l) world" where
  "settle_failed sv env req claimed err submitted w =
     (let reason = error_reason_of err submitted;
          transaction = or_text (payload_transaction (sr_body req)) [];
          w1 = (if claimed \<and> reason \<noteq> ''submitted_outcome_unknown''
                then w\<lparr>w_idem := sv_fail sv (replay_key env req) (w_idem w)\<rparr> else w);
          target = (if reason = ''submitted_outcome_unknown'' then St_unknown else St_failed)
      in case sv_updateState sv (store_key env req) target
                \<lparr>d_tx_hash = Some transaction, d_error_reason = Some reason,
                 d_error_message = Some (er_text err), d_response = None\<rparr> (w_store w1) of
           (False, s) \<Rightarrow> (plain_answer 500 B_internal, w1\<lparr>w_store := s\<rparr>)
         | (True, s) \<Rightarrow>
             (plain_answer 200 (B_error reason (er_text err) transaction
                (case jprop ''paymentRequirements'' (sr_body req) of None \<Rightarrow> None | Some r \<Rightarrow> jprop ''network'' r)),
              w1\<lparr>w_store := s\<rparr>))"

section \<open>POST /settle\<close>

text \<open>
  The handler. \<open>att\<close> is how the attempt ends and \<open>submitted\<close> whether a transaction had been
  broadcast by then (\<open>requestState\<close>); the flag in the result says whether the facilitator was
  asked to settle.
\<close>

definition settle_route ::
  "('s, 'i, 'l) services \<Rightarrow> settle_env \<Rightarrow> settle_req \<Rightarrow> attempt \<Rightarrow> bool \<Rightarrow> thrown
     \<Rightarrow> ('s, 'i, 'l) world \<Rightarrow> (bool \<times> answer) \<times> ('s, 'i, 'l) world" where
  "settle_route sv env req att submitted store_error w =
     (case readPaymentBody (sr_schema_refused req) (ev_networks env) Route_settle (sr_body req) of
        Inl bad \<Rightarrow> ((False, plain_answer 400 (B_bad bad)), w)
      | Inr (pl, reqs) \<Rightarrow>
          (let net = nullish_or (requirement reqs ''network'') [];
               (check, l) = sv_checkSettle sv (limiter_request req) net (w_limiter w);
               w0 = w\<lparr>w_limiter := l\<rparr>;
               send = (\<lambda>a. limited_answer (ev_now env) [Some check] a)
           in if \<not> ck_allowed check then ((False, send (plain_answer 200 B_limited)), w0)
              else
                (let (existing, s) = sv_get sv (store_key env req) (w_store w0);
                     w1 = w0\<lparr>w_store := s\<rparr>
                 in case (case existing of None \<Rightarrow> None | Some r \<Rightarrow> answer_on_file env req r) of
                      Some b \<Rightarrow> ((False, send (plain_answer 200 b)), w1)
                    | None \<Rightarrow>
                        (case sv_save sv (submitted_record env req pl reqs) (w_store w1) of
                           (False, s2) \<Rightarrow> ((False, plain_answer 500 B_internal), w1\<lparr>w_store := s2\<rparr>)
                         | (True, s2) \<Rightarrow>
                             (let w2 = w1\<lparr>w_store := s2\<rparr>;
                                  (clm, i) = (if sv_idempotency sv then sv_begin sv (replay_key env req) (w_idem w2)
                                                else (Owned, w_idem w2));
                                  w3 = w2\<lparr>w_idem := i\<rparr>
                              in case clm of
                                   Replayed code r \<Rightarrow>
                                     ((False, (send (plain_answer code (B_replay r)))\<lparr>an_replay := Some True\<rparr>), w3)
                                 | Conflict \<Rightarrow>
                                     ((False, (send (plain_answer 409 B_conflict))\<lparr>an_replay := Some False\<rparr>), w3)
                                 | Owned \<Rightarrow>
                                     (let failed = settle_failed sv env req (sv_idempotency sv) in
                                      case att of
                                        Finished res \<Rightarrow>
                                          (case settle_once sv env req (pl, reqs) (sv_idempotency sv) check res w3 of
                                             (Some a, w4) \<Rightarrow> ((True, a), w4)
                                           | (None, w4) \<Rightarrow>
                                               (case failed store_error submitted w4 of (a, w5) \<Rightarrow> ((True, a), w5)))
                                      | Threw err \<Rightarrow> (case failed err submitted w3 of (a, w4) \<Rightarrow> ((True, a), w4))
                                      | Timed_out \<Rightarrow>
                                          (case failed (timeout_error submitted) submitted w3 of (a, w4) \<Rightarrow> ((True, a), w4))))))))"

section \<open>POST /verify\<close>

text \<open>What \<open>facilitator.verify\<close> returns, and how the attempt ends.\<close>

record verify_result =
  vr_isValid :: bool
  vr_invalidReason :: "string option"
  vr_json :: json

datatype verify_attempt = Verified verify_result | Verify_threw thrown | Verify_timed_out

datatype verify_body = V_bad bad_body | V_limited | V_result verify_result | V_error string string

record verify_answer =
  va_status :: int
  va_limits :: "rl_headers option"
  va_extension :: "catalog_outcome option"
  va_body :: verify_body

definition verify_reason_of :: "thrown \<Rightarrow> string" where
  "verify_reason_of err =
     (if er_code err = Some ''REQUEST_TIMEOUT'' then ''request_timeout''
      else if er_code err = Some ''RPC_BREAKER_OPEN'' then ''soroban_rpc_unreachable''
      else if (case er_message err of None \<Rightarrow> False | Some m \<Rightarrow> contains ''unregistered'' m)
        then ''unsupported_scheme_network''
      else ''facilitator_error'')"

definition verify_route ::
  "('s, 'i, 'l) services \<Rightarrow> settle_env \<Rightarrow> settle_req \<Rightarrow> verify_attempt \<Rightarrow> ('s, 'i, 'l) world
     \<Rightarrow> (bool \<times> verify_answer) \<times> ('s, 'i, 'l) world" where
  "verify_route sv env req att w =
     (let (check, l) = sv_checkVerify sv (limiter_request req) (w_limiter w);
          w1 = w\<lparr>w_limiter := l\<rparr>;
          rejected = (\<lambda>states. (case handleRateLimit (ev_now env) states of
             Some (h, Some rj) \<Rightarrow> Some \<lparr>va_status = rj_status rj, va_limits = Some h, va_extension = None, va_body = V_limited\<rparr>
           | _ \<Rightarrow> None));
          headers = (\<lambda>states. map_option fst (handleRateLimit (ev_now env) states));
          plain = (\<lambda>h ext b. \<lparr>va_status = 200, va_limits = h, va_extension = ext, va_body = b\<rparr>)
      in if \<not> ck_allowed check then
           ((False, nullish_or (rejected [Some check]) (plain None None V_limited)), w1)
         else (case readPaymentBody (sr_schema_refused req) (ev_networks env) Route_verify (sr_body req) of
            Inl bad \<Rightarrow> ((False, \<lparr>va_status = 400, va_limits = None, va_extension = None, va_body = V_bad bad\<rparr>), w1)
          | Inr body \<Rightarrow>
              (let (recorded, l2) = sv_recordVerify sv (limiter_request req) (w_limiter w1);
                   w2 = w1\<lparr>w_limiter := l2\<rparr>;
                   states = [Some recorded, Some check];
                   failed = (\<lambda>err. plain (headers states) None (V_error (verify_reason_of err) (er_text err)))
               in case rejected states of
                    Some a \<Rightarrow> ((False, a), w2)
                  | None \<Rightarrow>
                      (case att of
                         Verified r \<Rightarrow>
                           if vr_isValid r then
                             (let (ext, w3) = processCataloging sv env req body ''verify'' w2
                              in ((True, plain (headers states) (Some ext) (V_result r)), w3))
                           else ((True, plain (headers states) None (V_result r)), w2)
                       | Verify_threw err \<Rightarrow> ((True, failed err), w2)
                       | Verify_timed_out \<Rightarrow> ((True, failed (timeout_error False)), w2)))))"

section \<open>Status reads\<close>

text \<open>\<open>GET /settlements/:idempotencyKey\<close>, over the record the lookup finds.\<close>

definition status_key :: "string option \<Rightarrow> string \<Rightarrow> string" where
  "status_key keyId idempotencyKey = scoped_key keyId idempotencyKey"

definition foreign :: "string option \<Rightarrow> projection \<Rightarrow> bool" where
  "foreign keyId r \<longleftrightarrow>
     (case (keyId, key_id r) of
        (Some c, Some k) \<Rightarrow> c \<noteq> [] \<and> k \<noteq> [] \<and> js_upper k \<noteq> c
      | _ \<Rightarrow> False)"

definition status_route :: "(string \<Rightarrow> projection option) \<Rightarrow> string option \<Rightarrow> string \<Rightarrow> answer" where
  "status_route lookup keyId idempotencyKey =
     (case lookup (status_key keyId idempotencyKey) of
        None \<Rightarrow> plain_answer 404 B_not_found
      | Some r \<Rightarrow> if foreign keyId r then plain_answer 404 B_not_found else plain_answer 200 (B_record r))"

definition events_route ::
  "(string \<Rightarrow> projection option) \<Rightarrow> (string \<Rightarrow> settlement_event list) \<Rightarrow> string option \<Rightarrow> string \<Rightarrow> answer" where
  "events_route lookup log keyId idempotencyKey =
     (case lookup (status_key keyId idempotencyKey) of
        None \<Rightarrow> plain_answer 404 B_not_found
      | Some r \<Rightarrow> if foreign keyId r then plain_answer 404 B_not_found
                  else plain_answer 200 (B_events (log (status_key keyId idempotencyKey))))"

end
