(* ===== verification/SettleRouteFacts.thy ===== *)
theory SettleRouteFacts
  imports SettleRoute
begin

text \<open>
  What \<open>POST /settle\<close> guarantees, over the contract of the services it is built with (locale
  \<open>settle_services\<close>), and the two sets of services the program builds: memory stores, and
  Postgres stores while their database answers.
\<close>

section \<open>The paths through the handler\<close>

definition passes :: "('s, 'i, 'l) services \<Rightarrow> settle_env \<Rightarrow> settle_req \<Rightarrow> ('s, 'i, 'l) world \<Rightarrow> json \<times> json \<Rightarrow> check \<times> 'l \<Rightarrow> bool" where
  "passes sv env req w body cl \<longleftrightarrow>
     readPaymentBody (sr_schema_refused req) (ev_networks env) Route_settle (sr_body req) = Inr body
     \<and> sv_checkSettle sv (limiter_request req) (nullish_or (requirement (snd body) ''network'') []) (w_limiter w) = cl
     \<and> ck_allowed (fst cl)"

lemma settle_route_on_file:
  assumes "passes sv env req w (pl, reqs) (check, l)" "sv_get sv (store_key env req) (w_store w) = (Some r, s)"
    "answer_on_file env req r = Some b"
  shows "settle_route sv env req att submitted serr w
    = ((False, limited_answer (ev_now env) [Some check] (plain_answer 200 b)), w\<lparr>w_limiter := l, w_store := s\<rparr>)"
  using assms by (simp add: settle_route_def passes_def Let_def)

lemma limited_answer_allowed: "ck_allowed c \<Longrightarrow> an_body (limited_answer now [Some c] a) = an_body a"
  using handleRateLimit_continues [of now "[c]"] by (auto simp: limited_answer_def split: option.splits)

lemma settle_route_held:
  assumes "passes sv env req w (pl, reqs) (check, l)" "sv_get sv (store_key env req) (w_store w) = (ex, s)"
    "(case ex of None \<Rightarrow> None | Some r \<Rightarrow> answer_on_file env req r) = None"
    "sv_save sv (submitted_record env req pl reqs) s = (True, s2)"
    "sv_idempotency sv" "sv_begin sv (replay_key env req) (w_idem w) = (clm, i)" "clm \<noteq> Owned"
  shows "\<exists>a. settle_route sv env req att submitted serr w = ((False, a), w\<lparr>w_limiter := l, w_store := s2, w_idem := i\<rparr>)
    \<and> (\<forall>c r. clm = Replayed c r \<longrightarrow> an_body a = B_replay r)"
  using assms
  by (cases clm) (auto simp: settle_route_def passes_def Let_def limited_answer_allowed plain_answer_def split: option.splits)

text \<open>What happens once the request owns its key.\<close>

definition settle_outcome ::
  "('s, 'i, 'l) services \<Rightarrow> settle_env \<Rightarrow> settle_req \<Rightarrow> json \<times> json \<Rightarrow> check \<Rightarrow> attempt \<Rightarrow> bool \<Rightarrow> thrown
     \<Rightarrow> ('s, 'i, 'l) world \<Rightarrow> answer \<times> ('s, 'i, 'l) world" where
  "settle_outcome sv env req body check att submitted serr w =
     (case att of
        Finished res \<Rightarrow>
          (case settle_once sv env req body (sv_idempotency sv) check res w of
             (Some a, w') \<Rightarrow> (a, w')
           | (None, w') \<Rightarrow> settle_failed sv env req (sv_idempotency sv) serr submitted w')
      | Threw err \<Rightarrow> settle_failed sv env req (sv_idempotency sv) err submitted w
      | Timed_out \<Rightarrow> settle_failed sv env req (sv_idempotency sv) (timeout_error submitted) submitted w)"

lemma settle_route_owned:
  assumes "passes sv env req w (pl, reqs) (check, l)" "sv_get sv (store_key env req) (w_store w) = (ex, s)"
    "(case ex of None \<Rightarrow> None | Some r \<Rightarrow> answer_on_file env req r) = None"
    "sv_save sv (submitted_record env req pl reqs) s = (True, s2)"
    "(if sv_idempotency sv then sv_begin sv (replay_key env req) (w_idem w) else (Owned, w_idem w)) = (Owned, i)"
    "settle_outcome sv env req (pl, reqs) check att submitted serr (w\<lparr>w_limiter := l, w_store := s2, w_idem := i\<rparr>) = (a, w')"
  shows "settle_route sv env req att submitted serr w = ((True, a), w')"
  using assms
  by (cases att)
    (auto simp: settle_route_def passes_def settle_outcome_def Let_def split: option.splits prod.splits if_splits)

text \<open>Nothing on file answers the request.\<close>

definition unanswered :: "('s \<Rightarrow> string \<Rightarrow> projection option) \<Rightarrow> settle_env \<Rightarrow> settle_req \<Rightarrow> 's \<Rightarrow> bool" where
  "unanswered get env req s \<longleftrightarrow> (\<forall>r. get s (store_key env req) = Some r \<longrightarrow> answer_on_file env req r = None)"

text \<open>A retry is answered afresh after a failure of a retryable kind.\<close>

lemma retryable_unanswered:
  assumes "get s (store_key env req) = Some q" "state q = St_failed" "error_reason q = Some e" "e \<in> set RETRYABLE_REASONS"
  shows "unanswered get env req s"
  using assms by (auto simp: unanswered_def answer_on_file_def)

text \<open>The idempotency key of a request that names one is that header, whoever sends it.\<close>

lemma replay_key_header:
  assumes "sr_idem_header req = Some h" "sr_idem_header req' = Some h" "h \<noteq> []"
  shows "replay_key env req = replay_key env req'"
  using assms by (simp add: replay_key_def keyFor_def)

text \<open>
  A record of a settlement that is finished or pending, or failed for a reason no retry mends: the
  caller it belongs to is answered from it.
\<close>

definition final_record :: "projection \<Rightarrow> bool" where
  "final_record r \<longleftrightarrow> state r \<in> {St_settled, St_submitted, St_unknown}
     \<or> state r = St_failed \<and> error_reason r \<notin> Some ` set RETRYABLE_REASONS"

definition closed_for :: "settle_req \<Rightarrow> projection \<Rightarrow> bool" where
  "closed_for req r \<longleftrightarrow> owned_by req r \<and> final_record r"

text \<open>
  An attempt that may have moved money: the facilitator confirmed it, or it was cut off in a way
  the handler classes as outcome-unknown.
\<close>

definition confirming :: "attempt \<Rightarrow> bool \<Rightarrow> bool" where
  "confirming att submitted =
     (case att of
        Finished res \<Rightarrow> st_success res
      | Threw err \<Rightarrow> error_reason_of err submitted = ''submitted_outcome_unknown''
      | Timed_out \<Rightarrow> submitted)"

text \<open>Every answer of the facilitator is an object, as its JSON is.\<close>

definition answers_truthy :: "attempt \<Rightarrow> bool" where
  "answers_truthy att = (case att of Finished res \<Rightarrow> js_truthy (st_json res) | _ \<Rightarrow> True)"

section \<open>The contract of the services\<close>

locale settle_services = idempotency_store "sv_begin sv" "sv_complete sv" "sv_fail sv" held answer iok
  for sv :: "('s, 'i, 'l) services" and held :: "'i \<Rightarrow> string \<Rightarrow> bool" and answer :: "'i \<Rightarrow> string \<Rightarrow> (int \<times> json) option"
    and iok :: "'i \<Rightarrow> bool" +
  fixes get :: "'s \<Rightarrow> string \<Rightarrow> projection option"
    and sok :: "'s \<Rightarrow> bool"
  assumes with_idempotency: "sv_idempotency sv"
    and records_allow: "ck_allowed (fst (sv_recordSettle sv q fee l))"
    and reads: "sok s \<Longrightarrow> sv_get sv k s = (get s k, s)"
    and saves: "sok s \<Longrightarrow> sv_save sv r s = (b, s') \<Longrightarrow> b \<and> sok s'
      \<and> (\<exists>p. get s' (r_idempotency_key r) = Some p \<and> state p = St_submitted \<and> key_id p = r_key_id r)
      \<and> (\<forall>j. j \<noteq> r_idempotency_key r \<longrightarrow> get s' j = get s j)"
    and settles: "sok s \<Longrightarrow> get s k = Some p \<Longrightarrow> response_truthy d \<Longrightarrow> sv_settleAndEnqueue sv k d ev s = (out, s') \<Longrightarrow>
      out \<noteq> None \<and> sok s'
      \<and> (\<exists>q. get s' k = Some q \<and> state q = St_settled \<and> key_id q = key_id p \<and> response q = nullish (d_response d) (response p))
      \<and> (\<forall>j. j \<noteq> k \<longrightarrow> get s' j = get s j)"
    and updates: "sok s \<Longrightarrow> get s k = Some p \<Longrightarrow> response_truthy d \<Longrightarrow> eventTypeForState st = Inr ty \<Longrightarrow>
      sv_updateState sv k st d s = (b, s') \<Longrightarrow> b \<and> sok s'
      \<and> (\<exists>q. get s' k = Some q \<and> state q = st \<and> key_id q = key_id p \<and> tx_hash q = nullish (d_tx_hash d) (tx_hash p)
           \<and> error_reason q = nullish (d_error_reason d) (error_reason p) \<and> response q = nullish (d_response d) (response p))
      \<and> (\<forall>j. j \<noteq> k \<longrightarrow> get s' j = get s j)"
begin

definition wok :: "('s, 'i, 'l) world \<Rightarrow> bool" where
  "wok w \<longleftrightarrow> sok (w_store w) \<and> iok (w_idem w)"

lemma closed_on_file: "closed_for req r \<Longrightarrow> answer_on_file env req r \<noteq> None"
  by (auto simp: closed_for_def final_record_def answer_on_file_def)

text \<open>Such a record is never settled again, and the handler leaves the stores as they are.\<close>

lemma closed_not_settled:
  assumes "wok w" "get (w_store w) (store_key env req) = Some r" "closed_for req r"
    "settle_route sv env req att submitted serr w = ((called, a), w')"
  shows "\<not> called \<and> w_store w' = w_store w \<and> w_idem w' = w_idem w"
proof (cases "readPaymentBody (sr_schema_refused req) (ev_networks env) Route_settle (sr_body req)")
  case (Inl bad)
  with assms(4) show ?thesis by (auto simp: settle_route_def)
next
  case (Inr body)
  obtain pl reqs where body: "body = (pl, reqs)" by (metis surj_pair)
  obtain check l where chk: "sv_checkSettle sv (limiter_request req) (nullish_or (requirement reqs ''network'') []) (w_limiter w) = (check, l)"
    by (metis surj_pair)
  show ?thesis
  proof (cases "ck_allowed check")
    case False
    with assms(4) Inr body chk show ?thesis by (auto simp: settle_route_def Let_def)
  next
    case True
    obtain b where "answer_on_file env req r = Some b" using closed_on_file [OF assms(3)] by blast
    moreover have "passes sv env req w (pl, reqs) (check, l)" using Inr body chk True by (simp add: passes_def)
    moreover have "sv_get sv (store_key env req) (w_store w) = (Some r, w_store w)"
      using assms(1,2) by (simp add: wok_def reads)
    ultimately show ?thesis using settle_route_on_file assms(4) by fastforce
  qed
qed

section \<open>What the first request leaves behind\<close>

text \<open>The world a request that owns its key settles in.\<close>

lemma owned_start:
  assumes "wok w" "passes sv env req w (pl, reqs) (check, l)"
    "unanswered get env req (w_store w)"
    "\<not> held (w_idem w) (replay_key env req)"
  obtains s2 i p where "settle_route sv env req att submitted serr w
      = (case settle_outcome sv env req (pl, reqs) check att submitted serr (w\<lparr>w_limiter := l, w_store := s2, w_idem := i\<rparr>)
         of (a, w') \<Rightarrow> ((True, a), w'))"
    "sok s2" "get s2 (store_key env req) = Some p" "state p = St_submitted" "key_id p = sr_keyId req"
    "\<forall>j. j \<noteq> store_key env req \<longrightarrow> get s2 j = get (w_store w) j"
    "iok i" "held i (replay_key env req)" "answer i (replay_key env req) = None"
    "\<forall>j. held i j \<longleftrightarrow> held (w_idem w) j \<or> j = replay_key env req"
proof -
  let ?k = "replay_key env req" and ?r = "submitted_record env req pl reqs"
  have s: "sok (w_store w)" and io: "iok (w_idem w)" using assms(1) by (simp_all add: wok_def)
  have rd: "sv_get sv (store_key env req) (w_store w) = (get (w_store w) (store_key env req), w_store w)" using reads [OF s] .
  have nofile: "(case get (w_store w) (store_key env req) of None \<Rightarrow> None | Some r \<Rightarrow> answer_on_file env req r) = None"
    using assms(3) by (auto simp: unanswered_def split: option.splits)
  obtain b s2 where sv: "sv_save sv ?r (w_store w) = (b, s2)" by (metis surj_pair)
  have key: "r_idempotency_key ?r = store_key env req" "r_key_id ?r = sr_keyId req" by (simp_all add: submitted_record_def)
  from saves [OF s sv] key obtain p where p: "b" "sok s2" "get s2 (store_key env req) = Some p" "state p = St_submitted"
    "key_id p = sr_keyId req" "\<forall>j. j \<noteq> store_key env req \<longrightarrow> get s2 j = get (w_store w) j" by auto
  obtain c i where bg: "sv_begin sv ?k (w_idem w) = (c, i)" by (metis surj_pair)
  have c: "c = Owned" using begin_owned [OF io, of ?k] bg assms(4) by simp
  have i: "iok i" "held i ?k" "answer i ?k = answer (w_idem w) ?k"
    using begin_ok [OF io, of ?k] begin_holds [OF io, of ?k ?k] begin_answer [OF io, of ?k ?k] bg by simp_all
  have "answer (w_idem w) ?k = None" using answer_held [OF io] assms(4) by blast
  with i have i3: "answer i ?k = None" by simp
  obtain a w' where out: "settle_outcome sv env req (pl, reqs) check att submitted serr (w\<lparr>w_limiter := l, w_store := s2, w_idem := i\<rparr>) = (a, w')"
    by (metis surj_pair)
  have "settle_route sv env req att submitted serr w = ((True, a), w')"
    using settle_route_owned [OF assms(2) rd nofile _ _ out] sv p(1) bg c with_idempotency by simp
  then have "settle_route sv env req att submitted serr w
      = (case settle_outcome sv env req (pl, reqs) check att submitted serr (w\<lparr>w_limiter := l, w_store := s2, w_idem := i\<rparr>)
         of (a, w') \<Rightarrow> ((True, a), w'))" by (simp add: out)
  moreover have "\<forall>j. held i j \<longleftrightarrow> held (w_idem w) j \<or> j = ?k" using begin_holds [OF io, of ?k] bg by simp
  ultimately show thesis using that p(2-6) i(1,2) i3 by blast
qed

text \<open>An attempt cut off after the broadcast leaves the settlement unknown and its claim held.\<close>

lemma unknown_left:
  assumes "sok (w_store w)" "iok (w_idem w)" "get (w_store w) (store_key env req) = Some p"
    "error_reason_of err submitted = ''submitted_outcome_unknown''"
    "settle_failed sv env req c err submitted w = (a, w')"
  shows "wok w' \<and> w_idem w' = w_idem w
    \<and> (\<exists>q. get (w_store w') (store_key env req) = Some q \<and> state q = St_unknown \<and> key_id q = key_id p
         \<and> tx_hash q = Some (or_text (payload_transaction (sr_body req)) []))
    \<and> (\<forall>j. j \<noteq> store_key env req \<longrightarrow> get (w_store w') j = get (w_store w) j)"
proof -
  let ?d = "\<lparr>d_tx_hash = Some (or_text (payload_transaction (sr_body req)) []), d_error_reason = Some ''submitted_outcome_unknown'',
     d_error_message = Some (er_text err), d_response = None\<rparr>"
  obtain b s where u: "sv_updateState sv (store_key env req) St_unknown ?d (w_store w) = (b, s)" by (metis surj_pair)
  have "response_truthy ?d" by (simp add: response_truthy_def truthy_response_def)
  from updates [OF assms(1,3) this _ u, of OutcomeUnknown] have
    "b \<and> sok s \<and> (\<exists>q. get s (store_key env req) = Some q \<and> state q = St_unknown \<and> key_id q = key_id p
         \<and> tx_hash q = Some (or_text (payload_transaction (sr_body req)) []))
     \<and> (\<forall>j. j \<noteq> store_key env req \<longrightarrow> get s j = get (w_store w) j)" by auto
  moreover from this have "w' = w\<lparr>w_store := s\<rparr>"
    using assms(4,5) u by (simp add: settle_failed_def Let_def)
  ultimately show ?thesis using assms(2) by (simp add: wok_def)
qed

text \<open>Any other failure marks it failed and releases the claim.\<close>

lemma failed_left:
  assumes "sok (w_store w)" "iok (w_idem w)" "get (w_store w) (store_key env req) = Some p"
    "error_reason_of err submitted \<noteq> ''submitted_outcome_unknown''"
    "answer (w_idem w) (replay_key env req) = None"
    "settle_failed sv env req True err submitted w = (a, w')"
  shows "wok w' \<and> \<not> held (w_idem w') (replay_key env req)
    \<and> (\<forall>j. j \<noteq> replay_key env req \<longrightarrow> held (w_idem w') j = held (w_idem w) j)
    \<and> (\<exists>q. get (w_store w') (store_key env req) = Some q \<and> state q = St_failed \<and> key_id q = key_id p
         \<and> error_reason q = Some (error_reason_of err submitted))
    \<and> (\<forall>j. j \<noteq> store_key env req \<longrightarrow> get (w_store w') j = get (w_store w) j)"
proof -
  let ?d = "\<lparr>d_tx_hash = Some (or_text (payload_transaction (sr_body req)) []), d_error_reason = Some (error_reason_of err submitted),
     d_error_message = Some (er_text err), d_response = None\<rparr>"
  obtain b s where u: "sv_updateState sv (store_key env req) St_failed ?d (w_store w) = (b, s)" by (metis surj_pair)
  have "response_truthy ?d" by (simp add: response_truthy_def truthy_response_def)
  from updates [OF assms(1,3) this _ u, of Failed] have b:
    "b \<and> sok s \<and> (\<exists>q. get s (store_key env req) = Some q \<and> state q = St_failed \<and> key_id q = key_id p
         \<and> error_reason q = Some (error_reason_of err submitted))
     \<and> (\<forall>j. j \<noteq> store_key env req \<longrightarrow> get s j = get (w_store w) j)" by auto
  then have "w' = w\<lparr>w_idem := sv_fail sv (replay_key env req) (w_idem w), w_store := s\<rparr>"
    using assms(4,6) u by (simp add: settle_failed_def Let_def)
  with b assms(2,5) show ?thesis by (simp add: wok_def fail_ok fail_holds)
qed

text \<open>A settlement the facilitator confirmed is on record with its answer, under both keys.\<close>

lemma success_left:
  assumes "sok (w_store w)" "iok (w_idem w)" "get (w_store w) (store_key env req) = Some p"
    "held (w_idem w) (replay_key env req)" "st_success res" "js_truthy (st_json res)"
    "settle_once sv env req body True check res w = (out, w')"
  shows "out \<noteq> None \<and> wok w' \<and> answer (w_idem w') (replay_key env req) = Some (200, st_json res)
    \<and> (\<forall>j. held (w_idem w') j = held (w_idem w) j)
    \<and> (\<exists>q. get (w_store w') (store_key env req) = Some q \<and> state q = St_settled \<and> key_id q = key_id p
         \<and> response q = Some (st_json res))
    \<and> (\<forall>j. j \<noteq> store_key env req \<longrightarrow> get (w_store w') j = get (w_store w) j)"
proof -
  define net where "net = nullish_or (requirement (snd body) ''network'') []"
  obtain rc l where rec: "sv_recordSettle sv (limiter_request req) (nullish_or (ev_maxFee env net) 50000) (w_limiter w) = (rc, l)"
    by (metis surj_pair)
  then have al: "ck_allowed rc" using records_allow by (metis fst_conv)
  define ev where "ev = (if ev_webhooks env then Some (completed_notification (snd body) res) else None)"
  obtain o2 s where st: "sv_settleAndEnqueue sv (store_key env req) (settled_details res) ev (w_store w) = (o2, s)"
    by (metis surj_pair)
  have "response_truthy (settled_details res)"
    using assms(6) by (simp add: settled_details_def response_truthy_def truthy_response_def)
  note settles [OF assms(1,3) this st]
  then obtain at ev' q where o2: "o2 = Some (at, ev')" and sok: "sok s"
    and q: "get s (store_key env req) = Some q" "state q = St_settled" "key_id q = key_id p" "response q = Some (st_json res)"
    and fr: "\<forall>j. j \<noteq> store_key env req \<longrightarrow> get s j = get (w_store w) j"
    by (auto simp: settled_details_def)
  obtain ext w2 where pc: "processCataloging sv env req body ''settle'' (w\<lparr>w_limiter := l, w_store := s\<rparr>) = (ext, w2)"
    by (metis surj_pair)
  then have w2: "w_store w2 = s" "w_idem w2 = w_idem w"
    using processCataloging_stores [of sv env req body "''settle''" "w\<lparr>w_limiter := l, w_store := s\<rparr>"] by simp_all
  have w': "w_store w' = s" "w_idem w' = sv_complete sv (replay_key env req) 200 (st_json res) (w_idem w)" "out \<noteq> None"
    using assms(5,7) rec al st o2 pc w2
    by (auto simp: settle_once_def Let_def net_def [symmetric] ev_def [symmetric] split: option.splits if_splits)
  have "answer (w_idem w') (replay_key env req) = Some (200, st_json res)" "iok (w_idem w')"
    "\<forall>j. held (w_idem w') j = held (w_idem w) j"
    using complete_answer [OF assms(2,6,4)] complete_ok [OF assms(2,6)] complete_holds [OF assms(2,6,4)] w'(2) by simp_all
  with w' sok q fr show ?thesis by (auto simp: wok_def)
qed

definition fresh_for :: "settle_env \<Rightarrow> settle_req \<Rightarrow> ('s, 'i, 'l) world \<Rightarrow> bool" where
  "fresh_for env req w \<longleftrightarrow> wok w \<and> \<not> held (w_idem w) (replay_key env req) \<and> unanswered get env req (w_store w)"

lemma owned_by_self: "key_id q = sr_keyId req \<Longrightarrow> owned_by req q"
  by (simp add: owned_by_def split: option.splits)

text \<open>A fresh request whose settlement succeeds.\<close>

lemma first_success:
  assumes "fresh_for env req w" "passes sv env req w (pl, reqs) (check, l)" "st_success res" "js_truthy (st_json res)"
    "settle_route sv env req (Finished res) submitted serr w = ((called, a), w')"
  shows "called \<and> wok w' \<and> (\<exists>q. get (w_store w') (store_key env req) = Some q \<and> closed_for req q
      \<and> key_id q = sr_keyId req \<and> state q = St_settled \<and> response q = Some (st_json res))
    \<and> answer (w_idem w') (replay_key env req) = Some (200, st_json res)"
proof -
  have f: "wok w" "unanswered get env req (w_store w)"
    "\<not> held (w_idem w) (replay_key env req)" using assms(1) by (simp_all add: fresh_for_def)
  show ?thesis
  proof (rule owned_start [OF f(1) assms(2) f(2,3), of "Finished res" submitted serr])
    fix s2 i p
    assume route: "settle_route sv env req (Finished res) submitted serr w
      = (case settle_outcome sv env req (pl, reqs) check (Finished res) submitted serr (w\<lparr>w_limiter := l, w_store := s2, w_idem := i\<rparr>)
         of (a, w') \<Rightarrow> ((True, a), w'))"
      and s: "sok s2" "get s2 (store_key env req) = Some p" "key_id p = sr_keyId req"
      and i: "iok i" "held i (replay_key env req)"
    let ?w = "w\<lparr>w_limiter := l, w_store := s2, w_idem := i\<rparr>"
    obtain out w2 where so: "settle_once sv env req (pl, reqs) True check res ?w = (out, w2)" by (metis surj_pair)
    have left: "out \<noteq> None \<and> wok w2 \<and> answer (w_idem w2) (replay_key env req) = Some (200, st_json res)
      \<and> (\<forall>j. held (w_idem w2) j = held (w_idem ?w) j)
      \<and> (\<exists>q. get (w_store w2) (store_key env req) = Some q \<and> state q = St_settled \<and> key_id q = key_id p
         \<and> response q = Some (st_json res))
      \<and> (\<forall>j. j \<noteq> store_key env req \<longrightarrow> get (w_store w2) j = get (w_store ?w) j)"
      using success_left [of ?w env req p res "(pl, reqs)" check out w2] s i assms(3,4) so by simp
    then obtain an where "out = Some an" by blast
    then have "settle_outcome sv env req (pl, reqs) check (Finished res) submitted serr ?w = (an, w2)"
      using so with_idempotency by (simp add: settle_outcome_def)
    with route assms(5) have "called" "w' = w2" by simp_all
    with left s(3) show ?thesis by (auto simp: closed_for_def final_record_def owned_by_self)
  qed
qed

text \<open>A fresh request cut off after its transaction was broadcast.\<close>

lemma first_unknown:
  assumes "fresh_for env req w" "passes sv env req w (pl, reqs) (check, l)"
    "settle_route sv env req Timed_out True serr w = ((called, a), w')"
  shows "called \<and> wok w' \<and> held (w_idem w') (replay_key env req)
    \<and> (\<exists>q. get (w_store w') (store_key env req) = Some q \<and> closed_for req q \<and> key_id q = sr_keyId req \<and> state q = St_unknown
         \<and> tx_hash q = Some (or_text (payload_transaction (sr_body req)) []))"
proof -
  have f: "wok w" "unanswered get env req (w_store w)"
    "\<not> held (w_idem w) (replay_key env req)" using assms(1) by (simp_all add: fresh_for_def)
  show ?thesis
  proof (rule owned_start [OF f(1) assms(2) f(2,3), of Timed_out True serr])
    fix s2 i p
    assume route: "settle_route sv env req Timed_out True serr w
      = (case settle_outcome sv env req (pl, reqs) check Timed_out True serr (w\<lparr>w_limiter := l, w_store := s2, w_idem := i\<rparr>)
         of (a, w') \<Rightarrow> ((True, a), w'))"
      and s: "sok s2" "get s2 (store_key env req) = Some p" "key_id p = sr_keyId req"
      and i: "iok i" "held i (replay_key env req)"
    let ?w = "w\<lparr>w_limiter := l, w_store := s2, w_idem := i\<rparr>"
    obtain an w2 where sf: "settle_failed sv env req True (timeout_error True) True ?w = (an, w2)" by (metis surj_pair)
    have "error_reason_of (timeout_error True) True = ''submitted_outcome_unknown''"
      by (simp add: error_reason_of_def timeout_error_def)
    from unknown_left [of ?w env req p "timeout_error True" True True an w2] this s i sf
    have left: "wok w2 \<and> w_idem w2 = i
      \<and> (\<exists>q. get (w_store w2) (store_key env req) = Some q \<and> state q = St_unknown \<and> key_id q = key_id p
         \<and> tx_hash q = Some (or_text (payload_transaction (sr_body req)) []))" by auto
    have "settle_outcome sv env req (pl, reqs) check Timed_out True serr ?w = (an, w2)"
      using sf with_idempotency by (simp add: settle_outcome_def)
    with route assms(3) have "called" "w' = w2" by simp_all
    with left s(3) i(2) show ?thesis by (auto simp: closed_for_def final_record_def owned_by_self)
  qed
qed

text \<open>
  A fresh request whose attempt throws anything that is not classed as outcome-unknown: failed,
  and its claim released.
\<close>

lemma first_failure:
  assumes "fresh_for env req w" "passes sv env req w (pl, reqs) (check, l)"
    "att = Threw err \<or> att = Timed_out \<and> \<not> submitted \<and> err = timeout_error False"
    "error_reason_of err submitted \<noteq> ''submitted_outcome_unknown''"
    "settle_route sv env req att submitted serr w = ((called, a), w')"
  shows "called \<and> wok w' \<and> \<not> held (w_idem w') (replay_key env req)
    \<and> (\<exists>q. get (w_store w') (store_key env req) = Some q \<and> state q = St_failed \<and> key_id q = sr_keyId req
         \<and> error_reason q = Some (error_reason_of err submitted))"
proof -
  have f: "wok w" "unanswered get env req (w_store w)"
    "\<not> held (w_idem w) (replay_key env req)" using assms(1) by (simp_all add: fresh_for_def)
  show ?thesis
  proof (rule owned_start [OF f(1) assms(2) f(2,3), of att submitted serr])
    fix s2 i p
    assume route: "settle_route sv env req att submitted serr w
      = (case settle_outcome sv env req (pl, reqs) check att submitted serr (w\<lparr>w_limiter := l, w_store := s2, w_idem := i\<rparr>)
         of (a, w') \<Rightarrow> ((True, a), w'))"
      and s: "sok s2" "get s2 (store_key env req) = Some p" "key_id p = sr_keyId req"
      and i: "iok i" "held i (replay_key env req)" "answer i (replay_key env req) = None"
    let ?w = "w\<lparr>w_limiter := l, w_store := s2, w_idem := i\<rparr>"
    obtain an w2 where sf: "settle_failed sv env req True err submitted ?w = (an, w2)" by (metis surj_pair)
    from failed_left [of ?w env req p err submitted an w2] assms(4) s i sf
    have left: "wok w2 \<and> \<not> held (w_idem w2) (replay_key env req)
      \<and> (\<exists>q. get (w_store w2) (store_key env req) = Some q \<and> state q = St_failed \<and> key_id q = key_id p
           \<and> error_reason q = Some (error_reason_of err submitted))" by auto
    have "settle_outcome sv env req (pl, reqs) check att submitted serr ?w = (an, w2)"
      using sf with_idempotency assms(3) by (auto simp: settle_outcome_def)
    with route assms(5) have "called" "w' = w2" by simp_all
    with left s(3) show ?thesis by auto
  qed
qed

end

end
