(* ===== verification/SettleRuns.thy ===== *)
theory SettleRuns
  imports SettleRouteFacts
begin

text \<open>
  Runs of \<open>POST /settle\<close>: what any one request leaves in the stores, however its attempt ends, and
  what any sequence of them does, with attempts the time limit cut off answering late.
\<close>

text \<open>The facilitator's answer leaves a record no retry passes, when it succeeds or its reason is final.\<close>

definition final_result :: "settle_result \<Rightarrow> bool" where
  "final_result res \<longleftrightarrow> st_success res \<or> or_text (st_errorReason res) ''facilitator_error'' \<notin> set RETRYABLE_REASONS"

context settle_services
begin

text \<open>A settlement the facilitator refused.\<close>

lemma refused_left:
  assumes "sok (w_store w)" "iok (w_idem w)" "get (w_store w) (store_key env req) = Some p"
    "held (w_idem w) (replay_key env req)" "\<not> st_success res" "js_truthy (st_json res)"
    "settle_once sv env req body True check res w = (out, w')"
  shows "out \<noteq> None \<and> wok w' \<and> (\<forall>j. held (w_idem w') j = held (w_idem w) j)
    \<and> (\<exists>q. get (w_store w') (store_key env req) = Some q \<and> state q = St_failed \<and> key_id q = key_id p
         \<and> error_reason q = Some (or_text (st_errorReason res) ''facilitator_error''))
    \<and> (\<forall>j. j \<noteq> store_key env req \<longrightarrow> get (w_store w') j = get (w_store w) j)"
proof -
  obtain rc l where rec: "sv_recordSettle sv (limiter_request req) 0 (w_limiter w) = (rc, l)" by (metis surj_pair)
  then have al: "ck_allowed rc" using records_allow by (metis fst_conv)
  obtain b s where u: "sv_updateState sv (store_key env req) St_failed (refused_details res) (w_store w) = (b, s)"
    by (metis surj_pair)
  have "response_truthy (refused_details res)"
    using assms(6) by (simp add: refused_details_def response_truthy_def truthy_response_def)
  from updates [OF assms(1,3) this _ u, of Failed]
  have b: "b" "sok s" "\<forall>j. j \<noteq> store_key env req \<longrightarrow> get s j = get (w_store w) j"
    and q: "\<exists>q. get s (store_key env req) = Some q \<and> state q = St_failed \<and> key_id q = key_id p
      \<and> error_reason q = Some (or_text (st_errorReason res) ''facilitator_error'')"
    by (auto simp: refused_details_def)
  have w': "w_store w' = s" "w_idem w' = sv_complete sv (replay_key env req) 200 (st_json res) (w_idem w)" "out \<noteq> None"
    using assms(5,7) rec al u b(1) by (auto simp: settle_once_def Let_def)
  with b q complete_ok [OF assms(2,6)] complete_holds [OF assms(2,6,4)] show ?thesis by (simp add: wok_def)
qed

lemma once_left:
  assumes "sok (w_store w)" "iok (w_idem w)" "get (w_store w) (store_key env req) = Some p"
    "held (w_idem w) (replay_key env req)" "js_truthy (st_json res)"
    "settle_once sv env req body True check res w = (out, w')"
  shows "out \<noteq> None \<and> wok w' \<and> (\<forall>j. held (w_idem w') j = held (w_idem w) j)
    \<and> (\<exists>q. get (w_store w') (store_key env req) = Some q \<and> key_id q = key_id p
         \<and> (st_success res \<or> or_text (st_errorReason res) ''facilitator_error'' \<notin> set RETRYABLE_REASONS \<longrightarrow> final_record q)
         \<and> (st_success res \<longrightarrow> state q = St_settled))
    \<and> (\<forall>j. j \<noteq> store_key env req \<longrightarrow> get (w_store w') j = get (w_store w) j)"
proof (cases "st_success res")
  case True
  from success_left [OF assms(1-4) True assms(5,6)] True show ?thesis by (auto simp: final_record_def)
next
  case False
  from refused_left [OF assms(1-4) False assms(5,6)] False show ?thesis by (auto simp: final_record_def)
qed

text \<open>
  However the attempt ends, only the request's own record changes, no other claim is released, and
  the record is final if money may have moved.
\<close>

lemma failed_any_left:
  assumes "sok (w_store w)" "iok (w_idem w)" "get (w_store w) (store_key env req) = Some p"
    "held (w_idem w) (replay_key env req)" "answer (w_idem w) (replay_key env req) = None"
    "settle_failed sv env req True err submitted w = (a, w')"
  shows "wok w' \<and> (\<forall>j. held (w_idem w) j \<and> j \<noteq> replay_key env req \<longrightarrow> held (w_idem w') j)
    \<and> (\<exists>q. get (w_store w') (store_key env req) = Some q \<and> key_id q = key_id p
         \<and> (error_reason_of err submitted = ''submitted_outcome_unknown'' \<longrightarrow>
              final_record q \<and> held (w_idem w') (replay_key env req)))
    \<and> (\<forall>j. j \<noteq> store_key env req \<longrightarrow> get (w_store w') j = get (w_store w) j)"
proof (cases "error_reason_of err submitted = ''submitted_outcome_unknown''")
  case True
  from unknown_left [OF assms(1-3) True assms(6)] assms(4) show ?thesis by (auto simp: final_record_def)
next
  case False
  from failed_left [OF assms(1-3) False assms(5,6)] False show ?thesis by auto
qed

lemma outcome_left:
  assumes "sok (w_store w)" "iok (w_idem w)" "get (w_store w) (store_key env req) = Some p" "key_id p = sr_keyId req"
    "held (w_idem w) (replay_key env req)" "answer (w_idem w) (replay_key env req) = None" "answers_truthy att"
    "settle_outcome sv env req body check att submitted serr w = (a, w')"
  shows "wok w' \<and> (\<forall>j. held (w_idem w) j \<and> j \<noteq> replay_key env req \<longrightarrow> held (w_idem w') j)
    \<and> (\<exists>q. get (w_store w') (store_key env req) = Some q \<and> key_id q = sr_keyId req
         \<and> (confirming att submitted \<longrightarrow> final_record q \<and> held (w_idem w') (replay_key env req)))
    \<and> (\<forall>j. j \<noteq> store_key env req \<longrightarrow> get (w_store w') j = get (w_store w) j)"
proof (cases att)
  case (Finished res)
  with assms(7) have tr: "js_truthy (st_json res)" by (simp add: answers_truthy_def)
  obtain out v where so: "settle_once sv env req body True check res w = (out, v)" by (metis surj_pair)
  note left = once_left [OF assms(1-3,5) tr so]
  then obtain an where "out = Some an" by blast
  with assms(8) Finished so with_idempotency have "w' = v" by (simp add: settle_outcome_def)
  with left Finished assms(4,5) show ?thesis by (auto simp: confirming_def)
next
  case (Threw err)
  with assms(8) with_idempotency have "settle_failed sv env req True err submitted w = (a, w')"
    by (simp add: settle_outcome_def)
  from failed_any_left [OF assms(1-3,5,6) this] Threw assms(4) show ?thesis by (simp add: confirming_def)
next
  case Timed_out
  with assms(8) with_idempotency have f: "settle_failed sv env req True (timeout_error submitted) submitted w = (a, w')"
    by (simp add: settle_outcome_def)
  have "error_reason_of (timeout_error submitted) submitted = ''submitted_outcome_unknown'' \<longleftrightarrow> submitted"
    by (cases submitted) (simp_all add: error_reason_of_def timeout_error_def)
  with failed_any_left [OF assms(1-3,5,6) f] Timed_out assms(4) show ?thesis by (simp add: confirming_def)
qed

lemma route_left:
  assumes "wok w" "answers_truthy att" "settle_route sv env req att submitted serr w = ((called, a), w')"
  shows "wok w' \<and> (\<forall>j. held (w_idem w) j \<longrightarrow> held (w_idem w') j)
    \<and> (\<forall>j. get (w_store w) j \<noteq> None \<longrightarrow> get (w_store w') j \<noteq> None)
    \<and> (\<forall>j. j \<noteq> store_key env req \<longrightarrow> get (w_store w') j = get (w_store w) j)
    \<and> (called \<and> confirming att submitted \<longrightarrow> held (w_idem w') (replay_key env req)
         \<and> (\<exists>q. get (w_store w') (store_key env req) = Some q \<and> key_id q = sr_keyId req \<and> final_record q))"
proof (cases "readPaymentBody (sr_schema_refused req) (ev_networks env) Route_settle (sr_body req)")
  case (Inl bad)
  with assms(1,3) show ?thesis by (auto simp: settle_route_def)
next
  case (Inr body)
  obtain pl reqs where body: "body = (pl, reqs)" by (metis surj_pair)
  obtain check l where chk: "sv_checkSettle sv (limiter_request req) (nullish_or (requirement reqs ''network'') []) (w_limiter w) = (check, l)"
    by (metis surj_pair)
  show ?thesis
  proof (cases "ck_allowed check")
    case False
    with assms(1,3) Inr body chk show ?thesis by (auto simp: settle_route_def Let_def wok_def)
  next
    case True
    have ps: "passes sv env req w (pl, reqs) (check, l)" using Inr body chk True by (simp add: passes_def)
    have ok: "sok (w_store w)" "iok (w_idem w)" using assms(1) by (simp_all add: wok_def)
    let ?k = "store_key env req"
    show ?thesis
    proof (cases "case get (w_store w) ?k of None \<Rightarrow> None | Some r \<Rightarrow> answer_on_file env req r")
      case (Some b)
      then obtain r where r: "get (w_store w) ?k = Some r" "answer_on_file env req r = Some b"
        by (auto split: option.splits)
      have "sv_get sv ?k (w_store w) = (Some r, w_store w)" using reads [OF ok(1)] r(1) by simp
      from settle_route_on_file [OF ps this r(2)] assms(1,3) show ?thesis by (auto simp: wok_def)
    next
      case nofile: None
      then have nofile': "unanswered get env req (w_store w)" by (auto simp: unanswered_def split: option.splits)
      show ?thesis
      proof (cases "held (w_idem w) (replay_key env req)")
        case False
        show ?thesis
        proof (rule owned_start [OF assms(1) ps nofile' False, of att submitted serr])
          fix s2 i p
          assume route: "settle_route sv env req att submitted serr w
            = (case settle_outcome sv env req (pl, reqs) check att submitted serr (w\<lparr>w_limiter := l, w_store := s2, w_idem := i\<rparr>)
               of (a, w') \<Rightarrow> ((True, a), w'))"
            and s: "sok s2" "get s2 ?k = Some p" "key_id p = sr_keyId req" "\<forall>j. j \<noteq> ?k \<longrightarrow> get s2 j = get (w_store w) j"
            and i: "iok i" "held i (replay_key env req)" "answer i (replay_key env req) = None"
              "\<forall>j. held i j \<longleftrightarrow> held (w_idem w) j \<or> j = replay_key env req"
          let ?w = "w\<lparr>w_limiter := l, w_store := s2, w_idem := i\<rparr>"
          obtain an v where out: "settle_outcome sv env req (pl, reqs) check att submitted serr ?w = (an, v)" by (metis surj_pair)
          have "w' = v" using route out assms(3) by simp
          moreover note outcome_left [of ?w env req p att "(pl, reqs)" check submitted serr an v]
          ultimately have left: "wok w' \<and> (\<forall>j. held i j \<and> j \<noteq> replay_key env req \<longrightarrow> held (w_idem w') j)
            \<and> (\<exists>q. get (w_store w') ?k = Some q \<and> key_id q = sr_keyId req
                 \<and> (confirming att submitted \<longrightarrow> final_record q \<and> held (w_idem w') (replay_key env req)))
            \<and> (\<forall>j. j \<noteq> ?k \<longrightarrow> get (w_store w') j = get s2 j)"
            using s i(1-3) assms(2) out by simp
          have "get (w_store w') j \<noteq> None" if "get (w_store w) j \<noteq> None" for j
            using that left s(4) by (cases "j = ?k") auto
          moreover have "held (w_idem w') j" if "held (w_idem w) j" for j
            using that left i(4) False by metis
          ultimately show ?thesis using left s(4) by auto
        qed
      next
        case True
        have rd: "sv_get sv ?k (w_store w) = (get (w_store w) ?k, w_store w)" using reads [OF ok(1)] .
        obtain b s2 where sv: "sv_save sv (submitted_record env req pl reqs) (w_store w) = (b, s2)" by (metis surj_pair)
        from saves [OF ok(1) sv] have b: "b" "sok s2" "get s2 ?k \<noteq> None" "\<forall>j. j \<noteq> ?k \<longrightarrow> get s2 j = get (w_store w) j"
          by (auto simp: submitted_record_def)
        obtain c i where bg: "sv_begin sv (replay_key env req) (w_idem w) = (c, i)" by (metis surj_pair)
        have c: "c \<noteq> Owned" "iok i" "\<forall>j. held (w_idem w) j \<longrightarrow> held i j"
          using begin_owned [OF ok(2), of "replay_key env req"] begin_ok [OF ok(2), of "replay_key env req"]
            begin_holds [OF ok(2), of "replay_key env req"] bg True by auto
        have "sv_save sv (submitted_record env req pl reqs) (w_store w) = (True, s2)" using sv b(1) by simp
        then obtain an where
          "settle_route sv env req att submitted serr w = ((False, an), w\<lparr>w_limiter := l, w_store := s2, w_idem := i\<rparr>)"
          using settle_route_held [OF ps rd nofile _ with_idempotency bg c(1)] by fast
        with assms(3) have "\<not> called" "w_store w' = s2" "w_idem w' = i" by auto
        moreover have "get s2 j \<noteq> None" if "get (w_store w) j \<noteq> None" for j
          using that b(3,4) by (cases "j = ?k") auto
        ultimately show ?thesis using b c by (simp add: wok_def)
      qed
    qed
  qed
qed

text \<open>A late answer to an attempt whose claim is still held.\<close>

lemma late_left:
  assumes "wok w" "get (w_store w) (store_key env req) = Some p" "held (w_idem w) (replay_key env req)" "js_truthy (st_json res)"
  shows "wok (settle_late sv env req body check res w)
    \<and> (\<forall>j. held (w_idem (settle_late sv env req body check res w)) j = held (w_idem w) j)
    \<and> (\<exists>q. get (w_store (settle_late sv env req body check res w)) (store_key env req) = Some q \<and> key_id q = key_id p
         \<and> (final_result res \<longrightarrow> final_record q))
    \<and> (\<forall>j. j \<noteq> store_key env req \<longrightarrow> get (w_store (settle_late sv env req body check res w)) j = get (w_store w) j)"
proof -
  obtain out w' where so: "settle_once sv env req body True check res w = (out, w')" by (metis surj_pair)
  have "settle_late sv env req body check res w = w'" using so with_idempotency by (simp add: settle_late_def)
  with once_left [OF _ _ assms(2-4) so] assms(1) show ?thesis by (auto simp: wok_def final_result_def)
qed

end

section \<open>Runs\<close>

text \<open>
  What happens to the route: a request arrives at a time, with the way its attempt will end; or an
  attempt the time limit cut off earlier (by its place among those still running) is answered late.
\<close>

datatype settle_event =
    Arrives int settle_req attempt bool thrown
  | Ends_late int nat settle_result

type_synonym running = "settle_req \<times> (json \<times> json) \<times> check"

definition running_attempt :: "('s, 'i, 'l) services \<Rightarrow> settle_env \<Rightarrow> settle_req \<Rightarrow> ('s, 'i, 'l) world \<Rightarrow> running" where
  "running_attempt sv env req w =
     (let body = (case readPaymentBody (sr_schema_refused req) (ev_networks env) Route_settle (sr_body req) of
                    Inr b \<Rightarrow> b | Inl _ \<Rightarrow> (JNull, JNull))
      in (req, body, fst (sv_checkSettle sv (limiter_request req) (nullish_or (requirement (snd body) ''network'') []) (w_limiter w))))"

fun settle_event_step ::
  "(int \<Rightarrow> ('s, 'i, 'l) services) \<Rightarrow> settle_env \<Rightarrow> settle_event \<Rightarrow> ('s, 'i, 'l) world \<times> running list
     \<Rightarrow> bool \<times> ('s, 'i, 'l) world \<times> running list" where
  "settle_event_step sv env (Arrives t req att submitted serr) (w, rs) =
     (case settle_route (sv t) env req att submitted serr w of
        ((called, _), w') \<Rightarrow> (called, w', if called \<and> att = Timed_out then rs @ [running_attempt (sv t) env req w] else rs))"
| "settle_event_step sv env (Ends_late t n res) (w, rs) =
     (if n < length rs
      then (case rs ! n of (req, body, check) \<Rightarrow>
              (False, settle_late (sv t) env req body check res w, take n rs @ drop (Suc n) rs))
      else (False, w, rs))"

text \<open>How many events of a kind reach the facilitator in a run.\<close>

fun called_times ::
  "(int \<Rightarrow> ('s, 'i, 'l) services) \<Rightarrow> settle_env \<Rightarrow> (settle_event \<Rightarrow> bool) \<Rightarrow> settle_event list
     \<Rightarrow> ('s, 'i, 'l) world \<times> running list \<Rightarrow> nat" where
  "called_times sv env P [] wr = 0"
| "called_times sv env P (x # xs) wr =
     (case settle_event_step sv env x wr of
        (called, wr') \<Rightarrow> (if called \<and> P x then 1 else 0) + called_times sv env P xs wr')"

text \<open>A request under a key; and one that is settled or may have been.\<close>

definition under_key :: "settle_env \<Rightarrow> string \<Rightarrow> settle_event \<Rightarrow> bool" where
  "under_key env k x = (case x of Arrives _ req _ _ _ \<Rightarrow> store_key env req = k | Ends_late _ _ _ \<Rightarrow> False)"

definition may_settle :: "settle_env \<Rightarrow> string \<Rightarrow> settle_event \<Rightarrow> bool" where
  "may_settle env k x =
     (case x of Arrives _ req att submitted _ \<Rightarrow> store_key env req = k \<and> confirming att submitted | Ends_late _ _ _ \<Rightarrow> False)"

text \<open>
  The runs the handler keeps its promise on: the requests under the key are one caller's, no
  attempt is cut off before its transaction is broadcast, and what is answered late is final.
\<close>

fun event_sound :: "settle_env \<Rightarrow> string \<Rightarrow> string option \<Rightarrow> settle_event \<Rightarrow> bool" where
  "event_sound env k caller (Arrives _ req att submitted _) \<longleftrightarrow>
     answers_truthy att \<and> (store_key env req = k \<longrightarrow> sr_keyId req = caller) \<and> (att = Timed_out \<longrightarrow> submitted)"
| "event_sound env k caller (Ends_late _ _ res) \<longleftrightarrow> js_truthy (st_json res) \<and> final_result res"

definition closed_at :: "('s \<Rightarrow> string \<Rightarrow> projection option) \<Rightarrow> string \<Rightarrow> string option \<Rightarrow> 's \<Rightarrow> bool" where
  "closed_at get k caller s \<longleftrightarrow> (\<exists>q. get s k = Some q \<and> key_id q = caller \<and> final_record q)"

text \<open>Every attempt still running has its record and holds its claim.\<close>

definition running_ok ::
  "('s \<Rightarrow> string \<Rightarrow> projection option) \<Rightarrow> ('i \<Rightarrow> string \<Rightarrow> bool) \<Rightarrow> settle_env \<Rightarrow> ('s, 'i, 'l) world \<times> running list \<Rightarrow> bool" where
  "running_ok get held env wr \<longleftrightarrow>
     (\<forall>(req, _) \<in> set (snd wr). get (w_store (fst wr)) (store_key env req) \<noteq> None \<and> held (w_idem (fst wr)) (replay_key env req))"

lemma running_ok_mono:
  assumes "running_ok get held env (w, rs)" "\<forall>j. get (w_store w) j \<noteq> None \<longrightarrow> get (w_store w') j \<noteq> None"
    "\<forall>j. held (w_idem w) j \<longrightarrow> held (w_idem w') j" "set rs' \<subseteq> set rs"
  shows "running_ok get held env (w', rs')"
proof -
  have "get (w_store w') (store_key env req) \<noteq> None \<and> held (w_idem w') (replay_key env req)"
    if r: "(req, x) \<in> set rs'" for req x
  proof -
    have "get (w_store w) (store_key env req) \<noteq> None \<and> held (w_idem w) (replay_key env req)"
      using assms(1,4) r unfolding running_ok_def by auto
    with assms(2,3) show ?thesis by blast
  qed
  then show ?thesis unfolding running_ok_def by auto
qed

text \<open>One event, on stores that keep the contract.\<close>

lemma event_step:
  assumes "\<And>t. settle_services (sv t) held answer iok get sok"
    "sok (w_store w)" "iok (w_idem w)" "running_ok get held env (w, rs)" "event_sound env k c x"
    "settle_event_step sv env x (w, rs) = (called, w', rs')"
  shows "sok (w_store w') \<and> iok (w_idem w') \<and> running_ok get held env (w', rs')
    \<and> (closed_at get k c (w_store w) \<longrightarrow> closed_at get k c (w_store w') \<and> \<not> (called \<and> under_key env k x))
    \<and> (called \<and> may_settle env k x \<longrightarrow> closed_at get k c (w_store w'))"
proof (cases x)
  case (Arrives t req att sub serr)
  note wok_def = settle_services.wok_def [OF assms(1)]
  obtain a where route: "settle_route (sv t) env req att sub serr w = ((called, a), w')"
    and rs': "rs' = (if called \<and> att = Timed_out then rs @ [running_attempt (sv t) env req w] else rs)"
    using assms(6) Arrives by (auto split: prod.splits)
  have pre: "answers_truthy att" "store_key env req = k \<Longrightarrow> sr_keyId req = c" "att = Timed_out \<Longrightarrow> sub"
    using assms(5) Arrives by simp_all
  have wk: "settle_services.wok iok sok w" using assms(2,3) by (simp add: wok_def)
  note left = settle_services.route_left [OF assms(1) wk pre(1) route]
  have "running_ok get held env (w', rs)"
    using running_ok_mono [OF assms(4), of w' rs] left by simp
  moreover have "get (w_store w') (store_key env req) \<noteq> None \<and> held (w_idem w') (replay_key env req)" if "called" "att = Timed_out"
    using left that pre(3) by (auto simp: confirming_def)
  ultimately have run: "running_ok get held env (w', rs')"
    using rs' by (auto simp: running_ok_def running_attempt_def Let_def)
  have closed: "closed_at get k c (w_store w') \<and> \<not> (called \<and> store_key env req = k)" if cl: "closed_at get k c (w_store w)"
  proof (cases "store_key env req = k")
    case True
    obtain r where r: "get (w_store w) (store_key env req) = Some r" "closed_for req r"
      using cl pre(2) [OF True] True settle_services.owned_by_self [OF assms(1)] by (auto simp: closed_at_def closed_for_def)
    from settle_services.closed_not_settled [OF assms(1) wk r route] cl show ?thesis by simp
  next
    case False
    with left cl show ?thesis by (simp add: closed_at_def)
  qed
  have "closed_at get k c (w_store w')" if "called" "store_key env req = k" "confirming att sub"
    using left that pre(2) by (auto simp: closed_at_def)
  with left run closed Arrives show ?thesis by (auto simp: wok_def under_key_def may_settle_def)
next
  case (Ends_late t n res)
  note wok_def = settle_services.wok_def [OF assms(1)]
  have wk: "settle_services.wok iok sok w" using assms(2,3) by (simp add: wok_def)
  have pre: "js_truthy (st_json res)" "final_result res" using assms(5) Ends_late by simp_all
  show ?thesis
  proof (cases "n < length rs")
    case False
    with Ends_late assms show ?thesis by (auto simp: under_key_def may_settle_def)
  next
    case True
    obtain req body check where r: "rs ! n = (req, body, check)" by (metis surj_pair)
    then have "(req, body, check) \<in> set rs" using True nth_mem by metis
    with assms(4) obtain p where p: "get (w_store w) (store_key env req) = Some p" "held (w_idem w) (replay_key env req)"
      by (force simp: running_ok_def)
    have w': "w' = settle_late (sv t) env req body check res w" "rs' = take n rs @ drop (Suc n) rs" "\<not> called"
      using assms(6) Ends_late True r by simp_all
    note left = settle_services.late_left [OF assms(1) wk p pre(1), of t body check, folded w'(1)]
    have "set rs' \<subseteq> set rs" using w'(2) by (auto dest: in_set_takeD in_set_dropD)
    moreover have "\<forall>j. get (w_store w) j \<noteq> None \<longrightarrow> get (w_store w') j \<noteq> None" using left by (metis option.discI)
    ultimately have "running_ok get held env (w', rs')" using running_ok_mono [OF assms(4)] left by blast
    moreover have "closed_at get k c (w_store w')" if "closed_at get k c (w_store w)"
      using that left p(1) pre(2) by (cases "store_key env req = k") (auto simp: closed_at_def)
    ultimately show ?thesis using left w'(3) by (simp add: wok_def)
  qed
qed

lemma called_times_le: "(\<And>x. P x \<Longrightarrow> Q x) \<Longrightarrow> called_times sv env P xs wr \<le> called_times sv env Q xs wr"
proof (induction xs arbitrary: wr)
  case (Cons x xs)
  obtain called wr' where "settle_event_step sv env x wr = (called, wr')" by (metis surj_pair)
  with Cons.IH [of wr'] Cons.prems show ?case by auto
qed simp

text \<open>Once the key's record is final, none of its caller's requests reaches the facilitator.\<close>

lemma run_closed:
  assumes "\<And>t. settle_services (sv t) held answer iok get sok" "sok (w_store w)" "iok (w_idem w)"
    "running_ok get held env (w, rs)" "closed_at get k c (w_store w)" "list_all (event_sound env k c) xs"
  shows "called_times sv env (under_key env k) xs (w, rs) = 0"
  using assms(2-)
proof (induction xs arbitrary: w rs)
  case (Cons x xs)
  obtain called w' rs' where step: "settle_event_step sv env x (w, rs) = (called, w', rs')" by (metis surj_pair)
  have "event_sound env k c x" "list_all (event_sound env k c) xs" using Cons.prems(5) by simp_all
  with event_step [OF assms(1) Cons.prems(1-3) _ step] Cons.IH [of w' rs'] Cons.prems(4) step show ?case by auto
qed simp

text \<open>However many requests arrive under a key, money moves for at most one of them.\<close>

lemma run_settles_once:
  assumes "\<And>t. settle_services (sv t) held answer iok get sok" "sok (w_store w)" "iok (w_idem w)"
    "running_ok get held env (w, rs)" "list_all (event_sound env k c) xs"
  shows "called_times sv env (may_settle env k) xs (w, rs) \<le> 1"
  using assms(2-)
proof (induction xs arbitrary: w rs)
  case (Cons x xs)
  obtain called w' rs' where step: "settle_event_step sv env x (w, rs) = (called, w', rs')" by (metis surj_pair)
  have pre: "event_sound env k c x" "list_all (event_sound env k c) xs" using Cons.prems(4) by simp_all
  note left = event_step [OF assms(1) Cons.prems(1-3) pre(1) step]
  have ok: "sok (w_store w')" "iok (w_idem w')" "running_ok get held env (w', rs')" using left by blast+
  show ?case
  proof (cases "called \<and> may_settle env k x")
    case True
    then have "closed_at get k c (w_store w')" using left by blast
    from run_closed [OF assms(1) ok this pre(2)] called_times_le [of "may_settle env k" "under_key env k" sv env xs "(w', rs')"]
    have "called_times sv env (may_settle env k) xs (w', rs') = 0"
      by (auto simp: may_settle_def under_key_def split: settle_event.splits)
    with step show ?thesis by simp
  next
    case False
    then have "called_times sv env (may_settle env k) (x # xs) (w, rs) = called_times sv env (may_settle env k) xs (w', rs')"
      using step by auto
    with Cons.IH [OF ok pre(2)] show ?thesis by simp
  qed
qed simp

end
