(* ===== verification/SettleServices.thy ===== *)
theory SettleServices
  imports SettleRuns
begin

text \<open>
  The services \<open>POST /settle\<close> runs on, as \<open>src/server.js\<close> wires them: the limiter of \<open>RateLimiter\<close>
  over any bucket store, with the memory stores or with the Postgres stores. Both sets keep the
  handler's contract, so the guarantees of \<open>SettleRouteFacts\<close> hold of the program.
\<close>

section \<open>Wiring\<close>

definition limiter_check_settle ::
  "(string \<Rightarrow> string \<Rightarrow> bool) \<Rightarrow> rl_config \<Rightarrow> 'l rl_ops \<Rightarrow> (nat \<Rightarrow> int) \<Rightarrow> rl_request \<Rightarrow> string \<Rightarrow> 'l \<Rightarrow> check \<times> 'l" where
  "limiter_check_settle m cfg ops clk q net l =
     (case checkSettle m cfg ops q (Some net) clk l of ((c, _), l') \<Rightarrow> (c, l'))"

definition limiter_record_settle ::
  "rl_config \<Rightarrow> 'l rl_ops \<Rightarrow> (nat \<Rightarrow> int) \<Rightarrow> rl_request \<Rightarrow> int \<Rightarrow> 'l \<Rightarrow> check \<times> 'l" where
  "limiter_record_settle cfg ops clk q fee l = recordSettle cfg ops q (Fin fee) clk l"

text \<open>The other limiter calls of the handlers, each at the time the clock gives for it.\<close>

definition without_audit :: "(check \<times> bypass_audit option) \<times> 'l \<Rightarrow> check \<times> 'l" where
  "without_audit r = (fst (fst r), snd r)"

lemma limiter_record_allows: "ck_allowed (fst (limiter_record_settle cfg ops clk q fee l))"
  by (simp add: limiter_record_settle_def recordSettle_def recorded_def Let_def split: prod.splits)

definition mem_services ::
  "(string \<Rightarrow> string \<Rightarrow> bool) \<Rightarrow> rl_config \<Rightarrow> 'l rl_ops \<Rightarrow> (nat \<Rightarrow> int) \<Rightarrow> int \<Rightarrow> (mem_store, idem_map, 'l) services" where
  "mem_services m cfg ops clk now = \<lparr>
     sv_get = (\<lambda>k s. (mem_get s k, s)),
     sv_save = (\<lambda>r s. as_write s (mem_save r now s)),
     sv_settleAndEnqueue = (\<lambda>k d ev s.
        case mem_settleAndEnqueue k d ev now s of Inl _ \<Rightarrow> (None, s) | Inr ((at, _, ev'), s') \<Rightarrow> (Some (at, ev'), s')),
     sv_updateState = (\<lambda>k st d s. as_write s (mem_updateState k st d now s)),
     sv_idempotency = True, sv_begin = idm_begin, sv_complete = idm_complete, sv_fail = idm_fail,
     sv_checkSettle = limiter_check_settle m cfg ops clk, sv_recordSettle = limiter_record_settle cfg ops clk,
     sv_checkVerify = (\<lambda>q l. without_audit (checkVerify m cfg ops q (clk 1) l)),
     sv_recordVerify = (\<lambda>q l. recordVerify cfg ops q (clk 2) l),
     sv_checkCatalog = (\<lambda>q l. without_audit (checkCatalog m cfg ops q (clk 5) l)),
     sv_recordCatalog = (\<lambda>q l. recordCatalog cfg ops q (clk 6) l)\<rparr>"

definition pg_settle_reply ::
  "(store_error + bool \<times> projection option \<times> notification option) \<times> pg_store \<Rightarrow> (bool \<times> notification option) option \<times> pg_store" where
  "pg_settle_reply r = ((case fst r of Inl _ \<Rightarrow> None | Inr (at, _, ev) \<Rightarrow> Some (at, ev)), snd r)"

definition pg_services ::
  "(string \<Rightarrow> string \<Rightarrow> bool) \<Rightarrow> rl_config \<Rightarrow> 'l rl_ops \<Rightarrow> (nat \<Rightarrow> int) \<Rightarrow> (string \<Rightarrow> string) \<Rightarrow> int
     \<Rightarrow> (pg_store, idem_pg, 'l) services" where
  "pg_services m cfg ops clk uuid now = \<lparr>
     sv_get = (\<lambda>k s. pg_get True None k s),
     sv_save = (\<lambda>r s. pg_write (pg_save Db_ok now r now s)),
     sv_settleAndEnqueue = (\<lambda>k d ev s. pg_settle_reply (pg_settleAndEnqueue Tx_ok now k d ev None (uuid k) now s)),
     sv_updateState = (\<lambda>k st d s. pg_write (pg_updateState Db_ok now k st d now s)),
     sv_idempotency = True, sv_begin = idp_begin Idb_ok, sv_complete = idp_complete True, sv_fail = idp_fail True,
     sv_checkSettle = limiter_check_settle m cfg ops clk, sv_recordSettle = limiter_record_settle cfg ops clk,
     sv_checkVerify = (\<lambda>q l. without_audit (checkVerify m cfg ops q (clk 1) l)),
     sv_recordVerify = (\<lambda>q l. recordVerify cfg ops q (clk 2) l),
     sv_checkCatalog = (\<lambda>q l. without_audit (checkCatalog m cfg ops q (clk 5) l)),
     sv_recordCatalog = (\<lambda>q l. recordCatalog cfg ops q (clk 6) l)\<rparr>"

section \<open>The memory services keep the contract\<close>

interpretation mem_route: settle_services "mem_services m cfg ops clk now" idm_held idm_answer idm_ok mem_get mem_ok
  for m cfg ops clk now
proof (unfold_locales, goal_cases)
  case (13)
  show ?case by (simp add: mem_services_def)
next
  case (14 q fee l)
  show ?case by (simp add: mem_services_def limiter_record_allows)
next
  case (15 s k)
  show ?case by (simp add: mem_services_def)
next
  case (16 s r b s')
  obtain p s2 where sv: "mem_save r now s = Inr (Some p, s2)" using mem.save_succeeds [OF 16(1)] by blast
  with 16(2) have "b" "s' = s2" by (simp_all add: mem_services_def as_write_def)
  with mem.save_get [OF 16(1) sv] mem.save_submitted [OF 16(1) sv] mem.save_frame [OF 16(1) sv] mem.save_ok [OF 16(1) sv]
  show ?case by simp
next
  case (17 s k p d ev out s')
  obtain res s2 where u: "mem_updateState k St_settled d now s = Inr (res, s2)"
    using mem.update_succeeds [OF 17(1), of St_settled Settled k d now] by auto
  with 17(4) have "out \<noteq> None" "s' = s2" by (auto simp: mem_services_def mem_settleAndEnqueue_def)
  with mem.update_get [OF 17(1) _ 17(2) u] mem.update_frame [OF 17(1) _ u] mem_ok_update [OF 17(1) u] 17(3)
  show ?case by auto
next
  case (18 s k p d st ty b s')
  obtain res s2 where u: "mem_updateState k st d now s = Inr (res, s2)"
    using mem.update_succeeds [OF 18(1,4)] by blast
  with 18(5) have "b" "s' = s2" by (simp_all add: mem_services_def as_write_def)
  with mem.update_get [OF 18(1,4,2) u] mem.update_frame [OF 18(1,4) u] mem_ok_update [OF 18(1) u] 18(3)
  show ?case by auto
qed (simp_all add: mem_services_def idm.begin_owned idm.begin_holds idm.begin_answer idm.begin_replays idm.begin_ok idm.answer_held
      idm.complete_answer idm.complete_holds idm.complete_ok idm.fail_holds idm.fail_answer idm.fail_ok)

section \<open>The Postgres services keep it while the database answers\<close>

lemma pg_save_saves:
  assumes "pgh_ok s" "pg_write (pg_save Db_ok t r t s) = (b, s')"
  shows "b \<and> pgh_ok s' \<and> (\<exists>p. pgh_get s' (r_idempotency_key r) = Some p \<and> state p = St_submitted \<and> key_id p = r_key_id r)
    \<and> (\<forall>j. j \<noteq> r_idempotency_key r \<longrightarrow> pgh_get s' j = pgh_get s j)"
proof -
  obtain p s2 where sv: "pgh_save r t s = Inr (Some p, s2)" using pg.save_succeeds [OF assms(1)] by blast
  with assms(2) have "b" "s' = s2" by (auto simp: pgh_save_def pg_write_def split: prod.splits sum.splits)
  with pg.save_get [OF assms(1) sv] pg.save_submitted [OF assms(1) sv] pg.save_frame [OF assms(1) sv] pg.save_ok [OF assms(1) sv]
  show ?thesis by simp
qed

lemma pg_update_updates:
  assumes "pgh_ok s" "pgh_get s k = Some p" "response_truthy d" "eventTypeForState st = Inr ty"
    "pg_write (pg_updateState Db_ok t k st d t s) = (b, s')"
  shows "b \<and> pgh_ok s' \<and> (\<exists>q. pgh_get s' k = Some q \<and> state q = st \<and> key_id q = key_id p
      \<and> tx_hash q = nullish (d_tx_hash d) (tx_hash p) \<and> error_reason q = nullish (d_error_reason d) (error_reason p)
      \<and> response q = nullish (d_response d) (response p))
    \<and> (\<forall>j. j \<noteq> k \<longrightarrow> pgh_get s' j = pgh_get s j)"
proof -
  obtain res s2 where u: "pgh_updateState k st d t s = Inr (res, s2)"
    using pg.update_succeeds [OF assms(1,4)] by blast
  with assms(5) have "b" "s' = s2"
    by (auto simp: pgh_updateState_def pg_write_def split: prod.splits sum.splits)
  with pg.update_get [OF assms(1,4,2) u] pg.update_frame [OF assms(1,4) u] pg.update_ok [OF assms(1,3,4) u] assms(3)
  show ?thesis by auto
qed

lemma pg_settle_settles:
  assumes "pgh_ok s" "pgh_get s k = Some p" "response_truthy d"
    "pg_settle_reply (pg_settleAndEnqueue Tx_ok t k d ev None u t s) = (out, s')"
  shows "out \<noteq> None \<and> pgh_ok s'
      \<and> (\<exists>q. pgh_get s' k = Some q \<and> state q = St_settled \<and> key_id q = key_id p \<and> response q = nullish (d_response d) (response p))
      \<and> (\<forall>j. j \<noteq> k \<longrightarrow> pgh_get s' j = pgh_get s j)"
proof -
  let ?tx = "sql_settle_tx k d ev None u t (pg_db s)"
  have up: "uses_db s" "db_ok (pg_db s)" "proj_get (pg_db s) k = Some p"
    using assms(1,2) by (simp_all add: pgh_ok_def pgh_get_eq)
  obtain q v where q: "fst (sql_update k Settled St_settled d t (pg_db s)) = Some (q, v)" "state q = St_settled"
    "key_id q = key_id p" "response q = nullish (d_response d) (response p)"
    using sql_update_some [OF up(3), of Settled St_settled d t] assms(3) by (auto simp: response_truthy_def)
  then obtain db1 where db1: "sql_update k Settled St_settled d t (pg_db s) = (Some (q, v), db1)"
    by (metis prod.collapse)
  obtain res m where m: "mem_updateState k St_settled d t (pg_mem s) = Inr (res, m)"
    using mem_update_Inr [of St_settled Settled k d t "pg_mem s"] by auto
  have s': "out \<noteq> None" "s' = s\<lparr>pg_db := snd ?tx, pg_mem := m\<rparr>"
    using assms(4) up(1) db1 m
    by (auto simp: pg_settleAndEnqueue_def sql_settle_tx_def pg_settle_reply_def on_mem_def Let_def)
  have get: "proj_get (snd ?tx) j = (if j = k then Some q else proj_get (pg_db s) j)" for j
    using db1 sql_update_get [of k Settled St_settled d t "pg_db s" j]
    by (auto simp: sql_settle_tx_def Let_def proj_get_def split: option.splits)
  have "db_ok (snd ?tx)" using sql_settle_tx_ok [OF up(2) assms(3)] .
  with s' up(1) get q show ?thesis by (simp add: pgh_ok_def pgh_get_eq)
qed

interpretation pg_route: settle_services "pg_services m cfg ops clk uuid now" idp_held idp_answer ip_uses_db pgh_get pgh_ok
  for m cfg ops clk uuid now
proof (unfold_locales, goal_cases)
  case (13)
  show ?case by (simp add: pg_services_def)
next
  case (14 q fee l)
  show ?case by (simp add: pg_services_def limiter_record_allows)
next
  case (15 s k)
  then show ?case by (simp add: pg_services_def pgh_get_def pgh_ok_def pg_get_def)
next
  case (16 s r b s')
  then show ?case by (intro pg_save_saves [where t = now]) (simp_all add: pg_services_def)
next
  case (17 s k p d ev out s')
  then show ?case by (intro pg_settle_settles [where t = now and u = "uuid k" and ev = ev]) (simp_all add: pg_services_def)
next
  case (18 s k p d st ty b s')
  then show ?case by (intro pg_update_updates [where t = now and ty = ty]) (simp_all add: pg_services_def)
qed (simp_all add: pg_services_def idp.begin_owned idp.begin_holds idp.begin_answer idp.begin_replays idp.begin_ok idp.answer_held
      idp.complete_answer idp.complete_holds idp.complete_ok idp.fail_holds idp.fail_answer idp.fail_ok)

end
