(* ===== verification/DeadLetters.thy ===== *)
theory DeadLetters
  imports Outbox
begin

text \<open>
  The dead-letter queue: \<open>src/dlq/store.js\<close> (the \<open>dead_letters\<close> table),
  \<open>src/dlq/worker.js\<close> (retry worker), \<open>src/dlq/manager.js\<close> and \<open>src/dlq/routes.js\<close>
  (operator surface). What the environment decides (whether a publish or a query fails, with
  which message) is an argument.
\<close>

section \<open>The table (store.js)\<close>

datatype dl_status = Dl_pending | Dl_exhausted | Dl_resolved | Dl_discarded

record dl_row =
  dl_id :: nat
  dl_message_id :: string
  dl_source :: string
  dl_type :: "string option"
  dl_payload :: json_obj
  dl_error :: "string option"
  dl_delivery_attempts :: nat
  dl_attempts :: nat
  dl_status :: dl_status
  dl_next_retry_at :: int
  dl_claimed_at :: "int option"
  dl_last_failed_at :: int
  dl_resolved_at :: "int option"
  dl_created_at :: int

record dlq =
  dl_rows :: "dl_row list"
  dl_next_id :: nat

definition empty_dlq :: dlq where
  "empty_dlq = \<lparr>dl_rows = [], dl_next_id = 1\<rparr>"

record dl_event =
  e_messageId :: string
  e_source :: string
  e_type :: "string option"
  e_payload :: json_obj
  e_error :: "string option"
  e_deliveryAttempts :: nat

definition dl_insert :: "dl_event \<Rightarrow> int \<Rightarrow> dlq \<Rightarrow> nat \<times> dlq" where
  "dl_insert e now q =
     (dl_next_id q,
      \<lparr>dl_rows = dl_rows q @ [\<lparr>dl_id = dl_next_id q, dl_message_id = e_messageId e, dl_source = e_source e,
         dl_type = e_type e, dl_payload = e_payload e, dl_error = e_error e,
         dl_delivery_attempts = e_deliveryAttempts e, dl_attempts = 0, dl_status = Dl_pending,
         dl_next_retry_at = now, dl_claimed_at = None, dl_last_failed_at = now, dl_resolved_at = None,
         dl_created_at = now\<rparr>],
       dl_next_id = dl_next_id q + 1\<rparr>)"

definition dl_claimable :: "int \<Rightarrow> int \<Rightarrow> dl_row \<Rightarrow> bool" where
  "dl_claimable leaseMs now r \<longleftrightarrow> dl_status r = Dl_pending \<and> dl_next_retry_at r \<le> now
     \<and> (case dl_claimed_at r of None \<Rightarrow> True | Some c \<Rightarrow> c < now - leaseMs)"

definition dl_claim_row :: "int \<Rightarrow> dl_row \<Rightarrow> dl_row" where
  "dl_claim_row now r = r\<lparr>dl_claimed_at := Some now\<rparr>"

definition claimDue :: "nat set \<Rightarrow> nat \<Rightarrow> int \<Rightarrow> int \<Rightarrow> dlq \<Rightarrow> dl_row list \<times> dlq" where
  "claimDue locked limit leaseMs now q =
     (let ids = set (pick_ids (dl_claimable leaseMs now) dl_next_retry_at dl_id locked limit (dl_rows q));
          rows' = touch_rows dl_id ids (dl_claim_row now) (dl_rows q)
      in (returned_rows dl_id ids rows', q\<lparr>dl_rows := rows'\<rparr>))"

definition dl_update :: "nat \<Rightarrow> (dl_row \<Rightarrow> dl_row) \<Rightarrow> dlq \<Rightarrow> dlq" where
  "dl_update i f q = q\<lparr>dl_rows := touch_rows dl_id {i} f (dl_rows q)\<rparr>"

definition dl_resolve_row :: "int \<Rightarrow> dl_row \<Rightarrow> dl_row" where
  "dl_resolve_row now r = r\<lparr>dl_status := Dl_resolved, dl_resolved_at := Some now, dl_claimed_at := None\<rparr>"

definition markResolved :: "nat \<Rightarrow> int \<Rightarrow> dlq \<Rightarrow> dlq" where
  "markResolved i now q = dl_update i (dl_resolve_row now) q"

record retry_options =
  maxDlqAttempts :: nat
  baseBackoffMs :: int

definition default_retry_options :: retry_options where
  "default_retry_options = \<lparr>maxDlqAttempts = 5, baseBackoffMs = 30000\<rparr>"

text \<open>The right-hand sides of the \<open>UPDATE\<close> read the row before it, so the first delay is the base.\<close>

definition dl_retry_row :: "string option \<Rightarrow> retry_options \<Rightarrow> int \<Rightarrow> dl_row \<Rightarrow> dl_row" where
  "dl_retry_row err opts now r = r\<lparr>dl_attempts := dl_attempts r + 1,
     dl_error := Some (clip_error err), dl_last_failed_at := now,
     dl_status := (if dl_attempts r + 1 \<ge> maxDlqAttempts opts then Dl_exhausted else Dl_pending),
     dl_next_retry_at := now + baseBackoffMs opts * 2 ^ dl_attempts r,
     dl_claimed_at := None\<rparr>"

definition markRetryFailed :: "nat \<Rightarrow> string option \<Rightarrow> retry_options \<Rightarrow> int \<Rightarrow> dlq \<Rightarrow> dlq" where
  "markRetryFailed i err opts now q = dl_update i (dl_retry_row err opts now) q"

definition dl_get :: "nat \<Rightarrow> dlq \<Rightarrow> dl_row option" where
  "dl_get i q = List.find (\<lambda>r. dl_id r = i) (dl_rows q)"

definition dl_discard :: "nat \<Rightarrow> dlq \<Rightarrow> dlq" where
  "dl_discard i q = dl_update i (\<lambda>r. r\<lparr>dl_status := Dl_discarded\<rparr>) q"

definition dl_list :: "dl_status option \<Rightarrow> int \<Rightarrow> int \<Rightarrow> dlq \<Rightarrow> dl_row list \<times> nat" where
  "dl_list status limit offset q =
     (let clampedLimit = min (max 1 limit) 200;
          clampedOffset = max 0 offset;
          matching = (case status of None \<Rightarrow> dl_rows q | Some st \<Rightarrow> filter (\<lambda>r. dl_status r = st) (dl_rows q))
      in (take (nat clampedLimit) (drop (nat clampedOffset) (js_sort_by (\<lambda>r. - dl_created_at r) matching)),
          length matching))"

record dl_counts =
  n_pending :: nat
  n_exhausted :: nat
  n_resolved :: nat
  n_discarded :: nat

definition countStatus :: "dl_status \<Rightarrow> dlq \<Rightarrow> nat" where
  "countStatus st q = length (filter (\<lambda>r. dl_status r = st) (dl_rows q))"

definition countByStatus :: "dlq \<Rightarrow> dl_counts" where
  "countByStatus q = \<lparr>n_pending = countStatus Dl_pending q, n_exhausted = countStatus Dl_exhausted q,
     n_resolved = countStatus Dl_resolved q, n_discarded = countStatus Dl_discarded q\<rparr>"

section \<open>The retry worker (worker.js)\<close>

text \<open>
  What the environment answers for a row: the error of the publish, of \<open>markResolved\<close> and of
  \<open>markRetryFailed\<close>, \<open>None\<close> where the call succeeds.
\<close>

record dl_env =
  publish_error :: "nat \<Rightarrow> json_obj \<Rightarrow> string option"
  resolve_error :: "nat \<Rightarrow> string option"
  retry_error :: "nat \<Rightarrow> string option"

text \<open>\<open>attemptRedelivery\<close>: delivered, or the message of the failure; \<open>Inl\<close> is the
  exception of a failing \<open>markRetryFailed\<close>.\<close>

definition attemptRedelivery ::
  "dl_env \<Rightarrow> retry_options \<Rightarrow> int \<Rightarrow> dl_row \<Rightarrow> dlq \<Rightarrow> (string + string option) \<times> dlq" where
  "attemptRedelivery env opts now row q =
     (let failed = (\<lambda>msg. case retry_error env (dl_id row) of
                            Some e \<Rightarrow> (Inl e, q)
                          | None \<Rightarrow> (Inr (Some msg), markRetryFailed (dl_id row) (Some msg) opts now q))
      in case publish_error env (dl_id row) (dl_payload row) of
           Some msg \<Rightarrow> failed msg
         | None \<Rightarrow> (case resolve_error env (dl_id row) of
                     Some msg \<Rightarrow> failed msg
                   | None \<Rightarrow> (Inr None, markResolved (dl_id row) now q)))"

record dl_cycle =
  cy_claimed :: nat
  cy_resolved :: nat
  cy_failed :: nat
  cy_depth :: "dl_counts option"

fun redeliver_all ::
  "dl_env \<Rightarrow> retry_options \<Rightarrow> int \<Rightarrow> dl_row list \<Rightarrow> nat \<Rightarrow> nat \<Rightarrow> dlq \<Rightarrow> (string + nat \<times> nat) \<times> dlq" where
  "redeliver_all env opts now [] resolved failed q = (Inr (resolved, failed), q)"
| "redeliver_all env opts now (row # rows) resolved failed q =
     (case attemptRedelivery env opts now row q of
        (Inl e, q') \<Rightarrow> (Inl e, q')
      | (Inr None, q') \<Rightarrow> redeliver_all env opts now rows (resolved + 1) failed q'
      | (Inr (Some _), q') \<Rightarrow> redeliver_all env opts now rows resolved (failed + 1) q')"

text \<open>One cycle. \<open>claim_error\<close>: the claim query fails; \<open>depth_fails\<close>: the depth query does.\<close>

definition pollDlqOnce ::
  "dl_env \<Rightarrow> retry_options \<Rightarrow> nat set \<Rightarrow> nat \<Rightarrow> int \<Rightarrow> bool \<Rightarrow> bool \<Rightarrow> int \<Rightarrow> dlq \<Rightarrow> (string + dl_cycle) \<times> dlq" where
  "pollDlqOnce env opts locked batchSize leaseMs claim_fails depth_fails now q =
     (if claim_fails then (Inr \<lparr>cy_claimed = 0, cy_resolved = 0, cy_failed = 0, cy_depth = None\<rparr>, q)
      else
        (let (rows, q1) = claimDue locked batchSize leaseMs now q in
         case redeliver_all env opts now rows 0 0 q1 of
           (Inl e, q2) \<Rightarrow> (Inl e, q2)
         | (Inr (resolved, failed), q2) \<Rightarrow>
             (Inr \<lparr>cy_claimed = length rows, cy_resolved = resolved, cy_failed = failed,
                   cy_depth = (if depth_fails then None else Some (countByStatus q2))\<rparr>, q2)))"

section \<open>The depth alert (worker.js tick, manager.js checkThreshold)\<close>

definition actionable :: "dl_counts \<Rightarrow> int" where
  "actionable d = int (n_pending d + n_exhausted d)"

text \<open>The alert part of a worker \<open>tick\<close>: whether \<open>onAlert\<close> fires, and the new latch.\<close>

definition tick_alert :: "int \<Rightarrow> dl_counts option \<Rightarrow> bool \<Rightarrow> bool \<times> bool" where
  "tick_alert alertThreshold depth alerting =
     (case depth of
        None \<Rightarrow> (False, alerting)
      | Some d \<Rightarrow>
          if alertThreshold > 0 then
            (if actionable d > alertThreshold \<and> \<not> alerting then (True, True)
             else if actionable d \<le> alertThreshold then (False, False)
             else (False, alerting))
          else (False, alerting))"

record dlq_worker =
  w_stopped :: bool
  w_running :: bool
  w_alerting :: bool

definition worker_tick ::
  "dl_env \<Rightarrow> retry_options \<Rightarrow> nat set \<Rightarrow> nat \<Rightarrow> int \<Rightarrow> bool \<Rightarrow> bool \<Rightarrow> int \<Rightarrow> int \<Rightarrow> dlq_worker \<times> dlq \<Rightarrow> bool \<times> dlq_worker \<times> dlq" where
  "worker_tick env opts locked batchSize leaseMs claim_fails depth_fails threshold now wq =
     (let (w, q) = wq in
      if w_stopped w then (False, w, q)
      else case pollDlqOnce env opts locked batchSize leaseMs claim_fails depth_fails now q of
          (Inl e, q') \<Rightarrow> (False, w, q')
        | (Inr cy, q') \<Rightarrow>
            (let (fire, al) = tick_alert threshold (cy_depth cy) (w_alerting w)
             in (fire, w\<lparr>w_alerting := al\<rparr>, q')))"

definition worker_start :: "dlq_worker \<Rightarrow> dlq_worker" where
  "worker_start w = (if w_running w \<or> w_stopped w then w else w\<lparr>w_running := True\<rparr>)"

definition worker_stop :: "dlq_worker \<Rightarrow> dlq_worker" where
  "worker_stop w = w\<lparr>w_stopped := True, w_running := False\<rparr>"

section \<open>The operator manager (manager.js)\<close>

datatype replay_outcome = Delivered | NotDelivered string | ReplayThrows string

definition manager_replay :: "dl_env \<Rightarrow> int \<Rightarrow> nat \<Rightarrow> dlq \<Rightarrow> replay_outcome \<times> dlq" where
  "manager_replay env now i q =
     (case dl_get i q of
        None \<Rightarrow> (NotDelivered ''not_found'', q)
      | Some row \<Rightarrow>
          if dl_status row = Dl_discarded then (NotDelivered ''already_discarded'', q)
          else if dl_status row = Dl_resolved then (NotDelivered ''already_resolved'', q)
          else
            (case attemptRedelivery env default_retry_options now row q of
               (Inl e, q') \<Rightarrow> (ReplayThrows e, q')
             | (Inr None, q') \<Rightarrow> (Delivered, q')
             | (Inr (Some msg), q') \<Rightarrow> (NotDelivered msg, q')))"

text \<open>\<open>purge\<close>: refuses to run without a filter; deletes what matches every given one.\<close>

definition manager_purge :: "dl_status option \<Rightarrow> int option \<Rightarrow> dlq \<Rightarrow> string + nat \<times> dlq" where
  "manager_purge status olderThan q =
     (if status = None \<and> olderThan = None then Inl ''dlq purge requires a status or olderThan filter''
      else
        (let doomed = (\<lambda>r. (case status of None \<Rightarrow> True | Some st \<Rightarrow> dl_status r = st)
                          \<and> (case olderThan of None \<Rightarrow> True | Some t \<Rightarrow> dl_created_at r < t))
         in Inr (length (filter doomed (dl_rows q)), q\<lparr>dl_rows := filter (\<lambda>r. \<not> doomed r) (dl_rows q)\<rparr>)))"

definition manager_dlqSize :: "dlq \<Rightarrow> int" where
  "manager_dlqSize q = actionable (countByStatus q)"

text \<open>\<open>checkThreshold\<close>: (breached, onAlert fires, new latch).\<close>

definition manager_checkThreshold :: "int \<Rightarrow> dlq \<Rightarrow> bool \<Rightarrow> bool \<times> bool \<times> bool" where
  "manager_checkThreshold threshold q alerting =
     (if threshold \<le> 0 then (False, False, False)
      else
        (let breached = actionable (countByStatus q) > threshold in
         if breached \<and> \<not> alerting then (breached, True, True)
         else if \<not> breached then (breached, False, False)
         else (breached, False, alerting)))"

section \<open>The operator routes (routes.js)\<close>

datatype dl_reply =
    R_invalid string            \<comment> \<open>400 invalid_request with its reason\<close>
  | R_not_found                 \<comment> \<open>404 dead_letter_not_found\<close>
  | R_conflict string           \<comment> \<open>409 with its reason\<close>
  | R_list "dl_row list" int int nat
  | R_row dl_row
  | R_status string             \<comment> \<open>200 ok with a status\<close>
  | R_redelivery_failed string  \<comment> \<open>502\<close>
  | R_error string              \<comment> \<open>the handler throws; the error handler answers 500\<close>

fun reply_code :: "dl_reply \<Rightarrow> nat" where
  "reply_code (R_invalid _) = 400"
| "reply_code R_not_found = 404"
| "reply_code (R_conflict _) = 409"
| "reply_code (R_list _ _ _ _) = 200"
| "reply_code (R_row _) = 200"
| "reply_code (R_status _) = 200"
| "reply_code (R_redelivery_failed _) = 502"
| "reply_code (R_error _) = 500"

text \<open>The status query: absent, one of the four names, or anything else.\<close>

datatype status_query = NoStatus | Status dl_status | BadStatus

text \<open>\<open>limit\<close> and \<open>offset\<close> are the results of \<open>parseInt\<close>, \<open>None\<close> for NaN.\<close>

definition route_list :: "status_query \<Rightarrow> int option \<Rightarrow> int option \<Rightarrow> dlq \<Rightarrow> dl_reply" where
  "route_list status limit0 offset0 q =
     (let go = (\<lambda>st. let limit = min (max 1 (nullish_or limit0 50)) 200;
                         offset = max 0 (nullish_or offset0 0);
                         (items, total) = dl_list st limit offset q
                     in R_list items limit offset total)
      in case status of
           BadStatus \<Rightarrow> R_invalid ''invalid_status''
         | NoStatus \<Rightarrow> go None
         | Status st \<Rightarrow> go (Some st))"

text \<open>The path id: \<open>Number(req.params.id)\<close> when that is an integer.\<close>

definition route_lookup :: "int option \<Rightarrow> dlq \<Rightarrow> dl_reply + dl_row" where
  "route_lookup idp q =
     (case idp of
        None \<Rightarrow> Inl (R_invalid ''invalid_id'')
      | Some i \<Rightarrow>
          (case (if i < 0 then None else dl_get (nat i) q) of
             None \<Rightarrow> Inl R_not_found
           | Some row \<Rightarrow> Inr row))"

definition route_get :: "int option \<Rightarrow> dlq \<Rightarrow> dl_reply" where
  "route_get idp q = (case route_lookup idp q of Inl r \<Rightarrow> r | Inr row \<Rightarrow> R_row row)"

record dl_audit =
  au_event :: string
  au_id :: nat
  au_outcome :: "string option"

definition route_replay ::
  "dl_env \<Rightarrow> retry_options \<Rightarrow> int \<Rightarrow> int option \<Rightarrow> dlq \<Rightarrow> dl_reply \<times> dl_audit option \<times> dlq" where
  "route_replay env opts now idp q =
     (case route_lookup idp q of
        Inl r \<Rightarrow> (r, None, q)
      | Inr row \<Rightarrow>
          if dl_status row = Dl_discarded then (R_conflict ''already_discarded'', None, q)
          else if dl_status row = Dl_resolved then (R_conflict ''already_resolved'', None, q)
          else
            (let audit = (\<lambda>out. Some \<lparr>au_event = ''dlq_replay'', au_id = dl_id row, au_outcome = Some out\<rparr>) in
             case attemptRedelivery env opts now row q of
               (Inl e, q') \<Rightarrow> (R_error e, None, q')
             | (Inr None, q') \<Rightarrow> (R_status ''resolved'', audit ''delivered'', q')
             | (Inr (Some msg), q') \<Rightarrow> (R_redelivery_failed msg, audit ''failed'', q')))"

definition route_discard :: "int option \<Rightarrow> dlq \<Rightarrow> dl_reply \<times> dl_audit option \<times> dlq" where
  "route_discard idp q =
     (case route_lookup idp q of
        Inl r \<Rightarrow> (r, None, q)
      | Inr row \<Rightarrow>
          (R_status ''discarded'',
           Some \<lparr>au_event = ''dlq_discard'', au_id = dl_id row, au_outcome = None\<rparr>,
           dl_discard (dl_id row) q))"

end
