(* ===== verification/DeadLetterFacts.thy ===== *)
theory DeadLetterFacts
  imports DeadLetters
begin

text \<open>
  What holds of the dead-letter queue: the row invariant and its preservation by every
  operation, the lease contract, what one retry cycle does to each row, the backoff schedule and
  the alert latch.
\<close>

section \<open>Row invariant\<close>

text \<open>A pending row has retries left, an exhausted one has none.\<close>

definition dl_row_ok :: "nat \<Rightarrow> dl_row \<Rightarrow> bool" where
  "dl_row_ok m r \<longleftrightarrow> (dl_status r = Dl_pending \<longrightarrow> dl_attempts r < m)
     \<and> (dl_status r = Dl_exhausted \<longrightarrow> m \<le> dl_attempts r)"

definition dl_ok :: "nat \<Rightarrow> dlq \<Rightarrow> bool" where
  "dl_ok m q \<longleftrightarrow> distinct (map dl_id (dl_rows q))
     \<and> (\<forall>r \<in> set (dl_rows q). dl_id r < dl_next_id q \<and> dl_row_ok m r)"

lemma dl_ok_empty: "dl_ok m empty_dlq"
  by (simp add: dl_ok_def empty_dlq_def)

lemma dl_ok_touch:
  assumes "dl_ok m q" "\<And>r. dl_id (f r) = dl_id r" "\<And>r. r \<in> set (dl_rows q) \<Longrightarrow> dl_row_ok m (f r)"
  shows "dl_ok m (q\<lparr>dl_rows := touch_rows dl_id ids f (dl_rows q)\<rparr>)"
  using assms by (auto simp: dl_ok_def touch_rows_def comp_def if_distrib cong: if_cong)

lemma dl_insert_ok: "0 < m \<Longrightarrow> dl_ok m q \<Longrightarrow> dl_ok m (snd (dl_insert e now q))"
  by (auto simp: dl_ok_def dl_insert_def dl_row_ok_def less_Suc_eq)

lemma claimDue_ok: "dl_ok m q \<Longrightarrow> dl_ok m (snd (claimDue locked n lease now q))"
  unfolding claimDue_def Let_def snd_conv
  by (rule dl_ok_touch) (auto simp: dl_claim_row_def dl_ok_def dl_row_ok_def)

lemma markResolved_ok: "dl_ok m q \<Longrightarrow> dl_ok m (markResolved i now q)"
  unfolding markResolved_def dl_update_def
  by (rule dl_ok_touch) (auto simp: dl_resolve_row_def dl_row_ok_def)

lemma markRetryFailed_ok:
  "dl_ok (maxDlqAttempts opts) q \<Longrightarrow> dl_ok (maxDlqAttempts opts) (markRetryFailed i err opts now q)"
  unfolding markRetryFailed_def dl_update_def
  by (rule dl_ok_touch) (auto simp: dl_retry_row_def dl_row_ok_def)

lemma dl_discard_ok: "dl_ok m q \<Longrightarrow> dl_ok m (dl_discard i q)"
  unfolding dl_discard_def dl_update_def
  by (rule dl_ok_touch) (auto simp: dl_row_ok_def)

lemma manager_purge_ok: "dl_ok m q \<Longrightarrow> manager_purge st t q = Inr (n, q') \<Longrightarrow> dl_ok m q'"
  by (auto simp: manager_purge_def dl_ok_def Let_def distinct_map_filter split: if_splits)

lemma attemptRedelivery_ok:
  "dl_ok (maxDlqAttempts opts) q \<Longrightarrow> dl_ok (maxDlqAttempts opts) (snd (attemptRedelivery env opts now row q))"
  by (simp add: attemptRedelivery_def Let_def markResolved_ok markRetryFailed_ok split: option.splits)

lemma redeliver_all_ok:
  "dl_ok (maxDlqAttempts opts) q \<Longrightarrow> redeliver_all env opts now rows a b q = (res, q') \<Longrightarrow>
     dl_ok (maxDlqAttempts opts) q'"
proof (induction rows arbitrary: a b q)
  case Nil
  then show ?case by simp
next
  case (Cons row rows)
  have "dl_ok (maxDlqAttempts opts) (snd (attemptRedelivery env opts now row q))"
    using Cons.prems(1) by (rule attemptRedelivery_ok)
  with Cons show ?case
    by (auto split: prod.splits sum.splits option.splits)
qed

lemma pollDlqOnce_ok:
  assumes "dl_ok (maxDlqAttempts opts) q" "pollDlqOnce env opts locked n lease cf df now q = (res, q')"
  shows "dl_ok (maxDlqAttempts opts) q'"
proof (cases cf)
  case True
  with assms show ?thesis by (simp add: pollDlqOnce_def)
next
  case False
  obtain rows q1 where c: "claimDue locked n lease now q = (rows, q1)" by force
  obtain r q2 where l: "redeliver_all env opts now rows 0 0 q1 = (r, q2)" by force
  have "dl_ok (maxDlqAttempts opts) q1" using claimDue_ok [OF assms(1)] c by (metis snd_conv)
  then have "dl_ok (maxDlqAttempts opts) q2" using l by (rule redeliver_all_ok)
  with assms(2) False c l show ?thesis by (auto simp: pollDlqOnce_def split: sum.splits)
qed

section \<open>The dead-letter queue is a lease queue\<close>

definition dl_due :: "dlq \<Rightarrow> int \<Rightarrow> int \<Rightarrow> nat set" where
  "dl_due q lease t = dl_id ` {r \<in> set (dl_rows q). dl_claimable lease t r}"

lemma dl_claim_row_simps [simp]:
  "dl_id (dl_claim_row t r) = dl_id r" "dl_status (dl_claim_row t r) = dl_status r"
  "dl_payload (dl_claim_row t r) = dl_payload r" "dl_attempts (dl_claim_row t r) = dl_attempts r"
  by (simp_all add: dl_claim_row_def)

lemma dl_claim_row_not_claimable: "t' \<le> t + lease \<Longrightarrow> \<not> dl_claimable lease t' (dl_claim_row t r)"
  by (simp add: dl_claimable_def dl_claim_row_def)

lemma claimDue_ids:
  assumes "claimDue locked n lease t s = (rs, s')"
  shows "dl_id ` set rs = set (pick_ids (dl_claimable lease t) dl_next_retry_at dl_id locked n (dl_rows s))"
proof -
  let ?ids = "set (pick_ids (dl_claimable lease t) dl_next_retry_at dl_id locked n (dl_rows s))"
  have "rs = returned_rows dl_id ?ids (touch_rows dl_id ?ids (dl_claim_row t) (dl_rows s))"
    using assms by (simp add: claimDue_def Let_def)
  then show ?thesis by (simp add: returned_ids [OF pick_ids_in_rows])
qed

lemma dl_due_touch:
  assumes "\<And>r. dl_id (f r) = dl_id r" "\<And>r. \<not> dl_claimable lease t' (f r)"
    "dl_rows s' = touch_rows dl_id ids f (dl_rows s)"
  shows "dl_due s' lease t' \<subseteq> dl_due s lease t' - ids"
proof
  fix j assume "j \<in> dl_due s' lease t'"
  then obtain r' where r': "r' \<in> set (touch_rows dl_id ids f (dl_rows s))" "dl_claimable lease t' r'" "dl_id r' = j"
    using assms(3) by (auto simp: dl_due_def)
  then have "r' \<in> set (dl_rows s) \<and> dl_id r' \<notin> ids"
    using touch_rows_untouched [of r' dl_id ids f "dl_rows s" "dl_claimable lease t'"] assms(1,2) by simp
  with r'(2,3) show "j \<in> dl_due s lease t' - ids" by (auto simp: dl_due_def)
qed

interpretation dlq_q: lease_queue dl_due claimDue dl_id markResolved
proof (unfold_locales, goal_cases)
  case (1 locked n lease t s rs s')
  have "set (pick_ids (dl_claimable lease t) dl_next_retry_at dl_id locked n (dl_rows s)) \<subseteq> dl_due s lease t"
    using pick_ids_subset [of "dl_claimable lease t" dl_next_retry_at dl_id locked n "dl_rows s"]
    unfolding dl_due_def by blast
  with claimDue_ids [OF 1] show ?case by simp
next
  case (2 locked n lease t s rs s')
  with claimDue_ids [OF 2] pick_ids_subset [of "dl_claimable lease t" dl_next_retry_at dl_id locked n "dl_rows s"]
  show ?case by auto
next
  case (3 locked n lease t s rs s' t')
  have "dl_due s' lease t' \<subseteq> dl_due s lease t' - set (pick_ids (dl_claimable lease t) dl_next_retry_at dl_id locked n (dl_rows s))"
    by (rule dl_due_touch [of "dl_claim_row t"])
      (use 3 in \<open>auto simp: claimDue_def Let_def dl_claim_row_not_claimable\<close>)
  with claimDue_ids [OF 3(1)] show ?case by simp
next
  case (4 i t s lease t')
  show ?case
    by (rule dl_due_touch [of "dl_resolve_row t"])
      (auto simp: dl_resolve_row_def dl_claimable_def markResolved_def dl_update_def)
qed

section \<open>What a cycle touches\<close>

lemma dl_get_touch:
  assumes "\<And>r. dl_id (f r) = dl_id r"
  shows "dl_get i (q\<lparr>dl_rows := touch_rows dl_id ids f (dl_rows q)\<rparr>)
     = (if i \<in> ids then map_option f (dl_get i q) else dl_get i q)"
proof -
  have "List.find (\<lambda>r. dl_id r = i) (touch_rows dl_id ids f rs)
     = (if i \<in> ids then map_option f (List.find (\<lambda>r. dl_id r = i) rs) else List.find (\<lambda>r. dl_id r = i) rs)" for rs
    using assms by (induction rs) (auto simp: touch_rows_def)
  then show ?thesis by (simp add: dl_get_def)
qed

lemma dl_get_resolved [simp]:
  "dl_get i (markResolved j t q) = (if i = j then map_option (dl_resolve_row t) (dl_get i q) else dl_get i q)"
  by (simp add: markResolved_def dl_update_def dl_get_touch dl_resolve_row_def)

lemma dl_get_retry [simp]:
  "dl_get i (markRetryFailed j e opts t q) = (if i = j then map_option (dl_retry_row e opts t) (dl_get i q) else dl_get i q)"
  by (simp add: markRetryFailed_def dl_update_def dl_get_touch dl_retry_row_def)

lemma dl_get_discard [simp]:
  "dl_get i (dl_discard j q) = (if i = j then map_option (\<lambda>r. r\<lparr>dl_status := Dl_discarded\<rparr>) (dl_get i q) else dl_get i q)"
  by (simp add: dl_discard_def dl_update_def dl_get_touch)

lemma dl_get_Some_in: "dl_get i q = Some r \<Longrightarrow> r \<in> set (dl_rows q) \<and> dl_id r = i"
  by (auto simp: dl_get_def find_Some_iff)

lemma dl_get_in: "distinct (map dl_id (dl_rows q)) \<Longrightarrow> r \<in> set (dl_rows q) \<Longrightarrow> dl_get (dl_id r) q = Some r"
proof -
  assume d: "distinct (map dl_id (dl_rows q))" and r: "r \<in> set (dl_rows q)"
  have "dl_get (dl_id r) q \<noteq> None" using r by (auto simp: dl_get_def find_None_iff)
  then obtain r' where r': "dl_get (dl_id r) q = Some r'" by auto
  with d r dl_get_Some_in [OF r'] show ?thesis by (metis distinct_map inj_onD)
qed

text \<open>One attempt: the row that was tried is resolved or charged a retry, every other is left alone.\<close>

lemma attemptRedelivery_other:
  "i \<noteq> dl_id row \<Longrightarrow> dl_get i (snd (attemptRedelivery env opts now row q)) = dl_get i q"
  by (simp add: attemptRedelivery_def Let_def split: option.splits)

lemma redeliver_all_other:
  "i \<notin> dl_id ` set rows \<Longrightarrow> redeliver_all env opts now rows a b q = (res, q') \<Longrightarrow> dl_get i q' = dl_get i q"
proof (induction rows arbitrary: a b q)
  case Nil
  then show ?case by simp
next
  case (Cons row rows)
  have "dl_get i (snd (attemptRedelivery env opts now row q)) = dl_get i q"
    using Cons.prems(1) by (intro attemptRedelivery_other) auto
  with Cons show ?case by (auto split: prod.splits sum.splits option.splits)
qed

lemma claimDue_other:
  "claimDue locked n lease now q = (rows, q') \<Longrightarrow> i \<notin> dl_id ` set rows \<Longrightarrow> dl_get i q' = dl_get i q"
  using claimDue_ids [of locked n lease now q rows q']
  by (auto simp: claimDue_def Let_def dl_get_touch)

text \<open>A row that is not due is exactly as before after a whole cycle.\<close>

lemma pollDlqOnce_not_due:
  assumes "i \<notin> dl_due q lease now" "pollDlqOnce env opts locked n lease cf df now q = (res, q')"
  shows "dl_get i q' = dl_get i q"
proof (cases cf)
  case True
  with assms show ?thesis by (simp add: pollDlqOnce_def)
next
  case False
  obtain rows q1 where c: "claimDue locked n lease now q = (rows, q1)" by force
  obtain r q2 where l: "redeliver_all env opts now rows 0 0 q1 = (r, q2)" by force
  have i: "i \<notin> dl_id ` set rows" using dlq_q.claim_due [OF c] assms(1) by auto
  have "dl_get i q2 = dl_get i q"
    using redeliver_all_other [OF i l] claimDue_other [OF c i] by simp
  with assms(2) False c l show ?thesis by (auto simp: pollDlqOnce_def split: sum.splits)
qed

lemma not_due:
  assumes "distinct (map dl_id (dl_rows q))" "dl_get i q = Some r" "\<not> dl_claimable lease t r"
  shows "i \<notin> dl_due q lease t"
proof
  assume "i \<in> dl_due q lease t"
  then obtain r' where "r' \<in> set (dl_rows q)" "dl_id r' = i" "dl_claimable lease t r'"
    by (auto simp: dl_due_def)
  with dl_get_in [OF assms(1)] assms(2,3) show False by fastforce
qed

lemma redeliver_all_count:
  "redeliver_all env opts now rows a b q = (Inr (x, y), q') \<Longrightarrow> x + y = a + b + length rows"
proof (induction rows arbitrary: a b q)
  case Nil
  then show ?case by simp
next
  case (Cons row rows)
  then show ?case by (fastforce split: prod.splits sum.splits option.splits)
qed

text \<open>What one attempt makes of the row it tries.\<close>

lemma pollDlqOnce_count:
  "pollDlqOnce env opts locked n lease cf df now q = (Inr cy, q') \<Longrightarrow> cy_resolved cy + cy_failed cy = cy_claimed cy"
  by (auto simp: pollDlqOnce_def split: prod.splits sum.splits if_splits dest: redeliver_all_count)

lemma attemptRedelivery_self:
  assumes "dl_get (dl_id row) q = Some r" "attemptRedelivery env opts now row q = (Inr res, q')"
  shows "dl_get (dl_id row) q' =
     Some (case res of None \<Rightarrow> dl_resolve_row now r | Some msg \<Rightarrow> dl_retry_row (Some msg) opts now r)"
  using assms by (auto simp: attemptRedelivery_def Let_def split: option.splits)

text \<open>After a cycle that ran through, a claimed row was resolved or charged exactly one retry.\<close>

lemma redeliver_all_self:
  assumes "distinct (map dl_id rows)" "row \<in> set rows" "dl_get (dl_id row) q = Some r"
    "redeliver_all env opts now rows a b q = (Inr xy, q')"
  shows "\<exists>res. dl_get (dl_id row) q' =
     Some (case res of None \<Rightarrow> dl_resolve_row now r | Some msg \<Rightarrow> dl_retry_row (Some msg) opts now r)"
  using assms
proof (induction rows arbitrary: a b q)
  case Nil
  then show ?case by simp
next
  case (Cons r0 rows)
  obtain res q1 where at: "attemptRedelivery env opts now r0 q = (Inr res, q1)"
    using Cons.prems(4) by (auto split: prod.splits sum.splits)
  obtain a' b' where rest: "redeliver_all env opts now rows a' b' q1 = (Inr xy, q')"
    using Cons.prems(4) at by (auto split: option.splits)
  show ?case
  proof (cases "row = r0")
    case True
    then have "dl_id row \<notin> dl_id ` set rows" using Cons.prems(1) by auto
    from redeliver_all_other [OF this rest] attemptRedelivery_self [of row q r env opts now res q1]
    show ?thesis using Cons.prems(3) at True by auto
  next
    case False
    with Cons.prems(2) have "dl_id row \<in> dl_id ` set rows" by simp
    with Cons.prems(1) have "dl_id row \<noteq> dl_id r0" by auto
    then have "dl_get (dl_id row) q1 = Some r"
      using attemptRedelivery_other [of "dl_id row" r0 env opts now q] at Cons.prems(3) by simp
    with Cons False rest show ?thesis by auto
  qed
qed

section \<open>Backoff\<close>

text \<open>The row after a list of failures, oldest first, each given by its message and its time.\<close>

fun fail_run :: "retry_options \<Rightarrow> (string option \<times> int) list \<Rightarrow> dl_row \<Rightarrow> dl_row" where
  "fail_run opts [] r = r"
| "fail_run opts ((e, t) # fs) r = fail_run opts fs (dl_retry_row e opts t r)"

lemma fail_run_snoc: "fail_run opts (fs @ [(e, t)]) r = dl_retry_row e opts t (fail_run opts fs r)"
  by (induction fs arbitrary: r) auto

lemma fail_run_attempts [simp]: "dl_attempts (fail_run opts fs r) = dl_attempts r + length fs"
  by (induction opts fs r rule: fail_run.induct) (simp_all add: dl_retry_row_def)

section \<open>The alert latch\<close>

text \<open>Both implementations of the threshold check are the same machine.\<close>

lemma checkThreshold_tick:
  assumes "threshold > 0"
  shows "manager_checkThreshold threshold q alerting
     = (actionable (countByStatus q) > threshold, tick_alert threshold (Some (countByStatus q)) alerting)"
  using assms by (auto simp: manager_checkThreshold_def tick_alert_def Let_def)

text \<open>A run of the latch over the depths of successive cycles: at which ones the alert fires.\<close>

fun alert_run :: "int \<Rightarrow> bool \<Rightarrow> dl_counts option list \<Rightarrow> bool list" where
  "alert_run threshold alerting [] = []"
| "alert_run threshold alerting (d # ds) =
     (let (fire, alerting') = tick_alert threshold d alerting in fire # alert_run threshold alerting' ds)"

definition breached :: "int \<Rightarrow> dl_counts option \<Rightarrow> bool" where
  "breached threshold d \<longleftrightarrow> (case d of None \<Rightarrow> False | Some c \<Rightarrow> actionable c > threshold)"

lemma length_alert_run [simp]: "length (alert_run th al ds) = length ds"
  by (induction ds arbitrary: al) (auto split: prod.splits)

lemma tick_alert_None [simp]: "tick_alert th None al = (False, al)"
  by (simp add: tick_alert_def)

lemma tick_alert_Some:
  "0 < th \<Longrightarrow> tick_alert th (Some c) al = (breached th (Some c) \<and> \<not> al, breached th (Some c))"
  by (auto simp: tick_alert_def breached_def)

text \<open>With the latch set, the next alert comes only after a depth at or below the threshold.\<close>

lemma alert_run_latched:
  assumes "0 < th" "j < length ds" "alert_run th True ds ! j"
  shows "\<exists>i < j. \<exists>c. ds ! i = Some c \<and> \<not> breached th (Some c)"
  using assms(2,3)
proof (induction ds arbitrary: j)
  case Nil
  then show ?case by simp
next
  case (Cons d ds)
  show ?case
  proof (cases d)
    case None
    with Cons.prems obtain j' where "j = Suc j'" by (cases j) auto
    with Cons None obtain i where "i < j'" "\<exists>c. ds ! i = Some c \<and> \<not> breached th (Some c)" by fastforce
    with \<open>j = Suc j'\<close> show ?thesis by (intro exI [of _ "Suc i"]) auto
  next
    case (Some c)
    show ?thesis
    proof (cases "breached th (Some c)")
      case True
      with Cons.prems Some assms(1) obtain j' where j: "j = Suc j'" by (cases j) (auto simp: tick_alert_Some)
      with Cons Some True assms(1) obtain i where "i < j'" "\<exists>c. ds ! i = Some c \<and> \<not> breached th (Some c)"
        by (fastforce simp: tick_alert_Some)
      with j show ?thesis by (intro exI [of _ "Suc i"]) auto
    next
      case False
      with Cons.prems Some assms(1) have "0 < j" by (cases j) (auto simp: tick_alert_Some)
      with False Some show ?thesis by (intro exI [of _ 0]) auto
    qed
  qed
qed

lemma alert_run_fires_breached:
  "0 < th \<Longrightarrow> j < length ds \<Longrightarrow> alert_run th al ds ! j \<Longrightarrow> breached th (ds ! j)"
proof (induction ds arbitrary: j al)
  case Nil
  then show ?case by simp
next
  case (Cons d ds)
  then show ?case
    by (cases d; cases j) (auto simp: tick_alert_Some split: prod.splits)
qed

text \<open>Between two alerts the depth was seen back at or under the threshold.\<close>

lemma alert_run_once:
  assumes "0 < th" "i < j" "j < length ds" "alert_run th al ds ! i" "alert_run th al ds ! j"
  shows "\<exists>k c. i < k \<and> k < j \<and> ds ! k = Some c \<and> \<not> breached th (Some c)"
  using assms(2-5)
proof (induction ds arbitrary: i j al)
  case Nil
  then show ?case by simp
next
  case (Cons d ds)
  obtain j' where j: "j = Suc j'" using Cons.prems(1) by (cases j) auto
  show ?case
  proof (cases i)
    case 0
    then obtain c where c: "d = Some c" "breached th (Some c)"
      using Cons.prems assms(1) by (cases d) (auto simp: tick_alert_Some)
    with Cons.prems j assms(1) have "alert_run th True ds ! j'" "j' < length ds"
      by (auto simp: tick_alert_Some)
    from alert_run_latched [OF assms(1) this(2,1)]
    obtain k c' where "k < j'" "ds ! k = Some c'" "\<not> breached th (Some c')" by auto
    with 0 j show ?thesis by (intro exI [of _ "Suc k"] exI [of _ c']) auto
  next
    case (Suc i')
    obtain al' where "alert_run th al' ds ! i'" "alert_run th al' ds ! j'"
      using Cons.prems Suc j by (auto split: prod.splits)
    with Cons.IH [of i' j' al'] Cons.prems Suc j
    obtain k c where "i' < k" "k < j'" "ds ! k = Some c" "\<not> breached th (Some c)" by auto
    with Suc j show ?thesis by (intro exI [of _ "Suc k"] exI [of _ c]) auto
  qed
qed

section \<open>The operator routes\<close>

text \<open>The route and the manager replay a row in the same way.\<close>

fun as_outcome :: "dl_reply \<Rightarrow> replay_outcome" where
  "as_outcome (R_conflict reason) = NotDelivered reason"
| "as_outcome (R_status _) = Delivered"
| "as_outcome (R_redelivery_failed msg) = NotDelivered msg"
| "as_outcome (R_error e) = ReplayThrows e"
| "as_outcome _ = NotDelivered ''not_found''"

lemma route_manager_replay:
  assumes "route_replay env default_retry_options now (Some (int i)) q = (r, a, q')"
  shows "manager_replay env now i q = (as_outcome r, q')"
  using assms
  by (auto simp: route_replay_def route_lookup_def manager_replay_def split: option.splits if_splits prod.splits sum.splits)

text \<open>A replay that is answered with 200 delivered the row and leaves it resolved.\<close>

lemma route_replay_resolved:
  assumes "route_replay env opts now (Some (int i)) q = (R_status s, a, q')"
  obtains row where "dl_get i q = Some row" "publish_error env i (dl_payload row) = None"
    "dl_get i q' = Some (dl_resolve_row now row)" "\<And>j. j \<noteq> i \<Longrightarrow> dl_get j q' = dl_get j q"
proof -
  obtain row where row: "dl_get i q = Some row" "attemptRedelivery env opts now row q = (Inr None, q')"
    using assms by (auto simp: route_replay_def route_lookup_def split: option.splits if_splits prod.splits sum.splits)
  have i: "dl_id row = i" using dl_get_Some_in [OF row(1)] by simp
  have "publish_error env i (dl_payload row) = None"
    using row(2) by (auto simp: attemptRedelivery_def Let_def i split: option.splits)
  moreover have "dl_get i q' = Some (dl_resolve_row now row)"
    using attemptRedelivery_self [of row q row env opts now None q'] row i by simp
  moreover have "dl_get j q' = dl_get j q" if "j \<noteq> i" for j
    using attemptRedelivery_other [of j row env opts now q] that i row(2) by simp
  ultimately show ?thesis using that row(1) by blast
qed

text \<open>
  The route does not look at the lease: a row that a worker has just claimed is sent as well. And a
  row discarded under a worker is pending again once that worker's delivery has failed.
\<close>

lemma route_replay_ignores_lease:
  assumes "dl_get i q = Some row" "dl_status row = Dl_pending" "dl_claimed_at row = Some now"
    "publish_error env i (dl_payload row) = None" "resolve_error env i = None"
  shows "fst (route_replay env opts now (Some (int i)) q) = R_status ''resolved''"
  using assms dl_get_Some_in [OF assms(1)] by (simp add: route_replay_def route_lookup_def attemptRedelivery_def Let_def)

lemma discard_undone:
  assumes "dl_get i q = Some row" "dl_attempts row + 1 < maxDlqAttempts opts" "route_discard (Some (int i)) q = (r, a, q')"
  shows "map_option dl_status (dl_get i q') = Some Dl_discarded"
    "map_option dl_status (dl_get i (markRetryFailed i e opts now q')) = Some Dl_pending"
proof -
  have q': "q' = dl_discard i q" using assms(1,3) dl_get_Some_in [OF assms(1)] by (simp add: route_discard_def route_lookup_def)
  show "map_option dl_status (dl_get i q') = Some Dl_discarded" using assms(1) by (simp add: q')
  show "map_option dl_status (dl_get i (markRetryFailed i e opts now q')) = Some Dl_pending"
    using assms(1,2) by (simp add: q' dl_retry_row_def)
qed

end
