(* ===== verification/OutboxWorker.thy ===== *)
theory OutboxWorker
  imports DeadLetterFacts
begin

text \<open>
  The outbox background worker: \<open>src/outbox/worker.js\<close>. One cycle claims a batch, publishes
  each row, marks it, and hands a row that has no attempts left to the dead-letter queue. What
  the environment answers per row is an argument; the state is the outbox table and the optional
  dead-letter table.
\<close>

record ob_env =
  pub_error :: "nat \<Rightarrow> json_obj \<Rightarrow> string option"   \<comment> \<open>publish throws\<close>
  mark_published_error :: "nat \<Rightarrow> string option"
  mark_failed_fails :: "nat \<Rightarrow> bool"
  dlq_insert_fails :: "nat \<Rightarrow> bool"

text \<open>\<open>{ id: row.event_id, ...row.payload, publishedAt }\<close>: later fields win.\<close>

definition publish_record :: "string \<Rightarrow> outbox_row \<Rightarrow> json_obj" where
  "publish_record publishedAt row =
     jm_set ''publishedAt'' (JStr publishedAt)
       (foldl (\<lambda>obj (k, v). jm_set k v obj) [(''id'', JStr (ob_event_id row))] (ob_payload row))"

text \<open>The \<open>catch\<close> of the loop body: charge the attempt, dead-letter an exhausted row.\<close>

definition publish_failed ::
  "ob_env \<Rightarrow> nat \<Rightarrow> int \<Rightarrow> json_obj \<Rightarrow> string \<Rightarrow> outbox_row \<Rightarrow> outbox \<times> dlq option \<Rightarrow> outbox \<times> dlq option" where
  "publish_failed env maxAttempts now rec err row st =
     (let (ob, dq) = st;
          ob' = (if mark_failed_fails env (ob_id row) then ob
                 else markFailed (ob_id row) (Some err) maxAttempts ob)
      in if ob_attempts row + 1 \<ge> maxAttempts then
           (case dq of
              None \<Rightarrow> (ob', None)
            | Some q \<Rightarrow>
                if dlq_insert_fails env (ob_id row) then (ob', Some q)
                else (ob', Some (snd (dl_insert \<lparr>e_messageId = ob_event_id row, e_source = ''outbox'',
                       e_type = Some (ob_type row), e_payload = rec, e_error = Some err,
                       e_deliveryAttempts = ob_attempts row + 1\<rparr> now q))))
         else (ob', dq))"

definition publish_row ::
  "ob_env \<Rightarrow> nat \<Rightarrow> int \<Rightarrow> string \<Rightarrow> outbox_row \<Rightarrow> outbox \<times> dlq option \<Rightarrow> bool \<times> outbox \<times> dlq option" where
  "publish_row env maxAttempts now publishedAt row st =
     (let rec = publish_record publishedAt row in
      case pub_error env (ob_id row) rec of
        Some err \<Rightarrow> (False, publish_failed env maxAttempts now rec err row st)
      | None \<Rightarrow>
          (case mark_published_error env (ob_id row) of
             Some err \<Rightarrow> (False, publish_failed env maxAttempts now rec err row st)
           | None \<Rightarrow> (True, markPublished (ob_id row) now (fst st), snd st)))"

fun publish_rows ::
  "ob_env \<Rightarrow> nat \<Rightarrow> int \<Rightarrow> string \<Rightarrow> outbox_row list \<Rightarrow> nat \<Rightarrow> nat \<Rightarrow> outbox \<times> dlq option \<Rightarrow> nat \<times> nat \<times> outbox \<times> dlq option" where
  "publish_rows env maxAttempts now pa [] published failed st = (published, failed, st)"
| "publish_rows env maxAttempts now pa (row # rows) published failed st =
     (let (delivered, st') = publish_row env maxAttempts now pa row st in
      publish_rows env maxAttempts now pa rows
        (if delivered then published + 1 else published)
        (if delivered then failed else failed + 1) st')"

record ob_cycle =
  oc_claimed :: nat
  oc_published :: nat
  oc_failed :: nat

definition pollOutboxOnce ::
  "ob_env \<Rightarrow> nat \<Rightarrow> nat set \<Rightarrow> nat \<Rightarrow> int \<Rightarrow> bool \<Rightarrow> int \<Rightarrow> string \<Rightarrow> outbox \<times> dlq option \<Rightarrow> ob_cycle \<times> outbox \<times> dlq option" where
  "pollOutboxOnce env maxAttempts locked batchSize leaseMs claim_fails now pa st =
     (if claim_fails then (\<lparr>oc_claimed = 0, oc_published = 0, oc_failed = 0\<rparr>, st)
      else
        (let (rows, ob1) = claimBatch locked batchSize leaseMs now (fst st);
             (published, failed, st') = publish_rows env maxAttempts now pa rows 0 0 (ob1, snd st)
         in (\<lparr>oc_claimed = length rows, oc_published = published, oc_failed = failed\<rparr>, st')))"

text \<open>The interval runner: a tick after \<open>stop\<close> does nothing.\<close>

record ob_worker =
  ow_running :: bool
  ow_stopped :: bool

definition outbox_start :: "ob_worker \<Rightarrow> ob_worker" where
  "outbox_start w = (if ow_running w \<or> ow_stopped w then w else w\<lparr>ow_running := True\<rparr>)"

definition outbox_stop :: "ob_worker \<Rightarrow> ob_worker" where
  "outbox_stop w = w\<lparr>ow_stopped := True, ow_running := False\<rparr>"

definition outbox_tick ::
  "ob_worker \<Rightarrow> ob_env \<Rightarrow> nat \<Rightarrow> nat set \<Rightarrow> nat \<Rightarrow> int \<Rightarrow> bool \<Rightarrow> int \<Rightarrow> string \<Rightarrow> outbox \<times> dlq option \<Rightarrow> ob_cycle \<times> outbox \<times> dlq option" where
  "outbox_tick w env maxAttempts locked batchSize leaseMs claim_fails now pa st =
     (if ow_stopped w then (\<lparr>oc_claimed = 0, oc_published = 0, oc_failed = 0\<rparr>, st)
      else pollOutboxOnce env maxAttempts locked batchSize leaseMs claim_fails now pa st)"

section \<open>Lookup\<close>

definition ob_get :: "nat \<Rightarrow> outbox \<Rightarrow> outbox_row option" where
  "ob_get i ob = List.find (\<lambda>r. ob_id r = i) (ob_rows ob)"

lemma ob_get_touch:
  assumes "\<And>r. ob_id (f r) = ob_id r"
  shows "ob_get i (ob\<lparr>ob_rows := touch_rows ob_id ids f (ob_rows ob)\<rparr>)
     = (if i \<in> ids then map_option f (ob_get i ob) else ob_get i ob)"
proof -
  have "List.find (\<lambda>r. ob_id r = i) (touch_rows ob_id ids f rs)
     = (if i \<in> ids then map_option f (List.find (\<lambda>r. ob_id r = i) rs) else List.find (\<lambda>r. ob_id r = i) rs)" for rs
    using assms by (induction rs) (auto simp: touch_rows_def)
  then show ?thesis by (simp add: ob_get_def)
qed

lemma ob_get_published [simp]:
  "ob_get i (markPublished j t ob) = (if i = j then map_option (ob_publish_row t) (ob_get i ob) else ob_get i ob)"
  by (simp add: markPublished_def ob_update_def ob_get_touch ob_publish_row_def)

lemma ob_get_failed [simp]:
  "ob_get i (markFailed j e m ob) = (if i = j then map_option (ob_fail_row e m) (ob_get i ob) else ob_get i ob)"
  by (simp add: markFailed_def ob_update_def ob_get_touch ob_fail_row_def)

lemma ob_get_in: "distinct (map ob_id (ob_rows ob)) \<Longrightarrow> r \<in> set (ob_rows ob) \<Longrightarrow> ob_get (ob_id r) ob = Some r"
proof -
  assume d: "distinct (map ob_id (ob_rows ob))" and r: "r \<in> set (ob_rows ob)"
  have "ob_get (ob_id r) ob \<noteq> None" using r by (auto simp: ob_get_def find_None_iff)
  then obtain r' where r': "ob_get (ob_id r) ob = Some r'" by auto
  then have "r' \<in> set (ob_rows ob)" "ob_id r' = ob_id r" by (auto simp: ob_get_def find_Some_iff)
  with d r r' show ?thesis by (metis distinct_map inj_onD)
qed

section \<open>One row\<close>

text \<open>
  What a cycle leaves of a claimed row \<open>r\<close>, given how its publish went: published, charged one
  attempt (pending again, or failed with no attempts left), or, when even \<open>markFailed\<close> failed,
  still claimed under its lease.
\<close>

definition row_result :: "ob_env \<Rightarrow> nat \<Rightarrow> int \<Rightarrow> string \<Rightarrow> outbox_row \<Rightarrow> outbox_row" where
  "row_result env m now pa r =
     (let rec = publish_record pa r;
          err = (case pub_error env (ob_id r) rec of None \<Rightarrow> mark_published_error env (ob_id r) | Some e \<Rightarrow> Some e)
      in case err of
           None \<Rightarrow> ob_publish_row now r
         | Some e \<Rightarrow> if mark_failed_fails env (ob_id r) then r else ob_fail_row (Some e) m r)"

definition delivered :: "ob_env \<Rightarrow> string \<Rightarrow> outbox_row \<Rightarrow> bool" where
  "delivered env pa r \<longleftrightarrow> pub_error env (ob_id r) (publish_record pa r) = None \<and> mark_published_error env (ob_id r) = None"

lemma publish_row_delivered: "fst (publish_row env m now pa row st) = delivered env pa row"
  by (auto simp: publish_row_def delivered_def Let_def split: option.splits)

lemma publish_failed_get:
  "ob_get i (fst (publish_failed env m now rec err row st)) =
     (if i = ob_id row \<and> \<not> mark_failed_fails env i then map_option (ob_fail_row (Some err) m) (ob_get i (fst st))
      else ob_get i (fst st))"
  by (cases st) (auto simp: publish_failed_def Let_def split: option.splits)

lemma publish_row_get:
  assumes "ob_get (ob_id row) (fst st) = Some row"
  shows "ob_get i (fst (snd (publish_row env m now pa row st))) =
     (if i = ob_id row then Some (row_result env m now pa row) else ob_get i (fst st))"
  using assms by (auto simp: publish_row_def row_result_def Let_def publish_failed_get split: option.splits)

lemma publish_rows_other:
  assumes "publish_rows env m now pa rows a b st = (x, y, st')" "i \<notin> ob_id ` set rows"
  shows "ob_get i (fst st') = ob_get i (fst st)"
  using assms
proof (induction rows arbitrary: a b st)
  case Nil
  then show ?case by simp
next
  case (Cons row rows)
  obtain d st1 where p: "publish_row env m now pa row st = (d, st1)" by (metis surj_pair)
  have "ob_get i (fst st1) = ob_get i (fst st)"
    using p Cons.prems(2)
    by (auto simp: publish_row_def Let_def publish_failed_get split: option.splits)
  with Cons p show ?case by (auto split: if_splits)
qed

lemma publish_rows_self:
  assumes "publish_rows env m now pa rows a b st = (x, y, st')"
    "distinct (map ob_id rows)" "row \<in> set rows" "\<And>r. r \<in> set rows \<Longrightarrow> ob_get (ob_id r) (fst st) = Some r"
  shows "ob_get (ob_id row) (fst st') = Some (row_result env m now pa row)"
  using assms
proof (induction rows arbitrary: a b st)
  case Nil
  then show ?case by simp
next
  case (Cons r0 rows)
  obtain d st1 where p: "publish_row env m now pa r0 st = (d, st1)" by (metis surj_pair)
  obtain a' b' where rest: "publish_rows env m now pa rows a' b' st1 = (x, y, st')"
    using Cons.prems(1) p by auto
  have get1: "ob_get i (fst st1) = (if i = ob_id r0 then Some (row_result env m now pa r0) else ob_get i (fst st))" for i
    using publish_row_get [of r0 st i env m now pa] Cons.prems(4) p by simp
  show ?case
  proof (cases "row = r0")
    case True
    then have "ob_id row \<notin> ob_id ` set rows" using Cons.prems(2) by auto
    from publish_rows_other [OF rest this] get1 True show ?thesis by simp
  next
    case False
    have "ob_get (ob_id r) (fst st1) = Some r" if "r \<in> set rows" for r
    proof -
      have "ob_id r \<in> ob_id ` set rows" using that by simp
      then have "ob_id r \<noteq> ob_id r0" using Cons.prems(2) by auto
      then show ?thesis using get1 Cons.prems(4) that by simp
    qed
    with Cons False rest show ?thesis by auto
  qed
qed

lemma publish_rows_count:
  "publish_rows env m now pa rows a b st = (x, y, st') \<Longrightarrow>
     x = a + length (filter (delivered env pa) rows) \<and> x + y = a + b + length rows"
proof (induction rows arbitrary: a b st)
  case Nil
  then show ?case by simp
next
  case (Cons row rows)
  obtain d st1 where p: "publish_row env m now pa row st = (d, st1)" by (metis surj_pair)
  then have "d = delivered env pa row" using publish_row_delivered by (metis fst_conv)
  with Cons p show ?case by (fastforce split: if_splits)
qed

section \<open>A whole cycle\<close>

lemma claimBatch_rows:
  assumes "distinct (map ob_id (ob_rows ob))" "claimBatch locked n lease now ob = (rows, ob1)"
  shows "distinct (map ob_id rows)" "\<And>r. r \<in> set rows \<Longrightarrow> ob_get (ob_id r) ob1 = Some r"
    "distinct (map ob_id (ob_rows ob1))"
proof -
  have rows: "rows = returned_rows ob_id (set (pick_ids (ob_claimable lease now) ob_created_at ob_id locked n (ob_rows ob))) (ob_rows ob1)"
    using assms(2) by (auto simp: claimBatch_def Let_def)
  have "map ob_id (ob_rows ob1) = map ob_id (ob_rows ob)"
    using assms(2) by (auto simp: claimBatch_def Let_def)
  with assms(1) show d: "distinct (map ob_id (ob_rows ob1))" by simp
  with rows show "distinct (map ob_id rows)" by (simp add: returned_rows_def distinct_map_filter)
  show "ob_get (ob_id r) ob1 = Some r" if "r \<in> set rows" for r
    using that rows by (intro ob_get_in [OF d]) (simp add: returned_rows_def)
qed

lemma publish_failed_ok:
  assumes "ob_ok m (fst st)"
  shows "ob_ok m (fst (publish_failed env m now rec err row st))"
  using assms by (cases st) (auto simp: publish_failed_def Let_def markFailed_ok split: option.splits)

lemma publish_rows_ok:
  "publish_rows env m now pa rows a b st = (x, y, st') \<Longrightarrow> ob_ok m (fst st) \<Longrightarrow> ob_ok m (fst st')"
proof (induction rows arbitrary: a b st)
  case Nil
  then show ?case by simp
next
  case (Cons row rows)
  obtain d st1 where p: "publish_row env m now pa row st = (d, st1)" by (metis surj_pair)
  have "ob_ok m (fst st1)"
    using p Cons.prems(2)
    by (auto simp: publish_row_def Let_def publish_failed_ok markPublished_ok split: option.splits)
  with Cons p show ?case by (auto split: if_splits)
qed

lemma pollOutboxOnce_ok:
  assumes "pollOutboxOnce env m locked n lease cf now pa st = (cy, st')" "ob_ok m (fst st)"
  shows "ob_ok m (fst st')"
proof (cases cf)
  case True
  with assms show ?thesis by (simp add: pollOutboxOnce_def)
next
  case False
  obtain rows ob1 where c: "claimBatch locked n lease now (fst st) = (rows, ob1)" by force
  have "ob_ok m ob1" using claimBatch_ok [OF assms(2)] c by (metis snd_conv)
  with assms(1) False c show ?thesis
    by (auto simp: pollOutboxOnce_def split: prod.splits dest: publish_rows_ok)
qed

text \<open>
  No notification is lost: after a cycle every row the table held is still in it, published, or
  queued again, or failed with all its attempts spent, or under a live claim.
\<close>

lemma pollOutboxOnce_row:
  assumes "ob_ok m (fst st)" "\<not> cf" "ob_get i (fst st) = Some r"
    "pollOutboxOnce env m locked n lease cf now pa st = (cy, st')"
  shows "ob_get i (fst st') = Some r \<and> i \<notin> ob_id ` set (fst (claimBatch locked n lease now (fst st)))
    \<or> ob_get i (fst st') = Some (row_result env m now pa (ob_claim_row now r))
       \<and> i \<in> ob_id ` set (fst (claimBatch locked n lease now (fst st)))"
proof -
  obtain rows ob1 where c: "claimBatch locked n lease now (fst st) = (rows, ob1)" by force
  obtain x y where p: "publish_rows env m now pa rows 0 0 (ob1, snd st) = (x, y, st')"
    using assms(2,4) c by (auto simp: pollOutboxOnce_def split: prod.splits)
  have d: "distinct (map ob_id (ob_rows (fst st)))" using assms(1) by (simp add: ob_ok_def)
  have ids: "ob_id ` set rows = set (pick_ids (ob_claimable lease now) ob_created_at ob_id locked n (ob_rows (fst st)))"
    using claimBatch_ids [OF c] .
  have get1: "ob_get i ob1 = (if i \<in> ob_id ` set rows then Some (ob_claim_row now r) else Some r)"
    using c assms(3) ids by (auto simp: claimBatch_def Let_def ob_get_touch)
  show ?thesis
  proof (cases "i \<in> ob_id ` set rows")
    case False
    with publish_rows_other [OF p False] get1 c show ?thesis by simp
  next
    case True
    then obtain row where row: "row \<in> set rows" "ob_id row = i" by auto
    then have "row = ob_claim_row now r"
      using claimBatch_rows(2) [OF d c row(1)] get1 True by simp
    moreover have "ob_get (ob_id row) (fst st') = Some (row_result env m now pa row)"
      using publish_rows_self [OF p claimBatch_rows(1) [OF d c] row(1)] claimBatch_rows(2) [OF d c] by simp
    ultimately show ?thesis using row(2) True c by simp
  qed
qed

section \<open>An exhausted row is dead-lettered\<close>

definition dead_lettered :: "string \<Rightarrow> dlq option \<Rightarrow> bool" where
  "dead_lettered eid dq \<longleftrightarrow> (case dq of None \<Rightarrow> False | Some q \<Rightarrow> eid \<in> dl_message_id ` set (dl_rows q))"

lemma dl_insert_rows: "set (dl_rows (snd (dl_insert e now q))) \<supseteq> set (dl_rows q)"
    "e_messageId e \<in> dl_message_id ` set (dl_rows (snd (dl_insert e now q)))"
  by (auto simp: dl_insert_def)

lemma publish_row_keeps_dead: "dead_lettered eid (snd st) \<Longrightarrow> dead_lettered eid (snd (snd (publish_row env m now pa row st)))"
  by (cases st) (auto simp: publish_row_def publish_failed_def dead_lettered_def dl_insert_def Let_def split: option.splits)

lemma publish_row_keeps_dlq: "snd st \<noteq> None \<Longrightarrow> snd (snd (publish_row env m now pa row st)) \<noteq> None"
  by (cases st) (auto simp: publish_row_def publish_failed_def Let_def split: option.splits)

lemma publish_row_dead_letters:
  assumes "\<not> delivered env pa row" "m \<le> ob_attempts row + 1" "\<not> dlq_insert_fails env (ob_id row)" "snd st \<noteq> None"
  shows "dead_lettered (ob_event_id row) (snd (snd (publish_row env m now pa row st)))"
  using assms
  by (cases st) (auto simp: publish_row_def publish_failed_def delivered_def dead_lettered_def dl_insert_def Let_def split: option.splits)

lemma publish_rows_dead:
  assumes "publish_rows env m now pa rows a b st = (x, y, st')" "snd st \<noteq> None"
  shows "(dead_lettered eid (snd st) \<longrightarrow> dead_lettered eid (snd st'))
    \<and> (\<forall>row \<in> set rows. ob_event_id row = eid \<and> \<not> delivered env pa row \<and> m \<le> ob_attempts row + 1
         \<and> \<not> dlq_insert_fails env (ob_id row) \<longrightarrow> dead_lettered eid (snd st'))"
  using assms
proof (induction rows arbitrary: a b st)
  case (Cons r0 rows)
  obtain d st1 where p: "publish_row env m now pa r0 st = (d, st1)" by (metis surj_pair)
  obtain a' b' where rest: "publish_rows env m now pa rows a' b' st1 = (x, y, st')"
    using Cons.prems(1) p by auto
  have dq: "snd st1 \<noteq> None" using publish_row_keeps_dlq [OF Cons.prems(2)] p by (metis snd_conv)
  have keep: "dead_lettered eid (snd st) \<longrightarrow> dead_lettered eid (snd st1)"
    using publish_row_keeps_dead p by (metis snd_conv)
  have first: "dead_lettered eid (snd st1)"
    if "ob_event_id r0 = eid" "\<not> delivered env pa r0" "m \<le> ob_attempts r0 + 1" "\<not> dlq_insert_fails env (ob_id r0)"
    using publish_row_dead_letters [OF that(2-4) Cons.prems(2), of now] that(1) p by simp
  from Cons.IH [OF rest dq] keep first show ?case by auto
qed simp

text \<open>
  Where a row stands after a cycle: still in the queue, published (and then the bus took it), or
  failed and in the dead-letter queue.
\<close>

definition accounted :: "ob_env \<Rightarrow> string \<Rightarrow> outbox_row \<Rightarrow> outbox_row \<Rightarrow> dlq option \<Rightarrow> bool" where
  "accounted env pa r r' dq \<longleftrightarrow>
     ob_id r' = ob_id r \<and> ob_event_id r' = ob_event_id r \<and> ob_payload r' = ob_payload r \<and>
     (case ob_status r' of
        Ob_pending \<Rightarrow> True
      | Ob_claimed \<Rightarrow> True
      | Ob_published \<Rightarrow> pub_error env (ob_id r) (publish_record pa r) = None
      | Ob_failed \<Rightarrow> dead_lettered (ob_event_id r) dq)"

lemma publish_record_claimed [simp]: "publish_record pa (ob_claim_row now r) = publish_record pa r"
  by (simp add: publish_record_def)

lemma pollOutboxOnce_accounted:
  assumes "ob_ok m ob" "\<not> cf" "ob_get i ob = Some r" "ob_status r \<in> {Ob_pending, Ob_claimed}"
    "\<forall>j. \<not> dlq_insert_fails env j"
    "pollOutboxOnce env m locked n lease cf now pa (ob, Some q) = (cy, ob', dq')"
  shows "\<exists>r'. ob_get i ob' = Some r' \<and> accounted env pa r r' dq'"
proof -
  obtain rows ob1 where c: "claimBatch locked n lease now ob = (rows, ob1)" by force
  obtain x y where p: "publish_rows env m now pa rows 0 0 (ob1, Some q) = (x, y, ob', dq')"
    using assms(2,6) c by (auto simp: pollOutboxOnce_def split: prod.splits)
  have rid: "ob_id r = i" using assms(3) by (auto simp: ob_get_def find_Some_iff)
  from pollOutboxOnce_row [of m "(ob, Some q)" cf i r env locked n lease now pa cy "(ob', dq')"] assms(1-3,6) c
  consider "ob_get i ob' = Some r"
    | "ob_get i ob' = Some (row_result env m now pa (ob_claim_row now r))" "i \<in> ob_id ` set rows" by auto
  then show ?thesis
  proof cases
    case 1
    with assms(4) show ?thesis by (auto simp: accounted_def)
  next
    case 2
    let ?r = "ob_claim_row now r"
    obtain row where row: "row \<in> set rows" "ob_id row = i" using 2(2) by auto
    have d: "distinct (map ob_id (ob_rows ob))" using assms(1) by (simp add: ob_ok_def)
    have "ob_get i ob1 = Some ?r"
      using c assms(3) claimBatch_ids [OF c] 2(2) by (auto simp: claimBatch_def Let_def ob_get_touch)
    then have "row = ?r" using claimBatch_rows(2) [OF d c row(1)] row(2) by simp
    then have "?r \<in> set rows" using row(1) by simp
    with publish_rows_dead [OF p, of "ob_event_id r"] assms(5)
    have "\<not> delivered env pa ?r \<longrightarrow> m \<le> ob_attempts r + 1 \<longrightarrow> dead_lettered (ob_event_id r) dq'" by fastforce
    with 2(1) show ?thesis
      by (auto simp: row_result_def accounted_def delivered_def Let_def ob_publish_row_def ob_fail_row_def rid [symmetric]
          ob_claim_row_def publish_record_def split: option.splits)
  qed
qed

end
