(* ===== verification/MultiSigner.thy ===== *)
theory MultiSigner
  imports JsPrelude
begin

text \<open>
  Threshold co-signing: \<open>src/multi-signer.js\<close>. The state is the engine's \<open>pending\<close> map; the
  clock is an argument, and the co-signer endpoints' replies are, with their arrival order.
  A signer's map entry keeps its place when the signer signs again, as in the source.
\<close>

section \<open>Envelopes\<close>

datatype env_status = Es_pending | Es_complete | Es_expired

record envelope =
  en_id :: string
  en_xdr :: string
  en_threshold :: int
  en_required :: "string list option"
  en_sigs :: "(string, string) jsmap"
  en_created :: int
  en_expires :: int
  en_status :: env_status

type_synonym pending = "(string, envelope) jsmap"

datatype ms_error =
    Bad_threshold | No_id | No_xdr | Bad_required | Threshold_exceeds | Unknown_envelope | Expired
  | No_signer | No_signature | Not_authorized | Short

record snapshot =
  sn_envelope :: envelope
  sn_collected :: nat
  sn_complete :: bool

definition snap :: "envelope \<Rightarrow> snapshot" where
  "snap e = \<lparr>sn_envelope = e, sn_collected = length (en_sigs e),
     sn_complete = (int (length (en_sigs e)) \<ge> en_threshold e)\<rparr>"

text \<open>The engine's constructor: the default threshold must be positive.\<close>

definition createMultiSignerEngine :: "int \<Rightarrow> ms_error + pending" where
  "createMultiSignerEngine threshold = (if threshold < 1 then Inl Bad_threshold else Inr [])"

definition createEnvelope ::
  "string \<Rightarrow> string \<Rightarrow> int \<Rightarrow> string list option \<Rightarrow> int \<Rightarrow> int \<Rightarrow> pending \<Rightarrow> (ms_error + snapshot) \<times> pending" where
  "createEnvelope i xdr t required ttl now p =
     (if i = [] then (Inl No_id, p)
      else if xdr = [] then (Inl No_xdr, p)
      else if t < 1 then (Inl Bad_threshold, p)
      else if required = Some [] then (Inl Bad_required, p)
      else if (case required of None \<Rightarrow> False | Some rs \<Rightarrow> t > int (length rs)) then (Inl Threshold_exceeds, p)
      else (let e = \<lparr>en_id = i, en_xdr = xdr, en_threshold = t, en_required = required, en_sigs = [],
                     en_created = now, en_expires = now + ttl, en_status = Es_pending\<rparr>
            in (Inr (snap e), jm_set i e p)))"

definition getEnvelope :: "string \<Rightarrow> pending \<Rightarrow> snapshot option" where
  "getEnvelope i p = map_option snap (jm_get p i)"

definition past_deadline :: "int \<Rightarrow> envelope \<Rightarrow> bool" where
  "past_deadline now e \<longleftrightarrow> en_status e = Es_expired \<or> now > en_expires e"

definition expire :: "envelope \<Rightarrow> envelope" where
  "expire e = e\<lparr>en_status := Es_expired\<rparr>"

definition signed :: "string \<Rightarrow> string \<Rightarrow> envelope \<Rightarrow> envelope" where
  "signed signer signature e =
     (let sigs = jm_set signer signature (en_sigs e) in
      e\<lparr>en_sigs := sigs,
        en_status := (if int (length sigs) \<ge> en_threshold e then Es_complete else en_status e)\<rparr>)"

text \<open>\<open>assertLive\<close> marks the envelope before it throws.\<close>

definition addSignature ::
  "string \<Rightarrow> string \<Rightarrow> string \<Rightarrow> int \<Rightarrow> pending \<Rightarrow> (ms_error + snapshot) \<times> pending" where
  "addSignature i signer signature now p =
     (case jm_get p i of
        None \<Rightarrow> (Inl Unknown_envelope, p)
      | Some e \<Rightarrow>
          if past_deadline now e then (Inl Expired, jm_set i (expire e) p)
          else if signer = [] then (Inl No_signer, p)
          else if signature = [] then (Inl No_signature, p)
          else if (case en_required e of None \<Rightarrow> False | Some rs \<Rightarrow> signer \<notin> set rs) then (Inl Not_authorized, p)
          else (let e' = signed signer signature e in (Inr (snap e'), jm_set i e' p)))"

definition isComplete :: "string \<Rightarrow> int \<Rightarrow> pending \<Rightarrow> bool \<times> pending" where
  "isComplete i now p =
     (case jm_get p i of
        None \<Rightarrow> (False, p)
      | Some e \<Rightarrow>
          if past_deadline now e then (False, jm_set i (expire e) p)
          else (int (length (en_sigs e)) \<ge> en_threshold e, p))"

record assembled =
  as_id :: string
  as_xdr :: string
  as_threshold :: int
  as_sigs :: "(string \<times> string) list"

definition assembleEnvelope :: "string \<Rightarrow> int \<Rightarrow> pending \<Rightarrow> (ms_error + assembled) \<times> pending" where
  "assembleEnvelope i now p =
     (case jm_get p i of
        None \<Rightarrow> (Inl Unknown_envelope, p)
      | Some e \<Rightarrow>
          if past_deadline now e then (Inl Expired, jm_set i (expire e) p)
          else if int (length (en_sigs e)) < en_threshold e then (Inl Short, p)
          else (Inr \<lparr>as_id = en_id e, as_xdr = en_xdr e, as_threshold = en_threshold e,
                     as_sigs = js_sort_by fst (en_sigs e)\<rparr>,
                jm_set i (e\<lparr>en_status := Es_complete\<rparr>) p))"

definition purge_one :: "int \<Rightarrow> envelope \<Rightarrow> envelope" where
  "purge_one now e = (if en_status e = Es_pending \<and> now > en_expires e then expire e else e)"

definition purgeExpired :: "int \<Rightarrow> pending \<Rightarrow> nat \<times> pending" where
  "purgeExpired now p =
     (length (filter (\<lambda>(_, e). en_status e = Es_pending \<and> now > en_expires e) p),
      map (\<lambda>(i, e). (i, purge_one now e)) p)"

definition listPending :: "int \<Rightarrow> pending \<Rightarrow> snapshot list \<times> pending" where
  "listPending now p =
     (let p' = snd (purgeExpired now p)
      in (map snap (filter (\<lambda>e. en_status e = Es_pending) (jm_values p')), p'))"

text \<open>
  \<open>requestSignatures\<close>: what came back from each endpoint, in arrival order, with the time.
\<close>

datatype cosigner_reply = Http_error int | Reply "string option" "string option" | Fetch_failed

datatype cosigner_result = Collected string string nat | Failed_at string

fun truthy_str :: "string option \<Rightarrow> bool" where
  "truthy_str None = False"
| "truthy_str (Some s) = (s \<noteq> [])"

definition take_reply :: "string \<Rightarrow> string \<Rightarrow> cosigner_reply \<Rightarrow> int \<Rightarrow> pending \<Rightarrow> cosigner_result \<times> pending" where
  "take_reply i endpoint reply now p =
     (case reply of
        Http_error _ \<Rightarrow> (Failed_at endpoint, p)
      | Fetch_failed \<Rightarrow> (Failed_at endpoint, p)
      | Reply signer signature \<Rightarrow>
          if \<not> truthy_str signer \<or> \<not> truthy_str signature then (Failed_at endpoint, p)
          else (case addSignature i (the signer) (the signature) now p of
                  (Inl _, p') \<Rightarrow> (Failed_at endpoint, p')
                | (Inr s, p') \<Rightarrow> (Collected endpoint (the signer) (sn_collected s), p')))"

fun take_replies ::
  "string \<Rightarrow> (string \<times> cosigner_reply \<times> int) list \<Rightarrow> pending \<Rightarrow> cosigner_result list \<times> pending" where
  "take_replies i [] p = ([], p)"
| "take_replies i ((endpoint, reply, now) # rs) p =
     (let (r, p1) = take_reply i endpoint reply now p; (rest, p2) = take_replies i rs p1 in (r # rest, p2))"

definition requestSignatures ::
  "string \<Rightarrow> int \<Rightarrow> (string \<times> cosigner_reply \<times> int) list \<Rightarrow> pending \<Rightarrow> (ms_error + cosigner_result list) \<times> pending" where
  "requestSignatures i now replies p =
     (case jm_get p i of
        None \<Rightarrow> (Inl Unknown_envelope, p)
      | Some e \<Rightarrow>
          if past_deadline now e then (Inl Expired, jm_set i (expire e) p)
          else (case take_replies i replies p of (rs, p') \<Rightarrow> (Inr rs, p')))"

section \<open>Every envelope is well formed\<close>

text \<open>
  Distinct signers, all authorised; an envelope marked complete has its threshold, one still
  pending does not.
\<close>

definition env_ok :: "envelope \<Rightarrow> bool" where
  "env_ok e \<longleftrightarrow> jm_wf (en_sigs e) \<and> 1 \<le> en_threshold e
     \<and> (\<forall>rs. en_required e = Some rs \<longrightarrow> fst ` set (en_sigs e) \<subseteq> set rs)
     \<and> (en_status e = Es_complete \<longrightarrow> en_threshold e \<le> int (length (en_sigs e)))
     \<and> (en_status e = Es_pending \<longrightarrow> int (length (en_sigs e)) < en_threshold e)"

definition pending_ok :: "pending \<Rightarrow> bool" where
  "pending_ok p \<longleftrightarrow> jm_wf p \<and> (\<forall>(i, e) \<in> set p. env_ok e)"

lemma pending_ok_get: "pending_ok p \<Longrightarrow> jm_get p i = Some e \<Longrightarrow> env_ok e"
  by (auto simp: pending_ok_def dest: map_of_SomeD)

lemma pending_ok_set:
  assumes "pending_ok p" "env_ok e"
  shows "pending_ok (jm_set i e p)"
  unfolding pending_ok_def
proof (intro conjI ballI)
  show "jm_wf (jm_set i e p)" using assms(1) by (simp add: pending_ok_def)
  fix x
  assume x: "x \<in> set (jm_set i e p)"
  obtain j f where jf: "x = (j, f)" by (metis surj_pair)
  with x assms(1) have "jm_get (jm_set i e p) j = Some f"
    by (auto simp: pending_ok_def intro: map_of_is_SomeI)
  with assms jf show "case x of (i, e) \<Rightarrow> env_ok e"
    by (auto simp: jm_get_set split: if_splits dest: pending_ok_get)
qed

lemma env_ok_expire: "env_ok e \<Longrightarrow> env_ok (expire e)"
  by (simp add: env_ok_def expire_def)

lemma fst_set_jm_set: "fst ` set (jm_set k v m) = insert k (fst ` set m)"
  by (induction m) auto

lemma env_ok_sign:
  assumes "env_ok e" "\<forall>rs. en_required e = Some rs \<longrightarrow> signer \<in> set rs"
  shows "env_ok (signed signer sg e)"
proof -
  have "length (en_sigs e) \<le> length (jm_set signer sg (en_sigs e))" by (simp add: length_jm_set)
  with assms show ?thesis by (auto simp: env_ok_def signed_def Let_def fst_set_jm_set)
qed

lemma addSignature_cases:
  obtains (refused) err where "addSignature i s sg now p = (Inl err, p)"
  | (late) e where "jm_get p i = Some e" "addSignature i s sg now p = (Inl Expired, jm_set i (expire e) p)"
  | (added) e where "jm_get p i = Some e" "\<not> past_deadline now e" "\<forall>rs. en_required e = Some rs \<longrightarrow> s \<in> set rs"
      "addSignature i s sg now p = (Inr (snap (signed s sg e)), jm_set i (signed s sg e) p)"
proof (cases "jm_get p i")
  case None
  then have "addSignature i s sg now p = (Inl Unknown_envelope, p)" by (simp add: addSignature_def)
  then show thesis by (rule refused)
next
  case (Some e)
  consider "past_deadline now e" | "\<not> past_deadline now e" "s = []" | "\<not> past_deadline now e" "s \<noteq> []" "sg = []"
    | rs where "\<not> past_deadline now e" "s \<noteq> []" "sg \<noteq> []" "en_required e = Some rs" "s \<notin> set rs"
    | "\<not> past_deadline now e" "s \<noteq> []" "sg \<noteq> []" "\<forall>rs. en_required e = Some rs \<longrightarrow> s \<in> set rs"
    by blast
  then show thesis
  proof cases
    case 1
    with Some show thesis by (intro late) (simp_all add: addSignature_def)
  next
    case 2
    with Some show thesis by (intro refused [of No_signer]) (simp add: addSignature_def)
  next
    case 3
    with Some show thesis by (intro refused [of No_signature]) (simp add: addSignature_def)
  next
    case 4
    with Some show thesis by (intro refused [of Not_authorized]) (simp add: addSignature_def)
  next
    case 5
    with Some show thesis by (intro added [of e]) (auto simp: addSignature_def Let_def split: option.splits)
  qed
qed

lemma take_reply_state:
  obtains "snd (take_reply i endpoint reply now p) = p"
  | s sg where "snd (take_reply i endpoint reply now p) = snd (addSignature i s sg now p)"
proof (cases reply)
  case (Reply signer signature)
  show thesis
  proof (cases "truthy_str signer \<and> truthy_str signature")
    case True
    with Reply have "snd (take_reply i endpoint reply now p) = snd (addSignature i (the signer) (the signature) now p)"
      by (auto simp: take_reply_def split: sum.splits prod.splits)
    then show thesis by (rule that(2))
  next
    case False
    with Reply have "snd (take_reply i endpoint reply now p) = p" by (auto simp: take_reply_def)
    then show thesis by (rule that(1))
  qed
qed (use that in \<open>simp_all add: take_reply_def\<close>)

lemma pending_ok_empty [simp]: "pending_ok []"
  by (simp add: pending_ok_def)

lemma createEnvelope_ok: "pending_ok p \<Longrightarrow> pending_ok (snd (createEnvelope i xdr t req ttl now p))"
  by (auto simp: createEnvelope_def Let_def intro!: pending_ok_set simp: env_ok_def split: option.splits)

lemma addSignature_ok:
  assumes "pending_ok p"
  shows "pending_ok (snd (addSignature i s sg now p))"
proof (cases rule: addSignature_cases [of i s sg now p])
  case (late e)
  with assms show ?thesis by (simp add: pending_ok_set env_ok_expire pending_ok_get)
next
  case (added e)
  have "env_ok (signed s sg e)" by (rule env_ok_sign [OF pending_ok_get [OF assms added(1)] added(3)])
  with added(4) assms show ?thesis by (simp add: pending_ok_set)
qed (simp add: assms)

lemma isComplete_ok: "pending_ok p \<Longrightarrow> pending_ok (snd (isComplete i now p))"
  by (auto simp: isComplete_def intro!: pending_ok_set env_ok_expire dest: pending_ok_get split: option.splits)

lemma assembleEnvelope_ok:
  assumes "pending_ok p"
  shows "pending_ok (snd (assembleEnvelope i now p))"
proof (cases "jm_get p i")
  case (Some e)
  have "env_ok e" using pending_ok_get [OF assms Some] .
  then have "int (length (en_sigs e)) \<ge> en_threshold e \<Longrightarrow> env_ok (e\<lparr>en_status := Es_complete\<rparr>)"
    by (simp add: env_ok_def)
  with Some assms \<open>env_ok e\<close> show ?thesis
    by (auto simp: assembleEnvelope_def intro!: pending_ok_set env_ok_expire)
qed (simp add: assembleEnvelope_def assms)

lemma purgeExpired_ok: "pending_ok p \<Longrightarrow> pending_ok (snd (purgeExpired now p))"
proof -
  assume p: "pending_ok p"
  have keys: "map fst (map (\<lambda>(i, e). (i, purge_one now e)) q) = map fst q" for q :: pending by (induction q) auto
  have "env_ok e \<Longrightarrow> env_ok (purge_one now e)" for e by (simp add: purge_one_def env_ok_expire)
  with p show ?thesis unfolding pending_ok_def purgeExpired_def snd_conv keys by auto
qed

lemma take_reply_ok: "pending_ok p \<Longrightarrow> pending_ok (snd (take_reply i ep reply now p))"
  by (rule take_reply_state [of i ep reply now p]) (simp_all add: addSignature_ok)

lemma take_replies_ok: "pending_ok p \<Longrightarrow> pending_ok (snd (take_replies i rs p))"
proof (induction rs arbitrary: p)
  case (Cons r rs)
  obtain ep reply now where r: "r = (ep, reply, now)" by (metis surj_pair)
  show ?case
    using Cons.IH [OF take_reply_ok [OF Cons.prems]] by (simp add: r Let_def case_prod_unfold)
qed simp

lemma requestSignatures_ok: "pending_ok p \<Longrightarrow> pending_ok (snd (requestSignatures i now rs p))"
  using take_replies_ok [of p i rs]
  by (auto simp: requestSignatures_def intro!: pending_ok_set env_ok_expire dest: pending_ok_get split: option.splits prod.splits)

section \<open>What assembly promises\<close>

lemma assembleEnvelope_Inr:
  assumes "pending_ok p" "assembleEnvelope i now p = (Inr a, p')"
  shows "\<exists>e. jm_get p i = Some e \<and> now \<le> en_expires e \<and> as_xdr a = en_xdr e
    \<and> en_threshold e \<le> int (length (as_sigs a))
    \<and> distinct (map fst (as_sigs a)) \<and> sorted (map fst (as_sigs a))
    \<and> set (as_sigs a) = set (en_sigs e)
    \<and> (\<forall>rs. en_required e = Some rs \<longrightarrow> fst ` set (as_sigs a) \<subseteq> set rs)"
proof -
  obtain e where e: "jm_get p i = Some e" using assms(2) by (auto simp: assembleEnvelope_def split: option.splits)
  have ok: "env_ok e" by (rule pending_ok_get [OF assms(1) e])
  from e assms(2) have a: "a = \<lparr>as_id = en_id e, as_xdr = en_xdr e, as_threshold = en_threshold e, as_sigs = js_sort_by fst (en_sigs e)\<rparr>"
    "\<not> past_deadline now e" "en_threshold e \<le> int (length (en_sigs e))"
    by (auto simp: assembleEnvelope_def split: if_splits)
  with ok e show ?thesis
    by (auto simp: env_ok_def past_deadline_def sorted_js_sort_by)
qed

text \<open>Once the deadline has passed the envelope never assembles, whatever is done meanwhile.\<close>

lemma assembleEnvelope_expired:
  assumes "jm_get p i = Some e" "en_expires e < now"
  shows "fst (assembleEnvelope i now p) = Inl Expired"
  using assms by (simp add: assembleEnvelope_def past_deadline_def)

text \<open>What an envelope pins stays pinned.\<close>

definition same_terms :: "envelope \<Rightarrow> envelope \<Rightarrow> bool" where
  "same_terms e e' \<longleftrightarrow> en_id e = en_id e' \<and> en_xdr e = en_xdr e' \<and> en_threshold e = en_threshold e'
     \<and> en_required e = en_required e' \<and> en_created e = en_created e' \<and> en_expires e = en_expires e'"

definition keeps_terms :: "pending \<Rightarrow> pending \<Rightarrow> bool" where
  "keeps_terms p p' \<longleftrightarrow> (\<forall>i e. jm_get p i = Some e \<longrightarrow> (\<exists>e'. jm_get p' i = Some e' \<and> same_terms e e'
      \<and> fst ` set (en_sigs e) \<subseteq> fst ` set (en_sigs e')))"

lemma keeps_terms_refl [simp]: "keeps_terms p p"
  by (simp add: keeps_terms_def same_terms_def)

lemma keeps_terms_trans:
  assumes "keeps_terms p q" "keeps_terms q r"
  shows "keeps_terms p r"
  unfolding keeps_terms_def
proof (intro allI impI)
  fix i e
  assume "jm_get p i = Some e"
  with assms(1) obtain e1 where e1: "jm_get q i = Some e1" "same_terms e e1" "fst ` set (en_sigs e) \<subseteq> fst ` set (en_sigs e1)"
    unfolding keeps_terms_def by blast
  with assms(2) obtain e2 where e2: "jm_get r i = Some e2" "same_terms e1 e2" "fst ` set (en_sigs e1) \<subseteq> fst ` set (en_sigs e2)"
    unfolding keeps_terms_def by blast
  have "same_terms e e2" using e1(2) e2(2) by (simp add: same_terms_def)
  with e1(3) e2(1,3) show "\<exists>e'. jm_get r i = Some e' \<and> same_terms e e' \<and> fst ` set (en_sigs e) \<subseteq> fst ` set (en_sigs e')"
    by blast
qed

lemma keeps_terms_set:
  assumes "jm_get p i = Some e" "same_terms e e'" "fst ` set (en_sigs e) \<subseteq> fst ` set (en_sigs e')"
  shows "keeps_terms p (jm_set i e' p)"
  using assms by (auto simp: keeps_terms_def jm_get_set same_terms_def)

lemma addSignature_keeps: "keeps_terms p (snd (addSignature i s sg now p))"
proof (cases rule: addSignature_cases [of i s sg now p])
  case (late e)
  then show ?thesis by (simp add: keeps_terms_set same_terms_def expire_def)
next
  case (added e)
  have "same_terms e (signed s sg e)" "fst ` set (en_sigs e) \<subseteq> fst ` set (en_sigs (signed s sg e))"
    by (auto simp: same_terms_def signed_def Let_def fst_set_jm_set)
  with added(1,4) show ?thesis by (simp add: keeps_terms_set)
qed simp

lemma assembleEnvelope_keeps: "keeps_terms p (snd (assembleEnvelope i now p))"
  by (auto simp: assembleEnvelope_def expire_def same_terms_def intro!: keeps_terms_set split: option.splits)

lemma isComplete_keeps: "keeps_terms p (snd (isComplete i now p))"
  by (auto simp: isComplete_def expire_def same_terms_def intro!: keeps_terms_set split: option.splits)

lemma take_reply_keeps: "keeps_terms p (snd (take_reply i ep reply now p))"
  by (rule take_reply_state [of i ep reply now p]) (simp_all add: addSignature_keeps)

lemma take_replies_keeps: "keeps_terms p (snd (take_replies i rs p))"
proof (induction rs arbitrary: p)
  case (Cons r rs)
  obtain ep reply now where r: "r = (ep, reply, now)" by (metis surj_pair)
  show ?case
    using keeps_terms_trans [OF take_reply_keeps Cons.IH] by (simp add: r Let_def case_prod_unfold)
qed simp

text \<open>A signer counts once: signing again replaces the signature and collects nothing more.\<close>

lemma addSignature_again:
  assumes "jm_get p i = Some e" "jm_get (en_sigs e) s = Some old" "addSignature i s sg now p = (Inr sn, p')"
  shows "sn_collected sn = length (en_sigs e) \<and> jm_get (en_sigs (sn_envelope sn)) s = Some sg"
proof (cases rule: addSignature_cases [of i s sg now p])
  case (added e')
  with assms show ?thesis by (auto simp: snap_def signed_def Let_def length_jm_set jm_get_set)
qed (use assms in simp_all)

text \<open>Opening an envelope again under its id drops the signatures it had collected.\<close>

lemma createEnvelope_restarts:
  assumes "createEnvelope i xdr t req ttl now p = (Inr sn, p')"
  shows "\<exists>e. jm_get p' i = Some e \<and> en_sigs e = []"
  using assms by (auto simp: createEnvelope_def Let_def jm_get_set split: if_splits option.splits)

section \<open>Runs of the engine\<close>

text \<open>The operations a client drives the engine with, each with its time.\<close>

datatype ms_op =
    Ms_create string string int "string list option" int int
  | Ms_add string string string int
  | Ms_assemble string int
  | Ms_is_complete string int
  | Ms_purge int
  | Ms_list int
  | Ms_request string int "(string \<times> cosigner_reply \<times> int) list"

fun ms_apply :: "ms_op \<Rightarrow> pending \<Rightarrow> pending" where
  "ms_apply (Ms_create i xdr t req ttl now) p = snd (createEnvelope i xdr t req ttl now p)"
| "ms_apply (Ms_add i s sg now) p = snd (addSignature i s sg now p)"
| "ms_apply (Ms_assemble i now) p = snd (assembleEnvelope i now p)"
| "ms_apply (Ms_is_complete i now) p = snd (isComplete i now p)"
| "ms_apply (Ms_purge now) p = snd (purgeExpired now p)"
| "ms_apply (Ms_list now) p = snd (listPending now p)"
| "ms_apply (Ms_request i now rs) p = snd (requestSignatures i now rs p)"

text \<open>No operation of the run creates the envelope anew.\<close>

definition not_recreated :: "string \<Rightarrow> ms_op list \<Rightarrow> bool" where
  "not_recreated i xs \<longleftrightarrow> list_all (\<lambda>x. case x of Ms_create j _ _ _ _ _ \<Rightarrow> j \<noteq> i | _ \<Rightarrow> True) xs"

lemma ms_apply_ok: "pending_ok p \<Longrightarrow> pending_ok (ms_apply x p)"
  by (cases x) (simp_all add: createEnvelope_ok addSignature_ok assembleEnvelope_ok isComplete_ok purgeExpired_ok
      listPending_def Let_def requestSignatures_ok)

lemma ms_run_ok: "pending_ok p \<Longrightarrow> pending_ok (fold ms_apply xs p)"
  by (induction xs arbitrary: p) (simp_all add: ms_apply_ok)

lemma purge_get: "jm_get (snd (purgeExpired now p)) i = map_option (purge_one now) (jm_get p i)"
  by (induction p) (auto simp: purgeExpired_def)

lemma purgeExpired_keeps: "keeps_terms p (snd (purgeExpired now p))"
  by (auto simp: keeps_terms_def purge_get purge_one_def expire_def same_terms_def)

lemma requestSignatures_keeps: "keeps_terms p (snd (requestSignatures i now rs p))"
proof (cases "jm_get p i")
  case (Some e)
  show ?thesis
  proof (cases "past_deadline now e")
    case True
    with Some show ?thesis by (simp add: requestSignatures_def keeps_terms_set same_terms_def expire_def)
  next
    case False
    obtain res q where r: "take_replies i rs p = (res, q)" by (metis surj_pair)
    with take_replies_keeps [of p i rs] Some False show ?thesis by (simp add: requestSignatures_def)
  qed
qed (simp add: requestSignatures_def)

definition envelope_kept :: "string \<Rightarrow> pending \<Rightarrow> pending \<Rightarrow> bool" where
  "envelope_kept i p p' \<longleftrightarrow> (\<forall>e. jm_get p i = Some e \<longrightarrow> (\<exists>e'. jm_get p' i = Some e' \<and> same_terms e e'
      \<and> fst ` set (en_sigs e) \<subseteq> fst ` set (en_sigs e')))"

lemma kept_if_terms: "keeps_terms p p' \<Longrightarrow> envelope_kept i p p'"
  by (simp add: keeps_terms_def envelope_kept_def)

lemma same_terms_trans: "same_terms a b \<Longrightarrow> same_terms b c \<Longrightarrow> same_terms a c"
  by (simp add: same_terms_def)

lemma kept_trans: "envelope_kept i p q \<Longrightarrow> envelope_kept i q r \<Longrightarrow> envelope_kept i p r"
  unfolding envelope_kept_def using same_terms_trans by (meson subset_trans)

lemma create_keeps_other: "j \<noteq> i \<Longrightarrow> envelope_kept i p (snd (createEnvelope j xdr t req ttl now p))"
  by (auto simp: createEnvelope_def Let_def envelope_kept_def same_terms_def jm_get_set split: option.splits)

lemma ms_apply_keeps:
  assumes "not_recreated i [x]"
  shows "envelope_kept i p (ms_apply x p)"
  using assms
  by (cases x) (simp_all add: not_recreated_def create_keeps_other kept_if_terms addSignature_keeps assembleEnvelope_keeps
      isComplete_keeps purgeExpired_keeps listPending_def Let_def requestSignatures_keeps)

lemma ms_run_keeps: "not_recreated i xs \<Longrightarrow> envelope_kept i p (fold ms_apply xs p)"
proof (induction xs arbitrary: p)
  case Nil
  show ?case by (auto simp: envelope_kept_def same_terms_def)
next
  case (Cons x xs)
  then have "not_recreated i [x]" "not_recreated i xs" by (simp_all add: not_recreated_def)
  with kept_trans [OF ms_apply_keeps Cons.IH] show ?case by simp
qed

end
