(* ===== verification/FailoverHealth.thy ===== *)
theory FailoverHealth
  imports JsPrelude
begin

text \<open>
  Regional failover: \<open>src/failover-health.js\<close>. The local region's status is a state machine
  driven by \<open>reportLocalHealth\<close>; the remote regions' status is a map filled by \<open>_check\<close>. The
  probe of a remote region is a parameter (\<open>None\<close>: it threw).
\<close>

section \<open>State\<close>

datatype region_status = Healthy | Degraded | Recovering

record region =
  rg_name :: string
  rg_priority :: int
  rg_url :: "string option"

record fo_config =
  fo_region :: string
  fo_regions :: "region list"
  fo_failure_threshold :: nat
  fo_recovery_threshold :: nat

record fo_state =
  fo_status :: region_status
  fo_failures :: nat
  fo_successes :: nat
  fo_remote :: "(string, bool \<times> int) jsmap"
  fo_closed :: bool

datatype fo_event = Recovered string | Degraded_event string | Remote_recovered string | Remote_degraded string

definition fo_init :: fo_state where
  "fo_init = \<lparr>fo_status = Healthy, fo_failures = 0, fo_successes = 0, fo_remote = [], fo_closed = False\<rparr>"

definition fo_stop :: "fo_state \<Rightarrow> fo_state" where
  "fo_stop st = st\<lparr>fo_closed := True\<rparr>"

section \<open>Operations\<close>

definition reportLocalHealth :: "fo_config \<Rightarrow> bool \<Rightarrow> fo_state \<Rightarrow> fo_event list \<times> fo_state" where
  "reportLocalHealth cfg healthy st =
     (if healthy then
        (let st1 = st\<lparr>fo_failures := 0\<rparr> in
         if fo_status st1 = Degraded \<or> fo_status st1 = Recovering then
           (let st2 = st1\<lparr>fo_successes := fo_successes st1 + 1\<rparr> in
            if fo_successes st2 \<ge> fo_recovery_threshold cfg
            then ([Recovered (fo_region cfg)], st2\<lparr>fo_status := Healthy, fo_successes := 0\<rparr>)
            else ([], st2\<lparr>fo_status := Recovering\<rparr>))
         else ([], st1))
      else
        (let st1 = st\<lparr>fo_successes := 0, fo_failures := fo_failures st + 1\<rparr> in
         if fo_status st1 = Recovering then ([Degraded_event (fo_region cfg)], st1\<lparr>fo_status := Degraded\<rparr>)
         else if fo_failures st1 \<ge> fo_failure_threshold cfg \<and> fo_status st1 = Healthy
         then ([Degraded_event (fo_region cfg)], st1\<lparr>fo_status := Degraded\<rparr>)
         else ([], st1)))"

fun check_loop ::
  "fo_config \<Rightarrow> (string \<Rightarrow> bool option) \<Rightarrow> int \<Rightarrow> region list \<Rightarrow> fo_state \<Rightarrow> fo_event list \<times> fo_state" where
  "check_loop cfg probe now [] st = ([], st)"
| "check_loop cfg probe now (r # rs) st =
     (if rg_name r = fo_region cfg then check_loop cfg probe now rs st
      else if (case rg_url r of None \<Rightarrow> True | Some u \<Rightarrow> u = []) then check_loop cfg probe now rs st
      else
        (let prev = jm_get (fo_remote st) (rg_name r);
             (evs, h) =
               (case probe (the (rg_url r)) of
                  None \<Rightarrow> ([], False)
                | Some healthy \<Rightarrow>
                    (case prev of
                       None \<Rightarrow> ([], healthy)
                     | Some (before, _) \<Rightarrow>
                         if \<not> before \<and> healthy then ([Remote_recovered (rg_name r)], healthy)
                         else if before \<and> \<not> healthy then ([Remote_degraded (rg_name r)], healthy)
                         else ([], healthy)));
             st1 = st\<lparr>fo_remote := jm_set (rg_name r) (h, now) (fo_remote st)\<rparr>;
             (evs2, st2) = check_loop cfg probe now rs st1
         in (evs @ evs2, st2)))"

definition fo_check :: "fo_config \<Rightarrow> (string \<Rightarrow> bool option) \<Rightarrow> int \<Rightarrow> fo_state \<Rightarrow> fo_event list \<times> fo_state" where
  "fo_check cfg probe now st = (if fo_closed st then ([], st) else check_loop cfg probe now (fo_regions cfg) st)"

definition healthy_remotes :: "fo_config \<Rightarrow> fo_state \<Rightarrow> region list" where
  "healthy_remotes cfg st =
     js_sort_by rg_priority
       (filter (\<lambda>r. map_option fst (jm_get (fo_remote st) (rg_name r)) \<noteq> Some False)
          (filter (\<lambda>r. rg_name r \<noteq> fo_region cfg) (fo_regions cfg)))"

definition getPreferredRegion :: "fo_config \<Rightarrow> fo_state \<Rightarrow> string" where
  "getPreferredRegion cfg st =
     (if fo_status st = Healthy then fo_region cfg
      else case healthy_remotes cfg st of [] \<Rightarrow> fo_region cfg | r # _ \<Rightarrow> rg_name r)"

record fo_report =
  rp_status :: region_status
  rp_failover :: bool
  rp_preferred :: string
  rp_remotes :: "(string \<times> (bool \<times> int) option \<times> int) list"

definition getState :: "fo_config \<Rightarrow> fo_state \<Rightarrow> fo_report" where
  "getState cfg st = \<lparr>rp_status = fo_status st,
     rp_failover = (fo_status st = Degraded \<or> fo_status st = Recovering),
     rp_preferred = getPreferredRegion cfg st,
     rp_remotes = map (\<lambda>r. (rg_name r, jm_get (fo_remote st) (rg_name r), rg_priority r))
                    (filter (\<lambda>r. rg_name r \<noteq> fo_region cfg) (fo_regions cfg))\<rparr>"

section \<open>Failover needs a run of failures, failback a run of successes\<close>

text \<open>The state after a sequence of reports, and the length of the run of equal reports it ends in.\<close>

fun after :: "fo_config \<Rightarrow> bool list \<Rightarrow> fo_state \<Rightarrow> fo_state" where
  "after cfg [] st = st"
| "after cfg (b # bs) st = after cfg bs (snd (reportLocalHealth cfg b st))"

lemma after_append: "after cfg (xs @ ys) st = after cfg ys (after cfg xs st)"
  by (induction xs arbitrary: st) simp_all

definition ends_in :: "bool \<Rightarrow> nat \<Rightarrow> bool list \<Rightarrow> bool" where
  "ends_in b n xs \<longleftrightarrow> n \<le> length (takeWhile (\<lambda>x. x = b) (rev xs))"

lemma ends_in_0 [simp]: "ends_in b 0 xs"
  by (simp add: ends_in_def)

lemma ends_in_mono: "ends_in b n xs \<Longrightarrow> m \<le> n \<Longrightarrow> ends_in b m xs"
  by (simp add: ends_in_def)

lemma ends_in_Suc: "ends_in b (Suc n) (xs @ [c]) \<longleftrightarrow> c = b \<and> ends_in b n xs"
  by (auto simp: ends_in_def)

definition fo_ok :: "fo_config \<Rightarrow> fo_state \<Rightarrow> bool" where
  "fo_ok cfg st \<longleftrightarrow> (fo_status st = Healthy \<longrightarrow> fo_failures st < fo_failure_threshold cfg \<and> fo_successes st = 0)
     \<and> (fo_status st = Degraded \<longrightarrow> fo_successes st = 0)
     \<and> (fo_status st = Recovering \<longrightarrow> fo_failures st = 0 \<and> 0 < fo_successes st \<and> fo_successes st < fo_recovery_threshold cfg)"

lemma fo_ok_init: "0 < fo_failure_threshold cfg \<Longrightarrow> fo_ok cfg fo_init"
  by (simp add: fo_ok_def fo_init_def)

lemma fo_ok_report:
  assumes "0 < fo_failure_threshold cfg" "fo_ok cfg st"
  shows "fo_ok cfg (snd (reportLocalHealth cfg b st))"
  using assms by (cases "fo_status st") (auto simp: fo_ok_def reportLocalHealth_def Let_def)

lemma fo_ok_after: "0 < fo_failure_threshold cfg \<Longrightarrow> fo_ok cfg st \<Longrightarrow> fo_ok cfg (after cfg bs st)"
  by (induction bs arbitrary: st) (simp_all add: fo_ok_report)

text \<open>The counters never exceed the run they stand for.\<close>

lemma counters_run:
  assumes "0 < fo_failure_threshold cfg"
  shows "ends_in False (fo_failures (after cfg bs fo_init)) bs \<and> ends_in True (fo_successes (after cfg bs fo_init)) bs"
proof (induction bs rule: rev_induct)
  case Nil
  show ?case by (simp add: fo_init_def)
next
  case (snoc b bs)
  have "fo_ok cfg (after cfg bs fo_init)" by (rule fo_ok_after [OF assms fo_ok_init [OF assms]])
  with snoc show ?case
    by (cases "fo_status (after cfg bs fo_init)"; cases b)
      (auto simp: after_append reportLocalHealth_def Let_def ends_in_Suc fo_ok_def)
qed

lemma degrades_after_run:
  assumes "0 < fo_failure_threshold cfg"
    "fo_status (after cfg bs fo_init) = Healthy" "fo_status (after cfg (bs @ [b]) fo_init) \<noteq> Healthy"
  shows "ends_in False (fo_failure_threshold cfg) (bs @ [b])"
proof -
  have "\<not> b" and f: "fo_failure_threshold cfg \<le> Suc (fo_failures (after cfg bs fo_init))"
    using assms by (auto simp: after_append reportLocalHealth_def Let_def split: if_splits)
  then have "ends_in False (Suc (fo_failures (after cfg bs fo_init))) (bs @ [b])"
    using counters_run [OF assms(1), of bs] by (simp add: ends_in_Suc)
  with f show ?thesis by (rule ends_in_mono [rotated])
qed

lemma recovers_after_run:
  assumes "0 < fo_failure_threshold cfg"
    "fo_status (after cfg bs fo_init) \<noteq> Healthy" "fo_status (after cfg (bs @ [b]) fo_init) = Healthy"
  shows "ends_in True (fo_recovery_threshold cfg) (bs @ [b])"
proof -
  have "b" and f: "fo_recovery_threshold cfg \<le> Suc (fo_successes (after cfg bs fo_init))"
    using assms(2,3) by (cases "fo_status (after cfg bs fo_init)";
      auto simp: after_append reportLocalHealth_def Let_def split: if_splits)+
  then have "ends_in True (Suc (fo_successes (after cfg bs fo_init))) (bs @ [b])"
    using counters_run [OF assms(1), of bs] by (simp add: ends_in_Suc)
  with f show ?thesis by (rule ends_in_mono [rotated])
qed

text \<open>And the runs suffice.\<close>

lemma failures_run:
  assumes "fo_status st = Healthy" "fo_failures st + n < fo_failure_threshold cfg"
  shows "fo_status (after cfg (replicate n False) st) = Healthy
    \<and> fo_failures (after cfg (replicate n False) st) = fo_failures st + n"
  using assms
proof (induction n arbitrary: st)
  case (Suc n)
  let ?s = "snd (reportLocalHealth cfg False st)"
  have "fo_status ?s = Healthy" "fo_failures ?s = Suc (fo_failures st)"
    using Suc.prems by (simp_all add: reportLocalHealth_def Let_def)
  with Suc show ?case by simp
qed simp

lemma failover_happens:
  assumes "fo_status st = Healthy" "fo_failures st = 0" "0 < fo_failure_threshold cfg"
  shows "fo_status (after cfg (replicate (fo_failure_threshold cfg) False) st) = Degraded"
proof -
  obtain n where n: "fo_failure_threshold cfg = Suc n" using assms(3) by (cases "fo_failure_threshold cfg") auto
  let ?s = "after cfg (replicate n False) st"
  have "fo_status ?s = Healthy" "fo_failures ?s = n" using failures_run [OF assms(1), of n cfg] assms(2) n by simp_all
  moreover have "replicate (fo_failure_threshold cfg) False = replicate n False @ [False]"
    by (simp add: n replicate_append_same)
  ultimately show ?thesis by (simp add: after_append reportLocalHealth_def Let_def n)
qed

lemma successes_run:
  assumes "fo_status st \<noteq> Healthy" "fo_successes st + n < fo_recovery_threshold cfg"
  shows "fo_status (after cfg (replicate n True) st) \<noteq> Healthy
    \<and> fo_successes (after cfg (replicate n True) st) = fo_successes st + n"
  using assms
proof (induction n arbitrary: st)
  case (Suc n)
  let ?s = "snd (reportLocalHealth cfg True st)"
  have "fo_status ?s \<noteq> Healthy" "fo_successes ?s = Suc (fo_successes st)"
    using Suc.prems by (cases "fo_status st"; simp add: reportLocalHealth_def Let_def)+
  with Suc show ?case by simp
qed simp

lemma failback_happens:
  assumes "fo_status st = Degraded" "fo_successes st = 0" "0 < fo_recovery_threshold cfg"
  shows "fo_status (after cfg (replicate (fo_recovery_threshold cfg) True) st) = Healthy"
proof -
  obtain n where n: "fo_recovery_threshold cfg = Suc n" using assms(3) by (cases "fo_recovery_threshold cfg") auto
  let ?s = "after cfg (replicate n True) st"
  have "fo_status ?s \<noteq> Healthy" "fo_successes ?s = n"
    using successes_run [of st n cfg] assms n by simp_all
  moreover have "replicate (fo_recovery_threshold cfg) True = replicate n True @ [True]"
    by (simp add: n replicate_append_same)
  ultimately show ?thesis
    by (cases "fo_status ?s") (simp_all add: after_append reportLocalHealth_def Let_def n)
qed

section \<open>The preferred region\<close>

lemma healthy_remotes_iff:
  "r \<in> set (healthy_remotes cfg st) \<longleftrightarrow> r \<in> set (fo_regions cfg) \<and> rg_name r \<noteq> fo_region cfg
     \<and> map_option fst (jm_get (fo_remote st) (rg_name r)) \<noteq> Some False"
  by (auto simp: healthy_remotes_def)

lemma preferred_local: "fo_status st = Healthy \<Longrightarrow> getPreferredRegion cfg st = fo_region cfg"
  by (simp add: getPreferredRegion_def)

lemma preferred_remote:
  assumes "fo_status st \<noteq> Healthy"
  shows "(getPreferredRegion cfg st = fo_region cfg \<and> healthy_remotes cfg st = [])
    \<or> (\<exists>r \<in> set (fo_regions cfg). getPreferredRegion cfg st = rg_name r \<and> rg_name r \<noteq> fo_region cfg
         \<and> map_option fst (jm_get (fo_remote st) (rg_name r)) \<noteq> Some False
         \<and> (\<forall>q \<in> set (healthy_remotes cfg st). rg_priority r \<le> rg_priority q))"
proof (cases "healthy_remotes cfg st")
  case Nil
  with assms show ?thesis by (simp add: getPreferredRegion_def)
next
  case (Cons r rs)
  have "sorted (map rg_priority (healthy_remotes cfg st))"
    by (simp add: healthy_remotes_def sorted_js_sort_by)
  with Cons have "\<forall>q \<in> set (healthy_remotes cfg st). rg_priority r \<le> rg_priority q" by auto
  moreover have "r \<in> set (healthy_remotes cfg st)" using Cons by simp
  moreover have "getPreferredRegion cfg st = rg_name r" using assms Cons by (simp add: getPreferredRegion_def)
  ultimately show ?thesis using healthy_remotes_iff [of r cfg st] by blast
qed

text \<open>A remote region is reported on by the last probe of it.\<close>

lemma check_loop_step:
  assumes "rg_name q \<noteq> fo_region cfg" "rg_url q = Some u" "u \<noteq> []"
  shows "snd (check_loop cfg probe now (q # rs) st)
    = snd (check_loop cfg probe now rs (st\<lparr>fo_remote := jm_set (rg_name q) (probe u = Some True, now) (fo_remote st)\<rparr>))"
  using assms by (cases "probe u") (auto simp: Let_def case_prod_unfold split: option.splits)

lemma check_loop_skip:
  assumes "rg_name q = fo_region cfg \<or> rg_url q = None \<or> rg_url q = Some []"
  shows "check_loop cfg probe now (q # rs) st = check_loop cfg probe now rs st"
  using assms by auto

declare check_loop.simps(2) [simp del]

lemma check_loop_status:
  assumes "n \<noteq> fo_region cfg" "u \<noteq> []" "\<forall>q \<in> set rs. rg_name q = n \<longrightarrow> rg_url q = Some u"
  shows "jm_get (fo_remote (snd (check_loop cfg probe now rs st))) n
    = (if n \<in> rg_name ` set rs then Some (probe u = Some True, now) else jm_get (fo_remote st) n)"
  using assms
proof (induction rs arbitrary: st)
  case (Cons q rs)
  show ?case
  proof (cases "rg_name q = fo_region cfg \<or> rg_url q = None \<or> rg_url q = Some []")
    case True
    with Cons show ?thesis by (auto simp: check_loop_skip [OF True])
  next
    case False
    then obtain v where v: "rg_url q = Some v" "v \<noteq> []" "rg_name q \<noteq> fo_region cfg" by auto
    show ?thesis
      unfolding check_loop_step [OF v(3,1,2)] using Cons v by (auto simp: jm_get_set)
  qed
qed simp

lemma fo_check_status:
  assumes "\<not> fo_closed st" "r \<in> set (fo_regions cfg)" "rg_name r \<noteq> fo_region cfg" "rg_url r = Some u" "u \<noteq> []"
    "distinct (map rg_name (fo_regions cfg))"
  shows "jm_get (fo_remote (snd (fo_check cfg probe now st))) (rg_name r) = Some (probe u = Some True, now)"
proof -
  have "\<forall>q \<in> set (fo_regions cfg). rg_name q = rg_name r \<longrightarrow> rg_url q = Some u"
    using assms(2,4,6) by (metis distinct_map inj_onD)
  from check_loop_status [OF assms(3,5) this] assms(1,2) show ?thesis by (simp add: fo_check_def)
qed

section \<open>The counters are the runs\<close>

lemma counters_exact:
  assumes "0 < fo_failure_threshold cfg"
  shows "(fo_status (after cfg bs fo_init) = Healthy \<longrightarrow>
       fo_failures (after cfg bs fo_init) = length (takeWhile (\<lambda>x. x = False) (rev bs)))
    \<and> (fo_status (after cfg bs fo_init) \<noteq> Healthy \<longrightarrow>
       fo_successes (after cfg bs fo_init) = length (takeWhile (\<lambda>x. x = True) (rev bs)))"
proof (induction bs rule: rev_induct)
  case Nil
  show ?case by (simp add: fo_init_def)
next
  case (snoc b bs)
  have "fo_ok cfg (after cfg bs fo_init)" using fo_ok_after fo_ok_init assms by blast
  with snoc show ?case
    by (cases b; cases "fo_status (after cfg bs fo_init)") (auto simp: after_append reportLocalHealth_def Let_def fo_ok_def)
qed

text \<open>So the status turns exactly at the end of a run as long as the threshold.\<close>

lemma status_turns:
  assumes "0 < fo_failure_threshold cfg" "0 < fo_recovery_threshold cfg"
  shows "fo_status (after cfg (bs @ [b]) fo_init) = Healthy \<longleftrightarrow>
    (if fo_status (after cfg bs fo_init) = Healthy then \<not> ends_in False (fo_failure_threshold cfg) (bs @ [b])
     else ends_in True (fo_recovery_threshold cfg) (bs @ [b]))"
  using counters_exact [OF assms(1), of bs] assms
  by (cases b; cases "fo_status (after cfg bs fo_init)")
    (auto simp: after_append reportLocalHealth_def Let_def ends_in_def not_le less_Suc_eq_le)

end
