(* ===== verification/RpcRetry.thy ===== *)
theory RpcRetry
  imports JsPrelude
begin

text \<open>
  The retrying, breaker-aware fetch: \<open>src/rpc-retry.js\<close>. The state is the breaker of each host.
  What the network does is an environment: the outcome of each dial and the clock readings
  around it. Aborting a dial at the deadline is one of its outcomes; log and observability
  callbacks other than \<open>onRetry\<close> are not modelled.
\<close>

section \<open>Backoff\<close>

datatype jitter = No_jitter | Jitter | Jitter_max int

record backoff_options =
  bo_base :: int
  bo_max :: int
  bo_jitter :: jitter
  bo_max_jitter :: int

text \<open>\<open>floor_random b\<close> is \<open>Math.floor(random() * b)\<close>.\<close>

definition exp_delay :: "backoff_options \<Rightarrow> int \<Rightarrow> int" where
  "exp_delay o' attempt = min (bo_max o') (bo_base o' * 2 ^ nat (max 1 attempt - 1))"

definition jitter_bound :: "backoff_options \<Rightarrow> int \<Rightarrow> int" where
  "jitter_bound o' expDelay =
     (case bo_jitter o' of No_jitter \<Rightarrow> 0 | Jitter \<Rightarrow> min expDelay (bo_max_jitter o') | Jitter_max n \<Rightarrow> n)"

definition calculateBackoff :: "(int \<Rightarrow> int) \<Rightarrow> backoff_options \<Rightarrow> int \<Rightarrow> int" where
  "calculateBackoff floor_random o' attempt =
     (let expDelay = exp_delay o' attempt in
      if bo_jitter o' = No_jitter \<or> bo_jitter o' = Jitter_max 0 then expDelay
      else (let b = jitter_bound o' expDelay; v = (if b > 0 then floor_random b else 0)
            in min (bo_max o') (expDelay + v)))"

section \<open>The breaker of a host\<close>

datatype breaker_state = Closed | Open | Half_open

record breaker =
  br_state :: breaker_state
  br_failures :: nat
  br_opened_at :: int
  br_probe :: bool

definition new_breaker :: breaker where
  "new_breaker = \<lparr>br_state = Closed, br_failures = 0, br_opened_at = 0, br_probe = False\<rparr>"

type_synonym breakers = "(string, breaker) jsmap"

definition breakerFor :: "string \<Rightarrow> breakers \<Rightarrow> breaker \<times> breakers" where
  "breakerFor host bs =
     (case jm_get bs host of Some b \<Rightarrow> (b, bs) | None \<Rightarrow> (new_breaker, jm_set host new_breaker bs))"

definition recordFailure :: "nat \<Rightarrow> int \<Rightarrow> breaker \<Rightarrow> breaker" where
  "recordFailure threshold now b =
     (let b1 = b\<lparr>br_failures := br_failures b + 1\<rparr> in
      if br_state b1 = Half_open \<or> br_failures b1 \<ge> threshold then
        if br_state b1 \<noteq> Open then b1\<lparr>br_opened_at := now, br_state := Open\<rparr> else b1
      else b1)"

definition recordSuccess :: "breaker \<Rightarrow> breaker" where
  "recordSuccess b = b\<lparr>br_state := Closed, br_failures := 0, br_probe := False\<rparr>"

definition gate :: "int \<Rightarrow> int \<Rightarrow> breaker \<Rightarrow> bool \<times> breaker" where
  "gate cooldownMs now b =
     (if br_state b = Open then
        if now - br_opened_at b < cooldownMs then (False, b)
        else (True, b\<lparr>br_state := Half_open, br_probe := True\<rparr>)
      else if br_state b = Half_open \<and> br_probe b then (False, b)
      else (True, b))"

section \<open>The retrying fetch\<close>

definition RETRYABLE :: "string list" where
  "RETRYABLE = [''ETIMEDOUT'', ''ECONNRESET'', ''ECONNREFUSED'', ''EAI_AGAIN'',
     ''UND_ERR_CONNECT_TIMEOUT'', ''UND_ERR_SOCKET'']"

datatype 'r dial = Response 'r | Fails "string option"

datatype fetch_error = Breaker_open string | Dial_failed "string option" | No_attempt

record retry_config =
  rc_attempts :: nat
  rc_backoff :: backoff_options
  rc_deadline_ms :: "int option"
  rc_threshold :: nat
  rc_cooldown :: int

text \<open>
  One call's environment: the n-th dial's outcome, the clock before it and after it fails, and
  the draw for the pause that follows.
\<close>

record 'r dial_env =
  de_dial :: "nat \<Rightarrow> 'r dial"
  de_before :: "nat \<Rightarrow> int"
  de_after :: "nat \<Rightarrow> int"
  de_random :: "nat \<Rightarrow> int \<Rightarrow> int"

definition past :: "int \<Rightarrow> int option \<Rightarrow> bool" where
  "past t deadline = (case deadline of None \<Rightarrow> False | Some d \<Rightarrow> t \<ge> d)"

definition beyond :: "int \<Rightarrow> int option \<Rightarrow> bool" where
  "beyond t deadline = (case deadline of None \<Rightarrow> False | Some d \<Rightarrow> t > d)"

text \<open>\<open>startTime + effectiveDeadlineMs\<close>, infinite when the budget is absent or not positive.\<close>

definition fetch_deadline :: "int option \<Rightarrow> int \<Rightarrow> int option" where
  "fetch_deadline ms start = (case ms of None \<Rightarrow> None | Some m \<Rightarrow> if m > 0 then Some (start + m) else None)"

text \<open>
  The loop from attempt \<open>attempt\<close> with \<open>n\<close> attempts left: the result, the breaker, and the pauses
  made (\<open>onRetry\<close>), by attempt.
\<close>

fun fetch_loop ::
  "retry_config \<Rightarrow> 'r dial_env \<Rightarrow> int option \<Rightarrow> nat \<Rightarrow> nat \<Rightarrow> fetch_error \<Rightarrow> breaker
     \<Rightarrow> (fetch_error + 'r) \<times> breaker \<times> (nat \<times> int) list" where
  "fetch_loop cfg env deadline 0 attempt lastError b = (Inl lastError, b, [])"
| "fetch_loop cfg env deadline (Suc n) attempt lastError b =
     (if attempt > 1 \<and> past (de_before env attempt) deadline then (Inl lastError, b, [])
      else case de_dial env attempt of
          Response r \<Rightarrow> (Inr r, recordSuccess b, [])
        | Fails code \<Rightarrow>
            if code \<notin> Some ` set RETRYABLE then (Inl (Dial_failed code), b, [])
            else
              (let b' = recordFailure (rc_threshold cfg) (de_after env attempt) b;
                   t = de_after env attempt;
                   delay = calculateBackoff (de_random env attempt) (rc_backoff cfg) (int attempt)
               in if n = 0 then (Inl (Dial_failed code), b', [])
                  else if past t deadline then (Inl (Dial_failed code), b', [])
                  else if beyond (t + delay) deadline then (Inl (Dial_failed code), b', [])
                  else (case fetch_loop cfg env deadline n (Suc attempt) (Dial_failed code) b' of
                          (res, b2, ps) \<Rightarrow> (res, b2, (attempt, delay) # ps))))"

definition fetch_host ::
  "retry_config \<Rightarrow> 'r dial_env \<Rightarrow> bool \<Rightarrow> string \<Rightarrow> int \<Rightarrow> breaker \<Rightarrow> (fetch_error + 'r) \<times> breaker \<times> (nat \<times> int) list" where
  "fetch_host cfg env protected host start b =
     (let (pass, b1) = (if protected then (True, b) else gate (rc_cooldown cfg) start b) in
      if \<not> pass then (Inl (Breaker_open host), b1, [])
      else fetch_loop cfg env (fetch_deadline (rc_deadline_ms cfg) start) (rc_attempts cfg) 1 No_attempt b1)"

definition retryingFetch ::
  "retry_config \<Rightarrow> 'r dial_env \<Rightarrow> bool \<Rightarrow> string \<Rightarrow> int \<Rightarrow> breakers \<Rightarrow> (fetch_error + 'r) \<times> breakers \<times> (nat \<times> int) list" where
  "retryingFetch cfg env protected host start bs =
     (let (b, bs1) = breakerFor host bs;
          (res, b2, ps) = fetch_host cfg env protected host start b
      in (res, jm_set host b2 bs1, ps))"

definition getBreakerStates :: "breakers \<Rightarrow> (string \<times> breaker_state \<times> nat \<times> int option) list" where
  "getBreakerStates bs =
     map (\<lambda>(host, b). (host, br_state b, br_failures b, if br_state b = Open then Some (br_opened_at b) else None)) bs"

section \<open>Backoff is bounded\<close>

lemma exp_delay_bounds:
  assumes "0 \<le> bo_base o'" "0 \<le> bo_max o'"
  shows "0 \<le> exp_delay o' n \<and> exp_delay o' n \<le> bo_max o'"
  using assms by (simp add: exp_delay_def)

lemma calculateBackoff_bounds:
  assumes "0 \<le> bo_base o'" "0 \<le> bo_max o'" "\<forall>b > 0. 0 \<le> rnd b \<and> rnd b < b"
  shows "exp_delay o' n \<le> calculateBackoff rnd o' n \<and> calculateBackoff rnd o' n \<le> bo_max o'"
  using assms exp_delay_bounds [OF assms(1,2), of n] by (auto simp: calculateBackoff_def Let_def)

lemma exp_delay_mono:
  assumes "0 \<le> bo_base o'" "m \<le> n"
  shows "exp_delay o' m \<le> exp_delay o' n"
proof -
  have "(2::int) ^ nat (max 1 m - 1) \<le> 2 ^ nat (max 1 n - 1)"
    using assms(2) by (intro power_increasing) auto
  then have "bo_base o' * 2 ^ nat (max 1 m - 1) \<le> bo_base o' * 2 ^ nat (max 1 n - 1)"
    using assms(1) by (rule mult_left_mono)
  then show ?thesis by (auto simp: exp_delay_def)
qed

section \<open>The retry loop\<close>

declare fetch_loop.simps(2) [simp del]

text \<open>One round either ends the call, or pauses and goes on.\<close>

lemma fetch_loop_cases:
  obtains (stop) res b' where "fetch_loop cfg env d (Suc n) a e b = (res, b', [])"
      "(\<exists>r. res = Inr r \<and> de_dial env a = Response r \<and> b' = recordSuccess b)
       \<or> (isl res \<and> b' = b)
       \<or> (\<exists>code. isl res \<and> de_dial env a = Fails (Some code) \<and> code \<in> set RETRYABLE
            \<and> b' = recordFailure (rc_threshold cfg) (de_after env a) b)"
  | (go) code delay res b' ps where "n \<noteq> 0" "de_dial env a = Fails (Some code)" "code \<in> set RETRYABLE"
      "\<not> past (de_after env a) d" "\<not> beyond (de_after env a + delay) d"
      "delay = calculateBackoff (de_random env a) (rc_backoff cfg) (int a)"
      "fetch_loop cfg env d n (Suc a) (Dial_failed (Some code)) (recordFailure (rc_threshold cfg) (de_after env a) b) = (res, b', ps)"
      "fetch_loop cfg env d (Suc n) a e b = (res, b', (a, delay) # ps)"
proof -
  define b1 where "b1 = recordFailure (rc_threshold cfg) (de_after env a) b"
  define dl where "dl = calculateBackoff (de_random env a) (rc_backoff cfg) (int a)"
  show thesis
  proof (cases "1 < a \<and> past (de_before env a) d")
    case True
    then have "fetch_loop cfg env d (Suc n) a e b = (Inl e, b, [])" by (simp add: fetch_loop.simps(2))
    then show thesis by (rule stop) simp
  next
    case open_: False
    show thesis
    proof (cases "de_dial env a")
      case (Response r)
      with open_ have "fetch_loop cfg env d (Suc n) a e b = (Inr r, recordSuccess b, [])"
        by (simp only: fetch_loop.simps(2) if_False dial.case)
      then show thesis by (rule stop) (simp add: Response)
    next
      case (Fails code)
      show thesis
      proof (cases "code \<in> Some ` set RETRYABLE")
        case False
        with Fails open_ have "fetch_loop cfg env d (Suc n) a e b = (Inl (Dial_failed code), b, [])"
          by (simp only: fetch_loop.simps(2) if_False if_True dial.case not_True_eq_False not_False_eq_True)
        then show thesis by (rule stop) simp
      next
        case True
        then obtain c where c: "code = Some c" "c \<in> set RETRYABLE" by auto
        obtain res b' ps where r: "fetch_loop cfg env d n (Suc a) (Dial_failed (Some c)) b1 = (res, b', ps)"
          by (metis surj_pair)
        show thesis
        proof (cases "n = 0 \<or> past (de_after env a) d \<or> beyond (de_after env a + dl) d")
          case True
          then have "fetch_loop cfg env d (Suc n) a e b = (Inl (Dial_failed code), b1, [])"
            using Fails c open_ by (auto simp: b1_def dl_def Let_def fetch_loop.simps(2))
          then show thesis by (rule stop) (use Fails c in \<open>auto simp: b1_def\<close>)
        next
          case False
          then have "fetch_loop cfg env d (Suc n) a e b = (res, b', (a, dl) # ps)"
            using Fails c open_ r by (auto simp: b1_def dl_def Let_def fetch_loop.simps(2))
          with False Fails c r show thesis by (intro go [of c dl res b' ps]) (simp_all add: b1_def dl_def)
        qed
      qed
    qed
  qed
qed

text \<open>A dial is made at most \<open>attempts\<close> times; the pauses number the retries in order.\<close>

lemma fetch_loop_pauses:
  "snd (snd (fetch_loop cfg env d n a e b)) = ps \<Longrightarrow> map fst ps = [a..<a + length ps] \<and> length ps \<le> n - 1"
proof (induction n arbitrary: a e b ps)
  case (Suc n)
  show ?case
  proof (rule fetch_loop_cases [of cfg env d n a e b])
    fix res b'
    assume "fetch_loop cfg env d (Suc n) a e b = (res, b', [])"
    with Suc.prems show ?thesis by simp
  next
    fix code delay res b' qs
    assume n: "n \<noteq> 0" and r: "fetch_loop cfg env d n (Suc a) (Dial_failed (Some code)) (recordFailure (rc_threshold cfg) (de_after env a) b) = (res, b', qs)"
      and eq: "fetch_loop cfg env d (Suc n) a e b = (res, b', (a, delay) # qs)"
    have "map fst qs = [Suc a..<Suc a + length qs] \<and> length qs \<le> n - 1"
      using Suc.IH [of "Suc a" "Dial_failed (Some code)" "recordFailure (rc_threshold cfg) (de_after env a) b" qs] r by simp
    moreover have "ps = (a, delay) # qs" using Suc.prems eq by simp
    ultimately show ?thesis using n by (auto simp: upt_conv_Cons simp del: upt_Suc)
  qed
qed simp

text \<open>No pause goes beyond the deadline: a retry is scheduled to start within it.\<close>

lemma fetch_loop_deadline:
  "snd (snd (fetch_loop cfg env (Some d) n a e b)) = ps \<Longrightarrow> (i, delay) \<in> set ps \<Longrightarrow> de_after env i + delay \<le> d"
proof (induction n arbitrary: a e b ps)
  case (Suc n)
  show ?case
  proof (rule fetch_loop_cases [of cfg env "Some d" n a e b])
    fix res b'
    assume "fetch_loop cfg env (Some d) (Suc n) a e b = (res, b', [])"
    with Suc.prems show ?thesis by simp
  next
    fix code dl res b' qs
    assume r: "fetch_loop cfg env (Some d) n (Suc a) (Dial_failed (Some code)) (recordFailure (rc_threshold cfg) (de_after env a) b) = (res, b', qs)"
      and eq: "fetch_loop cfg env (Some d) (Suc n) a e b = (res, b', (a, dl) # qs)"
      and "\<not> beyond (de_after env a + dl) (Some d)"
    then show ?thesis
      using Suc.IH [of "Suc a" "Dial_failed (Some code)" "recordFailure (rc_threshold cfg) (de_after env a) b" qs] Suc.prems
      by (auto simp: beyond_def)
  qed
qed simp

text \<open>An answer is the answer of a dial, passed on as it is, and closes the breaker.\<close>

lemma fetch_loop_response:
  "fetch_loop cfg env d n a e b = (Inr r, b', ps) \<Longrightarrow>
     \<exists>i. a \<le> i \<and> i < a + n \<and> de_dial env i = Response r
       \<and> (\<forall>j. a \<le> j \<and> j < i \<longrightarrow> (\<exists>code \<in> set RETRYABLE. de_dial env j = Fails (Some code)))
       \<and> br_state b' = Closed \<and> br_failures b' = 0 \<and> \<not> br_probe b'"
proof (induction n arbitrary: a e b ps)
  case (Suc n)
  show ?case
  proof (rule fetch_loop_cases [of cfg env d n a e b])
    fix res b''
    assume eq: "fetch_loop cfg env d (Suc n) a e b = (res, b'', [])"
      and c: "(\<exists>r. res = Inr r \<and> de_dial env a = Response r \<and> b'' = recordSuccess b) \<or> (isl res \<and> b'' = b)
       \<or> (\<exists>code. isl res \<and> de_dial env a = Fails (Some code) \<and> code \<in> set RETRYABLE
            \<and> b'' = recordFailure (rc_threshold cfg) (de_after env a) b)"
    from eq Suc.prems have "res = Inr r" "b'' = b'" by simp_all
    with c have "de_dial env a = Response r" "b' = recordSuccess b" by auto
    then show ?thesis by (intro exI [of _ a]) (auto simp: recordSuccess_def)
  next
    fix code dl res b'' qs
    assume d: "de_dial env a = Fails (Some code)" "code \<in> set RETRYABLE"
      and rest: "fetch_loop cfg env d n (Suc a) (Dial_failed (Some code)) (recordFailure (rc_threshold cfg) (de_after env a) b) = (res, b'', qs)"
      and eq: "fetch_loop cfg env d (Suc n) a e b = (res, b'', (a, dl) # qs)"
    from eq Suc.prems have "res = Inr r" "b'' = b'" by simp_all
    with rest Suc.IH obtain i where i: "Suc a \<le> i" "i < Suc a + n" "de_dial env i = Response r"
      "\<forall>j. Suc a \<le> j \<and> j < i \<longrightarrow> (\<exists>code \<in> set RETRYABLE. de_dial env j = Fails (Some code))"
      "br_state b' = Closed \<and> br_failures b' = 0 \<and> \<not> br_probe b'"
      by blast
    have "\<exists>code \<in> set RETRYABLE. de_dial env j = Fails (Some code)" if "a \<le> j" "j < i" for j
      using that i(4) d by (cases "j = a") auto
    with i show ?thesis by (intro exI [of _ i]) auto
  qed
qed simp

section \<open>Settlement broadcasts are never refused by the breaker\<close>

lemma fetch_loop_not_refused:
  "e \<noteq> Breaker_open h \<Longrightarrow> fst (fetch_loop cfg env d n a e b) \<noteq> Inl (Breaker_open h)"
proof (induction n arbitrary: a e b)
  case (Suc n)
  have IH: "fst (fetch_loop cfg env d n (Suc a) (Dial_failed c) b1) \<noteq> Inl (Breaker_open h)" for c b1
    by (rule Suc.IH) simp
  with Suc.prems show ?case
    by (cases "de_dial env a") (simp_all add: fetch_loop.simps(2) Let_def case_prod_unfold)
qed simp

lemma protected_not_refused:
  "fst (fetch_host cfg env True host start b) \<noteq> Inl (Breaker_open h)"
  by (simp add: fetch_host_def fetch_loop_not_refused)

section \<open>Concurrent calls on one breaker\<close>

text \<open>
  The calls in flight to a host share its breaker; each of their steps is atomic (Node runs it
  between two awaits). A call is (id, carries a sendTransaction, is the half-open probe).
\<close>

type_synonym rpc_call = "nat \<times> bool \<times> bool"

type_synonym rpc_net = "breaker \<times> rpc_call list"

inductive rpc_step :: "nat \<Rightarrow> int \<Rightarrow> rpc_net \<Rightarrow> rpc_net \<Rightarrow> bool" for threshold :: nat and cooldown :: int where
  admit: "gate cooldown t b = (True, b') \<Longrightarrow> rpc_step threshold cooldown (b, fl) (b', (i, False, br_state b = Open) # fl)"
| admit_protected: "rpc_step threshold cooldown (b, fl) (b, (i, True, False) # fl)"
| answered: "c \<in> set fl \<Longrightarrow> rpc_step threshold cooldown (b, fl) (recordSuccess b, remove1 c fl)"
| retried: "c \<in> set fl \<Longrightarrow> rpc_step threshold cooldown (b, fl) (recordFailure threshold t b, fl)"
| gave_up: "c \<in> set fl \<Longrightarrow> rpc_step threshold cooldown (b, fl) (recordFailure threshold t b, remove1 c fl)"
| aborted: "c \<in> set fl \<Longrightarrow> rpc_step threshold cooldown (b, fl) (b, remove1 c fl)"

inductive_cases rpc_stepE: "rpc_step threshold cooldown (b, fl) s'"

inductive rpc_reachable :: "nat \<Rightarrow> int \<Rightarrow> rpc_net \<Rightarrow> bool" for threshold :: nat and cooldown :: int where
  start: "rpc_reachable threshold cooldown (new_breaker, [])"
| step: "rpc_reachable threshold cooldown s \<Longrightarrow> rpc_step threshold cooldown s s' \<Longrightarrow> rpc_reachable threshold cooldown s'"

definition breaker_ok :: "nat \<Rightarrow> breaker \<Rightarrow> bool" where
  "breaker_ok threshold b \<longleftrightarrow> (br_state b = Half_open \<longrightarrow> br_probe b)
     \<and> (br_state b = Closed \<longrightarrow> br_failures b < threshold)"

lemma breaker_ok_new: "0 < threshold \<Longrightarrow> breaker_ok threshold new_breaker"
  by (simp add: breaker_ok_def new_breaker_def)

lemma breaker_ok_failure: "breaker_ok threshold b \<Longrightarrow> breaker_ok threshold (recordFailure threshold t b)"
  by (auto simp: breaker_ok_def recordFailure_def Let_def)

lemma breaker_ok_success: "0 < threshold \<Longrightarrow> breaker_ok threshold (recordSuccess b)"
  by (simp add: breaker_ok_def recordSuccess_def)

lemma breaker_ok_gate: "breaker_ok threshold b \<Longrightarrow> breaker_ok threshold (snd (gate cooldown t b))"
  by (auto simp: breaker_ok_def gate_def)

lemma reachable_breaker_ok:
  assumes "0 < threshold" "rpc_reachable threshold cooldown s"
  shows "breaker_ok threshold (fst s)"
  using assms(2)
proof (induction rule: rpc_reachable.induct)
  case start
  show ?case using assms(1) by (simp add: breaker_ok_new)
next
  case (step s s')
  from step.hyps(2) step.IH show ?case
  proof (cases rule: rpc_step.cases)
    case (admit t b b' fl i)
    then show ?thesis using step.IH breaker_ok_gate [of threshold b cooldown t] by simp
  qed (simp_all add: breaker_ok_failure breaker_ok_success assms(1))
qed

text \<open>While a probe is out, no further unprotected call is dialled.\<close>

lemma half_open_refuses:
  assumes "breaker_ok threshold b" "br_state b = Half_open"
  shows "gate cooldown t b = (False, b)"
  using assms by (simp add: breaker_ok_def gate_def)

text \<open>An open breaker refuses until its cooldown has passed, then admits one probe.\<close>

lemma open_gate:
  assumes "br_state b = Open"
  shows "fst (gate cooldown t b) \<longleftrightarrow> cooldown \<le> t - br_opened_at b"
    and "fst (gate cooldown t b) \<Longrightarrow> gate cooldown t' (snd (gate cooldown t b)) = (False, snd (gate cooldown t b))"
  using assms by (auto simp: gate_def)

text \<open>
  A probe that ends without an answer and without a retryable failure (it is aborted at the
  deadline) leaves the breaker half-open with nothing in flight: from there only a
  \<open>sendTransaction\<close> call gets through.
\<close>

lemma wedged:
  assumes "0 < threshold" "rpc_reachable threshold cooldown (b, [])" "br_state b = Half_open"
    "rpc_step threshold cooldown (b, []) s'"
  shows "\<exists>i. s' = (b, [(i, True, False)])"
proof -
  have "breaker_ok threshold b" using reachable_breaker_ok [OF assms(1,2)] by simp
  then have "gate cooldown t b = (False, b)" for t by (rule half_open_refuses [OF _ assms(3)])
  with assms(4) show ?thesis by (auto elim!: rpc_stepE)
qed

lemma wedged_reachable:
  assumes "0 \<le> cooldown"
  shows "\<exists>b. rpc_reachable 1 cooldown (b, []) \<and> br_state b = Half_open"
proof -
  let ?c = "(0, False, False)" and ?p = "(1, False, True)"
  let ?b1 = "recordFailure 1 0 new_breaker"
  let ?b2 = "snd (gate cooldown cooldown ?b1)"
  have "rpc_reachable 1 cooldown (new_breaker, [?c])"
    using rpc_reachable.step [OF start admit [of cooldown 0 new_breaker new_breaker 1 "[]" 0]]
    by (simp add: gate_def new_breaker_def)
  from rpc_reachable.step [OF this gave_up [of ?c "[?c]" 1 cooldown new_breaker 0]]
  have open1: "rpc_reachable 1 cooldown (?b1, [])" by simp
  have "gate cooldown cooldown ?b1 = (True, ?b2)" and st: "br_state ?b1 = Open"
    by (simp_all add: recordFailure_def new_breaker_def gate_def Let_def)
  from rpc_reachable.step [OF open1 admit [OF this(1), where i = 1]] st
  have "rpc_reachable 1 cooldown (?b2, [?p])" by simp
  from rpc_reachable.step [OF this aborted [of ?p "[?p]" 1 cooldown ?b2]]
  have "rpc_reachable 1 cooldown (?b2, [])" by simp
  moreover have "br_state ?b2 = Half_open"
    by (simp add: recordFailure_def new_breaker_def gate_def Let_def)
  ultimately show ?thesis by blast
qed

end
