(* ===== verification/Examples.thy ===== *)
theory Examples
  imports SettleServices OutboxWorker MultiSigner FailoverHealth RpcRetry
begin

text \<open>
  Concrete requests, configurations and worlds on which the properties of the root theory are
  applied.
\<close>

definition ex_limits :: key_limits where
  "ex_limits = \<lparr>verifyRpm = 2, settleRpm = 10, settleRph = 100, settleRpd = 1000, feeSpd = 1000000,
     catalogRpm = 5, catalogReadRpm = None\<rparr>"

definition ex_cfg :: rl_config where
  "ex_cfg = \<lparr>cf_keys = (\<lambda>_. None), cf_global = ex_limits, cf_maxFee = (\<lambda>_. None), cf_allowlist = []\<rparr>"

definition no_match :: "string \<Rightarrow> string \<Rightarrow> bool" where
  "no_match ip cidr = False"

definition ex_env :: settle_env where
  "ex_env = \<lparr>ev_sha256 = (\<lambda>s. s), ev_stringify = (\<lambda>_. ''{}''), ev_parse = JStr, ev_networks = [''stellar:testnet''],
     ev_maxFee = (\<lambda>_. None), ev_webhooks = True,
     ev_validate = (\<lambda>_ _. Hard_drop ''missing_or_invalid_discovery_extension''), ev_now = 0\<rparr>"

definition ex_payload :: json where
  "ex_payload = JObj [(''transaction'', JStr ''AAAA'')]"

definition ex_reqs :: json where
  "ex_reqs = JObj [(''scheme'', JStr ''exact''), (''network'', JStr ''stellar:testnet'')]"

definition ex_req :: settle_req where
  "ex_req = \<lparr>sr_keyId = Some ''A'', sr_ip = ''1.2.3.4'', sr_idem_header = Some ''k'',
     sr_body = JObj [(''paymentPayload'', ex_payload), (''paymentRequirements'', ex_reqs)], sr_schema_refused = False\<rparr>"

definition ex_result :: settle_result where
  "ex_result = \<lparr>st_success = True, st_transaction = Some ''hash'', st_network = Some ''stellar:testnet'',
     st_payer = Some ''P'', st_errorReason = None, st_errorMessage = None, st_json = JObj []\<rparr>"

definition ex_error :: thrown where
  "ex_error = \<lparr>er_code = None, er_name = None, er_message = None, er_text = []\<rparr>"

definition ex_mem :: mem_rl where
  "ex_mem = \<lparr>rl_map = [], rl_max = 10000\<rparr>"

definition ex_db :: pg_store where
  "ex_db = \<lparr>pg_db = empty_db, pg_mem = [], pg_degraded = False, pg_has_pool = True\<rparr>"

definition ex_idem :: idem_pg where
  "ex_idem = \<lparr>ip_table = [], ip_mem = [], ip_degraded = False, ip_has_pool = True\<rparr>"

definition ex_world :: "(pg_store, idem_pg, mem_rl) world" where
  "ex_world = \<lparr>w_store = ex_db, w_idem = ex_idem, w_limiter = ex_mem, w_webhooks = [], w_upserts = []\<rparr>"

definition ex_mem_world :: "(mem_store, idem_map, mem_rl) world" where
  "ex_mem_world = \<lparr>w_store = [], w_idem = [], w_limiter = ex_mem, w_webhooks = [], w_upserts = []\<rparr>"

abbreviation ex_pg_services :: "(pg_store, idem_pg, mem_rl) services" where
  "ex_pg_services \<equiv> pg_services no_match ex_cfg rlm_ops (\<lambda>_. 100) (\<lambda>k. k) 100000"

abbreviation ex_mem_services :: "(mem_store, idem_map, mem_rl) services" where
  "ex_mem_services \<equiv> mem_services no_match ex_cfg rlm_ops (\<lambda>_. 100) 100000"

lemma ex_body: "readPaymentBody (sr_schema_refused ex_req) (ev_networks ex_env) Route_settle (sr_body ex_req) = Inr (ex_payload, ex_reqs)"
  by (simp add: ex_req_def ex_env_def readPaymentBody_def validatePaymentBody_def validatePaymentFields_def
      isPlainObject_def non_empty_string_def str_of_def jprop_def ex_payload_def ex_reqs_def Let_def)

lemma ex_check_empty:
  "limiter_check rlm_ops ow ty w l a t ex_mem =
     (\<lparr>ck_allowed = (a \<le> l), ck_bypassed = False, ck_limit = l, ck_remaining = Fin (if a \<le> l then l - a else 0),
       ck_reset = Fin (computeResetAt t w), ck_reason = None\<rparr>, ex_mem)"
  by (simp add: limiter_check_def rlm_ops_def plain_ops_def rlm_get_def live_bucket_def rlm_sweep_def ex_mem_def Let_def)

lemma ex_check:
  "\<exists>c. limiter_check_settle no_match ex_cfg rlm_ops (\<lambda>_. 100) q net ex_mem = (c, ex_mem) \<and> ck_allowed c"
  by (simp add: limiter_check_settle_def checkSettle_def bypass_def allowlistMatch_def ex_cfg_def getKeyConfig_def
      ex_limits_def ex_check_empty max_fee_for_def tighter_def Let_def split: option.splits)

lemma ex_store: "pgh_ok (w_store ex_world)" "ip_uses_db (w_idem ex_world)" "\<not> idp_held (w_idem ex_world) j"
  using db_ok_empty by (simp_all add: ex_world_def ex_db_def ex_idem_def pgh_ok_def uses_db_def ip_uses_db_def idp_held_def)

lemma ex_unanswered: "unanswered pgh_get ex_env ex_req (w_store ex_world)"
  by (simp add: ex_world_def ex_db_def uses_db_def pgh_get_def pg_get_def proj_get_def empty_db_def unanswered_def)

lemma ex_route: "\<exists>called a w. settle_route sv env req att submitted serr w0 = ((called, a), w)"
  by (metis surj_pair)

lemma ex_passes: "\<exists>c l. passes ex_pg_services ex_env ex_req ex_world (ex_payload, ex_reqs) (c, l)"
proof -
  obtain c where "limiter_check_settle no_match ex_cfg rlm_ops (\<lambda>_. 100) (limiter_request ex_req)
      (nullish_or (requirement ex_reqs ''network'') []) ex_mem = (c, ex_mem)" "ck_allowed c"
    using ex_check by blast
  then show ?thesis by (auto simp: passes_def ex_body pg_services_def ex_world_def intro!: exI)
qed

definition ex_breaker_open :: thrown where
  "ex_breaker_open = \<lparr>er_code = Some ''RPC_BREAKER_OPEN'', er_name = Some ''Error'', er_message = None, er_text = []\<rparr>"

definition ex_other :: settle_req where
  "ex_other = ex_req\<lparr>sr_keyId := Some ''B''\<rparr>"

text \<open>A world in which the first caller's answer is recorded.\<close>

definition ex_answered_world :: "(pg_store, idem_pg, mem_rl) world" where
  "ex_answered_world = ex_world\<lparr>w_idem := ex_idem\<lparr>ip_table := [(replay_key ex_env ex_req, 200, Some (JObj []))]\<rparr>\<rparr>"

lemma ex_answered:
  "pgh_ok (w_store ex_answered_world)" "ip_uses_db (w_idem ex_answered_world)"
  "idp_answer (w_idem ex_answered_world) (replay_key ex_env ex_req) = Some (200, JObj [])"
  "unanswered pgh_get ex_env ex_other (w_store ex_answered_world)"
  using ex_store by (simp_all add: ex_answered_world_def ex_idem_def ip_uses_db_def idp_answer_def)
    (simp add: ex_world_def ex_db_def uses_db_def pgh_get_def pg_get_def proj_get_def empty_db_def unanswered_def)

lemma ex_other_passes:
  "\<exists>c l. passes ex_pg_services ex_env ex_other ex_answered_world (ex_payload, ex_reqs) (c, l)"
proof -
  obtain c where "limiter_check_settle no_match ex_cfg rlm_ops (\<lambda>_. 100) (limiter_request ex_other)
      (nullish_or (requirement ex_reqs ''network'') []) ex_mem = (c, ex_mem)" "ck_allowed c"
    using ex_check by blast
  with ex_body show ?thesis
    by (auto simp: passes_def pg_services_def ex_world_def ex_answered_world_def ex_other_def intro!: exI)
qed

section \<open>Stores with one settlement\<close>

definition ex_record :: settle_record where
  "ex_record = \<lparr>r_idempotency_key = ''k'', r_network = Some ''stellar:testnet'', r_scheme = Some ''exact'', r_payer = None,
     r_pay_to = None, r_asset = None, r_amount = None, r_tx_hash = None, r_key_id = Some ''A''\<rparr>"

definition ex_details :: settle_details where
  "ex_details = \<lparr>d_tx_hash = Some ''hash'', d_error_reason = None, d_error_message = None, d_response = None\<rparr>"

definition ex_notification :: notification where
  "ex_notification = \<lparr>nt_type = ''settlement.completed'', nt_id = None, nt_fields = []\<rparr>"

text \<open>The record is saved at 1 and its outcome lost at 2.\<close>

definition ex_submitted :: pg_store where
  "ex_submitted = snd (pg_save Db_ok 1 ex_record 1 ex_db)"

definition ex_unknown :: pg_store where
  "ex_unknown = snd (pg_updateState Db_ok 2 ''k'' St_unknown ex_details 2 ex_submitted)"

lemma ex_submitted_ok: "pgh_ok ex_submitted" "\<exists>p. pgh_get ex_submitted ''k'' = Some p"
proof -
  have ok: "pgh_ok ex_db" using ex_store(1) by (simp add: ex_world_def)
  obtain b where "pg_write (pg_save Db_ok 1 ex_record 1 ex_db) = (b, ex_submitted)"
    by (simp add: pg_write_def ex_submitted_def)
  from pg_save_saves [OF ok this] show "pgh_ok ex_submitted" "\<exists>p. pgh_get ex_submitted ''k'' = Some p"
    by (auto simp: ex_record_def)
qed

lemma ex_unknown_ok: "pgh_ok ex_unknown" "\<exists>p. pgh_get ex_unknown ''k'' = Some p \<and> state p = St_unknown \<and> tx_hash p = Some ''hash''"
proof -
  obtain p where p: "pgh_get ex_submitted ''k'' = Some p" using ex_submitted_ok(2) by blast
  obtain b where "pg_write (pg_updateState Db_ok 2 ''k'' St_unknown ex_details 2 ex_submitted) = (b, ex_unknown)"
    by (simp add: pg_write_def ex_unknown_def)
  from pg_update_updates [OF ex_submitted_ok(1) p _ _ this, of OutcomeUnknown]
  show "pgh_ok ex_unknown" "\<exists>p. pgh_get ex_unknown ''k'' = Some p \<and> state p = St_unknown \<and> tx_hash p = Some ''hash''"
    by (auto simp: ex_details_def response_truthy_def truthy_response_def)
qed

section \<open>Queues with one row\<close>

definition ex_outbox :: outbox where
  "ex_outbox = insertEvent ''e1'' ''settlement.completed'' [] 0 empty_outbox"

definition ex_bus_down :: ob_env where
  "ex_bus_down = \<lparr>pub_error = (\<lambda>_ _. Some ''down''), mark_published_error = (\<lambda>_. None),
     mark_failed_fails = (\<lambda>_. False), dlq_insert_fails = (\<lambda>_. False)\<rparr>"

definition ex_dlq :: dlq where
  "ex_dlq = snd (dl_insert \<lparr>e_messageId = ''e1'', e_source = ''outbox'', e_type = None, e_payload = [], e_error = None,
     e_deliveryAttempts = 1\<rparr> 10 empty_dlq)"

definition ex_dlq_env :: dl_env where
  "ex_dlq_env = \<lparr>publish_error = (\<lambda>_ _. Some ''down''), resolve_error = (\<lambda>_. None), retry_error = (\<lambda>_. None)\<rparr>"

lemma ex_outbox_ok: "0 < m \<Longrightarrow> ob_ok m ex_outbox" "\<exists>r. ob_get 1 ex_outbox = Some r \<and> ob_status r = Ob_pending"
  using insertEvent_ok [OF _ ob_ok_empty]
  by (simp_all add: ex_outbox_def) (simp add: insertEvent_def empty_outbox_def ob_get_def)

lemma ex_dlq_ok: "dl_ok 5 ex_dlq" "\<exists>r. dl_get 1 ex_dlq = Some r \<and> dl_next_retry_at r = 10"
  using dl_insert_ok [OF _ dl_ok_empty]
  by (simp_all add: ex_dlq_def) (simp add: dl_insert_def empty_dlq_def dl_get_def)

section \<open>Limiter\<close>

definition ex_caller :: rl_request where
  "ex_caller = \<lparr>rl_keyId = Some ''A'', rl_ip = ''1.2.3.4''\<rparr>"

text \<open>A store none of whose reads answers.\<close>

definition ex_down_ops :: "mem_rl rl_ops" where
  "ex_down_ops = \<lparr>s_get = (\<lambda>_ _ s. (None, s)), s_increment = (\<lambda>_ _ _ _ s. (None, s)), s_sweep = (\<lambda>_ s. s)\<rparr>"

lemma ex_no_bypass: "no_bypass no_match ex_cfg q"
  by (simp add: no_bypass_def allowlistMatch_def ex_cfg_def)

section \<open>Calls, envelopes, regions and keys\<close>

definition ex_retry :: retry_config where
  "ex_retry = \<lparr>rc_attempts = 3, rc_backoff = \<lparr>bo_base = 250, bo_max = 5000, bo_jitter = No_jitter, bo_max_jitter = 250\<rparr>,
     rc_deadline_ms = Some 10000, rc_threshold = 5, rc_cooldown = 30000\<rparr>"

text \<open>The first dial is reset, the second answers.\<close>

definition ex_flaky :: "nat dial_env" where
  "ex_flaky = \<lparr>de_dial = (\<lambda>n. if n = 1 then Fails (Some ''ECONNRESET'') else Response 7), de_before = (\<lambda>n. 1000 * int n),
     de_after = (\<lambda>n. 1000 * int n + 100), de_random = (\<lambda>_ _. 0)\<rparr>"

lemma ex_flaky_fetch:
  "\<exists>b'. fetch_host ex_retry ex_flaky False ''h'' 0 new_breaker = (Inr 7, b', [(1, 250)])"
  by (simp add: fetch_host_def fetch_loop.simps(2) ex_retry_def ex_flaky_def numeral_3_eq_3 gate_def new_breaker_def fetch_deadline_def
      RETRYABLE_def past_def beyond_def calculateBackoff_def exp_delay_def Let_def)

definition ex_regions :: fo_config where
  "ex_regions = \<lparr>fo_region = ''eu'', fo_regions = [\<lparr>rg_name = ''eu'', rg_priority = 1, rg_url = None\<rparr>,
     \<lparr>rg_name = ''us'', rg_priority = 2, rg_url = Some ''http://us''\<rparr>], fo_failure_threshold = 3, fo_recovery_threshold = 2\<rparr>"

definition ex_key :: api_key where
  "ex_key = \<lparr>ak_id = ''A'', ak_hash = ''s3cret'', ak_expires_at = Some 100, ak_revoked = False\<rparr>"

text \<open>An envelope two of three signers sign.\<close>

definition ex_signing :: "ms_op list" where
  "ex_signing = [Ms_create ''e'' ''AAAA'' 2 (Some [''A'', ''B'', ''C'']) 1000 0, Ms_add ''e'' ''B'' ''s1'' 10, Ms_add ''e'' ''A'' ''s2'' 20]"

lemma ex_signing_run:
  "fold ms_apply ex_signing [] = [(''e'', \<lparr>en_id = ''e'', en_xdr = ''AAAA'', en_threshold = 2, en_required = Some [''A'', ''B'', ''C''],
     en_sigs = [(''B'', ''s1''), (''A'', ''s2'')], en_created = 0, en_expires = 1000, en_status = Es_complete\<rparr>)]"
  by (simp add: ex_signing_def createEnvelope_def addSignature_def past_deadline_def signed_def Let_def)

lemma ex_signing_envelope: "\<exists>e. jm_get (fold ms_apply ex_signing []) ''e'' = Some e"
  by (simp add: ex_signing_run)

end
