(* ===== verification/CatalogExamples.thy ===== *)
theory CatalogExamples
  imports CacheFacts PgCatalog Cqrs DistributedLock KeyManager RedisLimiter Examples
begin

text \<open>
  Concrete listings, catalogs, logs and locks on which the properties of the root theory are applied.
\<close>

section \<open>Listings\<close>

definition ex_resource :: "string \<Rightarrow> string \<Rightarrow> resource" where
  "ex_resource url payTo = \<lparr>rs_type = ''http'', rs_url = url, rs_toolName = None, rs_serviceName = Some ''api'',
     rs_description = None, rs_tags = None, rs_iconUrl = None, rs_scheme = Some ''exact'',
     rs_network = Some ''stellar:testnet'', rs_extensions = None, rs_payTo = payTo, rs_pactwright = None\<rparr>"

definition ex_limits_of :: "int \<Rightarrow> catalog_config" where
  "ex_limits_of n = \<lparr>maxResourcesPerPayTo = n, maxCatalogSize = 10, verifyTtlMs = 1000\<rparr>"

definition ex_catalog :: catalog where
  "ex_catalog = cat_run (ex_limits_of 1) (\<lambda>e. e) [Up (ex_resource ''u'' ''A'') ''settle'' 5] empty_catalog"

lemma keeps_listing_id: "keeps_listing (\<lambda>e. e)"
  unfolding keeps_listing_def by (metis entry.surjective entry.update_convs(7,8))

definition ex_listing :: entry where
  "ex_listing = upsert_entry (ex_limits_of 1) 0 (ex_resource ''u'' ''A'') ''settle'' 5 None"

lemma ex_catalog: "ex_catalog = \<lparr>ct_resources = [(''u::'', ex_listing)], ct_counts = [(''A'', 1)], ct_version = 1, ct_modified = 5, ct_next_id = 1\<rparr>"
  by (simp add: ex_catalog_def upsertResource_def empty_catalog_def cat_key_def incrementPayToCount_def ex_limits_of_def
      ex_resource_def Let_def ex_listing_def)

lemma ex_listing: "en_provisional ex_listing = False" "en_source ex_listing = ''settle''" "en_first_seen ex_listing = 5"
  "rs_payTo ex_listing = ''A''" "cat_key ex_listing = ''u::''"
  by (simp_all add: ex_listing_def upsert_entry_def was_settled_def Let_def ex_resource_def cat_key_def)

lemma ex_catalog_settled: "settled_listing ''u::'' ''settle'' 5 ex_catalog" "catalog_ok ex_catalog"
proof -
  show "settled_listing ''u::'' ''settle'' 5 ex_catalog" by (simp add: settled_listing_def ex_catalog ex_listing)
  show "catalog_ok ex_catalog"
    unfolding ex_catalog_def by (rule catalog_ok_run [OF catalog_ok_empty keeps_listing_id])
qed

definition ex_search :: search_params where
  "ex_search = \<lparr>fl_type = None, fl_payTo = Some ''A'', fl_scheme = None, fl_network = None, fl_extensions = None,
     sp_query = ''api'', sp_limit = None, sp_cursor = None\<rparr>"

lemma ex_tidy: "tidy ex_search"
  by (simp add: tidy_def plain_def ex_search_def js_trim_def js_space_def)

lemma ex_store_version: "store_version (ex_catalog, t) = 1"
  by (simp add: store_version_def ex_catalog)

lemma ex_found: "pg_resources (store_answer (\<lambda>s. s) (ex_catalog, 9) ex_search) \<noteq> []"
proof -
  have it: "search_items 9 ex_search ex_catalog = [ex_listing]"
    by (simp add: search_items_def applyCommonFilters_def public_items_def jm_values_def ex_catalog isPublic_def isExpired_def
        ex_listing passes_filters_def narrows_def ex_search_def filters.defs)
  have n: "rs_serviceName ex_listing = Some ''api''" "rs_tags ex_listing = None" "rs_description ex_listing = None"
    "rs_extensions ex_listing = None" "en_last_seen ex_listing = 5"
    by (simp_all add: ex_listing_def upsert_entry_def ex_resource_def Let_def)
  have w: "js_words ''api'' = [''api'']" "js_trim ''api'' = ''api''" "js_lower ''api'' = ''api''" "js_lower [] = []"
    by (simp_all add: js_words_def js_lower_def js_lower_char_def js_trim_def js_space_def)
  have q: "sp_query ex_search = ''api''" by (simp add: ex_search_def)
  have "token_points ex_listing ''api'' = 10" by (simp add: token_points_def tag_points_def n w)
  then have "0 < scoreResource 9 ex_listing (sp_query ex_search)"
    by (simp add: scoreResource_def q w Let_def ex_listing)
  then have "lexical_scores 9 (sp_query ex_search) [ex_listing] = [(ex_listing, scoreResource 9 ex_listing (sp_query ex_search))]"
    by (simp add: lexical_scores_def)
  moreover have "\<exists>y. y * 61 = (1 :: real)" by (rule exI [of _ "1 / 61"]) simp
  ultimately have "ranking (\<lambda>s. s) 9 None ex_search ex_catalog = [ex_listing]"
    by (simp add: ranking_def it rrf_scores_def dense_scores_def by_score_def js_sort_by_def Let_def)
  then show ?thesis
    by (simp add: store_answer_def search_def start_index_def ex_search_def js_slice_def Let_def)
qed

lemma ex_upsert:
  "\<exists>e st. pc_upsert (ex_limits_of 1) False (ex_resource ''u'' ''A'') ''settle'' 5 (pc_boot False []) = (Inr e, st)"
  by (simp add: pc_upsert_def upsertResource_def pc_boot_def hydrate_def empty_catalog_def ex_limits_of_def Let_def)

section \<open>Logs\<close>

definition ex_saved :: "string \<Rightarrow> settle_record" where
  "ex_saved k = \<lparr>r_idempotency_key = k, r_network = Some ''stellar:testnet'', r_scheme = Some ''exact'', r_payer = None,
     r_pay_to = None, r_asset = None, r_amount = None, r_tx_hash = None, r_key_id = Some ''A''\<rparr>"

definition ex_log1 :: sdb where
  "ex_log1 = snd (sql_save (ex_saved ''a'') 1 empty_db)"

definition ex_log2 :: sdb where
  "ex_log2 = snd (sql_save (ex_saved ''b'') 2 ex_log1)"

definition ex_reader :: cqrs where
  "ex_reader = \<lparr>cq_rm = [], cq_saved = 0, cq_offset = 0\<rparr>"

lemma ex_logs_ok: "db_ok ex_log1" "db_ok ex_log2"
  by (simp_all add: ex_log2_def ex_log1_def sql_save_ok db_ok_empty)

lemma ex_log1_row:
  "\<exists>p. projectSettlement (key_events ex_log1 ''a'') = Some p \<and> key_id p = Some ''A'' \<and> state p = St_submitted"
proof -
  have "\<exists>p. proj_get ex_log1 ''a'' = Some p \<and> key_id p = Some ''A'' \<and> state p = St_submitted"
    by (simp add: proj_get_def ex_log1_def sql_save_def empty_db_def ex_saved_def Let_def)
  then show ?thesis by (simp add: proj_get_fold [OF ex_logs_ok(1)])
qed

lemma ex_log1_batch: "\<exists>e. (''a'', e) \<in> set (readBatch (cq_offset ex_reader) 100 ex_log1)"
  by (simp add: readBatch_def ex_reader_def ex_log1_def sql_save_def empty_db_def ex_saved_def save_ev_def next_seq_def
      key_events_def js_sort_by_def Let_def)

lemma ex_log1_offset: "cq_offset (snd (processBatch calm 100 ex_log1 ex_reader)) = 1"
proof -
  obtain p where p: "projectSettlement (key_events ex_log1 ''a'') = Some p" "key_id p = Some ''A''" using ex_log1_row by blast
  have log: "ev_table ex_log1 = [(''a'', save_ev (ex_saved ''a'') 1 1)]"
    by (simp add: ex_log1_def sql_save_def empty_db_def next_seq_def key_events_def ex_saved_def Let_def)
  have seq: "seq (save_ev r n t) = n" for r n t by (simp add: save_ev_def)
  show ?thesis
    using p project_key [OF ex_logs_ok(1) p(1)]
    by (simp add: processBatch_def readBatch_def ex_reader_def log seq calm_def js_sort_by_def updateCheckpoint_def
        fetch_fold [OF ex_logs_ok(1)] writeProjection_def Let_def)
qed

text \<open>The reader has seen the two events of one settlement when another one is saved.\<close>

lemma ex_log2_late:
  "length (key_events ex_log2 ''b'') \<le> cq_offset (snd (processBatch calm 100 ex_log1 ex_reader))"
  "jm_get (cq_rm (snd (processBatch calm 100 ex_log1 ex_reader))) ''b'' = None"
  "jm_get (proj_table ex_log2) ''b'' \<noteq> None"
proof -
  have l1: "key_events ex_log1 ''b'' = []"
    by (simp add: ex_log1_def sql_save_def key_events_def empty_db_def ex_saved_def Let_def)
  have "key_events ex_log2 ''b'' = [save_ev (ex_saved ''b'') (next_seq ex_log1 ''b'') 2]"
    using l1 by (simp add: ex_log2_def sql_save_def key_events_def ex_saved_def Let_def)
  moreover have "cq_offset (snd (processBatch calm 100 ex_log1 ex_reader)) = 1"
    by (rule ex_log1_offset)
  ultimately show "length (key_events ex_log2 ''b'') \<le> cq_offset (snd (processBatch calm 100 ex_log1 ex_reader))" by simp
  show "jm_get (cq_rm (snd (processBatch calm 100 ex_log1 ex_reader))) ''b'' = None"
    using processBatch_other [OF ex_logs_ok(1), of "''b''" ex_reader calm 100] l1 by (simp add: ex_reader_def)
  show "jm_get (proj_table ex_log2) ''b'' \<noteq> None"
    by (simp add: ex_log2_def sql_save_def ex_saved_def Let_def jm_get_set)
qed

section \<open>Redis\<close>

definition ex_rl_req :: rl_request where
  "ex_rl_req = \<lparr>rl_keyId = Some ''A'', rl_ip = ''1.2.3.4''\<rparr>"

definition ex_redis :: "mem_rl redis_rl" where
  "ex_redis = \<lparr>rd_counts = [], rd_connected = True, rd_degraded = False, rd_mem = ex_mem\<rparr>"

section \<open>Locks and keys\<close>

lemma ex_lock:
  defines "st \<equiv> snd (lock_acquire ''k'' (snd (lock_acquire ''k'' no_locks)))"
  shows "lock_reachable st" "lock_held 0 st" "tk_key (lk_tickets st ! 1) = tk_key (lk_tickets st ! 0)"
proof -
  show "lock_reachable st" unfolding st_def by (meson lock_reachable.intros lock_step.begins)
  show "lock_held 0 st" "tk_key (lk_tickets st ! 1) = tk_key (lk_tickets st ! 0)"
    by (simp_all add: st_def lock_acquire_def no_locks_def lock_held_def lock_granted_def Let_def)
qed

lemma ex_rotation:
  "\<exists>km km'. new_key_manager (\<lambda>s. s) (\<lambda>_. True) [Plain ''S1''] 0 = Inr km
    \<and> fold km_apply [K_snapshot, K_install [(''k2'', ''S2'')] 10, K_purge 100000] (km, []) = (km', [1])"
  by (simp add: new_key_manager_def normaliseKeys_def raw_secret_def raw_kid_def keyId_def km_install_def purgeRetired_def purgeable_def
      retire_def km_snapshot_def getCurrent_def take_lease_def idle_def Let_def)

end
