(* ===== verification/JsonText.thy ===== *)
theory JsonText
  imports JsText
begin

text \<open>
  JSON text is read back: \<open>JSON.stringify\<close> is injective on every value, and so is the canonical form of
  RFC 8785 up to the order of keys (\<open>canonicalize\<close> of \<open>src/pact-scheme.js\<close>). An object is the list of
  its own properties, without duplicates.
\<close>

section \<open>JSON.stringify is injective\<close>

definition stop :: "string \<Rightarrow> bool" where
  "stop u \<longleftrightarrow> u = [] \<or> \<not> is_digit (hd u)"

lemma stop_simps [simp]: "stop []" "stop ('','' @ u)" "stop ('']'' @ u)" "stop (''}'' @ u)"
  "stop (CHR '','' # u)" "stop (CHR '']'' # u)" "stop (CHR ''}'' # u)"
  by (simp_all add: stop_def is_digit_def)

text \<open>The first character tells the kind of value.\<close>

fun lead :: "json \<Rightarrow> char set" where
  "lead JNull = {CHR ''n''}"
| "lead (JBool b) = {if b then CHR ''t'' else CHR ''f''}"
| "lead (JNum n) = insert (CHR ''-'') {c. is_digit c}"
| "lead (JStr s) = {CHR 0x22}"
| "lead (JArr xs) = {CHR ''[''}"
| "lead (JObj fs) = {CHR ''{''}"

lemma int_str_hd: "int_str n \<noteq> []" "hd (int_str n @ u) \<in> insert (CHR ''-'') {c. is_digit c}"
  using nat_str_digits [of "nat n"] by (cases "nat_str (nat n)"; auto simp: int_str_def)+

lemma stringify_lead: "json_stringify a \<noteq> []" "hd (json_stringify a @ u) \<in> lead a"
  using int_str_hd by (cases a; simp add: json_quote_def)+

lemma lead_close: "CHR '']'' \<notin> lead a" "CHR ''}'' \<notin> lead a"
  by (cases a; simp add: is_digit_def)+

lemma same_lead: "json_stringify a @ u = json_stringify b @ v \<Longrightarrow> lead a \<inter> lead b \<noteq> {}"
  using stringify_lead(2) [of a u] stringify_lead(2) [of b v] by auto

text \<open>A sequence of readable pieces, separated by commas and closed, is readable.\<close>

definition readable :: "('a \<Rightarrow> string) \<Rightarrow> 'a \<Rightarrow> bool" where
  "readable f x \<longleftrightarrow> (\<forall>y u v. f x @ u = f y @ v \<longrightarrow> stop u \<longrightarrow> stop v \<longrightarrow> x = y \<and> u = v)"

lemma readableD: "readable f x \<Longrightarrow> f x @ u = f y @ v \<Longrightarrow> stop u \<Longrightarrow> stop v \<Longrightarrow> x = y \<and> u = v"
  by (simp add: readable_def)

lemma join_readable:
  assumes "\<forall>x \<in> set xs. readable f x" "\<And>x. f x \<noteq> [] \<and> hd (f x) \<noteq> z" "stop [z]" "z \<noteq> CHR '',''"
    "js_join '','' (map f xs) @ z # u = js_join '','' (map f ys) @ z # v"
  shows "xs = ys \<and> u = v"
  using assms(1,5)
proof (induction xs arbitrary: ys)
  case Nil
  then show ?case
  proof (cases ys)
    case (Cons y ys')
    have "hd (js_join '','' (map f ys) @ z # v) = hd (f y)"
      using assms(2) [of y] by (cases ys') (simp_all add: Cons)
    moreover have "js_join '','' (map f ys) @ z # v = z # u" using Nil(2) by simp
    ultimately show ?thesis using assms(2) [of y] by (metis list.sel(1))
  qed simp
next
  case (Cons x xs)
  have x: "readable f x" using Cons.prems(1) by simp
  have z: "stop (z # w)" for w using assms(3) by (simp add: stop_def)
  show ?case
  proof (cases ys)
    case Nil
    have "hd (js_join '','' (map f (x # xs)) @ z # u) = hd (f x)"
      using assms(2) [of x] by (cases xs) simp_all
    moreover have "js_join '','' (map f (x # xs)) @ z # u = z # v" using Cons.prems(2) Nil by simp
    ultimately show ?thesis using assms(2) [of x] by (metis list.sel(1))
  next
    case ys: (Cons y ys')
    define r where "r = (case xs of [] \<Rightarrow> z # u | _ \<Rightarrow> '','' @ js_join '','' (map f xs) @ z # u)"
    define s where "s = (case ys' of [] \<Rightarrow> z # v | _ \<Rightarrow> '','' @ js_join '','' (map f ys') @ z # v)"
    have "f x @ r = f y @ s"
      using Cons.prems(2) unfolding ys r_def s_def by (cases xs; cases ys') simp_all
    moreover have "stop r" "stop s" unfolding r_def s_def using z by (simp_all split: list.splits)
    ultimately have eq: "x = y" "r = s" using readableD [OF x, of r y s] by simp_all
    show ?thesis
    proof (cases xs)
      case Nil
      with eq(2) assms(4) have "ys' = [] \<and> u = v" unfolding r_def s_def by (cases ys') auto
      with Nil eq(1) ys show ?thesis by simp
    next
      case xs: (Cons x2 xs2)
      then obtain y2 ys2 where ys2: "ys' = y2 # ys2" using eq(2) assms(4) unfolding r_def s_def by (cases ys') auto
      have "js_join '','' (map f xs) @ z # u = js_join '','' (map f ys') @ z # v"
        using eq(2) unfolding r_def s_def xs ys2 by simp
      with Cons.IH [of ys'] Cons.prems(1) eq(1) ys show ?thesis by simp
    qed
  qed
qed

definition member_text :: "string \<times> json \<Rightarrow> string" where
  "member_text p = json_quote (fst p) @ '':'' @ json_stringify (snd p)"

lemma member_readable: "readable json_stringify (snd p) \<Longrightarrow> readable member_text p"
  unfolding readable_def member_text_def
  by (metis append.assoc json_quote_inj prod.expand append_same_eq same_append_eq)

lemma json_readable: "readable json_stringify a"
proof (induction a)
  case JNull
  show ?case
    unfolding readable_def
  proof (intro allI impI)
    fix y u v assume "json_stringify JNull @ u = json_stringify y @ v"
    then show "JNull = y \<and> u = v" using same_lead [of JNull u y v]
      by (cases y) (auto simp: is_digit_def split: if_splits)
  qed
next
  case (JBool b)
  show ?case
    unfolding readable_def
  proof (intro allI impI)
    fix y u v assume "json_stringify (JBool b) @ u = json_stringify y @ v"
    then show "JBool b = y \<and> u = v" using same_lead [of "JBool b" u y v]
      by (cases y) (auto simp: is_digit_def split: if_splits)
  qed
next
  case (JNum n)
  show ?case
    unfolding readable_def
  proof (intro allI impI)
    fix y u v assume *: "json_stringify (JNum n) @ u = json_stringify y @ v" "stop u" "stop v"
    then obtain m where "y = JNum m" using same_lead [OF *(1)] by (cases y) (auto simp: is_digit_def split: if_splits)
    with * int_str_app_inj [of n u m v] show "JNum n = y \<and> u = v" by (simp add: stop_def)
  qed
next
  case (JStr s)
  show ?case
    unfolding readable_def
  proof (intro allI impI)
    fix y u v assume *: "json_stringify (JStr s) @ u = json_stringify y @ v"
    then obtain t where "y = JStr t" using same_lead [OF *] by (cases y) (auto simp: is_digit_def split: if_splits)
    with * json_quote_inj [of s u t v] show "JStr s = y \<and> u = v" by simp
  qed
next
  case (JArr xs)
  show ?case
    unfolding readable_def
  proof (intro allI impI)
    fix y u v assume *: "json_stringify (JArr xs) @ u = json_stringify y @ v"
    then obtain ys where y: "y = JArr ys" using same_lead [OF *] by (cases y) (auto simp: is_digit_def split: if_splits)
    have hd: "json_stringify x \<noteq> [] \<and> hd (json_stringify x) \<noteq> CHR '']''" for x
      using stringify_lead(1) [of x] stringify_lead(2) [of x "[]"] lead_close(1) [of x] by auto
    have "js_join '','' (map json_stringify xs) @ CHR '']'' # u = js_join '','' (map json_stringify ys) @ CHR '']'' # v"
      using * by (simp add: y)
    then have "xs = ys \<and> u = v"
      by (intro join_readable [where f = json_stringify and z = "CHR '']''"])
        (use JArr hd in \<open>simp_all add: stop_def is_digit_def\<close>)
    then show "JArr xs = y \<and> u = v" by (simp add: y)
  qed
next
  case (JObj fs)
  show ?case
    unfolding readable_def
  proof (intro allI impI)
    fix y u v assume *: "json_stringify (JObj fs) @ u = json_stringify y @ v"
    then obtain gs where y: "y = JObj gs" using same_lead [OF *] by (cases y) (auto simp: is_digit_def split: if_splits)
    have hd: "member_text p \<noteq> [] \<and> hd (member_text p) \<noteq> CHR ''}''" for p
      by (simp add: member_text_def json_quote_def)
    have m: "(\<lambda>p. json_quote (fst p) @ '':'' @ json_stringify (snd p)) = member_text"
      by (simp add: member_text_def fun_eq_iff)
    have ih: "\<forall>p \<in> set fs. readable member_text p"
    proof
      fix p assume "p \<in> set fs"
      then have "readable json_stringify (snd p)" by (rule JObj) (cases p, simp)
      then show "readable member_text p" by (rule member_readable)
    qed
    have "js_join '','' (map member_text fs) @ CHR ''}'' # u = js_join '','' (map member_text gs) @ CHR ''}'' # v"
      using * unfolding y json_stringify.simps m by simp
    then have "fs = gs \<and> u = v"
      by (intro join_readable [where f = member_text and z = "CHR ''}''"])
        (use ih hd in \<open>simp_all add: stop_def is_digit_def\<close>)
    then show "JObj fs = y \<and> u = v" by (simp add: y)
  qed
qed

lemma stringify_inj: "json_stringify a = json_stringify b \<Longrightarrow> a = b"
  using readableD [OF json_readable, of a "[]" b "[]"] by simp

section \<open>Canonical JSON\<close>

text \<open>The properties of every object in the order of their names.\<close>

fun ordered :: "json \<Rightarrow> json" where
  "ordered (JArr xs) = JArr (map ordered xs)"
| "ordered (JObj fs) = JObj (js_sort_by fst (map (\<lambda>p. (fst p, ordered (snd p))) fs))"
| "ordered j = j"

text \<open>\<open>canonicalize\<close>: what a JSON value holds is finite and defined.\<close>

fun canonicalize :: "json \<Rightarrow> string" where
  "canonicalize (JArr xs) = ''['' @ js_join '','' (map canonicalize xs) @ '']''"
| "canonicalize (JObj fs) =
     ''{'' @ js_join '','' (map (\<lambda>p. json_quote (fst p) @ '':'' @ snd p)
               (js_sort_by fst (map (\<lambda>p. (fst p, canonicalize (snd p))) fs))) @ ''}''"
| "canonicalize j = json_stringify j"

lemma insort_key_map: "map g (insort_key f x xs) = insort_key f' (g x) (map g xs)" if "\<And>y. f' (g y) = f y"
  using that by (induction xs) auto

lemma sort_key_map: "map g (sort_key f xs) = sort_key f' (map g xs)" if "\<And>y. f' (g y) = f y"
  using that by (induction xs) (simp_all add: insort_key_map [of f' g f])

lemma canonicalize_ordered: "canonicalize j = json_stringify (ordered j)"
proof (induction j)
  case (JObj fs)
  let ?g = "\<lambda>p :: string \<times> json. (fst p, json_stringify (snd p))"
  have "map (\<lambda>p. (fst p, canonicalize (snd p))) fs = map ?g (map (\<lambda>p. (fst p, ordered (snd p))) fs)"
    using JObj by force
  then have "js_sort_by fst (map (\<lambda>p. (fst p, canonicalize (snd p))) fs) = map ?g (js_sort_by fst (map (\<lambda>p. (fst p, ordered (snd p))) fs))"
    unfolding js_sort_by_def by (simp only: sort_key_map [of fst ?g fst] fst_conv)
  then show ?case by (simp add: comp_def)
next
  case (JArr xs)
  then have "map canonicalize xs = map json_stringify (map ordered xs)" by simp
  then show ?case by (simp del: map_map)
qed simp_all

text \<open>Two values have one canonical text exactly when they differ in the order of properties alone.\<close>

lemma canonicalize_iff: "canonicalize a = canonicalize b \<longleftrightarrow> ordered a = ordered b"
  unfolding canonicalize_ordered by (auto dest: stringify_inj)

lemma ordered_property:
  assumes "distinct (map fst fs)"
  shows "map_of (js_sort_by fst (map (\<lambda>p. (fst p, ordered (snd p))) fs)) k = map_option ordered (map_of fs k)"
proof -
  let ?m = "map (\<lambda>p. (fst p, ordered (snd p))) fs"
  have d: "distinct (map fst ?m)" using assms by (simp add: comp_def)
  then have "map_of (js_sort_by fst ?m) = map_of ?m"
    by (intro map_of_inject_set [THEN iffD2]) (simp_all add: distinct_js_sort_by)
  moreover have "map_of ?m k = map_option ordered (map_of fs k)" by (induction fs) auto
  ultimately show ?thesis by simp
qed

end
