(* ===== verification/CatalogValidation.thy ===== *)
theory CatalogValidation
  imports Catalog JsText RequestGate
begin

text \<open>
  The policy a listing passes before it is catalogued (\<open>src/catalog/validation.js\<close>) and the amounts
  it accepts (\<open>src/sdk/validation.js\<close>).

  What the policy asks of \<open>@x402/extensions\<close> and of the platform's URL parser is a record of
  functions, \<open>discovery_sdk\<close>. Text is a list of code units; \<open>code\<close> reads a unit as a number, so that
  the truncation is stated for 16-bit units and used for the one-byte text of a listing.
\<close>

section \<open>Amounts\<close>

text \<open>\<open>DECIMAL_AMOUNT_RE\<close>: an optional sign, digits, and optionally a point and digits.\<close>

definition digits1 :: "string \<Rightarrow> bool" where
  "digits1 s \<longleftrightarrow> s \<noteq> [] \<and> list_all is_digit s"

definition unsigned_decimal :: "string \<Rightarrow> bool" where
  "unsigned_decimal s =
     (case dropWhile is_digit s of
        [] \<Rightarrow> digits1 s
      | c # ds \<Rightarrow> c = CHR ''.'' \<and> digits1 (takeWhile is_digit s) \<and> digits1 ds)"

definition decimal_amount :: "string \<Rightarrow> bool" where
  "decimal_amount s =
     (case s of
        c # cs \<Rightarrow> unsigned_decimal (if c = CHR ''+'' \<or> c = CHR ''-'' then cs else s)
      | [] \<Rightarrow> False)"

definition validateAmount :: "json option \<Rightarrow> string list" where
  "validateAmount amount =
     (case amount of
        None \<Rightarrow> [''pricing.amount is required'']
      | Some j \<Rightarrow>
          if j = JNull \<or> j = JStr [] then [''pricing.amount is required'']
          else (case j of
                  JStr s \<Rightarrow>
                    if \<not> decimal_amount s then [''pricing.amount '' @ [CHR 0x22] @ s @ [CHR 0x22] @ '' is not a valid decimal numeric string'']
                    else if hd s = CHR ''-'' then [''pricing.amount must not be negative (got '' @ [CHR 0x22] @ s @ [CHR 0x22] @ '')'']
                    else []
                | _ \<Rightarrow> [''pricing.amount must be a decimal numeric string; numbers lose precision before stroop conversion'']))"

definition STELLAR_DECIMALS :: int where
  "STELLAR_DECIMALS = 7"

text \<open>\<open>const [, fracPart = ''] = amount.split('.')\<close>\<close>

definition frac_part :: "string \<Rightarrow> string" where
  "frac_part s = (case js_split (CHR ''.'') s of _ # f # _ \<Rightarrow> f | _ \<Rightarrow> [])"

section \<open>Text\<close>

text \<open>\<open>MARKUP_PATTERN\<close>: what follows an opening angle bracket, and what follows an ampersand.\<close>

definition is_letter :: "char \<Rightarrow> bool" where
  "is_letter c \<longleftrightarrow> (let n = (of_char c :: nat) in (65 \<le> n \<and> n \<le> 90) \<or> (97 \<le> n \<and> n \<le> 122))"

definition entity_at :: "string \<Rightarrow> bool" where
  "entity_at s \<longleftrightarrow> js_starts_with ''lt;'' s \<or> js_starts_with ''gt;'' s
     \<or> (js_starts_with ''#'' s \<and>
          (let t = dropWhile (\<lambda>c. c = CHR ''0'') (tl s) in js_starts_with ''60;'' t \<or> js_starts_with ''62;'' t))
     \<or> ((js_starts_with ''#x'' s \<or> js_starts_with ''#X'' s) \<and>
          (let t = dropWhile (\<lambda>c. c = CHR ''0'') (drop 2 s) in js_starts_with ''3c;'' t \<or> js_starts_with ''3C;'' t))"

fun has_markup :: "string \<Rightarrow> bool" where
  "has_markup [] = False"
| "has_markup (c # cs) =
     ((c = CHR ''<'' \<and> (case cs of d # _ \<Rightarrow> is_letter d \<or> d = CHR ''/'' \<or> d = CHR ''!'' | [] \<Rightarrow> False))
      \<or> (c = CHR ''&'' \<and> entity_at cs) \<or> has_markup cs)"

definition MAX_DESCRIPTION_LENGTH :: nat where
  "MAX_DESCRIPTION_LENGTH = 200"

definition truncateDescription :: "('u \<Rightarrow> nat) \<Rightarrow> 'u list \<Rightarrow> nat \<Rightarrow> 'u list" where
  "truncateDescription code s maxLength =
     (if length s \<le> maxLength then s
      else take (if 0xd800 \<le> code (s ! (maxLength - 1)) \<and> code (s ! (maxLength - 1)) \<le> 0xdbff
                 then maxLength - 1 else maxLength) s)"

section \<open>Route templates\<close>

text \<open>
  \<open>decodeURIComponent\<close>, giving code points: \<open>None\<close> when it throws. A byte below 128 stands for
  itself; a longer UTF-8 sequence must be complete, as short as possible, and no surrogate.
\<close>

definition hex_of :: "char \<Rightarrow> nat option" where
  "hex_of c = (let n = (of_char c :: nat) in
     if 48 \<le> n \<and> n \<le> 57 then Some (n - 48)
     else if 65 \<le> n \<and> n \<le> 70 then Some (n - 55)
     else if 97 \<le> n \<and> n \<le> 102 then Some (n - 87) else None)"

definition percent_byte :: "string \<Rightarrow> (nat \<times> string) option" where
  "percent_byte s =
     (case s of
        p # a # b # rest \<Rightarrow>
          (if p = CHR ''%'' then
             (case (hex_of a, hex_of b) of (Some x, Some y) \<Rightarrow> Some (16 * x + y, rest) | _ \<Rightarrow> None)
           else None)
      | _ \<Rightarrow> None)"

text \<open>\<open>n\<close> continuation bytes, added to the bits read so far.\<close>

fun continuation :: "nat \<Rightarrow> nat \<Rightarrow> string \<Rightarrow> (nat \<times> string) option" where
  "continuation 0 acc s = Some (acc, s)"
| "continuation (Suc n) acc s =
     (case percent_byte s of
        None \<Rightarrow> None
      | Some (b, rest) \<Rightarrow> if 128 \<le> b \<and> b < 192 then continuation n (64 * acc + (b - 128)) rest else None)"

definition utf8_point :: "nat \<Rightarrow> string \<Rightarrow> (nat \<times> string) option" where
  "utf8_point b rest =
     (if b < 128 then Some (b, rest)
      else if 192 \<le> b \<and> b < 224 then
        (case continuation 1 (b - 192) rest of Some (v, r) \<Rightarrow> if 128 \<le> v then Some (v, r) else None | None \<Rightarrow> None)
      else if 224 \<le> b \<and> b < 240 then
        (case continuation 2 (b - 224) rest of
           Some (v, r) \<Rightarrow> if 2048 \<le> v \<and> \<not> (0xd800 \<le> v \<and> v \<le> 0xdfff) then Some (v, r) else None
         | None \<Rightarrow> None)
      else if 240 \<le> b \<and> b < 248 then
        (case continuation 3 (b - 240) rest of
           Some (v, r) \<Rightarrow> if 65536 \<le> v \<and> v \<le> 0x10ffff then Some (v, r) else None
         | None \<Rightarrow> None)
      else None)"

lemma percent_byte_shorter: "percent_byte s = Some (b, r) \<Longrightarrow> length r < length s"
  by (auto simp: percent_byte_def split: list.splits option.splits if_splits)

lemma continuation_shorter: "continuation n acc s = Some (v, r) \<Longrightarrow> length r \<le> length s"
  by (induction n arbitrary: acc s) (force split: option.splits if_splits dest: percent_byte_shorter)+

lemma utf8_shorter: "utf8_point b s = Some (v, r) \<Longrightarrow> length r \<le> length s"
  by (auto simp: utf8_point_def simp del: continuation.simps split: option.splits if_splits dest: continuation_shorter)

function decodeURIComponent :: "string \<Rightarrow> nat list option" where
  "decodeURIComponent [] = Some []"
| "decodeURIComponent (c # cs) =
     (if c \<noteq> CHR ''%'' then map_option (Cons (of_char c)) (decodeURIComponent cs)
      else (case percent_byte (c # cs) of
              None \<Rightarrow> None
            | Some (b, rest) \<Rightarrow>
                (case utf8_point b rest of
                   None \<Rightarrow> None
                 | Some (v, r) \<Rightarrow> map_option (Cons v) (decodeURIComponent r))))"
  by pat_completeness auto
termination
  by (relation "measure length") (auto dest!: percent_byte_shorter utf8_shorter)

definition codes :: "string \<Rightarrow> nat list" where
  "codes s = map of_char s"

definition traverses :: "'a list \<Rightarrow> (string \<Rightarrow> 'a list) \<Rightarrow> bool" where
  "traverses s code \<longleftrightarrow> js_includes (code ''..'') s \<or> js_includes (code ''://'') s \<or> js_includes (code [CHR 0x5C]) s"

definition isHostileRouteTemplate :: "json \<Rightarrow> bool" where
  "isHostileRouteTemplate j =
     (case j of
        JStr s \<Rightarrow>
          if s = [] then False
          else if \<not> js_includes ''%'' s \<and> \<not> traverses s (\<lambda>x. x) then False
          else (case decodeURIComponent s of None \<Rightarrow> True | Some d \<Rightarrow> traverses d codes)
      | _ \<Rightarrow> False)"

text \<open>The parameters of a template: each brace that is closed after at least one character.\<close>

lemma dropWhile_shorter: "y # ys = dropWhile P xs \<Longrightarrow> length ys < length xs"
  by (metis Suc_le_eq length_Cons length_dropWhile_le)

function route_params :: "string \<Rightarrow> string list" where
  "route_params [] = []"
| "route_params (c # cs) =
     (if c = CHR ''{'' then
        (case (takeWhile (\<lambda>x. x \<noteq> CHR ''}'') cs, dropWhile (\<lambda>x. x \<noteq> CHR ''}'') cs) of
           (name, _ # rest) \<Rightarrow> if name = [] then route_params cs else name # route_params rest
         | (_, []) \<Rightarrow> route_params cs)
      else route_params cs)"
  by pat_completeness auto
termination
  by (relation "measure length") (auto dest: dropWhile_shorter)

section \<open>The policy\<close>

text \<open>What \<open>extractDiscoveryInfo\<close> finds, and the functions the policy calls.\<close>

record discovery =
  dx_toolName :: "string option"
  dx_resourceUrl :: "string option"
  dx_serviceName :: "string option"
  dx_description :: "string option"
  dx_tags :: "string list option"
  dx_iconUrl :: "string option"
  dx_scheme :: "string option"
  dx_extensions :: "(string \<times> json) list option"

datatype extraction = Extract_threw bool | Extract_none | Extracted discovery   \<comment> \<open>thrown for an invalid URL?\<close>

record discovery_sdk =
  ds_extract :: "json \<Rightarrow> json \<Rightarrow> extraction"
  ds_schema :: "json \<Rightarrow> bool"
  ds_routeTemplate :: "json \<Rightarrow> bool"
  ds_serviceName :: "json \<Rightarrow> bool"
  ds_iconUrl :: "json \<Rightarrow> bool"
  ds_tags :: "json list \<Rightarrow> string list option"
  ds_protocol :: "string \<Rightarrow> string option"

record policy_result =
  vr_hardDrop :: bool
  vr_reason :: "string option"
  vr_softDrops :: "string list"
  vr_truncations :: "string list"
  vr_advisories :: "string list"
  vr_resource :: "resource option"

definition createResult :: policy_result where
  "createResult = \<lparr>vr_hardDrop = False, vr_reason = None, vr_softDrops = [], vr_truncations = [], vr_advisories = [], vr_resource = None\<rparr>"

definition hard_drop :: "string \<Rightarrow> policy_result \<Rightarrow> policy_result" where
  "hard_drop reason r = r\<lparr>vr_hardDrop := True, vr_reason := Some reason\<rparr>"

definition soft_drop :: "string \<Rightarrow> policy_result \<Rightarrow> policy_result" where
  "soft_drop field r = r\<lparr>vr_softDrops := vr_softDrops r @ [field]\<rparr>"

text \<open>\<open>a ?? b\<close> and \<open>a || b\<close> on values that may be undefined.\<close>

definition js_coalesce :: "json option \<Rightarrow> json option \<Rightarrow> json option" where
  "js_coalesce a b = (case a of Some JNull \<Rightarrow> b | None \<Rightarrow> b | Some j \<Rightarrow> Some j)"

definition js_or_else :: "json option \<Rightarrow> json option \<Rightarrow> json option" where
  "js_or_else a b = (case a of Some j \<Rightarrow> if js_truthy j then Some j else b | None \<Rightarrow> b)"

definition js_prop :: "string \<Rightarrow> json option \<Rightarrow> json option" where
  "js_prop k v = Option.bind v (jprop k)"

definition truthy_opt :: "json option \<Rightarrow> bool" where
  "truthy_opt v = (case v of Some j \<Rightarrow> js_truthy j | None \<Rightarrow> False)"

text \<open>The checks of a present \<open>bazaar\<close> extension; \<open>assets\<close> is the map of known decimals, when there is one.\<close>

definition amount_refused :: "(string \<Rightarrow> int option) option \<Rightarrow> json \<Rightarrow> json \<Rightarrow> bool" where
  "amount_refused assets bazaar reqs =
     (let pricing = jprop ''pricing'' bazaar; amount = js_prop ''amount'' pricing in
      if amount = None then False
      else if validateAmount amount \<noteq> [] then True
      else
        (let asset = js_coalesce (js_prop ''asset'' pricing) (js_coalesce (jprop ''asset'' reqs) (Some (JStr ''native'')));
             decimals = nullish_or (Option.bind assets (\<lambda>m. m (js_text (the asset)))) STELLAR_DECIMALS
         in case amount of
              Some (JStr s) \<Rightarrow> int (length (frac_part s)) > decimals
            | _ \<Rightarrow> False))"

definition bazaar_refusal :: "discovery_sdk \<Rightarrow> (string \<Rightarrow> int option) option \<Rightarrow> json option \<Rightarrow> json \<Rightarrow> string option" where
  "bazaar_refusal sdk assets bazaar reqs =
     (case bazaar of
        None \<Rightarrow> None
      | Some b \<Rightarrow>
          if \<not> js_truthy b then None
          else if \<not> ds_schema sdk b then Some ''invalid_extension_schema''
          else if amount_refused assets b reqs then Some ''invalid_pricing_amount''
          else None)"

text \<open>
  The fields of the resource, each kept, dropped or shortened. What \<open>isValidServiceName\<close> and
  \<open>isValidIconUrl\<close> accept is a string.
\<close>

definition policy_serviceName :: "discovery_sdk \<Rightarrow> json option \<Rightarrow> discovery \<times> policy_result \<Rightarrow> discovery \<times> policy_result" where
  "policy_serviceName sdk raw s =
     (case s of (x, r) \<Rightarrow>
        (case raw of
           None \<Rightarrow> (x, r)
         | Some j \<Rightarrow> if \<not> ds_serviceName sdk j then (x\<lparr>dx_serviceName := None\<rparr>, soft_drop ''serviceName'' r)
                    else (x\<lparr>dx_serviceName := str_of raw\<rparr>, r)))"

definition policy_iconUrl :: "discovery_sdk \<Rightarrow> json option \<Rightarrow> discovery \<times> policy_result \<Rightarrow> discovery \<times> policy_result" where
  "policy_iconUrl sdk raw s =
     (case s of (x, r) \<Rightarrow>
        (case raw of
           None \<Rightarrow> (x, r)
         | Some j \<Rightarrow> if \<not> ds_iconUrl sdk j then (x\<lparr>dx_iconUrl := None\<rparr>, soft_drop ''iconUrl'' r)
                    else (x\<lparr>dx_iconUrl := str_of raw\<rparr>, r)))"

definition policy_description :: "json option \<Rightarrow> discovery \<times> policy_result \<Rightarrow> discovery \<times> policy_result" where
  "policy_description raw s =
     (case s of (x, r) \<Rightarrow>
        (case str_of raw of
           None \<Rightarrow> (x, r)
         | Some d \<Rightarrow>
             (let description = js_trim d in
              if (CHR ''<'' \<in> set description \<or> CHR ''&'' \<in> set description) \<and> has_markup description
              then (x\<lparr>dx_description := None\<rparr>, soft_drop ''description'' r)
              else if length description > MAX_DESCRIPTION_LENGTH
              then (x\<lparr>dx_description := Some (truncateDescription of_char description MAX_DESCRIPTION_LENGTH)\<rparr>,
                    r\<lparr>vr_truncations := vr_truncations r @ [''description'']\<rparr>)
              else (x\<lparr>dx_description := Some description\<rparr>, r))))"

definition policy_tags :: "discovery_sdk \<Rightarrow> json option \<Rightarrow> discovery \<times> policy_result \<Rightarrow> discovery \<times> policy_result" where
  "policy_tags sdk raw s =
     (case s of (x, r) \<Rightarrow>
        (case raw of
           Some (JArr ts) \<Rightarrow>
             (let tags = nullish_or (ds_tags sdk ts) [] in
              (x\<lparr>dx_tags := Some tags\<rparr>, if map JStr tags \<noteq> ts then soft_drop ''tags_filtered'' r else r))
         | _ \<Rightarrow> (x, r)))"

text \<open>\<open>pactwrightListing\<close>: the terms of the escrow, each field only when it is well typed.\<close>

definition hex64 :: "string \<Rightarrow> bool" where
  "hex64 s \<longleftrightarrow> length s = 64 \<and> list_all (\<lambda>c. hex_of c \<noteq> None) s"

definition float_text :: "string \<Rightarrow> bool" where
  "float_text s =
     (case dropWhile is_digit s of
        [] \<Rightarrow> digits1 s
      | c # ds \<Rightarrow> c = CHR ''.'' \<and> digits1 (takeWhile is_digit s) \<and> digits1 ds \<and> length ds \<le> 7)"

definition pactwrightListing :: "json \<Rightarrow> json option" where
  "pactwrightListing reqs =
     (case js_prop ''pactwright'' (jprop ''extra'' reqs) of
        Some (JObj terms) \<Rightarrow>
          (let mode = (if jprop ''scheme'' reqs = Some (JStr ''pact'') then ''escrow'' else ''exact-refund'') in
           Some (JObj
             ([(''mode'', JStr mode)]
              @ (case map_of terms ''verifier'' of Some (JStr v) \<Rightarrow> if hex64 v then [(''verifier'', JStr (js_lower v))] else [] | _ \<Rightarrow> [])
              @ (case map_of terms ''silence'' of
                   Some (JStr v) \<Rightarrow> if v = ''refund'' \<or> v = ''pay'' then [(''silence'', JStr v)] else [] | _ \<Rightarrow> [])
              @ (case map_of terms ''refundWindowLedgers'' of
                   Some (JNum n) \<Rightarrow> if 0 \<le> n then [(''refundWindowLedgers'', JNum n)] else [] | _ \<Rightarrow> [])
              @ (case map_of terms ''float'' of Some (JStr v) \<Rightarrow> if float_text v then [(''float'', JStr v)] else [] | _ \<Rightarrow> []))))
      | _ \<Rightarrow> None)"

text \<open>The resource that is stored; a URL or payee that is missing is the empty text.\<close>

definition policy_resource :: "json \<Rightarrow> discovery \<Rightarrow> resource" where
  "policy_resource reqs x =
     \<lparr>rs_type = (if nullish_or (dx_toolName x) [] \<noteq> [] then ''mcp'' else ''http''),
      rs_url = nullish_or (dx_resourceUrl x) [], rs_toolName = dx_toolName x, rs_serviceName = dx_serviceName x,
      rs_description = dx_description x, rs_tags = dx_tags x, rs_iconUrl = dx_iconUrl x, rs_scheme = dx_scheme x,
      rs_network = str_of (jprop ''network'' reqs), rs_extensions = dx_extensions x,
      rs_payTo = nullish_or (str_of (jprop ''payTo'' reqs)) [], rs_pactwright = pactwrightListing reqs\<rparr>"

definition check_url :: "discovery_sdk \<Rightarrow> string \<Rightarrow> policy_result \<Rightarrow> policy_result" where
  "check_url sdk url r =
     (if url = [] then r
      else (case ds_protocol sdk url of
              None \<Rightarrow> hard_drop ''invalid_url'' r
            | Some p \<Rightarrow> if p \<noteq> ''http:'' \<and> p \<noteq> ''https:'' then hard_drop ''invalid_url_scheme'' r else r))"

definition validatePolicy ::
  "discovery_sdk \<Rightarrow> (string \<Rightarrow> int option) option \<Rightarrow> json \<Rightarrow> json \<Rightarrow> policy_result \<Rightarrow> policy_result" where
  "validatePolicy sdk assets payload reqs result =
     (case ds_extract sdk payload reqs of
        Extract_threw badUrl \<Rightarrow> hard_drop (if badUrl then ''invalid_url'' else ''missing_or_invalid_discovery_extension'') result
      | Extract_none \<Rightarrow> hard_drop ''missing_or_invalid_discovery_extension'' result
      | Extracted x \<Rightarrow>
          (let rawBazaar = js_prop ''bazaar'' (jprop ''extensions'' payload); resource = jprop ''resource'' payload in
           case bazaar_refusal sdk assets rawBazaar reqs of
             Some reason \<Rightarrow> hard_drop reason result
           | None \<Rightarrow>
               (let rawTemplate = js_prop ''routeTemplate'' rawBazaar;
                    bad = (case rawTemplate of None \<Rightarrow> False | Some t \<Rightarrow> \<not> ds_routeTemplate sdk t)
                in if bad \<and> isHostileRouteTemplate (the rawTemplate) then hard_drop ''invalid_routeTemplate'' result
                   else
                     (let r0 = (if bad then soft_drop ''routeTemplate'' result else result);
                          (x1, r1) = policy_tags sdk (js_prop ''tags'' resource)
                            (policy_description (js_prop ''description'' resource)
                               (policy_iconUrl sdk (js_prop ''iconUrl'' resource)
                                  (policy_serviceName sdk (js_prop ''serviceName'' resource) (x, r0))));
                          res = policy_resource reqs x1
                      in check_url sdk (rs_url res) (r1\<lparr>vr_resource := Some res\<rparr>)))))"

section \<open>Declarations\<close>

text \<open>
  \<open>declaration.parameters?.[name]\<close> is truthy also for the names every object inherits.
\<close>

definition object_prototype :: "string list" where
  "object_prototype = [''constructor'', ''hasOwnProperty'', ''isPrototypeOf'', ''propertyIsEnumerable'', ''toLocaleString'',
     ''toString'', ''valueOf'', ''__defineGetter__'', ''__defineSetter__'', ''__lookupGetter__'', ''__lookupSetter__'', ''__proto__'']"

definition described :: "json option \<Rightarrow> string \<Rightarrow> bool" where
  "described parameters name =
     (case parameters of
        Some (JObj ps) \<Rightarrow> (case map_of ps name of Some j \<Rightarrow> js_truthy j | None \<Rightarrow> name \<in> set object_prototype)
      | _ \<Rightarrow> False)"

definition route_advisories :: "json \<Rightarrow> string list" where
  "route_advisories decl =
     (if truthy_opt (jprop ''routeTemplate'' decl) then [] else [''routeTemplate is required''])
     @ (case jprop ''routeTemplate'' decl of
          Some (JStr t) \<Rightarrow>
            map (\<lambda>p. ''Missing description for parameter: '' @ p)
              (filter (\<lambda>p. \<not> described (jprop ''parameters'' decl) p) (route_params t))
        | _ \<Rightarrow> [])"

definition pricing_advisories :: "json \<Rightarrow> string list" where
  "pricing_advisories decl =
     (case jprop ''pricing'' decl of
        Some p \<Rightarrow>
          (case p of
             JObj _ \<Rightarrow> (if truthy_opt (jprop ''amount'' p) then [] else [''pricing.amount is required''])
                      @ (if truthy_opt (jprop ''asset'' p) then [] else [''pricing.asset is required''])
           | JArr _ \<Rightarrow> [''pricing.amount is required'', ''pricing.asset is required'']
           | _ \<Rightarrow> [''pricing object is required''])
      | None \<Rightarrow> [''pricing object is required''])"

definition addAdvisories :: "json \<Rightarrow> policy_result \<Rightarrow> policy_result" where
  "addAdvisories decl r = r\<lparr>vr_advisories := vr_advisories r @ route_advisories decl @ pricing_advisories decl\<rparr>"

definition is_object :: "json option \<Rightarrow> bool" where
  "is_object v = (case v of Some (JObj _) \<Rightarrow> True | Some (JArr _) \<Rightarrow> True | _ \<Rightarrow> False)"

text \<open>An object literal; a property whose value is undefined reads as a missing one.\<close>

definition js_object :: "(string \<times> json option) list \<Rightarrow> json" where
  "js_object fs = JObj (concat (map (\<lambda>(k, v). case v of None \<Rightarrow> [] | Some j \<Rightarrow> [(k, j)]) fs))"

definition default_schema :: json where
  "default_schema = JObj [(''type'', JStr ''object''),
     (''properties'', JObj [(''input'', JObj [(''type'', JStr ''object''),
        (''properties'', JObj [(''type'', JObj [(''type'', JStr ''string'')]), (''method'', JObj [(''type'', JStr ''string'')])]),
        (''required'', JArr [JStr ''type'', JStr ''method''])])]),
     (''required'', JArr [JStr ''input''])]"

definition declared_payment :: "json \<Rightarrow> json" where
  "declared_payment input = js_object
     [(''x402Version'', Some (JNum 2)),
      (''resource'', Some (js_object
         [(''url'', js_or_else (jprop ''url'' input) (js_or_else (jprop ''resourceUrl'' input) (Some (JStr ''https://discovery.invalid'')))),
          (''serviceName'', jprop ''serviceName'' input), (''description'', jprop ''description'' input),
          (''iconUrl'', jprop ''iconUrl'' input), (''tags'', jprop ''tags'' input)])),
      (''extensions'', Some (js_object
         [(''bazaar'', Some (js_object
             [(''info'', js_or_else (jprop ''info'' input)
                 (Some (js_object [(''input'', Some (js_object
                    [(''type'', js_or_else (jprop ''type'' input) (Some (JStr ''http''))),
                     (''method'', js_or_else (jprop ''method'' input) (Some (JStr ''GET'')))]))]))),
              (''schema'', js_or_else (jprop ''schema'' input) (Some default_schema)),
              (''routeTemplate'', jprop ''routeTemplate'' input)]))]))]"

definition declared_requirements :: "json \<Rightarrow> json \<Rightarrow> json" where
  "declared_requirements input reqs = js_object
     [(''network'', js_or_else (jprop ''network'' input) (js_or_else (jprop ''network'' reqs) (Some (JStr ''stellar:testnet'')))),
      (''payTo'', js_or_else (jprop ''payTo'' input) (js_or_else (jprop ''payTo'' reqs) (Some (JStr []))))]"

definition validateDiscoveryPolicy ::
  "discovery_sdk \<Rightarrow> (string \<Rightarrow> int option) option \<Rightarrow> json option \<Rightarrow> json \<Rightarrow> policy_result" where
  "validateDiscoveryPolicy sdk assets input reqs =
     (if \<not> is_object input then hard_drop ''invalid_declaration'' createResult
      else
        (let i = the input in
         if jprop ''paymentPayload'' i \<noteq> None \<or> jprop ''paymentRequirements'' i \<noteq> None then
           (if \<not> is_object (jprop ''paymentPayload'' i) then hard_drop ''missing_or_invalid_discovery_extension'' createResult
            else if \<not> is_object (jprop ''paymentRequirements'' i) then hard_drop ''invalid_declaration'' createResult
            else validatePolicy sdk assets (the (jprop ''paymentPayload'' i)) (the (jprop ''paymentRequirements'' i)) createResult)
         else validatePolicy sdk assets (declared_payment i) (declared_requirements i reqs) (addAdvisories i createResult)))"

definition validateForCatalog :: "discovery_sdk \<Rightarrow> (string \<Rightarrow> int option) option \<Rightarrow> json \<Rightarrow> json \<Rightarrow> policy_result" where
  "validateForCatalog sdk assets payload reqs =
     validateDiscoveryPolicy sdk assets (Some (JObj [(''paymentPayload'', payload), (''paymentRequirements'', reqs)])) reqs"

section \<open>What is admitted\<close>

lemma decimal_amount_chars: "decimal_amount s \<Longrightarrow> hd s = CHR ''+'' \<or> hd s = CHR ''-'' \<or> is_digit (hd s)"
  by (auto simp: decimal_amount_def unsigned_decimal_def digits1_def dropWhile_eq_Nil_conv
      split: list.splits if_splits dest: set_takeWhileD)

subsection \<open>Markup\<close>

text \<open>A string without markup keeps none when it is cut.\<close>

lemma js_starts_with_iff: "js_starts_with p s \<longleftrightarrow> (\<exists>u. s = p @ u)"
proof
  show "js_starts_with p s \<Longrightarrow> \<exists>u. s = p @ u" unfolding js_starts_with_def by (metis append_take_drop_id)
qed (auto simp: js_starts_with_def)

lemma starts_with_append: "js_starts_with p s \<Longrightarrow> js_starts_with p (s @ u)"
  by (auto simp: js_starts_with_iff)

lemma entity_at_append:
  assumes "entity_at s"
  shows "entity_at (s @ u)"
proof -
  have ne: "dropWhile P s \<noteq> []" if "js_starts_with (c # p) (dropWhile P s)" for P p and c :: char and s :: string
    using that by (metis append_Cons js_starts_with_iff list.distinct(1))
  have dw: "dropWhile P (s @ u) = dropWhile P s @ u" if "dropWhile P s \<noteq> []" for P and s :: string
    using that by (metis dropWhile_append1 dropWhile_eq_Nil_conv)
  have tl: "js_starts_with ''#'' s \<Longrightarrow> tl (s @ u) = tl s @ u"
    by (auto simp: js_starts_with_iff)
  have two: "js_starts_with [c, d] s \<Longrightarrow> drop 2 (s @ u) = drop 2 s @ u" for c d
    by (auto simp: js_starts_with_iff)
  from assms consider "js_starts_with ''lt;'' s" | "js_starts_with ''gt;'' s"
    | p where "p \<in> {''60;'', ''62;''}" "js_starts_with ''#'' s" "js_starts_with p (dropWhile (\<lambda>c. c = CHR ''0'') (tl s))"
    | p x where "p \<in> {''3c;'', ''3C;''}" "x \<in> {''#x'', ''#X''}" "js_starts_with x s"
        "js_starts_with p (dropWhile (\<lambda>c. c = CHR ''0'') (drop 2 s))"
    unfolding entity_at_def Let_def by blast
  then show ?thesis
  proof cases
    case 3
    with ne have "js_starts_with p (dropWhile (\<lambda>c. c = CHR ''0'') (tl (s @ u)))"
      by (auto simp: tl dw intro: starts_with_append)
    with 3 starts_with_append [of "''#''" s u] show ?thesis by (auto simp: entity_at_def Let_def)
  next
    case 4
    with ne two have "js_starts_with p (dropWhile (\<lambda>c. c = CHR ''0'') (drop 2 (s @ u)))"
      by (auto simp: dw simp del: drop_append intro: starts_with_append)
    with 4 starts_with_append [of x s u] show ?thesis by (auto simp: entity_at_def Let_def simp del: drop_append)
  qed (simp_all add: entity_at_def starts_with_append)
qed

lemma has_markup_append: "has_markup s \<Longrightarrow> has_markup (s @ u)"
proof (induction s)
  case (Cons c cs)
  then show ?case using entity_at_append [of cs u] by (cases cs) auto
qed simp

lemma has_markup_take: "has_markup (take n s) \<Longrightarrow> has_markup s"
  using has_markup_append [of "take n s" "drop n s"] by simp

subsection \<open>Surrogates\<close>

definition high_unit :: "nat \<Rightarrow> bool" where
  "high_unit n \<longleftrightarrow> 0xd800 \<le> n \<and> n \<le> 0xdbff"

definition low_unit :: "nat \<Rightarrow> bool" where
  "low_unit n \<longleftrightarrow> 0xdc00 \<le> n \<and> n \<le> 0xdfff"

text \<open>Text: every high surrogate is followed by a low one, and no low one stands alone.\<close>

fun utf16_ok :: "nat list \<Rightarrow> bool" where
  "utf16_ok [] = True"
| "utf16_ok [a] = (\<not> high_unit a \<and> \<not> low_unit a)"
| "utf16_ok (a # b # cs) =
     (if high_unit a then low_unit b \<and> utf16_ok cs else \<not> low_unit a \<and> utf16_ok (b # cs))"

lemma high_not_low: "high_unit n \<Longrightarrow> \<not> low_unit n"
  by (simp add: high_unit_def low_unit_def)

lemma utf16_next:
  "utf16_ok xs \<Longrightarrow> Suc i < length xs \<Longrightarrow> high_unit (xs ! i) \<Longrightarrow> low_unit (xs ! Suc i)"
proof (induction xs arbitrary: i rule: utf16_ok.induct)
  case (3 a b cs)
  show ?case
  proof (cases "high_unit a")
    case True
    then have ok: "low_unit b" "utf16_ok cs" using 3(3) by simp_all
    show ?thesis
    proof (cases i)
      case 0
      with ok show ?thesis by simp
    next
      case (Suc j)
      show ?thesis
      proof (cases j)
        case 0
        with Suc 3(5) ok(1) high_not_low show ?thesis by simp
      next
        case (Suc l)
        with \<open>i = Suc j\<close> 3(1) [OF True ok(2), of l] 3(4,5) show ?thesis by simp
      qed
    qed
  next
    case False
    then have "utf16_ok (b # cs)" using 3(3) by simp
    with False 3(2) [OF False this, of "i - 1"] 3(4,5) show ?thesis by (cases i) auto
  qed
qed auto

lemma utf16_take:
  "utf16_ok xs \<Longrightarrow> n \<le> length xs \<Longrightarrow> n = 0 \<or> \<not> high_unit (xs ! (n - 1)) \<Longrightarrow> utf16_ok (take n xs)"
proof (induction xs arbitrary: n rule: utf16_ok.induct)
  case (3 a b cs)
  show ?case
  proof (cases "high_unit a")
    case True
    then have ok: "low_unit b" "utf16_ok cs" using 3(3) by simp_all
    consider "n = 0" | "n = 1" | j where "n = Suc (Suc j)" by (metis One_nat_def not0_implies_Suc)
    then show ?thesis
    proof cases
      case (3 j)
      with True ok "3.IH"(1) [OF True ok(2), of j] "3.prems" show ?thesis by (cases j) auto
    qed (use True "3.prems"(3) in auto)
  next
    case False
    then have ok: "utf16_ok (b # cs)" "\<not> low_unit a" using 3(3) by simp_all
    show ?thesis
    proof (cases n)
      case (Suc j)
      then have "utf16_ok (take j (b # cs))"
        using False 3(2) [OF False ok(1), of j] 3(4,5) by (cases j) auto
      with False ok(2) Suc show ?thesis by (cases j) auto
    qed simp
  qed
next
  case (2 a)
  then show ?case by (cases n) auto
qed simp

lemma truncate_utf16:
  assumes "utf16_ok (map code s)" "1 \<le> n"
  shows "utf16_ok (map code (truncateDescription code s n))"
proof (cases "length s \<le> n")
  case False
  let ?m = "if high_unit (code (s ! (n - 1))) then n - 1 else n"
  have cut: "truncateDescription code s n = take ?m s"
    using False by (simp add: truncateDescription_def high_unit_def)
  have "\<not> high_unit (map code s ! (?m - 1))" if "?m \<noteq> 0"
  proof (cases "high_unit (code (s ! (n - 1)))")
    case True
    with that have n: "2 \<le> n" by simp
    have "\<not> high_unit (code (s ! (n - 2)))"
    proof
      assume "high_unit (code (s ! (n - 2)))"
      then have "low_unit (map code s ! Suc (n - 2))"
        using utf16_next [OF assms(1), of "n - 2"] False n by simp
      moreover have "map code s ! Suc (n - 2) = code (s ! (n - 1))" using False n by (simp add: Suc_diff_Suc numeral_2_eq_2)
      ultimately show False using True high_not_low by simp
    qed
    with True n False show ?thesis by (simp add: numeral_2_eq_2)
  qed (use False assms(2) in simp)
  then have "utf16_ok (take ?m (map code s))"
    using assms False by (intro utf16_take) auto
  then show ?thesis by (simp add: cut take_map)
qed (use assms in \<open>simp add: truncateDescription_def\<close>)

lemma truncate_prefix: "\<exists>m. truncateDescription code s n = take m s \<and> m \<le> max n (length s)"
  by (auto simp: truncateDescription_def intro: exI [of _ "length s"])

lemma truncate_length: "length (truncateDescription code s n) \<le> n"
  by (auto simp: truncateDescription_def)

subsection \<open>The policy's promises\<close>

lemma policy_hardDrop [simp]:
  "vr_hardDrop (snd (policy_serviceName sdk raw s)) = vr_hardDrop (snd s)"
  "vr_hardDrop (snd (policy_iconUrl sdk raw s)) = vr_hardDrop (snd s)"
  "vr_hardDrop (snd (policy_description raw s)) = vr_hardDrop (snd s)"
  "vr_hardDrop (snd (policy_tags sdk raw s)) = vr_hardDrop (snd s)"
  "vr_hardDrop (soft_drop f r) = vr_hardDrop r" "vr_hardDrop (hard_drop f r)"
  by (auto simp: policy_serviceName_def policy_iconUrl_def policy_description_def policy_tags_def soft_drop_def
      hard_drop_def Let_def split: prod.splits option.splits json.splits)

lemma policy_tags_description [simp]: "dx_description (fst (policy_tags sdk raw s)) = dx_description (fst s)"
  by (auto simp: policy_tags_def Let_def split: prod.splits option.splits json.splits)

text \<open>A description is stored without markup, within its length, as a prefix of what was declared.\<close>

definition clean_description :: "string \<Rightarrow> string option \<Rightarrow> bool" where
  "clean_description d stored \<longleftrightarrow>
     (case stored of None \<Rightarrow> has_markup (js_trim d)
      | Some t \<Rightarrow> \<not> has_markup t \<and> length t \<le> MAX_DESCRIPTION_LENGTH \<and> (\<exists>u. js_trim d = t @ u))"

lemma has_markup_char: "has_markup s \<Longrightarrow> CHR ''<'' \<in> set s \<or> CHR ''&'' \<in> set s"
  by (induction s) auto

lemma policy_description_clean:
  assumes "raw = Some (JStr d)"
  shows "clean_description d (dx_description (fst (policy_description raw s)))"
proof -
  define t where "t = js_trim d"
  let ?t = "truncateDescription of_char t MAX_DESCRIPTION_LENGTH"
  obtain m where m: "?t = take m t" using truncate_prefix [of of_char t MAX_DESCRIPTION_LENGTH] by blast
  have cut: "\<exists>u. t = ?t @ u" unfolding m by (metis append_take_drop_id)
  have clean: "\<not> has_markup t \<Longrightarrow> \<not> has_markup ?t" unfolding m using has_markup_take by blast
  have eq: "dx_description (fst (policy_description raw s)) =
      (if has_markup t then None else if length t > MAX_DESCRIPTION_LENGTH then Some ?t else Some t)"
  proof -
    have h: "(CHR ''<'' \<in> set t \<or> CHR ''&'' \<in> set t) \<and> has_markup t \<longleftrightarrow> has_markup t" using has_markup_char by blast
    show ?thesis
      unfolding policy_description_def assms str_of_def Let_def t_def [symmetric]
      by (cases s) (simp only: prod.case option.case json.case t_def [symmetric] h if_distrib [of fst] if_distrib [of dx_description] fst_conv, simp)
  qed
  consider "has_markup t" | "\<not> has_markup t" "length t > MAX_DESCRIPTION_LENGTH" | "\<not> has_markup t" "length t \<le> MAX_DESCRIPTION_LENGTH"
    by fastforce
  then show ?thesis
  proof cases
    case 1
    then show ?thesis unfolding eq clean_description_def t_def [symmetric] by simp
  next
    case 2
    then have "dx_description (fst (policy_description raw s)) = Some ?t" unfolding eq by simp
    with clean [OF 2(1)] cut truncate_length [of of_char t MAX_DESCRIPTION_LENGTH] show ?thesis
      unfolding clean_description_def t_def [symmetric] by (simp only: option.case simp_thms)
  next
    case 3
    then have "dx_description (fst (policy_description raw s)) = Some t" unfolding eq by simp
    moreover have "\<exists>u. t = t @ u" by (rule exI [of _ "[]"]) simp
    ultimately show ?thesis
      using 3 unfolding clean_description_def t_def [symmetric] by (simp only: option.case simp_thms)
  qed
qed

text \<open>An amount the policy lets through is a decimal text that is not negative, no finer than its asset.\<close>

definition sound_amount :: "(string \<Rightarrow> int option) option \<Rightarrow> json \<Rightarrow> json \<Rightarrow> bool" where
  "sound_amount assets bazaar reqs \<longleftrightarrow>
     (let pricing = jprop ''pricing'' bazaar;
          asset = js_coalesce (js_prop ''asset'' pricing) (js_coalesce (jprop ''asset'' reqs) (Some (JStr ''native'')))
      in case js_prop ''amount'' pricing of
           None \<Rightarrow> True
         | Some a \<Rightarrow> \<exists>s. a = JStr s \<and> decimal_amount s \<and> hd s \<noteq> CHR ''-''
             \<and> int (length (frac_part s)) \<le> nullish_or (Option.bind assets (\<lambda>m. m (js_text (the asset)))) 7)"

lemma validateAmount_ok: "validateAmount (Some a) = [] \<Longrightarrow> \<exists>s. a = JStr s \<and> decimal_amount s \<and> hd s \<noteq> CHR ''-''"
  by (cases a) (simp_all add: validateAmount_def split: if_splits)

lemma amount_sound:
  assumes "\<not> amount_refused assets b reqs"
  shows "sound_amount assets b reqs"
proof (cases "js_prop ''amount'' (jprop ''pricing'' b)")
  case None
  then show ?thesis by (simp add: sound_amount_def)
next
  case (Some a)
  have "validateAmount (Some a) = []" using assms unfolding amount_refused_def Let_def Some by (simp split: if_splits)
  from validateAmount_ok [OF this] obtain s where s: "a = JStr s" "decimal_amount s" "hd s \<noteq> CHR ''-''" by blast
  with assms \<open>validateAmount (Some a) = []\<close> show ?thesis
    unfolding amount_refused_def sound_amount_def Let_def Some STELLAR_DECIMALS_def by (simp add: not_less)
qed

lemma policy_admitted:
  assumes "\<not> vr_hardDrop (validatePolicy sdk assets payload reqs r0)"
  obtains res where "vr_resource (validatePolicy sdk assets payload reqs r0) = Some res"
    "\<And>d. js_prop ''description'' (jprop ''resource'' payload) = Some (JStr d) \<Longrightarrow> clean_description d (rs_description res)"
    "rs_url res = [] \<or> ds_protocol sdk (rs_url res) \<in> {Some ''http:'', Some ''https:''}"
    "\<And>t. js_prop ''routeTemplate'' (js_prop ''bazaar'' (jprop ''extensions'' payload)) = Some t \<Longrightarrow>
       ds_routeTemplate sdk t \<or> \<not> isHostileRouteTemplate t"
    "\<And>b. js_prop ''bazaar'' (jprop ''extensions'' payload) = Some b \<Longrightarrow> js_truthy b \<Longrightarrow> ds_schema sdk b \<and> sound_amount assets b reqs"
proof -
  let ?bz = "js_prop ''bazaar'' (jprop ''extensions'' payload)" and ?rs = "jprop ''resource'' payload"
  let ?rt = "js_prop ''routeTemplate'' ?bz"
  define bad where "bad = (case ?rt of None \<Rightarrow> False | Some t \<Rightarrow> \<not> ds_routeTemplate sdk t)"
  obtain x where x: "ds_extract sdk payload reqs = Extracted x"
    using assms by (auto simp: validatePolicy_def split: extraction.splits)
  have bz: "bazaar_refusal sdk assets ?bz reqs = None"
    using assms x by (auto simp: validatePolicy_def Let_def split: option.splits)
  have rt: "\<not> (bad \<and> isHostileRouteTemplate (the ?rt))"
    using assms x bz by (auto simp: validatePolicy_def Let_def bad_def)
  define s where "s = policy_description (js_prop ''description'' ?rs)
     (policy_iconUrl sdk (js_prop ''iconUrl'' ?rs) (policy_serviceName sdk (js_prop ''serviceName'' ?rs)
       (x, if bad then soft_drop ''routeTemplate'' r0 else r0)))"
  obtain x1 r1 where t: "policy_tags sdk (js_prop ''tags'' ?rs) s = (x1, r1)" by (metis surj_pair)
  let ?res = "policy_resource reqs x1"
  have r: "validatePolicy sdk assets payload reqs r0 = check_url sdk (rs_url ?res) (r1\<lparr>vr_resource := Some ?res\<rparr>)"
    using x bz rt t unfolding s_def bad_def validatePolicy_def Let_def by (simp split: option.splits) blast
  show thesis
  proof (rule that [of ?res])
    show "vr_resource (validatePolicy sdk assets payload reqs r0) = Some ?res"
      by (simp add: r check_url_def hard_drop_def split: option.splits)
    show "clean_description d (rs_description ?res)" if d: "js_prop ''description'' ?rs = Some (JStr d)" for d
    proof -
      have "dx_description x1 = dx_description (fst s)" using t policy_tags_description [of sdk _ s] by (metis fst_conv)
      then show ?thesis using policy_description_clean [OF refl, of d] by (simp add: policy_resource_def s_def d)
    qed
    show "rs_url ?res = [] \<or> ds_protocol sdk (rs_url ?res) \<in> {Some ''http:'', Some ''https:''}"
      using assms by (auto simp: r check_url_def hard_drop_def split: option.splits if_splits)
    show "ds_routeTemplate sdk t \<or> \<not> isHostileRouteTemplate t" if "?rt = Some t" for t
      using rt that by (auto simp: bad_def)
    show "ds_schema sdk b \<and> sound_amount assets b reqs" if "?bz = Some b" "js_truthy b" for b
      using bz that amount_sound [of assets b reqs] by (auto simp: bazaar_refusal_def split: if_splits)
  qed
qed

text \<open>The upper-case spelling of an angle bracket is markup to a browser, and passes.\<close>

lemma upper_entity_passes: "\<not> has_markup ''&LT;script&GT;''"
  by (simp add: entity_at_def js_starts_with_def Let_def)

section \<open>The declaration of a seller\<close>

text \<open>
  \<open>validateDiscoveryDeclaration\<close> of the SDK; \<open>None\<close> where it throws, on a route template that is
  truthy and has no \<open>match\<close>.
\<close>

definition param_name :: "string \<Rightarrow> bool" where
  "param_name s \<longleftrightarrow> s \<noteq> [] \<and> (is_letter (hd s) \<or> hd s = CHR ''_'')
     \<and> list_all (\<lambda>c. is_letter c \<or> is_digit c \<or> c = CHR ''_'') (tl s)"

definition blank_description :: "json option \<Rightarrow> string \<Rightarrow> bool" where
  "blank_description parameters name =
     (case parameters of
        Some (JObj ps) \<Rightarrow> (case map_of ps name of Some (JStr s) \<Rightarrow> js_trim s = [] | _ \<Rightarrow> True)
      | _ \<Rightarrow> True)"

fun param_errors :: "json option \<Rightarrow> string list \<Rightarrow> string list \<Rightarrow> string list" where
  "param_errors parameters seen [] = []"
| "param_errors parameters seen (raw # raws) =
     (let name = js_trim raw in
      if name = [] then ''routeTemplate contains an empty parameter placeholder'' # param_errors parameters seen raws
      else if \<not> param_name name then (''Invalid routeTemplate parameter name: '' @ name) # param_errors parameters seen raws
      else if name \<in> set seen then param_errors parameters seen raws
      else (if blank_description parameters name then [''Missing description for parameter: '' @ name] else [])
           @ param_errors parameters (name # seen) raws)"

definition template_errors :: "json \<Rightarrow> string list option" where
  "template_errors decl =
     (if \<not> truthy_opt (jprop ''routeTemplate'' decl) then Some [''routeTemplate is required'']
      else (case jprop ''routeTemplate'' decl of
              Some (JStr t) \<Rightarrow> Some (param_errors (jprop ''parameters'' decl) [] (route_params t))
            | _ \<Rightarrow> None))"

definition pricing_errors :: "json \<Rightarrow> string list" where
  "pricing_errors decl =
     (let pricing = jprop ''pricing'' decl in
      if \<not> is_object pricing then [''pricing object is required'']
      else validateAmount (js_prop ''amount'' pricing)
           @ (if truthy_opt (js_prop ''asset'' pricing) then [] else [''pricing.asset is required'']))"

definition validateDiscoveryDeclaration :: "json option \<Rightarrow> string list option" where
  "validateDiscoveryDeclaration decl =
     (if \<not> is_object decl then Some [''Declaration must be an object'']
      else map_option (\<lambda>errors. errors @ pricing_errors (the decl)) (template_errors (the decl)))"

text \<open>A declaration without errors states an amount the catalog's policy would not refuse for its form.\<close>

lemma declaration_amount:
  assumes "validateDiscoveryDeclaration decl = Some []"
  shows "\<exists>s. js_prop ''amount'' (jprop ''pricing'' (the decl)) = Some (JStr s) \<and> decimal_amount s \<and> hd s \<noteq> CHR ''-''"
proof -
  have "pricing_errors (the decl) = []"
    using assms by (auto simp: validateDiscoveryDeclaration_def split: if_splits)
  then have v: "validateAmount (js_prop ''amount'' (jprop ''pricing'' (the decl))) = []"
    by (auto simp: pricing_errors_def Let_def split: if_splits)
  then obtain a where "js_prop ''amount'' (jprop ''pricing'' (the decl)) = Some a"
    by (cases "js_prop ''amount'' (jprop ''pricing'' (the decl))") (auto simp: validateAmount_def)
  with validateAmount_ok [of a] v show ?thesis by auto
qed

end
