(* ===== verification/PactScheme.thy ===== *)
theory PactScheme
  imports JsonText CatalogValidation
begin

text \<open>
  The \<open>pact\<close> payment scheme (\<open>src/pact-scheme.js\<close>): what a signed call of \<open>pact.open\<close> must look like to
  be accepted, its fee-sponsored submission, and the follow-up calls \<open>POST /pact/submit\<close> sponsors.

  What the Stellar SDK reads out of a transaction is data here: operations, authorisation trees and
  events are records and datatypes, and a native value (\<open>scValToNative\<close>) is a JSON value. The node, the
  signers, SHA-256 and the reading of bytes and of number texts are functions of an environment. A
  call that throws is \<open>None\<close> or \<open>Boom\<close>.
\<close>

section \<open>Transactions as the SDK reads them\<close>

record auth_call =
  ac_contract :: string
  ac_fn :: string
  ac_args :: "json list"

text \<open>A node of an authorisation tree; \<open>None\<close> when it authorises no contract function.\<close>

datatype auth_node = Auth_node "auth_call option" "auth_node list"

record auth_entry =
  ae_credentials :: "(string \<times> int) option"   \<comment> \<open>address and signature expiration ledger\<close>
  ae_root :: auth_node

record invocation =
  iv_contract :: string
  iv_fn :: string
  iv_args :: "json list"

datatype host_function = Host_invoke invocation | Host_other

datatype pact_op = Op_invoke "string option" "host_function option" "auth_entry list" | Op_other

record pact_tx =
  tx_source :: string
  tx_operations :: "pact_op list"

record pact_event =
  pe_is_contract :: bool
  pe_contract :: "string option"
  pe_topics :: "json list"
  pe_data :: json

record sim_success =
  sm_minResourceFee :: jsnum
  sm_events :: "pact_event list"
  sm_retval :: "json option"

datatype simulation = Sim_ok sim_success | Sim_error string

section \<open>BigInt\<close>

text \<open>\<open>BigInt(x)\<close>, \<open>None\<close> when it throws.\<close>

definition radix_value :: "nat \<Rightarrow> string \<Rightarrow> int option" where
  "radix_value r s =
     (if s \<noteq> [] \<and> list_all (\<lambda>c. case hex_of c of Some d \<Rightarrow> d < r | None \<Rightarrow> False) s
      then Some (foldl (\<lambda>acc c. int r * acc + int (the (hex_of c))) 0 s) else None)"

definition bigint_text :: "string \<Rightarrow> int option" where
  "bigint_text s =
     (let t = js_trim s in
      case t of
        [] \<Rightarrow> Some 0
      | [c] \<Rightarrow> radix_value 10 t
      | c # d # cs \<Rightarrow>
          if c = CHR ''-'' then map_option uminus (radix_value 10 (d # cs))
          else if c = CHR ''+'' then radix_value 10 (d # cs)
          else if c = CHR ''0'' \<and> (d = CHR ''x'' \<or> d = CHR ''X'') then radix_value 16 cs
          else if c = CHR ''0'' \<and> (d = CHR ''o'' \<or> d = CHR ''O'') then radix_value 8 cs
          else if c = CHR ''0'' \<and> (d = CHR ''b'' \<or> d = CHR ''B'') then radix_value 2 cs
          else radix_value 10 t)"

definition js_BigInt :: "json option \<Rightarrow> int option" where
  "js_BigInt v =
     (case v of
        None \<Rightarrow> None
      | Some j \<Rightarrow>
          (case j of
             JNull \<Rightarrow> None
           | JBool b \<Rightarrow> Some (if b then 1 else 0)
           | JNum n \<Rightarrow> Some n
           | JStr s \<Rightarrow> bigint_text s
           | JArr _ \<Rightarrow> bigint_text (js_text j)
           | JObj _ \<Rightarrow> None))"

text \<open>\<open>===\<close> on values that may be undefined: two objects are never the same one.\<close>

definition js_same :: "json option \<Rightarrow> json option \<Rightarrow> bool" where
  "js_same a b \<longleftrightarrow> a = b \<and> (case a of Some (JObj _) \<Rightarrow> False | Some (JArr _) \<Rightarrow> False | _ \<Rightarrow> True)"

definition js_nth :: "'a list \<Rightarrow> nat \<Rightarrow> 'a option" where
  "js_nth xs i = (if i < length xs then Some (xs ! i) else None)"

section \<open>The environment\<close>

datatype poll_reply = Poll_success | Poll_failed | Poll_other   \<comment> \<open>not found yet, or the call threw\<close>

record pact_env =
  pn_signers :: "string list"
  pn_feeBump :: "string option"
  pn_contracts :: "string \<Rightarrow> string option"
  pn_maxFee :: int
  pn_inclusionFee :: int
  pn_stellar :: "json option \<Rightarrow> bool"
  pn_decode :: "string \<Rightarrow> json option \<Rightarrow> pact_tx option"
  pn_simulate :: "pact_tx \<Rightarrow> simulation option"
  pn_latest :: "int option"
  pn_ledgerSeconds :: "real option"
  pn_signatures :: "pact_tx \<Rightarrow> sim_success \<Rightarrow> string list \<times> string list"  \<comment> \<open>already signed, pending\<close>
  pn_account :: "string \<Rightarrow> bool"
  pn_balance :: "string \<Rightarrow> string \<Rightarrow> json option \<Rightarrow> bool option"  \<comment> \<open>simulation of the token's balance\<close>
  pn_sha256 :: "string \<Rightarrow> string"   \<comment> \<open>lower-case hexadecimal\<close>
  pn_bytes :: "json option \<Rightarrow> string option"   \<comment> \<open>the hexadecimal of Buffer.from\<close>
  pn_number :: "string \<Rightarrow> real option"
  pn_rebuild :: "pact_tx \<Rightarrow> pact_op \<Rightarrow> real option \<Rightarrow> string \<Rightarrow> string option"
  pn_sign :: "string \<Rightarrow> string \<Rightarrow> string option option"  \<comment> \<open>threw, refused, or signed\<close>
  pn_bump :: "string \<Rightarrow> string \<Rightarrow> string option"
  pn_send :: "string \<Rightarrow> (bool \<times> string) option"   \<comment> \<open>pending? and the hash\<close>
  pn_poll :: "string \<Rightarrow> nat \<Rightarrow> poll_reply"

definition facilitatorAddresses :: "pact_env \<Rightarrow> string list" where
  "facilitatorAddresses env = (case pn_feeBump env of Some a \<Rightarrow> pn_signers env @ [a] | None \<Rightarrow> pn_signers env)"

definition names_facilitator :: "pact_env \<Rightarrow> json option \<Rightarrow> bool" where
  "names_facilitator env v = (case v of Some (JStr a) \<Rightarrow> a \<in> set (facilitatorAddresses env) | _ \<Rightarrow> False)"

text \<open>A number of seconds as the code computes with it; \<open>None\<close> is NaN.\<close>

definition js_seconds :: "(string \<Rightarrow> real option) \<Rightarrow> json option \<Rightarrow> real option" where
  "js_seconds number v =
     (case v of
        None \<Rightarrow> Some 60
      | Some j \<Rightarrow>
          (case j of
             JNull \<Rightarrow> Some 60
           | JBool b \<Rightarrow> Some (if b then 1 else 0)
           | JNum n \<Rightarrow> Some (of_int n)
           | JStr s \<Rightarrow> number s
           | JArr _ \<Rightarrow> number (js_text j)
           | JObj _ \<Rightarrow> None))"

section \<open>The checks\<close>

definition conditionHash :: "(string \<Rightarrow> string) \<Rightarrow> json \<Rightarrow> string" where
  "conditionHash sha256 condition = sha256 (canonicalize condition)"

definition parseInvocation :: "pact_env \<Rightarrow> string \<Rightarrow> pact_tx \<Rightarrow> string + (pact_op \<times> invocation)" where
  "parseInvocation env prefix tx =
     (let wrong = Inl (prefix @ ''_wrong_operation'') in
      if length (tx_operations tx) \<noteq> 1 then wrong
      else (case hd (tx_operations tx) of
              Op_other \<Rightarrow> wrong
            | Op_invoke src func auth \<Rightarrow>
                if nullish_or src [] \<in> set (facilitatorAddresses env) \<or> tx_source tx \<in> set (facilitatorAddresses env)
                then Inl (prefix @ ''_unsafe_tx_or_op_source'')
                else (case func of
                        Some (Host_invoke i) \<Rightarrow> Inr (Op_invoke src func auth, i)
                      | _ \<Rightarrow> wrong)))"

fun op_auth :: "pact_op \<Rightarrow> auth_entry list" where
  "op_auth (Op_invoke src func auth) = auth"
| "op_auth Op_other = []"

definition SIGNATURE_EXPIRATION_LEDGER_TOLERANCE :: int where
  "SIGNATURE_EXPIRATION_LEDGER_TOLERANCE = 2"

text \<open>\<open>maxLedger\<close> is \<open>None\<close> where it is NaN: no expiration is then too far.\<close>

fun checkAuthEntries :: "pact_env \<Rightarrow> int option \<Rightarrow> string \<Rightarrow> auth_entry list \<Rightarrow> string option" where
  "checkAuthEntries env maxLedger prefix [] = None"
| "checkAuthEntries env maxLedger prefix (a # as) =
     (case ae_credentials a of
        None \<Rightarrow> Some (prefix @ ''_unsupported_credential_type'')
      | Some (addr, expires) \<Rightarrow>
          if addr \<in> set (facilitatorAddresses env) then Some (prefix @ ''_facilitator_in_auth'')
          else if (case maxLedger of None \<Rightarrow> False | Some m \<Rightarrow> expires > m + SIGNATURE_EXPIRATION_LEDGER_TOLERANCE)
          then Some (prefix @ ''_signature_expiration_too_far'')
          else checkAuthEntries env maxLedger prefix as)"

datatype check_result = Pass | Pact_fail string | Boom

definition pact_reason :: "string \<Rightarrow> string" where
  "pact_reason r = ''invalid_pact_stellar_payload_'' @ r"

record pact_deal =
  dl_buyer :: "json option"
  dl_contract :: string
  dl_cap :: int
  dl_asset :: "json option"

text \<open>\<open>checkEvents\<close>: the transfers an event list holds, then that there is one and which.\<close>

definition transfer_amount :: "json \<Rightarrow> json option" where
  "transfer_amount data =
     (case data of JObj fs \<Rightarrow> (case map_of fs ''amount'' of Some a \<Rightarrow> Some a | None \<Rightarrow> Some data) | _ \<Rightarrow> Some data)"

fun collect_transfers :: "pact_deal \<Rightarrow> pact_event list \<Rightarrow> string + (json option \<times> json option \<times> json option) list" where
  "collect_transfers d [] = Inr []"
| "collect_transfers d (e # es) =
     (if \<not> pe_is_contract e then collect_transfers d es
      else (case pe_contract e of
              None \<Rightarrow> Inl (pact_reason ''event_missing_contract_id'')
            | Some from \<Rightarrow>
                if from = dl_contract d \<and> js_nth (pe_topics e) 0 = Some (JStr ''pact'') then collect_transfers d es
                else if Some (JStr from) \<noteq> dl_asset d \<or> js_nth (pe_topics e) 0 \<noteq> Some (JStr ''transfer'')
                then Inl (pact_reason ''unexpected_event'')
                else (case collect_transfers d es of
                        Inl r \<Rightarrow> Inl r
                      | Inr ts \<Rightarrow> Inr ((js_nth (pe_topics e) 1, js_nth (pe_topics e) 2, transfer_amount (pe_data e)) # ts))))"

definition checkEvents :: "pact_deal \<Rightarrow> pact_event list \<Rightarrow> check_result" where
  "checkEvents d events =
     (case collect_transfers d events of
        Inl r \<Rightarrow> Pact_fail r
      | Inr [] \<Rightarrow> Pact_fail (pact_reason ''no_transfers'')
      | Inr [(from, to, amount)] \<Rightarrow>
          if \<not> js_same from (dl_buyer d) \<or> to \<noteq> Some (JStr (dl_contract d)) then Pact_fail (pact_reason ''wrong_transfer'')
          else (case js_BigInt amount of
                  None \<Rightarrow> Boom
                | Some n \<Rightarrow> if n = dl_cap d then Pass else Pact_fail (pact_reason ''wrong_transfer''))
      | Inr _ \<Rightarrow> Pact_fail (pact_reason ''multiple_transfers''))"

text \<open>\<open>checkAuthTree\<close>: \<open>pact.open\<close>, and beneath it at most the one transfer.\<close>

fun check_sub :: "pact_deal \<Rightarrow> auth_node \<Rightarrow> check_result" where
  "check_sub d (Auth_node fn subs) =
     (let bad = Pact_fail (pact_reason ''unexpected_subinvocations'') in
      if subs \<noteq> [] then bad
      else (case fn of
              None \<Rightarrow> bad
            | Some t \<Rightarrow>
                if Some (JStr (ac_contract t)) \<noteq> dl_asset d \<or> ac_fn t \<noteq> ''transfer''
                   \<or> \<not> js_same (js_nth (ac_args t) 0) (dl_buyer d) \<or> js_nth (ac_args t) 1 \<noteq> Some (JStr (dl_contract d))
                then bad
                else (case js_BigInt (js_nth (ac_args t) 2) of
                        None \<Rightarrow> Boom
                      | Some n \<Rightarrow> if n = dl_cap d then Pass else bad)))"

fun check_root :: "pact_deal \<Rightarrow> auth_node \<Rightarrow> check_result" where
  "check_root d (Auth_node fn subs) =
     (case fn of
        None \<Rightarrow> Pact_fail (pact_reason ''unexpected_auth'')
      | Some call \<Rightarrow>
          if ac_contract call \<noteq> dl_contract d \<or> ac_fn call \<noteq> ''open'' then Pact_fail (pact_reason ''unexpected_auth'')
          else (case subs of
                  [] \<Rightarrow> Pass
                | [s] \<Rightarrow> check_sub d s
                | _ \<Rightarrow> Pact_fail (pact_reason ''unexpected_subinvocations'')))"

fun checkAuthTree :: "pact_deal \<Rightarrow> auth_entry list \<Rightarrow> check_result" where
  "checkAuthTree d [] = Pass"
| "checkAuthTree d (a # as) = (case check_root d (ae_root a) of Pass \<Rightarrow> checkAuthTree d as | r \<Rightarrow> r)"

definition hasTrustline :: "pact_env \<Rightarrow> string \<Rightarrow> string \<Rightarrow> json option \<Rightarrow> bool option" where
  "hasTrustline env source seller asset =
     (if js_starts_with ''C'' seller then Some True
      else if pn_account env source then pn_balance env source seller asset
      else if pn_account env (hd (pn_signers env)) then pn_balance env (hd (pn_signers env)) seller asset
      else None)"

section \<open>Verification\<close>

record pact_verified =
  vf_tx :: pact_tx
  vf_op :: pact_op
  vf_sim :: sim_success
  vf_pactId :: "string option"

text \<open>How a verification stops: an answer, or an exception, each with the buyer known by then.\<close>

datatype pact_stop = Submit_refused string "json option" | Submit_threw "json option"

text \<open>The part before the transaction: the configured contract of the network.\<close>

definition pact_request :: "pact_env \<Rightarrow> json \<Rightarrow> json \<Rightarrow> string + string" where
  "pact_request env payload reqs =
     (let accepted = jprop ''accepted'' payload; net = jprop ''network'' reqs in
      if jprop ''x402Version'' payload \<noteq> Some (JNum 2) then Inl ''invalid_x402_version''
      else if js_prop ''scheme'' accepted \<noteq> Some (JStr ''pact'') \<or> jprop ''scheme'' reqs \<noteq> Some (JStr ''pact'')
      then Inl ''unsupported_scheme''
      else if \<not> js_same net (js_prop ''network'' accepted) then Inl ''network_mismatch''
      else if \<not> pn_stellar env net then Inl ''invalid_network''
      else (case Option.bind net (\<lambda>n. pn_contracts env (js_text n)) of
              None \<Rightarrow> Inl (pact_reason ''network_not_configured'')
            | Some c \<Rightarrow>
                if c = [] then Inl (pact_reason ''network_not_configured'')
                else if truthy_opt (js_prop ''pactContract'' (jprop ''extra'' reqs))
                     \<and> js_prop ''pactContract'' (jprop ''extra'' reqs) \<noteq> Some (JStr c)
                then Inl (pact_reason ''wrong_contract'')
                else Inr c))"

text \<open>The transaction, its one call of \<open>open\<close> and that call's parameters.\<close>

definition pact_call :: "pact_env \<Rightarrow> string \<Rightarrow> json \<Rightarrow> json \<Rightarrow> string + (pact_tx \<times> pact_op \<times> json)" where
  "pact_call env contract payload reqs =
     (case js_prop ''transaction'' (jprop ''payload'' payload) of
        Some (JStr text) \<Rightarrow>
          (case pn_decode env text (jprop ''network'' reqs) of
             None \<Rightarrow> Inl (pact_reason ''malformed'')
           | Some tx \<Rightarrow>
               (case parseInvocation env ''invalid_pact_stellar_payload'' tx of
                  Inl e \<Rightarrow> Inl e
                | Inr (op, fcall) \<Rightarrow>
                    if iv_contract fcall \<noteq> contract then Inl (pact_reason ''wrong_contract'')
                    else (case iv_args fcall of
                            [p] \<Rightarrow> if iv_fn fcall = ''open'' then Inr (tx, op, p) else Inl (pact_reason ''wrong_function_name'')
                          | _ \<Rightarrow> Inl (pact_reason ''wrong_function_name''))))
      | _ \<Rightarrow> Inl (pact_reason ''malformed''))"

text \<open>The agreed terms against what the call commits to; \<open>None\<close> where they agree.\<close>

definition terms_problem :: "pact_env \<Rightarrow> json \<Rightarrow> json \<Rightarrow> string \<Rightarrow> string option" where
  "terms_problem env terms params committed =
     (case jprop ''condition'' terms of
        Some c \<Rightarrow> if committed \<noteq> conditionHash (pn_sha256 env) c then Some (pact_reason ''condition_hash_mismatch'') else None
      | None \<Rightarrow> None)"

definition hash_problem :: "json \<Rightarrow> string \<Rightarrow> string option" where
  "hash_problem terms committed =
     (case jprop ''conditionHash'' terms of
        Some h \<Rightarrow> if committed \<noteq> js_lower (js_text h) then Some (pact_reason ''condition_hash_mismatch'') else None
      | None \<Rightarrow> None)"

text \<open>\<open>Number(params.silence)\<close> is compared with 1 or 2.\<close>

definition silence_problem :: "(string \<Rightarrow> real option) \<Rightarrow> json \<Rightarrow> json \<Rightarrow> string option" where
  "silence_problem number terms params =
     (case jprop ''silence'' terms of
        None \<Rightarrow> None
      | Some s \<Rightarrow>
          (let expected = (if s = JStr ''pay'' then 2 else 1);
               got = (case jprop ''silence'' params of
                        None \<Rightarrow> None
                      | Some JNull \<Rightarrow> Some 0
                      | v \<Rightarrow> js_seconds number v)
           in if got \<noteq> Some expected then Some (pact_reason ''wrong_silence'') else None))"

definition js_lazy_or :: "string option \<Rightarrow> string option \<Rightarrow> string option" where
  "js_lazy_or a b = (case a of Some r \<Rightarrow> Some r | None \<Rightarrow> b)"

definition pact_terms :: "json \<Rightarrow> json" where
  "pact_terms reqs =
     (case js_prop ''pactwright'' (jprop ''extra'' reqs) of None \<Rightarrow> JObj [] | Some t \<Rightarrow> if t = JNull then JObj [] else t)"

definition agreed_problem :: "pact_env \<Rightarrow> json \<Rightarrow> json \<Rightarrow> string \<Rightarrow> string option" where
  "agreed_problem env terms params committed =
     js_lazy_or (terms_problem env terms params committed)
       (js_lazy_or (hash_problem terms committed) (silence_problem (pn_number env) terms params))"

definition open_problem :: "pact_env \<Rightarrow> json \<Rightarrow> json \<Rightarrow> (string option \<times> int) option" where
  "open_problem env params reqs =
     (if names_facilitator env (jprop ''buyer'' params) \<or> names_facilitator env (jprop ''seller'' params)
      then Some (Some (pact_reason ''facilitator_is_party''), 0)
      else if \<not> js_same (jprop ''seller'' params) (jprop ''payTo'' reqs) then Some (Some (pact_reason ''wrong_recipient''), 0)
      else (case js_BigInt (jprop ''amount'' reqs) of
              None \<Rightarrow> None
            | Some cap \<Rightarrow>
                (case js_BigInt (jprop ''cap'' params) of
                   None \<Rightarrow> None
                 | Some n \<Rightarrow>
                     if n \<noteq> cap then Some (Some (pact_reason ''wrong_amount''), 0)
                     else (case pn_bytes env (jprop ''condition_hash'' params) of
                             None \<Rightarrow> None
                           | Some committed \<Rightarrow> Some (agreed_problem env (pact_terms reqs) params committed, cap)))))"

definition sim_reason :: "string \<Rightarrow> string" where
  "sim_reason err =
     (if js_includes ''Error(Auth, ExistingValue)'' err then pact_reason ''replayed''
      else if js_includes ''Error(Contract, #2)'' err then pact_reason ''pact_id_used''
      else pact_reason ''simulation_failed'')"

definition fee_of :: "pact_env \<Rightarrow> sim_success \<Rightarrow> jsnum" where
  "fee_of env sm = js_add (sm_minResourceFee sm) (Fin (pn_inclusionFee env))"

definition max_ledger :: "int \<Rightarrow> real \<Rightarrow> real option \<Rightarrow> int option" where
  "max_ledger latest ledgerSeconds timeout = map_option (\<lambda>t. latest + \<lceil>t / ledgerSeconds\<rceil>) timeout"

text \<open>The authorisations, the signatures and the seller's trustline.\<close>

definition pact_auth :: "pact_env \<Rightarrow> pact_deal \<Rightarrow> pact_tx \<Rightarrow> pact_op \<Rightarrow> sim_success \<Rightarrow> json \<Rightarrow> check_result" where
  "pact_auth env d tx op sm reqs =
     (case (pn_latest env, pn_ledgerSeconds env) of
        (Some latest, Some ls) \<Rightarrow>
          (let limit = max_ledger latest ls (js_seconds (pn_number env) (jprop ''maxTimeoutSeconds'' reqs)) in
           if op_auth op = [] then Pact_fail (pact_reason ''no_auth_entries'')
           else (case checkAuthEntries env limit ''invalid_pact_stellar_payload'' (op_auth op) of
                   Some r \<Rightarrow> Pact_fail r
                 | None \<Rightarrow>
                     (case checkAuthTree d (op_auth op) of
                        Pass \<Rightarrow>
                          (case pn_signatures env tx sm of
                             (signed, pending) \<Rightarrow>
                               if \<not> (case dl_buyer d of Some (JStr b) \<Rightarrow> b \<in> set signed | _ \<Rightarrow> False) then Pact_fail (pact_reason ''missing_payer_signature'')
                               else if pending \<noteq> [] then Pact_fail (pact_reason ''unexpected_pending_signatures'')
                               else Pass)
                      | r \<Rightarrow> r)))
      | _ \<Rightarrow> Boom)"

definition pact_verify_body :: "pact_env \<Rightarrow> json \<Rightarrow> json \<Rightarrow> pact_stop + (pact_verified \<times> json option)" where
  "pact_verify_body env payload reqs =
     (case pact_request env payload reqs of
        Inl r \<Rightarrow> Inl (Submit_refused r None)
      | Inr contract \<Rightarrow>
     (case pact_call env contract payload reqs of
        Inl r \<Rightarrow> Inl (Submit_refused r None)
      | Inr (tx, op, params) \<Rightarrow>
          if params = JNull then Inl (Submit_threw None)
          else
     (let buyer = jprop ''buyer'' params in
      case open_problem env params reqs of
        None \<Rightarrow> Inl (Submit_threw buyer)
      | Some (Some r, _) \<Rightarrow> Inl (Submit_refused r buyer)
      | Some (None, cap) \<Rightarrow>
     (case pn_simulate env tx of
        None \<Rightarrow> Inl (Submit_threw buyer)
      | Some (Sim_error err) \<Rightarrow> Inl (Submit_refused (sim_reason err) buyer)
      | Some (Sim_ok sm) \<Rightarrow>
          if js_lt (Fin (pn_maxFee env)) (fee_of env sm) then Inl (Submit_refused (pact_reason ''fee_exceeds_maximum'') buyer)
          else
     (let d = \<lparr>dl_buyer = buyer, dl_contract = contract, dl_cap = cap, dl_asset = jprop ''asset'' reqs\<rparr> in
      case checkEvents d (sm_events sm) of
        Pact_fail r \<Rightarrow> Inl (Submit_refused r buyer)
      | Boom \<Rightarrow> Inl (Submit_threw buyer)
      | Pass \<Rightarrow>
     (case pact_auth env d tx op sm reqs of
        Pact_fail r \<Rightarrow> Inl (Submit_refused r buyer)
      | Boom \<Rightarrow> Inl (Submit_threw buyer)
      | Pass \<Rightarrow>
     (case jprop ''seller'' params of
        Some (JStr seller) \<Rightarrow>
          (case hasTrustline env (tx_source tx) seller (jprop ''asset'' reqs) of
             None \<Rightarrow> Inl (Submit_threw buyer)
           | Some False \<Rightarrow> Inl (Submit_refused (pact_reason ''seller_trustline_missing'') buyer)
           | Some True \<Rightarrow>
               (case sm_retval sm of
                  None \<Rightarrow> Inr (\<lparr>vf_tx = tx, vf_op = op, vf_sim = sm, vf_pactId = None\<rparr>, buyer)
                | Some v \<Rightarrow>
                    (case pn_bytes env (Some v) of
                       None \<Rightarrow> Inl (Submit_threw buyer)
                     | Some i \<Rightarrow> Inr (\<lparr>vf_tx = tx, vf_op = op, vf_sim = sm, vf_pactId = Some i\<rparr>, buyer))))
      | _ \<Rightarrow> Inl (Submit_threw buyer))))))))"

record pact_verdict =
  pv_isValid :: bool
  pv_reason :: "string option"
  pv_payer :: "json option"

definition pact_verify :: "pact_env \<Rightarrow> json \<Rightarrow> json \<Rightarrow> pact_verdict \<times> pact_verified option" where
  "pact_verify env payload reqs =
     (case pact_verify_body env payload reqs of
        Inl (Submit_refused r buyer) \<Rightarrow> (\<lparr>pv_isValid = False, pv_reason = Some r, pv_payer = buyer\<rparr>, None)
      | Inl (Submit_threw buyer) \<Rightarrow> (\<lparr>pv_isValid = False, pv_reason = Some ''unexpected_verify_error'', pv_payer = buyer\<rparr>, None)
      | Inr (v, buyer) \<Rightarrow> (\<lparr>pv_isValid = True, pv_reason = None, pv_payer = buyer\<rparr>, Some v))"

section \<open>Submission\<close>

record pact_sent =
  st_hash :: "string option"
  st_error :: "string option"

text \<open>\<open>for (let i = 0; i < timeoutSeconds; i++)\<close>: one poll a second.\<close>

fun poll_loop :: "(nat \<Rightarrow> poll_reply) \<Rightarrow> nat \<Rightarrow> nat \<Rightarrow> string option" where
  "poll_loop poll i 0 = Some ''transaction_failed''"
| "poll_loop poll i (Suc n) =
     (case poll i of
        Poll_success \<Rightarrow> None
      | Poll_failed \<Rightarrow> Some ''transaction_failed''
      | Poll_other \<Rightarrow> poll_loop poll (Suc i) n)"

definition polls :: "real option \<Rightarrow> nat" where
  "polls timeout = (case timeout of None \<Rightarrow> 0 | Some t \<Rightarrow> nat \<lceil>t\<rceil>)"

text \<open>
  \<open>submitSponsored\<close>: its result, \<open>None\<close> when it throws, and the transaction handed to the node.
\<close>

definition send_signed :: "pact_env \<Rightarrow> string \<Rightarrow> real option \<Rightarrow> pact_sent option \<times> string option" where
  "send_signed env t timeout =
     (case pn_send env t of
        None \<Rightarrow> (None, Some t)
      | Some (pending, h) \<Rightarrow>
          (Some (if \<not> pending then \<lparr>st_hash = None, st_error = Some ''transaction_submission_failed''\<rparr>
                 else \<lparr>st_hash = Some h, st_error = poll_loop (pn_poll env h) 0 (polls timeout)\<rparr>), Some t))"

definition submitSponsored :: "pact_env \<Rightarrow> pact_tx \<Rightarrow> pact_op \<Rightarrow> string \<Rightarrow> real option \<Rightarrow> pact_sent option \<times> string option" where
  "submitSponsored env tx op signer timeout =
     (let stopped = (\<lambda>r. (Some \<lparr>st_hash = None, st_error = Some r\<rparr>, None)) in
      if \<not> pn_account env signer then (None, None)
      else (case pn_rebuild env tx op timeout signer of
              None \<Rightarrow> (None, None)
            | Some rebuilt \<Rightarrow>
                (case pn_sign env signer rebuilt of
                   None \<Rightarrow> (None, None)
                 | Some None \<Rightarrow> stopped ''transaction_signing_failed''
                 | Some (Some signedTx) \<Rightarrow>
                     (case pn_feeBump env of
                        None \<Rightarrow> send_signed env signedTx timeout
                      | Some b \<Rightarrow>
                          (case pn_bump env b signedTx of
                             None \<Rightarrow> (None, None)
                           | Some bump \<Rightarrow>
                               (case pn_sign env b bump of
                                  None \<Rightarrow> (None, None)
                                | Some None \<Rightarrow> stopped ''fee_bump_signing_failed''
                                | Some (Some signedBump) \<Rightarrow> send_signed env signedBump timeout))))))"

text \<open>\<open>roundRobin\<close>: the signer of the i-th submission.\<close>

definition selectSigner :: "pact_env \<Rightarrow> nat \<Rightarrow> string" where
  "selectSigner env i = pn_signers env ! (i mod length (pn_signers env))"

record pact_settlement =
  ps_success :: bool
  ps_transaction :: string
  ps_error :: "string option"
  ps_payer :: "json option"
  ps_pactId :: "string option"

text \<open>\<open>settle\<close>, with the count of the round robin and the transaction handed to the node.\<close>

definition pact_settled :: "json option \<Rightarrow> string option \<Rightarrow> pact_sent option \<Rightarrow> pact_settlement" where
  "pact_settled payer pactId sent =
     (case sent of
        None \<Rightarrow> \<lparr>ps_success = False, ps_transaction = [], ps_error = Some ''unexpected_settle_error'', ps_payer = payer, ps_pactId = None\<rparr>
      | Some s \<Rightarrow>
          (case st_error s of
             Some r \<Rightarrow> \<lparr>ps_success = False, ps_transaction = nullish_or (st_hash s) [], ps_error = Some (''settle_pact_stellar_'' @ r),
                        ps_payer = payer, ps_pactId = None\<rparr>
           | None \<Rightarrow> \<lparr>ps_success = True, ps_transaction = nullish_or (st_hash s) [], ps_error = None, ps_payer = payer,
                      ps_pactId = pactId\<rparr>))"

definition pact_settle :: "pact_env \<Rightarrow> json \<Rightarrow> json \<Rightarrow> nat \<Rightarrow> pact_settlement \<times> string option \<times> nat" where
  "pact_settle env payload reqs i =
     (case pact_verify env payload reqs of
        (v, None) \<Rightarrow> (\<lparr>ps_success = False, ps_transaction = [], ps_error = Some (nullish_or (pv_reason v) ''verification_failed''),
                       ps_payer = pv_payer v, ps_pactId = None\<rparr>, None, i)
      | (v, Some w) \<Rightarrow>
          (case submitSponsored env (vf_tx w) (vf_op w) (selectSigner env i)
                  (js_seconds (pn_number env) (jprop ''maxTimeoutSeconds'' reqs)) of
             (sent, handed) \<Rightarrow> (pact_settled (pv_payer v) (vf_pactId w) sent, handed, Suc i)))"

section \<open>Follow-up calls\<close>

definition PACT_SUBMIT_FUNCTIONS :: "string list" where
  "PACT_SUBMIT_FUNCTIONS = [''record_verdict'', ''settle'', ''close_meter'', ''release'', ''extend_pact_ttl'']"

definition submit_reason :: "string \<Rightarrow> string" where
  "submit_reason r = ''invalid_pact_submit_'' @ r"

text \<open>What is refused before anything is sent; \<open>None\<close> inside when the node threw.\<close>

definition submit_check :: "pact_env \<Rightarrow> string \<Rightarrow> string \<Rightarrow> (string + (pact_tx \<times> pact_op \<times> invocation \<times> sim_success)) option" where
  "submit_check env network text =
     (case pn_contracts env network of
        None \<Rightarrow> Some (Inl (submit_reason ''network_not_configured''))
      | Some contract \<Rightarrow>
          if contract = [] then Some (Inl (submit_reason ''network_not_configured''))
          else
     (case pn_decode env text (Some (JStr network)) of
        None \<Rightarrow> Some (Inl (submit_reason ''malformed''))
      | Some tx \<Rightarrow>
     (case parseInvocation env ''invalid_pact_submit'' tx of
        Inl e \<Rightarrow> Some (Inl e)
      | Inr (op, fcall) \<Rightarrow>
          if iv_contract fcall \<noteq> contract then Some (Inl (submit_reason ''wrong_contract''))
          else if iv_fn fcall \<notin> set PACT_SUBMIT_FUNCTIONS then Some (Inl (submit_reason ''function_not_allowed''))
          else
     (case pn_simulate env tx of
        None \<Rightarrow> None
      | Some (Sim_error _) \<Rightarrow> Some (Inl (submit_reason ''simulation_failed''))
      | Some (Sim_ok sm) \<Rightarrow>
          if js_lt (Fin (pn_maxFee env)) (fee_of env sm) then Some (Inl (submit_reason ''fee_exceeds_maximum''))
          else
     (case (pn_latest env, pn_ledgerSeconds env) of
        (Some latest, Some ls) \<Rightarrow>
          (case checkAuthEntries env (max_ledger latest ls (Some 60)) ''invalid_pact_submit'' (op_auth op) of
             Some r \<Rightarrow> Some (Inl r)
           | None \<Rightarrow>
               if snd (pn_signatures env tx sm) \<noteq> [] then Some (Inl (submit_reason ''unexpected_pending_signatures''))
               else Some (Inr (tx, op, fcall, sm)))
      | _ \<Rightarrow> None)))))"

record submit_answer =
  sa_success :: bool
  sa_transaction :: "string option"
  sa_error :: "string option"
  sa_function :: "string option"
  sa_fee :: "jsnum option"

definition submit_refused :: "string \<Rightarrow> submit_answer" where
  "submit_refused r = \<lparr>sa_success = False, sa_transaction = None, sa_error = Some r, sa_function = None, sa_fee = None\<rparr>"

definition submit_answered :: "invocation \<Rightarrow> jsnum \<Rightarrow> pact_sent \<Rightarrow> submit_answer" where
  "submit_answered fcall fee s =
     (case st_error s of
        Some r \<Rightarrow> \<lparr>sa_success = False, sa_transaction = Some (nullish_or (st_hash s) []), sa_error = Some (''pact_submit_'' @ r),
                   sa_function = None, sa_fee = None\<rparr>
      | None \<Rightarrow> \<lparr>sa_success = True, sa_transaction = st_hash s, sa_error = None, sa_function = Some (iv_fn fcall), sa_fee = Some fee\<rparr>)"

definition pact_submit :: "pact_env \<Rightarrow> string \<Rightarrow> string \<Rightarrow> nat \<Rightarrow> submit_answer option \<times> string option \<times> nat" where
  "pact_submit env network text i =
     (case submit_check env network text of
        None \<Rightarrow> (None, None, i)
      | Some (Inl r) \<Rightarrow> (Some (submit_refused r), None, i)
      | Some (Inr (tx, op, fcall, sm)) \<Rightarrow>
          (case submitSponsored env tx op (selectSigner env i) (Some 60) of
             (sent, handed) \<Rightarrow> (map_option (submit_answered fcall (fee_of env sm)) sent, handed, Suc i)))"

section \<open>What an accepted payment is\<close>

text \<open>
  The contract of the scheme: one call of \<open>open\<close> on the configured contract, to the seller and for the
  amount that were asked, authorised by address credentials of others than the facilitator, for
  nothing but \<open>open\<close> and the one transfer, signed by the buyer and by all who must sign, moving exactly
  the cap from the buyer to the contract, at a fee within the ceiling.
\<close>

definition pure_auth :: "pact_env \<Rightarrow> pact_deal \<Rightarrow> auth_entry \<Rightarrow> bool" where
  "pure_auth env d a \<longleftrightarrow> (\<exists>addr e. ae_credentials a = Some (addr, e) \<and> addr \<notin> set (facilitatorAddresses env))
     \<and> (\<exists>c subs. ae_root a = Auth_node (Some c) subs \<and> ac_contract c = dl_contract d \<and> ac_fn c = ''open''
          \<and> (subs = [] \<or> (\<exists>t. subs = [Auth_node (Some t) []] \<and> ac_fn t = ''transfer''
                \<and> Some (JStr (ac_contract t)) = dl_asset d
                \<and> js_nth (ac_args t) 0 = dl_buyer d \<and> js_nth (ac_args t) 1 = Some (JStr (dl_contract d))
                \<and> js_BigInt (js_nth (ac_args t) 2) = Some (dl_cap d))))"

definition one_transfer :: "pact_deal \<Rightarrow> pact_event list \<Rightarrow> bool" where
  "one_transfer d events \<longleftrightarrow>
     (\<exists>amount. collect_transfers d events = Inr [(dl_buyer d, Some (JStr (dl_contract d)), amount)] \<and> js_BigInt amount = Some (dl_cap d))"

lemma checkAuthEntries_ok:
  assumes "checkAuthEntries env m prefix as = None"
  shows "\<forall>a \<in> set as. \<exists>addr e. ae_credentials a = Some (addr, e) \<and> addr \<notin> set (facilitatorAddresses env)
    \<and> (\<forall>l. m = Some l \<longrightarrow> e \<le> l + 2)"
  using assms
  by (induction as) (auto simp: SIGNATURE_EXPIRATION_LEDGER_TOLERANCE_def split: option.splits if_splits)

lemma js_same_eq: "js_same a b \<Longrightarrow> a = b"
  by (simp add: js_same_def)

lemma check_sub_ok:
  assumes "check_sub d s = Pass"
  shows "\<exists>t. s = Auth_node (Some t) [] \<and> ac_fn t = ''transfer'' \<and> Some (JStr (ac_contract t)) = dl_asset d
    \<and> js_nth (ac_args t) 0 = dl_buyer d \<and> js_nth (ac_args t) 1 = Some (JStr (dl_contract d))
    \<and> js_BigInt (js_nth (ac_args t) 2) = Some (dl_cap d)"
  using assms by (cases s) (auto simp: Let_def split: if_splits option.splits dest: js_same_eq)

lemma check_root_ok:
  assumes "check_root d r = Pass"
  shows "\<exists>c subs. r = Auth_node (Some c) subs \<and> ac_contract c = dl_contract d \<and> ac_fn c = ''open''
    \<and> (subs = [] \<or> (\<exists>s. subs = [s] \<and> check_sub d s = Pass))"
  using assms by (cases r) (auto split: if_splits option.splits list.splits)

lemma checkAuthTree_ok: "checkAuthTree d as = Pass \<Longrightarrow> \<forall>a \<in> set as. check_root d (ae_root a) = Pass"
  by (induction as) (auto split: check_result.splits)

lemma pure_auths:
  assumes "checkAuthEntries env m prefix as = None" "checkAuthTree d as = Pass"
  shows "\<forall>a \<in> set as. pure_auth env d a"
proof
  fix a assume a: "a \<in> set as"
  obtain addr e where cred: "ae_credentials a = Some (addr, e)" "addr \<notin> set (facilitatorAddresses env)"
    using checkAuthEntries_ok [OF assms(1)] a by blast
  obtain c subs where root: "ae_root a = Auth_node (Some c) subs" "ac_contract c = dl_contract d" "ac_fn c = ''open''"
    and subs: "subs = [] \<or> (\<exists>s. subs = [s] \<and> check_sub d s = Pass)"
    using check_root_ok checkAuthTree_ok [OF assms(2)] a by blast
  from subs have "subs = [] \<or> (\<exists>t. subs = [Auth_node (Some t) []] \<and> ac_fn t = ''transfer''
      \<and> Some (JStr (ac_contract t)) = dl_asset d \<and> js_nth (ac_args t) 0 = dl_buyer d \<and> js_nth (ac_args t) 1 = Some (JStr (dl_contract d))
      \<and> js_BigInt (js_nth (ac_args t) 2) = Some (dl_cap d))"
    using check_sub_ok by blast
  with cred root show "pure_auth env d a" unfolding pure_auth_def by blast
qed

lemma checkEvents_ok: "checkEvents d events = Pass \<Longrightarrow> one_transfer d events"
  by (auto simp: checkEvents_def one_transfer_def split: sum.splits list.splits prod.splits if_splits option.splits dest: js_same_eq)

lemma open_ok:
  assumes "open_problem env params reqs = Some (None, cap)"
  shows "\<not> names_facilitator env (jprop ''buyer'' params)" "\<not> names_facilitator env (jprop ''seller'' params)"
    "jprop ''seller'' params = jprop ''payTo'' reqs" "js_BigInt (jprop ''amount'' reqs) = Some cap" "js_BigInt (jprop ''cap'' params) = Some cap"
    "\<And>c. js_prop ''condition'' (js_prop ''pactwright'' (jprop ''extra'' reqs)) = Some c \<Longrightarrow>
        pn_bytes env (jprop ''condition_hash'' params) = Some (conditionHash (pn_sha256 env) c)"
proof -
  show "\<not> names_facilitator env (jprop ''buyer'' params)" "\<not> names_facilitator env (jprop ''seller'' params)"
    using assms by (auto simp: open_problem_def split: if_splits)
  note nf = this
  show "jprop ''seller'' params = jprop ''payTo'' reqs"
    using assms nf by (auto simp: open_problem_def split: if_splits dest: js_same_eq)
  show "js_BigInt (jprop ''amount'' reqs) = Some cap" "js_BigInt (jprop ''cap'' params) = Some cap"
    using assms nf by (auto simp: open_problem_def split: if_splits option.splits)
  obtain committed where b: "pn_bytes env (jprop ''condition_hash'' params) = Some committed"
    using assms nf by (auto simp: open_problem_def split: if_splits option.splits)
  show "pn_bytes env (jprop ''condition_hash'' params) = Some (conditionHash (pn_sha256 env) c)"
    if c: "js_prop ''condition'' (js_prop ''pactwright'' (jprop ''extra'' reqs)) = Some c" for c
  proof -
    obtain t where t: "js_prop ''pactwright'' (jprop ''extra'' reqs) = Some t" "jprop ''condition'' t = Some c"
      using c unfolding js_prop_def [of "''condition''"] bind_eq_Some_conv by blast
    then have "pact_terms reqs = t" by (auto simp: pact_terms_def jprop_def)
    then have "agreed_problem env t params committed = None"
      using assms nf b by (auto simp: open_problem_def split: if_splits option.splits)
    then have "terms_problem env t params committed = None"
      by (auto simp: agreed_problem_def js_lazy_or_def split: option.splits)
    with t b show ?thesis by (auto simp: terms_problem_def split: if_splits)
  qed
qed

lemma pact_auth_ok:
  assumes "pact_auth env d tx op sm reqs = Pass"
  shows "op_auth op \<noteq> []" "\<forall>a \<in> set (op_auth op). pure_auth env d a" "snd (pn_signatures env tx sm) = []"
    "\<exists>b. dl_buyer d = Some (JStr b) \<and> b \<in> set (fst (pn_signatures env tx sm))"
  using assms pure_auths
  by (auto simp: pact_auth_def Let_def split: option.splits if_splits check_result.splits prod.splits json.splits)

lemma parse_ok:
  assumes "parseInvocation env prefix tx = Inr (op, fcall)"
  shows "\<exists>src auth. tx_operations tx = [op] \<and> op = Op_invoke src (Some (Host_invoke fcall)) auth
    \<and> nullish_or src [] \<notin> set (facilitatorAddresses env) \<and> tx_source tx \<notin> set (facilitatorAddresses env)"
proof -
  obtain o1 where o1: "tx_operations tx = [o1]"
    using assms by (cases "tx_operations tx") (auto simp: parseInvocation_def Let_def split: if_splits)
  with assms show ?thesis
    by (cases o1) (auto simp: parseInvocation_def Let_def split: if_splits option.splits host_function.splits)
qed

text \<open>Everything an accepted verification has established.\<close>

definition pact_sound :: "pact_env \<Rightarrow> json \<Rightarrow> json \<Rightarrow> pact_verified \<Rightarrow> json option \<Rightarrow> bool" where
  "pact_sound env payload reqs v buyer \<longleftrightarrow>
     (\<exists>contract text src auth params cap d.
        pact_request env payload reqs = Inr contract
        \<and> js_prop ''transaction'' (jprop ''payload'' payload) = Some (JStr text)
        \<and> pn_decode env text (jprop ''network'' reqs) = Some (vf_tx v)
        \<and> vf_op v = Op_invoke src (Some (Host_invoke \<lparr>iv_contract = contract, iv_fn = ''open'', iv_args = [params]\<rparr>)) auth
        \<and> tx_operations (vf_tx v) = [vf_op v]
        \<and> nullish_or src [] \<notin> set (facilitatorAddresses env) \<and> tx_source (vf_tx v) \<notin> set (facilitatorAddresses env)
        \<and> buyer = jprop ''buyer'' params \<and> \<not> names_facilitator env buyer
        \<and> jprop ''seller'' params = jprop ''payTo'' reqs \<and> \<not> names_facilitator env (jprop ''seller'' params)
        \<and> js_BigInt (jprop ''cap'' params) = Some cap \<and> js_BigInt (jprop ''amount'' reqs) = Some cap
        \<and> (\<forall>c. js_prop ''condition'' (js_prop ''pactwright'' (jprop ''extra'' reqs)) = Some c \<longrightarrow>
              pn_bytes env (jprop ''condition_hash'' params) = Some (conditionHash (pn_sha256 env) c))
        \<and> d = \<lparr>dl_buyer = buyer, dl_contract = contract, dl_cap = cap, dl_asset = jprop ''asset'' reqs\<rparr>
        \<and> pn_simulate env (vf_tx v) = Some (Sim_ok (vf_sim v)) \<and> \<not> js_lt (Fin (pn_maxFee env)) (fee_of env (vf_sim v))
        \<and> one_transfer d (sm_events (vf_sim v))
        \<and> auth \<noteq> [] \<and> (\<forall>a \<in> set auth. pure_auth env d a)
        \<and> snd (pn_signatures env (vf_tx v) (vf_sim v)) = []
        \<and> (\<exists>b. buyer = Some (JStr b) \<and> b \<in> set (fst (pn_signatures env (vf_tx v) (vf_sim v)))))"

lemma pact_call_ok:
  assumes "pact_call env contract payload reqs = Inr (tx, op, params)"
  shows "\<exists>raw src auth. js_prop ''transaction'' (jprop ''payload'' payload) = Some (JStr raw)
    \<and> pn_decode env raw (jprop ''network'' reqs) = Some tx \<and> tx_operations tx = [op]
    \<and> op = Op_invoke src (Some (Host_invoke \<lparr>iv_contract = contract, iv_fn = ''open'', iv_args = [params]\<rparr>)) auth
    \<and> nullish_or src [] \<notin> set (facilitatorAddresses env) \<and> tx_source tx \<notin> set (facilitatorAddresses env)"
proof -
  obtain raw where raw: "js_prop ''transaction'' (jprop ''payload'' payload) = Some (JStr raw)"
    "pn_decode env raw (jprop ''network'' reqs) = Some tx"
    and rest: "(case parseInvocation env ''invalid_pact_stellar_payload'' tx of
        Inl e \<Rightarrow> Inl e
      | Inr (op, fcall) \<Rightarrow>
          if iv_contract fcall \<noteq> contract then Inl (pact_reason ''wrong_contract'')
          else (case iv_args fcall of
                  [p] \<Rightarrow> if iv_fn fcall = ''open'' then Inr (tx, op, p) else Inl (pact_reason ''wrong_function_name'')
                | _ \<Rightarrow> Inl (pact_reason ''wrong_function_name''))) = Inr (tx, op, params)"
  proof (cases "js_prop ''transaction'' (jprop ''payload'' payload)")
    case (Some j)
    with assms that show ?thesis
      by (cases j) (auto simp: pact_call_def split: option.splits sum.splits if_splits list.splits)
  qed (use assms in \<open>simp add: pact_call_def\<close>)
  obtain fcall where p: "parseInvocation env ''invalid_pact_stellar_payload'' tx = Inr (op, fcall)"
    "iv_contract fcall = contract" "iv_fn fcall = ''open''" "iv_args fcall = [params]"
    using rest by (auto split: sum.splits if_splits list.splits)
  then have "fcall = \<lparr>iv_contract = contract, iv_fn = ''open'', iv_args = [params]\<rparr>" by simp
  with parse_ok [OF p(1)] raw show ?thesis by blast
qed

lemma verify_body_sound:
  assumes "pact_verify_body env payload reqs = Inr (w, buyer)"
  shows "pact_sound env payload reqs w buyer"
proof -
  obtain contract where c: "pact_request env payload reqs = Inr contract"
    using assms by (auto simp: pact_verify_body_def split: sum.splits)
  obtain tx op params where call: "pact_call env contract payload reqs = Inr (tx, op, params)"
    using assms c by (auto simp: pact_verify_body_def split: sum.splits)
  have np: "params \<noteq> JNull" using assms c call by (auto simp: pact_verify_body_def)
  obtain cap where op: "open_problem env params reqs = Some (None, cap)"
    using assms c call np by (auto simp: pact_verify_body_def Let_def split: option.splits)
  obtain sm where sm: "pn_simulate env tx = Some (Sim_ok sm)"
    using assms c call np op by (auto simp: pact_verify_body_def Let_def split: option.splits simulation.splits)
  have fee: "\<not> js_lt (Fin (pn_maxFee env)) (fee_of env sm)"
    using assms c call np op sm by (auto simp: pact_verify_body_def Let_def)
  define d where "d = \<lparr>dl_buyer = jprop ''buyer'' params, dl_contract = contract, dl_cap = cap, dl_asset = jprop ''asset'' reqs\<rparr>"
  have ev: "checkEvents d (sm_events sm) = Pass"
    using assms c call np op sm fee unfolding d_def by (auto simp: pact_verify_body_def Let_def split: check_result.splits)
  have au: "pact_auth env d tx op sm reqs = Pass"
    using assms c call np op sm fee ev unfolding d_def by (auto simp: pact_verify_body_def Let_def split: check_result.splits)
  have w: "vf_tx w = tx" "vf_op w = op" "vf_sim w = sm" "buyer = jprop ''buyer'' params"
    using assms c call np op sm fee ev au unfolding d_def
    by (auto simp: pact_verify_body_def Let_def split: option.splits json.splits bool.splits)
  obtain raw src auth where t: "js_prop ''transaction'' (jprop ''payload'' payload) = Some (JStr raw)"
    "pn_decode env raw (jprop ''network'' reqs) = Some tx" "tx_operations tx = [op]"
    "op = Op_invoke src (Some (Host_invoke \<lparr>iv_contract = contract, iv_fn = ''open'', iv_args = [params]\<rparr>)) auth"
    "nullish_or src [] \<notin> set (facilitatorAddresses env)" "tx_source tx \<notin> set (facilitatorAddresses env)"
    using pact_call_ok [OF call] by blast
  have auth: "op_auth op = auth" by (simp add: t(4))
  note o = open_ok [OF op] and a = pact_auth_ok [OF au, unfolded auth]
  show ?thesis
    unfolding pact_sound_def w
    by (rule exI [of _ contract], rule exI [of _ raw], rule exI [of _ src], rule exI [of _ auth], rule exI [of _ params],
        rule exI [of _ cap], rule exI [of _ d], intro conjI)
      (use c t o a sm fee checkEvents_ok [OF ev] d_def in \<open>simp_all\<close>)
qed

lemma pact_verify_sound:
  assumes "pact_verify env payload reqs = (v, Some w)"
  shows "pv_isValid v" "pact_sound env payload reqs w (pv_payer v)"
  using assms verify_body_sound [of env payload reqs]
  by (auto simp: pact_verify_def split: sum.splits pact_stop.splits)

lemma pact_verify_valid: "pv_isValid v \<longleftrightarrow> (\<exists>w. x = Some w)" if "pact_verify env payload reqs = (v, x)"
  using that by (auto simp: pact_verify_def split: sum.splits pact_stop.splits)

text \<open>Nothing is handed to the node for a payment that was not accepted, and a success was seen on the ledger.\<close>

lemma poll_success: "poll_loop poll i n = None \<Longrightarrow> \<exists>j. i \<le> j \<and> j < i + n \<and> poll j = Poll_success"
proof (induction n arbitrary: i)
  case (Suc n)
  show ?case
  proof (cases "poll i")
    case Poll_other
    with Suc.IH [of "Suc i"] Suc.prems obtain j where "Suc i \<le> j" "j < Suc i + n" "poll j = Poll_success" by auto
    then show ?thesis by (intro exI [of _ j]) simp
  qed (use Suc.prems in auto)
qed simp

lemma send_signed_success:
  assumes "send_signed env t timeout = (Some s, handed)" "st_error s = None"
  shows "\<exists>h j. pn_send env t = Some (True, h) \<and> st_hash s = Some h \<and> handed = Some t \<and> pn_poll env h j = Poll_success"
  using assms by (auto simp: send_signed_def split: option.splits prod.splits if_splits dest!: poll_success)

lemma submit_success:
  assumes "submitSponsored env tx op signer timeout = (Some s, handed)" "st_error s = None"
  shows "\<exists>t h j. handed = Some t \<and> pn_send env t = Some (True, h) \<and> st_hash s = Some h \<and> pn_poll env h j = Poll_success"
  using assms send_signed_success
  by (auto simp: submitSponsored_def Let_def split: if_splits option.splits) blast+

lemma pact_settle_handed:
  assumes "pact_settle env payload reqs i = (r, handed, i')" "handed \<noteq> None"
  shows "\<exists>v w. pact_verify env payload reqs = (v, Some w) \<and> pact_sound env payload reqs w (ps_payer r)"
proof -
  obtain v x where v: "pact_verify env payload reqs = (v, x)" by (metis surj_pair)
  then obtain w where x: "x = Some w" using assms by (cases x) (simp_all add: pact_settle_def)
  have "ps_payer r = pv_payer v"
    using assms v x by (auto simp: pact_settle_def pact_settled_def split: prod.splits option.splits)
  with pact_verify_sound(2) [of env payload reqs v w] v x show ?thesis by auto
qed

lemma pact_settle_success:
  assumes "pact_settle env payload reqs i = (r, handed, i')" "ps_success r"
  shows "\<exists>t j. handed = Some t \<and> pn_send env t = Some (True, ps_transaction r) \<and> pn_poll env (ps_transaction r) j = Poll_success"
proof -
  obtain v x where v: "pact_verify env payload reqs = (v, x)" by (metis surj_pair)
  then obtain w where x: "x = Some w" using assms by (cases x) (auto simp: pact_settle_def)
  obtain sent h where s: "submitSponsored env (vf_tx w) (vf_op w) (selectSigner env i)
      (js_seconds (pn_number env) (jprop ''maxTimeoutSeconds'' reqs)) = (sent, h)" by (metis surj_pair)
  have r: "r = pact_settled (pv_payer v) (vf_pactId w) sent" "handed = h" using assms(1) v x s by (simp_all add: pact_settle_def)
  with assms(2) obtain t where t: "sent = Some t" "st_error t = None"
    by (auto simp: pact_settled_def split: option.splits)
  with submit_success [OF s [unfolded t(1)] t(2)] r show ?thesis by (auto simp: pact_settled_def)
qed

text \<open>A transaction that was handed to the node and is not seen in time is reported as failed.\<close>

lemma poll_unseen: "(\<And>j. poll j = Poll_other) \<Longrightarrow> poll_loop poll i n = Some ''transaction_failed''"
  by (induction n arbitrary: i) simp_all

lemma unseen_is_failed:
  assumes "pn_send env t = Some (True, h)" "\<And>j. pn_poll env h j = Poll_other"
  shows "send_signed env t timeout = (Some \<lparr>st_hash = Some h, st_error = Some ''transaction_failed''\<rparr>, Some t)"
  using assms poll_unseen [of "pn_poll env h"] by (simp add: send_signed_def)

text \<open>Where the timeout is no number, no expiration is too far and no fee limit is lost.\<close>

lemma nan_timeout_unbounded:
  "max_ledger latest ls None = None"
  "\<forall>a \<in> set as. \<exists>addr e. ae_credentials a = Some (addr, e) \<and> addr \<notin> set (facilitatorAddresses env)
     \<Longrightarrow> checkAuthEntries env None prefix as = None"
  by (simp add: max_ledger_def) (induction as, auto)

text \<open>\<open>POST /pact/submit\<close> sponsors only the listed functions of the configured contract.\<close>

lemma pact_submit_handed:
  assumes "pact_submit env network text i = (r, handed, i')" "handed \<noteq> None"
  shows "\<exists>contract tx op fcall sm. pn_contracts env network = Some contract \<and> pn_decode env text (Some (JStr network)) = Some tx
    \<and> tx_operations tx = [op] \<and> iv_contract fcall = contract \<and> iv_fn fcall \<in> set PACT_SUBMIT_FUNCTIONS
    \<and> (\<exists>src auth. op = Op_invoke src (Some (Host_invoke fcall)) auth \<and> nullish_or src [] \<notin> set (facilitatorAddresses env)
         \<and> (\<forall>a \<in> set auth. \<exists>addr e. ae_credentials a = Some (addr, e) \<and> addr \<notin> set (facilitatorAddresses env)))
    \<and> tx_source tx \<notin> set (facilitatorAddresses env)
    \<and> pn_simulate env tx = Some (Sim_ok sm) \<and> \<not> js_lt (Fin (pn_maxFee env)) (fee_of env sm) \<and> snd (pn_signatures env tx sm) = []"
proof -
  obtain tx op fcall sm where ok: "submit_check env network text = Some (Inr (tx, op, fcall, sm))"
    using assms by (auto simp: pact_submit_def split: option.splits sum.splits)
  obtain contract where c: "pn_contracts env network = Some contract" "contract \<noteq> []"
    using ok by (auto simp: submit_check_def split: option.splits if_splits)
  have d: "pn_decode env text (Some (JStr network)) = Some tx" "parseInvocation env ''invalid_pact_submit'' tx = Inr (op, fcall)"
    "iv_contract fcall = contract" "iv_fn fcall \<in> set PACT_SUBMIT_FUNCTIONS" "pn_simulate env tx = Some (Sim_ok sm)"
    "\<not> js_lt (Fin (pn_maxFee env)) (fee_of env sm)" "snd (pn_signatures env tx sm) = []"
    "\<exists>m. checkAuthEntries env m ''invalid_pact_submit'' (op_auth op) = None"
    using ok c by (auto simp: submit_check_def split: option.splits sum.splits if_splits simulation.splits)
  obtain src auth where p: "tx_operations tx = [op]" "op = Op_invoke src (Some (Host_invoke fcall)) auth"
    "nullish_or src [] \<notin> set (facilitatorAddresses env)" "tx_source tx \<notin> set (facilitatorAddresses env)"
    using parse_ok [OF d(2)] by blast
  have "\<forall>a \<in> set auth. \<exists>addr e. ae_credentials a = Some (addr, e) \<and> addr \<notin> set (facilitatorAddresses env)"
    using d(8) checkAuthEntries_ok p(2) by (metis op_auth.simps(1))
  with c d p show ?thesis by metis
qed

end
