(* ===== verification/AuthHttp.thy ===== *)
theory AuthHttp
  imports RequestGate JsText
begin

text \<open>
  Authentication of callers over HTTP (\<open>src/auth-http.js\<close>): the cache of key sets, JWTs with their scopes,
  API keys beside them, and the scope guard.

  Verifying a token against a key set is the JOSE library's and an argument; so is SHA-256.
\<close>

section \<open>The cache of key sets\<close>

record jwks_cache =
  jc_sets :: "(string, nat) jsmap"        \<comment> \<open>the key-set object of a URI\<close>
  jc_times :: "(string, int) jsmap"

definition JWKS_CACHE_TTL_MS :: int where
  "JWKS_CACHE_TTL_MS = 300000"

definition MAX_JWKS_CACHE_ENTRIES :: nat where
  "MAX_JWKS_CACHE_ENTRIES = 10"

definition jwks_get :: "int \<Rightarrow> string \<Rightarrow> jwks_cache \<Rightarrow> nat option" where
  "jwks_get now uri c =
     (case jm_get (jc_times c) uri of
        Some ts \<Rightarrow> if ts \<noteq> 0 \<and> now - ts < JWKS_CACHE_TTL_MS then jm_get (jc_sets c) uri else None
      | None \<Rightarrow> None)"

definition jwks_set :: "int \<Rightarrow> string \<Rightarrow> nat \<Rightarrow> jwks_cache \<Rightarrow> jwks_cache" where
  "jwks_set now uri j c =
     (let c1 = (case jc_sets c of
                  (oldest, _) # _ \<Rightarrow>
                    if length (jc_sets c) \<ge> MAX_JWKS_CACHE_ENTRIES
                    then \<lparr>jc_sets = jm_delete oldest (jc_sets c), jc_times = jm_delete oldest (jc_times c)\<rparr> else c
                | [] \<Rightarrow> c)
      in \<lparr>jc_sets = jm_set uri j (jc_sets c1), jc_times = jm_set uri now (jc_times c1)\<rparr>)"

definition jwks_ok :: "jwks_cache \<Rightarrow> bool" where
  "jwks_ok c \<longleftrightarrow> jm_wf (jc_sets c) \<and> jm_wf (jc_times c) \<and> length (jc_sets c) \<le> MAX_JWKS_CACHE_ENTRIES
     \<and> fst ` set (jc_sets c) = fst ` set (jc_times c)"

lemma jwks_ok_set:
  assumes "jwks_ok c"
  shows "jwks_ok (jwks_set now uri j c)"
proof -
  have keys: "fst ` set (jm_set k v m) = insert k (fst ` set m)" for k and v :: 'v and m :: "('k, 'v) jsmap"
    by (induction m) auto
  have len: "length (jm_set k v m) \<le> Suc (length m)" for k and v :: 'v and m :: "('k, 'v) jsmap"
    by (simp add: length_jm_set)
  have shed: "length (jm_delete k m) < length m" if "(k, v) \<in> set m" for k and v :: 'v and m :: "('k, 'v) jsmap"
  proof -
    show ?thesis unfolding AList.delete_eq by (rule length_filter_less [OF that]) simp
  qed
  show ?thesis
  proof (cases "jc_sets c")
    case Nil
    then show ?thesis using assms by (simp add: jwks_set_def Let_def jwks_ok_def keys MAX_JWKS_CACHE_ENTRIES_def)
  next
    case (Cons p ps)
    obtain k v where p: "p = (k, v)" by (cases p)
    define c1 where "c1 = (if length (jc_sets c) \<ge> MAX_JWKS_CACHE_ENTRIES
      then \<lparr>jc_sets = jm_delete k (jc_sets c), jc_times = jm_delete k (jc_times c)\<rparr> else c)"
    have set: "jwks_set now uri j c = \<lparr>jc_sets = jm_set uri j (jc_sets c1), jc_times = jm_set uri now (jc_times c1)\<rparr>"
      using Cons p by (simp add: jwks_set_def c1_def)
    have "length (jc_sets c1) < MAX_JWKS_CACHE_ENTRIES"
      using assms shed [of k v "jc_sets c"] Cons p by (auto simp: c1_def jwks_ok_def)
    moreover have "jm_wf (jc_sets c1) \<and> jm_wf (jc_times c1) \<and> fst ` set (jc_sets c1) = fst ` set (jc_times c1)"
      using assms by (auto simp: c1_def jwks_ok_def)
    ultimately show ?thesis unfolding set jwks_ok_def using len [of uri j "jc_sets c1"] by (simp add: keys)
  qed
qed

text \<open>What is found is what was stored for that URI less than the time to live ago.\<close>

lemma jwks_get_set:
  "jwks_get now uri (jwks_set t uri j c) = (if t \<noteq> 0 \<and> now - t < JWKS_CACHE_TTL_MS then Some j else None)"
  by (simp add: jwks_get_def jwks_set_def Let_def jm_get_set)

section \<open>Scopes\<close>

definition json_has :: "json list \<Rightarrow> string \<Rightarrow> bool" where
  "json_has scopes s \<longleftrightarrow> JStr s \<in> set scopes"

text \<open>A \<open>scope\<close> that is an array has no \<open>split\<close>: an error.\<close>

definition token_scopes :: "json \<Rightarrow> string + json list" where
  "token_scopes payload =
     (case jprop ''scp'' payload of
        Some (JArr xs) \<Rightarrow> Inr xs
      | _ \<Rightarrow>
          (case jprop ''scope'' payload of
             Some (JArr _) \<Rightarrow> Inl ''payload.scope.split is not a function''
           | Some (JStr s) \<Rightarrow> Inr (map JStr (js_split CHR '' '' s))
           | _ \<Rightarrow> Inr []))"

definition missing_scope :: "string list \<Rightarrow> json list \<Rightarrow> string option" where
  "missing_scope required scopes = List.find (\<lambda>r. \<not> json_has scopes r) required"

definition verifyAndExtractScopes :: "(string \<Rightarrow> string + json) \<Rightarrow> string list \<Rightarrow> string \<Rightarrow> string + json \<times> json list" where
  "verifyAndExtractScopes verifyToken required token =
     (case verifyToken token of
        Inl e \<Rightarrow> Inl e
      | Inr payload \<Rightarrow>
          (case token_scopes payload of
             Inl e \<Rightarrow> Inl e
           | Inr scopes \<Rightarrow>
               (case missing_scope required scopes of
                  Some r \<Rightarrow> Inl (''missing_required_scope: '' @ r)
                | None \<Rightarrow> Inr (payload, scopes))))"

section \<open>Callers\<close>

record jwt_config =
  jw_verify :: "string \<Rightarrow> string + json"
  jw_required :: "string list"

record caller =
  cl_keyId :: "string option"
  cl_scopes :: "json list option"

text \<open>\<open>payload.sub ?? payload.azp ?? 'jwt'\<close>; what is no text has no \<open>toUpperCase\<close>.\<close>

definition jwt_identity :: "json \<Rightarrow> json" where
  "jwt_identity payload =
     (let given = (\<lambda>k. case jprop k payload of Some JNull \<Rightarrow> None | v \<Rightarrow> v)
      in nullish_or (nullish (given ''sub'') (given ''azp'')) (JStr ''jwt''))"

definition jwt_caller :: "jwt_config \<Rightarrow> string \<Rightarrow> string + caller" where
  "jwt_caller jw token =
     (case verifyAndExtractScopes (jw_verify jw) (jw_required jw) token of
        Inl e \<Rightarrow> Inl e
      | Inr (payload, scopes) \<Rightarrow>
          (case jwt_identity payload of
             JStr i \<Rightarrow> Inr \<lparr>cl_keyId = Some (js_upper i), cl_scopes = Some scopes\<rparr>
           | _ \<Rightarrow> Inl ''keyId.toUpperCase is not a function''))"

definition key_caller :: "(string \<Rightarrow> string) \<Rightarrow> api_key list \<Rightarrow> string \<Rightarrow> int \<Rightarrow> string + caller" where
  "key_caller sha256 apiKeys h now =
     (case verifyApiKey sha256 (Some h) apiKeys now of
        Inl e \<Rightarrow> Inl e
      | Inr i \<Rightarrow> Inr \<lparr>cl_keyId = Some (js_upper i), cl_scopes = None\<rparr>)"

definition header_caller :: "(string \<Rightarrow> string) \<Rightarrow> api_key list \<Rightarrow> jwt_config option \<Rightarrow> string \<Rightarrow> int \<Rightarrow> string + caller" where
  "header_caller sha256 apiKeys jwt h now =
     (if h = [] then Inl ''missing_auth_header''
      else if js_starts_with ''Bearer '' h then
        (case jwt of
           Some jw \<Rightarrow> if CHR ''.'' \<in> set (drop 7 h) then jwt_caller jw (drop 7 h) else key_caller sha256 apiKeys h now
         | None \<Rightarrow> key_caller sha256 apiKeys h now)
      else key_caller sha256 apiKeys h now)"

definition requireCaller ::
  "(string \<Rightarrow> string) \<Rightarrow> api_key list \<Rightarrow> jwt_config option \<Rightarrow> string option \<Rightarrow> int \<Rightarrow> string + caller" where
  "requireCaller sha256 apiKeys jwt authHeader now =
     (if apiKeys = [] \<and> jwt = None then Inr \<lparr>cl_keyId = None, cl_scopes = None\<rparr>
      else (case authHeader of
              None \<Rightarrow> Inl ''missing_auth_header''
            | Some h \<Rightarrow> header_caller sha256 apiKeys jwt h now))"

definition requireCallerStrict ::
  "(string \<Rightarrow> string) \<Rightarrow> api_key list \<Rightarrow> jwt_config option \<Rightarrow> string option \<Rightarrow> int \<Rightarrow> string + caller" where
  "requireCallerStrict sha256 apiKeys jwt authHeader now =
     (if apiKeys = [] \<and> jwt = None then Inl ''open_mode_usage_forbidden'' else requireCaller sha256 apiKeys jwt authHeader now)"

definition requireScope :: "string list \<Rightarrow> caller \<Rightarrow> bool" where
  "requireScope scopes c \<longleftrightarrow> (case cl_scopes c of None \<Rightarrow> False | Some ss \<Rightarrow> list_all (json_has ss) scopes)"

section \<open>Who gets in\<close>

lemma scopes_required:
  assumes "verifyAndExtractScopes v req t = Inr (payload, scopes)"
  shows "v t = Inr payload" "token_scopes payload = Inr scopes" "\<forall>r \<in> set req. json_has scopes r"
  using assms by (auto simp: verifyAndExtractScopes_def missing_scope_def find_None_iff split: sum.splits option.splits)

text \<open>
  Where keys or tokens are configured, a caller gets in only with a usable key's secret, or with a token
  the library verified that carries every required scope; and only the latter has scopes.
\<close>

definition by_key :: "(string \<Rightarrow> string) \<Rightarrow> api_key list \<Rightarrow> string \<Rightarrow> int \<Rightarrow> caller \<Rightarrow> bool" where
  "by_key sha256 apiKeys h now c \<longleftrightarrow>
     (\<exists>secret k. presented_key (Some h) = Inr secret \<and> k \<in> set apiKeys \<and> ak_hash k = sha256 secret
        \<and> \<not> ak_revoked k \<and> (\<forall>e. ak_expires_at k = Some e \<longrightarrow> now < e) \<and> c = \<lparr>cl_keyId = Some (js_upper (ak_id k)), cl_scopes = None\<rparr>)"

definition by_token :: "jwt_config \<Rightarrow> string \<Rightarrow> caller \<Rightarrow> bool" where
  "by_token jw h c \<longleftrightarrow>
     (\<exists>payload scopes i. jw_verify jw (drop 7 h) = Inr payload \<and> token_scopes payload = Inr scopes
        \<and> (\<forall>r \<in> set (jw_required jw). json_has scopes r) \<and> jwt_identity payload = JStr i
        \<and> c = \<lparr>cl_keyId = Some (js_upper i), cl_scopes = Some scopes\<rparr>)"

lemma key_caller_Inr:
  assumes "key_caller sha256 apiKeys h now = Inr c"
  shows "by_key sha256 apiKeys h now c"
proof -
  obtain i where i: "verifyApiKey sha256 (Some h) apiKeys now = Inr i" "c = \<lparr>cl_keyId = Some (js_upper i), cl_scopes = None\<rparr>"
    using assms by (auto simp: key_caller_def split: sum.splits)
  then show ?thesis using verifyApiKey_Inr [OF i(1)] unfolding by_key_def by blast
qed

lemma jwt_caller_Inr:
  assumes "jwt_caller jw (drop 7 h) = Inr c"
  shows "by_token jw h c"
proof -
  obtain payload scopes where v: "verifyAndExtractScopes (jw_verify jw) (jw_required jw) (drop 7 h) = Inr (payload, scopes)"
    using assms by (auto simp: jwt_caller_def split: sum.splits)
  then obtain i where "jwt_identity payload = JStr i" "c = \<lparr>cl_keyId = Some (js_upper i), cl_scopes = Some scopes\<rparr>"
    using assms by (auto simp: jwt_caller_def split: json.splits)
  with scopes_required [OF v] show ?thesis unfolding by_token_def by blast
qed

lemma caller_authentic:
  assumes "requireCallerStrict sha256 apiKeys jwt authHeader now = Inr c"
  shows "\<exists>h. authHeader = Some h \<and> (by_key sha256 apiKeys h now c \<or> (\<exists>jw. jwt = Some jw \<and> by_token jw h c))"
proof -
  have r: "requireCaller sha256 apiKeys jwt authHeader now = Inr c" and "\<not> (apiKeys = [] \<and> jwt = None)"
    using assms by (auto simp: requireCallerStrict_def split: if_splits)
  moreover obtain h where h: "authHeader = Some h"
  proof (cases authHeader)
    case None
    with r \<open>\<not> (apiKeys = [] \<and> jwt = None)\<close> show ?thesis unfolding requireCaller_def by (simp only: if_False option.case sum.distinct)
  qed (rule that)
  ultimately have "header_caller sha256 apiKeys jwt h now = Inr c" unfolding requireCaller_def by (simp only: if_False option.case)
  then have "key_caller sha256 apiKeys h now = Inr c \<or> (\<exists>jw. jwt = Some jw \<and> jwt_caller jw (drop 7 h) = Inr c)"
    unfolding header_caller_def by (simp only: sum.distinct split: if_splits option.splits) blast+
  then show ?thesis
  proof (elim disjE exE conjE)
    assume "key_caller sha256 apiKeys h now = Inr c"
    then show ?thesis using h key_caller_Inr by simp
  next
    fix jw assume "jwt = Some jw" "jwt_caller jw (drop 7 h) = Inr c"
    then show ?thesis using h jwt_caller_Inr by simp
  qed
qed

text \<open>
  The identities of tokens and of keys are one name space of upper-case names: a token whose subject
  differs from a key's id in case only is that key to the limiter and to the records.
\<close>

lemma identities_merge:
  assumes "jw_verify jw t = Inr (JObj [(''sub'', JStr i)])" "jw_required jw = []" "js_upper i = js_upper (ak_id k)"
    "key_caller sha256 apiKeys h now = Inr c" "verifyApiKey sha256 (Some h) apiKeys now = Inr (ak_id k)"
  shows "\<exists>d. jwt_caller jw t = Inr d \<and> cl_keyId d = cl_keyId c"
  using assms by (auto simp: jwt_caller_def verifyAndExtractScopes_def token_scopes_def jprop_def missing_scope_def jwt_identity_def Let_def
      key_caller_def)

text \<open>With tokens configured, a key whose secret has a dot is taken for a token and never looked up.\<close>

lemma dotted_key_never_read:
  assumes "CHR ''.'' \<in> set secret"
  shows "requireCaller sha256 apiKeys (Some jw) (Some (''Bearer '' @ secret)) now = jwt_caller jw secret"
  using assms by (simp add: requireCaller_def header_caller_def js_starts_with_def)

text \<open>An array of scopes under \<open>scope\<close> refuses the token, though the code means to accept it.\<close>

lemma scope_array_refused:
  assumes "jw_verify jw t = Inr (JObj [(''scope'', JArr xs)])"
  shows "\<exists>e. jwt_caller jw t = Inl e"
  using assms by (simp add: jwt_caller_def verifyAndExtractScopes_def token_scopes_def jprop_def)

end
