(* ===== verification/Configuration.thy ===== *)
theory Configuration
  imports RateLimiter RequestGate
begin

text \<open>
  The configuration read from the environment once at boot (\<open>src/config.js\<close>): what is accepted, what
  refuses to start, and the values every other component is built with.

  The environment is a list of names and values. What the Stellar SDK says of a key, SHA-256 and the
  URL parser are parameters; numbers are read as integers, \<open>ce_other\<close> standing for the literals with a
  sign, point, exponent or base prefix.
\<close>

section \<open>Reading the environment\<close>

type_synonym process_env = "(string, string) jsmap"

record config_env =
  ce_seed :: "string \<Rightarrow> bool"           \<comment> \<open>\<open>StrKey.isValidEd25519SecretSeed\<close>\<close>
  ce_contract :: "string \<Rightarrow> bool"       \<comment> \<open>\<open>StrKey.isValidContract\<close>\<close>
  ce_sha256 :: "string \<Rightarrow> string"
  ce_userinfo :: "string \<Rightarrow> bool option"  \<comment> \<open>whether a URL carries userinfo, none when it does not parse\<close>
  ce_other :: "string \<Rightarrow> int option"

datatype config_error =
    Secret_unset string | Secret_empty string | Secret_invalid | Secret_duplicate string | Optional_secret string
  | Number_refused string string | Pact_refused string | Key_id string | Key_expiry string string | Key_short string nat
  | Limit_of_unknown_key string | Pubnet_without_rpc | Trust_refused string | Rerank_without_url | Rerank_url string
  | Vault_without_approle | Vault_without_database | Vault_userinfo

definition try_then :: "'e + 'a \<Rightarrow> ('a \<Rightarrow> 'e + 'b) \<Rightarrow> 'e + 'b" where
  "try_then r f = (case r of Inl e \<Rightarrow> Inl e | Inr x \<Rightarrow> f x)"

lemma try_then_Inr: "try_then r f = Inr y \<longleftrightarrow> (\<exists>x. r = Inr x \<and> f x = Inr y)"
  by (cases r) (simp_all add: try_then_def)

text \<open>\<open>env.X || null\<close>, and a list of trimmed entries that are not empty.\<close>

definition env_or_null :: "process_env \<Rightarrow> string \<Rightarrow> string option" where
  "env_or_null env k = (case jm_get env k of Some s \<Rightarrow> if s = [] then None else Some s | None \<Rightarrow> None)"

definition env_list :: "process_env \<Rightarrow> string \<Rightarrow> string list" where
  "env_list env k = filter (\<lambda>s. s \<noteq> []) (map js_trim (js_split CHR '','' (nullish_or (jm_get env k) [])))"

definition env_trim :: "process_env \<Rightarrow> string \<Rightarrow> string option" where
  "env_trim env k = (case jm_get env k of Some s \<Rightarrow> if js_trim s = [] then None else Some (js_trim s) | None \<Rightarrow> None)"

text \<open>\<open>Number(env.X ?? d)\<close>\<close>

definition env_number :: "config_env \<Rightarrow> process_env \<Rightarrow> string \<Rightarrow> int \<Rightarrow> jsnum" where
  "env_number ce env k d =
     (case jm_get env k of
        None \<Rightarrow> Fin d
      | Some s \<Rightarrow> (case js_integer (ce_other ce) s of Some n \<Rightarrow> Fin n | None \<Rightarrow> NaN))"

definition parsePositiveInt :: "config_env \<Rightarrow> string option \<Rightarrow> string \<Rightarrow> int \<Rightarrow> int \<Rightarrow> int \<Rightarrow> config_error + int" where
  "parsePositiveInt ce v name defaultValue lo hi =
     (let raw = nullish_or v (int_str defaultValue) in
      case js_integer (ce_other ce) raw of
        None \<Rightarrow> Inl (Number_refused name raw)
      | Some n \<Rightarrow> if n < lo \<or> hi < n then Inl (Number_refused name raw) else Inr n)"

text \<open>\<open>nonNegativeInt\<close>: anything else than a number that is not negative is the fallback.\<close>

definition nonNegativeInt :: "config_env \<Rightarrow> string option \<Rightarrow> int \<Rightarrow> int" where
  "nonNegativeInt ce v fallback =
     (case v of
        None \<Rightarrow> fallback
      | Some s \<Rightarrow>
          if s = [] then fallback
          else (case js_integer (ce_other ce) s of Some n \<Rightarrow> if n < 0 then fallback else n | None \<Rightarrow> fallback))"

section \<open>Secrets\<close>

fun check_secrets :: "config_env \<Rightarrow> string \<Rightarrow> string list \<Rightarrow> string list \<Rightarrow> config_error option" where
  "check_secrets ce key seen [] = None"
| "check_secrets ce key seen (s # ss) =
     (if \<not> ce_seed ce s then Some Secret_invalid
      else if s \<in> set seen then Some (Secret_duplicate key)
      else check_secrets ce key (s # seen) ss)"

definition parseSecrets :: "config_env \<Rightarrow> process_env \<Rightarrow> string \<Rightarrow> string \<Rightarrow> config_error + string list" where
  "parseSecrets ce env pluralKey singularKey =
     (case nullish (jm_get env pluralKey) (jm_get env singularKey) of
        None \<Rightarrow> Inl (Secret_unset singularKey)
      | Some raw \<Rightarrow>
          if raw = [] then Inl (Secret_unset singularKey)
          else
            (let secrets = filter (\<lambda>s. s \<noteq> []) (map js_trim (js_split CHR '','' raw)) in
             if secrets = [] then Inl (Secret_empty singularKey)
             else (case check_secrets ce singularKey [] secrets of Some e \<Rightarrow> Inl e | None \<Rightarrow> Inr secrets)))"

definition parseOptionalSecret :: "config_env \<Rightarrow> process_env \<Rightarrow> string \<Rightarrow> config_error + string option" where
  "parseOptionalSecret ce env key =
     (case env_trim env key of
        None \<Rightarrow> Inr None
      | Some raw \<Rightarrow> if ce_seed ce raw then Inr (Some raw) else Inl (Optional_secret key))"

definition parsePactContract :: "config_env \<Rightarrow> process_env \<Rightarrow> string \<Rightarrow> config_error + string option" where
  "parsePactContract ce env key =
     (case env_trim env key of
        None \<Rightarrow> Inr None
      | Some raw \<Rightarrow> if ce_contract ce raw then Inr (Some raw) else Inl (Pact_refused key))"

definition parsePactFeeCeiling :: "config_env \<Rightarrow> process_env \<Rightarrow> string \<Rightarrow> config_error + int" where
  "parsePactFeeCeiling ce env key = parsePositiveInt ce (jm_get env key) key 250000 100 10000000"

section \<open>Networks\<close>

definition TESTNET_ID :: string where "TESTNET_ID = ''stellar:testnet''"
definition PUBNET_ID :: string where "PUBNET_ID = ''stellar:pubnet''"

record net_config =
  nc_secrets :: "string list"
  nc_feeBumpSecret :: "string option"
  nc_rpcUrl :: "string option"
  nc_horizonUrl :: string
  nc_maxTransactionFeeStroops :: int
  nc_keyManagerUrl :: "string option"
  nc_keyManagerPollIntervalMs :: jsnum
  nc_pactContractId :: "string option"
  nc_pactMaxTransactionFeeStroops :: int

text \<open>The checks both networks share, in their order, after the secrets.\<close>

definition net_fees :: "config_env \<Rightarrow> process_env \<Rightarrow> string \<Rightarrow> config_error + int \<times> string option \<times> int" where
  "net_fees ce env suffix =
     (let feeKey = ''MAX_TX_FEE_STROOPS'' @ suffix in
      try_then (parsePositiveInt ce (jm_get env feeKey) feeKey 50000 100 10000000) (\<lambda>fee.
      try_then (parsePactContract ce env (''PACT_CONTRACT_ID'' @ suffix)) (\<lambda>contract.
      try_then (parsePactFeeCeiling ce env (''PACT_MAX_TX_FEE_STROOPS'' @ suffix)) (\<lambda>pactFee.
      Inr (fee, contract, pactFee)))))"

definition testnet_config :: "config_env \<Rightarrow> process_env \<Rightarrow> config_error + net_config" where
  "testnet_config ce env =
     try_then (parseSecrets ce env ''FACILITATOR_SECRETS'' ''FACILITATOR_SECRET'') (\<lambda>secrets.
     try_then (parseOptionalSecret ce env ''FEE_BUMP_SECRET'') (\<lambda>bump.
     try_then (net_fees ce env []) (\<lambda>(fee, contract, pactFee).
     Inr \<lparr>nc_secrets = secrets, nc_feeBumpSecret = bump, nc_rpcUrl = jm_get env ''STELLAR_RPC_URL'',
          nc_horizonUrl = nullish_or (env_or_null env ''HORIZON_URL'') ''https://horizon-testnet.stellar.org'',
          nc_maxTransactionFeeStroops = fee, nc_keyManagerUrl = env_or_null env ''KEY_MANAGER_URL'',
          nc_keyManagerPollIntervalMs = env_number ce env ''KEY_MANAGER_POLL_INTERVAL_MS'' 0,
          nc_pactContractId = contract, nc_pactMaxTransactionFeeStroops = pactFee\<rparr>)))"

definition pubnet_config :: "config_env \<Rightarrow> process_env \<Rightarrow> config_error + net_config" where
  "pubnet_config ce env =
     try_then (parseSecrets ce env ''FACILITATOR_SECRETS_PUBNET'' ''FACILITATOR_SECRET_PUBNET'') (\<lambda>secrets.
     try_then (parseOptionalSecret ce env ''FEE_BUMP_SECRET_PUBNET'') (\<lambda>bump.
     case env_or_null env ''STELLAR_RPC_URL_PUBNET'' of
       None \<Rightarrow> Inl Pubnet_without_rpc
     | Some rpc \<Rightarrow>
         try_then (net_fees ce env ''_PUBNET'') (\<lambda>(fee, contract, pactFee).
         Inr \<lparr>nc_secrets = secrets, nc_feeBumpSecret = bump, nc_rpcUrl = Some rpc,
              nc_horizonUrl = nullish_or (env_or_null env ''HORIZON_URL_PUBNET'') ''https://horizon.stellar.org'',
              nc_maxTransactionFeeStroops = fee,
              nc_keyManagerUrl = nullish (jm_get env ''KEY_MANAGER_URL_PUBNET'') (jm_get env ''KEY_MANAGER_URL''),
              nc_keyManagerPollIntervalMs =
                (if jm_get env ''KEY_MANAGER_POLL_INTERVAL_MS_PUBNET'' \<noteq> None
                 then env_number ce env ''KEY_MANAGER_POLL_INTERVAL_MS_PUBNET'' 0
                 else env_number ce env ''KEY_MANAGER_POLL_INTERVAL_MS'' 0),
              nc_pactContractId = contract, nc_pactMaxTransactionFeeStroops = pactFee\<rparr>)))"

section \<open>API keys\<close>

definition MIN_API_KEY_LENGTH :: nat where "MIN_API_KEY_LENGTH = 32"

definition key_id_char :: "char \<Rightarrow> bool" where
  "key_id_char c \<longleftrightarrow> (let n = (of_char c :: nat) in
     (48 \<le> n \<and> n \<le> 57) \<or> (65 \<le> n \<and> n \<le> 90) \<or> (97 \<le> n \<and> n \<le> 122) \<or> n = 95)"

text \<open>The id before the first colon, when there is one past the start, and what follows it.\<close>

definition key_parts :: "nat \<Rightarrow> string \<Rightarrow> string \<times> string" where
  "key_parts index keyStr =
     (let front = takeWhile (\<lambda>c. c \<noteq> CHR '':'') keyStr in
      if CHR '':'' \<in> set keyStr \<and> front \<noteq> [] then (front, tl (dropWhile (\<lambda>c. c \<noteq> CHR '':'') keyStr))
      else (''key_'' @ nat_str index, keyStr))"

text \<open>The expiry behind the last colon, in milliseconds, and the secret before it.\<close>

definition key_expiry :: "string \<Rightarrow> string \<Rightarrow> config_error + string \<times> int option" where
  "key_expiry kid secretPart =
     (case split_last CHR '':'' secretPart of
        Some (front, rawExpiry) \<Rightarrow>
          if front = [] then Inr (secretPart, None)
          else if rawExpiry \<noteq> [] \<and> list_all is_digit rawExpiry then Inr (front, Some (digits_value rawExpiry * 1000))
          else Inl (Key_expiry kid rawExpiry)
      | None \<Rightarrow> Inr (secretPart, None))"

definition parse_api_key :: "config_env \<Rightarrow> string list \<Rightarrow> nat \<Rightarrow> string \<Rightarrow> config_error + api_key" where
  "parse_api_key ce revoked index keyStr =
     (let (kid, rest) = key_parts index keyStr in
      if kid = [] \<or> \<not> list_all key_id_char kid then Inl (Key_id kid)
      else try_then (key_expiry kid rest) (\<lambda>(secretPart, expiresAt).
        if length secretPart < MIN_API_KEY_LENGTH then Inl (Key_short kid (length secretPart))
        else Inr \<lparr>ak_id = kid, ak_hash = ce_sha256 ce secretPart, ak_expires_at = expiresAt,
                  ak_revoked = (js_upper kid \<in> set revoked)\<rparr>))"

fun parse_api_keys :: "config_env \<Rightarrow> string list \<Rightarrow> nat \<Rightarrow> string list \<Rightarrow> config_error + api_key list" where
  "parse_api_keys ce revoked index [] = Inr []"
| "parse_api_keys ce revoked index (k # ks) =
     try_then (parse_api_key ce revoked index k) (\<lambda>key.
     try_then (parse_api_keys ce revoked (index + 1) ks) (\<lambda>keys. Inr (key # keys)))"

definition revokedApiKeyIds :: "process_env \<Rightarrow> string list" where
  "revokedApiKeyIds env = map js_upper (env_list env ''FACILITATOR_REVOKED_API_KEYS'')"

section \<open>Rate limits\<close>

definition default_limits :: key_limits where
  "default_limits = \<lparr>verifyRpm = 60, settleRpm = 10, settleRph = 100, settleRpd = 1000, feeSpd = 5000000,
     catalogRpm = 10, catalogReadRpm = None\<rparr>"

definition set_limit :: "string \<Rightarrow> int \<Rightarrow> key_limits \<Rightarrow> key_limits" where
  "set_limit k v l =
     (if k = ''verify_rpm'' then l\<lparr>verifyRpm := v\<rparr>
      else if k = ''settle_rpm'' then l\<lparr>settleRpm := v\<rparr>
      else if k = ''settle_rph'' then l\<lparr>settleRph := v\<rparr>
      else if k = ''settle_rpd'' then l\<lparr>settleRpd := v\<rparr>
      else if k = ''fee_spd'' then l\<lparr>feeSpd := v\<rparr>
      else if k = ''catalog_rpm'' then l\<lparr>catalogRpm := v\<rparr>
      else l)"

text \<open>Pairs that are malformed, and values that are no number, are skipped.\<close>

definition limit_pair :: "config_env \<Rightarrow> string \<Rightarrow> key_limits \<Rightarrow> key_limits" where
  "limit_pair ce pair l =
     (case js_split CHR ''='' pair of
        [k, v] \<Rightarrow> if v = [] then l else (case js_integer (ce_other ce) v of Some n \<Rightarrow> set_limit k n l | None \<Rightarrow> l)
      | _ \<Rightarrow> l)"

definition parseLimits :: "config_env \<Rightarrow> string option \<Rightarrow> key_limits" where
  "parseLimits ce str =
     (case str of
        Some s \<Rightarrow> if s = [] then default_limits else fold (limit_pair ce) (js_split CHR '','' s) default_limits
      | None \<Rightarrow> default_limits)"

record limits_config =
  lc_global :: key_limits
  lc_keys :: "(string, key_limits) jsmap"
  lc_allowlist :: "string list"

definition is_limit_override :: "string \<Rightarrow> bool" where
  "is_limit_override k \<longleftrightarrow> take 11 k = ''RATE_LIMIT_'' \<and> k \<noteq> ''RATE_LIMIT_GLOBAL'' \<and> k \<noteq> ''RATE_LIMIT_ALLOWLIST''"

fun limit_overrides :: "config_env \<Rightarrow> string list \<Rightarrow> process_env \<Rightarrow> (string, key_limits) jsmap \<Rightarrow> config_error + (string, key_limits) jsmap" where
  "limit_overrides ce ids [] keys = Inr keys"
| "limit_overrides ce ids ((k, v) # env) keys =
     (if \<not> is_limit_override k then limit_overrides ce ids env keys
      else if js_upper (drop 11 k) \<notin> set ids then Inl (Limit_of_unknown_key (drop 11 k))
      else limit_overrides ce ids env (jm_set (js_upper (drop 11 k)) (parseLimits ce (Some v)) keys))"

definition limits_of_env :: "config_env \<Rightarrow> process_env \<Rightarrow> api_key list \<Rightarrow> config_error + limits_config" where
  "limits_of_env ce env apiKeys =
     try_then (limit_overrides ce (map (js_upper \<circ> ak_id) apiKeys) env []) (\<lambda>keys.
     Inr \<lparr>lc_global = parseLimits ce (jm_get env ''RATE_LIMIT_GLOBAL''), lc_keys = keys,
          lc_allowlist = env_list env ''RATE_LIMIT_ALLOWLIST''\<rparr>)"

section \<open>Proxies, reranking, Vault, regions\<close>

definition js_lower_ascii :: "string \<Rightarrow> string" where
  "js_lower_ascii s = map (\<lambda>c. let n = (of_char c :: nat) in if 65 \<le> n \<and> n \<le> 90 then char_of (n + 32) else c) s"

definition trust_of_env :: "process_env \<Rightarrow> config_error + trust_setting" where
  "trust_of_env env =
     (case env_trim env ''TRUST_PROXY'' of
        None \<Rightarrow> Inr Trust_none
      | Some raw \<Rightarrow>
          if js_lower_ascii raw \<in> {''true'', ''false'', ''yes'', ''no''} then Inl (Trust_refused raw)
          else if list_all is_digit raw then Inr (Trust_hops (digits_value raw))
          else Inr (Trust_list (filter (\<lambda>s. s \<noteq> []) (map js_trim (js_split CHR '','' raw)))))"

definition http_url :: "string \<Rightarrow> bool" where
  "http_url u \<longleftrightarrow> js_lower_ascii (take 7 u) = ''http://'' \<or> js_lower_ascii (take 8 u) = ''https://''"

definition rerank_of_env :: "process_env \<Rightarrow> config_error + string option" where
  "rerank_of_env env =
     (case env_trim env ''RERANK_URL'' of
        None \<Rightarrow> if jm_get env ''ENABLE_RERANKING'' = Some ''true'' then Inl Rerank_without_url else Inr None
      | Some u \<Rightarrow> if http_url u then Inr (Some u) else Inl (Rerank_url u))"

record vault_config =
  vt_address :: string
  vt_namespace :: "string option"
  vt_roleId :: string
  vt_secretId :: string
  vt_dbMount :: string
  vt_dbRole :: string
  vt_pollIntervalMs :: jsnum

text \<open>\<open>vaultUrlHasUserinfo\<close>: an address that does not parse has none.\<close>

definition vaultUrlHasUserinfo :: "config_env \<Rightarrow> string \<Rightarrow> bool" where
  "vaultUrlHasUserinfo ce url = nullish_or (ce_userinfo ce url) False"

definition vault_of_env :: "config_env \<Rightarrow> process_env \<Rightarrow> config_error + vault_config option" where
  "vault_of_env ce env =
     (case env_or_null env ''VAULT_ADDR'' of
        None \<Rightarrow> Inr None
      | Some address \<Rightarrow>
          (case (env_or_null env ''VAULT_APPROLE_ROLE_ID'', env_or_null env ''VAULT_APPROLE_SECRET_ID'') of
             (Some roleId, Some secretId) \<Rightarrow>
               (case env_or_null env ''DATABASE_URL'' of
                  None \<Rightarrow> Inl Vault_without_database
                | Some url \<Rightarrow>
                    if vaultUrlHasUserinfo ce url then Inl Vault_userinfo
                    else Inr (Some \<lparr>vt_address = address, vt_namespace = env_or_null env ''VAULT_NAMESPACE'',
                           vt_roleId = roleId, vt_secretId = secretId,
                           vt_dbMount = nullish_or (jm_get env ''VAULT_DB_MOUNT'') ''database'',
                           vt_dbRole = nullish_or (jm_get env ''VAULT_DB_ROLE'') ''facilitator'',
                           vt_pollIntervalMs = env_number ce env ''VAULT_POLL_INTERVAL_MS'' 10000\<rparr>))
           | _ \<Rightarrow> Inl Vault_without_approle))"

record region_config =
  rc_region :: string
  rc_priority :: int
  rc_url :: "string option"

text \<open>\<open>region:priority:url\<close>; \<open>Number(p) || 1\<close>.\<close>

definition parse_region :: "config_env \<Rightarrow> string \<Rightarrow> region_config" where
  "parse_region ce entry =
     (let parts = js_split CHR '':'' entry; url = concat (case drop 2 parts of [] \<Rightarrow> [] | u # us \<Rightarrow> u # map (\<lambda>x. CHR '':'' # x) us)
      in \<lparr>rc_region = hd parts,
          rc_priority = (case parts of
             _ # p # _ \<Rightarrow> (case js_integer (ce_other ce) p of Some n \<Rightarrow> if n = 0 then 1 else n | None \<Rightarrow> 1) | _ \<Rightarrow> 1),
          rc_url = (if url = [] then None else Some url)\<rparr>)"

section \<open>The configuration\<close>

record storage_config =
  st_redisUrl :: "string option"
  st_databaseUrl :: "string option"
  st_databaseReplicaUrl :: "string option"
  st_settlementReplicaLagMs :: jsnum
  st_rateLimitStore :: string
  st_outboxPollIntervalMs :: jsnum
  st_vault :: "vault_config option"
  st_redisNodes :: "string list"
  st_region :: "string option"
  st_regions :: "region_config list"
  st_requireDurable :: bool

record webhook_config =
  wc_brokers :: "string list"
  wc_clientId :: string
  wc_topic :: string
  wc_groupId :: string
  wc_dlqTopic :: "string option"
  wc_url :: "string option"
  wc_dlqPollIntervalMs :: jsnum
  wc_dlqMaxRetryAttempts :: jsnum
  wc_dlqBaseBackoffMs :: jsnum
  wc_dlqAlertThreshold :: jsnum

record catalog_settings =
  cc_searchCache :: bool
  cc_embeddingsUrl :: "string option"
  cc_embeddingsTimeoutMs :: jsnum
  cc_maxResourcesPerPayTo :: jsnum
  cc_verifyTtlMs :: jsnum
  cc_rerankUrl :: "string option"
  cc_enableReranking :: bool
  cc_maxAgeSeconds :: int
  cc_staleSeconds :: int

record config =
  kc_port :: int
  kc_logLevel :: string
  kc_metricsPort :: "jsnum option"
  kc_metricsHost :: string
  kc_auditLogFile :: "string option"
  kc_nodeEnv :: string
  kc_allowedOrigins :: "string list"
  kc_perNetwork :: "(string, net_config) jsmap"
  kc_trustProxy :: trust_setting
  kc_rpcForceIpv4 :: bool
  kc_ipHashSecret :: "string option"
  kc_apiKeys :: "api_key list"
  kc_rateLimits :: limits_config
  kc_storage :: storage_config
  kc_webhooks :: webhook_config
  kc_catalog :: catalog_settings
  kc_shutdownGraceMs :: jsnum
  kc_requestTimeoutMs :: jsnum

definition kc_networks :: "config \<Rightarrow> string list" where
  "kc_networks c = jm_keys (kc_perNetwork c)"

definition storage_of_env :: "config_env \<Rightarrow> process_env \<Rightarrow> vault_config option \<Rightarrow> storage_config" where
  "storage_of_env ce env vault =
     \<lparr>st_redisUrl = env_or_null env ''REDIS_URL'', st_databaseUrl = env_or_null env ''DATABASE_URL'',
      st_databaseReplicaUrl = env_or_null env ''DATABASE_URL_REPLICA'',
      st_settlementReplicaLagMs = env_number ce env ''SETTLEMENT_REPLICA_LAG_MS'' 1000,
      st_rateLimitStore = nullish_or (env_or_null env ''RATE_LIMIT_STORE'') ''memory'',
      st_outboxPollIntervalMs = env_number ce env ''OUTBOX_POLL_INTERVAL_MS'' 5000,
      st_vault = vault, st_redisNodes = env_list env ''REDIS_NODES'', st_region = env_or_null env ''REGION'',
      st_regions = map (parse_region ce) (env_list env ''REGIONS''),
      st_requireDurable = (jm_get env ''SETTLE_REQUIRE_DURABLE_STORE'' = Some ''true'')\<rparr>"

definition webhooks_of_env :: "config_env \<Rightarrow> process_env \<Rightarrow> webhook_config" where
  "webhooks_of_env ce env =
     \<lparr>wc_brokers = env_list env ''KAFKA_BROKERS'',
      wc_clientId = nullish_or (jm_get env ''KAFKA_CLIENT_ID'') ''x402-facilitator-stellar'',
      wc_topic = nullish_or (jm_get env ''KAFKA_WEBHOOK_TOPIC'') ''x402-webhook-delivery'',
      wc_groupId = nullish_or (jm_get env ''KAFKA_WEBHOOK_GROUP_ID'') ''x402-webhook-dispatchers'',
      wc_dlqTopic = env_or_null env ''KAFKA_WEBHOOK_DLQ_TOPIC'', wc_url = env_or_null env ''WEBHOOK_URL'',
      wc_dlqPollIntervalMs = env_number ce env ''DLQ_POLL_INTERVAL_MS'' 10000,
      wc_dlqMaxRetryAttempts = env_number ce env ''DLQ_MAX_RETRY_ATTEMPTS'' 5,
      wc_dlqBaseBackoffMs = env_number ce env ''DLQ_BASE_BACKOFF_MS'' 30000,
      wc_dlqAlertThreshold = env_number ce env ''DLQ_ALERT_THRESHOLD'' 50\<rparr>"

definition catalog_of_env :: "config_env \<Rightarrow> process_env \<Rightarrow> string option \<Rightarrow> catalog_settings" where
  "catalog_of_env ce env rerankUrl =
     \<lparr>cc_searchCache = (jm_get env ''CATALOG_SEARCH_CACHE'' \<in> {Some ''1'', Some ''true''}),
      cc_embeddingsUrl = env_or_null env ''EMBEDDINGS_URL'',
      cc_embeddingsTimeoutMs = env_number ce env ''EMBEDDINGS_TIMEOUT_MS'' 3000,
      cc_maxResourcesPerPayTo = env_number ce env ''CATALOG_MAX_RESOURCES_PER_PAYTO'' 50,
      cc_verifyTtlMs = env_number ce env ''CATALOG_VERIFY_TTL_MS'' 86400000,
      cc_rerankUrl = rerankUrl, cc_enableReranking = (jm_get env ''ENABLE_RERANKING'' = Some ''true''),
      cc_maxAgeSeconds = nonNegativeInt ce (jm_get env ''DISCOVERY_CACHE_MAX_AGE_SECONDS'') 60,
      cc_staleSeconds = nonNegativeInt ce (jm_get env ''DISCOVERY_CACHE_STALE_SECONDS'') 300\<rparr>"

definition networks_of_env :: "config_env \<Rightarrow> process_env \<Rightarrow> net_config \<Rightarrow> config_error + (string, net_config) jsmap" where
  "networks_of_env ce env testnet =
     (if jm_get env ''ENABLE_PUBNET'' = Some ''true''
      then try_then (pubnet_config ce env) (\<lambda>pubnet. Inr [(TESTNET_ID, testnet), (PUBNET_ID, pubnet)])
      else Inr [(TESTNET_ID, testnet)])"

definition resolveConfig :: "config_env \<Rightarrow> process_env \<Rightarrow> config_error + config" where
  "resolveConfig ce env =
     try_then (testnet_config ce env) (\<lambda>testnet.
     try_then (parse_api_keys ce (revokedApiKeyIds env) 0 (env_list env ''FACILITATOR_API_KEYS'')) (\<lambda>apiKeys.
     try_then (limits_of_env ce env apiKeys) (\<lambda>limits.
     try_then (networks_of_env ce env testnet) (\<lambda>networks.
     try_then (trust_of_env env) (\<lambda>trust.
     try_then (rerank_of_env env) (\<lambda>rerankUrl.
     try_then (parsePositiveInt ce (jm_get env ''PORT'') ''PORT'' 3402 1 65535) (\<lambda>port.
     try_then (vault_of_env ce env) (\<lambda>vault.
     Inr \<lparr>kc_port = port, kc_logLevel = nullish_or (jm_get env ''LOG_LEVEL'') ''info'',
          kc_metricsPort = map_option (\<lambda>_. env_number ce env ''METRICS_PORT'' 0) (env_or_null env ''METRICS_PORT''),
          kc_metricsHost = nullish_or (env_trim env ''METRICS_HOST'') ''127.0.0.1'',
          kc_auditLogFile = env_trim env ''AUDIT_LOG_FILE'',
          kc_nodeEnv = nullish_or (jm_get env ''NODE_ENV'') ''development'',
          kc_allowedOrigins = env_list env ''CORS_ALLOWED_ORIGINS'',
          kc_perNetwork = networks, kc_trustProxy = trust,
          kc_rpcForceIpv4 = (jm_get env ''RPC_FORCE_IPV4'' \<noteq> Some ''false''),
          kc_ipHashSecret = env_or_null env ''IP_HASH_SECRET'', kc_apiKeys = apiKeys, kc_rateLimits = limits,
          kc_storage = storage_of_env ce env vault, kc_webhooks = webhooks_of_env ce env,
          kc_catalog = catalog_of_env ce env rerankUrl,
          kc_shutdownGraceMs = env_number ce env ''SHUTDOWN_GRACE_MS'' 15000,
          kc_requestTimeoutMs = env_number ce env ''REQUEST_TIMEOUT_MS'' 30000\<rparr>))))))))"

end
