(* ===== verification/ConfigurationFacts.thy ===== *)
theory ConfigurationFacts
  imports Configuration
begin

text \<open>
  What a configuration that is accepted guarantees: bounds of fees and ports, strength of API keys,
  the opt-in for pubnet, limits of known keys only; and what is refused that should not be.
\<close>

section \<open>Numbers and networks\<close>

lemma parsePositiveInt_bounds: "parsePositiveInt ce v name d lo hi = Inr n \<Longrightarrow> lo \<le> n \<and> n \<le> hi"
  by (auto simp: parsePositiveInt_def Let_def split: option.splits if_splits)

definition fees_bounded :: "net_config \<Rightarrow> bool" where
  "fees_bounded n \<longleftrightarrow> 100 \<le> nc_maxTransactionFeeStroops n \<and> nc_maxTransactionFeeStroops n \<le> 10000000
     \<and> 100 \<le> nc_pactMaxTransactionFeeStroops n \<and> nc_pactMaxTransactionFeeStroops n \<le> 10000000"

lemma net_fees_bounds: "net_fees ce env sfx = Inr (f, c, p) \<Longrightarrow> 100 \<le> f \<and> f \<le> 10000000 \<and> 100 \<le> p \<and> p \<le> 10000000"
  using parsePositiveInt_bounds by (fastforce simp: net_fees_def parsePactFeeCeiling_def Let_def try_then_Inr)

text \<open>The secrets of a network are valid seeds, at least one, and no two the same.\<close>

lemma check_secrets_ok:
  "check_secrets ce key seen ss = None \<Longrightarrow> distinct ss \<and> list_all (ce_seed ce) ss \<and> set ss \<inter> set seen = {}"
  by (induction ce key seen ss rule: check_secrets.induct) (auto split: if_splits)

lemma parseSecrets_ok: "parseSecrets ce env pk sk = Inr ss \<Longrightarrow> ss \<noteq> [] \<and> distinct ss \<and> list_all (ce_seed ce) ss"
  using check_secrets_ok [of ce sk "[]" ss] by (auto simp: parseSecrets_def Let_def split: option.splits if_splits)

definition net_ok :: "config_env \<Rightarrow> net_config \<Rightarrow> bool" where
  "net_ok ce n \<longleftrightarrow> fees_bounded n \<and> nc_secrets n \<noteq> [] \<and> distinct (nc_secrets n) \<and> list_all (ce_seed ce) (nc_secrets n)"

lemma testnet_ok: "testnet_config ce env = Inr n \<Longrightarrow> net_ok ce n"
  by (auto simp: testnet_config_def try_then_Inr net_ok_def fees_bounded_def dest: parseSecrets_ok net_fees_bounds)

lemma pubnet_config_Inr:
  assumes "pubnet_config ce env = Inr n"
  obtains rpc f c p where "parseSecrets ce env ''FACILITATOR_SECRETS_PUBNET'' ''FACILITATOR_SECRET_PUBNET'' = Inr (nc_secrets n)"
    "env_or_null env ''STELLAR_RPC_URL_PUBNET'' = Some rpc" "nc_rpcUrl n = Some rpc" "net_fees ce env ''_PUBNET'' = Inr (f, c, p)"
    "nc_maxTransactionFeeStroops n = f" "nc_pactMaxTransactionFeeStroops n = p"
    "nc_keyManagerUrl n = nullish (jm_get env ''KEY_MANAGER_URL_PUBNET'') (jm_get env ''KEY_MANAGER_URL'')"
  using assms by (auto simp: pubnet_config_def try_then_Inr split: option.splits)

lemma pubnet_ok: "pubnet_config ce env = Inr n \<Longrightarrow> net_ok ce n"
  by (erule pubnet_config_Inr) (auto simp: net_ok_def fees_bounded_def dest: parseSecrets_ok net_fees_bounds)

lemma networks_cases:
  assumes "networks_of_env ce env testnet = Inr m"
  obtains (pub) p where "jm_get env ''ENABLE_PUBNET'' = Some ''true''" "pubnet_config ce env = Inr p" "m = [(TESTNET_ID, testnet), (PUBNET_ID, p)]"
  | (test) "jm_get env ''ENABLE_PUBNET'' \<noteq> Some ''true''" "m = [(TESTNET_ID, testnet)]"
  using assms by (auto simp: networks_of_env_def try_then_Inr split: if_splits)

lemma resolveConfig_Inr:
  assumes "resolveConfig ce env = Inr c"
  obtains testnet vault rerankUrl where "testnet_config ce env = Inr testnet"
    "parse_api_keys ce (revokedApiKeyIds env) 0 (env_list env ''FACILITATOR_API_KEYS'') = Inr (kc_apiKeys c)"
    "limits_of_env ce env (kc_apiKeys c) = Inr (kc_rateLimits c)" "networks_of_env ce env testnet = Inr (kc_perNetwork c)"
    "trust_of_env env = Inr (kc_trustProxy c)" "rerank_of_env env = Inr rerankUrl"
    "parsePositiveInt ce (jm_get env ''PORT'') ''PORT'' 3402 1 65535 = Inr (kc_port c)"
    "vault_of_env ce env = Inr vault" "kc_storage c = storage_of_env ce env vault" "kc_catalog c = catalog_of_env ce env rerankUrl"
  using assms unfolding resolveConfig_def try_then_Inr by force

text \<open>Every fee ceiling of a configuration that is accepted, and its port, are within their bounds.\<close>

lemma config_bounds:
  assumes "resolveConfig ce env = Inr c"
  shows "1 \<le> kc_port c \<and> kc_port c \<le> 65535 \<and> (\<forall>(n, nc) \<in> set (kc_perNetwork c). net_ok ce nc)"
proof -
  from assms obtain testnet where t: "testnet_config ce env = Inr testnet" "networks_of_env ce env testnet = Inr (kc_perNetwork c)"
    "parsePositiveInt ce (jm_get env ''PORT'') ''PORT'' 3402 1 65535 = Inr (kc_port c)"
    by (rule resolveConfig_Inr)
  have "\<forall>(n, nc) \<in> set (kc_perNetwork c). net_ok ce nc"
    using t(2) by (cases rule: networks_cases) (auto simp: testnet_ok [OF t(1)] pubnet_ok)
  with parsePositiveInt_bounds [OF t(3)] show ?thesis by simp
qed

text \<open>Pubnet is served exactly when it is asked for, and then with its own secrets and its own node.\<close>

lemma pubnet_opt_in:
  assumes "resolveConfig ce env = Inr c"
  shows "PUBNET_ID \<in> set (kc_networks c) \<longleftrightarrow> jm_get env ''ENABLE_PUBNET'' = Some ''true''"
    and "TESTNET_ID \<in> set (kc_networks c)"
    and "jm_get (kc_perNetwork c) PUBNET_ID = Some n \<Longrightarrow>
      parseSecrets ce env ''FACILITATOR_SECRETS_PUBNET'' ''FACILITATOR_SECRET_PUBNET'' = Inr (nc_secrets n)
      \<and> (\<exists>u. u \<noteq> [] \<and> nc_rpcUrl n = Some u \<and> jm_get env ''STELLAR_RPC_URL_PUBNET'' = Some u)"
proof -
  from assms obtain testnet where t: "networks_of_env ce env testnet = Inr (kc_perNetwork c)" by (rule resolveConfig_Inr)
  have ne: "TESTNET_ID \<noteq> PUBNET_ID" by (simp add: TESTNET_ID_def PUBNET_ID_def)
  show "PUBNET_ID \<in> set (kc_networks c) \<longleftrightarrow> jm_get env ''ENABLE_PUBNET'' = Some ''true''" "TESTNET_ID \<in> set (kc_networks c)"
    using t ne by (cases rule: networks_cases; simp add: kc_networks_def jm_keys_def)+
  assume g: "jm_get (kc_perNetwork c) PUBNET_ID = Some n"
  have "pubnet_config ce env = Inr n" using t
  proof (cases rule: networks_cases)
    case (pub p)
    with g ne show ?thesis by simp
  next
    case test
    with g ne show ?thesis by simp
  qed
  then obtain rpc where r: "parseSecrets ce env ''FACILITATOR_SECRETS_PUBNET'' ''FACILITATOR_SECRET_PUBNET'' = Inr (nc_secrets n)"
    "env_or_null env ''STELLAR_RPC_URL_PUBNET'' = Some rpc" "nc_rpcUrl n = Some rpc"
    by (rule pubnet_config_Inr)
  then have "rpc \<noteq> [] \<and> jm_get env ''STELLAR_RPC_URL_PUBNET'' = Some rpc" by (auto simp: env_or_null_def split: option.splits if_splits)
  with r(1,3)
  show "parseSecrets ce env ''FACILITATOR_SECRETS_PUBNET'' ''FACILITATOR_SECRET_PUBNET'' = Inr (nc_secrets n)
      \<and> (\<exists>u. u \<noteq> [] \<and> nc_rpcUrl n = Some u \<and> jm_get env ''STELLAR_RPC_URL_PUBNET'' = Some u)" by blast
qed

text \<open>But its keys may come from the key manager of testnet.\<close>

lemma pubnet_shares_key_manager:
  "pubnet_config ce env = Inr n \<Longrightarrow> jm_get env ''KEY_MANAGER_URL_PUBNET'' = None
   \<Longrightarrow> nc_keyManagerUrl n = jm_get env ''KEY_MANAGER_URL''"
  by (erule pubnet_config_Inr) (simp add: nullish_def)

section \<open>API keys\<close>

definition key_ok :: "config_env \<Rightarrow> string list \<Rightarrow> api_key \<Rightarrow> bool" where
  "key_ok ce revoked k \<longleftrightarrow> ak_id k \<noteq> [] \<and> list_all key_id_char (ak_id k) \<and> ak_revoked k = (js_upper (ak_id k) \<in> set revoked)
     \<and> (\<exists>secret. MIN_API_KEY_LENGTH \<le> length secret \<and> ak_hash k = ce_sha256 ce secret)"

lemma parse_api_key_ok: "parse_api_key ce revoked i s = Inr k \<Longrightarrow> key_ok ce revoked k"
  by (auto simp: parse_api_key_def Let_def try_then_Inr key_ok_def not_less split: prod.splits if_splits)

lemma parse_api_keys_ok: "parse_api_keys ce revoked i ss = Inr ks \<Longrightarrow> list_all (key_ok ce revoked) ks \<and> length ks = length ss"
proof (induction ss arbitrary: i ks)
  case (Cons s ss)
  then obtain k ks' where "parse_api_key ce revoked i s = Inr k" "parse_api_keys ce revoked (i + 1) ss = Inr ks'" "ks = k # ks'"
    by (auto simp: try_then_Inr)
  with Cons.IH [of "i + 1" ks'] show ?case by (simp add: parse_api_key_ok)
qed simp

text \<open>Every entry becomes a key, none of them weak, and revoked if its id is listed.\<close>

lemma config_keys:
  assumes "resolveConfig ce env = Inr c"
  shows "list_all (key_ok ce (revokedApiKeyIds env)) (kc_apiKeys c)
    \<and> length (kc_apiKeys c) = length (env_list env ''FACILITATOR_API_KEYS'')"
  using assms by (rule resolveConfig_Inr) (auto dest: parse_api_keys_ok)

lemma takeWhile_front: "c \<notin> set x \<Longrightarrow> takeWhile (\<lambda>y. y \<noteq> c) (x @ c # r) = x \<and> dropWhile (\<lambda>y. y \<noteq> c) (x @ c # r) = c # r"
  by (induction x) auto

lemma key_parts_named: "CHR '':'' \<notin> set kid \<Longrightarrow> kid \<noteq> [] \<Longrightarrow> key_parts i (kid @ CHR '':'' # r) = (kid, r)"
  by (simp add: key_parts_def takeWhile_front)

lemma split_last_at: "c \<notin> set b \<Longrightarrow> split_last c (a @ c # b) = Some (a, b)"
  using takeWhile_front [of c "rev b" "rev a"] by (simp add: split_last_def)

lemma id_char_colon: "list_all key_id_char kid \<Longrightarrow> CHR '':'' \<notin> set kid"
  by (auto simp: list_all_iff key_id_char_def)

lemma digits_colon: "list_all is_digit s \<Longrightarrow> CHR '':'' \<notin> set s"
  by (auto simp: list_all_iff is_digit_def)

text \<open>An entry reads back: its id, its secret under the hash, and its expiry in milliseconds.\<close>

lemma key_entry_read:
  assumes "kid \<noteq> []" "list_all key_id_char kid" "32 \<le> length secret" "CHR '':'' \<notin> set secret"
  shows "parse_api_key ce revoked i (kid @ '':'' @ secret)
      = Inr \<lparr>ak_id = kid, ak_hash = ce_sha256 ce secret, ak_expires_at = None, ak_revoked = (js_upper kid \<in> set revoked)\<rparr>"
    and "parse_api_key ce revoked i (kid @ '':'' @ secret @ '':'' @ nat_str n)
      = Inr \<lparr>ak_id = kid, ak_hash = ce_sha256 ce secret, ak_expires_at = Some (int n * 1000), ak_revoked = (js_upper kid \<in> set revoked)\<rparr>"
proof -
  have p: "key_parts i (kid @ CHR '':'' # r) = (kid, r)" for r
    by (rule key_parts_named [OF id_char_colon [OF assms(2)] assms(1)])
  have s: "split_last CHR '':'' secret = None" using assms(4) by (simp add: split_last_def)
  have e: "split_last CHR '':'' (secret @ CHR '':'' # nat_str n) = Some (secret, nat_str n)"
    by (rule split_last_at [OF digits_colon [OF nat_str_digits]])
  have ne: "secret \<noteq> []" using assms(3) by auto
  show "parse_api_key ce revoked i (kid @ '':'' @ secret)
      = Inr \<lparr>ak_id = kid, ak_hash = ce_sha256 ce secret, ak_expires_at = None, ak_revoked = (js_upper kid \<in> set revoked)\<rparr>"
    using assms(1-3) p s by (simp add: parse_api_key_def key_expiry_def try_then_def MIN_API_KEY_LENGTH_def)
  show "parse_api_key ce revoked i (kid @ '':'' @ secret @ '':'' @ nat_str n)
      = Inr \<lparr>ak_id = kid, ak_hash = ce_sha256 ce secret, ak_expires_at = Some (int n * 1000), ak_revoked = (js_upper kid \<in> set revoked)\<rparr>"
    using assms(1-3) p e ne nat_str_digits [of n] digits_value_nat_str [of n]
    by (simp add: parse_api_key_def key_expiry_def try_then_def MIN_API_KEY_LENGTH_def)
qed

text \<open>A key written without an id but with an expiry has its secret taken for the id, which the error names.\<close>

lemma secret_taken_for_id:
  assumes "secret \<noteq> []" "list_all key_id_char secret" "length (nat_str n) < 32"
  shows "parse_api_key ce revoked i (secret @ '':'' @ nat_str n) = Inl (Key_short secret (length (nat_str n)))"
proof -
  have p: "key_parts i (secret @ CHR '':'' # nat_str n) = (secret, nat_str n)"
    by (rule key_parts_named [OF id_char_colon [OF assms(2)] assms(1)])
  have "split_last CHR '':'' (nat_str n) = None" using digits_colon [OF nat_str_digits [of n]] by (simp add: split_last_def)
  with p assms show ?thesis by (simp add: parse_api_key_def key_expiry_def try_then_def MIN_API_KEY_LENGTH_def)
qed

section \<open>Rate limits\<close>

lemma limit_overrides_known:
  assumes "limit_overrides ce ids env keys = Inr keys'" "set (jm_keys keys) \<subseteq> set ids"
  shows "set (jm_keys keys') \<subseteq> set ids \<and> (\<forall>(k, v) \<in> set env. is_limit_override k \<longrightarrow> js_upper (drop 11 k) \<in> set ids)"
  using assms
proof (induction ce ids env keys rule: limit_overrides.induct)
  case (2 ce ids k v env keys)
  show ?case
  proof (cases "is_limit_override k")
    case True
    with 2 have "js_upper (drop 11 k) \<in> set ids" by (simp split: if_splits)
    moreover then have "set (jm_keys (jm_set (js_upper (drop 11 k)) (parseLimits ce (Some v)) keys)) \<subseteq> set ids"
      using 2(4) by (auto simp: jm_keys_def dom_update [unfolded dom_map_of_conv_image_fst, symmetric] update_keys)
    ultimately show ?thesis using 2 True by auto
  qed (use 2 in auto)
qed simp

lemma limits_of_env_Inr: "limits_of_env ce env ks = Inr l \<Longrightarrow> limit_overrides ce (map (js_upper \<circ> ak_id) ks) env [] = Inr (lc_keys l)"
  by (auto simp: limits_of_env_def try_then_Inr)

text \<open>Limits are kept for configured keys only.\<close>

lemma config_limits:
  assumes "resolveConfig ce env = Inr c"
  shows "set (jm_keys (lc_keys (kc_rateLimits c))) \<subseteq> (js_upper \<circ> ak_id) ` set (kc_apiKeys c)
    \<and> (\<forall>(k, v) \<in> set env. is_limit_override k \<longrightarrow> js_upper (drop 11 k) \<in> (js_upper \<circ> ak_id) ` set (kc_apiKeys c))"
proof -
  from assms have "limits_of_env ce env (kc_apiKeys c) = Inr (kc_rateLimits c)" by (rule resolveConfig_Inr)
  then have "limit_overrides ce (map (js_upper \<circ> ak_id) (kc_apiKeys c)) env [] = Inr (lc_keys (kc_rateLimits c))"
    by (rule limits_of_env_Inr)
  from limit_overrides_known [OF this] show ?thesis by (simp add: jm_keys_def)
qed

text \<open>
  The variable that chooses the store of the limiter has the prefix of an override: with it set to
  any value the service starts only where an API key is named STORE.
\<close>

lemma limiter_store_refused:
  assumes "jm_get env ''RATE_LIMIT_STORE'' = Some v" "\<not> list_ex (\<lambda>k. js_upper (ak_id k) = ''STORE'') ks"
    "parse_api_keys ce (revokedApiKeyIds env) 0 (env_list env ''FACILITATOR_API_KEYS'') = Inr ks"
  shows "\<exists>e. resolveConfig ce env = Inl e"
proof (cases "resolveConfig ce env")
  case (Inr c)
  then have ks: "ks = kc_apiKeys c" using assms(3) by (auto elim: resolveConfig_Inr)
  have "is_limit_override ''RATE_LIMIT_STORE''" by (simp add: is_limit_override_def)
  moreover have "(''RATE_LIMIT_STORE'', v) \<in> set env" using assms(1) by (rule map_of_SomeD)
  ultimately have "js_upper (drop 11 ''RATE_LIMIT_STORE'') \<in> (js_upper \<circ> ak_id) ` set ks" using config_limits [OF Inr] ks by blast
  moreover have "js_upper (drop 11 ''RATE_LIMIT_STORE'') = ''STORE''" by code_simp
  ultimately show ?thesis using assms(2) by (auto simp: list_ex_iff)
qed simp

section \<open>Vault\<close>

text \<open>With Vault the address of the database is given and carries no credentials of its own.\<close>

lemma env_or_null_Some: "env_or_null env k = Some s \<Longrightarrow> s \<noteq> []"
  by (auto simp: env_or_null_def split: option.splits if_splits)

lemma vault_of_env_Some:
  "vault_of_env ce env = Inr (Some v) \<Longrightarrow>
   \<exists>url. env_or_null env ''DATABASE_URL'' = Some url \<and> \<not> vaultUrlHasUserinfo ce url \<and> vt_roleId v \<noteq> [] \<and> vt_secretId v \<noteq> []"
  by (auto simp: vault_of_env_def dest: env_or_null_Some split: option.splits if_splits)

lemma vault_database:
  assumes "resolveConfig ce env = Inr c" "st_vault (kc_storage c) = Some v"
  shows "\<exists>url. st_databaseUrl (kc_storage c) = Some url \<and> ce_userinfo ce url \<noteq> Some True \<and> vt_roleId v \<noteq> [] \<and> vt_secretId v \<noteq> []"
proof -
  from assms(1) obtain vault where s: "vault_of_env ce env = Inr vault" "kc_storage c = storage_of_env ce env vault" by (rule resolveConfig_Inr)
  have "vault = Some v" using assms(2) by (simp add: s(2) storage_of_env_def)
  with vault_of_env_Some [of ce env v] s(1) obtain url where "env_or_null env ''DATABASE_URL'' = Some url" "\<not> vaultUrlHasUserinfo ce url"
    "vt_roleId v \<noteq> []" "vt_secretId v \<noteq> []" by blast
  then show ?thesis by (auto simp: s(2) storage_of_env_def vaultUrlHasUserinfo_def)
qed

end
