(* ===== verification/PercentText.thy ===== *)
theory PercentText
  imports CatalogValidation McpText
begin

text \<open>
  \<open>encodeURIComponent\<close> over UTF-16 text, beside the \<open>decodeURIComponent\<close> of CatalogValidation, and
  the two being inverse: every well-formed text survives the way through a URI component.
\<close>

section \<open>Code points and units\<close>

text \<open>A text as code points; \<open>None\<close> where a surrogate stands alone, at which the encoder throws.\<close>

fun points_of :: "units \<Rightarrow> nat list option" where
  "points_of [] = Some []"
| "points_of (a # r) =
     (if low_unit a then None
      else if high_unit a then
        (case r of
           b # r' \<Rightarrow> if low_unit b then map_option (Cons (0x10000 + (a - 0xD800) * 0x400 + (b - 0xDC00))) (points_of r') else None
         | [] \<Rightarrow> None)
      else map_option (Cons a) (points_of r))"

definition units_of_point :: "nat \<Rightarrow> units" where
  "units_of_point p = (if p < 0x10000 then [p] else [0xD800 + (p - 0x10000) div 0x400, 0xDC00 + (p - 0x10000) mod 0x400])"

definition units_of_points :: "nat list \<Rightarrow> units" where
  "units_of_points ps = concat (map units_of_point ps)"

definition scalar :: "nat \<Rightarrow> bool" where
  "scalar p \<longleftrightarrow> p < 0xD800 \<or> (0xDFFF < p \<and> p \<le> 0x10FFFF)"

section \<open>Encoding\<close>

definition unreserved :: "nat \<Rightarrow> bool" where
  "unreserved n \<longleftrightarrow> (48 \<le> n \<and> n \<le> 57) \<or> (65 \<le> n \<and> n \<le> 90) \<or> (97 \<le> n \<and> n \<le> 122)
     \<or> n \<in> {33, 39, 40, 41, 42, 45, 46, 95, 126}"

definition hex_upper :: "nat \<Rightarrow> char" where
  "hex_upper d = char_of (if d < 10 then 48 + d else 55 + d)"

definition percent_octet :: "nat \<Rightarrow> string" where
  "percent_octet b = [CHR ''%'', hex_upper (b div 16), hex_upper (b mod 16)]"

definition utf8_octets :: "nat \<Rightarrow> nat list" where
  "utf8_octets p =
     (if p < 0x80 then [p]
      else if p < 0x800 then [192 + p div 64, 128 + p mod 64]
      else if p < 0x10000 then [224 + p div 4096, 128 + p div 64 mod 64, 128 + p mod 64]
      else [240 + p div 262144, 128 + p div 4096 mod 64, 128 + p div 64 mod 64, 128 + p mod 64])"

definition encode_point :: "nat \<Rightarrow> string" where
  "encode_point p = (if unreserved p then [char_of p] else concat (map percent_octet (utf8_octets p)))"

definition encodeURIComponent :: "units \<Rightarrow> string option" where
  "encodeURIComponent u = map_option (\<lambda>ps. concat (map encode_point ps)) (points_of u)"

section \<open>The way back\<close>

lemma hex_of_upper: "d < 16 \<Longrightarrow> hex_of (hex_upper d) = Some d"
  by (simp add: hex_of_def hex_upper_def Let_def of_char_of)

lemma percent_byte_octet: "b < 256 \<Longrightarrow> percent_byte (percent_octet b @ r) = Some (b, r)"
  by (simp add: percent_byte_def percent_octet_def hex_of_upper)

lemma decode_octet: "decodeURIComponent (percent_octet b @ r) =
  (case percent_byte (percent_octet b @ r) of None \<Rightarrow> None
   | Some (b, rest) \<Rightarrow> (case utf8_point b rest of None \<Rightarrow> None
      | Some (v, r) \<Rightarrow> map_option (Cons v) (decodeURIComponent r)))"
  by (simp add: percent_octet_def)

lemma continuation_octet: "c < 64 \<Longrightarrow> continuation (Suc n) acc (percent_octet (128 + c) @ r) = continuation n (64 * acc + c) r"
  by (simp add: percent_byte_octet)

lemma utf8_point_octets:
  assumes "scalar p" "utf8_octets p = b # bs"
  shows "b < 256 \<and> utf8_point b (concat (map percent_octet bs) @ r) = Some (p, r)"
proof -
  have m: "x mod 64 < 64" for x :: nat by simp
  note step = continuation_octet [OF m]
  consider "p < 0x80" | "0x80 \<le> p" "p < 0x800" | "0x800 \<le> p" "p < 0x10000" | "0x10000 \<le> p" by linarith
  then show ?thesis
  proof cases
    case 1
    then show ?thesis using assms(2) by (auto simp: utf8_octets_def utf8_point_def)
  next
    case 2
    then have b: "b = 192 + p div 64" and bs: "bs = [128 + p mod 64]" using assms(2) by (auto simp: utf8_octets_def)
    have small: "p div 64 < 32" using 2 by (simp add: div_less_iff_less_mult)
    have "continuation 1 (p div 64) (percent_octet (128 + p mod 64) @ r) = Some (p, r)"
      using step [of 0] by simp
    then show ?thesis using 2 small by (simp add: b bs utf8_point_def del: continuation.simps One_nat_def)
  next
    case 3
    then have b: "b = 224 + p div 4096" and bs: "bs = [128 + p div 64 mod 64, 128 + p mod 64]"
      using assms(2) by (auto simp: utf8_octets_def)
    have small: "p div 4096 < 16" using 3 by (simp add: div_less_iff_less_mult)
    have join: "64 * (p div 4096) + p div 64 mod 64 = p div 64"
      using mult_div_mod_eq [of 64 "p div 64"] by (simp add: div_mult2_eq [of p 64 64, simplified])
    have "continuation 2 (p div 4096) (percent_octet (128 + p div 64 mod 64) @ percent_octet (128 + p mod 64) @ r) = Some (p, r)"
      using step [of 1] step [of 0] by (simp add: numeral_2_eq_2 join del: continuation.simps(2))
    moreover have "\<not> (0xd800 \<le> p \<and> p \<le> 0xdfff)" using assms(1) by (auto simp: scalar_def)
    ultimately show ?thesis using 3 small by (simp add: b bs utf8_point_def del: continuation.simps One_nat_def)
  next
    case 4
    then have b: "b = 240 + p div 262144" and bs: "bs = [128 + p div 4096 mod 64, 128 + p div 64 mod 64, 128 + p mod 64]"
      using assms(2) by (auto simp: utf8_octets_def)
    have top: "p \<le> 0x10FFFF" using assms(1) 4 by (auto simp: scalar_def)
    then have small: "p div 262144 < 8" by (simp add: div_less_iff_less_mult)
    have join: "64 * (p div 262144) + p div 4096 mod 64 = p div 4096" "64 * (p div 4096) + p div 64 mod 64 = p div 64"
      using mult_div_mod_eq [of 64 "p div 4096"] mult_div_mod_eq [of 64 "p div 64"]
      by (simp_all add: div_mult2_eq [of p 64 64, simplified] div_mult2_eq [of p 4096 64, simplified])
    have "continuation 3 (p div 262144) (percent_octet (128 + p div 4096 mod 64)
        @ percent_octet (128 + p div 64 mod 64) @ percent_octet (128 + p mod 64) @ r) = Some (p, r)"
      using step [of 2] step [of 1] step [of 0] by (simp add: numeral_3_eq_3 numeral_2_eq_2 join del: continuation.simps(2))
    then show ?thesis using 4 small top by (simp add: b bs utf8_point_def del: continuation.simps One_nat_def)
  qed
qed

lemma utf8_octets_Cons: obtains b bs where "utf8_octets p = b # bs"
  by (cases "utf8_octets p") (auto simp: utf8_octets_def split: if_splits)

lemma unreserved_small: "unreserved n \<Longrightarrow> n < 128 \<and> n \<noteq> 37"
  by (auto simp: unreserved_def)

lemma decode_point: "scalar p \<Longrightarrow> decodeURIComponent (encode_point p @ r) = map_option (Cons p) (decodeURIComponent r)"
proof (cases "unreserved p")
  case True
  then have p: "p mod 256 = p" "p \<noteq> 37" using unreserved_small [OF True] by simp_all
  then have c: "of_char (char_of p :: char) = p" by (simp add: of_char_of)
  have "(of_char (CHR ''%'') :: nat) = 37" by simp
  with c p(2) have "(char_of p :: char) \<noteq> CHR ''%''" by metis
  with c show ?thesis using True by (simp add: encode_point_def)
next
  case False
  assume s: "scalar p"
  obtain b bs where o: "utf8_octets p = b # bs" by (rule utf8_octets_Cons)
  have e: "encode_point p @ r = percent_octet b @ (concat (map percent_octet bs) @ r)" using False o by (simp add: encode_point_def)
  show ?thesis
    using utf8_point_octets [OF s o, of r] unfolding e decode_octet
    by (simp add: percent_byte_octet)
qed

lemma decode_points: "list_all scalar ps \<Longrightarrow> decodeURIComponent (concat (map encode_point ps)) = Some ps"
  by (induction ps) (simp_all add: decode_point del: decodeURIComponent.simps(2))

lemma points_inverse: "list_all (\<lambda>n. n < 0x10000) u \<Longrightarrow> points_of u = Some ps \<Longrightarrow> list_all scalar ps \<and> units_of_points ps = u"
proof (induction u arbitrary: ps rule: points_of.induct)
  case 1
  then show ?case by (simp add: units_of_points_def)
next
  case (2 a r)
  show ?case
  proof (cases "high_unit a")
    case True
    then have nl: "\<not> low_unit a" by (rule high_not_low)
    with True 2(4) obtain b r' qs where r: "r = b # r'" "low_unit b" "points_of r' = Some qs"
      and ps: "ps = (0x10000 + (a - 0xD800) * 0x400 + (b - 0xDC00)) # qs"
      by (auto split: list.splits if_splits)
    have rest: "list_all scalar qs \<and> units_of_points qs = r'"
      using 2(1) [OF nl True r(1,2) _ r(3)] 2(3) r(1) by simp
    define x y where "x = a - 0xD800" and "y = b - 0xDC00"
    have xy: "a = 0xD800 + x" "b = 0xDC00 + y" "x < 0x400" "y < 0x400"
      using True r(2) by (auto simp: x_def y_def high_unit_def low_unit_def)
    then have "(x * 0x400 + y) div 0x400 = x" "(x * 0x400 + y) mod 0x400 = y" by auto
    moreover from xy have "scalar (0x10000 + x * 0x400 + y)" by (simp add: scalar_def)
    ultimately show ?thesis using xy rest
      by (simp add: ps r(1) units_of_points_def units_of_point_def)
  next
    case False
    with 2(4) obtain qs where nl: "\<not> low_unit a" and qs: "points_of r = Some qs" and ps: "ps = a # qs"
      by (auto split: if_splits)
    have "list_all scalar qs \<and> units_of_points qs = r" using 2(2) [OF nl False _ qs] 2(3) by simp
    moreover have "scalar a" using False nl 2(3) by (auto simp: scalar_def high_unit_def low_unit_def)
    ultimately show ?thesis using 2(3) by (simp add: ps units_of_points_def units_of_point_def)
  qed
qed

text \<open>A text that can be encoded comes back from its component.\<close>

definition decode_units :: "string \<Rightarrow> units option" where
  "decode_units s = map_option units_of_points (decodeURIComponent s)"

lemma component_roundtrip:
  assumes "list_all (\<lambda>n. n < 0x10000) u" "encodeURIComponent u = Some s"
  shows "decode_units s = Some u"
proof -
  obtain ps where p: "points_of u = Some ps" "s = concat (map encode_point ps)"
    using assms(2) by (auto simp: encodeURIComponent_def)
  with points_inverse [OF assms(1) p(1)] show ?thesis by (simp add: decode_units_def decode_points)
qed

text \<open>Whatever is decoded is text the encoder accepts.\<close>

lemma continuation_points: "continuation n acc s = Some (v, r) \<Longrightarrow> acc * 64 ^ n \<le> v \<and> v < (acc + 1) * 64 ^ n"
proof (induction n arbitrary: acc s)
  case (Suc n)
  from Suc.prems obtain b rest where b: "128 \<le> b" "b < 192" "continuation n (64 * acc + (b - 128)) rest = Some (v, r)"
    by (auto split: option.splits if_splits)
  have "64 * acc * 64 ^ n \<le> (64 * acc + (b - 128)) * 64 ^ n" "(64 * acc + (b - 128) + 1) * 64 ^ n \<le> (64 * acc + 64) * 64 ^ n"
    using b(1,2) by (intro mult_right_mono; simp)+
  with Suc.IH [OF b(3)] show ?case by (auto simp: algebra_simps)
qed simp

lemma utf8_point_scalar: "utf8_point b s = Some (v, r) \<Longrightarrow> scalar v"
proof -
  assume u: "utf8_point b s = Some (v, r)"
  consider "b < 128" | "192 \<le> b" "b < 224" | "224 \<le> b" "b < 240" | "240 \<le> b" "b < 248"
    using u by (auto simp: utf8_point_def split: if_splits)
  then show ?thesis
  proof cases
    case 1
    with u show ?thesis by (simp add: utf8_point_def scalar_def)
  next
    case 2
    with u have c: "continuation 1 (b - 192) s = Some (v, r)"
      by (auto simp: utf8_point_def simp del: continuation.simps One_nat_def split: option.splits if_splits)
    have "b - 192 + 1 \<le> 32" using 2 by simp
    then have "(b - 192 + 1) * 64 \<le> 32 * 64" by (rule mult_right_mono) simp
    with continuation_points [OF c] show ?thesis by (simp add: scalar_def)
  next
    case 3
    with u have c: "continuation 2 (b - 224) s = Some (v, r)" "\<not> (0xd800 \<le> v \<and> v \<le> 0xdfff)"
      by (auto simp: utf8_point_def simp del: continuation.simps split: option.splits if_splits)
    have "b - 224 + 1 \<le> 16" using 3 by simp
    then have "(b - 224 + 1) * 64 ^ 2 \<le> 16 * 64 ^ 2" by (rule mult_right_mono) simp
    with continuation_points [OF c(1)] have "v < 16 * 4096" by simp
    with c(2) show ?thesis by (auto simp: scalar_def)
  next
    case 4
    with u have "65536 \<le> v" "v \<le> 0x10ffff"
      by (auto simp: utf8_point_def simp del: continuation.simps split: option.splits if_splits)
    then show ?thesis by (simp add: scalar_def)
  qed
qed

lemma decode_scalar: "decodeURIComponent s = Some ps \<Longrightarrow> list_all scalar ps"
proof (induction s arbitrary: ps rule: decodeURIComponent.induct)
  case (2 c cs)
  show ?case
  proof (cases "c = CHR ''%''")
    case False
    have "(of_char c :: nat) < 256" by (rule nat_of_char_less_256)
    then have "scalar (of_char c)" unfolding scalar_def by linarith
    with False 2 show ?thesis by auto
  next
    case True
    with 2(3) obtain b rest v r qs where p: "percent_byte (c # cs) = Some (b, rest)" "utf8_point b rest = Some (v, r)"
      "decodeURIComponent r = Some qs" "ps = v # qs"
      by (auto split: option.splits prod.splits)
    have "list_all scalar qs" by (rule 2(2) [OF _ p(1) refl p(2) refl p(3)]) (simp add: True)
    with p(4) utf8_point_scalar [OF p(2)] show ?thesis by simp
  qed
qed simp

lemma units_of_point_inverse: "scalar p \<Longrightarrow> points_of (units_of_point p @ u) = map_option (Cons p) (points_of u)"
proof (cases "p < 0x10000")
  case True
  assume "scalar p"
  with True show ?thesis by (auto simp: units_of_point_def scalar_def high_unit_def low_unit_def)
next
  case False
  assume s: "scalar p"
  define q where "q = p - 0x10000"
  with s False have q: "p = 0x10000 + q" "q div 0x400 < 0x400" by (auto simp: scalar_def div_less_iff_less_mult)
  have "q mod 0x400 < 0x400" by simp
  then have "q mod 0x400 \<le> 0x3FF" by linarith
  moreover have "q div 0x400 * 0x400 + q mod 0x400 = q" by simp
  ultimately show ?thesis using q False
    by (simp add: units_of_point_def q_def [symmetric] high_unit_def low_unit_def less_Suc_eq_le add.commute)
qed

lemma points_of_units: "list_all scalar ps \<Longrightarrow> points_of (units_of_points ps) = Some ps"
  by (induction ps) (simp_all add: units_of_points_def units_of_point_inverse)

lemma decoded_encodes: "decode_units s = Some u \<Longrightarrow> list_all (\<lambda>n. n < 0x10000) u \<and> encodeURIComponent u \<noteq> None"
proof -
  assume "decode_units s = Some u"
  then obtain ps where p: "decodeURIComponent s = Some ps" "u = units_of_points ps" by (auto simp: decode_units_def)
  have sc: "list_all scalar ps" by (rule decode_scalar [OF p(1)])
  have "list_all (\<lambda>n. n < 0x10000) (units_of_point q)" if "scalar q" for q
    using that by (auto simp: units_of_point_def scalar_def div_less_iff_less_mult)
  with sc have "list_all (\<lambda>n. n < 0x10000) u" by (auto simp: p(2) units_of_points_def list_all_iff)
  with points_of_units [OF sc] show ?thesis by (simp add: encodeURIComponent_def p(2))
qed

text \<open>The encoder writes only unreserved characters and percent signs.\<close>

lemma hex_upper_unreserved: "d < 16 \<Longrightarrow> unreserved (of_char (hex_upper d))"
  by (simp add: hex_upper_def unreserved_def of_char_of)

lemma utf8_octets_byte: "scalar p \<Longrightarrow> b \<in> set (utf8_octets p) \<Longrightarrow> b < 256"
proof -
  assume s: "scalar p" and b: "b \<in> set (utf8_octets p)"
  have m: "x mod 64 < 64" for x :: nat by simp
  have top: "p div 262144 < 8" using s by (auto simp: scalar_def div_less_iff_less_mult)
  have "p < 0x800 \<Longrightarrow> p div 64 < 32" "p < 0x10000 \<Longrightarrow> p div 4096 < 16" by (simp_all add: div_less_iff_less_mult)
  with b top m [of p] m [of "p div 64"] m [of "p div 4096"] show ?thesis
    unfolding utf8_octets_def by (simp split: if_splits) (elim disjE; simp)+
qed

lemma encoded_chars:
  assumes "list_all (\<lambda>n. n < 0x10000) u" "encodeURIComponent u = Some s" "c \<in> set s"
  shows "c = CHR ''%'' \<or> unreserved (of_char c)"
proof -
  obtain ps where p: "points_of u = Some ps" "s = concat (map encode_point ps)"
    using assms(2) by (auto simp: encodeURIComponent_def)
  with assms(3) obtain q where q: "q \<in> set ps" "c \<in> set (encode_point q)" by auto
  have sc: "scalar q" using points_inverse [OF assms(1) p(1)] q(1) by (auto simp: list_all_iff)
  show ?thesis
  proof (cases "unreserved q")
    case True
    with q(2) unreserved_small [OF True] show ?thesis by (simp add: encode_point_def of_char_of)
  next
    case False
    with q(2) obtain b where b: "b \<in> set (utf8_octets q)" "c \<in> set (percent_octet b)" by (auto simp: encode_point_def)
    then have "b div 16 < 16" using utf8_octets_byte [OF sc b(1)] by (simp add: div_less_iff_less_mult)
    with b(2) hex_upper_unreserved show ?thesis by (auto simp: percent_octet_def)
  qed
qed

lemma encoded_nonempty: "encodeURIComponent u = Some s \<Longrightarrow> u \<noteq> [] \<Longrightarrow> s \<noteq> []"
proof -
  assume e: "encodeURIComponent u = Some s" and u: "u \<noteq> []"
  then obtain ps where p: "points_of u = Some ps" "s = concat (map encode_point ps)" by (auto simp: encodeURIComponent_def)
  from u p(1) obtain q qs where "ps = q # qs" by (cases u) (auto split: if_splits list.splits)
  moreover obtain b bs where "utf8_octets q = b # bs" by (rule utf8_octets_Cons)
  then have "encode_point q \<noteq> []" by (simp add: encode_point_def percent_octet_def)
  ultimately show ?thesis using p(2) by simp
qed

end
