(* ===== verification/AssetDecimals.thy ===== *)
theory AssetDecimals
  imports PactScheme
begin

text \<open>
  The cache of asset decimals and the conversion of amounts (\<open>src/asset-cache.js\<close>). The answer of the
  contract's \<open>decimals\<close> is an argument; the cache is cut at its await.
\<close>

section \<open>The cache\<close>

definition normalizeAssetId :: "string \<Rightarrow> string" where
  "normalizeAssetId asset = (if asset \<in> {''native'', ''XLM'', ''xlm''} then ''native'' else asset)"

definition fetchDecimals :: "(string \<Rightarrow> string + nat) \<Rightarrow> string \<Rightarrow> string + nat" where
  "fetchDecimals rpc assetId =
     (let a = normalizeAssetId assetId in
      if a = ''native'' then Inr 7
      else if \<not> js_starts_with ''C'' a \<or> length a \<noteq> 56 then Inl (''Invalid asset contract ID: '' @ [CHR 0x22] @ assetId @ [CHR 0x22])
      else rpc a)"

record decimals_cache =
  dc_cache :: "(string, nat \<times> int option) jsmap"      \<comment> \<open>the decimals and when they expire, if ever\<close>
  dc_pending :: "(string, int) jsmap"                 \<comment> \<open>the start of the fetch that runs\<close>

definition clear_decimals :: "(string \<times> nat) list \<Rightarrow> decimals_cache" where
  "clear_decimals preloaded =
     \<lparr>dc_cache = fold (\<lambda>(a, d). jm_set (normalizeAssetId a) (d, None)) preloaded [], dc_pending = []\<rparr>"

definition preloaded_assets :: "(string \<times> nat) list" where
  "preloaded_assets = [(''native'', 7), (''XLM'', 7), (''xlm'', 7)]"

datatype decimals_answer = Known nat | Joins | Fetches

definition getDecimals :: "int \<Rightarrow> string \<Rightarrow> decimals_cache \<Rightarrow> decimals_answer \<times> decimals_cache" where
  "getDecimals now assetId c =
     (let a = normalizeAssetId assetId in
      case (case jm_get (dc_cache c) a of
              Some (d, e) \<Rightarrow> if (case e of None \<Rightarrow> True | Some t \<Rightarrow> t > now) then Some d else None
            | None \<Rightarrow> None) of
        Some d \<Rightarrow> (Known d, c)
      | None \<Rightarrow>
          (case jm_get (dc_pending c) a of
             Some _ \<Rightarrow> (Joins, c)
           | None \<Rightarrow> (Fetches, c\<lparr>dc_pending := jm_set a now (dc_pending c)\<rparr>)))"

text \<open>The end of the fetch that began at \<open>t\<close>: an error is not kept.\<close>

definition decimals_done :: "int \<Rightarrow> int \<Rightarrow> string \<Rightarrow> string + nat \<Rightarrow> decimals_cache \<Rightarrow> decimals_cache" where
  "decimals_done ttlMs t assetId r c =
     (let a = normalizeAssetId assetId in
      case r of
        Inr d \<Rightarrow> c\<lparr>dc_cache := jm_set a (d, Some (t + ttlMs)) (dc_cache c), dc_pending := jm_delete a (dc_pending c)\<rparr>
      | Inl _ \<Rightarrow> c\<lparr>dc_pending := jm_delete a (dc_pending c)\<rparr>)"

datatype decimals_event = Wanted int string | Fetched int string "string + nat"

fun decimals_step :: "int \<Rightarrow> decimals_event \<Rightarrow> decimals_cache \<Rightarrow> decimals_cache" where
  "decimals_step ttl (Wanted now a) c = snd (getDecimals now a c)"
| "decimals_step ttl (Fetched t a r) c = decimals_done ttl t a r c"

text \<open>
  When every fetch answers what the contract says, an answer from the cache does too, and the native
  asset has seven decimals at any time.
\<close>

definition decimals_true :: "(string \<Rightarrow> nat) \<Rightarrow> decimals_cache \<Rightarrow> bool" where
  "decimals_true truth c \<longleftrightarrow> (\<forall>a d e. jm_get (dc_cache c) a = Some (d, e) \<longrightarrow> d = truth a)"

definition fetch_true :: "(string \<Rightarrow> nat) \<Rightarrow> decimals_event \<Rightarrow> bool" where
  "fetch_true truth e \<longleftrightarrow> (case e of Fetched t a (Inr d) \<Rightarrow> d = truth (normalizeAssetId a) | _ \<Rightarrow> True)"

lemma decimals_true_step: "decimals_true truth c \<Longrightarrow> fetch_true truth e \<Longrightarrow> decimals_true truth (decimals_step ttl e c)"
proof (cases e)
  case (Wanted now a)
  have "dc_cache (snd (getDecimals now a c)) = dc_cache c"
    by (auto simp: getDecimals_def Let_def split: option.splits)
  moreover assume "decimals_true truth c"
  ultimately show ?thesis by (simp add: Wanted decimals_true_def)
next
  case (Fetched t a r)
  moreover assume "decimals_true truth c" "fetch_true truth e"
  ultimately show ?thesis
    by (cases r) (auto simp: decimals_true_def fetch_true_def decimals_done_def Let_def jm_get_set)
qed

lemma known_decimals_true:
  assumes "decimals_true truth c" "list_all (fetch_true truth) es" "fst (getDecimals now a (fold (decimals_step ttl) es c)) = Known d"
  shows "d = truth (normalizeAssetId a)"
proof -
  have "decimals_true truth (fold (decimals_step ttl) es c)"
    using assms(1,2) by (induction es arbitrary: c) (simp_all add: decimals_true_step)
  then show ?thesis
    using assms(3) by (auto simp: decimals_true_def getDecimals_def Let_def split: option.splits if_splits)
qed

section \<open>Amounts\<close>

text \<open>\<open>amount.split('.')\<close> with its default: the part before the first dot, and that up to the second.\<close>

definition amount_parts :: "string \<Rightarrow> string \<times> string" where
  "amount_parts amount =
     (case js_split CHR ''.'' amount of i # f # _ \<Rightarrow> (i, f) | i # _ \<Rightarrow> (i, []) | [] \<Rightarrow> ([], []))"

definition validateAmountPrecision :: "nat \<Rightarrow> string \<Rightarrow> string \<Rightarrow> string option" where
  "validateAmountPrecision decimals assetId amount =
     (let f = snd (amount_parts amount) in
      if length f > decimals
      then Some (''pricing.amount '' @ [CHR 0x22] @ amount @ [CHR 0x22] @ '' has '' @ nat_str (length f) @ '' decimal places but asset ''
             @ [CHR 0x22] @ assetId @ [CHR 0x22] @ '' only supports '' @ nat_str decimals)
      else None)"

definition pad_end :: "nat \<Rightarrow> string \<Rightarrow> string" where
  "pad_end n s = s @ replicate (n - length s) CHR ''0''"

definition pad_start :: "nat \<Rightarrow> string \<Rightarrow> string" where
  "pad_start n s = replicate (n - length s) CHR ''0'' @ s"

text \<open>\<open>None\<close> when \<open>BigInt\<close> throws.\<close>

definition toBaseUnits :: "nat \<Rightarrow> string \<Rightarrow> string option" where
  "toBaseUnits decimals amount =
     (let (i, f) = amount_parts amount;
          sign = (if js_starts_with ''-'' i then ''-'' else []);
          cleanInt = (case i of c # cs \<Rightarrow> if c = CHR ''+'' \<or> c = CHR ''-'' then cs else i | [] \<Rightarrow> [])
      in map_option (\<lambda>n. sign @ int_str n) (bigint_text (cleanInt @ pad_end decimals (take decimals f))))"

text \<open>\<open>slice(0, -n)\<close> and \<open>slice(-n)\<close>: with \<open>n = 0\<close> nothing and everything.\<close>

definition slice_front :: "nat \<Rightarrow> string \<Rightarrow> string" where
  "slice_front n s = (if n = 0 then [] else take (length s - n) s)"

definition slice_back :: "nat \<Rightarrow> string \<Rightarrow> string" where
  "slice_back n s = (if n = 0 then s else drop (length s - n) s)"

definition trim_zeros :: "string \<Rightarrow> string" where
  "trim_zeros s = rev (dropWhile (\<lambda>c. c = CHR ''0'') (rev s))"

definition fromBaseUnits :: "string \<Rightarrow> nat \<Rightarrow> string" where
  "fromBaseUnits str decimals =
     (let sign = (if js_starts_with ''-'' str then ''-'' else []);
          clean = (if js_starts_with ''-'' str then tl str else str)
      in if length clean \<le> decimals
         then sign @ ''0.'' @ slice_front decimals (pad_start (decimals + 1) clean)
         else (let f = trim_zeros (slice_back decimals clean) in
               sign @ slice_front decimals clean @ ''.'' @ (if f = [] then ''0'' else f)))"

text \<open>From one unit of the asset on, the two conversions are inverse.\<close>

lemma split_no_sep: "c \<notin> set x \<Longrightarrow> js_split c x = [x]"
  by (induction x) auto

lemma split_at: "c \<notin> set x \<Longrightarrow> js_split c (x @ c # y) = x # js_split c y"
  by (induction x) auto

lemma trim_zeros_pad: "pad_end (length s) (trim_zeros s) = s"
proof -
  define z where "z = takeWhile (\<lambda>c. c = CHR ''0'') (rev s)"
  have s: "s = trim_zeros s @ rev z"
    using takeWhile_dropWhile_id [of "\<lambda>c. c = CHR ''0''" "rev s"] by (metis rev_append rev_rev_ident trim_zeros_def z_def)
  have "\<forall>c \<in> set z. c = CHR ''0''" unfolding z_def by (auto dest: set_takeWhileD)
  then have "z = replicate (length z) CHR ''0''" by (simp add: replicate_length_same)
  then have "rev z = replicate (length z) CHR ''0''" by (metis rev_replicate)
  moreover have "length s - length (trim_zeros s) = length z" by (subst (1) s) simp
  ultimately show ?thesis using s by (simp add: pad_end_def)
qed

lemma digits_no_dot: "list_all is_digit s \<Longrightarrow> CHR ''.'' \<notin> set s"
  by (auto simp: list_all_iff is_digit_def)

lemma digit_value:
  assumes "is_digit c"
  shows "hex_of c = Some (of_char c - 48)" "of_char c - 48 < (10 :: nat)" "48 \<le> (of_char c :: nat)"
  using assms by (auto simp: is_digit_def hex_of_def Let_def)

lemma radix_digits:
  assumes "s \<noteq> []" "list_all is_digit s"
  shows "radix_value 10 s = Some (digits_value s)"
proof -
  have "foldl (\<lambda>acc c. int 10 * acc + int (the (hex_of c))) n s = foldl (\<lambda>acc c. 10 * acc + (int (of_char c) - 48)) n s" for n
    using assms(2)
  proof (induction s arbitrary: n)
    case (Cons c s)
    then have "int (the (hex_of c)) = int (of_char c) - 48" using digit_value [of c] by simp
    with Cons show ?case by simp
  qed simp
  moreover have "list_all (\<lambda>c. case hex_of c of Some d \<Rightarrow> d < 10 | None \<Rightarrow> False) s"
    using assms(2) digit_value by (auto simp: list_all_iff)
  ultimately show ?thesis using assms(1) by (simp add: radix_value_def digits_value_def)
qed

lemma trim_digits: "list_all is_digit s \<Longrightarrow> js_trim s = s"
proof -
  assume d: "list_all is_digit s"
  then have "\<forall>c \<in> set s. \<not> js_space c" using digit_not_space by (auto simp: list_all_iff)
  moreover have none: "dropWhile P xs = xs" if "\<forall>c \<in> set xs. \<not> P c" for P and xs :: string
    using that by (cases xs) auto
  ultimately have "dropWhile js_space s = s" "dropWhile js_space (rev s) = rev s"
    using none [of s js_space] none [of "rev s" js_space] by simp_all
  then show ?thesis by (simp add: js_trim_def)
qed

lemma bigint_digits:
  assumes "s \<noteq> []" "list_all is_digit s"
  shows "bigint_text s = Some (digits_value s)"
proof -
  have c: "c \<noteq> CHR ''-'' \<and> c \<noteq> CHR ''+'' \<and> c \<noteq> CHR ''x'' \<and> c \<noteq> CHR ''X'' \<and> c \<noteq> CHR ''o'' \<and> c \<noteq> CHR ''O'' \<and> c \<noteq> CHR ''b''
      \<and> c \<noteq> CHR ''B''" if "c \<in> set s" for c
    using assms(2) that by (auto simp: list_all_iff is_digit_def)
  show ?thesis
  proof (cases s rule: remdups_adj.cases)
    case (3 x y zs)
    then have "x \<in> set s" "y \<in> set s" by simp_all
    with c [of x] c [of y] show ?thesis
      using radix_digits [OF assms] trim_digits [OF assms(2)] by (simp add: bigint_text_def 3)
  next
    case (2 x)
    then show ?thesis using radix_digits [OF assms] trim_digits [OF assms(2)] by (simp add: bigint_text_def)
  qed (use assms in simp)
qed

lemma shown_fraction:
  assumes "length F = d" "0 < d"
  shows "pad_end d (take d (if trim_zeros F = [] then ''0'' else trim_zeros F)) = F"
proof (cases "trim_zeros F = []")
  case True
  have "F = replicate d CHR ''0''" using trim_zeros_pad [of F] assms(1) by (simp add: True pad_end_def)
  moreover have "pad_end d ''0'' = replicate d CHR ''0''" "take d ''0'' = ''0''"
    using assms(2) by (cases d; simp add: pad_end_def)+
  ultimately have "pad_end d (take d ''0'') = F" by simp
  then show ?thesis unfolding True if_True by (simp only: refl if_True)
next
  case False
  have "length (trim_zeros F) \<le> d" using assms(1) length_dropWhile_le [of _ "rev F"] by (simp add: trim_zeros_def)
  then show ?thesis using trim_zeros_pad [of F] assms(1) False by simp
qed

lemma base_units_roundtrip:
  assumes "0 < d" "d < length (nat_str n)"
  shows "toBaseUnits d (fromBaseUnits (nat_str n) d) = Some (nat_str n)"
proof -
  let ?s = "nat_str n"
  define I F f where "I = take (length ?s - d) ?s" and "F = drop (length ?s - d) ?s" and "f = (if trim_zeros F = [] then ''0'' else trim_zeros F)"
  have dig: "list_all is_digit ?s" by (rule nat_str_digits)
  have IF: "?s = I @ F" "length F = d" "I \<noteq> []" using assms by (auto simp: I_def F_def)
  have digs: "list_all is_digit I" "list_all is_digit F" using dig unfolding IF(1) by simp_all
  have "set (trim_zeros F) \<subseteq> set F" by (auto simp: trim_zeros_def dest: set_dropWhileD)
  then have fd: "list_all is_digit f" using digs(2) by (auto simp: f_def list_all_iff is_digit_def)
  have hd: "c \<noteq> CHR ''-'' \<and> c \<noteq> CHR ''+''" if "c \<in> set I" for c
    using digs(1) that by (auto simp: list_all_iff is_digit_def)
  have nm: "\<not> js_starts_with ''-'' ?s" "\<not> js_starts_with ''-'' I"
    using hd nat_str_no_minus [of n] IF(3) by (auto simp: js_starts_with_def neq_Nil_conv IF(1))
  have shown: "fromBaseUnits ?s d = I @ CHR ''.'' # f"
    using assms nm(1) by (simp add: fromBaseUnits_def Let_def slice_front_def slice_back_def I_def F_def f_def)
  have parts: "amount_parts (I @ CHR ''.'' # f) = (I, f)"
    by (simp add: amount_parts_def split_at [OF digits_no_dot [OF digs(1)]] split_no_sep [OF digits_no_dot [OF fd]])
  have clean: "(case I of c # cs \<Rightarrow> if c = CHR ''+'' \<or> c = CHR ''-'' then cs else I | [] \<Rightarrow> []) = I"
    using hd IF(3) by (cases I) auto
  have "bigint_text (I @ F) = Some (int n)"
    using bigint_digits [of ?s] dig digits_value_nat_str by (simp flip: IF(1))
  then show ?thesis
    using shown_fraction [OF IF(2) assms(1)] nm(2)
    by (simp add: shown toBaseUnits_def Let_def parts clean f_def [symmetric] int_str_def)
qed

text \<open>Less than one unit is shown as nothing: its digits are padded and then cut off.\<close>

lemma small_amount_lost:
  assumes "0 < d" "length (nat_str n) \<le> d"
  shows "fromBaseUnits (nat_str n) d = ''0.0''"
proof -
  have "\<not> js_starts_with ''-'' (nat_str n)"
    using nat_str_no_minus [of n] by (cases "nat_str n") (auto simp: js_starts_with_def)
  moreover have "slice_front d (pad_start (d + 1) (nat_str n)) = ''0''"
  proof -
    obtain k where k: "d + 1 - length (nat_str n) = Suc k" using assms(2) by (metis Suc_diff_le Suc_eq_plus1)
    have "length (pad_start (d + 1) (nat_str n)) = d + 1" using assms(2) by (simp add: pad_start_def)
    then show ?thesis using assms(1) by (simp add: slice_front_def) (simp add: pad_start_def k [simplified])
  qed
  ultimately show ?thesis using assms(2) by (simp add: fromBaseUnits_def Let_def)
qed

text \<open>An asset without decimals loses its whole part, because \<open>slice(0, -0)\<close> is empty.\<close>

lemma whole_asset_lost:
  assumes "js_starts_with ''-'' s = False" "s \<noteq> []"
  shows "take 1 (fromBaseUnits s 0) = ''.''"
  using assms by (simp add: fromBaseUnits_def Let_def slice_front_def)

text \<open>What is behind a second dot is dropped without an error, and so are digits beyond the decimals.\<close>

lemma excess_dropped: "toBaseUnits 2 ''1.239.4'' = Some ''123''"
  by code_simp

end
