(* ===== verification/Sep7.thy ===== *)
theory Sep7
  imports PercentText AssetDecimals
begin

text \<open>
  Payment URIs for wallets (\<open>src/sdk/sep7.js\<close>): one rule set for values parsed and values given, a
  strict parser and a builder. Key checks of the Stellar SDK and the platform's URL parser are
  parameters. A URI is text of one byte per unit, the values it carries are UTF-16.
\<close>

section \<open>Parameters\<close>

datatype pay_param = Py_destination | Py_amount | Py_assetCode | Py_assetIssuer | Py_memo | Py_memoType
  | Py_callback | Py_msg | Py_networkPassphrase | Py_originDomain | Py_signature

definition PARAMS :: "(string \<times> pay_param) list" where
  "PARAMS = [(''destination'', Py_destination), (''amount'', Py_amount), (''asset_code'', Py_assetCode),
     (''asset_issuer'', Py_assetIssuer), (''memo'', Py_memo), (''memo_type'', Py_memoType), (''callback'', Py_callback),
     (''msg'', Py_msg), (''network_passphrase'', Py_networkPassphrase), (''origin_domain'', Py_originDomain),
     (''signature'', Py_signature)]"

text \<open>A value is text; an amount may be a BigInt as well.\<close>

datatype pay_value = Py_text units | Py_big int

fun pay_text :: "pay_value \<Rightarrow> units" where
  "pay_text (Py_text u) = u"
| "pay_text (Py_big n) = units_of (int_str n)"

type_synonym pay_params = "pay_param \<Rightarrow> pay_value option"

record sep7_env =
  se_account :: "units \<Rightarrow> bool"        \<comment> \<open>\<open>StrKey.isValidEd25519PublicKey\<close>\<close>
  se_muxed :: "units \<Rightarrow> bool"
  se_contract :: "units \<Rightarrow> bool"
  se_protocol :: "units \<Rightarrow> string option"   \<comment> \<open>protocol of \<open>new URL\<close>, none when it throws\<close>

datatype sep7_error =
    Se_not_text | Se_too_long | Se_scheme | Se_no_operation | Se_operation string | Se_no_query | Se_fragment
  | Se_malformed string | Se_unknown string | Se_duplicate string | Se_empty string | Se_plus string | Se_encoding string
  | Se_no_destination | Se_destination units | Se_no_amount | Se_amount units | Se_negative units | Se_decimals units
  | Se_asset_pair | Se_asset_code | Se_asset_issuer | Se_memo_pair | Se_memo_type | Se_memo_text | Se_memo_id
  | Se_memo_bytes units | Se_callback | Se_msg | Se_passphrase | Se_domain | Se_unsigned_domain | Se_signature

definition MAX_URI_LENGTH :: nat where "MAX_URI_LENGTH = 8192"
definition MAX_MSG_LENGTH :: nat where "MAX_MSG_LENGTH = 300"
definition MAX_MEMO_TEXT_BYTES :: nat where "MAX_MEMO_TEXT_BYTES = 28"
definition MAX_UINT64 :: int where "MAX_UINT64 = 18446744073709551615"

section \<open>The rule set\<close>

definition unit_letter :: "nat \<Rightarrow> bool" where
  "unit_letter n \<longleftrightarrow> (65 \<le> n \<and> n \<le> 90) \<or> (97 \<le> n \<and> n \<le> 122)"

definition unit_alnum :: "nat \<Rightarrow> bool" where
  "unit_alnum n \<longleftrightarrow> unit_letter n \<or> unit_digit n"

definition ASSET_CODE_RE :: "units \<Rightarrow> bool" where
  "ASSET_CODE_RE u \<longleftrightarrow> 1 \<le> length u \<and> length u \<le> 12 \<and> list_all unit_alnum u"

definition top_domain :: "units \<Rightarrow> bool" where
  "top_domain t \<longleftrightarrow> 2 \<le> length t \<and> list_all unit_letter t"

text \<open>\<open>FEDERATION_ADDRESS_RE\<close>: a name, the one star it can have, a domain whose last dot ends it.\<close>

definition FEDERATION_ADDRESS_RE :: "units \<Rightarrow> bool" where
  "FEDERATION_ADDRESS_RE u =
     (let name = takeWhile (\<lambda>c. c \<noteq> 42) u; domain = tl (dropWhile (\<lambda>c. c \<noteq> 42) u);
          front = dropWhile (\<lambda>c. c \<noteq> 46) (rev domain)
      in 42 \<in> set u \<and> name \<noteq> [] \<and> list_all (\<lambda>c. \<not> unit_space c) name
         \<and> 46 \<in> set domain \<and> tl front \<noteq> [] \<and> list_all (\<lambda>c. unit_alnum c \<or> c = 46 \<or> c = 45) (tl front)
         \<and> top_domain (takeWhile (\<lambda>c. c \<noteq> 46) (rev domain)))"

fun units_split :: "nat \<Rightarrow> units \<Rightarrow> units list" where
  "units_split c [] = [[]]"
| "units_split c (x # xs) = (if x = c then [] # units_split c xs
     else (case units_split c xs of [] \<Rightarrow> [[x]] | w # ws \<Rightarrow> (x # w) # ws))"

definition domain_label :: "units \<Rightarrow> bool" where
  "domain_label l \<longleftrightarrow> l \<noteq> [] \<and> length l \<le> 63 \<and> unit_alnum (hd l) \<and> unit_alnum (last l)
     \<and> list_all (\<lambda>c. unit_alnum c \<or> c = 45) l"

definition FQDN_RE :: "units \<Rightarrow> bool" where
  "FQDN_RE u = (let ls = units_split 46 u in
     length u \<le> 253 \<and> 2 \<le> length ls \<and> list_all domain_label (butlast ls) \<and> top_domain (last ls))"

definition base64_unit :: "nat \<Rightarrow> bool" where
  "base64_unit n \<longleftrightarrow> unit_alnum n \<or> n = 43 \<or> n = 47"

fun BASE64_RE :: "units \<Rightarrow> bool" where
  "BASE64_RE [] = True"
| "BASE64_RE [a, b, c, d] \<longleftrightarrow> base64_unit a \<and> base64_unit b
     \<and> (base64_unit c \<and> (base64_unit d \<or> d = 61) \<or> c = 61 \<and> d = 61)"
| "BASE64_RE (a # b # c # d # r) \<longleftrightarrow> base64_unit a \<and> base64_unit b \<and> base64_unit c \<and> base64_unit d \<and> BASE64_RE r"
| "BASE64_RE _ = False"

text \<open>The bytes a text of this shape decodes to.\<close>

definition base64_length :: "units \<Rightarrow> nat" where
  "base64_length u = length (filter (\<lambda>c. c \<noteq> 61) u) * 6 div 8"

definition isBase64Bytes :: "units \<Rightarrow> nat \<Rightarrow> bool" where
  "isBase64Bytes u n \<longleftrightarrow> BASE64_RE u \<and> base64_length u = n"

text \<open>\<open>Buffer.byteLength(memo, 'utf8')\<close>: a lone surrogate is replaced by three bytes.\<close>

fun utf8_length :: "units \<Rightarrow> nat" where
  "utf8_length [] = 0"
| "utf8_length (a # r) =
     (if high_unit a \<and> r \<noteq> [] \<and> low_unit (hd r) then 4 + utf8_length (tl r)
      else (if a < 0x80 then 1 else if a < 0x800 then 2 else 3) + utf8_length r)"

definition isValidDestination :: "sep7_env \<Rightarrow> units \<Rightarrow> bool" where
  "isValidDestination env v \<longleftrightarrow> se_account env v \<or> se_muxed env v \<or> se_contract env v \<or> FEDERATION_ADDRESS_RE v"

text \<open>The pattern of an amount knows ASCII only, so a unit beyond one byte never passes it.\<close>

definition decimal_units :: "units \<Rightarrow> bool" where
  "decimal_units u \<longleftrightarrow> list_all (\<lambda>c. c < 256) u \<and> decimal_amount (map char_of u)"

definition frac_units :: "units \<Rightarrow> units" where
  "frac_units u = (case units_split 46 u of _ # f # _ \<Rightarrow> f | _ \<Rightarrow> [])"

fun amount_errors :: "pay_value \<Rightarrow> sep7_error list" where
  "amount_errors (Py_big _) = []"
| "amount_errors (Py_text u) =
     (if u = [] then [Se_no_amount] else if \<not> decimal_units u then [Se_amount u]
      else if hd u = 45 then [Se_negative u] else [])
     @ (if int (length (frac_units u)) > STELLAR_DECIMALS then [Se_decimals u] else [])"

definition MEMO_TYPES :: "units list" where
  "MEMO_TYPES = map units_of [''MEMO_TEXT'', ''MEMO_ID'', ''MEMO_HASH'', ''MEMO_RETURN'']"

definition validateMemo :: "units \<Rightarrow> units \<Rightarrow> sep7_error list" where
  "validateMemo type memo =
     (if type \<notin> set MEMO_TYPES then [Se_memo_type]
      else if type = units_of ''MEMO_TEXT'' then (if utf8_length memo > MAX_MEMO_TEXT_BYTES then [Se_memo_text] else [])
      else if type = units_of ''MEMO_ID'' then
        (if memo \<noteq> [] \<and> list_all unit_digit memo \<and> digits_value (map char_of memo) \<le> MAX_UINT64 then [] else [Se_memo_id])
      else if isBase64Bytes memo 32 then [] else [Se_memo_bytes type])"

definition err_if :: "bool \<Rightarrow> 'e \<Rightarrow> 'e list" where
  "err_if c e = (if c then [e] else [])"

definition callback_ok :: "sep7_env \<Rightarrow> units \<Rightarrow> bool" where
  "callback_ok env u \<longleftrightarrow> take 4 u = units_of ''url:''
     \<and> (case se_protocol env (drop 4 u) of Some p \<Rightarrow> p = ''http:'' \<or> p = ''https:'' | None \<Rightarrow> False)"

definition destination_errors :: "sep7_env \<Rightarrow> pay_params \<Rightarrow> sep7_error list" where
  "destination_errors env p =
     (case p Py_destination of
        None \<Rightarrow> [Se_no_destination]
      | Some v \<Rightarrow> if pay_text v = [] then [Se_no_destination] else err_if (\<not> isValidDestination env (pay_text v)) (Se_destination (pay_text v)))"

definition memo_errors :: "pay_params \<Rightarrow> sep7_error list" where
  "memo_errors p =
     (case (p Py_memo, p Py_memoType) of
        (Some m, Some t) \<Rightarrow> validateMemo (pay_text t) (pay_text m)
      | (None, None) \<Rightarrow> []
      | _ \<Rightarrow> [Se_memo_pair])"

definition asset_errors :: "sep7_env \<Rightarrow> pay_params \<Rightarrow> sep7_error list" where
  "asset_errors env p =
     err_if ((p Py_assetCode = None) \<noteq> (p Py_assetIssuer = None)) Se_asset_pair
     @ (case p Py_assetCode of None \<Rightarrow> [] | Some v \<Rightarrow> err_if (\<not> ASSET_CODE_RE (pay_text v)) Se_asset_code)
     @ (case p Py_assetIssuer of None \<Rightarrow> [] | Some v \<Rightarrow> err_if (\<not> se_account env (pay_text v)) Se_asset_issuer)"

definition origin_errors :: "pay_params \<Rightarrow> sep7_error list" where
  "origin_errors p =
     (case p Py_originDomain of None \<Rightarrow> [] | Some v \<Rightarrow> err_if (\<not> FQDN_RE (pay_text v)) Se_domain)
     @ (case p Py_signature of None \<Rightarrow> []
        | Some v \<Rightarrow> err_if (p Py_originDomain = None) Se_unsigned_domain @ err_if (\<not> isBase64Bytes (pay_text v) 64) Se_signature)"

definition callback_errors :: "sep7_env \<Rightarrow> pay_params \<Rightarrow> sep7_error list" where
  "callback_errors env p =
     (case p Py_callback of None \<Rightarrow> [] | Some v \<Rightarrow> err_if (\<not> callback_ok env (pay_text v)) Se_callback)"

definition msg_errors :: "pay_params \<Rightarrow> sep7_error list" where
  "msg_errors p = (case p Py_msg of None \<Rightarrow> [] | Some v \<Rightarrow> err_if (length (pay_text v) > MAX_MSG_LENGTH) Se_msg)"

definition passphrase_errors :: "pay_params \<Rightarrow> sep7_error list" where
  "passphrase_errors p =
     (case p Py_networkPassphrase of None \<Rightarrow> [] | Some v \<Rightarrow> err_if (units_trim (pay_text v) = []) Se_passphrase)"

definition validateParams :: "sep7_env \<Rightarrow> pay_params \<Rightarrow> sep7_error list" where
  "validateParams env p =
     destination_errors env p
     @ (case p Py_amount of None \<Rightarrow> [] | Some v \<Rightarrow> amount_errors v)
     @ asset_errors env p
     @ memo_errors p
     @ callback_errors env p
     @ msg_errors p
     @ passphrase_errors p
     @ origin_errors p"

section \<open>The parser\<close>

definition SEP7_SCHEME :: string where
  "SEP7_SCHEME = ''web+stellar:''"

definition parse_pair :: "string \<Rightarrow> sep7_error list \<times> pay_params \<Rightarrow> sep7_error list \<times> pay_params" where
  "parse_pair pair st =
     (let (errs, ps) = st;
          key = takeWhile (\<lambda>c. c \<noteq> CHR ''='') pair;
          raw = tl (dropWhile (\<lambda>c. c \<noteq> CHR ''='') pair)
      in if CHR ''='' \<notin> set pair \<or> key = [] then (errs @ [Se_malformed pair], ps)
         else (case map_of PARAMS key of
                 None \<Rightarrow> (errs @ [Se_unknown key], ps)
               | Some prop \<Rightarrow>
                   if ps prop \<noteq> None then (errs @ [Se_duplicate key], ps)
                   else if raw = [] then (errs @ [Se_empty key], ps)
                   else if CHR ''+'' \<in> set raw then (errs @ [Se_plus key], ps)
                   else (case decode_units raw of
                           None \<Rightarrow> (errs @ [Se_encoding key], ps)
                         | Some v \<Rightarrow> (errs, ps(prop \<mapsto> Py_text v)))))"

definition parse_query :: "string \<Rightarrow> sep7_error list \<times> pay_params" where
  "parse_query q = fold parse_pair (js_split CHR ''&'' q) ([], \<lambda>_. None)"

text \<open>\<open>None\<close> is a value that is no string.\<close>

definition parsePayUri :: "sep7_env \<Rightarrow> string option \<Rightarrow> sep7_error list + pay_params" where
  "parsePayUri env input =
     (case input of
        None \<Rightarrow> Inl [Se_not_text]
      | Some uri \<Rightarrow>
          (let rest = drop (length SEP7_SCHEME) uri;
               operation = takeWhile (\<lambda>c. c \<noteq> CHR ''?'') rest;
               query = dropWhile (\<lambda>c. c \<noteq> CHR ''?'') rest
           in if uri = [] then Inl [Se_not_text]
              else if length uri > MAX_URI_LENGTH then Inl [Se_too_long]
              else if js_lower (take (length SEP7_SCHEME) uri) \<noteq> SEP7_SCHEME then Inl [Se_scheme]
              else if operation \<noteq> ''pay'' then
                Inl [if operation = [] \<or> js_starts_with ''/'' operation then Se_no_operation else Se_operation operation]
              else if length query \<le> 1 then Inl [Se_no_query]
              else if CHR ''#'' \<in> set uri then Inl [Se_fragment]
              else (let (errs, ps) = parse_query (tl query); errors = errs @ validateParams env ps
                    in if errors \<noteq> [] then Inl errors else Inr ps)))"

section \<open>The builder\<close>

fun query_items :: "pay_params \<Rightarrow> (string \<times> pay_param) list \<Rightarrow> string list option" where
  "query_items p [] = Some []"
| "query_items p ((key, prop) # r) =
     (case p prop of
        None \<Rightarrow> query_items p r
      | Some v \<Rightarrow> (case encodeURIComponent (pay_text v) of
                    None \<Rightarrow> None
                  | Some e \<Rightarrow> map_option (Cons (key @ ''='' @ e)) (query_items p r)))"

datatype build_answer = Built string | Sep7_refused "sep7_error list" | Uri_error | Syntax_error

text \<open>\<open>unknown\<close>: the other keys of the object. A text that cannot be encoded throws a \<open>URIError\<close>.\<close>

definition buildPayUri :: "sep7_env \<Rightarrow> string list \<Rightarrow> pay_params \<Rightarrow> build_answer" where
  "buildPayUri env unknown p =
     (let errors = map Se_unknown unknown @ validateParams env p in
      if errors \<noteq> [] then Sep7_refused errors
      else (case query_items p PARAMS of
              None \<Rightarrow> Uri_error
            | Some items \<Rightarrow> Built (SEP7_SCHEME @ ''pay?'' @ js_join ''&'' items)))"

text \<open>BigInt division truncates, and the remainder has the sign of the dividend.\<close>

definition stroops_text :: "int \<Rightarrow> string" where
  "stroops_text n =
     (let scale = 10 ^ nat STELLAR_DECIMALS;
          f = trim_zeros (pad_start (nat STELLAR_DECIMALS) (int_str (sgn n * (\<bar>n\<bar> mod scale))))
      in int_str (sgn n * (\<bar>n\<bar> div scale)) @ (if f \<noteq> [] then ''.'' @ f else []))"

definition payUriFromRequirements ::
  "sep7_env \<Rightarrow> units option \<Rightarrow> (string + int) option \<Rightarrow> string list \<Rightarrow> pay_params \<Rightarrow> build_answer" where
  "payUriFromRequirements env payTo amount unknown extra =
     (let params = (\<lambda>k. if k = Py_destination then map_option Py_text payTo else None) ++ extra in
      case amount of
        None \<Rightarrow> buildPayUri env unknown params
      | Some a \<Rightarrow>
          (case (case a of Inl s \<Rightarrow> bigint_text s | Inr n \<Rightarrow> Some n) of
             None \<Rightarrow> Syntax_error
           | Some n \<Rightarrow> buildPayUri env unknown (params(Py_amount \<mapsto> Py_text (units_of (stroops_text n))))))"

end
