(* ===== verification/Sep7Facts.thy ===== *)
theory Sep7Facts
  imports Sep7
begin

text \<open>
  What the payment URIs of Sep7 promise: what is built is parsed back, what is parsed is built again,
  nothing is read partly, and the amount written for a number of stroops is that number.
\<close>

section \<open>The query\<close>

lemma split_join:
  assumes "list_all (\<lambda>x. c \<notin> set x) xs" "xs \<noteq> []"
  shows "js_split c (js_join [c] xs) = xs"
  using assms
proof (induction xs)
  case (Cons x xs)
  then show ?case by (cases xs) (simp_all add: split_no_sep split_at)
qed simp

lemma unreserved_not:
  "unreserved (of_char c) \<Longrightarrow> c \<notin> {CHR ''&'', CHR ''='', CHR ''+'', CHR ''#'', CHR ''?''}"
  by (auto simp: unreserved_def)

definition text_ok :: "units \<Rightarrow> bool" where
  "text_ok u \<longleftrightarrow> u \<noteq> [] \<and> list_all (\<lambda>n. n < 0x10000) u"

definition plain_key :: "string \<Rightarrow> bool" where
  "plain_key k \<longleftrightarrow> k \<noteq> [] \<and> set k \<inter> {CHR ''&'', CHR ''='', CHR ''#''} = {}"

lemma encoded_free:
  assumes "text_ok u" "encodeURIComponent u = Some e"
  shows "set e \<inter> {CHR ''&'', CHR ''='', CHR ''+'', CHR ''#''} = {}" "e \<noteq> []" "decode_units e = Some u"
proof -
  have u: "u \<noteq> []" "list_all (\<lambda>n. n < 0x10000) u" using assms(1) by (simp_all add: text_ok_def)
  show "set e \<inter> {CHR ''&'', CHR ''='', CHR ''+'', CHR ''#''} = {}"
    using encoded_chars [OF u(2) assms(2)] unreserved_not by fastforce
  show "e \<noteq> []" by (rule encoded_nonempty [OF assms(2) u(1)])
  show "decode_units e = Some u" by (rule component_roundtrip [OF u(2) assms(2)])
qed

lemma key_split:
  assumes "CHR ''='' \<notin> set k"
  shows "takeWhile (\<lambda>c. c \<noteq> CHR ''='') (k @ CHR ''='' # r) = k" "dropWhile (\<lambda>c. c \<noteq> CHR ''='') (k @ CHR ''='' # r) = CHR ''='' # r"
proof -
  have "\<forall>c \<in> set k. c \<noteq> CHR ''=''" using assms by auto
  then show "takeWhile (\<lambda>c. c \<noteq> CHR ''='') (k @ CHR ''='' # r) = k" "dropWhile (\<lambda>c. c \<noteq> CHR ''='') (k @ CHR ''='' # r) = CHR ''='' # r"
    by (simp_all add: takeWhile_append2 dropWhile_append2)
qed

lemma parse_pair_built:
  assumes "plain_key k" "map_of PARAMS k = Some par" "ps par = None" "text_ok u" "encodeURIComponent u = Some e"
  shows "parse_pair (k @ CHR ''='' # e) (errs, ps) = (errs, ps(par \<mapsto> Py_text u))"
proof -
  have k: "CHR ''='' \<notin> set k" "k \<noteq> []" using assms(1) by (auto simp: plain_key_def)
  with encoded_free [OF assms(4,5)] assms(2,3) show ?thesis
    by (simp add: parse_pair_def key_split)
qed

text \<open>The values of an object as a parser would give them back.\<close>

definition as_text :: "pay_params \<Rightarrow> pay_params" where
  "as_text p = (\<lambda>k. map_option (\<lambda>v. Py_text (pay_text v)) (p k))"

definition writable :: "pay_params \<Rightarrow> bool" where
  "writable p \<longleftrightarrow> (\<forall>k v. p k = Some v \<longrightarrow> text_ok (pay_text v))"

lemma parse_items:
  assumes "writable p" "query_items p ks = Some items" "distinct (map snd ks)" "\<forall>(k, par) \<in> set ks. plain_key k \<and> map_of PARAMS k = Some par"
    "\<forall>par \<in> snd ` set ks. ps par = None"
  shows "fold parse_pair items (errs, ps) = (errs, \<lambda>x. if x \<in> snd ` set ks \<and> p x \<noteq> None then as_text p x else ps x)
    \<and> list_all (\<lambda>i. CHR ''&'' \<notin> set i \<and> CHR ''#'' \<notin> set i) items
    \<and> (items = [] \<longleftrightarrow> (\<forall>par \<in> snd ` set ks. p par = None))"
  using assms(2-)
proof (induction ks arbitrary: items ps)
  case Nil
  then show ?case by simp
next
  case (Cons kp ks)
  obtain k par where kp: "kp = (k, par)" by force
  show ?case
  proof (cases "p par")
    case None
    with Cons.prems Cons.IH [of items ps] show ?thesis by (auto simp: kp fun_eq_iff)
  next
    case (Some v)
    with Cons.prems(1) kp obtain e its where e: "encodeURIComponent (pay_text v) = Some e" "query_items p ks = Some its"
      "items = (k @ ''='' @ e) # its"
      by (auto split: option.splits)
    have ok: "text_ok (pay_text v)" using assms(1) Some by (auto simp: writable_def)
    have k: "plain_key k" "map_of PARAMS k = Some par" and nin: "par \<notin> snd ` set ks" and none: "ps par = None"
      using Cons.prems kp by auto
    have step: "parse_pair (k @ CHR ''='' # e) (errs, ps) = (errs, ps(par \<mapsto> Py_text (pay_text v)))"
      by (rule parse_pair_built [where k = k and par = par and ps = ps, OF k none ok e(1)])
    let ?ps = "ps(par \<mapsto> Py_text (pay_text v))"
    have ih: "fold parse_pair its (errs, ?ps) = (errs, \<lambda>x. if x \<in> snd ` set ks \<and> p x \<noteq> None then as_text p x else ?ps x)
      \<and> list_all (\<lambda>i. CHR ''&'' \<notin> set i \<and> CHR ''#'' \<notin> set i) its \<and> (its = [] \<longleftrightarrow> (\<forall>par \<in> snd ` set ks. p par = None))"
      by (rule Cons.IH [OF e(2)]) (use Cons.prems kp nin in auto)
    have "as_text p par = Some (Py_text (pay_text v))" using Some by (simp add: as_text_def)
    moreover have "CHR ''&'' \<notin> set (k @ ''='' @ e) \<and> CHR ''#'' \<notin> set (k @ ''='' @ e)"
      using k(1) encoded_free(1) [OF ok e(1)] by (auto simp: plain_key_def)
    ultimately show ?thesis using ih step nin Some by (auto simp: e(3) kp fun_eq_iff)
  qed
qed

lemma PARAMS_facts:
  "distinct (map snd PARAMS)" "\<forall>(k, par) \<in> set PARAMS. plain_key k \<and> map_of PARAMS k = Some par" "snd ` set PARAMS = UNIV"
proof -
  show "distinct (map snd PARAMS)" by (simp add: PARAMS_def)
  show "\<forall>(k, par) \<in> set PARAMS. plain_key k \<and> map_of PARAMS k = Some par" by (simp add: PARAMS_def plain_key_def)
  have "x \<in> snd ` set PARAMS" for x by (cases x) (simp_all add: PARAMS_def)
  then show "snd ` set PARAMS = UNIV" by blast
qed

lemma parse_built:
  assumes "writable p" "query_items p PARAMS = Some items" "items \<noteq> []"
  shows "parse_query (js_join ''&'' items) = ([], as_text p)" "CHR ''#'' \<notin> set (js_join ''&'' items)" "js_join ''&'' items \<noteq> []"
proof -
  note f = parse_items [OF assms(1,2) PARAMS_facts(1,2), of "\<lambda>_. None" "[]"]
  have free: "list_all (\<lambda>i. CHR ''&'' \<notin> set i \<and> CHR ''#'' \<notin> set i) items" using f by simp
  then have "list_all (\<lambda>x. CHR ''&'' \<notin> set x) items" by (simp add: list_all_iff)
  then have s: "js_split CHR ''&'' (js_join ''&'' items) = items" by (rule split_join [OF _ assms(3)])
  have "(\<lambda>x. if p x \<noteq> None then as_text p x else None) = as_text p" by (auto simp: fun_eq_iff as_text_def)
  with f s show "parse_query (js_join ''&'' items) = ([], as_text p)"
    by (simp add: parse_query_def PARAMS_facts(3))
  have "set (js_join ''&'' xs) \<subseteq> insert CHR ''&'' (\<Union> (set ` set xs))" for xs :: "string list"
  proof (induction xs)
    case (Cons x xs)
    then show ?case by (cases xs) auto
  qed simp
  with free show "CHR ''#'' \<notin> set (js_join ''&'' items)" by (auto simp: list_all_iff)
  have "[] \<notin> set items"
  proof
    assume "[] \<in> set items"
    moreover have "[] \<notin> set its" if "query_items q ks = Some its" for q ks its
      using that by (induction ks arbitrary: its rule: query_items.induct [of _ q]) (auto split: option.splits)
    ultimately show False using assms(2) by blast
  qed
  then show "js_join ''&'' items \<noteq> []" using assms(3) by (cases items rule: remdups_adj.cases) auto
qed

section \<open>Building and parsing\<close>

text \<open>The rules read a value through its text, but for an amount that is a BigInt.\<close>

definition amount_written :: "pay_params \<Rightarrow> bool" where
  "amount_written p \<longleftrightarrow> (\<forall>n. p Py_amount = Some (Py_big n) \<longrightarrow> 0 \<le> n)"

lemma digits_decimal: "s \<noteq> [] \<Longrightarrow> list_all is_digit s \<Longrightarrow> decimal_amount s \<and> hd s \<noteq> CHR ''-''"
proof -
  assume s: "s \<noteq> []" "list_all is_digit s"
  then obtain c cs where c: "s = c # cs" "is_digit c" by (cases s) auto
  then have "c \<noteq> CHR ''-''" "c \<noteq> CHR ''+''" by (auto simp: is_digit_def)
  moreover have "dropWhile is_digit s = []" "dropWhile is_digit cs = []" using s(2) c(1) by (simp_all add: list_all_iff)
  ultimately show ?thesis using s c by (simp add: decimal_amount_def unsigned_decimal_def digits1_def del: dropWhile_eq_Nil_conv)
qed

lemma units_back: "map char_of (units_of s) = s" "list_all (\<lambda>c. c < 256) (units_of s)"
  by (simp_all add: units_of_def comp_def list_all_iff)

lemma unsplit_units: "CHR ''.'' \<notin> set s \<Longrightarrow> units_split 46 (units_of s) = [units_of s]"
proof (induction s)
  case (Cons c s)
  then have "(of_char c :: nat) \<noteq> of_char (CHR ''.'')" by (simp only: of_char_eq_iff) auto
  then have "of_char c \<noteq> (46 :: nat)" by simp
  with Cons show ?case by (simp add: units_of_def)
qed (simp add: units_of_def)

lemma big_amount: "0 \<le> n \<Longrightarrow> amount_errors (Py_text (units_of (int_str n))) = []"
proof -
  assume "0 \<le> n"
  then have n: "int_str n = nat_str (nat n)" by (simp add: int_str_def)
  let ?s = "nat_str (nat n)"
  have d: "decimal_amount ?s" "hd ?s \<noteq> CHR ''-''" using digits_decimal [OF _ nat_str_digits] by auto
  obtain c cs where s: "?s = c # cs" by (cases ?s) auto
  have "hd (units_of ?s) \<noteq> 45"
    using d(2) of_char_eq_iff [of c "CHR ''-''", where ?'a = nat] by (simp add: s units_of_def)
  moreover have "frac_units (units_of ?s) = []"
    by (simp add: frac_units_def unsplit_units [OF digits_no_dot [OF nat_str_digits]])
  moreover have "units_of ?s \<noteq> []" by (simp add: s units_of_def)
  ultimately show ?thesis using d(1) units_back [of ?s] by (simp add: n decimal_units_def STELLAR_DECIMALS_def)
qed

lemma validate_as_text:
  assumes "amount_written p"
  shows "validateParams env p = [] \<Longrightarrow> validateParams env (as_text p) = []"
proof -
  have "amount_errors (Py_text (pay_text v)) = []" if "p Py_amount = Some v" "amount_errors v = []" for v
    using assms that big_amount by (cases v) (auto simp: amount_written_def)
  moreover have "destination_errors env (as_text p) = destination_errors env p" "asset_errors env (as_text p) = asset_errors env p"
    by (auto simp: destination_errors_def asset_errors_def as_text_def split: option.splits)
  moreover have "memo_errors (as_text p) = memo_errors p" "origin_errors (as_text p) = origin_errors p"
    by (auto simp: memo_errors_def origin_errors_def as_text_def split: option.splits)
  moreover have "callback_errors env (as_text p) = callback_errors env p" "msg_errors (as_text p) = msg_errors p"
    "passphrase_errors (as_text p) = passphrase_errors p"
    by (simp_all add: callback_errors_def msg_errors_def passphrase_errors_def as_text_def split: option.split)
  moreover have "as_text p Py_amount = map_option (\<lambda>v. Py_text (pay_text v)) (p Py_amount)" by (simp add: as_text_def)
  ultimately show "validateParams env p = [] \<Longrightarrow> validateParams env (as_text p) = []"
    by (cases "p Py_amount") (simp_all add: validateParams_def del: amount_errors.simps)
qed

lemma scheme_text: "js_lower SEP7_SCHEME = SEP7_SCHEME" "length SEP7_SCHEME = 12" "CHR ''#'' \<notin> set SEP7_SCHEME"
  by code_simp+

text \<open>A URI that is built from texts a query can carry is parsed back to those texts.\<close>

lemma built_is_parsed:
  assumes "buildPayUri env unknown p = Built uri" "writable p" "amount_written p" "length uri \<le> MAX_URI_LENGTH"
  shows "parsePayUri env (Some uri) = Inr (as_text p)"
proof -
  have v: "validateParams env p = []" using assms(1) by (simp add: buildPayUri_def Let_def split: if_splits)
  obtain items where i: "query_items p PARAMS = Some items" "uri = SEP7_SCHEME @ ''pay?'' @ js_join ''&'' items"
    using assms(1) by (auto simp: buildPayUri_def Let_def split: if_splits option.splits)
  have "p Py_destination \<noteq> None" using v by (cases "p Py_destination") (simp_all add: validateParams_def destination_errors_def)
  then have ne: "items \<noteq> []"
    using parse_items [OF assms(2) i(1) PARAMS_facts(1,2), of "\<lambda>_. None" "[]"] PARAMS_facts(3) by auto
  note q = parse_built [OF assms(2) i(1) ne]
  have "length (js_join ''&'' items) \<noteq> 0" using q(3) by simp
  then show ?thesis
    using assms(4) q(1,2) scheme_text validate_as_text [OF assms(3) v]
    by (simp add: parsePayUri_def Let_def i(2))
qed

section \<open>What a parsed URI holds\<close>

definition parsed_ok :: "pay_params \<Rightarrow> bool" where
  "parsed_ok p \<longleftrightarrow> (\<forall>k v. p k = Some v \<longrightarrow> (\<exists>u. v = Py_text u \<and> text_ok u \<and> encodeURIComponent u \<noteq> None))"

lemma decode_nonempty: "s \<noteq> [] \<Longrightarrow> decode_units s = Some u \<Longrightarrow> u \<noteq> []"
proof -
  assume s: "s \<noteq> []" and d: "decode_units s = Some u"
  then obtain ps where p: "decodeURIComponent s = Some ps" "u = units_of_points ps" by (auto simp: decode_units_def)
  have "ps \<noteq> []" using p(1) s by (cases s) (auto split: if_splits option.splits prod.splits)
  then show "u \<noteq> []" by (cases ps) (simp_all add: p(2) units_of_points_def units_of_point_def)
qed

lemma parse_pair_ok: "parsed_ok ps \<Longrightarrow> parse_pair pair (errs, ps) = (errs', ps') \<Longrightarrow> parsed_ok ps'"
proof -
  let ?raw = "tl (dropWhile (\<lambda>c. c \<noteq> CHR ''='') pair)"
  assume ps: "parsed_ok ps" and r: "parse_pair pair (errs, ps) = (errs', ps')"
  then consider "ps' = ps" | par u where "ps' = ps(par \<mapsto> Py_text u)" "?raw \<noteq> []" "decode_units ?raw = Some u"
    by (auto simp: parse_pair_def Let_def split: if_splits option.splits)
  then show ?thesis
  proof cases
    case 2
    with decoded_encodes [OF 2(3)] decode_nonempty [OF 2(2,3)] ps show ?thesis
      by (auto simp: parsed_ok_def text_ok_def)
  qed (use ps in simp)
qed

lemma parse_all_ok: "parsed_ok ps \<Longrightarrow> fold parse_pair pairs (errs, ps) = (errs', ps') \<Longrightarrow> parsed_ok ps'"
proof (induction pairs arbitrary: errs ps)
  case (Cons x pairs)
  obtain e q where "parse_pair x (errs, ps) = (e, q)" by force
  with Cons parse_pair_ok [of ps x errs e q] show ?case by simp
qed simp

lemma parsePayUri_Inr:
  assumes "parsePayUri env input = Inr p"
  obtains uri q where "input = Some uri" "parse_query q = ([], p)" "validateParams env p = []"
    "dropWhile (\<lambda>c. c \<noteq> CHR ''?'') (drop (length SEP7_SCHEME) uri) = CHR ''?'' # q" "length uri \<le> MAX_URI_LENGTH"
proof -
  obtain uri where u: "input = Some uri" using assms by (auto simp: parsePayUri_def split: option.splits)
  define query where "query = dropWhile (\<lambda>c. c \<noteq> CHR ''?'') (drop (length SEP7_SCHEME) uri)"
  obtain errs ps where pq: "parse_query (tl query) = (errs, ps)" by force
  have "\<not> length query \<le> 1" "errs @ validateParams env ps = [] \<and> ps = p" "length uri \<le> MAX_URI_LENGTH"
    using assms pq by (auto simp: u parsePayUri_def Let_def query_def [symmetric] split: if_splits)
  moreover then obtain c q where c: "query = c # q" by (cases query) auto
  moreover have "c = CHR ''?''" using c hd_dropWhile [of "\<lambda>c. c \<noteq> CHR ''?''" "drop (length SEP7_SCHEME) uri"] by (simp add: query_def)
  ultimately have "parse_query q = ([], p)" "validateParams env p = []" "query = CHR ''?'' # q" using pq by auto
  with that [of uri q] u \<open>length uri \<le> MAX_URI_LENGTH\<close> show ?thesis by (simp add: query_def)
qed

lemma parsed_texts: "parsePayUri env input = Inr p \<Longrightarrow> parsed_ok p"
proof -
  assume "parsePayUri env input = Inr p"
  then obtain q where "parse_query q = ([], p)" by (rule parsePayUri_Inr)
  then show "parsed_ok p" unfolding parse_query_def by (rule parse_all_ok [rotated]) (simp add: parsed_ok_def)
qed

text \<open>What is parsed can be built again, and the canonical URI means the same.\<close>

lemma parsed_is_built:
  assumes "parsePayUri env input = Inr p"
  shows "\<exists>uri. buildPayUri env [] p = Built uri \<and> (length uri \<le> MAX_URI_LENGTH \<longrightarrow> parsePayUri env (Some uri) = Inr p)"
proof -
  have ok: "parsed_ok p" by (rule parsed_texts [OF assms])
  have v: "validateParams env p = []" using assms by (rule parsePayUri_Inr)
  have "query_items p ks \<noteq> None" for ks
  proof (induction ks)
    case (Cons kp ks)
    obtain k par where kp: "kp = (k, par)" by force
    show ?case
    proof (cases "p par")
      case (Some v)
      with ok obtain e where "encodeURIComponent (pay_text v) = Some e" by (force simp: parsed_ok_def)
      with Cons Some show ?thesis by (auto simp: kp)
    qed (use Cons in \<open>simp add: kp\<close>)
  qed simp
  then obtain items where "query_items p PARAMS = Some items" by auto
  with v obtain uri where b: "buildPayUri env [] p = Built uri" by (simp add: buildPayUri_def)
  have w: "writable p" "amount_written p" using ok by (force simp: writable_def amount_written_def parsed_ok_def)+
  have "as_text p = p"
  proof
    fix k show "as_text p k = p k" using ok by (cases "p k") (force simp: as_text_def parsed_ok_def)+
  qed
  with built_is_parsed [OF b w] b show ?thesis by auto
qed

text \<open>An amount that is accepted is a plain decimal of at most seven places.\<close>

lemma parsed_amount:
  assumes "parsePayUri env input = Inr p" "p Py_amount = Some v"
  shows "\<exists>u. v = Py_text u \<and> decimal_units u \<and> hd u \<noteq> 45 \<and> length (frac_units u) \<le> 7"
proof -
  obtain u where u: "v = Py_text u" using parsed_texts [OF assms(1)] assms(2) by (auto simp: parsed_ok_def)
  have "validateParams env p = []" using assms(1) by (rule parsePayUri_Inr)
  then have "amount_errors v = []" using assms(2) by (simp add: validateParams_def)
  then show ?thesis by (auto simp: u STELLAR_DECIMALS_def split: if_splits)
qed

section \<open>Nothing is read partly\<close>

lemma parse_pair_errors: "fst (parse_pair pair (errs, ps)) = [] \<Longrightarrow> errs = []"
  by (auto simp: parse_pair_def Let_def split: if_splits option.splits)

lemma parse_errors_kept: "fst (fold parse_pair pairs (errs, ps)) = [] \<Longrightarrow> errs = []"
proof (induction pairs arbitrary: errs ps)
  case (Cons x pairs)
  obtain e q where x: "parse_pair x (errs, ps) = (e, q)" by force
  with Cons.IH [of e q] Cons.prems parse_pair_errors [of x errs ps] show ?case by simp
qed simp

definition pair_key :: "string \<Rightarrow> pay_param option" where
  "pair_key pair = map_of PARAMS (takeWhile (\<lambda>c. c \<noteq> CHR ''='') pair)"

definition pair_text :: "string \<Rightarrow> units option" where
  "pair_text pair = decode_units (tl (dropWhile (\<lambda>c. c \<noteq> CHR ''='') pair))"

lemma parse_pair_clean:
  assumes "parse_pair pair ([], ps) = ([], ps')"
  obtains par u where "pair_key pair = Some par" "pair_text pair = Some u" "ps par = None" "ps' = ps(par \<mapsto> Py_text u)"
  using assms by (auto simp: parse_pair_def Let_def pair_key_def pair_text_def split: if_splits option.splits)

text \<open>Every pair of the query is one parameter, none of them twice, and there are no others.\<close>

lemma query_read_whole:
  assumes "fold parse_pair pairs ([], ps) = ([], p)"
  shows "distinct (map pair_key pairs) \<and> None \<notin> set (map pair_key pairs)
    \<and> (\<forall>pair \<in> set pairs. ps (the (pair_key pair)) = None \<and> p (the (pair_key pair)) = map_option Py_text (pair_text pair))
    \<and> (\<forall>k. Some k \<notin> set (map pair_key pairs) \<longrightarrow> p k = ps k)"
  using assms
proof (induction pairs arbitrary: ps)
  case (Cons x pairs)
  obtain e q where x: "parse_pair x ([], ps) = (e, q)" by force
  have "e = []" using Cons.prems x parse_errors_kept [of pairs e q] by simp
  with x obtain par u where pr: "pair_key x = Some par" "pair_text x = Some u" "ps par = None" "q = ps(par \<mapsto> Py_text u)"
    by (metis parse_pair_clean)
  have ih: "distinct (map pair_key pairs) \<and> None \<notin> set (map pair_key pairs)
    \<and> (\<forall>pair \<in> set pairs. q (the (pair_key pair)) = None \<and> p (the (pair_key pair)) = map_option Py_text (pair_text pair))
    \<and> (\<forall>k. Some k \<notin> set (map pair_key pairs) \<longrightarrow> p k = q k)"
    by (rule Cons.IH) (use Cons.prems x \<open>e = []\<close> in simp)
  have new: "Some par \<notin> set (map pair_key pairs)"
  proof
    assume "Some par \<in> set (map pair_key pairs)"
    then obtain y where "y \<in> set pairs" "pair_key y = Some par" by auto
    with ih have "q par = None" by force
    with pr(4) show False by simp
  qed
  have "ps (the (pair_key y)) = None" if "y \<in> set pairs" for y
    using ih that pr(4) by (auto split: if_splits)
  then show ?case using ih new pr by (auto split: if_splits)
qed simp

section \<open>Amounts in stroops\<close>

lemma digits_value_append: "digits_value (xs @ ys) = digits_value xs * 10 ^ length ys + digits_value ys"
proof (induction ys rule: rev_induct)
  case (snoc y ys)
  then show ?case
    using digits_value_snoc [of "xs @ ys" y] digits_value_snoc [of ys y] by (simp add: algebra_simps)
qed (simp add: digits_value_def)

lemma digits_value_zeros: "digits_value (replicate n CHR ''0'' @ s) = digits_value s"
  by (induction n) (simp_all add: digits_value_def)

lemma nat_str_length: "k < 10 ^ Suc d \<Longrightarrow> length (nat_str k) \<le> Suc d"
proof (induction d arbitrary: k)
  case (Suc d)
  show ?case
  proof (cases "k < 10")
    case False
    have "k div 10 < 10 ^ Suc d" using Suc.prems by (simp add: div_less_iff_less_mult mult.commute)
    with False Suc.IH [of "k div 10"] show ?thesis by (subst nat_str.simps) simp
  qed (subst nat_str.simps, simp)
qed (subst nat_str.simps, simp)

lemma stroops_parts:
  assumes "0 \<le> n"
  obtains i f where "stroops_text n = i @ (if f = [] then [] else CHR ''.'' # f)" "i \<noteq> []" "list_all is_digit (i @ f)"
    "length f \<le> 7" "digits_value (i @ pad_end 7 f) = n"
proof -
  define a b where "a = nat n div 10 ^ 7" and "b = nat n mod 10 ^ 7"
  let ?F = "pad_start 7 (nat_str b)"
  have sg: "sgn n * (\<bar>n\<bar> mod 10 ^ 7) = int b" "sgn n * (\<bar>n\<bar> div 10 ^ 7) = int a"
  proof -
    obtain m where m: "n = int m" using assms by (rule nonneg_int_cases)
    have "n mod 10 ^ 7 = int b" "n div 10 ^ 7 = int a" unfolding m a_def b_def nat_int by (simp_all only: of_nat_mod of_nat_div of_nat_power of_nat_numeral)
    moreover have "n = 0 \<or> sgn n = 1 \<and> \<bar>n\<bar> = n" using assms by (cases "n = 0") simp_all
    ultimately show "sgn n * (\<bar>n\<bar> mod 10 ^ 7) = int b" "sgn n * (\<bar>n\<bar> div 10 ^ 7) = int a" by auto
  qed
  have tx: "stroops_text n = nat_str a @ (if trim_zeros ?F = [] then [] else CHR ''.'' # trim_zeros ?F)"
    by (simp add: stroops_text_def Let_def STELLAR_DECIMALS_def sg [simplified] int_str_def)
  have len: "length ?F = 7" using nat_str_length [of b 6] by (simp add: pad_start_def b_def)
  have F: "pad_end 7 (trim_zeros ?F) = ?F" using trim_zeros_pad [of ?F] by (simp only: len)
  have "set (trim_zeros ?F) \<subseteq> set ?F" by (auto simp: trim_zeros_def dest: set_dropWhileD)
  moreover have "list_all is_digit ?F" using nat_str_digits [of b] by (auto simp: pad_start_def list_all_iff is_digit_def)
  ultimately have d: "list_all is_digit (nat_str a @ trim_zeros ?F)" using nat_str_digits [of a] by (auto simp: list_all_iff)
  have "length (trim_zeros ?F) \<le> 7" using length_dropWhile_le [of _ "rev ?F"] len by (simp add: trim_zeros_def)
  moreover have "digits_value (nat_str a @ pad_end 7 (trim_zeros ?F)) = n"
  proof -
    have "digits_value ?F = int b" by (simp add: pad_start_def digits_value_zeros digits_value_nat_str)
    moreover have "a * 10 ^ 7 + b = nat n" by (simp only: a_def b_def div_mult_mod_eq)
    then have "int (a * 10 ^ 7 + b) = n" using assms by simp
    then have "int a * 10 ^ 7 + int b = n" by simp
    ultimately show ?thesis by (simp add: F digits_value_append len digits_value_nat_str)
  qed
  ultimately show ?thesis using that [OF tx _ d] by simp
qed

text \<open>The decimal written for a number of stroops is that number, read back by the conversion of the assets.\<close>

lemma stroops_roundtrip:
  assumes "0 \<le> n"
  shows "toBaseUnits 7 (stroops_text n) = Some (int_str n)"
proof -
  obtain i f where p: "stroops_text n = i @ (if f = [] then [] else CHR ''.'' # f)" "i \<noteq> []" "list_all is_digit (i @ f)"
    "length f \<le> 7" "digits_value (i @ pad_end 7 f) = n"
    by (rule stroops_parts [OF assms])
  have d: "list_all is_digit i" "list_all is_digit f" using p(3) by simp_all
  have parts: "amount_parts (stroops_text n) = (i, f)"
    by (simp add: p(1) amount_parts_def split_at [OF digits_no_dot [OF d(1)]] split_no_sep [OF digits_no_dot [OF d(1)]]
        split_no_sep [OF digits_no_dot [OF d(2)]])
  obtain c cs where c: "i = c # cs" using p(2) by (cases i) auto
  then have hd: "c \<noteq> CHR ''-''" "c \<noteq> CHR ''+''" using d(1) by (auto simp: is_digit_def)
  have "list_all is_digit (i @ pad_end 7 f)" using d by (auto simp: pad_end_def list_all_iff is_digit_def)
  then have "bigint_text (i @ pad_end 7 f) = Some n" using bigint_digits [of "i @ pad_end 7 f"] p(2,5) by simp
  then show ?thesis using p(4) hd by (simp add: toBaseUnits_def parts Let_def c js_starts_with_def)
qed

section \<open>What the builder lets through\<close>

text \<open>A text that is empty is written, and the parser refuses what was written.\<close>

lemma char_G: "char_of (71 :: nat) = CHR ''G''"
  by code_simp

lemma empty_text_built:
  assumes "se_account env (units_of ''G'')"
  shows "buildPayUri env [] [Py_destination \<mapsto> Py_text (units_of ''G''), Py_msg \<mapsto> Py_text []]
      = Built ''web+stellar:pay?destination=G&msg=''"
    "parsePayUri env (Some ''web+stellar:pay?destination=G&msg='') = Inl [Se_empty ''msg'']"
  using assms by (simp_all add: buildPayUri_def validateParams_def destination_errors_def asset_errors_def memo_errors_def
      callback_errors_def msg_errors_def passphrase_errors_def origin_errors_def isValidDestination_def err_if_def
      units_of_def PARAMS_def encodeURIComponent_def high_unit_def low_unit_def encode_point_def unreserved_def
      SEP7_SCHEME_def parsePayUri_def parse_query_def parse_pair_def MAX_URI_LENGTH_def MAX_MSG_LENGTH_def js_lower_def
      js_lower_char_def decode_units_def units_of_points_def units_of_point_def char_G)

end
