(* ===== verification/McpServer.thy ===== *)
theory McpServer
  imports JsonText RequestGate
begin

text \<open>
  The MCP server (\<open>src/mcp/server.js\<close>) and its batches (\<open>src/mcp/batch.js\<close>): JSON-RPC requests to the
  frames that answer them, the queue that writes them, and the HTTP transport that shares one output
  among its requests.

  Tools, prompts and resources are functions of the environment. A handler's outcome is a value; the
  tool calls a request makes are part of the result. Logging is left out.
\<close>

section \<open>Frames\<close>

datatype frame = Result json json | Error json int string "json option"

fun frame_id :: "frame \<Rightarrow> json" where
  "frame_id (Result i r) = i"
| "frame_id (Error i c m d) = i"

fun frame_json :: "frame \<Rightarrow> json" where
  "frame_json (Result i r) = JObj [(''jsonrpc'', JStr ''2.0''), (''id'', i), (''result'', r)]"
| "frame_json (Error i c m d) = JObj [(''jsonrpc'', JStr ''2.0''), (''id'', i),
     (''error'', JObj ([(''code'', JNum c), (''message'', JStr m)] @ (case d of None \<Rightarrow> [] | Some x \<Rightarrow> [(''data'', x)])))]"

text \<open>\<open>JSON.stringify(value, null, 2)\<close>\<close>

fun json_pretty :: "nat \<Rightarrow> json \<Rightarrow> string" where
  "json_pretty n (JArr xs) =
     (if xs = [] then ''[]''
      else ''['' @ [CHR 0x0A] @ js_join ('','' @ [CHR 0x0A]) (map (\<lambda>x. replicate (n + 2) CHR '' '' @ json_pretty (n + 2) x) xs)
           @ [CHR 0x0A] @ replicate n CHR '' '' @ '']'')"
| "json_pretty n (JObj fs) =
     (if fs = [] then ''{}''
      else ''{'' @ [CHR 0x0A] @ js_join ('','' @ [CHR 0x0A])
             (map (\<lambda>p. replicate (n + 2) CHR '' '' @ json_quote (fst p) @ '': '' @ json_pretty (n + 2) (snd p)) fs)
           @ [CHR 0x0A] @ replicate n CHR '' '' @ ''}'')"
| "json_pretty n j = json_stringify j"

section \<open>The server\<close>

datatype outcome = Returned json | Tool_error json | Crashed string

record mcp_tool =
  tl_description :: string
  tl_properties :: json
  tl_required :: json
  tl_handler :: "json \<Rightarrow> outcome"

record mcp_env =
  mc_name :: string
  mc_version :: string
  mc_tools :: "(string, mcp_tool) jsmap"
  mc_prompts :: bool
  mc_resources :: bool
  mc_listPrompts :: json
  mc_getPrompt :: "json option \<Rightarrow> json \<Rightarrow> outcome"
  mc_listResources :: json
  mc_listTemplates :: json
  mc_readResource :: "json option \<Rightarrow> outcome"
  mc_maxBatch :: nat

definition SUPPORTED_PROTOCOL_VERSIONS :: "string list" where
  "SUPPORTED_PROTOCOL_VERSIONS = [''2024-11-05'', ''2025-03-26'', ''2025-06-18'', ''2025-11-25'']"

definition LATEST_PROTOCOL_VERSION :: string where
  "LATEST_PROTOCOL_VERSION = last SUPPORTED_PROTOCOL_VERSIONS"

text \<open>\<open>_sendResult\<close> and \<open>_sendError\<close>: nothing for a request without an id.\<close>

definition sendResult :: "json option \<Rightarrow> json \<Rightarrow> frame list" where
  "sendResult i r = (case i of None \<Rightarrow> [] | Some x \<Rightarrow> [Result x r])"

definition sendError :: "json option \<Rightarrow> int \<Rightarrow> string \<Rightarrow> json option \<Rightarrow> frame list" where
  "sendError i c m d = (case i of None \<Rightarrow> [] | Some x \<Rightarrow> [Error x c m d])"

definition capabilities :: "mcp_env \<Rightarrow> json" where
  "capabilities env = JObj ([(''tools'', JObj [])] @ (if mc_prompts env then [(''prompts'', JObj [])] else [])
     @ (if mc_resources env then [(''resources'', JObj [])] else []))"

definition negotiated :: "json option \<Rightarrow> string" where
  "negotiated requested =
     (case List.find (\<lambda>v. requested = Some (JStr v)) SUPPORTED_PROTOCOL_VERSIONS of
        Some v \<Rightarrow> v | None \<Rightarrow> LATEST_PROTOCOL_VERSION)"

definition content_of :: "string \<Rightarrow> bool \<Rightarrow> json" where
  "content_of text isError =
     JObj [(''content'', JArr [JObj [(''type'', JStr ''text''), (''text'', JStr text)]]), (''isError'', JBool isError)]"

definition result_text :: "json \<Rightarrow> string" where
  "result_text r = (case r of JStr s \<Rightarrow> s | _ \<Rightarrow> json_pretty 0 r)"

definition prop_of :: "string \<Rightarrow> json option \<Rightarrow> json option" where
  "prop_of k v = Option.bind v (jprop k)"

text \<open>\<open>tools/call\<close>: the frames, and the call that was made.\<close>

definition unknown_tool :: "mcp_env \<Rightarrow> json option \<Rightarrow> json option \<Rightarrow> frame list" where
  "unknown_tool env i toolName =
     sendError i (-32602)
       (''Unknown tool: '' @ (case toolName of None \<Rightarrow> ''(missing name)'' | Some n \<Rightarrow> if n = JNull then ''(missing name)'' else js_text n))
       (Some (JObj [(''validTools'', JArr (map (\<lambda>p. JStr (fst p)) (mc_tools env)))]))"

definition tool_frames :: "json option \<Rightarrow> outcome \<Rightarrow> frame list" where
  "tool_frames i r =
     (case r of
        Returned x \<Rightarrow> sendResult i (content_of (result_text x) False)
      | Tool_error p \<Rightarrow> sendResult i (content_of (json_pretty 0 p) True)
      | Crashed m \<Rightarrow> sendError i (-32603) m None)"

definition call_tool :: "mcp_env \<Rightarrow> json option \<Rightarrow> json option \<Rightarrow> frame list \<times> (string \<times> json) list" where
  "call_tool env i params =
     (let toolArgs = (case prop_of ''arguments'' params of Some a \<Rightarrow> if js_truthy a then a else JObj [] | None \<Rightarrow> JObj [])
      in case str_of (prop_of ''name'' params) of
           None \<Rightarrow> (unknown_tool env i (prop_of ''name'' params), [])
         | Some n \<Rightarrow>
             (case jm_get (mc_tools env) n of
                None \<Rightarrow> (unknown_tool env i (prop_of ''name'' params), [])
              | Some t \<Rightarrow> (tool_frames i (tl_handler t toolArgs), [(n, toolArgs)])))"

text \<open>\<open>_handleSemantic\<close>: \<open>None\<close> when the method is not handled there.\<close>

definition semantic_outcome :: "mcp_env \<Rightarrow> string \<Rightarrow> json option \<Rightarrow> outcome option" where
  "semantic_outcome env m params =
     (let args = (case prop_of ''arguments'' params of None \<Rightarrow> JObj [] | Some JNull \<Rightarrow> JObj [] | Some a \<Rightarrow> a) in
      if js_starts_with ''prompts/'' m \<and> \<not> mc_prompts env then None
      else if js_starts_with ''resources/'' m \<and> \<not> mc_resources env then None
      else if m = ''prompts/list'' then Some (Returned (mc_listPrompts env))
      else if m = ''prompts/get'' then Some (mc_getPrompt env (prop_of ''name'' params) args)
      else if m = ''resources/list'' then Some (Returned (mc_listResources env))
      else if m = ''resources/templates/list'' then Some (Returned (mc_listTemplates env))
      else if m = ''resources/read'' then Some (mc_readResource env (prop_of ''uri'' params))
      else None)"

definition semantic_frames :: "json option \<Rightarrow> outcome \<Rightarrow> frame list" where
  "semantic_frames i r =
     (case r of
        Returned x \<Rightarrow> sendResult i x
      | Tool_error p \<Rightarrow> sendResult i (content_of (json_pretty 0 p) True)
      | Crashed e \<Rightarrow> sendError i (-32603) e None)"

definition handleSemantic :: "mcp_env \<Rightarrow> string \<Rightarrow> json option \<Rightarrow> json option \<Rightarrow> frame list option" where
  "handleSemantic env m i params =
     map_option (semantic_frames i) (semantic_outcome env m params)"

definition tool_listing :: "mcp_env \<Rightarrow> json" where
  "tool_listing env = JObj [(''tools'', JArr (map (\<lambda>(n, t). JObj [(''name'', JStr n), (''description'', JStr (tl_description t)),
     (''inputSchema'', JObj [(''type'', JStr ''object''), (''properties'', tl_properties t), (''required'', tl_required t)])])
     (mc_tools env)))]"

text \<open>\<open>_handleRequest\<close>, for a request whose method is a text.\<close>

definition handleRequest :: "mcp_env \<Rightarrow> string \<Rightarrow> json \<Rightarrow> frame list \<times> (string \<times> json) list" where
  "handleRequest env m req =
     (let i = jprop ''id'' req; params = jprop ''params'' req in
      if m = ''initialize'' then
        (sendResult i (JObj [(''protocolVersion'', JStr (negotiated (prop_of ''protocolVersion'' params))),
           (''serverInfo'', JObj [(''name'', JStr (mc_name env)), (''version'', JStr (mc_version env))]),
           (''capabilities'', capabilities env)]), [])
      else if m = ''tools/list'' then (sendResult i (tool_listing env), [])
      else if m = ''tools/call'' then call_tool env i params
      else if m = ''ping'' then (sendResult i (JObj []), [])
      else if m = ''notifications/initialized'' then ([], [])
      else (case handleSemantic env m i params of
              Some fs \<Rightarrow> (fs, [])
            | None \<Rightarrow> (sendError i (-32601) ''Method not found'' None, [])))"

section \<open>Batches\<close>

text \<open>The method of a well-formed request.\<close>

definition method_of :: "json \<Rightarrow> string option" where
  "method_of req = (case jprop ''method'' req of Some (JStr m) \<Rightarrow> Some m | _ \<Rightarrow> None)"

definition detected_id :: "json \<Rightarrow> json" where
  "detected_id req = nullish_or (jprop ''id'' req) JNull"

definition batch_member :: "mcp_env \<Rightarrow> json \<Rightarrow> frame list" where
  "batch_member env req =
     (case method_of req of
        None \<Rightarrow> [Error (detected_id req) (-32600) ''Invalid Request'' None]
      | Some m \<Rightarrow> fst (handleRequest env m req))"

definition processBatch_rpc :: "mcp_env \<Rightarrow> json list \<Rightarrow> frame + frame list" where
  "processBatch_rpc env batch =
     (if batch = [] then Inl (Error JNull (-32600) ''Invalid Request: batch must not be empty'' None)
      else if length batch > mc_maxBatch env
      then Inl (Error JNull (-32600) (''Invalid Request: batch of '' @ nat_str (length batch) @ '' exceeds the maximum of ''
                  @ nat_str (mc_maxBatch env) @ '' requests'') None)
      else Inr (concat (map (batch_member env) batch)))"

text \<open>\<open>_processLine\<close>: what is written for a line; \<open>None\<close> is a line that is no JSON.\<close>

definition processLine :: "mcp_env \<Rightarrow> json option \<Rightarrow> string list" where
  "processLine env line =
     (let put = (\<lambda>j. json_stringify j @ [CHR 0x0A]) in
      case line of
        None \<Rightarrow> [put (frame_json (Error JNull (-32700) ''Parse error'' None))]
      | Some (JArr xs) \<Rightarrow>
          (case processBatch_rpc env xs of
             Inl f \<Rightarrow> [put (frame_json f)]
           | Inr fs \<Rightarrow> if fs = [] then [] else [put (JArr (map frame_json fs))])
      | Some req \<Rightarrow> map (\<lambda>f. put (frame_json f)) (batch_member env req))"

section \<open>What is answered\<close>

text \<open>A request expects an answer when it has an id and is not the one notification the server knows by name.\<close>

definition expects :: "json \<Rightarrow> bool" where
  "expects req \<longleftrightarrow> (case method_of req of None \<Rightarrow> True | Some m \<Rightarrow> jprop ''id'' req \<noteq> None \<and> m \<noteq> ''notifications/initialized'')"

lemma send_ids: "map frame_id (sendResult i r) = (case i of None \<Rightarrow> [] | Some x \<Rightarrow> [x])"
  "map frame_id (sendError i c m d) = (case i of None \<Rightarrow> [] | Some x \<Rightarrow> [x])"
  by (simp_all add: sendResult_def sendError_def split: option.splits)

lemma handle_ids:
  "map frame_id (fst (handleRequest env m req)) =
     (if m = ''notifications/initialized'' then [] else (case jprop ''id'' req of None \<Rightarrow> [] | Some x \<Rightarrow> [x]))"
proof -
  have tool: "map frame_id (tool_frames i r) = (case i of None \<Rightarrow> [] | Some x \<Rightarrow> [x])" for i r
    by (cases r) (simp_all add: tool_frames_def send_ids)
  have outs: "map frame_id (semantic_frames i r) = (case i of None \<Rightarrow> [] | Some x \<Rightarrow> [x])" for i r
    by (cases r) (simp_all add: semantic_frames_def send_ids)
  have call: "map frame_id (fst (call_tool env i params)) = (case i of None \<Rightarrow> [] | Some x \<Rightarrow> [x])" for i params
    by (cases "str_of (prop_of ''name'' params)"; cases "jm_get (mc_tools env) (the (str_of (prop_of ''name'' params)))")
      (simp_all add: call_tool_def Let_def unknown_tool_def send_ids tool)
  have sem: "handleSemantic env m' i params = Some fs \<Longrightarrow> map frame_id fs = (case i of None \<Rightarrow> [] | Some x \<Rightarrow> [x])" for m' i params fs
    by (auto simp: handleSemantic_def outs)
  show ?thesis
  proof (cases "m = ''initialize'' \<or> m = ''tools/list'' \<or> m = ''tools/call'' \<or> m = ''ping'' \<or> m = ''notifications/initialized''")
    case True
    then show ?thesis by (auto simp: handleRequest_def Let_def send_ids call)
  next
    case False
    then show ?thesis
      using sem [of m "jprop ''id'' req" "jprop ''params'' req"]
      by (cases "handleSemantic env m (jprop ''id'' req) (jprop ''params'' req)")
        (simp_all add: handleRequest_def Let_def send_ids)
  qed
qed

lemma member_ids: "map frame_id (batch_member env req) = (if expects req then [detected_id req] else [])"
proof (cases "method_of req")
  case None
  then show ?thesis by (simp add: batch_member_def expects_def)
next
  case (Some m)
  then show ?thesis
    by (cases "jprop ''id'' req"; cases "m = ''notifications/initialized''")
      (simp_all add: batch_member_def expects_def detected_id_def handle_ids)
qed

text \<open>A batch is answered in its order: one frame, with its id, for each member that expects one.\<close>

lemma batch_ids:
  assumes "processBatch_rpc env batch = Inr fs"
  shows "map frame_id fs = map detected_id (filter expects batch)"
proof -
  have "fs = concat (map (batch_member env) batch)" using assms by (auto simp: processBatch_rpc_def split: if_splits)
  moreover have "map frame_id (concat (map (batch_member env) batch)) = map detected_id (filter expects batch)"
    by (induction batch) (simp_all add: member_ids)
  ultimately show ?thesis by simp
qed

text \<open>Only a known tool is called, once per request, whether or not the request is answered.\<close>

lemma calls_known:
  "snd (handleRequest env m req) = [] \<or>
     (m = ''tools/call'' \<and> (\<exists>n a t. snd (handleRequest env m req) = [(n, a)] \<and> jm_get (mc_tools env) n = Some t))"
proof (cases "m = ''tools/call''")
  case True
  then have "handleRequest env m req = call_tool env (jprop ''id'' req) (jprop ''params'' req)"
    by (simp add: handleRequest_def Let_def)
  with True show ?thesis by (auto simp: call_tool_def Let_def split: option.splits)
next
  case False
  then have "snd (handleRequest env m req) = []"
    by (auto simp: handleRequest_def Let_def split: option.splits)
  then show ?thesis by blast
qed

section \<open>The writer\<close>

text \<open>
  \<open>_write\<close>: one write at a time, parked while the stream is full. \<open>room\<close> is what the stream's
  \<open>write\<close> answers to each chunk.
\<close>

record writer =
  wr_queue :: "string list"
  wr_parked :: bool
  wr_open :: bool
  wr_out :: "string list"

datatype wr_event = Put string | Drained | Wr_closed

fun wr_flush :: "(string list \<Rightarrow> bool) \<Rightarrow> string list \<Rightarrow> writer \<Rightarrow> writer" where
  "wr_flush room [] w = w\<lparr>wr_queue := []\<rparr>"
| "wr_flush room (c # cs) w =
     (if \<not> wr_open w then wr_flush room cs w
      else (let w' = w\<lparr>wr_out := wr_out w @ [c]\<rparr> in
            if room (wr_out w') then wr_flush room cs w' else w'\<lparr>wr_parked := True, wr_queue := cs\<rparr>))"

fun wr_step :: "(string list \<Rightarrow> bool) \<Rightarrow> wr_event \<Rightarrow> writer \<Rightarrow> writer" where
  "wr_step room (Put c) w =
     (if wr_parked w then w\<lparr>wr_queue := wr_queue w @ [c]\<rparr> else wr_flush room (wr_queue w @ [c]) w)"
| "wr_step room Drained w = (if wr_parked w then wr_flush room (wr_queue w) (w\<lparr>wr_parked := False\<rparr>) else w)"
| "wr_step room Wr_closed w = wr_flush room (wr_queue w) (w\<lparr>wr_open := False, wr_parked := False\<rparr>)"

definition writer_ok :: "writer \<Rightarrow> bool" where
  "writer_ok w \<longleftrightarrow> (wr_queue w \<noteq> [] \<longrightarrow> wr_parked w)"

fun put_chunks :: "wr_event list \<Rightarrow> string list" where
  "put_chunks [] = []"
| "put_chunks (Put c # es) = c # put_chunks es"
| "put_chunks (e # es) = put_chunks es"

lemma flush_open:
  assumes "wr_open w"
  shows "wr_out (wr_flush room cs w) @ wr_queue (wr_flush room cs w) = wr_out w @ cs" "wr_open (wr_flush room cs w)"
    "writer_ok (wr_flush room cs w)"
  using assms by (induction room cs w rule: wr_flush.induct) (auto simp: Let_def writer_ok_def)

text \<open>While the stream is open, what was put is what was written and what waits, in that order.\<close>

lemma writer_in_order:
  assumes "writer_ok w" "wr_open w" "Wr_closed \<notin> set es"
  shows "wr_out (fold (wr_step room) es w) @ wr_queue (fold (wr_step room) es w) = wr_out w @ wr_queue w @ put_chunks es
    \<and> writer_ok (fold (wr_step room) es w)"
  using assms
proof (induction es arbitrary: w)
  case (Cons e es)
  show ?case
  proof (cases e)
    case (Put c)
    have s: "wr_out (wr_step room e w) @ wr_queue (wr_step room e w) = wr_out w @ wr_queue w @ [c]"
      "wr_open (wr_step room e w)" "writer_ok (wr_step room e w)"
      using Cons.prems flush_open [of w room "wr_queue w @ [c]"] by (auto simp: Put writer_ok_def)
    show ?thesis using Cons.IH [OF s(3,2)] Cons.prems(3) s(1) by (simp add: Put)
  next
    case Drained
    have s: "wr_out (wr_step room e w) @ wr_queue (wr_step room e w) = wr_out w @ wr_queue w"
      "wr_open (wr_step room e w)" "writer_ok (wr_step room e w)"
      using Cons.prems flush_open [of "w\<lparr>wr_parked := False\<rparr>" room "wr_queue w"] by (auto simp: Drained)
    show ?thesis using Cons.IH [OF s(3,2)] Cons.prems(3) s(1) by (simp add: Drained)
  qed (use Cons.prems in simp)
qed simp

section \<open>The HTTP transport\<close>

text \<open>
  \<open>startSSE\<close>: a POST replaces the server's one output by a list of its own, waits for the handler, and
  puts back the output it found. \<open>Sse_begin\<close> is the request's arrival, \<open>Sse_finish\<close> the end of its handler,
  with the frames it then emits.
\<close>

record sse =
  se_out :: "nat option"                 \<comment> \<open>whose list the output is\<close>
  se_open :: bool
  se_found :: "(nat, nat option) jsmap"
  se_lists :: "(nat, frame list) jsmap"
  se_answers :: "(nat \<times> frame list) list"

datatype sse_event = Sse_begin nat | Sse_finish nat "frame list"

fun sse_step :: "sse_event \<Rightarrow> sse \<Rightarrow> sse" where
  "sse_step (Sse_begin r) s =
     s\<lparr>se_found := jm_set r (se_out s) (se_found s), se_lists := jm_set r [] (se_lists s), se_open := True, se_out := Some r\<rparr>"
| "sse_step (Sse_finish r fs) s =
     (let lists = (case se_out s of
                     Some q \<Rightarrow> if se_open s then jm_set q (nullish_or (jm_get (se_lists s) q) [] @ fs) (se_lists s) else se_lists s
                   | None \<Rightarrow> se_lists s)
      in s\<lparr>se_lists := lists, se_answers := se_answers s @ [(r, nullish_or (jm_get lists r) [])],
           se_out := nullish_or (jm_get (se_found s) r) None, se_open := False\<rparr>)"

text \<open>One at a time, each request is answered with its own frames.\<close>

lemma sse_sequential:
  "se_answers (sse_step (Sse_finish r fs) (sse_step (Sse_begin r) s)) = se_answers s @ [(r, fs)]"
  "se_out (sse_step (Sse_finish r fs) (sse_step (Sse_begin r) s)) = se_out s"
  by (simp_all add: Let_def jm_get_set)

lemma finish_elsewhere:
  assumes "a \<noteq> b" "se_out u = Some b" "se_open u" "jm_get (se_lists u) b = Some []" "jm_get (se_lists u) a = Some []"
  shows "\<not> se_open (sse_step (Sse_finish a fs) u)" "jm_get (se_lists (sse_step (Sse_finish a fs) u)) b = Some fs"
    "se_answers (sse_step (Sse_finish a fs) u) = se_answers u @ [(a, [])]"
  using assms by (simp_all add: Let_def jm_get_set)

lemma finish_closed:
  assumes "\<not> se_open u"
  shows "se_answers (sse_step (Sse_finish b fs) u) = se_answers u @ [(b, nullish_or (jm_get (se_lists u) b) [])]"
  using assms by (cases "se_out u") (simp_all add: Let_def)

text \<open>
  Two that overlap are crossed: the first is answered with nothing, the second with the first one's
  frames, and its own are lost.
\<close>

lemma sse_crossed:
  assumes "a \<noteq> b"
  shows "se_answers (fold sse_step [Sse_begin a, Sse_begin b, Sse_finish a fa, Sse_finish b fb] s) = se_answers s @ [(a, []), (b, fa)]"
proof -
  let ?s = "sse_step (Sse_begin b) (sse_step (Sse_begin a) s)" and ?l = "jm_set a [] (se_lists s)"
  have begun: "se_out ?s = Some b" "se_open ?s" "jm_get (se_lists ?s) b = Some []" "jm_get (se_lists ?s) a = Some []"
    "se_answers ?s = se_answers s"
    using assms by (simp_all add: jm_get_set)
  note first = finish_elsewhere [OF assms begun(1-4), of fa]
  have "se_answers (sse_step (Sse_finish b fb) (sse_step (Sse_finish a fa) ?s)) = se_answers s @ [(a, []), (b, fa)]"
    by (simp only: finish_closed [OF first(1)] first begun(5) nullish_simps append_assoc append.simps)
  then show ?thesis by simp
qed

end
