(* ===== verification/McpWallet.thy ===== *)
theory McpWallet
  imports McpServer
begin

text \<open>
  The agent's wallet (\<open>src/mcp/cli.js\<close>): its spend caps, its three tools, and the session budget over
  calls that overlap, as the members of a batch do.

  The payment library (reading a 402, signing, reading a settlement) and the network are arguments.
\<close>

section \<open>Caps and requests\<close>

definition parseStroopsLimit :: "string option \<Rightarrow> string \<Rightarrow> string \<Rightarrow> string + int" where
  "parseStroopsLimit raw name defaultValue =
     (let text = js_trim (nullish_or raw defaultValue) in
      if text = [] \<or> \<not> list_all is_digit text
      then Inl (''Invalid '' @ name @ '' '' @ [CHR 0x22] @ nullish_or raw [] @ [CHR 0x22] @ '': must be a non-negative integer in stroops.'')
      else Inr (digits_value text))"

text \<open>\<open>None\<close>: the process exits.\<close>

definition spendCapFromEnv :: "(string \<Rightarrow> string option) \<Rightarrow> string \<Rightarrow> string \<Rightarrow> int option" where
  "spendCapFromEnv env name defaultValue =
     (case parseStroopsLimit (env name) name defaultValue of Inl _ \<Rightarrow> None | Inr n \<Rightarrow> Some n)"

definition spend_caps :: "(string \<Rightarrow> string option) \<Rightarrow> (int \<times> int) option" where
  "spend_caps env =
     Option.bind (spendCapFromEnv env ''MAX_FEE_PER_CALL_STROOPS'' ''1000'') (\<lambda>c.
       map_option (Pair c) (spendCapFromEnv env ''MAX_SESSION_SPEND_STROOPS'' ''10000''))"

definition mcpFetchTimeoutMs :: "jsnum \<Rightarrow> int" where
  "mcpFetchTimeoutMs raw = (case raw of Fin n \<Rightarrow> if n > 0 then n else 10000 | NaN \<Rightarrow> 10000)"

record reply =
  rp_code :: nat
  rp_text :: string
  rp_json :: "json option"
  rp_headers :: "string \<Rightarrow> string option"

datatype fetch_end = Fetch_replied reply | Fetch_threw string string   \<comment> \<open>the error's name and message\<close>

definition fetchWithTimeout :: "string \<Rightarrow> int \<Rightarrow> fetch_end \<Rightarrow> string + reply" where
  "fetchWithTimeout url timeoutMs e =
     (case e of
        Fetch_replied r \<Rightarrow> Inr r
      | Fetch_threw n m \<Rightarrow>
          Inl (if n \<in> {''TimeoutError'', ''AbortError''}
               then ''MCP request to '' @ url @ '' timed out after '' @ int_str timeoutMs @ ''ms'' else m))"

definition discovery_query :: "(string \<times> json) list \<Rightarrow> (string \<times> string) list" where
  "discovery_query params =
     concat (map (\<lambda>(k, v). case v of
        JNull \<Rightarrow> []
      | JArr xs \<Rightarrow> map (\<lambda>x. (k, js_text x)) xs
      | _ \<Rightarrow> [(k, js_text v)]) params)"

text \<open>What the facilitator's reply gives; \<open>net\<close> is the network.\<close>

definition fetchDiscovery ::
  "(string \<Rightarrow> (string \<times> string) list \<Rightarrow> string + reply) \<Rightarrow> string \<Rightarrow> (string \<times> json) list \<Rightarrow> string + json" where
  "fetchDiscovery net path params =
     (case net path (discovery_query params) of
        Inl e \<Rightarrow> Inl e
      | Inr r \<Rightarrow>
          if rp_code r < 200 \<or> 300 \<le> rp_code r
          then Inl (''Facilitator request failed: '' @
            (case prop_of ''invalidReason'' (rp_json r) of
               Some x \<Rightarrow> if js_truthy x then js_text x else ''HTTP '' @ nat_str (rp_code r)
             | None \<Rightarrow> ''HTTP '' @ nat_str (rp_code r)))
          else (case rp_json r of None \<Rightarrow> Inl ''invalid json'' | Some j \<Rightarrow> Inr j))"

section \<open>The free tools\<close>

text \<open>The first element of a value, as \<open>v[0]\<close> reads it.\<close>

definition js_first :: "json \<Rightarrow> json option" where
  "js_first v = (case v of JArr (x # _) \<Rightarrow> Some x | JStr (c # _) \<Rightarrow> Some (JStr [c]) | JObj fs \<Rightarrow> map_of fs ''0'' | _ \<Rightarrow> None)"

definition js_empty_list :: "json \<Rightarrow> bool" where
  "js_empty_list v \<longleftrightarrow> (case v of JArr xs \<Rightarrow> xs = [] | JStr s \<Rightarrow> s = [] | JObj fs \<Rightarrow> map_of fs ''length'' = Some (JNum 0) | _ \<Rightarrow> False)"

definition search_resources :: "(string \<Rightarrow> (string \<times> json) list \<Rightarrow> string + json) \<Rightarrow> json \<Rightarrow> string + json" where
  "search_resources fetch args = fetch ''/discovery/search'' (js_entries args)"

text \<open>\<open>get_resource\<close>; the result of an \<open>undefined\<close> element is \<open>None\<close>.\<close>

definition get_resource :: "(string \<Rightarrow> (string \<times> json) list \<Rightarrow> string + json) \<Rightarrow> json \<Rightarrow> string + json option" where
  "get_resource fetch args =
     (case fetch ''/discovery/resources''
            [(''url'', nullish_or (jprop ''url'' args) JNull), (''toolName'', nullish_or (jprop ''toolName'' args) JNull)] of
        Inl e \<Rightarrow> Inl e
      | Inr res \<Rightarrow>
          (case jprop ''resources'' res of
             None \<Rightarrow> Inl ''Resource not found in catalog.''
           | Some rs \<Rightarrow> if \<not> js_truthy rs \<or> js_empty_list rs then Inl ''Resource not found in catalog.'' else Inr (js_first rs)))"

text \<open>
  The facilitator's answer to that request lists its page under another name (\<open>items\<close>), so that the tool
  finds no listing at all, whatever the catalog holds.
\<close>

definition listing_body :: "json list \<Rightarrow> int \<Rightarrow> int \<Rightarrow> nat \<Rightarrow> json" where
  "listing_body items limit offset n =
     JObj [(''x402Version'', JNum 2), (''items'', JArr items),
           (''pagination'', JObj [(''limit'', JNum limit), (''offset'', JNum offset), (''total'', JNum (int n))])]"

lemma get_resource_blind:
  assumes "\<And>q. net ''/discovery/resources'' q = Inr \<lparr>rp_code = 200, rp_text = t, rp_json = Some (listing_body items limit offset n), rp_headers = h\<rparr>"
  shows "get_resource (fetchDiscovery net) args = Inl ''Resource not found in catalog.''"
  by (simp add: get_resource_def fetchDiscovery_def assms listing_body_def jprop_def)

section \<open>Paying\<close>

record wallet_env =
  we_callCap :: int
  we_sessionCap :: int
  we_configured :: bool
  we_timeout :: int
  we_required :: "reply \<Rightarrow> string + json"      \<comment> \<open>\<open>getPaymentRequiredResponse\<close>\<close>
  we_sign :: "json \<Rightarrow> string + string"         \<comment> \<open>\<open>createPaymentPayload\<close>: the payment header\<close>
  we_settle :: "reply \<Rightarrow> string + json"        \<comment> \<open>\<open>getPaymentSettleResponse\<close>\<close>

definition assertCanSpend :: "wallet_env \<Rightarrow> int \<Rightarrow> int \<Rightarrow> string option" where
  "assertCanSpend env spent amount =
     (if amount > we_callCap env
      then Some (''Spending refused: Request amount ('' @ int_str amount @ '' stroops) exceeds per-call limit (''
                  @ int_str (we_callCap env) @ '' stroops).'')
      else if spent + amount > we_sessionCap env
      then Some (''Spending refused: Request amount ('' @ int_str amount @ '' stroops) exceeds remaining session budget (spent ''
                  @ int_str spent @ ''/'' @ int_str (we_sessionCap env) @ '' stroops).'')
      else None)"

definition js_or :: "json option \<Rightarrow> json \<Rightarrow> json" where
  "js_or v d = (case v of Some x \<Rightarrow> if js_truthy x then x else d | None \<Rightarrow> d)"

text \<open>\<open>req0.maxAmountRequired || req0.price?.amount || '0'\<close>\<close>

definition asked_amount :: "json \<Rightarrow> json" where
  "asked_amount req0 = js_or (jprop ''maxAmountRequired'' req0) (js_or (prop_of ''amount'' (jprop ''price'' req0)) (JStr ''0''))"

text \<open>A cap that is no text has no \<open>trim\<close>: the same error.\<close>

definition stroops_of :: "string \<Rightarrow> json \<Rightarrow> string + int" where
  "stroops_of what v =
     (let bad = Inl (''Invalid '' @ what @ '' '' @ [CHR 0x22] @ js_text v @ [CHR 0x22] @ '': must be a non-negative integer in stroops.'')
      in case v of
           JStr s \<Rightarrow> (case parseStroopsLimit (Some s) what ''0'' of Inl _ \<Rightarrow> bad | Inr n \<Rightarrow> Inr n)
         | _ \<Rightarrow> bad)"

datatype pay_start = Pay_refused string | Free json | Paying int string

definition caller_cap :: "json \<Rightarrow> int \<Rightarrow> string option" where
  "caller_cap args amount =
     (case jprop ''maxFeeStroops'' args of
        None \<Rightarrow> None
      | Some v \<Rightarrow>
          if \<not> js_truthy v then None
          else (case stroops_of ''maxFeeStroops'' v of
                  Inl e \<Rightarrow> Some e
                | Inr cap \<Rightarrow>
                    if amount > cap
                    then Some (''Spending refused: Request amount ('' @ int_str amount @ '' stroops) exceeds requested maxFeeStroops (''
                                @ js_text v @ '').'')
                    else None))"

text \<open>Spending controls and signing, from the parsed requirements.\<close>

definition pay_required :: "wallet_env \<Rightarrow> int \<Rightarrow> json \<Rightarrow> json \<Rightarrow> pay_start" where
  "pay_required env spent args required =
     (case Option.bind (jprop ''accepts'' required) js_first of
        None \<Rightarrow> Pay_refused ''Resource returned 402 but provided no payment accepts requirements.''
      | Some req0 \<Rightarrow>
          if \<not> js_truthy req0 then Pay_refused ''Resource returned 402 but provided no payment accepts requirements.''
          else (case stroops_of ''payment amount'' (asked_amount req0) of
                  Inl e \<Rightarrow> Pay_refused e
                | Inr amount \<Rightarrow>
                    (case assertCanSpend env spent amount of
                       Some e \<Rightarrow> Pay_refused e
                     | None \<Rightarrow>
                         (case caller_cap args amount of
                            Some e \<Rightarrow> Pay_refused e
                          | None \<Rightarrow>
                              (case we_sign env required of
                                 Inl e \<Rightarrow> Pay_refused (''Failed to create payment payload: '' @ e)
                               | Inr p \<Rightarrow> Paying amount p)))))"

text \<open>\<open>call_paid_resource\<close> up to the paid request, from the end of the unpaid one and the session's spend.\<close>

definition pay_begin :: "wallet_env \<Rightarrow> int \<Rightarrow> json \<Rightarrow> fetch_end \<Rightarrow> pay_start" where
  "pay_begin env spent args unpaid =
     (if \<not> we_configured env then Pay_refused ''call_paid_resource requires AGENT_PAYER_SECRET_KEY to be configured.''
      else (case fetchWithTimeout (case jprop ''url'' args of Some u \<Rightarrow> js_text u | None \<Rightarrow> ''undefined'') (we_timeout env) unpaid of
              Inl e \<Rightarrow> Pay_refused e
            | Inr r \<Rightarrow>
                if rp_code r \<noteq> 402
                then Free (JObj [(''success'', JBool True), (''status'', JNum (int (rp_code r))), (''response'', JStr (rp_text r))])
                else (case we_required env r of
                        Inl e \<Rightarrow> Pay_refused (''Failed to parse payment requirements: '' @ e)
                      | Inr required \<Rightarrow> pay_required env spent args required)))"

text \<open>The end of the paid request: the tool's result and the session's spend.\<close>

definition pay_end :: "wallet_env \<Rightarrow> string \<Rightarrow> int \<Rightarrow> int \<Rightarrow> fetch_end \<Rightarrow> (string + json) \<times> int" where
  "pay_end env url spent amount paid =
     (case fetchWithTimeout url (we_timeout env) paid of
        Inl e \<Rightarrow> (Inl e, spent)
      | Inr r \<Rightarrow>
          (case we_settle env r of
             Inl e \<Rightarrow> (Inl e, spent)
           | Inr settle \<Rightarrow>
               if rp_code r \<noteq> 200
               then (Inl (''Paid request failed ('' @ nat_str (rp_code r) @ ''): ''
                       @ (case jprop ''errorReason'' settle of Some x \<Rightarrow> if js_truthy x then js_text x else ''unknown'' | None \<Rightarrow> ''unknown'')
                       @ ''. '' @ take 200 (rp_text r)), spent)
               else (Inr (JObj [(''success'', JBool True), (''settlement'', settle), (''response'', JStr (rp_text r))]), spent + amount)))"

section \<open>What one call may spend\<close>

lemma paying_within:
  assumes "pay_begin env spent args unpaid = Paying a p"
  shows "0 \<le> a" "a \<le> we_callCap env" "spent + a \<le> we_sessionCap env" "caller_cap args a = None" "we_configured env"
proof -
  have "\<exists>required. pay_required env spent args required = Paying a p" and c: "we_configured env"
    using assms by (auto simp: pay_begin_def split: if_splits sum.splits)
  then obtain required where "pay_required env spent args required = Paying a p" by blast
  then obtain v where v: "stroops_of ''payment amount'' v = Inr a" "assertCanSpend env spent a = None" "caller_cap args a = None"
    by (auto simp: pay_required_def split: option.splits if_splits sum.splits)
  have pos: "0 \<le> foldl (\<lambda>acc c. 10 * acc + (int (of_char c) - 48)) n s" if "list_all is_digit s" "0 \<le> n" for s n
    using that by (induction s arbitrary: n) (auto simp: is_digit_def Let_def)
  show "0 \<le> a"
    using v(1) pos [of _ 0]
    by (auto simp: stroops_of_def parseStroopsLimit_def Let_def digits_value_def split: json.splits sum.splits if_splits)
  show "a \<le> we_callCap env" "spent + a \<le> we_sessionCap env"
    using v(2) by (auto simp: assertCanSpend_def split: if_splits)
  show "caller_cap args a = None" "we_configured env" using v c by simp_all
qed

lemma end_spend: "snd (pay_end env url spent a paid) \<in> {spent, spent + a}"
  by (simp add: pay_end_def split: sum.splits)

text \<open>
  A payment whose answer is not 200, or that times out, is not counted, though its signed header was
  sent: the budget bounds what is confirmed, not what is handed over.
\<close>

lemma failed_payment_uncounted:
  assumes "\<And>r. paid = Fetch_replied r \<Longrightarrow> rp_code r \<noteq> 200"
  shows "snd (pay_end env url spent a paid) = spent"
  using assms by (cases paid) (auto simp: pay_end_def fetchWithTimeout_def split: sum.splits)

text \<open>
  Only \<open>maxAmountRequired\<close> and \<open>price.amount\<close> are read. A requirement that states its price as \<open>amount\<close>,
  as the second version of the protocol does, counts as nothing and passes every cap.
\<close>

lemma amount_field_uncapped:
  assumes "jprop ''maxAmountRequired'' req0 = None" "jprop ''price'' req0 = None" "req0 = JObj fs"
    "jprop ''accepts'' required = Some (JArr [req0])" "we_sign env required = Inr p"
    "spent \<le> we_sessionCap env" "0 \<le> we_callCap env" "caller_cap args 0 = None"
  shows "pay_required env spent args required = Paying 0 p"
proof -
  have "stroops_of ''payment amount'' (asked_amount req0) = Inr 0"
    using assms(1,2) by (simp add: asked_amount_def js_or_def prop_of_def stroops_of_def parseStroopsLimit_def js_trim_def js_space_def is_digit_def
        digits_value_def)
  with assms show ?thesis by (simp add: pay_required_def js_first_def assertCanSpend_def)
qed

section \<open>The session\<close>

record wallet =
  wl_spent :: int
  wl_pending :: "(int \<times> string) list"
  wl_sent :: "string list"

text \<open>A session with at most \<open>n\<close> calls in flight.\<close>

inductive session :: "wallet_env \<Rightarrow> nat \<Rightarrow> wallet \<Rightarrow> bool" for env n where
  opened: "session env n \<lparr>wl_spent = 0, wl_pending = [], wl_sent = []\<rparr>"
| asked: "session env n w \<Longrightarrow> length (wl_pending w) < n \<Longrightarrow> pay_begin env (wl_spent w) args unpaid = Paying a p
    \<Longrightarrow> session env n (w\<lparr>wl_pending := wl_pending w @ [(a, p)], wl_sent := wl_sent w @ [p]\<rparr>)"
| answered: "session env n w \<Longrightarrow> wl_pending w = xs @ (a, p) # ys
    \<Longrightarrow> session env n (w\<lparr>wl_pending := xs @ ys, wl_spent := snd (pay_end env url (wl_spent w) a paid)\<rparr>)"

definition in_flight :: "wallet \<Rightarrow> int" where
  "in_flight w = sum_list (map fst (wl_pending w))"

lemma sum_bounded: "(\<And>x. x \<in> set xs \<Longrightarrow> x \<le> (c :: int)) \<Longrightarrow> sum_list xs \<le> int (length xs) * c"
  by (induction xs) (auto simp: algebra_simps intro!: add_mono)

lemma session_bounded:
  assumes "session env n w" "0 \<le> we_callCap env" "0 \<le> we_sessionCap env" "0 < n"
  shows "wl_spent w + in_flight w \<le> we_sessionCap env + int (n - 1) * we_callCap env
    \<and> (\<forall>q \<in> set (wl_pending w). 0 \<le> fst q \<and> fst q \<le> we_callCap env)"
  using assms(1)
proof (induction rule: session.induct)
  case opened
  then show ?case using assms(2,3) by (simp add: in_flight_def)
next
  case (asked w args unpaid a p)
  note pay = paying_within [OF asked.hyps(3)]
  have "in_flight w \<le> int (length (wl_pending w)) * we_callCap env"
    using sum_bounded [of "map fst (wl_pending w)" "we_callCap env"] asked.IH by (auto simp: in_flight_def)
  also have "\<dots> \<le> int (n - 1) * we_callCap env"
    using asked.hyps(2) assms(2) by (intro mult_right_mono) auto
  finally show ?case using pay asked.IH by (auto simp: in_flight_def)
next
  case (answered w xs a p ys url paid)
  then have q: "0 \<le> a" by auto
  show ?case using answered.IH end_spend [of env url "wl_spent w" a paid] q by (auto simp: in_flight_def answered.hyps(2))
qed

text \<open>One call at a time keeps the session within its cap; calls that overlap do not.\<close>

lemma sequential_within_cap:
  assumes "session env 1 w" "0 \<le> we_callCap env" "0 \<le> we_sessionCap env"
  shows "wl_spent w \<le> we_sessionCap env"
proof -
  note b = session_bounded [OF assms]
  have "0 \<le> in_flight w" unfolding in_flight_def using b by (intro sum_list_nonneg) auto
  with b show ?thesis by simp
qed

fun overlapping :: "wallet_env \<Rightarrow> json \<Rightarrow> fetch_end \<Rightarrow> fetch_end \<Rightarrow> nat \<Rightarrow> int" where
  "overlapping env args unpaid paid n =
     fold (\<lambda>s spent. case s of Paying a p \<Rightarrow> snd (pay_end env [] spent a paid) | _ \<Rightarrow> spent)
       (replicate n (pay_begin env 0 args unpaid)) 0"

lemma batch_overspends:
  assumes "pay_begin env 0 args unpaid = Paying a p" "paid = Fetch_replied r" "rp_code r = 200" "we_settle env r = Inr x"
  shows "overlapping env args unpaid paid n = int n * a"
proof -
  have "fold (\<lambda>s spent. case s of Paying a p \<Rightarrow> snd (pay_end env [] spent a paid) | _ \<Rightarrow> spent) (replicate n (Paying a p)) m = m + int n * a" for m
    using assms(2-4) by (induction n arbitrary: m) (simp_all add: pay_end_def fetchWithTimeout_def algebra_simps)
  then show ?thesis by (simp add: assms(1))
qed

end
