(* ===== verification/WebhookDelivery.thy ===== *)
theory WebhookDelivery
  imports Complex_Main OutboxWorker JsText RequestGate
begin

text \<open>
  Webhook delivery (\<open>src/webhooks/dispatcher.js\<close>): one payload with its retries, the wire record, and
  the dispatcher in its two kinds, direct and over Kafka, with the dead-letter queue behind both.

  The receiver, the broker and the authentication of a delivery are arguments; jitter is a number
  between 0 and 1 for each attempt, waits are real numbers.
\<close>

section \<open>Back-off\<close>

definition BACKOFF_MULTIPLIERS :: "nat list" where
  "BACKOFF_MULTIPLIERS = [1, 5, 15, 60, 360, 1440]"

definition backoff_multiplier :: "nat \<Rightarrow> nat" where
  "backoff_multiplier attempt =
     (let idx = attempt - 1; lastIdx = length BACKOFF_MULTIPLIERS - 1
      in if idx \<le> lastIdx then BACKOFF_MULTIPLIERS ! idx else BACKOFF_MULTIPLIERS ! lastIdx * 2 ^ (idx - lastIdx))"

definition backoffMsForAttempt :: "real \<Rightarrow> nat \<Rightarrow> real \<Rightarrow> real" where
  "backoffMsForAttempt random attempt base =
     base * of_nat (backoff_multiplier attempt) * (3 / 4 + random / 2)"

lemma backoff_bounds:
  assumes "0 \<le> r" "r < 1" "0 \<le> base"
  shows "3 / 4 * (base * of_nat (backoff_multiplier n)) \<le> backoffMsForAttempt r n base"
    "backoffMsForAttempt r n base \<le> 5 / 4 * (base * of_nat (backoff_multiplier n))"
proof -
  let ?x = "base * of_nat (backoff_multiplier n)"
  have x: "0 \<le> ?x" using assms(3) by simp
  have "backoffMsForAttempt r n base = ?x * (3 / 4 + r / 2)" by (simp add: backoffMsForAttempt_def)
  moreover have "?x * (3 / 4) \<le> ?x * (3 / 4 + r / 2)" "?x * (3 / 4 + r / 2) \<le> ?x * (5 / 4)"
    using assms(1,2) by (intro mult_left_mono x; simp)+
  ultimately show "3 / 4 * ?x \<le> backoffMsForAttempt r n base" "backoffMsForAttempt r n base \<le> 5 / 4 * ?x"
    by (simp_all add: mult.commute [of ?x])
qed

section \<open>One delivery\<close>

datatype js_err = Js_err "string option" "js_err option"   \<comment> \<open>an error's code and its cause\<close>

fun err_code :: "js_err \<Rightarrow> string option" where "err_code (Js_err c e) = c"
fun err_cause :: "js_err \<Rightarrow> js_err option" where "err_cause (Js_err c e) = e"

definition certificate_codes :: "string list" where
  "certificate_codes = [''CERT_REQUIRED'', ''UNABLE_TO_VERIFY_LEAF_SIGNATURE'', ''ERR_TLS_CERT_ALTNAME_INVALID'',
     ''DEPTH_ZERO_SELF_SIGNED_CERT'', ''SELF_SIGNED_CERT_IN_CHAIN'', ''CERT_UNTRUSTED'', ''CERT_SIGNATURE_FAILURE'',
     ''UNABLE_TO_GET_ISSUER_CERT_LOCALLY'']"

definition isCertificateRejection :: "js_err option \<Rightarrow> bool" where
  "isCertificateRejection err =
     list_ex (\<lambda>e. case e of Some e \<Rightarrow> (case err_code e of Some c \<Rightarrow> c \<in> set certificate_codes | None \<Rightarrow> False) | None \<Rightarrow> False)
       [err, Option.bind err err_cause, Option.bind (Option.bind err err_cause) err_cause]"

datatype http_attempt = Answered nat | Not_answered js_err

record delivery =
  dv_delivered :: bool
  dv_status :: "nat option"
  dv_certificateRejected :: bool

text \<open>From attempt \<open>n\<close>: the result, the requests made, and the waits between them.\<close>

function deliver_loop ::
  "(nat \<Rightarrow> http_attempt) \<Rightarrow> (nat \<Rightarrow> real) \<Rightarrow> real \<Rightarrow> nat \<Rightarrow> nat \<Rightarrow> nat option \<Rightarrow> delivery \<times> nat \<times> real list" where
  "deliver_loop net random base maxAttempts n lastStatus =
     (if n > maxAttempts then (\<lparr>dv_delivered = False, dv_status = lastStatus, dv_certificateRejected = False\<rparr>, 0, [])
      else
        (let again = (\<lambda>status.
               (case deliver_loop net random base maxAttempts (Suc n) status of
                  (d, reqs, waits) \<Rightarrow>
                    (d, Suc reqs, if n < maxAttempts then backoffMsForAttempt (random n) n base # waits else waits)))
         in case net n of
              Answered s \<Rightarrow>
                if s < 500 then (\<lparr>dv_delivered = True, dv_status = Some s, dv_certificateRejected = False\<rparr>, 1, []) else again (Some s)
            | Not_answered e \<Rightarrow>
                if isCertificateRejection (Some e)
                then (\<lparr>dv_delivered = False, dv_status = None, dv_certificateRejected = True\<rparr>, 1, [])
                else again lastStatus))"
  by pat_completeness auto
termination by (relation "measure (\<lambda>(_, _, _, m, n, _). Suc m - n)") auto

declare deliver_loop.simps [simp del]

definition deliverWebhook :: "(nat \<Rightarrow> http_attempt) \<Rightarrow> (nat \<Rightarrow> real) \<Rightarrow> real \<Rightarrow> nat \<Rightarrow> delivery \<times> nat \<times> real list" where
  "deliverWebhook net random base maxAttempts = deliver_loop net random base maxAttempts 1 None"

definition retried :: "http_attempt \<Rightarrow> bool" where
  "retried a \<longleftrightarrow> (case a of Answered s \<Rightarrow> 500 \<le> s | Not_answered e \<Rightarrow> \<not> isCertificateRejection (Some e))"

lemma deliver_stop:
  assumes "n \<le> m" "\<not> retried (net n)"
  shows "deliver_loop net rnd b m n ls =
    (case net n of Answered s \<Rightarrow> (\<lparr>dv_delivered = True, dv_status = Some s, dv_certificateRejected = False\<rparr>, 1, [])
     | Not_answered e \<Rightarrow> (\<lparr>dv_delivered = False, dv_status = None, dv_certificateRejected = True\<rparr>, 1, []))"
  using assms by (subst deliver_loop.simps) (auto simp: retried_def split: http_attempt.splits)

lemma deliver_again:
  assumes "n \<le> m" "retried (net n)"
  shows "\<exists>s. deliver_loop net rnd b m n ls =
    (case deliver_loop net rnd b m (Suc n) s of
       (d, reqs, waits) \<Rightarrow> (d, Suc reqs, if n < m then backoffMsForAttempt (rnd n) n b # waits else waits))"
  using assms by (subst deliver_loop.simps) (auto simp: retried_def Let_def split: http_attempt.splits)

text \<open>The first attempt that is not retried decides.\<close>

lemma deliver_upto:
  assumes "n \<le> k" "k \<le> m" "\<And>i. n \<le> i \<Longrightarrow> i < k \<Longrightarrow> retried (net i)" "\<not> retried (net k)"
  shows "fst (deliver_loop net rnd b m n ls) = (case net k of
      Answered s \<Rightarrow> \<lparr>dv_delivered = True, dv_status = Some s, dv_certificateRejected = False\<rparr>
    | Not_answered e \<Rightarrow> \<lparr>dv_delivered = False, dv_status = None, dv_certificateRejected = True\<rparr>)
    \<and> fst (snd (deliver_loop net rnd b m n ls)) = Suc (k - n)
    \<and> snd (snd (deliver_loop net rnd b m n ls)) = map (\<lambda>i. backoffMsForAttempt (rnd i) i b) [n..<k]"
  using assms
proof (induction "k - n" arbitrary: n ls)
  case 0
  then show ?case using deliver_stop [of k m net rnd b ls] by (simp split: http_attempt.splits)
next
  case (Suc j)
  then have n: "n \<le> m" "n < k" "retried (net n)" by auto
  obtain s where s: "deliver_loop net rnd b m n ls =
    (case deliver_loop net rnd b m (Suc n) s of
       (d, reqs, waits) \<Rightarrow> (d, Suc reqs, if n < m then backoffMsForAttempt (rnd n) n b # waits else waits))"
    using deliver_again [where net = net, OF n(1,3)] by blast
  have "j = k - Suc n" "Suc n \<le> k" using Suc.hyps(2) n(2) by auto
  note ih = Suc.hyps(1) [OF this(1,2) Suc.prems(2) _ Suc.prems(4), of s]
  have "[n..<k] = n # [Suc n..<k]" using n(2) by (simp add: upt_conv_Cons)
  then show ?case using ih Suc.prems(3) n(2) Suc.prems(2) unfolding s by (auto simp: Suc_diff_Suc split: prod.splits)
qed

lemma deliver_all_retried:
  assumes "n \<le> Suc m" "\<And>i. n \<le> i \<Longrightarrow> i \<le> m \<Longrightarrow> retried (net i)"
  shows "\<not> dv_delivered (fst (deliver_loop net rnd b m n ls)) \<and> fst (snd (deliver_loop net rnd b m n ls)) = Suc m - n
    \<and> snd (snd (deliver_loop net rnd b m n ls)) = map (\<lambda>i. backoffMsForAttempt (rnd i) i b) [n..<m]"
  using assms
proof (induction "Suc m - n" arbitrary: n ls)
  case 0
  then show ?case by (subst (1 2 3) deliver_loop.simps) simp
next
  case (Suc j)
  then have n: "n \<le> m" "retried (net n)" by auto
  obtain s where s: "deliver_loop net rnd b m n ls =
    (case deliver_loop net rnd b m (Suc n) s of
       (d, reqs, waits) \<Rightarrow> (d, Suc reqs, if n < m then backoffMsForAttempt (rnd n) n b # waits else waits))"
    using deliver_again [where net = net, OF n] by blast
  have "j = Suc m - Suc n" using Suc.hyps(2) by simp
  note ih = Suc.hyps(1) [OF this _ Suc.prems(2), of s]
  have "n < m \<Longrightarrow> [n..<m] = n # [Suc n..<m]" by (simp add: upt_conv_Cons)
  then show ?case using ih n(1) unfolding s by (auto simp: Suc_diff_le split: prod.splits)
qed

lemma first_not_retried:
  fixes net :: "nat \<Rightarrow> http_attempt"
  assumes "\<not> (\<forall>i. 1 \<le> i \<and> i \<le> m \<longrightarrow> retried (net i))"
  shows "\<exists>k. 1 \<le> k \<and> k \<le> m \<and> \<not> retried (net k) \<and> (\<forall>i. 1 \<le> i \<and> i < k \<longrightarrow> retried (net i))"
proof -
  define k where "k = (LEAST i. 1 \<le> i \<and> i \<le> m \<and> \<not> retried (net i))"
  have ex: "\<exists>i. 1 \<le> i \<and> i \<le> m \<and> \<not> retried (net i)" using assms by blast
  have "1 \<le> k \<and> k \<le> m \<and> \<not> retried (net k)" unfolding k_def by (rule LeastI_ex [OF ex])
  moreover have "retried (net i)" if "1 \<le> i" "i < k" for i
    using not_less_Least [of i "\<lambda>i. 1 \<le> i \<and> i \<le> m \<and> \<not> retried (net i)"] that calculation unfolding k_def [symmetric] by auto
  ultimately show ?thesis by blast
qed

text \<open>
  A delivery is reported exactly when a receiver answered below 500 before the attempts ran out, after
  failures that are all retried; it makes at most \<open>maxAttempts\<close> requests.
\<close>

lemma delivered_iff:
  "dv_delivered (fst (deliverWebhook net rnd b m)) \<longleftrightarrow>
     (\<exists>k s. 1 \<le> k \<and> k \<le> m \<and> net k = Answered s \<and> s < 500 \<and> (\<forall>i. 1 \<le> i \<and> i < k \<longrightarrow> retried (net i)))"
proof (cases "\<forall>i. 1 \<le> i \<and> i \<le> m \<longrightarrow> retried (net i)")
  case True
  then have "\<not> dv_delivered (fst (deliverWebhook net rnd b m))"
    unfolding deliverWebhook_def using deliver_all_retried [of 1 m net] by simp
  moreover have "\<not> (\<exists>k s. 1 \<le> k \<and> k \<le> m \<and> net k = Answered s \<and> s < 500)"
    using True by (auto simp: retried_def)
  ultimately show ?thesis by blast
next
  case False
  obtain k where k: "1 \<le> k" "k \<le> m" "\<not> retried (net k)" "\<And>i. 1 \<le> i \<Longrightarrow> i < k \<Longrightarrow> retried (net i)"
    using first_not_retried [OF False] by blast
  note d = deliver_upto [where n = 1 and net = net and rnd = rnd and b = b and ls = None, OF k(1,2,4,3)]
  show ?thesis
  proof (cases "net k")
    case (Answered s)
    then have "s < 500" using k(3) by (simp add: retried_def)
    then show ?thesis using d k Answered unfolding deliverWebhook_def by auto
  next
    case (Not_answered e)
    have "\<not> (\<exists>k s. 1 \<le> k \<and> k \<le> m \<and> net k = Answered s \<and> s < 500 \<and> (\<forall>i. 1 \<le> i \<and> i < k \<longrightarrow> retried (net i)))"
    proof (intro notI, elim exE conjE)
      fix j s assume j: "1 \<le> j" "net j = Answered s" "s < 500" "\<forall>i. 1 \<le> i \<and> i < j \<longrightarrow> retried (net i)"
      then have "\<not> retried (net j)" by (simp add: retried_def)
      then have "j = k" using j(1,4) k(1,3,4) by (metis linorder_neqE_nat)
      then show False using j(2) Not_answered by simp
    qed
    then show ?thesis using d Not_answered unfolding deliverWebhook_def by simp
  qed
qed

lemma requests_bounded: "fst (snd (deliverWebhook net rnd b m)) \<le> m" "length (snd (snd (deliverWebhook net rnd b m))) \<le> m - 1"
proof -
  have "fst (snd (deliverWebhook net rnd b m)) \<le> m \<and> length (snd (snd (deliverWebhook net rnd b m))) \<le> m - 1"
  proof (cases "\<forall>i. 1 \<le> i \<and> i \<le> m \<longrightarrow> retried (net i)")
    case True
    then show ?thesis unfolding deliverWebhook_def using deliver_all_retried [of 1 m net rnd b None] by simp
  next
    case False
    obtain k where k: "1 \<le> k" "k \<le> m" "\<not> retried (net k)" "\<And>i. 1 \<le> i \<Longrightarrow> i < k \<Longrightarrow> retried (net i)"
      using first_not_retried [OF False] by blast
    show ?thesis unfolding deliverWebhook_def
      using deliver_upto [where n = 1 and net = net and rnd = rnd and b = b and ls = None, OF k(1,2,4,3)] k(1,2) by simp
  qed
  then show "fst (snd (deliverWebhook net rnd b m)) \<le> m" "length (snd (snd (deliverWebhook net rnd b m))) \<le> m - 1" by simp_all
qed

text \<open>
  Six attempts have five waits between them: the day of the schedule's last step is never waited for,
  and a receiver that is down is given up on after 441 units, a quarter more or less.
\<close>

lemma six_attempts_wait:
  assumes "\<And>i. 0 \<le> rnd i \<and> rnd i < 1" "0 \<le> b"
  shows "sum_list (snd (snd (deliverWebhook net rnd b 6))) \<le> 5 / 4 * (441 * b)"
proof -
  have nn: "0 \<le> backoffMsForAttempt (rnd i) i b" for i
    using backoff_bounds(1) [of "rnd i" b i] assms by (meson mult_nonneg_nonneg of_nat_0_le_iff order_trans zero_le_divide_iff zero_le_numeral)
  have waits: "\<exists>k \<le> 6. snd (snd (deliverWebhook net rnd b 6)) = map (\<lambda>i. backoffMsForAttempt (rnd i) i b) [1..<k]"
  proof (cases "\<forall>i. 1 \<le> i \<and> i \<le> 6 \<longrightarrow> retried (net i)")
    case True
    then show ?thesis unfolding deliverWebhook_def using deliver_all_retried [of 1 6 net rnd b None] by (intro exI [of _ 6]) auto
  next
    case False
    obtain k where k: "1 \<le> k" "k \<le> 6" "\<not> retried (net k)" "\<And>i. 1 \<le> i \<Longrightarrow> i < k \<Longrightarrow> retried (net i)"
      using first_not_retried [OF False] by blast
    then show ?thesis unfolding deliverWebhook_def
      using deliver_upto [where n = 1 and net = net and rnd = rnd and b = b and ls = None, OF k(1,2,4,3)] by blast
  qed
  then obtain k where k: "k \<le> 6" "snd (snd (deliverWebhook net rnd b 6)) = map (\<lambda>i. backoffMsForAttempt (rnd i) i b) [1..<k]" by blast
  have "[1..<6] = [1..<max 1 k] @ [max 1 k..<6]" using upt_add_eq_append [of 1 "max 1 k" "6 - max 1 k"] k(1) by simp
  moreover have "[1..<max 1 k] = [1..<k]" by (cases k) auto
  ultimately have "sum_list (map (\<lambda>i. backoffMsForAttempt (rnd i) i b) [1..<k]) \<le> sum_list (map (\<lambda>i. backoffMsForAttempt (rnd i) i b) [1..<6])"
    using nn by (auto intro!: sum_list_nonneg)
  also have "\<dots> \<le> sum_list (map (\<lambda>i. 5 / 4 * (b * of_nat (backoff_multiplier i))) [1..<6])"
    using backoff_bounds(2) assms by (intro sum_list_mono) auto
  also have "\<dots> = 5 / 4 * (441 * b)"
    by (simp add: upt_rec backoff_multiplier_def BACKOFF_MULTIPLIERS_def)
  finally show ?thesis using k(2) by simp
qed

text \<open>A receiver that is down holds its caller for at least three quarters of that.\<close>

lemma down_receiver_holds:
  assumes "\<And>i. 0 \<le> rnd i \<and> rnd i < 1" "0 \<le> b" "\<And>i. retried (net i)"
  shows "3 / 4 * (441 * b) \<le> sum_list (snd (snd (deliverWebhook net rnd b 6)))"
proof -
  have "snd (snd (deliverWebhook net rnd b 6)) = map (\<lambda>i. backoffMsForAttempt (rnd i) i b) [1..<6]"
    unfolding deliverWebhook_def using deliver_all_retried [of 1 6 net rnd b None] assms(3) by simp
  moreover have "sum_list (map (\<lambda>i. 3 / 4 * (b * of_nat (backoff_multiplier i))) [1..<6])
      \<le> sum_list (map (\<lambda>i. backoffMsForAttempt (rnd i) i b) [1..<6])"
    using backoff_bounds(1) assms by (intro sum_list_mono) auto
  moreover have "sum_list (map (\<lambda>i. 3 / 4 * (b * of_nat (backoff_multiplier i))) [1..<6]) = 3 / 4 * (441 * b)"
    by (simp add: upt_rec backoff_multiplier_def BACKOFF_MULTIPLIERS_def)
  ultimately show ?thesis by simp
qed

section \<open>The wire record\<close>

text \<open>Fields in their order of assignment: an event's own \<open>id\<close> overrides the generated one, also when it is null.\<close>

definition buildRecord :: "string option \<Rightarrow> string \<Rightarrow> string \<Rightarrow> json_obj option \<Rightarrow> json_obj" where
  "buildRecord url uuid now event =
     (let rest = jm_delete ''signingSecret'' (nullish_or event []);
          given = (\<lambda>k. case jm_get rest k of Some JNull \<Rightarrow> None | v \<Rightarrow> v)
      in jm_set ''publishedAt'' (JStr now)
           (jm_set ''url'' (nullish_or (given ''url'') (case url of Some u \<Rightarrow> JStr u | None \<Rightarrow> JNull))
             (fold (\<lambda>p. jm_set (fst p) (snd p)) rest [(''id'', nullish_or (given ''id'') (JStr uuid))])))"

definition record_url :: "json_obj \<Rightarrow> string option" where
  "record_url r = (case jm_get r ''url'' of Some v \<Rightarrow> if js_truthy v then Some (js_text v) else None | None \<Rightarrow> None)"

definition record_text :: "json_obj \<Rightarrow> string \<Rightarrow> string" where
  "record_text r k = (case jm_get r k of Some v \<Rightarrow> js_text v | None \<Rightarrow> ''undefined'')"

lemma fold_set_get:
  "jm_get (fold (\<lambda>p. jm_set (fst p) (snd p)) ps acc) k = (case map_of (rev ps) k of None \<Rightarrow> jm_get acc k | Some v \<Rightarrow> Some v)"
  by (induction ps arbitrary: acc) (auto simp: jm_get_set map_of_append split: option.splits)

lemma rev_get: "jm_wf m \<Longrightarrow> jm_get (rev m) k = jm_get m k"
  using map_of_inject_set [of "rev m" m] by (simp flip: rev_map)

lemma rev_delete_get: "jm_get (rev (jm_delete k ps)) k = None"
proof -
  have "k \<notin> fst ` set (jm_delete k ps)" by simp
  then show ?thesis by (simp add: map_of_eq_None_iff)
qed

text \<open>A signing secret on the event never reaches the wire.\<close>

lemma secret_stripped: "jm_get (buildRecord url uuid now event) ''signingSecret'' = None"
  by (simp add: buildRecord_def Let_def jm_get_set fold_set_get rev_delete_get)

lemma null_id_kept:
  assumes "jm_wf e" "jm_get e ''id'' = Some JNull"
  shows "jm_get (buildRecord url uuid now (Some e)) ''id'' = Some JNull"
proof -
  have "jm_get (rev (jm_delete ''signingSecret'' e)) ''id'' = jm_get (jm_delete ''signingSecret'' e) ''id''"
    using assms(1) by (simp add: rev_get)
  then show ?thesis
    by (simp add: buildRecord_def Let_def jm_get_set fold_set_get jm_get_delete assms(2))
qed

section \<open>The dispatcher\<close>

record auth_result =
  ar_agent :: "string option"
  ar_headers :: "(string \<times> string) list"

record webhook_env =
  wb_url :: "string option"
  wb_base :: real
  wb_random :: "nat \<Rightarrow> real"
  wb_authenticate :: "json_obj \<Rightarrow> string \<Rightarrow> string + auth_result"
  wb_net :: "string \<Rightarrow> string \<Rightarrow> auth_result \<Rightarrow> nat \<Rightarrow> http_attempt"
  wb_uuid :: string
  wb_now :: string
  wb_time :: int
  wb_insert_fails :: "json_obj \<Rightarrow> bool"
  wb_send :: "string \<Rightarrow> json_obj \<Rightarrow> string option"   \<comment> \<open>the broker's error for a topic and record\<close>
  wb_topic :: string
  wb_dlqTopic :: "string option"

record webhook_state =
  wo_dlq :: "dlq option"
  wo_topics :: "(string \<times> json_obj) list"

text \<open>\<open>deliver\<close>: the payload that is authenticated is the one sent.\<close>

definition deliver :: "webhook_env \<Rightarrow> json_obj \<Rightarrow> nat \<Rightarrow> string + delivery" where
  "deliver env rec maxAttempts =
     (let payload = json_stringify (JObj rec) in
      case wb_authenticate env rec payload of
        Inl e \<Rightarrow> Inl e
      | Inr auth \<Rightarrow>
          Inr (fst (deliverWebhook (wb_net env (record_text rec ''url'') payload auth) (wb_random env) (wb_base env) maxAttempts)))"

definition recordDeadLetter :: "webhook_env \<Rightarrow> string \<Rightarrow> json_obj \<Rightarrow> string \<Rightarrow> nat \<Rightarrow> webhook_state \<Rightarrow> webhook_state" where
  "recordDeadLetter env source rec error attempts st =
     (case wo_dlq st of
        None \<Rightarrow> st
      | Some q \<Rightarrow>
          if wb_insert_fails env rec then st
          else st\<lparr>wo_dlq := Some (snd (dl_insert \<lparr>e_messageId = record_text rec ''id'', e_source = source,
                 e_type = map_option js_text (jm_get rec ''type''), e_payload = rec, e_error = Some error,
                 e_deliveryAttempts = attempts\<rparr> (wb_time env) q))\<rparr>)"

text \<open>The error of the promise nobody awaits, and the state after it.\<close>

definition direct_enqueue :: "webhook_env \<Rightarrow> json_obj option \<Rightarrow> webhook_state \<Rightarrow> string option \<times> webhook_state" where
  "direct_enqueue env event st =
     (let rec = buildRecord (wb_url env) (wb_uuid env) (wb_now env) event in
      case record_url rec of
        None \<Rightarrow> (None, st)
      | Some u \<Rightarrow>
          (case deliver env rec 6 of
             Inl e \<Rightarrow> (Some e, st)
           | Inr d \<Rightarrow>
               (None, if dv_delivered d then st
                      else recordDeadLetter env ''direct'' rec (''webhook delivery to '' @ u @ '' failed after 6 attempts'') 6 st)))"

definition status_text :: "nat option \<Rightarrow> string" where
  "status_text s = (case s of Some n \<Rightarrow> nat_str n | None \<Rightarrow> ''transport error'')"

definition direct_publish :: "webhook_env \<Rightarrow> json_obj option \<Rightarrow> string + json_obj" where
  "direct_publish env event =
     (let rec = buildRecord (wb_url env) (wb_uuid env) (wb_now env) event in
      case record_url rec of
        None \<Rightarrow> Inl ''webhook delivery attempted without a receiver url''
      | Some u \<Rightarrow>
          (case deliver env rec 6 of
             Inl e \<Rightarrow> Inl e
           | Inr d \<Rightarrow>
               if dv_delivered d then Inr rec
               else Inl (''webhook delivery to '' @ u @ '' failed after retries (last status '' @ status_text (dv_status d) @ '')'')))"

definition topic_send :: "webhook_env \<Rightarrow> string \<Rightarrow> json_obj \<Rightarrow> webhook_state \<Rightarrow> string option \<times> webhook_state" where
  "topic_send env topic rec st =
     (case wb_send env topic rec of
        Some e \<Rightarrow> (Some e, st) | None \<Rightarrow> (None, st\<lparr>wo_topics := wo_topics st @ [(topic, rec)]\<rparr>))"

definition kafka_enqueue :: "webhook_env \<Rightarrow> json_obj option \<Rightarrow> webhook_state \<Rightarrow> webhook_state" where
  "kafka_enqueue env event st =
     (let rec = buildRecord (wb_url env) (wb_uuid env) (wb_now env) event in
      case topic_send env (wb_topic env) rec st of
        (None, st') \<Rightarrow> st'
      | (Some e, st') \<Rightarrow>
          if record_url rec = None then st'
          else (let sent = (case deliver env rec 6 of Inl _ \<Rightarrow> False | Inr d \<Rightarrow> dv_delivered d) in
                if sent then st'
                else recordDeadLetter env ''direct'' rec
                       (''broker publish failed ('' @ e @ '') and direct fallback delivery also failed'') 6 st'))"

definition kafka_publish :: "webhook_env \<Rightarrow> json_obj option \<Rightarrow> webhook_state \<Rightarrow> (string + json_obj) \<times> webhook_state" where
  "kafka_publish env event st =
     (let rec = buildRecord (wb_url env) (wb_uuid env) (wb_now env) event in
      case topic_send env (wb_topic env) rec st of
        (None, st') \<Rightarrow> (Inr rec, st') | (Some e, st') \<Rightarrow> (Inl e, st'))"

text \<open>\<open>eachMessage\<close>, of a message's text as JSON (\<open>None\<close> when it is none): an error goes to the consumer.\<close>

definition consume_record :: "webhook_env \<Rightarrow> json_obj \<Rightarrow> webhook_state \<Rightarrow> string option \<times> webhook_state" where
  "consume_record env rec st =
     (case record_url rec of
        None \<Rightarrow> (None, st)
      | Some u \<Rightarrow>
          (case deliver env rec 6 of
             Inl e \<Rightarrow> (Some e, st)
           | Inr d \<Rightarrow>
               if dv_delivered d then (None, st)
               else (let st1 = (case wb_dlqTopic env of None \<Rightarrow> st | Some t \<Rightarrow> snd (topic_send env t rec st)) in
                     (None, recordDeadLetter env ''kafka-consumer'' rec
                        (''webhook delivery to '' @ u @ '' failed after 6 attempts (last status '' @ status_text (dv_status d) @ '')'') 6 st1))))"

definition eachMessage :: "webhook_env \<Rightarrow> json option \<Rightarrow> webhook_state \<Rightarrow> string option \<times> webhook_state" where
  "eachMessage env message st =
     (case message of
        None \<Rightarrow> (None, st)
      | Some JNull \<Rightarrow> (Some ''Cannot read properties of null'', st)
      | Some (JObj rec) \<Rightarrow> consume_record env rec st
      | Some _ \<Rightarrow> (None, st))"

section \<open>What becomes of an event\<close>

lemma deliver_delivered:
  assumes "deliver env rec m = Inr d" "dv_delivered d"
  obtains auth k s where "wb_authenticate env rec (json_stringify (JObj rec)) = Inr auth" "1 \<le> k" "k \<le> m"
    "wb_net env (record_text rec ''url'') (json_stringify (JObj rec)) auth k = Answered s" "s < 500"
proof -
  obtain auth where a: "wb_authenticate env rec (json_stringify (JObj rec)) = Inr auth"
    "d = fst (deliverWebhook (wb_net env (record_text rec ''url'') (json_stringify (JObj rec)) auth) (wb_random env) (wb_base env) m)"
    using assms(1) by (auto simp: deliver_def Let_def split: sum.splits)
  then show thesis using assms(2) that [OF a(1)] unfolding a(2) delivered_iff by blast
qed

definition answered_below_500 :: "webhook_env \<Rightarrow> json_obj \<Rightarrow> bool" where
  "answered_below_500 env rec \<longleftrightarrow>
     (\<exists>auth k s. wb_authenticate env rec (json_stringify (JObj rec)) = Inr auth \<and> 1 \<le> k \<and> k \<le> 6
        \<and> wb_net env (record_text rec ''url'') (json_stringify (JObj rec)) auth k = Answered s \<and> s < 500)"

text \<open>Direct publishing succeeds only when the receiver answered the authenticated bytes of that record.\<close>

lemma direct_publish_answered:
  assumes "direct_publish env event = Inr rec"
  shows "answered_below_500 env rec \<and> jm_get rec ''signingSecret'' = None \<and> record_url rec \<noteq> None"
proof -
  have r: "rec = buildRecord (wb_url env) (wb_uuid env) (wb_now env) event" "record_url rec \<noteq> None"
    and "\<exists>d. deliver env rec 6 = Inr d \<and> dv_delivered d"
    using assms by (auto simp: direct_publish_def Let_def split: option.splits sum.splits if_splits)
  then obtain d where "deliver env rec 6 = Inr d" "dv_delivered d" by blast
  then have "answered_below_500 env rec"
    by (rule deliver_delivered) (auto simp: answered_below_500_def)
  with r show ?thesis using secret_stripped by simp
qed

lemma recordDeadLetter_adds:
  assumes "wo_dlq st = Some q" "\<not> wb_insert_fails env rec"
  shows "\<exists>r. wo_dlq (recordDeadLetter env src rec e n st) = Some (q\<lparr>dl_rows := dl_rows q @ [r], dl_next_id := dl_next_id q + 1\<rparr>)
    \<and> dl_payload r = rec \<and> dl_status r = Dl_pending \<and> dl_source r = src"
  using assms by (cases q) (auto simp: recordDeadLetter_def dl_insert_def)

text \<open>
  A message with a receiver that the consumer takes without an error was answered, or is in the
  dead-letter queue with the record as its payload, where there is a queue that takes it.
\<close>

lemma consumed_or_dead:
  assumes "consume_record env rec st = (None, st')" "record_url rec \<noteq> None" "wo_dlq st = Some q" "\<not> wb_insert_fails env rec"
  shows "answered_below_500 env rec \<and> wo_dlq st' = Some q
    \<or> (\<exists>r. wo_dlq st' = Some (q\<lparr>dl_rows := dl_rows q @ [r], dl_next_id := dl_next_id q + 1\<rparr>) \<and> dl_payload r = rec
         \<and> dl_status r = Dl_pending \<and> dl_source r = ''kafka-consumer'')"
proof -
  obtain d where d: "deliver env rec 6 = Inr d" using assms(1,2) by (auto simp: consume_record_def split: option.splits sum.splits)
  show ?thesis
  proof (cases "dv_delivered d")
    case True
    then have "answered_below_500 env rec"
      using d by (elim deliver_delivered [rotated]) (auto simp: answered_below_500_def)
    moreover have "st' = st" using assms(1,2) d True by (auto simp: consume_record_def)
    ultimately show ?thesis using assms(3) by simp
  next
    case False
    have "wo_dlq (snd (topic_send env t rec st)) = Some q" for t
      using assms(3) by (simp add: topic_send_def split: option.splits)
    then have "\<exists>st1 e. wo_dlq st1 = Some q \<and> st' = recordDeadLetter env ''kafka-consumer'' rec e 6 st1"
      using assms(1-3) d False by (auto simp: consume_record_def Let_def simp del: append_Cons split: option.splits)
    then show ?thesis using recordDeadLetter_adds [OF _ assms(4)] by blast
  qed
qed

text \<open>
  An event without a receiver is acknowledged by the broker and dropped by the consumer: the outbox
  counts it as published, where direct publishing is an error.
\<close>

lemma unaddressed_dropped:
  assumes "record_url (buildRecord (wb_url env) (wb_uuid env) (wb_now env) event) = None"
    "wb_send env (wb_topic env) (buildRecord (wb_url env) (wb_uuid env) (wb_now env) event) = None"
  shows "\<exists>rec. fst (kafka_publish env event st) = Inr rec \<and> eachMessage env (Some (JObj rec)) st = (None, st)"
    "direct_publish env event = Inl ''webhook delivery attempted without a receiver url''"
  using assms by (simp_all add: kafka_publish_def topic_send_def Let_def eachMessage_def consume_record_def direct_publish_def)

text \<open>A message that is the JSON text null fails each time it is consumed.\<close>

lemma null_message_poisons: "fst (eachMessage env (Some JNull) st) \<noteq> None"
  by (simp add: eachMessage_def)

section \<open>Behind the outbox\<close>

text \<open>The outbox worker with direct publishing.\<close>

definition outbox_over_webhooks :: "webhook_env \<Rightarrow> (nat \<Rightarrow> string option) \<Rightarrow> (nat \<Rightarrow> bool) \<Rightarrow> (nat \<Rightarrow> bool) \<Rightarrow> ob_env" where
  "outbox_over_webhooks env mark_p mark_f ins =
     \<lparr>pub_error = (\<lambda>_ rec. case direct_publish env (Some rec) of Inl e \<Rightarrow> Some e | Inr _ \<Rightarrow> None),
      mark_published_error = mark_p, mark_failed_fails = mark_f, dlq_insert_fails = ins\<rparr>"

text \<open>A row is counted as published only when its receiver answered.\<close>

lemma outbox_published_answered:
  assumes "fst (publish_row (outbox_over_webhooks env mp mf ins) maxAttempts now pa row st)"
  shows "\<exists>rec. direct_publish env (Some (publish_record pa row)) = Inr rec \<and> answered_below_500 env rec"
proof -
  obtain rec where "direct_publish env (Some (publish_record pa row)) = Inr rec"
    using assms by (auto simp: publish_row_def outbox_over_webhooks_def Let_def split: option.splits sum.splits)
  then show ?thesis using direct_publish_answered by blast
qed

section \<open>Starting and stopping the consumer\<close>

record kafka =
  kf_running :: bool
  kf_connected :: bool
  kf_consuming :: bool
  kf_agents_closed :: nat

definition kafka_start :: "bool \<Rightarrow> bool \<Rightarrow> bool \<Rightarrow> kafka \<Rightarrow> bool \<times> kafka" where
  "kafka_start connect_ok subscribe_ok run_ok k =
     (if kf_running k then (True, k)
      else if \<not> connect_ok then (False, k)
      else (let k1 = k\<lparr>kf_connected := True\<rparr> in
            if \<not> subscribe_ok \<or> \<not> run_ok then (False, k1) else (True, k1\<lparr>kf_consuming := True, kf_running := True\<rparr>)))"

definition kafka_stop :: "bool \<Rightarrow> bool \<Rightarrow> kafka \<Rightarrow> bool \<times> kafka" where
  "kafka_stop stop_ok disconnect_ok k =
     (if \<not> kf_running k
      then (True, k\<lparr>kf_connected := (if disconnect_ok then False else kf_connected k), kf_agents_closed := kf_agents_closed k + 1\<rparr>)
      else if \<not> stop_ok then (False, k)
      else (let k1 = k\<lparr>kf_consuming := False\<rparr> in
            if \<not> disconnect_ok then (False, k1)
            else (True, k1\<lparr>kf_connected := False, kf_agents_closed := kf_agents_closed k + 1, kf_running := False\<rparr>)))"

text \<open>It consumes only while it counts as running; a stop that fails half-way can be tried again.\<close>

definition kafka_ok :: "kafka \<Rightarrow> bool" where
  "kafka_ok k \<longleftrightarrow> (kf_consuming k \<longrightarrow> kf_running k) \<and> (kf_running k \<longrightarrow> kf_connected k)"

lemma kafka_ok_steps:
  assumes "kafka_ok k"
  shows "kafka_ok (snd (kafka_start c s r k))" "kafka_ok (snd (kafka_stop st d k))"
    "kafka_stop st d k = (True, k') \<Longrightarrow> \<not> kf_consuming k' \<and> \<not> kf_running k'"
  using assms by (auto simp: kafka_ok_def kafka_start_def kafka_stop_def Let_def split: if_splits)

end
