(* ===== verification/Readiness.thy ===== *)
theory Readiness
  imports JsText
begin

text \<open>
  Readiness (\<open>src/readiness.js\<close>): the checks per network and of the infrastructure, the cached snapshot, and
  shutting down. The answers of the RPC nodes and of the other probes are arguments.
\<close>

section \<open>Checks\<close>

record check_state =
  ck_ok :: bool
  ck_error :: "string option"
  ck_balance :: "int option"

definition passing :: check_state where
  "passing = \<lparr>ck_ok = True, ck_error = None, ck_balance = None\<rparr>"

definition failing :: "string \<Rightarrow> check_state" where
  "failing e = \<lparr>ck_ok = False, ck_error = Some e, ck_balance = None\<rparr>"

text \<open>\<open>getHealth\<close>: an error, or the status it names.\<close>

definition checkRpc :: "string + string option \<Rightarrow> check_state" where
  "checkRpc r =
     (case r of
        Inl e \<Rightarrow> failing e
      | Inr s \<Rightarrow>
          if s = Some ''healthy'' then passing
          else failing (''rpc health '' @ [CHR 0x27] @ nullish_or s ''undefined'' @ [CHR 0x27] @ '' is not '' @ [CHR 0x27] @ ''healthy'' @ [CHR 0x27]))"

text \<open>\<open>getLedgerEntries\<close>: an error, no entry, or the balance of the account.\<close>

definition checkSignerAddress :: "int \<Rightarrow> string \<Rightarrow> string + int option \<Rightarrow> check_state" where
  "checkSignerAddress floor address r =
     (case r of
        Inl e \<Rightarrow> failing e
      | Inr None \<Rightarrow> failing (''signer account '' @ address @ '' does not exist (unfunded)'')
      | Inr (Some balance) \<Rightarrow>
          if balance < floor
          then (failing (''signer '' @ address @ '' balance '' @ int_str balance @ '' is below floor '' @ int_str floor))\<lparr>ck_balance := Some balance\<rparr>
          else passing\<lparr>ck_balance := Some balance\<rparr>)"

record target =
  tg_network :: string
  tg_addresses :: "string list"
  tg_feeBump :: "string option"

definition target_accounts :: "target \<Rightarrow> string list" where
  "target_accounts t = tg_addresses t @ (case tg_feeBump t of None \<Rightarrow> [] | Some a \<Rightarrow> [a])"

definition checkSigners :: "int \<Rightarrow> (string \<Rightarrow> string + int option) \<Rightarrow> target \<Rightarrow> check_state" where
  "checkSigners floor ledger t =
     (let results = map (\<lambda>a. checkSignerAddress floor a (ledger a)) (target_accounts t);
          first = (case results of r # _ \<Rightarrow> ck_balance r | [] \<Rightarrow> None);
          bad = filter (\<lambda>r. \<not> ck_ok r) results
      in if bad \<noteq> []
         then (failing (js_join ''; '' (map (\<lambda>r. nullish_or (ck_error r) []) bad)))\<lparr>ck_balance := first\<rparr>
         else passing\<lparr>ck_balance := first\<rparr>)"

record network_state =
  nw_network :: string
  nw_ready :: bool
  nw_rpc :: check_state
  nw_signer :: check_state

definition checkNetwork :: "int \<Rightarrow> (string \<Rightarrow> string + string option) \<Rightarrow> (string \<Rightarrow> string \<Rightarrow> string + int option) \<Rightarrow> target \<Rightarrow> network_state" where
  "checkNetwork floor health ledger t =
     (let rpc = checkRpc (health (tg_network t)); signer = checkSigners floor (ledger (tg_network t)) t
      in \<lparr>nw_network = tg_network t, nw_ready = ck_ok rpc \<and> ck_ok signer, nw_rpc = rpc, nw_signer = signer\<rparr>)"

text \<open>A probe that is not configured passes; one that answers without \<open>ok\<close> passes too.\<close>

definition probe :: "(string + bool option) option \<Rightarrow> check_state" where
  "probe p =
     (case p of
        None \<Rightarrow> passing
      | Some (Inl e) \<Rightarrow> failing e
      | Some (Inr b) \<Rightarrow> passing\<lparr>ck_ok := nullish_or b True\<rparr>)"

section \<open>The checker\<close>

record ready_snapshot =
  sn_ok :: bool
  sn_status :: string
  sn_networks :: "(string, network_state) jsmap"
  sn_catalog :: "bool option"
  sn_database :: check_state
  sn_redis :: check_state
  sn_limiter :: check_state

record readiness_env =
  rd_targets :: "target list"
  rd_floor :: int
  rd_ttl :: int
  rd_health :: "string \<Rightarrow> string + string option"
  rd_ledger :: "string \<Rightarrow> string \<Rightarrow> string + int option"
  rd_catalogHealth :: "(string + bool option) option"
  rd_db :: "(string + bool option) option"
  rd_redisProbe :: "(string + bool option) option"
  rd_limiterProbe :: "(string + bool option) option"

record readiness =
  ry_cache :: "(int \<times> ready_snapshot) option"
  ry_shuttingDown :: bool

definition take_snapshot :: "readiness_env \<Rightarrow> ready_snapshot" where
  "take_snapshot env =
     (let networks = fold (\<lambda>t. jm_set (tg_network t) (checkNetwork (rd_floor env) (rd_health env) (rd_ledger env) t)) (rd_targets env) [];
          networkReady = list_all nw_ready (jm_values networks);
          db = probe (rd_db env); redis = probe (rd_redisProbe env); limiter = probe (rd_limiterProbe env);
          ready = (networkReady \<and> ck_ok db \<and> ck_ok redis \<and> ck_ok limiter)
      in \<lparr>sn_ok = ready, sn_status = (if ready then ''ready'' else ''not_ready''), sn_networks = networks,
          sn_catalog = map_option (\<lambda>h. case h of Inl _ \<Rightarrow> False | Inr b \<Rightarrow> b \<noteq> Some False) (rd_catalogHealth env),
          sn_database = db, sn_redis = redis, sn_limiter = limiter\<rparr>)"

text \<open>\<open>check\<close>, at the time it looks at the cache and the time it stores: \<open>None\<close> while shutting down.\<close>

definition check_ready :: "readiness_env \<Rightarrow> int \<Rightarrow> int \<Rightarrow> readiness \<Rightarrow> ready_snapshot option \<times> readiness" where
  "check_ready env now done_at r =
     (if ry_shuttingDown r then (None, r)
      else (case (case ry_cache r of Some (t, s) \<Rightarrow> if now - t < rd_ttl env then Some s else None | None \<Rightarrow> None) of
              Some s \<Rightarrow> (Some s, r)
            | None \<Rightarrow> (Some (take_snapshot env), r\<lparr>ry_cache := Some (done_at, take_snapshot env)\<rparr>)))"

definition invalidate_ready :: "readiness \<Rightarrow> readiness" where
  "invalidate_ready r = r\<lparr>ry_cache := None\<rparr>"

definition setShuttingDown :: "readiness \<Rightarrow> readiness" where
  "setShuttingDown r = r\<lparr>ry_shuttingDown := True, ry_cache := None\<rparr>"

section \<open>What ready means\<close>

definition funded :: "readiness_env \<Rightarrow> string \<Rightarrow> string \<Rightarrow> bool" where
  "funded env network address \<longleftrightarrow> (\<exists>b. rd_ledger env network address = Inr (Some b) \<and> rd_floor env \<le> b)"

definition probe_passes :: "(string + bool option) option \<Rightarrow> bool" where
  "probe_passes p \<longleftrightarrow> p = None \<or> (\<exists>b. p = Some (Inr b) \<and> b \<noteq> Some False)"

lemma signer_ok: "ck_ok (checkSignerAddress f a r) \<longleftrightarrow> (\<exists>b. r = Inr (Some b) \<and> f \<le> b)"
  by (auto simp: checkSignerAddress_def failing_def passing_def split: sum.splits option.splits)

lemma signers_ok: "ck_ok (checkSigners f l t) \<longleftrightarrow> (\<forall>a \<in> set (target_accounts t). \<exists>b. l a = Inr (Some b) \<and> f \<le> b)"
  by (auto simp: checkSigners_def Let_def failing_def passing_def filter_empty_conv signer_ok split: if_splits)

lemma probe_ok: "ck_ok (probe p) \<longleftrightarrow> probe_passes p"
  by (auto simp: probe_def probe_passes_def failing_def passing_def nullish_or_def split: option.splits sum.splits)

lemma fold_networks:
  assumes "distinct (map tg_network ts)"
  shows "jm_values (fold (\<lambda>t. jm_set (tg_network t) (f t)) ts []) = map f ts"
proof -
  have "fold (\<lambda>t. jm_set (tg_network t) (f t)) ts acc = acc @ map (\<lambda>t. (tg_network t, f t)) ts"
    if "distinct (map tg_network ts)" "tg_network ` set ts \<inter> fst ` set acc = {}" for ts acc
    using that
  proof (induction ts arbitrary: acc)
    case (Cons t ts)
    then have "jm_get acc (tg_network t) = None" by (auto simp: map_of_eq_None_iff)
    then have "jm_set (tg_network t) (f t) acc = acc @ [(tg_network t, f t)]" by (rule jm_set_new)
    with Cons show ?case by auto
  qed simp
  then show ?thesis using assms by (simp add: jm_values_def comp_def)
qed

text \<open>
  A fresh answer is ready exactly when every network's node is healthy and all its accounts are funded,
  and no probe of the infrastructure fails. The catalog does not matter.
\<close>

lemma ready_iff:
  assumes "distinct (map tg_network (rd_targets env))"
  shows "sn_ok (take_snapshot env) \<longleftrightarrow>
    (\<forall>t \<in> set (rd_targets env). rd_health env (tg_network t) = Inr (Some ''healthy'')
        \<and> (\<forall>a \<in> set (target_accounts t). funded env (tg_network t) a))
    \<and> probe_passes (rd_db env) \<and> probe_passes (rd_redisProbe env) \<and> probe_passes (rd_limiterProbe env)"
proof -
  have "nw_ready (checkNetwork (rd_floor env) (rd_health env) (rd_ledger env) t) \<longleftrightarrow>
      rd_health env (tg_network t) = Inr (Some ''healthy'') \<and> (\<forall>a \<in> set (target_accounts t). funded env (tg_network t) a)" for t
    by (auto simp: checkNetwork_def Let_def checkRpc_def failing_def passing_def signers_ok funded_def split: sum.splits)
  then show ?thesis
    by (simp add: take_snapshot_def Let_def fold_networks [OF assms] list_all_iff probe_ok)
qed

text \<open>An answer is at most the time to live old, and once shutting down there is none.\<close>

datatype ready_event = Check readiness_env int | Invalidate | Shut_down

fun ready_step :: "ready_event \<Rightarrow> readiness \<Rightarrow> readiness" where
  "ready_step (Check env now) r = snd (check_ready env now now r)"
| "ready_step Invalidate r = invalidate_ready r"
| "ready_step Shut_down r = setShuttingDown r"

lemma shut_down_for_good: "ry_shuttingDown r \<Longrightarrow> fst (check_ready env t u (fold ready_step es r)) = None"
proof -
  have "ry_shuttingDown r \<Longrightarrow> ry_shuttingDown (ready_step e r)" for e r
    by (cases e) (simp_all add: check_ready_def invalidate_ready_def setShuttingDown_def)
  then have "ry_shuttingDown r \<Longrightarrow> ry_shuttingDown (fold ready_step es r)" for r
    by (induction es arbitrary: r) simp_all
  then show "ry_shuttingDown r \<Longrightarrow> ?thesis" by (simp add: check_ready_def)
qed

definition snapshots_of :: "ready_event list \<Rightarrow> (int \<times> ready_snapshot) set" where
  "snapshots_of es = {(now, take_snapshot env) | now env. Check env now \<in> set es}"

lemma cache_from_checks:
  assumes "\<forall>p. ry_cache r = Some p \<longrightarrow> p \<in> S" "ry_cache (fold ready_step es r) = Some p"
  shows "p \<in> S \<union> snapshots_of es"
  using assms
proof (induction es arbitrary: r S)
  case (Cons e es)
  have "\<forall>p. ry_cache (ready_step e r) = Some p \<longrightarrow> p \<in> S \<union> snapshots_of [e]"
    using Cons.prems(1)
    by (cases e) (auto simp: check_ready_def invalidate_ready_def setShuttingDown_def snapshots_of_def split: option.splits if_splits)
  from Cons.IH [OF this] Cons.prems(2) have "p \<in> S \<union> snapshots_of [e] \<union> snapshots_of es" by simp
  then show ?case by (auto simp: snapshots_of_def)
qed (cases p, auto simp: snapshots_of_def)

lemma answer_recent:
  assumes "fst (check_ready env now u (fold ready_step es \<lparr>ry_cache = None, ry_shuttingDown = False\<rparr>)) = Some s"
  shows "s = take_snapshot env \<or> (\<exists>t. (t, s) \<in> snapshots_of es \<and> now - t < rd_ttl env)"
  using assms cache_from_checks [where r = "\<lparr>ry_cache = None, ry_shuttingDown = False\<rparr>" and S = "{}" and es = es]
  by (auto simp: check_ready_def split: if_splits option.splits)

end
