(* ===== verification/Cors.thy ===== *)
theory Cors
  imports JsText
begin

text \<open>
  Cross-origin policies (\<open>src/cors.js\<close>) and the pseudonyms of client addresses (\<open>src/ip.js\<close>).

  A compiled pattern is the predicate of the texts it matches in full; compiling, the URL parser and the
  digests are arguments.
\<close>

section \<open>Origins\<close>

definition EXPOSED_HEADERS :: string where
  "EXPOSED_HEADERS = js_join '', '' [''RateLimit-Limit'', ''RateLimit-Remaining'', ''RateLimit-Reset'', ''Retry-After'', ''EXTENSION-RESPONSES'']"

text \<open>The first entry that does not compile stops the start-up.\<close>

fun compileOriginPatterns :: "(string \<Rightarrow> string + (string \<Rightarrow> bool)) \<Rightarrow> string list \<Rightarrow> string + (string \<Rightarrow> bool) list" where
  "compileOriginPatterns compile [] = Inr []"
| "compileOriginPatterns compile (e # es) =
     (case compile e of
        Inl m \<Rightarrow> Inl (''CORS_ALLOWED_ORIGINS entry '' @ [CHR 0x22] @ e @ [CHR 0x22] @ '' is not a valid regular expression: '' @ m)
      | Inr p \<Rightarrow> (case compileOriginPatterns compile es of Inl m \<Rightarrow> Inl m | Inr ps \<Rightarrow> Inr (p # ps)))"

fun suffixes :: "'a list \<Rightarrow> 'a list list" where
  "suffixes [] = []"
| "suffixes (x # xs) = (x # xs) # suffixes xs"

definition originMatches :: "(string \<Rightarrow> string option) \<Rightarrow> (string \<Rightarrow> bool) list \<Rightarrow> string option \<Rightarrow> bool" where
  "originMatches hostname patterns origin =
     (case origin of
        None \<Rightarrow> False
      | Some o' \<Rightarrow>
          o' \<noteq> [] \<and>
          (list_ex (\<lambda>p. p o') patterns \<or>
           (case hostname o' of
              None \<Rightarrow> False
            | Some h \<Rightarrow> list_ex (\<lambda>s. list_ex (\<lambda>p. p (js_join ''.'' s)) patterns) (suffixes (js_split CHR ''.'' h)))))"

datatype cors_policy = Public | Authenticated

record cors_config =
  cf_entries :: "string list"
  cf_patterns :: "(string \<Rightarrow> bool) list"
  cf_hostname :: "string \<Rightarrow> string option"

definition cors_granted :: "cors_config \<Rightarrow> cors_policy \<Rightarrow> string option \<Rightarrow> string option" where
  "cors_granted cfg policy origin =
     (if originMatches (cf_hostname cfg) (cf_patterns cfg) origin then origin
      else if policy = Public \<and> cf_entries cfg = [] then Some ''*'' else None)"

definition cors_headers :: "cors_config \<Rightarrow> cors_policy \<Rightarrow> string option \<Rightarrow> (string \<times> string) list" where
  "cors_headers cfg policy origin =
     [(''Access-Control-Expose-Headers'', EXPOSED_HEADERS), (''Vary'', ''Origin'')] @
     (case cors_granted cfg policy origin of
        None \<Rightarrow> []
      | Some g \<Rightarrow> (''Access-Control-Allow-Origin'', g) # (if g \<noteq> ''*'' then [(''Access-Control-Allow-Credentials'', ''true'')] else []))"

definition preflight_headers :: "cors_config \<Rightarrow> cors_policy \<Rightarrow> string option \<Rightarrow> string option \<Rightarrow> (string \<times> string) list" where
  "preflight_headers cfg policy methods origin =
     cors_headers cfg policy origin @
     [(''Access-Control-Allow-Methods'',
       case methods of Some m \<Rightarrow> m | None \<Rightarrow> if policy = Public then ''GET, OPTIONS'' else ''POST, OPTIONS''),
      (''Access-Control-Allow-Headers'', ''Authorization, Content-Type, X-402-Payment''), (''Access-Control-Max-Age'', ''86400'')]"

text \<open>
  Credentials are allowed only to an origin that matches the allowlist, which is then echoed; an
  authenticated route grants nothing else, and the wildcard never comes with credentials.
\<close>

lemma credentials_allowlisted:
  assumes "(''Access-Control-Allow-Credentials'', v) \<in> set (cors_headers cfg policy origin)"
  shows "originMatches (cf_hostname cfg) (cf_patterns cfg) origin
    \<and> (\<exists>o'. origin = Some o' \<and> (''Access-Control-Allow-Origin'', o') \<in> set (cors_headers cfg policy origin))"
  using assms by (auto simp: cors_headers_def cors_granted_def split: option.splits if_splits)

lemma authenticated_grant:
  assumes "(''Access-Control-Allow-Origin'', g) \<in> set (cors_headers cfg Authenticated origin)"
  shows "origin = Some g \<and> originMatches (cf_hostname cfg) (cf_patterns cfg) origin"
  using assms by (auto simp: cors_headers_def cors_granted_def split: option.splits if_splits)

text \<open>A match comes from the whole origin or from a suffix of its host name cut at a dot.\<close>

lemma join_dots: "js_join ''.'' (js_split CHR ''.'' h) = h"
proof (induction h)
  case (Cons c h)
  obtain w ws where w: "js_split CHR ''.'' h = w # ws" by (cases "js_split CHR ''.'' h") auto
  show ?case
  proof (cases "c = CHR ''.''")
    case True
    then show ?thesis using Cons w by (cases ws) auto
  next
    case False
    then show ?thesis using Cons w by (cases ws) auto
  qed
qed simp

lemma join_append: "xs \<noteq> [] \<Longrightarrow> ys \<noteq> [] \<Longrightarrow> js_join sep (xs @ ys) = js_join sep xs @ sep @ js_join sep ys"
proof (induction xs)
  case (Cons x xs)
  then show ?case by (cases xs; cases ys) simp_all
qed simp

lemma in_suffixes: "s \<in> set (suffixes xs) \<Longrightarrow> s \<noteq> [] \<and> (\<exists>p. xs = p @ s)"
proof (induction xs)
  case (Cons x xs)
  then show ?case by (cases "s = x # xs") (auto intro: exI [of _ "x # _"])
qed simp

lemma match_at_label:
  assumes "originMatches hostname patterns (Some o')"
  shows "\<exists>p \<in> set patterns. p o' \<or> (\<exists>h t. hostname o' = Some h \<and> p t \<and> (h = t \<or> (\<exists>a. h = a @ ''.'' @ t)))"
proof (cases "list_ex (\<lambda>p. p o') patterns")
  case True
  then show ?thesis by (auto simp: list_ex_iff)
next
  case False
  then obtain h s p where h: "hostname o' = Some h" "s \<in> set (suffixes (js_split CHR ''.'' h))" "p \<in> set patterns" "p (js_join ''.'' s)"
    using assms by (auto simp: originMatches_def list_ex_iff split: option.splits)
  obtain q where q: "js_split CHR ''.'' h = q @ s" "s \<noteq> []" using in_suffixes [OF h(2)] by blast
  have "h = js_join ''.'' (q @ s)" using join_dots [of h] by (simp only: q(1))
  then have "h = js_join ''.'' s \<or> (\<exists>a. h = a @ ''.'' @ js_join ''.'' s)"
    using q(2) join_append [of q s "''.''"] by (cases "q = []") auto
  with h show ?thesis by blast
qed

section \<open>Pseudonyms\<close>

definition pseudonymizeIp :: "(string \<Rightarrow> string) \<Rightarrow> (string \<Rightarrow> string \<Rightarrow> string) \<Rightarrow> string option \<Rightarrow> string option \<Rightarrow> string option" where
  "pseudonymizeIp sha mac secret ip =
     (case ip of
        None \<Rightarrow> None
      | Some v \<Rightarrow>
          if v = [] then Some []
          else Some (take 24 (case secret of Some s \<Rightarrow> if s \<noteq> [] then mac s v else sha v | None \<Rightarrow> sha v)))"

definition deriveIpHashSecret :: "(string \<Rightarrow> string) \<Rightarrow> string option \<Rightarrow> string option" where
  "deriveIpHashSecret sha signer =
     (case signer of Some s \<Rightarrow> if s \<noteq> [] then Some (sha (''x402:ip-pseudonym:v1:'' @ s)) else None | None \<Rightarrow> None)"

text \<open>One address has one pseudonym, of at most 24 characters; different ones differ when their digests do.\<close>

lemma pseudonym_bounded: "pseudonymizeIp sha mac secret ip = Some p \<Longrightarrow> length p \<le> 24"
  by (auto simp: pseudonymizeIp_def split: option.splits if_splits)

lemma pseudonyms_distinct:
  assumes "inj_on (\<lambda>v. take 24 (mac s v)) A" "a \<in> A" "b \<in> A" "a \<noteq> []" "b \<noteq> []" "s \<noteq> []"
    "pseudonymizeIp sha mac (Some s) (Some a) = pseudonymizeIp sha mac (Some s) (Some b)"
  shows "a = b"
  using assms by (auto simp: pseudonymizeIp_def dest: inj_onD)

end
