(* ===== verification/AppEdge.thy ===== *)
theory AppEdge
  imports PactScheme RateLimiter Readiness Cors
begin

text \<open>
  The rest of the application (\<open>src/app.js\<close>): the text of what was thrown, the health checks of its
  stores, the hooks around every request, \<open>GET /readyz\<close>, \<open>POST /pact/submit\<close>, the not-found and the
  error handler.

  The hooks are steps on the count of open requests and on the list of what the metrics are told.
  Fastify, the packages and what a database answers are parameters.
\<close>

section \<open>What was thrown\<close>

text \<open>An \<open>Error\<close>, a value JSON can write, or one it cannot, with its \<open>String\<close>.\<close>

datatype thrown_value = Tv_error string | Tv_json json | Tv_undefined | Tv_cyclic string

definition describeThrown :: "thrown_value \<Rightarrow> string" where
  "describeThrown v =
     (case v of
        Tv_error message \<Rightarrow> message
      | Tv_json (JStr s) \<Rightarrow> s
      | Tv_json (JObj fs) \<Rightarrow> json_stringify (JObj fs)
      | Tv_json (JArr xs) \<Rightarrow> json_stringify (JArr xs)
      | Tv_json j \<Rightarrow> js_text j
      | Tv_undefined \<Rightarrow> ''undefined''
      | Tv_cyclic s \<Rightarrow> s)"

section \<open>Health checks\<close>

text \<open>A package is imported by name; the first step that throws ends the check.\<close>

definition missing_package :: "string \<Rightarrow> string" where
  "missing_package name = ''Cannot find package '' @ name"

definition run_steps :: "string option list \<Rightarrow> string + bool option" where
  "run_steps steps = (case List.find (\<lambda>s. s \<noteq> None) steps of Some (Some e) \<Rightarrow> Inr (Some False) | _ \<Rightarrow> Inr (Some True))"

definition import_step :: "string list \<Rightarrow> string \<Rightarrow> string option" where
  "import_step packages name = (if name \<in> set packages then None else Some (missing_package name))"

text \<open>\<open>createDbHealthCheck\<close> and \<open>createRateLimiterHealthCheck\<close>: connecting, the query and closing the pool.\<close>

definition db_health :: "string list \<Rightarrow> string option \<Rightarrow> string option \<Rightarrow> string option \<Rightarrow> string + bool option" where
  "db_health packages pool query close = run_steps [import_step packages ''pg'', pool, query, close]"

text \<open>\<open>createRedisHealthCheck\<close>\<close>

definition redis_health :: "string list \<Rightarrow> string option \<Rightarrow> string option \<Rightarrow> string option \<Rightarrow> string option \<Rightarrow> string + bool option" where
  "redis_health packages create connect ping disconnect =
     run_steps [import_step packages ''redis'', create, connect, ping, disconnect]"

text \<open>The packages the service is installed with (\<open>dependencies\<close> of \<open>package.json\<close>).\<close>

definition dependencies :: "string list" where
  "dependencies = [''@fastify/compress'', ''@opentelemetry/api'', ''@opentelemetry/auto-instrumentations-node'',
     ''@opentelemetry/exporter-trace-otlp-http'', ''@opentelemetry/sdk-node'', ''@stellar/stellar-sdk'', ''@x402/core'',
     ''@x402/extensions'', ''@x402/stellar'', ''dotenv'', ''fastify'', ''ioredis'', ''jose'', ''kafkajs'', ''node-pg-migrate'',
     ''node-vault'', ''opossum'', ''pg'', ''redlock'', ''undici'']"

text \<open>The probes the checker is given (\<open>createApp\<close>, without replacements for tests).\<close>

record infra_config =
  if_databaseUrl :: "string option"
  if_redisUrl :: "string option"
  if_limiterStore :: "string option"

definition infra_probes ::
  "infra_config \<Rightarrow> string + bool option \<Rightarrow> string + bool option \<Rightarrow> readiness_env \<Rightarrow> readiness_env" where
  "infra_probes c db redis env =
     env\<lparr>rd_db := map_option (\<lambda>_. db) (if_databaseUrl c),
         rd_redisProbe := map_option (\<lambda>_. redis) (if_redisUrl c),
         rd_limiterProbe := (if if_databaseUrl c \<noteq> None \<and> if_limiterStore c = Some ''postgres'' then Some db else None)\<rparr>"

section \<open>GET /readyz\<close>

datatype ready_body =
    Ready_unconfigured "string option"
  | Ready_shutting_down "string option"
  | Ready_report ready_snapshot "string option"

text \<open>\<open>failover\<close> is the state of the failover checker, as text.\<close>

definition readyz :: "readiness_env option \<Rightarrow> string option \<Rightarrow> int \<Rightarrow> int \<Rightarrow> readiness \<Rightarrow> (nat \<times> ready_body) \<times> readiness" where
  "readyz env failover now later r =
     (case env of
        None \<Rightarrow> ((503, Ready_unconfigured failover), r)
      | Some e \<Rightarrow>
          (case check_ready e now later r of
             (None, r') \<Rightarrow> ((503, Ready_shutting_down failover), r')
           | (Some s, r') \<Rightarrow> ((if sn_ok s then 200 else 503, Ready_report s failover), r')))"

section \<open>The hooks of a request\<close>

definition OPERATIONAL_ROUTES :: "string list" where
  "OPERATIONAL_ROUTES = [''/metrics'', ''/healthz'', ''/readyz'']"

record span =
  sp_route :: string
  sp_network :: "string option"
  sp_outcome :: "string option"
  sp_reason :: "string option"
  sp_settleOutcome :: "string option"
  sp_feeStroops :: "int option"

datatype edge_metric =
    Requests string string string string
  | Duration string string
  | Settlements string string
  | Settlement_fee string int

record edge =
  eg_active :: nat
  eg_metrics :: "edge_metric list"
  eg_log :: "(string \<times> string) list"    \<comment> \<open>outcome and reason of each line\<close>

definition on_request :: "edge \<Rightarrow> edge" where
  "on_request e = e\<lparr>eg_active := eg_active e + 1\<rparr>"

definition outcome_of :: "nat \<Rightarrow> span \<Rightarrow> string" where
  "outcome_of status s = nullish_or (sp_outcome s) (if status \<ge> 500 then ''error'' else if status \<ge> 400 then ''rejected'' else ''ok'')"

definition reason_of :: "nat \<Rightarrow> span \<Rightarrow> string" where
  "reason_of status s = nullish_or (sp_reason s) (if status \<ge> 500 then ''server_error'' else if status \<ge> 400 then ''client_error'' else ''none'')"

definition span_metrics :: "nat \<Rightarrow> span \<Rightarrow> edge_metric list" where
  "span_metrics status s =
     (let net = nullish_or (sp_network s) ''unknown'' in
      if sp_route s \<in> set OPERATIONAL_ROUTES then []
      else [Requests (sp_route s) net (outcome_of status s) (reason_of status s), Duration (sp_route s) net]
        @ (case sp_settleOutcome s of
             Some o1 \<Rightarrow>
               if sp_route s = ''/settle'' \<and> o1 \<noteq> []
               then Settlements net o1 # (case sp_feeStroops s of Some f \<Rightarrow> if o1 = ''settled'' then [Settlement_fee net f] else [] | None \<Rightarrow> [])
               else []
           | None \<Rightarrow> []))"

definition on_response :: "nat \<Rightarrow> span option \<Rightarrow> edge \<Rightarrow> edge" where
  "on_response status s e =
     (let e1 = e\<lparr>eg_active := eg_active e - 1\<rparr> in
      case s of
        None \<Rightarrow> e1
      | Some sp \<Rightarrow> e1\<lparr>eg_log := eg_log e @ [(outcome_of status sp, reason_of status sp)],
                     eg_metrics := eg_metrics e @ span_metrics status sp\<rparr>)"

definition security_headers :: "string \<Rightarrow> (string \<times> string) list" where
  "security_headers nodeEnv =
     [(''X-Content-Type-Options'', ''nosniff''), (''X-Frame-Options'', ''DENY''), (''Referrer-Policy'', ''strict-origin-when-cross-origin'')]
     @ (if nodeEnv = ''production'' then [(''Strict-Transport-Security'', ''max-age=63072000; includeSubDomains; preload'')] else [])"

text \<open>\<open>req.ip\<close> after the pseudonymiser.\<close>

definition pseudonymous_ip :: "(string \<Rightarrow> string option) \<Rightarrow> string \<Rightarrow> string" where
  "pseudonymous_ip pseudonymize ip = nullish_or (pseudonymize ip) ip"

section \<open>POST /pact/submit\<close>

text \<open>The body's schema: exactly a network and a transaction, both texts within their lengths.\<close>

definition pact_body :: "json \<Rightarrow> (string \<times> string) option" where
  "pact_body body =
     (case body of
        JObj fs \<Rightarrow>
          (case (map_of fs ''network'', map_of fs ''transaction'') of
             (Some (JStr n), Some (JStr t)) \<Rightarrow>
               if list_all (\<lambda>f. fst f \<in> {''network'', ''transaction''}) fs
                  \<and> 1 \<le> length n \<and> length n \<le> 64 \<and> 1 \<le> length t \<and> length t \<le> 65536
               then Some (n, t) else None
           | _ \<Rightarrow> None)
      | _ \<Rightarrow> None)"

datatype pact_reply =
    Pact_invalid
  | Pact_not_configured
  | Pact_limited "string \<times> string \<times> string option" "(rl_headers \<times> rl_rejection option) option"
  | Pact_answer nat submit_answer "(rl_headers \<times> rl_rejection option) option"
  | Pact_threw

text \<open>The answer, the transaction handed to the node, and the limiter; \<open>turn\<close> counts the signers' turns.\<close>

definition pact_submit_route ::
  "(string \<Rightarrow> string \<Rightarrow> bool) \<Rightarrow> rl_config \<Rightarrow> 's rl_ops \<Rightarrow> (string \<Rightarrow> pact_env option) \<Rightarrow> rl_request \<Rightarrow> json
     \<Rightarrow> (nat \<Rightarrow> int) \<Rightarrow> (nat \<Rightarrow> int) \<Rightarrow> int \<Rightarrow> nat \<Rightarrow> 's \<Rightarrow> pact_reply \<times> string option \<times> 's" where
  "pact_submit_route matches cfg ops schemeFor req body clk clk' now turn st =
     (case pact_body body of
        None \<Rightarrow> (Pact_invalid, None, st)
      | Some (network, transaction) \<Rightarrow>
          (case schemeFor network of
             None \<Rightarrow> (Pact_not_configured, None, st)
           | Some env \<Rightarrow>
               (case checkSettle matches cfg ops req (Some network) clk st of
                  ((check, _), st1) \<Rightarrow>
                    if \<not> ck_allowed check
                    then (case rejectRateLimited req ''/pact/submit'' check now of (au, a) \<Rightarrow> (Pact_limited au a, None, st1))
                    else (case pact_submit env network transaction turn of
                            (None, handed, _) \<Rightarrow> (Pact_threw, handed, st1)
                          | (Some res, handed, _) \<Rightarrow>
                              (let fee = (if sa_success res then nullish_or (sa_fee res) NaN else Fin 0);
                                   (after, st2) = recordSettle cfg ops req fee clk' st1;
                                   limited = handleRateLimit now [Some after, Some check]
                               in (Pact_answer (case limited of Some (_, Some rj) \<Rightarrow> nat (rj_status rj) | _ \<Rightarrow> if sa_success res then 200 else 400)
                                     res limited, handed, st2))))))"

section \<open>Errors\<close>

record app_error =
  ae_code :: "string option"
  ae_status :: "int option"     \<comment> \<open>\<open>statusCode\<close> where it is an integer and not 0\<close>
  ae_value :: thrown_value

datatype error_body =
    Verify_error string string
  | Settle_error string string "json option"
  | Plain_error string string

definition error_status :: "app_error \<Rightarrow> int \<times> string" where
  "error_status err =
     (if ae_code err \<in> {Some ''FST_ERR_CTP_INVALID_JSON_BODY'', Some ''FST_ERR_CTP_INVALID_JSON''} then (400, ''malformed_json'')
      else if ae_code err = Some ''FST_ERR_CTP_BODY_TOO_LARGE'' then (413, ''payload_too_large'')
      else (nullish_or (ae_status err) 500, ''internal_error''))"

definition error_handler :: "string \<Rightarrow> json option \<Rightarrow> app_error \<Rightarrow> int \<times> error_body" where
  "error_handler path body err =
     (case error_status err of
        (status, code) \<Rightarrow>
          if path = ''/verify'' then (status, Verify_error code (describeThrown (ae_value err)))
          else if path = ''/settle''
          then (status, Settle_error code (describeThrown (ae_value err))
                  (js_prop ''network'' (Option.bind body (jprop ''paymentRequirements''))))
          else (status, Plain_error code code))"

definition route_not_found :: "nat \<times> error_body" where
  "route_not_found = (404, Plain_error ''not_found'' ''route_not_found'')"

section \<open>Facts\<close>

text \<open>
  With \<open>REDIS_URL\<close> set the service is never ready: its health check imports a package it is not
  installed with, so whatever Redis answers, and whatever else is healthy, every answer is 503.
\<close>

lemma redis_health_fails: "redis_health dependencies create connect ping disconnect = Inr (Some False)"
  by (simp add: redis_health_def run_steps_def import_step_def dependencies_def)

text \<open>A checker whose Redis probe is this one, from the start on.\<close>

definition redis_probed :: "infra_config \<Rightarrow> readiness_env \<Rightarrow> bool" where
  "redis_probed c env \<longleftrightarrow> (\<exists>db base create connect ping disconnect.
     env = infra_probes c db (redis_health dependencies create connect ping disconnect) base)"

lemma redis_probed_snapshot: "redis_probed c env \<Longrightarrow> if_redisUrl c \<noteq> None \<Longrightarrow> \<not> sn_ok (take_snapshot env)"
  by (auto simp: redis_probed_def infra_probes_def redis_health_fails take_snapshot_def Let_def probe_ok probe_passes_def)

theorem redis_never_ready:
  assumes "if_redisUrl c \<noteq> None" "redis_probed c env" "\<forall>e t. Check e t \<in> set es \<longrightarrow> redis_probed c e"
  shows "fst (fst (readyz (Some env) failover now later (fold ready_step es \<lparr>ry_cache = None, ry_shuttingDown = False\<rparr>))) = 503"
proof -
  let ?r = "fold ready_step es \<lparr>ry_cache = None, ry_shuttingDown = False\<rparr>"
  obtain x r' where c: "check_ready env now later ?r = (x, r')" by (metis surj_pair)
  show ?thesis
  proof (cases x)
    case None
    with c show ?thesis by (simp add: readyz_def)
  next
    case (Some s)
    with c answer_recent [of env now later es s] have "s = take_snapshot env \<or> (\<exists>t. (t, s) \<in> snapshots_of es)" by auto
    then have "\<not> sn_ok s"
      using assms redis_probed_snapshot by (auto simp: snapshots_of_def)
    with c Some show ?thesis by (simp add: readyz_def)
  qed
qed

text \<open>The gauge of open requests counts exactly those that came and were not answered yet.\<close>

datatype edge_event = Came | Answered_with nat "span option"

fun edge_step :: "edge_event \<Rightarrow> edge \<Rightarrow> edge" where
  "edge_step Came e = on_request e"
| "edge_step (Answered_with status s) e = on_response status s e"

definition answers_sent :: "edge_event list \<Rightarrow> (nat \<times> span option) list" where
  "answers_sent es = concat (map (\<lambda>e. case e of Answered_with c s \<Rightarrow> [(c, s)] | Came \<Rightarrow> []) es)"

definition no_early_answer :: "edge_event list \<Rightarrow> bool" where
  "no_early_answer es \<longleftrightarrow> (\<forall>n. length (answers_sent (take n es)) \<le> length (filter (\<lambda>e. e = Came) (take n es)))"

lemma answers_sent_append: "answers_sent (xs @ ys) = answers_sent xs @ answers_sent ys"
  by (simp add: answers_sent_def)

lemma edge_run:
  assumes "no_early_answer es" "eg_active e = 0" "eg_metrics e = []"
  shows "eg_active (fold edge_step es e) + length (answers_sent es) = length (filter (\<lambda>x. x = Came) es)
    \<and> eg_metrics (fold edge_step es e) = concat (map (\<lambda>(c, s). case s of Some sp \<Rightarrow> span_metrics c sp | None \<Rightarrow> []) (answers_sent es))"
  using assms(1)
proof (induction es rule: rev_induct)
  case Nil
  then show ?case using assms(2,3) by (simp add: answers_sent_def)
next
  case (snoc x es)
  have early: "no_early_answer es"
    unfolding no_early_answer_def
  proof
    fix n
    show "length (answers_sent (take n es)) \<le> length (filter (\<lambda>e. e = Came) (take n es))"
      using snoc.prems [unfolded no_early_answer_def, rule_format, of "min n (length es)"] by (simp add: min_def split: if_splits)
  qed
  have all: "length (answers_sent (es @ [x])) \<le> length (filter (\<lambda>e. e = Came) (es @ [x]))"
    using snoc.prems [unfolded no_early_answer_def, rule_format, of "length (es @ [x])"] by simp
  show ?case
    using snoc.IH [OF early] all
    by (cases x) (auto simp: on_request_def on_response_def answers_sent_append Let_def answers_sent_def split: option.splits)
qed

text \<open>Every answered request is counted once, unless it is a probe's or has no span.\<close>

lemma counted_once:
  "length (filter (\<lambda>m. case m of Requests _ _ _ _ \<Rightarrow> True | _ \<Rightarrow> False) (span_metrics status s)) =
     (if sp_route s \<in> set OPERATIONAL_ROUTES then 0 else 1)"
  by (auto simp: span_metrics_def Let_def split: option.splits)

text \<open>\<open>POST /pact/submit\<close> hands nothing to a node that the limiter did not allow, or that is no sponsored call.\<close>

lemma pact_route_handed:
  assumes "pact_submit_route matches cfg ops schemeFor req body clk clk' now turn st = (a, Some tx, st')"
  shows "\<exists>network text env res i'. pact_body body = Some (network, text) \<and> schemeFor network = Some env
    \<and> ck_allowed (fst (fst (checkSettle matches cfg ops req (Some network) clk st)))
    \<and> pact_submit env network text turn = (res, Some tx, i')"
  using assms
  by (auto simp: pact_submit_route_def Let_def split: option.splits prod.splits if_splits)

text \<open>
  The fee of a call that fails on the ledger, or is not seen in time, is never recorded: only a
  successful call is charged to the caller's daily fees.
\<close>

lemma failed_call_not_charged:
  assumes "pact_submit_route matches cfg ops schemeFor req body clk clk' now turn st = (Pact_answer code res limited, handed, st')"
    "\<not> sa_success res"
  shows "\<exists>network st1. st1 = snd (checkSettle matches cfg ops req (Some network) clk st) \<and> st' = snd (recordSettle cfg ops req (Fin 0) clk' st1)"
  using assms
  by (auto simp: pact_submit_route_def Let_def split: option.splits prod.splits if_splits) (metis fst_conv snd_conv)+

text \<open>An error never looks like a verified or settled payment, and its status says which kind it is.\<close>

lemma error_answers:
  "snd (error_handler path body err) \<in> {Verify_error c m, Settle_error c m n, Plain_error c r} \<Longrightarrow>
     c \<in> {''malformed_json'', ''payload_too_large'', ''internal_error''}"
  by (auto simp: error_handler_def error_status_def split: if_splits)

lemma body_errors_are_clients:
  "snd (error_status err) \<noteq> ''internal_error'' \<Longrightarrow> 400 \<le> fst (error_status err) \<and> fst (error_status err) < 500"
  by (auto simp: error_status_def split: if_splits)

end
