(* ===== verification/DataRetention.thy ===== *)
theory DataRetention
  imports JsPrelude
begin

text \<open>
  The retention job (\<open>scripts/data_retention_job.js\<close>): batches of rows that are archived and deleted,
  the seven tables it goes through, its archive and its exit code.

  A statement reads or deletes rows of one table; in which order Postgres scans them, and which
  statements fail, are parameters. A loop that does not end has no result: it is a partial function,
  and its value is \<open>None\<close>.
\<close>

section \<open>Batches\<close>

text \<open>A row as the clauses see it, with its \<open>ctid\<close>.\<close>

record ret_row =
  rr_time :: int        \<comment> \<open>the column the clause compares\<close>
  rr_status :: string
  rr_fields :: "(string \<times> json) list"

type_synonym ret_rows = "(nat \<times> ret_row) list"

record purge_env =
  pz_old :: "ret_row \<Rightarrow> bool"                   \<comment> \<open>the WHERE clause\<close>
  pz_scan :: "nat \<Rightarrow> ret_rows \<Rightarrow> ret_rows"      \<comment> \<open>the order in which the n-th statement sees the rows\<close>
  pz_fails :: "nat \<Rightarrow> string option"            \<comment> \<open>the error of the n-th statement\<close>

record purge =
  pu_rows :: ret_rows
  pu_archive :: "ret_row list"
  pu_deleted :: nat
  pu_archived :: nat

text \<open>\<open>WHERE ... LIMIT n\<close>, and the rows left when those with the ids of a list are deleted.\<close>

definition select_limit :: "purge_env \<Rightarrow> nat \<Rightarrow> nat \<Rightarrow> ret_rows \<Rightarrow> ret_rows" where
  "select_limit env i n rows = take n (filter (\<lambda>r. pz_old env (snd r)) (pz_scan env i rows))"

definition without :: "ret_rows \<Rightarrow> ret_rows \<Rightarrow> ret_rows" where
  "without gone rows = filter (\<lambda>r. fst r \<notin> set (map fst gone)) rows"

definition archive_rows :: "ret_rows \<Rightarrow> purge \<Rightarrow> purge" where
  "archive_rows rows p = p\<lparr>pu_archive := pu_archive p @ map snd rows, pu_archived := pu_archived p + length rows\<rparr>"

text \<open>
  \<open>runBatchDelete\<close> from its i-th statement on. The rows deleted are chosen by a statement of their
  own, which may see them in another order.
\<close>

partial_function (option) runBatchDelete ::
  "purge_env \<Rightarrow> nat \<Rightarrow> bool \<Rightarrow> nat \<Rightarrow> purge \<Rightarrow> ((string + nat \<times> nat) \<times> purge) option" where
  "runBatchDelete env batch dryRun i p =
     (case pz_fails env i of
        Some e \<Rightarrow> Some (Inl e, p)
      | None \<Rightarrow>
          (let rows = select_limit env i batch (pu_rows p); q = archive_rows rows p in
           if rows = [] then Some (Inr (pu_deleted p, pu_archived p), p)
           else if dryRun then
             (let q = q\<lparr>pu_deleted := pu_deleted q + length rows\<rparr> in
              if length rows < batch then Some (Inr (pu_deleted q, pu_archived q), q)
              else runBatchDelete env batch dryRun (i + 1) q)
           else
             (case pz_fails env (i + 1) of
                Some e \<Rightarrow> Some (Inl e, q)
              | None \<Rightarrow>
                  (let gone = select_limit env (i + 1) batch (pu_rows p);
                       q = q\<lparr>pu_rows := without gone (pu_rows p), pu_deleted := pu_deleted q + length gone\<rparr>
                   in if length rows < batch then Some (Inr (pu_deleted q, pu_archived q), q)
                      else runBatchDelete env batch dryRun (i + 2) q))))"

section \<open>The job\<close>

text \<open>A time column of type \<open>bigint\<close> cannot be compared with the date the job passes: the statement fails.\<close>

record ret_table =
  tb_bigint :: bool
  tb_rows :: ret_rows

record ret_task =
  rk_name :: string
  rk_table :: string
  rk_statuses :: "string list option"
  rk_cutoff :: int

definition old_row :: "ret_task \<Rightarrow> ret_row \<Rightarrow> bool" where
  "old_row t r \<longleftrightarrow> rr_time r < rk_cutoff t \<and> (case rk_statuses t of None \<Rightarrow> True | Some ss \<Rightarrow> rr_status r \<in> set ss)"

definition days :: "int \<Rightarrow> int" where
  "days n = n * 24 * 60 * 60 * 1000"

definition retention_tasks :: "int \<Rightarrow> ret_task list" where
  "retention_tasks now =
     (let settlement = now - days 90; request = now - days 7 in
      [\<lparr>rk_name = ''settlement_events'', rk_table = ''settlement_events'', rk_statuses = None, rk_cutoff = settlement\<rparr>,
       \<lparr>rk_name = ''settlement_projections'', rk_table = ''settlement_projections'', rk_statuses = None, rk_cutoff = settlement\<rparr>,
       \<lparr>rk_name = ''settlements (legacy)'', rk_table = ''settlements'', rk_statuses = None, rk_cutoff = settlement\<rparr>,
       \<lparr>rk_name = ''idempotency_keys'', rk_table = ''idempotency_keys'', rk_statuses = None, rk_cutoff = request\<rparr>,
       \<lparr>rk_name = ''outbox_events (published)'', rk_table = ''outbox_events'', rk_statuses = Some [''published''], rk_cutoff = settlement\<rparr>,
       \<lparr>rk_name = ''dead_letters (resolved/discarded)'', rk_table = ''dead_letters'',
        rk_statuses = Some [''resolved'', ''discarded''], rk_cutoff = settlement\<rparr>,
       \<lparr>rk_name = ''rate_limit_buckets (expired)'', rk_table = ''rate_limit_buckets'', rk_statuses = None, rk_cutoff = request\<rparr>])"

record ret_env =
  rt_scan :: "string \<Rightarrow> nat \<Rightarrow> ret_rows \<Rightarrow> ret_rows"
  rt_fails :: "string \<Rightarrow> nat \<Rightarrow> string option"
  rt_open_fails :: "string \<Rightarrow> string option"    \<comment> \<open>opening the archive, tried by a task while it is not open\<close>
  rt_close_fails :: "string option"

record ret_state =
  rs_db :: "(string, ret_table) jsmap"
  rs_open :: bool
  rs_buffer :: "(string \<times> ret_row) list"
  rs_tables :: "(string, nat \<times> nat) jsmap"
  rs_totals :: "nat \<times> nat"
  rs_errors :: "string list"

definition task_env :: "ret_env \<Rightarrow> ret_task \<Rightarrow> ret_table option \<Rightarrow> purge_env" where
  "task_env env t tb =
     \<lparr>pz_old = old_row t, pz_scan = rt_scan env (rk_table t),
      pz_fails = (\<lambda>i. case tb of
         None \<Rightarrow> Some (''relation '' @ rk_table t @ '' does not exist'')
       | Some b \<Rightarrow> if tb_bigint b then Some ''invalid input syntax for type bigint'' else rt_fails env (rk_table t) i)\<rparr>"

definition task_failed :: "ret_task \<Rightarrow> string \<Rightarrow> ret_state \<Rightarrow> ret_state" where
  "task_failed t e st = st\<lparr>rs_errors := rs_errors st @ [rk_name t @ '': '' @ e]\<rparr>"

definition run_task :: "ret_env \<Rightarrow> nat \<Rightarrow> bool \<Rightarrow> ret_task \<Rightarrow> ret_state \<Rightarrow> ret_state option" where
  "run_task env batch dryRun t st =
     (case (if rs_open st then None else rt_open_fails env (rk_name t)) of
        Some e \<Rightarrow> Some (task_failed t e st)
      | None \<Rightarrow>
          (let tb = jm_get (rs_db st) (rk_table t) in
           case runBatchDelete (task_env env t tb) batch dryRun 0
                  \<lparr>pu_rows = (case tb of Some b \<Rightarrow> tb_rows b | None \<Rightarrow> []), pu_archive = [], pu_deleted = 0, pu_archived = 0\<rparr> of
             None \<Rightarrow> None
           | Some (res, p) \<Rightarrow>
               (let st1 = st\<lparr>rs_open := True, rs_buffer := rs_buffer st @ map (Pair (rk_table t)) (pu_archive p),
                             rs_db := (case tb of None \<Rightarrow> rs_db st | Some b \<Rightarrow> jm_set (rk_table t) (b\<lparr>tb_rows := pu_rows p\<rparr>) (rs_db st))\<rparr>
                in case res of
                     Inl e \<Rightarrow> Some (task_failed t e st1)
                   | Inr (d, a) \<Rightarrow>
                       Some (st1\<lparr>rs_tables := jm_set (rk_name t) (d, a) (rs_tables st1),
                                 rs_totals := (fst (rs_totals st1) + d, snd (rs_totals st1) + a)\<rparr>))))"

fun run_tasks :: "ret_env \<Rightarrow> nat \<Rightarrow> bool \<Rightarrow> ret_task list \<Rightarrow> ret_state \<Rightarrow> ret_state option" where
  "run_tasks env batch dryRun [] st = Some st"
| "run_tasks env batch dryRun (t # ts) st =
     (case run_task env batch dryRun t st of None \<Rightarrow> None | Some st' \<Rightarrow> run_tasks env batch dryRun ts st')"

text \<open>
  Closing the archive: what it holds in the end, or the error. The S3 client is the promise of one,
  which has no \<open>send\<close>.
\<close>

definition close_archive :: "ret_env \<Rightarrow> bool \<Rightarrow> ret_state \<Rightarrow> string + (string \<times> ret_row) list" where
  "close_archive env s3 st =
     (if s3 then (if rs_buffer st = [] then Inr [] else Inl ''this.s3.client.send is not a function'')
      else if \<not> rs_open st then Inr []
      else (case rt_close_fails env of Some e \<Rightarrow> Inl e | None \<Rightarrow> Inr (rs_buffer st)))"

record ret_args =
  ra_apply :: bool
  ra_dry_run :: bool
  ra_batch :: string
  ra_sleep :: string
  ra_s3 :: bool
  ra_bucket :: "string option"

datatype ret_exit = Exit_refused | Exit_done nat "(string \<times> ret_row) list" ret_state | Exit_fatal string ret_state

text \<open>\<open>main\<close> after the arguments are parsed; \<open>--dry-run\<close> is never read.\<close>

definition retention_main :: "ret_env \<Rightarrow> string option \<Rightarrow> ret_args \<Rightarrow> int \<Rightarrow> (string, ret_table) jsmap \<Rightarrow> ret_exit option" where
  "retention_main env databaseUrl args now db =
     (let dryRun = (\<not> ra_apply args) in
      if databaseUrl = None \<or> databaseUrl = Some [] then Some Exit_refused
      else if ra_s3 args \<and> (ra_bucket args = None \<or> ra_bucket args = Some []) then Some Exit_refused
      else (case (js_parseInt (ra_batch args), js_parseInt (ra_sleep args)) of
              (Fin b, Fin s) \<Rightarrow>
                if b < 1 \<or> s < 0 then Some Exit_refused
                else (case run_tasks env (nat b) dryRun (retention_tasks now)
                            \<lparr>rs_db = db, rs_open = False, rs_buffer = [], rs_tables = [], rs_totals = (0, 0), rs_errors = []\<rparr> of
                        None \<Rightarrow> None
                      | Some st \<Rightarrow>
                          (case close_archive env (ra_s3 args) st of
                             Inl e \<Rightarrow> Some (Exit_fatal e (st\<lparr>rs_errors := rs_errors st @ [''FATAL: '' @ e]\<rparr>))
                           | Inr kept \<Rightarrow> Some (Exit_done (if rs_errors st = [] then 0 else 1) kept st)))
            | _ \<Rightarrow> Some Exit_refused))"

section \<open>A purge ends\<close>

definition scans_all :: "purge_env \<Rightarrow> bool" where
  "scans_all env \<longleftrightarrow> (\<forall>i rows. mset (pz_scan env i rows) = mset rows)"

abbreviation old_rows :: "purge_env \<Rightarrow> ret_rows \<Rightarrow> ret_rows" where
  "old_rows env rows \<equiv> filter (\<lambda>r. pz_old env (snd r)) rows"

abbreviation kept_rows :: "purge_env \<Rightarrow> ret_rows \<Rightarrow> ret_rows" where
  "kept_rows env rows \<equiv> filter (\<lambda>r. \<not> pz_old env (snd r)) rows"

lemma scan_old: "scans_all env \<Longrightarrow> mset (old_rows env (pz_scan env i rows)) = mset (old_rows env rows)"
  by (simp add: scans_all_def)

lemma length_select: "scans_all env \<Longrightarrow> length (select_limit env i n rows) = min n (length (old_rows env rows))"
  using mset_eq_length [OF scan_old] by (fastforce simp: select_limit_def)

lemma set_select: "scans_all env \<Longrightarrow> set (select_limit env i n rows) \<subseteq> set (old_rows env rows)"
  using mset_eq_setD [OF scan_old] by (fastforce simp: select_limit_def dest: in_set_takeD)

lemma select_all: "scans_all env \<Longrightarrow> length (old_rows env rows) \<le> n \<Longrightarrow> set (select_limit env i n rows) = set (old_rows env rows)"
  using mset_eq_setD [OF scan_old] mset_eq_length [OF scan_old]
  by (metis (no_types, lifting) select_limit_def take_all)

lemma distinct_ids: "distinct (map fst rows) \<Longrightarrow> (r \<in> set rows \<and> fst r \<in> fst ` A) = (r \<in> set rows \<and> r \<in> A)"
  if "A \<subseteq> set rows" for A :: "(nat \<times> ret_row) set"
  using that by (auto simp: subset_iff) (metis eq_key_imp_eq_value surjective_pairing)

lemma without_rows:
  "distinct (map fst rows) \<Longrightarrow> set gone \<subseteq> set rows \<Longrightarrow> without gone rows = filter (\<lambda>r. r \<notin> set gone) rows"
  unfolding without_def by (rule filter_cong [OF refl]) (use distinct_ids [of "set gone" rows] in auto)

lemma distinct_select:
  assumes "scans_all env" "distinct (map fst rows)"
  shows "distinct (select_limit env i n rows)"
proof -
  have "distinct (pz_scan env i rows)"
    using assms mset_eq_imp_distinct_iff unfolding scans_all_def by (metis distinct_map)
  then show ?thesis by (simp add: select_limit_def)
qed

text \<open>One batch takes its rows from the old ones and leaves every other row.\<close>

lemma batch_taken:
  assumes "scans_all env" "distinct (map fst rows)" "rows' = without (select_limit env i n rows) rows"
  shows "kept_rows env rows' = kept_rows env rows"
    and "length (old_rows env rows') = length (old_rows env rows) - min n (length (old_rows env rows))"
    and "distinct (map fst rows')"
proof -
  let ?gone = "select_limit env i n rows"
  have sub: "set ?gone \<subseteq> set rows" "\<forall>r \<in> set ?gone. pz_old env (snd r)" using set_select [OF assms(1)] by fastforce+
  have r: "rows' = filter (\<lambda>r. r \<notin> set ?gone) rows" by (simp add: assms(3) without_rows [OF assms(2) sub(1)])
  show "kept_rows env rows' = kept_rows env rows" using sub(2) by (auto simp: r intro: filter_cong)
  show "distinct (map fst rows')" using assms(2) by (simp add: r distinct_map_filter)
  have d: "distinct (old_rows env rows)" using assms(2) by (simp add: distinct_map)
  have "length (old_rows env rows') = card (set (old_rows env rows'))"
    using assms(2) by (intro distinct_card [symmetric]) (simp add: r distinct_map)
  also have "set (old_rows env rows') = set (old_rows env rows) - set ?gone" by (auto simp: r)
  also have "card \<dots> = card (set (old_rows env rows)) - card (set ?gone)"
    using set_select [OF assms(1)] by (intro card_Diff_subset) auto
  finally show "length (old_rows env rows') = length (old_rows env rows) - min n (length (old_rows env rows))"
    using distinct_card [OF d] distinct_card [OF distinct_select [OF assms(1,2)]] length_select [OF assms(1)] by simp
qed

text \<open>
  When no statement fails a purge that deletes ends, whatever order each statement sees the rows in:
  exactly the old rows are gone, and it reports as many.
\<close>

theorem purge_ends:
  assumes "scans_all env" "\<forall>i. pz_fails env i = None" "0 < batch" "distinct (map fst (pu_rows p))"
  shows "\<exists>q. runBatchDelete env batch False i p
      = Some (Inr (pu_deleted p + length (old_rows env (pu_rows p)), pu_archived p + length (old_rows env (pu_rows p))), q)
    \<and> pu_rows q = kept_rows env (pu_rows p) \<and> length (pu_archive q) = length (pu_archive p) + length (old_rows env (pu_rows p))"
  using assms(4)
proof (induction "length (old_rows env (pu_rows p))" arbitrary: i p rule: less_induct)
  case less
  let ?n = "length (old_rows env (pu_rows p))" and ?sel = "\<lambda>i. select_limit env i batch (pu_rows p)"
  let ?q = "archive_rows (?sel i) p\<lparr>pu_rows := without (?sel (i + 1)) (pu_rows p), pu_deleted := pu_deleted p + length (?sel (i + 1))\<rparr>"
  note len = length_select [OF assms(1), of _ batch "pu_rows p"]
  note took = batch_taken [OF assms(1) less.prems refl, of "i + 1" batch]
  have step: "runBatchDelete env batch False i p =
     (if ?n = 0 then Some (Inr (pu_deleted p, pu_archived p), p)
      else if ?n < batch then Some (Inr (pu_deleted p + ?n, pu_archived p + ?n), ?q)
      else runBatchDelete env batch False (i + 2) ?q)"
  proof -
    have ne: "?sel i = [] \<longleftrightarrow> ?n = 0" using len [of i] assms(3) by (metis length_0_conv min_0R min_def not_gr_zero)
    show ?thesis using len assms(2)
      by (subst runBatchDelete.simps) (auto simp: ne Let_def archive_rows_def)
  qed
  consider "?n = 0" | "0 < ?n" "?n < batch" | "0 < ?n" "batch \<le> ?n" by linarith
  then show ?case
  proof cases
    case 1
    then have "kept_rows env (pu_rows p) = pu_rows p" by (auto simp: filter_empty_conv intro: filter_True)
    with step 1 show ?thesis by simp
  next
    case 2
    then have "old_rows env (pu_rows ?q) = []" using took(2) by simp
    then have "kept_rows env (pu_rows ?q) = pu_rows ?q" by (auto simp: filter_empty_conv intro: filter_True)
    with step 2 took(1) len [of i] show ?thesis by (simp add: archive_rows_def)
  next
    case 3
    then have q: "length (old_rows env (pu_rows ?q)) = ?n - batch" "kept_rows env (pu_rows ?q) = kept_rows env (pu_rows p)"
      using took by simp_all
    with 3 assms(3) took(3) less.hyps [of ?q "i + 2"]
    have "\<exists>q. runBatchDelete env batch False (i + 2) ?q
      = Some (Inr (pu_deleted ?q + (?n - batch), pu_archived ?q + (?n - batch)), q)
    \<and> pu_rows q = kept_rows env (pu_rows p) \<and> length (pu_archive q) = length (pu_archive ?q) + (?n - batch)" by simp
    with step 3 len show ?thesis by (simp add: archive_rows_def min_absorb1)
  qed
qed

text \<open>
  A simulation deletes nothing, so a full batch of old rows is found again by the next statement: it
  never ends, and archives the same rows over and over.
\<close>

definition short_if_dry :: "purge_env \<Rightarrow> nat \<Rightarrow> bool \<Rightarrow> purge \<Rightarrow> bool" where
  "short_if_dry env batch dryRun p \<longleftrightarrow>
     (scans_all env \<and> (\<forall>i. pz_fails env i = None) \<and> dryRun \<and> 0 < batch \<longrightarrow> length (old_rows env (pu_rows p)) < batch)"

lemma dry_run_short:
  assumes "runBatchDelete env batch dryRun i p = Some x"
  shows "short_if_dry env batch dryRun p"
proof (rule runBatchDelete.raw_induct [where P = "\<lambda>env batch dryRun i p x. short_if_dry env batch dryRun p", OF _ assms])
  fix f env batch dryRun i p x
  assume ih: "\<And>env batch dryRun i p x. f env batch dryRun i p = Some x \<Longrightarrow> short_if_dry env batch dryRun p"
    and body: "(case pz_fails env i of
        Some e \<Rightarrow> Some (Inl e, p)
      | None \<Rightarrow>
          (let rows = select_limit env i batch (pu_rows p); q = archive_rows rows p in
           if rows = [] then Some (Inr (pu_deleted p, pu_archived p), p)
           else if dryRun then
             (let q = q\<lparr>pu_deleted := pu_deleted q + length rows\<rparr> in
              if length rows < batch then Some (Inr (pu_deleted q, pu_archived q), q)
              else f env batch dryRun (i + 1) q)
           else
             (case pz_fails env (i + 1) of
                Some e \<Rightarrow> Some (Inl e, q)
              | None \<Rightarrow>
                  (let gone = select_limit env (i + 1) batch (pu_rows p);
                       q = q\<lparr>pu_rows := without gone (pu_rows p), pu_deleted := pu_deleted q + length gone\<rparr>
                   in if length rows < batch then Some (Inr (pu_deleted q, pu_archived q), q)
                      else f env batch dryRun (i + 2) q)))) = Some x"
  show "short_if_dry env batch dryRun p"
    unfolding short_if_dry_def
  proof
    assume a: "scans_all env \<and> (\<forall>i. pz_fails env i = None) \<and> dryRun \<and> 0 < batch"
    then have len: "length (select_limit env i batch (pu_rows p)) = min batch (length (old_rows env (pu_rows p)))"
      by (simp add: length_select)
    show "length (old_rows env (pu_rows p)) < batch"
    proof (rule ccontr)
      assume full: "\<not> ?thesis"
      with len a have "length (select_limit env i batch (pu_rows p)) = batch" "select_limit env i batch (pu_rows p) \<noteq> []" by auto
      with body a obtain q where "f env batch dryRun (i + 1) q = Some x" "pu_rows q = pu_rows p"
        by (simp add: Let_def archive_rows_def)
      with ih [of env batch dryRun "i + 1" q x] a full show False by (simp add: short_if_dry_def)
    qed
  qed
qed

lemma dry_run_loops:
  assumes "scans_all env" "\<forall>i. pz_fails env i = None" "0 < batch" "batch \<le> length (old_rows env (pu_rows p))"
  shows "runBatchDelete env batch True i p = None"
  using dry_run_short [of env batch True i p] assms unfolding short_if_dry_def by (cases "runBatchDelete env batch True i p") auto

end
