(* ===== verification/RetentionFacts.thy ===== *)
theory RetentionFacts
  imports DataRetention PgSettlementStore
begin

text \<open>
  What the retention job does as a whole: flags and errors, what its archive keeps, and what its
  clauses do to the log of a settlement.
\<close>

section \<open>The job\<close>

text \<open>\<open>--dry-run\<close> changes nothing: with \<open>--apply\<close> beside it rows are deleted.\<close>

lemma dry_run_flag_ignored: "retention_main env url (args\<lparr>ra_dry_run := b\<rparr>) now db = retention_main env url args now db"
proof -
  have "ra_apply (args\<lparr>ra_dry_run := b\<rparr>) = ra_apply args" "ra_batch (args\<lparr>ra_dry_run := b\<rparr>) = ra_batch args"
    "ra_sleep (args\<lparr>ra_dry_run := b\<rparr>) = ra_sleep args" "ra_s3 (args\<lparr>ra_dry_run := b\<rparr>) = ra_s3 args"
    "ra_bucket (args\<lparr>ra_dry_run := b\<rparr>) = ra_bucket args" by simp_all
  then show ?thesis unfolding retention_main_def by (simp only:)
qed

text \<open>A batch size is read with \<open>parseInt\<close>: what follows its digits is ignored.\<close>

lemma batch_suffix_ignored: "js_parseInt ''500rows'' = Fin 500"
  by (simp add: js_parseInt_def js_space_def is_digit_def digits_value_def)

lemma run_batch_fails: "pz_fails env i = Some e \<Longrightarrow> runBatchDelete env batch dryRun i p = Some (Inl e, p)"
  by (subst runBatchDelete.simps) simp

text \<open>
  \<open>reset_at\<close> is a \<open>bigint\<close>, in seconds; the job compares it with a date. The task on the buckets
  fails on every run, so that no run that ends exits with 0.
\<close>

lemma run_task_db:
  assumes "run_task env b dry t st = Some st'" "n \<noteq> rk_table t"
  shows "jm_get (rs_db st') n = jm_get (rs_db st) n"
  using assms
  by (auto simp: run_task_def task_failed_def Let_def jm_get_set split: option.splits sum.splits prod.splits if_splits)

lemma run_task_errors:
  assumes "run_task env b dry t st = Some st'"
  shows "length (rs_errors st) \<le> length (rs_errors st')"
  using assms by (auto simp: run_task_def task_failed_def Let_def split: option.splits sum.splits prod.splits if_splits)

lemma run_tasks_db:
  assumes "run_tasks env b dry ts st = Some st'" "n \<notin> set (map rk_table ts)"
  shows "jm_get (rs_db st') n = jm_get (rs_db st) n"
  using assms
proof (induction ts arbitrary: st)
  case (Cons t ts)
  then obtain s where "run_task env b dry t st = Some s" "run_tasks env b dry ts s = Some st'"
    by (auto split: option.splits)
  with Cons.IH [of s] Cons.prems(2) run_task_db [of env b dry t st s n] show ?case by simp
qed simp

lemma run_tasks_append:
  "run_tasks env b dry (xs @ ys) st = (case run_tasks env b dry xs st of None \<Rightarrow> None | Some s \<Rightarrow> run_tasks env b dry ys s)"
  by (induction xs arbitrary: st) (simp_all split: option.splits)

lemma bigint_task_fails:
  assumes "jm_get (rs_db st) (rk_table t) = Some tb" "tb_bigint tb" "run_task env b dry t st = Some st'"
  shows "rs_errors st' \<noteq> []"
  using assms by (auto simp: run_task_def task_failed_def Let_def run_batch_fails task_env_def split: option.splits)

theorem buckets_never_purged:
  assumes "jm_get db ''rate_limit_buckets'' = Some tb" "tb_bigint tb"
    "retention_main env url args now db = Some (Exit_done code kept st)"
  shows "code = 1"
proof -
  obtain b dry where r: "run_tasks env b dry (retention_tasks now)
      \<lparr>rs_db = db, rs_open = False, rs_buffer = [], rs_tables = [], rs_totals = (0, 0), rs_errors = []\<rparr> = Some st"
    "code = (if rs_errors st = [] then 0 else 1)"
    using assms(3) by (auto simp: retention_main_def Let_def split: if_splits jsnum.splits option.splits sum.splits)
  have "\<exists>ts t. retention_tasks now = ts @ [t] \<and> rk_table t = ''rate_limit_buckets'' \<and> ''rate_limit_buckets'' \<notin> set (map rk_table ts)"
    by (rule exI [of _ "butlast (retention_tasks now)"], rule exI [of _ "last (retention_tasks now)"])
      (simp add: retention_tasks_def Let_def)
  then obtain ts t where e: "retention_tasks now = ts @ [t]" "rk_table t = ''rate_limit_buckets''"
    "''rate_limit_buckets'' \<notin> set (map rk_table ts)" by blast
  from r(1) obtain s where s: "run_tasks env b dry ts
      \<lparr>rs_db = db, rs_open = False, rs_buffer = [], rs_tables = [], rs_totals = (0, 0), rs_errors = []\<rparr> = Some s"
    "run_task env b dry t s = Some st"
    unfolding e(1) run_tasks_append by (auto split: option.splits)
  have "jm_get (rs_db s) (rk_table t) = Some tb" using run_tasks_db [OF s(1) e(3)] assms(1) e(2) by simp
  from bigint_task_fails [OF this assms(2) s(2)] r(2) show ?thesis by simp
qed

text \<open>
  With \<open>--archive-type=s3\<close> nothing is ever archived: when a row was to be, the job ends with an
  error after the rows are deleted.
\<close>

theorem s3_archive_lost:
  assumes "retention_main env url args now db = Some x" "ra_s3 args"
  shows "case x of Exit_refused \<Rightarrow> True | Exit_fatal e st \<Rightarrow> rs_buffer st \<noteq> [] | Exit_done _ kept st \<Rightarrow> kept = [] \<and> rs_buffer st = []"
  using assms
  by (auto simp: retention_main_def close_archive_def Let_def split: if_splits jsnum.splits option.splits sum.splits)

section \<open>The log of a settlement\<close>

text \<open>What the first two tasks leave of the settlement tables.\<close>

definition purge_log :: "int \<Rightarrow> sdb \<Rightarrow> sdb" where
  "purge_log cutoff db = db\<lparr>ev_table := filter (\<lambda>(k, e). cutoff \<le> recorded_at e) (ev_table db),
     proj_table := filter (\<lambda>(k, p, v). cutoff \<le> updated_at p) (proj_table db)\<rparr>"

lemma purge_log_events: "key_events (purge_log cutoff db) k = filter (\<lambda>e. cutoff \<le> recorded_at e) (key_events db k)"
  by (simp add: purge_log_def key_events_def filter_map filter_filter comp_def case_prod_unfold conj_commute)

lemma purge_log_row:
  assumes "db_ok db"
  shows "proj_get (purge_log cutoff db) k = (case proj_get db k of Some p \<Rightarrow> if cutoff \<le> updated_at p then Some p else None | None \<Rightarrow> None)"
proof -
  have "jm_wf (proj_table db)" using assms by (simp add: db_ok_def)
  from map_of_filter_wf [OF this] show ?thesis
    by (auto simp: purge_log_def proj_get_def split: option.splits)
qed

text \<open>
  The state is not looked at: a settlement whose outcome is still unknown is deleted like any other,
  and then nothing on file holds back a request that pays again.
\<close>

lemma unresolved_purged:
  assumes "db_ok db" "proj_get db k = Some p" "state p = St_unknown" "updated_at p < cutoff"
  shows "proj_get (purge_log cutoff db) k = None"
  using purge_log_row [OF assms(1)] assms(2,4) by simp

text \<open>
  Events are purged one by one, by their own age: a settlement that was submitted before the cutoff
  and changed after it keeps its row and loses the beginning of its log.
\<close>

lemma log_beheaded:
  assumes "db_ok db" "key_events db k = e # es" "recorded_at e < cutoff" "x \<in> set es" "cutoff \<le> recorded_at x"
  shows "\<not> db_ok (purge_log cutoff db)"
proof
  assume "db_ok (purge_log cutoff db)"
  then have n: "numbered 1 (filter (\<lambda>e. cutoff \<le> recorded_at e) es)"
    using assms(2,3) unfolding db_ok_def db_key_ok_def purge_log_events by (metis (no_types, lifting) filter.simps(2) not_less)
  obtain h t where f: "filter (\<lambda>e. cutoff \<le> recorded_at e) es = h # t" using assms(4,5) by (metis (no_types, lifting) filter_empty_conv neq_Nil_conv)
  then have "h \<in> set (filter (\<lambda>e. cutoff \<le> recorded_at e) es)" by simp
  then have "h \<in> set es" by simp
  have "numbered 1 (e # es)" using assms(1,2) unfolding db_ok_def db_key_ok_def by metis
  then have "numbered 2 es" by (simp add: numeral_2_eq_2)
  from numbered_seqs [OF this] have "seq h \<in> set [2..<2 + length es]" using \<open>h \<in> set es\<close> by (metis image_eqI list.set_map)
  moreover have "seq h = 1" using n by (simp add: f)
  ultimately show False by auto
qed

end
