(* ===== verification/EdgeExamples.thy ===== *)
theory EdgeExamples
  imports Examples PactScheme AuthHttp ConfigurationFacts Sep7Facts McpWallet WebhookDelivery AppEdge RetentionFacts
begin

text \<open>
  Concrete environments for the properties of the edge of the service: a pact payment that settles, a
  configuration, a payment URI, a wallet, callers, a webhook receiver, readiness and a table to purge.
\<close>

section \<open>A pact payment\<close>

definition ex_open :: invocation where
  "ex_open = \<lparr>iv_contract = ''K'', iv_fn = ''open'',
     iv_args = [JObj [(''buyer'', JStr ''B''), (''seller'', JStr ''S''), (''cap'', JStr ''5''), (''condition_hash'', JStr ''h'')]]\<rparr>"

definition ex_transfer :: auth_node where
  "ex_transfer = Auth_node (Some \<lparr>ac_contract = ''T'', ac_fn = ''transfer'', ac_args = [JStr ''B'', JStr ''K'', JStr ''5'']\<rparr>) []"

definition ex_pact_tx :: pact_tx where
  "ex_pact_tx = \<lparr>tx_source = ''B'', tx_operations = [Op_invoke None (Some (Host_invoke ex_open))
     [\<lparr>ae_credentials = Some (''B'', 110), ae_root = Auth_node (Some \<lparr>ac_contract = ''K'', ac_fn = ''open'', ac_args = []\<rparr>) [ex_transfer]\<rparr>]]\<rparr>"

definition ex_sim :: sim_success where
  "ex_sim = \<lparr>sm_minResourceFee = Fin 100,
     sm_events = [\<lparr>pe_is_contract = True, pe_contract = Some ''T'',
       pe_topics = [JStr ''transfer'', JStr ''B'', JStr ''K''], pe_data = JStr ''5''\<rparr>], sm_retval = None\<rparr>"

definition ex_pact_env :: pact_env where
  "ex_pact_env = \<lparr>pn_signers = [''F''], pn_feeBump = None, pn_contracts = (\<lambda>_. Some ''K''), pn_maxFee = 1000, pn_inclusionFee = 100,
     pn_stellar = (\<lambda>_. True), pn_decode = (\<lambda>_ _. Some ex_pact_tx), pn_simulate = (\<lambda>_. Some (Sim_ok ex_sim)), pn_latest = Some 100,
     pn_ledgerSeconds = Some 5, pn_signatures = (\<lambda>_ _. ([''B''], [])), pn_account = (\<lambda>_. True), pn_balance = (\<lambda>_ _ _. Some True),
     pn_sha256 = (\<lambda>s. s), pn_bytes = (\<lambda>_. Some ''h''), pn_number = (\<lambda>_. None), pn_rebuild = (\<lambda>_ _ _ _. Some ''unsigned''),
     pn_sign = (\<lambda>_ t. Some (Some (''signed '' @ t))), pn_bump = (\<lambda>_ _. None), pn_send = (\<lambda>_. Some (True, ''hash'')),
     pn_poll = (\<lambda>_ _. Poll_success)\<rparr>"

definition ex_pact_payload :: json where
  "ex_pact_payload = JObj [(''x402Version'', JNum 2), (''accepted'', JObj [(''scheme'', JStr ''pact''), (''network'', JStr ''n'')]),
     (''payload'', JObj [(''transaction'', JStr ''AAAA'')])]"

definition ex_pact_reqs :: json where
  "ex_pact_reqs = JObj [(''scheme'', JStr ''pact''), (''network'', JStr ''n''), (''payTo'', JStr ''S''), (''amount'', JStr ''5''),
     (''asset'', JStr ''T'')]"

lemma bigint_5: "bigint_text ''5'' = Some 5"
  by (simp add: bigint_text_def js_trim_def js_space_def radix_value_def hex_of_def)

lemma ex_pact_request: "pact_request ex_pact_env ex_pact_payload ex_pact_reqs = Inr ''K''"
  by (simp add: pact_request_def ex_pact_payload_def ex_pact_reqs_def ex_pact_env_def jprop_def js_prop_def js_same_def truthy_opt_def Let_def)

definition ex_params :: json where
  "ex_params = hd (iv_args ex_open)"

definition ex_pact_op :: pact_op where
  "ex_pact_op = hd (tx_operations ex_pact_tx)"

lemma ex_pact_call: "pact_call ex_pact_env ''K'' ex_pact_payload ex_pact_reqs = Inr (ex_pact_tx, ex_pact_op, ex_params)"
  by (simp add: pact_call_def ex_pact_payload_def ex_pact_reqs_def ex_pact_env_def jprop_def js_prop_def parseInvocation_def
      ex_pact_tx_def facilitatorAddresses_def ex_open_def ex_params_def ex_pact_op_def)

lemma ex_pact_open: "open_problem ex_pact_env ex_params ex_pact_reqs = Some (None, 5)"
  by (simp add: open_problem_def ex_params_def ex_open_def ex_pact_reqs_def ex_pact_env_def jprop_def js_prop_def names_facilitator_def
      facilitatorAddresses_def js_same_def js_BigInt_def bigint_5 agreed_problem_def pact_terms_def terms_problem_def hash_problem_def
      silence_problem_def js_lazy_or_def)

definition ex_deal :: pact_deal where
  "ex_deal = \<lparr>dl_buyer = Some (JStr ''B''), dl_contract = ''K'', dl_cap = 5, dl_asset = Some (JStr ''T'')\<rparr>"

lemma ex_pact_events: "checkEvents ex_deal (sm_events ex_sim) = Pass"
  by (simp add: checkEvents_def ex_deal_def ex_sim_def js_nth_def js_same_def transfer_amount_def js_BigInt_def bigint_5)

lemma ex_pact_auth: "pact_auth ex_pact_env ex_deal ex_pact_tx ex_pact_op ex_sim ex_pact_reqs = Pass"
  by (simp add: pact_auth_def ex_pact_env_def ex_deal_def ex_pact_op_def ex_pact_tx_def ex_pact_reqs_def ex_transfer_def jprop_def
      js_seconds_def max_ledger_def facilitatorAddresses_def SIGNATURE_EXPIRATION_LEDGER_TOLERANCE_def js_nth_def js_same_def
      js_BigInt_def bigint_5)

lemma ex_pact_verified:
  "pact_verify ex_pact_env ex_pact_payload ex_pact_reqs =
     (\<lparr>pv_isValid = True, pv_reason = None, pv_payer = Some (JStr ''B'')\<rparr>,
      Some \<lparr>vf_tx = ex_pact_tx, vf_op = ex_pact_op, vf_sim = ex_sim, vf_pactId = None\<rparr>)"
proof -
  have p: "ex_params \<noteq> JNull" "jprop ''buyer'' ex_params = Some (JStr ''B'')" "jprop ''seller'' ex_params = Some (JStr ''S'')"
    by (simp_all add: ex_params_def ex_open_def jprop_def)
  have s: "pn_simulate ex_pact_env ex_pact_tx = Some (Sim_ok ex_sim)" "\<not> js_lt (Fin (pn_maxFee ex_pact_env)) (fee_of ex_pact_env ex_sim)"
    "jprop ''asset'' ex_pact_reqs = Some (JStr ''T'')" "sm_retval ex_sim = None"
    by (simp_all add: ex_pact_env_def ex_sim_def fee_of_def ex_pact_reqs_def jprop_def)
  have t: "hasTrustline ex_pact_env (tx_source ex_pact_tx) ''S'' (Some (JStr ''T'')) = Some True"
    by (simp add: hasTrustline_def ex_pact_env_def)
  have "pact_verify_body ex_pact_env ex_pact_payload ex_pact_reqs =
      Inr (\<lparr>vf_tx = ex_pact_tx, vf_op = ex_pact_op, vf_sim = ex_sim, vf_pactId = None\<rparr>, Some (JStr ''B''))"
    using ex_pact_auth ex_pact_events unfolding ex_deal_def
    by (simp add: pact_verify_body_def ex_pact_request ex_pact_call ex_pact_open p s t Let_def)
  then show ?thesis by (simp add: pact_verify_def)
qed

lemma ex_pact_settled:
  "pact_settle ex_pact_env ex_pact_payload ex_pact_reqs 0 =
     (\<lparr>ps_success = True, ps_transaction = ''hash'', ps_error = None, ps_payer = Some (JStr ''B''), ps_pactId = None\<rparr>, Some ''signed unsigned'', 1)"
proof -
  have p: "poll_loop (\<lambda>_. Poll_success) 0 60 = None" by (simp add: numeral_eq_Suc)
  have "submitSponsored ex_pact_env ex_pact_tx ex_pact_op (selectSigner ex_pact_env 0) (js_seconds (pn_number ex_pact_env) None) =
      (Some \<lparr>st_hash = Some ''hash'', st_error = None\<rparr>, Some ''signed unsigned'')"
    using p by (simp add: submitSponsored_def send_signed_def polls_def ex_pact_env_def js_seconds_def)
  moreover have "jprop ''maxTimeoutSeconds'' ex_pact_reqs = None" by (simp add: ex_pact_reqs_def jprop_def)
  ultimately show ?thesis by (simp add: pact_settle_def ex_pact_verified pact_settled_def)
qed

section \<open>A configuration\<close>

definition ex_checks :: config_env where
  "ex_checks = \<lparr>ce_seed = (\<lambda>s. take 1 s = ''S''), ce_contract = (\<lambda>_. True), ce_sha256 = (\<lambda>s. s), ce_userinfo = (\<lambda>_. Some False),
     ce_other = (\<lambda>_. None)\<rparr>"

definition ex_process_env :: process_env where
  "ex_process_env = [(''FACILITATOR_SECRETS'', ''SA,SB''),
     (''FACILITATOR_API_KEYS'', ''shop:0123456789abcdef0123456789abcdef''), (''FACILITATOR_REVOKED_API_KEYS'', ''SHOP''),
     (''ENABLE_PUBNET'', ''true''), (''FACILITATOR_SECRET_PUBNET'', ''SC''), (''STELLAR_RPC_URL_PUBNET'', ''https://rpc'')]"

lemma default_number: "0 \<le> n \<Longrightarrow> js_integer f (int_str n) = Some n"
proof -
  assume "0 \<le> n"
  moreover have "js_trim (nat_str k) = nat_str k" for k using nat_str_digits by (rule trim_digits)
  ultimately show ?thesis using nat_str_digits digits_value_nat_str by (simp add: js_integer_def int_str_def Let_def)
qed

lemma ex_unset: "jm_get ex_process_env k = None \<Longrightarrow> env_trim ex_process_env k = None"
  by (simp add: env_trim_def)

lemma ex_fees: "net_fees ex_checks ex_process_env [] = Inr (50000, None, 250000)" "net_fees ex_checks ex_process_env ''_PUBNET'' = Inr (50000, None, 250000)"
  by (simp_all add: net_fees_def try_then_def parsePositiveInt_def parsePactContract_def parsePactFeeCeiling_def env_trim_def ex_process_env_def
    nullish_or_def default_number Let_def)

lemma ex_secrets: "parseSecrets ex_checks ex_process_env ''FACILITATOR_SECRETS'' ''FACILITATOR_SECRET'' = Inr [''SA'', ''SB'']"
  "parseSecrets ex_checks ex_process_env ''FACILITATOR_SECRETS_PUBNET'' ''FACILITATOR_SECRET_PUBNET'' = Inr [''SC'']"
  by (simp_all add: parseSecrets_def ex_process_env_def ex_checks_def nullish_def js_trim_def js_space_def)

lemma ex_keys: "env_list ex_process_env ''FACILITATOR_API_KEYS'' = [''shop:0123456789abcdef0123456789abcdef'']"
  by (simp add: env_list_def ex_process_env_def nullish_or_def js_trim_def js_space_def)

lemma ex_key_parsed: "\<exists>k. parse_api_keys ex_checks r 0 [''shop:0123456789abcdef0123456789abcdef''] = Inr k"
  by (simp add: parse_api_key_def key_parts_def try_then_def key_id_char_def key_expiry_def split_last_def MIN_API_KEY_LENGTH_def Let_def)

lemma ex_configured: "\<exists>c. resolveConfig ex_checks ex_process_env = Inr c"
proof -
  have env: "env_trim ex_process_env ''FEE_BUMP_SECRET'' = None" "env_trim ex_process_env ''FEE_BUMP_SECRET_PUBNET'' = None"
    "env_trim ex_process_env ''TRUST_PROXY'' = None" "env_trim ex_process_env ''RERANK_URL'' = None" "env_or_null ex_process_env ''VAULT_ADDR'' = None"
    "jm_get ex_process_env ''ENABLE_RERANKING'' = None" "jm_get ex_process_env ''PORT'' = None"
    "env_or_null ex_process_env ''STELLAR_RPC_URL_PUBNET'' = Some ''https://rpc''"
    by (simp_all add: env_trim_def env_or_null_def ex_process_env_def)
  have "\<exists>t. testnet_config ex_checks ex_process_env = Inr t" "\<exists>p. pubnet_config ex_checks ex_process_env = Inr p"
    by (simp_all add: testnet_config_def pubnet_config_def try_then_def ex_secrets ex_fees parseOptionalSecret_def env)
  then obtain t p where net: "testnet_config ex_checks ex_process_env = Inr t" "pubnet_config ex_checks ex_process_env = Inr p" by blast
  obtain ks where ks: "parse_api_keys ex_checks (revokedApiKeyIds ex_process_env) 0 [''shop:0123456789abcdef0123456789abcdef''] = Inr ks"
    using ex_key_parsed by blast
  have "\<exists>l. limits_of_env ex_checks ex_process_env ks = Inr l"
    by (simp add: limits_of_env_def try_then_def ex_process_env_def is_limit_override_def)
  then obtain l where l: "limits_of_env ex_checks ex_process_env ks = Inr l" by blast
  have n: "\<exists>n. networks_of_env ex_checks ex_process_env t = Inr n" by (simp add: networks_of_env_def net try_then_def)
  have p: "parsePositiveInt ex_checks None ''PORT'' 3402 1 65535 = Inr 3402" by (simp add: parsePositiveInt_def nullish_or_def default_number Let_def)
  show ?thesis
    using n by (auto simp: resolveConfig_def try_then_Inr net ks l ex_keys trust_of_env_def rerank_of_env_def vault_of_env_def env p simp del: parse_api_keys.simps)
qed

section \<open>A payment URI\<close>

definition ex_sep7 :: sep7_env where
  "ex_sep7 = \<lparr>se_account = (\<lambda>u. take 1 u = [71]), se_muxed = (\<lambda>_. False), se_contract = (\<lambda>_. False), se_protocol = (\<lambda>_. None)\<rparr>"

definition ex_pay :: pay_params where
  "ex_pay = [Py_destination \<mapsto> Py_text (units_of ''GA''), Py_amount \<mapsto> Py_text (units_of ''1.5''), Py_msg \<mapsto> Py_text (units_of ''a b'')]"

lemma ex_texts: "encodeURIComponent (units_of ''GA'') = Some ''GA''" "encodeURIComponent (units_of ''1.5'') = Some ''1.5''"
  "encodeURIComponent (units_of ''a b'') = Some ''a%20b''"
  by (simp_all add: encodeURIComponent_def units_of_def encode_point_def unreserved_def utf8_octets_def percent_octet_def hex_upper_def char_of_def
      high_unit_def low_unit_def bit_0)

lemma ex_amount: "decimal_units (units_of ''1.5'')" "hd (units_of ''1.5'') \<noteq> 45" "length (frac_units (units_of ''1.5'')) = 1"
  "units_of ''1.5'' \<noteq> []"
proof -
  have "decimal_amount ''1.5''"
    by (simp add: decimal_amount_def unsigned_decimal_def digits1_def is_digit_def del: dropWhile_eq_Nil_conv)
  then show "decimal_units (units_of ''1.5'')" using units_back [of "''1.5''"] by (simp add: decimal_units_def)
qed (simp_all add: units_of_def frac_units_def)

lemma ex_pay_valid: "validateParams ex_sep7 ex_pay = []"
proof -
  have "amount_errors (Py_text (units_of ''1.5'')) = []" using ex_amount by (simp add: STELLAR_DECIMALS_def)
  moreover have "destination_errors ex_sep7 ex_pay = []" "msg_errors ex_pay = []"
    by (simp_all add: destination_errors_def msg_errors_def ex_pay_def isValidDestination_def ex_sep7_def units_of_def err_if_def MAX_MSG_LENGTH_def)
  ultimately show ?thesis
    by (simp add: validateParams_def asset_errors_def memo_errors_def callback_errors_def passphrase_errors_def origin_errors_def
        ex_pay_def err_if_def del: amount_errors.simps)
qed

lemma ex_built: "buildPayUri ex_sep7 [] ex_pay = Built ''web+stellar:pay?destination=GA&amount=1.5&msg=a%20b''"
proof -
  have "query_items ex_pay PARAMS = Some [''destination=GA'', ''amount=1.5'', ''msg=a%20b'']"
    by (simp add: ex_pay_def PARAMS_def ex_texts)
  then show ?thesis by (simp add: buildPayUri_def ex_pay_valid SEP7_SCHEME_def)
qed

lemma ex_writable: "writable ex_pay" "amount_written ex_pay"
  by (auto simp: writable_def amount_written_def ex_pay_def text_ok_def units_of_def split: if_splits)

section \<open>A wallet\<close>

definition ex_wallet :: wallet_env where
  "ex_wallet = \<lparr>we_callCap = 1000, we_sessionCap = 1500, we_configured = True, we_timeout = 10000,
     we_required = (\<lambda>_. Inr (JObj [(''accepts'', JArr [JObj [(''maxAmountRequired'', JStr ''900'')]])])),
     we_sign = (\<lambda>_. Inr ''header''), we_settle = (\<lambda>_. Inr (JObj []))\<rparr>"

definition ex_unpaid :: fetch_end where
  "ex_unpaid = Fetch_replied \<lparr>rp_code = 402, rp_text = [], rp_json = None, rp_headers = (\<lambda>_. None)\<rparr>"

lemma ex_paying: "pay_begin ex_wallet 0 (JObj [(''url'', JStr ''https://x'')]) ex_unpaid = Paying 900 ''header''"
  by code_simp

lemma ex_session:
  "session ex_wallet 2 \<lparr>wl_spent = 0, wl_pending = [(900, ''header''), (900, ''header'')], wl_sent = [''header'', ''header'']\<rparr>"
proof -
  note o = session.opened [of ex_wallet 2]
  have "session ex_wallet 2 \<lparr>wl_spent = 0, wl_pending = [(900, ''header'')], wl_sent = [''header'']\<rparr>"
    using session.asked [OF o, of "JObj [(''url'', JStr ''https://x'')]" ex_unpaid] ex_paying by simp
  from session.asked [OF this, of "JObj [(''url'', JStr ''https://x'')]" ex_unpaid] ex_paying show ?thesis by simp
qed

section \<open>Callers\<close>

definition ex_api_keys :: "api_key list" where
  "ex_api_keys = [\<lparr>ak_id = ''shop'', ak_hash = ''secret'', ak_expires_at = Some 1000, ak_revoked = False\<rparr>]"

lemma ex_caller_in:
  "requireCallerStrict (\<lambda>s. s) ex_api_keys None (Some ''Bearer secret'') 10 = Inr \<lparr>cl_keyId = Some ''SHOP'', cl_scopes = None\<rparr>"
  by code_simp

section \<open>A receiver\<close>

definition ex_receiver :: webhook_env where
  "ex_receiver = \<lparr>wb_url = Some ''https://r'', wb_base = 0, wb_random = (\<lambda>_. 0),
     wb_authenticate = (\<lambda>_ _. Inr \<lparr>ar_agent = None, ar_headers = []\<rparr>), wb_net = (\<lambda>_ _ _ k. if k = 1 then Answered 503 else Answered 204),
     wb_uuid = ''u'', wb_now = ''now'', wb_time = 0, wb_insert_fails = (\<lambda>_. False), wb_send = (\<lambda>_ _. None), wb_topic = ''t'',
     wb_dlqTopic = None\<rparr>"

section \<open>Readiness\<close>

definition ex_node :: readiness_env where
  "ex_node = \<lparr>rd_targets = [\<lparr>tg_network = ''n'', tg_addresses = [''F''], tg_feeBump = None\<rparr>], rd_floor = 10, rd_ttl = 1000,
     rd_health = (\<lambda>_. Inr (Some ''healthy'')), rd_ledger = (\<lambda>_ _. Inr (Some 25)), rd_catalogHealth = None,
     rd_db = Some (Inr (Some True)), rd_redisProbe = None, rd_limiterProbe = None\<rparr>"

section \<open>A table to purge\<close>

definition ex_purge_env :: purge_env where
  "ex_purge_env = \<lparr>pz_old = (\<lambda>r. rr_time r < 100), pz_scan = (\<lambda>i rows. if even i then rows else rev rows), pz_fails = (\<lambda>_. None)\<rparr>"

definition ex_table :: ret_rows where
  "ex_table = map (\<lambda>i. (i, \<lparr>rr_time = 40 * int i, rr_status = [], rr_fields = []\<rparr>)) [0 ..< 5]"

lemma ex_purge_ok: "scans_all ex_purge_env" "\<forall>i. pz_fails ex_purge_env i = None"
  by (simp_all add: scans_all_def ex_purge_env_def)

lemma ex_table_old: "length (old_rows ex_purge_env ex_table) = 3" "map fst (kept_rows ex_purge_env ex_table) = [3, 4]"
  "distinct (map fst ex_table)"
  by (simp_all add: ex_table_def ex_purge_env_def upt_rec)

end
