(* ===== verification/DiscoveryRoutes.thy ===== *)
theory DiscoveryRoutes
  imports CatalogValidation CatalogSearch PgCatalog RateLimiter
begin

text \<open>
  The discovery routes of the facilitator (\<open>src/app.js\<close>: \<open>POST\<close> and \<open>GET /discovery/resources\<close>,
  \<open>GET\<close> and \<open>DELETE /discovery/resource\<close>, \<open>GET /discovery/search\<close>) and the validators of their answers
  (\<open>src/catalog/discovery-cache.js\<close>).

  A route is a function of the catalog store's operations, of the limiter's and of the request, on
  the state of both. A query parameter is a text or missing; only \<open>extensions\<close> may be repeated. The
  audit trail is left out.
\<close>

section \<open>discovery-cache.js\<close>

text \<open>A parameter's value: a list of texts, or anything else.\<close>

definition canonical_value :: "json \<Rightarrow> json" where
  "canonical_value v = (case v of JArr xs \<Rightarrow> JArr (js_sort_by js_text xs) | _ \<Rightarrow> JStr (js_text v))"

definition canonicalizeDiscoveryParams :: "(string \<times> json option) list \<Rightarrow> string" where
  "canonicalizeDiscoveryParams params =
     json_stringify (JObj (concat (map
       (\<lambda>(k, v). case v of None \<Rightarrow> [] | Some j \<Rightarrow> if j = JNull then [] else [(k, canonical_value j)])
       (js_sort_by fst params))))"

text \<open>\<open>hash\<close> is SHA-1 in base64url without padding.\<close>

definition discoveryETag :: "(string \<Rightarrow> string) \<Rightarrow> nat \<Rightarrow> (string \<times> json option) list \<Rightarrow> string" where
  "discoveryETag hash version params =
     ''W/'' @ [CHR 0x22] @ nat_str version @ ''-'' @ hash (canonicalizeDiscoveryParams params) @ [CHR 0x22]"

record cache_headers =
  ch_control :: string
  ch_etag :: string
  ch_modified :: "int option"

record cache_policy =
  cp_maxAge :: int
  cp_stale :: int

definition notModified :: "string option \<Rightarrow> string \<Rightarrow> bool" where
  "notModified inm etag =
     (case inm of None \<Rightarrow> False
      | Some s \<Rightarrow> s \<noteq> [] \<and> etag \<in> set (map js_trim (js_split (CHR '','') s)))"

definition applyDiscoveryCache ::
  "(string \<Rightarrow> string) \<Rightarrow> string option \<Rightarrow> nat \<Rightarrow> int option \<Rightarrow> cache_policy option \<Rightarrow> (string \<times> json option) list
     \<Rightarrow> cache_headers \<times> bool" where
  "applyDiscoveryCache hash inm version lastModified cfg params =
     (let policy = nullish_or cfg \<lparr>cp_maxAge = 60, cp_stale = 300\<rparr>;
          etag = discoveryETag hash version params
      in (\<lparr>ch_control = ''public, max-age='' @ int_str (cp_maxAge policy) @ '', stale-while-revalidate='' @ int_str (cp_stale policy),
           ch_etag = etag, ch_modified = lastModified\<rparr>,
          notModified inm etag))"

section \<open>The routes\<close>

record 'c catalog_ops =
  cs_get :: "string \<Rightarrow> string option \<Rightarrow> 'c \<Rightarrow> entry option"
  cs_upsert :: "resource \<Rightarrow> string \<Rightarrow> 'c \<Rightarrow> (catalog_error + entry) \<times> 'c"
  cs_delete :: "string \<Rightarrow> string option \<Rightarrow> 'c \<Rightarrow> (catalog_error + entry option) \<times> 'c"
  cs_list :: "filters \<Rightarrow> int option \<Rightarrow> int option \<Rightarrow> 'c \<Rightarrow> entry list \<times> nat"
  cs_search :: "search_params \<Rightarrow> 'c \<Rightarrow> search_page"
  cs_version :: "'c \<Rightarrow> nat"
  cs_modified :: "'c \<Rightarrow> int option"

record 'l read_limits =
  lm_checkCatalog :: "rl_request \<Rightarrow> 'l \<Rightarrow> check \<times> 'l"
  lm_recordCatalog :: "rl_request \<Rightarrow> 'l \<Rightarrow> check option \<times> 'l"
  lm_checkRead :: "rl_request \<Rightarrow> 'l \<Rightarrow> check \<times> 'l"
  lm_recordRead :: "rl_request \<Rightarrow> 'l \<Rightarrow> check option \<times> 'l"

record disc_env =
  de_sdk :: discovery_sdk
  de_hash :: "string \<Rightarrow> string"
  de_policy :: "cache_policy option"
  de_nowSec :: int

record disc_query =
  dq_caller :: rl_request
  dq_url :: "string option"
  dq_toolName :: "string option"
  dq_query :: "string option"
  dq_type :: "string option"
  dq_payTo :: "string option"
  dq_scheme :: "string option"
  dq_network :: "string option"
  dq_extensions :: "(string list + string) option"
  dq_limit :: "string option"
  dq_offset :: "string option"
  dq_cursor :: "string option"
  dq_if_none_match :: "string option"

record ('c, 'l) disc_state =
  ds_catalog :: 'c
  ds_limits :: 'l
  ds_announced :: "string list"   \<comment> \<open>reasons of the invalidations announced to the other replicas\<close>

datatype disc_body =
    D_error string string
  | D_bad bad_body
  | D_limited "string option"
  | D_written entry "string list" "string list"
  | D_removed string "string option"
  | D_resource entry
  | D_items "entry list" int int nat
  | D_page search_page
  | D_empty

record disc_answer =
  da_status :: int
  da_limits :: "rl_headers option"
  da_cache :: "cache_headers option"
  da_body :: disc_body

definition disc_reply :: "int \<Rightarrow> disc_body \<Rightarrow> disc_answer" where
  "disc_reply code b = \<lparr>da_status = code, da_limits = None, da_cache = None, da_body = b\<rparr>"

text \<open>\<open>handleRateLimit(reply, ...)\<close>: its headers on the answer, or its refusal instead of it.\<close>

definition disc_limited :: "int \<Rightarrow> check option list \<Rightarrow> disc_answer \<Rightarrow> disc_answer" where
  "disc_limited now states a =
     (case handleRateLimit now states of
        None \<Rightarrow> a
      | Some (h, None) \<Rightarrow> a\<lparr>da_limits := Some h\<rparr>
      | Some (h, Some rj) \<Rightarrow> \<lparr>da_status = rj_status rj, da_limits = Some h, da_cache = da_cache a, da_body = D_limited (rj_reason rj)\<rparr>)"

definition refused_by :: "int \<Rightarrow> check option list \<Rightarrow> bool" where
  "refused_by now states = (case handleRateLimit now states of Some (_, Some _) \<Rightarrow> True | _ \<Rightarrow> False)"

definition error_code :: "catalog_error \<Rightarrow> string" where
  "error_code e = (case e of Max_per_payTo \<Rightarrow> ''maximum_resources_per_payto_exceeded'' | Max_size \<Rightarrow> ''maximum_catalog_size_exceeded'' | Delete_failed \<Rightarrow> ''catalog_delete_failed'')"

text \<open>\<open>req.query.extensions\<close>, as it is or split at its commas; an empty text is none.\<close>

definition query_extensions :: "disc_query \<Rightarrow> string list option" where
  "query_extensions q =
     (case dq_extensions q of
        None \<Rightarrow> None
      | Some (Inl xs) \<Rightarrow> Some xs
      | Some (Inr s) \<Rightarrow> if s = [] then None else Some (js_split (CHR '','') s))"

definition clamp_limit :: "string option \<Rightarrow> int" where
  "clamp_limit s =
     (let parsed = (case s of None \<Rightarrow> NaN | Some t \<Rightarrow> js_parseInt t);
          n = (case parsed of NaN \<Rightarrow> 20 | Fin i \<Rightarrow> i)
      in min (max 1 n) 100)"

definition clamp_offset :: "string option \<Rightarrow> int" where
  "clamp_offset s =
     (let parsed = (case s of None \<Rightarrow> NaN | Some t \<Rightarrow> js_parseInt t);
          n = (case parsed of NaN \<Rightarrow> 0 | Fin i \<Rightarrow> i)
      in max 0 n)"

definition query_filters :: "disc_query \<Rightarrow> filters" where
  "query_filters q = \<lparr>fl_type = dq_type q, fl_payTo = dq_payTo q, fl_scheme = dq_scheme q, fl_network = dq_network q,
     fl_extensions = query_extensions q\<rparr>"

definition filter_params :: "disc_query \<Rightarrow> (string \<times> json option) list" where
  "filter_params q =
     [(''type'', map_option JStr (dq_type q)), (''payTo'', map_option JStr (dq_payTo q)),
      (''scheme'', map_option JStr (dq_scheme q)), (''network'', map_option JStr (dq_network q)),
      (''extensions'', map_option (\<lambda>xs. JArr (map JStr xs)) (query_extensions q)),
      (''limit'', Some (JNum (clamp_limit (dq_limit q))))]"

definition list_params :: "disc_query \<Rightarrow> (string \<times> json option) list" where
  "list_params q = filter_params q @ [(''offset'', Some (JNum (clamp_offset (dq_offset q))))]"

definition search_params_of :: "disc_query \<Rightarrow> search_params" where
  "search_params_of q = \<lparr>fl_type = dq_type q, fl_payTo = dq_payTo q, fl_scheme = dq_scheme q, fl_network = dq_network q,
     fl_extensions = query_extensions q, sp_query = nullish_or (dq_query q) [], sp_limit = Some (clamp_limit (dq_limit q)),
     sp_cursor = dq_cursor q\<rparr>"

definition search_etag_params :: "disc_query \<Rightarrow> (string \<times> json option) list" where
  "search_etag_params q = (''query'', map_option JStr (dq_query q)) # filter_params q @ [(''cursor'', map_option JStr (dq_cursor q))]"

definition cached :: "disc_env \<Rightarrow> 'c catalog_ops \<Rightarrow> disc_query \<Rightarrow> (string \<times> json option) list \<Rightarrow> 'c \<Rightarrow> cache_headers \<times> bool" where
  "cached env ops q params c =
     applyDiscoveryCache (de_hash env) (dq_if_none_match q) (cs_version ops c) (cs_modified ops c) (de_policy env) params"

text \<open>\<open>POST /discovery/resources\<close>; the request's key is the caller's, its body what the schema let through.\<close>

definition post_resource ::
  "disc_env \<Rightarrow> 'c catalog_ops \<Rightarrow> 'l read_limits \<Rightarrow> rl_request \<Rightarrow> bool \<Rightarrow> json \<Rightarrow> ('c, 'l) disc_state
     \<Rightarrow> disc_answer \<times> ('c, 'l) disc_state" where
  "post_resource env ops lm caller schema_refused body st =
     (case readDiscoveryBody schema_refused body of
        Inl bad \<Rightarrow> (disc_reply 400 (D_bad bad), st)
      | Inr (payload, reqs) \<Rightarrow>
          (case lm_checkCatalog lm caller (ds_limits st) of
             (check, l1) \<Rightarrow>
               (let st1 = st\<lparr>ds_limits := l1\<rparr> in
                if \<not> ck_allowed check then (disc_limited (de_nowSec env) [Some check] (disc_reply 200 D_empty), st1)
                else
                  (let v = validateForCatalog (de_sdk env) None payload reqs in
                   if vr_hardDrop v
                   then (disc_reply 400 (D_error ''invalid_resource'' (nullish_or (vr_reason v) [])), st1)
                   else
                     (let (recorded, l2) = lm_recordCatalog lm caller (ds_limits st1);
                          st2 = st1\<lparr>ds_limits := l2\<rparr>;
                          states = [recorded, Some check];
                          r = the (vr_resource v)
                      in if refused_by (de_nowSec env) states
                         then (disc_limited (de_nowSec env) states (disc_reply 200 D_empty), st2)
                         else
                           (case cs_upsert ops r ''manual'' (ds_catalog st2) of
                              (Inl e, c) \<Rightarrow>
                                (disc_limited (de_nowSec env) states (disc_reply 400 (D_error ''catalog_error'' (error_code e))),
                                 st2\<lparr>ds_catalog := c\<rparr>)
                            | (Inr entry, c) \<Rightarrow>
                                (disc_limited (de_nowSec env) states
                                   (disc_reply 200 (D_written entry (vr_softDrops v) (vr_truncations v))),
                                 st2\<lparr>ds_catalog := c, ds_announced := ds_announced st2 @ [''cataloging:manual'']\<rparr>)))))))"

text \<open>\<open>GET /discovery/resource\<close>: no validators on a listing that is not there.\<close>

definition get_resource_route ::
  "disc_env \<Rightarrow> 'c catalog_ops \<Rightarrow> 'l read_limits \<Rightarrow> disc_query \<Rightarrow> ('c, 'l) disc_state \<Rightarrow> disc_answer \<times> ('c, 'l) disc_state" where
  "get_resource_route env ops lm q st =
     (case lm_checkRead lm (dq_caller q) (ds_limits st) of
        (check, l1) \<Rightarrow>
          (let st1 = st\<lparr>ds_limits := l1\<rparr> in
           if \<not> ck_allowed check then (disc_limited (de_nowSec env) [Some check] (disc_reply 200 D_empty), st1)
           else
             (case dq_url q of
                None \<Rightarrow> (disc_reply 400 (D_error ''invalid_request'' ''url is required''), st1)
              | Some url \<Rightarrow>
                  if url = [] then (disc_reply 400 (D_error ''invalid_request'' ''url is required''), st1)
                  else
                    (let found = cs_get ops url (dq_toolName q) (ds_catalog st1);
                         (recorded, l2) = lm_recordRead lm (dq_caller q) (ds_limits st1);
                         st2 = st1\<lparr>ds_limits := l2\<rparr>;
                         answer = disc_limited (de_nowSec env) [recorded, Some check]
                     in (case found of
                           None \<Rightarrow> answer (disc_reply 404 (D_error ''not_found'' ''resource_not_found''))
                         | Some e \<Rightarrow>
                             (let (h, same) = cached env ops q
                                    [(''url'', Some (JStr url)), (''toolName'', map_option JStr (dq_toolName q))] (ds_catalog st2)
                              in if refused_by (de_nowSec env) [recorded, Some check] then answer (disc_reply 200 D_empty)
                                 else if same then (answer (disc_reply 304 D_empty))\<lparr>da_cache := Some h\<rparr>
                                 else (answer (disc_reply 200 (D_resource e)))\<lparr>da_cache := Some h\<rparr>),
                         st2)))))"

text \<open>\<open>DELETE /discovery/resource\<close>\<close>

definition delete_resource ::
  "disc_env \<Rightarrow> 'c catalog_ops \<Rightarrow> 'l read_limits \<Rightarrow> disc_query \<Rightarrow> ('c, 'l) disc_state \<Rightarrow> disc_answer \<times> ('c, 'l) disc_state" where
  "delete_resource env ops lm q st =
     (case lm_checkCatalog lm (dq_caller q) (ds_limits st) of
        (check, l1) \<Rightarrow>
          (let st1 = st\<lparr>ds_limits := l1\<rparr> in
           if \<not> ck_allowed check then (disc_limited (de_nowSec env) [Some check] (disc_reply 200 D_empty), st1)
           else
             (case dq_url q of
                None \<Rightarrow> (disc_reply 400 (D_error ''invalid_request'' ''url is required''), st1)
              | Some url \<Rightarrow>
                  if url = [] then (disc_reply 400 (D_error ''invalid_request'' ''url is required''), st1)
                  else
                    (let (recorded, l2) = lm_recordCatalog lm (dq_caller q) (ds_limits st1);
                         st2 = st1\<lparr>ds_limits := l2\<rparr>;
                         states = [recorded, Some check]
                     in if refused_by (de_nowSec env) states
                        then (disc_limited (de_nowSec env) states (disc_reply 200 D_empty), st2)
                        else
                          (case cs_delete ops url (dq_toolName q) (ds_catalog st2) of
                             (Inl e, c) \<Rightarrow>
                               (disc_limited (de_nowSec env) states (disc_reply 500 (D_error ''catalog_error'' (error_code e))),
                                st2\<lparr>ds_catalog := c\<rparr>)
                           | (Inr None, c) \<Rightarrow>
                               (disc_limited (de_nowSec env) states (disc_reply 404 (D_error ''not_found'' ''resource_not_found'')),
                                st2\<lparr>ds_catalog := c\<rparr>)
                           | (Inr (Some e), c) \<Rightarrow>
                               (disc_limited (de_nowSec env) states (disc_reply 200 (D_removed (rs_url e) (rs_toolName e))),
                                st2\<lparr>ds_catalog := c, ds_announced := ds_announced st2 @ [''cataloging:delete'']\<rparr>))))))"

text \<open>
  \<open>GET /discovery/resources\<close> and \<open>GET /discovery/search\<close>: an answer that has not changed is given
  before the read is recorded.
\<close>

definition list_resources_route ::
  "disc_env \<Rightarrow> 'c catalog_ops \<Rightarrow> 'l read_limits \<Rightarrow> disc_query \<Rightarrow> ('c, 'l) disc_state \<Rightarrow> disc_answer \<times> ('c, 'l) disc_state" where
  "list_resources_route env ops lm q st =
     (case lm_checkRead lm (dq_caller q) (ds_limits st) of
        (check, l1) \<Rightarrow>
          (let st1 = st\<lparr>ds_limits := l1\<rparr> in
           if \<not> ck_allowed check then (disc_limited (de_nowSec env) [Some check] (disc_reply 200 D_empty), st1)
           else
             (let (h, same) = cached env ops q (list_params q) (ds_catalog st1) in
              if same then ((disc_reply 304 D_empty)\<lparr>da_cache := Some h\<rparr>, st1)
              else
                (let limit = clamp_limit (dq_limit q); offset = clamp_offset (dq_offset q);
                     (items, total) = cs_list ops (query_filters q) (Some limit) (Some offset) (ds_catalog st1);
                     (recorded, l2) = lm_recordRead lm (dq_caller q) (ds_limits st1)
                 in (disc_limited (de_nowSec env) [recorded, Some check]
                       ((disc_reply 200 (D_items items limit offset total))\<lparr>da_cache := Some h\<rparr>),
                     st1\<lparr>ds_limits := l2\<rparr>)))))"

definition search_route ::
  "disc_env \<Rightarrow> 'c catalog_ops \<Rightarrow> 'l read_limits \<Rightarrow> disc_query \<Rightarrow> ('c, 'l) disc_state \<Rightarrow> disc_answer \<times> ('c, 'l) disc_state" where
  "search_route env ops lm q st =
     (case lm_checkRead lm (dq_caller q) (ds_limits st) of
        (check, l1) \<Rightarrow>
          (let st1 = st\<lparr>ds_limits := l1\<rparr> in
           if \<not> ck_allowed check then (disc_limited (de_nowSec env) [Some check] (disc_reply 200 D_empty), st1)
           else if nullish_or (dq_query q) [] = [] then (disc_reply 400 (D_error ''invalid_request'' ''query is required''), st1)
           else
             (let (h, same) = cached env ops q (search_etag_params q) (ds_catalog st1) in
              if same then ((disc_reply 304 D_empty)\<lparr>da_cache := Some h\<rparr>, st1)
              else
                (let page = cs_search ops (search_params_of q) (ds_catalog st1);
                     (recorded, l2) = lm_recordRead lm (dq_caller q) (ds_limits st1)
                 in (disc_limited (de_nowSec env) [recorded, Some check]
                       ((disc_reply 200 (D_page page))\<lparr>da_cache := Some h\<rparr>),
                     st1\<lparr>ds_limits := l2\<rparr>)))))"

end
