(* ===== verification/DiscoveryFacts.thy ===== *)
theory DiscoveryFacts
  imports DiscoveryRoutes
begin

text \<open>
  What the discovery routes promise over any catalog store: a published listing is served and passed
  the policy, a removed one is gone, the validators of an answer change with every write. The store's
  contract is the locale \<open>catalog_store\<close>, interpreted on the store in memory and on the durable one.
\<close>

section \<open>The stores behind the routes\<close>

definition mem_catalog ::
  "catalog_config \<Rightarrow> (string \<Rightarrow> string) \<Rightarrow> bool \<Rightarrow> real list option \<Rightarrow> (entry list \<Rightarrow> entry list) option \<Rightarrow> int \<Rightarrow> catalog catalog_ops" where
  "mem_catalog cfg coll provider qv rr now =
     \<lparr>cs_get = getResource now,
      cs_upsert = (\<lambda>r source. upsertResource cfg (scheduleEmbed provider) r source now),
      cs_delete = (\<lambda>url tool c. case deleteResource url tool now c of (r, c') \<Rightarrow> (Inr r, c')),
      cs_list = listResources coll now,
      cs_search = search coll provider qv rr now,
      cs_version = ct_version,
      cs_modified = (\<lambda>c. if ct_modified c = 0 then None else Some (ct_modified c))\<rparr>"

definition pg_store ::
  "catalog_config \<Rightarrow> (string \<Rightarrow> string) \<Rightarrow> bool \<Rightarrow> real list option \<Rightarrow> (entry list \<Rightarrow> entry list) option \<Rightarrow> bool \<Rightarrow> int \<Rightarrow> pg_catalog catalog_ops" where
  "pg_store cfg coll provider qv rr ok now =
     \<lparr>cs_get = (\<lambda>url tool st. getResource now url tool (pc_mem st)),
      cs_upsert = (\<lambda>r source. pc_upsert cfg provider r source now),
      cs_delete = (\<lambda>url tool. pc_delete ok url tool now),
      cs_list = (\<lambda>f lm off st. listResources coll now f lm off (pc_mem st)),
      cs_search = (\<lambda>p st. search coll provider qv rr now p (pc_mem st)),
      cs_version = (\<lambda>st. ct_version (pc_mem st)),
      cs_modified = (\<lambda>st. if ct_modified (pc_mem st) = 0 then None else Some (ct_modified (pc_mem st)))\<rparr>"

section \<open>The contract\<close>

locale catalog_store =
  fixes ops :: "int \<Rightarrow> 'c catalog_ops" and sound :: "'c \<Rightarrow> bool"
  assumes upsert_sound: "sound c \<Longrightarrow> cs_upsert (ops now) r source c = (x, c') \<Longrightarrow> sound c'"
    and delete_sound: "sound c \<Longrightarrow> cs_delete (ops now) url tool c = (y, c') \<Longrightarrow> sound c'"
    and upsert_listing: "cs_upsert (ops now) r source c = (Inr e, c')
        \<Longrightarrow> cat_key e = cat_key r \<and> rs_url e = rs_url r \<and> rs_description e = rs_description r"
    and upsert_served: "cs_upsert (ops now) r ''manual'' c = (Inr e, c') \<Longrightarrow> cat_key r = listing_key url tool
        \<Longrightarrow> cs_get (ops now') url tool c' = Some e"
    and upsert_other: "cs_upsert (ops now) r source c = (x, c') \<Longrightarrow> cat_key r \<noteq> listing_key url tool
        \<Longrightarrow> cs_get (ops now') url tool c' = cs_get (ops now') url tool c"
    and upsert_version: "cs_upsert (ops now) r source c = (Inr e, c') \<Longrightarrow> cs_version (ops now1) c < cs_version (ops now2) c'"
    and delete_gone: "sound c \<Longrightarrow> cs_delete (ops now) url tool c = (Inr z, c')
        \<Longrightarrow> listing_key url' tool' = listing_key url tool \<Longrightarrow> cs_get (ops now') url' tool' c' = None"
    and delete_other: "cs_delete (ops now) url tool c = (y, c') \<Longrightarrow> listing_key url' tool' \<noteq> listing_key url tool
        \<Longrightarrow> cs_get (ops now') url' tool' c' = cs_get (ops now') url' tool' c"
    and delete_version: "cs_delete (ops now) url tool c = (Inr (Some e), c') \<Longrightarrow> cs_version (ops now1) c < cs_version (ops now2) c'"

section \<open>Validators\<close>

lemma etag_version:
  assumes "discoveryETag hash v p = discoveryETag hash' v' p'"
  shows "v = v'"
proof -
  have "nat_str v @ ''-'' @ hash (canonicalizeDiscoveryParams p) @ [CHR 0x22]
      = nat_str v' @ ''-'' @ hash' (canonicalizeDiscoveryParams p') @ [CHR 0x22]"
    using assms by (simp add: discoveryETag_def)
  then show ?thesis by (rule nat_str_app_inj [THEN conjunct1]) (simp_all add: is_digit_def)
qed

lemma cached_etag: "ch_etag (fst (cached env ops q p c)) = discoveryETag (de_hash env) (cs_version ops c) p"
  by (simp add: cached_def applyDiscoveryCache_def Let_def)

lemma cached_same: "snd (cached env ops q p c) \<longleftrightarrow> notModified (dq_if_none_match q) (discoveryETag (de_hash env) (cs_version ops c) p)"
  by (simp add: cached_def applyDiscoveryCache_def Let_def)

lemma disc_limited_passes:
  assumes "\<not> refused_by now states"
  shows "da_status (disc_limited now states a) = da_status a" "da_body (disc_limited now states a) = da_body a"
    "da_cache (disc_limited now states a) = da_cache a"
  using assms by (auto simp: disc_limited_def refused_by_def split: option.splits)

text \<open>A read that the limiter lets through, before and after it is counted.\<close>

definition read_passes :: "disc_env \<Rightarrow> 'l read_limits \<Rightarrow> disc_query \<Rightarrow> 'l \<Rightarrow> bool" where
  "read_passes env lm q l =
     (let (check, l1) = lm_checkRead lm (dq_caller q) l; (recorded, l2) = lm_recordRead lm (dq_caller q) l1
      in ck_allowed check \<and> \<not> refused_by (de_nowSec env) [recorded, Some check])"

section \<open>What the routes answer\<close>

lemma validated:
  assumes "\<not> vr_hardDrop (validateForCatalog sdk assets payload reqs)"
  shows "validateForCatalog sdk assets payload reqs = validatePolicy sdk assets payload reqs createResult"
  using assms by (simp add: validateForCatalog_def validateDiscoveryPolicy_def is_object_def jprop_def Let_def split: if_splits)

lemma post_writes:
  assumes "post_resource env ops lm caller sr body st = (a, st')" "da_body a = D_written e sd tr"
  obtains payload reqs r where "readDiscoveryBody sr body = Inr (payload, reqs)"
    "vr_resource (validatePolicy (de_sdk env) None payload reqs createResult) = Some r"
    "\<not> vr_hardDrop (validatePolicy (de_sdk env) None payload reqs createResult)"
    "cs_upsert ops r ''manual'' (ds_catalog st) = (Inr e, ds_catalog st')"
    "da_status a = 200" "ds_announced st' = ds_announced st @ [''cataloging:manual'']"
proof (cases "readDiscoveryBody sr body")
  case (Inl b)
  with assms show ?thesis by (auto simp: post_resource_def disc_reply_def)
next
  case (Inr pr)
  obtain payload reqs where pr: "pr = (payload, reqs)" by (metis surj_pair)
  obtain check l1 where ck: "lm_checkCatalog lm caller (ds_limits st) = (check, l1)" by (metis surj_pair)
  obtain rcd l2 where rec: "lm_recordCatalog lm caller l1 = (rcd, l2)" by (metis surj_pair)
  let ?v = "validateForCatalog (de_sdk env) None payload reqs"
  let ?states = "[rcd, Some check]"
  have allowed: "ck_allowed check"
    using assms by (rule_tac ccontr) (auto simp: post_resource_def Inr pr ck disc_reply_def disc_limited_def split: option.splits)
  have kept: "\<not> vr_hardDrop ?v"
    using assms allowed by (rule_tac ccontr) (auto simp: post_resource_def Inr pr ck disc_reply_def Let_def)
  have pass: "\<not> refused_by (de_nowSec env) ?states"
    using assms allowed kept
    by (rule_tac ccontr) (auto simp: post_resource_def Inr pr ck rec disc_reply_def disc_limited_def Let_def split: option.splits)
  obtain x c where up: "cs_upsert ops (the (vr_resource ?v)) ''manual'' (ds_catalog st) = (x, c)" by (metis surj_pair)
  have "x = Inr e \<and> c = ds_catalog st' \<and> da_status a = 200 \<and> ds_announced st' = ds_announced st @ [''cataloging:manual'']"
    using assms allowed kept pass up
    by (cases x) (auto simp: post_resource_def Inr pr ck rec Let_def disc_limited_passes disc_reply_def)
  moreover obtain r where "vr_resource ?v = Some r"
    using kept validated [OF kept] by (metis policy_admitted)
  ultimately show ?thesis
    using that [of payload reqs r] Inr pr kept validated [OF kept] up by simp
qed

lemma delete_removes:
  assumes "delete_resource env ops lm q st = (a, st')" "da_body a = D_removed u t"
  obtains url e where "dq_url q = Some url" "url \<noteq> []"
    "cs_delete ops url (dq_toolName q) (ds_catalog st) = (Inr (Some e), ds_catalog st')"
    "da_status a = 200" "ds_announced st' = ds_announced st @ [''cataloging:delete'']"
proof -
  obtain check l1 where ck: "lm_checkCatalog lm (dq_caller q) (ds_limits st) = (check, l1)" by (metis surj_pair)
  obtain rcd l2 where rec: "lm_recordCatalog lm (dq_caller q) l1 = (rcd, l2)" by (metis surj_pair)
  have allowed: "ck_allowed check"
    using assms by (rule_tac ccontr) (auto simp: delete_resource_def ck disc_reply_def disc_limited_def split: option.splits)
  obtain url where url: "dq_url q = Some url" "url \<noteq> []"
    using assms allowed by (cases "dq_url q") (auto simp: delete_resource_def ck disc_reply_def Let_def split: if_splits)
  have pass: "\<not> refused_by (de_nowSec env) [rcd, Some check]"
    using assms allowed url
    by (rule_tac ccontr) (auto simp: delete_resource_def ck rec disc_reply_def disc_limited_def Let_def split: option.splits)
  obtain x c where del: "cs_delete ops url (dq_toolName q) (ds_catalog st) = (x, c)" by (metis surj_pair)
  have "\<exists>e. x = Inr (Some e) \<and> c = ds_catalog st' \<and> da_status a = 200 \<and> ds_announced st' = ds_announced st @ [''cataloging:delete'']"
    using assms allowed url pass del
    by (auto simp: delete_resource_def ck rec Let_def disc_limited_passes disc_reply_def split: sum.splits option.splits)
  with that url del show ?thesis by blast
qed

lemma get_answers:
  assumes "read_passes env lm q (ds_limits st)" "dq_url q = Some url" "url \<noteq> []" "dq_if_none_match q = None"
  shows "da_status (fst (get_resource_route env ops lm q st)) = (if cs_get ops url (dq_toolName q) (ds_catalog st) = None then 404 else 200)"
    "da_body (fst (get_resource_route env ops lm q st)) =
       (case cs_get ops url (dq_toolName q) (ds_catalog st) of None \<Rightarrow> D_error ''not_found'' ''resource_not_found'' | Some e \<Rightarrow> D_resource e)"
proof -
  obtain check l1 where ck: "lm_checkRead lm (dq_caller q) (ds_limits st) = (check, l1)" by (metis surj_pair)
  obtain rcd l2 where rec: "lm_recordRead lm (dq_caller q) l1 = (rcd, l2)" by (metis surj_pair)
  have pass: "ck_allowed check" "\<not> refused_by (de_nowSec env) [rcd, Some check]"
    using assms(1) by (simp_all add: read_passes_def ck rec)
  have same: "\<not> snd (cached env ops q p c)" for p c by (simp add: cached_same notModified_def assms(4))
  show "da_status (fst (get_resource_route env ops lm q st)) = (if cs_get ops url (dq_toolName q) (ds_catalog st) = None then 404 else 200)"
    "da_body (fst (get_resource_route env ops lm q st)) =
       (case cs_get ops url (dq_toolName q) (ds_catalog st) of None \<Rightarrow> D_error ''not_found'' ''resource_not_found'' | Some e \<Rightarrow> D_resource e)"
    using assms(2,3) pass same
    by (simp_all add: get_resource_route_def ck rec Let_def disc_limited_passes disc_reply_def case_prod_unfold split: option.splits)
qed

section \<open>Over any store\<close>

context catalog_store begin

lemma published_served:
  assumes "post_resource env (ops now) lm caller sr body st = (a, st')" "da_body a = D_written e sd tr"
    "read_passes env2 lm2 q l2" "dq_url q = Some url" "url \<noteq> []" "dq_if_none_match q = None"
    "cat_key e = listing_key url (dq_toolName q)"
  shows "da_body (fst (get_resource_route env2 (ops now') lm2 q (st'\<lparr>ds_limits := l2\<rparr>))) = D_resource e"
proof -
  obtain payload reqs r where up: "cs_upsert (ops now) r ''manual'' (ds_catalog st) = (Inr e, ds_catalog st')"
    using post_writes [OF assms(1,2)] by metis
  have "cs_get (ops now') url (dq_toolName q) (ds_catalog st') = Some e"
    using upsert_served [OF up] upsert_listing [OF up] assms(7) by simp
  then show ?thesis using get_answers(2) [of env2 lm2 q "st'\<lparr>ds_limits := l2\<rparr>" url "ops now'"] assms(3-6) by simp
qed

lemma removed_gone:
  assumes "sound (ds_catalog st)" "delete_resource env (ops now) lm p st = (a, st')" "da_body a = D_removed u t"
    "read_passes env2 lm2 q l2" "dq_url q = dq_url p" "dq_toolName q = dq_toolName p" "dq_if_none_match q = None"
  shows "da_status (fst (get_resource_route env2 (ops now') lm2 q (st'\<lparr>ds_limits := l2\<rparr>))) = 404"
proof -
  obtain url e where del: "dq_url p = Some url" "url \<noteq> []" "cs_delete (ops now) url (dq_toolName p) (ds_catalog st) = (Inr (Some e), ds_catalog st')"
    using delete_removes [OF assms(2,3)] by metis
  have "cs_get (ops now') url (dq_toolName q) (ds_catalog st') = None"
    using delete_gone [OF assms(1) del(3), of url "dq_toolName q"] assms(6) by simp
  then show ?thesis using get_answers(1) [of env2 lm2 q "st'\<lparr>ds_limits := l2\<rparr>" url "ops now'"] assms(4-7) del by simp
qed

lemma published_version:
  assumes "post_resource env (ops now) lm caller sr body st = (a, st')" "da_body a = D_written e sd tr"
  shows "ch_etag (fst (cached env1 (ops now1) q p (ds_catalog st))) \<noteq> ch_etag (fst (cached env2 (ops now2) q' p' (ds_catalog st')))"
proof -
  obtain r where up: "cs_upsert (ops now) r ''manual'' (ds_catalog st) = (Inr e, ds_catalog st')"
    using post_writes [OF assms] by metis
  from upsert_version [OF this, of now1 now2] show ?thesis by (auto simp: cached_etag dest!: etag_version)
qed

lemma removed_version:
  assumes "delete_resource env (ops now) lm d st = (a, st')" "da_body a = D_removed u t"
  shows "ch_etag (fst (cached env1 (ops now1) q p (ds_catalog st))) \<noteq> ch_etag (fst (cached env2 (ops now2) q' p' (ds_catalog st')))"
proof -
  obtain url e where del: "cs_delete (ops now) url (dq_toolName d) (ds_catalog st) = (Inr (Some e), ds_catalog st')"
    using delete_removes [OF assms] by metis
  from delete_version [OF this, of now1 now2] show ?thesis by (auto simp: cached_etag dest!: etag_version)
qed

end

section \<open>The model's stores\<close>

lemma upsert_fields:
  assumes "upsertResource cfg (scheduleEmbed provider) r source now c = (Inr e, c')"
  shows "cat_key e = cat_key r" "rs_url e = rs_url r" "rs_description e = rs_description r"
    "source = ''manual'' \<Longrightarrow> \<not> en_provisional e"
  unfolding upsert_accepted(1) [OF assms] scheduleEmbed_def
  by (simp_all add: upsert_entry_def cat_key_def Let_def)

lemma upsert_get:
  assumes "upsertResource cfg (scheduleEmbed provider) r ''manual'' now c = (Inr e, c')" "cat_key r = listing_key url tool"
  shows "getResource now' url tool c' = Some e"
  using upsert_accepted(2) [OF assms(1)] upsert_fields(4) [OF assms(1)] assms(2)
  by (simp add: getResource_def isPublic_def isExpired_def jm_get_set)

lemma upsert_get_other:
  assumes "upsertResource cfg (scheduleEmbed provider) r source now c = (x, c')" "cat_key r \<noteq> listing_key url tool"
  shows "getResource now' url tool c' = getResource now' url tool c"
proof (cases x)
  case (Inl er)
  with assms upsert_refused show ?thesis by metis
next
  case (Inr e)
  with assms upsert_accepted(2) [of cfg "scheduleEmbed provider" r source now c e c'] show ?thesis
    by (simp add: getResource_def jm_get_set)
qed

lemma delete_get_other:
  assumes "deleteResource url tool now c = (y, c')" "listing_key url' tool' \<noteq> listing_key url tool"
  shows "getResource now' url' tool' c' = getResource now' url' tool' c"
  using assms by (auto simp: deleteResource_def getResource_def jm_get_delete split: option.splits)

lemma delete_get:
  assumes "deleteResource url tool now c = (y, c')" "listing_key url' tool' = listing_key url tool"
  shows "getResource now' url' tool' c' = None"
proof (cases "jm_get (ct_resources c) (listing_key url tool)")
  case None
  with assms show ?thesis by (simp add: deleteResource_def getResource_def)
next
  case (Some e)
  with assms(1) have "ct_resources c' = jm_delete (listing_key url tool) (ct_resources c)"
    by (auto simp: deleteResource_def)
  with assms(2) show ?thesis by (simp add: getResource_def jm_get_delete)
qed

lemma delete_bumps: "deleteResource url tool now c = (Some e, c') \<Longrightarrow> ct_version c < ct_version c'"
  by (auto simp: deleteResource_def split: option.splits)

lemma upsert_keeps: "catalog_ok c \<Longrightarrow> upsertResource cfg (scheduleEmbed provider) r source now c = (x, c') \<Longrightarrow> catalog_ok c'"
  using catalog_ok_upsert [OF _ keeps_listing_schedule] by (metis snd_conv)

lemma delete_keeps: "catalog_ok c \<Longrightarrow> deleteResource url tool now c = (y, c') \<Longrightarrow> catalog_ok c'"
  using catalog_ok_delete by (metis snd_conv)

lemma upsert_bumps: "upsertResource cfg emb r source now c = (Inr e, c') \<Longrightarrow> ct_version c < ct_version c'"
  using upsert_accepted(4) by fastforce

interpretation mem_routes: catalog_store "mem_catalog cfg coll provider qv rr" catalog_ok for cfg coll provider qv rr
proof unfold_locales
  fix c :: catalog and now now1 now2 now' r source x y z e c' url tool url' tool'
  let ?ops = "mem_catalog cfg coll provider qv rr"
  show "catalog_ok c'" if "catalog_ok c" "cs_upsert (?ops now) r source c = (x, c')"
    using that upsert_keeps by (simp add: mem_catalog_def)
  show "catalog_ok c'" if "catalog_ok c" "cs_delete (?ops now) url tool c = (y, c')"
    using that delete_keeps by (auto simp: mem_catalog_def split: prod.splits)
  show "cat_key e = cat_key r \<and> rs_url e = rs_url r \<and> rs_description e = rs_description r"
    if "cs_upsert (?ops now) r source c = (Inr e, c')"
    using that upsert_fields by (simp add: mem_catalog_def)
  show "cs_get (?ops now') url tool c' = Some e"
    if "cs_upsert (?ops now) r ''manual'' c = (Inr e, c')" "cat_key r = listing_key url tool"
    using that upsert_get by (simp add: mem_catalog_def)
  show "cs_get (?ops now') url tool c' = cs_get (?ops now') url tool c"
    if "cs_upsert (?ops now) r source c = (x, c')" "cat_key r \<noteq> listing_key url tool"
    using that upsert_get_other by (simp add: mem_catalog_def)
  show "cs_version (?ops now1) c < cs_version (?ops now2) c'" if "cs_upsert (?ops now) r source c = (Inr e, c')"
    using that upsert_bumps by (simp add: mem_catalog_def)
  show "cs_get (?ops now') url' tool' c' = None"
    if "catalog_ok c" "cs_delete (?ops now) url tool c = (Inr z, c')" "listing_key url' tool' = listing_key url tool"
    using that delete_get [of url tool now c z c' url' tool' now'] by (auto simp: mem_catalog_def split: prod.splits)
  show "cs_get (?ops now') url' tool' c' = cs_get (?ops now') url' tool' c"
    if "cs_delete (?ops now) url tool c = (y, c')" "listing_key url' tool' \<noteq> listing_key url tool"
    using that delete_get_other [OF _ that(2)] by (auto simp: mem_catalog_def split: prod.splits)
  show "cs_version (?ops now1) c < cs_version (?ops now2) c'" if "cs_delete (?ops now) url tool c = (Inr (Some e), c')"
    using that delete_bumps by (auto simp: mem_catalog_def split: prod.splits)
qed

lemma pg_upsert_cases:
  assumes "pc_upsert cfg provider r source now st = (x, st')"
  shows "upsertResource cfg (scheduleEmbed provider) r source now (pc_mem st) = (x, pc_mem st')"
  using assms by (auto simp: pc_upsert_def split: prod.splits sum.splits)

lemma pg_delete_cases:
  assumes "pc_delete ok url tool now st = (y, st')"
  shows "(y = Inl Delete_failed \<and> pc_mem st' = pc_mem st) \<or> (\<exists>z. y = Inr z \<and> deleteResource url tool now (pc_mem st) = (z, pc_mem st'))"
  using assms by (auto simp: pc_delete_def pc_degrade_def Let_def split: prod.splits if_splits)

interpretation pg_routes: catalog_store "pg_store cfg coll provider qv rr ok" "\<lambda>st. catalog_ok (pc_mem st)"
  for cfg coll provider qv rr ok
proof unfold_locales
  fix c :: pg_catalog and now now1 now2 now' r source x y z e c' url tool url' tool'
  let ?ops = "pg_store cfg coll provider qv rr ok"
  show "catalog_ok (pc_mem c')" if "catalog_ok (pc_mem c)" "cs_upsert (?ops now) r source c = (x, c')"
    using that upsert_keeps pg_upsert_cases by (simp add: pg_store_def) blast
  show "catalog_ok (pc_mem c')" if "catalog_ok (pc_mem c)" "cs_delete (?ops now) url tool c = (y, c')"
    using that delete_keeps pg_delete_cases [of ok url tool now c y c'] by (auto simp: pg_store_def)
  show "cat_key e = cat_key r \<and> rs_url e = rs_url r \<and> rs_description e = rs_description r"
    if up: "cs_upsert (?ops now) r source c = (Inr e, c')"
    using upsert_fields(1-3) [OF pg_upsert_cases, of cfg provider r source now c e c'] up by (simp add: pg_store_def)
  show "cs_get (?ops now') url tool c' = Some e"
    if "cs_upsert (?ops now) r ''manual'' c = (Inr e, c')" "cat_key r = listing_key url tool"
    using that upsert_get pg_upsert_cases by (simp add: pg_store_def) blast
  show "cs_get (?ops now') url tool c' = cs_get (?ops now') url tool c"
    if "cs_upsert (?ops now) r source c = (x, c')" "cat_key r \<noteq> listing_key url tool"
    using that upsert_get_other pg_upsert_cases by (simp add: pg_store_def) blast
  show "cs_version (?ops now1) c < cs_version (?ops now2) c'" if "cs_upsert (?ops now) r source c = (Inr e, c')"
    using that upsert_bumps pg_upsert_cases by (simp add: pg_store_def) blast
  show "cs_get (?ops now') url' tool' c' = None"
    if "catalog_ok (pc_mem c)" "cs_delete (?ops now) url tool c = (Inr z, c')" "listing_key url' tool' = listing_key url tool"
    using that delete_get [of url tool now "pc_mem c" z "pc_mem c'" url' tool' now'] pg_delete_cases [of ok url tool now c "Inr z" c']
    by (auto simp: pg_store_def)
  show "cs_get (?ops now') url' tool' c' = cs_get (?ops now') url' tool' c"
    if "cs_delete (?ops now) url tool c = (y, c')" "listing_key url' tool' \<noteq> listing_key url tool"
    using that delete_get_other [OF _ that(2)] pg_delete_cases [of ok url tool now c y c'] by (auto simp: pg_store_def)
  show "cs_version (?ops now1) c < cs_version (?ops now2) c'" if "cs_delete (?ops now) url tool c = (Inr (Some e), c')"
    using that delete_bumps pg_delete_cases [of ok url tool now c "Inr (Some e)" c'] by (auto simp: pg_store_def)
qed

text \<open>What the policy admits is addressed by its URL and tool name.\<close>

lemma policy_addressable:
  assumes "vr_resource (validatePolicy sdk assets payload reqs createResult) = Some r"
  shows "cat_key r = listing_key (rs_url r) (rs_toolName r)"
proof -
  have "\<exists>x. r = policy_resource reqs x"
    using assms by (auto simp: validatePolicy_def hard_drop_def createResult_def check_url_def Let_def case_prod_unfold
        split: extraction.splits option.splits if_splits)
  then show ?thesis
    by (auto simp: policy_resource_def cat_key_def listing_key_def split: option.splits)
qed

section \<open>Unchanged answers\<close>

text \<open>While no write is counted, the catalog is the one it was; only listings that lapse differ.\<close>

lemma apply_version: "ct_version c \<le> ct_version (cat_apply cfg emb x c)"
proof (cases x)
  case (Up r source now)
  then show ?thesis by (simp add: upsertResource_def Let_def)
next
  case (Del url tool now)
  then show ?thesis by (simp add: deleteResource_def split: option.splits)
next
  case (Prune now)
  then show ?thesis by (auto simp: pruneExpired_def split: prod.splits)
qed

lemma apply_same:
  assumes "ct_version (cat_apply cfg emb x c) = ct_version c"
  shows "ct_resources (cat_apply cfg emb x c) = ct_resources c"
proof (cases x)
  case (Up r source now)
  with assms show ?thesis by (auto simp: upsertResource_def Let_def split: if_splits)
next
  case (Del url tool now)
  with assms show ?thesis by (auto simp: deleteResource_def split: option.splits)
next
  case (Prune now)
  have "length (filter (isExpired now) (map snd (ct_resources c))) = 0"
    using assms by (auto simp: Prune pruneExpired_def prune_loop_eq split: if_splits)
  then have "filter (\<lambda>p. \<not> isExpired now (snd p)) (ct_resources c) = ct_resources c"
    by (auto simp: filter_empty_conv intro!: filter_True)
  then show ?thesis by (simp add: Prune pruneExpired_fields)
qed

lemma run_version: "ct_version c \<le> ct_version (cat_run cfg emb xs c)"
  by (induction xs arbitrary: c) (auto intro: order_trans [OF apply_version])

lemma run_same: "ct_version (cat_run cfg emb xs c) = ct_version c \<Longrightarrow> ct_resources (cat_run cfg emb xs c) = ct_resources c"
proof (induction xs arbitrary: c)
  case (Cons x xs)
  have "ct_version (cat_apply cfg emb x c) = ct_version c"
    using Cons.prems apply_version [of c cfg emb x] run_version [of "cat_apply cfg emb x c" cfg emb xs] by simp
  with Cons apply_same show ?case by simp
qed simp

lemma list_same:
  assumes "ct_resources c' = ct_resources c" "\<forall>e \<in> snd ` set (ct_resources c). isExpired t' e = isExpired t e"
  shows "listResources coll t' f lm off c' = listResources coll t f lm off c"
proof -
  have "public_items t' c' = public_items t c"
    using assms by (auto simp: public_items_def jm_values_def isPublic_def intro!: filter_cong)
  then show ?thesis by (simp add: listResources_def)
qed

text \<open>A restarted store counts its writes from zero again.\<close>

lemma hydrate_version: "ct_version (hydrate provider rows c) = ct_version c"
  by (induction rows arbitrary: c) (simp_all add: hydrate_def hydrate_one_def Let_def)

lemma boot_version: "ct_version (pc_mem (pc_boot provider tbl)) = 0"
  by (simp add: pc_boot_def hydrate_version empty_catalog_def)

end
