(* ===== verification/ExtensionHeader.thy ===== *)
theory ExtensionHeader
  imports JsText
begin

text \<open>
  The \<open>EXTENSION-RESPONSES\<close> header (\<open>src/catalog/extension-responses.js\<close>): an outcome as base64 of
  JSON, bounded in size by leaving detail out in tiers.
\<close>

section \<open>Base64\<close>

definition b64_char :: "nat \<Rightarrow> char" where
  "b64_char n =
     (if n < 26 then char_of (65 + n) else if n < 52 then char_of (71 + n)
      else if n < 62 then char_of (n - 4) else if n = 62 then CHR ''+'' else CHR ''/'')"

fun base64 :: "string \<Rightarrow> string" where
  "base64 (a # b # c # cs) =
     (let n = 65536 * of_char a + 256 * of_char b + of_char c in
      b64_char (n div 262144) # b64_char (n div 4096 mod 64) # b64_char (n div 64 mod 64) # b64_char (n mod 64) # base64 cs)"
| "base64 [a, b] =
     (let n = 256 * of_char a + of_char b in
      [b64_char (n div 1024), b64_char (n div 16 mod 64), b64_char (n mod 16 * 4), CHR ''=''])"
| "base64 [a] =
     (let n = of_char a in [b64_char (n div 4), b64_char (n mod 4 * 16), CHR ''='', CHR ''=''])"
| "base64 [] = []"

lemma length_base64: "length (base64 s) = 4 * ((length s + 2) div 3)"
proof (induction s rule: base64.induct)
  case (1 a b c cs)
  have "(length (a # b # c # cs) + 2) div 3 = Suc ((length cs + 2) div 3)" by simp
  with 1 show ?case by (simp add: Let_def)
qed (simp_all add: Let_def)

section \<open>The header\<close>

definition MAX_HEADER_BYTES :: nat where
  "MAX_HEADER_BYTES = 4096"

definition KNOWN_STATUSES :: "string list" where
  "KNOWN_STATUSES = [''not attempted'', ''landed'', ''partially landed'', ''rejected'']"

definition OMITTED_CODE :: string where
  "OMITTED_CODE = ''extension_response_omitted''"

definition encode_envelope :: "json \<Rightarrow> string" where
  "encode_envelope payload = base64 (json_stringify (JObj [(''bazaar'', payload)]))"

datatype omitted = Omitted_reason | Omitted_all

definition fits :: "string \<Rightarrow> bool" where
  "fits header \<longleftrightarrow> length header \<le> MAX_HEADER_BYTES"

definition reported_status :: "(string \<times> json) list \<Rightarrow> string" where
  "reported_status fs =
     (case map_of fs ''status'' of
        Some (JStr s) \<Rightarrow> if s \<in> set KNOWN_STATUSES then s else ''not attempted''
      | _ \<Rightarrow> ''not attempted'')"

definition encodeExtensionResponses :: "json \<Rightarrow> string \<times> omitted option" where
  "encodeExtensionResponses outcome =
     (case outcome of
        JObj fs \<Rightarrow>
          (let full = encode_envelope outcome in
           if fits full then (full, None)
           else
             (let rest = filter (\<lambda>p. fst p \<noteq> ''reason'') fs;
                  withoutReason = encode_envelope (JObj (AList.update ''detail_omitted'' (JBool True) rest))
              in if fits withoutReason then (withoutReason, Some Omitted_reason)
                 else (encode_envelope (JObj [(''status'', JStr (reported_status fs)), (''code'', JStr OMITTED_CODE),
                                              (''detail_omitted'', JBool True)]), Some Omitted_all)))
      | _ \<Rightarrow> (encode_envelope (JObj [(''status'', JStr ''not attempted'')]), Some Omitted_all))"

section \<open>What it promises\<close>

text \<open>The header a client sees is within the bound, whatever the outcome.\<close>

lemma reported_status_known: "reported_status fs \<in> set KNOWN_STATUSES"
  by (auto simp: reported_status_def KNOWN_STATUSES_def split: option.splits json.splits)

lemma minimal_fits: "s \<in> set KNOWN_STATUSES \<Longrightarrow>
   fits (encode_envelope (JObj [(''status'', JStr s), (''code'', JStr OMITTED_CODE), (''detail_omitted'', JBool True)]))
   \<and> fits (encode_envelope (JObj [(''status'', JStr ''not attempted'')]))"
  by (auto simp: KNOWN_STATUSES_def OMITTED_CODE_def fits_def MAX_HEADER_BYTES_def encode_envelope_def length_base64
      json_quote_def json_escape_def Let_def)

lemma header_fits: "fits (fst (encodeExtensionResponses outcome))"
  using minimal_fits reported_status_known minimal_fits [of "''landed''"]
  by (auto simp: encodeExtensionResponses_def Let_def KNOWN_STATUSES_def split: json.splits)

text \<open>
  The status always goes with it: every header encodes an envelope that carries the status of the
  outcome when it is a known one.
\<close>

definition envelope_status :: "json \<Rightarrow> string option" where
  "envelope_status j = (case j of JObj fs \<Rightarrow> (case map_of fs ''status'' of Some (JStr s) \<Rightarrow> Some s | _ \<Rightarrow> None) | _ \<Rightarrow> None)"

lemma header_keeps_status:
  assumes "envelope_status outcome = Some s" "s \<in> set KNOWN_STATUSES"
  shows "\<exists>payload. fst (encodeExtensionResponses outcome) = encode_envelope payload \<and> envelope_status payload = Some s"
proof -
  obtain fs where o: "outcome = JObj fs" and fs: "map_of fs ''status'' = Some (JStr s)"
    using assms(1) by (auto simp: envelope_status_def split: json.splits option.splits)
  have "map_of (filter (\<lambda>p. fst p \<noteq> ''reason'') fs) ''status'' = map_of fs ''status''"
    by (induction fs) auto
  then have "envelope_status (JObj (AList.update ''detail_omitted'' (JBool True) (filter (\<lambda>p. fst p \<noteq> ''reason'') fs))) = Some s"
    using fs by (simp add: envelope_status_def update_conv')
  moreover have "reported_status fs = s" using fs assms(2) by (simp add: reported_status_def)
  then have "envelope_status (JObj [(''status'', JStr (reported_status fs)), (''code'', JStr OMITTED_CODE), (''detail_omitted'', JBool True)]) = Some s"
    by (simp add: envelope_status_def)
  ultimately show ?thesis
    using assms(1) unfolding encodeExtensionResponses_def o by (auto simp: Let_def)
qed

end
