(* ===== verification/McpResources.thy ===== *)
theory McpResources
  imports McpText McpWallet
begin

text \<open>
  Catalog resources of the MCP server (\<open>src/mcp/resources.js\<close>): an \<open>x402:\<close> URI resolved to a query of the
  facilitator and to the text a client attaches to a model's context.

  The URL parser and percent-decoding are arguments, as is the request to the facilitator.
\<close>

section \<open>Scrubbing\<close>

definition strip_text :: "string \<Rightarrow> string" where
  "strip_text s = map char_of (stripUnsafeCharacters (units_of s))"

fun scrub :: "json \<Rightarrow> json" where
  "scrub (JStr s) = JStr (strip_text s)"
| "scrub (JArr xs) = JArr (map scrub xs)"
| "scrub (JObj fs) = JObj (fold (\<lambda>p. jm_set (fst p) (snd p)) (map (\<lambda>p. (strip_text (fst p), scrub (snd p))) fs) [])"
| "scrub j = j"

definition clean_text :: "string \<Rightarrow> bool" where
  "clean_text s \<longleftrightarrow> list_all (\<lambda>c. \<not> control_unit c \<and> \<not> invisible_unit c \<and> c \<noteq> 13) (units_of s)"

fun clean_json :: "json \<Rightarrow> bool" where
  "clean_json (JStr s) \<longleftrightarrow> clean_text s"
| "clean_json (JArr xs) \<longleftrightarrow> list_all clean_json xs"
| "clean_json (JObj fs) \<longleftrightarrow> list_all (\<lambda>p. clean_text (fst p) \<and> clean_json (snd p)) fs"
| "clean_json j \<longleftrightarrow> True"

lemma strip_small: "set (stripUnsafeCharacters s) \<subseteq> insert 10 (set s)"
proof -
  have a: "set (strip_tags s) \<subseteq> set s" for s by (induction s rule: strip_tags.induct) auto
  have b: "set (strip_ansi s) \<subseteq> set s" for s
  proof (induction s rule: strip_ansi.induct)
    case (2 c cs)
    then show ?case using ansi_rest_sub [of cs] by (cases "ansi_rest cs") (auto split: if_splits)
  qed simp
  show ?thesis unfolding stripUnsafeCharacters_def using a [of s] b [of "strip_tags s"] set_unix_lines by fastforce
qed

lemma strip_text_clean: "clean_text (strip_text s)"
proof -
  have "units_of (strip_text s) = stripUnsafeCharacters (units_of s)"
  proof -
    have "\<forall>c \<in> set (stripUnsafeCharacters (units_of s)). c < 256"
      using strip_small [of "units_of s"] by (fastforce simp: units_of_def)
    then show ?thesis by (auto simp: strip_text_def units_of_def intro!: map_idI)
  qed
  then show ?thesis using stripped_clean by (auto simp: clean_text_def list_all_iff)
qed

lemma clean_sets:
  assumes "list_all (\<lambda>p. P (fst p) \<and> Q (snd p)) ps" "list_all (\<lambda>p. P (fst p) \<and> Q (snd p)) acc"
  shows "list_all (\<lambda>p. P (fst p) \<and> Q (snd p)) (fold (\<lambda>p. jm_set (fst p) (snd p)) ps acc)"
  using assms
proof (induction ps arbitrary: acc)
  case (Cons p ps)
  have "set (jm_set (fst p) (snd p) acc) \<subseteq> insert p (set acc)"
    by (induction acc) auto
  then have "list_all (\<lambda>p. P (fst p) \<and> Q (snd p)) (jm_set (fst p) (snd p) acc)"
    using Cons.prems by (auto simp: list_all_iff)
  then show ?case using Cons by simp
qed simp

lemma scrub_clean: "clean_json (scrub j)"
proof (induction j rule: scrub.induct)
  case (3 fs)
  have "list_all (\<lambda>p. clean_text (fst p) \<and> clean_json (snd p)) (map (\<lambda>p. (strip_text (fst p), scrub (snd p))) fs)"
    using 3 by (simp add: list_all_iff strip_text_clean)
  from clean_sets [OF this, of "[]"] show ?case by simp
qed (simp_all add: list_all_iff strip_text_clean)

definition body_text :: "json \<Rightarrow> string" where
  "body_text j = json_pretty 0 (scrub j)"

section \<open>Resources\<close>

definition listResources_mcp :: json where
  "listResources_mcp = JObj [(''resources'', JArr [JObj [(''uri'', JStr ''x402://catalog/resources''), (''name'', JStr ''x402 catalog''),
     (''description'', JStr ''Every publicly listed x402 resource known to this facilitator: service name, description, payee, price, and network.''),
     (''mimeType'', JStr ''application/json'')]])]"

definition resource_templates :: "(string \<times> string \<times> string) list" where
  "resource_templates =
     [(''x402://catalog/search?q={query}'', ''catalog search'',
       ''Ranked catalog search. Substitute {query} with natural language. Uses the same ranking as the /discovery/search endpoint, including recency decay and payment-verified boost.''),
      (''x402://catalog/resource?url={url}'', ''catalog resource'',
       ''Metadata and pricing for one resource. Substitute {url} with the resource URL, percent-encoded.''),
      (''x402://catalog/network/{network}'', ''catalog network summary'',
       ''Catalog summary for one Stellar network: resource count and the networks present. Substitute {network} with e.g. stellar:testnet.'')]"

definition listResourceTemplates :: json where
  "listResourceTemplates = JObj [(''resourceTemplates'', JArr (map (\<lambda>(u, n, d).
     JObj [(''uriTemplate'', JStr u), (''name'', JStr n), (''description'', JStr d), (''mimeType'', JStr ''application/json'')]) resource_templates))]"

definition allResourceUris :: "string list" where
  "allResourceUris = ''x402://catalog/resources'' # map fst resource_templates"

datatype read_error =
  Uri_text input_error | Uri_invalid | Uri_scheme | Bad_param string url_error | Unknown_uri | Discovery_failed string | Read_crashed

definition parseResourceUri :: "(units \<Rightarrow> parsed_url option) \<Rightarrow> mcp_arg \<Rightarrow> read_error + units \<times> (units \<Rightarrow> units option)" where
  "parseResourceUri parse uri =
     (case assertSafeText 2048 True None uri of
        Inl e \<Rightarrow> Inl (Uri_text e)
      | Inr raw \<Rightarrow>
          (case parse raw of
             None \<Rightarrow> Inl Uri_invalid
           | Some p \<Rightarrow>
               if ur_protocol p \<noteq> units_of ''x402:'' then Inl Uri_scheme
               else Inr (ur_hostname p @ ur_pathname p, ur_params p)))"

datatype query_value = Text_value units | Number_value nat

definition arg_of :: "units option \<Rightarrow> mcp_arg" where
  "arg_of v = (case v of None \<Rightarrow> Arg_missing | Some s \<Rightarrow> Arg_text s)"

definition limit_pattern :: "units \<Rightarrow> bool" where
  "limit_pattern s \<longleftrightarrow> 1 \<le> length s \<and> length s \<le> 3 \<and> list_all unit_digit s"

definition units_value :: "units \<Rightarrow> nat" where
  "units_value s = foldl (\<lambda>n c. 10 * n + (c - 48)) 0 s"

type_synonym discovery_fetch = "string \<Rightarrow> (string \<times> query_value) list \<Rightarrow> string + json"

definition read_catalog :: "discovery_fetch \<Rightarrow> read_error + string" where
  "read_catalog fetch =
     (case fetch ''/discovery/resources'' [] of Inl e \<Rightarrow> Inl (Discovery_failed e) | Inr data \<Rightarrow> Inr (body_text data))"

definition read_search :: "discovery_fetch \<Rightarrow> (units \<Rightarrow> units option) \<Rightarrow> read_error + string" where
  "read_search fetch params =
     (case assertSafeText 256 True None (arg_of (params (units_of ''q''))) of
        Inl e \<Rightarrow> Inl (Bad_param ''q'' (Text_error e))
      | Inr query \<Rightarrow>
          (case assertSafeText 4 False (Some limit_pattern) (arg_of (params (units_of ''limit''))) of
             Inl e \<Rightarrow> Inl (Bad_param ''limit'' (Text_error e))
           | Inr n \<Rightarrow>
               (case fetch ''/discovery/search''
                       ((''query'', Text_value query) # (if n \<noteq> [] then [(''limit'', Number_value (units_value n))] else [])) of
                  Inl e \<Rightarrow> Inl (Discovery_failed e) | Inr data \<Rightarrow> Inr (body_text data))))"

definition not_found :: json where
  "not_found = JObj [(''error'', JStr ''not_found''), (''message'', JStr ''No catalog resource matches that url.'')]"

definition listed :: "json \<Rightarrow> json list" where
  "listed data = (case jprop ''resources'' data of Some (JArr xs) \<Rightarrow> xs | _ \<Rightarrow> [])"

definition read_one :: "(units \<Rightarrow> parsed_url option) \<Rightarrow> discovery_fetch \<Rightarrow> (units \<Rightarrow> units option) \<Rightarrow> read_error + string" where
  "read_one parse fetch params =
     (case assertHttpUrl parse (arg_of (params (units_of ''url''))) of
        Inl e \<Rightarrow> Inl (Bad_param ''url'' e)
      | Inr target \<Rightarrow>
          (case assertSafeText 128 False None (arg_of (params (units_of ''toolName''))) of
             Inl e \<Rightarrow> Inl (Bad_param ''toolName'' (Text_error e))
           | Inr tool \<Rightarrow>
               (case fetch ''/discovery/resources''
                       ((''url'', Text_value (ur_text target)) # (if tool \<noteq> [] then [(''toolName'', Text_value tool)] else [])) of
                  Inl e \<Rightarrow> Inl (Discovery_failed e)
                | Inr data \<Rightarrow> Inr (body_text (case listed data of [] \<Rightarrow> not_found | x # _ \<Rightarrow> x)))))"

definition listing_summary :: "json \<Rightarrow> json" where
  "listing_summary item =
     JObj (concat (map (\<lambda>k. case jprop k item of Some v \<Rightarrow> [(k, v)] | None \<Rightarrow> []) [''url'', ''serviceName'', ''type'', ''payTo'']))"

definition text_of :: "units \<Rightarrow> string" where
  "text_of u = map char_of u"

definition read_network :: "(units \<Rightarrow> units option) \<Rightarrow> discovery_fetch \<Rightarrow> units \<Rightarrow> read_error + string" where
  "read_network decode fetch segment =
     (case decode segment of
        None \<Rightarrow> Inl Read_crashed
      | Some d \<Rightarrow>
          (case assertNetwork (Arg_text d) of
             Inl e \<Rightarrow> Inl (Bad_param ''network'' (Text_error e))
           | Inr network \<Rightarrow>
               (case fetch ''/discovery/resources'' [(''network'', Text_value network)] of
                  Inl e \<Rightarrow> Inl (Discovery_failed e)
                | Inr data \<Rightarrow>
                    if JNull \<in> set (listed data) then Inl Read_crashed
                    else Inr (body_text (JObj [(''network'', JStr (text_of network)), (''count'', JNum (int (length (listed data)))),
                           (''resources'', JArr (map listing_summary (listed data)))])))))"

definition starts_units :: "units \<Rightarrow> units \<Rightarrow> bool" where
  "starts_units p s \<longleftrightarrow> take (length p) s = p"

definition readResource ::
  "(units \<Rightarrow> parsed_url option) \<Rightarrow> (units \<Rightarrow> units option) \<Rightarrow> discovery_fetch \<Rightarrow> mcp_arg \<Rightarrow> read_error + string" where
  "readResource parse decode fetch uri =
     (case parseResourceUri parse uri of
        Inl e \<Rightarrow> Inl e
      | Inr (path, params) \<Rightarrow>
          if path = units_of ''catalog/resources'' then read_catalog fetch
          else if path = units_of ''catalog/search'' then read_search fetch params
          else if path = units_of ''catalog/resource'' then read_one parse fetch params
          else if starts_units (units_of ''catalog/network/'') path \<and> length path > 16 \<and> 10 \<notin> set (drop 16 path)
          then read_network decode fetch (drop 16 path)
          else Inl Unknown_uri)"

section \<open>What a client reads\<close>

text \<open>Whatever the URI, the facilitator is asked on two paths only.\<close>

lemma reads_two_paths:
  assumes "f ''/discovery/resources'' = g ''/discovery/resources''" "f ''/discovery/search'' = g ''/discovery/search''"
  shows "readResource parse decode f uri = readResource parse decode g uri"
proof -
  have "read_catalog f = read_catalog g" "read_search f = read_search g" "read_one parse f = read_one parse g"
    "read_network decode f = read_network decode g"
    by (simp_all add: fun_eq_iff read_catalog_def read_search_def read_one_def read_network_def assms cong: sum.case_cong option.case_cong)
  then show ?thesis by (simp only: readResource_def)
qed

text \<open>Every text is the rendering of clean data.\<close>

lemma read_clean:
  assumes "readResource parse decode fetch uri = Inr t"
  shows "\<exists>j. t = json_pretty 0 j \<and> clean_json j"
proof -
  have "\<exists>j. t = body_text j"
    using assms by (auto simp: readResource_def read_catalog_def read_search_def read_one_def read_network_def
        split: sum.splits if_splits option.splits)
  then show ?thesis using scrub_clean by (auto simp: body_text_def)
qed

text \<open>
  The facilitator lists a page as \<open>items\<close>, the resources read \<open>resources\<close>: a listing is never found and a
  network counts none, whatever the catalog holds.
\<close>

lemma listing_never_read:
  assumes "\<And>q. fetch ''/discovery/resources'' q = Inr (listing_body items limit offset n)"
  shows "read_one parse fetch params \<in> {Inr (body_text not_found)} \<union> range Inl"
    "read_network decode fetch seg = Inr t \<Longrightarrow> \<exists>w. t = body_text (JObj [(''network'', JStr w), (''count'', JNum 0), (''resources'', JArr [])])"
proof -
  have none: "listed (listing_body items limit offset n) = []"
    by (simp add: listed_def listing_body_def jprop_def)
  show "read_one parse fetch params \<in> {Inr (body_text not_found)} \<union> range Inl"
    by (auto simp: read_one_def assms none split: sum.splits)
  show "\<exists>w. t = body_text (JObj [(''network'', JStr w), (''count'', JNum 0), (''resources'', JArr [])])"
    if "read_network decode fetch seg = Inr t"
    using that by (auto simp: read_network_def assms none split: sum.splits option.splits)
qed

end
