(* ===== verification/McpSandbox.thy ===== *)
theory McpSandbox
  imports JsText RequestGate
begin

text \<open>
  The sandbox of MCP tools (\<open>src/mcp/security.js\<close>): patterns an input is refused for, and the worker a tool
  runs in as a state machine over the worker's events.
\<close>

section \<open>Injection patterns\<close>

definition word_char :: "char \<Rightarrow> bool" where
  "word_char c \<longleftrightarrow> is_digit c \<or> (CHR ''a'' \<le> c \<and> c \<le> CHR ''z'') \<or> (CHR ''A'' \<le> c \<and> c \<le> CHR ''Z'') \<or> c = CHR ''_''"

text \<open>A pattern is tried at each position: the character before it, and the text from it on.\<close>

fun anywhere :: "(char option \<Rightarrow> string \<Rightarrow> bool) \<Rightarrow> char option \<Rightarrow> string \<Rightarrow> bool" where
  "anywhere p before [] \<longleftrightarrow> p before []"
| "anywhere p before (c # cs) \<longleftrightarrow> p before (c # cs) \<or> anywhere p (Some c) cs"

definition word_edge :: "char option \<Rightarrow> bool" where
  "word_edge c \<longleftrightarrow> (case c of None \<Rightarrow> True | Some c \<Rightarrow> \<not> word_char c)"

definition js_hd :: "string \<Rightarrow> char option" where
  "js_hd s = (case s of [] \<Rightarrow> None | c # _ \<Rightarrow> Some c)"

definition word_here :: "string \<Rightarrow> char option \<Rightarrow> string \<Rightarrow> bool" where
  "word_here w before s \<longleftrightarrow> word_edge before \<and> js_lower (take (length w) s) = w \<and> word_edge (js_hd (drop (length w) s))"

definition slash :: "char \<Rightarrow> bool" where
  "slash c \<longleftrightarrow> c = CHR ''/'' \<or> c = CHR 0x5C"

definition path_dirs :: "string list" where
  "path_dirs = [''etc'', ''proc'', ''sys'', ''dev'', ''var'', ''tmp'', ''root'', ''home'']"

definition pathTraversal :: "char option \<Rightarrow> string \<Rightarrow> bool" where
  "pathTraversal before s \<longleftrightarrow>
     (case s of
        a # b # r \<Rightarrow>
          (a = CHR ''.'' \<and> b = CHR ''.'' \<and> r \<noteq> [] \<and> slash (hd r)) \<or> (a = CHR ''~'' \<and> slash b)
          \<or> (slash a \<and> list_ex (\<lambda>w. js_lower (take (length w) (b # r)) = w
               \<and> (case drop (length w) (b # r) of c # _ \<Rightarrow> slash c | [] \<Rightarrow> False)) path_dirs)
      | _ \<Rightarrow> False)"

definition sql_verbs :: "string list" where
  "sql_verbs = [''union'', ''select'', ''insert'', ''update'', ''delete'', ''drop'', ''create'', ''alter'', ''exec'', ''execute'']"

definition sql_objects :: "string list" where
  "sql_objects = [''from'', ''into'', ''table'', ''database'', ''values'', ''set'', ''where'']"

text \<open>The dot of the pattern stops at a line's end.\<close>

definition rest_of_line :: "string \<Rightarrow> string" where
  "rest_of_line s = takeWhile (\<lambda>c. c \<noteq> CHR 0x0A \<and> c \<noteq> CHR 0x0D) s"

fun object_on_line :: "char option \<Rightarrow> string \<Rightarrow> bool" where
  "object_on_line before [] \<longleftrightarrow> False"
| "object_on_line before (c # cs) \<longleftrightarrow>
     list_ex (\<lambda>w. word_here w before (c # cs)) sql_objects \<or> (c \<noteq> CHR 0x0A \<and> c \<noteq> CHR 0x0D \<and> object_on_line (Some c) cs)"

definition sqlInjection :: "char option \<Rightarrow> string \<Rightarrow> bool" where
  "sqlInjection before s \<longleftrightarrow>
     list_ex (\<lambda>v. word_here v before s \<and> object_on_line (Some (last v)) (drop (length v) s)) sql_verbs"

definition scriptInjection :: "char option \<Rightarrow> string \<Rightarrow> bool" where
  "scriptInjection before s \<longleftrightarrow>
     js_starts_with ''<script'' (js_lower s) \<or> js_starts_with ''javascript:'' (js_lower s)
     \<or> (js_starts_with ''on'' (js_lower s) \<and>
        (let r = drop 2 s in r \<noteq> [] \<and> word_char (hd r) \<and> js_starts_with ''='' (dropWhile js_space (dropWhile word_char r))))"

definition shell_words :: "string list" where
  "shell_words = [''rm'', ''cat'', ''ls'', ''cp'', ''mv'', ''chmod'', ''chown'', ''wget'', ''curl'', ''nc'', ''bash'', ''sh'', ''python'',
     ''perl'', ''ruby'', ''node'']"

definition commandInjection :: "char option \<Rightarrow> string \<Rightarrow> bool" where
  "commandInjection before s \<longleftrightarrow>
     (case s of c # _ \<Rightarrow> c \<in> set '';&|`$(){}[]<>'' | [] \<Rightarrow> False) \<or> list_ex (\<lambda>w. word_here w before s) shell_words"

definition INJECTION_PATTERNS :: "(string \<times> (char option \<Rightarrow> string \<Rightarrow> bool)) list" where
  "INJECTION_PATTERNS = [(''pathTraversal'', pathTraversal), (''sqlInjection'', sqlInjection), (''scriptInjection'', scriptInjection),
     (''commandInjection'', commandInjection)]"

definition validateAgainstInjection :: "string \<Rightarrow> string option" where
  "validateAgainstInjection s = map_option fst (List.find (\<lambda>p. anywhere (snd p) None s) INJECTION_PATTERNS)"

text \<open>The first offending field, with its path and the pattern; a value at the top is not looked at.\<close>

fun first_some :: "'a option list \<Rightarrow> 'a option" where
  "first_some [] = None"
| "first_some (x # xs) = nullish x (first_some xs)"

definition field_name :: "string \<Rightarrow> string \<Rightarrow> string" where
  "field_name prefix k = (if prefix \<noteq> [] then prefix @ ''.'' @ k else k)"

lemma zip_size: "p \<in> set (zip ks xs) \<Longrightarrow> size (snd p) < Suc (size_list size xs)"
  using set_zip_rightD [of "fst p" "snd p" ks xs] size_list_estimation' [of "snd p" xs "size (snd p)" size] by simp

lemma member_size: "p \<in> set fs \<Longrightarrow> size (snd p) < Suc (size_list (size_prod (\<lambda>x. 0) size) fs)"
  by (induction fs) auto

function validate_field :: "string \<Rightarrow> json \<Rightarrow> (string \<times> string) option" where
  "validate_field f (JStr s) = map_option (Pair f) (validateAgainstInjection s)"
| "validate_field f (JObj fs) = first_some (map (\<lambda>p. validate_field (field_name f (fst p)) (snd p)) fs)"
| "validate_field f (JArr xs) =
     first_some (map (\<lambda>p. validate_field (field_name f (fst p)) (snd p)) (zip (map (\<lambda>i. nat_str i) [0..<length xs]) xs))"
| "validate_field f JNull = None"
| "validate_field f (JBool b) = None"
| "validate_field f (JNum n) = None"
  by pat_completeness auto
termination
proof (relation "measure (size \<circ> snd)", goal_cases)
  case (2 f fs p)
  then show ?case using member_size by simp
next
  case (3 f xs p)
  then show ?case using zip_size by simp
qed simp

definition validateObjectAgainstInjection :: "json \<Rightarrow> (string \<times> string) option" where
  "validateObjectAgainstInjection j = (case j of JStr _ \<Rightarrow> None | _ \<Rightarrow> validate_field [] j)"

text \<open>The texts below a value that an object or array holds.\<close>

fun texts_of :: "json \<Rightarrow> string set" where
  "texts_of (JStr s) = {s}"
| "texts_of (JObj fs) = (\<Union>p \<in> set fs. texts_of (snd p))"
| "texts_of (JArr xs) = (\<Union>x \<in> set xs. texts_of x)"
| "texts_of j = {}"

lemma first_some_None: "first_some xs = None \<longleftrightarrow> (\<forall>x \<in> set xs. x = None)"
  by (induction xs) auto

lemma validated_texts: "validate_field f j = None \<longleftrightarrow> (\<forall>s \<in> texts_of j. validateAgainstInjection s = None)"
proof (induction f j rule: validate_field.induct)
  case (3 f xs)
  have "snd ` set (zip (map (\<lambda>i. nat_str i) [0..<length xs]) xs) = set xs"
    by (simp flip: set_map add: map_snd_zip)
  then have "(\<forall>p \<in> set (zip (map (\<lambda>i. nat_str i) [0..<length xs]) xs). \<forall>s \<in> texts_of (snd p). validateAgainstInjection s = None)
      \<longleftrightarrow> (\<forall>x \<in> set xs. \<forall>s \<in> texts_of x. validateAgainstInjection s = None)"
    by (metis (no_types, lifting) image_iff)
  with 3 show ?case by (auto simp: first_some_None)
qed (auto simp: first_some_None)

text \<open>A validated object holds, at any depth, no text that a pattern matches.\<close>

lemma validated_object:
  assumes "validateObjectAgainstInjection j = None" "\<And>s. j \<noteq> JStr s" "s \<in> texts_of j" "p \<in> set INJECTION_PATTERNS"
  shows "\<not> anywhere (snd p) None s"
proof -
  have "validate_field [] j = None" using assms(1) assms(2) [of "case j of JStr s \<Rightarrow> s"] by (cases j) (simp_all add: validateObjectAgainstInjection_def)
  then have "validateAgainstInjection s = None" using validated_texts assms(3) by blast
  then show ?thesis using assms(4) by (cases p) (auto simp: validateAgainstInjection_def find_None_iff)
qed

text \<open>A line's end between the two words hides a statement from the pattern.\<close>

lemma split_statement_passes:
  "validateAgainstInjection (''drop'' @ [CHR 0x0A] @ ''table users'') = None"
  "validateAgainstInjection ''drop table users'' = Some ''sqlInjection''"
  by code_simp+

section \<open>The worker\<close>

datatype worker_msg = Msg_error string string | Msg_result "json option"

datatype worker_event = On_message worker_msg | On_error string | On_exit int | On_timer

datatype settled = Resolved "json option" | Rejected string string   \<comment> \<open>the error's message and field\<close>

record sandbox =
  sb_completed :: bool
  sb_outcome :: "settled option"

definition message_outcome :: "worker_msg \<Rightarrow> settled" where
  "message_outcome m =
     (case m of
        Msg_result r \<Rightarrow> Resolved r
      | Msg_error e t \<Rightarrow>
          if e = [] then Resolved None
          else if e = ''execution_timeout'' then Rejected ''tool execution timed out'' ''timeout''
          else if e = ''payload_too_large'' then Rejected ''tool result exceeds maximum size'' ''payload_size''
          else Rejected (''tool execution failed: '' @ t) ''execution'')"

fun sandbox_step :: "worker_event \<Rightarrow> sandbox \<Rightarrow> sandbox" where
  "sandbox_step e s =
     (if sb_completed s then s
      else s\<lparr>sb_completed := True, sb_outcome :=
        (case e of
           On_message m \<Rightarrow> Some (message_outcome m)
         | On_error m \<Rightarrow> Some (Rejected (''sandbox error: '' @ m) ''sandbox'')
         | On_exit c \<Rightarrow> if c \<noteq> 0 then Some (Rejected (''sandbox exited with code '' @ int_str c) ''sandbox'') else None
         | On_timer \<Rightarrow> Some (Rejected ''tool execution timed out'' ''timeout''))\<rparr>)"

definition sandbox_run :: "worker_event list \<Rightarrow> sandbox" where
  "sandbox_run es = fold sandbox_step es \<lparr>sb_completed = False, sb_outcome = None\<rparr>"

text \<open>What runs in the worker: how the handler's code ended, and the messages that makes.\<close>

datatype handler_end =
    Bad_code string
  | Returned_value json nat                  \<comment> \<open>with the length of its text\<close>
  | Returned_nothing
  | Threw_error "string option" string       \<comment> \<open>the thrown value's name, if any, and message\<close>
  | Ran_too_long

definition worker_messages :: "nat \<Rightarrow> handler_end \<Rightarrow> worker_msg list" where
  "worker_messages maxPayloadSize h =
     (case h of
        Bad_code m \<Rightarrow> [Msg_error ''handler_deserialization_failed'' m, Msg_result None]
      | Returned_value j n \<Rightarrow> [if n > maxPayloadSize then Msg_error ''Error'' ''payload_too_large'' else Msg_result (Some j)]
      | Returned_nothing \<Rightarrow> [Msg_error ''TypeError'' ''undefined has no length'']
      | Threw_error n m \<Rightarrow> [Msg_error (nullish_or n []) m]
      | Ran_too_long \<Rightarrow> [Msg_error ''Error'' ''execution_timeout''])"

definition executeInWorker :: "nat \<Rightarrow> nat \<Rightarrow> handler_end \<Rightarrow> settled option" where
  "executeInWorker codeLength maxPayloadSize h =
     (if codeLength > 50000 then Some (Rejected ''handler too large for sandbox execution'' [])
      else sb_outcome (sandbox_run (map On_message (worker_messages maxPayloadSize h))))"

definition executeDirectly :: "nat \<Rightarrow> handler_end \<Rightarrow> string + json" where
  "executeDirectly maxPayloadSize h =
     (case h of
        Returned_value j n \<Rightarrow> if n > maxPayloadSize then Inl ''payload_too_large'' else Inr j
      | Returned_nothing \<Rightarrow> Inl ''undefined has no length''
      | Threw_error n m \<Rightarrow> Inl m
      | Bad_code m \<Rightarrow> Inl m
      | Ran_too_long \<Rightarrow> Inl ''execution_timeout'')"

record sandbox_config =
  sc_maxPayloadSize :: nat
  sc_validateInput :: bool
  sc_validateOutput :: bool

definition DEFAULT_SANDBOX_CONFIG :: sandbox_config where
  "DEFAULT_SANDBOX_CONFIG = \<lparr>sc_maxPayloadSize = 1024 * 1024, sc_validateInput = True, sc_validateOutput = False\<rparr>"

text \<open>\<open>createSandboxedTool\<close>; \<open>None\<close> is a promise that does not settle.\<close>

definition sandboxed_tool :: "sandbox_config \<Rightarrow> nat \<Rightarrow> (json \<Rightarrow> handler_end) \<Rightarrow> json \<Rightarrow> settled option" where
  "sandboxed_tool cfg codeLength handler params =
     (let refuse = (\<lambda>(f, t). Some (Rejected ([CHR 0x27] @ f @ [CHR 0x27] @ '' contains potentially malicious content ('' @ t @ '')'') f))
      in case (if sc_validateInput cfg then validateObjectAgainstInjection params else None) of
           Some p \<Rightarrow> refuse p
         | None \<Rightarrow>
             (case executeInWorker codeLength (sc_maxPayloadSize cfg) (handler params) of
                Some (Resolved (Some r)) \<Rightarrow>
                  (case (if sc_validateOutput cfg then validateObjectAgainstInjection r else None) of
                     Some p \<Rightarrow> refuse p | None \<Rightarrow> Some (Resolved (Some r)))
              | x \<Rightarrow> x))"

text \<open>The first event decides, and nothing after it changes the outcome.\<close>

lemma completed_stays: "sb_completed s \<Longrightarrow> fold sandbox_step es s = s"
  by (induction es arbitrary: s) auto

lemma first_event_decides: "sandbox_run (e # es) = sandbox_run [e]"
proof -
  have "sb_completed (sandbox_step e \<lparr>sb_completed = False, sb_outcome = None\<rparr>)" by simp
  then show ?thesis unfolding sandbox_run_def by (simp only: fold_simps completed_stays)
qed

text \<open>A tool that ends its worker quietly leaves its caller waiting for ever, the timer being cleared.\<close>

lemma quiet_exit_hangs: "sb_outcome (sandbox_run (On_exit 0 # es)) = None"
  by (subst first_event_decides) (simp add: sandbox_run_def)

text \<open>
  The worker sends an error's name, which for a time limit and for a large payload is \<open>Error\<close>: the two
  branches that would name them are never taken. A thrown value without a name counts as success.
\<close>

lemma timeout_not_named:
  "codeLength \<le> 50000 \<Longrightarrow> executeInWorker codeLength m Ran_too_long = Some (Rejected ''tool execution failed: execution_timeout'' ''execution'')"
  by (simp add: executeInWorker_def worker_messages_def sandbox_run_def message_outcome_def)

lemma nameless_throw_resolves:
  "codeLength \<le> 50000 \<Longrightarrow> executeInWorker codeLength m (Threw_error None t) = Some (Resolved None)"
  by (simp add: executeInWorker_def worker_messages_def sandbox_run_def message_outcome_def)

text \<open>With its defaults the wrapper runs a tool only on parameters no pattern matches, and returns what fits.\<close>

lemma sandboxed_result:
  assumes "sandboxed_tool DEFAULT_SANDBOX_CONFIG codeLength handler params = Some (Resolved (Some r))"
  shows "validateObjectAgainstInjection params = None"
    "\<exists>n. handler params = Returned_value r n \<and> n \<le> 1024 * 1024"
proof -
  show "validateObjectAgainstInjection params = None"
    using assms by (auto simp: sandboxed_tool_def Let_def DEFAULT_SANDBOX_CONFIG_def split: option.splits)
  with assms have "executeInWorker codeLength (1024 * 1024) (handler params) = Some (Resolved (Some r))"
    by (auto simp: sandboxed_tool_def Let_def DEFAULT_SANDBOX_CONFIG_def split: option.splits settled.splits)
  then show "\<exists>n. handler params = Returned_value r n \<and> n \<le> 1024 * 1024"
    by (cases "handler params")
      (auto simp: executeInWorker_def worker_messages_def sandbox_run_def message_outcome_def split: if_splits)
qed

end
