(* ===== verification/MtlsProvider.thy ===== *)
theory MtlsProvider
  imports WebhookDelivery
begin

text \<open>
  Authentication of webhook deliveries (\<open>src/webhooks/mtls.js\<close>): signatures, certificate expiry, the cache of
  client credentials with its loads in flight and its agents, the authenticator, the disk resolver.

  SHA-256, HMAC, the certificate parser and the secret store are arguments. The credential provider is
  cut at its awaits: a request for credentials, the end of a load, the taking of an agent, closing.
\<close>

section \<open>Signatures\<close>

definition signPayload :: "(string \<Rightarrow> string \<Rightarrow> string) \<Rightarrow> string \<Rightarrow> string \<Rightarrow> int \<Rightarrow> string + string" where
  "signPayload mac secret body timestamp =
     (if secret = [] then Inl ''missing_signing_secret'' else Inr (''sha256='' @ mac secret (int_str timestamp @ ''.'' @ body)))"

definition signatureHeaders :: "(string \<Rightarrow> string \<Rightarrow> string) \<Rightarrow> string \<Rightarrow> string option \<Rightarrow> int \<Rightarrow> (string \<times> string) list" where
  "signatureHeaders mac body secret timestamp =
     (case secret of
        None \<Rightarrow> []
      | Some s \<Rightarrow>
          (case signPayload mac s body timestamp of
             Inl _ \<Rightarrow> []
           | Inr v \<Rightarrow> [(''x-x402-webhook-signature'', v), (''x-x402-webhook-timestamp'', int_str timestamp)]))"

text \<open>
  The signed text determines the timestamp and the body: with a mac that never collides, two equal
  signatures under one secret are of one delivery.
\<close>

lemma first_sep_inj: "xs @ c # s = ys @ c # t \<Longrightarrow> c \<notin> set xs \<Longrightarrow> c \<notin> set ys \<Longrightarrow> xs = ys \<and> s = t"
proof (induction xs arbitrary: ys)
  case Nil
  then show ?case by (cases ys) auto
next
  case (Cons x xs)
  then show ?case by (cases ys) auto
qed

lemma int_str_no_dot: "CHR ''.'' \<notin> set (int_str n)"
proof -
  have "CHR ''.'' \<notin> set (nat_str k)" for k
    using nat_str_digits [of k] by (auto simp: list_all_iff is_digit_def)
  then show ?thesis by (auto simp: int_str_def)
qed

lemma signed_text_inj:
  assumes "int_str t @ ''.'' @ b = int_str u @ ''.'' @ c"
  shows "t = u \<and> b = c"
  using first_sep_inj [of "int_str t" "CHR ''.''" b "int_str u" c] assms int_str_no_dot int_str_inj by simp

lemma signature_binds:
  assumes "inj (mac s)" "s \<noteq> []" "signPayload mac s b t = signPayload mac s c u"
  shows "t = u \<and> b = c"
proof -
  have "mac s (int_str t @ ''.'' @ b) = mac s (int_str u @ ''.'' @ c)" using assms(2,3) by (simp add: signPayload_def)
  then show ?thesis using injD [OF assms(1)] signed_text_inj by blast
qed

section \<open>Certificates\<close>

record certificate =
  ct_subject :: string
  ct_issuer :: string
  ct_validFrom :: string
  ct_validTo :: string
  ct_validToMs :: "int option"       \<comment> \<open>\<open>Date.parse\<close>, where it is a number\<close>
  ct_fingerprint :: string
  ct_serial :: string

record cert_info =
  ci_cert :: certificate
  ci_daysRemaining :: int
  ci_expired :: bool

definition describeCertificate :: "(string \<Rightarrow> certificate option) \<Rightarrow> string \<Rightarrow> int \<Rightarrow> string + cert_info" where
  "describeCertificate parse pem now =
     (case parse pem of
        None \<Rightarrow> Inl ''invalid_certificate''
      | Some c \<Rightarrow>
          (case ct_validToMs c of
             None \<Rightarrow> Inl ''invalid_certificate''
           | Some t \<Rightarrow> Inr \<lparr>ci_cert = c, ci_daysRemaining = (t - now) div 86400000, ci_expired = t \<le> now\<rparr>))"

datatype expiry_warning = Warn_expired string | Warn_expiring string int

definition checkCertificateExpiry :: "int \<Rightarrow> cert_info \<Rightarrow> expiry_warning option" where
  "checkCertificateExpiry warnWithinDays info =
     (if ci_expired info then Some (Warn_expired (ct_serial (ci_cert info)))
      else if ci_daysRemaining info \<le> warnWithinDays then Some (Warn_expiring (ct_serial (ci_cert info)) (ci_daysRemaining info))
      else None)"

lemma div_le_bound:
  fixes a d k :: int
  assumes "0 < k"
  shows "a div k \<le> d \<longleftrightarrow> a < (d + 1) * k"
proof
  assume "a div k \<le> d"
  then have "a div k * k \<le> d * k" using assms by (intro mult_right_mono) auto
  then show "a < (d + 1) * k" using div_mult_mod_eq [of a k] pos_mod_bound [OF assms, of a] by (simp only: distrib_right)
next
  assume a: "a < (d + 1) * k"
  show "a div k \<le> d"
  proof (rule ccontr)
    assume "\<not> a div k \<le> d"
    then have "(d + 1) * k \<le> a div k * k" using assms by (intro mult_right_mono) auto
    then show False using a div_mult_mod_eq [of a k] pos_mod_sign [OF assms, of a] by linarith
  qed
qed

text \<open>A certificate passes without a warning exactly when it is valid for more than the days of the threshold.\<close>

lemma no_warning_iff:
  assumes "describeCertificate parse pem now = Inr info" "0 \<le> d"
  shows "checkCertificateExpiry d info = None \<longleftrightarrow> (\<exists>t. ct_validToMs (ci_cert info) = Some t \<and> now + (d + 1) * 86400000 \<le> t)"
proof -
  obtain t where t: "ct_validToMs (ci_cert info) = Some t" "ci_daysRemaining info = (t - now) div 86400000" "ci_expired info \<longleftrightarrow> t \<le> now"
    using assms(1) by (auto simp: describeCertificate_def split: option.splits)
  have "checkCertificateExpiry d info = None \<longleftrightarrow> \<not> t \<le> now \<and> \<not> (t - now) div 86400000 \<le> d"
    by (simp add: checkCertificateExpiry_def t)
  also have "\<dots> \<longleftrightarrow> now + (d + 1) * 86400000 \<le> t"
    using assms(2) div_le_bound [of 86400000 "t - now" d] by auto
  finally show ?thesis by (simp add: t(1))
qed

section \<open>Credentials\<close>

record credentials =
  cr_cert :: string
  cr_key :: string
  cr_ca :: "string option"

definition credentialFingerprint :: "(string \<Rightarrow> string) \<Rightarrow> credentials \<Rightarrow> string" where
  "credentialFingerprint sha c =
     ''sha256:'' @ take 32 (sha (cr_cert c @ '' '' @ cr_key c @ '' '' @ nullish_or (cr_ca c) []))"

text \<open>The parts are joined by a space, which they may contain: different triples can be one text.\<close>

lemma fingerprint_ambiguous:
  "credentialFingerprint sha \<lparr>cr_cert = a @ '' '' @ b, cr_key = c, cr_ca = d\<rparr> =
   credentialFingerprint sha \<lparr>cr_cert = a, cr_key = b @ '' '' @ c, cr_ca = d\<rparr>"
  by (simp add: credentialFingerprint_def)

record cached_credential =
  cc_credentials :: credentials
  cc_fingerprint :: string
  cc_expiresAt :: int

record load =
  ld_id :: nat
  ld_ref :: string
  ld_ca :: "string option"

record provider =
  mp_cache :: "(string, cached_credential) jsmap"
  mp_inFlight :: "(string, nat) jsmap"
  mp_agents :: "(string, nat) jsmap"
  mp_running :: "load list"
  mp_closed :: "nat list"
  mp_next :: nat

definition new_provider :: provider where
  "new_provider = \<lparr>mp_cache = [], mp_inFlight = [], mp_agents = [], mp_running = [], mp_closed = [], mp_next = 0\<rparr>"

record mtls_env =
  me_parse :: "string \<Rightarrow> certificate option"
  me_sha :: "string \<Rightarrow> string"
  me_ttl :: int

datatype mtls_result = Cached credentials string | Awaits nat

text \<open>\<open>_credentialsFor\<close>: from the cache, from a load that runs, or from a new one.\<close>

definition credentials_for :: "int \<Rightarrow> string \<Rightarrow> string option \<Rightarrow> provider \<Rightarrow> mtls_result \<times> provider" where
  "credentials_for now ref ca p =
     (case (case jm_get (mp_cache p) ref of Some c \<Rightarrow> if cc_expiresAt c > now then Some c else None | None \<Rightarrow> None) of
        Some c \<Rightarrow> (Cached (cc_credentials c) (cc_fingerprint c), p)
      | None \<Rightarrow>
          (case jm_get (mp_inFlight p) ref of
             Some i \<Rightarrow> (Awaits i, p)
           | None \<Rightarrow>
               (Awaits (mp_next p),
                p\<lparr>mp_inFlight := jm_set ref (mp_next p) (mp_inFlight p), mp_next := mp_next p + 1,
                  mp_running := mp_running p @ [\<lparr>ld_id = mp_next p, ld_ref = ref, ld_ca = ca\<rparr>]\<rparr>)))"

definition close_agent :: "string \<Rightarrow> provider \<Rightarrow> provider" where
  "close_agent fp p =
     (case jm_get (mp_agents p) fp of
        None \<Rightarrow> p
      | Some a \<Rightarrow> p\<lparr>mp_agents := jm_delete fp (mp_agents p), mp_closed := mp_closed p @ [a]\<rparr>)"

text \<open>\<open>_loadCredentials\<close> after the store answered \<open>r\<close>.\<close>

definition load_result :: "mtls_env \<Rightarrow> int \<Rightarrow> load \<Rightarrow> string + (string \<times> string \<times> string option) \<Rightarrow> string + credentials" where
  "load_result env now l r =
     (case r of
        Inl e \<Rightarrow> Inl ''credential_resolve_failed''
      | Inr (cert, key, ca) \<Rightarrow>
          if cert = [] \<or> key = [] then Inl ''incomplete_credentials''
          else (case describeCertificate (me_parse env) cert now of
                  Inl e \<Rightarrow> Inl e
                | Inr _ \<Rightarrow> Inr \<lparr>cr_cert = cert, cr_key = key, cr_ca = nullish (ld_ca l) ca\<rparr>))"

definition store_credentials :: "mtls_env \<Rightarrow> int \<Rightarrow> string \<Rightarrow> credentials \<Rightarrow> provider \<Rightarrow> provider" where
  "store_credentials env now ref c p =
     (let fp = credentialFingerprint (me_sha env) c;
          p1 = p\<lparr>mp_cache := jm_set ref \<lparr>cc_credentials = c, cc_fingerprint = fp, cc_expiresAt = now + me_ttl env\<rparr> (mp_cache p)\<rparr>
      in case jm_get (mp_cache p) ref of
           Some old \<Rightarrow> if cc_fingerprint old \<noteq> fp then close_agent (cc_fingerprint old) p1 else p1
         | None \<Rightarrow> p1)"

text \<open>The end of a load, with the \<open>finally\<close> that forgets whatever load is in flight for its ref.\<close>

definition load_done :: "mtls_env \<Rightarrow> int \<Rightarrow> nat \<Rightarrow> string + (string \<times> string \<times> string option) \<Rightarrow> provider \<Rightarrow> provider" where
  "load_done env now i r p =
     (case List.find (\<lambda>l. ld_id l = i) (mp_running p) of
        None \<Rightarrow> p
      | Some l \<Rightarrow>
          (let p1 = (case load_result env now l r of Inl _ \<Rightarrow> p | Inr c \<Rightarrow> store_credentials env now (ld_ref l) c p)
           in p1\<lparr>mp_running := filter (\<lambda>l. ld_id l \<noteq> i) (mp_running p1), mp_inFlight := jm_delete (ld_ref l) (mp_inFlight p1)\<rparr>))"

text \<open>The rest of \<open>getAgent\<close>: the pooled agent of a fingerprint, or a new one.\<close>

definition take_agent :: "string \<Rightarrow> provider \<Rightarrow> nat \<times> provider" where
  "take_agent fp p =
     (case jm_get (mp_agents p) fp of
        Some a \<Rightarrow> (a, p)
      | None \<Rightarrow> (mp_next p, p\<lparr>mp_agents := jm_set fp (mp_next p) (mp_agents p), mp_next := mp_next p + 1\<rparr>))"

definition closeAll :: "provider \<Rightarrow> provider" where
  "closeAll p = p\<lparr>mp_cache := [], mp_inFlight := [], mp_agents := [], mp_closed := mp_closed p @ map snd (mp_agents p)\<rparr>"

datatype mtls_event =
    Ask int string "string option"
  | Load_done int nat "string + (string \<times> string \<times> string option)"
  | Take string
  | Close_all

fun mtls_step :: "mtls_env \<Rightarrow> mtls_event \<Rightarrow> provider \<Rightarrow> provider" where
  "mtls_step env (Ask now ref ca) p = snd (credentials_for now ref ca p)"
| "mtls_step env (Load_done now i r) p = load_done env now i r p"
| "mtls_step env (Take fp) p = snd (take_agent fp p)"
| "mtls_step env Close_all p = closeAll p"

section \<open>Agents\<close>

text \<open>Numbers are handed out once, and no agent in the pool is closed.\<close>

definition agents_ok :: "provider \<Rightarrow> bool" where
  "agents_ok p \<longleftrightarrow> jm_wf (mp_agents p) \<and> distinct (map snd (mp_agents p)) \<and> (\<forall>q \<in> set (mp_agents p). snd q < mp_next p)
     \<and> (\<forall>a \<in> set (mp_closed p). a < mp_next p \<and> a \<notin> snd ` set (mp_agents p))"

lemma agents_ok_close: "agents_ok p \<Longrightarrow> agents_ok (close_agent fp p)"
proof (cases "jm_get (mp_agents p) fp")
  case (Some a)
  assume ok: "agents_ok p"
  have mem: "(fp, a) \<in> set (mp_agents p)" using Some by (rule map_of_SomeD)
  have sub: "set (jm_delete fp (mp_agents p)) = set (mp_agents p) - {(fp, a)}"
    using ok Some map_of_is_SomeI [of "mp_agents p" fp] mem by (fastforce simp: agents_ok_def AList.delete_eq)
  have "distinct (map snd (jm_delete fp (mp_agents p)))"
    using ok by (simp add: agents_ok_def AList.delete_eq distinct_map_filter)
  moreover have "a \<notin> snd ` set (jm_delete fp (mp_agents p))"
  proof
    assume "a \<in> snd ` set (jm_delete fp (mp_agents p))"
    then obtain q where q: "q \<in> set (mp_agents p)" "q \<noteq> (fp, a)" "snd q = a" unfolding sub image_iff by blast
    have "inj_on snd (set (mp_agents p))" using ok by (simp add: agents_ok_def distinct_map)
    then show False using q mem inj_onD [of snd "set (mp_agents p)" q "(fp, a)"] by simp
  qed
  ultimately show ?thesis using ok mem sub by (auto simp: agents_ok_def close_agent_def Some)
qed (simp add: close_agent_def)

lemma agents_ok_eq:
  "agents_ok p \<Longrightarrow> mp_agents q = mp_agents p \<Longrightarrow> mp_closed q = mp_closed p \<Longrightarrow> mp_next p \<le> mp_next q \<Longrightarrow> agents_ok q"
  by (fastforce simp: agents_ok_def)

lemma agents_ok_step: "agents_ok p \<Longrightarrow> agents_ok (mtls_step env e p)"
proof (induction e)
  case (Ask now ref ca)
  then show ?case by (auto simp: credentials_for_def intro: agents_ok_eq split: option.splits)
next
  case (Load_done now i r)
  have store: "agents_ok (store_credentials env now ref c p)" for ref c
    using Load_done by (auto simp: store_credentials_def Let_def intro!: agents_ok_close intro: agents_ok_eq split: option.splits)
  show ?case
  proof (cases "List.find (\<lambda>l. ld_id l = i) (mp_running p)")
    case None
    then show ?thesis using Load_done by (simp add: load_done_def)
  next
    case (Some l)
    then have "\<exists>q. agents_ok q \<and> load_done env now i r p
        = q\<lparr>mp_running := filter (\<lambda>l. ld_id l \<noteq> i) (mp_running q), mp_inFlight := jm_delete (ld_ref l) (mp_inFlight q)\<rparr>"
      using Load_done store by (cases "load_result env now l r") (auto simp: load_done_def Let_def)
    then show ?thesis by (auto intro: agents_ok_eq)
  qed
next
  case (Take fp)
  show ?case
  proof (cases "jm_get (mp_agents p) fp")
    case None
    have e: "mtls_step env (Take fp) p = p\<lparr>mp_agents := mp_agents p @ [(fp, mp_next p)], mp_next := mp_next p + 1\<rparr>"
      using jm_set_new [OF None] by (simp add: take_agent_def None)
    have "fp \<notin> fst ` set (mp_agents p)" using None by (simp add: map_of_eq_None_iff)
    moreover note ok = Take [unfolded agents_ok_def]
    moreover have "mp_next p \<notin> snd ` set (mp_agents p)" "mp_next p \<notin> set (mp_closed p)" using ok by auto
    ultimately show ?thesis unfolding e agents_ok_def by (simp add: ball_Un less_Suc_eq) blast
  qed (simp add: Take take_agent_def)
next
  case Close_all
  then show ?case by (fastforce simp: agents_ok_def closeAll_def)
qed

text \<open>Whatever happened before, a delivery is handed an agent that is open.\<close>

lemma taken_agent_open:
  assumes "agents_ok p"
  shows "fst (take_agent fp p) \<notin> set (mp_closed (snd (take_agent fp p)))"
proof (cases "jm_get (mp_agents p) fp")
  case (Some a)
  then have "a \<in> snd ` set (mp_agents p)" by (force dest: map_of_SomeD)
  then show ?thesis using assms by (auto simp: take_agent_def Some agents_ok_def)
next
  case None
  then show ?thesis using assms by (auto simp: take_agent_def agents_ok_def)
qed

lemma agents_ok_new: "agents_ok new_provider"
  by (simp add: agents_ok_def new_provider_def)

lemma agents_ok_run: "agents_ok p \<Longrightarrow> agents_ok (fold (mtls_step env) es p)"
  by (induction es arbitrary: p) (simp_all add: agents_ok_step)

text \<open>
  But a rotation closes the agent at once, also under a delivery that took it and waits to retry: each
  of its later attempts goes over a closed agent.
\<close>

lemma rotation_closes_taken:
  assumes "jm_get (mp_cache p) ref = Some old" "cc_fingerprint old \<noteq> credentialFingerprint (me_sha env) c"
    "jm_get (mp_agents p) (cc_fingerprint old) = Some a"
  shows "a \<in> set (mp_closed (store_credentials env now ref c p))"
  using assms by (simp add: store_credentials_def Let_def close_agent_def)

section \<open>Loads\<close>

text \<open>Until the provider is closed, a ref has at most one load, and it is the one in flight.\<close>

definition loads_ok :: "provider \<Rightarrow> bool" where
  "loads_ok p \<longleftrightarrow> distinct (map ld_ref (mp_running p)) \<and> distinct (map ld_id (mp_running p)) \<and> (\<forall>l \<in> set (mp_running p). ld_id l < mp_next p)
     \<and> (\<forall>ref i. jm_get (mp_inFlight p) ref = Some i \<longleftrightarrow> (\<exists>l \<in> set (mp_running p). ld_ref l = ref \<and> ld_id l = i))"

lemma store_keeps:
  "mp_running (store_credentials env now ref c p) = mp_running p"
  "mp_inFlight (store_credentials env now ref c p) = mp_inFlight p"
  "mp_next (store_credentials env now ref c p) = mp_next p"
  by (auto simp: store_credentials_def close_agent_def Let_def split: option.splits)

lemma load_done_fields:
  assumes "List.find (\<lambda>l. ld_id l = i) (mp_running p) = Some l"
  shows "mp_running (load_done env now i r p) = filter (\<lambda>l. ld_id l \<noteq> i) (mp_running p)"
    "mp_inFlight (load_done env now i r p) = jm_delete (ld_ref l) (mp_inFlight p)" "mp_next (load_done env now i r p) = mp_next p"
  using assms by (auto simp: load_done_def Let_def store_keeps split: sum.splits)

lemma loads_ok_step:
  assumes "loads_ok p" "e \<noteq> Close_all"
  shows "loads_ok (mtls_step env e p)"
proof (cases e)
  case (Ask now ref ca)
  show ?thesis
  proof (cases "snd (credentials_for now ref ca p) = p")
    case False
    then have new: "jm_get (mp_inFlight p) ref = None"
      "snd (credentials_for now ref ca p) = p\<lparr>mp_inFlight := jm_set ref (mp_next p) (mp_inFlight p), mp_next := mp_next p + 1,
         mp_running := mp_running p @ [\<lparr>ld_id = mp_next p, ld_ref = ref, ld_ca = ca\<rparr>]\<rparr>"
      by (auto simp: credentials_for_def split: option.splits)
    have none: "ld_ref l \<noteq> ref" if "l \<in> set (mp_running p)" for l
      using assms(1) new(1) that unfolding loads_ok_def by (metis option.distinct(1))
    show ?thesis unfolding Ask mtls_step.simps new(2) loads_ok_def
      using assms(1) none by (auto simp: loads_ok_def jm_get_set)
  qed (simp add: Ask assms)
next
  case (Load_done now i r)
  show ?thesis
  proof (cases "List.find (\<lambda>l. ld_id l = i) (mp_running p)")
    case None
    then show ?thesis using assms(1) by (simp add: Load_done load_done_def)
  next
    case (Some l)
    then have l: "l \<in> set (mp_running p)" "ld_id l = i" by (auto simp: find_Some_iff)
    note f = load_done_fields [OF Some, of env now r]
    have same: "k = l" if "k \<in> set (mp_running p)" "ld_id k = i \<or> ld_ref k = ld_ref l" for k
      using assms(1) that l by (auto simp: loads_ok_def distinct_map dest: inj_onD)
    show ?thesis unfolding Load_done mtls_step.simps loads_ok_def f
      using assms(1) same l by (auto simp: loads_ok_def jm_get_delete distinct_map_filter)
  qed
next
  case (Take fp)
  then show ?thesis using assms(1) by (fastforce simp: loads_ok_def take_agent_def split: option.splits)
qed (use assms in simp)

lemma one_load_per_ref:
  assumes "loads_ok p" "Close_all \<notin> set es"
  shows "distinct (map ld_ref (mp_running (fold (mtls_step env) es p)))"
proof -
  have "loads_ok (fold (mtls_step env) es p)"
    using assms by (induction es arbitrary: p) (auto simp: loads_ok_step)
  then show ?thesis by (simp add: loads_ok_def)
qed

text \<open>
  Closing does not stop a load: the material it brings is cached after the shutdown that should have
  dropped it.
\<close>

lemma load_outlives_close:
  assumes "l \<in> set (mp_running p)" "distinct (map ld_id (mp_running p))" "load_result env now l r = Inr c"
  shows "map_option cc_credentials (jm_get (mp_cache (load_done env now (ld_id l) r (closeAll p))) (ld_ref l)) = Some c"
proof -
  have "List.find (\<lambda>k. ld_id k = ld_id l) (mp_running (closeAll p)) = Some l"
  proof -
    obtain k where k: "List.find (\<lambda>k. ld_id k = ld_id l) (mp_running p) = Some k"
      using assms(1) by (cases "List.find (\<lambda>k. ld_id k = ld_id l) (mp_running p)") (auto simp: find_None_iff)
    then have "k \<in> set (mp_running p)" "ld_id k = ld_id l" by (auto simp: find_Some_iff)
    then have "k = l" using assms(1,2) by (auto simp: distinct_map dest: inj_onD)
    with k show ?thesis by (simp add: closeAll_def)
  qed
  then show ?thesis using assms(3) by (simp add: load_done_def Let_def store_credentials_def closeAll_def jm_get_set)
qed

text \<open>
  A cached credential answers for its ref whatever authority the record names: a new inline \<open>ca\<close> takes
  effect when the cache expires, not at once.
\<close>

lemma inline_ca_ignored:
  assumes "jm_get (mp_cache p) ref = Some c" "now < cc_expiresAt c"
  shows "credentials_for now ref ca p = (Cached (cc_credentials c) (cc_fingerprint c), p)"
  using assms by (simp add: credentials_for_def)

section \<open>The authenticator\<close>

text \<open>
  What an object literal answers for a name it inherits: \<open>signingSecrets[endpointId]\<close> is such a read,
  and a function is turned into its source text by \<open>String\<close>.
\<close>

definition inherited_names :: "string list" where
  "inherited_names = [''toString'', ''toLocaleString'', ''valueOf'', ''hasOwnProperty'', ''isPrototypeOf'', ''propertyIsEnumerable'']"

definition inherited_text :: "string \<Rightarrow> string option" where
  "inherited_text k =
     (if k \<in> set inherited_names then Some (''function '' @ k @ ''() { [native code] }'')
      else if k = ''constructor'' then Some ''function Object() { [native code] }''
      else if k = ''__proto__'' then Some ''[object Object]''
      else None)"

definition resolveSigningSecret :: "(json_obj \<Rightarrow> string + string option) option \<Rightarrow> (string, string) jsmap \<Rightarrow> json_obj \<Rightarrow> string option" where
  "resolveSigningSecret resolveSecret signingSecrets rec =
     (case Option.bind resolveSecret (\<lambda>f. case f rec of Inr (Some s) \<Rightarrow> if s \<noteq> [] then Some s else None | _ \<Rightarrow> None) of
        Some s \<Rightarrow> Some s
      | None \<Rightarrow>
          (case jm_get rec ''endpointId'' of
             Some v \<Rightarrow>
               if \<not> js_truthy v then None
               else (case jm_get signingSecrets (js_text v) of
                       Some s \<Rightarrow> if s \<noteq> [] then Some s else None
                     | None \<Rightarrow> inherited_text (js_text v))
           | None \<Rightarrow> None))"

definition isMtlsConfigured :: "json_obj \<Rightarrow> bool" where
  "isMtlsConfigured rec = (case Option.bind (jm_get rec ''mtls'') (jprop ''ref'') of Some v \<Rightarrow> js_truthy v | None \<Rightarrow> False)"

text \<open>\<open>getAgent\<close> is the provider's, when there is one; its failure is a warning.\<close>

definition authenticate ::
  "(string \<Rightarrow> string \<Rightarrow> string) \<Rightarrow> (json_obj \<Rightarrow> string + string option) option \<Rightarrow> (string, string) jsmap \<Rightarrow>
   (json_obj \<Rightarrow> string + string) option \<Rightarrow> int \<Rightarrow> json_obj \<Rightarrow> string \<Rightarrow> auth_result" where
  "authenticate mac resolveSecret signingSecrets getAgent nowMs rec body =
     (let headers = signatureHeaders mac body (resolveSigningSecret resolveSecret signingSecrets rec) (nowMs div 1000) in
      case getAgent of
        None \<Rightarrow> \<lparr>ar_agent = None, ar_headers = headers\<rparr>
      | Some g \<Rightarrow>
          if \<not> isMtlsConfigured rec then \<lparr>ar_agent = None, ar_headers = headers\<rparr>
          else (case g rec of
                  Inr a \<Rightarrow> \<lparr>ar_agent = Some a, ar_headers = headers\<rparr>
                | Inl _ \<Rightarrow> \<lparr>ar_agent = None, ar_headers = headers\<rparr>))"

text \<open>The signature does not depend on the client certificate, nor on whether its credentials resolve.\<close>

lemma signature_independent:
  "ar_headers (authenticate mac rs ss g t rec body) = ar_headers (authenticate mac rs ss None t rec body)"
  by (auto simp: authenticate_def Let_def split: option.splits sum.splits)

text \<open>
  A record that asks for a client certificate and has no secret is sent unsigned and without one when
  its credentials do not resolve.
\<close>

lemma unauthenticated_delivery:
  assumes "g rec = Inl e" "resolveSigningSecret rs ss rec = None"
  shows "authenticate mac rs ss (Some g) t rec body = \<lparr>ar_agent = None, ar_headers = []\<rparr>"
  using assms by (simp add: authenticate_def signatureHeaders_def)

text \<open>An endpoint named like a property every object inherits is signed with a text that anyone knows.\<close>

lemma inherited_secret:
  assumes "jm_get rec ''endpointId'' = Some (JStr ''constructor'')"
  shows "resolveSigningSecret None [] rec = Some ''function Object() { [native code] }''"
  using assms by (simp add: resolveSigningSecret_def inherited_text_def inherited_names_def)

section \<open>Credentials on disk\<close>

text \<open>\<open>path.normalize\<close> and \<open>path.join\<close> of POSIX paths.\<close>

fun resolve_segments :: "bool \<Rightarrow> string list \<Rightarrow> string list \<Rightarrow> string list" where
  "resolve_segments absolute acc [] = rev acc"
| "resolve_segments absolute acc (s # ss) =
     (if s = [] \<or> s = ''.'' then resolve_segments absolute acc ss
      else if s = ''..'' then
        (case acc of
           d # ds \<Rightarrow> if d = ''..'' then resolve_segments absolute (''..'' # acc) ss else resolve_segments absolute ds ss
         | [] \<Rightarrow> resolve_segments absolute (if absolute then [] else [''..'']) ss)
      else resolve_segments absolute (s # acc) ss)"

definition ends_in_slash :: "string \<Rightarrow> bool" where
  "ends_in_slash p \<longleftrightarrow> p \<noteq> [] \<and> last p = CHR ''/''"

definition normalize :: "string \<Rightarrow> string" where
  "normalize p =
     (if p = [] then ''.''
      else (let absolute = hd p = CHR ''/''; body = js_join ''/'' (resolve_segments absolute [] (js_split CHR ''/'' p));
                body1 = (if body = [] \<and> \<not> absolute then ''.'' else body);
                body2 = (if body1 \<noteq> [] \<and> ends_in_slash p then body1 @ ''/'' else body1)
            in if absolute then ''/'' @ body2 else body2))"

definition path_join :: "string \<Rightarrow> string \<Rightarrow> string" where
  "path_join a b = normalize (js_join ''/'' (filter (\<lambda>s. s \<noteq> []) [a, b]))"

definition mount_target :: "string \<Rightarrow> string \<Rightarrow> string option" where
  "mount_target baseDir file =
     (let target = normalize (path_join baseDir file); root = normalize baseDir
      in if target \<noteq> root \<and> \<not> js_starts_with (root @ ''/'') target then None else Some target)"

definition valid_ref :: "string \<Rightarrow> bool" where
  "valid_ref ref \<longleftrightarrow> ref \<noteq> [] \<and> \<not> ((CHR 0x5C \<in> set ref \<or> CHR ''/'' \<in> set ref \<or> CHR 0x00 \<in> set ref) \<and> js_includes ''..'' ref)"

definition readPemFromDisk :: "(string \<Rightarrow> string option) \<Rightarrow> string \<Rightarrow> string \<Rightarrow> string + (string \<times> string \<times> string option)" where
  "readPemFromDisk files baseDir ref =
     (let read = (\<lambda>suffix. Option.bind (mount_target baseDir (ref @ suffix)) files) in
      if \<not> valid_ref ref then Inl ''invalid_ref''
      else (case read ''.crt'' of
              None \<Rightarrow> Inl ''missing_cert''
            | Some cert \<Rightarrow>
                (case read ''.key'' of None \<Rightarrow> Inl ''missing_key'' | Some key \<Rightarrow> Inr (cert, key, read ''.ca.crt''))))"

text \<open>The file read lies below the mount: its normalised path extends the root's, and has no step upwards.\<close>

lemma mounted_below:
  assumes "mount_target baseDir file = Some t"
  shows "t = normalize baseDir \<or> (\<exists>r. t = normalize baseDir @ ''/'' @ r)"
  using assms by (auto simp: mount_target_def Let_def js_starts_with_def split: if_splits)
    (metis append.assoc append_Cons append_Nil append_take_drop_id)

lemma absolute_no_parent: "''..'' \<notin> set acc \<Longrightarrow> ''..'' \<notin> set (resolve_segments True acc ss)"
  by (induction True acc ss rule: resolve_segments.induct) (auto split: list.splits)

text \<open>
  A base directory written with a slash at its end keeps it through \<open>normalize\<close>, so that no file
  starts with it and one more slash: every ref is refused.
\<close>

lemma trailing_slash_refuses: "mount_target ''/run/secrets/'' ''acme.crt'' = None" "mount_target ''/run/secrets'' ''acme.crt'' \<noteq> None"
  by code_simp+

end
