(* ===== verification/SellerSdk.thy ===== *)
theory SellerSdk
  imports Sep7Facts
begin

text \<open>
  The seller's side of the SDK (\<open>src/sdk/index.js\<close>): amounts as stroops, and a discovery
  declaration with its price converted.
\<close>

section \<open>Stroops\<close>

text \<open>An amount is a value of the declaration or a BigInt.\<close>

datatype sdk_amount = Sdk_value "json option" | Sdk_big int

definition strip_plus :: "string \<Rightarrow> string" where
  "strip_plus s = (case s of c # cs \<Rightarrow> if c = CHR ''+'' then cs else s | [] \<Rightarrow> [])"

text \<open>\<open>Inl\<close> is the message of the error that is thrown; the digits always are a BigInt.\<close>

definition toStroops :: "sdk_amount \<Rightarrow> string + string" where
  "toStroops amount =
     (case amount of
        Sdk_big n \<Rightarrow> Inr (int_str n)
      | Sdk_value v \<Rightarrow>
          (case validateAmount v of
             e # _ \<Rightarrow> Inl e
           | [] \<Rightarrow>
               (case v of
                  Some (JStr s) \<Rightarrow>
                    (let (i, f) = amount_parts s in
                     case bigint_text (strip_plus i @ pad_end (nat STELLAR_DECIMALS) (take (nat STELLAR_DECIMALS) f)) of
                       Some n \<Rightarrow> Inr (int_str n)
                     | None \<Rightarrow> Inl ''Cannot convert to a BigInt'')
                | _ \<Rightarrow> Inl ''amount.split is not a function'')))"

definition js_default :: "json option \<Rightarrow> json \<Rightarrow> json" where
  "js_default v d = (case v of Some j \<Rightarrow> if js_truthy j then j else d | None \<Rightarrow> d)"

text \<open>\<open>None\<close>: the template is no text, and matching it throws.\<close>

definition createStellarDiscoveryResource :: "json \<Rightarrow> (string list + json) option" where
  "createStellarDiscoveryResource params =
     (case validateDiscoveryDeclaration (Some params) of
        None \<Rightarrow> None
      | Some (e # es) \<Rightarrow> Some (Inl (e # es))
      | Some [] \<Rightarrow>
          (let pricing = the (jprop ''pricing'' params) in
           case toStroops (Sdk_value (jprop ''amount'' pricing)) of
             Inl e \<Rightarrow> Some (Inl [e])
           | Inr t \<Rightarrow> Some (Inr (JObj
               (jm_set ''pricing'' (JObj (jm_set ''amount'' (JStr t) (js_entries pricing)))
                 (jm_set ''scheme'' (js_default (jprop ''scheme'' params) (JStr ''exact''))
                   (jm_set ''network'' (js_default (jprop ''network'' params) (JStr ''stellar:testnet''))
                     (js_entries params))))))))"

section \<open>What a conversion gives\<close>

lemma unsigned_parts:
  assumes "unsigned_decimal s"
  obtains i f where "amount_parts s = (i, f)" "i \<noteq> []" "list_all is_digit i" "list_all is_digit f" "s = i @ (if f = [] then [] else CHR ''.'' # f)"
proof (cases "dropWhile is_digit s")
  case Nil
  have d: "digits1 s" using assms unfolding unsigned_decimal_def Nil by simp
  then have "amount_parts s = (s, [])"
    by (simp add: amount_parts_def split_no_sep [OF digits_no_dot] digits1_def)
  with d that [of s "[]"] show ?thesis by (simp add: digits1_def)
next
  case (Cons c ds)
  then have d: "c = CHR ''.''" "digits1 (takeWhile is_digit s)" "digits1 ds" using assms by (simp_all add: unsigned_decimal_def)
  have s: "s = takeWhile is_digit s @ CHR ''.'' # ds" using takeWhile_dropWhile_id [of is_digit s] Cons d(1) by simp
  define i where "i = takeWhile is_digit s"
  have dg: "list_all is_digit i" "list_all is_digit ds" "i \<noteq> []" "ds \<noteq> []" using d by (simp_all add: i_def digits1_def)
  have si: "s = i @ CHR ''.'' # ds" using s by (simp add: i_def)
  then have "amount_parts s = (i, ds)"
    by (simp add: amount_parts_def split_at [OF digits_no_dot [OF dg(1)]] split_no_sep [OF digits_no_dot [OF dg(2)]])
  with dg si that [of i ds] show ?thesis by simp
qed

lemma padded_bigint:
  assumes "i \<noteq> []" "list_all is_digit i" "list_all is_digit f"
  shows "bigint_text (i @ pad_end n (take n f)) = Some (digits_value (i @ pad_end n (take n f)))"
proof (rule bigint_digits)
  have "list_all is_digit (take n f)" using assms(3) by (auto simp: list_all_iff dest: in_set_takeD)
  then show "list_all is_digit (i @ pad_end n (take n f))" using assms(2) by (auto simp: pad_end_def list_all_iff is_digit_def)
qed (use assms(1) in simp)

text \<open>A decimal that passes is whole digits and a fraction; the number is their first seven places.\<close>

lemma stroops_of_decimal:
  assumes "decimal_amount s" "hd s \<noteq> CHR ''-''"
  obtains i f where "strip_plus s = i @ (if f = [] then [] else CHR ''.'' # f)" "i \<noteq> []" "list_all is_digit (i @ f)"
    "toStroops (Sdk_value (Some (JStr s))) = Inr (int_str (digits_value (i @ pad_end 7 (take 7 f))))"
proof -
  obtain c cs where s: "s = c # cs" using assms(1) by (cases s) (simp_all add: decimal_amount_def)
  then have c: "c \<noteq> CHR ''-''" and u: "unsigned_decimal (strip_plus s)"
    using assms by (auto simp: decimal_amount_def strip_plus_def split: if_splits)
  obtain i f where p: "amount_parts (strip_plus s) = (i, f)" "i \<noteq> []" "list_all is_digit i" "list_all is_digit f"
    "strip_plus s = i @ (if f = [] then [] else CHR ''.'' # f)"
    by (rule unsigned_parts [OF u])
  have v: "validateAmount (Some (JStr s)) = []" using assms s by (simp add: validateAmount_def)
  obtain i' where i': "amount_parts s = (i', f)" "strip_plus i' = i"
  proof (cases "c = CHR ''+''")
    case True
    then have ss: "s = CHR ''+'' # strip_plus s" by (simp add: s strip_plus_def)
    have "amount_parts (CHR ''+'' # x) = (CHR ''+'' # fst (amount_parts x), snd (amount_parts x))" for x
      by (auto simp: amount_parts_def split: list.splits)
    with p(1) ss have "amount_parts s = (CHR ''+'' # i, f)" by (metis fst_conv snd_conv)
    with that show ?thesis by (simp add: strip_plus_def)
  next
    case False
    then have "strip_plus s = s" by (simp add: s strip_plus_def)
    moreover have "strip_plus i = i" using p(2,3) by (cases i) (auto simp: strip_plus_def is_digit_def)
    ultimately show ?thesis using that p(1) by simp
  qed
  have "toStroops (Sdk_value (Some (JStr s))) = Inr (int_str (digits_value (i @ pad_end 7 (take 7 f))))"
    using padded_bigint [OF p(2-4), of 7] by (simp add: toStroops_def v i' Let_def STELLAR_DECIMALS_def)
  with p that show ?thesis by simp
qed

lemma jprop_set: "jprop k (JObj (jm_set k' v fs)) = (if k = k' then Some v else jprop k (JObj fs))"
  by (simp add: jprop_def jm_get_set)

text \<open>The price of a created declaration is the number of stroops of the declared decimal.\<close>

lemma created_price:
  assumes "createStellarDiscoveryResource params = Some (Inr r)"
  shows "\<exists>s i f. js_prop ''amount'' (jprop ''pricing'' params) = Some (JStr s) \<and> decimal_amount s \<and> hd s \<noteq> CHR ''-''
    \<and> strip_plus s = i @ (if f = [] then [] else CHR ''.'' # f)
    \<and> js_prop ''amount'' (jprop ''pricing'' r) = Some (JStr (int_str (digits_value (i @ pad_end 7 (take 7 f)))))"
proof -
  have v: "validateDiscoveryDeclaration (Some params) = Some []"
    using assms by (auto simp: createStellarDiscoveryResource_def split: option.splits list.splits)
  obtain s where s: "js_prop ''amount'' (jprop ''pricing'' params) = Some (JStr s)" "decimal_amount s" "hd s \<noteq> CHR ''-''"
    using declaration_amount [OF v] by auto
  then obtain pr where pr: "jprop ''pricing'' params = Some pr" "jprop ''amount'' pr = Some (JStr s)"
    by (auto simp: js_prop_def bind_eq_Some_conv)
  obtain i f where f: "strip_plus s = i @ (if f = [] then [] else CHR ''.'' # f)"
    "toStroops (Sdk_value (Some (JStr s))) = Inr (int_str (digits_value (i @ pad_end 7 (take 7 f))))"
    by (rule stroops_of_decimal [OF s(2,3)])
  then have "js_prop ''amount'' (jprop ''pricing'' r) = Some (JStr (int_str (digits_value (i @ pad_end 7 (take 7 f)))))"
    using assms v pr by (auto simp: createStellarDiscoveryResource_def Let_def js_prop_def jprop_set)
  with s f show ?thesis by blast
qed

text \<open>A decimal written for a number of stroops is read back as that number.\<close>

lemma stroops_text_back:
  assumes "0 \<le> n"
  shows "toStroops (Sdk_value (Some (JStr (stroops_text n)))) = Inr (int_str n)"
proof -
  obtain i f where p: "stroops_text n = i @ (if f = [] then [] else CHR ''.'' # f)" "i \<noteq> []" "list_all is_digit (i @ f)"
    "length f \<le> 7" "digits_value (i @ pad_end 7 f) = n"
    by (rule stroops_parts [OF assms])
  have d: "list_all is_digit i" "list_all is_digit f" using p(3) by simp_all
  have parts: "amount_parts (stroops_text n) = (i, f)"
    by (simp add: p(1) amount_parts_def split_at [OF digits_no_dot [OF d(1)]] split_no_sep [OF digits_no_dot [OF d(1)]]
        split_no_sep [OF digits_no_dot [OF d(2)]])
  obtain c cs where c: "i = c # cs" "is_digit c" using p(2) d(1) by (cases i) auto
  have tw: "takeWhile is_digit (i @ CHR ''.'' # f) = i" "dropWhile is_digit (i @ CHR ''.'' # f) = CHR ''.'' # f"
    using d(1) by (auto simp: list_all_iff takeWhile_append2 dropWhile_append2 is_digit_def)
  have "unsigned_decimal (stroops_text n)"
  proof (cases "f = []")
    case True
    then show ?thesis using d(1) p(2) by (simp add: p(1) unsigned_decimal_def digits1_def list_all_iff flip: dropWhile_eq_Nil_conv)
  next
    case False
    then show ?thesis using d p(2) by (simp add: p(1) unsigned_decimal_def digits1_def tw)
  qed
  moreover have "c \<noteq> CHR ''-''" "c \<noteq> CHR ''+''" using c(2) by (auto simp: is_digit_def)
  ultimately have "validateAmount (Some (JStr (stroops_text n))) = []"
    by (simp add: validateAmount_def decimal_amount_def p(1) c)
  moreover have "strip_plus i = i" using \<open>c \<noteq> CHR ''+''\<close> by (simp add: c strip_plus_def)
  ultimately show ?thesis
    using padded_bigint [OF p(2) d, of 7] p(4,5) by (simp add: toStroops_def parts Let_def STELLAR_DECIMALS_def)
qed

end
