(* ===== verification/FeeEstimator.thy ===== *)
theory FeeEstimator
  imports Complex_Main JsPrelude
begin

text \<open>
  Fees from Horizon and the pooled request path (\<open>src/horizon-client.js\<close>): the statistics with their
  five second cache and the load that callers share, the bid for a priority and a deadline under its
  ceiling, and what the pooled fetch hands to the circuit breaker. The breaker is a library's.
\<close>

section \<open>Statistics\<close>

definition FEE_STATS_TTL_MS :: int where "FEE_STATS_TTL_MS = 5000"
definition MIN_BASE_FEE_STROOPS :: int where "MIN_BASE_FEE_STROOPS = 100"
definition URGENT_DEADLINE_MS :: real where "URGENT_DEADLINE_MS = 5000"

definition PRIORITY_TIERS :: "string list" where
  "PRIORITY_TIERS = [''low'', ''normal'', ''high'']"

definition TIER_PERCENTILE :: "(string \<times> string) list" where
  "TIER_PERCENTILE = [(''low'', ''p50''), (''normal'', ''p90''), (''high'', ''p99'')]"

text \<open>\<open>Number(value)\<close>, with none for NaN and the infinities.\<close>

type_synonym js_real = "real option"

definition fee_stroops :: "js_real \<Rightarrow> int option" where
  "fee_stroops v = (case v of Some n \<Rightarrow> if 0 \<le> n then Some \<lceil>n\<rceil> else None | None \<Rightarrow> None)"

record fee_stats =
  fs_rate :: "string \<Rightarrow> int"
  fs_baseFee :: int
  fs_usage :: real

text \<open>What \<open>/fee_stats\<close> answered: an exception, another status, or a body of numbers.\<close>

record fee_body =
  fb_base :: js_real
  fb_charged :: "string \<Rightarrow> js_real"
  fb_usage :: js_real

datatype fee_reply = Fee_threw string | Fee_status nat | Fee_body fee_body

definition load_stats :: "fee_reply \<Rightarrow> string + fee_stats" where
  "load_stats reply =
     (case reply of
        Fee_threw e \<Rightarrow> Inl e
      | Fee_status s \<Rightarrow> Inl (''fee_stats returned HTTP '' @ nat_str s)
      | Fee_body b \<Rightarrow>
          (let baseFee = nullish_or (fee_stroops (fb_base b)) MIN_BASE_FEE_STROOPS;
               rate = (\<lambda>p. fee_stroops (fb_charged b p))
           in case List.find (\<lambda>p. rate p = None) [''p50'', ''p90'', ''p99''] of
                Some p \<Rightarrow> Inl (''fee_stats response is missing fee_charged.'' @ p)
              | None \<Rightarrow> Inr \<lparr>fs_rate = (\<lambda>p. max (the (rate p)) baseFee), fs_baseFee = baseFee,
                             fs_usage = nullish_or (fb_usage b) 0\<rparr>))"

section \<open>The estimator\<close>

text \<open>
  The state between awaits: the statistics with the time they arrived, and whether a load is running.
  \<open>fs_started\<close> counts the requests sent to Horizon.
\<close>

record fee_estimator =
  fe_max :: int
  fe_ttl :: int
  fe_cached :: "(fee_stats \<times> int) option"
  fe_inflight :: bool
  fe_started :: nat

text \<open>\<open>maxFee\<close>: none when it is no finite number.\<close>

definition createFeeEstimator :: "string \<Rightarrow> int option \<Rightarrow> int \<Rightarrow> string + fee_estimator" where
  "createFeeEstimator horizonUrl maxFee ttl =
     (if horizonUrl = [] then Inl ''createFeeEstimator: horizonUrl is required''
      else (case maxFee of
              Some m \<Rightarrow>
                if m < MIN_BASE_FEE_STROOPS then Inl ''createFeeEstimator: maxFeeStroops must be >= 100''
                else Inr \<lparr>fe_max = m, fe_ttl = ttl, fe_cached = None, fe_inflight = False, fe_started = 0\<rparr>
            | None \<Rightarrow> Inl ''createFeeEstimator: maxFeeStroops must be >= 100''))"

text \<open>A call of \<open>fetchFeeStats\<close>: the fresh statistics, or none and the caller awaits the running load.\<close>

definition fetchFeeStats :: "int \<Rightarrow> fee_estimator \<Rightarrow> fee_stats option \<times> fee_estimator" where
  "fetchFeeStats now e =
     (case fe_cached e of
        Some (stats, loaded_at) \<Rightarrow>
          if now - loaded_at < fe_ttl e then (Some stats, e)
          else (None, if fe_inflight e then e else e\<lparr>fe_inflight := True, fe_started := fe_started e + 1\<rparr>)
      | None \<Rightarrow> (None, if fe_inflight e then e else e\<lparr>fe_inflight := True, fe_started := fe_started e + 1\<rparr>))"

text \<open>The running load ends: its callers get the result, the next one may start another.\<close>

definition stats_loaded :: "int \<Rightarrow> fee_reply \<Rightarrow> fee_estimator \<Rightarrow> (string + fee_stats) \<times> fee_estimator" where
  "stats_loaded now reply e =
     (case load_stats reply of
        Inl err \<Rightarrow> (Inl err, e\<lparr>fe_inflight := False\<rparr>)
      | Inr stats \<Rightarrow> (Inr stats, e\<lparr>fe_cached := Some (stats, now), fe_inflight := False\<rparr>))"

datatype fee_event = Fee_wanted int | Fee_loaded int fee_reply

fun fee_step :: "fee_event \<Rightarrow> fee_estimator \<Rightarrow> fee_estimator" where
  "fee_step (Fee_wanted t) e = snd (fetchFeeStats t e)"
| "fee_step (Fee_loaded t r) e = (if fe_inflight e then snd (stats_loaded t r e) else e)"

section \<open>The bid\<close>

fun tier_index :: "string \<Rightarrow> string list \<Rightarrow> nat option" where
  "tier_index p [] = None"
| "tier_index p (t # ts) = (if t = p then Some 0 else map_option Suc (tier_index p ts))"

text \<open>A deadline: not given, no positive finite number, or milliseconds.\<close>

datatype deadline = No_deadline | Bad_deadline | Deadline real

definition bid_tier :: "string \<Rightarrow> deadline \<Rightarrow> string + string" where
  "bid_tier priority d =
     (case tier_index priority PRIORITY_TIERS of
        None \<Rightarrow> Inl (''Unknown fee priority: '' @ priority)
      | Some i \<Rightarrow>
          (case d of
             Bad_deadline \<Rightarrow> Inl ''deadlineMs must be a positive number''
           | No_deadline \<Rightarrow> Inr (PRIORITY_TIERS ! i)
           | Deadline ms \<Rightarrow>
               if ms \<le> 0 then Inl ''deadlineMs must be a positive number''
               else Inr (PRIORITY_TIERS ! (if ms < URGENT_DEADLINE_MS then min (i + 1) (length PRIORITY_TIERS - 1) else i))))"

datatype fee_source = From_horizon | From_stale | From_fallback

record fee_bid =
  bid_feeStroops :: int
  bid_tierName :: string
  bid_capped :: bool
  bid_source :: fee_source

text \<open>\<open>fetched\<close>: what \<open>await fetchFeeStats()\<close> gave this caller; \<open>e\<close> is the state after it.\<close>

definition estimateFee :: "string \<Rightarrow> deadline \<Rightarrow> string + fee_stats \<Rightarrow> fee_estimator \<Rightarrow> string + fee_bid" where
  "estimateFee priority d fetched e =
     (case bid_tier priority d of
        Inl err \<Rightarrow> Inl err
      | Inr tier \<Rightarrow>
          (let (stats, source) =
                 (case fetched of
                    Inr s \<Rightarrow> (Some s, From_horizon)
                  | Inl _ \<Rightarrow> (case fe_cached e of Some (s, _) \<Rightarrow> (Some s, From_stale) | None \<Rightarrow> (None, From_fallback)));
               bid = (case stats of Some s \<Rightarrow> fs_rate s (the (map_of TIER_PERCENTILE tier)) | None \<Rightarrow> MIN_BASE_FEE_STROOPS)
           in Inr \<lparr>bid_feeStroops = min bid (fe_max e), bid_tierName = tier, bid_capped = (fe_max e < bid), bid_source = source\<rparr>))"

section \<open>What a bid promises\<close>

definition stats_ok :: "fee_stats \<Rightarrow> bool" where
  "stats_ok s \<longleftrightarrow> 0 \<le> fs_baseFee s \<and> (\<forall>p. fs_baseFee s \<le> fs_rate s p)"

lemma fee_stroops_nonneg: "fee_stroops v = Some n \<Longrightarrow> 0 \<le> n"
  by (auto simp: fee_stroops_def split: option.splits if_splits)

lemma load_stats_ok: "load_stats r = Inr s \<Longrightarrow> stats_ok s"
proof -
  assume l: "load_stats r = Inr s"
  then obtain b where b: "r = Fee_body b" by (cases r) (simp_all add: load_stats_def)
  have "0 \<le> nullish_or (fee_stroops (fb_base b)) MIN_BASE_FEE_STROOPS"
    using fee_stroops_nonneg by (cases "fee_stroops (fb_base b)") (auto simp: nullish_or_def MIN_BASE_FEE_STROOPS_def)
  with l show ?thesis by (auto simp: b load_stats_def Let_def stats_ok_def split: option.splits)
qed

definition estimator_ok :: "fee_estimator \<Rightarrow> bool" where
  "estimator_ok e \<longleftrightarrow> MIN_BASE_FEE_STROOPS \<le> fe_max e \<and> (\<forall>s t. fe_cached e = Some (s, t) \<longrightarrow> stats_ok s)"

lemma created_ok: "createFeeEstimator url m ttl = Inr e \<Longrightarrow> estimator_ok e"
  by (auto simp: createFeeEstimator_def estimator_ok_def split: if_splits option.splits)

lemma estimator_ok_step: "estimator_ok e \<Longrightarrow> estimator_ok (fee_step ev e)"
  by (cases ev) (auto simp: estimator_ok_def fetchFeeStats_def stats_loaded_def dest: load_stats_ok split: option.splits sum.splits)

lemma fee_step_max [simp]: "fe_max (fee_step ev e) = fe_max e" "fe_ttl (fee_step ev e) = fe_ttl e"
  by (cases ev; auto simp: fetchFeeStats_def stats_loaded_def split: option.splits sum.splits)+

lemma estimator_ok_run: "estimator_ok e \<Longrightarrow> estimator_ok (fold fee_step evs e)"
  by (induction evs arbitrary: e) (simp_all add: estimator_ok_step)

text \<open>Whatever Horizon answered, or did not, a bid is never above the ceiling and never negative.\<close>

lemma bid_bounded:
  assumes "estimator_ok e" "\<And>s. fetched = Inr s \<Longrightarrow> stats_ok s" "estimateFee priority d fetched e = Inr b"
  shows "0 \<le> bid_feeStroops b \<and> bid_feeStroops b \<le> fe_max e \<and> (bid_capped b \<longrightarrow> bid_feeStroops b = fe_max e)"
proof -
  define P where "P s \<longleftrightarrow> (\<forall>p. 0 \<le> fs_rate s p)" for s :: fee_stats
  have ok: "P s" if "stats_ok s" for s using that unfolding stats_ok_def P_def by (meson order.trans)
  have "P s" if "fetched = Inr s" for s using ok assms(2) that by blast
  moreover have "P s" if "fe_cached e = Some (s, t)" for s t using ok assms(1) that by (auto simp: estimator_ok_def)
  moreover have "0 \<le> fe_max e" using assms(1) by (simp add: estimator_ok_def MIN_BASE_FEE_STROOPS_def)
  ultimately show ?thesis
    using assms(3) by (auto simp: estimateFee_def P_def MIN_BASE_FEE_STROOPS_def Let_def split: sum.splits option.splits)
qed

lemma estimate_after_run:
  assumes "createFeeEstimator url m ttl = Inr e0" "e = fold fee_step evs e0"
    "\<And>s. fetched = Inr s \<Longrightarrow> \<exists>r. load_stats r = Inr s" "estimateFee priority d fetched e = Inr b"
  shows "0 \<le> bid_feeStroops b \<and> bid_feeStroops b \<le> the m"
proof -
  have ok: "estimator_ok e" using created_ok [OF assms(1)] assms(2) estimator_ok_run by simp
  have "fe_max e = fe_max e0" unfolding assms(2) by (induction evs arbitrary: e0) simp_all
  moreover have "m = Some (fe_max e0)" using assms(1) by (auto simp: createFeeEstimator_def split: if_splits option.splits)
  ultimately show ?thesis using bid_bounded [OF ok _ assms(4)] assms(3) load_stats_ok by force
qed

text \<open>Statistics whose percentiles are ordered give bids that are ordered as the priorities are.\<close>

lemma urgent_bids_more:
  assumes "fs_rate s ''p50'' \<le> fs_rate s ''p90''" "fs_rate s ''p90'' \<le> fs_rate s ''p99''"
    "estimateFee p No_deadline (Inr s) e = Inr b" "estimateFee p (Deadline ms) (Inr s) e = Inr b'"
  shows "bid_feeStroops b \<le> bid_feeStroops b'"
proof -
  have "p = ''low'' \<or> p = ''normal'' \<or> p = ''high''"
    using assms(3) by (auto simp: estimateFee_def bid_tier_def PRIORITY_TIERS_def split: if_splits)
  with assms show ?thesis
    by (elim disjE) (auto simp: estimateFee_def bid_tier_def PRIORITY_TIERS_def TIER_PERCENTILE_def min_def Let_def split: if_splits)
qed

section \<open>What reaches Horizon\<close>

text \<open>A caller starts a load only when none is running and the statistics are out of date.\<close>

lemma load_started:
  assumes "fetchFeeStats now e = (r, e')" "fe_started e' \<noteq> fe_started e"
  shows "\<not> fe_inflight e \<and> fe_inflight e' \<and> (\<forall>s t. fe_cached e = Some (s, t) \<longrightarrow> fe_ttl e \<le> now - t)"
  using assms by (auto simp: fetchFeeStats_def split: option.splits if_splits)

text \<open>However many callers come, requests started are loads ended, and at most one more.\<close>

fun loads_ended :: "fee_event list \<Rightarrow> nat" where
  "loads_ended [] = 0"
| "loads_ended (Fee_wanted _ # evs) = loads_ended evs"
| "loads_ended (Fee_loaded _ _ # evs) = Suc (loads_ended evs)"

lemma burst_shares_load:
  "fe_started (fold fee_step evs e) + of_bool (fe_inflight e)
     \<le> fe_started e + loads_ended evs + of_bool (fe_inflight (fold fee_step evs e))"
proof (induction evs arbitrary: e rule: loads_ended.induct)
  case 1
  then show ?case by simp
next
  case (2 t evs)
  from 2 [of "fee_step (Fee_wanted t) e"] show ?case
    by (auto simp: fetchFeeStats_def of_bool_def split: option.splits if_splits)
next
  case (3 t r evs)
  from 3 [of "fee_step (Fee_loaded t r) e"] show ?case
    by (auto simp: stats_loaded_def of_bool_def split: sum.splits if_splits)
qed

text \<open>Statistics that loaded within the time to live answer every caller without a request.\<close>

lemma fresh_answers:
  assumes "stats_loaded t r e = (Inr s, e')" "t' - t < fe_ttl e"
  shows "fetchFeeStats t' e' = (Some s, e')"
  using assms by (auto simp: stats_loaded_def fetchFeeStats_def split: sum.splits)

text \<open>After a failed load the last statistics are bid on, however old they are.\<close>

lemma stale_any_age:
  assumes "fe_cached e = Some (s, t)" "bid_tier p d = Inr tier" "stats_loaded now r e = (Inl err, e')"
  shows "\<exists>b. estimateFee p d (Inl err) e' = Inr b \<and> bid_source b = From_stale
    \<and> bid_feeStroops b = min (fs_rate s (the (map_of TIER_PERCENTILE tier))) (fe_max e)"
  using assms by (auto simp: estimateFee_def stats_loaded_def Let_def split: sum.splits)

section \<open>The pooled fetch\<close>

text \<open>
  What the action of the breaker receives as its input, and so hands to the fetch below it with the
  pooling agent as its options: the request itself, or the function that would send it.
\<close>

datatype ('input, 'init) action_input = Plain_input 'input | Thunk 'input 'init

definition pooledBreakerFetch :: "'input \<Rightarrow> 'init option \<Rightarrow> ('input, 'init) action_input" where
  "pooledBreakerFetch input init = (case init of None \<Rightarrow> Plain_input input | Some i \<Rightarrow> Thunk input i)"

text \<open>
  The fetch below is given the input of the action as what to fetch. With options it is handed the
  function that would have sent the request, which is called by nobody.
\<close>

lemma with_init_never_plain: "pooledBreakerFetch input (Some i) \<noteq> Plain_input x"
  by (simp add: pooledBreakerFetch_def)

text \<open>\<open>originOf\<close>: \<open>parse\<close> gives the origin of an address, none when it throws; a text or an object with a \<open>url\<close>.\<close>

definition originOf :: "(string \<Rightarrow> string option) \<Rightarrow> string option \<Rightarrow> string" where
  "originOf parse url = (case url of None \<Rightarrow> ''unknown'' | Some u \<Rightarrow> if u = [] then ''unknown'' else nullish_or (parse u) ''unknown'')"

text \<open>One breaker for each origin, made when it is first asked for.\<close>

definition origin_breaker :: "string \<Rightarrow> 'b \<Rightarrow> (string, 'b) jsmap \<Rightarrow> 'b \<times> (string, 'b) jsmap" where
  "origin_breaker origin fresh bs =
     (case jm_get bs origin of Some b \<Rightarrow> (b, bs) | None \<Rightarrow> (fresh, jm_set origin fresh bs))"

lemma origin_breaker_kept:
  "jm_get (snd (origin_breaker o1 f bs)) o1 = Some (fst (origin_breaker o1 f bs))"
  "o2 \<noteq> o1 \<Longrightarrow> jm_get (snd (origin_breaker o1 f bs)) o2 = jm_get bs o2"
  by (auto simp: origin_breaker_def jm_get_set split: option.splits)

end
