(* ===== verification/Vault.thy ===== *)
theory Vault
  imports Complex_Main JsPrelude
begin

text \<open>
  Database credentials from Vault: the client with its short-lived token (\<open>src/vault/client.js\<close>), the
  credentials cached for their lease (\<open>src/vault/creds.js\<close>) and the pool that takes each rotation
  (\<open>src/vault/database.js\<close>). What Vault answers is a parameter.
\<close>

section \<open>The client (client.js)\<close>

text \<open>A failure has a message; status 403 tells an expired token.\<close>

record vault_failure =
  vf_message :: string
  vf_status :: "nat option"

definition isAuthFailure :: "vault_failure \<Rightarrow> bool" where
  "isAuthFailure err \<longleftrightarrow> vf_status err = Some 403"

text \<open>\<open>lease_duration\<close>: none where it is missing, \<open>NaN\<close> where it is no number.\<close>

datatype login_reply = Login_failed vault_failure | Logged_in "string option" "jsnum option"

record vault_creds =
  vc_username :: string
  vc_password :: string
  vc_leaseId :: "string option"
  vc_leaseDurationSec :: jsnum
  vc_renewable :: bool

record read_reply =
  vr_username :: "string option"
  vr_password :: "string option"
  vr_leaseId :: "string option"
  vr_leaseDuration :: "jsnum option"
  vr_renewable :: bool

text \<open>What Vault and the clock answer, by the number of calls made before.\<close>

record vault_env =
  ve_login :: "nat \<Rightarrow> login_reply"
  ve_read :: "nat \<Rightarrow> vault_failure + read_reply"
  ve_clock :: "nat \<Rightarrow> int"

record vault_client =
  vk_token :: "string option"
  vk_expires :: jsnum
  vk_logins :: nat
  vk_reads :: nat

definition empty_vault_client :: vault_client where
  "empty_vault_client = \<lparr>vk_token = None, vk_expires = Fin 0, vk_logins = 0, vk_reads = 0\<rparr>"

definition vault_now :: "vault_env \<Rightarrow> vault_client \<Rightarrow> int" where
  "vault_now env c = ve_clock env (vk_logins c + vk_reads c)"

definition text_truthy :: "string option \<Rightarrow> bool" where
  "text_truthy t \<longleftrightarrow> t \<noteq> None \<and> t \<noteq> Some []"

fun lease_max :: "int \<Rightarrow> jsnum \<Rightarrow> jsnum" where
  "lease_max m (Fin n) = Fin (max m n)"
| "lease_max m NaN = NaN"

fun lease_seconds :: "jsnum \<Rightarrow> jsnum" where
  "lease_seconds (Fin n) = Fin (n * 1000)"
| "lease_seconds NaN = NaN"

definition ensureToken :: "vault_env \<Rightarrow> vault_client \<Rightarrow> (vault_failure + string) \<times> vault_client" where
  "ensureToken env c =
     (if text_truthy (vk_token c) \<and> js_lt (Fin (vault_now env c)) (vk_expires c) then (Inr (the (vk_token c)), c)
      else
        (let c1 = c\<lparr>vk_logins := vk_logins c + 1\<rparr> in
         case ve_login env (vk_logins c) of
           Login_failed err \<Rightarrow> (Inl err, c1)
         | Logged_in token lease \<Rightarrow>
             (let c2 = c1\<lparr>vk_token := token\<rparr> in
              if \<not> text_truthy token
              then (Inl \<lparr>vf_message = ''AppRole login succeeded without a client token'', vf_status = None\<rparr>, c2)
              else (let ttlSec = lease_max 30 (nullish_or lease (Fin 300)) in
                    (Inr (the token), c2\<lparr>vk_expires := js_add (Fin (vault_now env c2)) (lease_seconds ttlSec)\<rparr>)))))"

definition doRead :: "vault_env \<Rightarrow> string \<Rightarrow> string \<Rightarrow> vault_client \<Rightarrow> (vault_failure + vault_creds) \<times> vault_client" where
  "doRead env mount role c =
     (let c1 = c\<lparr>vk_reads := vk_reads c + 1\<rparr> in
      case ve_read env (vk_reads c) of
        Inl err \<Rightarrow> (Inl err, c1)
      | Inr r \<Rightarrow>
          if \<not> text_truthy (vr_username r) \<or> \<not> text_truthy (vr_password r)
          then (Inl \<lparr>vf_message = ''Vault returned no credentials for '' @ mount @ ''/creds/'' @ role, vf_status = None\<rparr>, c1)
          else (Inr \<lparr>vc_username = the (vr_username r), vc_password = the (vr_password r), vc_leaseId = vr_leaseId r,
                     vc_leaseDurationSec = nullish_or (vr_leaseDuration r) (Fin 0), vc_renewable = vr_renewable r\<rparr>, c1))"

definition readDatabaseCredentials ::
  "vault_env \<Rightarrow> string option \<Rightarrow> string \<Rightarrow> vault_client \<Rightarrow> (vault_failure + vault_creds) \<times> vault_client" where
  "readDatabaseCredentials env mount0 role c =
     (let mount = nullish_or mount0 ''database'' in
      case ensureToken env c of
        (Inl err, c1) \<Rightarrow> (Inl err, c1)
      | (Inr _, c1) \<Rightarrow>
          (case doRead env mount role c1 of
             (Inr creds, c2) \<Rightarrow> (Inr creds, c2)
           | (Inl err, c2) \<Rightarrow>
               if isAuthFailure err
               then (case ensureToken env (c2\<lparr>vk_token := None, vk_expires := Fin 0\<rparr>) of
                       (Inl err', c3) \<Rightarrow> (Inl err', c3)
                     | (Inr _, c3) \<Rightarrow> doRead env mount role c3)
               else (Inl err, c2)))"

subsection \<open>What a read costs and gives\<close>

lemma ensureToken_calls:
  "vk_reads (snd (ensureToken env c)) = vk_reads c" "vk_logins c \<le> vk_logins (snd (ensureToken env c))"
  "vk_logins (snd (ensureToken env c)) \<le> vk_logins c + 1"
  by (auto simp: ensureToken_def Let_def split: login_reply.splits)

lemma doRead_calls: "vk_reads (snd (doRead env m r c)) = vk_reads c + 1" "vk_logins (snd (doRead env m r c)) = vk_logins c"
  by (auto simp: doRead_def Let_def split: sum.splits)

text \<open>Two logins and two reads at most, whatever Vault answers.\<close>

lemma read_calls_bounded:
  "vk_logins (snd (readDatabaseCredentials env m r c)) \<le> vk_logins c + 2
   \<and> vk_reads (snd (readDatabaseCredentials env m r c)) \<le> vk_reads c + 2"
proof -
  obtain t1 c1 where e1: "ensureToken env c = (t1, c1)" by force
  obtain d2 c2 where d2: "doRead env (nullish_or m ''database'') r c1 = (d2, c2)" by force
  obtain t3 c3 where e3: "ensureToken env (c2\<lparr>vk_token := None, vk_expires := Fin 0\<rparr>) = (t3, c3)" by force
  have "vk_logins c1 \<le> vk_logins c + 1" "vk_reads c1 = vk_reads c"
    "vk_logins c2 = vk_logins c1" "vk_reads c2 = vk_reads c1 + 1"
    "vk_logins c3 \<le> vk_logins c2 + 1" "vk_reads c3 = vk_reads c2"
    using ensureToken_calls [where env = env and c = c] doRead_calls [where env = env and m = "nullish_or m ''database''" and r = r and c = c1]
      ensureToken_calls [where env = env and c = "c2\<lparr>vk_token := None, vk_expires := Fin 0\<rparr>"] e1 d2 e3 by simp_all
  then show ?thesis
    using doRead_calls [where env = env and m = "nullish_or m ''database''" and r = r and c = c3]
    by (auto simp: readDatabaseCredentials_def Let_def e1 d2 e3 split: sum.splits)
qed

text \<open>Credentials that are given are the ones of the last read, complete.\<close>

lemma doRead_Inr:
  assumes "doRead env m r c = (Inr x, c')"
  shows "vk_reads c' = vk_reads c + 1 \<and> vc_username x \<noteq> [] \<and> vc_password x \<noteq> []
    \<and> (\<exists>y. ve_read env (vk_reads c) = Inr y \<and> vr_username y = Some (vc_username x) \<and> vr_password y = Some (vc_password x))"
  using assms by (auto simp: doRead_def Let_def text_truthy_def split: sum.splits if_splits)

lemma read_genuine:
  assumes "readDatabaseCredentials env m r c = (Inr x, c')"
  shows "vc_username x \<noteq> [] \<and> vc_password x \<noteq> []
    \<and> (\<exists>y. ve_read env (vk_reads c' - 1) = Inr y \<and> vr_username y = Some (vc_username x) \<and> vr_password y = Some (vc_password x))"
proof -
  obtain c0 where "doRead env (nullish_or m ''database'') r c0 = (Inr x, c')"
    using assms by (auto simp: readDatabaseCredentials_def Let_def split: prod.splits sum.splits if_splits)
  from doRead_Inr [OF this] show ?thesis by auto
qed

text \<open>A token that is used is one whose time has not run out, or one of a login made now.\<close>

lemma token_current:
  assumes "ensureToken env c = (Inr t, c')"
  shows "t \<noteq> [] \<and> vk_token c' = Some t \<and>
    (c' = c \<and> js_lt (Fin (vault_now env c)) (vk_expires c) \<or> (\<exists>l. ve_login env (vk_logins c) = Logged_in (Some t) l))"
  using assms by (auto simp: ensureToken_def Let_def text_truthy_def split: if_splits login_reply.splits)

text \<open>The thirty seconds are a floor: a token with a shorter lease is used beyond it.\<close>

lemma token_outlives_lease:
  assumes "vk_token c = None" "ve_login env (vk_logins c) = Logged_in (Some t) (Some (Fin 5))" "t \<noteq> []"
  shows "vk_expires (snd (ensureToken env c)) = Fin (ve_clock env (vk_logins c + 1 + vk_reads c) + 30000)"
  using assms by (simp add: ensureToken_def Let_def text_truthy_def vault_now_def)

section \<open>The credentials manager (creds.js)\<close>

text \<open>Milliseconds are real numbers, because the window is three tenths of the lease; none is NaN.\<close>

record lease =
  ls_username :: string
  ls_password :: string
  ls_leaseId :: "string option"
  ls_durationMs :: "real option"
  ls_expiresAtMs :: "real option"

record creds_manager =
  cm_cached :: "lease option"
  cm_stopped :: bool
  cm_timer :: bool

definition empty_creds_manager :: creds_manager where
  "empty_creds_manager = \<lparr>cm_cached = None, cm_stopped = False, cm_timer = False\<rparr>"

definition refreshWindowMs :: "lease \<Rightarrow> real" where
  "refreshWindowMs l =
     (case ls_durationMs l of
        Some d \<Rightarrow> if 0 < d then max 2000 (min (d * 3 / 10) 60000) else 0
      | None \<Rightarrow> 0)"

text \<open>\<open>Math.max(0, Number(sec) * 1000)\<close>\<close>

definition lease_ms :: "jsnum \<Rightarrow> real option" where
  "lease_ms sec = (case sec of Fin n \<Rightarrow> Some (max 0 (of_int n * 1000)) | NaN \<Rightarrow> None)"

definition new_lease :: "real \<Rightarrow> vault_creds \<Rightarrow> lease" where
  "new_lease now fresh =
     (let d = lease_ms (vc_leaseDurationSec fresh) in
      \<lparr>ls_username = vc_username fresh, ls_password = vc_password fresh, ls_leaseId = vc_leaseId fresh, ls_durationMs = d,
       ls_expiresAtMs = (case d of Some ms \<Rightarrow> if 0 < ms then Some (now + ms) else None | None \<Rightarrow> None)\<rparr>)"

definition lease_fresh :: "real \<Rightarrow> lease \<Rightarrow> bool" where
  "lease_fresh now l = (case ls_expiresAtMs l of None \<Rightarrow> True | Some x \<Rightarrow> refreshWindowMs l < x - now)"

text \<open>
  \<open>ensureFresh\<close>: the answer (none is \<open>null\<close>, \<open>Inl\<close> the exception), the state, and the lease handed to
  the listeners. \<open>now\<close> is the time of the check, \<open>now'\<close> the time the fetch answered.
\<close>

definition ensureFresh ::
  "real \<Rightarrow> real \<Rightarrow> vault_failure + vault_creds \<Rightarrow> creds_manager \<Rightarrow> (vault_failure + lease option) \<times> creds_manager \<times> lease option" where
  "ensureFresh now now' fetched m =
     (if cm_stopped m then (Inr (cm_cached m), m, None)
      else if (case cm_cached m of Some l \<Rightarrow> lease_fresh now l | None \<Rightarrow> False) then (Inr (cm_cached m), m, None)
      else (case fetched of
              Inr fresh \<Rightarrow> (let l = new_lease now' fresh in (Inr (Some l), m\<lparr>cm_cached := Some l\<rparr>, Some l))
            | Inl err \<Rightarrow> (case cm_cached m of Some l \<Rightarrow> (Inr (Some l), m, None) | None \<Rightarrow> (Inl err, m, None))))"

definition creds_start :: "creds_manager \<Rightarrow> creds_manager" where
  "creds_start m = (if cm_timer m \<or> cm_stopped m then m else m\<lparr>cm_timer := True\<rparr>)"

definition creds_stop :: "creds_manager \<Rightarrow> creds_manager" where
  "creds_stop m = m\<lparr>cm_stopped := True, cm_timer := False\<rparr>"

lemma cached_never_throws: "cm_cached m = Some l \<Longrightarrow> fst (ensureFresh now now' f m) \<noteq> Inl e"
  by (auto simp: ensureFresh_def Let_def split: sum.splits)

text \<open>What is given is outside its renewal window or just fetched, unless Vault failed.\<close>

lemma given_fresh:
  assumes "ensureFresh now now' f m = (Inr (Some l), m', em)" "\<not> cm_stopped m"
  shows "lease_fresh now l \<and> cm_cached m = Some l \<or> (\<exists>c. f = Inr c \<and> l = new_lease now' c) \<or> (\<exists>e. f = Inl e) \<and> cm_cached m = Some l"
  using assms by (auto simp: ensureFresh_def Let_def split: sum.splits if_splits option.splits)

text \<open>With Vault down a lease is given on after it has expired.\<close>

lemma expired_lease_given:
  assumes "cm_cached m = Some l" "ls_expiresAtMs l = Some x" "x < now"
  shows "fst (ensureFresh now now' (Inl e) m) = Inr (Some l)"
  using assms by (auto simp: ensureFresh_def split: option.splits)

section \<open>Rotation (the ticks of the manager)\<close>

text \<open>A tick at a time, with what the fetch answers by another.\<close>

type_synonym creds_tick = "real \<times> real \<times> (vault_failure + vault_creds)"

definition creds_tick :: "creds_tick \<Rightarrow> creds_manager \<Rightarrow> creds_manager" where
  "creds_tick t m = (case t of (now, now', f) \<Rightarrow> fst (snd (ensureFresh now now' f m)))"

definition valid_at :: "real \<Rightarrow> creds_manager \<Rightarrow> bool" where
  "valid_at t m \<longleftrightarrow> (case cm_cached m of None \<Rightarrow> False | Some l \<Rightarrow> (case ls_expiresAtMs l of None \<Rightarrow> True | Some x \<Rightarrow> t < x))"

text \<open>Every lease Vault gives is at least this long, or does not expire.\<close>

definition long_lease :: "real \<Rightarrow> vault_creds \<Rightarrow> bool" where
  "long_lease d c \<longleftrightarrow> (case lease_ms (vc_leaseDurationSec c) of Some ms \<Rightarrow> ms = 0 \<or> d \<le> ms | None \<Rightarrow> True)"

definition lease_ok :: "real \<Rightarrow> creds_manager \<Rightarrow> bool" where
  "lease_ok d m \<longleftrightarrow> \<not> cm_stopped m \<and> (\<forall>l x. cm_cached m = Some l \<longrightarrow> ls_expiresAtMs l = Some x \<longrightarrow> (\<exists>ms. ls_durationMs l = Some ms \<and> d \<le> ms))"

lemma window_long: "0 < d \<Longrightarrow> ls_durationMs l = Some ms \<Longrightarrow> d \<le> ms \<Longrightarrow> min (d * 3 / 10) 60000 \<le> refreshWindowMs l"
  by (auto simp: refreshWindowMs_def min_def)

lemma window_short: "ls_durationMs l = Some ms \<Longrightarrow> refreshWindowMs l \<le> max 2000 60000"
  by (auto simp: refreshWindowMs_def)

lemma new_lease_duration: "ls_expiresAtMs (new_lease t c) = Some x \<Longrightarrow> long_lease d c \<Longrightarrow> \<exists>ms. ls_durationMs (new_lease t c) = Some ms \<and> d \<le> ms \<and> x = t + ms"
  by (auto simp: new_lease_def Let_def long_lease_def split: option.splits if_splits)

lemma tick_keeps_valid:
  assumes "lease_ok d m" "0 < d" "f = Inr c" "long_lease d c" "now \<le> now'" "t \<le> now + min (d * 3 / 10) 60000"
  shows "lease_ok d (creds_tick (now, now', f) m)" "valid_at t (creds_tick (now, now', f) m)"
proof -
  let ?m = "creds_tick (now, now', f) m"
  have ns: "\<not> cm_stopped m" using assms(1) by (simp add: lease_ok_def)
  have nm: "?m = m \<and> (\<exists>l. cm_cached m = Some l \<and> lease_fresh now l) \<or> ?m = m\<lparr>cm_cached := Some (new_lease now' c)\<rparr>"
    using ns assms(3) by (auto simp: creds_tick_def ensureFresh_def Let_def split: option.splits)
  then show "lease_ok d ?m"
    using assms(1) new_lease_duration [OF _ assms(4)] by (fastforce simp: lease_ok_def)
  from nm show "valid_at t ?m"
  proof
    assume "?m = m \<and> (\<exists>l. cm_cached m = Some l \<and> lease_fresh now l)"
    then obtain l where l: "?m = m" "cm_cached m = Some l" "lease_fresh now l" by blast
    show ?thesis
    proof (cases "ls_expiresAtMs l")
      case (Some x)
      then obtain ms where "ls_durationMs l = Some ms" "d \<le> ms" using assms(1) l(2) by (auto simp: lease_ok_def)
      then have "min (d * 3 / 10) 60000 \<le> refreshWindowMs l" by (rule window_long [OF assms(2)])
      with l Some assms(6) show ?thesis by (simp add: valid_at_def lease_fresh_def)
    qed (use l in \<open>simp add: valid_at_def\<close>)
  next
    assume m': "?m = m\<lparr>cm_cached := Some (new_lease now' c)\<rparr>"
    show ?thesis
    proof (cases "ls_expiresAtMs (new_lease now' c)")
      case (Some x)
      then obtain ms where "d \<le> ms" "x = now' + ms" using new_lease_duration [OF Some assms(4)] by blast
      moreover have "min (d * 3 / 10) 60000 < d" using assms(2) by (simp add: min_def)
      ultimately show ?thesis using assms(5,6) Some by (simp add: m' valid_at_def)
    qed (simp add: m' valid_at_def)
  qed
qed

text \<open>
  While Vault answers with leases of at least \<open>d\<close> and the ticks come within three tenths of it, the
  credentials held are valid from each tick to the next.
\<close>

fun rotation_run :: "real \<Rightarrow> creds_tick list \<Rightarrow> bool" where
  "rotation_run d [] = True"
| "rotation_run d [(now, now', f)] = (now \<le> now' \<and> (case f of Inr c \<Rightarrow> long_lease d c | Inl _ \<Rightarrow> False))"
| "rotation_run d ((now, now', f) # (next, n', g) # ts) =
     (now \<le> now' \<and> next \<le> now + min (d * 3 / 10) 60000 \<and> (case f of Inr c \<Rightarrow> long_lease d c | Inl _ \<Rightarrow> False)
      \<and> rotation_run d ((next, n', g) # ts))"

lemma rotation_valid:
  assumes "rotation_run d (ts @ [(now, now', f)])" "0 < d" "lease_ok d m" "t \<le> now + min (d * 3 / 10) 60000"
  shows "valid_at t (fold creds_tick (ts @ [(now, now', f)]) m)"
  using assms
proof (induction ts arbitrary: m)
  case Nil
  then obtain c where "f = Inr c" "long_lease d c" "now \<le> now'" by (auto split: sum.splits)
  with tick_keeps_valid(2) [OF Nil.prems(3,2) this(1,2,3) Nil.prems(4)] show ?case by simp
next
  case (Cons a ts)
  obtain n n' g where a: "a = (n, n', g)" by (cases a) auto
  obtain h rest where h: "ts @ [(now, now', f)] = h # rest" by (cases "ts @ [(now, now', f)]") auto
  then have r: "n \<le> n'" "rotation_run d (h # rest)" "case g of Inr c \<Rightarrow> long_lease d c | Inl _ \<Rightarrow> False"
    using Cons.prems(1) by (cases h; simp add: a)+
  then obtain c where c: "g = Inr c" "long_lease d c" by (cases g) auto
  have "lease_ok d (creds_tick a m)" unfolding a
    by (rule tick_keeps_valid(1) [OF Cons.prems(3,2) c r(1) order.refl])
  then show ?case using Cons.IH [of "creds_tick a m"] r(2) h Cons.prems(2,4) by simp
qed

text \<open>A poll every ten seconds is enough from leases of 34 seconds on.\<close>

lemma poll_interval_suffices: "34000 \<le> d \<Longrightarrow> now + 10000 \<le> now + min (d * 3 / 10) (60000 :: real)"
  by (simp add: min_def)

text \<open>A lease of twenty seconds, seen with more than its window left, has run out before the next poll.\<close>

lemma short_lease_lapses:
  assumes "ls_durationMs l = Some 20000" "ls_expiresAtMs l = Some (now + 7000)" "cm_cached m = Some l" "\<not> cm_stopped m"
  shows "creds_tick (now, now', f) m = m" "\<not> valid_at (now + 9000) m"
  using assms by (auto simp: creds_tick_def ensureFresh_def lease_fresh_def refreshWindowMs_def valid_at_def)

section \<open>The pool (database.js)\<close>

record pool_options =
  po_user :: string
  po_password :: string

text \<open>A database that Vault manages: the options of the pool, if there is one, and the manager.\<close>

record managed_db =
  md_pool :: "pool_options option"
  md_creds :: creds_manager

definition pool_of :: "lease \<Rightarrow> pool_options" where
  "pool_of l = \<lparr>po_user = ls_username l, po_password = ls_password l\<rparr>"

text \<open>
  \<open>initial\<close>: what the first fetch, cut off by the time limit, gave; \<open>None\<close> when setting up the client
  threw. Any failure starts the service without a pool.
\<close>

definition createVaultManagedDatabase :: "real \<Rightarrow> real \<Rightarrow> (vault_failure + vault_creds) option \<Rightarrow> managed_db" where
  "createVaultManagedDatabase now now' initial =
     (case initial of
        None \<Rightarrow> \<lparr>md_pool = None, md_creds = empty_creds_manager\<rparr>
      | Some f \<Rightarrow>
          (case ensureFresh now now' f empty_creds_manager of
             (Inr (Some l), m, _) \<Rightarrow> \<lparr>md_pool = Some (pool_of l), md_creds = creds_start m\<rparr>
           | (_, m, _) \<Rightarrow> \<lparr>md_pool = None, md_creds = creds_stop m\<rparr>))"

text \<open>A tick of the timer, whose listener writes a fresh lease into the options of the pool.\<close>

definition managed_tick :: "creds_tick \<Rightarrow> managed_db \<Rightarrow> managed_db" where
  "managed_tick t d =
     (if \<not> cm_timer (md_creds d) then d
      else (case t of (now, now', f) \<Rightarrow>
              (case ensureFresh now now' f (md_creds d) of
                 (_, m, fresh) \<Rightarrow>
                   d\<lparr>md_creds := m,
                     md_pool := (case fresh of Some l \<Rightarrow> map_option (\<lambda>_. pool_of l) (md_pool d) | None \<Rightarrow> md_pool d)\<rparr>)))"

definition managed_stop :: "managed_db \<Rightarrow> managed_db" where
  "managed_stop d = (if md_pool d = None then d else d\<lparr>md_creds := creds_stop (md_creds d)\<rparr>)"

definition pool_current :: "managed_db \<Rightarrow> bool" where
  "pool_current d \<longleftrightarrow> (case md_pool d of None \<Rightarrow> \<not> cm_timer (md_creds d)
     | Some p \<Rightarrow> \<exists>l. cm_cached (md_creds d) = Some l \<and> p = pool_of l)"

lemma created_pool_current: "pool_current (createVaultManagedDatabase now now' initial)"
  by (auto simp: createVaultManagedDatabase_def pool_current_def ensureFresh_def Let_def empty_creds_manager_def creds_start_def
      creds_stop_def split: option.splits sum.splits)

lemma tick_pool_current: "pool_current d \<Longrightarrow> pool_current (managed_tick t d)"
  by (auto simp: managed_tick_def pool_current_def ensureFresh_def Let_def split: prod.splits option.splits sum.splits)

text \<open>The pool always has the credentials the manager holds, and without a pool no timer runs.\<close>

lemma pool_has_credentials: "pool_current (fold managed_tick ts (createVaultManagedDatabase now now' initial))"
proof -
  have "pool_current d \<Longrightarrow> pool_current (fold managed_tick ts d)" for d
    by (induction ts arbitrary: d) (simp_all add: tick_pool_current)
  then show ?thesis using created_pool_current by blast
qed

lemma stopped_stays: "cm_stopped (md_creds d) \<Longrightarrow> cm_timer (md_creds d) = False \<Longrightarrow> managed_tick t d = d"
  by (simp add: managed_tick_def)

end
