(* ===== verification/Metrics.thy ===== *)
theory Metrics
  imports Complex_Main JsText
begin

text \<open>
  The metrics of the facilitator (\<open>src/metrics.js\<close>): series under a key of their labels, counters,
  histograms and gauges, the text they render to, and the counts per signer. \<open>shows\<close> is the text of
  a number.
\<close>

section \<open>Labels\<close>

type_synonym labels = "(string, string) jsmap"

text \<open>\<open>String(value ?? '')\<close> with backslashes and quotes escaped.\<close>

definition escapeLabelValue :: "string option \<Rightarrow> string" where
  "escapeLabelValue v =
     concat (map (\<lambda>c. if c = CHR 0x5C then [CHR 0x5C, CHR 0x5C] else if c = CHR 0x22 then [CHR 0x5C, CHR 0x22] else [c])
       (nullish_or v []))"

text \<open>Strings are compared by their code units.\<close>

fun text_le :: "string \<Rightarrow> string \<Rightarrow> bool" where
  "text_le [] b = True"
| "text_le (x # a) [] = False"
| "text_le (x # a) (y # b) = (let m = (of_char x :: nat); n = of_char y in m < n \<or> (m = n \<and> text_le a b))"

fun insert_text :: "string \<Rightarrow> string list \<Rightarrow> string list" where
  "insert_text x [] = [x]"
| "insert_text x (y # ys) = (if text_le x y then x # y # ys else y # insert_text x ys)"

definition sort_texts :: "string list \<Rightarrow> string list" where
  "sort_texts xs = foldr insert_text xs []"

definition labelKey :: "labels \<Rightarrow> string" where
  "labelKey ls = js_join '','' (map (\<lambda>k. k @ ''='' @ nullish_or (jm_get ls k) ''undefined'') (sort_texts (jm_keys ls)))"

definition label_parts :: "string list \<Rightarrow> labels \<Rightarrow> string" where
  "label_parts names ls =
     js_join '','' (map (\<lambda>n. n @ ''='' @ [CHR 0x22] @ escapeLabelValue (jm_get ls n) @ [CHR 0x22]) names)"

definition labelString :: "string list \<Rightarrow> labels \<Rightarrow> string" where
  "labelString names ls = (if names = [] then [] else ''{'' @ label_parts names ls @ ''}'')"

section \<open>Counters and gauges\<close>

record metric =
  mt_name :: string
  mt_help :: string
  mt_labelNames :: "string list"
  mt_series :: "(string, labels \<times> real) jsmap"

definition new_metric :: "string \<Rightarrow> string \<Rightarrow> string list \<Rightarrow> metric" where
  "new_metric name help labelNames = \<lparr>mt_name = name, mt_help = help, mt_labelNames = labelNames, mt_series = []\<rparr>"

definition counter_inc :: "labels \<Rightarrow> real \<Rightarrow> metric \<Rightarrow> metric" where
  "counter_inc ls v m =
     (let key = labelKey ls in
      case jm_get (mt_series m) key of
        Some (ls0, old) \<Rightarrow> m\<lparr>mt_series := jm_set key (ls0, old + v) (mt_series m)\<rparr>
      | None \<Rightarrow> m\<lparr>mt_series := jm_set key (ls, v) (mt_series m)\<rparr>)"

definition gauge_set :: "labels \<Rightarrow> real \<Rightarrow> metric \<Rightarrow> metric" where
  "gauge_set ls v m = m\<lparr>mt_series := jm_set (labelKey ls) (ls, v) (mt_series m)\<rparr>"

definition series_value :: "labels \<Rightarrow> metric \<Rightarrow> real" where
  "series_value ls m = (case jm_get (mt_series m) (labelKey ls) of Some (_, v) \<Rightarrow> v | None \<Rightarrow> 0)"

definition gauge_inc :: "labels \<Rightarrow> real \<Rightarrow> metric \<Rightarrow> metric" where
  "gauge_inc ls v m = gauge_set ls (series_value ls m + v) m"

definition gauge_dec :: "labels \<Rightarrow> real \<Rightarrow> metric \<Rightarrow> metric" where
  "gauge_dec ls v m = gauge_set ls (max 0 (series_value ls m - v)) m"

definition LF :: string where
  "LF = [CHR 0x0A]"

definition render_header :: "string \<Rightarrow> string \<Rightarrow> string \<Rightarrow> string" where
  "render_header name help kind = ''# HELP '' @ name @ '' '' @ help @ LF @ ''# TYPE '' @ name @ '' '' @ kind @ LF"

definition render_metric :: "(real \<Rightarrow> string) \<Rightarrow> string \<Rightarrow> metric \<Rightarrow> string" where
  "render_metric shows kind m =
     render_header (mt_name m) (mt_help m) kind
     @ concat (map (\<lambda>(ls, v). mt_name m @ labelString (mt_labelNames m) ls @ '' '' @ shows v @ LF) (jm_values (mt_series m)))"

section \<open>Histograms\<close>

record hist_series =
  hs_labels :: labels
  hs_count :: nat
  hs_sum :: real
  hs_buckets :: "nat list"

record histogram =
  hg_name :: string
  hg_help :: string
  hg_labelNames :: "string list"
  hg_bounds :: "real list"
  hg_series :: "(string, hist_series) jsmap"

definition DURATION_BUCKETS :: "real list" where
  "DURATION_BUCKETS = [5 / 1000, 1 / 100, 25 / 1000, 5 / 100, 1 / 10, 25 / 100, 5 / 10, 1, 25 / 10, 5, 10]"

definition FEE_BUCKETS :: "real list" where
  "FEE_BUCKETS = [1000, 5000, 10000, 25000, 50000, 75000, 100000, 250000, 500000, 1000000, 5000000]"

definition new_histogram :: "string \<Rightarrow> string \<Rightarrow> string list \<Rightarrow> real list \<Rightarrow> histogram" where
  "new_histogram name help labelNames bounds =
     \<lparr>hg_name = name, hg_help = help, hg_labelNames = labelNames, hg_bounds = bounds, hg_series = []\<rparr>"

definition observed :: "real list \<Rightarrow> real \<Rightarrow> hist_series \<Rightarrow> hist_series" where
  "observed bounds v s =
     s\<lparr>hs_count := hs_count s + 1, hs_sum := hs_sum s + v,
       hs_buckets := map2 (\<lambda>b n. if v \<le> b then n + 1 else n) bounds (hs_buckets s)\<rparr>"

definition observe :: "labels \<Rightarrow> real \<Rightarrow> histogram \<Rightarrow> histogram" where
  "observe ls v h =
     (let key = labelKey ls;
          s = nullish_or (jm_get (hg_series h) key)
                \<lparr>hs_labels = ls, hs_count = 0, hs_sum = 0, hs_buckets = replicate (length (hg_bounds h)) 0\<rparr>
      in h\<lparr>hg_series := jm_set key (observed (hg_bounds h) v s) (hg_series h)\<rparr>)"

definition render_series :: "(real \<Rightarrow> string) \<Rightarrow> histogram \<Rightarrow> hist_series \<Rightarrow> string" where
  "render_series shows h s =
     (let others = label_parts (hg_labelNames h) (hs_labels s); sep = (if others = [] then [] else '','');
          bucket = (\<lambda>le n. hg_name h @ ''_bucket{'' @ others @ sep @ ''le='' @ [CHR 0x22] @ le @ [CHR 0x22] @ ''} '' @ nat_str n @ LF)
      in concat (map2 (\<lambda>b n. bucket (shows b) n) (hg_bounds h) (hs_buckets s))
         @ bucket ''+Inf'' (hs_count s)
         @ hg_name h @ ''_sum{'' @ others @ ''} '' @ shows (hs_sum s) @ LF
         @ hg_name h @ ''_count{'' @ others @ ''} '' @ nat_str (hs_count s) @ LF)"

definition render_histogram :: "(real \<Rightarrow> string) \<Rightarrow> histogram \<Rightarrow> string" where
  "render_histogram shows h =
     render_header (hg_name h) (hg_help h) ''histogram'' @ concat (map (render_series shows h) (jm_values (hg_series h)))"

section \<open>Signers\<close>

record signer_count =
  sn_network :: string
  sn_signer :: string
  sn_count :: nat

record signer_metrics =
  sm_selected :: "(string \<times> string, signer_count) jsmap"
  sm_inflight :: "(string \<times> string, signer_count) jsmap"

text \<open>The key joins network and signer by a NUL, which neither has in it: the pair stands for it.\<close>

definition bump_signer :: "(nat \<Rightarrow> nat) \<Rightarrow> string \<Rightarrow> string \<Rightarrow> (string \<times> string, signer_count) jsmap \<Rightarrow> (string \<times> string, signer_count) jsmap" where
  "bump_signer f network signer t =
     (let e = nullish_or (jm_get t (network, signer)) \<lparr>sn_network = network, sn_signer = signer, sn_count = 0\<rparr>
      in jm_set (network, signer) (e\<lparr>sn_count := f (sn_count e)\<rparr>) t)"

definition recordSelection :: "string \<Rightarrow> string \<Rightarrow> signer_metrics \<Rightarrow> signer_metrics" where
  "recordSelection network signer m = m\<lparr>sm_selected := bump_signer (\<lambda>n. n + 1) network signer (sm_selected m)\<rparr>"

definition incrementInflight :: "string \<Rightarrow> string \<Rightarrow> signer_metrics \<Rightarrow> signer_metrics" where
  "incrementInflight network signer m = m\<lparr>sm_inflight := bump_signer (\<lambda>n. n + 1) network signer (sm_inflight m)\<rparr>"

definition decrementInflight :: "string \<Rightarrow> string \<Rightarrow> signer_metrics \<Rightarrow> signer_metrics" where
  "decrementInflight network signer m = m\<lparr>sm_inflight := bump_signer (\<lambda>n. n - 1) network signer (sm_inflight m)\<rparr>"

definition toPrometheusText :: "signer_metrics \<Rightarrow> string" where
  "toPrometheusText m =
     js_join LF
       ([''# HELP x402_signer_selected_total Total times a signer was selected by network.'',
         ''# TYPE x402_signer_selected_total counter'']
        @ map (\<lambda>e. ''x402_signer_selected_total{network='' @ [CHR 0x22] @ escapeLabelValue (Some (sn_network e)) @ [CHR 0x22]
                @ '',signer='' @ [CHR 0x22] @ escapeLabelValue (Some (sn_signer e)) @ [CHR 0x22] @ ''} '' @ nat_str (sn_count e))
            (jm_values (sm_selected m)))
     @ LF"

text \<open>\<open>selectSigner\<close> of \<open>src/facilitator.js\<close>: the next address in turn, and the selection counted.\<close>

definition take_turn :: "string \<Rightarrow> string list \<Rightarrow> nat \<times> signer_metrics \<Rightarrow> string \<times> nat \<times> signer_metrics" where
  "take_turn network addresses st =
     (let (rr, m) = st; a = addresses ! (rr mod length addresses)
      in (a, (rr + 1) mod length addresses, recordSelection network a m))"

section \<open>What the series count\<close>

lemma series_value_set [simp]: "series_value ls (gauge_set ls' v m) = (if labelKey ls = labelKey ls' then v else series_value ls m)"
  by (simp add: series_value_def gauge_set_def jm_get_set)

lemma series_value_inc [simp]:
  "series_value ls (counter_inc ls' v m) = series_value ls m + (if labelKey ls = labelKey ls' then v else 0)"
  by (auto simp: series_value_def counter_inc_def Let_def jm_get_set split: option.splits)

text \<open>A counter is the sum of what was counted under the key of its labels.\<close>

lemma counter_sums:
  "series_value ls (fold (\<lambda>(l, v). counter_inc l v) incs m)
     = series_value ls m + sum_list (map snd (filter (\<lambda>(l, _). labelKey l = labelKey ls) incs))"
  by (induction incs arbitrary: m) (auto simp: algebra_simps)

lemma series_value_key: "labelKey a = labelKey b \<Longrightarrow> series_value a m = series_value b m"
  by (simp add: series_value_def)

text \<open>A gauge of things in flight is never negative, in whatever order they begin and end.\<close>

lemma gauge_nonneg:
  assumes "0 \<le> series_value ls m"
  shows "0 \<le> series_value ls (fold (\<lambda>up. if up then gauge_inc l 1 else gauge_dec l 1) ups m)"
  using assms
proof (induction ups arbitrary: m)
  case (Cons up ups)
  have "0 \<le> series_value ls ((if up then gauge_inc l 1 else gauge_dec l 1) m)"
    using Cons.prems series_value_key [of ls l m] by (auto simp: gauge_inc_def gauge_dec_def)
  with Cons.IH show ?case by simp
qed simp

text \<open>
  Labels are joined without escaping, so different labels can share a series: the second is counted
  under the first one's labels.
\<close>

lemma labels_share_series:
  "labelKey [(''code'', ''x,host=y''), (''host'', ''z'')] = labelKey [(''code'', ''x''), (''host'', ''y,host=z'')]"
  by (simp add: labelKey_def sort_texts_def jm_keys_def Let_def nullish_or_def)

text \<open>A line break in a label value is written as it is.\<close>

lemma line_break_unescaped: "escapeLabelValue (Some LF) = LF"
  by (simp add: escapeLabelValue_def LF_def nullish_or_def)

section \<open>Histograms count\<close>

definition hist_of :: "real list \<Rightarrow> real list \<Rightarrow> hist_series \<Rightarrow> bool" where
  "hist_of bounds vs s \<longleftrightarrow> hs_count s = length vs \<and> hs_sum s = sum_list vs
     \<and> hs_buckets s = map (\<lambda>b. length (filter (\<lambda>v. v \<le> b) vs)) bounds"

lemma observed_hist: "hist_of bounds vs s \<Longrightarrow> hist_of bounds (v # vs) (observed bounds v s)"
proof -
  have "map2 (\<lambda>b n. if v \<le> b then n + 1 else n) bounds (map f bounds) = map (\<lambda>b. if v \<le> b then f b + 1 else f b) bounds"
    for f :: "real \<Rightarrow> nat" by (induction bounds) simp_all
  then show "hist_of bounds vs s \<Longrightarrow> hist_of bounds (v # vs) (observed bounds v s)"
    by (auto simp: hist_of_def observed_def)
qed

definition hist_at :: "string \<Rightarrow> real list \<Rightarrow> histogram \<Rightarrow> bool" where
  "hist_at key vs h \<longleftrightarrow>
     (case jm_get (hg_series h) key of None \<Rightarrow> vs = [] | Some s \<Rightarrow> hist_of (hg_bounds h) vs s)"

lemma observe_bounds [simp]: "hg_bounds (observe ls v h) = hg_bounds h"
  by (simp add: observe_def Let_def)

lemma observe_hist:
  assumes "hist_at key vs h"
  shows "hist_at key (if labelKey ls = key then v # vs else vs) (observe ls v h)"
proof -
  have new: "hist_of (hg_bounds h) [] \<lparr>hs_labels = ls, hs_count = 0, hs_sum = 0, hs_buckets = replicate (length (hg_bounds h)) 0\<rparr>"
    by (simp add: hist_of_def map_replicate_const)
  show ?thesis
  proof (cases "jm_get (hg_series h) key")
    case None
    then have "vs = []" using assms by (simp add: hist_at_def)
    then show ?thesis using None observed_hist [OF new, of v]
      by (auto simp: hist_at_def observe_def Let_def jm_get_set nullish_or_def)
  next
    case (Some s)
    then have "hist_of (hg_bounds h) vs s" using assms by (simp add: hist_at_def)
    then show ?thesis using Some observed_hist [of "hg_bounds h" vs s v]
      by (auto simp: hist_at_def observe_def Let_def jm_get_set nullish_or_def)
  qed
qed

text \<open>
  After any observations a series has their number and their sum, and each bucket counts those
  that are at most its bound.
\<close>

lemma histogram_counts:
  assumes "hg_series h = []"
  shows "hist_at key (rev (map snd (filter (\<lambda>(l, _). labelKey l = key) obs))) (fold (\<lambda>(l, v). observe l v) obs h)"
proof -
  have "hist_at key vs g \<Longrightarrow>
     hist_at key (rev (map snd (filter (\<lambda>(l, _). labelKey l = key) obs)) @ vs) (fold (\<lambda>(l, v). observe l v) obs g)" for vs g
  proof (induction obs arbitrary: vs g)
    case (Cons o1 obs)
    obtain l v where o1: "o1 = (l, v)" by force
    show ?case using Cons.IH [OF observe_hist [OF Cons.prems, of l v]] by (auto simp: o1)
  qed simp
  moreover have "hist_at key [] h" using assms by (simp add: hist_at_def)
  ultimately show ?thesis by fastforce
qed

text \<open>The buckets are cumulative: sorted bounds give counts that rise to the number of observations.\<close>

lemma buckets_rise:
  assumes "hist_of bounds vs s" "sorted bounds" "i \<le> j" "j < length bounds"
  shows "hs_buckets s ! i \<le> hs_buckets s ! j \<and> hs_buckets s ! j \<le> hs_count s"
proof -
  have "bounds ! i \<le> bounds ! j" using assms(2-4) by (simp add: sorted_nth_mono)
  then have "length (filter (\<lambda>v. v \<le> bounds ! i) vs) \<le> length (filter (\<lambda>v. v \<le> bounds ! j) vs)"
    by (induction vs) auto
  with assms show ?thesis by (simp add: hist_of_def)
qed

lemma bounds_sorted: "sorted DURATION_BUCKETS" "sorted FEE_BUCKETS"
  by (simp_all add: DURATION_BUCKETS_def FEE_BUCKETS_def)

section \<open>The turn of the signers\<close>

fun select_run :: "string \<Rightarrow> string list \<Rightarrow> nat \<Rightarrow> nat \<times> signer_metrics \<Rightarrow> string list" where
  "select_run net addrs 0 st = []"
| "select_run net addrs (Suc n) st = (let (a, st') = take_turn net addrs st in a # select_run net addrs n st')"

lemma select_run_nth:
  "i < n \<Longrightarrow> addrs \<noteq> [] \<Longrightarrow> select_run net addrs n (rr, m) ! i = addrs ! ((rr + i) mod length addrs)"
proof (induction n arbitrary: i rr m)
  case (Suc n)
  show ?case
  proof (cases i)
    case 0
    then show ?thesis by (simp add: take_turn_def Let_def)
  next
    case (Suc j)
    with Suc.prems Suc.IH [of j] show ?thesis by (simp add: take_turn_def Let_def mod_add_left_eq)
  qed
qed simp

lemma length_select_run [simp]: "length (select_run net addrs n st) = n"
  by (induction net addrs n st rule: select_run.induct) (simp_all split: prod.splits)

text \<open>Of as many selections in a row as there are signers, each signer has one.\<close>

lemma signers_take_turns:
  assumes "addrs \<noteq> []" "rr < length addrs"
  shows "select_run net addrs (length addrs) (rr, m) = rotate rr addrs"
proof (rule nth_equalityI)
  fix i assume "i < length (select_run net addrs (length addrs) (rr, m))"
  then show "select_run net addrs (length addrs) (rr, m) ! i = rotate rr addrs ! i"
    using assms by (simp add: select_run_nth nth_rotate)
qed simp

end
