(* ===== verification/FacilitatorKeys.thy ===== *)
theory FacilitatorKeys
  imports KeyManager MultiSigner Configuration JsText
begin

text \<open>
  How the facilitator is put together per network (\<open>src/facilitator.js\<close>): the keys it loads from a
  remote source, the schemes it builds from each generation of keys, what it registers at every
  refresh, and the one place where a co-signed envelope is submitted.

  The facilitator library, the schemes and the network are parameters; of a scheme the model keeps
  which generation of keys it signs with.
\<close>

section \<open>Loading keys\<close>

datatype key_fetch = Load_timed_out | Load_threw string | Load_replied bool nat "json option"

definition load_timed_out :: "int \<Rightarrow> string" where
  "load_timed_out timeoutMs = ''key source fetch timed out after '' @ int_str timeoutMs @ ''ms''"

definition quoted_keys :: string where
  "quoted_keys = [CHR 0x22] @ ''keys'' @ [CHR 0x22]"

definition payload_invalid :: "string \<Rightarrow> string" where
  "payload_invalid what = ''key source payload invalid: '' @ what"

text \<open>\<open>loadRemoteKeys\<close>; a body that is no JSON is \<open>None\<close>.\<close>

definition loadRemoteKeys :: "key_fetch \<Rightarrow> int \<Rightarrow> string + json list" where
  "loadRemoteKeys reply timeoutMs =
     (case reply of
        Load_timed_out \<Rightarrow> Inl (load_timed_out timeoutMs)
      | Load_threw e \<Rightarrow> Inl e
      | Load_replied ok status body \<Rightarrow>
          if \<not> ok then Inl (''key source returned HTTP '' @ nat_str status)
          else (case body of
                  None \<Rightarrow> Inl ''Unexpected token''
                | Some (JObj fs) \<Rightarrow>
                    (case map_of fs ''keys'' of
                       Some (JArr ks) \<Rightarrow> if ks = [] then Inl (payload_invalid (quoted_keys @ '' must be non-empty'')) else Inr ks
                     | _ \<Rightarrow> Inl (payload_invalid (quoted_keys @ '' must be an array'')))
                | Some _ \<Rightarrow> Inl (payload_invalid (''missing '' @ quoted_keys @ '' field''))))"

definition keySourceTimeoutMs :: "config_env \<Rightarrow> process_env \<Rightarrow> int" where
  "keySourceTimeoutMs ce env =
     (case env_number ce env ''KEY_MANAGER_FETCH_TIMEOUT_MS'' 5000 of Fin n \<Rightarrow> if 0 < n then n else 5000 | NaN \<Rightarrow> 5000)"

text \<open>An entry as \<open>normaliseKeys\<close> reads it; an id that is no text stands for its text.\<close>

definition raw_of_json :: "json \<Rightarrow> raw_key" where
  "raw_of_json j =
     (case j of
        JStr s \<Rightarrow> Plain s
      | JObj fs \<Rightarrow> Object (case map_of fs ''secret'' of Some (JStr s) \<Rightarrow> Some s | _ \<Rightarrow> None)
                        (case map_of fs ''kid'' of Some k \<Rightarrow> if js_truthy k then Some (js_text k) else None | None \<Rightarrow> None)
      | _ \<Rightarrow> Neither)"

section \<open>A network\<close>

record net_state =
  nf_manager :: key_manager
  nf_scheme :: nat              \<comment> \<open>the generation \<open>schemes[network]\<close> signs with\<close>
  nf_registered :: "nat list"   \<comment> \<open>generations registered with the facilitator, the last one last\<close>
  nf_signers :: "string list"   \<comment> \<open>secrets of \<open>signers[network]\<close>, for their addresses\<close>

definition current_secrets :: "key_manager \<Rightarrow> string list" where
  "current_secrets km = (case getCurrent km of None \<Rightarrow> [] | Some g \<Rightarrow> map ke_secret (gn_entries g))"

text \<open>\<open>createScheme(keyManager.snapshot())\<close> and \<open>facilitator.register\<close>: the lease of the snapshot is kept.\<close>

definition put_scheme :: "nat list \<Rightarrow> key_manager \<Rightarrow> net_state" where
  "put_scheme registered km =
     (case km_snapshot km of
        (g, km') \<Rightarrow> \<lparr>nf_manager = km', nf_scheme = g, nf_registered = registered @ [g], nf_signers = current_secrets km'\<rparr>)"

definition build_network ::
  "(string \<Rightarrow> string) \<Rightarrow> (string \<Rightarrow> bool) \<Rightarrow> net_config \<Rightarrow> int \<Rightarrow> key_error + net_state" where
  "build_network sha256 valid nc now =
     (case new_key_manager sha256 valid (map Plain (nc_secrets nc)) now of
        Inl e \<Rightarrow> Inl e
      | Inr km \<Rightarrow> Inr (put_scheme [] km))"

text \<open>One poll of the key source, \<open>onRefresh\<close> included.\<close>

definition poll_keys ::
  "(string \<Rightarrow> string) \<Rightarrow> (string \<Rightarrow> bool) \<Rightarrow> key_fetch \<Rightarrow> int \<Rightarrow> int \<Rightarrow> net_state \<Rightarrow> net_state" where
  "poll_keys sha256 valid reply timeoutMs now s =
     (case km_refresh sha256 valid (case loadRemoteKeys reply timeoutMs of Inl _ \<Rightarrow> None | Inr ks \<Rightarrow> Some (map raw_of_json ks))
             now (nf_manager s) of
        (Inr True, km) \<Rightarrow> put_scheme (nf_registered s) km
      | (_, km) \<Rightarrow> s\<lparr>nf_manager := km\<rparr>)"

text \<open>The timer a retirement sets.\<close>

definition purge_keys :: "int \<Rightarrow> net_state \<Rightarrow> net_state" where
  "purge_keys now s = s\<lparr>nf_manager := purgeRetired now (nf_manager s)\<rparr>"

datatype key_event = Poll key_fetch int int | Purge int

fun key_step :: "(string \<Rightarrow> string) \<Rightarrow> (string \<Rightarrow> bool) \<Rightarrow> key_event \<Rightarrow> net_state \<Rightarrow> net_state" where
  "key_step sha256 valid (Poll reply timeoutMs now) s = poll_keys sha256 valid reply timeoutMs now s"
| "key_step sha256 valid (Purge now) s = purge_keys now s"

section \<open>Envelopes\<close>

text \<open>\<open>submitMultiSignerEnvelope\<close>, with what \<open>submit\<close> answers.\<close>

definition submitMultiSignerEnvelope :: "(assembled \<Rightarrow> 'r) \<Rightarrow> string \<Rightarrow> int \<Rightarrow> pending \<Rightarrow> (ms_error + 'r) \<times> pending" where
  "submitMultiSignerEnvelope submit i now p =
     (case assembleEnvelope i now p of (Inl e, p') \<Rightarrow> (Inl e, p') | (Inr a, p') \<Rightarrow> (Inr (submit a), p'))"

section \<open>Facts\<close>

lemma keySourceTimeoutMs_pos: "0 < keySourceTimeoutMs ce env"
  by (auto simp: keySourceTimeoutMs_def split: jsnum.splits)

text \<open>
  The invariant of a network: the leases of its key manager are those of every scheme it ever
  registered, and its scheme is the last of them and signs with the current keys.
\<close>

definition net_state_ok :: "net_state \<Rightarrow> bool" where
  "net_state_ok s \<longleftrightarrow> leases_ok (nf_manager s) (rev (nf_registered s)) \<and> nf_scheme s = km_current (nf_manager s)
     \<and> nf_registered s \<noteq> [] \<and> last (nf_registered s) = nf_scheme s"

lemma put_scheme_ok:
  assumes "leases_ok km (rev registered)"
  shows "net_state_ok (put_scheme registered km)"
proof -
  obtain g km' where s: "km_snapshot km = (g, km')" by (metis surj_pair)
  then have "km_apply K_snapshot (km, rev registered) = (km', g # rev registered)" by simp
  from leases_ok_apply [OF assms this] have "leases_ok km' (g # rev registered)" .
  moreover have "g = km_current km'" using s by (auto simp: km_snapshot_def split: option.splits)
  ultimately show ?thesis by (simp add: net_state_ok_def put_scheme_def s)
qed

lemma leases_ok_purgeRetired: "leases_ok km hs \<Longrightarrow> leases_ok (purgeRetired now km) hs"
  using leases_ok_apply [of km hs "K_purge now"] by simp

lemma km_refresh_ok:
  assumes "km_refresh sha256 valid loaded now km = (r, km')" "leases_ok km hs"
  shows "leases_ok km' hs" "r \<noteq> Inr True \<Longrightarrow> km' = km"
proof -
  show "leases_ok km' hs"
    using assms leases_ok_install [OF assms(2)] normaliseKeys_ok
    by (fastforce simp: km_refresh_def split: option.splits sum.splits if_splits)
  show "r \<noteq> Inr True \<Longrightarrow> km' = km"
    using assms(1) by (auto simp: km_refresh_def split: option.splits sum.splits if_splits)
qed

lemma key_step_ok:
  assumes "net_state_ok s"
  shows "net_state_ok (key_step sha256 valid ev s) \<and> (\<exists>gs. nf_registered (key_step sha256 valid ev s) = nf_registered s @ gs)"
proof (cases ev)
  case (Purge now)
  have "km_current (purgeRetired now (nf_manager s)) = km_current (nf_manager s)" by (simp add: purgeRetired_def)
  with Purge assms show ?thesis by (simp add: net_state_ok_def purge_keys_def leases_ok_purgeRetired)
next
  case (Poll reply timeoutMs now)
  obtain r km where f: "km_refresh sha256 valid (case loadRemoteKeys reply timeoutMs of Inl _ \<Rightarrow> None | Inr ks \<Rightarrow> Some (map raw_of_json ks))
      now (nf_manager s) = (r, km)" by (metis surj_pair)
  have ok: "leases_ok (nf_manager s) (rev (nf_registered s))" using assms by (simp add: net_state_ok_def)
  show ?thesis
  proof (cases "r = Inr True")
    case True
    have "net_state_ok (put_scheme (nf_registered s) km)" by (rule put_scheme_ok [OF km_refresh_ok(1) [OF f ok]])
    moreover have "nf_registered (put_scheme (nf_registered s) km) = nf_registered s @ [fst (km_snapshot km)]"
      by (simp add: put_scheme_def split: prod.splits)
    ultimately show ?thesis using True by (simp add: Poll poll_keys_def f)
  next
    case False
    then have "key_step sha256 valid ev s = s" using km_refresh_ok(2) [OF f ok]
      by (auto simp: Poll poll_keys_def f split: sum.splits bool.splits)
    with assms show ?thesis by simp
  qed
qed

lemma key_run_ok:
  assumes "net_state_ok s"
  shows "net_state_ok (fold (key_step sha256 valid) evs s) \<and> (\<exists>gs. nf_registered (fold (key_step sha256 valid) evs s) = nf_registered s @ gs)"
  using assms
proof (induction evs arbitrary: s)
  case (Cons ev evs)
  from key_step_ok [OF Cons.prems, of sha256 valid ev] Cons.IH [of "key_step sha256 valid ev s"] show ?case by auto
qed simp

text \<open>After any polls and purges the scheme in use signs with the current keys.\<close>

theorem scheme_signs_currently:
  assumes "build_network sha256 valid nc now = Inr s0" "s = fold (key_step sha256 valid) evs s0"
  shows "nf_scheme s = km_current (nf_manager s) \<and> last (nf_registered s) = nf_scheme s
    \<and> (\<exists>g. getCurrent (nf_manager s) = Some g \<and> gn_entries g \<noteq> [])"
proof -
  obtain km where km: "new_key_manager sha256 valid (map Plain (nc_secrets nc)) now = Inr km" "s0 = put_scheme [] km"
    using assms(1) by (auto simp: build_network_def split: sum.splits)
  have "net_state_ok s0" using put_scheme_ok [of km "[]"] leases_ok_new [OF km(1)] by (simp add: km(2))
  from key_run_ok [OF this] have ok: "net_state_ok s" by (simp add: assms(2))
  then obtain g where g: "getCurrent (nf_manager s) = Some g" by (auto simp: net_state_ok_def leases_ok_def getCurrent_def)
  then have "gn_entries g \<noteq> []"
    using ok by (auto simp: net_state_ok_def leases_ok_def getCurrent_def dest!: map_of_SomeD)
  with ok g show ?thesis by (simp add: net_state_ok_def)
qed

text \<open>
  But no lease is ever given back: every generation of keys that was ever in use stays in the
  process, its secrets with it, however long ago it was replaced.
\<close>

theorem keys_never_dropped:
  assumes "build_network sha256 valid nc now = Inr s0" "g \<in> set (nf_registered (fold (key_step sha256 valid) evs s0))"
  shows "\<exists>s. jm_get (km_gens (nf_manager (fold (key_step sha256 valid) (evs @ later) s0))) g = Some s"
proof -
  obtain km where km: "new_key_manager sha256 valid (map Plain (nc_secrets nc)) now = Inr km" "s0 = put_scheme [] km"
    using assms(1) by (auto simp: build_network_def split: sum.splits)
  have "net_state_ok s0" using put_scheme_ok [of km "[]"] leases_ok_new [OF km(1)] by (simp add: km(2))
  from key_run_ok [OF this, of sha256 valid evs] have mid: "net_state_ok (fold (key_step sha256 valid) evs s0)" by simp
  from key_run_ok [OF mid, of sha256 valid later] assms(2)
  have "net_state_ok (fold (key_step sha256 valid) (evs @ later) s0)"
    "g \<in> set (nf_registered (fold (key_step sha256 valid) (evs @ later) s0))" by auto
  then show ?thesis by (auto simp: net_state_ok_def leases_ok_def)
qed

text \<open>No envelope is submitted before it is complete, or after its deadline.\<close>

theorem only_complete_submitted:
  assumes "submitMultiSignerEnvelope submit i now (fold ms_apply xs []) = (Inr r, p')"
  shows "\<exists>e a. jm_get (fold ms_apply xs []) i = Some e \<and> now \<le> en_expires e \<and> r = submit a \<and> as_xdr a = en_xdr e
    \<and> en_threshold e \<le> int (length (as_sigs a)) \<and> distinct (map fst (as_sigs a))"
proof -
  obtain a where a: "assembleEnvelope i now (fold ms_apply xs []) = (Inr a, p')" "r = submit a"
    using assms by (auto simp: submitMultiSignerEnvelope_def split: prod.splits sum.splits)
  from assembleEnvelope_Inr [OF ms_run_ok [OF pending_ok_empty] a(1)] a(2) show ?thesis by blast
qed

end
