(* ===== verification/Startup.thy ===== *)
theory Startup
  imports ConfigurationFacts
begin

text \<open>
  The process entry point (\<open>src/server.js\<close>, with the builders it calls in \<open>src/rate-limit-store.js\<close>,
  \<open>src/store/index.js\<close>, \<open>src/idempotency.js\<close> and \<open>src/catalog/postgres.js\<close>): which stores and workers a
  configuration gives, the handlers of fatal errors (\<open>src/process-handlers.js\<close>), and the shutdown.

  What a step of the shutdown does is its component's; here it ends, throws or does not end.
\<close>

section \<open>Wiring\<close>

datatype limiter_kind = Crdt_limiter string | Redis_limiter string | Memory_limiter | Postgres_limiter

text \<open>\<open>createRateLimitStore\<close>: \<open>Inl\<close> refuses to start.\<close>

datatype limiter_error = Needs_database | Unknown_store string

definition createRateLimitStore :: "process_env \<Rightarrow> limiter_error + limiter_kind" where
  "createRateLimitStore env =
     (let kind = nullish_or (env_or_null env ''RATE_LIMIT_STORE'') ''memory'' in
      if kind = ''memory'' then Inr Memory_limiter
      else if kind = ''postgres''
      then (if env_or_null env ''DATABASE_URL'' = None then Inl Needs_database else Inr Postgres_limiter)
      else Inl (Unknown_store kind))"

definition choose_limiter :: "process_env \<Rightarrow> config \<Rightarrow> limiter_error + limiter_kind" where
  "choose_limiter env c =
     (let s = kc_storage c in
      if st_rateLimitStore s = ''crdt'' \<and> st_databaseUrl s \<noteq> None then Inr (Crdt_limiter (nullish_or (st_region s) ''default''))
      else (case st_redisUrl s of Some u \<Rightarrow> Inr (Redis_limiter u) | None \<Rightarrow> createRateLimitStore env))"

datatype store_kind = In_memory | In_postgres

definition durable_kind :: "config \<Rightarrow> store_kind" where
  "durable_kind c = (if st_databaseUrl (kc_storage c) = None then In_memory else In_postgres)"

record wiring =
  wr_limiter :: limiter_kind
  wr_settlements :: store_kind
  wr_idempotency :: store_kind
  wr_catalog :: store_kind
  wr_searchCache :: bool
  wr_pruneEvery :: "int option"
  wr_vaultPool :: bool
  wr_lock :: bool          \<comment> \<open>Redlock, or none\<close>
  wr_failover :: bool
  wr_dlq :: bool
  wr_outboxWorker :: bool
  wr_dlqWorker :: bool
  wr_metricsPort :: bool

text \<open>
  \<open>vault_up\<close>: the credentials could be had at boot. The settlement store has an outbox where it is the
  Postgres one, and either dispatcher can publish.
\<close>

definition wire :: "process_env \<Rightarrow> config \<Rightarrow> bool \<Rightarrow> limiter_error + wiring" where
  "wire env c vault_up =
     (case choose_limiter env c of
        Inl e \<Rightarrow> Inl e
      | Inr l \<Rightarrow>
          (let s = kc_storage c; durable = (st_databaseUrl s \<noteq> None) in
           Inr \<lparr>wr_limiter = l, wr_settlements = durable_kind c, wr_idempotency = durable_kind c, wr_catalog = durable_kind c,
                wr_searchCache = cc_searchCache (kc_catalog c),
                wr_pruneEvery = (case cc_verifyTtlMs (kc_catalog c) of Fin n \<Rightarrow> if 0 < n then Some (min n 60000) else None | NaN \<Rightarrow> None),
                wr_vaultPool = (st_vault s \<noteq> None \<and> durable \<and> vault_up), wr_lock = (st_redisNodes s \<noteq> []),
                wr_failover = (st_region s \<noteq> None), wr_dlq = durable, wr_outboxWorker = durable, wr_dlqWorker = durable,
                wr_metricsPort = (kc_metricsPort c \<noteq> None)\<rparr>))"

section \<open>Fatal errors\<close>

text \<open>\<open>createProcessErrorHandlers\<close>: the lines written and the exit codes asked for, once.\<close>

record fatal_state =
  fs_handling :: bool
  fs_log :: "string list"
  fs_exits :: "nat list"

definition fatal :: "string \<Rightarrow> string \<Rightarrow> fatal_state \<Rightarrow> fatal_state" where
  "fatal label detail st =
     (if fs_handling st then st
      else \<lparr>fs_handling = True, fs_log = fs_log st @ [''[Fatal] '' @ label @ '': '' @ detail], fs_exits = fs_exits st @ [1]\<rparr>)"

datatype fatal_event = Unhandled_rejection string | Uncaught_exception string

fun on_fatal :: "fatal_event \<Rightarrow> fatal_state \<Rightarrow> fatal_state" where
  "on_fatal (Unhandled_rejection d) st = fatal ''Unhandled promise rejection'' d st"
| "on_fatal (Uncaught_exception d) st = fatal ''Uncaught exception'' d st"

section \<open>Shutting down\<close>

datatype shut_step =
    Stop_reconciliation | Stop_failover | Close_app | Stop_webhooks | Quit_lock | Close_crdt | Stop_outbox_worker
  | Stop_dlq_worker | End_dlq_pool | Stop_vault | Shut_tracing | Close_metrics | Clear_prune | Stop_search_cache
  | Close_limiter | Close_audit | Restore_horizon

text \<open>The steps in order, those of parts that are there; \<open>True\<close> marks one whose error is caught.\<close>

definition shutdown_steps :: "wiring \<Rightarrow> (shut_step \<times> bool) list" where
  "shutdown_steps w =
     [(Stop_reconciliation, False)] @ (if wr_failover w then [(Stop_failover, False)] else [])
     @ [(Close_app, False), (Stop_webhooks, True)]
     @ (if wr_lock w then [(Quit_lock, True)] else [])
     @ (case wr_limiter w of Crdt_limiter _ \<Rightarrow> [(Close_crdt, True)] | _ \<Rightarrow> [])
     @ (if wr_outboxWorker w then [(Stop_outbox_worker, False)] else [])
     @ (if wr_dlqWorker w then [(Stop_dlq_worker, False)] else [])
     @ (if wr_dlq w \<and> \<not> wr_vaultPool w then [(End_dlq_pool, True)] else [])
     @ (if wr_vaultPool w then [(Stop_vault, False)] else [])
     @ [(Close_app, False), (Shut_tracing, True), (Close_metrics, False), (Stop_webhooks, True)]
     @ (if wr_lock w then [(Quit_lock, True)] else [])
     @ (case wr_limiter w of Crdt_limiter _ \<Rightarrow> [(Close_crdt, True)] | _ \<Rightarrow> [])
     @ (if wr_failover w then [(Stop_failover, False)] else [])
     @ (if wr_pruneEvery w \<noteq> None then [(Clear_prune, False)] else [])
     @ (if wr_searchCache w then [(Stop_search_cache, True)] else [])
     @ [(Close_limiter, True), (Close_audit, False), (Restore_horizon, False)]"

datatype step_end = Step_done | Step_throws | Step_hangs

datatype drain_end = Drain_complete | Drain_failed shut_step | Drain_deadline

text \<open>The n-th step's end is a parameter. What was done, and how the drain ends; the process then exits with 0.\<close>

fun drain :: "(nat \<Rightarrow> step_end) \<Rightarrow> nat \<Rightarrow> (shut_step \<times> bool) list \<Rightarrow> shut_step list \<times> drain_end" where
  "drain ends n [] = ([], Drain_complete)"
| "drain ends n ((s, guarded) # rest) =
     (case ends n of
        Step_done \<Rightarrow> (case drain ends (n + 1) rest of (ds, e) \<Rightarrow> (s # ds, e))
      | Step_throws \<Rightarrow> if guarded then drain ends (n + 1) rest else ([], Drain_failed s)
      | Step_hangs \<Rightarrow> ([], Drain_deadline))"

definition shutdown :: "(nat \<Rightarrow> step_end) \<Rightarrow> wiring \<Rightarrow> nat \<times> shut_step list \<times> drain_end" where
  "shutdown ends w = (0, drain ends 0 (shutdown_steps w))"

section \<open>Facts\<close>

text \<open>
  Together with the refusal of \<open>RATE_LIMIT_STORE\<close> by the configuration: a service that starts counts in
  Redis, or in its own memory; the shared Postgres limiter and the multi-region one are out of reach,
  unless an API key is named \<open>STORE\<close>.
\<close>

theorem limiter_never_postgres:
  assumes "resolveConfig ce env = Inr c" "wire env c vault_up = Inr w" "\<forall>k \<in> set (kc_apiKeys c). js_upper (ak_id k) \<noteq> ''STORE''"
  shows "wr_limiter w = (case env_or_null env ''REDIS_URL'' of Some u \<Rightarrow> Redis_limiter u | None \<Rightarrow> Memory_limiter)"
proof -
  obtain vault where s: "kc_storage c = storage_of_env ce env vault"
    "parse_api_keys ce (revokedApiKeyIds env) 0 (env_list env ''FACILITATOR_API_KEYS'') = Inr (kc_apiKeys c)"
    using assms(1) by (rule resolveConfig_Inr) blast
  have unset: "jm_get env ''RATE_LIMIT_STORE'' = None"
  proof (rule ccontr)
    assume "jm_get env ''RATE_LIMIT_STORE'' \<noteq> None"
    then obtain v where "jm_get env ''RATE_LIMIT_STORE'' = Some v" by blast
    from limiter_store_refused [OF this _ s(2)] assms(1,3) show False by (auto simp: list_ex_iff)
  qed
  obtain l where "choose_limiter env c = Inr l" "wr_limiter w = l"
    using assms(2) by (auto simp: wire_def Let_def split: sum.splits)
  with unset show ?thesis
    by (auto simp: choose_limiter_def s(1) storage_of_env_def createRateLimitStore_def env_or_null_def Let_def split: option.splits if_splits)
qed

text \<open>The first fatal error is written and asks for exit code 1; later ones are ignored.\<close>

lemma fatal_once:
  "fs_handling st \<Longrightarrow> fold on_fatal evs st = st"
proof (induction evs)
  case (Cons ev evs)
  then show ?case by (cases ev) (simp_all add: fatal_def)
qed simp

lemma first_fatal_exits:
  "fold on_fatal (ev # evs) \<lparr>fs_handling = False, fs_log = [], fs_exits = []\<rparr> = on_fatal ev \<lparr>fs_handling = False, fs_log = [], fs_exits = []\<rparr>
   \<and> fs_exits (fold on_fatal (ev # evs) \<lparr>fs_handling = False, fs_log = [], fs_exits = []\<rparr>) = [1]"
  by (cases ev) (simp_all add: fatal_def fatal_once)

text \<open>A drain in which nothing hangs and no unguarded step throws goes through every step; one that throws stops it.\<close>

lemma drain_complete:
  assumes "\<forall>i < length steps. ends (n + i) \<noteq> Step_hangs \<and> (ends (n + i) = Step_throws \<longrightarrow> snd (steps ! i))"
  shows "drain ends n steps = (map fst (nths steps {i. ends (n + i) = Step_done}), Drain_complete)"
  using assms
proof (induction steps arbitrary: n)
  case (Cons p steps)
  obtain s g where p: "p = (s, g)" by (metis surj_pair)
  have "\<forall>i < length steps. ends (n + 1 + i) \<noteq> Step_hangs \<and> (ends (n + 1 + i) = Step_throws \<longrightarrow> snd (steps ! i))"
    using Cons.prems by (metis Suc_less_eq add_Suc_shift length_Cons nth_Cons_Suc plus_1_eq_Suc add.assoc)
  note IH = Cons.IH [OF this]
  have "ends n \<noteq> Step_hangs" "ends n = Step_throws \<longrightarrow> g" using Cons.prems by (auto simp: p dest: spec [of _ 0])
  with IH show ?case
    by (auto simp: p nths_Cons split: step_end.splits)
qed simp

lemma drain_stops:
  assumes "ends (n + length xs) = Step_throws" "\<forall>i < length xs. ends (n + i) = Step_done"
  shows "drain ends n (xs @ (s, False) # ys) = (map fst xs, Drain_failed s)"
  using assms
proof (induction xs arbitrary: n)
  case (Cons x xs)
  have "\<forall>i < length xs. ends (n + 1 + i) = Step_done" using Cons.prems(2) by (metis Suc_less_eq add_Suc_shift length_Cons plus_1_eq_Suc add.assoc)
  with Cons.IH [of "n + 1"] Cons.prems show ?case
    by (cases x) (auto simp: dest: spec [of _ 0])
qed simp

text \<open>
  The webhook dispatcher is stopped while the two workers that publish through it still run, and an
  error of one of these leaves the audit file unflushed; the exit code is 0 in any case.
\<close>

lemma dispatcher_stops_first:
  assumes "wr_outboxWorker w"
  shows "\<exists>xs ys zs. map fst (shutdown_steps w) = xs @ Stop_webhooks # ys @ Stop_outbox_worker # zs \<and> Stop_outbox_worker \<notin> set xs \<union> set ys"
proof -
  let ?xs = "Stop_reconciliation # (if wr_failover w then [Stop_failover] else []) @ [Close_app]"
  let ?ys = "(if wr_lock w then [Quit_lock] else []) @ (case wr_limiter w of Crdt_limiter _ \<Rightarrow> [Close_crdt] | _ \<Rightarrow> [])"
  obtain zs where "map fst (shutdown_steps w) = ?xs @ Stop_webhooks # ?ys @ Stop_outbox_worker # zs"
    using assms by (cases "wr_limiter w") (simp_all add: shutdown_steps_def)
  moreover have "Stop_outbox_worker \<notin> set ?xs \<union> set ?ys" by (cases "wr_limiter w") auto
  ultimately show ?thesis by blast
qed

lemma failed_drain_exits_clean: "fst (shutdown ends w) = 0"
  by (simp add: shutdown_def)

lemma failed_worker_skips_audit:
  assumes "shutdown_steps w = xs @ (Stop_outbox_worker, False) # ys" "ends (length xs) = Step_throws" "\<forall>i < length xs. ends i = Step_done"
    "Close_audit \<notin> fst ` set xs"
  shows "Close_audit \<notin> set (fst (snd (shutdown ends w)))"
  using drain_stops [of ends 0 xs Stop_outbox_worker ys] assms by (simp add: shutdown_def)

end
