(* ===== verification/ExternalProbe.thy ===== *)
theory ExternalProbe
  imports JsText
begin

text \<open>
  The external availability probe (\<open>monitoring/probes.mjs\<close>): the HTTP probes with their severities, the
  synthetic payment, the balances of the signers, and the verdict over all of them.

  What an endpoint answers, how long it takes and what a command ends with are parameters. A balance
  is in stroops, \<open>None\<close> where the text of it is no number.
\<close>

section \<open>Probes\<close>

datatype level = Level_ok | Level_warn | Level_down

record http_result =
  hr_ok :: bool
  hr_status :: nat
  hr_latency :: int

definition HTTP_PROBES :: "string list" where
  "HTTP_PROBES = [''healthz'', ''readyz'', ''supported'']"

definition PROBE_SEVERITY :: "string \<Rightarrow> level" where
  "PROBE_SEVERITY name = (if name = ''healthz'' then Level_down else Level_warn)"

text \<open>\<open>timedGet\<close>: an answer with its body read, or an error, which is no answer.\<close>

definition timedGet :: "(bool \<times> nat) option \<Rightarrow> int \<Rightarrow> http_result" where
  "timedGet reply latency =
     (case reply of
        Some (ok, status) \<Rightarrow> \<lparr>hr_ok = ok, hr_status = status, hr_latency = latency\<rparr>
      | None \<Rightarrow> \<lparr>hr_ok = False, hr_status = 0, hr_latency = latency\<rparr>)"

text \<open>A threshold of 0 is none.\<close>

definition http_level :: "string \<Rightarrow> int option \<Rightarrow> http_result \<Rightarrow> level" where
  "http_level name warnMs r =
     (if \<not> hr_ok r then PROBE_SEVERITY name
      else (case warnMs of Some w \<Rightarrow> if w \<noteq> 0 \<and> hr_latency r > w then Level_warn else Level_ok | None \<Rightarrow> Level_ok))"

record signer_config =
  sg_address :: string
  sg_network :: string
  sg_signalFloor :: "int option"
  sg_warnFloor :: "int option"

text \<open>The account: not reached, refused with a status, or its native balance, \<open>None\<close> where it lists none.\<close>

datatype account_reply = Account_error string | Account_refused nat | Account_balance "int option option"

definition below :: "int option \<Rightarrow> int \<Rightarrow> bool" where
  "below balance floor = (case balance of Some b \<Rightarrow> b < floor | None \<Rightarrow> False)"

definition signer_level :: "account_reply \<Rightarrow> signer_config \<Rightarrow> level" where
  "signer_level reply s =
     (case reply of
        Account_error _ \<Rightarrow> Level_down
      | Account_refused _ \<Rightarrow> Level_down
      | Account_balance native \<Rightarrow>
          (let stroops = (case native of Some b \<Rightarrow> b | None \<Rightarrow> Some 0) in
           if below stroops (nullish_or (sg_signalFloor s) 0) then Level_down
           else if below stroops (nullish_or (sg_warnFloor s) 0) then Level_warn
           else Level_ok))"

definition probeSignerBalance :: "(string \<Rightarrow> account_reply) \<Rightarrow> signer_config list \<Rightarrow> (signer_config \<times> level) list" where
  "probeSignerBalance ledger signers = map (\<lambda>s. (s, signer_level (ledger (sg_address s)) s)) signers"

section \<open>A run\<close>

record incident =
  in_probe :: string
  in_level :: level
  in_detail :: string

datatype probe_result = Http_probe http_result level | Payment_probe bool int level | Balance_probe "(signer_config \<times> level) list"

record probe_config =
  pc_disabled :: "string list"                  \<comment> \<open>HTTP probes set to false\<close>
  pc_warnMs :: "string \<Rightarrow> int option"
  pc_payment :: bool                            \<comment> \<open>\<open>syntheticEnabled\<close>\<close>
  pc_signers :: "signer_config list option"     \<comment> \<open>none where the balance probe is off\<close>

record probe_world =
  pw_get :: "string \<Rightarrow> (bool \<times> nat) option"
  pw_latency :: "string \<Rightarrow> int"
  pw_command :: int                             \<comment> \<open>exit code of the payment script, -1 where it cannot run\<close>
  pw_ledger :: "string \<Rightarrow> account_reply"

record probe_report =
  pr_probes :: "(string \<times> probe_result) list"
  pr_incidents :: "incident list"
  pr_status :: string

definition http_part :: "probe_config \<Rightarrow> probe_world \<Rightarrow> string \<Rightarrow> (string \<times> probe_result) \<times> incident list" where
  "http_part c w name =
     (let r = timedGet (pw_get w name) (pw_latency w name); l = http_level name (pc_warnMs c name) r in
      ((name, Http_probe r l),
       if l = Level_down then [\<lparr>in_probe = name, in_level = l, in_detail = ''HTTP '' @ nat_str (hr_status r)\<rparr>] else []))"

definition payment_part :: "probe_config \<Rightarrow> probe_world \<Rightarrow> ((string \<times> probe_result) \<times> incident list) list" where
  "payment_part c w =
     (if pc_payment c
      then (let ok = (pw_command w = 0); l = (if ok then Level_ok else Level_down) in
            [((''syntheticPayment'', Payment_probe ok (pw_command w) l),
              if ok then [] else [\<lparr>in_probe = ''syntheticPayment'', in_level = Level_down, in_detail = ''exit '' @ int_str (pw_command w)\<rparr>])])
      else [])"

definition balance_part :: "probe_config \<Rightarrow> probe_world \<Rightarrow> ((string \<times> probe_result) \<times> incident list) list" where
  "balance_part c w =
     (case pc_signers c of
        None \<Rightarrow> []
      | Some signers \<Rightarrow>
          (let balances = probeSignerBalance (pw_ledger w) signers in
           [((''signerBalance'', Balance_probe balances),
             map (\<lambda>(s, l). \<lparr>in_probe = ''signerBalance'', in_level = l, in_detail = sg_address s @ '' ('' @ sg_network s @ '')''\<rparr>)
               (filter (\<lambda>(s, l). l \<noteq> Level_ok) balances))]))"

definition probe_levels :: "probe_result \<Rightarrow> level list" where
  "probe_levels p = (case p of Http_probe _ l \<Rightarrow> [l] | Payment_probe _ _ l \<Rightarrow> [l] | Balance_probe bs \<Rightarrow> map snd bs)"

definition verdict_of :: "level list \<Rightarrow> incident list \<Rightarrow> string" where
  "verdict_of levels incidents =
     (if list_ex (\<lambda>i. in_level i = Level_down) incidents then ''down''
      else if list_ex (\<lambda>i. in_level i = Level_warn) incidents \<or> Level_warn \<in> set levels then ''degraded''
      else ''operational'')"

definition probe_parts :: "probe_config \<Rightarrow> probe_world \<Rightarrow> ((string \<times> probe_result) \<times> incident list) list" where
  "probe_parts c w =
     map (http_part c w) (filter (\<lambda>n. n \<notin> set (pc_disabled c)) HTTP_PROBES) @ payment_part c w @ balance_part c w"

definition runProbes :: "probe_config \<Rightarrow> probe_world \<Rightarrow> probe_report" where
  "runProbes c w =
     (let probes = map fst (probe_parts c w); incidents = concat (map snd (probe_parts c w))
      in \<lparr>pr_probes = probes, pr_incidents = incidents,
          pr_status = verdict_of (concat (map (\<lambda>p. probe_levels (snd p)) probes)) incidents\<rparr>)"

definition probe_exit :: "probe_report \<Rightarrow> nat" where
  "probe_exit r = (if pr_status r = ''down'' then 1 else 0)"

section \<open>Facts\<close>

text \<open>What a run looks at is down.\<close>

definition something_down :: "probe_config \<Rightarrow> probe_world \<Rightarrow> bool" where
  "something_down c w \<longleftrightarrow>
     (''healthz'' \<notin> set (pc_disabled c) \<and> \<not> (\<exists>st. pw_get w ''healthz'' = Some (True, st)))
     \<or> (pc_payment c \<and> pw_command w \<noteq> 0)
     \<or> (\<exists>ss s. pc_signers c = Some ss \<and> s \<in> set ss \<and> signer_level (pw_ledger w (sg_address s)) s = Level_down)"

lemma http_part_down:
  "(\<exists>i \<in> set (snd (http_part c w n)). in_level i = Level_down) \<longleftrightarrow> n = ''healthz'' \<and> \<not> (\<exists>st. pw_get w n = Some (True, st))"
  by (auto simp: http_part_def Let_def http_level_def PROBE_SEVERITY_def timedGet_def split: option.splits if_splits)

lemma balance_down:
  "(\<exists>x \<in> set (balance_part c w). \<exists>i \<in> set (snd x). in_level i = Level_down) \<longleftrightarrow>
     (\<exists>ss s. pc_signers c = Some ss \<and> s \<in> set ss \<and> signer_level (pw_ledger w (sg_address s)) s = Level_down)"
  by (cases "pc_signers c") (force simp: balance_part_def Let_def probeSignerBalance_def)+

text \<open>The run pages, and exits with 1, exactly when liveness, the payment or a signer is down.\<close>

definition part_down :: "(string \<times> probe_result) \<times> incident list \<Rightarrow> bool" where
  "part_down x \<longleftrightarrow> (\<exists>i \<in> set (snd x). in_level i = Level_down)"

lemma parts_down: "(\<exists>x \<in> set (probe_parts c w). part_down x) \<longleftrightarrow> something_down c w"
proof -
  have "(\<exists>x \<in> set (map (http_part c w) (filter (\<lambda>n. n \<notin> set (pc_disabled c)) HTTP_PROBES)). part_down x)
      \<longleftrightarrow> ''healthz'' \<notin> set (pc_disabled c) \<and> \<not> (\<exists>st. pw_get w ''healthz'' = Some (True, st))"
    using http_part_down [of c w] by (auto simp: part_down_def HTTP_PROBES_def)
  moreover have "(\<exists>x \<in> set (payment_part c w). part_down x) \<longleftrightarrow> pc_payment c \<and> pw_command w \<noteq> 0"
    by (simp add: payment_part_def part_down_def Let_def)
  moreover have "(\<exists>x \<in> set (balance_part c w). part_down x) \<longleftrightarrow>
      (\<exists>ss s. pc_signers c = Some ss \<and> s \<in> set ss \<and> signer_level (pw_ledger w (sg_address s)) s = Level_down)"
    using balance_down by (simp add: part_down_def)
  ultimately show ?thesis unfolding probe_parts_def set_append bex_Un something_down_def by blast
qed

lemma incidents_down: "list_ex (\<lambda>i. in_level i = Level_down) (concat (map snd (probe_parts c w))) \<longleftrightarrow> something_down c w"
  by (simp add: list_ex_iff part_down_def flip: parts_down)

theorem down_iff: "probe_exit (runProbes c w) = 1 \<longleftrightarrow> something_down c w"
  by (simp add: probe_exit_def runProbes_def Let_def verdict_of_def incidents_down)

text \<open>Nothing degraded goes unnoticed: a run that calls the service operational saw every probe at ok.\<close>

lemma down_is_incident:
  assumes "x \<in> set (probe_parts c w)" "Level_down \<in> set (probe_levels (snd (fst x)))"
  shows "part_down x"
proof -
  consider n where "x = http_part c w n" | "x \<in> set (payment_part c w)" | "x \<in> set (balance_part c w)"
    using assms(1) by (auto simp: probe_parts_def)
  then show ?thesis
    using assms(2)
    by cases (force simp: http_part_def payment_part_def balance_part_def Let_def probe_levels_def part_down_def
        split: if_splits option.splits)+
qed

lemma operational_all_ok:
  assumes "pr_status (runProbes c w) = ''operational''" "(n, p) \<in> set (pr_probes (runProbes c w))" "l \<in> set (probe_levels p)"
  shows "l = Level_ok"
proof -
  obtain x where x: "x \<in> set (probe_parts c w)" "fst x = (n, p)" using assms(2) by (auto simp: runProbes_def Let_def)
  have "\<not> list_ex (\<lambda>i. in_level i = Level_down) (concat (map snd (probe_parts c w)))"
    and warn: "Level_warn \<notin> set (concat (map (\<lambda>p. probe_levels (snd p)) (map fst (probe_parts c w))))"
    using assms(1) by (auto simp: runProbes_def Let_def verdict_of_def split: if_splits)
  then have "\<not> part_down x" using x(1) incidents_down parts_down by blast
  with down_is_incident [OF x(1)] x(2) assms(3) have "l \<noteq> Level_down" by auto
  moreover have "l \<noteq> Level_warn" using warn x assms(3) by force
  ultimately show ?thesis by (cases l) auto
qed

text \<open>A balance that is no number is above every floor.\<close>

lemma unreadable_balance_ok: "signer_level (Account_balance (Some None)) s = Level_ok"
  by (simp add: signer_level_def below_def)

end
