(* ===== verification/LogRedaction.thy ===== *)
theory LogRedaction
  imports JsText McpSandbox
begin

text \<open>
  Redaction of anything the service logs (\<open>src/logger.js\<close>).

  A pattern with the global flag is a function that says, behind a given character, how long a match
  begins here and what replaces it; \<open>replace_all\<close> is \<open>String.replace\<close> with it. The four patterns leave
  no choice between matches of different lengths, but for the card numbers, where the longest is
  tried first.
\<close>

section \<open>Patterns\<close>

type_synonym pattern = "char option \<Rightarrow> string \<Rightarrow> (nat \<times> string) option"

text \<open>A match is never empty; one of length 0 is taken for none.\<close>

function replace_all :: "pattern \<Rightarrow> char option \<Rightarrow> string \<Rightarrow> string" where
  "replace_all m p [] = []"
| "replace_all m p (c # cs) =
     (case m p (c # cs) of
        Some (Suc n, r) \<Rightarrow> r @ replace_all m (Some (last (take (Suc n) (c # cs)))) (drop n cs)
      | _ \<Rightarrow> c # replace_all m (Some c) cs)"
  by pat_completeness auto
termination by (relation "measure (\<lambda>(m, p, s). length s)") auto

definition REDACTED :: string where "REDACTED = ''[REDACTED]''"

definition nonword :: "char option \<Rightarrow> bool" where
  "nonword p = (case p of None \<Rightarrow> True | Some c \<Rightarrow> \<not> word_char c)"

definition word_run :: "string \<Rightarrow> string" where
  "word_run s = takeWhile word_char s"

text \<open>\<open>\bS[A-Z2-7]{55}\b\<close>: the word that begins here is a seed.\<close>

definition base32_char :: "char \<Rightarrow> bool" where
  "base32_char c \<longleftrightarrow> (CHR ''A'' \<le> c \<and> c \<le> CHR ''Z'') \<or> (CHR ''2'' \<le> c \<and> c \<le> CHR ''7'')"

definition seed_here :: "char option \<Rightarrow> string \<Rightarrow> bool" where
  "seed_here p s = (case s of [] \<Rightarrow> False | c # cs \<Rightarrow>
     nonword p \<and> c = CHR ''S'' \<and> length (word_run cs) = 55 \<and> list_all base32_char (word_run cs))"

definition STELLAR_SECRET_RE :: pattern where
  "STELLAR_SECRET_RE p s = (if seed_here p s then Some (56, REDACTED) else None)"

text \<open>\<open>\bBearer\s+[A-Za-z0-9._~+/=-]+\<close>\<close>

definition token_char :: "char \<Rightarrow> bool" where
  "token_char c \<longleftrightarrow> (word_char c \<and> c \<noteq> CHR ''_'') \<or> c \<in> set ''._~+/=-''"

definition BEARER_RE :: pattern where
  "BEARER_RE p s =
     (let rest = drop 6 s; gap = takeWhile js_space rest; token = takeWhile token_char (drop (length gap) rest) in
      if nonword p \<and> js_lower (take 6 s) = ''bearer'' \<and> gap \<noteq> [] \<and> token \<noteq> []
      then Some (6 + length gap + length token, ''Bearer '' @ REDACTED) else None)"

text \<open>\<open>(\b(?:password|passwd|pwd)\b\s*[:=]\s*)("?)([^\s",;}]+)\<close>\<close>

definition secret_char :: "char \<Rightarrow> bool" where
  "secret_char c \<longleftrightarrow> \<not> js_space c \<and> c \<notin> {CHR 0x22, CHR '','', CHR '';'', CHR ''}''}"

definition password_words :: "string list" where
  "password_words = [''password'', ''passwd'', ''pwd'']"

definition PASSWORD_RE :: pattern where
  "PASSWORD_RE p s =
     (let w = word_run s; gap1 = takeWhile js_space (drop (length w) s); at_sign = drop (length w + length gap1) s in
      if nonword p \<and> js_lower w \<in> set password_words \<and> at_sign \<noteq> [] \<and> hd at_sign \<in> {CHR '':'', CHR ''=''}
      then (let gap2 = takeWhile js_space (tl at_sign); after = drop (length gap2) (tl at_sign);
                quoted = (after \<noteq> [] \<and> hd after = CHR 0x22);
                value = takeWhile secret_char (if quoted then tl after else after);
                before = length w + length gap1 + 1 + length gap2 + (if quoted then 1 else 0)
            in if value = [] then None else Some (before + length value, take before s @ REDACTED))
      else None)"

text \<open>\<open>\b(?:\d[ -]?){12,18}\d\b\<close>: where each digit of the run that begins here ends, and the longest match.\<close>

fun digit_ends :: "nat \<Rightarrow> string \<Rightarrow> nat list" where
  "digit_ends n [] = []"
| "digit_ends n [c] = (if is_digit c then [n + 1] else [])"
| "digit_ends n (c # d # cs) =
     (if \<not> is_digit c then []
      else (n + 1) # (if d = CHR '' '' \<or> d = CHR ''-'' then digit_ends (n + 2) cs else digit_ends (n + 1) (d # cs)))"

definition pan_length :: "string \<Rightarrow> nat option" where
  "pan_length s =
     List.find (\<lambda>n. nonword (js_hd (drop n s))) (rev (drop 12 (take 19 (digit_ends 0 s))))"

fun luhn_sum :: "bool \<Rightarrow> string \<Rightarrow> int" where
  "luhn_sum double [] = 0"
| "luhn_sum double (c # cs) =
     (let n = digits_value [c]; m = (if double then (if n * 2 > 9 then n * 2 - 9 else n * 2) else n) in m + luhn_sum (\<not> double) cs)"

definition passesLuhn :: "string \<Rightarrow> bool" where
  "passesLuhn digits \<longleftrightarrow> luhn_sum False (rev digits) mod 10 = 0"

definition PAN_RE :: pattern where
  "PAN_RE p s =
     (if nonword p
      then map_option (\<lambda>n. (n, if passesLuhn (filter is_digit (take n s)) then REDACTED else take n s)) (pan_length s)
      else None)"

definition redactString :: "string \<Rightarrow> string" where
  "redactString s =
     replace_all PAN_RE None (replace_all PASSWORD_RE None (replace_all BEARER_RE None (replace_all STELLAR_SECRET_RE None s)))"

section \<open>Redaction\<close>

definition REDACTED_KEY_NAMES :: "string list" where
  "REDACTED_KEY_NAMES = [''authorization'', ''cookie'', ''set-cookie'', ''proxy-authorization'']"

definition js_ends_with :: "string \<Rightarrow> string \<Rightarrow> bool" where
  "js_ends_with e s \<longleftrightarrow> length e \<le> length s \<and> drop (length s - length e) s = e"

definition isSensitiveKey :: "string \<Rightarrow> bool" where
  "isSensitiveKey key =
     (let lower = js_lower key in lower \<in> set REDACTED_KEY_NAMES \<or> js_ends_with ''_secret'' lower \<or> js_ends_with ''-secret'' lower)"

fun log_redact :: "json \<Rightarrow> json" where
  "log_redact (JArr xs) = JArr (map log_redact xs)"
| "log_redact (JObj fs) = JObj (map (\<lambda>f. (fst f, if isSensitiveKey (fst f) then JStr ''***'' else log_redact (snd f))) fs)"
| "log_redact (JStr s) = JStr (redactString s)"
| "log_redact j = j"

section \<open>No seed is left\<close>

lemma base32_word: "base32_char c \<Longrightarrow> word_char c"
  by (auto simp: base32_char_def word_char_def is_digit_def less_eq_char_def Let_def)

text \<open>No seed begins anywhere in a text that stands behind a given character.\<close>

fun seed_free :: "char option \<Rightarrow> string \<Rightarrow> bool" where
  "seed_free p [] = True"
| "seed_free p (c # cs) = (\<not> seed_here p (c # cs) \<and> seed_free (Some c) cs)"

text \<open>Every S of a text stands behind a word character, so that no seed begins in it.\<close>

fun s_behind_word :: "char option \<Rightarrow> string \<Rightarrow> bool" where
  "s_behind_word p [] = True"
| "s_behind_word p (c # cs) = ((c = CHR ''S'' \<longrightarrow> \<not> nonword p) \<and> s_behind_word (Some c) cs)"

lemma s_behind_no_S: "CHR ''S'' \<notin> set b \<Longrightarrow> s_behind_word p b"
  by (induction b arbitrary: p) auto

lemma s_behind_append: "s_behind_word p a \<Longrightarrow> CHR ''S'' \<notin> set b \<Longrightarrow> s_behind_word p (a @ b)"
  by (induction a arbitrary: p) (auto simp: s_behind_no_S)

lemma s_behind_words: "list_all word_char a \<Longrightarrow> a = [] \<or> hd a \<noteq> CHR ''S'' \<Longrightarrow> s_behind_word p a"
proof (induction a arbitrary: p)
  case (Cons c cs)
  have "list_all word_char cs \<Longrightarrow> word_char w \<Longrightarrow> s_behind_word (Some w) cs" for w
    by (induction cs arbitrary: w) (auto simp: nonword_def)
  with Cons.prems show ?case by simp
qed simp

lemma seed_free_behind:
  "s_behind_word None r \<Longrightarrow> r \<noteq> [] \<Longrightarrow> seed_free (Some (last r)) x \<Longrightarrow> seed_free q (r @ x)"
proof -
  have "s_behind_word p r \<Longrightarrow> r \<noteq> [] \<Longrightarrow> seed_free (Some (last r)) x \<Longrightarrow> q = p \<or> hd r \<noteq> CHR ''S'' \<Longrightarrow> seed_free q (r @ x)" for p
  proof (induction r arbitrary: p q)
    case (Cons c cs)
    then show ?case by (cases cs) (auto simp: seed_here_def)
  qed simp
  moreover have "s_behind_word None r \<Longrightarrow> r \<noteq> [] \<Longrightarrow> hd r \<noteq> CHR ''S''" by (cases r) (auto simp: nonword_def)
  ultimately show "s_behind_word None r \<Longrightarrow> r \<noteq> [] \<Longrightarrow> seed_free (Some (last r)) x \<Longrightarrow> seed_free q (r @ x)" by blast
qed

lemma seed_free_nonS: "x = [] \<or> hd x \<noteq> CHR ''S'' \<Longrightarrow> seed_free q x = seed_free p x"
  by (cases x) (simp_all add: seed_here_def)

lemma seed_free_drop: "seed_free p s \<Longrightarrow> n < length s \<Longrightarrow> seed_free (Some (s ! n)) (drop (Suc n) s)"
proof (induction n arbitrary: p s)
  case 0
  then show ?case by (cases s) auto
next
  case (Suc n)
  then obtain c cs where s: "s = c # cs" by (cases s) auto
  with Suc.IH [of "Some c" cs] Suc.prems show ?case by simp
qed

text \<open>
  What the patterns have in common: a match begins at a word, nothing a seed could begin with is in
  its replacement, and no S follows it.
\<close>

locale word_pattern =
  fixes m :: pattern
  assumes at_word: "m p s = Some (n, r) \<Longrightarrow> nonword p"
    and match_length: "m p s = Some (n, r) \<Longrightarrow> 0 < n \<and> n \<le> length s"
    and replacement: "m p s = Some (n, r) \<Longrightarrow> r \<noteq> [] \<and> s_behind_word None r"
    and follows: "m p s = Some (n, r) \<Longrightarrow> n < length s \<Longrightarrow> s ! n \<noteq> CHR ''S''"
begin

lemma word_run_replace: "word_char w \<Longrightarrow> word_run (replace_all m (Some w) s) = word_run s"
proof (induction s arbitrary: w)
  case (Cons c cs)
  have "m (Some w) (c # cs) = None"
    using at_word [of "Some w" "c # cs"] Cons.prems by (cases "m (Some w) (c # cs)") (auto simp: nonword_def)
  with Cons.IH [of c] show ?case by (simp add: word_run_def)
qed (simp add: word_run_def)

lemma seed_here_replace: "\<not> seed_here p (c # cs) \<Longrightarrow> q = p \<or> c \<noteq> CHR ''S'' \<Longrightarrow> \<not> seed_here q (c # replace_all m (Some c) cs)"
  using word_run_replace [of "CHR ''S''" cs] by (auto simp: seed_here_def word_char_def)

lemma replace_seed_free:
  assumes "\<And>p s. m p s = None \<Longrightarrow> seed_here p s \<Longrightarrow> catches = False"
  shows "catches \<or> seed_free p s \<Longrightarrow> q = p \<or> s = [] \<or> hd s \<noteq> CHR ''S'' \<Longrightarrow> seed_free q (replace_all m p s)"
proof (induction "length s" arbitrary: p q s rule: less_induct)
  case less
  show ?case
  proof (cases s)
    case (Cons c cs)
    show ?thesis
    proof (cases "m p s")
      case None
      then have "\<not> seed_here p s" using assms less.prems(1) Cons by auto
      moreover have "seed_free (Some c) (replace_all m (Some c) cs)"
        using less.hyps [of cs "Some c" "Some c"] less.prems(1) by (auto simp: Cons)
      ultimately show ?thesis using None seed_here_replace [of p c cs q] less.prems(2) by (simp add: Cons)
    next
      case (Some nr)
      obtain k r where nr: "nr = (Suc k, r)" using match_length [of p s] Some by (cases nr) (metis Suc_pred)
      then have m: "m p s = Some (Suc k, r)" by (simp add: Some)
      have k: "k < length s" using match_length [OF m] by simp
      have rest: "catches \<or> seed_free (Some (s ! k)) (drop (Suc k) s)" using less.prems(1) seed_free_drop [OF _ k] by blast
      have fol: "drop (Suc k) s = [] \<or> hd (drop (Suc k) s) \<noteq> CHR ''S''"
        using follows [OF m] by (cases "Suc k < length s") (simp_all add: hd_drop_conv_nth)
      have "seed_free (Some (last r)) (replace_all m (Some (s ! k)) (drop (Suc k) s))"
        by (rule less.hyps [OF _ rest]) (use k fol in auto)
      moreover have "last (take (Suc k) s) = s ! k" using k by (simp add: take_Suc_conv_app_nth)
      then have "replace_all m p s = r @ replace_all m (Some (s ! k)) (drop (Suc k) s)" using m by (simp add: Cons)
      ultimately show ?thesis using seed_free_behind replacement [OF m] by metis
    qed
  qed simp
qed

lemma keeps_seed_free: "seed_free None s \<Longrightarrow> seed_free None (replace_all m None s)"
  using replace_seed_free [where catches = False] by simp

end

section \<open>The four patterns\<close>

lemma word_run_stops: "n = length (word_run s) \<Longrightarrow> n < length s \<Longrightarrow> \<not> word_char (s ! n)"
  unfolding word_run_def using nth_length_takeWhile by blast

lemma takeWhile_stops: "n < length s \<Longrightarrow> n = length (takeWhile P s) \<Longrightarrow> \<not> P (s ! n)"
  using nth_length_takeWhile by blast

lemma REDACTED_no_S: "CHR ''S'' \<notin> set REDACTED" "REDACTED \<noteq> []"
  by (simp_all add: REDACTED_def)

interpretation seeds: word_pattern STELLAR_SECRET_RE
proof unfold_locales
  fix p s n r
  assume m: "STELLAR_SECRET_RE p s = Some (n, r)"
  then obtain cs where s: "s = CHR ''S'' # cs" "nonword p" "length (word_run cs) = 55" "n = 56" "r = REDACTED"
    by (auto simp: STELLAR_SECRET_RE_def seed_here_def split: if_splits list.splits)
  have "55 \<le> length cs" using s(3) length_takeWhile_le [of word_char cs] by (simp add: word_run_def)
  then show "nonword p" "0 < n \<and> n \<le> length s" "r \<noteq> [] \<and> s_behind_word None r"
    using s REDACTED_no_S s_behind_no_S by auto
  show "s ! n \<noteq> CHR ''S''" if "n < length s"
    using that s word_run_stops [of 55 cs] by (auto simp: word_char_def)
qed

interpretation bearers: word_pattern BEARER_RE
proof unfold_locales
  fix p s n r
  assume m: "BEARER_RE p s = Some (n, r)"
  define gap where "gap = takeWhile js_space (drop 6 s)"
  define token where "token = takeWhile token_char (drop (length gap) (drop 6 s))"
  have b: "nonword p" "js_lower (take 6 s) = ''bearer''" "gap \<noteq> []" "token \<noteq> []" "n = 6 + length gap + length token" "r = ''Bearer '' @ REDACTED"
    using m by (auto simp: BEARER_RE_def Let_def gap_def token_def split: if_splits)
  have l: "length gap \<le> length (drop 6 s)" "length token \<le> length (drop (length gap) (drop 6 s))"
    unfolding gap_def token_def by (rule length_takeWhile_le)+
  have "6 \<le> length s" using arg_cong [OF b(2), of length] by (simp add: js_lower_def)
  with l b show "nonword p" "0 < n \<and> n \<le> length s" by auto
  show "r \<noteq> [] \<and> s_behind_word None r" using REDACTED_no_S by (simp add: b(6) s_behind_no_S)
  show "s ! n \<noteq> CHR ''S''" if "n < length s"
  proof -
    have "\<not> token_char (drop (length gap) (drop 6 s) ! length token)"
      by (rule takeWhile_stops) (use that b(5) in \<open>auto simp: token_def\<close>)
    then show ?thesis using that b(5) by (auto simp: token_char_def word_char_def add.commute add.left_commute)
  qed
qed

text \<open>A password's match, in its parts.\<close>

lemma takeWhile_rest: "s = takeWhile P s @ drop (length (takeWhile P s)) s"
  by (metis takeWhile_dropWhile_id dropWhile_eq_drop)

lemma PASSWORD_parts:
  assumes "PASSWORD_RE p s = Some (n, r)"
  obtains w gap c gap2 quote v where "s = w @ gap @ c # gap2 @ quote @ v" "nonword p" "w = word_run s" "js_lower w \<in> set password_words"
    "list_all js_space gap" "c \<in> {CHR '':'', CHR ''=''}" "list_all js_space gap2" "quote \<in> {[], [CHR 0x22]}"
    "n = length (w @ gap @ c # gap2 @ quote) + length (takeWhile secret_char v)" "takeWhile secret_char v \<noteq> []"
    "r = w @ gap @ c # gap2 @ quote @ REDACTED"
proof -
  define w where "w = word_run s"
  define gap where "gap = takeWhile js_space (drop (length w) s)"
  define rest where "rest = drop (length w + length gap) s"
  have c: "nonword p" "js_lower w \<in> set password_words" "rest \<noteq> []" "hd rest \<in> {CHR '':'', CHR ''=''}"
    using assms by (auto simp: PASSWORD_RE_def Let_def w_def gap_def rest_def split: if_splits)
  define gap2 where "gap2 = takeWhile js_space (tl rest)"
  define after where "after = drop (length gap2) (tl rest)"
  define quote where "quote = (if after \<noteq> [] \<and> hd after = CHR 0x22 then [CHR 0x22] else [])"
  define v where "v = (if after \<noteq> [] \<and> hd after = CHR 0x22 then tl after else after)"
  have sw: "s = w @ drop (length w) s" unfolding w_def word_run_def by (rule takeWhile_rest)
  have "rest = drop (length gap) (drop (length w) s)" by (simp add: rest_def add.commute)
  then have "drop (length w) s = gap @ rest" using takeWhile_rest [of "drop (length w) s" js_space] by (simp add: gap_def)
  moreover have "tl rest = gap2 @ after" using takeWhile_rest [of "tl rest" js_space] by (simp add: gap2_def after_def)
  then have "rest = hd rest # gap2 @ after" using c(3) by (metis list.collapse)
  moreover have "after = quote @ v" by (cases after) (auto simp: quote_def v_def)
  ultimately have s: "s = w @ gap @ hd rest # gap2 @ quote @ v" using sw by metis
  have "PASSWORD_RE p s = (if takeWhile secret_char v = [] then None
      else Some (length w + length gap + 1 + length gap2 + length quote + length (takeWhile secret_char v),
        take (length w + length gap + 1 + length gap2 + length quote) s @ REDACTED))"
    unfolding PASSWORD_RE_def Let_def w_def [symmetric] gap_def [symmetric] rest_def [symmetric] gap2_def [symmetric] after_def [symmetric]
    using c by (simp add: quote_def v_def)
  with assms have n: "takeWhile secret_char v \<noteq> []"
    "n = length w + length gap + 1 + length gap2 + length quote + length (takeWhile secret_char v)"
    "r = take (length w + length gap + 1 + length gap2 + length quote) s @ REDACTED"
    by (simp_all split: if_splits)
  have "take (length w + length gap + 1 + length gap2 + length quote) s = w @ gap @ hd rest # gap2 @ quote"
    by (subst s) simp
  then have r: "r = w @ gap @ hd rest # gap2 @ quote @ REDACTED" by (simp add: n(3))
  show thesis
    by (rule that [OF s c(1) w_def c(2) _ c(4) _ _ _ n(1) r])
      (auto simp: gap_def gap2_def quote_def n(2) list_all_iff dest: set_takeWhileD)
qed

lemma password_word_quiet:
  assumes "js_lower w \<in> set password_words"
  shows "w \<noteq> []" "hd w \<noteq> CHR ''S''"
proof -
  obtain c cs where w: "w = c # cs" using assms by (cases w) (auto simp: password_words_def js_lower_def)
  then have "js_lower_char c = CHR ''p''" using assms by (auto simp: password_words_def js_lower_def)
  moreover have "js_lower_char (CHR ''S'') \<noteq> CHR ''p''" by code_simp
  ultimately show "w \<noteq> []" "hd w \<noteq> CHR ''S''" using w by auto
qed

interpretation passwords: word_pattern PASSWORD_RE
proof unfold_locales
  fix p s n r
  assume "PASSWORD_RE p s = Some (n, r)"
  then obtain w gap c gap2 quote v where s: "s = w @ gap @ c # gap2 @ quote @ v" "nonword p" "w = word_run s" "js_lower w \<in> set password_words"
    "list_all js_space gap" "c \<in> {CHR '':'', CHR ''=''}" "list_all js_space gap2" "quote \<in> {[], [CHR 0x22]}"
    "n = length (w @ gap @ c # gap2 @ quote) + length (takeWhile secret_char v)" "takeWhile secret_char v \<noteq> []"
    "r = w @ gap @ c # gap2 @ quote @ REDACTED"
    by (rule PASSWORD_parts)
  show "nonword p" by (rule s(2))
  show "0 < n \<and> n \<le> length s"
    using length_takeWhile_le [of secret_char v] arg_cong [OF s(1), of length] s(9,10) by simp
  have "CHR ''S'' \<notin> set (gap @ c # gap2 @ quote @ REDACTED)"
    using s(5-8) REDACTED_no_S by (auto simp: list_all_iff js_space_def)
  moreover have "s_behind_word None w"
    using password_word_quiet [OF s(4)] s(3) by (intro s_behind_words) (auto simp: word_run_def list_all_iff dest: set_takeWhileD)
  ultimately show "r \<noteq> [] \<and> s_behind_word None r" using s(11) s_behind_append by simp
  show "s ! n \<noteq> CHR ''S''" if "n < length s"
  proof -
    have "s ! n = v ! length (takeWhile secret_char v)"
      by (subst s(1)) (simp add: s(9) nth_append)
    moreover have "\<not> secret_char (v ! length (takeWhile secret_char v))"
      by (rule takeWhile_stops) (use that arg_cong [OF s(1), of length] s(9) in simp_all)
    ultimately show ?thesis by (auto simp: secret_char_def js_space_def)
  qed
qed

lemma digit_ends_sound:
  "n \<in> set (digit_ends k s) \<Longrightarrow> k < n \<and> n - k \<le> length s \<and> (\<forall>c \<in> set (take (n - k) s). is_digit c \<or> c = CHR '' '' \<or> c = CHR ''-'')"
proof (induction k s rule: digit_ends.induct)
  case (3 k c d cs)
  show ?case
  proof (cases "n = k + 1")
    case True
    with 3 show ?thesis by (auto split: if_splits)
  next
    case False
    show ?thesis
    proof (cases "d = CHR '' '' \<or> d = CHR ''-''")
      case True
      with 3 False have "k + 2 < n \<and> n - (k + 2) \<le> length cs \<and> (\<forall>c \<in> set (take (n - (k + 2)) cs). is_digit c \<or> c = CHR '' '' \<or> c = CHR ''-'')" "is_digit c"
        by (auto split: if_splits)
      moreover have "n - k = Suc (Suc (n - (k + 2)))" using conjunct1 [OF calculation(1)] by arith
      ultimately show ?thesis using True by auto
    next
      case False
      with 3 \<open>n \<noteq> k + 1\<close> have "k + 1 < n \<and> n - (k + 1) \<le> length (d # cs) \<and> (\<forall>c \<in> set (take (n - (k + 1)) (d # cs)). is_digit c \<or> c = CHR '' '' \<or> c = CHR ''-'')" "is_digit c"
        by (auto split: if_splits)
      moreover have "n - k = Suc (n - (k + 1))" using conjunct1 [OF calculation(1)] by arith
      ultimately show ?thesis by auto
    qed
  qed
qed (auto split: if_splits)

lemma pan_length_sound:
  assumes "pan_length s = Some n"
  shows "0 < n" "n \<le> length s" "CHR ''S'' \<notin> set (take n s)" "n < length s \<Longrightarrow> \<not> word_char (s ! n)"
proof -
  obtain i where i: "i < length (rev (drop 12 (take 19 (digit_ends 0 s))))" "n = rev (drop 12 (take 19 (digit_ends 0 s))) ! i"
    and nw: "nonword (js_hd (drop n s))"
    using assms unfolding pan_length_def find_Some_iff by blast
  have "n \<in> set (rev (drop 12 (take 19 (digit_ends 0 s))))" using nth_mem [OF i(1)] by (simp only: i(2))
  then have "n \<in> set (digit_ends 0 s)" by (auto dest: in_set_dropD in_set_takeD)
  note d = digit_ends_sound [OF this]
  show "0 < n" "n \<le> length s" using d by auto
  show "CHR ''S'' \<notin> set (take n s)" using d by (auto simp: is_digit_def Let_def)
  show "\<not> word_char (s ! n)" if "n < length s"
    using nw that by (simp add: nonword_def js_hd_def Cons_nth_drop_Suc [symmetric])
qed

interpretation cards: word_pattern PAN_RE
proof unfold_locales
  fix p s n r
  assume "PAN_RE p s = Some (n, r)"
  then have m: "nonword p" "pan_length s = Some n" "r = REDACTED \<or> r = take n s"
    by (auto simp: PAN_RE_def split: if_splits)
  note l = pan_length_sound [OF m(2)]
  show "nonword p" "0 < n \<and> n \<le> length s" using m(1) l by simp_all
  show "r \<noteq> [] \<and> s_behind_word None r" using m(3) l REDACTED_no_S by (auto intro: s_behind_no_S)
  show "s ! n \<noteq> CHR ''S''" if "n < length s" using l(4) [OF that] by (auto simp: word_char_def)
qed

text \<open>Whatever is logged, no text of it has a Stellar secret seed in it.\<close>

theorem no_seed_logged: "seed_free None (redactString s)"
proof -
  have "seed_free None (replace_all STELLAR_SECRET_RE None s)"
    using seeds.replace_seed_free [where catches = True] by (auto simp: STELLAR_SECRET_RE_def)
  then show ?thesis
    unfolding redactString_def
    by (intro cards.keeps_seed_free passwords.keeps_seed_free bearers.keeps_seed_free)
qed

text \<open>
  The longest match is replaced or kept as a whole: a card number with a short number behind it is
  read as one longer number, whose checksum fails, and stays.
\<close>

lemma card_redacted: "redactString ''4111 1111 1111 1111'' = REDACTED"
  by code_simp

lemma card_with_expiry_kept: "redactString ''4111 1111 1111 1111 12'' = ''4111 1111 1111 1111 12''"
  by code_simp

text \<open>A value of a sensitive key is masked whatever it is, at any depth.\<close>

fun masked :: "json \<Rightarrow> bool" where
  "masked (JArr xs) = list_all masked xs"
| "masked (JObj fs) = list_all (\<lambda>f. if isSensitiveKey (fst f) then snd f = JStr ''***'' else masked (snd f)) fs"
| "masked (JStr s) = seed_free None s"
| "masked j = True"

lemma log_redact_masked: "masked (log_redact j)"
  by (induction j rule: log_redact.induct) (auto simp: list_all_iff no_seed_logged)

end
