(* ===== verification/RequestLog.thy ===== *)
theory RequestLog
  imports LogRedaction AppEdge
begin

text \<open>
  The line the service logs per request (\<open>src/log.js\<close>) and its audit records (\<open>src/audit.js\<close>).

  A line is the JSON value that is written; the clock, identifiers and the file of the audit trail are
  parameters, a failure of that file is an event.
\<close>

section \<open>Levels\<close>

definition LEVELS :: "(string \<times> nat) list" where
  "LEVELS = [(''debug'', 10), (''info'', 20), (''warn'', 30), (''error'', 40)]"

definition parseLogLevel :: "string option \<Rightarrow> string \<Rightarrow> string" where
  "parseLogLevel v fallback =
     (case v of None \<Rightarrow> fallback
      | Some s \<Rightarrow> (let l = js_lower (js_trim s) in if map_of LEVELS l = None then fallback else l))"

definition threshold_of :: "string \<Rightarrow> nat" where
  "threshold_of level = nullish_or (map_of LEVELS level) 20"

section \<open>Trace context\<close>

record log_headers =
  lh_traceparent :: "string option"
  lh_traceId :: "string option"
  lh_spanId :: "string option"
  lh_requestId :: "string option"

text \<open>\<open>/^[0-9a-f]{2}-([0-9a-f]{32})-([0-9a-f]{16})-[0-9a-f]{2}$/i\<close>\<close>

definition trace_hex :: "char \<Rightarrow> bool" where
  "trace_hex c \<longleftrightarrow> is_digit c \<or> (CHR ''a'' \<le> c \<and> c \<le> CHR ''f'') \<or> (CHR ''A'' \<le> c \<and> c \<le> CHR ''F'')"

definition traceparent_ids :: "string \<Rightarrow> (string \<times> string) option" where
  "traceparent_ids s =
     (if length s = 55 \<and> list_all trace_hex (take 2 s) \<and> s ! 2 = CHR ''-'' \<and> list_all trace_hex (take 32 (drop 3 s))
         \<and> s ! 35 = CHR ''-'' \<and> list_all trace_hex (take 16 (drop 36 s)) \<and> s ! 52 = CHR ''-'' \<and> list_all trace_hex (drop 53 s)
      then Some (js_lower (take 32 (drop 3 s)), js_lower (take 16 (drop 36 s))) else None)"

definition some_text :: "string option \<Rightarrow> string option" where
  "some_text v = (case v of Some s \<Rightarrow> if s = [] then None else Some s | None \<Rightarrow> None)"

definition traceContext :: "log_headers \<Rightarrow> string option \<times> string option" where
  "traceContext h =
     (case Option.bind (lh_traceparent h) (\<lambda>t. traceparent_ids (js_trim t)) of
        Some (t, s) \<Rightarrow> (Some t, Some s)
      | None \<Rightarrow> (some_text (lh_traceId h), some_text (lh_spanId h)))"

section \<open>The line of a request\<close>

record log_span =
  ls_requestId :: string
  ls_startedAt :: int
  ls_trace :: "string option \<times> string option"
  ls_route :: string

text \<open>\<open>begin\<close>: the matched route where there is one, the path of the URL otherwise.\<close>

definition log_begin :: "log_headers \<Rightarrow> string option \<Rightarrow> string \<Rightarrow> string \<Rightarrow> int \<Rightarrow> log_span" where
  "log_begin h matched url uuid now =
     \<lparr>ls_requestId = nullish_or (some_text (lh_requestId h)) uuid, ls_startedAt = now, ls_trace = traceContext h,
      ls_route = (case some_text matched of Some r \<Rightarrow> r | None \<Rightarrow> takeWhile (\<lambda>c. c \<noteq> CHR ''?'') url)\<rparr>"

definition or_null :: "string option \<Rightarrow> json" where
  "or_null v = (case v of Some s \<Rightarrow> JStr s | None \<Rightarrow> JNull)"

record log_fields =
  lf_network :: "string option"
  lf_scheme :: "string option"
  lf_keyId :: "string option"
  lf_outcome :: "string option"
  lf_reason :: "string option"
  lf_txHash :: "string option"

definition log_line :: "log_span \<Rightarrow> log_fields \<Rightarrow> string \<Rightarrow> int \<Rightarrow> string \<Rightarrow> string \<Rightarrow> json" where
  "log_line sp f ts now outcome level =
     JObj [(''ts'', JStr ts), (''level'', JStr level), (''event'', JStr ''request''), (''trace_id'', or_null (fst (ls_trace sp))),
       (''span_id'', or_null (snd (ls_trace sp))), (''requestId'', JStr (ls_requestId sp)), (''route'', JStr (ls_route sp)),
       (''network'', or_null (lf_network f)), (''scheme'', or_null (lf_scheme f)), (''keyId'', or_null (lf_keyId f)),
       (''durationMs'', JNum (now - ls_startedAt sp)), (''outcome'', JStr outcome),
       (''reason'', JStr (nullish_or (lf_reason f) ''none'')), (''txHash'', or_null (lf_txHash f))]"

text \<open>\<open>finish\<close>: the line, unless the level is above it.\<close>

definition log_finish :: "string \<Rightarrow> log_span \<Rightarrow> log_fields \<Rightarrow> string \<Rightarrow> int \<Rightarrow> json option" where
  "log_finish level sp f ts now =
     (let outcome = nullish_or (lf_outcome f) ''ok''; lineLevel = (if outcome = ''error'' then ''error'' else ''info'') in
      if threshold_of lineLevel < threshold_of level then None
      else Some (log_redact (log_line sp f ts now outcome lineLevel)))"

section \<open>The audit trail\<close>

definition secret_shapes :: "string list" where
  "secret_shapes = [''secret'', ''signature'', ''token'', ''password'', ''authorization'', ''payload'', ''paymentrequirements'',
     ''paymentpayload'', ''xdr'']"

definition SECRET_SHAPED :: "string \<Rightarrow> bool" where
  "SECRET_SHAPED k \<longleftrightarrow> list_ex (\<lambda>w. js_includes w (js_lower k)) secret_shapes"

definition audit_redact :: "(string \<times> json) list \<Rightarrow> (string \<times> json) list" where
  "audit_redact ctx = map (\<lambda>f. (fst f, if SECRET_SHAPED (fst f) then JStr ''[redacted]'' else snd f)) ctx"

text \<open>A later field of an object literal replaces an earlier one of its name, in place.\<close>

definition spread :: "(string \<times> json) list \<Rightarrow> (string \<times> json) list \<Rightarrow> (string \<times> json) list" where
  "spread ctx base = fold (\<lambda>f. jm_set (fst f) (snd f)) ctx base"

definition audit_line :: "string \<Rightarrow> string \<Rightarrow> (string \<times> json) list \<Rightarrow> json" where
  "audit_line ts event ctx =
     JObj (spread (audit_redact ctx) [(''ts'', JStr ts), (''channel'', JStr ''audit''), (''event'', JStr event)])"

record audit_state =
  au_stdout :: "json list"
  au_file :: "json list option"     \<comment> \<open>the open stream with what was written to it\<close>
  au_kept :: "json list"            \<comment> \<open>what the file has for certain: flushed by \<open>close\<close>\<close>
  au_warnings :: nat

datatype audit_event = Audit string string "(string \<times> json) list" | File_error | Close_trail

fun audit_step :: "audit_event \<Rightarrow> audit_state \<Rightarrow> audit_state" where
  "audit_step (Audit ts event ctx) s =
     s\<lparr>au_stdout := au_stdout s @ [audit_line ts event ctx], au_file := map_option (\<lambda>ls. ls @ [audit_line ts event ctx]) (au_file s)\<rparr>"
| "audit_step File_error s = (case au_file s of None \<Rightarrow> s | Some _ \<Rightarrow> s\<lparr>au_file := None, au_warnings := au_warnings s + 1\<rparr>)"
| "audit_step Close_trail s = (case au_file s of None \<Rightarrow> s | Some ls \<Rightarrow> s\<lparr>au_file := None, au_kept := au_kept s @ ls\<rparr>)"

definition createAuditLogger :: "string option \<Rightarrow> audit_state" where
  "createAuditLogger file = \<lparr>au_stdout = [], au_file = map_option (\<lambda>_. []) (some_text file), au_kept = [], au_warnings = 0\<rparr>"

section \<open>Facts\<close>

lemma parseLogLevel_known: "map_of LEVELS fallback \<noteq> None \<Longrightarrow> map_of LEVELS (parseLogLevel v fallback) \<noteq> None"
  by (auto simp: parseLogLevel_def Let_def split: option.splits)

text \<open>An error is logged at every level.\<close>

lemma errors_always_logged: "lf_outcome f = Some ''error'' \<Longrightarrow> log_finish (parseLogLevel v ''info'') sp f ts now \<noteq> None"
proof -
  have "threshold_of (parseLogLevel v ''info'') \<le> 40"
    using parseLogLevel_known [of "''info''" v] by (auto simp: threshold_of_def LEVELS_def split: if_splits)
  moreover assume "lf_outcome f = Some ''error''"
  ultimately show ?thesis by (simp add: log_finish_def Let_def) (simp add: threshold_of_def LEVELS_def)
qed

lemma log_redact_names: "\<exists>gs. log_redact (JObj fs) = JObj gs \<and> map fst gs = map fst fs"
  by simp

text \<open>A line has the fourteen fields of the list and no other, and no seed in any of them.\<close>

lemma log_line_fields:
  assumes "log_finish level sp f ts now = Some j"
  shows "masked j \<and> (\<exists>fs. j = JObj fs \<and> map fst fs = [''ts'', ''level'', ''event'', ''trace_id'', ''span_id'', ''requestId'', ''route'', ''network'',
    ''scheme'', ''keyId'', ''durationMs'', ''outcome'', ''reason'', ''txHash''])"
proof -
  obtain outcome lv where j: "j = log_redact (log_line sp f ts now outcome lv)"
    using assms by (auto simp: log_finish_def Let_def split: if_splits)
  obtain fs where fs: "log_line sp f ts now outcome lv = JObj fs" "map fst fs = [''ts'', ''level'', ''event'', ''trace_id'', ''span_id'',
      ''requestId'', ''route'', ''network'', ''scheme'', ''keyId'', ''durationMs'', ''outcome'', ''reason'', ''txHash'']"
    by (rule that [OF log_line_def]) simp
  obtain gs where gs: "log_redact (JObj fs) = JObj gs" "map fst gs = map fst fs" using log_redact_names by blast
  show ?thesis using log_redact_masked [of "log_line sp f ts now outcome lv"] gs fs unfolding j by metis
qed

text \<open>A trace identifier that is taken from a \<open>traceparent\<close> is lower-case hexadecimal of its length.\<close>

lemma traceparent_lengths: "traceparent_ids s = Some (t, i) \<Longrightarrow> length t = 32 \<and> length i = 16"
  by (auto simp: traceparent_ids_def js_lower_def split: if_splits)

text \<open>Every record reaches the standard output, whatever becomes of the file, which is reported at most once.\<close>

lemma audit_on_stdout:
  "au_stdout (fold audit_step es (createAuditLogger file)) =
     concat (map (\<lambda>e. case e of Audit ts event ctx \<Rightarrow> [audit_line ts event ctx] | _ \<Rightarrow> []) es)
   \<and> au_warnings (fold audit_step es (createAuditLogger file)) \<le> 1"
proof -
  have "au_stdout (fold audit_step es s) = au_stdout s @ concat (map (\<lambda>e. case e of Audit ts event ctx \<Rightarrow> [audit_line ts event ctx] | _ \<Rightarrow> []) es)" for s
  proof (induction es arbitrary: s)
    case (Cons e es)
    then show ?case by (cases e) (auto split: option.splits)
  qed simp
  moreover have "au_warnings (fold audit_step es s) + (if au_file (fold audit_step es s) = None then 0 else 1)
      \<le> au_warnings s + (if au_file s = None then 0 else 1)" for s
  proof (induction es arbitrary: s)
    case (Cons e es)
    have "au_warnings (audit_step e s) + (if au_file (audit_step e s) = None then 0 else 1) \<le> au_warnings s + (if au_file s = None then 0 else 1)"
      by (cases e) (auto split: option.splits)
    with Cons.IH [of "audit_step e s"] show ?case by simp
  qed simp
  from this [of "createAuditLogger file"] have "au_warnings (fold audit_step es (createAuditLogger file)) \<le> 1"
    by (auto simp: createAuditLogger_def split: if_splits)
  ultimately show ?thesis by (simp add: createAuditLogger_def)
qed

text \<open>Closing the trail keeps every record made so far, when the file never failed.\<close>

lemma audit_closed_keeps:
  assumes "File_error \<notin> set es" "Close_trail \<notin> set es" "some_text file \<noteq> None"
  shows "au_kept (fold audit_step (es @ [Close_trail]) (createAuditLogger file)) = au_stdout (fold audit_step es (createAuditLogger file))"
proof -
  have "au_file s = Some ls \<Longrightarrow> au_stdout s = ls \<Longrightarrow> au_kept s = [] \<Longrightarrow>
      au_file (fold audit_step es s) = Some (au_stdout (fold audit_step es s)) \<and> au_kept (fold audit_step es s) = []" for s ls
    using assms(1,2)
  proof (induction es arbitrary: s ls)
    case (Cons e es)
    then show ?case by (cases e) auto
  qed simp
  from this [of "createAuditLogger file" "[]"] assms(3) show ?thesis by (auto simp: createAuditLogger_def)
qed

text \<open>
  The marker of the audit channel is written before the fields, so that a field of that name replaces
  it; and what is nested under a harmless name is not redacted.
\<close>

lemma channel_overridden: "jprop ''channel'' (audit_line ts event [(''channel'', v)]) = Some v"
  by (simp add: audit_line_def spread_def audit_redact_def SECRET_SHAPED_def secret_shapes_def js_lower_def js_lower_char_def jprop_def)

lemma nested_not_redacted:
  "jprop ''context'' (audit_line ts event [(''context'', JObj [(''secret'', v)])]) = Some (JObj [(''secret'', v)])"
  by (simp add: audit_line_def spread_def audit_redact_def SECRET_SHAPED_def secret_shapes_def js_lower_def js_lower_char_def jprop_def)

end
