(* ===== verification/RedisConnection.thy ===== *)
theory RedisConnection
  imports CatalogCache
begin

text \<open>
  The shared Redis connection (\<open>src/redis-client.js\<close>), and what the catalog's search cache does with it
  beside its searches (\<open>src/catalog/cache.js\<close>): subscribing to the invalidations of its peers, stopping,
  its counters.

  The client library is imported while the process goes on, so the state right after the call has no
  client yet; the end of the import and the events of the client are steps. What Redis answers is a
  parameter.
\<close>

section \<open>The connection\<close>

datatype redis_event = Ev_degraded string | Ev_recovered | Ev_unavailable string

datatype redis_source = Injected_client | Redis_url string | No_redis

record redis_conn =
  rn_client :: bool
  rn_external :: bool
  rn_degraded :: bool
  rn_ended :: bool
  rn_status_end :: bool     \<comment> \<open>the client's own status is \<open>end\<close>\<close>
  rn_events :: "redis_event list"

definition createRedisConnection :: "redis_source \<Rightarrow> redis_conn" where
  "createRedisConnection src =
     \<lparr>rn_client = (src = Injected_client), rn_external = (src = Injected_client), rn_degraded = False, rn_ended = False,
      rn_status_end = False, rn_events = []\<rparr>"

definition emitDegraded :: "string \<Rightarrow> redis_conn \<Rightarrow> redis_conn" where
  "emitDegraded message c =
     (if rn_degraded c then c else c\<lparr>rn_degraded := True, rn_events := rn_events c @ [Ev_degraded message]\<rparr>)"

definition emitRecovered :: "redis_conn \<Rightarrow> redis_conn" where
  "emitRecovered c =
     (if rn_degraded c then c\<lparr>rn_degraded := False, rn_events := rn_events c @ [Ev_recovered]\<rparr> else c)"

text \<open>The end of the import, with its error: only a connection with a URL imports anything.\<close>

definition redis_imported :: "redis_source \<Rightarrow> string option \<Rightarrow> redis_conn \<Rightarrow> redis_conn" where
  "redis_imported src err c =
     (case src of
        Redis_url _ \<Rightarrow>
          if rn_client c then c
          else (case err of
                  None \<Rightarrow> c\<lparr>rn_client := True\<rparr>
                | Some e \<Rightarrow> c\<lparr>rn_events := rn_events c @ [Ev_unavailable (''Redis unavailable ('' @ e @ '')'')]\<rparr>)
      | _ \<Rightarrow> c)"

definition isUsable :: "redis_conn \<Rightarrow> bool" where
  "isUsable c \<longleftrightarrow> rn_client c \<and> \<not> rn_degraded c \<and> \<not> rn_ended c \<and> \<not> rn_status_end c"

definition getClient :: "redis_conn \<Rightarrow> bool" where
  "getClient c \<longleftrightarrow> rn_client c \<and> \<not> rn_degraded c \<and> \<not> rn_ended c"

text \<open>Events of the client it built, and the calls of its users.\<close>

datatype redis_step = Client_error string | Client_ready | Client_end | Op_failed string | Op_recovered

fun conn_step :: "redis_step \<Rightarrow> redis_conn \<Rightarrow> redis_conn" where
  "conn_step (Client_error e) c = emitDegraded (''Redis error: '' @ e) c"
| "conn_step Client_ready c = emitRecovered c"
| "conn_step Client_end c = c\<lparr>rn_ended := True\<rparr>"
| "conn_step (Op_failed e) c = emitDegraded e c"
| "conn_step Op_recovered c = emitRecovered c"

section \<open>One line per outage\<close>

text \<open>The transitions told alternate, beginning with a degradation; the flag says which was the last.\<close>

fun alternating :: "bool \<Rightarrow> redis_event list \<Rightarrow> bool \<Rightarrow> bool" where
  "alternating d [] d' = (d' = d)"
| "alternating d (Ev_degraded _ # es) d' = (\<not> d \<and> alternating True es d')"
| "alternating d (Ev_recovered # es) d' = (d \<and> alternating False es d')"
| "alternating d (Ev_unavailable _ # es) d' = alternating d es d'"

lemma alternating_append: "alternating d (xs @ ys) d' \<longleftrightarrow> (\<exists>m. alternating d xs m \<and> alternating m ys d')"
  by (induction d xs d' rule: alternating.induct) auto

lemma step_alternates: "alternating d (rn_events c) (rn_degraded c) \<Longrightarrow> alternating d (rn_events (conn_step s c)) (rn_degraded (conn_step s c))"
  by (cases s) (auto simp: emitDegraded_def emitRecovered_def alternating_append)

lemma redis_outages:
  "alternating False (rn_events (fold conn_step ss (createRedisConnection src))) (rn_degraded (fold conn_step ss (createRedisConnection src)))"
proof (induction ss rule: rev_induct)
  case Nil
  then show ?case by (simp add: createRedisConnection_def)
next
  case (snoc s ss)
  then show ?case using step_alternates by simp
qed

text \<open>
  So no more recoveries are told than degradations, and at most one outage is open, however many
  operations fail in between.
\<close>

definition told :: "(redis_event \<Rightarrow> bool) \<Rightarrow> redis_event list \<Rightarrow> nat" where
  "told P es = length (filter P es)"

lemma alternating_counts:
  "alternating d es d' \<Longrightarrow>
     told (\<lambda>e. e \<noteq> Ev_recovered \<and> (\<forall>m. e \<noteq> Ev_unavailable m)) es + (if d then 1 else 0)
     = told (\<lambda>e. e = Ev_recovered) es + (if d' then 1 else 0)"
  by (induction d es d' rule: alternating.induct) (auto simp: told_def split: if_splits)

lemma one_line_per_outage:
  assumes "c = fold conn_step ss (createRedisConnection src)"
  shows "told (\<lambda>e. e \<noteq> Ev_recovered \<and> (\<forall>m. e \<noteq> Ev_unavailable m)) (rn_events c)
    = told (\<lambda>e. e = Ev_recovered) (rn_events c) + (if rn_degraded c then 1 else 0)"
  using alternating_counts [OF redis_outages [of ss src]] assms by simp

text \<open>A connection that ended is never usable again.\<close>

lemma ended_for_good: "rn_ended c \<Longrightarrow> \<not> isUsable (fold conn_step ss c)"
proof -
  assume "rn_ended c"
  moreover have "rn_ended c \<Longrightarrow> rn_ended (conn_step s c)" for s c by (cases s) (simp_all add: emitDegraded_def emitRecovered_def)
  ultimately have "rn_ended (fold conn_step ss c)" by (induction ss arbitrary: c) auto
  then show ?thesis by (simp add: isUsable_def)
qed

section \<open>The subscription of the search cache\<close>

record subscription =
  su_subscriber :: "bool option"     \<comment> \<open>whether the cache owns the connection\<close>
  su_ready :: bool
  su_channel :: bool                 \<comment> \<open>messages reach \<open>_onMessage\<close>\<close>
  su_warnings :: "string list"
  su_left_open :: nat                \<comment> \<open>connections of its own that nothing closes\<close>

definition no_subscription :: subscription where
  "no_subscription = \<lparr>su_subscriber = None, su_ready = False, su_channel = False, su_warnings = [], su_left_open = 0\<rparr>"

text \<open>\<open>start\<close>: \<open>duplicates\<close> when the client can be duplicated, \<open>err\<close> the error of subscribing.\<close>

definition cache_subscribe :: "bool \<Rightarrow> string option \<Rightarrow> redis_conn \<Rightarrow> subscription \<Rightarrow> subscription" where
  "cache_subscribe duplicates err c s =
     (if su_subscriber s \<noteq> None \<or> \<not> isUsable c then s
      else (case err of
              None \<Rightarrow> s\<lparr>su_subscriber := Some duplicates, su_ready := True, su_channel := True\<rparr>
            | Some e \<Rightarrow>
                s\<lparr>su_warnings := su_warnings s @ [''[CatalogCache] invalidation subscribe failed: '' @ e],
                  su_left_open := su_left_open s + (if duplicates then 1 else 0)\<rparr>))"

text \<open>\<open>stop\<close>; \<open>quits\<close> when the connection of its own could be closed.\<close>

definition cache_unsubscribe :: "bool \<Rightarrow> subscription \<times> ('s, 'v) scache \<Rightarrow> subscription \<times> ('s, 'v) scache" where
  "cache_unsubscribe quits st =
     ((fst st)\<lparr>su_subscriber := None, su_ready := False, su_channel := False,
        su_left_open := su_left_open (fst st) + (if su_subscriber (fst st) = Some True \<and> \<not> quits then 1 else 0)\<rparr>,
      (snd st)\<lparr>sc_l1 := lru_clear (sc_l1 (snd st))\<rparr>)"

text \<open>
  The service starts the cache right after it built it (\<open>server.js\<close>), before the import of the client
  can have ended: over a URL the subscription is never made, whatever happens afterwards, so no
  invalidation of a peer is ever received.
\<close>

lemma boot_never_subscribes: "cache_subscribe duplicates err (createRedisConnection (Redis_url u)) s = s"
  by (simp add: cache_subscribe_def isUsable_def createRedisConnection_def)

lemma subscribed_when_ready:
  "su_channel (cache_subscribe duplicates None (redis_imported (Redis_url u) None (createRedisConnection (Redis_url u))) no_subscription)"
  by (simp add: cache_subscribe_def isUsable_def createRedisConnection_def redis_imported_def no_subscription_def)

text \<open>A subscription that fails leaves the connection it opened for it open.\<close>

lemma failed_subscription_leaks:
  "isUsable c \<Longrightarrow> su_subscriber s = None \<Longrightarrow> su_left_open (cache_subscribe True (Some e) c s) = su_left_open s + 1"
  by (simp add: cache_subscribe_def)

section \<open>Counters\<close>

record tier_counts =
  tc_hit :: nat
  tc_miss :: nat
  tc_error :: nat

datatype lookup_outcome = Lk_hit | Lk_miss | Lk_error

definition record_lookup :: "lookup_outcome \<Rightarrow> tier_counts \<Rightarrow> tier_counts" where
  "record_lookup o' t =
     (case o' of
        Lk_hit \<Rightarrow> t\<lparr>tc_hit := tc_hit t + 1\<rparr>
      | Lk_miss \<Rightarrow> t\<lparr>tc_miss := tc_miss t + 1\<rparr>
      | Lk_error \<Rightarrow> t\<lparr>tc_error := tc_error t + 1\<rparr>)"

text \<open>\<open>stats\<close>: the ratio to four places, as a number of ten-thousandths; none before the first lookup.\<close>

definition hit_ratio :: "tier_counts \<Rightarrow> int option" where
  "hit_ratio t =
     (let decided = tc_hit t + tc_miss t in
      if decided = 0 then None else Some (\<lfloor>real (10000 * tc_hit t) / real decided + 1 / 2\<rfloor>))"

lemma hit_ratio_bounds: "hit_ratio t = Some r \<Longrightarrow> 0 \<le> r \<and> r \<le> 10000"
proof -
  assume r: "hit_ratio t = Some r"
  let ?q = "real (10000 * tc_hit t) / real (tc_hit t + tc_miss t)"
  have d: "0 < tc_hit t + tc_miss t" using r by (auto simp: hit_ratio_def Let_def split: if_splits)
  then have "0 \<le> ?q" "?q \<le> 10000" by (simp_all add: divide_le_eq)
  moreover have "r = \<lfloor>?q + 1 / 2\<rfloor>" using r by (simp add: hit_ratio_def Let_def split: if_splits)
  ultimately show ?thesis by linarith
qed

lemma lookups_counted:
  "tc_hit (fold record_lookup os t) + tc_miss (fold record_lookup os t) + tc_error (fold record_lookup os t)
     = tc_hit t + tc_miss t + tc_error t + length os"
  by (induction os arbitrary: t) (auto simp: record_lookup_def split: lookup_outcome.splits)

end
