(* ===== verification/Telemetry.thy ===== *)
theory Telemetry
  imports AppEdge Metrics
begin

text \<open>
  The registry of the metrics (\<open>createMetrics\<close> of \<open>src/metrics.js\<close>) with what the application tells it, and
  tracing (\<open>src/tracing.js\<close>): its switches, the endpoint and the headers of the exporter, and the spans
  around a request and a call of the scheme.

  The help texts and the text of a number are parameters. A span is the list of what was done to it.
\<close>

section \<open>The registry\<close>

record registry =
  mr_requests :: metric
  mr_duration :: histogram
  mr_settlements :: metric
  mr_fee :: histogram
  mr_rpcRetries :: metric
  mr_signerInflight :: metric
  mr_dlqDepth :: metric
  mr_catalogCache :: metric
  mr_activeVerifications :: metric
  mr_projectionLag :: metric
  mr_projectionEvents :: metric
  mr_projectionBatch :: histogram
  mr_projectionThroughput :: metric

definition createMetrics :: "(string \<Rightarrow> string) \<Rightarrow> registry" where
  "createMetrics help =
     (let m = (\<lambda>name labels. new_metric name (help name) labels);
          h = (\<lambda>name labels bounds. new_histogram name (help name) labels bounds)
      in \<lparr>mr_requests = m ''x402_requests_total'' [''route'', ''network'', ''outcome'', ''reason''],
          mr_duration = h ''x402_request_duration_seconds'' [''route'', ''network''] DURATION_BUCKETS,
          mr_settlements = m ''x402_settlements_total'' [''network'', ''outcome''],
          mr_fee = h ''x402_settlement_fee_stroops'' [''network''] FEE_BUCKETS,
          mr_rpcRetries = m ''x402_rpc_retries_total'' [''code'', ''host''],
          mr_signerInflight = m ''x402_signer_inflight'' [''network'', ''signer''],
          mr_dlqDepth = m ''x402_dlq_depth'' [''status''],
          mr_catalogCache = m ''x402_catalog_cache_lookups_total'' [''tier'', ''outcome''],
          mr_activeVerifications = gauge_set [] 0 (m ''active_verifications'' []),
          mr_projectionLag = gauge_set [] 0 (m ''x402_projection_lag'' []),
          mr_projectionEvents = m ''x402_projection_events_processed_total'' [],
          mr_projectionBatch = h ''x402_projection_batch_duration_seconds'' [] DURATION_BUCKETS,
          mr_projectionThroughput = gauge_set [] 0 (m ''x402_projection_throughput_events_per_second'' [])\<rparr>)"

datatype metric_call =
    Inc_requests string string string string
  | Observe_duration string string real
  | Inc_settlements string string
  | Observe_fee string real
  | Inc_rpc_retry "string option" "string option"
  | Set_signer_inflight string string real
  | Set_dlq_depth string real
  | Inc_cache_lookup "string option" "string option"
  | Inc_verifications
  | Dec_verifications
  | Set_projection_lag real
  | Inc_projection_events real
  | Observe_batch real
  | Set_throughput real

fun registry_call :: "metric_call \<Rightarrow> registry \<Rightarrow> registry" where
  "registry_call (Inc_requests route net outcome reason) r =
     r\<lparr>mr_requests := counter_inc [(''route'', route), (''network'', net), (''outcome'', outcome), (''reason'', reason)] 1 (mr_requests r)\<rparr>"
| "registry_call (Observe_duration route net secs) r =
     r\<lparr>mr_duration := observe [(''route'', route), (''network'', net)] secs (mr_duration r)\<rparr>"
| "registry_call (Inc_settlements net outcome) r =
     r\<lparr>mr_settlements := counter_inc [(''network'', net), (''outcome'', outcome)] 1 (mr_settlements r)\<rparr>"
| "registry_call (Observe_fee net fee) r = r\<lparr>mr_fee := observe [(''network'', net)] fee (mr_fee r)\<rparr>"
| "registry_call (Inc_rpc_retry code host) r =
     r\<lparr>mr_rpcRetries := counter_inc [(''code'', nullish_or code ''unknown''), (''host'', nullish_or host ''unknown'')] 1 (mr_rpcRetries r)\<rparr>"
| "registry_call (Set_signer_inflight net signer v) r =
     r\<lparr>mr_signerInflight := gauge_set [(''network'', net), (''signer'', signer)] v (mr_signerInflight r)\<rparr>"
| "registry_call (Set_dlq_depth status v) r = r\<lparr>mr_dlqDepth := gauge_set [(''status'', status)] v (mr_dlqDepth r)\<rparr>"
| "registry_call (Inc_cache_lookup tier outcome) r =
     r\<lparr>mr_catalogCache := counter_inc [(''tier'', nullish_or tier ''unknown''), (''outcome'', nullish_or outcome ''unknown'')] 1 (mr_catalogCache r)\<rparr>"
| "registry_call Inc_verifications r = r\<lparr>mr_activeVerifications := gauge_inc [] 1 (mr_activeVerifications r)\<rparr>"
| "registry_call Dec_verifications r = r\<lparr>mr_activeVerifications := gauge_dec [] 1 (mr_activeVerifications r)\<rparr>"
| "registry_call (Set_projection_lag v) r = r\<lparr>mr_projectionLag := gauge_set [] v (mr_projectionLag r)\<rparr>"
| "registry_call (Inc_projection_events n) r = r\<lparr>mr_projectionEvents := counter_inc [] n (mr_projectionEvents r)\<rparr>"
| "registry_call (Observe_batch secs) r = r\<lparr>mr_projectionBatch := observe [] secs (mr_projectionBatch r)\<rparr>"
| "registry_call (Set_throughput v) r = r\<lparr>mr_projectionThroughput := gauge_set [] v (mr_projectionThroughput r)\<rparr>"

definition render_registry :: "(real \<Rightarrow> string) \<Rightarrow> registry \<Rightarrow> string" where
  "render_registry shows r =
     concat [render_metric shows ''counter'' (mr_requests r), render_histogram shows (mr_duration r),
       render_metric shows ''counter'' (mr_settlements r), render_histogram shows (mr_fee r),
       render_metric shows ''counter'' (mr_rpcRetries r), render_metric shows ''gauge'' (mr_signerInflight r),
       render_metric shows ''gauge'' (mr_dlqDepth r), render_metric shows ''counter'' (mr_catalogCache r),
       render_metric shows ''gauge'' (mr_activeVerifications r), render_metric shows ''gauge'' (mr_projectionLag r),
       render_metric shows ''counter'' (mr_projectionEvents r), render_histogram shows (mr_projectionBatch r),
       render_metric shows ''gauge'' (mr_projectionThroughput r)]"

definition renderFullMetrics :: "(real \<Rightarrow> string) \<Rightarrow> registry \<Rightarrow> signer_metrics \<Rightarrow> string" where
  "renderFullMetrics shows r s = render_registry shows r @ toPrometheusText s"

text \<open>The application seeds one series per configured signer, and hands on what its hooks count.\<close>

definition seed_signers :: "(string \<times> string option) list \<Rightarrow> registry \<Rightarrow> registry" where
  "seed_signers signers r =
     fold (\<lambda>(net, s). case s of Some a \<Rightarrow> if a = [] then id else registry_call (Set_signer_inflight net a 0) | None \<Rightarrow> id) signers r"

fun edge_call :: "real \<Rightarrow> edge_metric \<Rightarrow> metric_call" where
  "edge_call secs (Requests route net outcome reason) = Inc_requests route net outcome reason"
| "edge_call secs (Duration route net) = Observe_duration route net secs"
| "edge_call secs (Settlements net outcome) = Inc_settlements net outcome"
| "edge_call secs (Settlement_fee net fee) = Observe_fee net (of_int fee)"

section \<open>What the registry says\<close>

text \<open>The labels of a request count exactly its calls, whatever else is told in between.\<close>

definition request_labels :: "string \<Rightarrow> string \<Rightarrow> string \<Rightarrow> string \<Rightarrow> labels" where
  "request_labels route net outcome reason = [(''route'', route), (''network'', net), (''outcome'', outcome), (''reason'', reason)]"

fun counts_as :: "labels \<Rightarrow> metric_call \<Rightarrow> bool" where
  "counts_as ls (Inc_requests route net outcome reason) = (labelKey (request_labels route net outcome reason) = labelKey ls)"
| "counts_as ls _ = False"

lemma requests_counted:
  "series_value ls (mr_requests (fold registry_call cs r)) = series_value ls (mr_requests r) + real (length (filter (counts_as ls) cs))"
proof (induction cs arbitrary: r)
  case (Cons c cs)
  have "series_value ls (mr_requests (registry_call c r)) = series_value ls (mr_requests r) + (if counts_as ls c then 1 else 0)"
    by (cases c) (auto simp: request_labels_def)
  with Cons show ?case by simp
qed simp

text \<open>
  A request to an operational route moves no counter of payments; any other moves exactly one series of
  the requests, by one.
\<close>

lemma request_series_once:
  "length (filter (counts_as ls) (map (edge_call secs) (span_metrics status s)))
     = (if sp_route s \<notin> set OPERATIONAL_ROUTES
           \<and> labelKey (request_labels (sp_route s) (nullish_or (sp_network s) ''unknown'') (outcome_of status s) (reason_of status s)) = labelKey ls
        then 1 else 0)"
  by (auto simp: span_metrics_def Let_def request_labels_def split: option.splits)

text \<open>Verifications in flight are never negative.\<close>

lemma verifications_nonneg:
  "0 \<le> series_value [] (mr_activeVerifications (fold registry_call cs (createMetrics help)))"
proof -
  have "0 \<le> series_value [] (mr_activeVerifications r) \<Longrightarrow> 0 \<le> series_value [] (mr_activeVerifications (fold registry_call cs r))" for r
  proof (induction cs arbitrary: r)
    case (Cons c cs)
    have "0 \<le> series_value [] (mr_activeVerifications (registry_call c r))"
      using Cons.prems by (cases c) (simp_all add: gauge_inc_def gauge_dec_def)
    with Cons.IH show ?case by simp
  qed simp
  then show ?thesis by (simp add: createMetrics_def Let_def)
qed

section \<open>Switching tracing on\<close>

text \<open>The headers of the exporter, \<open>k1=v1,k2=v2\<close>.\<close>

definition otel_header :: "string \<Rightarrow> (string, string) jsmap \<Rightarrow> (string, string) jsmap" where
  "otel_header pair out =
     (let k = takeWhile (\<lambda>c. c \<noteq> CHR ''='') pair in
      if k = [] \<or> CHR ''='' \<notin> set pair then out
      else jm_set (js_trim k) (js_trim (tl (dropWhile (\<lambda>c. c \<noteq> CHR ''='') pair))) out)"

definition parseHeaders :: "string option \<Rightarrow> (string, string) jsmap" where
  "parseHeaders raw =
     (case raw of
        None \<Rightarrow> []
      | Some s \<Rightarrow> if s = [] then [] else fold otel_header (js_split CHR '','' s) [])"

definition traces_path :: string where "traces_path = ''/v1/traces''"

definition ends_in_path :: "string \<Rightarrow> bool" where
  "ends_in_path s \<longleftrightarrow> length traces_path \<le> length s \<and> drop (length s - length traces_path) s = traces_path"

definition strip_slashes :: "string \<Rightarrow> string" where
  "strip_slashes s = rev (dropWhile (\<lambda>c. c = CHR ''/'') (rev s))"

definition resolveOtlpEndpoint :: "(string, string) jsmap \<Rightarrow> string option" where
  "resolveOtlpEndpoint env =
     (case nullish (jm_get env ''OTEL_EXPORTER_OTLP_TRACES_ENDPOINT'') (jm_get env ''OTEL_EXPORTER_OTLP_ENDPOINT'') of
        None \<Rightarrow> None
      | Some given \<Rightarrow>
          if given = [] then None
          else if ends_in_path given then Some given
          else Some (strip_slashes given @ traces_path))"

record trace_config =
  tr_service :: string
  tr_exporter :: "(string option \<times> (string, string) jsmap) option"   \<comment> \<open>none: the exporter's own defaults\<close>

definition initTracing :: "(string, string) jsmap \<Rightarrow> trace_config option \<Rightarrow> trace_config option" where
  "initTracing env sdk =
     (if sdk \<noteq> None then sdk
      else if jm_get env ''TRACING_ENABLED'' = Some ''false'' \<or> jm_get env ''OTEL_SDK_DISABLED'' = Some ''true'' then None
      else (let endpoint = resolveOtlpEndpoint env; headers = parseHeaders (jm_get env ''OTEL_EXPORTER_OTLP_HEADERS'') in
            Some \<lparr>tr_service = nullish_or (nullish (jm_get env ''OTEL_SERVICE_NAME'') (jm_get env ''FACILITATOR_SERVICE_NAME'')) ''x402-facilitator-stellar'',
                  tr_exporter = (if endpoint \<noteq> None \<or> headers \<noteq> [] then Some (endpoint, headers) else None)\<rparr>))"

lemma tracing_idempotent: "initTracing env (initTracing env' sdk) = (if initTracing env' sdk = None then initTracing env None else initTracing env' sdk)"
  by (simp add: initTracing_def)

lemma path_appended: "ends_in_path (s @ traces_path)"
  by (simp add: ends_in_path_def)

lemma endpoint_has_path: "resolveOtlpEndpoint env = Some e \<Longrightarrow> ends_in_path e"
  by (auto simp: resolveOtlpEndpoint_def path_appended split: option.splits if_splits)

text \<open>An override that is set to nothing hides the general endpoint.\<close>

lemma empty_override_hides:
  "jm_get env ''OTEL_EXPORTER_OTLP_TRACES_ENDPOINT'' = Some [] \<Longrightarrow> resolveOtlpEndpoint env = None"
  by (simp add: resolveOtlpEndpoint_def nullish_def)

text \<open>Headers that are written as pairs are read back, values with an equals sign in them too.\<close>

definition plain_header :: "string \<times> string \<Rightarrow> bool" where
  "plain_header h \<longleftrightarrow> fst h \<noteq> [] \<and> CHR ''='' \<notin> set (fst h) \<and> CHR '','' \<notin> set (fst h) \<and> CHR '','' \<notin> set (snd h)
     \<and> js_trim (fst h) = fst h \<and> js_trim (snd h) = snd h"

lemma otel_header_pair:
  assumes "plain_header (k, v)"
  shows "otel_header (k @ ''='' @ v) out = jm_set k v out"
proof -
  have "CHR ''='' \<notin> set k" using assms by (simp add: plain_header_def)
  then have "takeWhile (\<lambda>c. c \<noteq> CHR ''='') (k @ CHR ''='' # v) = k \<and> dropWhile (\<lambda>c. c \<noteq> CHR ''='') (k @ CHR ''='' # v) = CHR ''='' # v"
    by (induction k) auto
  with assms show ?thesis by (simp add: otel_header_def plain_header_def Let_def)
qed

lemma headers_read:
  assumes "list_all plain_header hs" "distinct (map fst hs)"
  shows "fold otel_header (map (\<lambda>(k, v). k @ ''='' @ v) hs) [] = hs"
  using assms
proof (induction hs rule: rev_induct)
  case (snoc h hs)
  obtain k v where h: "h = (k, v)" by force
  with snoc have "jm_get hs k = None" by (auto simp: map_of_eq_None_iff)
  with snoc h show ?case by (simp add: otel_header_pair [simplified] jm_set_new)
qed simp

section \<open>Spans\<close>

datatype span_step = Sp_attr string json | Sp_ok | Sp_error string | Sp_end

text \<open>\<open>withRequestSpan\<close>: an error is given as its text and goes on to the caller.\<close>

definition withRequestSpan :: "(string \<times> json) list \<Rightarrow> 'e + 'a \<Rightarrow> ('e \<Rightarrow> string) \<Rightarrow> ('e + 'a) \<times> span_step list" where
  "withRequestSpan attrs r msg =
     (r, map (\<lambda>(k, v). Sp_attr k v) attrs @ (case r of Inl e \<Rightarrow> [Sp_error (msg e)] | Inr _ \<Rightarrow> []) @ [Sp_end])"

definition tracedSchemeCall ::
  "string \<Rightarrow> (string \<times> json) list \<Rightarrow> 'e + json option \<Rightarrow> ('e \<Rightarrow> string) \<Rightarrow> ('e + json option) \<times> span_step list" where
  "tracedSchemeCall network extraAttrs r msg =
     (r, Sp_attr ''x402.network'' (JStr network) # map (\<lambda>(k, v). Sp_attr k v) extraAttrs
         @ (case r of
              Inl e \<Rightarrow> [Sp_error (msg e)]
            | Inr result \<Rightarrow>
                (case js_prop ''transaction'' result of
                   Some t \<Rightarrow> if js_truthy t then [Sp_attr ''x402.transaction.id'' t] else []
                 | None \<Rightarrow> []) @ [Sp_ok])
         @ [Sp_end])"

text \<open>Tracing changes no result, and ends every span once, last, with one status for a scheme call.\<close>

definition span_over :: "span_step list \<Rightarrow> bool" where
  "span_over ss \<longleftrightarrow> (\<exists>xs. ss = xs @ [Sp_end] \<and> Sp_end \<notin> set xs)"

lemma traced_call_transparent:
  "fst (tracedSchemeCall network attrs r msg) = r \<and> span_over (snd (tracedSchemeCall network attrs r msg))
    \<and> length (filter (\<lambda>s. s = Sp_ok \<or> (\<exists>m. s = Sp_error m)) (snd (tracedSchemeCall network attrs r msg))) = 1"
proof -
  have none: "filter (\<lambda>s. s = Sp_ok \<or> (\<exists>m. s = Sp_error m)) (map (\<lambda>(k, v). Sp_attr k v) attrs) = []" by (induction attrs) auto
  let ?rest = "case r of Inl e \<Rightarrow> [Sp_error (msg e)]
    | Inr result \<Rightarrow> (case js_prop ''transaction'' result of Some t \<Rightarrow> if js_truthy t then [Sp_attr ''x402.transaction.id'' t] else [] | None \<Rightarrow> []) @ [Sp_ok]"
  have rest: "Sp_end \<notin> set ?rest" "length (filter (\<lambda>s. s = Sp_ok \<or> (\<exists>m. s = Sp_error m)) ?rest) = 1"
    by (auto split: sum.splits option.splits)
  have "span_over (Sp_attr ''x402.network'' (JStr network) # map (\<lambda>(k, v). Sp_attr k v) attrs @ ?rest @ [Sp_end])"
    unfolding span_over_def
    by (rule exI [of _ "Sp_attr ''x402.network'' (JStr network) # map (\<lambda>(k, v). Sp_attr k v) attrs @ ?rest"]) (use rest(1) in auto)
  with none rest(2) show ?thesis by (simp add: tracedSchemeCall_def)
qed

lemma request_span_transparent:
  "fst (withRequestSpan attrs r msg) = r \<and> span_over (snd (withRequestSpan attrs r msg))"
proof -
  have "span_over (map (\<lambda>(k, v). Sp_attr k v) attrs @ (case r of Inl e \<Rightarrow> [Sp_error (msg e)] | Inr _ \<Rightarrow> []) @ [Sp_end])"
    unfolding span_over_def
    by (rule exI [of _ "map (\<lambda>(k, v). Sp_attr k v) attrs @ (case r of Inl e \<Rightarrow> [Sp_error (msg e)] | Inr _ \<Rightarrow> [])"])
      (auto split: sum.splits)
  then show ?thesis by (simp add: withRequestSpan_def)
qed

end
