(* ===== verification/Reasons.thy ===== *)
theory Reasons
  imports AppEdge
begin

text \<open>
  The registry of rejection reasons (\<open>src/reasons.js\<close>) and the errors the package exports
  (\<open>src/errors.js\<close>), held against the reasons the modelled routes answer. Of a registered reason only
  its code is kept, not its meaning.
\<close>

section \<open>The registry\<close>

definition LOCAL_REASONS :: "string list" where
  "LOCAL_REASONS =
    [''invalid_request'', ''facilitator_error'', ''missing_auth_header'', ''malformed_auth_header'',
     ''invalid_api_key'', ''open_mode_usage_forbidden'', ''rate_limited'', ''catalog_rate_limited'',
     ''catalog_partial'', ''catalog_success'', ''invalid_resource'', ''catalog_error'', ''internal_error'',
     ''soroban_rpc_unreachable'', ''lock_timeout'', ''request_timeout'', ''submitted_outcome_unknown'']"

definition UPSTREAM_REASONS :: "string list" where
  "UPSTREAM_REASONS =
    [''invalid_x402_version'', ''invalid_network'', ''invalid_exact_stellar_payload_malformed'',
     ''invalid_exact_stellar_payload_wrong_operation'', ''invalid_exact_stellar_payload_unsafe_tx_or_op_source'',
     ''invalid_exact_stellar_payload_wrong_asset'', ''invalid_exact_stellar_payload_wrong_function_name'',
     ''invalid_exact_stellar_payload_facilitator_is_payer'', ''invalid_exact_stellar_payload_wrong_recipient'',
     ''invalid_exact_stellar_payload_wrong_amount'', ''invalid_exact_stellar_payload_simulation_failed'',
     ''invalid_exact_stellar_payload_fee_exceeds_maximum'', ''invalid_exact_stellar_payload_event_not_transfer'',
     ''invalid_exact_stellar_payload_event_missing_contract_id'',
     ''invalid_exact_stellar_payload_event_wrong_asset'', ''invalid_exact_stellar_payload_no_transfer_events'',
     ''invalid_exact_stellar_payload_multiple_transfers'', ''invalid_exact_stellar_payload_event_wrong_from'',
     ''invalid_exact_stellar_payload_event_wrong_to'', ''invalid_exact_stellar_payload_event_wrong_amount'',
     ''invalid_exact_stellar_payload_no_auth_entries'',
     ''invalid_exact_stellar_payload_unsupported_credential_type'',
     ''invalid_exact_stellar_payload_facilitator_in_auth'', ''invalid_exact_stellar_signature_expiration_too_far'',
     ''invalid_exact_stellar_payload_has_subinvocations'', ''invalid_exact_stellar_payload_missing_payer_signature'',
     ''invalid_exact_stellar_payload_unexpected_pending_signatures'',
     ''invalid_exact_stellar_payload_authorization_not_signed'']"

definition registered :: "string \<Rightarrow> bool" where
  "registered r \<longleftrightarrow> r \<in> set LOCAL_REASONS \<or> r \<in> set UPSTREAM_REASONS"

section \<open>Exported errors\<close>

record facilitator_error =
  fe_name :: string
  fe_message :: string
  fe_code :: string
  fe_context :: "json option"

datatype error_class = Facilitator_error | Invalid_request_error | Not_found_error | Unauthorized_error | Rate_limit_error
  | Service_unavailable_error

fun class_name :: "error_class \<Rightarrow> string" where
  "class_name Facilitator_error = ''FacilitatorError''"
| "class_name Invalid_request_error = ''InvalidRequestError''"
| "class_name Not_found_error = ''NotFoundError''"
| "class_name Unauthorized_error = ''UnauthorizedError''"
| "class_name Rate_limit_error = ''RateLimitError''"
| "class_name Service_unavailable_error = ''ServiceUnavailableError''"

fun class_code :: "error_class \<Rightarrow> string" where
  "class_code Facilitator_error = ''facilitator_error''"
| "class_code Invalid_request_error = ''invalid_request''"
| "class_code Not_found_error = ''not_found''"
| "class_code Unauthorized_error = ''invalid_api_key''"
| "class_code Rate_limit_error = ''rate_limited''"
| "class_code Service_unavailable_error = ''settlement_store_unavailable''"

definition new_error :: "error_class \<Rightarrow> string \<Rightarrow> json option \<Rightarrow> facilitator_error" where
  "new_error c message ctx = \<lparr>fe_name = class_name c, fe_message = message, fe_code = class_code c, fe_context = ctx\<rparr>"

definition internalError :: "string \<Rightarrow> json option \<Rightarrow> facilitator_error" where
  "internalError message ctx =
     \<lparr>fe_name = ''FacilitatorError'', fe_message = message, fe_code = ''internal_error'', fe_context = ctx\<rparr>"

section \<open>What is registered\<close>

lemma class_codes_distinct: "class_code a = class_code b \<longleftrightarrow> a = b"
  by (cases a; cases b) simp_all

text \<open>Of the exported errors, those of a missing thing and of a store that is down carry unregistered codes.\<close>

lemma class_registered: "registered (class_code c) \<longleftrightarrow> c \<notin> {Not_found_error, Service_unavailable_error}"
  by (cases c) (simp_all add: registered_def LOCAL_REASONS_def UPSTREAM_REASONS_def)

text \<open>
  A refused API key answers a registered reason, but for a key that is revoked or has expired: the
  registry, and the table of reasons in the documentation made of it, do not know these.
\<close>

lemma key_reasons:
  assumes "verifyApiKey sha256 header keys now = Inl e"
  shows "registered e \<longleftrightarrow> e \<notin> {''revoked_api_key'', ''expired_api_key''}"
proof -
  have "e \<in> {''missing_auth_header'', ''malformed_auth_header'', ''invalid_api_key'', ''revoked_api_key'', ''expired_api_key''}"
    using assms by (auto simp: verifyApiKey_def presented_key_def usable_key_def Let_def split: option.splits sum.splits if_splits)
  then show ?thesis by (auto simp: registered_def LOCAL_REASONS_def UPSTREAM_REASONS_def)
qed

text \<open>No reason of the pact scheme is registered.\<close>

lemma pact_reasons_unregistered: "\<not> registered (pact_reason r)"
  by (simp add: registered_def pact_reason_def LOCAL_REASONS_def UPSTREAM_REASONS_def)

text \<open>Of the error handler's reasons only that of an internal error is.\<close>

lemma handler_reasons: "registered (snd (error_status e)) \<longleftrightarrow> snd (error_status e) = ''internal_error''"
  by (auto simp: error_status_def registered_def LOCAL_REASONS_def UPSTREAM_REASONS_def)

end
