(* ===== verification/Migrations.thy ===== *)
theory Migrations
  imports Metrics LogRedaction
begin

text \<open>
  The migration runner (\<open>scripts/db-migrate.js\<close>): which files are pending, the gate before \<open>up\<close>, the seeding
  of the legacy files, and the command line.

  The tracking table is the list of its names in the order of their ids, or nothing while it does not
  exist. The runner of node-pg-migrate is a parameter: what it makes of the table, or its error.
\<close>

section \<open>Files\<close>

definition list_files :: "string \<Rightarrow> string list \<Rightarrow> string list" where
  "list_files ext dir = sort_texts (filter (js_ends_with ext) dir)"

definition listMigrationFiles :: "string list \<Rightarrow> string list" where
  "listMigrationFiles dir = list_files ''.js'' dir"

definition listSqlMigrationFiles :: "string list \<Rightarrow> string list" where
  "listSqlMigrationFiles dir = list_files ''.sql'' dir"

definition stem :: "string \<Rightarrow> string \<Rightarrow> string" where
  "stem ext f = (if js_ends_with ext f then take (length f - length ext) f else f)"

definition LEGACY_MIGRATIONS :: "string list" where
  "LEGACY_MIGRATIONS = [''001_bazaar_catalog'', ''002_idempotency_keys'', ''002_rate_limit_buckets'', ''003_settlement_store'',
     ''004_outbox_events'', ''004_settlement_events'']"

definition findPendingJs :: "string list \<Rightarrow> string list \<Rightarrow> string list" where
  "findPendingJs applied files = filter (\<lambda>f. stem ''.js'' f \<notin> set applied) files"

definition findUntrackedLegacy :: "string list \<Rightarrow> string list \<Rightarrow> string list" where
  "findUntrackedLegacy applied files = filter (\<lambda>f. stem ''.sql'' f \<notin> set applied) files"

section \<open>Commands\<close>

type_synonym tracking = "string list option"

definition tracked :: "tracking \<Rightarrow> string list" where
  "tracked t = nullish_or t []"

definition gateUntrackedLegacy :: "string list \<Rightarrow> tracking \<Rightarrow> string list" where
  "gateUntrackedLegacy dir t = findUntrackedLegacy (tracked t) (listSqlMigrationFiles dir)"

definition seed_row :: "string \<Rightarrow> string list \<Rightarrow> string list" where
  "seed_row name rows = (if name \<in> set rows then rows else rows @ [name])"

definition seedLegacy :: "tracking \<Rightarrow> tracking" where
  "seedLegacy t = Some (fold seed_row LEGACY_MIGRATIONS (tracked t))"

datatype direction = Go_up | Go_down int

record migrate_env =
  mg_url :: "string option"       \<comment> \<open>\<open>DATABASE_URL || POSTGRES_URL\<close>\<close>
  mg_dir :: "string list"
  mg_runner :: "direction \<Rightarrow> tracking \<Rightarrow> string + tracking"
  mg_number :: "string \<Rightarrow> int option"

text \<open>The exit code, and the table afterwards.\<close>

definition runMigration :: "migrate_env \<Rightarrow> direction \<Rightarrow> tracking \<Rightarrow> nat \<times> tracking" where
  "runMigration env d t =
     (if mg_url env = None then (1, t)
      else if d = Go_up \<and> gateUntrackedLegacy (mg_dir env) t \<noteq> [] then (1, t)
      else (case mg_runner env d t of Inl _ \<Rightarrow> (1, t) | Inr t' \<Rightarrow> (0, t')))"

datatype migration_status =
    No_table | No_rows
  | Migration_status "string list" "string list" "string list"   \<comment> \<open>applied, pending and untracked\<close>

definition showStatus :: "string list \<Rightarrow> tracking \<Rightarrow> migration_status" where
  "showStatus dir t =
     (case t of
        None \<Rightarrow> No_table
      | Some rows \<Rightarrow>
          if rows = [] then No_rows
          else Migration_status rows (findPendingJs rows (listMigrationFiles dir)) (findUntrackedLegacy rows (listSqlMigrationFiles dir)))"

definition up_to_date :: "migration_status \<Rightarrow> bool" where
  "up_to_date s \<longleftrightarrow> (case s of Migration_status _ pending untracked \<Rightarrow> pending = [] \<and> untracked = [] | _ \<Rightarrow> False)"

definition migrate_cli :: "migrate_env \<Rightarrow> string list \<Rightarrow> tracking \<Rightarrow> nat \<times> tracking" where
  "migrate_cli env args t =
     (case args of
        [] \<Rightarrow> (1, t)
      | command # rest \<Rightarrow>
          if command = ''up'' then runMigration env Go_up t
          else if command = ''down'' then
            (case (case rest of a # _ \<Rightarrow> if a = [] then Some 1 else mg_number env a | [] \<Rightarrow> Some 1) of
               None \<Rightarrow> (1, t)
             | Some n \<Rightarrow> if n < 1 then (1, t) else runMigration env (Go_down n) t)
          else if command = ''status'' then (if mg_url env = None then (1, t) else (0, t))
          else if command = ''seed-legacy'' then (if mg_url env = None then (1, t) else (0, seedLegacy t))
          else (1, t))"

section \<open>Seeding\<close>

lemma seed_rows:
  "\<exists>new. fold seed_row names rows = rows @ new \<and> set new = set names - set rows \<and> (distinct rows \<longrightarrow> distinct (rows @ new))"
proof (induction names arbitrary: rows)
  case (Cons n names)
  show ?case
  proof (cases "n \<in> set rows")
    case True
    with Cons [of rows] show ?thesis by (auto simp: seed_row_def)
  next
    case False
    from Cons [of "rows @ [n]"] obtain new where n: "fold seed_row names (rows @ [n]) = (rows @ [n]) @ new"
      "set new = set names - set (rows @ [n])" "distinct (rows @ [n]) \<longrightarrow> distinct ((rows @ [n]) @ new)" by blast
    have "fold seed_row (n # names) rows = rows @ (n # new)" using n(1) False by (simp add: seed_row_def)
    moreover have "set (n # new) = set (n # names) - set rows" using n(2) False by auto
    moreover have "distinct rows \<longrightarrow> distinct (rows @ (n # new))" using n(3) False by simp
    ultimately show ?thesis by blast
  qed
qed simp

text \<open>
  Seeding keeps the rows that were there, in their order, adds exactly the legacy names that were
  missing, and a second run changes nothing.
\<close>

lemma seed_adds:
  "\<exists>new. seedLegacy t = Some (tracked t @ new) \<and> set new = set LEGACY_MIGRATIONS - set (tracked t)"
  using seed_rows [of LEGACY_MIGRATIONS "tracked t"] by (auto simp: seedLegacy_def)

lemma fold_seed_known: "set names \<subseteq> set rows \<Longrightarrow> fold seed_row names rows = rows"
  by (induction names) (auto simp: seed_row_def)

lemma seed_idempotent: "seedLegacy (seedLegacy t) = seedLegacy t"
proof -
  obtain new where n: "seedLegacy t = Some (tracked t @ new)" "set new = set LEGACY_MIGRATIONS - set (tracked t)"
    using seed_adds by blast
  have "fold seed_row LEGACY_MIGRATIONS (tracked t @ new) = tracked t @ new"
    by (rule fold_seed_known) (use n(2) in auto)
  then show ?thesis unfolding n(1) by (simp add: seedLegacy_def tracked_def nullish_or_def)
qed

section \<open>The gate\<close>

lemma set_sort_texts: "set (sort_texts xs) = set xs"
proof -
  have ins: "set (insert_text x ys) = insert x (set ys)" for x ys by (induction ys) auto
  show ?thesis unfolding sort_texts_def by (induction xs) (simp_all add: ins)
qed

text \<open>\<open>up\<close> hands nothing to the runner, and leaves the table, while a legacy file is not tracked.\<close>

lemma up_gated:
  assumes "f \<in> set (mg_dir env)" "js_ends_with ''.sql'' f" "stem ''.sql'' f \<notin> set (tracked t)"
  shows "migrate_cli env (''up'' # args) t = (1, t)"
proof -
  have "f \<in> set (gateUntrackedLegacy (mg_dir env) t)"
    using assms by (simp add: gateUntrackedLegacy_def findUntrackedLegacy_def listSqlMigrationFiles_def list_files_def set_sort_texts)
  then have "gateUntrackedLegacy (mg_dir env) t \<noteq> []" by auto
  then show ?thesis by (simp add: migrate_cli_def runMigration_def)
qed

text \<open>After seeding the gate is open exactly when every legacy file on disk has its name in the list.\<close>

lemma seed_opens_gate:
  assumes "\<And>f. f \<in> set dir \<Longrightarrow> js_ends_with ''.sql'' f \<Longrightarrow> stem ''.sql'' f \<in> set LEGACY_MIGRATIONS"
  shows "gateUntrackedLegacy dir (seedLegacy t) = []"
proof -
  obtain new where n: "seedLegacy t = Some (tracked t @ new)" "set new = set LEGACY_MIGRATIONS - set (tracked t)"
    using seed_adds by blast
  then have "set LEGACY_MIGRATIONS \<subseteq> set (tracked (seedLegacy t))" by (auto simp: tracked_def nullish_or_def)
  with assms show ?thesis
    by (auto simp: gateUntrackedLegacy_def findUntrackedLegacy_def listSqlMigrationFiles_def list_files_def set_sort_texts filter_empty_conv)
qed

text \<open>
  Names are compared without their extension, and two of the legacy files share their stem with a file
  of the runner. So seeding an empty database, which is what the gate's message advises, also marks those
  two as applied: they are pending no longer, though no statement of theirs was ever run.
\<close>

definition migrations_dir :: "string list" where
  "migrations_dir = [''001_bazaar_catalog.js'', ''001_bazaar_catalog.sql'', ''002_idempotency_keys.js'', ''002_idempotency_keys.sql'',
     ''002_rate_limit_buckets.sql'', ''003_rate_limit_buckets.js'', ''003_settlement_store.sql'', ''004_outbox_events.sql'',
     ''004_sample_expand_add_access_tier.js'', ''004_settlement_events.sql'', ''005_sample_contract_drop_access_tier.js'',
     ''006_catalog_resources.js'', ''007_dead_letters.js'']"

lemma seeded_never_pending:
  "''001_bazaar_catalog.js'' \<notin> set (findPendingJs (tracked (seedLegacy None)) (listMigrationFiles dir))"
  "''002_idempotency_keys.js'' \<notin> set (findPendingJs (tracked (seedLegacy None)) (listMigrationFiles dir))"
proof -
  have "set LEGACY_MIGRATIONS \<subseteq> set (tracked (seedLegacy None))"
    using seed_adds [of None] by (auto simp: tracked_def nullish_or_def)
  moreover have "{''001_bazaar_catalog'', ''002_idempotency_keys''} \<subseteq> set LEGACY_MIGRATIONS" by (simp add: LEGACY_MIGRATIONS_def)
  moreover have "stem ''.js'' ''001_bazaar_catalog.js'' = ''001_bazaar_catalog''" "stem ''.js'' ''002_idempotency_keys.js'' = ''002_idempotency_keys''"
    by (simp_all add: stem_def js_ends_with_def)
  ultimately show "''001_bazaar_catalog.js'' \<notin> set (findPendingJs (tracked (seedLegacy None)) (listMigrationFiles dir))"
    "''002_idempotency_keys.js'' \<notin> set (findPendingJs (tracked (seedLegacy None)) (listMigrationFiles dir))"
    by (auto simp: findPendingJs_def)
qed

text \<open>With the files of the repository seeding does open the gate.\<close>

lemma repository_gate_opens: "gateUntrackedLegacy migrations_dir (seedLegacy t) = []"
  by (rule seed_opens_gate) (auto simp: migrations_dir_def js_ends_with_def stem_def LEGACY_MIGRATIONS_def)

end
