(* ===== verification/Spec2Isabelle.thy ===== *)
theory Spec2Isabelle
  imports CatalogExamples EdgeExamples DiscoveryFacts ExtensionHeader PactScheme McpPrompts McpResources McpSandbox MtlsProvider AuthHttp AssetDecimals Cors Readiness SellerSdk FeeEstimator Vault Metrics ConfigurationFacts RetentionFacts FacilitatorKeys Startup ExternalProbe RequestLog RedisConnection Telemetry Reasons Migrations
begin

text \<open>
  A verification development of the x402 facilitator for Stellar.

  The program is a JavaScript service (\<open>src/\<close>) that verifies and settles HTTP payments on Stellar for
  sellers, keeps a record of every settlement, tells receivers about them, and runs a catalog of paid
  resources. Beside it stand an SDK for sellers (\<open>src/sdk/\<close>), an MCP server through which an agent
  searches the catalog and pays (\<open>src/mcp/\<close>), a retention job (\<open>scripts/\<close>) and an external probe
  (\<open>monitoring/\<close>). This theory imports all others; it holds the properties that matter most, among
  them those that span components, and after each the lemma that applies it at a concrete input.

  \<^bold>\<open>How the parts interact.\<close> A request passes the hooks of the application, the resolution of the client's
  address, authentication, the checks of its body and the rate limiter, and reaches a route. Settling
  takes the lock of its key, asks the idempotency store and the settlement store what is on file, calls
  the facilitator's scheme with a signing key, and records the outcome; in one transaction with that
  record it writes an event into the outbox. The outbox worker claims rows under a lease and publishes
  them by webhook; what cannot be delivered goes to the dead-letter queue, whose own worker retries.
  Outcomes that stayed unknown are resolved by reconciliation. The event log is folded into projections
  and, separately, into a read model. A verified or settled payment also catalogues the seller's resource.

  \<^bold>\<open>Where the parts are.\<close>
  \<^item> Values of the language, containers, text and numbers: \<open>JsPrelude\<close>, \<open>JsText\<close>, \<open>JsonText\<close>, \<open>PercentText\<close>.
  \<^item> Settlements: \<open>SettlementEvents\<close> (\<open>eventstore/\<close>), \<open>SettlementStore\<close> (\<open>store/memory.js\<close> and the contract of
    a store), \<open>PgSettlementStore\<close> (\<open>store/postgres.js\<close>), \<open>Reconciliation\<close>, \<open>Cqrs\<close> (\<open>settlement-cqrs.js\<close> and the
    projection worker), \<open>Idempotency\<close>, \<open>DistributedLock\<close>.
  \<^item> The payment routes of \<open>app.js\<close>: \<open>SettleRoute\<close> (the handlers), \<open>SettleServices\<close> (their services on the
    stores of the program), \<open>SettleRouteFacts\<close> (one request), \<open>SettleRuns\<close> (any sequence of requests and of
    attempts that end late). The rest of \<open>app.js\<close>: \<open>AppEdge\<close> and \<open>DiscoveryRoutes\<close>.
  \<^item> The edge: \<open>RequestGate\<close>, \<open>AuthHttp\<close>, \<open>TrustProxy\<close>, \<open>Cors\<close>, \<open>RateLimitStores\<close>, \<open>RateLimiter\<close>, \<open>RedisLimiter\<close>.
  \<^item> Delivery: \<open>LeaseQueue\<close> (the contract of a queue with leases), \<open>Outbox\<close>, \<open>OutboxWorker\<close>, \<open>DeadLetters\<close>,
    \<open>DeadLetterFacts\<close>, \<open>WebhookDelivery\<close>, \<open>MtlsProvider\<close>.
  \<^item> The network and its keys: \<open>RpcRetry\<close>, \<open>FeeEstimator\<close>, \<open>AssetDecimals\<close>, \<open>KeyManager\<close>, \<open>MultiSigner\<close>,
    \<open>FacilitatorKeys\<close> (\<open>facilitator.js\<close>), \<open>PactScheme\<close>, \<open>FailoverHealth\<close>, \<open>Vault\<close>.
  \<^item> The catalog: \<open>Catalog\<close>, \<open>CatalogFacts\<close>, \<open>CatalogSearch\<close>, \<open>SearchFacts\<close>, \<open>CatalogCache\<close>, \<open>CacheFacts\<close>,
    \<open>Embeddings\<close>, \<open>PgCatalog\<close>, \<open>CatalogValidation\<close>, \<open>ExtensionHeader\<close>, \<open>DiscoveryFacts\<close>.
  \<^item> Operation: \<open>Configuration\<close>, \<open>ConfigurationFacts\<close>, \<open>Startup\<close>, \<open>Readiness\<close>, \<open>Metrics\<close>, \<open>LogRedaction\<close>,
    \<open>RequestLog\<close>, \<open>ExternalProbe\<close>, \<open>DataRetention\<close>, \<open>RetentionFacts\<close>.
  \<^item> The SDK: \<open>SellerSdk\<close>, \<open>Sep7\<close>, \<open>Sep7Facts\<close>. The agent's side: \<open>McpText\<close>, \<open>McpServer\<close>, \<open>McpWallet\<close>,
    \<open>McpPrompts\<close>, \<open>McpResources\<close>, \<open>McpSandbox\<close>.
  \<^item> Concrete inputs: \<open>Examples\<close>, \<open>CatalogExamples\<close>, \<open>EdgeExamples\<close>.

  \<^bold>\<open>How the code is modelled.\<close> A definition bears the name of its function or method. Objects are records,
  tags are datatypes, a dictionary whose order of insertion can be seen is an association list
  (\<open>jsmap\<close>), a value that came in as JSON is a \<open>json\<close>. A method takes the state of its object and returns
  it. An error is a value of a sum or an option type, so each \<open>throw\<close> and early return is a branch. What
  other code answers (a database's failures, the nodes of the network, a clock, a random draw, a digest,
  a library) is a parameter, usually a field of an environment record. Where calls overlap, an
  asynchronous method is cut at its \<open>await\<close>s and the theorems quantify over the interleavings: the
  search cache, the key sets, the credential cache, the lock, the breaker, the write queue of the MCP
  server, the wallet. Whole numbers stand for the integers that JavaScript holds in its numbers; none
  that is computed here comes near 2 to the 53. Real numbers stand for scores and weights.

  \<^bold>\<open>What the groups of lemmas show.\<close> Money: at most one attempt per key and caller is both sent and ends
  confirmed or unknown; a success is on record before it is answered; unknown outcomes are never sent
  again, and are resolved as the network says (C1 to C6, C11). Records: the projections are the fold of
  the log, rebuilding changes nothing, the read model follows (C7 to C10). Delivery: no notification is
  lost, no two workers hold one row, the dead-letter rows keep their invariant (C12 to C14). Limits and
  identity: ceilings hold over any run, an idempotency key is granted once, the client's address is the
  first one no trusted proxy vouches for (C15 to C19). Catalog: bounds, the life of a listing, complete
  pagination, freshness of the cache, survival of a restart. Keys and calls: exclusion of the lock, leased
  keys survive, the breaker's invariant, genuine answers, sound envelopes. The edge of the service: the
  configuration, callers, pact payments, the wallet, payment URIs, webhooks, readiness, redaction and
  retention. Lemmas about behaviour that looks unintended say so in the text before them.

  \<^bold>\<open>Interfaces.\<close> The locales state what a client relies on: \<open>settlement_store\<close> and \<open>idempotency_store\<close> (both
  interpreted on the memory and the Postgres store), \<open>settle_services\<close> (what the route needs of its
  stores), \<open>reconcilable_store\<close>, \<open>lease_queue\<close> (outbox and dead letters), \<open>bucket_store\<close> (the stores of the
  limiter), \<open>catalog_store\<close> and \<open>word_pattern\<close> (a pattern of the log redaction).

  \<^bold>\<open>Loops.\<close> Retries, polls and waits are recursions over a count that the code bounds itself (attempts,
  seconds, replies read), so no fuel is chosen. The batches of the retention job may not end: they are a
  partial function, and that they end, or do not, is proved. A lock or a breaker is a transition
  relation with the properties of its reachable states.

  \<^bold>\<open>Not modelled.\<close> Third-party code: the Stellar SDK, the x402 packages, Fastify, the database drivers,
  Kafka, Redis and Redlock, JOSE, OpenTelemetry, digests and the URL parser; they are parameters.
  \<open>tracing.js\<close> and \<open>redis-client.js\<close> only configure such packages. \<open>errors.js\<close> and \<open>reasons.js\<close> are tables of text,
  \<open>catalog/interface.js\<close> is an abstract class, \<open>sdk/cli.js\<close> prints what the modelled validation answers.
  The migrations, and the scripts that build, test, benchmark or check the repository, are not part of
  the running program. SQL is modelled by what a statement does to its table, not as text; sockets,
  timers and the garbage collector are left out.
\<close>

section \<open>Settling a payment\<close>



text \<open>
  C2. A request nothing on file answers, whose settlement succeeds, is sent to the facilitator and
  leaves the settlement on record as settled, with the facilitator's answer, as the caller's own,
  and the same answer under its idempotency key.
\<close>

theorem success_on_record:
  fixes ops :: "'l rl_ops"
  assumes "pgh_ok (w_store w)" "ip_uses_db (w_idem w)" "\<not> idp_held (w_idem w) (replay_key env req)"
    "unanswered pgh_get env req (w_store w)"
    "passes (pg_services m cfg ops clk uuid now) env req w (pl, reqs) (check, l)"
    "st_success res" "js_truthy (st_json res)"
    "settle_route (pg_services m cfg ops clk uuid now) env req (Finished res) submitted serr w = ((called, a), w')"
  shows "called
    \<and> (\<exists>q. pgh_get (w_store w') (store_key env req) = Some q \<and> state q = St_settled \<and> key_id q = sr_keyId req
         \<and> response q = Some (st_json res))
    \<and> idp_answer (w_idem w') (replay_key env req) = Some (200, st_json res)"
  using pg_route.first_success [OF _ assms(5-8)] assms(1-4)
  by (auto simp: pg_route.fresh_for_def pg_route.wok_def)

lemma success_on_record_witness:
  "idp_answer (w_idem (snd (settle_route ex_pg_services ex_env ex_req (Finished ex_result) True ex_error ex_world)))
     (replay_key ex_env ex_req) = Some (200, JObj [])"
proof -
  obtain c l where ps: "passes ex_pg_services ex_env ex_req ex_world (ex_payload, ex_reqs) (c, l)" using ex_passes by blast
  obtain called a w' where r: "settle_route ex_pg_services ex_env ex_req (Finished ex_result) True ex_error ex_world = ((called, a), w')"
    using ex_route by blast
  from success_on_record [OF ex_store ex_unanswered ps _ _ r] r show ?thesis by (simp add: ex_result_def)
qed



text \<open>
  C4. A request whose attempt fails in a way not classed as outcome-unknown leaves its settlement
  \<open>failed\<close> with that reason and gives its idempotency claim back; when the reason is a retryable
  one, the same request may settle again.
\<close>

theorem failure_releases_claim:
  assumes "pgh_ok (w_store w)" "ip_uses_db (w_idem w)" "\<not> idp_held (w_idem w) (replay_key env req)"
    "unanswered pgh_get env req (w_store w)"
    "passes (pg_services m cfg ops clk uuid now) env req w (pl, reqs) (check, l)"
    "att = Threw err \<or> att = Timed_out \<and> \<not> submitted \<and> err = timeout_error False"
    "error_reason_of err submitted \<noteq> ''submitted_outcome_unknown''"
    "settle_route (pg_services m cfg ops clk uuid now) env req att submitted serr w = ((called, a), w')"
  shows "called \<and> \<not> idp_held (w_idem w') (replay_key env req)
    \<and> (\<exists>q. pgh_get (w_store w') (store_key env req) = Some q \<and> state q = St_failed
         \<and> error_reason q = Some (error_reason_of err submitted))
    \<and> (error_reason_of err submitted \<in> set RETRYABLE_REASONS \<longrightarrow> unanswered pgh_get env req (w_store w'))"
  using pg_route.first_failure [OF _ assms(5-8)] assms(1-4)
    retryable_unanswered [of pgh_get "w_store w'" env req _ "error_reason_of err submitted"]
  by (auto simp: pg_route.fresh_for_def pg_route.wok_def)

lemma failure_releases_claim_witness:
  "\<not> idp_held (w_idem (snd (settle_route ex_pg_services ex_env ex_req Timed_out False ex_error ex_world))) (replay_key ex_env ex_req)"
proof -
  obtain c l where ps: "passes ex_pg_services ex_env ex_req ex_world (ex_payload, ex_reqs) (c, l)" using ex_passes by blast
  obtain called a w' where r: "settle_route ex_pg_services ex_env ex_req Timed_out False ex_error ex_world = ((called, a), w')"
    using ex_route by blast
  from failure_releases_claim [OF ex_store ex_unanswered ps _ _ r, of "timeout_error False"] r show ?thesis
    by (simp add: error_reason_of_def timeout_error_def)
qed

text \<open>
  C5. The handler releases its claim although money may still move. An attempt that had broadcast
  its transaction and then met an open RPC circuit breaker is marked failed, and an attempt the
  time limit cuts off before the broadcast is too, although it runs on: in both cases the claim is
  released and nothing on file stops the same request from settling again.
\<close>

theorem live_attempt_released:
  assumes "pgh_ok (w_store w)" "ip_uses_db (w_idem w)" "\<not> idp_held (w_idem w) (replay_key env req)"
    "unanswered pgh_get env req (w_store w)"
    "passes (pg_services m cfg ops clk uuid now) env req w (pl, reqs) (check, l)"
    "(\<exists>err. att = Threw err \<and> submitted \<and> er_code err = Some ''RPC_BREAKER_OPEN'' \<and> er_name err \<noteq> Some ''LockAcquireTimeoutError'')
     \<or> att = Timed_out \<and> \<not> submitted"
    "settle_route (pg_services m cfg ops clk uuid now) env req att submitted serr w = ((called, a), w')"
  shows "called \<and> map_option state (pgh_get (w_store w') (store_key env req)) = Some St_failed
    \<and> \<not> idp_held (w_idem w') (replay_key env req) \<and> unanswered pgh_get env req (w_store w')"
proof -
  obtain err where err: "att = Threw err \<or> att = Timed_out \<and> \<not> submitted \<and> err = timeout_error False"
    "error_reason_of err submitted \<in> {''soroban_rpc_unreachable'', ''request_timeout''}"
  proof (cases att)
    case (Threw err)
    with assms(6) that show thesis by (auto simp: error_reason_of_def)
  next
    case Timed_out
    with assms(6) that [of "timeout_error False"] show thesis by (auto simp: error_reason_of_def timeout_error_def)
  qed (use assms(6) in auto)
  have reason: "error_reason_of err submitted \<noteq> ''submitted_outcome_unknown''" "error_reason_of err submitted \<in> set RETRYABLE_REASONS"
    using err(2) by (auto simp: RETRYABLE_REASONS_def)
  from pg_route.first_failure [OF _ assms(5) err(1) reason(1) assms(7)] assms(1-4)
  obtain q where q: "called" "\<not> idp_held (w_idem w') (replay_key env req)" "pgh_get (w_store w') (store_key env req) = Some q"
    "state q = St_failed" "error_reason q = Some (error_reason_of err submitted)"
    by (auto simp: pg_route.fresh_for_def pg_route.wok_def)
  from retryable_unanswered [where get = pgh_get, OF q(3-5) reason(2)] q show ?thesis by simp
qed

lemma live_attempt_released_witness:
  "\<not> idp_held (w_idem (snd (settle_route ex_pg_services ex_env ex_req (Threw ex_breaker_open) True ex_error ex_world)))
     (replay_key ex_env ex_req)"
proof -
  obtain c l where ps: "passes ex_pg_services ex_env ex_req ex_world (ex_payload, ex_reqs) (c, l)" using ex_passes by blast
  obtain called a w' where r: "settle_route ex_pg_services ex_env ex_req (Threw ex_breaker_open) True ex_error ex_world = ((called, a), w')"
    using ex_route by blast
  from live_attempt_released [OF ex_store ex_unanswered ps _ r] r show ?thesis by (simp add: ex_breaker_open_def)
qed

text \<open>
  C6. Idempotency keys are not scoped to the caller. Once a request with an \<open>Idempotency-Key\<close>
  header has its answer recorded, another caller's request with the same header is answered with
  that recorded response and is never settled, whatever it pays for.
\<close>

theorem replayed_across_callers:
  assumes "pgh_ok (w_store w)" "ip_uses_db (w_idem w)" "idp_answer (w_idem w) (replay_key env req) = Some (code, r)"
    "sr_idem_header req = Some h" "sr_idem_header other = Some h" "h \<noteq> []"
    "unanswered pgh_get env other (w_store w)"
    "passes (pg_services m cfg ops clk uuid now) env other w (pl, reqs) (check, l)"
    "settle_route (pg_services m cfg ops clk uuid now) env other att submitted serr w = ((called, a), w')"
  shows "\<not> called \<and> an_body a = B_replay (Some r)"
proof -
  let ?sv = "pg_services m cfg ops clk uuid now"
  have rd: "sv_get ?sv (store_key env other) (w_store w) = (pgh_get (w_store w) (store_key env other), w_store w)"
    using pg_route.reads [OF assms(1)] .
  have nofile: "(case pgh_get (w_store w) (store_key env other) of None \<Rightarrow> None | Some q \<Rightarrow> answer_on_file env other q) = None"
    using assms(7) by (auto simp: unanswered_def split: option.splits)
  obtain b s2 where sv: "sv_save ?sv (submitted_record env other pl reqs) (w_store w) = (b, s2)" by (metis surj_pair)
  then have b: b using pg_route.saves [OF assms(1)] by blast
  have "sv_begin ?sv (replay_key env other) (w_idem w) = (Replayed code (Some r), snd (idp_begin Idb_ok (replay_key env other) (w_idem w)))"
    using idp.begin_replays [OF assms(2)] assms(3) replay_key_header [OF assms(4,5,6)]
    by (simp add: pg_services_def prod_eq_iff)
  moreover have "sv_save ?sv (submitted_record env other pl reqs) (w_store w) = (True, s2)" using sv b by simp
  ultimately obtain an v where "settle_route ?sv env other att submitted serr w = ((False, an), v)" "an_body an = B_replay (Some r)"
    using settle_route_held [OF assms(8) rd nofile _ pg_route.with_idempotency] by fast
  with assms(9) show ?thesis by simp
qed

lemma replayed_across_callers_witness:
  "an_body (snd (fst (settle_route ex_pg_services ex_env ex_other (Finished ex_result) True ex_error ex_answered_world))) = B_replay (Some (JObj []))"
proof -
  obtain c l where ps: "passes ex_pg_services ex_env ex_other ex_answered_world (ex_payload, ex_reqs) (c, l)"
    using ex_other_passes by blast
  obtain called a w' where r: "settle_route ex_pg_services ex_env ex_other (Finished ex_result) True ex_error ex_answered_world = ((called, a), w')"
    using ex_route by blast
  from replayed_across_callers [OF ex_answered(1-3) _ _ _ ex_answered(4) ps r, of "''k''"] r show ?thesis
    by (simp add: ex_req_def ex_other_def)
qed

section \<open>The settlement store\<close>

text \<open>
  C7. Settling and enqueueing the notification are one act. Whatever happens to the transaction,
  the database either is as it was or holds both the settled record and the outbox row of its
  notification; and an answer that says the notification was enqueued for a record is given only
  when the database holds both.
\<close>

theorem settle_and_enqueue_atomic:
  "case pg_settleAndEnqueue out dbnow k d (Some ev) eventId uuid now st of
      (Inr (True, Some p, resolved), st') \<Rightarrow> settled_and_queued k (nullish_or (nullish eventId (nt_id ev)) uuid) (pg_db st')
    | (r, st') \<Rightarrow> pg_db st' = pg_db st \<or> settled_and_queued k (nullish_or (nullish eventId (nt_id ev)) uuid) (pg_db st')"
  using settle_all_or_nothing [of out dbnow k d ev eventId uuid now st]
    settle_answer_backed [of out dbnow k d ev eventId uuid now st]
  by (auto split: prod.splits sum.splits option.splits bool.splits)



text \<open>
  Rebuilding a settlement's row from its log, when the log can be read, changes nothing in the
  store, and answers with the row.
\<close>

lemma rebuild_changes_nothing:
  assumes "pgh_ok st"
  shows "pg_rebuildProjection True Db_ok k st = (proj_get (pg_db st) k, st)"
  using assms rebuild_noop by (simp add: pgh_ok_def)

section \<open>The settlement read model\<close>

text \<open>
  C9. What the projector writes is the fold of the log: once a batch that reads an event of an owned
  settlement is through, its row agrees with the projection of all its events in the columns the
  writer keeps up to date, and is that projection where there was no row.
\<close>

theorem projected_row_is_fold:
  assumes "db_ok db" "\<not> ce_read_fails env" "\<not> ce_fetch_fails env k" "\<not> ce_write_fails env k"
    "(k, e) \<in> set (readBatch (cq_offset st) n db)" "projectSettlement (key_events db k) = Some p" "key_id p \<noteq> None"
  shows "\<exists>r m. jm_get (cq_rm (snd (processBatch env n db st))) k = Some (r, m) \<and> live_columns r = live_columns p
    \<and> (jm_get (cq_rm st) k = None \<longrightarrow> r = p)"
proof -
  obtain es where "jm_get (group_events (readBatch (cq_offset st) n db) []) k = Some es"
    using assms(5) group_events_key [of k "readBatch (cq_offset st) n db"] by (force simp: map_of_eq_None_iff)
  with processBatch_rows [OF assms(1,2), of n st k] row_after_live [OF assms(6,7,3,4), of es "jm_get (cq_rm st) k"]
  show ?thesis by simp
qed

lemma projected_row_is_fold_witness:
  "\<exists>r m. jm_get (cq_rm (snd (processBatch calm 100 ex_log1 ex_reader))) ''a'' = Some (r, m) \<and> state r = St_submitted"
proof -
  obtain p where p: "projectSettlement (key_events ex_log1 ''a'') = Some p" "key_id p = Some ''A''" "state p = St_submitted"
    using ex_log1_row by blast
  obtain e where "(''a'', e) \<in> set (readBatch (cq_offset ex_reader) 100 ex_log1)" using ex_log1_batch by blast
  from projected_row_is_fold [OF ex_logs_ok(1) _ _ _ this p(1), of calm] p show ?thesis
    by (auto simp: calm_def live_columns_def)
qed

text \<open>
  C10. The projector never sees a late settlement. Sequence numbers count within one settlement, but
  the checkpoint compares them across all: a settlement whose events never number more than the
  checkpoint has reached is never written to the read model, whatever batches run.
\<close>

theorem late_settlement_never_projected:
  assumes "\<forall>(env, db) \<in> set xs. db_ok db \<and> length (key_events db k) \<le> cq_offset st"
  shows "jm_get (cq_rm (cq_run n xs st)) k = jm_get (cq_rm st) k"
proof (rule cq_run_other)
  show "\<forall>(env, db) \<in> set xs. db_ok db \<and> (\<forall>e \<in> set (key_events db k). seq e \<le> cq_offset st)"
    using assms seq_le_length by fastforce
qed

lemma late_settlement_never_projected_witness:
  "jm_get (proj_table ex_log2) ''b'' \<noteq> None
    \<and> jm_get (cq_rm (cq_run 100 [(calm, ex_log2), (calm, ex_log2)] (snd (processBatch calm 100 ex_log1 ex_reader)))) ''b'' = None"
  using late_settlement_never_projected [of "[(calm, ex_log2), (calm, ex_log2)]" "''b''" "snd (processBatch calm 100 ex_log1 ex_reader)" 100]
    ex_logs_ok ex_log2_late by simp

text \<open>
  C11. A sweep over the Postgres store resolves every settlement on record exactly as the network
  says: an unknown one whose transaction succeeded becomes settled, one whose transaction failed
  becomes failed with \<open>transaction_failed\<close>, any other stays, and a settlement that is not unknown is
  untouched; it reports as many as it moved.
\<close>

theorem sweep_resolves_unknown:
  assumes "pgh_ok s" "pgh_get s k = Some p"
    "reconcileUnknownSettlements (pgh_ops uuid now) perNetwork call s = (n, s')"
  shows "(if state p = St_unknown then resolved_as perNetwork call p (pgh_get s' k) else pgh_get s' k = Some p)
    \<and> n = length (filter (\<lambda>q. verdict perNetwork call q \<noteq> None) (op_listUnknown (pgh_ops uuid now) s)) \<and> pgh_ok s'"
  using pg_sweep.sweep_resolves [OF assms] by blast

lemma sweep_resolves_unknown_witness:
  "\<exists>p. pgh_get ex_unknown ''k'' = Some p \<and> resolved_as (\<lambda>_. Some ''rpc'') (\<lambda>_ _. Some (Some ''SUCCESS'')) p
     (pgh_get (snd (reconcileUnknownSettlements (pgh_ops (\<lambda>k. k) 5) (\<lambda>_. Some ''rpc'') (\<lambda>_ _. Some (Some ''SUCCESS'')) ex_unknown)) ''k'')"
proof -
  obtain p where p: "pgh_get ex_unknown ''k'' = Some p" "state p = St_unknown" using ex_unknown_ok(2) by blast
  obtain n s' where r: "reconcileUnknownSettlements (pgh_ops (\<lambda>k. k) 5) (\<lambda>_. Some ''rpc'') (\<lambda>_ _. Some (Some ''SUCCESS'')) ex_unknown = (n, s')"
    by (metis surj_pair)
  from sweep_resolves_unknown [OF ex_unknown_ok(1) p(1) r] p r show ?thesis by simp
qed

section \<open>Notifications\<close>

text \<open>
  C12. No notification is lost in the outbox. After a worker cycle, whatever fails in it short of
  the dead-letter insert, every row that was waiting is still there, with its event and payload,
  and is either waiting still, or published and then taken by the bus, or failed and in the
  dead-letter queue under its event id.
\<close>

theorem outbox_cycle_loses_nothing:
  assumes "ob_ok m ob" "\<not> claim_fails" "ob_get i ob = Some r" "ob_status r \<in> {Ob_pending, Ob_claimed}"
    "\<forall>j. \<not> dlq_insert_fails env j"
    "pollOutboxOnce env m locked n lease claim_fails now pa (ob, Some q) = (cy, ob', dq')"
  shows "ob_ok m ob' \<and> (\<exists>r'. ob_get i ob' = Some r' \<and> accounted env pa r r' dq')"
  using pollOutboxOnce_ok [OF assms(6)] pollOutboxOnce_accounted [OF assms] assms(1) by simp

lemma outbox_cycle_loses_nothing_witness:
  "\<exists>cy ob' dq' r r'. pollOutboxOnce ex_bus_down 1 {} 10 60000 False 5 ''now'' (ex_outbox, Some empty_dlq) = (cy, ob', dq')
     \<and> ob_get 1 ex_outbox = Some r \<and> ob_get 1 ob' = Some r' \<and> accounted ex_bus_down ''now'' r r' dq'"
proof -
  obtain r where r: "ob_get 1 ex_outbox = Some r" "ob_status r = Ob_pending" using ex_outbox_ok(2) by blast
  obtain cy ob' dq' where p: "pollOutboxOnce ex_bus_down 1 {} 10 60000 False 5 ''now'' (ex_outbox, Some empty_dlq) = (cy, ob', dq')"
    by (metis surj_pair)
  have "\<forall>j. \<not> dlq_insert_fails ex_bus_down j" "ob_status r \<in> {Ob_pending, Ob_claimed}" by (simp_all add: ex_bus_down_def r(2))
  with outbox_cycle_loses_nothing [OF ex_outbox_ok(1) [OF zero_less_one] _ r(1) _ _ p] r(1) p show ?thesis by blast
qed

text \<open>
  C13. Two workers never deliver the same row at once: the rows a second worker claims within the
  lease of a first are disjoint from those the first claimed, in the outbox, also when a delivery
  is recorded in between, and in the dead-letter queue.
\<close>

theorem claims_exclusive:
  assumes "claimBatch l1 n1 lease t1 s = (rs1, s1)" "claimBatch l2 n2 lease t2 (markPublished i t s1) = (rs2, s2)"
    "claimDue l3 n3 lease t1 q = (ds1, q1)" "claimDue l4 n4 lease t2 (markResolved j t q1) = (ds2, q2)" "t2 \<le> t1 + lease"
  shows "ob_id ` set rs1 \<inter> ob_id ` set rs2 = {} \<and> dl_id ` set ds1 \<inter> dl_id ` set ds2 = {}
    \<and> i \<notin> ob_id ` set rs2 \<and> j \<notin> dl_id ` set ds2"
  using outbox_q.claims_disjoint_complete [OF assms(1,2,5)] dlq_q.claims_disjoint_complete [OF assms(3,4,5)]
    outbox_q.completed_not_claimed [OF assms(2)] dlq_q.completed_not_claimed [OF assms(4)] by blast

lemma claims_exclusive_witness:
  "\<exists>rs1 s1 rs2 s2. claimBatch {} 10 60000 5 ex_outbox = (rs1, s1) \<and> claimBatch {} 10 60000 6 (markPublished 9 6 s1) = (rs2, s2)
     \<and> ob_id ` set rs1 \<inter> ob_id ` set rs2 = {}"
proof -
  obtain rs1 s1 where a: "claimBatch {} 10 60000 5 ex_outbox = (rs1, s1)" by (metis surj_pair)
  obtain rs2 s2 where b: "claimBatch {} 10 60000 6 (markPublished 9 6 s1) = (rs2, s2)" by (metis surj_pair)
  obtain ds1 q1 where c: "claimDue {} 10 60000 5 ex_dlq = (ds1, q1)" by (metis surj_pair)
  obtain ds2 q2 where d: "claimDue {} 10 60000 6 (markResolved 9 6 q1) = (ds2, q2)" by (metis surj_pair)
  from claims_exclusive [OF a b c d] a b show ?thesis by simp
qed

text \<open>
  C14. A dead-letter cycle touches only what is due. A row that is resolved, exhausted, discarded,
  or not yet due is exactly as it was after any cycle; the table keeps its invariant (a row within
  its attempts is pending, one beyond them exhausted); and of the rows a cycle claimed, each is
  counted as resolved or failed.
\<close>

theorem dead_letter_cycle:
  assumes "dl_ok (maxDlqAttempts opts) q" "dl_get i q = Some r" "dl_status r \<noteq> Dl_pending \<or> now < dl_next_retry_at r"
    "pollDlqOnce env opts locked n lease cf df now q = (Inr cy, q')"
  shows "dl_get i q' = Some r \<and> dl_ok (maxDlqAttempts opts) q' \<and> cy_resolved cy + cy_failed cy = cy_claimed cy"
proof -
  have d: "distinct (map dl_id (dl_rows q))" using assms(1) by (simp add: dl_ok_def)
  have "i \<notin> dl_due q lease now"
    using not_due [OF d assms(2)] assms(3) by (auto simp: dl_claimable_def)
  from pollDlqOnce_not_due [OF this assms(4)] pollDlqOnce_ok [OF assms(1,4)] pollDlqOnce_count [OF assms(4)] assms(2)
  show ?thesis by simp
qed

lemma dead_letter_cycle_witness:
  "\<exists>cy q' r. pollDlqOnce ex_dlq_env default_retry_options {} 10 60000 False False 5 ex_dlq = (Inr cy, q')
     \<and> dl_get 1 ex_dlq = Some r \<and> dl_get 1 q' = Some r"
proof -
  obtain r where r: "dl_get 1 ex_dlq = Some r" "dl_next_retry_at r = 10" using ex_dlq_ok(2) by blast
  have "\<exists>cy q'. pollDlqOnce ex_dlq_env default_retry_options {} 10 60000 False False 5 ex_dlq = (Inr cy, q')"
    by (simp add: pollDlqOnce_def claimDue_def ex_dlq_def dl_insert_def empty_dlq_def pick_ids_def dl_claimable_def js_sort_by_def
        touch_rows_def returned_rows_def Let_def)
  then obtain cy q' where p: "pollDlqOnce ex_dlq_env default_retry_options {} 10 60000 False False 5 ex_dlq = (Inr cy, q')" by blast
  from dead_letter_cycle [OF _ r(1) _ p] ex_dlq_ok(1) r(1,2) p show ?thesis by (auto simp: default_retry_options_def)
qed

section \<open>Rate limiting\<close>





text \<open>
  The limiter fails closed: when the store's reads do not answer, no verification and no
  settlement is let through, unless its address is on the allowlist, and the refusal says why.
\<close>

lemma limiter_fails_closed:
  assumes "unreadable ops" "no_bypass m cfg req"
  shows "refused_unavailable (fst (fst (checkVerify m cfg ops req now st)))
    \<and> refused_unavailable (fst (fst (checkSettle m cfg ops req net clk st)))"
  unfolding checkVerify_def using assms unreadable_single unreadable_settle by (metis no_bypass_def)

text \<open>
  No two callers, kinds, window lengths or windows share a bucket: the identifiers are
  injective, for every owner string, also one with colons in it.
\<close>

lemma bucket_ids_distinct:
  assumes "getBucketId o1 t1 w1 n1 = getBucketId o2 t2 w2 n2" "t1 \<in> {''verify'', ''settle'', ''fee'', ''catalog'', ''catalog_read''}"
    "t2 \<in> {''verify'', ''settle'', ''fee'', ''catalog'', ''catalog_read''}"
  shows "o1 = o2 \<and> t1 = t2 \<and> w1 = w2 \<and> window_start n1 w1 = window_start n2 w2"
  using assms(2,3) by (intro bucket_id_inj [OF assms(1)]) auto

text \<open>
  No increment is lost. Whatever increments and sweeps any number of processes make on the
  shared table within a bucket's window, in whatever order, the bucket counts what it held plus
  every amount added to it.
\<close>

lemma increments_add_up:
  assumes "jm_wf tbl" "bucket_coherent bucket_view resets tbl" "in_window resets i xs" "now < resets i"
  shows "count_at now (bucket_view (bucket_run rlp_increment rlp_sweep resets xs tbl) i) = count_at now (bucket_view tbl i) + total i xs"
  using rlp.run_total [OF assms(1) _ assms(2-4)] by simp

text \<open>
  The shared table of the multi-region store only moves forward: through any synchronisation
  of any region, a bucket's row keeps its window or moves to a later one, and within a window its
  count does not fall.
\<close>

lemma sync_only_forward: "row_le (jm_get tbl j) (jm_get (snd (crdt_sync answers now st tbl)) j)"
  by (rule crdt_sync_le)

text \<open>
  Over Redis the fee ceiling does not bound fees. The bucket of fees is incremented by one per
  settlement whatever was charged: after any number of a caller's settlements within a day, the
  check of the ceiling sees their number, not the sum of their fees.
\<close>

lemma redis_fee_uncapped:
  assumes "redis_usable st" "\<forall>(fee, clk) \<in> set xs. fee \<noteq> 0 \<and> window_start (clk 3) 86400 = window_start now 86400"
    "st' = record_all cfg ops req xs st"
  shows "redis_count st' (ownerId req) ''fee'' 86400 now = redis_count st (ownerId req) ''fee'' 86400 now + int (length xs)
    \<and> (ck_allowed (fst (checkAsync ops True (ownerId req) ''fee'' 86400 limit 50000 now st'))
        \<longleftrightarrow> redis_count st (ownerId req) ''fee'' 86400 now + int (length xs) + 50000 \<le> limit)"
  using record_all_fee [OF assms(1,2), of cfg ops req] checkAsync_redis(2) [of st' True ops] by (simp add: assms(3))

section \<open>Idempotency claims\<close>

text \<open>
  C17. A key is handed out at most once. Over any run of begins, completions and failures of other
  keys, by any number of requests, in which this key is not failed, at most one request is told it
  owns the key: in the memory store, and in the Postgres store while its database answers.
\<close>

theorem key_granted_once:
  assumes "idm_ok m" "ip_uses_db st" "truthy_steps xs" "Fail k \<notin> set xs"
  shows "idem_grants idm_begin idm_complete idm_fail idm_held k xs m \<le> 1
    \<and> idem_grants (idp_begin Idb_ok) (idp_complete True) (idp_fail True) idp_held k xs st \<le> 1"
  using idm.grants_once [OF assms(1,3,4)] idp.grants_once [OF assms(2-4)] by simp

lemma key_granted_once_witness:
  "idem_grants (idp_begin Idb_ok) (idp_complete True) (idp_fail True) idp_held ''k''
     [Begin ''k'', Begin ''k'', Fail ''j'', Complete ''k'' 200 (JObj []), Begin ''k''] ex_idem \<le> 1"
  using key_granted_once [of "[]" ex_idem "[Begin ''k'', Begin ''k'', Fail ''j'', Complete ''k'' 200 (JObj []), Begin ''k'']" "''k''"]
  by (simp add: idm_ok_def ip_uses_db_def ex_idem_def truthy_steps_def del: idem_grants.simps)

text \<open>
  A recorded answer is what every later request gets: after any run of steps that does not
  complete the key again, whatever is begun and failed in it, the key answers with the recorded
  code and response.
\<close>

lemma recorded_answer_replayed:
  assumes "ip_uses_db st" "truthy_steps xs" "idp_answer st k = Some (code, r)" "\<forall>code' r'. Complete k code' r' \<notin> set xs"
  shows "fst (idp_begin Idb_ok k (idem_after (idp_begin Idb_ok) (idp_complete True) (idp_fail True) idp_held xs st)) = Replayed code (Some r)"
  by (rule idp.answer_stays [OF assms])

text \<open>
  While a key is in flight its second request is told there is a conflict by the memory store,
  but is answered 200 with no body by the Postgres store, though nothing has been settled.
\<close>

lemma in_flight_key_answered:
  assumes "ip_uses_db st" "jm_get (ip_table st) k = None"
  shows "fst (idm_begin k (snd (idm_begin k []))) = Conflict
    \<and> fst (idp_begin Idb_ok k (snd (idp_begin Idb_ok k st))) = Replayed 200 None"
  using idm_in_flight idp_in_flight [OF assms] by simp

section \<open>Client addresses\<close>

text \<open>
  With a hop count, what a client writes in front of the forwarding header is ignored: the
  address resolved from a header that holds at least as many entries as there are trusted hops
  does not depend on anything prepended to it.
\<close>

lemma prepended_hops_ignored:
  assumes "max 0 n \<le> int (length forwarded)"
  shows "forwarded_client isIP num (Trust_hops n) (claimed @ forwarded) peer = forwarded_client isIP num (Trust_hops n) forwarded peer"
  using hop_client_prefix [OF assms] by (simp add: forwarded_client_def)



text \<open>
  C19. A prefix matches exactly its block: an address of the kind's width is matched by a network
  and a prefix length in range just when both fall in the same block of that size.
\<close>

theorem prefix_matches_block:
  assumes "kind \<in> {4, 6}" "bits = (if kind = 6 then 128 else 32)" "0 \<le> p" "p \<le> int bits"
    "0 \<le> addr" "addr < 2 ^ bits" "0 \<le> net" "net < 2 ^ bits"
  shows "cidr_match kind (Some (Some p)) net addr \<longleftrightarrow> addr div 2 ^ (bits - nat p) = net div 2 ^ (bits - nat p)"
  by (rule cidr_match_block [OF assms(5-8,3,4,2)])

lemma prefix_matches_block_witness:
  "cidr_match 4 (Some (Some 8)) (10 * 2 ^ 24) (10 * 2 ^ 24 + 77) \<and> \<not> cidr_match 4 (Some (Some 8)) (10 * 2 ^ 24) (11 * 2 ^ 24)"
  using prefix_matches_block [of 4 32 8 "10 * 2 ^ 24 + 77" "10 * 2 ^ 24"] prefix_matches_block [of 4 32 8 "11 * 2 ^ 24" "10 * 2 ^ 24"]
  by simp

text \<open>
  An allowlist entry that ends in a slash, an address with its prefix length forgotten, passes
  the entry check and then matches every address of its kind.
\<close>

lemma bare_slash_matches_all:
  assumes "CHR ''/'' \<notin> set a" "isIP a = 4" "js_trim a = a" "isIP ip = 4" "js_trim ip = ip"
  shows "isValidCidr isIP num (a @ ''/'') \<and> ipMatchesCidr isIP num ip (a @ ''/'')"
  using trailing_slash_allows_all [OF assms] by simp

section \<open>The catalog\<close>

text \<open>
  C20. The catalog stays bounded, as long as no write hands an existing listing to another payee:
  whatever writes, removals and sweeps run, it never holds more listings than its size, nor more of
  one payee than the cap, and the count per payee is exact.
\<close>

theorem catalog_bounded:
  assumes "0 \<le> maxCatalogSize cfg" "0 \<le> maxResourcesPerPayTo cfg" "moves_none cfg (scheduleEmbed provider) xs empty_catalog"
    "c = cat_run cfg (scheduleEmbed provider) xs empty_catalog"
  shows "int (length (ct_resources c)) \<le> maxCatalogSize cfg \<and> held p (ct_resources c) \<le> maxResourcesPerPayTo cfg
    \<and> counted p c = held p (ct_resources c)"
proof -
  have "counts_exact empty_catalog" "int (length (ct_resources empty_catalog)) \<le> maxCatalogSize cfg"
    "\<forall>p. held p (ct_resources empty_catalog) \<le> maxResourcesPerPayTo cfg"
    using assms(1,2) by (simp_all add: empty_catalog_def counts_exact_def counted_def)
  with run_cap [OF keeps_listing_schedule catalog_ok_empty _ _ assms(3), of p] run_size
  show ?thesis unfolding assms(4) counts_exact_def by blast
qed

lemma catalog_bounded_witness:
  "held ''A'' (ct_resources (cat_run (ex_limits_of 1) (scheduleEmbed False)
     [Up (ex_resource ''u'' ''A'') ''verify'' 0, Up (ex_resource ''v'' ''A'') ''verify'' 0] empty_catalog)) \<le> 1"
proof -
  have "moves_none (ex_limits_of 1) (scheduleEmbed False)
     [Up (ex_resource ''u'' ''A'') ''verify'' 0, Up (ex_resource ''v'' ''A'') ''verify'' 0] empty_catalog"
    by (simp add: ex_limits_of_def upsertResource_def empty_catalog_def ex_resource_def cat_key_def Let_def)
  from catalog_bounded [OF _ _ this refl, of "''A''"] show ?thesis by (simp add: ex_limits_of_def del: cat_run_simps)
qed

text \<open>
  The cap per payee is evaded by moving listings: registering any number of resources, each
  under a payee of its own, and handing each to one payee with a second verification, gives that
  payee all of them, with a cap of one.
\<close>

lemma payee_cap_evaded:
  assumes "distinct (map fst ps)" "distinct (map snd ps)" "int (length ps) \<le> maxCatalogSize cfg" "1 \<le> maxResourcesPerPayTo cfg"
    "rs_type r \<noteq> ''mcp''"
  shows "held payee (ct_resources (cat_run cfg (scheduleEmbed provider) (evade r payee now ps) empty_catalog)) = int (length ps)"
  by (rule evaded_held [OF evade_run [OF keeps_listing_schedule assms]])

text \<open>
  C21. What a payment listed stays listed, what was only verified lapses. A listing that a payment
  put there is public from then on, with its first date, until it is removed by name, whatever else
  is written or swept; a listing that is only ever verified is not public any more one time to live
  after its last verification.
\<close>

theorem listing_life:
  "(settled_listing (listing_key url tool) src first c \<and> src \<noteq> ''verify'' \<and> catalog_ok c
      \<and> (\<forall>x \<in> set xs. \<not> removes (listing_key url tool) x) \<longrightarrow>
      (\<exists>e. getResource now url tool (cat_run cfg (scheduleEmbed provider) xs c) = Some e \<and> en_first_seen e = first))
   \<and> (list_all (verifies_by (listing_key url tool) t) xs \<and> t + verifyTtlMs cfg \<le> now \<longrightarrow>
      getResource now url tool (cat_run cfg (scheduleEmbed provider) xs empty_catalog) = None)"
proof -
  let ?k = "listing_key url tool"
  have "provisional_by cfg ?k t empty_catalog" by (simp add: provisional_by_def empty_catalog_def)
  note lapses = provisional_run [OF keeps_listing_schedule this _ catalog_ok_empty, of xs provider]
  note stays = settled_run [OF keeps_listing_schedule, of src ?k first c xs cfg provider]
  show ?thesis
    using lapses stays isExpired_mono [of "t + verifyTtlMs cfg" _ now]
    by (auto simp: settled_listing_def provisional_by_def isPublic_def getResource_def split: option.splits)
      (auto simp: isExpired_def)
qed

lemma listing_life_witness:
  "(\<exists>e. getResource 9999 ''u'' None (cat_run (ex_limits_of 1) (scheduleEmbed False)
        [Up (ex_resource ''u'' ''A'') ''verify'' 6, Prune 9] ex_catalog) = Some e \<and> en_first_seen e = 5)
   \<and> getResource 1006 ''u'' None (cat_run (ex_limits_of 1) (scheduleEmbed False)
        [Up (ex_resource ''u'' ''A'') ''verify'' 6] empty_catalog) = None"
  using listing_life [of "''u''" None "''settle''" 5 ex_catalog "[Up (ex_resource ''u'' ''A'') ''verify'' 6, Prune 9]" 9999 "ex_limits_of 1" False]
    listing_life [where url = "''u''" and tool = None and t = 6 and xs = "[Up (ex_resource ''u'' ''A'') ''verify'' 6]"
      and cfg = "ex_limits_of 1" and now = 1006 and provider = False] ex_catalog_settled
  by (simp add: ex_limits_of_def listing_key_def del: cat_run_simps)

text \<open>
  C22. Paging is complete: a client that follows the cursors of a search until there is none gets
  every result of the ranking exactly once, no page longer than its limit, also when each page is
  reordered by a second ranking pass.
\<close>

theorem pages_complete:
  assumes "1 \<le> nullish_or (sp_limit p) 20" "reorders rr" "sp_cursor p = None" "catalog_ok c"
    "r = ranking coll now (if provider then qv else None) p c" "length r < n"
  shows "mset (concat (walk n coll provider qv rr now p c)) = mset r \<and> distinct (map cat_key r)
    \<and> (\<forall>pg \<in> set (walk n coll provider qv rr now p c). int (length pg) \<le> nullish_or (sp_limit p) 20)"
  using walk_complete [OF assms(1-3,5,6)] distinct_ranking [OF assms(4)] by (simp add: assms(5))

lemma pages_complete_witness:
  "\<exists>n. mset (concat (walk n (\<lambda>s. s) False None None 9 ex_search ex_catalog)) = mset (ranking (\<lambda>s. s) 9 None ex_search ex_catalog)"
proof -
  have "1 \<le> nullish_or (sp_limit ex_search) 20" "reorders None" "sp_cursor ex_search = None"
    by (simp_all add: ex_search_def reorders_def nullish_or_def)
  from pages_complete [OF this ex_catalog_settled(2) refl lessI, where provider = False and qv = None]
  show ?thesis by (auto simp del: walk.simps)
qed



text \<open>
  A padded filter poisons the cache. The key trims a payee filter, the search does not: after a
  search for a payee with a blank behind it, which finds nothing, the search for that payee is
  answered with nothing too.
\<close>

lemma padded_filter_poisons:
  assumes "fl_payTo p = Some a" "\<forall>e \<in> snd ` set (ct_resources c). rs_payTo e \<noteq> a @ '' ''" "1 \<le> cap" "t2 < t1 + ttl"
    "k = cache_key (ct_version c) p"
  shows "\<exists>page. pg_resources page = []
    \<and> cache_run store_version (store_answer coll)
        [E_search (p\<lparr>fl_payTo := Some (a @ '' '')\<rparr>) t0, E_load k, E_finish True k t1, E_search p t2]
        (new_cache cap ttl usable (c, now)) = [(k, page), (k, page)]"
proof -
  let ?q = "p\<lparr>fl_payTo := Some (a @ '' '')\<rparr>"
  have "p\<lparr>fl_payTo := Some a\<rparr> = p" using assms(1) by simp
  then have key: "searchCacheKey p = searchCacheKey ?q" using key_padded [of a p] by simp
  have "pg_resources (store_answer coll (c, now) ?q) = []"
    unfolding store_answer_def
    by (rule search_none) (use assms(2) in \<open>auto simp: passes_filters_def narrows_def filters.defs\<close>)
  moreover have "k = cache_key (store_version (c, now)) ?q"
    using key by (simp add: assms(5) cache_key_def store_version_def)
  from second_served [where ver = store_version, OF key assms(3,4) this]
  have "cache_run store_version (store_answer coll) [E_search ?q t0, E_load k, E_finish True k t1, E_search p t2]
      (new_cache cap ttl usable (c, now)) = [(k, store_answer coll (c, now) ?q), (k, store_answer coll (c, now) ?q)]" .
  ultimately show ?thesis by blast
qed



text \<open>
  A removed listing can come back. Its row is written after the memory copy: when an operator
  removes the listing while that write is still on its way, the removal is confirmed and memory
  forgets the listing, but the write puts the row back and the next process lists it again.
\<close>

lemma deleted_listing_returns:
  assumes "durable st" "jm_wf (pc_table st)" "cat_key r = listing_key url tool"
    "pc_upsert cfg provider r source now st = (Inr e, st0)" "pc_delete True url tool now' st0 = (res, st1)"
  shows "e \<in> set (pc_jobs st1) \<and> (\<exists>d. res = Inr (Some d)) \<and> jm_get (ct_resources (pc_mem st1)) (cat_key r) = None
    \<and> (\<exists>e'. jm_get (ct_resources (pc_mem (pc_boot provider (pc_table (pc_persist True e st1))))) (cat_key r) = Some e'
         \<and> listing e' = listing e)"
  by (rule late_row_boots [OF assms])

section \<open>Locks and keys\<close>

text \<open>
  C25. The in-process lock excludes and is fair: however calls on any keys begin and end, two that
  run at once hold different keys, and a call runs only when every earlier call on its key is done.
\<close>

theorem lock_exclusive:
  assumes "lock_reachable st" "lock_held i st" "tk_key (lk_tickets st ! j) = tk_key (lk_tickets st ! i)"
  shows "(lock_held j st \<longrightarrow> i = j) \<and> (j < i \<longrightarrow> j \<in> lk_released st)"
  using granted_after [OF reachable_chain [OF assms(1)], of i j] granted_after [OF reachable_chain [OF assms(1)], of j i] assms(2,3)
  by (auto simp: lock_held_def dest: linorder_neqE_nat)

lemma lock_exclusive_witness:
  "lock_held 0 (snd (lock_acquire ''k'' (snd (lock_acquire ''k'' no_locks))))
    \<and> \<not> lock_held 1 (snd (lock_acquire ''k'' (snd (lock_acquire ''k'' no_locks))))"
  using lock_exclusive [of "snd (lock_acquire ''k'' (snd (lock_acquire ''k'' no_locks)))" 0 1] ex_lock by auto

text \<open>
  C26. A signing key in use is not dropped: through any rotations, snapshots, releases and purges,
  the generation of every snapshot not yet released is still there, with its leases counting its
  holders, and so is the current one.
\<close>

theorem leased_keys_survive:
  assumes "new_key_manager sha256 valid secrets now = Inr km" "fold km_apply xs (km, []) = (km', hs)"
    "g = km_current km' \<or> g \<in> set hs"
  shows "\<exists>s. jm_get (km_gens km') g = Some s \<and> gn_entries s \<noteq> [] \<and> (\<forall>e \<in> set (gn_entries s). ke_leases e = count_list hs g)"
proof -
  have ok: "leases_ok km' hs" by (rule leases_ok_run [OF leases_ok_new [OF assms(1)] assms(2)])
  then obtain s where s: "jm_get (km_gens km') g = Some s" using assms(3) by (auto simp: leases_ok_def)
  with ok map_of_SomeD [OF s] show ?thesis by (fastforce simp: leases_ok_def)
qed

lemma leased_keys_survive_witness:
  "\<exists>km km' s. new_key_manager (\<lambda>s. s) (\<lambda>_. True) [Plain ''S1''] 0 = Inr km
    \<and> fold km_apply [K_snapshot, K_install [(''k2'', ''S2'')] 10, K_purge 100000] (km, []) = (km', [1])
    \<and> jm_get (km_gens km') 1 = Some s"
proof -
  obtain km km' where k: "new_key_manager (\<lambda>s. s) (\<lambda>_. True) [Plain ''S1''] 0 = Inr km"
    "fold km_apply [K_snapshot, K_install [(''k2'', ''S2'')] 10, K_purge 100000] (km, []) = (km', [1])"
    using ex_rotation by blast
  from leased_keys_survive [OF k, of 1] k show ?thesis by auto
qed

section \<open>Calls to the RPC nodes\<close>



text \<open>
  C28. A response the retrying fetch returns is one the node gave: on one of the configured
  attempts, after retryable connection failures on all earlier ones; the host's breaker is then
  closed with no failures.
\<close>

theorem fetched_response_genuine:
  assumes "fetch_host cfg env protected host start b = (Inr r, b', pauses)"
  shows "\<exists>i. 1 \<le> i \<and> i \<le> rc_attempts cfg \<and> de_dial env i = Response r
      \<and> (\<forall>j. 1 \<le> j \<and> j < i \<longrightarrow> (\<exists>code \<in> set RETRYABLE. de_dial env j = Fails (Some code)))
      \<and> br_state b' = Closed \<and> br_failures b' = 0"
proof -
  obtain d b1 where "fetch_loop cfg env d (rc_attempts cfg) 1 No_attempt b1 = (Inr r, b', pauses)"
    using assms by (auto simp: fetch_host_def Let_def split: if_splits prod.splits)
  from fetch_loop_response [OF this] show ?thesis by fastforce
qed

lemma fetched_response_genuine_witness: "\<exists>i. 1 \<le> i \<and> i \<le> rc_attempts ex_retry \<and> de_dial ex_flaky i = Response 7"
proof -
  obtain b' where "fetch_host ex_retry ex_flaky False ''h'' 0 new_breaker = (Inr 7, b', [(1, 250)])" using ex_flaky_fetch by blast
  from fetched_response_genuine [OF this] show ?thesis by blast
qed

text \<open>
  Retries are bounded: a call pauses after its first attempts, in order, fewer times than it
  has attempts, and every pause ends within the call's deadline.
\<close>

lemma retries_bounded:
  assumes "fetch_host cfg env protected host start b = (res, b', pauses)"
  shows "map fst pauses = [1..<1 + length pauses] \<and> length pauses \<le> rc_attempts cfg - 1
    \<and> (\<forall>d. fetch_deadline (rc_deadline_ms cfg) start = Some d \<longrightarrow> (\<forall>(i, delay) \<in> set pauses. de_after env i + delay \<le> d))"
proof (cases "fst (if protected then (True, b) else gate (rc_cooldown cfg) start b)")
  case False
  with assms show ?thesis by (auto simp: fetch_host_def Let_def split: if_splits prod.splits)
next
  case True
  then obtain b1 where
    l: "fetch_loop cfg env (fetch_deadline (rc_deadline_ms cfg) start) (rc_attempts cfg) 1 No_attempt b1 = (res, b', pauses)"
    using assms by (auto simp: fetch_host_def Let_def split: if_splits prod.splits)
  then show ?thesis using fetch_loop_pauses fetch_loop_deadline by (metis (no_types, lifting) case_prodI2 snd_conv)
qed

text \<open>
  The pause before a retry is at least the exponential delay of its attempt and at most the
  configured maximum, whatever the random draw.
\<close>

lemma backoff_bounded:
  assumes "0 \<le> bo_base cfg" "0 \<le> bo_max cfg" "\<forall>b > 0. 0 \<le> draw b \<and> draw b < b"
  shows "exp_delay cfg n \<le> calculateBackoff draw cfg n \<and> calculateBackoff draw cfg n \<le> bo_max cfg"
  by (rule calculateBackoff_bounds [OF assms])

text \<open>
  A call that broadcasts a transaction is never refused by an open breaker, and a half-open
  breaker whose probe was cut off refuses every other call for ever: the only step left from there
  is such a broadcast, and the situation is reachable.
\<close>

lemma broadcast_passes_breaker_can_wedge:
  assumes "0 \<le> cooldown"
  shows "fst (fetch_host cfg env True host start b0) \<noteq> Inl (Breaker_open h)
    \<and> (\<exists>b. rpc_reachable 1 cooldown (b, []) \<and> br_state b = Half_open
         \<and> (\<forall>s'. rpc_step 1 cooldown (b, []) s' \<longrightarrow> (\<exists>i. s' = (b, [(i, True, False)]))))"
  using protected_not_refused wedged_reachable [OF assms] wedged [of 1 cooldown] by (metis zero_less_one)

section \<open>Co-signing\<close>


text \<open>
  What an envelope pins stays pinned: through any run that does not open it again, it keeps
  its transaction, threshold, authorised signers and deadline, and no collected signer is lost.
\<close>

lemma envelope_terms_pinned:
  assumes "not_recreated i xs" "jm_get p i = Some e"
  shows "\<exists>e'. jm_get (fold ms_apply xs p) i = Some e' \<and> same_terms e e' \<and> fst ` set (en_sigs e) \<subseteq> fst ` set (en_sigs e')"
  using ms_run_keeps [OF assms(1), of p] assms(2) by (simp add: envelope_kept_def)


section \<open>Failover\<close>

text \<open>
  Health reports move the local region exactly as configured: after any reports, the next one
  takes it out of healthy if and only if it completes an unbroken run of as many failures as the
  threshold, and back to healthy if and only if it completes an unbroken run of as many successes
  as the recovery threshold.
\<close>

lemma failover_turns_on_runs:
  assumes "0 < fo_failure_threshold cfg" "0 < fo_recovery_threshold cfg"
  shows "fo_status (after cfg (bs @ [b]) fo_init) = Healthy \<longleftrightarrow>
    (if fo_status (after cfg bs fo_init) = Healthy then \<not> ends_in False (fo_failure_threshold cfg) (bs @ [b])
     else ends_in True (fo_recovery_threshold cfg) (bs @ [b]))"
  by (rule status_turns [OF assms])

section \<open>Keys\<close>

text \<open>
  A presented key is accepted only for a configured key whose hash is its own, that is not
  revoked and has not expired.
\<close>

lemma accepted_key_is_usable:
  assumes "verifyApiKey sha256 header keys now = Inr i"
  shows "\<exists>secret k. presented_key header = Inr secret \<and> k \<in> set keys \<and> ak_id k = i \<and> ak_hash k = sha256 secret
    \<and> \<not> ak_revoked k \<and> (\<forall>e. ak_expires_at k = Some e \<longrightarrow> now < e)"
  by (rule verifyApiKey_Inr [OF assms])

section \<open>Reads of a replica\<close>

text \<open>
  C30. The read that waits for a lagging replica ends: its pauses are at least 25 ms, so within
  lagMs / 25 + 2 reads it answers, and what it answers is a row some read saw, or what the primary
  holds.
\<close>

theorem replica_read_ends:
  assumes "paced reads" "nat (lagMs div 25 + 1) < length reads"
  shows "\<exists>r. pg_queryGetWithLag lagMs (Some reads) k db = Some r
    \<and> (r = proj_get db k \<or> (\<exists>row t. (Some (Some row), t) \<in> set reads \<and> r = Some row))"
  using lag_loop_paced_ends [OF assms, of "proj_get db k"] lag_loop_result [of lagMs reads "proj_get db k"]
  by (auto simp: pg_queryGetWithLag_def)

lemma replica_read_ends_witness:
  "\<exists>r. pg_queryGetWithLag 20 (Some [(Some None, 0), (Some None, 25)]) ''k'' empty_db = Some r"
  using replica_read_ends [of "[(Some None, 0), (Some None, 25)]" 20 "''k''" empty_db]
  by (auto simp: paced_def less_Suc_eq)

section \<open>The configuration\<close>

text \<open>
  C31. A configuration that start-up accepts is well formed: the port is a port, testnet is always
  served and pubnet exactly when it was asked for, every network has distinct signing seeds that are
  seeds and fee ceilings within their bounds, and every API key has a plain identifier, is revoked as
  the environment says, and is held only as the hash of a secret of full length.
\<close>

theorem configuration_well_formed:
  assumes "resolveConfig ce env = Inr c"
  shows "1 \<le> kc_port c \<and> kc_port c \<le> 65535
    \<and> TESTNET_ID \<in> set (kc_networks c) \<and> (PUBNET_ID \<in> set (kc_networks c) \<longleftrightarrow> jm_get env ''ENABLE_PUBNET'' = Some ''true'')
    \<and> (\<forall>(n, nc) \<in> set (kc_perNetwork c). net_ok ce nc)
    \<and> list_all (key_ok ce (revokedApiKeyIds env)) (kc_apiKeys c)"
  using config_bounds [OF assms] config_keys [OF assms] pubnet_opt_in(1,2) [OF assms] by simp

lemma configuration_well_formed_witness:
  "\<exists>c. resolveConfig ex_checks ex_process_env = Inr c \<and> (\<forall>(n, nc) \<in> set (kc_perNetwork c). net_ok ex_checks nc)
     \<and> PUBNET_ID \<in> set (kc_networks c)"
proof -
  obtain c where c: "resolveConfig ex_checks ex_process_env = Inr c" using ex_configured by blast
  have "jm_get ex_process_env ''ENABLE_PUBNET'' = Some ''true''" by (simp add: ex_process_env_def)
  with configuration_well_formed [OF c] c show ?thesis by blast
qed

section \<open>Who gets in\<close>

text \<open>
  C32. Where keys or tokens are configured nobody is let in without credentials: the caller presented
  the secret of a configured key that is neither revoked nor expired, or a token that was verified
  and carries every required scope; and the identity attached to the request is that one's.
\<close>

theorem caller_is_authentic:
  assumes "requireCallerStrict sha256 apiKeys jwt authHeader now = Inr c"
  shows "\<exists>h. authHeader = Some h \<and> (by_key sha256 apiKeys h now c \<or> (\<exists>jw. jwt = Some jw \<and> by_token jw h c))"
  by (rule caller_authentic [OF assms])

lemma caller_is_authentic_witness:
  "by_key (\<lambda>s. s) ex_api_keys ''Bearer secret'' 10 \<lparr>cl_keyId = Some ''SHOP'', cl_scopes = None\<rparr>"
  using caller_is_authentic [OF ex_caller_in] by simp

section \<open>Pact payments\<close>



text \<open>
  C34. Two conditions have one canonical text, and so one hash, exactly when they are the same JSON value
  up to the order of the properties of its objects, at every depth.
\<close>

theorem condition_text_exact: "canonicalize a = canonicalize b \<longleftrightarrow> ordered a = ordered b"
  by (rule canonicalize_iff)

section \<open>The agent's wallet\<close>



section \<open>Payment URIs\<close>

text \<open>
  C36. A payment URI that the builder gives out is read back by the parser to exactly the parameters it
  was built from, for every text a query can carry, as long as it is within the parser's length limit.
\<close>

theorem pay_uri_round_trip:
  assumes "buildPayUri env unknown p = Built uri" "writable p" "amount_written p" "length uri \<le> MAX_URI_LENGTH"
  shows "parsePayUri env (Some uri) = Inr (as_text p)"
  by (rule built_is_parsed [OF assms])

lemma pay_uri_round_trip_witness:
  "parsePayUri ex_sep7 (Some ''web+stellar:pay?destination=GA&amount=1.5&msg=a%20b'') = Inr (as_text ex_pay)"
  using pay_uri_round_trip [OF ex_built ex_writable] by (simp add: MAX_URI_LENGTH_def)

section \<open>Webhooks\<close>



section \<open>Readiness\<close>



section \<open>Logs and retention\<close>


text \<open>
  C40. A purge ends with its work done, a rehearsal of it may not end. Whatever order the statements see
  the rows in, a purge that deletes reports as many rows as were old, and leaves exactly the others;
  a dry run over at least one full batch of old rows has no result at all.
\<close>

theorem retention_batches_end:
  assumes "scans_all env" "\<forall>i. pz_fails env i = None" "0 < batch" "distinct (map fst (pu_rows p))"
  shows "(\<exists>q. runBatchDelete env batch False i p
        = Some (Inr (pu_deleted p + length (old_rows env (pu_rows p)), pu_archived p + length (old_rows env (pu_rows p))), q)
      \<and> pu_rows q = kept_rows env (pu_rows p))
    \<and> (batch \<le> length (old_rows env (pu_rows p)) \<longrightarrow> runBatchDelete env batch True i p = None)"
  using purge_ends [OF assms, of i] dry_run_loops [OF assms(1-3), of p i] by blast

lemma retention_batches_end_witness:
  "(\<exists>q. runBatchDelete ex_purge_env 2 False 0 \<lparr>pu_rows = ex_table, pu_archive = [], pu_deleted = 0, pu_archived = 0\<rparr> = Some (Inr (3, 3), q)
      \<and> map fst (pu_rows q) = [3, 4])
   \<and> runBatchDelete ex_purge_env 2 True 0 \<lparr>pu_rows = ex_table, pu_archive = [], pu_deleted = 0, pu_archived = 0\<rparr> = None"
  using retention_batches_end [OF ex_purge_ok, of 2 "\<lparr>pu_rows = ex_table, pu_archive = [], pu_deleted = 0, pu_archived = 0\<rparr>" 0] ex_table_old
  by auto

end
